(* ===== verification/Prelude.thy ===== *)
theory Prelude
  imports Main "HOL-Library.List_Lexorder" "HOL-Library.Char_ord" "HOL-Library.Multiset"
begin

section \<open>Prelude: text, byte order and POSIX paths\<close>

text \<open>
  What every component shares: JavaScript strings as \<^typ>\<open>string\<close>, the string methods
  the sources call (\<open>startsWith\<close>, \<open>endsWith\<close>, \<open>includes\<close>, \<open>trim\<close>, \<open>split\<close>,
  \<open>join\<close>), the UTF-8 byte view behind \<open>Buffer.from(s, "utf8")\<close> and
  \<open>Buffer.byteLength\<close>, and \<open>posix.normalize\<close> of Node's path library.

  A character of the model is one UTF-16 code unit below 256, so the strings of the model are
  the Latin-1 fragment of JavaScript's; on that fragment code-unit order, code-point order and
  UTF-8 byte order coincide, which \<open>byte_compare_order\<close> below proves for the comparison the
  sources write out with \<open>Buffer.compare\<close>.
\<close>

named_theorems text_facts
named_theorems path_facts

subsection \<open>String methods\<close>

abbreviation code_of :: "char \<Rightarrow> nat" where
  "code_of c \<equiv> of_char c"

definition starts_with :: "string \<Rightarrow> string \<Rightarrow> bool" where
  "starts_with p s = (take (length p) s = p)"

definition ends_with :: "string \<Rightarrow> string \<Rightarrow> bool" where
  "ends_with p s = (length p \<le> length s \<and> drop (length s - length p) s = p)"

fun contains_text :: "string \<Rightarrow> string \<Rightarrow> bool" where
  "contains_text p [] = (p = [])"
| "contains_text p (c # cs) = (starts_with p (c # cs) \<or> contains_text p cs)"

text \<open>\<open>String.prototype.slice(0, -n)\<close> for a positive \<open>n\<close>.\<close>

definition drop_last :: "nat \<Rightarrow> string \<Rightarrow> string" where
  "drop_last n s = take (length s - n) s"

definition is_js_space :: "char \<Rightarrow> bool" where
  "is_js_space c = (9 \<le> code_of c \<and> code_of c \<le> (13::nat) \<or> code_of c = (32::nat) \<or> code_of c = (160::nat))"

definition js_trim :: "string \<Rightarrow> string" where
  "js_trim s = rev (dropWhile is_js_space (rev (dropWhile is_js_space s)))"

fun split_on :: "char \<Rightarrow> string \<Rightarrow> string list" where
  "split_on d [] = [[]]"
| "split_on d (c # cs) =
     (if c = d then [] # split_on d cs
      else (case split_on d cs of [] \<Rightarrow> [[c]] | p # ps \<Rightarrow> (c # p) # ps))"

fun join_with :: "string \<Rightarrow> string list \<Rightarrow> string" where
  "join_with sep [] = []"
| "join_with sep [p] = p"
| "join_with sep (p # q # ps) = p @ sep @ join_with sep (q # ps)"

definition is_digit :: "char \<Rightarrow> bool" where
  "is_digit c = (48 \<le> code_of c \<and> code_of c \<le> (57::nat))"

definition is_upper :: "char \<Rightarrow> bool" where
  "is_upper c = (65 \<le> code_of c \<and> code_of c \<le> (90::nat))"

definition is_lower :: "char \<Rightarrow> bool" where
  "is_lower c = (97 \<le> code_of c \<and> code_of c \<le> (122::nat))"

definition is_alnum :: "char \<Rightarrow> bool" where
  "is_alnum c = (is_digit c \<or> is_upper c \<or> is_lower c)"

definition is_lower_hex :: "char \<Rightarrow> bool" where
  "is_lower_hex c = (is_digit c \<or> 97 \<le> code_of c \<and> code_of c \<le> (102::nat))"

text \<open>The pattern \<open>/^[a-f0-9]{64}$/\<close>, which every module uses for SHA-256 digests.\<close>

definition hash_re :: "string \<Rightarrow> bool" where
  "hash_re s = (length s = 64 \<and> list_all is_lower_hex s)"

text \<open>C0 controls and DEL, the class \<open>[\u0000-\u001f\u007f]\<close>.\<close>

definition is_control :: "char \<Rightarrow> bool" where
  "is_control c = (code_of c < (32::nat) \<or> code_of c = (127::nat))"

text \<open>
  \<open>String.prototype.toLowerCase\<close> on one code unit: A-Z and the Latin-1 capitals shift by 32.
\<close>

definition to_lower_char :: "char \<Rightarrow> char" where
  "to_lower_char c =
     (if is_upper c \<or> (192 \<le> code_of c \<and> code_of c \<le> (222::nat) \<and> code_of c \<noteq> (215::nat))
      then char_of (code_of c + 32 :: nat) else c)"

definition to_lower :: "string \<Rightarrow> string" where
  "to_lower s = map to_lower_char s"

text \<open>Decimal digits, as template literals print a non-negative integer.\<close>

fun nat_text :: "nat \<Rightarrow> string" where
  "nat_text n = (if n < 10 then [char_of (48 + n)] else nat_text (n div 10) @ [char_of (48 + n mod 10)])"

declare nat_text.simps [simp del]

definition int_text :: "int \<Rightarrow> string" where
  "int_text i = (if i < 0 then CHR ''-'' # nat_text (nat (- i)) else nat_text (nat i))"

text \<open>The value of a text of decimal digits.\<close>

fun decimal_value :: "nat \<Rightarrow> string \<Rightarrow> nat" where
  "decimal_value acc [] = acc"
| "decimal_value acc (c # cs) = decimal_value (10 * acc + (code_of c - 48)) cs"

subsection \<open>UTF-8\<close>

definition utf8_char :: "char \<Rightarrow> nat list" where
  "utf8_char c =
     (let n = code_of c in if n < 128 then [n] else [192 + n div 64, 128 + n mod 64])"

definition utf8 :: "string \<Rightarrow> nat list" where
  "utf8 s = concat (map utf8_char s)"

definition byte_length :: "string \<Rightarrow> nat" where
  "byte_length s = length (utf8 s)"

text \<open>\<open>Buffer.from(left).compare(Buffer.from(right))\<close>: the sign of the byte-wise comparison.\<close>

definition byte_compare :: "string \<Rightarrow> string \<Rightarrow> int" where
  "byte_compare l r = (if utf8 l < utf8 r then -1 else if utf8 l = utf8 r then 0 else 1)"

lemma utf8_simps [simp]:
  "utf8 [] = []"
  "utf8 (c # cs) = utf8_char c @ utf8 cs"
  by (simp_all add: utf8_def)

lemma code_of_bound [simp]: "code_of c < (256::nat)"
  by (cases c) (simp add: of_char_def horner_sum_simps)

lemma utf8_char_less:
  assumes "code_of c < (code_of d :: nat)"
  shows "utf8_char c @ xs < utf8_char d @ ys"
proof -
  consider "code_of d < (128::nat)" | "code_of c < (128::nat)" "\<not> code_of d < (128::nat)"
    | "\<not> code_of c < (128::nat)" "\<not> code_of d < (128::nat)" by blast
  then show ?thesis
  proof cases
    case 1
    with assms show ?thesis by (simp add: utf8_char_def Let_def)
  next
    case 2
    then show ?thesis by (simp add: utf8_char_def Let_def)
  next
    case 3
    have le: "code_of c div 64 \<le> code_of d div (64::nat)" using assms by (simp add: div_le_mono)
    show ?thesis
    proof (cases "code_of c div 64 = code_of d div (64::nat)")
      case True
      have "code_of c mod 64 < code_of d mod (64::nat)"
        using assms True by (metis add_less_cancel_left mult_div_mod_eq)
      with 3 True show ?thesis by (simp add: utf8_char_def Let_def)
    next
      case False
      with le 3 show ?thesis by (simp add: utf8_char_def Let_def)
    qed
  qed
qed

lemma utf8_char_nonempty [simp]: "utf8_char c \<noteq> []"
  by (simp add: utf8_char_def Let_def)

lemma append_less_cancel: "(xs @ ys < xs @ zs) = (ys < (zs :: nat list))"
  by (induction xs) auto

lemma utf8_less: "s < t \<Longrightarrow> utf8 s < utf8 t"
proof (induction s arbitrary: t)
  case Nil
  then obtain c cs where "t = c # cs" by (cases t) auto
  then show ?case by (cases "utf8_char c") auto
next
  case (Cons c cs)
  then obtain d ds where t: "t = d # ds" by (cases t) auto
  show ?case
  proof (cases "c = d")
    case True
    with Cons.prems t have "cs < ds" by simp
    then have "utf8 cs < utf8 ds" by (rule Cons.IH)
    with True t show ?thesis by (simp add: append_less_cancel)
  next
    case False
    with Cons.prems t have "c < d" by simp
    then have "code_of c < (code_of d :: nat)" by (simp add: less_char_def)
    then have "utf8_char c @ utf8 cs < utf8_char d @ utf8 ds" by (rule utf8_char_less)
    with t show ?thesis by simp
  qed
qed

lemma utf8_inj [simp]: "(utf8 s = utf8 t) = (s = t)"
  using utf8_less by (metis less_irrefl linorder_neqE)

text \<open>The byte comparison the sources sort with is the lexicographic order of the model.\<close>

lemma byte_compare_order:
  "byte_compare s t < 0 \<longleftrightarrow> s < t"
  "byte_compare s t = 0 \<longleftrightarrow> s = t"
  "byte_compare s t > 0 \<longleftrightarrow> t < s"
  using utf8_less[of s t] utf8_less[of t s] linorder_less_linear[of s t]
  by (auto simp: byte_compare_def)

lemma byte_length_ge: "length s \<le> byte_length s"
proof -
  have "length s \<le> length (utf8 s)"
  proof (induction s)
    case (Cons c cs)
    have "1 \<le> length (utf8_char c)" by (simp add: utf8_char_def Let_def)
    with Cons show ?case by simp
  qed simp
  then show ?thesis by (simp add: byte_length_def)
qed

subsection \<open>Facts about the string methods\<close>

lemma starts_with_append [text_facts]: "starts_with p s \<longleftrightarrow> (\<exists>r. s = p @ r)"
  unfolding starts_with_def by (metis append_eq_conv_conj append_take_drop_id)

lemma ends_with_append [text_facts]: "ends_with p s \<longleftrightarrow> (\<exists>r. s = r @ p)"
proof
  assume "ends_with p s"
  then have "s = take (length s - length p) s @ p"
    by (metis append_take_drop_id ends_with_def)
  then show "\<exists>r. s = r @ p" by blast
qed (auto simp: ends_with_def)

lemma drop_last_append [simp]: "drop_last (length p) (r @ p) = r"
  by (simp add: drop_last_def)

lemma split_on_nonempty [simp]: "split_on d s \<noteq> []"
  by (induction s) (auto split: list.splits)

lemma join_split [simp]: "join_with [d] (split_on d s) = s"
proof (induction s)
  case (Cons c cs)
  show ?case
  proof (cases "split_on d cs")
    case Nil
    then show ?thesis by (simp add: split_on_nonempty)
  next
    case (Cons p ps)
    with Cons.IH show ?thesis by (cases ps) auto
  qed
qed simp

lemma split_on_segment: "p \<in> set (split_on d s) \<Longrightarrow> d \<notin> set p"
  by (induction s arbitrary: p) (auto split: if_splits list.splits)

lemma split_on_no_sep: "d \<notin> set s \<Longrightarrow> split_on d s = [s]"
  by (induction s) auto

lemma split_on_append: "d \<notin> set p \<Longrightarrow> split_on d (p @ d # r) = p # split_on d r"
  by (induction p) auto

lemma split_join:
  "ps \<noteq> [] \<Longrightarrow> \<forall>p\<in>set ps. d \<notin> set p \<Longrightarrow> split_on d (join_with [d] ps) = ps"
  by (induction "[d]" ps rule: join_with.induct) (auto simp: split_on_no_sep split_on_append)

lemma js_trim_fixed: "js_trim s = s \<longleftrightarrow> s = [] \<or> \<not> is_js_space (hd s) \<and> \<not> is_js_space (last s)"
proof (cases s)
  case (Cons c cs)
  have back_end: "rev (dropWhile is_js_space (rev t)) = t \<longleftrightarrow> \<not> is_js_space (last t)" if "t \<noteq> []" for t
  proof -
    obtain ts x where t: "t = ts @ [x]" using \<open>t \<noteq> []\<close> by (cases t rule: rev_cases) auto
    have "length (dropWhile is_js_space (rev ts)) \<le> length ts" by (metis length_dropWhile_le length_rev)
    then have "rev (dropWhile is_js_space (rev ts)) \<noteq> ts @ [x]" by (metis Suc_n_not_le_n length_append_singleton length_rev)
    then show ?thesis by (auto simp: t)
  qed
  show ?thesis
  proof (cases "is_js_space c")
    case True
    have "length (dropWhile is_js_space s) \<le> length cs" using True Cons by (simp add: length_dropWhile_le)
    then have "length (js_trim s) \<le> length cs"
      by (metis js_trim_def le_trans length_dropWhile_le length_rev)
    then have "js_trim s \<noteq> s" using Cons by auto
    with True Cons show ?thesis by simp
  next
    case False
    then have "js_trim s = rev (dropWhile is_js_space (rev s))" using Cons by (simp add: js_trim_def)
    with False Cons back_end[of s] show ?thesis by simp
  qed
qed (simp add: js_trim_def)

lemma js_trim_idem [simp]: "js_trim (js_trim s) = js_trim s"
proof (cases "js_trim s = []")
  case False
  let ?t = "dropWhile is_js_space s" and ?u = "js_trim s"
  have u: "rev ?u = dropWhile is_js_space (rev ?t)" by (simp add: js_trim_def)
  have ne: "dropWhile is_js_space (rev ?t) \<noteq> []" using False u by (metis rev_is_Nil_conv)
  have "\<not> is_js_space (hd (rev ?u))" unfolding u by (rule hd_dropWhile[OF ne])
  then have last: "\<not> is_js_space (last ?u)" by (simp add: hd_rev)
  have "rev ?t = takeWhile is_js_space (rev ?t) @ rev ?u" by (simp add: u)
  then have "?t = ?u @ rev (takeWhile is_js_space (rev ?t))" by (metis rev_append rev_rev_ident)
  then have "hd ?t = hd ?u" "?t \<noteq> []" using False by (metis hd_append, metis append_is_Nil_conv)
  then have "\<not> is_js_space (hd ?u)" using hd_dropWhile by metis
  with last False show ?thesis by (simp add: js_trim_fixed)
next
  case True
  have "js_trim [] = []" by (simp add: js_trim_def)
  with True show ?thesis by (simp only: True)
qed

subsection \<open>POSIX path normalisation\<close>

text \<open>
  \<open>posix.normalize\<close>: empty and \<open>.\<close> segments vanish, \<open>..\<close> removes the segment before
  it; a relative path keeps the \<open>..\<close> that climb above its start. One trailing slash stays.
\<close>

fun norm_segments :: "bool \<Rightarrow> string list \<Rightarrow> string list \<Rightarrow> string list" where
  "norm_segments up acc [] = rev acc"
| "norm_segments up acc (s # ss) =
     (if s = [] \<or> s = ''.'' then norm_segments up acc ss
      else if s = ''..'' then
        (case acc of
           [] \<Rightarrow> norm_segments up (if up then [''..''] else []) ss
         | a # as \<Rightarrow>
             (if a = ''..'' then norm_segments up (''..'' # acc) ss
              else norm_segments up as ss))
      else norm_segments up (s # acc) ss)"

definition posix_is_absolute :: "string \<Rightarrow> bool" where
  "posix_is_absolute p = starts_with ''/'' p"

definition posix_normalize :: "string \<Rightarrow> string" where
  "posix_normalize p =
     (if p = [] then ''.''
      else
        (let absolute = posix_is_absolute p;
             trailing = ends_with ''/'' p;
             body = join_with ''/'' (norm_segments (\<not> absolute) [] (split_on (CHR ''/'') p))
         in if body = []
            then (if absolute then ''/'' else if trailing then ''./'' else ''.'')
            else (if absolute then ''/'' else []) @ body @ (if trailing then ''/'' else [])))"

text \<open>
  The segments of a normalised relative path: all its \<open>..\<close> come first, and no segment is
  empty or \<open>.\<close>.
\<close>

definition dots_first :: "string list \<Rightarrow> bool" where
  "dots_first ss = (''..'' \<notin> set (dropWhile (\<lambda>s. s = ''..'') ss))"

lemma dots_first_snoc:
  "dots_first (ss @ [s]) = (dots_first ss \<and> (s = ''..'' \<longrightarrow> set ss \<subseteq> {''..''}))"
proof (induction ss)
  case (Cons a ss)
  then show ?case by (auto simp: dots_first_def)
qed (simp add: dots_first_def)

lemma norm_segments_dots:
  assumes "dots_first (rev acc)"
  shows "dots_first (norm_segments True acc ss)"
  using assms
proof (induction "True" acc ss rule: norm_segments.induct)
  case (2 acc s ss)
  show ?case
  proof (cases "s = ''..''")
    case True
    show ?thesis
    proof (cases acc)
      case Nil
      then show ?thesis using 2 True by (simp add: dots_first_def)
    next
      case (Cons a as)
      show ?thesis
      proof (cases "a = ''..''")
        case dot: True
        with Cons "2.prems" have "set (rev as) \<subseteq> {''..''}" by (simp add: dots_first_snoc)
        with Cons dot "2.prems" have "dots_first (rev acc @ [''..''])"
          by (subst dots_first_snoc) auto
        with 2 True Cons dot show ?thesis by simp
      next
        case False
        with Cons "2.prems" have "dots_first (rev as)" by (simp add: dots_first_snoc)
        with 2 True Cons False show ?thesis by simp
      qed
    qed
  qed (use 2 in \<open>auto simp: dots_first_snoc\<close>)
qed simp

lemma norm_segments_member:
  "s \<in> set (norm_segments up acc ss) \<Longrightarrow> s \<in> set acc \<or> s = ''..'' \<or> s \<in> set ss \<and> s \<noteq> [] \<and> s \<noteq> ''.''"
  by (induction up acc ss rule: norm_segments.induct) (auto split: if_splits list.splits)

text \<open>
  The relative paths the policies accept: normalised, and not above the directory they start
  from. No segment of such a path is \<open>..\<close> or \<open>.\<close>, so joining it to a root cannot leave the
  root lexically.
\<close>

definition canonical_relative :: "string \<Rightarrow> bool" where
  "canonical_relative p =
     (p \<noteq> [] \<and> \<not> posix_is_absolute p \<and> posix_normalize p = p \<and> p \<noteq> ''.'' \<and> p \<noteq> ''..''
      \<and> \<not> starts_with ''../'' p)"

definition path_segments :: "string \<Rightarrow> string list" where
  "path_segments p = split_on (CHR ''/'') p"

lemma split_on_snoc: "split_on d (s @ [d]) = split_on d s @ [[]]"
  by (induction s) (auto split: list.splits)

lemma join_with_dots: "join_with ''/'' (''..'' # ss) = (if ss = [] then ''..'' else ''../'' @ join_with ''/'' ss)"
  by (cases ss) auto

lemma canonical_relative_segments [path_facts]:
  assumes "canonical_relative p"
  shows "''..'' \<notin> set (path_segments p)"
proof (cases "p = ''./''")
  case True
  then show ?thesis by (simp add: path_segments_def)
next
  case False
  define ns where "ns = norm_segments True [] (split_on (CHR ''/'') p)"
  define tl where "tl = (if ends_with ''/'' p then ''/'' else [])"
  have clean: "\<forall>s\<in>set ns. CHR ''/'' \<notin> set s"
    using norm_segments_member[of _ True "[]" "split_on (CHR ''/'') p"] split_on_segment[of _ "CHR ''/''" p]
    unfolding ns_def by fastforce
  have rel: "\<not> posix_is_absolute p" and nf: "posix_normalize p = p" and ne: "p \<noteq> []"
    and no_dot: "p \<noteq> ''.''" and no_up: "p \<noteq> ''..''" "\<not> starts_with ''../'' p"
    using assms by (auto simp: canonical_relative_def)
  have "join_with ''/'' ns \<noteq> []"
  proof
    assume "join_with ''/'' ns = []"
    with nf rel ne have "p = (if ends_with ''/'' p then ''./'' else ''.'')"
      by (simp add: posix_normalize_def ns_def Let_def)
    with no_dot False show False by (simp split: if_splits)
  qed
  then have p: "p = join_with ''/'' ns @ tl" and "ns \<noteq> []"
    using nf rel ne by (auto simp: posix_normalize_def ns_def Let_def tl_def)
  have "split_on (CHR ''/'') (join_with ''/'' ns) = ns"
    using clean \<open>ns \<noteq> []\<close> by (rule split_join [rotated])
  then have "split_on (CHR ''/'') (join_with ''/'' ns @ tl) = (if ends_with ''/'' p then ns @ [[]] else ns)"
    by (simp add: tl_def split_on_snoc)
  then have segs: "path_segments p = (if ends_with ''/'' p then ns @ [[]] else ns)"
    using p by (simp add: path_segments_def)
  have "dots_first ns" unfolding ns_def by (rule norm_segments_dots) (simp add: dots_first_def)
  moreover have "hd ns \<noteq> ''..''"
  proof
    assume "hd ns = ''..''"
    with \<open>ns \<noteq> []\<close> obtain r where "ns = ''..'' # r" by (cases ns) auto
    then have "join_with ''/'' ns = ''..'' \<or> starts_with ''../'' (join_with ''/'' ns)"
      by (auto simp: join_with_dots starts_with_def)
    with p no_up show False by (auto simp: tl_def starts_with_def split: if_splits)
  qed
  ultimately have "''..'' \<notin> set ns" using \<open>ns \<noteq> []\<close> by (cases ns) (auto simp: dots_first_def)
  with segs show ?thesis by simp
qed

lemma split_on_join: "split_on d (s @ d # t) = split_on d s @ split_on d t"
  by (induction s) (auto split: list.splits)

lemma join_append:
  "xs \<noteq> [] \<Longrightarrow> ys \<noteq> [] \<Longrightarrow> join_with sep (xs @ ys) = join_with sep xs @ sep @ join_with sep ys"
proof (induction xs)
  case (Cons x xs) then show ?case by (cases xs; cases ys) auto
qed simp

text \<open>The text test \<open>p.startsWith(a + "/")\<close> is a test on segments.\<close>

lemma below_segments [path_facts]:
  "starts_with (a @ ''/'') p \<longleftrightarrow> (\<exists>rest. rest \<noteq> [] \<and> path_segments p = path_segments a @ rest)"
proof
  assume "starts_with (a @ ''/'') p"
  then obtain t where "p = a @ CHR ''/'' # t" by (auto simp: starts_with_append)
  then show "\<exists>rest. rest \<noteq> [] \<and> path_segments p = path_segments a @ rest"
    by (auto simp: path_segments_def split_on_join)
next
  assume "\<exists>rest. rest \<noteq> [] \<and> path_segments p = path_segments a @ rest"
  then obtain rest where rest: "rest \<noteq> []" "path_segments p = path_segments a @ rest" by blast
  have "p = join_with ''/'' (path_segments p)" by (simp add: path_segments_def)
  also have "\<dots> = a @ ''/'' @ join_with ''/'' rest"
    using rest by (simp add: path_segments_def join_append)
  finally show "starts_with (a @ ''/'') p" by (auto simp: starts_with_append)
qed

text \<open>\<open>posix.basename\<close> of a path: the last segment, trailing slashes ignored.\<close>

definition posix_basename :: "string \<Rightarrow> string" where
  "posix_basename p = last (split_on (CHR ''/'') (rev (dropWhile (\<lambda>c. c = CHR ''/'') (rev p))))"


subsection \<open>Sorting and the order of the input\<close>

text \<open>
  The sources sort by keys that identify an element; then the result does not depend on the order
  the elements arrived in.
\<close>

lemma filter_key_inj:
  assumes "inj_on f (set xs)" "x \<in> set xs"
  shows "filter (\<lambda>y. f x = f y) xs = replicate (count_list xs x) x"
proof -
  have "filter (\<lambda>y. f x = f y) xs = filter ((=) x) xs"
    using assms by (intro filter_cong) (auto dest: inj_onD)
  then show ?thesis by (simp add: filter_eq_replicate_mset[symmetric] count_list_eq_length_filter
      replicate_length_filter)
qed

lemma sort_key_perm:
  assumes "mset xs = mset ys" "inj_on f (set xs)"
  shows "sort_key f xs = sort_key f ys"
proof (rule properties_for_sort_key)
  have set: "set xs = set ys" using assms(1) by (metis set_mset_mset)
  show "mset (sort_key f ys) = mset xs" using assms(1) by simp
  show "sorted (map f (sort_key f ys))" by simp
  show "filter (\<lambda>x. f k = f x) (sort_key f ys) = filter (\<lambda>x. f k = f x) xs" if "k \<in> set (sort_key f ys)" for k
  proof -
    have k: "k \<in> set xs" using that set by simp
    have "count_list (sort_key f ys) k = count_list xs k"
      using assms(1) by (metis count_mset mset_sort)
    with k set assms(2) show ?thesis by (simp add: filter_key_inj)
  qed
qed

lemma sort_key_same_set:
  "distinct xs \<Longrightarrow> distinct ys \<Longrightarrow> set xs = set ys \<Longrightarrow> inj_on f (set xs) \<Longrightarrow> sort_key f xs = sort_key f ys"
  by (metis set_eq_iff_mset_eq_distinct sort_key_perm)

lemma count_list_two:
  "x \<in> set xs \<Longrightarrow> y \<in> set xs \<Longrightarrow> x \<noteq> y \<Longrightarrow> f x = Some i \<Longrightarrow> f y = Some i \<Longrightarrow>
     count_list (List.map_filter f xs) i > 1"
proof (induction xs)
  case (Cons a as)
  have one: "count_list (List.map_filter f as) i > 0" if "z \<in> set as" "f z = Some i" for z
    using that by (induction as) (auto simp: List.map_filter_simps split: option.splits)
  show ?case using Cons one[of x] one[of y] by (auto simp: List.map_filter_simps split: option.splits)
qed simp

lemma map_filter_mset: "mset xs = mset ys \<Longrightarrow> mset (List.map_filter f xs) = mset (List.map_filter f ys)"
  by (simp add: List.map_filter_def mset_filter)

lemma map_filter_set: "set (List.map_filter f xs) = {y. \<exists>x\<in>set xs. f x = Some y}"
  by (force simp: List.map_filter_def)

end
