(* ===== verification/Js_Value.thy ===== *)
theory Js_Value
  imports Prelude
begin

section \<open>JavaScript values\<close>

text \<open>
  The \<open>unknown\<close> values the strict parsers of the runtime receive (tool inputs, session entries,
  decoded JSON). A finite number is an integer, printed in plain digits, or a fractional double,
  carried by the text JavaScript prints for it (the modelled code tests fractions only with
  \<open>Number.isFinite\<close> and \<open>Number.isSafeInteger\<close>). A plain object is its list of own
  properties in insertion order; \<open>JExotic\<close> stands for the values that are not JSON and not plain
  records (\<open>bigint\<close>, functions, symbols, \<open>Date\<close>, \<open>Map\<close>, typed arrays), by their
  \<open>typeof\<close>-level kind. Class instances, proxies and array holes are not represented.
\<close>

datatype jnum = JNaN | JInf bool | JInt int | JFrac string

datatype jv =
    JUndef
  | JNull
  | JBool bool
  | JNum jnum
  | JStr string
  | JArr "jv list"
  | JObj "(string \<times> jv) list"
  | JExotic string

type_synonym fields = "(string \<times> jv) list"

subsection \<open>Reading a value\<close>

text \<open>\<open>record.name\<close> on a plain object: a missing property reads as \<open>undefined\<close>.\<close>

definition get_prop :: "fields \<Rightarrow> string \<Rightarrow> jv" where
  "get_prop kvs k = (case map_of kvs k of Some v \<Rightarrow> v | None \<Rightarrow> JUndef)"

definition own_keys :: "fields \<Rightarrow> string list" where
  "own_keys kvs = map fst kvs"

fun as_record :: "jv \<Rightarrow> fields option" where
  "as_record (JObj kvs) = Some kvs"
| "as_record _ = None"

fun as_string :: "jv \<Rightarrow> string option" where
  "as_string (JStr s) = Some s"
| "as_string _ = None"

fun as_bool :: "jv \<Rightarrow> bool option" where
  "as_bool (JBool b) = Some b"
| "as_bool _ = None"

fun as_array :: "jv \<Rightarrow> jv list option" where
  "as_array (JArr vs) = Some vs"
| "as_array _ = None"

text \<open>\<open>typeof value === "object"\<close>, null aside.\<close>

fun is_js_object :: "jv \<Rightarrow> bool" where
  "is_js_object (JObj kvs) = True"
| "is_js_object (JArr vs) = True"
| "is_js_object (JExotic k) = (k \<notin> {''bigint'', ''function'', ''symbol''})"
| "is_js_object _ = False"

definition max_safe_integer :: int where
  "max_safe_integer = 9007199254740991"

text \<open>\<open>Number.isSafeInteger\<close>, with the integer it accepts.\<close>

fun as_safe_int :: "jv \<Rightarrow> int option" where
  "as_safe_int (JNum (JInt i)) = (if \<bar>i\<bar> \<le> max_safe_integer then Some i else None)"
| "as_safe_int _ = None"

fun as_strings :: "jv list \<Rightarrow> string list option" where
  "as_strings [] = Some []"
| "as_strings (v # vs) =
     (case as_string v of None \<Rightarrow> None
      | Some s \<Rightarrow> (case as_strings vs of None \<Rightarrow> None | Some ss \<Rightarrow> Some (s # ss)))"

text \<open>
  \<open>exactFields\<close> of the strict parsers: the own keys, sorted by bytes, are the expected ones.
\<close>

definition exact_fields :: "fields \<Rightarrow> string list \<Rightarrow> bool" where
  "exact_fields kvs expected = (sort (own_keys kvs) = sort expected)"

text \<open>Properties of a value the engine guarantees: own keys are distinct, at every depth.\<close>

primrec wf_value :: "jv \<Rightarrow> bool" where
  "wf_value JUndef = True"
| "wf_value JNull = True"
| "wf_value (JBool b) = True"
| "wf_value (JNum n) =
     (case n of JInt i \<Rightarrow> \<bar>i\<bar> < 10 ^ 21
      | JFrac t \<Rightarrow> t \<noteq> [] \<and> (\<forall>c\<in>set t. is_digit c \<or> c \<in> {CHR ''-'', CHR ''+'', CHR ''.'', CHR ''e''})
                   \<and> (is_digit (hd t) \<or> hd t = CHR ''-'') \<and> (CHR ''.'' \<in> set t \<or> CHR ''e'' \<in> set t)
      | _ \<Rightarrow> True)"
| "wf_value (JStr s) = True"
| "wf_value (JArr vs) = list_all id (map wf_value vs)"
| "wf_value (JObj kvs) = (distinct (map fst kvs) \<and> list_all snd (map (map_prod id wf_value) kvs))"
| "wf_value (JExotic k) = True"

lemma wf_value_arr [simp]: "wf_value (JArr vs) = (\<forall>v\<in>set vs. wf_value v)"
  by (auto simp: list_all_iff)

lemma wf_value_obj [simp]: "wf_value (JObj kvs) = (distinct (map fst kvs) \<and> (\<forall>(k, v)\<in>set kvs. wf_value v))"
  by (auto simp: list_all_iff)

declare wf_value.simps(6,7) [simp del]

lemma as_record_Some [simp]: "as_record v = Some kvs \<longleftrightarrow> v = JObj kvs"
  by (cases v) auto

lemma as_string_Some [simp]: "as_string v = Some s \<longleftrightarrow> v = JStr s"
  by (cases v) auto

lemma as_bool_Some [simp]: "as_bool v = Some b \<longleftrightarrow> v = JBool b"
  by (cases v) auto

lemma as_array_Some [simp]: "as_array v = Some vs \<longleftrightarrow> v = JArr vs"
  by (cases v) auto

lemma as_safe_int_Some: "as_safe_int v = Some i \<longleftrightarrow> v = JNum (JInt i) \<and> \<bar>i\<bar> \<le> max_safe_integer"
  by (cases v rule: as_safe_int.cases) auto

lemma as_strings_map [simp]: "as_strings (map JStr ss) = Some ss"
  by (induction ss) auto

lemma map_JStr_inj [simp]: "(map JStr ss = map JStr ts) = (ss = ts)"
  by (simp add: inj_map_eq_map inj_def)

lemma as_strings_Some: "as_strings vs = Some ss \<longleftrightarrow> vs = map JStr ss"
  by (induction vs arbitrary: ss) (auto split: option.splits)

lemma prop_simps [simp]:
  "get_prop [] k = JUndef"
  "get_prop ((k', v) # kvs) k = (if k = k' then v else get_prop kvs k)"
  by (simp_all add: get_prop_def)

lemma exact_fields_set: "exact_fields kvs expected \<Longrightarrow> set (map fst kvs) = set expected"
  unfolding exact_fields_def own_keys_def by (metis set_sort)

subsection \<open>String enumerations\<close>

text \<open>
  A TypeScript union of string literals is a datatype with its list of members and their texts;
  \<open>member(value, values)\<close> of the strict parsers is \<open>parse_enum\<close>. The contract below is
  interpreted for every enumeration of the model.
\<close>

definition parse_enum :: "'e list \<Rightarrow> ('e \<Rightarrow> string) \<Rightarrow> jv \<Rightarrow> 'e option" where
  "parse_enum members wire v =
     (case as_string v of None \<Rightarrow> None | Some s \<Rightarrow> find (\<lambda>e. wire e = s) members)"

lemma find_distinct:
  "distinct (map wire es) \<Longrightarrow> e \<in> set es \<Longrightarrow> find (\<lambda>x. wire x = wire e) es = Some e"
  by (induction es) force+

locale wire_enum =
  fixes members :: "'e list" and wire :: "'e \<Rightarrow> string"
  assumes complete: "e \<in> set members" and texts_distinct: "distinct (map wire members)"
begin

lemma parse_text [simp]: "parse_enum members wire (JStr (wire e)) = Some e"
  by (simp add: parse_enum_def find_distinct complete texts_distinct)

lemma parse_sound: "parse_enum members wire v = Some e \<Longrightarrow> v = JStr (wire e)"
  by (auto simp: parse_enum_def find_Some_iff split: option.splits)

lemma text_inj [simp]: "wire a = wire b \<longleftrightarrow> a = b"
  by (metis parse_text option.inject)

lemma parse_iff: "parse_enum members wire v = Some e \<longleftrightarrow> v = JStr (wire e)"
  using parse_text parse_sound by blast

end

end
