(* ===== verification/Path_Lane.thy ===== *)
theory Path_Lane
  imports Js_Value "HOL-Library.AList" "HOL-Library.Multiset"
begin

section \<open>Path-lane conflicts with historical blockers (core/delegation-path-lane.ts)\<close>

text \<open>
  A requested write lane (its allowed path rules) may proceed beside historical blockers when every
  blocker is readable and touches none of the lane's paths. The request arrives as an \<open>unknown\<close>
  value; the decision is a record of conflicts, authority failures and maintenance warnings.
\<close>

subsection \<open>Vocabulary\<close>

datatype lane_reason =
    Ln_AMBIGUOUS
  | Ln_INCOMPLETE
  | Ln_NOT_FOUND
  | Ln_STORAGE_FAILURE
  | Ln_HASH_MISMATCH
  | Ln_INVALID_RECORD
  | Ln_SCHEMA_MISMATCH
  | Ln_DUPLICATE_AUTHORITY

primrec lane_reason_text :: "lane_reason \<Rightarrow> string" where
  "lane_reason_text Ln_AMBIGUOUS = ''AMBIGUOUS''"
| "lane_reason_text Ln_INCOMPLETE = ''INCOMPLETE''"
| "lane_reason_text Ln_NOT_FOUND = ''NOT_FOUND''"
| "lane_reason_text Ln_STORAGE_FAILURE = ''STORAGE_FAILURE''"
| "lane_reason_text Ln_HASH_MISMATCH = ''HASH_MISMATCH''"
| "lane_reason_text Ln_INVALID_RECORD = ''INVALID_RECORD''"
| "lane_reason_text Ln_SCHEMA_MISMATCH = ''SCHEMA_MISMATCH''"
| "lane_reason_text Ln_DUPLICATE_AUTHORITY = ''DUPLICATE_AUTHORITY''"

definition lane_reason_all :: "lane_reason list" where
  "lane_reason_all = [Ln_AMBIGUOUS, Ln_INCOMPLETE, Ln_NOT_FOUND, Ln_STORAGE_FAILURE, Ln_HASH_MISMATCH, Ln_INVALID_RECORD, Ln_SCHEMA_MISMATCH, Ln_DUPLICATE_AUTHORITY]"

interpretation lane_reason_wire: wire_enum lane_reason_all lane_reason_text
proof
  show "e \<in> set lane_reason_all" for e by (cases e) (simp_all add: lane_reason_all_def)
  show "distinct (map lane_reason_text lane_reason_all)" by (simp add: lane_reason_all_def)
qed

definition lane_unknown_reasons :: "lane_reason list" where
  "lane_unknown_reasons = [Ln_AMBIGUOUS, Ln_INCOMPLETE, Ln_NOT_FOUND, Ln_STORAGE_FAILURE]"

definition lane_invalid_reasons :: "lane_reason list" where
  "lane_invalid_reasons = [Ln_HASH_MISMATCH, Ln_INVALID_RECORD, Ln_SCHEMA_MISMATCH]"

datatype lane_source =
    Src_carried_path
  | Src_changed_path
  | Src_rename_destination
  | Src_rename_source

primrec lane_source_text :: "lane_source \<Rightarrow> string" where
  "lane_source_text Src_carried_path = ''carried_path''"
| "lane_source_text Src_changed_path = ''changed_path''"
| "lane_source_text Src_rename_destination = ''rename_destination''"
| "lane_source_text Src_rename_source = ''rename_source''"

definition lane_source_all :: "lane_source list" where
  "lane_source_all = [Src_carried_path, Src_changed_path, Src_rename_destination, Src_rename_source]"

interpretation lane_source_wire: wire_enum lane_source_all lane_source_text
proof
  show "e \<in> set lane_source_all" for e by (cases e) (simp_all add: lane_source_all_def)
  show "distinct (map lane_source_text lane_source_all)" by (simp add: lane_source_all_def)
qed

datatype lane_relation =
    Rel_historical_ancestor
  | Rel_requested_ancestor
  | Rel_same_path

primrec lane_relation_text :: "lane_relation \<Rightarrow> string" where
  "lane_relation_text Rel_historical_ancestor = ''historical_ancestor''"
| "lane_relation_text Rel_requested_ancestor = ''requested_ancestor''"
| "lane_relation_text Rel_same_path = ''same_path''"

definition lane_relation_all :: "lane_relation list" where
  "lane_relation_all = [Rel_historical_ancestor, Rel_requested_ancestor, Rel_same_path]"

interpretation lane_relation_wire: wire_enum lane_relation_all lane_relation_text
proof
  show "e \<in> set lane_relation_all" for e by (cases e) (simp_all add: lane_relation_all_def)
  show "distinct (map lane_relation_text lane_relation_all)" by (simp add: lane_relation_all_def)
qed

datatype lane_block =
    Blk_INVALID_AUTHORITY
  | Blk_INVALID_REQUEST
  | Blk_PATH_OVERLAP
  | Blk_UNKNOWN_AUTHORITY

primrec lane_block_text :: "lane_block \<Rightarrow> string" where
  "lane_block_text Blk_INVALID_AUTHORITY = ''INVALID_AUTHORITY''"
| "lane_block_text Blk_INVALID_REQUEST = ''INVALID_REQUEST''"
| "lane_block_text Blk_PATH_OVERLAP = ''PATH_OVERLAP''"
| "lane_block_text Blk_UNKNOWN_AUTHORITY = ''UNKNOWN_AUTHORITY''"

definition lane_block_all :: "lane_block list" where
  "lane_block_all = [Blk_INVALID_AUTHORITY, Blk_INVALID_REQUEST, Blk_PATH_OVERLAP, Blk_UNKNOWN_AUTHORITY]"

interpretation lane_block_wire: wire_enum lane_block_all lane_block_text
proof
  show "e \<in> set lane_block_all" for e by (cases e) (simp_all add: lane_block_all_def)
  show "distinct (map lane_block_text lane_block_all)" by (simp add: lane_block_all_def)
qed

datatype lane_authority =
    Auth_INVALID
  | Auth_UNKNOWN

primrec lane_authority_text :: "lane_authority \<Rightarrow> string" where
  "lane_authority_text Auth_INVALID = ''INVALID''"
| "lane_authority_text Auth_UNKNOWN = ''UNKNOWN''"

definition lane_authority_all :: "lane_authority list" where
  "lane_authority_all = [Auth_INVALID, Auth_UNKNOWN]"

interpretation lane_authority_wire: wire_enum lane_authority_all lane_authority_text
proof
  show "e \<in> set lane_authority_all" for e by (cases e) (simp_all add: lane_authority_all_def)
  show "distinct (map lane_authority_text lane_authority_all)" by (simp add: lane_authority_all_def)
qed

record lane_conflict =
  lk_delegation_id :: string
  lk_rule :: string
  lk_path :: string
  lk_relation :: lane_relation
  lk_sources :: "lane_source list"

record lane_failure =
  lf_delegation_id :: "string option"
  lf_state :: lane_authority
  lf_reason :: lane_reason

record lane_warning =
  lw_delegation_id :: string
  lw_paths :: "string list"

record lane_decision =
  ld_allow :: bool
  ld_block_reasons :: "lane_block list"
  ld_rules :: "string list"
  ld_conflicts :: "lane_conflict list"
  ld_failures :: "lane_failure list"
  ld_warnings :: "lane_warning list"

record lane_rule =
  lr_rule :: string
  lr_base :: string
  lr_subtree :: bool

type_synonym historical = "(string \<times> lane_source list) list"

datatype parsed_blocker =
    Known_Blocker string historical
  | Failed_Blocker lane_failure

subsection \<open>Parsing\<close>

definition max_allowed_paths :: nat where "max_allowed_paths = 50"

definition max_transaction_paths :: nat where "max_transaction_paths = 500"

definition max_lane_blockers :: nat where "max_lane_blockers = 500"

definition max_lane_paths :: nat where "max_lane_paths = 5000"

text \<open>\<open>/^\d{8}-\d{6}-[A-Za-z0-9]{4}$/\<close>\<close>

definition transaction_id_re :: "string \<Rightarrow> bool" where
  "transaction_id_re s =
     (length s = 20 \<and> list_all is_digit (take 8 s) \<and> s ! 8 = CHR ''-''
      \<and> list_all is_digit (take 6 (drop 9 s)) \<and> s ! 15 = CHR ''-'' \<and> list_all is_alnum (drop 16 s))"

definition is_canonical_path :: "string \<Rightarrow> bool" where
  "is_canonical_path s =
     (s \<noteq> [] \<and> length s \<le> 400 \<and> s = js_trim s \<and> \<not> posix_is_absolute s
      \<and> CHR 0x5C \<notin> set s \<and> CHR 0x00 \<notin> set s
      \<and> posix_normalize s = s \<and> s \<noteq> ''.'' \<and> s \<noteq> ''..'' \<and> \<not> starts_with ''../'' s)"

definition normalize_allowed_rule :: "jv \<Rightarrow> lane_rule option" where
  "normalize_allowed_rule v =
     (case as_string v of None \<Rightarrow> None
      | Some s \<Rightarrow>
          if s = [] \<or> length s > 400 \<or> s \<noteq> js_trim s then None
          else let sub = (ends_with ''/**'' s \<or> ends_with ''/'' s);
                   base = (if ends_with ''/**'' s then drop_last 3 s
                           else if ends_with ''/'' s then drop_last 1 s else s)
               in if is_canonical_path base
                  then Some \<lparr>lr_rule = (if sub then base @ ''/**'' else base), lr_base = base, lr_subtree = sub\<rparr>
                  else None)"

definition is_path_ancestor :: "string \<Rightarrow> string \<Rightarrow> bool" where
  "is_path_ancestor ancestor descendant = starts_with (ancestor @ ''/'') descendant"

fun collect_rules :: "jv list \<Rightarrow> (string \<times> lane_rule) list \<Rightarrow> (string \<times> lane_rule) list option" where
  "collect_rules [] by_rule = Some by_rule"
| "collect_rules (raw # raws) by_rule =
     (case normalize_allowed_rule raw of None \<Rightarrow> None
      | Some r \<Rightarrow> collect_rules raws (AList.update (lr_rule r) r by_rule))"

definition subsumes :: "lane_rule \<Rightarrow> lane_rule \<Rightarrow> bool" where
  "subsumes w cand =
     (w \<noteq> cand \<and> lr_subtree w
      \<and> (lr_base w = lr_base cand \<or> is_path_ancestor (lr_base w) (lr_base cand)))"

definition normalize_allowed_rules :: "jv \<Rightarrow> lane_rule list option" where
  "normalize_allowed_rules v =
     (case as_array v of None \<Rightarrow> None
      | Some raws \<Rightarrow>
          if raws = [] \<or> length raws > max_allowed_paths then None
          else (case collect_rules raws [] of None \<Rightarrow> None
                | Some by_rule \<Rightarrow>
                    let rules = sort_key lr_rule (map snd by_rule)
                    in Some (filter (\<lambda>cand. \<not> (\<exists>w\<in>set rules. subsumes w cand)) rules)))"

fun increasing :: "string list \<Rightarrow> bool" where
  "increasing (a # b # xs) = (byte_compare a b < 0 \<and> increasing (b # xs))"
| "increasing _ = True"

definition parse_immutable_paths :: "jv \<Rightarrow> string list option" where
  "parse_immutable_paths v =
     (case as_array v of None \<Rightarrow> None
      | Some vs \<Rightarrow>
          (case as_strings vs of None \<Rightarrow> None
           | Some ps \<Rightarrow>
               if length ps \<le> max_transaction_paths \<and> list_all is_canonical_path ps \<and> increasing ps
               then Some ps else None))"

definition valid_delegation_id :: "jv \<Rightarrow> string option" where
  "valid_delegation_id v =
     (case as_string v of None \<Rightarrow> None | Some s \<Rightarrow> if transaction_id_re s then Some s else None)"

definition extracted_id :: "jv \<Rightarrow> string option" where
  "extracted_id v =
     (case as_record v of None \<Rightarrow> None | Some f \<Rightarrow> valid_delegation_id (get_prop f ''delegation_id''))"

definition invalid_record :: "jv \<Rightarrow> parsed_blocker" where
  "invalid_record v =
     Failed_Blocker \<lparr>lf_delegation_id = extracted_id v, lf_state = Auth_INVALID, lf_reason = Ln_INVALID_RECORD\<rparr>"

text \<open>A map from paths to the set of sources that name them, in insertion order.\<close>

definition add_historical :: "string \<Rightarrow> lane_source \<Rightarrow> historical \<Rightarrow> historical option" where
  "add_historical p src paths =
     (let sources = (case map_of paths p of Some ss \<Rightarrow> ss | None \<Rightarrow> []);
          paths' = AList.update p (if src \<in> set sources then sources else sources @ [src]) paths
      in if length paths' \<le> max_transaction_paths then Some paths' else None)"

fun add_all :: "string list \<Rightarrow> lane_source \<Rightarrow> historical \<Rightarrow> historical option" where
  "add_all [] src h = Some h"
| "add_all (p # ps) src h = (case add_historical p src h of None \<Rightarrow> None | Some h' \<Rightarrow> add_all ps src h')"

fun add_renames :: "(string \<times> jv) list \<Rightarrow> string list \<Rightarrow> string list \<Rightarrow> historical \<Rightarrow> historical option" where
  "add_renames [] changed seen h = Some h"
| "add_renames ((dst, v) # es) changed seen h =
     (case as_string v of None \<Rightarrow> None
      | Some src \<Rightarrow>
          if \<not> is_canonical_path dst \<or> \<not> is_canonical_path src \<or> dst = src
             \<or> dst \<notin> set changed \<or> src \<in> set seen then None
          else (case add_historical dst Src_rename_destination h of None \<Rightarrow> None
                | Some h1 \<Rightarrow>
                    (case add_historical src Src_rename_source h1 of None \<Rightarrow> None
                     | Some h2 \<Rightarrow> add_renames es changed (src # seen) h2)))"

definition known_fields :: "string list" where
  "known_fields = [''kind'', ''delegation_id'', ''changed_paths'', ''carried_paths'', ''rename_sources'']"

definition failed_fields :: "string list" where
  "failed_fields = [''kind'', ''delegation_id'', ''reason'']"

definition historical_paths :: "string list \<Rightarrow> string list \<Rightarrow> fields \<Rightarrow> historical option" where
  "historical_paths changed carried renames =
     (if length renames > max_transaction_paths then None
      else case add_all changed Src_changed_path [] of None \<Rightarrow> None
       | Some h1 \<Rightarrow>
           (case add_all carried Src_carried_path h1 of None \<Rightarrow> None
            | Some h2 \<Rightarrow> add_renames (sort_key fst renames) changed [] h2))"

definition parse_known_blocker :: "fields \<Rightarrow> parsed_blocker" where
  "parse_known_blocker f =
     (if \<not> exact_fields f known_fields then invalid_record (JObj f)
      else case (valid_delegation_id (get_prop f ''delegation_id''),
                 parse_immutable_paths (get_prop f ''changed_paths''),
                 parse_immutable_paths (get_prop f ''carried_paths''),
                 as_record (get_prop f ''rename_sources'')) of
        (Some i, Some changed, Some carried, Some renames) \<Rightarrow>
          (case historical_paths changed carried renames of None \<Rightarrow> invalid_record (JObj f)
           | Some h \<Rightarrow>
               Known_Blocker i (map (\<lambda>(p, ss). (p, sort_key lane_source_text ss)) (sort_key fst h)))
      | _ \<Rightarrow> invalid_record (JObj f))"

definition parse_failed_blocker :: "fields \<Rightarrow> parsed_blocker" where
  "parse_failed_blocker f =
     (if \<not> exact_fields f failed_fields then invalid_record (JObj f)
      else case valid_delegation_id (get_prop f ''delegation_id'') of None \<Rightarrow> invalid_record (JObj f)
      | Some i \<Rightarrow>
          (case (if get_prop f ''kind'' = JStr ''unknown''
                 then parse_enum lane_unknown_reasons lane_reason_text (get_prop f ''reason'') else None) of
             Some r \<Rightarrow> Failed_Blocker \<lparr>lf_delegation_id = Some i, lf_state = Auth_UNKNOWN, lf_reason = r\<rparr>
           | None \<Rightarrow>
               (case (if get_prop f ''kind'' = JStr ''invalid''
                      then parse_enum lane_invalid_reasons lane_reason_text (get_prop f ''reason'') else None) of
                  Some r \<Rightarrow> Failed_Blocker \<lparr>lf_delegation_id = Some i, lf_state = Auth_INVALID, lf_reason = r\<rparr>
                | None \<Rightarrow> invalid_record (JObj f))))"

definition parse_blocker :: "jv \<Rightarrow> parsed_blocker" where
  "parse_blocker v =
     (case as_record v of None \<Rightarrow> invalid_record v
      | Some f \<Rightarrow>
          if get_prop f ''kind'' = JStr ''known'' then parse_known_blocker f
          else if get_prop f ''kind'' = JStr ''unknown'' \<or> get_prop f ''kind'' = JStr ''invalid''
          then parse_failed_blocker f
          else invalid_record v)"

subsection \<open>The decision\<close>

definition relation :: "lane_rule \<Rightarrow> string \<Rightarrow> lane_relation option" where
  "relation r h =
     (if lr_base r = h then Some Rel_same_path
      else if \<not> lr_subtree r then None
      else if is_path_ancestor (lr_base r) h then Some Rel_requested_ancestor
      else if is_path_ancestor h (lr_base r) then Some Rel_historical_ancestor
      else None)"

definition invalid_request :: lane_decision where
  "invalid_request = \<lparr>ld_allow = False, ld_block_reasons = [Blk_INVALID_REQUEST], ld_rules = [],
     ld_conflicts = [], ld_failures = [], ld_warnings = []\<rparr>"

fun blocker_id :: "parsed_blocker \<Rightarrow> string option" where
  "blocker_id (Known_Blocker i _) = Some i"
| "blocker_id (Failed_Blocker f) = lf_delegation_id f"

definition blocker_ids :: "parsed_blocker list \<Rightarrow> string list" where
  "blocker_ids bs = List.map_filter blocker_id bs"

text \<open>The ids the counting map holds more than once, in the order it first met them.\<close>

definition duplicate_ids :: "string list \<Rightarrow> string list" where
  "duplicate_ids ids = filter (\<lambda>i. count_list ids i > 1) (rev (remdups (rev ids)))"

fun known_entry :: "string list \<Rightarrow> parsed_blocker \<Rightarrow> (string \<times> historical) option" where
  "known_entry dup (Known_Blocker i h) = (if i \<in> set dup then None else Some (i, h))"
| "known_entry dup (Failed_Blocker f) = None"

definition known_blockers :: "parsed_blocker list \<Rightarrow> (string \<times> historical) list" where
  "known_blockers bs = List.map_filter (known_entry (duplicate_ids (blocker_ids bs))) bs"

definition failure_key :: "lane_failure \<Rightarrow> string list" where
  "failure_key f = [(case lf_delegation_id f of Some i \<Rightarrow> i | None \<Rightarrow> []), lane_authority_text (lf_state f),
                    lane_reason_text (lf_reason f)]"

definition duplicate_failure :: "string \<Rightarrow> lane_failure" where
  "duplicate_failure i =
     \<lparr>lf_delegation_id = Some i, lf_state = Auth_INVALID, lf_reason = Ln_DUPLICATE_AUTHORITY\<rparr>"

fun failure_entry :: "string list \<Rightarrow> parsed_blocker \<Rightarrow> lane_failure option" where
  "failure_entry dup (Known_Blocker i h) = None"
| "failure_entry dup (Failed_Blocker f) =
     (case lf_delegation_id f of None \<Rightarrow> Some f | Some i \<Rightarrow> if i \<in> set dup then None else Some f)"

definition authority_failures :: "parsed_blocker list \<Rightarrow> lane_failure list" where
  "authority_failures bs =
     (let dup = duplicate_ids (blocker_ids bs) in
      sort_key failure_key (List.map_filter (failure_entry dup) bs @ map duplicate_failure dup))"

definition conflict_entry ::
  "string \<Rightarrow> lane_rule \<Rightarrow> string \<times> lane_source list \<Rightarrow> lane_conflict option" where
  "conflict_entry i r e =
     (case relation r (fst e) of None \<Rightarrow> None
      | Some rel \<Rightarrow> Some \<lparr>lk_delegation_id = i, lk_rule = lr_rule r, lk_path = fst e,
                           lk_relation = rel, lk_sources = snd e\<rparr>)"

definition blocker_conflicts :: "lane_rule list \<Rightarrow> string \<times> historical \<Rightarrow> lane_conflict list" where
  "blocker_conflicts rules b =
     concat (map (\<lambda>r. List.map_filter (conflict_entry (fst b) r) (snd b)) rules)"

definition conflict_key :: "lane_conflict \<Rightarrow> string list" where
  "conflict_key c = [lk_delegation_id c, lk_rule c, lk_path c, lane_relation_text (lk_relation c)]"

definition lane_warnings :: "lane_rule list \<Rightarrow> (string \<times> historical) list \<Rightarrow> lane_warning list" where
  "lane_warnings rules known =
     map (\<lambda>b. \<lparr>lw_delegation_id = fst b, lw_paths = map fst (snd b)\<rparr>)
       (filter (\<lambda>b. blocker_conflicts rules b = []) known)"

definition block_reasons :: "lane_conflict list \<Rightarrow> lane_failure list \<Rightarrow> lane_block list" where
  "block_reasons conflicts failures =
     sort_key lane_block_text
       ((if conflicts \<noteq> [] then [Blk_PATH_OVERLAP] else [])
        @ (if \<exists>f\<in>set failures. lf_state f = Auth_UNKNOWN then [Blk_UNKNOWN_AUTHORITY] else [])
        @ (if \<exists>f\<in>set failures. lf_state f = Auth_INVALID then [Blk_INVALID_AUTHORITY] else []))"

definition decide_parsed :: "lane_rule list \<Rightarrow> parsed_blocker list \<Rightarrow> lane_decision" where
  "decide_parsed rules bs =
     (let failures = authority_failures bs; known = sort_key fst (known_blockers bs) in
      if sum_list (map (length \<circ> snd) known) > max_lane_paths then invalid_request
      else let conflicts = sort_key conflict_key (concat (map (blocker_conflicts rules) known));
               reasons = block_reasons conflicts failures
           in \<lparr>ld_allow = (reasons = []), ld_block_reasons = reasons, ld_rules = map lr_rule rules,
               ld_conflicts = conflicts, ld_failures = failures, ld_warnings = lane_warnings rules known\<rparr>)"

definition request_fields :: "string list" where
  "request_fields = [''schema_version'', ''kind'', ''allowed_paths'', ''blockers'']"

definition lane_request_kind :: string where
  "lane_request_kind = ''delegation-path-lane-request-v1''"

definition decide_path_lane :: "jv \<Rightarrow> lane_decision" where
  "decide_path_lane v =
     (case as_record v of None \<Rightarrow> invalid_request
      | Some f \<Rightarrow>
          if \<not> exact_fields f request_fields \<or> get_prop f ''schema_version'' \<noteq> JNum (JInt 1)
             \<or> get_prop f ''kind'' \<noteq> JStr lane_request_kind then invalid_request
          else (case as_array (get_prop f ''blockers'') of None \<Rightarrow> invalid_request
            | Some blockers \<Rightarrow>
                if length blockers > max_lane_blockers then invalid_request
                else (case normalize_allowed_rules (get_prop f ''allowed_paths'') of None \<Rightarrow> invalid_request
                  | Some rules \<Rightarrow> decide_parsed rules (map parse_blocker blockers))))"

end
