(* ===== verification/Path_Lane_Safety.thy ===== *)
theory Path_Lane_Safety
  imports Path_Lane
begin

section \<open>Correctness of the path-lane decision\<close>

text \<open>
  The rules kept after subsumption still cover every requested rule, an ALLOW means no requested
  rule touches a historical path, and the decision does not depend on the order of its inputs.
\<close>

subsection \<open>Ancestors as prefixes of segments\<close>

lemma ancestor_segments:
  "is_path_ancestor a p \<longleftrightarrow> (\<exists>rest. rest \<noteq> [] \<and> path_segments p = path_segments a @ rest)"
  unfolding is_path_ancestor_def by (rule below_segments)

lemma ancestor_prefix: "is_path_ancestor a p \<longleftrightarrow> (\<exists>t. p = a @ ''/'' @ t)"
  by (auto simp: is_path_ancestor_def text_facts)

lemma ancestor_trans [path_facts]: "is_path_ancestor a b \<Longrightarrow> is_path_ancestor b c \<Longrightarrow> is_path_ancestor a c"
  by (auto simp: ancestor_prefix)

lemma ancestor_comparable:
  assumes "is_path_ancestor a c" "is_path_ancestor b c"
  shows "a = b \<or> is_path_ancestor a b \<or> is_path_ancestor b a"
proof -
  have pre: "(\<exists>t. y = x @ t) \<or> (\<exists>t. x = y @ t)" if "x @ u = y @ v" for x y u v :: string
    using that by (metis append_eq_append_conv2)
  from assms obtain t u where "(a @ ''/'') @ t = (b @ ''/'') @ u" by (auto simp: ancestor_prefix)
  from pre[OF this] consider z where "b @ ''/'' = (a @ ''/'') @ z" | z where "a @ ''/'' = (b @ ''/'') @ z" by auto
  then show ?thesis
  proof cases
    case 1 then show ?thesis by (cases z rule: rev_cases) (auto simp: ancestor_prefix)
  next
    case 2 then show ?thesis by (cases z rule: rev_cases) (auto simp: ancestor_prefix)
  qed
qed

lemma ancestor_length [path_facts]: "is_path_ancestor a p \<Longrightarrow> length a < length p"
  by (auto simp: ancestor_prefix)

subsection \<open>The normalised rules\<close>

lemma normalize_rule_parts:
  assumes "normalize_allowed_rule (JStr s) = Some r"
  obtains base sub where "r = \<lparr>lr_rule = (if sub then base @ ''/**'' else base), lr_base = base, lr_subtree = sub\<rparr>"
    "is_canonical_path base" "\<not> sub \<Longrightarrow> base = s \<and> \<not> ends_with ''/**'' s"
proof -
  define sub where "sub = (ends_with ''/**'' s \<or> ends_with ''/'' s)"
  define base where "base = (if ends_with ''/**'' s then drop_last 3 s else if ends_with ''/'' s then drop_last 1 s else s)"
  have "(if s = [] \<or> length s > 400 \<or> s \<noteq> js_trim s then None
      else if is_canonical_path base
      then Some \<lparr>lr_rule = (if sub then base @ ''/**'' else base), lr_base = base, lr_subtree = sub\<rparr> else None) = Some r"
    using assms unfolding normalize_allowed_rule_def as_string.simps option.case Let_def base_def sub_def .
  then have "r = \<lparr>lr_rule = (if sub then base @ ''/**'' else base), lr_base = base, lr_subtree = sub\<rparr>"
    "is_canonical_path base"
    by (metis option.distinct(1) option.inject)+
  moreover have "\<not> sub \<Longrightarrow> base = s \<and> \<not> ends_with ''/**'' s" by (simp add: base_def sub_def)
  ultimately show ?thesis using that by blast
qed

lemma ends_with_self: "ends_with p (x @ p)"
  by (auto simp: text_facts)

lemma normalize_rule_text:
  assumes "normalize_allowed_rule v = Some r"
  shows "lr_rule r = (if lr_subtree r then lr_base r @ ''/**'' else lr_base r)"
    "lr_subtree r \<longleftrightarrow> ends_with ''/**'' (lr_rule r)" "is_canonical_path (lr_base r)"
proof -
  obtain s where "v = JStr s" using assms by (auto simp: normalize_allowed_rule_def split: option.splits)
  with assms obtain base sub where
    r: "r = \<lparr>lr_rule = (if sub then base @ ''/**'' else base), lr_base = base, lr_subtree = sub\<rparr>"
    and "is_canonical_path base" and plain: "\<not> sub \<Longrightarrow> base = s \<and> \<not> ends_with ''/**'' s"
    by (metis normalize_rule_parts)
  then show "lr_rule r = (if lr_subtree r then lr_base r @ ''/**'' else lr_base r)" "is_canonical_path (lr_base r)"
    by simp_all
  show "lr_subtree r \<longleftrightarrow> ends_with ''/**'' (lr_rule r)"
    by (cases sub) (simp add: r ends_with_self, use plain in \<open>simp add: r\<close>)
qed

lemma update_functional:
  "(\<And>q. (k, q) \<in> set al \<Longrightarrow> q = x) \<Longrightarrow> set (AList.update k x al) = insert (k, x) (set al)"
proof (induction al)
  case (Cons e al)
  obtain k' q where e: "e = (k', q)" by (cases e)
  show ?case
  proof (cases "k' = k")
    case True
    then have "q = x" using Cons.prems e by auto
    with True e show ?thesis by auto
  next
    case False
    then show ?thesis using Cons e by auto
  qed
qed simp

lemma rule_text_inj:
  assumes "normalize_allowed_rule v = Some r" "normalize_allowed_rule w = Some q" "lr_rule r = lr_rule q"
  shows "r = q"
proof -
  have sub: "lr_subtree r = lr_subtree q"
    using normalize_rule_text(2)[OF assms(1)] normalize_rule_text(2)[OF assms(2)] assms(3) by simp
  then have "lr_base r = lr_base q"
    using normalize_rule_text(1)[OF assms(1)] normalize_rule_text(1)[OF assms(2)] assms(3)
    by (metis append_same_eq)
  with sub assms(3) show ?thesis by (cases r; cases q) simp
qed

lemma collect_rules_Some:
  assumes "collect_rules raws acc = Some m"
  shows "(\<forall>raw\<in>set raws. \<exists>r. normalize_allowed_rule raw = Some r)"
  using assms by (induction raws arbitrary: acc) (auto split: option.splits)

lemma collect_rules_result:
  assumes "collect_rules raws acc = Some m" "distinct (map fst acc)"
    "\<forall>(k, r)\<in>set acc. k = lr_rule r \<and> (\<exists>v. normalize_allowed_rule v = Some r)"
  shows "distinct (map fst m) \<and> (\<forall>(k, r)\<in>set m. k = lr_rule r)
    \<and> set (map snd m) = set (map snd acc) \<union> {r. \<exists>raw\<in>set raws. normalize_allowed_rule raw = Some r}"
  using assms
proof (induction raws arbitrary: acc)
  case (Cons raw raws)
  then obtain r where r: "normalize_allowed_rule raw = Some r"
    and rest: "collect_rules raws (AList.update (lr_rule r) r acc) = Some m"
    by (auto split: option.splits)
  let ?acc = "AList.update (lr_rule r) r acc"
  have same: "q = r" if "(k, q) \<in> set acc" "k = lr_rule r" for k q
    using Cons.prems(3) that rule_text_inj[OF _ r] by fastforce
  have mem: "set ?acc = insert (lr_rule r, r) (set acc)"
    using same by (intro update_functional) blast
  have "distinct (map fst ?acc)" using Cons.prems(2) by (simp add: distinct_update)
  moreover have "\<forall>(k, q)\<in>set ?acc. k = lr_rule q \<and> (\<exists>v. normalize_allowed_rule v = Some q)"
    using Cons.prems(3) r by (auto simp: mem)
  ultimately have "distinct (map fst m) \<and> (\<forall>(k, q)\<in>set m. k = lr_rule q)
      \<and> set (map snd m) = set (map snd ?acc) \<union> {q. \<exists>raw\<in>set raws. normalize_allowed_rule raw = Some q}"
    using Cons.IH[OF rest] by blast
  moreover have "set (map snd ?acc) = insert r (set (map snd acc))" by (simp add: mem)
  ultimately show ?case using r by auto
qed auto

lemma collected_rules:
  assumes "collect_rules raws [] = Some m"
  shows "distinct (map snd m)" "set (map snd m) = {r. \<exists>raw\<in>set raws. normalize_allowed_rule raw = Some r}"
    "inj_on lr_rule (set (map snd m))"
proof -
  have res: "distinct (map fst m) \<and> (\<forall>(k, r)\<in>set m. k = lr_rule r)
    \<and> set (map snd m) = {r. \<exists>raw\<in>set raws. normalize_allowed_rule raw = Some r}"
    using collect_rules_result[OF assms] by simp
  then have "map fst m = map lr_rule (map snd m)" by (auto simp: map_eq_conv split: prod.splits)
  with res have dist: "distinct (map lr_rule (map snd m))" by simp
  then show "distinct (map snd m)" by (simp only: distinct_map)
  show "inj_on lr_rule (set (map snd m))" using dist by (simp only: distinct_map)
  show "set (map snd m) = {r. \<exists>raw\<in>set raws. normalize_allowed_rule raw = Some r}" using res by simp
qed

text \<open>Subsumption only drops a rule when a kept one relates to at least the same paths.\<close>

lemma subsumes_relation:
  assumes "subsumes w r" "relation r h \<noteq> None"
  shows "relation w h \<noteq> None"
  using assms ancestor_comparable[of "lr_base w" "lr_base r" h] ancestor_trans[of "lr_base w" "lr_base r" h]
  by (auto simp: subsumes_def relation_def split: if_splits)

definition rule_rank :: "lane_rule \<Rightarrow> nat" where
  "rule_rank r = 2 * length (lr_base r) + (if lr_subtree r then 0 else 1)"

lemma subsumes_rank:
  assumes "subsumes w r" "normalize_allowed_rule a = Some w" "normalize_allowed_rule b = Some r"
  shows "rule_rank w < rule_rank r"
proof -
  have "lr_subtree w" "w \<noteq> r" using assms(1) by (simp_all add: subsumes_def)
  moreover have "\<not> lr_subtree r" if "lr_base w = lr_base r"
    using that rule_text_inj[OF assms(2,3)] normalize_rule_text(1)[OF assms(2)] normalize_rule_text(1)[OF assms(3)]
      calculation by auto
  ultimately show ?thesis using assms(1) by (auto simp: subsumes_def rule_rank_def dest!: ancestor_length)
qed

lemma kept_rule_covers:
  assumes rules: "\<forall>r\<in>rs. \<exists>v. normalize_allowed_rule v = Some r" and "r \<in> rs" "relation r h \<noteq> None"
  shows "\<exists>w\<in>rs. \<not> (\<exists>q\<in>rs. subsumes q w) \<and> relation w h \<noteq> None"
  using assms(2,3)
proof (induction r rule: measure_induct_rule[of rule_rank])
  case (less r)
  show ?case
  proof (cases "\<exists>q\<in>rs. subsumes q r")
    case True
    then obtain q where "q \<in> rs" "subsumes q r" by blast
    with rules less.prems have "rule_rank q < rule_rank r" by (meson subsumes_rank)
    with less.IH[of q] \<open>q \<in> rs\<close> subsumes_relation[OF \<open>subsumes q r\<close> less.prems(2)] show ?thesis by blast
  qed (use less.prems in blast)
qed

lemma normalized_cover:
  assumes "normalize_allowed_rules (JArr raws) = Some rules" "raw \<in> set raws"
  obtains r where "normalize_allowed_rule raw = Some r"
    "\<And>h. relation r h \<noteq> None \<Longrightarrow> \<exists>w\<in>set rules. relation w h \<noteq> None"
proof -
  from assms(1) obtain m where m: "collect_rules raws [] = Some m"
    and rules: "rules = filter (\<lambda>c. \<not> (\<exists>w\<in>set (sort_key lr_rule (map snd m)). subsumes w c)) (sort_key lr_rule (map snd m))"
    by (auto simp: normalize_allowed_rules_def Let_def split: if_splits option.splits)
  from collect_rules_Some[OF m] assms(2) obtain r where r: "normalize_allowed_rule raw = Some r" by blast
  let ?rs = "set (map snd m)"
  have "r \<in> ?rs" using r assms(2) unfolding collected_rules(2)[OF m] by auto
  moreover have "\<forall>r\<in>?rs. \<exists>v. normalize_allowed_rule v = Some r" unfolding collected_rules(2)[OF m] by auto
  ultimately have "relation r h \<noteq> None \<Longrightarrow> \<exists>w\<in>set rules. relation w h \<noteq> None" for h
    using kept_rule_covers[of ?rs r h] by (auto simp: rules)
  with r that show ?thesis by blast
qed

subsection \<open>Relations and segments\<close>

text \<open>What a rule grants, stated on path segments: the path itself, or for a subtree rule every path
  that has the rule's segments as a proper beginning.\<close>

definition below :: "string \<Rightarrow> string \<Rightarrow> bool" where
  "below a p = (length (path_segments a) < length (path_segments p)
     \<and> take (length (path_segments a)) (path_segments p) = path_segments a)"

lemma below_ancestor: "below a p \<longleftrightarrow> is_path_ancestor a p"
proof
  assume b: "below a p"
  let ?n = "length (path_segments a)"
  have "path_segments p = path_segments a @ drop ?n (path_segments p)" "drop ?n (path_segments p) \<noteq> []"
    using b append_take_drop_id[of ?n "path_segments p"] by (simp_all add: below_def)
  then show "is_path_ancestor a p" unfolding ancestor_segments by blast
next
  assume "is_path_ancestor a p"
  then obtain rest where "rest \<noteq> []" "path_segments p = path_segments a @ rest"
    unfolding ancestor_segments by blast
  then show "below a p" by (cases rest) (simp_all add: below_def)
qed

lemma relation_None:
  "relation r h = None \<longleftrightarrow> lr_base r \<noteq> h \<and> (lr_subtree r \<longrightarrow> \<not> below (lr_base r) h \<and> \<not> below h (lr_base r))"
  by (simp add: relation_def below_ancestor)

subsection \<open>Reading the decision\<close>

lemma duplicate_ids_set: "set (duplicate_ids ids) = {i. count_list ids i > 1}"
proof -
  have "i \<in> set ids" if "count_list ids i > 1" for i
    using that by (metis count_notin gr_implies_not0)
  then show ?thesis by (auto simp: duplicate_ids_def)
qed

lemma duplicate_ids_distinct: "distinct (duplicate_ids ids)"
  by (simp add: duplicate_ids_def)

lemma known_entry_Some: "known_entry dup b = Some (i, h) \<longleftrightarrow> b = Known_Blocker i h \<and> i \<notin> set dup"
  by (cases b) auto

lemma failure_entry_Some:
  "failure_entry dup b = Some f \<longleftrightarrow> b = Failed_Blocker f \<and> (\<forall>i. lf_delegation_id f = Some i \<longrightarrow> i \<notin> set dup)"
  by (cases b) (auto split: option.splits)

lemma known_blockers_mem:
  "(i, h) \<in> set (known_blockers bs) \<longleftrightarrow> Known_Blocker i h \<in> set bs \<and> count_list (blocker_ids bs) i \<le> 1"
  by (auto simp: known_blockers_def map_filter_set duplicate_ids_set known_entry_Some)

lemma known_blockers_inj: "inj_on fst (set (known_blockers bs))"
proof (rule inj_onI, clarsimp simp: known_blockers_mem)
  fix i h h'
  assume "Known_Blocker i h \<in> set bs" "Known_Blocker i h' \<in> set bs" "count_list (blocker_ids bs) i \<le> Suc 0"
  then show "h = h'"
    using count_list_two[of "Known_Blocker i h" bs "Known_Blocker i h'" blocker_id i]
    by (auto simp: blocker_ids_def)
qed

lemma authority_failures_set:
  "f \<in> set (authority_failures bs) \<longleftrightarrow>
     Failed_Blocker f \<in> set bs \<and> (\<forall>i. lf_delegation_id f = Some i \<longrightarrow> count_list (blocker_ids bs) i \<le> 1)
     \<or> (\<exists>i. count_list (blocker_ids bs) i > 1 \<and> f = duplicate_failure i)"
  by (auto simp: authority_failures_def map_filter_set duplicate_ids_set failure_entry_Some Let_def not_less)

lemma no_failures:
  assumes "authority_failures bs = []"
  shows "\<forall>b\<in>set bs. \<exists>i h. b = Known_Blocker i h" "\<forall>i. count_list (blocker_ids bs) i \<le> 1"
proof -
  have none: "\<not> f \<in> set (authority_failures bs)" for f using assms by simp
  show dup: "\<forall>i. count_list (blocker_ids bs) i \<le> 1"
  proof (intro allI leI notI)
    fix i assume "1 < count_list (blocker_ids bs) i"
    then show False using none[of "duplicate_failure i"] unfolding authority_failures_set by blast
  qed
  show "\<forall>b\<in>set bs. \<exists>i h. b = Known_Blocker i h"
  proof
    fix b assume b: "b \<in> set bs"
    show "\<exists>i h. b = Known_Blocker i h"
    proof (cases b)
      case (Failed_Blocker f)
      then show ?thesis using none[of f] b dup unfolding authority_failures_set by blast
    qed blast
  qed
qed

lemma block_reasons_empty: "block_reasons cs fs = [] \<longleftrightarrow> cs = [] \<and> fs = []"
proof
  assume "block_reasons cs fs = []"
  then have "mset (block_reasons cs fs) = {#}" by simp
  then have none: "cs = []" "\<forall>f\<in>set fs. lf_state f \<noteq> Auth_UNKNOWN \<and> lf_state f \<noteq> Auth_INVALID"
    by (auto simp: block_reasons_def split: if_splits)
  have "fs = []"
  proof (cases fs)
    case (Cons f fs')
    with none(2) show ?thesis by (cases "lf_state f") auto
  qed simp
  with none(1) show "cs = [] \<and> fs = []" ..
qed (simp add: block_reasons_def)

lemma blocker_conflicts_mem:
  "c \<in> set (blocker_conflicts rules b) \<longleftrightarrow>
     (\<exists>r\<in>set rules. \<exists>e\<in>set (snd b). conflict_entry (fst b) r e = Some c)"
  by (simp add: blocker_conflicts_def map_filter_set)

lemma conflict_entry_None: "conflict_entry i r e = None \<longleftrightarrow> relation r (fst e) = None"
  by (simp add: conflict_entry_def split: option.splits)

lemma blocker_conflicts_empty:
  "blocker_conflicts rules b = [] \<longleftrightarrow> (\<forall>r\<in>set rules. \<forall>e\<in>set (snd b). relation r (fst e) = None)"
proof -
  have "blocker_conflicts rules b = [] \<longleftrightarrow> (\<forall>c. c \<notin> set (blocker_conflicts rules b))"
    by (cases "blocker_conflicts rules b") auto
  also have "\<dots> \<longleftrightarrow> (\<forall>r\<in>set rules. \<forall>e\<in>set (snd b). conflict_entry (fst b) r e = None)"
    unfolding blocker_conflicts_mem by (metis not_None_eq)
  finally show ?thesis unfolding conflict_entry_None .
qed

lemma decide_parsed_allow:
  assumes "ld_allow (decide_parsed rules bs)"
  shows "\<forall>b\<in>set bs. \<exists>i h. b = Known_Blocker i h" "\<forall>i. count_list (blocker_ids bs) i \<le> 1"
    "\<And>i h r p. Known_Blocker i h \<in> set bs \<Longrightarrow> r \<in> set rules \<Longrightarrow> p \<in> fst ` set h \<Longrightarrow> relation r p = None"
    "\<And>i h. Known_Blocker i h \<in> set bs \<Longrightarrow>
       \<lparr>lw_delegation_id = i, lw_paths = map fst h\<rparr> \<in> set (ld_warnings (decide_parsed rules bs))"
proof -
  let ?known = "sort_key fst (known_blockers bs)"
  let ?cs = "concat (map (blocker_conflicts rules) ?known)"
  have dec: "decide_parsed rules bs = \<lparr>ld_allow = True, ld_block_reasons = [], ld_rules = map lr_rule rules,
      ld_conflicts = [], ld_failures = [], ld_warnings = lane_warnings rules ?known\<rparr>"
    and "sort_key conflict_key ?cs = []" "authority_failures bs = []"
    using assms
    by (auto simp: decide_parsed_def Let_def invalid_request_def block_reasons_empty split: if_splits)
  then have cs: "?cs = []" and fs: "authority_failures bs = []"
    by (metis mset_sort mset_zero_iff)+
  show kn: "\<forall>b\<in>set bs. \<exists>i h. b = Known_Blocker i h" and dup: "\<forall>i. count_list (blocker_ids bs) i \<le> 1"
    using no_failures[OF fs] by blast+
  have none: "blocker_conflicts rules (i, h) = []" and mem: "(i, h) \<in> set (known_blockers bs)"
    if "Known_Blocker i h \<in> set bs" for i h
  proof -
    show "(i, h) \<in> set (known_blockers bs)" using that dup by (simp add: known_blockers_mem)
    with cs show "blocker_conflicts rules (i, h) = []" by auto
  qed
  show "relation r p = None" if "Known_Blocker i h \<in> set bs" "r \<in> set rules" "p \<in> fst ` set h" for i h r p
    using none[OF that(1)] that(2,3) by (force simp: blocker_conflicts_empty)
  show "\<lparr>lw_delegation_id = i, lw_paths = map fst h\<rparr> \<in> set (ld_warnings (decide_parsed rules bs))"
    if "Known_Blocker i h \<in> set bs" for i h
    using none[OF that] mem[OF that] unfolding dec by (force simp: lane_warnings_def)
qed

definition lane_request :: "jv list \<Rightarrow> jv list \<Rightarrow> jv" where
  "lane_request allowed blockers = JObj [(''schema_version'', JNum (JInt 1)), (''kind'', JStr lane_request_kind),
     (''allowed_paths'', JArr allowed), (''blockers'', JArr blockers)]"

lemma decide_lane_request:
  "decide_path_lane (lane_request allowed blockers) =
     (if length blockers > max_lane_blockers then invalid_request
      else case normalize_allowed_rules (JArr allowed) of None \<Rightarrow> invalid_request
        | Some rules \<Rightarrow> decide_parsed rules (map parse_blocker blockers))"
  by (simp add: decide_path_lane_def lane_request_def exact_fields_def own_keys_def request_fields_def)

lemma allow_not_invalid [simp]: "\<not> ld_allow invalid_request"
  by (simp add: invalid_request_def)

text \<open>C6: A lane is admitted only beside history it does not touch. If the decision is ALLOW, every
  blocker of the request is readable and names its delegation once, and every allowed path is a valid
  rule. No immutable path the blocker's records name is the base of the rule; and if the rule grants a
  subtree, no such path lies below the base or above it. An exact rule below an immutable path is
  admitted by design, since it grants no subtree (\<open>exact_rule_below_is_admitted\<close>); bases are those
  of the normaliser, which keeps a doubled trailing slash (\<open>double_slash_lane_escapes\<close>). Each blocker
  is also reported as a maintenance warning with its paths.\<close>

theorem allowed_lane_is_disjoint:
  assumes "ld_allow (decide_path_lane (lane_request allowed blockers))"
    and "raw \<in> set allowed" and "b \<in> set blockers"
  shows "\<exists>r i h. normalize_allowed_rule raw = Some r \<and> parse_blocker b = Known_Blocker i h
    \<and> count_list (blocker_ids (map parse_blocker blockers)) i = 1
    \<and> (\<forall>p\<in>fst ` set h. p \<noteq> lr_base r \<and> (lr_subtree r \<longrightarrow> \<not> below (lr_base r) p \<and> \<not> below p (lr_base r)))
    \<and> \<lparr>lw_delegation_id = i, lw_paths = map fst h\<rparr>
         \<in> set (ld_warnings (decide_path_lane (lane_request allowed blockers)))"
proof -
  from decide_lane_request[of allowed blockers] assms(1)
  obtain rules where rules: "normalize_allowed_rules (JArr allowed) = Some rules"
    and dec: "decide_path_lane (lane_request allowed blockers) = decide_parsed rules (map parse_blocker blockers)"
    by (cases "length blockers > max_lane_blockers"; cases "normalize_allowed_rules (JArr allowed)") simp_all
  have allow: "ld_allow (decide_parsed rules (map parse_blocker blockers))" using assms(1) by (simp only: dec)
  from normalized_cover[OF rules assms(2)] obtain r where r: "normalize_allowed_rule raw = Some r"
    "\<And>h. relation r h \<noteq> None \<Longrightarrow> \<exists>w\<in>set rules. relation w h \<noteq> None" by blast
  have pb: "parse_blocker b \<in> set (map parse_blocker blockers)" using assms(3) by simp
  with decide_parsed_allow(1)[OF allow] obtain i h where b: "parse_blocker b = Known_Blocker i h" by blast
  with pb have mem: "Known_Blocker i h \<in> set (map parse_blocker blockers)" by simp
  have "i \<in> set (blocker_ids (map parse_blocker blockers))"
    unfolding blocker_ids_def map_filter_set using mem blocker_id.simps(1)[of i h] by blast
  then have "count_list (blocker_ids (map parse_blocker blockers)) i \<noteq> 0" by (simp add: count_list_0_iff)
  with decide_parsed_allow(2)[OF allow] have once: "count_list (blocker_ids (map parse_blocker blockers)) i = 1"
    by (metis le_neq_implies_less less_one)
  have "relation r p = None" if "p \<in> fst ` set h" for p
    using r(2)[of p] decide_parsed_allow(3)[OF allow mem _ that] by metis
  then have "\<forall>p\<in>fst ` set h. p \<noteq> lr_base r \<and> (lr_subtree r \<longrightarrow> \<not> below (lr_base r) p \<and> \<not> below p (lr_base r))"
    unfolding relation_None by metis
  with r(1) b once decide_parsed_allow(4)[OF allow mem] show ?thesis unfolding dec by blast
qed

definition blocker_1 :: jv where
  "blocker_1 = JObj [(''kind'', JStr ''known''), (''delegation_id'', JStr ''20250101-000000-abcd''),
     (''changed_paths'', JArr [JStr ''src/a'']), (''carried_paths'', JArr []), (''rename_sources'', JObj [])]"

lemma lane_docs_allowed: "ld_allow (decide_path_lane (lane_request [JStr ''docs/**''] [blocker_1]))"
  by code_simp

theorem allowed_lane_is_disjoint_witness:
  "\<exists>r i h. normalize_allowed_rule (JStr ''docs/**'') = Some r \<and> parse_blocker blocker_1 = Known_Blocker i h
    \<and> (\<forall>p\<in>fst ` set h. \<not> below (lr_base r) p)"
proof -
  have "normalize_allowed_rule (JStr ''docs/**'') = Some \<lparr>lr_rule = ''docs/**'', lr_base = ''docs'', lr_subtree = True\<rparr>"
    by code_simp
  with allowed_lane_is_disjoint[OF lane_docs_allowed, of "JStr ''docs/**''" blocker_1] show ?thesis by auto
qed

text \<open>The rule normaliser keeps a trailing slash that the ancestor test does not expect. The allowed
  path \<open>src//\<close> becomes the subtree rule with base \<open>src/\<close>, which is a canonical path, and
  the ancestor test then looks for \<open>src//\<close>; so a lane over all of \<open>src\<close> is allowed beside a
  blocker that owns \<open>src/a\<close>, while \<open>src/\<close> itself is blocked.\<close>

theorem double_slash_lane_escapes:
  "ld_allow (decide_path_lane (lane_request [JStr ''src//''] [blocker_1]))
   \<and> \<not> ld_allow (decide_path_lane (lane_request [JStr ''src/''] [blocker_1]))"
  by (rule conjI) code_simp+

text \<open>Immutable paths are exact files, so a rule for one file below such a path is no conflict, while
  a subtree rule there is.\<close>

lemma exact_rule_below_is_admitted:
  "ld_allow (decide_path_lane (lane_request [JStr ''src/a/b''] [blocker_1]))
   \<and> \<not> ld_allow (decide_path_lane (lane_request [JStr ''src/a/b/''] [blocker_1]))"
  by (rule conjI) code_simp+

subsection \<open>Independence of the input order\<close>

text \<open>Every id a parsed blocker carries has the transaction-id shape, so the empty id stands for none.\<close>

definition sound_blocker :: "parsed_blocker \<Rightarrow> bool" where
  "sound_blocker b = (\<forall>i. blocker_id b = Some i \<longrightarrow> transaction_id_re i)"

lemma valid_delegation_id_Some: "valid_delegation_id v = Some i \<Longrightarrow> transaction_id_re i"
  by (auto simp: valid_delegation_id_def split: option.splits if_splits)

lemma invalid_record_sound: "sound_blocker (invalid_record v)"
  by (auto simp: sound_blocker_def invalid_record_def extracted_id_def valid_delegation_id_Some split: option.splits)

lemma parse_blocker_sound: "sound_blocker (parse_blocker v)"
proof -
  have "sound_blocker (parse_known_blocker f)" for f
    using invalid_record_sound valid_delegation_id_Some
    by (auto simp: parse_known_blocker_def sound_blocker_def split: option.splits)
  moreover have "sound_blocker (parse_failed_blocker f)" for f
    using invalid_record_sound valid_delegation_id_Some
    by (auto simp: parse_failed_blocker_def sound_blocker_def split: option.splits)
  ultimately show ?thesis
    using invalid_record_sound by (simp add: parse_blocker_def split: option.splits)
qed

lemma transaction_id_nonempty: "transaction_id_re i \<Longrightarrow> i \<noteq> []"
  by (auto simp: transaction_id_re_def)

lemma failure_key_inj:
  assumes "failure_key f = failure_key g" "lf_delegation_id f \<noteq> Some []" "lf_delegation_id g \<noteq> Some []"
  shows "f = g"
proof -
  have "lf_state f = lf_state g" "lf_reason f = lf_reason g" "lf_delegation_id f = lf_delegation_id g"
    using assms by (auto simp: failure_key_def split: option.splits)
  then show ?thesis by (cases f; cases g) simp
qed

lemma duplicate_ids_perm:
  assumes "mset bs = mset bs'"
  shows "set (duplicate_ids (blocker_ids bs)) = set (duplicate_ids (blocker_ids bs'))"
proof -
  have "mset (blocker_ids bs) = mset (blocker_ids bs')"
    unfolding blocker_ids_def by (rule map_filter_mset[OF assms])
  then have "count_list (blocker_ids bs) = count_list (blocker_ids bs')" by (metis count_mset ext)
  then show ?thesis by (simp add: duplicate_ids_set)
qed

lemma authority_failures_perm:
  assumes "mset bs = mset bs'" "\<forall>b\<in>set bs. sound_blocker b"
  shows "authority_failures bs = authority_failures bs'"
proof -
  note dset = duplicate_ids_perm[OF assms(1)]
  from dset have dmset: "mset (duplicate_ids (blocker_ids bs)) = mset (duplicate_ids (blocker_ids bs'))"
    by (simp add: set_eq_iff_mset_eq_distinct duplicate_ids_distinct)
  have same: "failure_entry (duplicate_ids (blocker_ids bs)) = failure_entry (duplicate_ids (blocker_ids bs'))"
  proof
    fix b
    show "failure_entry (duplicate_ids (blocker_ids bs)) b = failure_entry (duplicate_ids (blocker_ids bs')) b"
      by (cases b) (simp_all add: dset split: option.splits)
  qed
  show ?thesis
    unfolding authority_failures_def Let_def
  proof (rule sort_key_perm)
    show "mset (List.map_filter (failure_entry (duplicate_ids (blocker_ids bs))) bs
           @ map duplicate_failure (duplicate_ids (blocker_ids bs)))
        = mset (List.map_filter (failure_entry (duplicate_ids (blocker_ids bs'))) bs'
           @ map duplicate_failure (duplicate_ids (blocker_ids bs')))"
      using map_filter_mset[OF assms(1)] dmset by (simp add: same)
    have valid: "lf_delegation_id f \<noteq> Some []"
      if "f \<in> set (List.map_filter (failure_entry (duplicate_ids (blocker_ids bs))) bs
           @ map duplicate_failure (duplicate_ids (blocker_ids bs)))" for f
    proof -
      have id: "transaction_id_re i" if "i \<in> set (blocker_ids bs)" for i
        using that assms(2) by (auto simp: blocker_ids_def map_filter_set sound_blocker_def)
      have dup: "set (duplicate_ids (blocker_ids bs)) \<subseteq> set (blocker_ids bs)"
        by (auto simp: duplicate_ids_def)
      have "Failed_Blocker f \<in> set bs \<or> (\<exists>i\<in>set (blocker_ids bs). f = duplicate_failure i)"
        using that dup by (auto simp: map_filter_set failure_entry_Some)
      then show ?thesis
      proof
        assume "Failed_Blocker f \<in> set bs"
        with assms(2) show ?thesis using transaction_id_nonempty by (force simp: sound_blocker_def)
      next
        assume "\<exists>i\<in>set (blocker_ids bs). f = duplicate_failure i"
        with id show ?thesis using transaction_id_nonempty by (auto simp: duplicate_failure_def)
      qed
    qed
    then show "inj_on failure_key (set (List.map_filter (failure_entry (duplicate_ids (blocker_ids bs))) bs
           @ map duplicate_failure (duplicate_ids (blocker_ids bs))))"
      by (intro inj_onI failure_key_inj) blast+
  qed
qed

lemma known_blockers_perm:
  assumes "mset bs = mset bs'"
  shows "sort_key fst (known_blockers bs) = sort_key fst (known_blockers bs')"
proof (rule sort_key_perm[OF _ known_blockers_inj])
  note dset = duplicate_ids_perm[OF assms]
  have "known_entry (duplicate_ids (blocker_ids bs)) b = known_entry (duplicate_ids (blocker_ids bs')) b" for b
    by (cases b) (simp_all add: dset)
  then have same: "known_entry (duplicate_ids (blocker_ids bs)) = known_entry (duplicate_ids (blocker_ids bs'))" ..
  show "mset (known_blockers bs) = mset (known_blockers bs')"
    unfolding known_blockers_def same by (rule map_filter_mset[OF assms])
qed

lemma normalize_rules_perm:
  assumes "mset raws = mset raws'"
  shows "normalize_allowed_rules (JArr raws) = normalize_allowed_rules (JArr raws')"
proof -
  have set: "set raws = set raws'" and len: "length raws = length raws'"
    using assms by (metis set_mset_mset, metis size_mset)
  have some: "(\<exists>m. collect_rules rs acc = Some m) \<longleftrightarrow> (\<forall>raw\<in>set rs. normalize_allowed_rule raw \<noteq> None)" for rs acc
    by (induction rs arbitrary: acc) (auto split: option.splits)
  show ?thesis
  proof (cases "collect_rules raws []")
    case None
    then have "collect_rules raws' [] = None" using some[of raws "[]"] some[of raws' "[]"] set by auto
    with None len show ?thesis by (auto simp: normalize_allowed_rules_def)
  next
    case (Some m)
    then obtain m' where m': "collect_rules raws' [] = Some m'"
      using some[of raws "[]"] some[of raws' "[]"] set by auto
    have "sort_key lr_rule (map snd m) = sort_key lr_rule (map snd m')"
      using collected_rules[OF Some] collected_rules[OF m'] set by (intro sort_key_same_set) simp_all
    with Some m' len show ?thesis by (auto simp: normalize_allowed_rules_def)
  qed
qed

text \<open>The decision is byte-stable for semantically identical inputs, as its comment promises:
  permuting the allowed paths and permuting the blockers leaves every field of it unchanged.\<close>

theorem lane_decision_order_free:
  assumes "mset allowed = mset allowed'" "mset blockers = mset blockers'"
  shows "decide_path_lane (lane_request allowed blockers) = decide_path_lane (lane_request allowed' blockers')"
proof -
  have len: "length blockers = length blockers'" using assms(2) by (metis size_mset)
  have bs: "mset (map parse_blocker blockers) = mset (map parse_blocker blockers')"
    using assms(2) by simp
  have "authority_failures (map parse_blocker blockers) = authority_failures (map parse_blocker blockers')"
    by (rule authority_failures_perm[OF bs]) (simp add: parse_blocker_sound)
  then have "decide_parsed rules (map parse_blocker blockers) = decide_parsed rules (map parse_blocker blockers')" for rules
    unfolding decide_parsed_def known_blockers_perm[OF bs] by simp
  then show ?thesis
    unfolding decide_lane_request len normalize_rules_perm[OF assms(1)] by (simp split: option.splits)
qed

theorem lane_decision_order_free_witness:
  "decide_path_lane (lane_request [JStr ''a'', JStr ''b/''] [blocker_1, JNull])
   = decide_path_lane (lane_request [JStr ''b/'', JStr ''a''] [JNull, blocker_1])"
  by (rule lane_decision_order_free) simp_all

end
