(* ===== verification/Canonical_Hash.thy ===== *)
theory Canonical_Hash
  imports Js_Value "HOL-Library.Word"
begin

section \<open>Canonical JSON and SHA-256 (cache/canonical-hash.ts)\<close>

text \<open>
  Every durable record of the runtime is bound by the SHA-256 of its canonical JSON text. This
  theory models \<open>serialize\<close> (sorted keys, array order kept, the bare token \<open>undefined\<close>,
  rejection of values that are not JSON) with its exception as a sum, and the digest itself on
  32-bit words. The main result is that the canonical text determines the value up to the order
  of object keys, which the file header claims as "collision-free by construction".
\<close>

unbundle bit_operations_syntax

subsection \<open>SHA-256\<close>

type_synonym u32 = "32 word"

definition rotr :: "nat \<Rightarrow> u32 \<Rightarrow> u32" where
  "rotr n x = drop_bit n x OR push_bit (32 - n) x"

definition sha_k :: "u32 list" where
  "sha_k = [
     1116352408, 1899447441, 3049323471, 3921009573, 961987163, 1508970993, 2453635748, 2870763221,
     3624381080, 310598401, 607225278, 1426881987, 1925078388, 2162078206, 2614888103, 3248222580,
     3835390401, 4022224774, 264347078, 604807628, 770255983, 1249150122, 1555081692, 1996064986,
     2554220882, 2821834349, 2952996808, 3210313671, 3336571891, 3584528711, 113926993, 338241895,
     666307205, 773529912, 1294757372, 1396182291, 1695183700, 1986661051, 2177026350, 2456956037,
     2730485921, 2820302411, 3259730800, 3345764771, 3516065817, 3600352804, 4094571909, 275423344,
     430227734, 506948616, 659060556, 883997877, 958139571, 1322822218, 1537002063, 1747873779,
     1955562222, 2024104815, 2227730452, 2361852424, 2428436474, 2756734187, 3204031479, 3329325298]"

definition sha_iv :: "u32 list" where
  "sha_iv = [1779033703, 3144134277, 1013904242, 2773480762,
             1359893119, 2600822924, 528734635, 1541459225]"

text \<open>The message schedule, newest word first.\<close>

fun sha_schedule :: "nat \<Rightarrow> u32 list \<Rightarrow> u32 list" where
  "sha_schedule 0 w = rev w"
| "sha_schedule (Suc n) w =
     (let a = w ! 14; b = w ! 1;
          s0 = rotr 7 a XOR rotr 18 a XOR drop_bit 3 a;
          s1 = rotr 17 b XOR rotr 19 b XOR drop_bit 10 b
      in sha_schedule n ((w ! 15 + s0 + w ! 6 + s1) # w))"

fun sha_round :: "u32 list \<Rightarrow> u32 \<times> u32 \<Rightarrow> u32 list" where
  "sha_round [a, b, c, d, e, f, g, h] (k, w) =
     (let s1 = rotr 6 e XOR rotr 11 e XOR rotr 25 e;
          ch = (e AND f) XOR (NOT e AND g);
          t1 = h + s1 + ch + k + w;
          s0 = rotr 2 a XOR rotr 13 a XOR rotr 22 a;
          mj = (a AND b) XOR (a AND c) XOR (b AND c)
      in [t1 + (s0 + mj), a, b, c, d + t1, e, f, g])"
| "sha_round st _ = st"

definition sha_block :: "u32 list \<Rightarrow> u32 list \<Rightarrow> u32 list" where
  "sha_block st w = map2 (+) st (foldl sha_round st (zip sha_k (sha_schedule 48 (rev w))))"

definition be_bytes :: "nat \<Rightarrow> nat \<Rightarrow> nat list" where
  "be_bytes n x = map (\<lambda>i. x div 256 ^ (n - 1 - i) mod 256) [0..<n]"

definition sha_pad :: "nat list \<Rightarrow> nat list" where
  "sha_pad bs =
     bs @ [128] @ replicate ((119 - length bs mod 64) mod 64) 0 @ be_bytes 8 (8 * length bs)"

fun be_words :: "nat list \<Rightarrow> u32 list" where
  "be_words (a # b # c # d # bs) = word_of_nat (((a * 256 + b) * 256 + c) * 256 + d) # be_words bs"
| "be_words _ = []"

fun sha_blocks :: "nat \<Rightarrow> u32 list \<Rightarrow> u32 list \<Rightarrow> u32 list" where
  "sha_blocks 0 st ws = st"
| "sha_blocks (Suc n) st ws = sha_blocks n (sha_block st (take 16 ws)) (drop 16 ws)"

definition sha256 :: "nat list \<Rightarrow> u32 list" where
  "sha256 bs = (let p = sha_pad bs in sha_blocks (length p div 64) sha_iv (be_words p))"

definition hex_digit :: "nat \<Rightarrow> char" where
  "hex_digit n = (if n < 10 then char_of (48 + n) else char_of (87 + n))"

definition hex_word :: "u32 \<Rightarrow> string" where
  "hex_word x = map (\<lambda>i. hex_digit (unat (drop_bit (28 - 4 * i) x AND 15))) [0..<8]"

text \<open>\<open>sha256Hex\<close>: the lower-case hex digest of the UTF-8 bytes of a string.\<close>

definition sha256_hex :: "string \<Rightarrow> string" where
  "sha256_hex s = concat (map hex_word (sha256 (utf8 s)))"

definition sha256_hex_bytes :: "nat list \<Rightarrow> string" where
  "sha256_hex_bytes bs = concat (map hex_word (sha256 bs))"

definition hash_session_id :: "string \<Rightarrow> string" where
  "hash_session_id i = take 16 (sha256_hex i)"

lemma length_sha_round: "length st = 8 \<Longrightarrow> length (sha_round st kw) = 8"
  by (cases "(st, kw)" rule: sha_round.cases) (auto simp: Let_def)

lemma length_sha_fold: "length st = 8 \<Longrightarrow> length (foldl sha_round st kws) = 8"
  by (induction kws arbitrary: st) (auto simp: length_sha_round)

lemma length_sha_blocks: "length st = 8 \<Longrightarrow> length (sha_blocks n st ws) = 8"
  by (induction n st ws rule: sha_blocks.induct) (auto simp: sha_block_def length_sha_fold)

lemma length_sha256 [simp]: "length (sha256 bs) = 8"
  by (simp add: sha256_def Let_def length_sha_blocks sha_iv_def)

lemma hex_digit_lower: "n < 16 \<Longrightarrow> is_lower_hex (hex_digit n)"
  by (auto simp: hex_digit_def is_lower_hex_def is_digit_def)

lemma hex_word_lower: "list_all is_lower_hex (hex_word x)"
proof -
  have "unat (y AND 15 :: u32) < 16" for y
    using word_and_le1[of y 15] by (simp add: word_le_nat_alt)
  then show ?thesis by (auto simp: hex_word_def list_all_iff hex_digit_lower)
qed

lemma length_concat_const: "\<forall>x\<in>set xs. length (f x) = n \<Longrightarrow> length (concat (map f xs)) = n * length xs"
  by (induction xs) auto

lemma sha256_hex_hash_re [simp]: "hash_re (sha256_hex s)"
proof -
  have "length (concat (map hex_word (sha256 (utf8 s)))) = 8 * length (sha256 (utf8 s))"
    by (rule length_concat_const) (simp add: hex_word_def)
  moreover have "list_all is_lower_hex (concat (map hex_word (sha256 (utf8 s))))"
    using hex_word_lower by (auto simp: list_all_iff)
  ultimately show ?thesis by (simp add: hash_re_def sha256_hex_def)
qed

subsection \<open>The canonical text\<close>

datatype canon_error = NonSerializableValue string

definition esc_char :: "char \<Rightarrow> string" where
  "esc_char c =
     (if c = CHR 0x22 then [CHR 0x5C, CHR 0x22]
      else if c = CHR 0x5C then [CHR 0x5C, CHR 0x5C]
      else if c = CHR 0x08 then [CHR 0x5C, CHR ''b'']
      else if c = CHR 0x09 then [CHR 0x5C, CHR ''t'']
      else if c = CHR 0x0A then [CHR 0x5C, CHR ''n'']
      else if c = CHR 0x0C then [CHR 0x5C, CHR ''f'']
      else if c = CHR 0x0D then [CHR 0x5C, CHR ''r'']
      else if code_of c < (32::nat)
      then [CHR 0x5C, CHR ''u'', CHR ''0'', CHR ''0'', hex_digit (code_of c div 16), hex_digit (code_of c mod 16)]
      else [c])"

text \<open>\<open>JSON.stringify\<close> of a string.\<close>

definition quote_json :: "string \<Rightarrow> string" where
  "quote_json s = CHR 0x22 # concat (map esc_char s) @ [CHR 0x22]"

fun num_text :: "jnum \<Rightarrow> string" where
  "num_text (JInt i) = int_text i"
| "num_text (JFrac t) = t"
| "num_text JNaN = ''NaN''"
| "num_text (JInf b) = ''Infinity''"

fun collect :: "(string \<times> (canon_error + string)) list \<Rightarrow> canon_error + (string \<times> string) list" where
  "collect [] = Inr []"
| "collect ((k, Inl e) # kvs) = Inl e"
| "collect ((k, Inr t) # kvs) =
     (case collect kvs of Inl e \<Rightarrow> Inl e | Inr ts \<Rightarrow> Inr ((k, t) # ts))"

definition member_text :: "string \<times> string \<Rightarrow> string" where
  "member_text kt = quote_json (fst kt) @ '':'' @ snd kt"

primrec serialize :: "jv \<Rightarrow> canon_error + string" where
  "serialize JNull = Inr ''null''"
| "serialize (JStr s) = Inr (quote_json s)"
| "serialize (JBool b) = Inr (if b then ''true'' else ''false'')"
| "serialize (JNum n) =
     (case n of JNaN \<Rightarrow> Inl (NonSerializableValue ''number'')
      | JInf s \<Rightarrow> Inl (NonSerializableValue ''number'')
      | JInt i \<Rightarrow> Inr (num_text n)
      | JFrac t \<Rightarrow> Inr (num_text n))"
| "serialize JUndef = Inr ''undefined''"
| "serialize (JExotic k) = Inl (NonSerializableValue k)"
| "serialize (JArr vs) =
     (case collect (map (\<lambda>r. ([], r)) (map serialize vs)) of
        Inl e \<Rightarrow> Inl e
      | Inr ts \<Rightarrow> Inr (''['' @ join_with '','' (map snd ts) @ '']''))"
| "serialize (JObj kvs) =
     (case collect (sort_key fst (map (map_prod id serialize) kvs)) of
        Inl e \<Rightarrow> Inl e
      | Inr ts \<Rightarrow> Inr (''{'' @ join_with '','' (map member_text ts) @ ''}''))"

definition canonical_json :: "jv \<Rightarrow> canon_error + string" where
  "canonical_json v = serialize v"

definition canonical_hash :: "jv \<Rightarrow> canon_error + string" where
  "canonical_hash v = (case canonical_json v of Inl e \<Rightarrow> Inl e | Inr t \<Rightarrow> Inr (sha256_hex t))"

subsection \<open>The text of a sorted value\<close>

text \<open>
  \<open>sort_keys\<close> orders the keys of every object; \<open>print_value\<close> prints in the order it finds.
  Serialising a value is printing its sorted form, so the injectivity of the canonical text is
  that of a plain printer.
\<close>

primrec sort_keys :: "jv \<Rightarrow> jv" where
  "sort_keys JNull = JNull"
| "sort_keys (JStr s) = JStr s"
| "sort_keys (JBool b) = JBool b"
| "sort_keys (JNum n) = JNum n"
| "sort_keys JUndef = JUndef"
| "sort_keys (JExotic k) = JExotic k"
| "sort_keys (JArr vs) = JArr (map sort_keys vs)"
| "sort_keys (JObj kvs) = JObj (sort_key fst (map (map_prod id sort_keys) kvs))"

primrec print_value :: "jv \<Rightarrow> string" where
  "print_value JNull = ''null''"
| "print_value (JStr s) = quote_json s"
| "print_value (JBool b) = (if b then ''true'' else ''false'')"
| "print_value (JNum n) = num_text n"
| "print_value JUndef = ''undefined''"
| "print_value (JExotic k) = k"
| "print_value (JArr vs) = ''['' @ join_with '','' (map print_value vs) @ '']''"
| "print_value (JObj kvs) = ''{'' @ join_with '','' (map member_text (map (map_prod id print_value) kvs)) @ ''}''"

primrec serializable :: "jv \<Rightarrow> bool" where
  "serializable JNull = True"
| "serializable (JStr s) = True"
| "serializable (JBool b) = True"
| "serializable (JNum n) = (case n of JNaN \<Rightarrow> False | JInf s \<Rightarrow> False | JInt i \<Rightarrow> True | JFrac t \<Rightarrow> True)"
| "serializable JUndef = True"
| "serializable (JExotic k) = False"
| "serializable (JArr vs) = list_all id (map serializable vs)"
| "serializable (JObj kvs) = list_all snd (map (map_prod id serializable) kvs)"

lemma insort_key_map: "insort_key f (g x) (map g xs) = map g (insort_key (\<lambda>y. f (g y)) x xs)"
  by (induction xs) auto

lemma sort_key_map: "sort_key f (map g xs) = map g (sort_key (\<lambda>x. f (g x)) xs)"
  by (induction xs) (auto simp: insort_key_map)

lemma sort_key_map_prod: "sort_key fst (map (map_prod id h) kvs) = map (map_prod id h) (sort_key fst kvs)"
  by (simp add: sort_key_map)

lemma collect_Inr: "collect (map (map_prod id (\<lambda>t. Inr t)) kts) = Inr kts"
  by (induction kts) auto

lemma collect_Inl:
  "(\<exists>k e. (k, Inl e) \<in> set krs) \<Longrightarrow> \<exists>e. collect krs = Inl e"
  by (induction krs rule: collect.induct) (auto split: sum.splits)

lemma serialize_serializable:
  "serializable v \<Longrightarrow> serialize v = Inr (print_value (sort_keys v))"
proof (induction v)
  case (JArr vs)
  then have "map serialize vs = map (\<lambda>v. Inr (print_value (sort_keys v))) vs"
    by (auto simp: list_all_iff)
  then have "map (\<lambda>r. ([], r)) (map serialize vs)
      = map (map_prod id (\<lambda>t. Inr t)) (map (\<lambda>v. ([], print_value (sort_keys v))) vs)"
    by simp
  then have "collect (map (\<lambda>r. ([], r)) (map serialize vs)) = Inr (map (\<lambda>v. ([], print_value (sort_keys v))) vs)"
    using collect_Inr by metis
  then show ?case by (simp add: comp_def)
next
  case (JObj kvs)
  have "map (map_prod id serialize) kvs
      = map (map_prod id (\<lambda>t. Inr t)) (map (map_prod id (\<lambda>v. print_value (sort_keys v))) kvs)"
    using JObj by (fastforce simp: list_all_iff)
  then have "collect (sort_key fst (map (map_prod id serialize) kvs))
      = Inr (map (map_prod id (\<lambda>v. print_value (sort_keys v))) (sort_key fst kvs))"
    by (metis collect_Inr sort_key_map_prod)
  then show ?case by (simp add: sort_key_map_prod comp_def prod.map_comp) (simp add: id_def)
qed (auto split: jnum.splits)

lemma serialize_Inr_serializable: "serialize v = Inr t \<Longrightarrow> serializable v"
proof (induction v arbitrary: t)
  case (JArr vs)
  show ?case
  proof (rule ccontr)
    assume "\<not> serializable (JArr vs)"
    then obtain v where v: "v \<in> set vs" "\<not> serializable v" by (auto simp: list_all_iff)
    with JArr.IH obtain e where "serialize v = Inl e" by (cases "serialize v") auto
    with v have "([], Inl e) \<in> set (map (\<lambda>r. ([], r)) (map serialize vs))" by force
    with JArr.prems show False using collect_Inl by (fastforce split: sum.splits)
  qed
next
  case (JObj kvs)
  show ?case
  proof (rule ccontr)
    assume "\<not> serializable (JObj kvs)"
    then obtain k v where v: "(k, v) \<in> set kvs" "\<not> serializable v" by (auto simp: list_all_iff)
    with JObj.IH obtain e where "serialize v = Inl e" by (cases "serialize v") auto
    with v have "(k, Inl e) \<in> set (sort_key fst (map (map_prod id serialize) kvs))" by force
    with JObj.prems show False using collect_Inl by (fastforce split: sum.splits)
  qed
qed (auto split: jnum.splits)

subsection \<open>The canonical text determines the value\<close>

text \<open>
  Every printed value is followed by the end of the text, a comma or a closing bracket. Under
  that condition a value can be read off the front of the text in one way only.
\<close>

definition stops :: "string \<Rightarrow> bool" where
  "stops r = (case r of [] \<Rightarrow> True | c # _ \<Rightarrow> c \<in> {CHR '','', CHR ''}'', CHR '']''})"

fun unescape :: "string \<Rightarrow> (char \<times> string) option" where
  "unescape [] = None"
| "unescape (c # r) =
     (if c = CHR 0x22 then None
      else if c \<noteq> CHR 0x5C then Some (c, r)
      else (case r of
          [] \<Rightarrow> None
        | d # r' \<Rightarrow>
            (if d = CHR ''u'' then
               (case r' of
                  _ # _ # h # l # r'' \<Rightarrow>
                    Some (char_of ((code_of h - 48) * 16
                      + (if code_of l < (97::nat) then code_of l - 48 else code_of l - 87)), r'')
                | _ \<Rightarrow> None)
             else if d = CHR ''b'' then Some (CHR 0x08, r')
             else if d = CHR ''t'' then Some (CHR 0x09, r')
             else if d = CHR ''n'' then Some (CHR 0x0A, r')
             else if d = CHR ''f'' then Some (CHR 0x0C, r')
             else if d = CHR ''r'' then Some (CHR 0x0D, r')
             else Some (d, r'))))"

lemma code_of_char_of: "n < 256 \<Longrightarrow> code_of (char_of n :: char) = (n :: nat)"
  by simp

lemma unescape_esc_control:
  assumes "code_of c < (32::nat)"
  shows "unescape ([CHR 0x5C, CHR ''u'', CHR ''0'', CHR ''0'',
      hex_digit (code_of c div 16), hex_digit (code_of c mod 16)] @ r) = Some (c, r)"
proof -
  have hi: "code_of c div 16 < (2::nat)" using assms by simp
  have h: "code_of (hex_digit (code_of c div 16)) = 48 + (code_of c div 16 :: nat)"
    using hi by (simp add: hex_digit_def)
  have l: "(if code_of (hex_digit (code_of c mod 16)) < (97::nat)
        then code_of (hex_digit (code_of c mod 16)) - 48
        else code_of (hex_digit (code_of c mod 16)) - 87) = (code_of c mod 16 :: nat)"
    by (auto simp: hex_digit_def)
  have "char_of (code_of c div 16 * 16 + code_of c mod 16 :: nat) = c"
    by (metis char_of_char div_mult_mod_eq)
  with h l show ?thesis by simp
qed

lemma unescape_esc: "unescape (esc_char c @ r) = Some (c, r)"
  unfolding esc_char_def using unescape_esc_control[of c r] by simp

lemma quote_json_inj:
  assumes "concat (map esc_char s) @ CHR 0x22 # r = concat (map esc_char t) @ CHR 0x22 # r'"
  shows "s = t \<and> r = r'"
  using assms
proof (induction s arbitrary: t)
  case Nil
  then have "unescape (concat (map esc_char t) @ CHR 0x22 # r') = None"
    by (metis append_Nil concat.simps(1) list.simps(8) unescape.simps(2))
  then have "t = []" by (cases t) (auto simp: unescape_esc)
  with Nil show ?case by simp
next
  case (Cons c cs)
  then have u: "unescape (concat (map esc_char t) @ CHR 0x22 # r') = Some (c, concat (map esc_char cs) @ CHR 0x22 # r)"
    by (metis append.assoc concat.simps(2) list.simps(9) unescape_esc)
  then obtain d ds where t: "t = d # ds" by (cases t) auto
  with u have "c = d \<and> concat (map esc_char cs) @ CHR 0x22 # r = concat (map esc_char ds) @ CHR 0x22 # r'"
    by (simp add: unescape_esc)
  with Cons.IH t show ?case by blast
qed

definition num_char :: "char \<Rightarrow> bool" where
  "num_char c = (is_digit c \<or> c \<in> {CHR ''-'', CHR ''+'', CHR ''.'', CHR ''e''})"

lemma takeWhile_stop: "list_all P s \<Longrightarrow> (r = [] \<or> \<not> P (hd r)) \<Longrightarrow> takeWhile P (s @ r) = s"
  by (induction s) (auto simp: takeWhile_eq_Nil_iff)

lemma nat_text_digits: "list_all is_digit (nat_text n)"
proof (induction n rule: nat_text.induct)
  case (1 n)
  show ?case
  proof (cases "n < 10")
    case True
    then show ?thesis by (simp add: nat_text.simps[of n] is_digit_def)
  next
    case False
    moreover have "is_digit (char_of (48 + n mod 10))" by (simp add: is_digit_def)
    ultimately show ?thesis using 1 by (simp add: nat_text.simps[of n])
  qed
qed

lemma nat_text_nonempty [simp]: "nat_text n \<noteq> []"
  by (simp add: nat_text.simps[of n])

fun nat_value :: "string \<Rightarrow> nat" where
  "nat_value s = foldl (\<lambda>a c. a * 10 + (code_of c - 48)) 0 s"

lemma nat_value_text: "nat_value (nat_text n) = n"
proof (induction n rule: nat_text.induct)
  case (1 n)
  show ?case
  proof (cases "n < 10")
    case True
    then show ?thesis by (simp add: nat_text.simps[of n])
  next
    case False
    with 1 show ?thesis by (simp add: nat_text.simps[of n])
  qed
qed

lemma nat_text_inj: "nat_text m = nat_text n \<Longrightarrow> m = n"
  by (metis nat_value_text)

lemma nat_text_not_digit:
  assumes "\<not> is_digit c"
  shows "c \<notin> set (nat_text n)" "c # s \<noteq> nat_text n" "nat_text n \<noteq> c # s"
  using nat_text_digits[of n] assms by (auto simp: list_all_iff) (metis list.set_intros(1))+

lemma int_text_inj: "int_text i = int_text j \<Longrightarrow> i = j"
proof -
  have "\<not> is_digit (CHR ''-'')" by (simp add: is_digit_def)
  note no = nat_text_not_digit[OF this]
  assume "int_text i = int_text j"
  then show "i = j"
    by (auto simp: int_text_def no dest: nat_text_inj split: if_splits)
qed

lemma int_text_chars: "list_all num_char (int_text i)" "int_text i \<noteq> []"
  "CHR ''.'' \<notin> set (int_text i)" "CHR ''e'' \<notin> set (int_text i)"
proof -
  have "is_digit c" if "c \<in> set (nat_text n)" for c n
    using nat_text_digits[of n] that by (simp add: list_all_iff)
  then show "list_all num_char (int_text i)"
    by (auto simp: int_text_def num_char_def list_all_iff)
  show "int_text i \<noteq> []" by (simp add: int_text_def)
  have "\<not> is_digit (CHR ''.'')" "\<not> is_digit (CHR ''e'')" by (simp_all add: is_digit_def)
  then show "CHR ''.'' \<notin> set (int_text i)" "CHR ''e'' \<notin> set (int_text i)"
    by (auto simp: int_text_def nat_text_not_digit)
qed

lemma num_text_chars:
  "wf_value (JNum n) \<Longrightarrow> serializable (JNum n) \<Longrightarrow> list_all num_char (num_text n) \<and> num_text n \<noteq> []"
  by (cases n) (auto simp: int_text_chars, auto simp: list_all_iff num_char_def)

lemma num_text_inj:
  assumes "num_text n = num_text m" "wf_value (JNum n)" "wf_value (JNum m)"
    "serializable (JNum n)" "serializable (JNum m)"
  shows "n = m"
  using assms int_text_inj int_text_chars(3,4) by (cases n; cases m) auto

definition value_ok :: "jv \<Rightarrow> bool" where
  "value_ok v = (wf_value v \<and> serializable v)"

lemma stops_num: "stops r \<Longrightarrow> r = [] \<or> \<not> num_char (hd r)"
  by (cases r) (auto simp: stops_def num_char_def is_digit_def)

lemma value_ok_arr: "value_ok (JArr vs) = (\<forall>v\<in>set vs. value_ok v)"
  by (auto simp: value_ok_def list_all_iff)

lemma value_ok_obj: "value_ok (JObj kvs) \<Longrightarrow> (k, v) \<in> set kvs \<Longrightarrow> value_ok v"
  by (fastforce simp: value_ok_def list_all_iff)

text \<open>The first character of a printed value tells its kind.\<close>

fun head_kind :: "char \<Rightarrow> nat" where
  "head_kind c =
     (if c = CHR 0x22 then 1 else if num_char c \<and> c \<noteq> CHR ''e'' then 2 else if c = CHR ''['' then 3
      else if c = CHR ''{'' then 4 else if c = CHR ''n'' then 5 else if c = CHR ''t'' then 6
      else if c = CHR ''f'' then 7 else if c = CHR ''u'' then 8 else 0)"

primrec kind_of :: "jv \<Rightarrow> nat" where
  "kind_of JNull = 5"
| "kind_of (JStr s) = 1"
| "kind_of (JBool b) = (if b then 6 else 7)"
| "kind_of (JNum n) = 2"
| "kind_of JUndef = 8"
| "kind_of (JExotic k) = 0"
| "kind_of (JArr vs) = 3"
| "kind_of (JObj kvs) = 4"

lemma num_head:
  assumes "value_ok (JNum n)"
  shows "\<exists>c cs. num_text n = c # cs \<and> num_char c \<and> c \<noteq> CHR ''e''"
proof (cases n)
  case (JInt i)
  have "num_text n \<noteq> []" using JInt int_text_chars(2) by simp
  then obtain c cs where c: "num_text n = c # cs" by (cases "num_text n") auto
  moreover have "num_char c" "c \<noteq> CHR ''e''"
    using c JInt int_text_chars(1,4)[of i] by (auto simp: list_all_iff)
  ultimately show ?thesis by blast
next
  case (JFrac t)
  with assms show ?thesis
    by (cases t) (auto simp: value_ok_def num_char_def is_digit_def)
qed (use assms in \<open>auto simp: value_ok_def\<close>)

lemma head_kind_num: "num_char c \<Longrightarrow> c \<noteq> CHR ''e'' \<Longrightarrow> head_kind c = 2"
  by (auto simp: num_char_def is_digit_def)

lemma head_kind_const:
  "head_kind CHR 0x22 = 1" "head_kind (CHR ''['') = 3" "head_kind (CHR ''{'') = 4"
  "head_kind (CHR ''n'') = 5" "head_kind (CHR ''t'') = 6" "head_kind (CHR ''f'') = 7"
  "head_kind (CHR ''u'') = 8"
  by (simp_all add: num_char_def is_digit_def)

declare head_kind.simps [simp del]

lemma print_head:
  assumes "value_ok v"
  shows "\<exists>c cs. print_value v = c # cs \<and> head_kind c = kind_of v"
proof (cases v)
  case (JNum n)
  with assms num_head[of n] show ?thesis by (auto simp: head_kind_num)
next
  case (JExotic k)
  with assms show ?thesis by (simp add: value_ok_def)
qed (simp_all add: quote_json_def head_kind_const)

lemma print_kind:
  assumes "value_ok v" "value_ok w" "print_value v @ r = print_value w @ s"
  shows "kind_of v = kind_of w"
  using print_head[OF assms(1)] print_head[OF assms(2)] assms(3) by auto

lemma stops_sep: "stops (''],'' @ r)" "stops (CHR '','' # r)" "stops (CHR '']'' # r)" "stops (CHR ''}'' # r)"
  by (auto simp: stops_def)

text \<open>
  Reading a comma-separated list back: the items are texts of a printer \<open>f\<close> that reads back
  before a comma or the closing bracket and never starts with that bracket.
\<close>

lemma join_items_inj:
  assumes item: "\<And>x y r s. x \<in> set xs \<Longrightarrow> y \<in> P \<Longrightarrow> stops r \<Longrightarrow> stops s \<Longrightarrow> f x @ r = f y @ s \<Longrightarrow> x = y \<and> r = s"
    and close: "close \<in> {CHR '']'', CHR ''}''}"
    and head: "\<And>x. x \<in> set xs \<union> P \<Longrightarrow> \<exists>c cs. f x = c # cs \<and> c \<noteq> close"
    and ys: "set ys \<subseteq> P"
    and eq: "join_with '','' (map f xs) @ close # r = join_with '','' (map f ys) @ close # s"
  shows "xs = ys \<and> r = s"
  using item head ys eq
proof (induction xs arbitrary: ys)
  case Nil
  show ?case
  proof (cases ys)
    case (Cons y ys')
    with Nil.prems(2)[of y] Nil.prems(3) obtain c cs where "f y = c # cs" "c \<noteq> close" by auto
    with Cons Nil.prems(4) show ?thesis by (cases ys') auto
  qed (use Nil.prems in auto)
next
  case (Cons x xs)
  obtain y ys' where ys: "ys = y # ys'"
  proof (cases ys)
    case Nil
    from Cons.prems(2)[of x] obtain c cs where "f x = c # cs" "c \<noteq> close" by auto
    with Cons.prems(4) Nil show ?thesis by (cases xs) auto
  qed
  define rx where "rx = (if xs = [] then [] else CHR '','' # join_with '','' (map f xs)) @ close # r"
  define ry where "ry = (if ys' = [] then [] else CHR '','' # join_with '','' (map f ys')) @ close # s"
  have "join_with '','' (map f (x # xs)) @ close # r = f x @ rx" by (cases xs) (auto simp: rx_def)
  moreover have "join_with '','' (map f (y # ys')) @ close # s = f y @ ry" by (cases ys') (auto simp: ry_def)
  ultimately have "f x @ rx = f y @ ry" using Cons.prems(4) ys by simp
  moreover have "stops rx" "stops ry" using close by (auto simp: rx_def ry_def stops_def)
  ultimately have xy: "x = y" and rest: "rx = ry"
    using Cons.prems(1)[of x y rx ry] Cons.prems(3) ys by auto
  have "close \<noteq> CHR '',''" using close by auto
  with rest have "(xs = []) = (ys' = [])" by (auto simp: rx_def ry_def split: if_splits)
  with rest have "join_with '','' (map f xs) @ close # r = join_with '','' (map f ys') @ close # s"
    by (auto simp: rx_def ry_def split: if_splits)
  with Cons.IH[of ys'] Cons.prems ys xy show ?case by auto
qed

lemma value_ok_mem:
  "value_ok (JObj kvs) \<Longrightarrow> \<forall>kv\<in>set kvs. value_ok (snd kv)"
  by (auto dest: value_ok_obj)

lemma print_value_inj:
  "value_ok v \<Longrightarrow> value_ok w \<Longrightarrow> stops r \<Longrightarrow> stops s \<Longrightarrow>
     print_value v @ r = print_value w @ s \<Longrightarrow> v = w \<and> r = s"
proof (induction v arbitrary: w r s)
  case (JNum n)
  from print_kind[OF JNum.prems(1,2,5)] obtain m where w: "w = JNum m" by (cases w) (auto split: if_splits)
  have ok: "wf_value (JNum n)" "serializable (JNum n)" "wf_value (JNum m)" "serializable (JNum m)"
    using JNum.prems(1,2) w by (simp_all add: value_ok_def)
  have "takeWhile num_char (num_text n @ r) = num_text n"
    "takeWhile num_char (num_text m @ s) = num_text m"
    using ok num_text_chars JNum.prems(3,4) stops_num by (blast intro: takeWhile_stop)+
  with JNum.prems(5) w have eq: "num_text n = num_text m" by simp
  with ok num_text_inj have "n = m" by blast
  with w JNum.prems(5) show ?case by simp
next
  case (JStr t)
  from print_kind[OF JStr.prems(1,2,5)] obtain u where w: "w = JStr u" by (cases w) (auto split: if_splits)
  with JStr.prems(5) quote_json_inj[of t r u s] show ?case by (simp add: quote_json_def)
next
  case (JArr vs)
  from print_kind[OF JArr.prems(1,2,5)] obtain ws where w: "w = JArr ws" by (cases w) (auto split: if_splits)
  have "vs = ws \<and> r = s"
  proof (rule join_items_inj[where f = print_value and P = "{v. value_ok v}" and close = "CHR '']''"])
    show "\<And>x y r s. x \<in> set vs \<Longrightarrow> y \<in> {v. value_ok v} \<Longrightarrow> stops r \<Longrightarrow> stops s \<Longrightarrow>
        print_value x @ r = print_value y @ s \<Longrightarrow> x = y \<and> r = s"
      using JArr.IH JArr.prems(1) value_ok_arr by blast
    show "\<exists>c cs. print_value x = c # cs \<and> c \<noteq> CHR '']''" if "x \<in> set vs \<union> {v. value_ok v}" for x
    proof -
      have ok: "value_ok x" using that JArr.prems(1) value_ok_arr by blast
      then obtain c cs where c: "print_value x = c # cs" "head_kind c = kind_of x" using print_head by blast
      have "head_kind (CHR '']'') = 0" by (simp add: head_kind.simps num_char_def is_digit_def)
      moreover have "kind_of x \<noteq> 0" using ok by (cases x) (auto simp: value_ok_def)
      ultimately show ?thesis using c by auto
    qed
    show "set ws \<subseteq> {v. value_ok v}" using JArr.prems(2) w value_ok_arr by blast
    show "join_with '','' (map print_value vs) @ CHR '']'' # r = join_with '','' (map print_value ws) @ CHR '']'' # s"
      using JArr.prems(5) w by simp
  qed simp
  with w show ?case by simp
next
  case (JObj kvs)
  from print_kind[OF JObj.prems(1,2,5)] obtain lws where w: "w = JObj lws" by (cases w) (auto split: if_splits)
  define f where "f = (\<lambda>kv. member_text (map_prod id print_value kv))"
  have f: "f (k, v) = CHR 0x22 # concat (map esc_char k) @ CHR 0x22 # '':'' @ print_value v" for k v
    by (simp add: f_def member_text_def quote_json_def)
  have "kvs = lws \<and> r = s"
  proof (rule join_items_inj[where f = f and P = "{kv. value_ok (snd kv)}" and close = "CHR ''}''"])
    show "x = y \<and> r' = s'" if a: "x \<in> set kvs" "y \<in> {kv. value_ok (snd kv)}" "stops r'" "stops s'"
      "f x @ r' = f y @ s'" for x y r' s'
    proof -
      obtain k v l u where xy: "x = (k, v)" "y = (l, u)" by fastforce
      from a(5) xy have "concat (map esc_char k) @ CHR 0x22 # ('':'' @ print_value v @ r')
          = concat (map esc_char l) @ CHR 0x22 # ('':'' @ print_value u @ s')"
        by (simp add: f)
      then have k: "k = l" and "'':'' @ print_value v @ r' = '':'' @ print_value u @ s'"
        by (blast dest: quote_json_inj)+
      then have eq: "print_value v @ r' = print_value u @ s'" by simp
      have "value_ok v" using value_ok_mem[OF JObj.prems(1)] a(1) xy by auto
      moreover have "value_ok u" using a(2) xy by simp
      ultimately have "v = u \<and> r' = s'"
        using JObj.IH[of "(k, v)" v] a(1,3,4) xy eq by auto
      with k xy show ?thesis by simp
    qed
    show "\<exists>c cs. f x = c # cs \<and> c \<noteq> CHR ''}''" for x by (cases x) (simp add: f)
    show "set lws \<subseteq> {kv. value_ok (snd kv)}" using value_ok_mem JObj.prems(2) w by blast
    show "join_with '','' (map f kvs) @ CHR ''}'' # r = join_with '','' (map f lws) @ CHR ''}'' # s"
      using JObj.prems(5) w by (simp add: f_def comp_def)
  qed simp
  with w show ?case by simp
next
  case JUndef
  from print_kind[OF JUndef.prems(1,2,5)] have "w = JUndef" by (cases w) (auto split: if_splits)
  with JUndef.prems show ?case by simp
next
  case JNull
  from print_kind[OF JNull.prems(1,2,5)] have "w = JNull" by (cases w) (auto split: if_splits)
  with JNull.prems show ?case by simp
next
  case (JBool b)
  from print_kind[OF JBool.prems(1,2,5)] have "w = JBool b" by (cases w) (auto split: if_splits)
  with JBool.prems show ?case by (simp split: if_splits)
next
  case (JExotic k)
  then show ?case by (simp add: value_ok_def)
qed

lemma map_fst_sort: "map fst (sort_key fst kvs) = sort (map fst kvs)"
  by (simp add: sort_key_map)

lemma stops_nil: "stops []"
  by (simp add: stops_def)

lemma sort_keys_ok: "value_ok v \<Longrightarrow> value_ok (sort_keys v)"
proof (induction v)
  case (JObj kvs)
  have "distinct (map fst (sort_key fst (map (map_prod id sort_keys) kvs)))"
    using JObj.prems by (simp add: map_fst_sort value_ok_def del: map_map) (simp add: comp_def)
  with JObj show ?case by (fastforce simp: value_ok_def list_all_iff)
qed (auto simp: value_ok_def list_all_iff)

subsection \<open>Digests of records\<close>

text \<open>
  The digest of a value that is known to be serialisable, as the record builders of the runtime
  use it; \<open>canonical_hash_digest\<close> is the link to the function that may throw.
\<close>

definition canonical_text :: "jv \<Rightarrow> string" where
  "canonical_text v = (case canonical_json v of Inr t \<Rightarrow> t | Inl e \<Rightarrow> [])"

definition digest :: "jv \<Rightarrow> string" where
  "digest v = sha256_hex (canonical_text v)"

lemma canonical_json_print: "serializable v \<Longrightarrow> canonical_json v = Inr (print_value (sort_keys v))"
  by (simp add: canonical_json_def serialize_serializable)

lemma canonical_hash_digest: "serializable v \<Longrightarrow> canonical_hash v = Inr (digest v)"
  by (simp add: canonical_hash_def canonical_json_print digest_def canonical_text_def)

lemma digest_hash_re [simp]: "hash_re (digest v)"
  by (simp add: digest_def)

lemma canonical_text_inj:
  assumes "value_ok v" "value_ok w"
  shows "canonical_text v = canonical_text w \<longleftrightarrow> sort_keys v = sort_keys w"
proof
  assume "canonical_text v = canonical_text w"
  with assms have "print_value (sort_keys v) @ [] = print_value (sort_keys w) @ []"
    by (simp add: canonical_text_def canonical_json_print value_ok_def)
  from print_value_inj[OF sort_keys_ok[OF assms(1)] sort_keys_ok[OF assms(2)] stops_nil stops_nil this]
  show "sort_keys v = sort_keys w" by simp
next
  assume "sort_keys v = sort_keys w"
  with assms show "canonical_text v = canonical_text w"
    by (simp add: canonical_text_def canonical_json_print value_ok_def)
qed

text \<open>C1: The canonical JSON text determines the value: two well-formed values have the same
  canonical text exactly when they differ only in the order of object keys.\<close>

theorem canonical_json_injective:
  assumes "wf_value v" "wf_value w" "canonical_json v = Inr s" "canonical_json w = Inr t"
  shows "s = t \<longleftrightarrow> sort_keys v = sort_keys w"
proof -
  have "serializable v" "serializable w"
    using assms serialize_Inr_serializable by (auto simp: canonical_json_def)
  with assms have "value_ok v" "value_ok w" "s = canonical_text v" "t = canonical_text w"
    by (simp_all add: value_ok_def canonical_text_def)
  then show ?thesis using canonical_text_inj by simp
qed

theorem canonical_json_injective_witness:
  "canonical_json (JObj [(''b'', JNull), (''a'', JBool True)])
     = canonical_json (JObj [(''a'', JBool True), (''b'', JNull)])"
proof -
  let ?v = "JObj [(''b'', JNull), (''a'', JBool True)]"
  let ?w = "JObj [(''a'', JBool True), (''b'', JNull)]"
  have wf: "wf_value ?v" "wf_value ?w" by simp_all
  obtain s where s: "canonical_json ?v = Inr s" by (simp add: canonical_json_print)
  obtain t where t: "canonical_json ?w = Inr t" by (simp add: canonical_json_print)
  have "sort_keys ?v = sort_keys ?w" by simp
  with canonical_json_injective[OF wf s t] s t show ?thesis by simp
qed

text \<open>Serialisation fails exactly on values that hold a non-finite number or a non-JSON value
  somewhere, and otherwise returns a text; the digest is then 64 lower-case hex digits.\<close>

theorem canonical_hash_total:
  "(case canonical_hash v of Inr h \<Rightarrow> serializable v \<and> hash_re h | Inl e \<Rightarrow> \<not> serializable v)"
proof (cases "serialize v")
  case (Inl e)
  then have "\<not> serializable v" using serialize_serializable[of v] by auto
  with Inl show ?thesis by (simp add: canonical_hash_def canonical_json_def)
next
  case (Inr t)
  with serialize_Inr_serializable show ?thesis by (simp add: canonical_hash_def canonical_json_def)
qed

subsection \<open>Objects with the same fields\<close>

lemma get_prop_mem: "distinct (map fst kvs) \<Longrightarrow> (k, v) \<in> set kvs \<Longrightarrow> get_prop kvs k = v"
  by (simp add: get_prop_def)

lemma sort_key_props:
  assumes "distinct (map fst kvs)"
  shows "sort_key fst kvs = map (\<lambda>k. (k, get_prop kvs k)) (sort (map fst kvs))"
proof -
  have "map (\<lambda>k. (k, get_prop kvs k)) (sort (map fst kvs)) = map (\<lambda>kv. (fst kv, get_prop kvs (fst kv))) (sort_key fst kvs)"
    by (simp add: map_fst_sort[symmetric] comp_def)
  also have "\<dots> = map id (sort_key fst kvs)"
    using assms by (intro map_cong) (auto simp: get_prop_mem)
  finally show ?thesis by simp
qed

lemma sort_keys_object:
  assumes "distinct (map fst kvs)"
  shows "sort_keys (JObj kvs) = JObj (map (\<lambda>k. (k, sort_keys (get_prop kvs k))) (sort (own_keys kvs)))"
  using assms by (simp add: sort_key_map_prod sort_key_props own_keys_def)

text \<open>Two records with the same exact fields and, field by field, the same contents.\<close>

lemma sort_keys_same_fields:
  assumes "distinct (map fst f)" "distinct (map fst g)"
    and "exact_fields f ks" "exact_fields g ks"
    and "\<And>k. k \<in> set ks \<Longrightarrow> sort_keys (get_prop f k) = sort_keys (get_prop g k)"
  shows "sort_keys (JObj f) = sort_keys (JObj g)"
  using assms by (auto simp: sort_keys_object exact_fields_def own_keys_def simp del: sort_keys.simps)

lemma sort_keys_strings [simp]: "map (sort_keys \<circ> JStr) ss = map JStr ss"
  by simp

text \<open>Two different texts with the same hash.\<close>

definition collides :: "string \<Rightarrow> string \<Rightarrow> bool" where
  "collides x y = (x \<noteq> y \<and> sha256_hex x = sha256_hex y)"

subsection \<open>Self-hashed records\<close>

text \<open>
  Checkpoints, lifecycle snapshots, resolutions and receipts share one construction: a payload is
  sealed by storing its digest beside it, and a reader accepts a record only if the stored digest
  is the digest of the rest. The contract is stated once here and interpreted by every component
  that seals records.
\<close>

locale sealed_record =
  fixes payload :: "'r \<Rightarrow> jv"
    and stored_hash :: "'r \<Rightarrow> string"
    and seal :: "'r \<Rightarrow> 'r"
  assumes seal_hash: "stored_hash (seal r) = digest (payload r)"
    and seal_payload: "payload (seal r) = payload r"
begin

definition intact :: "'r \<Rightarrow> bool" where
  "intact r = (stored_hash r = digest (payload r))"

lemma seal_intact: "intact (seal r)"
  by (simp add: intact_def seal_hash seal_payload)

lemma seal_hash_re: "hash_re (stored_hash (seal r))"
  by (simp add: seal_hash)

lemma intact_same_hash:
  assumes "intact r" "intact q" "stored_hash r = stored_hash q"
    and "value_ok (payload r)" "value_ok (payload q)"
    and "sha256_hex (canonical_text (payload r)) = sha256_hex (canonical_text (payload q)) \<Longrightarrow>
           canonical_text (payload r) = canonical_text (payload q)"
  shows "sort_keys (payload r) = sort_keys (payload q)"
  using assms by (simp add: intact_def digest_def canonical_text_inj)

end

end
