(* ===== verification/Lifecycle_Types.thy ===== *)
theory Lifecycle_Types
  imports Canonical_Hash
begin

section \<open>Lifecycle vocabulary (core/delegation-lifecycle-resolver.ts)\<close>

text \<open>
  The closed unions of the canonical lifecycle resolver, each with the texts the records carry on
  the wire, and the records of the resolver: the snapshot it reads, the event, the flags of an
  action, the one primary action it selects and the hashed resolution it returns.
\<close>

datatype lc_state =
    St_ACTIVE
  | St_AWAITING_REVIEW
  | St_REPAIRABLE
  | St_SATISFIED_NO_DELTA
  | St_ACCEPTED
  | St_SUPERSEDED
  | St_TERMINAL_NON_BLOCKING
  | St_INVALID_DERIVED_EVIDENCE
  | St_CORRUPT_AUTHORITY
  | St_BINDING_CONFLICT
  | St_PROMOTION_READY
  | St_PROMOTION_BLOCKED

primrec lc_state_text :: "lc_state \<Rightarrow> string" where
  "lc_state_text St_ACTIVE = ''ACTIVE''"
| "lc_state_text St_AWAITING_REVIEW = ''AWAITING_REVIEW''"
| "lc_state_text St_REPAIRABLE = ''REPAIRABLE''"
| "lc_state_text St_SATISFIED_NO_DELTA = ''SATISFIED_NO_DELTA''"
| "lc_state_text St_ACCEPTED = ''ACCEPTED''"
| "lc_state_text St_SUPERSEDED = ''SUPERSEDED''"
| "lc_state_text St_TERMINAL_NON_BLOCKING = ''TERMINAL_NON_BLOCKING''"
| "lc_state_text St_INVALID_DERIVED_EVIDENCE = ''INVALID_DERIVED_EVIDENCE''"
| "lc_state_text St_CORRUPT_AUTHORITY = ''CORRUPT_AUTHORITY''"
| "lc_state_text St_BINDING_CONFLICT = ''BINDING_CONFLICT''"
| "lc_state_text St_PROMOTION_READY = ''PROMOTION_READY''"
| "lc_state_text St_PROMOTION_BLOCKED = ''PROMOTION_BLOCKED''"

definition lc_state_all :: "lc_state list" where
  "lc_state_all = [St_ACTIVE, St_AWAITING_REVIEW, St_REPAIRABLE, St_SATISFIED_NO_DELTA, St_ACCEPTED, St_SUPERSEDED, St_TERMINAL_NON_BLOCKING, St_INVALID_DERIVED_EVIDENCE, St_CORRUPT_AUTHORITY, St_BINDING_CONFLICT, St_PROMOTION_READY, St_PROMOTION_BLOCKED]"

interpretation lc_state_wire: wire_enum lc_state_all lc_state_text
proof
  show "e \<in> set lc_state_all" for e by (cases e) (simp_all add: lc_state_all_def)
  show "distinct (map lc_state_text lc_state_all)" by (simp add: lc_state_all_def)
qed

datatype lc_action =
    Do_CONTINUE_DEVELOPMENT
  | Do_WAIT_FOR_ACTIVE_WRITER
  | Do_REVIEW_CANDIDATE
  | Do_EXECUTE_EXACT_REPAIR
  | Do_CLOSE_SATISFIED_NO_DELTA
  | Do_SUPERSEDE_EMPTY_ATTEMPT
  | Do_CLOSE_ACCEPTED_OBLIGATION
  | Do_REGENERATE_DERIVED_REVIEW
  | Do_QUARANTINE_CORRUPT_AUTHORITY
  | Do_REBASE_CURRENT_BINDING
  | Do_BLOCK_OVERLAPPING_PATHS
  | Do_RECLAIM_STALE_LOCK
  | Do_PROMOTE_CANDIDATE
  | Do_BLOCK_PROMOTION
  | Do_REPORT_STORAGE_FAILURE

primrec lc_action_text :: "lc_action \<Rightarrow> string" where
  "lc_action_text Do_CONTINUE_DEVELOPMENT = ''CONTINUE_DEVELOPMENT''"
| "lc_action_text Do_WAIT_FOR_ACTIVE_WRITER = ''WAIT_FOR_ACTIVE_WRITER''"
| "lc_action_text Do_REVIEW_CANDIDATE = ''REVIEW_CANDIDATE''"
| "lc_action_text Do_EXECUTE_EXACT_REPAIR = ''EXECUTE_EXACT_REPAIR''"
| "lc_action_text Do_CLOSE_SATISFIED_NO_DELTA = ''CLOSE_SATISFIED_NO_DELTA''"
| "lc_action_text Do_SUPERSEDE_EMPTY_ATTEMPT = ''SUPERSEDE_EMPTY_ATTEMPT''"
| "lc_action_text Do_CLOSE_ACCEPTED_OBLIGATION = ''CLOSE_ACCEPTED_OBLIGATION''"
| "lc_action_text Do_REGENERATE_DERIVED_REVIEW = ''REGENERATE_DERIVED_REVIEW''"
| "lc_action_text Do_QUARANTINE_CORRUPT_AUTHORITY = ''QUARANTINE_CORRUPT_AUTHORITY''"
| "lc_action_text Do_REBASE_CURRENT_BINDING = ''REBASE_CURRENT_BINDING''"
| "lc_action_text Do_BLOCK_OVERLAPPING_PATHS = ''BLOCK_OVERLAPPING_PATHS''"
| "lc_action_text Do_RECLAIM_STALE_LOCK = ''RECLAIM_STALE_LOCK''"
| "lc_action_text Do_PROMOTE_CANDIDATE = ''PROMOTE_CANDIDATE''"
| "lc_action_text Do_BLOCK_PROMOTION = ''BLOCK_PROMOTION''"
| "lc_action_text Do_REPORT_STORAGE_FAILURE = ''REPORT_STORAGE_FAILURE''"

definition lc_action_all :: "lc_action list" where
  "lc_action_all = [Do_CONTINUE_DEVELOPMENT, Do_WAIT_FOR_ACTIVE_WRITER, Do_REVIEW_CANDIDATE, Do_EXECUTE_EXACT_REPAIR, Do_CLOSE_SATISFIED_NO_DELTA, Do_SUPERSEDE_EMPTY_ATTEMPT, Do_CLOSE_ACCEPTED_OBLIGATION, Do_REGENERATE_DERIVED_REVIEW, Do_QUARANTINE_CORRUPT_AUTHORITY, Do_REBASE_CURRENT_BINDING, Do_BLOCK_OVERLAPPING_PATHS, Do_RECLAIM_STALE_LOCK, Do_PROMOTE_CANDIDATE, Do_BLOCK_PROMOTION, Do_REPORT_STORAGE_FAILURE]"

interpretation lc_action_wire: wire_enum lc_action_all lc_action_text
proof
  show "e \<in> set lc_action_all" for e by (cases e) (simp_all add: lc_action_all_def)
  show "distinct (map lc_action_text lc_action_all)" by (simp add: lc_action_all_def)
qed

datatype lc_reason =
    Why_ACCEPTED_SUCCESSOR_PRESENT
  | Why_ACTIVE_WRITER_PRESENT
  | Why_CANDIDATE_PROMOTION_READY
  | Why_CANDIDATE_PROMOTION_REQUIREMENTS_MISSING
  | Why_CURRENT_DELTA_REVIEW_REQUIRED
  | Why_DERIVED_REVIEW_INVALID
  | Why_EMPTY_ATTEMPT_SUPERSEDED
  | Why_EXACT_REPAIR_DECISION_CURRENT
  | Why_INVALID_EVENT
  | Why_INVALID_PATH_REQUEST
  | Why_INVALID_SNAPSHOT
  | Why_NO_CURRENT_BLOCKER
  | Why_OVERLAPPING_PATHS
  | Why_REBASEABLE_BINDING_CHANGED
  | Why_RUNTIME_IDENTITY_STALE
  | Why_SATISFIED_WITHOUT_NEW_DELTA
  | Why_SNAPSHOT_CHANGED
  | Why_STALE_WRITER_LOCK
  | Why_STORAGE_READ_FAILED
  | Why_UNDERLYING_AUTHORITY_CORRUPT

primrec lc_reason_text :: "lc_reason \<Rightarrow> string" where
  "lc_reason_text Why_ACCEPTED_SUCCESSOR_PRESENT = ''ACCEPTED_SUCCESSOR_PRESENT''"
| "lc_reason_text Why_ACTIVE_WRITER_PRESENT = ''ACTIVE_WRITER_PRESENT''"
| "lc_reason_text Why_CANDIDATE_PROMOTION_READY = ''CANDIDATE_PROMOTION_READY''"
| "lc_reason_text Why_CANDIDATE_PROMOTION_REQUIREMENTS_MISSING = ''CANDIDATE_PROMOTION_REQUIREMENTS_MISSING''"
| "lc_reason_text Why_CURRENT_DELTA_REVIEW_REQUIRED = ''CURRENT_DELTA_REVIEW_REQUIRED''"
| "lc_reason_text Why_DERIVED_REVIEW_INVALID = ''DERIVED_REVIEW_INVALID''"
| "lc_reason_text Why_EMPTY_ATTEMPT_SUPERSEDED = ''EMPTY_ATTEMPT_SUPERSEDED''"
| "lc_reason_text Why_EXACT_REPAIR_DECISION_CURRENT = ''EXACT_REPAIR_DECISION_CURRENT''"
| "lc_reason_text Why_INVALID_EVENT = ''INVALID_EVENT''"
| "lc_reason_text Why_INVALID_PATH_REQUEST = ''INVALID_PATH_REQUEST''"
| "lc_reason_text Why_INVALID_SNAPSHOT = ''INVALID_SNAPSHOT''"
| "lc_reason_text Why_NO_CURRENT_BLOCKER = ''NO_CURRENT_BLOCKER''"
| "lc_reason_text Why_OVERLAPPING_PATHS = ''OVERLAPPING_PATHS''"
| "lc_reason_text Why_REBASEABLE_BINDING_CHANGED = ''REBASEABLE_BINDING_CHANGED''"
| "lc_reason_text Why_RUNTIME_IDENTITY_STALE = ''RUNTIME_IDENTITY_STALE''"
| "lc_reason_text Why_SATISFIED_WITHOUT_NEW_DELTA = ''SATISFIED_WITHOUT_NEW_DELTA''"
| "lc_reason_text Why_SNAPSHOT_CHANGED = ''SNAPSHOT_CHANGED''"
| "lc_reason_text Why_STALE_WRITER_LOCK = ''STALE_WRITER_LOCK''"
| "lc_reason_text Why_STORAGE_READ_FAILED = ''STORAGE_READ_FAILED''"
| "lc_reason_text Why_UNDERLYING_AUTHORITY_CORRUPT = ''UNDERLYING_AUTHORITY_CORRUPT''"

definition lc_reason_all :: "lc_reason list" where
  "lc_reason_all = [Why_ACCEPTED_SUCCESSOR_PRESENT, Why_ACTIVE_WRITER_PRESENT, Why_CANDIDATE_PROMOTION_READY, Why_CANDIDATE_PROMOTION_REQUIREMENTS_MISSING, Why_CURRENT_DELTA_REVIEW_REQUIRED, Why_DERIVED_REVIEW_INVALID, Why_EMPTY_ATTEMPT_SUPERSEDED, Why_EXACT_REPAIR_DECISION_CURRENT, Why_INVALID_EVENT, Why_INVALID_PATH_REQUEST, Why_INVALID_SNAPSHOT, Why_NO_CURRENT_BLOCKER, Why_OVERLAPPING_PATHS, Why_REBASEABLE_BINDING_CHANGED, Why_RUNTIME_IDENTITY_STALE, Why_SATISFIED_WITHOUT_NEW_DELTA, Why_SNAPSHOT_CHANGED, Why_STALE_WRITER_LOCK, Why_STORAGE_READ_FAILED, Why_UNDERLYING_AUTHORITY_CORRUPT]"

interpretation lc_reason_wire: wire_enum lc_reason_all lc_reason_text
proof
  show "e \<in> set lc_reason_all" for e by (cases e) (simp_all add: lc_reason_all_def)
  show "distinct (map lc_reason_text lc_reason_all)" by (simp add: lc_reason_all_def)
qed

datatype lc_intent =
    Intent_DEV
  | Intent_RELEASE
  | Intent_VERIFY

primrec lc_intent_text :: "lc_intent \<Rightarrow> string" where
  "lc_intent_text Intent_DEV = ''DEV''"
| "lc_intent_text Intent_RELEASE = ''RELEASE''"
| "lc_intent_text Intent_VERIFY = ''VERIFY''"

definition lc_intent_all :: "lc_intent list" where
  "lc_intent_all = [Intent_DEV, Intent_RELEASE, Intent_VERIFY]"

interpretation lc_intent_wire: wire_enum lc_intent_all lc_intent_text
proof
  show "e \<in> set lc_intent_all" for e by (cases e) (simp_all add: lc_intent_all_def)
  show "distinct (map lc_intent_text lc_intent_all)" by (simp add: lc_intent_all_def)
qed

datatype lc_health =
    Health_CORRUPT
  | Health_DERIVED_INVALID
  | Health_STORAGE_FAILURE
  | Health_VALID

primrec lc_health_text :: "lc_health \<Rightarrow> string" where
  "lc_health_text Health_CORRUPT = ''CORRUPT''"
| "lc_health_text Health_DERIVED_INVALID = ''DERIVED_INVALID''"
| "lc_health_text Health_STORAGE_FAILURE = ''STORAGE_FAILURE''"
| "lc_health_text Health_VALID = ''VALID''"

definition lc_health_all :: "lc_health list" where
  "lc_health_all = [Health_CORRUPT, Health_DERIVED_INVALID, Health_STORAGE_FAILURE, Health_VALID]"

interpretation lc_health_wire: wire_enum lc_health_all lc_health_text
proof
  show "e \<in> set lc_health_all" for e by (cases e) (simp_all add: lc_health_all_def)
  show "distinct (map lc_health_text lc_health_all)" by (simp add: lc_health_all_def)
qed

datatype lc_disposition =
    Disp_ACTIVE
  | Disp_INACTIVE
  | Disp_UNKNOWN

primrec lc_disposition_text :: "lc_disposition \<Rightarrow> string" where
  "lc_disposition_text Disp_ACTIVE = ''ACTIVE''"
| "lc_disposition_text Disp_INACTIVE = ''INACTIVE''"
| "lc_disposition_text Disp_UNKNOWN = ''UNKNOWN''"

definition lc_disposition_all :: "lc_disposition list" where
  "lc_disposition_all = [Disp_ACTIVE, Disp_INACTIVE, Disp_UNKNOWN]"

interpretation lc_disposition_wire: wire_enum lc_disposition_all lc_disposition_text
proof
  show "e \<in> set lc_disposition_all" for e by (cases e) (simp_all add: lc_disposition_all_def)
  show "distinct (map lc_disposition_text lc_disposition_all)" by (simp add: lc_disposition_all_def)
qed

datatype lc_lock =
    Lock_ABSENT
  | Lock_LIVE
  | Lock_STALE

primrec lc_lock_text :: "lc_lock \<Rightarrow> string" where
  "lc_lock_text Lock_ABSENT = ''ABSENT''"
| "lc_lock_text Lock_LIVE = ''LIVE''"
| "lc_lock_text Lock_STALE = ''STALE''"

definition lc_lock_all :: "lc_lock list" where
  "lc_lock_all = [Lock_ABSENT, Lock_LIVE, Lock_STALE]"

interpretation lc_lock_wire: wire_enum lc_lock_all lc_lock_text
proof
  show "e \<in> set lc_lock_all" for e by (cases e) (simp_all add: lc_lock_all_def)
  show "distinct (map lc_lock_text lc_lock_all)" by (simp add: lc_lock_all_def)
qed

datatype lc_binding =
    Binding_CURRENT
  | Binding_OVERLAPPING
  | Binding_REBASEABLE

primrec lc_binding_text :: "lc_binding \<Rightarrow> string" where
  "lc_binding_text Binding_CURRENT = ''CURRENT''"
| "lc_binding_text Binding_OVERLAPPING = ''OVERLAPPING''"
| "lc_binding_text Binding_REBASEABLE = ''REBASEABLE''"

definition lc_binding_all :: "lc_binding list" where
  "lc_binding_all = [Binding_CURRENT, Binding_OVERLAPPING, Binding_REBASEABLE]"

interpretation lc_binding_wire: wire_enum lc_binding_all lc_binding_text
proof
  show "e \<in> set lc_binding_all" for e by (cases e) (simp_all add: lc_binding_all_def)
  show "distinct (map lc_binding_text lc_binding_all)" by (simp add: lc_binding_all_def)
qed

datatype lc_attempt =
    At_ACCEPTED
  | At_ACTIVE
  | At_AWAITING_REVIEW
  | At_NONE
  | At_REPAIRABLE
  | At_SATISFIED_NO_DELTA
  | At_SUPERSEDED
  | At_TERMINAL

primrec lc_attempt_text :: "lc_attempt \<Rightarrow> string" where
  "lc_attempt_text At_ACCEPTED = ''ACCEPTED''"
| "lc_attempt_text At_ACTIVE = ''ACTIVE''"
| "lc_attempt_text At_AWAITING_REVIEW = ''AWAITING_REVIEW''"
| "lc_attempt_text At_NONE = ''NONE''"
| "lc_attempt_text At_REPAIRABLE = ''REPAIRABLE''"
| "lc_attempt_text At_SATISFIED_NO_DELTA = ''SATISFIED_NO_DELTA''"
| "lc_attempt_text At_SUPERSEDED = ''SUPERSEDED''"
| "lc_attempt_text At_TERMINAL = ''TERMINAL''"

definition lc_attempt_all :: "lc_attempt list" where
  "lc_attempt_all = [At_ACCEPTED, At_ACTIVE, At_AWAITING_REVIEW, At_NONE, At_REPAIRABLE, At_SATISFIED_NO_DELTA, At_SUPERSEDED, At_TERMINAL]"

interpretation lc_attempt_wire: wire_enum lc_attempt_all lc_attempt_text
proof
  show "e \<in> set lc_attempt_all" for e by (cases e) (simp_all add: lc_attempt_all_def)
  show "distinct (map lc_attempt_text lc_attempt_all)" by (simp add: lc_attempt_all_def)
qed

datatype lc_candidate =
    Cand_BLOCKED
  | Cand_INCOMPLETE
  | Cand_NONE
  | Cand_READY

primrec lc_candidate_text :: "lc_candidate \<Rightarrow> string" where
  "lc_candidate_text Cand_BLOCKED = ''BLOCKED''"
| "lc_candidate_text Cand_INCOMPLETE = ''INCOMPLETE''"
| "lc_candidate_text Cand_NONE = ''NONE''"
| "lc_candidate_text Cand_READY = ''READY''"

definition lc_candidate_all :: "lc_candidate list" where
  "lc_candidate_all = [Cand_BLOCKED, Cand_INCOMPLETE, Cand_NONE, Cand_READY]"

interpretation lc_candidate_wire: wire_enum lc_candidate_all lc_candidate_text
proof
  show "e \<in> set lc_candidate_all" for e by (cases e) (simp_all add: lc_candidate_all_def)
  show "distinct (map lc_candidate_text lc_candidate_all)" by (simp add: lc_candidate_all_def)
qed

datatype lc_runtime =
    Rt_CURRENT
  | Rt_NOT_REQUIRED
  | Rt_STALE
  | Rt_UNKNOWN

primrec lc_runtime_text :: "lc_runtime \<Rightarrow> string" where
  "lc_runtime_text Rt_CURRENT = ''CURRENT''"
| "lc_runtime_text Rt_NOT_REQUIRED = ''NOT_REQUIRED''"
| "lc_runtime_text Rt_STALE = ''STALE''"
| "lc_runtime_text Rt_UNKNOWN = ''UNKNOWN''"

definition lc_runtime_all :: "lc_runtime list" where
  "lc_runtime_all = [Rt_CURRENT, Rt_NOT_REQUIRED, Rt_STALE, Rt_UNKNOWN]"

interpretation lc_runtime_wire: wire_enum lc_runtime_all lc_runtime_text
proof
  show "e \<in> set lc_runtime_all" for e by (cases e) (simp_all add: lc_runtime_all_def)
  show "distinct (map lc_runtime_text lc_runtime_all)" by (simp add: lc_runtime_all_def)
qed

datatype lc_recovery =
    Rec_MAY_CREATE_DELTA
  | Rec_MUST_DECREASE_RANK
  | Rec_NONE

primrec lc_recovery_text :: "lc_recovery \<Rightarrow> string" where
  "lc_recovery_text Rec_MAY_CREATE_DELTA = ''MAY_CREATE_DELTA''"
| "lc_recovery_text Rec_MUST_DECREASE_RANK = ''MUST_DECREASE_RANK''"
| "lc_recovery_text Rec_NONE = ''NONE''"

definition lc_recovery_all :: "lc_recovery list" where
  "lc_recovery_all = [Rec_MAY_CREATE_DELTA, Rec_MUST_DECREASE_RANK, Rec_NONE]"

interpretation lc_recovery_wire: wire_enum lc_recovery_all lc_recovery_text
proof
  show "e \<in> set lc_recovery_all" for e by (cases e) (simp_all add: lc_recovery_all_def)
  show "distinct (map lc_recovery_text lc_recovery_all)" by (simp add: lc_recovery_all_def)
qed

datatype lc_target_kind =
    Tgt_CANDIDATE
  | Tgt_DELEGATION
  | Tgt_PROJECT_AUTHORITY

primrec lc_target_kind_text :: "lc_target_kind \<Rightarrow> string" where
  "lc_target_kind_text Tgt_CANDIDATE = ''CANDIDATE''"
| "lc_target_kind_text Tgt_DELEGATION = ''DELEGATION''"
| "lc_target_kind_text Tgt_PROJECT_AUTHORITY = ''PROJECT_AUTHORITY''"

definition lc_target_kind_all :: "lc_target_kind list" where
  "lc_target_kind_all = [Tgt_CANDIDATE, Tgt_DELEGATION, Tgt_PROJECT_AUTHORITY]"

interpretation lc_target_kind_wire: wire_enum lc_target_kind_all lc_target_kind_text
proof
  show "e \<in> set lc_target_kind_all" for e by (cases e) (simp_all add: lc_target_kind_all_def)
  show "distinct (map lc_target_kind_text lc_target_kind_all)" by (simp add: lc_target_kind_all_def)
qed

datatype lc_event_kind =
    Ev_EXECUTE
  | Ev_OBSERVE

primrec lc_event_kind_text :: "lc_event_kind \<Rightarrow> string" where
  "lc_event_kind_text Ev_EXECUTE = ''EXECUTE''"
| "lc_event_kind_text Ev_OBSERVE = ''OBSERVE''"

definition lc_event_kind_all :: "lc_event_kind list" where
  "lc_event_kind_all = [Ev_EXECUTE, Ev_OBSERVE]"

interpretation lc_event_kind_wire: wire_enum lc_event_kind_all lc_event_kind_text
proof
  show "e \<in> set lc_event_kind_all" for e by (cases e) (simp_all add: lc_event_kind_all_def)
  show "distinct (map lc_event_kind_text lc_event_kind_all)" by (simp add: lc_event_kind_all_def)
qed

record lc_rank =
  unresolved_obligations :: int
  unresolved_attempts :: int

record lc_target =
  t_kind :: lc_target_kind
  t_id :: string

record lc_snapshot =
  source_authority_hash :: string
  operation_intent :: lc_intent
  health :: lc_health
  disposition :: lc_disposition
  writer_lock :: lc_lock
  binding :: lc_binding
  attempt :: lc_attempt
  candidate :: lc_candidate
  runtime_identity :: lc_runtime
  request_valid :: bool
  target :: lc_target
  affected_paths :: "string list"
  scope_unknown :: bool
  recovery_rank :: "lc_rank option"

record lc_event =
  event_kind :: lc_event_kind
  expected_snapshot_hash :: "string option"

record lc_flags =
  fl_safe :: bool
  fl_user :: bool
  fl_expected :: lc_state
  fl_recovery :: lc_recovery

record lc_primary =
  action :: lc_action
  reason :: lc_reason
  snapshot_hash :: string
  exact_target :: lc_target
  pa_paths :: "string list"
  pa_scope_unknown :: bool
  safe_automatic :: bool
  requires_user :: bool
  expected_state :: lc_state
  recovery_effect :: lc_recovery
  expected_rank :: "lc_rank option"

record lc_resolution =
  res_state :: lc_state
  primary_action :: lc_primary
  resolution_hash :: string

end
