(* ===== verification/Lifecycle_Resolver.thy ===== *)
theory Lifecycle_Resolver
  imports Lifecycle_Types
begin

section \<open>The lifecycle resolver, version 1 (core/delegation-lifecycle-resolver.ts)\<close>

text \<open>
  \<open>resolve_lifecycle\<close> reads two \<open>unknown\<close> values, a snapshot and an event, and returns exactly
  one primary action. It is the only owner of action selection in the runtime, so the safety
  properties of the delegation lifecycle are properties of this function: malformed input fails
  closed, an executor with a stale snapshot is only ever sent to rebase, a live writer is never
  displaced, and promotion needs every condition at once.
\<close>

named_theorems lifecycle

subsection \<open>Strict parsing\<close>

definition target_id_re :: "string \<Rightarrow> bool" where
  "target_id_re s =
     (case s of [] \<Rightarrow> False
      | c # cs \<Rightarrow> is_alnum c \<and> length cs \<le> 127
          \<and> list_all (\<lambda>d. is_alnum d \<or> d \<in> {CHR ''.'', CHR ''_'', CHR '':'', CHR ''-''}) cs)"

definition valid_path :: "string \<Rightarrow> bool" where
  "valid_path s =
     (s \<noteq> [] \<and> length s \<le> 400 \<and> s = js_trim s \<and> \<not> posix_is_absolute s
      \<and> CHR 0x5C \<notin> set s \<and> CHR 0x00 \<notin> set s
      \<and> (let base = (if ends_with ''/**'' s then drop_last 3 s else s)
         in base \<noteq> [] \<and> posix_normalize base = base \<and> base \<noteq> ''.'' \<and> base \<noteq> ''..''
            \<and> \<not> starts_with ''../'' base))"

fun strictly_sorted :: "string list \<Rightarrow> bool" where
  "strictly_sorted (a # b # xs) = (byte_compare a b < 0 \<and> strictly_sorted (b # xs))"
| "strictly_sorted _ = True"

definition parse_paths :: "jv \<Rightarrow> string list option" where
  "parse_paths v =
     (case as_array v of None \<Rightarrow> None
      | Some vs \<Rightarrow>
          (case as_strings vs of None \<Rightarrow> None
           | Some ps \<Rightarrow>
               (if length ps \<le> 500 \<and> list_all valid_path ps \<and> strictly_sorted ps
                then Some ps else None)))"

definition parse_target :: "jv \<Rightarrow> lc_target option" where
  "parse_target v =
     (case as_record v of None \<Rightarrow> None
      | Some f \<Rightarrow>
          (if \<not> exact_fields f [''kind'', ''id''] then None
           else (case (parse_enum lc_target_kind_all lc_target_kind_text (get_prop f ''kind''),
                       as_string (get_prop f ''id'')) of
                   (Some k, Some i) \<Rightarrow> (if target_id_re i then Some \<lparr>t_kind = k, t_id = i\<rparr> else None)
                 | _ \<Rightarrow> None)))"

text \<open>The outer option is the parser's failure, the inner one the record's \<open>null\<close>.\<close>

definition parse_rank :: "jv \<Rightarrow> lc_rank option option" where
  "parse_rank v =
     (if v = JNull then Some None
      else (case as_record v of None \<Rightarrow> None
        | Some f \<Rightarrow>
            (if \<not> exact_fields f [''unresolved_obligations'', ''unresolved_attempts''] then None
             else (case (as_safe_int (get_prop f ''unresolved_obligations''),
                         as_safe_int (get_prop f ''unresolved_attempts'')) of
                     (Some ob, Some at) \<Rightarrow>
                       (if 0 \<le> ob \<and> ob \<le> 10000 \<and> 0 \<le> at \<and> at \<le> 10000 \<and> ob \<le> at
                        then Some (Some \<lparr>unresolved_obligations = ob, unresolved_attempts = at\<rparr>)
                        else None)
                   | _ \<Rightarrow> None))))"

definition snapshot_fields :: "string list" where
  "snapshot_fields =
     [''schema_version'', ''kind'', ''source_authority_hash'', ''operation_intent'', ''authority'',
      ''writer_lock'', ''binding'', ''attempt'', ''candidate'', ''runtime_identity'', ''target'',
      ''affected_paths'', ''scope_unknown'', ''request_valid'', ''recovery_rank'']"

definition parse_authority :: "jv \<Rightarrow> (lc_health \<times> lc_disposition) option" where
  "parse_authority v =
     (case as_record v of None \<Rightarrow> None
      | Some f \<Rightarrow>
          (if \<not> exact_fields f [''health'', ''disposition''] then None
           else (case (parse_enum lc_health_all lc_health_text (get_prop f ''health''),
                       parse_enum lc_disposition_all lc_disposition_text (get_prop f ''disposition'')) of
                   (Some h, Some d) \<Rightarrow> Some (h, d)
                 | _ \<Rightarrow> None)))"

definition parse_hash :: "jv \<Rightarrow> string option" where
  "parse_hash v = (case as_string v of None \<Rightarrow> None | Some s \<Rightarrow> (if hash_re s then Some s else None))"

definition snapshot_kind :: string where
  "snapshot_kind = ''delegation-lifecycle-snapshot-v1''"

definition parse_snapshot :: "jv \<Rightarrow> lc_snapshot option" where
  "parse_snapshot v =
     Option.bind (as_record v) (\<lambda>f.
     if \<not> exact_fields f snapshot_fields \<or> get_prop f ''schema_version'' \<noteq> JNum (JInt 1)
        \<or> get_prop f ''kind'' \<noteq> JStr snapshot_kind then None
     else
       Option.bind (parse_hash (get_prop f ''source_authority_hash'')) (\<lambda>src.
       Option.bind (parse_enum lc_intent_all lc_intent_text (get_prop f ''operation_intent'')) (\<lambda>int.
       Option.bind (parse_authority (get_prop f ''authority'')) (\<lambda>auth.
       Option.bind (parse_enum lc_lock_all lc_lock_text (get_prop f ''writer_lock'')) (\<lambda>lock.
       Option.bind (parse_enum lc_binding_all lc_binding_text (get_prop f ''binding'')) (\<lambda>bnd.
       Option.bind (parse_enum lc_attempt_all lc_attempt_text (get_prop f ''attempt'')) (\<lambda>att.
       Option.bind (parse_enum lc_candidate_all lc_candidate_text (get_prop f ''candidate'')) (\<lambda>cand.
       Option.bind (parse_enum lc_runtime_all lc_runtime_text (get_prop f ''runtime_identity'')) (\<lambda>rt.
       Option.bind (as_bool (get_prop f ''request_valid'')) (\<lambda>rv.
       Option.bind (as_bool (get_prop f ''scope_unknown'')) (\<lambda>su.
       Option.bind (parse_target (get_prop f ''target'')) (\<lambda>tgt.
       Option.bind (parse_paths (get_prop f ''affected_paths'')) (\<lambda>ps.
       Option.bind (parse_rank (get_prop f ''recovery_rank'')) (\<lambda>rank.
         Some \<lparr>source_authority_hash = src, operation_intent = int, health = fst auth,
               disposition = snd auth, writer_lock = lock, binding = bnd, attempt = att,
               candidate = cand, runtime_identity = rt, request_valid = rv, target = tgt,
               affected_paths = ps, scope_unknown = su, recovery_rank = rank\<rparr>))))))))))))))"

definition event_kind_text :: string where
  "event_kind_text = ''delegation-lifecycle-event-v1''"

definition parse_event :: "jv \<Rightarrow> lc_event option" where
  "parse_event v =
     Option.bind (as_record v) (\<lambda>f.
     if \<not> exact_fields f [''schema_version'', ''kind'', ''event'', ''expected_snapshot_hash'']
        \<or> get_prop f ''schema_version'' \<noteq> JNum (JInt 1) \<or> get_prop f ''kind'' \<noteq> JStr event_kind_text
     then None
     else Option.bind (parse_enum lc_event_kind_all lc_event_kind_text (get_prop f ''event'')) (\<lambda>e.
       (case e of
          Ev_OBSERVE \<Rightarrow>
            (if get_prop f ''expected_snapshot_hash'' = JNull
             then Some \<lparr>event_kind = Ev_OBSERVE, expected_snapshot_hash = None\<rparr> else None)
        | Ev_EXECUTE \<Rightarrow>
            map_option (\<lambda>h. \<lparr>event_kind = Ev_EXECUTE, expected_snapshot_hash = Some h\<rparr>)
              (parse_hash (get_prop f ''expected_snapshot_hash'')))))"

subsection \<open>Records as the values that are hashed\<close>

definition rank_value :: "lc_rank option \<Rightarrow> jv" where
  "rank_value r =
     (case r of None \<Rightarrow> JNull
      | Some k \<Rightarrow> JObj [(''unresolved_obligations'', JNum (JInt (unresolved_obligations k))),
                     (''unresolved_attempts'', JNum (JInt (unresolved_attempts k)))])"

definition target_value :: "lc_target \<Rightarrow> jv" where
  "target_value t = JObj [(''kind'', JStr (lc_target_kind_text (t_kind t))), (''id'', JStr (t_id t))]"

definition snapshot_value :: "lc_snapshot \<Rightarrow> jv" where
  "snapshot_value s = JObj
     [(''schema_version'', JNum (JInt 1)),
      (''kind'', JStr snapshot_kind),
      (''source_authority_hash'', JStr (source_authority_hash s)),
      (''operation_intent'', JStr (lc_intent_text (operation_intent s))),
      (''authority'', JObj [(''health'', JStr (lc_health_text (health s))),
                          (''disposition'', JStr (lc_disposition_text (disposition s)))]),
      (''writer_lock'', JStr (lc_lock_text (writer_lock s))),
      (''binding'', JStr (lc_binding_text (binding s))),
      (''attempt'', JStr (lc_attempt_text (attempt s))),
      (''candidate'', JStr (lc_candidate_text (candidate s))),
      (''runtime_identity'', JStr (lc_runtime_text (runtime_identity s))),
      (''request_valid'', JBool (request_valid s)),
      (''target'', target_value (target s)),
      (''affected_paths'', JArr (map JStr (affected_paths s))),
      (''scope_unknown'', JBool (scope_unknown s)),
      (''recovery_rank'', rank_value (recovery_rank s))]"

definition invalid_snapshot_hash :: string where
  "invalid_snapshot_hash =
     digest (JObj [(''kind'', JStr ''delegation-lifecycle-invalid-snapshot-v1''),
                   (''schema_version'', JNum (JInt 1))])"

subsection \<open>Actions\<close>

fun action_flags :: "lc_action \<Rightarrow> lc_flags" where
  "action_flags Do_CONTINUE_DEVELOPMENT =
     \<lparr>fl_safe = True, fl_user = False, fl_expected = St_TERMINAL_NON_BLOCKING, fl_recovery = Rec_NONE\<rparr>"
| "action_flags Do_WAIT_FOR_ACTIVE_WRITER =
     \<lparr>fl_safe = True, fl_user = False, fl_expected = St_ACTIVE, fl_recovery = Rec_NONE\<rparr>"
| "action_flags Do_REVIEW_CANDIDATE =
     \<lparr>fl_safe = False, fl_user = False, fl_expected = St_AWAITING_REVIEW, fl_recovery = Rec_NONE\<rparr>"
| "action_flags Do_EXECUTE_EXACT_REPAIR =
     \<lparr>fl_safe = False, fl_user = False, fl_expected = St_REPAIRABLE, fl_recovery = Rec_MAY_CREATE_DELTA\<rparr>"
| "action_flags Do_CLOSE_SATISFIED_NO_DELTA =
     \<lparr>fl_safe = True, fl_user = False, fl_expected = St_TERMINAL_NON_BLOCKING, fl_recovery = Rec_MUST_DECREASE_RANK\<rparr>"
| "action_flags Do_SUPERSEDE_EMPTY_ATTEMPT =
     \<lparr>fl_safe = True, fl_user = False, fl_expected = St_TERMINAL_NON_BLOCKING, fl_recovery = Rec_MUST_DECREASE_RANK\<rparr>"
| "action_flags Do_CLOSE_ACCEPTED_OBLIGATION =
     \<lparr>fl_safe = True, fl_user = False, fl_expected = St_TERMINAL_NON_BLOCKING, fl_recovery = Rec_MUST_DECREASE_RANK\<rparr>"
| "action_flags Do_REGENERATE_DERIVED_REVIEW =
     \<lparr>fl_safe = True, fl_user = False, fl_expected = St_AWAITING_REVIEW, fl_recovery = Rec_NONE\<rparr>"
| "action_flags Do_QUARANTINE_CORRUPT_AUTHORITY =
     \<lparr>fl_safe = False, fl_user = True, fl_expected = St_TERMINAL_NON_BLOCKING, fl_recovery = Rec_MUST_DECREASE_RANK\<rparr>"
| "action_flags Do_REBASE_CURRENT_BINDING =
     \<lparr>fl_safe = True, fl_user = False, fl_expected = St_TERMINAL_NON_BLOCKING, fl_recovery = Rec_NONE\<rparr>"
| "action_flags Do_BLOCK_OVERLAPPING_PATHS =
     \<lparr>fl_safe = True, fl_user = False, fl_expected = St_BINDING_CONFLICT, fl_recovery = Rec_NONE\<rparr>"
| "action_flags Do_RECLAIM_STALE_LOCK =
     \<lparr>fl_safe = True, fl_user = False, fl_expected = St_TERMINAL_NON_BLOCKING, fl_recovery = Rec_NONE\<rparr>"
| "action_flags Do_PROMOTE_CANDIDATE =
     \<lparr>fl_safe = False, fl_user = True, fl_expected = St_PROMOTION_READY, fl_recovery = Rec_NONE\<rparr>"
| "action_flags Do_BLOCK_PROMOTION =
     \<lparr>fl_safe = True, fl_user = False, fl_expected = St_PROMOTION_BLOCKED, fl_recovery = Rec_NONE\<rparr>"
| "action_flags Do_REPORT_STORAGE_FAILURE =
     \<lparr>fl_safe = True, fl_user = False, fl_expected = St_CORRUPT_AUTHORITY, fl_recovery = Rec_NONE\<rparr>"

definition primary_value :: "lc_primary \<Rightarrow> jv" where
  "primary_value a = JObj
     [(''schema_version'', JNum (JInt 1)),
      (''kind'', JStr ''delegation-lifecycle-action-v1''),
      (''action'', JStr (lc_action_text (action a))),
      (''reason'', JStr (lc_reason_text (reason a))),
      (''snapshot_hash'', JStr (snapshot_hash a)),
      (''exact_target'', target_value (exact_target a)),
      (''affected_paths'', JArr (map JStr (pa_paths a))),
      (''scope_unknown'', JBool (pa_scope_unknown a)),
      (''safe_automatic'', JBool (safe_automatic a)),
      (''requires_user_authorization'', JBool (requires_user a)),
      (''expected_state'', JStr (lc_state_text (expected_state a))),
      (''recovery_effect'', JStr (lc_recovery_text (recovery_effect a))),
      (''expected_recovery_rank'', rank_value (expected_rank a))]"

text \<open>The projection a resolution hash covers.\<close>

definition resolution_payload :: "lc_resolution \<Rightarrow> jv" where
  "resolution_payload r = JObj
     [(''schema_version'', JNum (JInt 1)),
      (''kind'', JStr ''delegation-lifecycle-resolution-v1''),
      (''state'', JStr (lc_state_text (res_state r))),
      (''primary_action'', primary_value (primary_action r))]"

definition seal_resolution :: "lc_resolution \<Rightarrow> lc_resolution" where
  "seal_resolution r = r\<lparr>resolution_hash := digest (resolution_payload r)\<rparr>"

interpretation resolution: sealed_record resolution_payload resolution_hash seal_resolution
  by unfold_locales (simp_all add: seal_resolution_def resolution_payload_def)

definition make_resolution ::
  "lc_state \<Rightarrow> lc_action \<Rightarrow> lc_reason \<Rightarrow> string \<Rightarrow> lc_target \<Rightarrow> string list \<Rightarrow> bool \<Rightarrow>
   lc_rank option \<Rightarrow> (lc_flags \<Rightarrow> lc_flags) \<Rightarrow> lc_resolution" where
  "make_resolution st act why h tgt ps su rank override =
     (let flags = override (action_flags act);
          pa = \<lparr>action = act, reason = why, snapshot_hash = h, exact_target = tgt, pa_paths = ps,
                pa_scope_unknown = su, safe_automatic = fl_safe flags, requires_user = fl_user flags,
                expected_state = fl_expected flags, recovery_effect = fl_recovery flags,
                expected_rank = rank\<rparr>
      in seal_resolution \<lparr>res_state = st, primary_action = pa, resolution_hash = []\<rparr>)"

definition invalid_resolution :: "lc_reason \<Rightarrow> lc_resolution" where
  "invalid_resolution why =
     make_resolution St_CORRUPT_AUTHORITY
       (if why = Why_INVALID_EVENT then Do_REPORT_STORAGE_FAILURE else Do_QUARANTINE_CORRUPT_AUTHORITY)
       why invalid_snapshot_hash
       \<lparr>t_kind = Tgt_PROJECT_AUTHORITY, t_id = ''project-authority''\<rparr> [] True None id"

text \<open>The arguments every branch spreads in: the snapshot's hash, target, scope and rank.\<close>

definition resolve_with ::
  "lc_snapshot \<Rightarrow> string \<Rightarrow> lc_state \<Rightarrow> lc_action \<Rightarrow> lc_reason \<Rightarrow> (lc_flags \<Rightarrow> lc_flags) \<Rightarrow> lc_resolution" where
  "resolve_with s h st act why override =
     make_resolution st act why h (target s) (affected_paths s) (scope_unknown s) (recovery_rank s) override"

definition safe_if_current :: "lc_snapshot \<Rightarrow> lc_flags \<Rightarrow> lc_flags" where
  "safe_if_current s f = (if runtime_identity s = Rt_CURRENT then f\<lparr>fl_safe := True\<rparr> else f)"

fun resolve_attempt :: "lc_snapshot \<Rightarrow> string \<Rightarrow> lc_resolution option" where
  "resolve_attempt s h =
     (case attempt s of
        At_ACTIVE \<Rightarrow> Some (resolve_with s h St_ACTIVE Do_WAIT_FOR_ACTIVE_WRITER Why_ACTIVE_WRITER_PRESENT id)
      | At_AWAITING_REVIEW \<Rightarrow>
          Some (resolve_with s h St_AWAITING_REVIEW Do_REVIEW_CANDIDATE Why_CURRENT_DELTA_REVIEW_REQUIRED
                  (safe_if_current s))
      | At_REPAIRABLE \<Rightarrow>
          Some (resolve_with s h St_REPAIRABLE Do_EXECUTE_EXACT_REPAIR Why_EXACT_REPAIR_DECISION_CURRENT
                  (safe_if_current s))
      | At_SATISFIED_NO_DELTA \<Rightarrow>
          Some (resolve_with s h St_SATISFIED_NO_DELTA Do_CLOSE_SATISFIED_NO_DELTA Why_SATISFIED_WITHOUT_NEW_DELTA id)
      | At_SUPERSEDED \<Rightarrow>
          Some (resolve_with s h St_SUPERSEDED Do_SUPERSEDE_EMPTY_ATTEMPT Why_EMPTY_ATTEMPT_SUPERSEDED id)
      | At_ACCEPTED \<Rightarrow>
          Some (resolve_with s h St_ACCEPTED Do_CLOSE_ACCEPTED_OBLIGATION Why_ACCEPTED_SUCCESSOR_PRESENT id)
      | At_NONE \<Rightarrow> None
      | At_TERMINAL \<Rightarrow> None)"

fun resolve_candidate :: "lc_snapshot \<Rightarrow> string \<Rightarrow> lc_resolution" where
  "resolve_candidate s h =
     (if operation_intent s = Intent_DEV
      then resolve_with s h St_TERMINAL_NON_BLOCKING Do_CONTINUE_DEVELOPMENT Why_NO_CURRENT_BLOCKER id
      else if runtime_identity s = Rt_STALE \<or> runtime_identity s = Rt_UNKNOWN
      then resolve_with s h St_PROMOTION_BLOCKED Do_BLOCK_PROMOTION Why_RUNTIME_IDENTITY_STALE id
      else (case candidate s of
              Cand_READY \<Rightarrow>
                resolve_with s h St_PROMOTION_READY Do_PROMOTE_CANDIDATE Why_CANDIDATE_PROMOTION_READY id
            | _ \<Rightarrow>
                resolve_with s h St_PROMOTION_BLOCKED Do_BLOCK_PROMOTION
                  Why_CANDIDATE_PROMOTION_REQUIREMENTS_MISSING id))"

definition corrupt_override :: "lc_snapshot \<Rightarrow> lc_flags \<Rightarrow> lc_flags" where
  "corrupt_override s f =
     (if disposition s = Disp_INACTIVE
      then f\<lparr>fl_safe := True, fl_user := False, fl_expected := St_TERMINAL_NON_BLOCKING\<rparr> else f)"

text \<open>The decision after parsing, in the order of the source.\<close>

definition resolve_snapshot :: "lc_snapshot \<Rightarrow> lc_event \<Rightarrow> lc_resolution" where
  "resolve_snapshot s e =
     (let h = digest (snapshot_value s) in
      if event_kind e = Ev_EXECUTE \<and> expected_snapshot_hash e \<noteq> Some h
      then resolve_with s h St_BINDING_CONFLICT Do_REBASE_CURRENT_BINDING Why_SNAPSHOT_CHANGED id
      else if writer_lock s = Lock_LIVE
      then resolve_with s h St_ACTIVE Do_WAIT_FOR_ACTIVE_WRITER Why_ACTIVE_WRITER_PRESENT id
      else (case health s of
          Health_STORAGE_FAILURE \<Rightarrow>
            resolve_with s h St_CORRUPT_AUTHORITY Do_REPORT_STORAGE_FAILURE Why_STORAGE_READ_FAILED id
        | Health_CORRUPT \<Rightarrow>
            resolve_with s h St_CORRUPT_AUTHORITY Do_QUARANTINE_CORRUPT_AUTHORITY
              Why_UNDERLYING_AUTHORITY_CORRUPT (corrupt_override s)
        | Health_DERIVED_INVALID \<Rightarrow>
            resolve_with s h St_INVALID_DERIVED_EVIDENCE Do_REGENERATE_DERIVED_REVIEW Why_DERIVED_REVIEW_INVALID id
        | Health_VALID \<Rightarrow>
            if writer_lock s = Lock_STALE
            then resolve_with s h St_TERMINAL_NON_BLOCKING Do_RECLAIM_STALE_LOCK Why_STALE_WRITER_LOCK id
            else if \<not> request_valid s
            then resolve_with s h St_BINDING_CONFLICT Do_BLOCK_OVERLAPPING_PATHS Why_INVALID_PATH_REQUEST id
            else (case binding s of
                Binding_OVERLAPPING \<Rightarrow>
                  resolve_with s h St_BINDING_CONFLICT Do_BLOCK_OVERLAPPING_PATHS Why_OVERLAPPING_PATHS id
              | Binding_REBASEABLE \<Rightarrow>
                  resolve_with s h St_BINDING_CONFLICT Do_REBASE_CURRENT_BINDING Why_REBASEABLE_BINDING_CHANGED id
              | Binding_CURRENT \<Rightarrow>
                  (case resolve_attempt s h of Some r \<Rightarrow> r | None \<Rightarrow> resolve_candidate s h))))"

definition resolve_lifecycle :: "jv \<Rightarrow> jv \<Rightarrow> lc_resolution" where
  "resolve_lifecycle snapshot_input event_input =
     (case parse_snapshot snapshot_input of
        None \<Rightarrow> invalid_resolution Why_INVALID_SNAPSHOT
      | Some s \<Rightarrow>
          (case parse_event event_input of
             None \<Rightarrow> invalid_resolution Why_INVALID_EVENT
           | Some e \<Rightarrow> resolve_snapshot s e))"

definition lifecycle_snapshot_hash :: "jv \<Rightarrow> string" where
  "lifecycle_snapshot_hash v =
     (case parse_snapshot v of None \<Rightarrow> invalid_snapshot_hash | Some s \<Rightarrow> digest (snapshot_value s))"

end
