(* ===== verification/Lifecycle_Safety.thy ===== *)
theory Lifecycle_Safety
  imports Lifecycle_Resolver
begin

section \<open>Safety of the lifecycle resolver\<close>

text \<open>
  Correctness of the parser (round trip, closed schema) and of the action selection of
  \<^theory_text>\<open>Lifecycle_Resolver\<close>: failing closed, hash-bound execution, writer exclusion, promotion.
\<close>

subsection \<open>Well-formed snapshots\<close>

definition wf_rank :: "lc_rank option \<Rightarrow> bool" where
  "wf_rank r =
     (case r of None \<Rightarrow> True
      | Some k \<Rightarrow> 0 \<le> unresolved_obligations k \<and> unresolved_obligations k \<le> unresolved_attempts k
                \<and> unresolved_attempts k \<le> 10000)"

definition wf_snapshot :: "lc_snapshot \<Rightarrow> bool" where
  "wf_snapshot s =
     (hash_re (source_authority_hash s) \<and> target_id_re (t_id (target s))
      \<and> length (affected_paths s) \<le> 500 \<and> list_all valid_path (affected_paths s)
      \<and> strictly_sorted (affected_paths s) \<and> wf_rank (recovery_rank s))"

lemmas lifecycle_wires =
  lc_intent_wire.parse_iff lc_health_wire.parse_iff lc_disposition_wire.parse_iff
  lc_lock_wire.parse_iff lc_binding_wire.parse_iff lc_attempt_wire.parse_iff
  lc_candidate_wire.parse_iff lc_runtime_wire.parse_iff lc_target_kind_wire.parse_iff
  lc_event_kind_wire.parse_iff

lemma parse_hash_Some [lifecycle]: "parse_hash v = Some h \<longleftrightarrow> v = JStr h \<and> hash_re h"
  by (auto simp: parse_hash_def split: option.splits)

lemma parse_paths_Some [lifecycle]:
  "parse_paths v = Some ps \<longleftrightarrow>
     v = JArr (map JStr ps) \<and> length ps \<le> 500 \<and> list_all valid_path ps \<and> strictly_sorted ps"
  by (auto simp: parse_paths_def as_strings_Some split: option.splits)

lemma parse_target_Some:
  "parse_target v = Some t \<longleftrightarrow>
     (\<exists>f. v = JObj f \<and> exact_fields f [''kind'', ''id''] \<and> get_prop f ''kind'' = JStr (lc_target_kind_text (t_kind t))
        \<and> get_prop f ''id'' = JStr (t_id t) \<and> target_id_re (t_id t))"
  by (cases t) (auto simp: parse_target_def lifecycle_wires split: option.splits if_splits)

lemma parse_authority_Some:
  "parse_authority v = Some (h, d) \<longleftrightarrow>
     (\<exists>f. v = JObj f \<and> exact_fields f [''health'', ''disposition''] \<and> get_prop f ''health'' = JStr (lc_health_text h)
        \<and> get_prop f ''disposition'' = JStr (lc_disposition_text d))"
  by (auto simp: parse_authority_def lifecycle_wires split: option.splits if_splits)

lemma parse_rank_None [simp]: "parse_rank v = Some None \<longleftrightarrow> v = JNull"
  by (auto simp: parse_rank_def split: option.splits if_splits)

lemma parse_rank_Some:
  "parse_rank v = Some (Some k) \<longleftrightarrow>
     (\<exists>f. v = JObj f \<and> exact_fields f [''unresolved_obligations'', ''unresolved_attempts'']
        \<and> get_prop f ''unresolved_obligations'' = JNum (JInt (unresolved_obligations k))
        \<and> get_prop f ''unresolved_attempts'' = JNum (JInt (unresolved_attempts k)) \<and> wf_rank (Some k))"
  by (cases k) (auto simp: parse_rank_def as_safe_int_Some wf_rank_def max_safe_integer_def
      split: option.splits if_splits)

text \<open>What an accepted snapshot value looks like, field by field.\<close>

lemma parse_snapshot_Some:
  "parse_snapshot v = Some s \<longleftrightarrow>
     (\<exists>f. v = JObj f \<and> exact_fields f snapshot_fields \<and> get_prop f ''schema_version'' = JNum (JInt 1)
        \<and> get_prop f ''kind'' = JStr snapshot_kind
        \<and> parse_hash (get_prop f ''source_authority_hash'') = Some (source_authority_hash s)
        \<and> get_prop f ''operation_intent'' = JStr (lc_intent_text (operation_intent s))
        \<and> parse_authority (get_prop f ''authority'') = Some (health s, disposition s)
        \<and> get_prop f ''writer_lock'' = JStr (lc_lock_text (writer_lock s))
        \<and> get_prop f ''binding'' = JStr (lc_binding_text (binding s))
        \<and> get_prop f ''attempt'' = JStr (lc_attempt_text (attempt s))
        \<and> get_prop f ''candidate'' = JStr (lc_candidate_text (candidate s))
        \<and> get_prop f ''runtime_identity'' = JStr (lc_runtime_text (runtime_identity s))
        \<and> get_prop f ''request_valid'' = JBool (request_valid s)
        \<and> get_prop f ''scope_unknown'' = JBool (scope_unknown s)
        \<and> parse_target (get_prop f ''target'') = Some (target s)
        \<and> parse_paths (get_prop f ''affected_paths'') = Some (affected_paths s)
        \<and> parse_rank (get_prop f ''recovery_rank'') = Some (recovery_rank s))"
  by (cases s) (auto simp: parse_snapshot_def lifecycle_wires bind_eq_Some_conv split: if_splits)

lemma parse_snapshot_wf: "parse_snapshot v = Some s \<Longrightarrow> wf_snapshot s"
  by (cases "recovery_rank s")
    (auto simp: parse_snapshot_Some wf_snapshot_def lifecycle parse_target_Some parse_rank_Some wf_rank_def)

lemma rank_value_parse: "wf_rank r \<Longrightarrow> parse_rank (rank_value r) = Some r"
  by (cases r) (auto simp: rank_value_def parse_rank_Some exact_fields_def own_keys_def)

lemma snapshot_value_exact: "\<exists>f. snapshot_value s = JObj f \<and> exact_fields f snapshot_fields \<and> distinct (map fst f)"
  by (simp add: snapshot_value_def exact_fields_def own_keys_def snapshot_fields_def)

lemma value_parse_snapshot:
  assumes "wf_snapshot s"
  shows "parse_snapshot (snapshot_value s) = Some s"
proof -
  have keys: "exact_fields f snapshot_fields" if "snapshot_value s = JObj f" for f
    using snapshot_value_exact[of s] that by auto
  show ?thesis
    using assms keys
    by (auto simp: parse_snapshot_Some snapshot_value_def wf_snapshot_def lifecycle parse_target_Some
        parse_authority_Some rank_value_parse target_value_def exact_fields_def own_keys_def)
qed

text \<open>A snapshot record the resolver can hold is written and read back without loss.\<close>

theorem snapshot_roundtrip:
  assumes "wf_snapshot s"
  shows "parse_snapshot (snapshot_value s) = Some s"
  using assms by (rule value_parse_snapshot)

definition clean_snapshot :: lc_snapshot where
  "clean_snapshot =
     \<lparr>source_authority_hash = digest JNull, operation_intent = Intent_VERIFY, health = Health_VALID,
      disposition = Disp_INACTIVE, writer_lock = Lock_ABSENT, binding = Binding_CURRENT,
      attempt = At_NONE, candidate = Cand_READY, runtime_identity = Rt_CURRENT, request_valid = True,
      target = \<lparr>t_kind = Tgt_DELEGATION, t_id = ''d-1''\<rparr>, affected_paths = [''src''],
      scope_unknown = False,
      recovery_rank = Some \<lparr>unresolved_obligations = 0, unresolved_attempts = 1\<rparr>\<rparr>"

lemma target_id_d1: "target_id_re ''d-1''"
  by (simp add: target_id_re_def is_alnum_def is_digit_def is_lower_def is_upper_def)

lemma valid_path_src: "valid_path ''src''"
  by (simp add: valid_path_def js_trim_def is_js_space_def posix_is_absolute_def starts_with_def
      ends_with_def posix_normalize_def Let_def)

lemma clean_snapshot_wf: "wf_snapshot clean_snapshot"
  by (simp add: wf_snapshot_def clean_snapshot_def target_id_d1 valid_path_src wf_rank_def)

theorem snapshot_roundtrip_witness:
  "wf_snapshot clean_snapshot \<and> parse_snapshot (snapshot_value clean_snapshot) = Some clean_snapshot"
  using clean_snapshot_wf snapshot_roundtrip[OF clean_snapshot_wf] by blast

lemma wf_prop: "wf_value (JObj f) \<Longrightarrow> wf_value (get_prop f k)"
  by (auto simp: get_prop_def split: option.splits dest!: map_of_SomeD)

lemma same_target:
  assumes "wf_value v" "parse_target v = Some t"
  shows "sort_keys v = sort_keys (target_value t)"
proof -
  from assms(2) obtain f where f: "v = JObj f" "exact_fields f [''kind'', ''id'']"
    "get_prop f ''kind'' = JStr (lc_target_kind_text (t_kind t))" "get_prop f ''id'' = JStr (t_id t)"
    by (auto simp: parse_target_Some)
  show ?thesis unfolding f(1) target_value_def
    by (rule sort_keys_same_fields[where ks = "[''kind'', ''id'']"])
      (use assms f in \<open>auto simp: exact_fields_def own_keys_def\<close>)
qed

lemma same_authority:
  assumes "wf_value v" "parse_authority v = Some (h, d)"
  shows "sort_keys v = sort_keys (JObj [(''health'', JStr (lc_health_text h)), (''disposition'', JStr (lc_disposition_text d))])"
proof -
  from assms(2) obtain f where f: "v = JObj f" "exact_fields f [''health'', ''disposition'']"
    "get_prop f ''health'' = JStr (lc_health_text h)" "get_prop f ''disposition'' = JStr (lc_disposition_text d)"
    by (auto simp: parse_authority_Some)
  show ?thesis unfolding f(1)
    by (rule sort_keys_same_fields[where ks = "[''health'', ''disposition'']"])
      (use assms f in \<open>auto simp: exact_fields_def own_keys_def\<close>)
qed

lemma same_rank:
  assumes "wf_value v" "parse_rank v = Some r"
  shows "sort_keys v = sort_keys (rank_value r)"
proof (cases r)
  case None
  with assms show ?thesis by (simp add: rank_value_def)
next
  case (Some k)
  let ?ks = "[''unresolved_obligations'', ''unresolved_attempts'']"
  from assms(2) Some obtain f where f: "v = JObj f" "exact_fields f ?ks"
    "get_prop f ''unresolved_obligations'' = JNum (JInt (unresolved_obligations k))"
    "get_prop f ''unresolved_attempts'' = JNum (JInt (unresolved_attempts k))"
    by (auto simp: parse_rank_Some)
  show ?thesis unfolding f(1) rank_value_def Some option.case
    by (rule sort_keys_same_fields[where ks = "?ks"])
      (use assms f in \<open>auto simp: exact_fields_def own_keys_def\<close>)
qed

lemma snapshot_value_serializable: "serializable (snapshot_value s)"
  by (auto simp: snapshot_value_def target_value_def rank_value_def list_all_iff split: option.splits)

lemma sort_keys_serializable: "serializable (sort_keys v) = serializable v"
  by (induction v) (fastforce simp: list_all_iff split: jnum.splits)+

definition snapshot_props :: "lc_snapshot \<Rightarrow> fields" where
  "snapshot_props s = (case snapshot_value s of JObj f \<Rightarrow> f | _ \<Rightarrow> [])"

lemma snapshot_props_value: "snapshot_value s = JObj (snapshot_props s)"
  by (simp add: snapshot_props_def snapshot_value_def)

lemma snapshot_props_get:
  "get_prop (snapshot_props s) ''schema_version'' = JNum (JInt 1)"
  "get_prop (snapshot_props s) ''kind'' = JStr snapshot_kind"
  "get_prop (snapshot_props s) ''source_authority_hash'' = JStr (source_authority_hash s)"
  "get_prop (snapshot_props s) ''operation_intent'' = JStr (lc_intent_text (operation_intent s))"
  "get_prop (snapshot_props s) ''authority''
     = JObj [(''health'', JStr (lc_health_text (health s))), (''disposition'', JStr (lc_disposition_text (disposition s)))]"
  "get_prop (snapshot_props s) ''writer_lock'' = JStr (lc_lock_text (writer_lock s))"
  "get_prop (snapshot_props s) ''binding'' = JStr (lc_binding_text (binding s))"
  "get_prop (snapshot_props s) ''attempt'' = JStr (lc_attempt_text (attempt s))"
  "get_prop (snapshot_props s) ''candidate'' = JStr (lc_candidate_text (candidate s))"
  "get_prop (snapshot_props s) ''runtime_identity'' = JStr (lc_runtime_text (runtime_identity s))"
  "get_prop (snapshot_props s) ''request_valid'' = JBool (request_valid s)"
  "get_prop (snapshot_props s) ''target'' = target_value (target s)"
  "get_prop (snapshot_props s) ''affected_paths'' = JArr (map JStr (affected_paths s))"
  "get_prop (snapshot_props s) ''scope_unknown'' = JBool (scope_unknown s)"
  "get_prop (snapshot_props s) ''recovery_rank'' = rank_value (recovery_rank s)"
  unfolding snapshot_props_def snapshot_value_def by simp_all

lemma same_snapshot:
  assumes "wf_value v" "parse_snapshot v = Some s"
  shows "sort_keys v = sort_keys (snapshot_value s)"
proof -
  from assms(2) obtain f where f: "v = JObj f" and ex: "exact_fields f snapshot_fields"
    and vals: "get_prop f ''schema_version'' = JNum (JInt 1)" "get_prop f ''kind'' = JStr snapshot_kind"
      "get_prop f ''source_authority_hash'' = JStr (source_authority_hash s)"
      "get_prop f ''operation_intent'' = JStr (lc_intent_text (operation_intent s))"
      "get_prop f ''writer_lock'' = JStr (lc_lock_text (writer_lock s))"
      "get_prop f ''binding'' = JStr (lc_binding_text (binding s))"
      "get_prop f ''attempt'' = JStr (lc_attempt_text (attempt s))"
      "get_prop f ''candidate'' = JStr (lc_candidate_text (candidate s))"
      "get_prop f ''runtime_identity'' = JStr (lc_runtime_text (runtime_identity s))"
      "get_prop f ''request_valid'' = JBool (request_valid s)"
      "get_prop f ''scope_unknown'' = JBool (scope_unknown s)"
      "get_prop f ''affected_paths'' = JArr (map JStr (affected_paths s))"
    and nested: "parse_authority (get_prop f ''authority'') = Some (health s, disposition s)"
      "parse_target (get_prop f ''target'') = Some (target s)"
      "parse_rank (get_prop f ''recovery_rank'') = Some (recovery_rank s)"
    by (auto simp: parse_snapshot_Some parse_hash_Some parse_paths_Some)
  have wf: "wf_value (get_prop f k)" for k using assms(1) f wf_prop by blast
  note nested' = same_authority[OF wf nested(1)] same_target[OF wf nested(2)] same_rank[OF wf nested(3)]
  have exg: "exact_fields (snapshot_props s) snapshot_fields" and dg: "distinct (map fst (snapshot_props s))"
    using snapshot_value_exact[of s] by (auto simp: snapshot_props_value)
  have "sort_keys (JObj f) = sort_keys (JObj (snapshot_props s))"
  proof (rule sort_keys_same_fields[OF _ dg ex exg])
    show "distinct (map fst f)" using assms(1) f by simp
    fix k assume k: "k \<in> set snapshot_fields"
    have "list_all (\<lambda>k. sort_keys (get_prop f k) = sort_keys (get_prop (snapshot_props s) k)) snapshot_fields"
      unfolding snapshot_fields_def list.pred_inject
      by (simp only: vals nested' snapshot_props_get simp_thms list.pred_inject)
    with k show "sort_keys (get_prop f k) = sort_keys (get_prop (snapshot_props s) k)" by (simp add: list_all_iff)
  qed
  then show ?thesis by (simp add: f snapshot_props_value)
qed

lemma strictly_sorted_wrt: "strictly_sorted ps \<Longrightarrow> sorted_wrt (\<lambda>a b. byte_compare a b < 0) ps"
  by (induction ps rule: strictly_sorted.induct) (auto simp: byte_compare_order(1) intro: less_trans)

text \<open>What the checks on the single fields amount to, written out.\<close>

lemma target_id_facts:
  assumes "target_id_re i"
  shows "i \<noteq> []" "length i \<le> 128" "list_all (\<lambda>c. is_alnum c \<or> c \<in> {CHR ''.'', CHR ''_'', CHR '':'', CHR ''-''}) i"
  using assms by (cases i; simp add: target_id_re_def list_all_iff)+

definition root_path :: "string \<Rightarrow> bool" where
  "root_path p \<longleftrightarrow> p \<noteq> [] \<and> length p \<le> 400 \<and> js_trim p = p \<and> \<not> posix_is_absolute p
     \<and> CHR 0x5C \<notin> set p \<and> CHR 0x00 \<notin> set p
     \<and> (\<exists>q. posix_normalize q = q \<and> q \<notin> {[], ''.'', ''..''} \<and> \<not> starts_with ''../'' q \<and> p \<in> {q, q @ ''/**''})"

lemma subtree_suffix: "ends_with suf p \<Longrightarrow> drop_last (length suf) p @ suf = p"
  by (metis append_take_drop_id drop_last_def ends_with_def)

lemma valid_path_facts:
  assumes "valid_path p"
  shows "root_path p"
proof -
  define q where "q = (if ends_with ''/**'' p then drop_last 3 p else p)"
  have "p = q \<or> p = q @ ''/**''"
    using subtree_suffix[of "''/**''" p] by (auto simp: q_def eval_nat_numeral)
  moreover have "posix_normalize q = q" "q \<noteq> []" "q \<noteq> ''.''" "q \<noteq> ''..''" "\<not> starts_with ''../'' q"
    using assms unfolding valid_path_def Let_def q_def by blast+
  moreover have "p \<noteq> []" "length p \<le> 400" "js_trim p = p" "\<not> posix_is_absolute p" "CHR 0x5C \<notin> set p" "CHR 0x00 \<notin> set p"
    using assms unfolding valid_path_def by metis+
  ultimately show ?thesis unfolding root_path_def by (intro conjI exI[of _ q]) simp_all
qed

lemma wf_rank_facts:
  assumes "wf_rank r"
  shows "r = None \<or> (\<exists>ob at. r = Some \<lparr>unresolved_obligations = ob, unresolved_attempts = at\<rparr> \<and> 0 \<le> ob \<and> ob \<le> at \<and> at \<le> 10000)"
proof (cases r)
  case (Some k)
  then show ?thesis using assms by (cases k) (simp add: wf_rank_def)
qed simp

lemma wf_snapshot_facts:
  assumes "wf_snapshot s"
  shows "length (source_authority_hash s) = 64" "list_all is_lower_hex (source_authority_hash s)"
    "t_id (target s) \<noteq> []" "length (t_id (target s)) \<le> 128"
    "list_all (\<lambda>c. is_alnum c \<or> c \<in> {CHR ''.'', CHR ''_'', CHR '':'', CHR ''-''}) (t_id (target s))"
    "length (affected_paths s) \<le> 500" "sorted_wrt (\<lambda>a b. byte_compare a b < 0) (affected_paths s)"
    "list_all root_path (affected_paths s)"
    "recovery_rank s = None \<or> (\<exists>ob at. recovery_rank s = Some \<lparr>unresolved_obligations = ob, unresolved_attempts = at\<rparr>
       \<and> 0 \<le> ob \<and> ob \<le> at \<and> at \<le> 10000)"
proof -
  have w: "hash_re (source_authority_hash s)" "target_id_re (t_id (target s))" "length (affected_paths s) \<le> 500"
    "list_all valid_path (affected_paths s)" "strictly_sorted (affected_paths s)" "wf_rank (recovery_rank s)"
    using assms by (simp_all add: wf_snapshot_def)
  show "length (source_authority_hash s) = 64" "list_all is_lower_hex (source_authority_hash s)"
    using w(1) by (simp_all add: hash_re_def)
  show "t_id (target s) \<noteq> []" "length (t_id (target s)) \<le> 128"
    "list_all (\<lambda>c. is_alnum c \<or> c \<in> {CHR ''.'', CHR ''_'', CHR '':'', CHR ''-''}) (t_id (target s))"
    by (rule target_id_facts[OF w(2)])+
  show "length (affected_paths s) \<le> 500" by (rule w(3))
  show "sorted_wrt (\<lambda>a b. byte_compare a b < 0) (affected_paths s)" by (rule strictly_sorted_wrt[OF w(5)])
  show "list_all root_path (affected_paths s)" using w(4) valid_path_facts by (metis list.pred_mono_strong)
  show "recovery_rank s = None \<or> (\<exists>ob at. recovery_rank s = Some \<lparr>unresolved_obligations = ob, unresolved_attempts = at\<rparr>
       \<and> 0 \<le> ob \<and> ob \<le> at \<and> at \<le> 10000)"
    by (rule wf_rank_facts[OF w(6)])
qed

text \<open>C2: The parser is closed. Whatever it accepts is, up to key order, exactly the value of the
  record it returns, so the hash of the record is the hash of the whole input; and the record is well
  formed: the authority hash is 64 lower-case hexadecimal digits, the target id is 1 to 128 characters
  of the id alphabet, there are at most 500 affected paths, strictly sorted by bytes, each a trimmed,
  relative, normalised path of at most 400 characters below the root or the subtree rule of one, and a
  recovery rank counts at most as many obligations as attempts and at most 10000 of them.\<close>

theorem parse_snapshot_closed:
  assumes "wf_value v" "parse_snapshot v = Some s"
  shows "sort_keys v = sort_keys (snapshot_value s) \<and> canonical_hash v = Inr (digest (snapshot_value s))
    \<and> length (source_authority_hash s) = 64 \<and> list_all is_lower_hex (source_authority_hash s)
    \<and> t_id (target s) \<noteq> [] \<and> length (t_id (target s)) \<le> 128
    \<and> list_all (\<lambda>c. is_alnum c \<or> c \<in> {CHR ''.'', CHR ''_'', CHR '':'', CHR ''-''}) (t_id (target s))
    \<and> length (affected_paths s) \<le> 500 \<and> sorted_wrt (\<lambda>a b. byte_compare a b < 0) (affected_paths s)
    \<and> list_all root_path (affected_paths s)
    \<and> (recovery_rank s = None \<or> (\<exists>ob at. recovery_rank s = Some \<lparr>unresolved_obligations = ob, unresolved_attempts = at\<rparr>
         \<and> 0 \<le> ob \<and> ob \<le> at \<and> at \<le> 10000))"
proof -
  have "sort_keys v = sort_keys (snapshot_value s)" by (rule same_snapshot[OF assms])
  moreover then have "serializable v"
    by (metis snapshot_value_serializable sort_keys_serializable)
  ultimately have "sort_keys v = sort_keys (snapshot_value s) \<and> canonical_hash v = Inr (digest (snapshot_value s))"
    by (simp add: canonical_hash_digest digest_def canonical_text_def canonical_json_print snapshot_value_serializable)
  with wf_snapshot_facts[OF parse_snapshot_wf[OF assms(2)]] show ?thesis by (intro conjI) (assumption | blast)+
qed

theorem parse_snapshot_closed_witness:
  "canonical_hash (snapshot_value clean_snapshot) = Inr (digest (snapshot_value clean_snapshot))
   \<and> sorted_wrt (\<lambda>a b. byte_compare a b < 0) (affected_paths clean_snapshot)"
proof -
  have "wf_value (snapshot_value clean_snapshot)"
    by (simp add: snapshot_value_def clean_snapshot_def target_value_def rank_value_def)
  from parse_snapshot_closed[OF this value_parse_snapshot[OF clean_snapshot_wf]] show ?thesis by blast
qed

subsection \<open>Action selection\<close>

text \<open>The action, flags and hash a branch of the resolver produces.\<close>

lemma make_resolution_simps [simp]:
  "res_state (make_resolution st act why h tgt ps su rank ov) = st"
  "action (primary_action (make_resolution st act why h tgt ps su rank ov)) = act"
  "reason (primary_action (make_resolution st act why h tgt ps su rank ov)) = why"
  "snapshot_hash (primary_action (make_resolution st act why h tgt ps su rank ov)) = h"
  "exact_target (primary_action (make_resolution st act why h tgt ps su rank ov)) = tgt"
  "safe_automatic (primary_action (make_resolution st act why h tgt ps su rank ov)) = fl_safe (ov (action_flags act))"
  "requires_user (primary_action (make_resolution st act why h tgt ps su rank ov)) = fl_user (ov (action_flags act))"
  "recovery_effect (primary_action (make_resolution st act why h tgt ps su rank ov)) = fl_recovery (ov (action_flags act))"
  "expected_rank (primary_action (make_resolution st act why h tgt ps su rank ov)) = rank"
  by (simp_all add: make_resolution_def seal_resolution_def Let_def)

lemmas resolver_defs = resolve_snapshot_def resolve_with_def Let_def
lemmas resolver_splits = option.splits if_splits lc_health.splits lc_binding.splits lc_attempt.splits
  lc_candidate.splits

abbreviation chosen :: "lc_resolution \<Rightarrow> lc_action" where
  "chosen r \<equiv> action (primary_action r)"

lemma resolve_snapshot_hash: "snapshot_hash (primary_action (resolve_snapshot s e)) = digest (snapshot_value s)"
  by (auto simp: resolver_defs split: resolver_splits)

lemma resolve_lifecycle_cases:
  obtains (bad_snapshot) "parse_snapshot v = None" "resolve_lifecycle v w = invalid_resolution Why_INVALID_SNAPSHOT"
  | (bad_event) s where "parse_snapshot v = Some s" "parse_event w = None"
      "resolve_lifecycle v w = invalid_resolution Why_INVALID_EVENT"
  | (resolved) s e where "parse_snapshot v = Some s" "parse_event w = Some e"
      "resolve_lifecycle v w = resolve_snapshot s e"
  by (cases "parse_snapshot v"; cases "parse_event w") (auto simp: resolve_lifecycle_def)

text \<open>Malformed input fails closed: an unreadable snapshot selects the user-authorised quarantine
  and never an automatic action, an unreadable event selects only the report, and neither names a
  recovery rank or a caller-chosen target.\<close>

theorem malformed_input_fails_closed:
  assumes "parse_snapshot v = None \<or> parse_event w = None"
  defines "r \<equiv> resolve_lifecycle v w"
  shows "res_state r = St_CORRUPT_AUTHORITY \<and> expected_rank (primary_action r) = None
    \<and> exact_target (primary_action r) = \<lparr>t_kind = Tgt_PROJECT_AUTHORITY, t_id = ''project-authority''\<rparr>
    \<and> chosen r = (if parse_snapshot v = None then Do_QUARANTINE_CORRUPT_AUTHORITY else Do_REPORT_STORAGE_FAILURE)
    \<and> (parse_snapshot v = None \<longrightarrow> requires_user (primary_action r) \<and> \<not> safe_automatic (primary_action r))"
  using assms(1) unfolding r_def
  by (cases v w rule: resolve_lifecycle_cases) (auto simp: invalid_resolution_def)

theorem malformed_input_fails_closed_witness:
  "chosen (resolve_lifecycle JNull JNull) = Do_QUARANTINE_CORRUPT_AUTHORITY
   \<and> \<not> safe_automatic (primary_action (resolve_lifecycle JNull JNull))"
proof -
  have "parse_snapshot JNull = None" by (simp add: parse_snapshot_def)
  then show ?thesis using malformed_input_fails_closed[of JNull JNull] by simp
qed

text \<open>C3: An executor is bound to the snapshot it saw: when an EXECUTE event carries a hash that is not
  the hash of the current snapshot, the only action is to rebase, which touches no durable record;
  so every other action of an EXECUTE event proves that the hash was current.\<close>

theorem execute_is_hash_bound:
  assumes "parse_snapshot v = Some s" "parse_event w = Some e" "event_kind e = Ev_EXECUTE"
    "expected_snapshot_hash e \<noteq> Some (lifecycle_snapshot_hash v)"
  shows "chosen (resolve_lifecycle v w) = Do_REBASE_CURRENT_BINDING
    \<and> reason (primary_action (resolve_lifecycle v w)) = Why_SNAPSHOT_CHANGED
    \<and> recovery_effect (primary_action (resolve_lifecycle v w)) = Rec_NONE
    \<and> snapshot_hash (primary_action (resolve_lifecycle v w)) = lifecycle_snapshot_hash v"
  using assms by (auto simp: resolve_lifecycle_def resolver_defs lifecycle_snapshot_hash_def)

definition execute_event :: "string \<Rightarrow> jv" where
  "execute_event h = JObj [(''schema_version'', JNum (JInt 1)), (''kind'', JStr event_kind_text),
     (''event'', JStr ''EXECUTE''), (''expected_snapshot_hash'', JStr h)]"

definition observe_event :: jv where
  "observe_event = JObj [(''schema_version'', JNum (JInt 1)), (''kind'', JStr event_kind_text),
     (''event'', JStr ''OBSERVE''), (''expected_snapshot_hash'', JNull)]"

lemma parse_execute_event: "hash_re h \<Longrightarrow> parse_event (execute_event h) = Some \<lparr>event_kind = Ev_EXECUTE, expected_snapshot_hash = Some h\<rparr>"
proof -
  have "parse_enum lc_event_kind_all lc_event_kind_text (JStr ''EXECUTE'') = Some Ev_EXECUTE"
    by (simp add: lifecycle_wires)
  then show "hash_re h \<Longrightarrow> ?thesis"
    by (simp add: parse_event_def execute_event_def exact_fields_def own_keys_def parse_hash_def)
qed

lemma parse_observe_event: "parse_event observe_event = Some \<lparr>event_kind = Ev_OBSERVE, expected_snapshot_hash = None\<rparr>"
proof -
  have "parse_enum lc_event_kind_all lc_event_kind_text (JStr ''OBSERVE'') = Some Ev_OBSERVE"
    by (simp add: lifecycle_wires)
  then show ?thesis
    by (simp add: parse_event_def observe_event_def exact_fields_def own_keys_def)
qed

lemma hash_re_zeros: "hash_re (replicate 64 (CHR ''0''))"
  by (simp add: hash_re_def list_all_iff is_lower_hex_def is_digit_def)

theorem execute_is_hash_bound_witness:
  "\<exists>h. chosen (resolve_lifecycle (snapshot_value clean_snapshot) (execute_event h)) = Do_REBASE_CURRENT_BINDING"
proof -
  let ?v = "snapshot_value clean_snapshot"
  define h where "h = (if lifecycle_snapshot_hash ?v = replicate 64 (CHR ''0'') then replicate 64 (CHR ''1'') else replicate 64 (CHR ''0''))"
  have re: "hash_re h"
    using hash_re_zeros by (simp add: h_def hash_re_def list_all_iff is_lower_hex_def is_digit_def)
  have "replicate 64 (CHR ''1'') \<noteq> replicate 64 (CHR ''0'')" by simp
  then have "Some h \<noteq> Some (lifecycle_snapshot_hash ?v)" unfolding h_def by auto
  with execute_is_hash_bound[OF value_parse_snapshot[OF clean_snapshot_wf] parse_execute_event[OF re]]
  show ?thesis by auto
qed

text \<open>C4: A candidate is promoted exactly when everything allows it: a current snapshot outside DEV,
  readable and valid authority, no writer lock, a valid non-overlapping current binding, no open
  attempt, a runtime identity that is not stale or unknown, and a ready candidate. The action then
  always needs the user and is never automatic.\<close>

theorem promotion_requirements:
  assumes "parse_snapshot v = Some s" "parse_event w = Some e"
  shows "chosen (resolve_lifecycle v w) = Do_PROMOTE_CANDIDATE \<longleftrightarrow>
      (event_kind e = Ev_EXECUTE \<longrightarrow> expected_snapshot_hash e = Some (lifecycle_snapshot_hash v))
      \<and> operation_intent s \<noteq> Intent_DEV \<and> health s = Health_VALID \<and> writer_lock s = Lock_ABSENT
      \<and> request_valid s \<and> binding s = Binding_CURRENT \<and> attempt s \<in> {At_NONE, At_TERMINAL}
      \<and> runtime_identity s \<in> {Rt_CURRENT, Rt_NOT_REQUIRED} \<and> candidate s = Cand_READY"
proof -
  have hash: "lifecycle_snapshot_hash v = digest (snapshot_value s)"
    using assms by (simp add: lifecycle_snapshot_hash_def)
  have res: "resolve_lifecycle v w = resolve_snapshot s e"
    using assms by (simp add: resolve_lifecycle_def)
  show ?thesis
    unfolding hash res
    by (cases "writer_lock s"; cases "runtime_identity s") (auto simp: resolver_defs split: resolver_splits)
qed

theorem promotion_requirements_witness:
  "chosen (resolve_lifecycle (snapshot_value clean_snapshot) observe_event) = Do_PROMOTE_CANDIDATE"
  using promotion_requirements[OF value_parse_snapshot[OF clean_snapshot_wf] parse_observe_event]
  by (simp add: clean_snapshot_def)

text \<open>C5: Effects are guarded. No resolution is both automatic and user-authorised. An action that can
  change the durable recovery state is never selected beside a live writer, and is selected only on
  corrupt authority, where it is the quarantine whatever the binding, or on valid authority without a
  writer lock, for a valid request under the exact current binding, with an open attempt that is
  satisfied without a delta, superseded, accepted or repairable. It is automatic on corrupt authority
  exactly when that authority is inactive, and on valid authority for every such attempt but a
  repairable one, which needs the current runtime identity.\<close>

theorem recovery_effects_guarded:
  assumes "parse_snapshot v = Some s" "parse_event w = Some e"
  defines "p \<equiv> primary_action (resolve_lifecycle v w)"
  shows "\<not> (safe_automatic p \<and> requires_user p)
    \<and> (recovery_effect p \<noteq> Rec_NONE \<longrightarrow>
         writer_lock s \<noteq> Lock_LIVE
         \<and> (health s = Health_CORRUPT \<and> action p = Do_QUARANTINE_CORRUPT_AUTHORITY
            \<or> health s = Health_VALID \<and> writer_lock s = Lock_ABSENT \<and> request_valid s
               \<and> binding s = Binding_CURRENT
               \<and> attempt s \<in> {At_SATISFIED_NO_DELTA, At_SUPERSEDED, At_ACCEPTED, At_REPAIRABLE})
         \<and> (safe_automatic p \<longleftrightarrow>
              (if health s = Health_CORRUPT then disposition s = Disp_INACTIVE
               else attempt s = At_REPAIRABLE \<longrightarrow> runtime_identity s = Rt_CURRENT)))"
proof -
  have res: "resolve_lifecycle v w = resolve_snapshot s e"
    using assms by (simp add: resolve_lifecycle_def)
  show ?thesis
    unfolding p_def res
    by (cases "writer_lock s")
      (auto simp: resolver_defs safe_if_current_def corrupt_override_def split: resolver_splits)
qed

definition repairable_snapshot :: lc_snapshot where
  "repairable_snapshot = clean_snapshot\<lparr>attempt := At_REPAIRABLE\<rparr>"

lemma repairable_snapshot_wf: "wf_snapshot repairable_snapshot"
  using clean_snapshot_wf by (simp add: repairable_snapshot_def wf_snapshot_def)

text \<open>An exact repair under the current runtime: the guarded effect, and it is automatic.\<close>

theorem recovery_effects_guarded_witness:
  "recovery_effect (primary_action (resolve_lifecycle (snapshot_value repairable_snapshot) observe_event)) = Rec_MAY_CREATE_DELTA
   \<and> safe_automatic (primary_action (resolve_lifecycle (snapshot_value repairable_snapshot) observe_event))
   \<and> \<not> requires_user (primary_action (resolve_lifecycle (snapshot_value repairable_snapshot) observe_event))"
proof -
  note parsed = value_parse_snapshot[OF repairable_snapshot_wf] parse_observe_event
  have "recovery_effect (primary_action (resolve_lifecycle (snapshot_value repairable_snapshot) observe_event)) = Rec_MAY_CREATE_DELTA"
    unfolding resolve_lifecycle_def parsed
    by (simp add: resolver_defs repairable_snapshot_def clean_snapshot_def safe_if_current_def)
  with recovery_effects_guarded[OF parsed] show ?thesis
    by (simp add: repairable_snapshot_def clean_snapshot_def)
qed

end
