(* ===== verification/Lifecycle_Projections.thy ===== *)
theory Lifecycle_Projections
  imports Lifecycle_Safety
begin

section \<open>Compatibility projections into the resolver (core/delegation-lifecycle-resolver.ts)\<close>

text \<open>
  Older read models keep their labels but may not choose an action: each projects its facts into
  the snapshot of the canonical resolver. A projection hashes the caller's authority value, so it
  throws where that value is not serialisable (\<open>Inl\<close>). The lemmas give the action the resolver
  selects for each projection.
\<close>

definition source_hash :: "fields \<Rightarrow> canon_error + string" where
  "source_hash f = canonical_hash (JObj f)"

definition with_source :: "(canon_error + string) \<Rightarrow> (string \<Rightarrow> lc_snapshot) \<Rightarrow> canon_error + lc_snapshot" where
  "with_source h mk = (case h of Inl e \<Rightarrow> Inl e | Inr x \<Rightarrow> Inr (mk x))"

definition delegation_target :: "string \<Rightarrow> lc_target" where
  "delegation_target i = \<lparr>t_kind = Tgt_DELEGATION, t_id = i\<rparr>"

definition rank_of :: "int \<Rightarrow> int \<Rightarrow> lc_rank option" where
  "rank_of ob at = Some \<lparr>unresolved_obligations = ob, unresolved_attempts = at\<rparr>"

record compat_projection =
  cp_source_authority :: jv
  cp_operation_intent :: "lc_intent option"
  cp_health :: lc_health
  cp_disposition :: lc_disposition
  cp_writer_lock :: "lc_lock option"
  cp_binding :: lc_binding
  cp_attempt :: lc_attempt
  cp_candidate :: "lc_candidate option"
  cp_runtime :: "lc_runtime option"
  cp_request_valid :: "bool option"
  cp_target :: lc_target
  cp_paths :: "string list option"
  cp_scope_unknown :: "bool option"
  cp_rank :: "lc_rank option"

fun or_default :: "'a option \<Rightarrow> 'a \<Rightarrow> 'a" where
  "or_default (Some x) d = x"
| "or_default None d = d"

definition snapshot_from_compat :: "compat_projection \<Rightarrow> canon_error + lc_snapshot" where
  "snapshot_from_compat i =
     with_source (source_hash [(''kind'', JStr ''delegation-lifecycle-compatibility-source-v1''),
                               (''authority'', cp_source_authority i)])
       (\<lambda>h. \<lparr>source_authority_hash = h,
          operation_intent = or_default (cp_operation_intent i) Intent_DEV,
          health = cp_health i, disposition = cp_disposition i,
          writer_lock = or_default (cp_writer_lock i) Lock_ABSENT,
          binding = cp_binding i, attempt = cp_attempt i,
          candidate = or_default (cp_candidate i) Cand_NONE,
          runtime_identity = or_default (cp_runtime i) Rt_NOT_REQUIRED,
          request_valid = or_default (cp_request_valid i) True,
          target = cp_target i, affected_paths = or_default (cp_paths i) [],
          scope_unknown = or_default (cp_scope_unknown i) False, recovery_rank = cp_rank i\<rparr>)"

definition snapshot_from_invalid_derived_review :: "string \<Rightarrow> jv \<Rightarrow> canon_error + lc_snapshot" where
  "snapshot_from_invalid_derived_review delegation_id source_authority =
     with_source (source_hash [(''kind'', JStr ''delegation-derived-review-source-v1''),
                               (''state'', source_authority)])
       (\<lambda>h. \<lparr>source_authority_hash = h, operation_intent = Intent_DEV, health = Health_DERIVED_INVALID,
          disposition = Disp_INACTIVE, writer_lock = Lock_ABSENT, binding = Binding_CURRENT,
          attempt = At_AWAITING_REVIEW, candidate = Cand_NONE, runtime_identity = Rt_NOT_REQUIRED,
          request_valid = True, target = delegation_target delegation_id, affected_paths = [],
          scope_unknown = False, recovery_rank = rank_of 0 0\<rparr>)"

definition snapshot_from_exact_repair ::
  "string \<Rightarrow> jv \<Rightarrow> string list \<Rightarrow> lc_binding option \<Rightarrow> canon_error + lc_snapshot" where
  "snapshot_from_exact_repair repair_of source_authority paths bnd =
     with_source (source_hash [(''kind'', JStr ''delegation-exact-repair-source-v1''),
                               (''authority'', source_authority)])
       (\<lambda>h. \<lparr>source_authority_hash = h, operation_intent = Intent_DEV, health = Health_VALID,
          disposition = Disp_INACTIVE, writer_lock = Lock_ABSENT,
          binding = or_default bnd Binding_CURRENT,
          attempt = At_REPAIRABLE, candidate = Cand_NONE, runtime_identity = Rt_NOT_REQUIRED,
          request_valid = True, target = delegation_target repair_of, affected_paths = paths,
          scope_unknown = False, recovery_rank = rank_of 1 1\<rparr>)"

definition snapshot_from_clean_repair_closure ::
  "string \<Rightarrow> jv \<Rightarrow> bool \<Rightarrow> bool \<Rightarrow> canon_error + lc_snapshot" where
  "snapshot_from_clean_repair_closure delegation_id source_authority workspace_clean closed =
     with_source (source_hash [(''kind'', JStr ''delegation-clean-repair-closure-source-v1''),
                               (''authority'', source_authority)])
       (\<lambda>h. \<lparr>source_authority_hash = h, operation_intent = Intent_DEV, health = Health_VALID,
          disposition = Disp_INACTIVE, writer_lock = Lock_ABSENT,
          binding = (if closed \<or> workspace_clean then Binding_CURRENT else Binding_REBASEABLE),
          attempt = (if closed then At_TERMINAL else At_SATISFIED_NO_DELTA),
          candidate = Cand_NONE, runtime_identity = Rt_NOT_REQUIRED,
          request_valid = True, target = delegation_target delegation_id, affected_paths = [],
          scope_unknown = False, recovery_rank = (if closed then rank_of 0 0 else rank_of 1 1)\<rparr>)"

record inactive_blocker =
  ib_delegation_id :: string
  ib_source_authority :: jv
  ib_paths :: "string list"
  ib_relevant_paths_clean :: bool
  ib_execution_active :: bool
  ib_empty_attempt :: bool
  ib_closed :: bool
  ib_scope_unknown :: "bool option"

definition snapshot_from_inactive_blocker :: "inactive_blocker \<Rightarrow> canon_error + lc_snapshot" where
  "snapshot_from_inactive_blocker i =
     with_source (source_hash [(''kind'', JStr ''delegation-inactive-blocker-closure-source-v1''),
                               (''authority'', ib_source_authority i)])
       (\<lambda>h. \<lparr>source_authority_hash = h, operation_intent = Intent_DEV, health = Health_VALID,
          disposition = (if ib_execution_active i then Disp_ACTIVE else Disp_INACTIVE),
          writer_lock = Lock_ABSENT,
          binding = (if ib_closed i \<or> ib_relevant_paths_clean i then Binding_CURRENT else Binding_REBASEABLE),
          attempt = (if ib_closed i then At_TERMINAL else if ib_execution_active i then At_ACTIVE
                     else if ib_empty_attempt i then At_SUPERSEDED else At_SATISFIED_NO_DELTA),
          candidate = Cand_NONE, runtime_identity = Rt_NOT_REQUIRED,
          request_valid = True, target = delegation_target (ib_delegation_id i), affected_paths = ib_paths i,
          scope_unknown = or_default (ib_scope_unknown i) False,
          recovery_rank = (if ib_closed i then rank_of 0 0 else rank_of 1 1)\<rparr>)"

datatype durable_decision = Needs_Review | Decided_Repair

primrec durable_decision_text :: "durable_decision \<Rightarrow> string" where
  "durable_decision_text Needs_Review = ''NEEDS_REVIEW''"
| "durable_decision_text Decided_Repair = ''REPAIR''"

record continuation_candidate =
  cc_delegation_id :: string
  cc_authority_hash :: string
  cc_decision :: durable_decision
  cc_paths :: "string list"

definition continuation_candidate_value :: "continuation_candidate \<Rightarrow> jv" where
  "continuation_candidate_value c = JObj
     [(''delegation_id'', JStr (cc_delegation_id c)), (''authority_hash'', JStr (cc_authority_hash c)),
      (''durable_decision'', JStr (durable_decision_text (cc_decision c))),
      (''affected_paths'', JArr (map JStr (cc_paths c)))]"

definition snapshot_from_continuation_candidate :: "continuation_candidate \<Rightarrow> canon_error + lc_snapshot" where
  "snapshot_from_continuation_candidate c =
     with_source (source_hash [(''kind'', JStr ''delegation-automatic-continuation-source-v1''),
                               (''candidate'', continuation_candidate_value c)])
       (\<lambda>h. \<lparr>source_authority_hash = h, operation_intent = Intent_DEV, health = Health_VALID,
          disposition = Disp_INACTIVE, writer_lock = Lock_ABSENT, binding = Binding_CURRENT,
          attempt = (if cc_decision c = Needs_Review then At_AWAITING_REVIEW else At_REPAIRABLE),
          candidate = Cand_NONE, runtime_identity = Rt_CURRENT,
          request_valid = True, target = delegation_target (cc_delegation_id c), affected_paths = cc_paths c,
          scope_unknown = False,
          recovery_rank = (if cc_decision c = Decided_Repair then rank_of 1 1 else rank_of 0 0)\<rparr>)"

definition snapshot_from_review_candidate ::
  "string \<Rightarrow> jv \<Rightarrow> string list \<Rightarrow> bool \<Rightarrow> canon_error + lc_snapshot" where
  "snapshot_from_review_candidate delegation_id source_authority paths review_required =
     with_source (source_hash [(''kind'', JStr ''delegation-review-candidate-source-v1''),
                               (''authority'', source_authority)])
       (\<lambda>h. \<lparr>source_authority_hash = h, operation_intent = Intent_DEV, health = Health_VALID,
          disposition = Disp_INACTIVE, writer_lock = Lock_ABSENT, binding = Binding_CURRENT,
          attempt = (if review_required then At_AWAITING_REVIEW else At_TERMINAL),
          candidate = Cand_NONE, runtime_identity = Rt_NOT_REQUIRED,
          request_valid = True, target = delegation_target delegation_id, affected_paths = paths,
          scope_unknown = False, recovery_rank = rank_of 0 0\<rparr>)"

subsection \<open>What the resolver answers\<close>

text \<open>The contract of a projection: when it returns a snapshot, the snapshot's hash is a digest.\<close>

lemma with_source_Inr:
  "with_source (source_hash f) mk = Inr s \<Longrightarrow> \<exists>h. hash_re h \<and> s = mk h"
  using canonical_hash_total[of "JObj f"]
  by (auto simp: with_source_def source_hash_def split: sum.splits)

definition observed :: "lc_snapshot \<Rightarrow> lc_action" where
  "observed s = chosen (resolve_lifecycle (snapshot_value s) observe_event)"

lemma observed_resolve:
  "wf_snapshot s \<Longrightarrow> observed s = chosen (resolve_snapshot s \<lparr>event_kind = Ev_OBSERVE, expected_snapshot_hash = None\<rparr>)"
  by (simp add: observed_def resolve_lifecycle_def value_parse_snapshot parse_observe_event)

text \<open>A well-formed projection is decided by the snapshot alone.\<close>

definition observed_primary :: "lc_snapshot \<Rightarrow> lc_primary" where
  "observed_primary s = primary_action (resolve_lifecycle (snapshot_value s) observe_event)"

lemma observed_primary_resolve:
  "wf_snapshot s \<Longrightarrow>
     observed_primary s = primary_action (resolve_snapshot s \<lparr>event_kind = Ev_OBSERVE, expected_snapshot_hash = None\<rparr>)"
  by (simp add: observed_primary_def resolve_lifecycle_def value_parse_snapshot parse_observe_event)

lemmas projection_wf = wf_snapshot_def wf_rank_def rank_of_def delegation_target_def

lemma clean_repair_closure_action:
  assumes "snapshot_from_clean_repair_closure i v clean closed = Inr s" "target_id_re i"
  shows "observed s = (if closed then Do_CONTINUE_DEVELOPMENT
                       else if clean then Do_CLOSE_SATISFIED_NO_DELTA else Do_REBASE_CURRENT_BINDING)"
proof -
  from with_source_Inr[OF assms(1)[unfolded snapshot_from_clean_repair_closure_def]]
  obtain h where h: "hash_re h" and s: "s = \<lparr>source_authority_hash = h, operation_intent = Intent_DEV,
      health = Health_VALID, disposition = Disp_INACTIVE, writer_lock = Lock_ABSENT,
      binding = (if closed \<or> clean then Binding_CURRENT else Binding_REBASEABLE),
      attempt = (if closed then At_TERMINAL else At_SATISFIED_NO_DELTA),
      candidate = Cand_NONE, runtime_identity = Rt_NOT_REQUIRED, request_valid = True,
      target = delegation_target i, affected_paths = [], scope_unknown = False,
      recovery_rank = (if closed then rank_of 0 0 else rank_of 1 1)\<rparr>" by blast
  have "wf_snapshot s" using h assms(2) by (simp add: s projection_wf)
  then show ?thesis by (simp add: observed_resolve s resolver_defs)
qed

text \<open>An inactive historical blocker is closed only on current, clean evidence. For every readable
  blocker the resolver continues development when it is already closed, sends it to rebase while
  its relevant paths are dirty, waits while its execution is active, and otherwise closes it as an
  empty attempt or as satisfied; none of these ever needs a user, and only a closure may
  change the durable recovery record.\<close>

theorem inactive_blocker_action:
  assumes "snapshot_from_inactive_blocker b = Inr s" "target_id_re (ib_delegation_id b)"
    "length (ib_paths b) \<le> 500" "list_all valid_path (ib_paths b)" "strictly_sorted (ib_paths b)"
  shows "observed s =
      (if ib_closed b then Do_CONTINUE_DEVELOPMENT
       else if \<not> ib_relevant_paths_clean b then Do_REBASE_CURRENT_BINDING
       else if ib_execution_active b then Do_WAIT_FOR_ACTIVE_WRITER
       else if ib_empty_attempt b then Do_SUPERSEDE_EMPTY_ATTEMPT else Do_CLOSE_SATISFIED_NO_DELTA)
    \<and> \<not> requires_user (observed_primary s)
    \<and> (recovery_effect (observed_primary s) \<noteq> Rec_NONE \<longrightarrow>
         ib_relevant_paths_clean b \<and> \<not> ib_closed b \<and> \<not> ib_execution_active b)"
proof -
  from with_source_Inr[OF assms(1)[unfolded snapshot_from_inactive_blocker_def]]
  obtain h where h: "hash_re h" and s: "s = \<lparr>source_authority_hash = h, operation_intent = Intent_DEV,
      health = Health_VALID, disposition = (if ib_execution_active b then Disp_ACTIVE else Disp_INACTIVE),
      writer_lock = Lock_ABSENT,
      binding = (if ib_closed b \<or> ib_relevant_paths_clean b then Binding_CURRENT else Binding_REBASEABLE),
      attempt = (if ib_closed b then At_TERMINAL else if ib_execution_active b then At_ACTIVE
                 else if ib_empty_attempt b then At_SUPERSEDED else At_SATISFIED_NO_DELTA),
      candidate = Cand_NONE, runtime_identity = Rt_NOT_REQUIRED, request_valid = True,
      target = delegation_target (ib_delegation_id b), affected_paths = ib_paths b,
      scope_unknown = or_default (ib_scope_unknown b) False,
      recovery_rank = (if ib_closed b then rank_of 0 0 else rank_of 1 1)\<rparr>" by blast
  have wf: "wf_snapshot s" using h assms by (simp add: s projection_wf)
  show ?thesis
    by (simp add: observed_resolve[OF wf] observed_primary_resolve[OF wf]) (simp add: s resolver_defs)
qed

definition dirty_blocker :: inactive_blocker where
  "dirty_blocker = \<lparr>ib_delegation_id = ''d-1'', ib_source_authority = JNull, ib_paths = [''src''],
     ib_relevant_paths_clean = False, ib_execution_active = False, ib_empty_attempt = False,
     ib_closed = False, ib_scope_unknown = None\<rparr>"

theorem inactive_blocker_action_witness:
  "\<exists>s. snapshot_from_inactive_blocker dirty_blocker = Inr s \<and> observed s = Do_REBASE_CURRENT_BINDING"
proof -
  obtain s where s: "snapshot_from_inactive_blocker dirty_blocker = Inr s"
    by (simp add: snapshot_from_inactive_blocker_def dirty_blocker_def with_source_def source_hash_def
        canonical_hash_def canonical_json_def)
  from inactive_blocker_action[OF s] s show ?thesis
    by (simp add: dirty_blocker_def target_id_d1 valid_path_src)
qed

text \<open>The automatic continuation of a finished delegation is the one projection that claims a
  current runtime identity, so it is automatic: a candidate that needs review goes to the review,
  one with a repair decision to the exact repair, both without the user.\<close>

theorem continuation_candidate_action:
  assumes "snapshot_from_continuation_candidate c = Inr s" "target_id_re (cc_delegation_id c)"
    "length (cc_paths c) \<le> 500" "list_all valid_path (cc_paths c)" "strictly_sorted (cc_paths c)"
  shows "observed s = (case cc_decision c of Needs_Review \<Rightarrow> Do_REVIEW_CANDIDATE
                       | Decided_Repair \<Rightarrow> Do_EXECUTE_EXACT_REPAIR)
    \<and> safe_automatic (observed_primary s) \<and> \<not> requires_user (observed_primary s)
    \<and> t_id (exact_target (observed_primary s)) = cc_delegation_id c"
proof -
  from with_source_Inr[OF assms(1)[unfolded snapshot_from_continuation_candidate_def]]
  obtain h where h: "hash_re h" and s: "s = \<lparr>source_authority_hash = h, operation_intent = Intent_DEV,
      health = Health_VALID, disposition = Disp_INACTIVE, writer_lock = Lock_ABSENT,
      binding = Binding_CURRENT,
      attempt = (if cc_decision c = Needs_Review then At_AWAITING_REVIEW else At_REPAIRABLE),
      candidate = Cand_NONE, runtime_identity = Rt_CURRENT, request_valid = True,
      target = delegation_target (cc_delegation_id c), affected_paths = cc_paths c, scope_unknown = False,
      recovery_rank = (if cc_decision c = Decided_Repair then rank_of 1 1 else rank_of 0 0)\<rparr>" by blast
  have wf: "wf_snapshot s" using h assms by (simp add: s projection_wf)
  show ?thesis
    by (simp add: observed_resolve[OF wf] observed_primary_resolve[OF wf], cases "cc_decision c")
      (simp_all add: s resolver_defs safe_if_current_def delegation_target_def)
qed

theorem continuation_candidate_action_witness:
  "\<exists>s. snapshot_from_continuation_candidate \<lparr>cc_delegation_id = ''d-1'', cc_authority_hash = [],
      cc_decision = Decided_Repair, cc_paths = [''src'']\<rparr> = Inr s \<and> observed s = Do_EXECUTE_EXACT_REPAIR"
proof -
  let ?c = "\<lparr>cc_delegation_id = ''d-1'', cc_authority_hash = [], cc_decision = Decided_Repair, cc_paths = [''src'']\<rparr>"
  obtain s where s: "snapshot_from_continuation_candidate ?c = Inr s"
    by (simp add: snapshot_from_continuation_candidate_def with_source_def source_hash_def
        continuation_candidate_value_def canonical_hash_def canonical_json_def)
  from continuation_candidate_action[OF s] s show ?thesis
    by (simp add: target_id_d1 valid_path_src)
qed

end
