(* ===== verification/Lane_Admission.thy ===== *)
theory Lane_Admission
  imports Path_Lane_Safety Lifecycle_Projections
begin

section \<open>Admission of a path lane (core/delegation-path-lane-admission.ts)\<close>

text \<open>
  The admission reads the project's authority, decides the lane over the blockers it found, and
  binds the answer to a hash of what it read. The scan of the ledger is storage and is a parameter
  here (\<open>scanned\<close>: a scan failure, or the ordinary blockers, the repair tips and the blocker list);
  everything the admission does with its result is modelled, with the projection of an admission
  into the lifecycle resolver.
\<close>

datatype lane_blocker =
    LB_known string "string list" "string list" "(string \<times> string) list"
  | LB_unknown string lane_reason
  | LB_invalid string lane_reason

primrec lane_blocker_id :: "lane_blocker \<Rightarrow> string" where
  "lane_blocker_id (LB_known i ch ca rn) = i"
| "lane_blocker_id (LB_unknown i r) = i"
| "lane_blocker_id (LB_invalid i r) = i"

primrec is_known :: "lane_blocker \<Rightarrow> bool" where
  "is_known (LB_known i ch ca rn) = True"
| "is_known (LB_unknown i r) = False"
| "is_known (LB_invalid i r) = False"

definition strings_value :: "string list \<Rightarrow> jv" where
  "strings_value ss = JArr (map JStr ss)"

primrec blocker_value :: "lane_blocker \<Rightarrow> jv" where
  "blocker_value (LB_known i ch ca rn) = JObj
     [(''kind'', JStr ''known''), (''delegation_id'', JStr i), (''changed_paths'', strings_value ch),
      (''carried_paths'', strings_value ca), (''rename_sources'', JObj (map (map_prod id JStr) rn))]"
| "blocker_value (LB_unknown i r) = JObj
     [(''kind'', JStr ''unknown''), (''delegation_id'', JStr i), (''reason'', JStr (lane_reason_text r))]"
| "blocker_value (LB_invalid i r) = JObj
     [(''kind'', JStr ''invalid''), (''delegation_id'', JStr i), (''reason'', JStr (lane_reason_text r))]"

datatype read_error = E_conflict | E_invalid_input | E_invalid_record | E_not_found | E_not_recoverable
  | E_storage_failure | E_unsupported_version

definition error_failure :: "read_error \<Rightarrow> string option \<Rightarrow> lane_failure" where
  "error_failure c i =
     (if c = E_not_found then \<lparr>lf_delegation_id = i, lf_state = Auth_UNKNOWN, lf_reason = Ln_NOT_FOUND\<rparr>
      else if c = E_storage_failure then \<lparr>lf_delegation_id = i, lf_state = Auth_UNKNOWN, lf_reason = Ln_STORAGE_FAILURE\<rparr>
      else if c = E_unsupported_version then \<lparr>lf_delegation_id = i, lf_state = Auth_INVALID, lf_reason = Ln_SCHEMA_MISMATCH\<rparr>
      else \<lparr>lf_delegation_id = i, lf_state = Auth_INVALID, lf_reason = Ln_INVALID_RECORD\<rparr>)"

definition invalid_graph :: "string option \<Rightarrow> lane_failure" where
  "invalid_graph i = \<lparr>lf_delegation_id = i, lf_state = Auth_INVALID, lf_reason = Ln_INVALID_RECORD\<rparr>"

definition is_bypassable_issue :: "jv \<Rightarrow> bool" where
  "is_bypassable_issue v =
     (case as_string v of None \<Rightarrow> False
      | Some s \<Rightarrow> s \<in> {''additional_unresolved_authority'', ''repair_lineage_multiple_unresolved''})"

record scanned_authority =
  sa_ordinary :: "string list"
  sa_tips :: "string list"
  sa_blockers :: "lane_blocker list"

type_synonym scan_result = "lane_failure + scanned_authority"

definition lane_input :: "string list \<Rightarrow> lane_blocker list \<Rightarrow> jv" where
  "lane_input allowed bs = lane_request (map JStr allowed) (map blocker_value bs)"

definition decision_for_failure :: "string list \<Rightarrow> lane_failure \<Rightarrow> lane_decision" where
  "decision_for_failure allowed f =
     (case lf_delegation_id f of
        Some i \<Rightarrow>
          decide_path_lane (lane_input allowed
            [if lf_state f = Auth_UNKNOWN then LB_unknown i (lf_reason f) else LB_invalid i (lf_reason f)])
      | None \<Rightarrow>
          let base = decide_path_lane (lane_input allowed [])
          in if \<not> ld_allow base then base
             else base\<lparr>ld_allow := False,
                ld_block_reasons := [if lf_state f = Auth_UNKNOWN then Blk_UNKNOWN_AUTHORITY else Blk_INVALID_AUTHORITY],
                ld_failures := [f]\<rparr>)"

definition block_invalid_exclusion :: "lane_decision \<Rightarrow> lane_decision" where
  "block_invalid_exclusion d =
     d\<lparr>ld_allow := False,
       ld_block_reasons := sort_key lane_block_text
         (if Blk_INVALID_REQUEST \<in> set (ld_block_reasons d) then ld_block_reasons d
          else ld_block_reasons d @ [Blk_INVALID_REQUEST])\<rparr>"

record lane_admission =
  la_hash :: string
  la_ordinary :: "string list"
  la_tips :: "string list"
  la_exclusion :: "string option"
  la_blockers :: "lane_blocker list"
  la_decision :: lane_decision

definition opt_string_value :: "string option \<Rightarrow> jv" where
  "opt_string_value x = (case x of None \<Rightarrow> JNull | Some s \<Rightarrow> JStr s)"

definition failure_value :: "lane_failure \<Rightarrow> jv" where
  "failure_value f = JObj [(''delegation_id'', opt_string_value (lf_delegation_id f)),
     (''authority_state'', JStr (lane_authority_text (lf_state f))), (''reason'', JStr (lane_reason_text (lf_reason f)))]"

definition authority_payload :: "scan_result \<Rightarrow> string option \<Rightarrow> jv" where
  "authority_payload scanned excl = JObj
     [(''authority'',
         (case scanned of
            Inr sa \<Rightarrow> JObj [(''ordinary_blocker_ids'', strings_value (sa_ordinary sa)),
                        (''repair_tip_ids'', strings_value (sa_tips sa)),
                        (''blockers'', JArr (map blocker_value (sa_blockers sa)))]
          | Inl f \<Rightarrow> JObj [(''failure'', failure_value f)])),
      (''repair_tip_exclusion_id'', opt_string_value excl)]"

definition valid_exclusion :: "scan_result \<Rightarrow> string option \<Rightarrow> bool" where
  "valid_exclusion scanned excl =
     (case (scanned, excl) of
        (Inr sa, Some x) \<Rightarrow>
          transaction_id_re x \<and> x \<in> set (sa_tips sa) \<and> x \<notin> set (sa_ordinary sa)
          \<and> (let matching = filter (\<lambda>b. lane_blocker_id b = x) (sa_blockers sa)
             in length matching = 1 \<and> is_known (hd matching))
      | _ \<Rightarrow> False)"

definition admit_path_lane :: "string list \<Rightarrow> jv \<Rightarrow> scan_result \<Rightarrow> lane_admission" where
  "admit_path_lane allowed exclusion scanned =
     (let excl = as_string exclusion;
          requested = (exclusion \<noteq> JUndef);
          ordinary = (case scanned of Inr sa \<Rightarrow> sa_ordinary sa | Inl _ \<Rightarrow> []);
          tips = (case scanned of Inr sa \<Rightarrow> sa_tips sa | Inl _ \<Rightarrow> []);
          blockers = (case scanned of Inr sa \<Rightarrow> sa_blockers sa | Inl _ \<Rightarrow> []);
          valid = (requested \<and> valid_exclusion scanned excl);
          decision_blockers = (if valid then filter (\<lambda>b. Some (lane_blocker_id b) \<noteq> excl) blockers else blockers);
          base = (case scanned of
                    Inr _ \<Rightarrow> decide_path_lane (lane_input allowed decision_blockers)
                  | Inl f \<Rightarrow> decision_for_failure allowed f)
      in \<lparr>la_hash = digest (authority_payload scanned excl), la_ordinary = ordinary, la_tips = tips,
          la_exclusion = excl, la_blockers = blockers,
          la_decision = (if requested \<and> \<not> valid then block_invalid_exclusion base else base)\<rparr>)"

record lane_revalidation =
  lv_expected :: string
  lv_observed :: string
  lv_unchanged :: bool
  lv_admission :: lane_admission

definition revalidate_path_lane :: "string list \<Rightarrow> jv \<Rightarrow> scan_result \<Rightarrow> string \<Rightarrow> lane_revalidation" where
  "revalidate_path_lane allowed exclusion scanned expected =
     (let a = admit_path_lane allowed exclusion scanned
      in \<lparr>lv_expected = expected, lv_observed = la_hash a, lv_unchanged = (expected = la_hash a), lv_admission = a\<rparr>)"

text \<open>\<open>a ?? b ?? c ?? "project-authority"\<close>\<close>

definition exact_id :: "lane_admission \<Rightarrow> string" where
  "exact_id a =
     (let d = la_decision a in
      case (case ld_failures d of [] \<Rightarrow> None | f # _ \<Rightarrow> lf_delegation_id f) of Some i \<Rightarrow> i
      | None \<Rightarrow> (case ld_conflicts d of c # _ \<Rightarrow> lk_delegation_id c
         | [] \<Rightarrow> (case la_tips a of t # _ \<Rightarrow> t
            | [] \<Rightarrow> (case la_ordinary a of b # _ \<Rightarrow> b | [] \<Rightarrow> ''project-authority''))))"

definition snapshot_from_lane_admission :: "lane_admission \<Rightarrow> lc_intent \<Rightarrow> lc_snapshot" where
  "snapshot_from_lane_admission a intent =
     (let d = la_decision a;
          storage = (\<exists>f\<in>set (ld_failures d). lf_reason f = Ln_STORAGE_FAILURE);
          failed = (ld_failures d \<noteq> []);
          invalid = (Blk_INVALID_REQUEST \<in> set (ld_block_reasons d));
          i = exact_id a;
          obligations = card (set (la_ordinary a @ la_tips a))
      in \<lparr>source_authority_hash = la_hash a, operation_intent = intent,
          health = (if storage then Health_STORAGE_FAILURE else if failed then Health_CORRUPT else Health_VALID),
          disposition = (if failed then Disp_UNKNOWN else Disp_INACTIVE),
          writer_lock = Lock_ABSENT,
          binding = (if ld_conflicts d = [] then Binding_CURRENT else Binding_OVERLAPPING),
          attempt = At_TERMINAL, candidate = Cand_NONE, runtime_identity = Rt_NOT_REQUIRED,
          request_valid = (\<not> invalid),
          target = \<lparr>t_kind = (if i = ''project-authority'' then Tgt_PROJECT_AUTHORITY else Tgt_DELEGATION), t_id = i\<rparr>,
          affected_paths = ld_rules d, scope_unknown = (failed \<or> invalid),
          recovery_rank = (if failed then None
             else rank_of (int obligations) (int (max obligations (length (la_blockers a)))))\<rparr>)"

subsection \<open>Scan failures and exclusions\<close>

lemma failed_blocker_blocks:
  assumes "b \<in> set bs" "\<not> is_known b"
  shows "\<not> ld_allow (decide_path_lane (lane_input allowed bs))"
proof
  assume allow: "ld_allow (decide_path_lane (lane_input allowed bs))"
  from decide_lane_request[of "map JStr allowed" "map blocker_value bs"] allow
  obtain rules where "ld_allow (decide_parsed rules (map parse_blocker (map blocker_value bs)))"
    unfolding lane_input_def
    by (cases "length (map blocker_value bs) > max_lane_blockers";
        cases "normalize_allowed_rules (JArr (map JStr allowed))") simp_all
  from decide_parsed_allow(1)[OF this] assms(1)
  obtain i h where "parse_blocker (blocker_value b) = Known_Blocker i h" by auto
  moreover have "parse_blocker (blocker_value b) \<noteq> Known_Blocker i h" for i h
    using assms(2)
    by (cases b) (auto simp: parse_blocker_def parse_failed_blocker_def invalid_record_def split: option.splits)
  ultimately show False by blast
qed

lemma decision_for_failure_blocks: "\<not> ld_allow (decision_for_failure allowed f)"
proof (cases "lf_delegation_id f")
  case (Some i)
  let ?b = "if lf_state f = Auth_UNKNOWN then LB_unknown i (lf_reason f) else LB_invalid i (lf_reason f)"
  have "\<not> is_known ?b" by simp
  with Some failed_blocker_blocks[of ?b "[?b]" allowed] show ?thesis
    by (simp add: decision_for_failure_def)
qed (simp add: decision_for_failure_def Let_def)

lemma allowed_admission:
  assumes "ld_allow (la_decision (admit_path_lane allowed exclusion scanned))"
  shows "\<exists>sa. scanned = Inr sa
    \<and> (exclusion \<noteq> JUndef \<longrightarrow> (\<exists>x. exclusion = JStr x \<and> x \<in> set (sa_tips sa) \<and> x \<notin> set (sa_ordinary sa)))
    \<and> la_decision (admit_path_lane allowed exclusion scanned)
        = decide_path_lane (lane_input allowed (filter (\<lambda>b. JStr (lane_blocker_id b) \<noteq> exclusion) (sa_blockers sa)))
    \<and> (\<forall>b\<in>set (sa_blockers sa). is_known b)"
proof (cases scanned)
  case (Inl f)
  then show ?thesis using assms decision_for_failure_blocks[of allowed f]
    by (auto simp: admit_path_lane_def Let_def block_invalid_exclusion_def split: if_splits)
next
  case (Inr sa)
  have valid: "exclusion = JUndef \<or> valid_exclusion scanned (as_string exclusion)"
    using assms by (auto simp: admit_path_lane_def Let_def block_invalid_exclusion_def split: if_splits)
  let ?keep = "filter (\<lambda>b. JStr (lane_blocker_id b) \<noteq> exclusion) (sa_blockers sa)"
  have tip: "\<exists>x. exclusion = JStr x \<and> x \<in> set (sa_tips sa) \<and> x \<notin> set (sa_ordinary sa)
      \<and> length (filter (\<lambda>b. lane_blocker_id b = x) (sa_blockers sa)) = 1
      \<and> is_known (hd (filter (\<lambda>b. lane_blocker_id b = x) (sa_blockers sa)))" if "exclusion \<noteq> JUndef"
    using valid that Inr by (cases exclusion) (auto simp: valid_exclusion_def Let_def)
  have keep: "la_decision (admit_path_lane allowed exclusion scanned) = decide_path_lane (lane_input allowed ?keep)"
  proof (cases "exclusion = JUndef")
    case True
    then show ?thesis by (simp add: admit_path_lane_def Inr Let_def)
  next
    case False
    with tip obtain x where "exclusion = JStr x" by blast
    with False valid show ?thesis by (simp add: admit_path_lane_def Inr Let_def)
  qed
  have "is_known b" if b: "b \<in> set (sa_blockers sa)" for b
  proof (cases "JStr (lane_blocker_id b) = exclusion")
    case True
    with tip obtain x where x: "exclusion = JStr x" "length (filter (\<lambda>b. lane_blocker_id b = x) (sa_blockers sa)) = 1"
      "is_known (hd (filter (\<lambda>b. lane_blocker_id b = x) (sa_blockers sa)))" by blast
    then obtain c where "filter (\<lambda>b. lane_blocker_id b = x) (sa_blockers sa) = [c]"
      by (auto simp: length_Suc_conv)
    moreover have "b \<in> set (filter (\<lambda>b. lane_blocker_id b = x) (sa_blockers sa))" using b True x(1) by simp
    ultimately show ?thesis using x(3) by simp
  next
    case False
    with b have "b \<in> set ?keep" by simp
    with failed_blocker_blocks[of b ?keep allowed] assms keep show ?thesis by auto
  qed
  with Inr keep tip show ?thesis by blast
qed

text \<open>A scan failure the scanner can report: an id it names is a delegation id, and its reason is one
  of the state it names.\<close>

definition scan_failure_wf :: "lane_failure \<Rightarrow> bool" where
  "scan_failure_wf f =
     ((\<forall>i. lf_delegation_id f = Some i \<longrightarrow> transaction_id_re i)
      \<and> lf_reason f \<in> set (if lf_state f = Auth_UNKNOWN then lane_unknown_reasons else lane_invalid_reasons))"

lemma scanner_failures_wf:
  assumes "\<And>j. i = Some j \<Longrightarrow> transaction_id_re j"
  shows "scan_failure_wf (error_failure c i)" "scan_failure_wf (invalid_graph i)"
  using assms by (auto simp: scan_failure_wf_def error_failure_def invalid_graph_def lane_unknown_reasons_def lane_invalid_reasons_def)

lemma parse_failed_value:
  assumes "scan_failure_wf f" "lf_delegation_id f = Some i"
  shows "parse_blocker (blocker_value (if lf_state f = Auth_UNKNOWN then LB_unknown i (lf_reason f) else LB_invalid i (lf_reason f)))
    = Failed_Blocker f"
proof -
  have "transaction_id_re i" using assms by (simp add: scan_failure_wf_def)
  moreover have "parse_enum lane_unknown_reasons lane_reason_text (JStr (lane_reason_text r)) = Some r"
    if "r \<in> set lane_unknown_reasons" for r
    using that by (auto simp: lane_unknown_reasons_def parse_enum_def)
  moreover have "parse_enum lane_invalid_reasons lane_reason_text (JStr (lane_reason_text r)) = Some r"
    if "r \<in> set lane_invalid_reasons" for r
    using that by (auto simp: lane_invalid_reasons_def parse_enum_def)
  ultimately show ?thesis
    using assms
    by (cases f; cases "lf_state f")
      (auto simp: scan_failure_wf_def parse_blocker_def parse_failed_blocker_def exact_fields_def own_keys_def
        failed_fields_def valid_delegation_id_def)
qed

lemma decide_single_failure:
  assumes "normalize_allowed_rules (JArr (map JStr allowed)) \<noteq> None" "scan_failure_wf f"
  shows "ld_failures (decision_for_failure allowed f) = [f]
    \<and> (if lf_state f = Auth_UNKNOWN then Blk_UNKNOWN_AUTHORITY else Blk_INVALID_AUTHORITY)
        \<in> set (ld_block_reasons (decision_for_failure allowed f))"
proof -
  from assms(1) obtain rules where rules: "normalize_allowed_rules (JArr (map JStr allowed)) = Some rules" by blast
  have none: "duplicate_ids (blocker_ids bs) = []" if "length bs \<le> 1" for bs
  proof -
    have "length (blocker_ids bs) \<le> 1"
      using that by (cases bs) (auto simp: blocker_ids_def List.map_filter_def split: option.splits)
    then show ?thesis
      by (cases "blocker_ids bs") (auto simp: duplicate_ids_def)
  qed
  show ?thesis
  proof (cases "lf_delegation_id f")
    case None
    have "ld_allow (decide_parsed rules [])"
      by (simp add: decide_parsed_def authority_failures_def known_blockers_def none List.map_filter_def block_reasons_def Let_def)
    then have "ld_allow (decide_path_lane (lane_input allowed []))"
      by (simp add: lane_input_def decide_lane_request rules)
    with None show ?thesis by (simp add: decision_for_failure_def Let_def)
  next
    case (Some i)
    have known: "known_blockers [Failed_Blocker f] = []"
      by (simp add: known_blockers_def List.map_filter_def)
    have fails: "authority_failures [Failed_Blocker f] = [f]"
      using none[of "[Failed_Blocker f]"] Some by (simp add: authority_failures_def Let_def List.map_filter_def)
    have "ld_failures (decide_parsed rules [Failed_Blocker f]) = [f]
      \<and> (if lf_state f = Auth_UNKNOWN then Blk_UNKNOWN_AUTHORITY else Blk_INVALID_AUTHORITY)
          \<in> set (ld_block_reasons (decide_parsed rules [Failed_Blocker f]))"
      by (cases "lf_state f") (simp_all add: decide_parsed_def known fails block_reasons_def Let_def)
    moreover have "decision_for_failure allowed f = decide_parsed rules [Failed_Blocker f]"
      using parse_failed_value[OF assms(2) Some] Some
      by (simp add: decision_for_failure_def lane_input_def decide_lane_request rules max_lane_blockers_def)
    ultimately show ?thesis by simp
  qed
qed

text \<open>C7: An admission fails closed. When the scan of the project authority failed, the lane is not
  allowed; and if the requested paths are valid rules, the decision's only authority failure is the
  failure of the scan, with the id of the failed authority, its state and its reason (the failure
  being one the scanner can report), and its block reasons say so. When the admission allows a lane,
  the scan succeeded and an exclusion the caller asked for is a known repair tip that is no ordinary
  blocker; every scanned blocker other than that exact tip was part of the decision that allowed the
  lane, and is readable.\<close>

theorem admission_fails_closed:
  defines "d \<equiv> (\<lambda>allowed exclusion scanned. la_decision (admit_path_lane allowed exclusion scanned))"
  shows "\<not> ld_allow (d allowed exclusion (Inl f))
    \<and> (normalize_allowed_rules (JArr (map JStr allowed)) \<noteq> None \<and> scan_failure_wf f \<longrightarrow>
         ld_failures (d allowed exclusion (Inl f)) = [f]
         \<and> (if lf_state f = Auth_UNKNOWN then Blk_UNKNOWN_AUTHORITY else Blk_INVALID_AUTHORITY)
             \<in> set (ld_block_reasons (d allowed exclusion (Inl f))))
    \<and> (ld_allow (d allowed exclusion scanned) \<longrightarrow>
         (\<exists>sa. scanned = Inr sa
            \<and> (exclusion \<noteq> JUndef \<longrightarrow> (\<exists>x. exclusion = JStr x \<and> x \<in> set (sa_tips sa) \<and> x \<notin> set (sa_ordinary sa)))
            \<and> d allowed exclusion scanned
                = decide_path_lane (lane_input allowed (filter (\<lambda>b. JStr (lane_blocker_id b) \<noteq> exclusion) (sa_blockers sa)))
            \<and> (\<forall>b\<in>set (sa_blockers sa). is_known b)))"
proof -
  let ?e = "decision_for_failure allowed f"
  have facts: "set (ld_block_reasons ?e) \<subseteq> set (ld_block_reasons (block_invalid_exclusion ?e))"
    "ld_failures (block_invalid_exclusion ?e) = ld_failures ?e" "\<not> ld_allow (block_invalid_exclusion ?e)"
    by (auto simp: block_invalid_exclusion_def)
  have "d allowed exclusion (Inl f) = ?e \<or> d allowed exclusion (Inl f) = block_invalid_exclusion ?e"
    by (simp add: d_def admit_path_lane_def Let_def)
  then have "\<not> ld_allow (d allowed exclusion (Inl f)) \<and> ld_failures (d allowed exclusion (Inl f)) = ld_failures ?e
    \<and> set (ld_block_reasons ?e) \<subseteq> set (ld_block_reasons (d allowed exclusion (Inl f)))"
    by (elim disjE) (simp_all only: facts decision_for_failure_blocks subset_refl simp_thms)
  then have blocked: "\<not> ld_allow (d allowed exclusion (Inl f))"
    and same: "ld_failures (d allowed exclusion (Inl f)) = ld_failures ?e"
      "set (ld_block_reasons ?e) \<subseteq> set (ld_block_reasons (d allowed exclusion (Inl f)))" by blast+
  have named: "ld_failures (d allowed exclusion (Inl f)) = [f]
      \<and> (if lf_state f = Auth_UNKNOWN then Blk_UNKNOWN_AUTHORITY else Blk_INVALID_AUTHORITY)
          \<in> set (ld_block_reasons (d allowed exclusion (Inl f)))"
    if "normalize_allowed_rules (JArr (map JStr allowed)) \<noteq> None \<and> scan_failure_wf f"
    using decide_single_failure[of allowed f] that same by (simp only: subset_iff simp_thms)
  have allowed: "ld_allow (d allowed exclusion scanned) \<longrightarrow>
         (\<exists>sa. scanned = Inr sa
            \<and> (exclusion \<noteq> JUndef \<longrightarrow> (\<exists>x. exclusion = JStr x \<and> x \<in> set (sa_tips sa) \<and> x \<notin> set (sa_ordinary sa)))
            \<and> d allowed exclusion scanned
                = decide_path_lane (lane_input allowed (filter (\<lambda>b. JStr (lane_blocker_id b) \<noteq> exclusion) (sa_blockers sa)))
            \<and> (\<forall>b\<in>set (sa_blockers sa). is_known b))"
    unfolding d_def by (intro impI allowed_admission)
  show ?thesis using blocked named allowed by blast
qed

definition scan_1 :: scan_result where
  "scan_1 = Inr \<lparr>sa_ordinary = [], sa_tips = [''20250101-000000-abcd''],
     sa_blockers = [LB_known ''20250101-000000-abcd'' [''src/a''] [] []]\<rparr>"

definition failed_scan_1 :: lane_failure where
  "failed_scan_1 = \<lparr>lf_delegation_id = Some ''20250101-000000-abcd'', lf_state = Auth_UNKNOWN, lf_reason = Ln_NOT_FOUND\<rparr>"

theorem admission_fails_closed_witness:
  "(\<exists>sa. scan_1 = Inr sa \<and> (\<forall>b\<in>set (sa_blockers sa). is_known b))
   \<and> ld_failures (la_decision (admit_path_lane [''src''] (JStr ''20250101-000000-abcd'') (Inl failed_scan_1))) = [failed_scan_1]"
proof -
  have "ld_allow (la_decision (admit_path_lane [''src''] (JStr ''20250101-000000-abcd'') scan_1))"
    by (simp add: admit_path_lane_def Let_def scan_1_def valid_exclusion_def) code_simp
  moreover have "normalize_allowed_rules (JArr (map JStr [''src''])) \<noteq> None" by code_simp
  moreover have "transaction_id_re ''20250101-000000-abcd''" by code_simp
  then have "scan_failure_wf failed_scan_1"
    by (simp add: scan_failure_wf_def failed_scan_1_def lane_unknown_reasons_def)
  ultimately show ?thesis
    using admission_fails_closed[of "[''src'']" "JStr ''20250101-000000-abcd''" failed_scan_1 scan_1] by blast
qed

subsection \<open>The admission seen by the lifecycle resolver\<close>

text \<open>What every decision keeps: it allows exactly when it has no block reason, and a block always
  leaves a failure, a conflict or an invalid request behind.\<close>

definition consistent_decision :: "lane_decision \<Rightarrow> bool" where
  "consistent_decision d =
     ((ld_allow d \<longrightarrow> ld_failures d = [] \<and> ld_conflicts d = [] \<and> Blk_INVALID_REQUEST \<notin> set (ld_block_reasons d))
      \<and> (\<not> ld_allow d \<longrightarrow> ld_failures d \<noteq> [] \<or> ld_conflicts d \<noteq> [] \<or> Blk_INVALID_REQUEST \<in> set (ld_block_reasons d)))"

definition ids_valid :: "lane_decision \<Rightarrow> bool" where
  "ids_valid d = ((\<forall>f\<in>set (ld_failures d). \<forall>i. lf_delegation_id f = Some i \<longrightarrow> transaction_id_re i)
                  \<and> (\<forall>c\<in>set (ld_conflicts d). transaction_id_re (lk_delegation_id c)))"

definition rules_valid :: "lane_decision \<Rightarrow> bool" where
  "rules_valid d = (length (ld_rules d) \<le> max_allowed_paths \<and> strictly_sorted (ld_rules d)
     \<and> (\<forall>p\<in>set (ld_rules d). \<exists>v r. normalize_allowed_rule v = Some r \<and> p = lr_rule r))"

lemma block_reasons_no_request: "Blk_INVALID_REQUEST \<notin> set (block_reasons cs fs)"
  by (simp add: block_reasons_def)

lemma decide_parsed_consistent: "consistent_decision (decide_parsed rules bs)"
  by (simp add: consistent_decision_def decide_parsed_def Let_def invalid_request_def block_reasons_empty
      block_reasons_no_request)

lemma decide_parsed_ids:
  assumes "\<forall>b\<in>set bs. sound_blocker b"
  shows "ids_valid (decide_parsed rules bs)"
proof -
  have ids: "transaction_id_re i" if "b \<in> set bs" "blocker_id b = Some i" for b i
    using assms that by (auto simp: sound_blocker_def)
  have known: "transaction_id_re i" if "(i, h) \<in> set (known_blockers bs)" for i h
    using that ids[of "Known_Blocker i h" i] by (simp add: known_blockers_mem)
  have dup: "transaction_id_re i" if "1 < count_list (blocker_ids bs) i" for i
  proof -
    have "i \<in> set (blocker_ids bs)" using that by (metis count_notin not_less_zero)
    then show ?thesis using ids by (auto simp: blocker_ids_def map_filter_set)
  qed
  have fs: "transaction_id_re i" if "f \<in> set (authority_failures bs)" "lf_delegation_id f = Some i" for f i
    using that ids[of "Failed_Blocker f" i] dup by (auto simp: authority_failures_set duplicate_failure_def)
  have cs: "transaction_id_re (lk_delegation_id c)" if "c \<in> set (blocker_conflicts rules b)"
      "b \<in> set (known_blockers bs)" for b c
    using that known[of "fst b" "snd b"]
    by (auto simp: blocker_conflicts_mem conflict_entry_def split: option.splits)
  show ?thesis
    using fs cs by (auto simp: ids_valid_def decide_parsed_def Let_def invalid_request_def)
qed

lemma strictly_sorted_iff: "strictly_sorted xs \<longleftrightarrow> sorted xs \<and> distinct xs"
proof -
  have "strictly_sorted xs \<longleftrightarrow> sorted_wrt (<) xs"
    by (induction xs rule: strictly_sorted.induct) (auto simp: byte_compare_order(1) intro: less_trans)
  then show ?thesis by (simp add: strict_sorted_iff)
qed

lemma normalized_rules_valid:
  assumes "normalize_allowed_rules v = Some rules"
  shows "length rules \<le> max_allowed_paths \<and> strictly_sorted (map lr_rule rules)
    \<and> (\<forall>r\<in>set rules. \<exists>w. normalize_allowed_rule w = Some r)"
proof -
  from assms obtain raws m where m: "collect_rules raws [] = Some m" and len: "length raws \<le> max_allowed_paths"
    and rules: "rules = filter (\<lambda>c. \<not> (\<exists>w\<in>set (sort_key lr_rule (map snd m)). subsumes w c)) (sort_key lr_rule (map snd m))"
    by (auto simp: normalize_allowed_rules_def Let_def not_less split: if_splits option.splits)
  have "length acc + length raws \<ge> length m" if "collect_rules raws acc = Some m" for raws acc m
    using that
  proof (induction raws arbitrary: acc)
    case (Cons raw raws)
    then obtain r where "collect_rules raws (AList.update (lr_rule r) r acc) = Some m" by (auto split: option.splits)
    from Cons.IH[OF this] have "length m \<le> length (AList.update (lr_rule r) r acc) + length raws" .
    moreover have "length (AList.update k x al) \<le> Suc (length al)" for k and x :: lane_rule and al
      by (induction al) auto
    from this[of "lr_rule r" r acc] have "length (AList.update (lr_rule r) r acc) \<le> Suc (length acc)" .
    ultimately show ?case by simp
  qed simp
  from this[OF m] have "length m \<le> max_allowed_paths" using len by simp
  moreover have "length rules \<le> length m" unfolding rules by (rule le_trans[OF length_filter_le]) simp
  moreover have "sorted (map lr_rule rules)" unfolding rules by (rule sorted_filter) simp
  moreover have "distinct (map lr_rule rules)"
  proof -
    have "distinct rules" unfolding rules using collected_rules(1)[OF m] by (intro distinct_filter) simp
    moreover have "inj_on lr_rule (set rules)"
      by (rule inj_on_subset[OF collected_rules(3)[OF m]]) (auto simp: rules)
    ultimately show ?thesis by (simp add: distinct_map)
  qed
  moreover have "\<forall>r\<in>set rules. \<exists>w. normalize_allowed_rule w = Some r"
    using collected_rules(2)[OF m] unfolding rules by auto
  ultimately show ?thesis by (simp add: strictly_sorted_iff)
qed

lemma invalid_request_good: "consistent_decision invalid_request" "ids_valid invalid_request" "rules_valid invalid_request"
  by (simp_all add: consistent_decision_def ids_valid_def rules_valid_def invalid_request_def)

lemma decide_good:
  "consistent_decision (decide_path_lane v) \<and> ids_valid (decide_path_lane v) \<and> rules_valid (decide_path_lane v)"
proof -
  have "rules_valid (decide_parsed rules bs)" if "normalize_allowed_rules w = Some rules" for rules bs w
  proof (cases "max_lane_paths < sum_list (map (length \<circ> snd) (sort_key fst (known_blockers bs)))")
    case True
    then show ?thesis using invalid_request_good(3) by (simp add: decide_parsed_def)
  next
    case False
    then have "ld_rules (decide_parsed rules bs) = map lr_rule rules" by (simp add: decide_parsed_def Let_def)
    then show ?thesis using normalized_rules_valid[OF that] unfolding rules_valid_def by (auto, blast)
  qed
  moreover have "ids_valid (decide_parsed rules (map parse_blocker bs))" for rules bs
    by (rule decide_parsed_ids) (simp add: parse_blocker_sound)
  ultimately show ?thesis
    using invalid_request_good decide_parsed_consistent
    by (simp add: decide_path_lane_def split: option.splits)
qed

lemma admitted_good:
  fixes allowed :: "string list" and exclusion :: jv and scanned :: scan_result
  assumes "\<And>f i. scanned = Inl f \<Longrightarrow> lf_delegation_id f = Some i \<Longrightarrow> transaction_id_re i"
  defines "d \<equiv> la_decision (admit_path_lane allowed exclusion scanned)"
  shows "consistent_decision d \<and> ids_valid d \<and> rules_valid d"
proof -
  have fail: "consistent_decision (decision_for_failure allowed f) \<and> ids_valid (decision_for_failure allowed f)
      \<and> rules_valid (decision_for_failure allowed f)" if "scanned = Inl f" for f
    using decide_good assms(1)[OF that]
    by (auto simp: decision_for_failure_def Let_def split: option.splits)
      (auto simp: consistent_decision_def ids_valid_def rules_valid_def)
  have excl: "consistent_decision (block_invalid_exclusion e) \<and> ids_valid (block_invalid_exclusion e)
      \<and> rules_valid (block_invalid_exclusion e)" if "ids_valid e \<and> rules_valid e" for e
    using that by (auto simp: block_invalid_exclusion_def consistent_decision_def ids_valid_def rules_valid_def)
  show ?thesis
    using fail excl decide_good unfolding d_def
    by (cases scanned) (auto simp: admit_path_lane_def Let_def)
qed

lemma transaction_target_id: "transaction_id_re i \<Longrightarrow> target_id_re i"
proof -
  assume t: "transaction_id_re i"
  then have len: "length i = 20" by (simp add: transaction_id_re_def)
  have at: "is_alnum (i ! k) \<or> i ! k = CHR ''-''" if "k < 20" for k
  proof -
    have "is_digit (i ! k)" if "k < 8"
      using t that by (auto simp: transaction_id_re_def list_all_length)
    moreover have "is_digit (i ! k)" if "9 \<le> k" "k < 15"
      using t that by (auto simp: transaction_id_re_def list_all_length dest!: spec[of _ "k - 9"])
    moreover have "is_alnum (i ! k)" if "16 \<le> k"
      using t that \<open>k < 20\<close> by (auto simp: transaction_id_re_def list_all_length dest!: spec[of _ "k - 16"])
    moreover have "i ! k = CHR ''-''" if "k = 8 \<or> k = 15" using t that by (auto simp: transaction_id_re_def)
    ultimately show ?thesis using that by (cases "k < 8"; cases "k = 8"; cases "k < 15"; cases "k = 15") (auto simp: is_alnum_def)
  qed
  have "is_digit (i ! 0)" using t by (auto simp: transaction_id_re_def list_all_length)
  then have hd: "is_alnum (i ! 0)" by (simp add: is_alnum_def)
  obtain c cs where i: "i = c # cs" using len by (cases i) auto
  have "list_all (\<lambda>d. is_alnum d \<or> d \<in> {CHR ''.'', CHR ''_'', CHR '':'', CHR ''-''}) cs"
    unfolding list_all_length
  proof (intro allI impI)
    fix n assume "n < length cs"
    then show "is_alnum (cs ! n) \<or> cs ! n \<in> {CHR ''.'', CHR ''_'', CHR '':'', CHR ''-''}"
      using at[of "Suc n"] len i by auto
  qed
  with hd i len show ?thesis by (simp add: target_id_re_def)
qed

lemma rule_valid_path:
  assumes "normalize_allowed_rule v = Some r" "length (lr_rule r) \<le> 400"
  shows "valid_path (lr_rule r)"
proof (cases "lr_subtree r")
  case True
  let ?b = "lr_base r"
  have rule: "lr_rule r = ?b @ ''/**''" and can: "is_canonical_path ?b"
    using normalize_rule_text[OF assms(1)] True by simp_all
  have ne: "?b \<noteq> []" and "js_trim ?b = ?b" using can unfolding is_canonical_path_def by (blast, metis)
  then have "\<not> is_js_space (hd ?b)" by (simp add: js_trim_fixed)
  then have "js_trim (lr_rule r) = lr_rule r"
    using ne by (simp add: js_trim_fixed rule is_js_space_def)
  then have trim: "lr_rule r = js_trim (lr_rule r)" by (rule sym)
  have cut: "drop_last 3 (lr_rule r) = ?b"
    using drop_last_append[of "''/**''" ?b] by (simp add: rule eval_nat_numeral)
  have ends: "ends_with ''/**'' (lr_rule r)" by (simp add: rule ends_with_self)
  have b: "\<not> posix_is_absolute ?b" "CHR 0x5C \<notin> set ?b" "CHR 0x00 \<notin> set ?b"
    using can unfolding is_canonical_path_def by blast+
  then have rel: "\<not> posix_is_absolute (lr_rule r)"
    using ne by (cases ?b) (simp_all add: posix_is_absolute_def starts_with_def rule)
  have chars: "lr_rule r \<noteq> []" "CHR 0x5C \<notin> set (lr_rule r)" "CHR 0x00 \<notin> set (lr_rule r)"
    using b by (simp_all add: rule)
  show ?thesis
    unfolding valid_path_def Let_def if_P[OF ends] cut
    using can assms(2) trim rel chars unfolding is_canonical_path_def by blast
next
  case False
  then have rule: "lr_rule r = lr_base r" and ends: "\<not> ends_with ''/**'' (lr_base r)" and can: "is_canonical_path (lr_base r)"
    using normalize_rule_text[OF assms(1)] by metis+
  show ?thesis
    using can unfolding rule valid_path_def is_canonical_path_def Let_def if_not_P[OF ends] by blast
qed

text \<open>C8: The resolver and the admission agree. For a development intent (DEV), the canonical resolver
  lets work continue on the snapshot of an admission exactly when the admission allows the lane; every
  other admission resolves to a block, a storage report or a quarantine. The scan must name valid
  delegation ids, the blocker ids and the blockers must be at most 10000, and no normalised rule may be
  longer than the resolver's 400 characters: an admitted rule of 401 or 402 characters makes an
  invalid snapshot instead.\<close>

theorem admission_resolves_to_allow:
  fixes allowed :: "string list" and exclusion :: jv and scanned :: scan_result
  defines "a \<equiv> admit_path_lane allowed exclusion scanned"
  assumes ids: "list_all transaction_id_re (la_ordinary a @ la_tips a)"
    and failure: "\<And>f i. scanned = Inl f \<Longrightarrow> lf_delegation_id f = Some i \<Longrightarrow> transaction_id_re i"
    and bounds: "list_all (\<lambda>p. length p \<le> 400) (ld_rules (la_decision a))"
      "length (la_ordinary a @ la_tips a) \<le> 10000" "length (la_blockers a) \<le> 10000"
  defines "r \<equiv> observed (snapshot_from_lane_admission a Intent_DEV)"
  shows "(r = Do_CONTINUE_DEVELOPMENT \<longleftrightarrow> ld_allow (la_decision a))
    \<and> r \<in> {Do_CONTINUE_DEVELOPMENT, Do_BLOCK_OVERLAPPING_PATHS, Do_REPORT_STORAGE_FAILURE, Do_QUARANTINE_CORRUPT_AUTHORITY}"
proof -
  let ?d = "la_decision a" and ?s = "snapshot_from_lane_admission a Intent_DEV"
  have good: "consistent_decision ?d" "ids_valid ?d" "rules_valid ?d"
    using admitted_good[of scanned allowed exclusion] failure unfolding a_def by blast+
  have "target_id_re (exact_id a)"
  proof -
    have "target_id_re ''project-authority''"
      by (simp add: target_id_re_def is_alnum_def is_digit_def is_lower_def is_upper_def)
    moreover have "target_id_re i" if "ld_failures ?d = f # fs" "lf_delegation_id f = Some i" for f fs i
      using that good(2) transaction_target_id by (auto simp: ids_valid_def)
    moreover have "target_id_re (lk_delegation_id c)" if "ld_conflicts ?d = c # cs" for c cs
      using that good(2) transaction_target_id by (auto simp: ids_valid_def)
    ultimately show ?thesis
      using ids transaction_target_id
      by (auto simp: exact_id_def Let_def split: list.splits option.splits)
  qed
  moreover have "hash_re (la_hash a)" by (simp add: a_def admit_path_lane_def Let_def digest_hash_re)
  moreover have "length (ld_rules ?d) \<le> 500" "strictly_sorted (ld_rules ?d)" "list_all valid_path (ld_rules ?d)"
    using good(3) bounds(1) rule_valid_path
    by (auto simp: rules_valid_def max_allowed_paths_def list_all_iff)
  moreover have "card (set (la_ordinary a @ la_tips a)) \<le> 10000"
    using bounds(2) card_length le_trans by blast
  ultimately have wf: "wf_snapshot ?s"
    using bounds(3) by (simp add: snapshot_from_lane_admission_def Let_def projection_wf)
  have "r = (if ld_failures ?d \<noteq> [] then
        if \<exists>f\<in>set (ld_failures ?d). lf_reason f = Ln_STORAGE_FAILURE then Do_REPORT_STORAGE_FAILURE
        else Do_QUARANTINE_CORRUPT_AUTHORITY
      else if Blk_INVALID_REQUEST \<in> set (ld_block_reasons ?d) \<or> ld_conflicts ?d \<noteq> []
      then Do_BLOCK_OVERLAPPING_PATHS else Do_CONTINUE_DEVELOPMENT)"
    unfolding r_def observed_resolve[OF wf]
    by (auto simp: snapshot_from_lane_admission_def Let_def resolver_defs)
  then show ?thesis using good(1) by (auto simp: consistent_decision_def)
qed

lemma admit_docs:
  "la_decision (admit_path_lane [''docs''] JUndef scan_1)
     = decide_path_lane (lane_input [''docs''] [LB_known ''20250101-000000-abcd'' [''src/a''] [] []])"
  "la_ordinary (admit_path_lane [''docs''] JUndef scan_1) = []"
  "la_tips (admit_path_lane [''docs''] JUndef scan_1) = [''20250101-000000-abcd'']"
  "la_blockers (admit_path_lane [''docs''] JUndef scan_1) = [LB_known ''20250101-000000-abcd'' [''src/a''] [] []]"
  by (simp_all add: admit_path_lane_def scan_1_def Let_def)

lemma decide_docs:
  "ld_allow (decide_path_lane (lane_input [''docs''] [LB_known ''20250101-000000-abcd'' [''src/a''] [] []]))"
  "ld_rules (decide_path_lane (lane_input [''docs''] [LB_known ''20250101-000000-abcd'' [''src/a''] [] []])) = [''docs'']"
  by code_simp+

theorem admission_resolves_to_allow_witness:
  "observed (snapshot_from_lane_admission (admit_path_lane [''docs''] JUndef scan_1) Intent_DEV) = Do_CONTINUE_DEVELOPMENT"
proof -
  have "transaction_id_re ''20250101-000000-abcd''" by code_simp
  then show ?thesis
    using admission_resolves_to_allow[of "[''docs'']" JUndef scan_1]
    by (simp add: admit_docs decide_docs) (simp add: scan_1_def)
qed

end
