(* ===== verification/Delegation_State.thy ===== *)
theory Delegation_State
  imports Js_Value
begin

section \<open>Review state of the latest delegation (core/delegation-state.ts)\<close>

text \<open>
  The session mirror of the latest worker delegation: its review status and the hashes of the
  current and of the reviewed diff. The operations are the transitions of the source, each with its
  refusals; the step relation below runs them in any order, with a log of the diffs that were
  accepted, and the invariants are proved over everything it reaches.
\<close>

datatype review_status = PENDING_REVIEW | REVIEWED | STALE

primrec review_status_text :: "review_status \<Rightarrow> string" where
  "review_status_text PENDING_REVIEW = ''PENDING_REVIEW''"
| "review_status_text REVIEWED = ''REVIEWED''"
| "review_status_text STALE = ''STALE''"

definition review_statuses :: "review_status list" where
  "review_statuses = [PENDING_REVIEW, REVIEWED, STALE]"

interpretation review_wire: wire_enum review_statuses review_status_text
proof
  show "e \<in> set review_statuses" for e by (cases e) (simp_all add: review_statuses_def)
  show "distinct (map review_status_text review_statuses)" by (simp add: review_statuses_def)
qed

record dstate =
  latest_id :: "string option"
  status :: review_status
  current_diff :: "string option"
  reviewed_diff :: "string option"
  blocked_writes :: int
  updated_at :: string

definition max_id_length :: nat where "max_id_length = 64"
definition max_hash_length :: nat where "max_hash_length = 128"
definition max_updated_at :: nat where "max_updated_at = 32"
definition max_summary :: nat where "max_summary = 160"
definition max_blocked_writes :: int where "max_blocked_writes = 999"

definition empty_dstate :: dstate where
  "empty_dstate = \<lparr>latest_id = None, status = PENDING_REVIEW, current_diff = None, reviewed_diff = None,
     blocked_writes = 0, updated_at = []\<rparr>"

definition has_pending_review :: "dstate \<Rightarrow> bool" where
  "has_pending_review s = (latest_id s \<noteq> None \<and> status s = PENDING_REVIEW)"

definition has_stale_review :: "dstate \<Rightarrow> bool" where
  "has_stale_review s = (latest_id s \<noteq> None \<and> status s = STALE)"

definition blocks_next :: "dstate \<Rightarrow> bool" where
  "blocks_next s = (latest_id s \<noteq> None \<and> (status s = PENDING_REVIEW \<or> status s = STALE))"

definition blocks_verify :: "dstate \<Rightarrow> bool" where
  "blocks_verify s = blocks_next s"

datatype review_target = Target_delegation | Target_verify

definition review_block_reason :: "dstate \<Rightarrow> review_target \<Rightarrow> string option" where
  "review_block_reason s t =
     (case latest_id s of None \<Rightarrow> None
      | Some i \<Rightarrow>
          if \<not> blocks_next s then None
          else Some ((case t of Target_delegation \<Rightarrow> ''Starting a new worker delegation''
                      | Target_verify \<Rightarrow> ''VERIFY mode / final gate verification'')
                 @ '' is blocked while delegation '' @ i @ '' is '' @ review_status_text (status s)
                 @ ''; query workbench_delegation_status and follow its durable next action (review only when durable status is PENDING_REVIEW)''))"

subsection \<open>Transitions\<close>

datatype ds_error =
    Bad_id | Bad_diff_hash | Blocked_by_review | Not_the_blocking_delegation | Not_the_stale_delegation
  | No_delegation | Already_reviewed | No_current_diff | Not_reviewed | Wrong_delegation | Wrong_diff_hash

record record_input =
  in_id :: string
  in_diff :: string
  in_now :: string

text \<open>The state every accepted new delegation starts in.\<close>

definition fresh_delegation :: "dstate \<Rightarrow> string \<Rightarrow> string \<Rightarrow> string \<Rightarrow> dstate" where
  "fresh_delegation s i h now = \<lparr>latest_id = Some i, status = PENDING_REVIEW, current_diff = Some h,
     reviewed_diff = None, blocked_writes = blocked_writes s, updated_at = now\<rparr>"

definition valid_hash :: "string \<Rightarrow> bool" where
  "valid_hash h = (h \<noteq> [] \<and> length h \<le> max_hash_length)"

definition record_delegation :: "dstate \<Rightarrow> record_input \<Rightarrow> ds_error + dstate" where
  "record_delegation s x =
     (let i = js_trim (in_id x); h = js_trim (in_diff x) in
      if i = [] \<or> length i > max_id_length then Inl Bad_id
      else if \<not> valid_hash h then Inl Bad_diff_hash
      else if blocks_next s then Inl Blocked_by_review
      else Inr (fresh_delegation s i h (in_now x)))"

definition record_repair :: "dstate \<Rightarrow> record_input \<Rightarrow> string \<Rightarrow> ds_error + dstate" where
  "record_repair s x repair_of =
     (let prior = js_trim repair_of; i = js_trim (in_id x); h = js_trim (in_diff x) in
      if prior = [] \<or> latest_id s \<noteq> Some prior \<or> \<not> blocks_next s then Inl Not_the_blocking_delegation
      else if i = [] \<or> i = prior \<or> length i > max_id_length then Inl Bad_id
      else if \<not> valid_hash h then Inl Bad_diff_hash
      else Inr (fresh_delegation s i h (in_now x)))"

definition record_project_admitted :: "dstate \<Rightarrow> record_input \<Rightarrow> ds_error + dstate" where
  "record_project_admitted s x =
     (let i = js_trim (in_id x); h = js_trim (in_diff x) in
      if i = [] \<or> length i > max_id_length \<or> latest_id s = Some i then Inl Bad_id
      else if \<not> valid_hash h then Inl Bad_diff_hash
      else Inr (fresh_delegation s i h (in_now x)))"

definition record_successor :: "dstate \<Rightarrow> record_input \<Rightarrow> string \<Rightarrow> ds_error + dstate" where
  "record_successor s x finalized_prior =
     (let prior = js_trim finalized_prior; i = js_trim (in_id x); h = js_trim (in_diff x) in
      if prior = [] \<or> latest_id s \<noteq> Some prior \<or> status s \<noteq> STALE then Inl Not_the_stale_delegation
      else if i = [] \<or> i = prior \<or> length i > max_id_length then Inl Bad_id
      else if \<not> valid_hash h then Inl Bad_diff_hash
      else Inr (fresh_delegation s i h (in_now x)))"

definition mark_reviewed :: "dstate \<Rightarrow> string \<Rightarrow> ds_error + dstate" where
  "mark_reviewed s now =
     (if latest_id s = None then Inl No_delegation
      else if status s \<noteq> PENDING_REVIEW \<and> status s \<noteq> STALE then Inl Already_reviewed
      else if current_diff s = None then Inl No_current_diff
      else Inr (s\<lparr>status := REVIEWED, reviewed_diff := current_diff s, updated_at := now\<rparr>))"

definition mark_semantic_accepted :: "dstate \<Rightarrow> string \<Rightarrow> string \<Rightarrow> string \<Rightarrow> ds_error + dstate" where
  "mark_semantic_accepted s delegation expected now =
     (let i = js_trim delegation; h = js_trim expected in
      if latest_id s = None \<or> latest_id s \<noteq> Some i then Inl Wrong_delegation
      else if h = [] \<or> current_diff s \<noteq> Some h then Inl Wrong_diff_hash
      else mark_reviewed s now)"

definition demote_reviewed :: "dstate \<Rightarrow> string \<Rightarrow> ds_error + dstate" where
  "demote_reviewed s now =
     (if latest_id s = None then Inl No_delegation
      else if status s \<noteq> REVIEWED then Inl Not_reviewed
      else Inr (s\<lparr>status := PENDING_REVIEW, reviewed_diff := None, updated_at := now\<rparr>))"

definition observe_diff :: "dstate \<Rightarrow> string \<Rightarrow> string \<Rightarrow> dstate" where
  "observe_diff s new_hash now =
     (let h = js_trim new_hash in
      if latest_id s = None then s
      else if h = [] \<or> current_diff s = Some h then s
      else s\<lparr>status := (if status s = REVIEWED then STALE
                        else if status s = STALE \<and> reviewed_diff s = Some h then REVIEWED else status s),
             current_diff := Some h, updated_at := now\<rparr>)"

definition record_blocked_write :: "dstate \<Rightarrow> string \<Rightarrow> dstate" where
  "record_blocked_write s now =
     s\<lparr>blocked_writes := min (blocked_writes s + 1) max_blocked_writes, updated_at := now\<rparr>"

subsection \<open>Persistence\<close>

definition opt_value :: "string option \<Rightarrow> jv" where
  "opt_value x = (case x of None \<Rightarrow> JUndef | Some s \<Rightarrow> JStr s)"

definition serialize_dstate :: "dstate \<Rightarrow> jv" where
  "serialize_dstate s = JObj
     [(''latestId'', opt_value (latest_id s)), (''status'', JStr (review_status_text (status s))),
      (''currentDiffHash'', opt_value (current_diff s)), (''reviewedDiffHash'', opt_value (reviewed_diff s)),
      (''blockedWriteAttempts'', JNum (JInt (blocked_writes s))), (''updatedAt'', JStr (updated_at s))]"

text \<open>The properties of any object value: an array has none of the names read here.\<close>

fun object_fields :: "jv \<Rightarrow> fields option" where
  "object_fields (JObj f) = Some f"
| "object_fields (JArr vs) = Some []"
| "object_fields (JExotic k) = Some []"
| "object_fields _ = None"

definition bounded_hash :: "jv \<Rightarrow> string option" where
  "bounded_hash v =
     (case as_string v of None \<Rightarrow> None
      | Some s \<Rightarrow> if js_trim s = [] then None else Some (take max_hash_length (js_trim s)))"

fun integer_value :: "jv \<Rightarrow> int option" where
  "integer_value (JNum (JInt i)) = Some i"
| "integer_value _ = None"

definition binding_ok :: "review_status \<Rightarrow> string \<Rightarrow> string option \<Rightarrow> bool" where
  "binding_ok st cur rvd =
     (case st of REVIEWED \<Rightarrow> rvd = Some cur
      | PENDING_REVIEW \<Rightarrow> rvd = None
      | STALE \<Rightarrow> rvd \<noteq> None \<and> rvd \<noteq> Some cur)"

definition restore_dstate :: "jv \<Rightarrow> dstate" where
  "restore_dstate raw =
     (case object_fields raw of None \<Rightarrow> empty_dstate
      | Some f \<Rightarrow>
          (case (parse_enum review_statuses review_status_text (get_prop f ''status''),
                 integer_value (get_prop f ''blockedWriteAttempts'')) of
             (Some st, Some n) \<Rightarrow>
               let i = (case as_string (get_prop f ''latestId'') of Some s \<Rightarrow> js_trim s | None \<Rightarrow> []);
                   blocked = min (max n 0) max_blocked_writes;
                   cur = bounded_hash (get_prop f ''currentDiffHash'');
                   rvd = bounded_hash (get_prop f ''reviewedDiffHash'');
                   upd = (case as_string (get_prop f ''updatedAt'') of Some s \<Rightarrow> take max_updated_at s | None \<Rightarrow> [])
               in if i = [] \<or> length i > max_id_length then empty_dstate
                  else (case cur of None \<Rightarrow> empty_dstate
                        | Some c \<Rightarrow>
                            if \<not> binding_ok st c rvd then empty_dstate
                            else \<lparr>latest_id = Some i, status = st, current_diff = Some c, reviewed_diff = rvd,
                                  blocked_writes = blocked, updated_at = upd\<rparr>)
           | _ \<Rightarrow> empty_dstate))"

record ds_entry =
  entry_type :: string
  custom_type :: "string option"
  entry_data :: jv

definition load_step :: "dstate \<Rightarrow> ds_entry \<Rightarrow> dstate" where
  "load_step s e =
     (if entry_type e \<noteq> ''custom'' \<or> custom_type e \<noteq> Some ''workbench-delegation-state'' then s
      else let r = restore_dstate (entry_data e) in if latest_id r \<noteq> None then r else s)"

definition load_dstate :: "ds_entry list \<Rightarrow> dstate" where
  "load_dstate es = foldl load_step empty_dstate es"

definition compact_summary :: "dstate \<Rightarrow> string" where
  "compact_summary s =
     (case latest_id s of None \<Rightarrow> ''DELEGATION none''
      | Some i \<Rightarrow>
          take max_summary (join_with '' ''
            ([''DELEGATION '' @ i @ '' '' @ review_status_text (status s)]
             @ (case current_diff s of Some h \<Rightarrow> if h = [] then [] else [''diff '' @ take 12 h] | None \<Rightarrow> [])
             @ (if blocked_writes s > 0 then [''blocked-writes '' @ int_text (blocked_writes s)] else []))))"

subsection \<open>Every run of the transitions\<close>

text \<open>
  A run carries a log of the pairs (delegation, diff) that a review accepted. A refused operation
  leaves the state as it was, so only accepted ones are steps.
\<close>

type_synonym accepted = "(string \<times> string) set"

inductive ds_step :: "dstate \<times> accepted \<Rightarrow> dstate \<times> accepted \<Rightarrow> bool" where
  ds_record: "record_delegation s x = Inr s' \<Longrightarrow> ds_step (s, l) (s', l)"
| ds_repair: "record_repair s x p = Inr s' \<Longrightarrow> ds_step (s, l) (s', l)"
| ds_admitted: "record_project_admitted s x = Inr s' \<Longrightarrow> ds_step (s, l) (s', l)"
| ds_successor: "record_successor s x p = Inr s' \<Longrightarrow> ds_step (s, l) (s', l)"
| ds_review: "mark_reviewed s now = Inr s' \<Longrightarrow> latest_id s = Some i \<Longrightarrow> current_diff s = Some h \<Longrightarrow>
    ds_step (s, l) (s', insert (i, h) l)"
| ds_accept: "mark_semantic_accepted s d e now = Inr s' \<Longrightarrow> ds_step (s, l) (s', insert (js_trim d, js_trim e) l)"
| ds_demote: "demote_reviewed s now = Inr s' \<Longrightarrow> ds_step (s, l) (s', l)"
| ds_observe: "ds_step (s, l) (observe_diff s h now, l)"
| ds_blocked: "ds_step (s, l) (record_blocked_write s now, l)"

inductive_cases ds_stepE: "ds_step (s, l) (s', l')"

inductive ds_reachable :: "dstate \<Rightarrow> accepted \<Rightarrow> bool" where
  ds_init: "ds_reachable empty_dstate {}"
| ds_next: "ds_reachable s l \<Longrightarrow> ds_step (s, l) (s', l') \<Longrightarrow> ds_reachable s' l'"

definition ds_inv :: "dstate \<Rightarrow> accepted \<Rightarrow> bool" where
  "ds_inv s l =
     (0 \<le> blocked_writes s \<and> blocked_writes s \<le> max_blocked_writes
      \<and> (case latest_id s of
           None \<Rightarrow> status s = PENDING_REVIEW \<and> current_diff s = None \<and> reviewed_diff s = None
         | Some i \<Rightarrow> i \<noteq> [] \<and> js_trim i = i \<and> length i \<le> max_id_length
             \<and> (\<exists>h. current_diff s = Some h \<and> h \<noteq> [] \<and> js_trim h = h \<and> binding_ok (status s) h (reviewed_diff s))
             \<and> (\<forall>h. reviewed_diff s = Some h \<longrightarrow> (i, h) \<in> l \<and> h \<noteq> [] \<and> js_trim h = h)))"

lemmas transition_defs = record_delegation_def record_repair_def record_project_admitted_def
  record_successor_def fresh_delegation_def mark_reviewed_def mark_semantic_accepted_def
  demote_reviewed_def Let_def

lemma ds_inv_fresh:
  "ds_inv s l \<Longrightarrow> js_trim i = i \<Longrightarrow> i \<noteq> [] \<Longrightarrow> length i \<le> max_id_length \<Longrightarrow> js_trim h = h \<Longrightarrow> h \<noteq> [] \<Longrightarrow>
     ds_inv (fresh_delegation s i h now) l"
  by (simp add: ds_inv_def fresh_delegation_def binding_ok_def)

lemma ds_inv_reviewed:
  "ds_inv s l \<Longrightarrow> mark_reviewed s now = Inr s' \<Longrightarrow> latest_id s = Some i \<Longrightarrow> current_diff s = Some h \<Longrightarrow>
     ds_inv s' (insert (i, h) l)"
  by (auto simp: ds_inv_def mark_reviewed_def binding_ok_def split: if_splits)

lemma ds_inv_observe: "ds_inv s l \<Longrightarrow> ds_inv (observe_diff s h now) l"
  by (cases "latest_id s"; cases "status s")
    (auto simp: ds_inv_def observe_diff_def binding_ok_def Let_def split: if_splits)

lemma ds_inv_step: "ds_step (s, l) (s', l') \<Longrightarrow> ds_inv s l \<Longrightarrow> ds_inv s' l'"
proof (erule ds_stepE)
  fix x assume inv: "ds_inv s l"
  { assume "record_delegation s x = Inr s'" "l' = l"
    with inv show "ds_inv s' l'"
      by (auto simp: record_delegation_def Let_def valid_hash_def not_less intro!: ds_inv_fresh split: if_splits) }
  { fix p assume "record_repair s x p = Inr s'" "l' = l"
    with inv show "ds_inv s' l'"
      by (auto simp: record_repair_def Let_def valid_hash_def not_less intro!: ds_inv_fresh split: if_splits) }
  { assume "record_project_admitted s x = Inr s'" "l' = l"
    with inv show "ds_inv s' l'"
      by (auto simp: record_project_admitted_def Let_def valid_hash_def not_less intro!: ds_inv_fresh split: if_splits) }
  { fix p assume "record_successor s x p = Inr s'" "l' = l"
    with inv show "ds_inv s' l'"
      by (auto simp: record_successor_def Let_def valid_hash_def not_less intro!: ds_inv_fresh split: if_splits) }
next
  fix now i h
  assume "ds_inv s l" "mark_reviewed s now = Inr s'" "latest_id s = Some i" "current_diff s = Some h"
    "l' = insert (i, h) l"
  then show "ds_inv s' l'" by (simp add: ds_inv_reviewed)
next
  fix d e now
  assume "ds_inv s l" "mark_semantic_accepted s d e now = Inr s'" "l' = insert (js_trim d, js_trim e) l"
  then show "ds_inv s' l'"
    by (auto simp: mark_semantic_accepted_def Let_def intro: ds_inv_reviewed split: if_splits)
next
  fix now assume "ds_inv s l" "demote_reviewed s now = Inr s'" "l' = l"
  then show "ds_inv s' l'"
    by (auto simp: ds_inv_def demote_reviewed_def binding_ok_def split: if_splits option.splits review_status.splits)
next
  fix h now assume "ds_inv s l" "s' = observe_diff s h now" "l' = l"
  then show "ds_inv s' l'" by (simp add: ds_inv_observe)
next
  fix now assume "ds_inv s l" "s' = record_blocked_write s now" "l' = l"
  then show "ds_inv s' l'" by (auto simp: ds_inv_def record_blocked_write_def max_blocked_writes_def split: option.splits)
qed

lemma ds_reachable_inv: "ds_reachable s l \<Longrightarrow> ds_inv s l"
  by (induction rule: ds_reachable.induct)
    (auto simp: ds_inv_def empty_dstate_def max_blocked_writes_def dest: ds_inv_step[unfolded ds_inv_def])

subsection \<open>What the states promise\<close>

text \<open>C9: The hash bindings of the module's header hold in every reachable state: REVIEWED binds the
  reviewed diff to the current one, PENDING_REVIEW carries no reviewed diff, STALE carries one that
  differs from the current diff; a state without a delegation carries nothing, and the blocked-write
  counter stays within its bound. A reviewed diff, in whichever state it is carried, was accepted for
  exactly this delegation by a review or a semantic ACCEPT earlier in the run.\<close>

theorem review_bindings_hold:
  assumes "ds_reachable s l"
  shows "(latest_id s = None \<longrightarrow> current_diff s = None \<and> reviewed_diff s = None \<and> \<not> blocks_next s)
    \<and> (latest_id s \<noteq> None \<longrightarrow> current_diff s \<noteq> None
        \<and> (status s = REVIEWED \<longleftrightarrow> reviewed_diff s = current_diff s)
        \<and> (status s = PENDING_REVIEW \<longleftrightarrow> reviewed_diff s = None)
        \<and> (status s = STALE \<longleftrightarrow> reviewed_diff s \<noteq> None \<and> reviewed_diff s \<noteq> current_diff s))
    \<and> (\<forall>h. reviewed_diff s = Some h \<longrightarrow> (\<exists>i. latest_id s = Some i \<and> (i, h) \<in> l))
    \<and> 0 \<le> blocked_writes s \<and> blocked_writes s \<le> 999"
  using ds_reachable_inv[OF assms]
  by (cases "latest_id s"; cases "status s")
    (auto simp: ds_inv_def binding_ok_def blocks_next_def max_blocked_writes_def)

definition first_input :: record_input where
  "first_input = \<lparr>in_id = ''d1'', in_diff = ''h1'', in_now = ''t''\<rparr>"

lemma reachable_first:
  "ds_reachable \<lparr>latest_id = Some ''d1'', status = PENDING_REVIEW, current_diff = Some ''h1'',
     reviewed_diff = None, blocked_writes = 0, updated_at = ''t''\<rparr> {}"
proof (rule ds_next[OF ds_init ds_record])
  show "record_delegation empty_dstate first_input = Inr \<lparr>latest_id = Some ''d1'', status = PENDING_REVIEW,
     current_diff = Some ''h1'', reviewed_diff = None, blocked_writes = 0, updated_at = ''t''\<rparr>"
    by code_simp
qed

definition reviewed_state :: dstate where
  "reviewed_state = \<lparr>latest_id = Some ''d1'', status = REVIEWED, current_diff = Some ''h1'',
     reviewed_diff = Some ''h1'', blocked_writes = 0, updated_at = ''u''\<rparr>"

lemma reachable_reviewed: "ds_reachable reviewed_state {(''d1'', ''h1'')}"
  by (rule ds_next[OF reachable_first ds_review[where now = "''u''"]]) (simp_all add: mark_reviewed_def reviewed_state_def)

lemma reachable_stale:
  "ds_reachable (observe_diff reviewed_state ''h2'' ''v'') {(''d1'', ''h1'')}"
  by (rule ds_next[OF reachable_reviewed ds_observe])

text \<open>A reviewed delegation whose diff has moved: the stale state still carries the accepted diff.\<close>

theorem review_bindings_hold_witness:
  "status (observe_diff reviewed_state ''h2'' ''v'') = STALE
   \<and> reviewed_diff (observe_diff reviewed_state ''h2'' ''v'') = Some ''h1''
   \<and> (\<exists>i. latest_id (observe_diff reviewed_state ''h2'' ''v'') = Some i \<and> (i, ''h1'') \<in> {(''d1'', ''h1'')})"
proof -
  have "status (observe_diff reviewed_state ''h2'' ''v'') = STALE
    \<and> reviewed_diff (observe_diff reviewed_state ''h2'' ''v'') = Some ''h1''"
    by code_simp
  with review_bindings_hold[OF reachable_stale] show ?thesis by blast
qed

text \<open>VERIFY and the next ordinary delegation are open only over a reviewed diff: in every reachable
  state with a delegation, an unblocked VERIFY means that exactly the current diff of exactly that
  delegation was accepted by a review or a semantic ACCEPT earlier in the run, however the diff
  moved in between; and an ordinary new delegation is accepted only there.\<close>

theorem no_verify_without_review:
  assumes "ds_reachable s l" "latest_id s = Some i"
    "\<not> blocks_verify s \<or> (\<exists>x s'. record_delegation s x = Inr s')"
  shows "\<exists>h. current_diff s = Some h \<and> (i, h) \<in> l"
proof -
  have "\<not> blocks_next s"
    using assms(3) by (auto simp: blocks_verify_def record_delegation_def Let_def split: if_splits)
  then have "status s = REVIEWED" using assms(2) by (cases "status s") (auto simp: blocks_next_def)
  with ds_reachable_inv[OF assms(1)] assms(2) show ?thesis by (auto simp: ds_inv_def binding_ok_def)
qed

theorem no_verify_without_review_witness:
  "\<exists>h. (''d1'', h) \<in> {(''d1'', ''h1'')}"
proof -
  from no_verify_without_review[OF reachable_reviewed, of "''d1''"] show ?thesis
    by (simp add: blocks_verify_def blocks_next_def reviewed_state_def)
qed

lemma binding_ok_REVIEWED [simp]: "binding_ok REVIEWED c r = (r = Some c)"
  by (simp add: binding_ok_def)

lemma bounded_hash_opt:
  "\<forall>h. x = Some h \<longrightarrow> h \<noteq> [] \<and> js_trim h = h \<and> length h \<le> max_hash_length \<Longrightarrow> bounded_hash (opt_value x) = x"
  by (cases x) (auto simp: bounded_hash_def opt_value_def)

text \<open>A state survives the session file: every reachable state whose diff hashes and timestamp fit
  the restore bounds is restored from its own serialisation unchanged, so a restart can neither
  lose a pending review nor forge a passed one.\<close>

theorem dstate_roundtrip:
  assumes "ds_reachable s l" "latest_id s \<noteq> None" "length (updated_at s) \<le> 32"
    "\<forall>h. current_diff s = Some h \<or> reviewed_diff s = Some h \<longrightarrow> length h \<le> 128"
  shows "restore_dstate (serialize_dstate s) = s"
proof -
  obtain i where i: "latest_id s = Some i" using assms(2) by blast
  note inv = ds_reachable_inv[OF assms(1), unfolded ds_inv_def i, simplified]
  from inv obtain h where h: "current_diff s = Some h" "binding_ok (status s) h (reviewed_diff s)" by blast
  have "bounded_hash (opt_value (current_diff s)) = current_diff s"
    "bounded_hash (opt_value (reviewed_diff s)) = reviewed_diff s"
    using inv assms(4) by (auto intro!: bounded_hash_opt simp: max_hash_length_def)
  moreover have "take max_updated_at (updated_at s) = updated_at s" using assms(3) by (simp add: max_updated_at_def)
  moreover have "min (max (blocked_writes s) 0) max_blocked_writes = blocked_writes s" using inv by simp
  ultimately show ?thesis
    using inv h i
    by (simp add: restore_dstate_def serialize_dstate_def Let_def)
      (simp add: opt_value_def)
qed

theorem dstate_roundtrip_witness:
  "\<exists>s. blocks_verify s \<and> restore_dstate (serialize_dstate s) = s"
proof -
  let ?s = "\<lparr>latest_id = Some ''d1'', status = PENDING_REVIEW, current_diff = Some ''h1'',
     reviewed_diff = None, blocked_writes = 0, updated_at = ''t''\<rparr>"
  have "blocks_verify ?s" by (simp add: blocks_verify_def blocks_next_def)
  with dstate_roundtrip[OF reachable_first] show ?thesis by (intro exI[of _ ?s]) simp
qed

text \<open>The bound is needed: the observed hash is not bounded, so a stale review whose two hashes agree
  on their first 128 characters is dropped by the restore, which unblocks VERIFY.\<close>

lemma long_hash_drops_stale_review:
  fixes h :: string
  defines "h \<equiv> replicate 128 (CHR ''a'')"
  defines "s \<equiv> \<lparr>latest_id = Some ''d1'', status = STALE, current_diff = Some (h @ ''b''), reviewed_diff = Some h,
     blocked_writes = 0, updated_at = ''t''\<rparr>"
  shows "blocks_verify s" "restore_dstate (serialize_dstate s) = empty_dstate"
proof -
  show "blocks_verify s" by (simp add: s_def blocks_verify_def blocks_next_def)
  have "\<not> is_js_space (CHR ''a'')" "\<not> is_js_space (CHR ''b'')" "\<not> is_js_space (CHR ''d'')"
    "\<not> is_js_space (CHR ''1'')" by code_simp+
  then have "js_trim h = h" "js_trim (h @ ''b'') = h @ ''b''" "js_trim ''d1'' = ''d1''"
    by (simp_all add: js_trim_fixed h_def)
  moreover have "length h = max_hash_length" by (simp add: h_def max_hash_length_def)
  ultimately have "bounded_hash (JStr h) = Some h" "bounded_hash (JStr (h @ ''b'')) = Some h"
    by (auto simp: bounded_hash_def h_def max_hash_length_def)
  moreover have "\<not> binding_ok STALE h (Some h)" by (simp add: binding_ok_def)
  moreover have "parse_enum review_statuses review_status_text (JStr ''STALE'') = Some STALE"
    using review_wire.parse_text[of STALE] by simp
  ultimately show "restore_dstate (serialize_dstate s) = empty_dstate"
    by (simp add: restore_dstate_def serialize_dstate_def Let_def opt_value_def s_def)
qed

lemma restore_cases:
  obtains "restore_dstate v = empty_dstate"
  | i c where "latest_id (restore_dstate v) = Some i" "i \<noteq> []" "length i \<le> max_id_length"
      "current_diff (restore_dstate v) = Some c" "length c \<le> max_hash_length"
      "binding_ok (status (restore_dstate v)) c (reviewed_diff (restore_dstate v))"
      "0 \<le> blocked_writes (restore_dstate v)" "blocked_writes (restore_dstate v) \<le> max_blocked_writes"
proof (cases "restore_dstate v = empty_dstate")
  case False
  have len: "length c \<le> max_hash_length" if "bounded_hash w = Some c" for w c
    using that by (auto simp: bounded_hash_def split: option.splits if_splits)
  from False that(2) show ?thesis
    by (auto simp: restore_dstate_def Let_def len max_blocked_writes_def not_less split: option.splits if_splits)
qed (use that in blast)

text \<open>Restoring is closed under hostile input: whatever the session entries hold, the loaded state is
  empty or satisfies the bindings and bounds, and an entry that does not restore to a delegation can
  never clear one that did.\<close>

theorem load_is_closed:
  shows "(load_dstate es = empty_dstate
     \<or> (\<exists>i c. latest_id (load_dstate es) = Some i \<and> i \<noteq> [] \<and> length i \<le> 64
          \<and> current_diff (load_dstate es) = Some c \<and> length c \<le> 128
          \<and> binding_ok (status (load_dstate es)) c (reviewed_diff (load_dstate es))
          \<and> 0 \<le> blocked_writes (load_dstate es) \<and> blocked_writes (load_dstate es) \<le> 999))
   \<and> (latest_id (restore_dstate (entry_data e)) = None \<longrightarrow> load_dstate (es @ [e]) = load_dstate es)"
proof (rule conjI)
  show "latest_id (restore_dstate (entry_data e)) = None \<longrightarrow> load_dstate (es @ [e]) = load_dstate es"
    by (simp add: load_dstate_def load_step_def Let_def)
  show "load_dstate es = empty_dstate
     \<or> (\<exists>i c. latest_id (load_dstate es) = Some i \<and> i \<noteq> [] \<and> length i \<le> 64
          \<and> current_diff (load_dstate es) = Some c \<and> length c \<le> 128
          \<and> binding_ok (status (load_dstate es)) c (reviewed_diff (load_dstate es))
          \<and> 0 \<le> blocked_writes (load_dstate es) \<and> blocked_writes (load_dstate es) \<le> 999)"
  proof (induction es rule: rev_induct)
    case (snoc x xs)
    have split: "load_dstate (xs @ [x]) = load_dstate xs \<or> load_dstate (xs @ [x]) = restore_dstate (entry_data x)"
      by (simp add: load_dstate_def load_step_def Let_def)
    show ?case
    proof (cases "load_dstate (xs @ [x]) = load_dstate xs")
      case False
      with split have r: "load_dstate (xs @ [x]) = restore_dstate (entry_data x)" by blast
      show ?thesis unfolding r
        by (cases "entry_data x" rule: restore_cases)
          (simp_all add: max_id_length_def max_hash_length_def max_blocked_writes_def)
    qed (use snoc in simp)
  qed (simp add: load_dstate_def)
qed

theorem load_is_closed_witness:
  "load_dstate ([] @ [\<lparr>entry_type = ''custom'', custom_type = None, entry_data = JNull\<rparr>]) = load_dstate []"
proof -
  have "latest_id (restore_dstate JNull) = None" by code_simp
  then show ?thesis
    using load_is_closed[of "[]" "\<lparr>entry_type = ''custom'', custom_type = None, entry_data = JNull\<rparr>"] by simp
qed

lemma compact_summary_bounded: "length (compact_summary s) \<le> 160"
  by (auto simp: compact_summary_def max_summary_def split: option.splits)

end
