(* ===== verification/Js_Number.thy ===== *)
theory Js_Number
  imports Js_Value Complex_Main
begin

section \<open>Numbers\<close>

text \<open>
  The value of a finite number. A fraction is held as the text the engine prints for it
  (\<open>-12.5\<close>, \<open>1.5e-7\<close>), which is read here as an exact rational.
\<close>

definition exponent_value :: "string \<Rightarrow> int" where
  "exponent_value s =
     (case s of [] \<Rightarrow> 0
      | c # cs \<Rightarrow> if c = CHR ''-'' then - int (decimal_value 0 cs)
                 else if c = CHR ''+'' then int (decimal_value 0 cs) else int (decimal_value 0 s))"

definition scale10 :: "rat \<Rightarrow> int \<Rightarrow> rat" where
  "scale10 x e = (if 0 \<le> e then x * 10 ^ nat e else x / 10 ^ nat (- e))"

definition frac_value :: "string \<Rightarrow> rat" where
  "frac_value t =
     (let neg = (t \<noteq> [] \<and> hd t = CHR ''-'');
          u = (if neg then tl t else t);
          mant = takeWhile (\<lambda>c. c \<noteq> CHR ''e'') u;
          expo = drop (Suc (length mant)) u;
          ip = takeWhile (\<lambda>c. c \<noteq> CHR ''.'') mant;
          fp = drop (Suc (length ip)) mant;
          m = of_nat (decimal_value 0 (ip @ fp)) / 10 ^ length fp
      in scale10 (if neg then - m else m) (exponent_value expo))"

fun finite_number :: "jv \<Rightarrow> rat option" where
  "finite_number (JNum (JInt i)) = Some (of_int i)"
| "finite_number (JNum (JFrac t)) = Some (frac_value t)"
| "finite_number _ = None"

end
