(* ===== verification/Js_Double.thy ===== *)
theory Js_Double
  imports Js_Number "HOL-Library.Log_Nat"
begin

section \<open>Double precision arithmetic\<close>

text \<open>
  A JavaScript number is an IEEE 754 double. A finite one is held as its exact rational value;
  \<open>js_double\<close> rounds a rational to the nearest double, ties to even, with the subnormal range, and
  is \<open>None\<close> where the result overflows to an infinity. Arithmetic rounds the exact result.
\<close>

definition two_pow :: "int \<Rightarrow> rat" where
  "two_pow e = (if 0 \<le> e then 2 ^ nat e else 1 / 2 ^ nat (- e))"

text \<open>The exponent of the binade of a positive rational, from the bit lengths of its two parts.\<close>

definition binade :: "rat \<Rightarrow> int" where
  "binade x = (let (a, b) = quotient_of x; k = bitlen a - bitlen b in if two_pow k \<le> x then k else k - 1)"

definition ulp :: "rat \<Rightarrow> rat" where
  "ulp x = two_pow (max (binade x) (- 1022) - 52)"

definition round_even :: "rat \<Rightarrow> int" where
  "round_even x =
     (let n = \<lfloor>x\<rfloor>; d = x - of_int n in
      if d < 1 / 2 then n else if d > 1 / 2 then n + 1 else if even n then n else n + 1)"

definition round_positive :: "rat \<Rightarrow> rat" where
  "round_positive x = of_int (round_even (x / ulp x)) * ulp x"

definition js_double :: "rat \<Rightarrow> rat option" where
  "js_double x =
     (let y = (if x = 0 then 0 else if x < 0 then - round_positive (- x) else round_positive x)
      in if \<bar>y\<bar> < 2 ^ 1024 then Some y else None)"

text \<open>The double a finite number value is (\<open>None\<close>: no number, NaN or an infinity).\<close>

definition double_number :: "jv \<Rightarrow> rat option" where
  "double_number v = Option.bind (finite_number v) js_double"

text \<open>\<open>typeof value === "number" && Number.isFinite(value) && value >= 0 ? value : 0\<close>\<close>

definition double_non_negative :: "jv \<Rightarrow> rat" where
  "double_non_negative v =
     (case double_number v of None \<Rightarrow> 0 | Some x \<Rightarrow> if 0 \<le> x then x else 0)"

text \<open>The sum of two non-negative numbers, either of which may be Infinity (\<open>None\<close>).\<close>

fun js_plus :: "rat option \<Rightarrow> rat option \<Rightarrow> rat option" where
  "js_plus (Some a) (Some b) = js_double (a + b)"
| "js_plus _ _ = None"

subsection \<open>Properties\<close>

lemma two_pow_pos [simp]: "0 < two_pow e"
  by (simp add: two_pow_def)

lemma two_pow_powi: "two_pow e = 2 powi e"
  by (simp only: two_pow_def power_int_def divide_inverse mult_1_left power_inverse)

lemma two_pow_mono: "a \<le> b \<Longrightarrow> two_pow a \<le> two_pow b"
  unfolding two_pow_powi by (rule power_int_increasing) simp_all

lemma two_pow_le_iff: "two_pow a \<le> two_pow b \<longleftrightarrow> a \<le> b"
proof
  assume "two_pow a \<le> two_pow b"
  then show "a \<le> b"
    using power_int_strict_increasing[of b a "2::rat"] unfolding two_pow_powi by (metis not_less one_less_numeral_iff semiring_norm(76))
qed (rule two_pow_mono)

lemma two_pow_add: "two_pow (a + b) = two_pow a * two_pow b"
  by (simp add: two_pow_powi power_int_add)

lemma two_pow_nat: "two_pow (int n) = 2 ^ n"
  by (simp add: two_pow_def)

lemma bitlen_two_pow:
  assumes "0 < a"
  shows "two_pow (bitlen a - 1) \<le> of_int a" "of_int a < two_pow (bitlen a)"
proof -
  have "bitlen a \<noteq> 0" using assms by (simp add: bitlen_eq_zero_iff)
  then have n: "0 \<le> bitlen a - 1" "0 \<le> bitlen a" using bitlen_nonneg[of a] by linarith+
  have "(of_int (2 ^ nat (bitlen a - 1)) :: rat) \<le> of_int a" "(of_int a :: rat) < of_int (2 ^ nat (bitlen a))"
    using bitlen_bounds[OF assms] by (simp_all only: of_int_le_iff of_int_less_iff)
  then show "two_pow (bitlen a - 1) \<le> of_int a" "of_int a < two_pow (bitlen a)"
    using n by (simp_all only: two_pow_def if_True of_int_power of_int_numeral)
qed

lemma binade_bounds:
  assumes "0 < x"
  shows "two_pow (binade x) \<le> x" "x < two_pow (binade x + 1)"
proof -
  obtain a b where q: "quotient_of x = (a, b)" by (cases "quotient_of x")
  then have b: "0 < b" and x: "x = of_int a / of_int b"
    using quotient_of_denom_pos quotient_of_div by blast+
  then have a: "0 < a" using assms by (simp add: zero_less_divide_iff)
  let ?k = "bitlen a - bitlen b"
  note ab = bitlen_two_pow[OF a] bitlen_two_pow[OF b]
  have "x < two_pow (?k + 1)"
  proof -
    have "of_int a < two_pow (?k + 1) * two_pow (bitlen b - 1)"
      using ab(2) by (simp flip: two_pow_add)
    also have "\<dots> \<le> two_pow (?k + 1) * of_int b" using ab(3) by (intro mult_left_mono) (simp_all add: less_imp_le)
    finally show ?thesis using b by (simp add: x divide_less_eq)
  qed
  moreover have "two_pow (?k - 1) \<le> x"
  proof -
    have "two_pow (?k - 1) * of_int b \<le> two_pow (?k - 1) * two_pow (bitlen b)"
      using ab(4) by (intro mult_left_mono) (simp_all add: less_imp_le)
    also have "\<dots> \<le> of_int a" using ab(1) by (simp flip: two_pow_add)
    finally show ?thesis using b by (simp add: x le_divide_eq)
  qed
  ultimately show "two_pow (binade x) \<le> x" "x < two_pow (binade x + 1)"
    by (auto simp: binade_def q Let_def)
qed

lemma binade_less: "0 < x \<Longrightarrow> x < two_pow k \<Longrightarrow> binade x < k"
  using binade_bounds(1)[of x] two_pow_le_iff[of k "binade x"] by linarith

lemma binade_ge: "0 < x \<Longrightarrow> two_pow k \<le> x \<Longrightarrow> k \<le> binade x"
  using binade_bounds(2)[of x] two_pow_le_iff[of "binade x + 1" k] by linarith

lemma round_even_int [simp]: "round_even (of_int n) = n"
  by (simp add: round_even_def)

lemma round_even_ge: "of_int m \<le> x \<Longrightarrow> m \<le> round_even x"
  using floor_mono[of "of_int m" x] by (auto simp: round_even_def Let_def)

lemma round_even_le: "of_int (round_even x) \<le> x + 1 / 2"
proof -
  have "of_int \<lfloor>x\<rfloor> \<le> x" by (rule of_int_floor_le)
  then show ?thesis unfolding round_even_def Let_def by (simp split: if_split) linarith
qed

text \<open>Every natural number up to \<open>2^53\<close> is a double.\<close>

lemma js_double_nat:
  assumes "n \<le> 2 ^ 53"
  shows "js_double (of_nat n) = Some (of_nat n)"
proof (cases "n = 0")
  case False
  let ?x = "of_nat n :: rat"
  have pos: "0 < ?x" using False by simp
  have "(of_nat n :: rat) \<le> of_nat (2 ^ 53)" using assms by (simp only: of_nat_le_iff)
  then have le: "?x \<le> 2 ^ 53" by simp
  have "\<exists>m::int. ?x / ulp ?x = of_int m"
  proof (cases "n = 2 ^ 53")
    case True
    have "binade ?x = 53"
    proof (rule antisym)
      have "?x < two_pow 54" by (simp add: True two_pow_def)
      from binade_less[OF pos this] show "binade ?x \<le> 53" by simp
      show "53 \<le> binade ?x" by (rule binade_ge[OF pos]) (simp add: True two_pow_def)
    qed
    then have "?x / ulp ?x = of_int (2 ^ 52)" by (simp add: ulp_def two_pow_def True)
    then show ?thesis by blast
  next
    case False
    with assms have "n < 2 ^ 53" by simp
    then have "(of_nat n :: rat) < of_nat (2 ^ 53)" by (simp only: of_nat_less_iff)
    then have "?x < two_pow 53" by (simp add: two_pow_def)
    from binade_less[OF pos this] have e: "max (binade ?x) (- 1022) - 52 \<le> 0" by simp
    then have "?x / ulp ?x = of_int (int n * 2 ^ nat (- (max (binade ?x) (- 1022) - 52)))"
      by (cases "max (binade ?x) (- 1022) - 52 = 0") (simp_all add: ulp_def two_pow_def)
    then show ?thesis by blast
  qed
  then obtain m :: int where m: "?x / ulp ?x = of_int m" by blast
  have "ulp ?x > 0" by (simp add: ulp_def)
  have "round_positive ?x = ?x / ulp ?x * ulp ?x" by (simp only: round_positive_def m round_even_int)
  then have "round_positive ?x = ?x" using \<open>ulp ?x > 0\<close> by simp
  moreover have "?x < 2 ^ 1024" by (rule le_less_trans[OF le]) simp
  ultimately show ?thesis using pos by (simp add: js_double_def)
qed (simp add: js_double_def)

text \<open>A sum that reaches \<open>2^1024\<close> is no finite double.\<close>

lemma js_double_overflow:
  assumes "2 ^ 1024 \<le> x"
  shows "js_double x = None"
proof -
  have pos: "0 < x" by (rule less_le_trans[OF _ assms]) simp
  have e: "1024 \<le> binade x" by (rule binade_ge[OF pos]) (use assms in \<open>simp add: two_pow_def\<close>)
  let ?u = "two_pow (binade x - 52)"
  have u: "ulp x = ?u" using e by (simp add: ulp_def)
  have "two_pow (binade x) = of_int (2 ^ 52) * ?u"
    using two_pow_add[of 52 "binade x - 52"] by (simp add: two_pow_def)
  then have "of_int (2 ^ 52) \<le> x / ?u"
    using binade_bounds(1)[OF pos] by (simp add: le_divide_eq)
  then have "2 ^ 52 \<le> round_even (x / ?u)" by (rule round_even_ge)
  then have "of_int (2 ^ 52) * ?u \<le> round_positive x"
    unfolding round_positive_def u by (intro mult_right_mono) (simp_all add: less_imp_le flip: of_int_le_iff)
  then have "two_pow 1024 \<le> round_positive x"
    using two_pow_mono[OF e] \<open>two_pow (binade x) = of_int (2 ^ 52) * ?u\<close> by simp
  then have "\<not> \<bar>round_positive x\<bar> < 2 ^ 1024" by (simp add: two_pow_def)
  then show ?thesis using pos by (simp add: js_double_def)
qed

lemma js_double_non_negative: "js_double x = Some y \<Longrightarrow> 0 \<le> x \<Longrightarrow> 0 \<le> y"
  using round_even_ge[of 0 "x / ulp x"]
  by (auto simp: js_double_def Let_def round_positive_def ulp_def less_imp_le split: if_splits)

lemma double_non_negative_ge [simp]: "0 \<le> double_non_negative v"
  by (simp add: double_non_negative_def split: option.splits)

end
