(* ===== verification/Worker_Spend.thy ===== *)
theory Worker_Spend
  imports Js_Double
begin

section \<open>Worker budgets (core/worker-budget.ts, core/worker-spend.ts)\<close>

text \<open>
  Two limits on a worker process: the context tokens of a single message and the turns and tokens the
  process spends in total. Counters are doubles with the rounding and the overflow of
  \<^theory_text>\<open>Js_Double\<close>; a running counter that overflowed is Infinity, \<open>None\<close> here, which the next
  normalisation reads as zero. The one-line formatters of the two modules are not modelled.
\<close>

datatype band = Band_ok | Band_soft | Band_hard

text \<open>The bands are ordered by severity.\<close>

fun band_rank :: "band \<Rightarrow> nat" where
  "band_rank Band_ok = 0"
| "band_rank Band_soft = 1"
| "band_rank Band_hard = 2"

instantiation band :: linorder
begin

definition less_eq_band :: "band \<Rightarrow> band \<Rightarrow> bool" where
  "less_eq_band a b = (band_rank a \<le> band_rank b)"

definition less_band :: "band \<Rightarrow> band \<Rightarrow> bool" where
  "less_band a b = (band_rank a < band_rank b)"

instance
proof
  fix a b c :: band
  show "a < b \<longleftrightarrow> a \<le> b \<and> \<not> b \<le> a" by (auto simp: less_eq_band_def less_band_def)
  show "a \<le> a" by (simp add: less_eq_band_def)
  show "a \<le> b \<Longrightarrow> b \<le> c \<Longrightarrow> a \<le> c" by (simp add: less_eq_band_def)
  show "a \<le> b \<Longrightarrow> b \<le> a \<Longrightarrow> a = b" by (cases a; cases b) (simp_all add: less_eq_band_def)
  show "a \<le> b \<or> b \<le> a" by (auto simp: less_eq_band_def)
qed

end

subsection \<open>The context of one message\<close>

definition worker_model_context :: rat where "worker_model_context = 272000"
definition worker_soft_budget :: rat where "worker_soft_budget = 217600"
definition worker_hard_budget :: rat where "worker_hard_budget = 244800"

fun object_props :: "jv \<Rightarrow> fields option" where
  "object_props (JObj f) = Some f"
| "object_props (JArr vs) = Some []"
| "object_props (JExotic k) = Some []"
| "object_props _ = None"

text \<open>The tokens of a message; the sum of the components may be Infinity (\<open>None\<close>).\<close>

definition worker_context_tokens :: "jv \<Rightarrow> rat option" where
  "worker_context_tokens usage =
     (case object_props usage of None \<Rightarrow> Some 0
      | Some u \<Rightarrow>
          let parts = js_plus (js_plus (js_plus (Some (double_non_negative (get_prop u ''input'')))
                                                (Some (double_non_negative (get_prop u ''output''))))
                                       (Some (double_non_negative (get_prop u ''cacheRead''))))
                              (Some (double_non_negative (get_prop u ''cacheWrite'')))
          in (case double_number (get_prop u ''totalTokens'') of
                Some t \<Rightarrow> if t > 0 then Some t else parts
              | None \<Rightarrow> parts))"

definition worker_context_ratio :: "jv \<Rightarrow> rat option" where
  "worker_context_ratio tokens =
     (case double_number tokens of None \<Rightarrow> Some 0
      | Some t \<Rightarrow> if t < 0 then Some 0 else js_double (t / worker_model_context))"

definition worker_budget_band :: "jv \<Rightarrow> band" where
  "worker_budget_band tokens =
     (case double_number tokens of None \<Rightarrow> Band_ok
      | Some t \<Rightarrow> if t < 0 then Band_ok
                 else if t \<ge> worker_hard_budget then Band_hard
                 else if t \<ge> worker_soft_budget then Band_soft else Band_ok)"

subsection \<open>The spend of a process\<close>

datatype spend_profile = Profile_low | Profile_standard | Profile_extended

datatype spend_reason = Reason_turns | Reason_total_tokens | Reason_output_tokens

record spend_counts =
  turns :: rat
  total_tokens :: rat
  output_tokens :: rat

record spend_limits =
  soft_limits :: spend_counts
  hard_limits :: spend_counts

fun limits_for :: "spend_profile \<Rightarrow> spend_limits" where
  "limits_for Profile_low =
     \<lparr>soft_limits = \<lparr>turns = 8, total_tokens = 816000, output_tokens = 50000\<rparr>,
      hard_limits = \<lparr>turns = 16, total_tokens = 1632000, output_tokens = 100000\<rparr>\<rparr>"
| "limits_for Profile_standard =
     \<lparr>soft_limits = \<lparr>turns = 32, total_tokens = 5440000, output_tokens = 160000\<rparr>,
      hard_limits = \<lparr>turns = 64, total_tokens = 10880000, output_tokens = 320000\<rparr>\<rparr>"
| "limits_for Profile_extended =
     \<lparr>soft_limits = \<lparr>turns = 64, total_tokens = 10880000, output_tokens = 320000\<rparr>,
      hard_limits = \<lparr>turns = 96, total_tokens = 17408000, output_tokens = 512000\<rparr>\<rparr>"

text \<open>The running counters of a process.\<close>

record spend_state =
  st_turns :: "rat option"
  st_total_tokens :: "rat option"
  st_output_tokens :: "rat option"

definition empty_counts :: spend_counts where
  "empty_counts = \<lparr>turns = 0, total_tokens = 0, output_tokens = 0\<rparr>"

definition spend_state_of :: "spend_counts \<Rightarrow> spend_state" where
  "spend_state_of c = \<lparr>st_turns = Some (turns c), st_total_tokens = Some (total_tokens c), st_output_tokens = Some (output_tokens c)\<rparr>"

definition empty_spend :: spend_state where
  "empty_spend = \<lparr>st_turns = Some 0, st_total_tokens = Some 0, st_output_tokens = Some 0\<rparr>"

definition reason_order :: "spend_reason list" where
  "reason_order = [Reason_turns, Reason_total_tokens, Reason_output_tokens]"

fun current_value :: "spend_counts \<Rightarrow> spend_reason \<Rightarrow> rat" where
  "current_value s Reason_turns = turns s"
| "current_value s Reason_total_tokens = total_tokens s"
| "current_value s Reason_output_tokens = output_tokens s"

definition is_spend_profile :: "jv \<Rightarrow> bool" where
  "is_spend_profile v = (v = JStr ''standard'' \<or> v = JStr ''extended'')"

definition resolve_spend_profile :: "jv \<Rightarrow> spend_profile" where
  "resolve_spend_profile v = (if v = JStr ''extended'' then Profile_extended else Profile_standard)"

definition normalize_spend :: "jv \<Rightarrow> spend_counts" where
  "normalize_spend v =
     (case object_props v of None \<Rightarrow> empty_counts
      | Some s \<Rightarrow> \<lparr>turns = double_non_negative (get_prop s ''turns''),
                  total_tokens = double_non_negative (get_prop s ''totalTokens''),
                  output_tokens = double_non_negative (get_prop s ''outputTokens'')\<rparr>)"

text \<open>\<open>normalizeWorkerSpendState\<close> on a state the process already holds: a negative counter and an
  infinite one become zero.\<close>

definition clip_count :: "rat option \<Rightarrow> rat" where
  "clip_count x = (case x of None \<Rightarrow> 0 | Some t \<Rightarrow> if 0 \<le> t then t else 0)"

definition clip_spend :: "spend_state \<Rightarrow> spend_counts" where
  "clip_spend s = \<lparr>turns = clip_count (st_turns s), total_tokens = clip_count (st_total_tokens s),
     output_tokens = clip_count (st_output_tokens s)\<rparr>"

text \<open>\<open>parseWorkerInitialSpendStateEnvironment\<close>, after \<open>JSON.parse\<close> (\<open>None\<close>: not a string, empty, or not JSON).\<close>

definition initial_spend :: "jv option \<Rightarrow> spend_counts" where
  "initial_spend parsed =
     (case parsed of
        Some (JObj f) \<Rightarrow>
          if sort (own_keys f) \<noteq> [''outputTokens'', ''totalTokens'', ''turns''] then empty_counts
          else let n = normalize_spend (JObj f) in
               if double_number (get_prop f ''turns'') = Some (turns n)
                  \<and> double_number (get_prop f ''totalTokens'') = Some (total_tokens n)
                  \<and> double_number (get_prop f ''outputTokens'') = Some (output_tokens n)
               then n else empty_counts
      | _ \<Rightarrow> empty_counts)"

definition spend_output_tokens :: "jv \<Rightarrow> rat" where
  "spend_output_tokens usage =
     (case object_props usage of None \<Rightarrow> 0 | Some u \<Rightarrow> double_non_negative (get_prop u ''output''))"

definition add_spend_usage :: "spend_state \<Rightarrow> jv \<Rightarrow> spend_state" where
  "add_spend_usage st usage =
     (let c = clip_spend st in
      \<lparr>st_turns = js_plus (Some (turns c)) (Some 1),
       st_total_tokens = js_plus (Some (total_tokens c)) (worker_context_tokens usage),
       st_output_tokens = js_plus (Some (output_tokens c)) (Some (spend_output_tokens usage))\<rparr>)"

definition reached :: "spend_state \<Rightarrow> spend_counts \<Rightarrow> spend_reason \<Rightarrow> bool" where
  "reached st bnd r = (current_value (clip_spend st) r \<ge> current_value bnd r)"

definition spend_band :: "spend_state \<Rightarrow> spend_profile \<Rightarrow> band" where
  "spend_band st p =
     (if \<exists>r\<in>set reason_order. reached st (hard_limits (limits_for p)) r then Band_hard
      else if \<exists>r\<in>set reason_order. reached st (soft_limits (limits_for p)) r then Band_soft
      else Band_ok)"

definition spend_reasons :: "spend_state \<Rightarrow> spend_profile \<Rightarrow> spend_reason list" where
  "spend_reasons st p =
     (let hard = filter (reached st (hard_limits (limits_for p))) reason_order in
      if hard \<noteq> [] then hard else filter (reached st (soft_limits (limits_for p))) reason_order)"

subsection \<open>Properties\<close>

lemma reason_order_all: "set reason_order = UNIV"
  using spend_reason.exhaust by (auto simp: reason_order_def)

lemma hard_above_soft: "current_value (soft_limits (limits_for p)) r < current_value (hard_limits (limits_for p)) r"
  by (cases p; cases r) simp_all

lemma hard_implies_soft: "reached s (hard_limits (limits_for p)) r \<Longrightarrow> reached s (soft_limits (limits_for p)) r"
  using hard_above_soft[of p r] by (simp add: reached_def)

lemma spend_band_cases:
  "spend_band s p = Band_hard \<longleftrightarrow> (\<exists>r. reached s (hard_limits (limits_for p)) r)"
  "spend_band s p = Band_ok \<longleftrightarrow> (\<forall>r. \<not> reached s (soft_limits (limits_for p)) r)"
  using hard_implies_soft by (auto simp: spend_band_def reason_order_all)

text \<open>The reasons reported are exactly the dimensions at or above the limits of the band, in the fixed
  order, empty exactly in the band ok.\<close>

theorem spend_reasons_exact:
  "(spend_reasons s p = [] \<longleftrightarrow> spend_band s p = Band_ok)
   \<and> spend_reasons s p = (case spend_band s p of
        Band_ok \<Rightarrow> []
      | Band_soft \<Rightarrow> filter (\<lambda>r. current_value (soft_limits (limits_for p)) r \<le> current_value (clip_spend s) r) reason_order
      | Band_hard \<Rightarrow> filter (\<lambda>r. current_value (hard_limits (limits_for p)) r \<le> current_value (clip_spend s) r) reason_order)"
proof
  show "spend_reasons s p = [] \<longleftrightarrow> spend_band s p = Band_ok"
    using hard_implies_soft by (auto simp: spend_reasons_def spend_band_cases Let_def filter_empty_conv reason_order_all)
  have "(\<lambda>r. current_value bnd r \<le> current_value (clip_spend s) r) = reached s bnd" for bnd
    by (auto simp: reached_def)
  then show "spend_reasons s p = (case spend_band s p of
        Band_ok \<Rightarrow> []
      | Band_soft \<Rightarrow> filter (\<lambda>r. current_value (soft_limits (limits_for p)) r \<le> current_value (clip_spend s) r) reason_order
      | Band_hard \<Rightarrow> filter (\<lambda>r. current_value (hard_limits (limits_for p)) r \<le> current_value (clip_spend s) r) reason_order)"
    by (auto simp: spend_reasons_def spend_band_def Let_def filter_empty_conv)
qed

subsection \<open>Adding messages\<close>

lemma plus_nat: "m + n \<le> 2 ^ 53 \<Longrightarrow> js_plus (Some (of_nat m)) (Some (of_nat n)) = Some (of_nat (m + n))"
  using js_double_nat[of "m + n"] by simp

lemma double_past_safe: "js_double (9007199254740992 + 1) = Some 9007199254740992"
  by code_simp

lemma spend_turn_step: "js_plus (Some (of_nat (min n (2 ^ 53)))) (Some 1) = Some (of_nat (min (Suc n) (2 ^ 53)))"
proof (cases "n < 2 ^ 53")
  case True
  then have "js_double (of_nat (Suc n)) = Some (of_nat (Suc n))" by (intro js_double_nat) simp
  then show ?thesis using True by (simp add: min_def add.commute)
next
  case False
  then show ?thesis using double_past_safe by (simp add: min_def)
qed

lemma clip_nat [simp]: "clip_count (Some (of_nat n)) = of_nat n"
  by (simp add: clip_count_def)

lemma turns_after: "st_turns s = Some (of_nat (min k (2 ^ 53))) \<Longrightarrow>
    st_turns (foldl add_spend_usage s us) = Some (of_nat (min (k + length us) (2 ^ 53)))"
proof (induction us arbitrary: s k)
  case (Cons u us)
  have "st_turns (add_spend_usage s u) = js_plus (Some (clip_count (st_turns s))) (Some 1)"
    by (simp add: add_spend_usage_def clip_spend_def Let_def del: js_plus.simps)
  also have "\<dots> = Some (of_nat (min (Suc k) (2 ^ 53)))"
    unfolding Cons.prems clip_nat by (rule spend_turn_step)
  finally show ?case using Cons.IH[of "add_spend_usage s u" "Suc k"] by simp
qed simp

lemma tokens_after:
  "st_total_tokens s = Some (of_nat k) \<Longrightarrow> map worker_context_tokens us = map (\<lambda>n. Some (of_nat n)) ns \<Longrightarrow>
     k + sum_list ns \<le> 2 ^ 53 \<Longrightarrow> st_total_tokens (foldl add_spend_usage s us) = Some (of_nat (k + sum_list ns))"
proof (induction us arbitrary: s k ns)
  case (Cons u us)
  then obtain n ms where ns: "ns = n # ms" "worker_context_tokens u = Some (of_nat n)"
    "map worker_context_tokens us = map (\<lambda>n. Some (of_nat n)) ms" by (cases ns) auto
  have "st_total_tokens (add_spend_usage s u) = js_plus (Some (of_nat k)) (Some (of_nat n))"
    using Cons.prems(1) ns(2) by (simp add: add_spend_usage_def clip_spend_def Let_def del: js_plus.simps)
  also have "\<dots> = Some (of_nat (k + n))" using Cons.prems(3) ns(1) by (intro plus_nat) simp
  finally show ?case using Cons.IH[of "add_spend_usage s u" "k + n" ms] Cons.prems(3) ns(1,3) by (simp add: add.assoc)
qed simp

lemma outputs_after:
  "st_output_tokens s = Some (of_nat k) \<Longrightarrow> map spend_output_tokens us = map of_nat ns \<Longrightarrow>
     k + sum_list ns \<le> 2 ^ 53 \<Longrightarrow> st_output_tokens (foldl add_spend_usage s us) = Some (of_nat (k + sum_list ns))"
proof (induction us arbitrary: s k ns)
  case (Cons u us)
  then obtain n ms where ns: "ns = n # ms" "spend_output_tokens u = of_nat n"
    "map spend_output_tokens us = map of_nat ms" by (cases ns) auto
  have "st_output_tokens (add_spend_usage s u) = js_plus (Some (of_nat k)) (Some (of_nat n))"
    using Cons.prems(1) ns(2) by (simp add: add_spend_usage_def clip_spend_def Let_def del: js_plus.simps)
  also have "\<dots> = Some (of_nat (k + n))" using Cons.prems(3) ns(1) by (intro plus_nat) simp
  finally show ?case using Cons.IH[of "add_spend_usage s u" "k + n" ms] Cons.prems(3) ns(1,3) by (simp add: add.assoc)
qed simp

lemma numeral_le_of_nat_rat: "(numeral k :: rat) \<le> of_nat n \<longleftrightarrow> numeral k \<le> n"
  using of_nat_le_iff[of "numeral k" n, where ?'a = rat] by simp

lemma band_of_counts:
  assumes "clip_spend s = \<lparr>turns = of_nat a, total_tokens = of_nat b, output_tokens = of_nat c\<rparr>"
  shows "spend_band s p = Band_hard \<longleftrightarrow>
    (case p of Profile_low \<Rightarrow> 16 \<le> a \<or> 1632000 \<le> b \<or> 100000 \<le> c
     | Profile_standard \<Rightarrow> 64 \<le> a \<or> 10880000 \<le> b \<or> 320000 \<le> c
     | Profile_extended \<Rightarrow> 96 \<le> a \<or> 17408000 \<le> b \<or> 512000 \<le> c)"
proof -
  have "spend_band s p = Band_hard \<longleftrightarrow> (\<exists>r\<in>set reason_order. reached s (hard_limits (limits_for p)) r)"
    by (simp add: spend_band_def)
  then show ?thesis
    by (cases p) (simp_all add: reason_order_def reached_def assms numeral_le_of_nat_rat)
qed

text \<open>C10: A worker process is bounded. After as many messages as the hard turn limit of its profile
  (16, 64 or 96) the band is hard, whatever the messages report. Where the messages report natural
  numbers of tokens whose sums stay within \<open>2^53\<close>, no counter is rounded and the band is hard exactly
  from the message on that brings the turns, the total tokens or the output tokens to the hard limit
  of the profile.\<close>

theorem process_reaches_hard_stop:
  fixes us :: "jv list" and ns outs :: "nat list"
  defines "s \<equiv> foldl add_spend_usage empty_spend us"
  shows "((case p of Profile_low \<Rightarrow> 16 | Profile_standard \<Rightarrow> 64 | Profile_extended \<Rightarrow> 96) \<le> length us \<longrightarrow> spend_band s p = Band_hard)
    \<and> (map worker_context_tokens us = map (\<lambda>n. Some (of_nat n)) ns \<and> sum_list ns \<le> 2 ^ 53
        \<and> map spend_output_tokens us = map of_nat outs \<and> sum_list outs \<le> 2 ^ 53 \<longrightarrow>
        (spend_band s p = Band_hard \<longleftrightarrow>
          (case p of Profile_low \<Rightarrow> 16 \<le> length us \<or> 1632000 \<le> sum_list ns \<or> 100000 \<le> sum_list outs
           | Profile_standard \<Rightarrow> 64 \<le> length us \<or> 10880000 \<le> sum_list ns \<or> 320000 \<le> sum_list outs
           | Profile_extended \<Rightarrow> 96 \<le> length us \<or> 17408000 \<le> sum_list ns \<or> 512000 \<le> sum_list outs)))"
proof (intro conjI impI)
  have t: "turns (clip_spend s) = of_nat (min (length us) (2 ^ 53))"
    using turns_after[of empty_spend 0 us] by (simp add: s_def clip_spend_def empty_spend_def)
  {
    assume "(case p of Profile_low \<Rightarrow> 16 | Profile_standard \<Rightarrow> 64 | Profile_extended \<Rightarrow> 96) \<le> length us"
    then have "turns (hard_limits (limits_for p)) \<le> turns (clip_spend s)"
      unfolding t by (cases p) (simp_all add: numeral_le_of_nat_rat)
    then have "reached s (hard_limits (limits_for p)) Reason_turns" by (simp add: reached_def)
    then show "spend_band s p = Band_hard" using spend_band_cases(1) by blast
  }
  assume sums: "map worker_context_tokens us = map (\<lambda>n. Some (of_nat n)) ns \<and> sum_list ns \<le> 2 ^ 53
        \<and> map spend_output_tokens us = map of_nat outs \<and> sum_list outs \<le> 2 ^ 53"
  have "st_total_tokens s = Some (of_nat (sum_list ns))" "st_output_tokens s = Some (of_nat (sum_list outs))"
    using tokens_after[of empty_spend 0 us ns] outputs_after[of empty_spend 0 us outs] sums
    by (simp_all add: s_def empty_spend_def)
  then have "clip_spend s = \<lparr>turns = of_nat (min (length us) (2 ^ 53)), total_tokens = of_nat (sum_list ns), output_tokens = of_nat (sum_list outs)\<rparr>"
    using t by (simp add: clip_spend_def)
  from band_of_counts[OF this] show "spend_band s p = Band_hard \<longleftrightarrow>
          (case p of Profile_low \<Rightarrow> 16 \<le> length us \<or> 1632000 \<le> sum_list ns \<or> 100000 \<le> sum_list outs
           | Profile_standard \<Rightarrow> 64 \<le> length us \<or> 10880000 \<le> sum_list ns \<or> 320000 \<le> sum_list outs
           | Profile_extended \<Rightarrow> 96 \<le> length us \<or> 17408000 \<le> sum_list ns \<or> 512000 \<le> sum_list outs)"
    by (cases p) auto
qed

definition usage_of :: "int \<Rightarrow> int \<Rightarrow> jv" where
  "usage_of tot out = JObj [(''totalTokens'', JNum (JInt tot)), (''output'', JNum (JInt out))]"

lemma usage_tokens:
  assumes "0 < n" "n \<le> 2 ^ 53" "k \<le> 2 ^ 53"
  shows "worker_context_tokens (usage_of (int n) (int k)) = Some (of_nat n)"
    "spend_output_tokens (usage_of (int n) (int k)) = of_nat k"
  using assms js_double_nat[of n] js_double_nat[of k]
  by (simp_all add: worker_context_tokens_def usage_of_def double_number_def spend_output_tokens_def double_non_negative_def)

text \<open>Sixty-four empty messages stop a standard worker; two large ones stop it too, one of them does not.\<close>

theorem process_reaches_hard_stop_witness:
  "spend_band (foldl add_spend_usage empty_spend (replicate 64 JNull)) Profile_standard = Band_hard
   \<and> spend_band (foldl add_spend_usage empty_spend [usage_of 5440000 9, usage_of 5440000 9]) Profile_standard = Band_hard
   \<and> spend_band (foldl add_spend_usage empty_spend [usage_of 5440000 9]) Profile_standard \<noteq> Band_hard"
proof (intro conjI)
  have u: "worker_context_tokens (usage_of 5440000 9) = Some (of_nat 5440000)" "spend_output_tokens (usage_of 5440000 9) = of_nat 9"
    using usage_tokens[of 5440000 9] by simp_all
  show "spend_band (foldl add_spend_usage empty_spend (replicate 64 JNull)) Profile_standard = Band_hard"
    using process_reaches_hard_stop[of Profile_standard "replicate 64 JNull"] by simp
  show "spend_band (foldl add_spend_usage empty_spend [usage_of 5440000 9, usage_of 5440000 9]) Profile_standard = Band_hard"
    using process_reaches_hard_stop[of Profile_standard "[usage_of 5440000 9, usage_of 5440000 9]" "[5440000, 5440000]" "[9, 9]"] u
    by (simp del: foldl.simps)
  show "spend_band (foldl add_spend_usage empty_spend [usage_of 5440000 9]) Profile_standard \<noteq> Band_hard"
    using process_reaches_hard_stop[of Profile_standard "[usage_of 5440000 9]" "[5440000]" "[9]"] u by (simp del: foldl.simps)
qed

text \<open>The token counter of a process is not protected against overflow: a message that brings it to
  Infinity makes the next normalisation read it as zero, so that the band drops back.\<close>

lemma overflow_resets_total:
  assumes "st_total_tokens s = None"
  shows "total_tokens (clip_spend s) = 0"
    "st_total_tokens (add_spend_usage s u) = js_plus (Some 0) (worker_context_tokens u)"
  using assms by (simp_all add: clip_spend_def clip_count_def add_spend_usage_def Let_def)

lemma overflow_reached:
  assumes "st_total_tokens s = Some a" "0 \<le> a" "worker_context_tokens u = Some b" "2 ^ 1024 \<le> a + b"
  shows "st_total_tokens (add_spend_usage s u) = None"
  using assms js_double_overflow[OF assms(4)] by (simp add: add_spend_usage_def clip_spend_def clip_count_def Let_def)

end
