(* ===== verification/Command_Guard.thy ===== *)
theory Command_Guard
  imports Prelude
begin

section \<open>The command guard (core/command-guard.ts)\<close>

text \<open>
  A shell-token scan and the eleven rules that refuse destructive commands. The scanner is the
  source's character loop as two recursions, the inner one for quoted text.
\<close>

subsection \<open>The scanner\<close>

record shell_token =
  tok_text :: string
  tok_quoted :: bool

text \<open>The loop inside quotes: it returns the token so far and the input after the closing quote.\<close>

function scan_quoted :: "char \<Rightarrow> string \<Rightarrow> string \<Rightarrow> string \<times> string" where
  "scan_quoted q cur [] = (cur, [])"
| "scan_quoted q cur (c # cs) =
     (if c = q then (cur, cs)
      else if q = CHR 0x22 \<and> c = CHR 0x5C \<and> cs \<noteq> [] then scan_quoted q (cur @ [hd cs]) (tl cs)
      else scan_quoted q (cur @ [c]) cs)"
  by pat_completeness auto
termination by (relation "measure (length \<circ> snd \<circ> snd)") auto

lemma scan_quoted_length: "length (snd (scan_quoted q cur s)) \<le> length s"
  by (induction q cur s rule: scan_quoted.induct) (auto simp: le_SucI intro: le_trans[OF _ diff_le_self])

definition push_token :: "string \<Rightarrow> bool \<Rightarrow> shell_token list \<Rightarrow> shell_token list" where
  "push_token cur quoted ts = (if cur = [] then ts else \<lparr>tok_text = cur, tok_quoted = quoted\<rparr> # ts)"

function scan_loop :: "string \<Rightarrow> bool \<Rightarrow> string \<Rightarrow> shell_token list" where
  "scan_loop cur quoted [] = push_token cur quoted []"
| "scan_loop cur quoted (c # cs) =
     (if c = CHR 0x27 \<or> c = CHR 0x22
      then scan_loop (fst (scan_quoted c cur cs)) True (snd (scan_quoted c cur cs))
      else if c = CHR 0x5C \<and> cs \<noteq> [] then scan_loop (cur @ [hd cs]) quoted (tl cs)
      else if is_js_space c
      then (if cur \<noteq> [] then push_token cur quoted (scan_loop [] False cs) else scan_loop cur quoted cs)
      else scan_loop (cur @ [c]) quoted cs)"
  by pat_completeness auto
termination
  by (relation "measure (length \<circ> snd \<circ> snd)") (auto simp: less_Suc_eq_le scan_quoted_length)

definition scan_shell :: "string \<Rightarrow> shell_token list" where
  "scan_shell command = scan_loop [] False command"

definition separators :: "string list" where
  "separators = [''&&'', ''||'', '';'', ''|'']"

fun split_tokens :: "string list \<Rightarrow> shell_token list \<Rightarrow> string list list" where
  "split_tokens current [] = (if current \<noteq> [] then [current] else [])"
| "split_tokens current (t # ts) =
     (if \<not> tok_quoted t \<and> tok_text t \<in> set separators
      then (if current \<noteq> [] then current # split_tokens [] ts else split_tokens [] ts)
      else split_tokens (current @ [tok_text t]) ts)"

definition split_command_segments :: "string \<Rightarrow> string list list" where
  "split_command_segments command = split_tokens [] (scan_shell command)"

subsection \<open>Helpers\<close>

definition is_flag :: "string \<Rightarrow> bool" where
  "is_flag t = (starts_with ''-'' t \<and> t \<noteq> ''--'')"

text \<open>\<open>leadingFlags\<close>: the flags and the positionals; everything after \<open>--\<close> is positional.\<close>

fun leading_flags :: "string list \<Rightarrow> string list \<times> string list" where
  "leading_flags [] = ([], [])"
| "leading_flags (t # ts) =
     (if t = ''--'' then ([], ts)
      else let (fs, ps) = leading_flags ts in if is_flag t then (t # fs, ps) else (fs, t # ps))"

datatype flag_need = Need_r | Need_f | Need_d

fun flag_short :: "flag_need \<Rightarrow> string" where
  "flag_short Need_r = ''r''"
| "flag_short Need_f = ''f''"
| "flag_short Need_d = ''d''"

fun flag_long :: "flag_need \<Rightarrow> string" where
  "flag_long Need_r = ''recursive''"
| "flag_long Need_f = ''force''"
| "flag_long Need_d = ''directories''"

definition flag_has :: "string list \<Rightarrow> flag_need \<Rightarrow> bool" where
  "flag_has flags n =
     (\<exists>f\<in>set flags. f = ''-'' @ flag_short n \<or> f = ''--'' @ flag_long n
        \<or> length f > 2 \<and> starts_with ''-'' f \<and> \<not> starts_with ''--'' f \<and> contains_text (flag_short n) f)"

definition basename_of :: "string \<Rightarrow> string" where
  "basename_of p =
     (let stripped = rev (dropWhile (\<lambda>c. c = CHR ''/'') (rev p)) in last (split_on (CHR ''/'') stripped))"

definition git_value_flags :: "string list" where
  "git_value_flags = [''-C'', ''--git-dir'', ''--work-tree'', ''-c'']"

fun git_subcommand_from :: "string list \<Rightarrow> string option \<times> string list" where
  "git_subcommand_from [] = (None, [])"
| "git_subcommand_from (t # ts) =
     (if is_flag t then (if t \<in> set git_value_flags then git_subcommand_from (tl ts) else git_subcommand_from ts)
      else (Some t, ts))"

definition git_subcommand :: "string list \<Rightarrow> string option \<times> string list" where
  "git_subcommand tokens = git_subcommand_from (tl tokens)"

definition git_positionals :: "string list \<Rightarrow> string list" where
  "git_positionals after = filter (\<lambda>t. t \<noteq> ''--'' \<and> \<not> is_flag t) after"

definition first_is :: "string list \<Rightarrow> string \<Rightarrow> bool" where
  "first_is tokens w = (tokens \<noteq> [] \<and> hd tokens = w)"

subsection \<open>The rules\<close>

definition root_glob :: "string \<Rightarrow> bool" where
  "root_glob p = (length p \<ge> 2 \<and> hd p = CHR ''/'' \<and> list_all (\<lambda>c. c = CHR ''*'') (tl p))"

definition home_targets :: "string list" where
  "home_targets = [''~'', ''~/'', ''$HOME'', ''$HOME/'', ''~/*'']"

definition rm_rf :: "string list \<Rightarrow> (string \<Rightarrow> bool) \<Rightarrow> bool" where
  "rm_rf tokens target =
     (first_is tokens ''rm''
      \<and> (let (flags, positionals) = leading_flags (tl tokens)
         in flag_has flags Need_r \<and> flag_has flags Need_f \<and> (\<exists>p\<in>set positionals. target p)))"

definition rm_rf_root :: "string list \<Rightarrow> bool" where
  "rm_rf_root tokens = rm_rf tokens (\<lambda>p. p = ''/'' \<or> root_glob p)"

definition rm_rf_home :: "string list \<Rightarrow> bool" where
  "rm_rf_home tokens = rm_rf tokens (\<lambda>p. p \<in> set home_targets)"

definition rm_git_dir :: "string list \<Rightarrow> bool" where
  "rm_git_dir tokens =
     (first_is tokens ''rm'' \<and> (\<exists>p\<in>set (snd (leading_flags (tl tokens))). basename_of p = ''.git''))"

definition git_sub_is :: "string list \<Rightarrow> string list \<Rightarrow> (string list \<Rightarrow> bool) \<Rightarrow> bool" where
  "git_sub_is tokens subs test =
     (first_is tokens ''git''
      \<and> (case git_subcommand tokens of (Some sub, after) \<Rightarrow> sub \<in> set subs \<and> test after | (None, _) \<Rightarrow> False))"

definition git_reset_hard :: "string list \<Rightarrow> bool" where
  "git_reset_hard tokens = git_sub_is tokens [''reset''] (\<lambda>after. ''--hard'' \<in> set after)"

definition git_clean_fd :: "string list \<Rightarrow> bool" where
  "git_clean_fd tokens = git_sub_is tokens [''clean'']
     (\<lambda>after. flag_has (fst (leading_flags after)) Need_f \<and> flag_has (fst (leading_flags after)) Need_d)"

definition git_push_force :: "string list \<Rightarrow> bool" where
  "git_push_force tokens = git_sub_is tokens [''push'']
     (\<lambda>after. \<exists>t\<in>set after. t = ''-f'' \<or> t = ''--force'' \<or> starts_with ''--force='' t
                \<or> starts_with ''--force-with-lease'' t)"

definition git_checkout_restore_all :: "string list \<Rightarrow> bool" where
  "git_checkout_restore_all tokens = git_sub_is tokens [''checkout'', ''restore'']
     (\<lambda>after. ''.'' \<in> set (git_positionals after))"

definition git_remote_mutation :: "string list \<Rightarrow> bool" where
  "git_remote_mutation tokens = git_sub_is tokens [''remote'']
     (\<lambda>after. git_positionals after \<noteq> []
        \<and> hd (git_positionals after) \<in> {''add'', ''remove'', ''rm'', ''set-url'', ''rename''})"

definition git_config_write_ops :: "string list" where
  "git_config_write_ops = [''set'', ''add'', ''unset'', ''unset-all'', ''remove-section'', ''rename-section'',
     ''replace-all'', ''--add'', ''--unset'', ''--unset-all'', ''--remove-section'', ''--rename-section'',
     ''--replace-all'']"

definition git_config_read_ops :: "string list" where
  "git_config_read_ops = [''--list'', ''--get'', ''--get-all'', ''--get-regexp'', ''list'']"

definition git_config_global_write :: "string list \<Rightarrow> bool" where
  "git_config_global_write tokens = git_sub_is tokens [''config'']
     (\<lambda>after. if ''--global'' \<notin> set after \<and> ''--system'' \<notin> set after then False
        else if \<exists>t\<in>set after. t \<in> set git_config_write_ops then True
        else if \<exists>t\<in>set after. t \<in> set git_config_read_ops then False
        else length (git_positionals after) \<ge> 2)"

definition sudo_command :: "string list \<Rightarrow> bool" where
  "sudo_command tokens = first_is tokens ''sudo''"

definition package_managers :: "string list" where
  "package_managers = [''npm'', ''yarn'', ''pnpm'', ''bun'']"

definition package_publish :: "string list \<Rightarrow> bool" where
  "package_publish tokens =
     (tokens \<noteq> [] \<and> hd tokens \<in> set package_managers
      \<and> tl tokens \<noteq> [] \<and> hd (tl tokens) \<in> {''publish'', ''unpublish''} \<and> ''--dry-run'' \<notin> set tokens)"

definition rule_fns :: "(string \<times> (string list \<Rightarrow> bool)) list" where
  "rule_fns = [(''rm-rf-root'', rm_rf_root), (''rm-rf-home'', rm_rf_home), (''rm-git-dir'', rm_git_dir),
     (''git-reset-hard'', git_reset_hard), (''git-clean-fd'', git_clean_fd), (''git-push-force'', git_push_force),
     (''git-checkout-restore-all'', git_checkout_restore_all), (''git-remote-mutation'', git_remote_mutation),
     (''git-config-global-write'', git_config_global_write), (''sudo-command'', sudo_command),
     (''package-publish'', package_publish)]"

definition segment_rule :: "string list \<Rightarrow> string option" where
  "segment_rule segment = map_option fst (find (\<lambda>r. snd r segment) rule_fns)"

fun first_rule :: "string list list \<Rightarrow> string option" where
  "first_rule [] = None"
| "first_rule (s # ss) = (case segment_rule s of Some i \<Rightarrow> Some i | None \<Rightarrow> first_rule ss)"

definition find_catastrophic :: "string \<Rightarrow> string option" where
  "find_catastrophic command = first_rule (split_command_segments command)"

subsection \<open>Scanning what is written plainly\<close>

text \<open>A plain word has no space, no quote and no backslash.\<close>

definition plain_word :: "string \<Rightarrow> bool" where
  "plain_word w = (w \<noteq> [] \<and> (\<forall>c\<in>set w. \<not> is_js_space c \<and> c \<notin> {CHR 0x22, CHR 0x27, CHR 0x5C}))"

lemma is_js_space_blank [simp]: "is_js_space (CHR '' '')"
  by (simp add: is_js_space_def)

lemma scan_plain_word:
  "\<forall>c\<in>set w. \<not> is_js_space c \<and> c \<notin> {CHR 0x22, CHR 0x27, CHR 0x5C} \<Longrightarrow>
     scan_loop cur q (w @ rest) = scan_loop (cur @ w) q rest"
  by (induction w arbitrary: cur) auto

definition plain_token :: "string \<Rightarrow> shell_token" where
  "plain_token w = \<lparr>tok_text = w, tok_quoted = False\<rparr>"

lemma scan_word_then_space:
  assumes "plain_word w"
  shows "scan_loop [] False (w @ CHR '' '' # rest) = plain_token w # scan_loop [] False rest"
proof -
  have "scan_loop [] False (w @ CHR '' '' # rest) = scan_loop w False (CHR '' '' # rest)"
    using assms scan_plain_word[of w "[]" False] by (simp add: plain_word_def)
  also have "\<dots> = plain_token w # scan_loop [] False rest"
    using assms by (simp add: plain_word_def push_token_def plain_token_def)
  finally show ?thesis .
qed

lemma scan_last_word:
  assumes "plain_word w"
  shows "scan_loop [] False w = [plain_token w]"
  using assms scan_plain_word[of w "[]" False "[]"] by (simp add: plain_word_def push_token_def plain_token_def)

lemma scan_words:
  "list_all plain_word ws \<Longrightarrow> scan_shell (join_with '' '' ws) = map plain_token ws"
proof (induction ws)
  case Nil then show ?case by (simp add: scan_shell_def push_token_def)
next
  case (Cons w ws)
  show ?case
  proof (cases ws)
    case Nil
    with Cons.prems show ?thesis by (simp add: scan_shell_def scan_last_word)
  next
    case (Cons v vs)
    with Cons.prems Cons.IH show ?thesis by (simp add: scan_shell_def scan_word_then_space)
  qed
qed

text \<open>Commands written with a separator between their segments.\<close>

fun render_segments :: "(string list \<times> string) list \<Rightarrow> string list \<Rightarrow> string list" where
  "render_segments [] final = final"
| "render_segments ((seg, sep) # rest) final = seg @ sep # render_segments rest final"

definition plain_segment :: "string list \<Rightarrow> bool" where
  "plain_segment seg = (seg \<noteq> [] \<and> list_all (\<lambda>w. plain_word w \<and> w \<notin> set separators) seg)"

lemma split_plain_segment:
  "list_all (\<lambda>w. w \<notin> set separators) seg \<Longrightarrow>
     split_tokens cur (map plain_token seg @ ts) = split_tokens (cur @ seg) ts"
  by (induction seg arbitrary: cur) (auto simp: plain_token_def)

lemma split_rendered:
  "list_all (\<lambda>(s, sep). plain_segment s \<and> sep \<in> set separators) segs \<Longrightarrow> plain_segment final \<Longrightarrow>
     split_tokens [] (map plain_token (render_segments segs final)) = map fst segs @ [final]"
proof (induction segs)
  case Nil
  then show ?case
    using split_plain_segment[of final "[]" "[]"] by (auto simp: plain_segment_def list_all_iff)
next
  case (Cons e segs)
  obtain s sep where e: "e = (s, sep)" by (cases e)
  with Cons.prems have s: "list_all (\<lambda>w. w \<notin> set separators) s" "s \<noteq> []" "sep \<in> set separators"
    by (auto simp: plain_segment_def list_all_iff)
  have "split_tokens [] (map plain_token (render_segments (e # segs) final))
      = split_tokens s (plain_token sep # map plain_token (render_segments segs final))"
    using split_plain_segment[OF s(1), of "[]"] by (simp add: e)
  also have "\<dots> = s # split_tokens [] (map plain_token (render_segments segs final))"
    using s by (simp add: plain_token_def)
  finally show ?case using Cons e by simp
qed

lemma separators_plain: "sep \<in> set separators \<Longrightarrow> plain_word sep"
  by (auto simp: separators_def plain_word_def is_js_space_def)

lemma rendered_plain:
  "list_all (\<lambda>(s, sep). plain_segment s \<and> sep \<in> set separators) segs \<Longrightarrow> plain_segment final \<Longrightarrow>
     list_all plain_word (render_segments segs final)"
  by (induction segs) (auto simp: plain_segment_def list_all_iff separators_plain)

lemma segment_rule_None: "segment_rule s = None \<longleftrightarrow> (\<forall>r\<in>set rule_fns. \<not> snd r s)"
  by (force simp: segment_rule_def find_None_iff)

lemma first_rule_None: "first_rule ss = None \<longleftrightarrow> (\<forall>s\<in>set ss. segment_rule s = None)"
  by (induction ss) (simp_all split: option.splits)

text \<open>The guard sees every segment of a spaced command: for plain words joined by blanks, with any of
  the four separators between the segments, the scanner gives back exactly the segments, and the
  command passes exactly when no rule matches any of them.\<close>

theorem guard_sees_every_segment:
  assumes "list_all (\<lambda>(s, sep). plain_segment s \<and> sep \<in> set separators) segs" "plain_segment final"
  defines "command \<equiv> join_with '' '' (render_segments segs final)"
  shows "split_command_segments command = map fst segs @ [final]
    \<and> (find_catastrophic command = None \<longleftrightarrow>
         (\<forall>s\<in>set (map fst segs @ [final]). \<forall>r\<in>set rule_fns. \<not> snd r s))"
proof -
  have "scan_shell command = map plain_token (render_segments segs final)"
    unfolding command_def by (rule scan_words[OF rendered_plain[OF assms(1,2)]])
  then have "split_command_segments command = map fst segs @ [final]"
    by (simp add: split_command_segments_def split_rendered[OF assms(1,2)])
  then show ?thesis by (simp only: find_catastrophic_def first_rule_None segment_rule_None)
qed

theorem guard_sees_every_segment_witness:
  "split_command_segments ''ls -a && rm -rf /'' = [[''ls'', ''-a''], [''rm'', ''-rf'', ''/'']]
   \<and> find_catastrophic ''ls -a && rm -rf /'' \<noteq> None"
proof -
  have "plain_segment [''ls'', ''-a'']" "plain_segment [''rm'', ''-rf'', ''/'']" "''&&'' \<in> set separators"
    "rm_rf_root [''rm'', ''-rf'', ''/'']"
    by code_simp+
  with guard_sees_every_segment[of "[([''ls'', ''-a''], ''&&'')]" "[''rm'', ''-rf'', ''/'']"]
  show ?thesis by (auto simp: rule_fns_def)
qed

text \<open>Text in double quotes, without a quote or a backslash in it.\<close>

lemma scan_quoted_text:
  "CHR 0x22 \<notin> set t \<Longrightarrow> CHR 0x5C \<notin> set t \<Longrightarrow> scan_quoted (CHR 0x22) cur (t @ CHR 0x22 # rest) = (cur @ t, rest)"
  by (induction t arbitrary: cur) auto

text \<open>Quoted text is never taken for a command: whatever a commit message in double quotes says (short
  of a quote or a backslash), the commit is one harmless segment and no rule refuses it.\<close>

theorem commit_message_is_inert:
  assumes "CHR 0x22 \<notin> set msg" "CHR 0x5C \<notin> set msg"
  shows "find_catastrophic (''git commit -m '' @ [CHR 0x22] @ msg @ [CHR 0x22]) = None"
proof -
  have words: "plain_word ''git''" "plain_word ''commit''" "plain_word ''-m''" by code_simp+
  have "scan_shell (''git commit -m '' @ [CHR 0x22] @ msg @ [CHR 0x22])
      = map plain_token [''git'', ''commit'', ''-m''] @ push_token msg True []"
    using scan_word_then_space[OF words(1), of "''commit -m '' @ [CHR 0x22] @ msg @ [CHR 0x22]"]
      scan_word_then_space[OF words(2), of "''-m '' @ [CHR 0x22] @ msg @ [CHR 0x22]"]
      scan_word_then_space[OF words(3), of "[CHR 0x22] @ msg @ [CHR 0x22]"]
      scan_quoted_text[OF assms, of "[]" "[]"]
    by (simp add: scan_shell_def)
  then have "split_command_segments (''git commit -m '' @ [CHR 0x22] @ msg @ [CHR 0x22])
      = [[''git'', ''commit'', ''-m''] @ (if msg = [] then [] else [msg])]"
    by (simp add: split_command_segments_def plain_token_def push_token_def separators_def)
  moreover have "segment_rule (''git'' # ''commit'' # rest) = None" for rest
    by (simp add: segment_rule_None rule_fns_def rm_rf_root_def rm_rf_home_def rm_rf_def
        rm_git_dir_def first_is_def git_reset_hard_def git_clean_fd_def git_push_force_def
        git_checkout_restore_all_def git_remote_mutation_def git_config_global_write_def git_sub_is_def
        sudo_command_def package_publish_def package_managers_def git_subcommand_def is_flag_def starts_with_def)
  ultimately show ?thesis by (simp only: find_catastrophic_def first_rule_None append.simps) simp
qed

theorem commit_message_is_inert_witness:
  "find_catastrophic (''git commit -m '' @ [CHR 0x22] @ ''undo && rm -rf / '' @ [CHR 0x22]) = None"
  by (rule commit_message_is_inert) simp_all

text \<open>The scanner forgets to reset its quoted flag after an empty quoted word, so the separator that
  follows counts as quoted and joins the next command to the segment: \<open>echo "" && rm -rf /\<close> passes
  the guard, while the same command after a word is refused. A separator written without blanks,
  and a newline, do not end a segment either.\<close>

theorem empty_quotes_hide_a_command:
  "find_catastrophic (''echo '' @ [CHR 0x22, CHR 0x22] @ '' && rm -rf /'') = None
   \<and> find_catastrophic ''echo x && rm -rf /'' = Some ''rm-rf-root''
   \<and> find_catastrophic ''ls;rm -rf /'' = None
   \<and> find_catastrophic (''ls'' @ [CHR 0x0A] @ ''rm -rf /'') = None"
  by (intro conjI) code_simp+

end
