(* ===== verification/Path_Guard.thy ===== *)
theory Path_Guard
  imports Js_Value Command_Guard "HOL-Library.Sublist"
begin

section \<open>Path guards (core/path-policy.ts, core/path-guard.ts, core/worker-policy.ts, worker/path-scope.ts)\<close>

text \<open>
  Protected credential files, containment of a path in the project root, and the path contract of a
  delegated worker. \<open>realpath\<close> of the file system is a parameter; \<open>path.resolve\<close>,
  \<open>path.relative\<close> and \<open>path.dirname\<close> of Node are written out for POSIX.
\<close>

subsection \<open>Node's path functions\<close>

definition abs_segments :: "string \<Rightarrow> string list" where
  "abs_segments p = norm_segments False [] (split_on (CHR ''/'') p)"

definition abs_path :: "string list \<Rightarrow> string" where
  "abs_path ss = CHR ''/'' # join_with ''/'' ss"

text \<open>\<open>resolve(base, p)\<close> for an absolute \<open>base\<close>.\<close>

definition posix_resolve :: "string \<Rightarrow> string \<Rightarrow> string" where
  "posix_resolve base p = abs_path (abs_segments (if posix_is_absolute p then p else base @ ''/'' @ p))"

fun drop_common :: "string list \<Rightarrow> string list \<Rightarrow> string list \<times> string list" where
  "drop_common (a # as) (b # bs) = (if a = b then drop_common as bs else (a # as, b # bs))"
| "drop_common as bs = (as, bs)"

text \<open>\<open>relative(from, to)\<close> for two resolved paths.\<close>

definition posix_relative :: "string \<Rightarrow> string \<Rightarrow> string" where
  "posix_relative a b =
     (case drop_common (abs_segments a) (abs_segments b) of
        (up, down) \<Rightarrow> join_with ''/'' (replicate (length up) ''..'' @ down))"

definition posix_dirname :: "string \<Rightarrow> string" where
  "posix_dirname p =
     (if p = [] then ''.''
      else let s = rev (dropWhile (\<lambda>c. c = CHR ''/'') (rev p));
               cuts = filter (\<lambda>i. 1 \<le> i \<and> s ! i = CHR ''/'') [0..<length s]
           in if cuts = [] then (if hd p = CHR ''/'' then ''/'' else ''.'')
              else if hd p = CHR ''/'' \<and> last cuts = 1 then ''//'' else take (last cuts) p)"

subsection \<open>Protected files\<close>

definition exact_names :: "string list" where
  "exact_names = [''.env'', ''id_rsa'', ''id_ed25519'', ''id_ecdsa'', ''id_dsa'', ''auth.json'', ''.netrc'']"

definition prefix_names :: "string list" where
  "prefix_names = [''credentials.'', ''secrets.'', ''exchange-keys.'']"

definition env_allowlist :: "string list" where
  "env_allowlist = [''.env.example'', ''.env.template'']"

datatype protected_rule = Env_file | Credential_file | Private_key_file | Keystore_file | Token_file

record protected_match =
  pm_rule :: protected_rule
  pm_basename :: string

text \<open>\<open>path.replace(/^~\/?/, "")\<close>\<close>

definition strip_home :: "string \<Rightarrow> string" where
  "strip_home p = (if starts_with ''~/'' p then drop 2 p else if starts_with ''~'' p then drop 1 p else p)"

definition match_protected :: "string \<Rightarrow> protected_match option" where
  "match_protected path =
     (let name = to_lower (posix_basename (strip_home path));
          hit = (\<lambda>r. Some \<lparr>pm_rule = r, pm_basename = name\<rparr>)
      in if name = ''.env'' then hit Env_file
         else if starts_with ''.env.'' name \<and> name \<notin> set env_allowlist then hit Env_file
         else if name \<in> set exact_names then hit Credential_file
         else if \<exists>p\<in>set prefix_names. starts_with p name then hit Credential_file
         else if ends_with ''.pem'' name \<or> ends_with ''.key'' name \<or> ends_with ''.p8'' name then hit Private_key_file
         else if ends_with ''.p12'' name \<or> ends_with ''.pfx'' name \<or> ends_with ''.jks'' name then hit Keystore_file
         else if ends_with ''.token'' name then hit Token_file
         else None)"

definition path_arg_tools :: "string list" where
  "path_arg_tools = [''read'', ''edit'', ''write'', ''ls'', ''find'', ''grep'']"

definition write_tools :: "string list" where
  "write_tools = [''edit'', ''write'']"

fun input_fields :: "jv \<Rightarrow> fields option" where
  "input_fields (JObj f) = Some f"
| "input_fields (JArr vs) = Some []"
| "input_fields (JExotic k) = Some []"
| "input_fields _ = None"

definition extract_tool_path :: "string \<Rightarrow> jv \<Rightarrow> string option" where
  "extract_tool_path tool v =
     (if tool \<notin> set path_arg_tools then None
      else case input_fields v of None \<Rightarrow> None
      | Some f \<Rightarrow> (case get_prop f ''path'' of JStr p \<Rightarrow> if p \<noteq> [] then Some p else None | _ \<Rightarrow> None))"

datatype path_block =
    Blocks_modifying string protected_rule
  | Blocks_reading string string protected_rule
  | Blocks_shell_reading string string protected_rule string

definition path_policy_block :: "string \<Rightarrow> string \<Rightarrow> jv \<Rightarrow> path_block option" where
  "path_policy_block mode tool v =
     (case extract_tool_path tool v of None \<Rightarrow> None
      | Some path \<Rightarrow>
          (case match_protected path of None \<Rightarrow> None
           | Some m \<Rightarrow>
               if tool \<in> set write_tools then Some (Blocks_modifying path (pm_rule m))
               else if mode \<noteq> ''DEV'' then Some (Blocks_reading mode path (pm_rule m)) else None))"

definition display_readers :: "string list" where
  "display_readers = [''cat'', ''head'', ''tail'', ''less'', ''more'', ''sed'', ''xxd'', ''base64'', ''strings'',
     ''vi'', ''vim'', ''nano'', ''view'']"

fun protected_token :: "string list \<Rightarrow> (string \<times> protected_rule) option" where
  "protected_token [] = None"
| "protected_token (t # ts) =
     (if starts_with ''-'' t then protected_token ts
      else case match_protected t of Some m \<Rightarrow> Some (t, pm_rule m) | None \<Rightarrow> protected_token ts)"

fun protected_segment :: "string \<Rightarrow> string list list \<Rightarrow> path_block option" where
  "protected_segment mode [] = None"
| "protected_segment mode (seg # segs) =
     (if seg = [] \<or> hd seg \<notin> set display_readers then protected_segment mode segs
      else case protected_token (tl seg) of
             Some (t, r) \<Rightarrow> Some (Blocks_shell_reading mode t r (hd seg))
           | None \<Rightarrow> protected_segment mode segs)"

definition bash_protected_read :: "string \<Rightarrow> string \<Rightarrow> path_block option" where
  "bash_protected_read mode command =
     (if mode = ''DEV'' then None else protected_segment mode (split_command_segments command))"

subsection \<open>Containment in the project root\<close>

definition lexical_contain :: "string \<Rightarrow> string \<Rightarrow> string \<Rightarrow> string option" where
  "lexical_contain cwd dir target =
     (let root_abs = posix_resolve cwd dir; target_abs = posix_resolve root_abs target
      in if target_abs = root_abs then Some root_abs
         else if \<not> starts_with (root_abs @ ''/'') target_abs then None
         else Some target_abs)"

text \<open>The measure of the walk to the deepest existing ancestor.\<close>

definition path_depth :: "string \<Rightarrow> nat" where
  "path_depth p = (if p = ''.'' then 0 else Suc (length p))"

lemma dirname_depth: "posix_dirname p \<noteq> p \<Longrightarrow> path_depth (posix_dirname p) < path_depth p"
proof -
  assume ne: "posix_dirname p \<noteq> p"
  define s where "s = rev (dropWhile (\<lambda>c. c = CHR ''/'') (rev p))"
  define cuts where "cuts = filter (\<lambda>i. 1 \<le> i \<and> s ! i = CHR ''/'') [0..<length s]"
  have len: "length s \<le> length p" unfolding s_def by (metis length_dropWhile_le length_rev)
  have dir: "posix_dirname p = (if p = [] then ''.'' else if cuts = [] then (if hd p = CHR ''/'' then ''/'' else ''.'')
      else if hd p = CHR ''/'' \<and> last cuts = 1 then ''//'' else take (last cuts) p)"
    by (simp add: posix_dirname_def Let_def cuts_def s_def)
  consider "posix_dirname p = ''.''" | "posix_dirname p = ''/''" "p \<noteq> []" "hd p = CHR ''/''"
    | "posix_dirname p = ''//''" "cuts \<noteq> []" "last cuts = 1" | "posix_dirname p = take (last cuts) p" "cuts \<noteq> []"
    using dir by (auto split: if_splits)
  then show ?thesis
  proof cases
    case 1
    then show ?thesis using ne by (auto simp: path_depth_def)
  next
    case 2
    then have "length p \<noteq> 1" using ne by (cases p) auto
    then have "2 \<le> length p" using 2 by (cases p) (auto simp: Suc_le_eq)
    then show ?thesis using 2 by (auto simp: path_depth_def)
  next
    case 3
    then have "1 \<in> set cuts" by (metis last_in_set)
    then have "1 < length s" "s ! 1 = CHR ''/''" by (auto simp: cuts_def)
    moreover have "last s \<noteq> CHR ''/''"
    proof -
      have r: "rev s = dropWhile (\<lambda>c. c = CHR ''/'') (rev p)" by (simp add: s_def)
      have "rev s \<noteq> []" using \<open>1 < length s\<close> by auto
      then have "hd (rev s) \<noteq> CHR ''/''" unfolding r by (rule hd_dropWhile)
      then show ?thesis by (simp add: hd_rev)
    qed
    ultimately have "length s \<noteq> 2" by (cases "s = []") (auto simp: last_conv_nth numeral_2_eq_2)
    with \<open>1 < length s\<close> len have "2 < length p" by linarith
    then show ?thesis using 3 by (auto simp: path_depth_def)
  next
    case 4
    then have "last cuts \<in> set cuts" by simp
    then have "last cuts < length s" "1 \<le> last cuts" by (auto simp: cuts_def)
    with len 4 show ?thesis by (auto simp: path_depth_def split: if_splits)
  qed
qed

function realpath_walk :: "(string \<Rightarrow> string option) \<Rightarrow> string \<Rightarrow> string list \<Rightarrow> string \<Rightarrow> string" where
  "realpath_walk rp target tail_segs cur =
     (case rp cur of
        Some r \<Rightarrow> posix_normalize (join_with ''/'' (r # tail_segs))
      | None \<Rightarrow>
          (let parent = posix_dirname cur
           in if parent = cur then target
              else realpath_walk rp target (posix_basename cur # tail_segs) parent))"
  by pat_completeness auto
termination by (relation "measure (\<lambda>(_, _, _, cur). path_depth cur)") (auto intro: dirname_depth)

declare realpath_walk.simps [simp del]

definition realpath_deepest :: "(string \<Rightarrow> string option) \<Rightarrow> string \<Rightarrow> string" where
  "realpath_deepest rp target = realpath_walk rp target [] target"

definition realpath_contained :: "(string \<Rightarrow> string option) \<Rightarrow> string \<Rightarrow> string \<Rightarrow> string \<Rightarrow> string option" where
  "realpath_contained rp cwd dir target =
     (case lexical_contain cwd dir target of None \<Rightarrow> None
      | Some lexed \<Rightarrow>
          let root_real = (case rp dir of Some r \<Rightarrow> r | None \<Rightarrow> posix_resolve cwd dir);
              target_real = realpath_deepest rp lexed
          in if target_real = root_real then Some target_real
             else if \<not> starts_with (root_real @ ''/'') target_real then None else Some target_real)"

subsection \<open>The path contract of a worker\<close>

definition is_inside :: "string \<Rightarrow> string \<Rightarrow> bool" where
  "is_inside dir candidate =
     (let rel = posix_relative dir candidate
      in rel = [] \<or> \<not> starts_with ''../'' rel \<and> rel \<noteq> ''..'' \<and> \<not> posix_is_absolute rel)"

definition strip_slashes :: "string \<Rightarrow> string" where
  "strip_slashes s = rev (dropWhile (\<lambda>c. c = CHR ''/'' \<or> c = CHR 0x5C) (rev s))"

definition normalize_worker_rule :: "string \<Rightarrow> string \<Rightarrow> (string \<times> bool) option" where
  "normalize_worker_rule dir rule =
     (let trimmed = js_trim rule;
          sub = (ends_with ''/**'' trimmed \<or> ends_with ''/'' trimmed);
          bare = (if ends_with ''/**'' trimmed then drop_last 3 trimmed else strip_slashes trimmed)
      in if trimmed = [] \<or> posix_is_absolute trimmed \<or> bare = [] then None
         else let p = posix_resolve dir bare in if is_inside dir p then Some (p, sub) else None)"

definition is_worker_path_allowed :: "string \<Rightarrow> string \<Rightarrow> string \<Rightarrow> string list \<Rightarrow> bool" where
  "is_worker_path_allowed cwd project_root candidate_path allowed =
     (let dir = posix_resolve cwd project_root; candidate = posix_resolve dir candidate_path
      in \<not> posix_is_absolute candidate_path \<and> is_inside dir candidate
         \<and> (\<exists>raw\<in>set allowed. case normalize_worker_rule dir raw of None \<Rightarrow> False
              | Some (p, sub) \<Rightarrow> candidate = p \<or> sub \<and> is_inside p candidate))"

text \<open>\<open>isInside\<close> of worker/path-scope.ts compares text.\<close>

definition inside_text :: "string \<Rightarrow> string \<Rightarrow> bool" where
  "inside_text dir candidate = (candidate = dir \<or> starts_with (dir @ ''/'') candidate)"

definition parse_scope_rule :: "string \<Rightarrow> string \<Rightarrow> string \<Rightarrow> (string \<times> bool) option" where
  "parse_scope_rule cwd project_root raw =
     (let trimmed = js_trim raw;
          sub = (ends_with ''/**'' trimmed \<or> trimmed \<noteq> [] \<and> (last trimmed = CHR ''/'' \<or> last trimmed = CHR 0x5C));
          bare = (if ends_with ''/**'' trimmed then drop_last 3 trimmed else strip_slashes trimmed)
      in if trimmed = [] \<or> bare = [] then None
         else map_option (\<lambda>p. (p, sub)) (lexical_contain cwd project_root bare))"

definition is_worker_path_allowed_realpath ::
  "(string \<Rightarrow> string option) \<Rightarrow> string \<Rightarrow> string \<Rightarrow> string \<Rightarrow> string list \<Rightarrow> bool" where
  "is_worker_path_allowed_realpath rp cwd project_root candidate_path allowed =
     (is_worker_path_allowed cwd project_root candidate_path allowed
      \<and> (case realpath_contained rp cwd project_root candidate_path of None \<Rightarrow> False
         | Some candidate_real \<Rightarrow>
             let root_real = realpath_deepest rp (posix_resolve cwd project_root)
             in \<exists>raw\<in>set allowed. case parse_scope_rule cwd project_root raw of None \<Rightarrow> False
                  | Some (lexical_path, sub) \<Rightarrow>
                      let rule_real = realpath_deepest rp lexical_path
                      in inside_text root_real rule_real
                         \<and> (candidate_real = rule_real \<or> sub \<and> inside_text rule_real candidate_real)))"

subsection \<open>Resolved paths and their segments\<close>

definition clean_segments :: "string list \<Rightarrow> bool" where
  "clean_segments ss = (\<forall>s\<in>set ss. s \<noteq> [] \<and> s \<noteq> ''.'' \<and> s \<noteq> ''..'' \<and> CHR ''/'' \<notin> set s)"

lemma norm_absolute_clean:
  "clean_segments acc \<Longrightarrow> \<forall>s\<in>set ss. CHR ''/'' \<notin> set s \<Longrightarrow> clean_segments (norm_segments False acc ss)"
proof (induction ss arbitrary: acc)
  case (Cons s ss)
  have rest: "\<forall>s\<in>set ss. CHR ''/'' \<notin> set s" and s: "CHR ''/'' \<notin> set s" using Cons.prems(2) by simp_all
  have tl: "clean_segments as" if "acc = a # as" for a as using Cons.prems(1) that by (simp add: clean_segments_def)
  have up: "a \<noteq> ''..''" if "acc = a # as" for a as using Cons.prems(1) that by (simp add: clean_segments_def)
  consider "s = [] \<or> s = ''.''" | "s = ''..''" | "s \<noteq> []" "s \<noteq> ''.''" "s \<noteq> ''..''" by blast
  then show ?case
  proof cases
    case 1
    then show ?thesis using Cons.IH[OF Cons.prems(1) rest] by auto
  next
    case 2
    then show ?thesis
      using Cons.IH[OF Cons.prems(1) rest] Cons.IH[OF tl rest] up by (cases acc) simp_all
  next
    case 3
    then have "clean_segments (s # acc)" using Cons.prems(1) s by (simp add: clean_segments_def)
    from Cons.IH[OF this rest] 3 show ?thesis by simp
  qed
qed (simp add: clean_segments_def)

lemma abs_segments_clean: "clean_segments (abs_segments p)"
  unfolding abs_segments_def
  by (rule norm_absolute_clean) (auto simp: clean_segments_def dest: split_on_segment)

lemma norm_clean: "clean_segments ss \<Longrightarrow> norm_segments False acc ss = rev acc @ ss"
  by (induction ss arbitrary: acc) (auto simp: clean_segments_def)

lemma abs_segments_path [simp]: "clean_segments ss \<Longrightarrow> abs_segments (abs_path ss) = ss"
proof -
  assume clean: "clean_segments ss"
  have "split_on (CHR ''/'') (abs_path ss) = [] # split_on (CHR ''/'') (join_with ''/'' ss)"
    by (simp add: abs_path_def)
  then have "abs_segments (abs_path ss) = norm_segments False [] (split_on (CHR ''/'') (join_with ''/'' ss))"
    by (simp add: abs_segments_def)
  also have "\<dots> = ss"
  proof (cases "ss = []")
    case False
    have "\<forall>s\<in>set ss. CHR ''/'' \<notin> set s" using clean by (simp add: clean_segments_def)
    from split_join[OF False this] show ?thesis using norm_clean[OF clean, of "[]"] by simp
  qed simp
  finally show ?thesis .
qed

lemma abs_path_inj: "clean_segments a \<Longrightarrow> clean_segments b \<Longrightarrow> abs_path a = abs_path b \<longleftrightarrow> a = b"
  by (metis abs_segments_path)

lemma resolve_segments: "\<exists>ss. clean_segments ss \<and> posix_resolve base p = abs_path ss \<and> abs_segments (posix_resolve base p) = ss"
  using abs_segments_clean by (auto simp: posix_resolve_def)

lemma drop_common_prefix: "fst (drop_common a b) = [] \<longleftrightarrow> prefix a b"
  by (induction a b rule: drop_common.induct) (auto split: if_splits)

lemma drop_common_down: "set (snd (drop_common a b)) \<subseteq> set b"
  by (induction a b rule: drop_common.induct) auto

lemma drop_common_nil: "fst (drop_common a b) = [] \<Longrightarrow> snd (drop_common a b) = [] \<longleftrightarrow> a = b"
  by (induction a b rule: drop_common.induct) (auto split: if_splits)

lemma join_clean_head:
  assumes "clean_segments ss" "ss \<noteq> []"
  shows "join_with ''/'' ss \<noteq> []" "\<not> starts_with ''../'' (join_with ''/'' ss)" "join_with ''/'' ss \<noteq> ''..''"
    "\<not> starts_with ''/'' (join_with ''/'' ss)"
proof -
  obtain s rest where ss: "ss = s # rest" using assms(2) by (cases ss) auto
  have s: "s \<noteq> []" "s \<noteq> ''..''" "CHR ''/'' \<notin> set s" using assms(1) by (auto simp: ss clean_segments_def)
  have split: "split_on (CHR ''/'') (join_with ''/'' ss) = ss"
    using assms by (intro split_join) (auto simp: clean_segments_def)
  show ne: "join_with ''/'' ss \<noteq> []" using s(1) by (cases rest) (auto simp: ss)
  show "\<not> starts_with ''../'' (join_with ''/'' ss)"
  proof
    assume "starts_with ''../'' (join_with ''/'' ss)"
    then obtain r where "join_with ''/'' ss = ''..'' @ CHR ''/'' # r" by (auto simp: starts_with_append)
    with split split_on_append[of "CHR ''/''" "''..''" r] ss s(2) show False by simp
  qed
  show "join_with ''/'' ss \<noteq> ''..''"
  proof
    assume "join_with ''/'' ss = ''..''"
    with split ss s(2) show False by simp
  qed
  show "\<not> starts_with ''/'' (join_with ''/'' ss)"
    using s by (cases s; cases rest) (auto simp: ss starts_with_def)
qed

lemma is_inside_segments:
  assumes "clean_segments a" "clean_segments b"
  shows "is_inside (abs_path a) (abs_path b) \<longleftrightarrow> prefix a b"
proof -
  obtain up down where ud: "drop_common a b = (up, down)" by (cases "drop_common a b")
  have clean: "clean_segments down" using assms(2) drop_common_down[of a b] ud by (auto simp: clean_segments_def)
  have rel: "posix_relative (abs_path a) (abs_path b) = join_with ''/'' (replicate (length up) ''..'' @ down)"
    using assms ud by (simp add: posix_relative_def)
  show ?thesis
  proof (cases up)
    case Nil
    with drop_common_prefix[of a b] ud have "prefix a b" by simp
    moreover have "is_inside (abs_path a) (abs_path b)"
      using join_clean_head[OF clean] Nil by (cases "down = []") (auto simp: is_inside_def rel posix_is_absolute_def)
    ultimately show ?thesis by simp
  next
    case (Cons x xs)
    with drop_common_prefix[of a b] ud have "\<not> prefix a b" by simp
    moreover have "join_with ''/'' (''..'' # ts) \<noteq> []
        \<and> (join_with ''/'' (''..'' # ts) = ''..'' \<or> starts_with ''../'' (join_with ''/'' (''..'' # ts)))" for ts
      by (cases ts) (auto simp: starts_with_def)
    from this[of "replicate (length xs) ''..'' @ down"] have "\<not> is_inside (abs_path a) (abs_path b)"
      unfolding is_inside_def rel Cons Let_def by auto
    ultimately show ?thesis by simp
  qed
qed

lemma text_inside_segments:
  assumes "clean_segments a" "clean_segments b" "starts_with (abs_path a @ ''/'') (abs_path b)"
  shows "prefix a b" "a \<noteq> b"
proof -
  obtain t where t: "abs_path b = abs_path a @ CHR ''/'' # t" using assms(3) by (auto simp: starts_with_append)
  show "a \<noteq> b" using t by auto
  show "prefix a b"
  proof (cases "a = []")
    case False
    have slashless: "\<forall>s\<in>set x. CHR ''/'' \<notin> set s" if "clean_segments x" for x
      using that by (simp add: clean_segments_def)
    have "b \<noteq> []"
    proof
      assume "b = []"
      then have "length (abs_path b) = 1" by (simp add: abs_path_def)
      then show False using t by (simp add: abs_path_def)
    qed
    have "[] # b = split_on (CHR ''/'') (abs_path b)"
      using split_join[OF \<open>b \<noteq> []\<close> slashless[OF assms(2)]] by (simp add: abs_path_def)
    also have "\<dots> = ([] # a) @ split_on (CHR ''/'') t"
      using split_join[OF False slashless[OF assms(1)]] by (simp only: t split_on_join) (simp add: abs_path_def)
    finally show ?thesis by (auto simp: prefix_def)
  qed simp
qed

definition rule_segments :: "string \<Rightarrow> string \<Rightarrow> (string list \<times> bool) option" where
  "rule_segments base raw =
     (let t = js_trim raw; bare = (if ends_with ''/**'' t then drop_last 3 t else strip_slashes t)
      in if t = [] \<or> posix_is_absolute t \<or> bare = [] then None
         else Some (abs_segments (posix_resolve base bare), ends_with ''/**'' t \<or> ends_with ''/'' t))"

text \<open>The path contract of a worker, on path segments instead of text: a write is in scope exactly when
  its path is relative, resolves below the project root, and some rule that itself resolves below the
  root names it, or names a subtree it lies in; climbing out with \<open>..\<close>, absolute
  paths, and rules outside the root never grant anything.\<close>

theorem worker_scope_on_segments:
  fixes cwd project candidate :: string and allowed :: "string list"
  defines "base \<equiv> posix_resolve cwd project"
  defines "R \<equiv> abs_segments base" and "C \<equiv> abs_segments (posix_resolve base candidate)"
  shows "is_worker_path_allowed cwd project candidate allowed \<longleftrightarrow>
     \<not> posix_is_absolute candidate \<and> prefix R C
     \<and> (\<exists>raw\<in>set allowed. \<exists>B sub. rule_segments base raw = Some (B, sub) \<and> prefix R B \<and> (C = B \<or> sub \<and> prefix B C))"
proof -
  have base: "clean_segments R" "base = abs_path R"
    using resolve_segments[of cwd project] by (auto simp: R_def base_def)
  have cand: "clean_segments C" "posix_resolve base candidate = abs_path C"
    using resolve_segments[of base candidate] by (auto simp: C_def)
  have rule: "(case normalize_worker_rule base raw of None \<Rightarrow> False
       | Some (p, sub) \<Rightarrow> posix_resolve base candidate = p \<or> sub \<and> is_inside p (posix_resolve base candidate))
     \<longleftrightarrow> (\<exists>B sub. rule_segments base raw = Some (B, sub) \<and> prefix R B \<and> (C = B \<or> sub \<and> prefix B C))" for raw
  proof -
    define t where "t = js_trim raw"
    define bare where "bare = (if ends_with ''/**'' t then drop_last 3 t else strip_slashes t)"
    define sub where "sub = (ends_with ''/**'' t \<or> ends_with ''/'' t)"
    define B where "B = abs_segments (posix_resolve base bare)"
    have B: "clean_segments B" "posix_resolve base bare = abs_path B"
      using resolve_segments[of base bare] by (auto simp: B_def)
    have n: "normalize_worker_rule base raw = (if t = [] \<or> posix_is_absolute t \<or> bare = [] then None
        else if is_inside base (posix_resolve base bare) then Some (posix_resolve base bare, sub) else None)"
      unfolding normalize_worker_rule_def t_def[symmetric] bare_def[symmetric] sub_def[symmetric] Let_def by simp
    have s: "rule_segments base raw = (if t = [] \<or> posix_is_absolute t \<or> bare = [] then None else Some (B, sub))"
      unfolding rule_segments_def t_def[symmetric] Let_def bare_def[symmetric] sub_def[symmetric] B_def by simp
    have "is_inside base (abs_path B) \<longleftrightarrow> prefix R B" "is_inside (abs_path B) (abs_path C) \<longleftrightarrow> prefix B C"
      using is_inside_segments base B cand by simp_all
    moreover have "abs_path C = abs_path B \<longleftrightarrow> C = B" using abs_path_inj cand B by blast
    ultimately show ?thesis unfolding n s cand(2) B(2) by simp
  qed
  have "is_inside base (posix_resolve base candidate) \<longleftrightarrow> prefix R C"
    unfolding cand(2) using is_inside_segments[OF base(1) cand(1)] by (simp add: base(2)[symmetric])
  then show ?thesis
    unfolding is_worker_path_allowed_def base_def[symmetric] Let_def rule by simp
qed

text \<open>A recipe path that passes the guard stays inside the project twice: lexically, the path it stands
  for has the project root's segments as a beginning (no \<open>..\<close> survives), and after symbolic links
  are resolved, by whatever \<open>realpath\<close> answers, the result is the real root or text below it.\<close>

theorem contained_paths_stay_inside:
  assumes "realpath_contained rp cwd project target = Some p"
  defines "real_root \<equiv> (case rp project of Some r \<Rightarrow> r | None \<Rightarrow> posix_resolve cwd project)"
  shows "(\<exists>l. lexical_contain cwd project target = Some l
            \<and> prefix (abs_segments (posix_resolve cwd project)) (abs_segments l) \<and> ''..'' \<notin> set (abs_segments l)
            \<and> p = realpath_deepest rp l)
    \<and> inside_text real_root p"
proof -
  obtain l where l: "lexical_contain cwd project target = Some l" and p: "p = realpath_deepest rp l"
    and inside: "inside_text real_root p"
    using assms by (auto simp: realpath_contained_def inside_text_def Let_def split: option.splits if_splits)
  define R where "R = abs_segments (posix_resolve cwd project)"
  have R: "clean_segments R" "posix_resolve cwd project = abs_path R"
    using resolve_segments[of cwd project] by (auto simp: R_def)
  define T where "T = abs_segments (posix_resolve (abs_path R) target)"
  have T: "clean_segments T" "posix_resolve (abs_path R) target = abs_path T"
    using resolve_segments[of "abs_path R" target] by (auto simp: T_def)
  have "l = abs_path R \<or> l = abs_path T \<and> starts_with (abs_path R @ ''/'') (abs_path T)"
    using l unfolding lexical_contain_def Let_def R(2) T(2) by (auto split: if_splits)
  then have "prefix R (abs_segments l)" "clean_segments (abs_segments l)"
    using text_inside_segments(1)[OF R(1) T(1)] R(1) T(1) by auto
  with l p inside show ?thesis by (auto simp: R_def clean_segments_def)
qed

theorem contained_paths_stay_inside_witness:
  "inside_text ''/p'' ''/p/a''"
proof -
  have "realpath_contained Some ''/'' ''/p'' ''x/../a'' = Some ''/p/a''"
    by (simp add: realpath_contained_def realpath_deepest_def realpath_walk.simps) code_simp
  from contained_paths_stay_inside[OF this] show ?thesis by simp
qed

subsection \<open>The walk to the deepest existing ancestor\<close>

text \<open>The ancestors of a path, and the names between an ancestor and the path.\<close>

definition ancestor :: "nat \<Rightarrow> string \<Rightarrow> string" where
  "ancestor k p = (posix_dirname ^^ k) p"

definition names_below :: "nat \<Rightarrow> string \<Rightarrow> string list" where
  "names_below k p = map (\<lambda>j. posix_basename (ancestor j p)) (rev [0..<k])"

lemma ancestor_Suc: "ancestor (Suc k) p = ancestor k (posix_dirname p)" "ancestor 0 p = p"
  by (simp_all only: ancestor_def funpow_Suc_right comp_def funpow_0)

lemma rev_upt_Suc: "rev [0..<Suc k] = map Suc (rev [0..<k]) @ [0]"
  by (simp only: upt_conv_Cons zero_less_Suc rev.simps map_Suc_upt[symmetric] rev_map)

lemma names_below_Suc: "names_below (Suc k) p = names_below k (posix_dirname p) @ [posix_basename p]" "names_below 0 p = []"
proof -
  have "names_below (Suc k) p = map (\<lambda>j. posix_basename (ancestor j p)) (map Suc (rev [0..<k])) @ [posix_basename (ancestor 0 p)]"
    by (simp only: names_below_def rev_upt_Suc map_append list.map)
  then show "names_below (Suc k) p = names_below k (posix_dirname p) @ [posix_basename p]"
    by (simp only: map_map comp_def ancestor_Suc names_below_def)
qed (simp add: names_below_def)

lemma realpath_walk_result:
  "\<exists>k\<le>path_depth cur. map (\<lambda>j. rp (ancestor j cur)) [0..<k] = replicate k None
     \<and> (case rp (ancestor k cur) of
          Some r \<Rightarrow> realpath_walk rp target names cur = posix_normalize (join_with ''/'' (r # names_below k cur @ names))
        | None \<Rightarrow> posix_dirname (ancestor k cur) = ancestor k cur \<and> realpath_walk rp target names cur = target)"
proof (induction rp target names cur rule: realpath_walk.induct)
  case (1 rp target names cur)
  let ?parent = "posix_dirname cur"
  show ?case
  proof (cases "rp cur = None \<and> ?parent \<noteq> cur")
    case False
    then show ?thesis
      by (intro exI[of _ 0]) (auto simp: ancestor_Suc(2) names_below_Suc(2) realpath_walk.simps[of rp target names cur] split: option.splits)
  next
    case True
    then have step: "realpath_walk rp target names cur = realpath_walk rp target (posix_basename cur # names) ?parent"
      by (simp add: realpath_walk.simps[of rp target names cur] Let_def)
    have "path_depth ?parent < path_depth cur" using True dirname_depth by blast
    moreover have "rp cur = None" "?parent \<noteq> cur" using True by blast+
    from "1"[OF this(1) refl this(2)] obtain k where k: "k \<le> path_depth ?parent"
      "map (\<lambda>j. rp (ancestor j ?parent)) [0..<k] = replicate k None"
      "case rp (ancestor k ?parent) of
          Some r \<Rightarrow> realpath_walk rp target (posix_basename cur # names) ?parent
             = posix_normalize (join_with ''/'' (r # names_below k ?parent @ posix_basename cur # names))
        | None \<Rightarrow> posix_dirname (ancestor k ?parent) = ancestor k ?parent
             \<and> realpath_walk rp target (posix_basename cur # names) ?parent = target"
      by (elim exE conjE) (rule that)
    moreover note k
    moreover have "map (\<lambda>j. rp (ancestor j cur)) [0..<Suc k] = replicate (Suc k) None"
      using True k(2) by (simp only: upt_conv_Cons zero_less_Suc list.map ancestor_Suc map_Suc_upt[symmetric] map_map comp_def replicate_Suc)
    ultimately show ?thesis
      using step by (intro exI[of _ "Suc k"] conjI) (simp_all only: ancestor_Suc names_below_Suc append_assoc append_Cons append_Nil)
  qed
qed

text \<open>The search for the deepest existing ancestor ends on every path, relative ones included, after at most as many
  steps up as the path is deep: it probes the path and its ancestors in order, all missing up to the one it stops
  at, and returns either the real path of that ancestor with the missing names put back, or, when even the
  last ancestor is missing, the path it was given.\<close>

theorem realpath_walk_terminates:
  "\<exists>k\<le>path_depth p. map (\<lambda>j. rp (ancestor j p)) [0..<k] = replicate k None
     \<and> (case rp (ancestor k p) of
          Some r \<Rightarrow> realpath_deepest rp p = posix_normalize (join_with ''/'' (r # names_below k p))
        | None \<Rightarrow> posix_dirname (ancestor k p) = ancestor k p \<and> realpath_deepest rp p = p)"
  using realpath_walk_result[of p rp p "[]"] unfolding realpath_deepest_def append_Nil2 .

end
