(* ===== verification/Write_Authority.thy ===== *)
theory Write_Authority
  imports Js_Value "HOL-Library.Sublist"
begin

section \<open>Write authority and commander leases (core/write-authority.ts)\<close>

text \<open>
  Who may write: the actor is found from the environment and the model identity; the commander's
  ordinary writes are direct, and a write on a high-risk path needs a temporary lease the user
  issued and confirmed. \<open>Date.parse\<close> and \<open>toISOString\<close> are parameters (\<open>parse_date\<close>, \<open>to_iso\<close>);
  times are milliseconds.
\<close>

subsection \<open>Actors\<close>

datatype actor_role = Sol_commander | Delegated_worker | Other_controller

record actor_facts =
  af_role_env :: "string option"
  af_provider :: "string option"
  af_model :: "string option"

definition commander_model :: string where "commander_model = ''gpt-5.6-sol''"

definition commander_providers :: "string list" where
  "commander_providers = [''openai'', ''openai-codex'']"

definition is_approved_sol :: "string option \<Rightarrow> string option \<Rightarrow> bool" where
  "is_approved_sol provider model =
     (model = Some commander_model \<and> (case provider of None \<Rightarrow> False | Some p \<Rightarrow> p \<in> set commander_providers))"

definition detect_actor_role :: "actor_facts \<Rightarrow> actor_role" where
  "detect_actor_role f =
     (if af_role_env f = Some ''worker'' then Delegated_worker
      else if is_approved_sol (af_provider f) (af_model f) then Sol_commander else Other_controller)"

datatype write_policy = Worker_first_strict

definition default_write_policy :: "string option \<Rightarrow> string option \<Rightarrow> write_policy option" where
  "default_write_policy provider model =
     (if is_approved_sol provider model then Some Worker_first_strict else None)"

definition strict_allowlist :: "string list" where
  "strict_allowlist =
     [''read'', ''grep'', ''find'', ''ls'', ''workbench_project_inspect'', ''workbench_run_recipe'',
      ''workbench_read_run'', ''workbench_run_gate'', ''workbench_read_gate'', ''workbench_list_gates'',
      ''workbench_compare_runs'', ''workbench_delegate_worker'', ''workbench_review_worker_diff'',
      ''workbench_delegation_status'', ''workbench_recover_tool_result'', ''workbench_git'',
      ''workbench_repair_delegation'']"

definition development_first_allowlist :: "string list" where
  "development_first_allowlist = strict_allowlist @ [''edit'', ''write'']"

definition apply_strict_allowlist :: "string list \<Rightarrow> string list" where
  "apply_strict_allowlist active = filter (\<lambda>t. t \<in> set active) strict_allowlist"

definition foreign_tools :: "string list \<Rightarrow> string list" where
  "foreign_tools active = sort (filter (\<lambda>t. t \<notin> set strict_allowlist) (remdups active))"

subsection \<open>Paths of leases\<close>

definition is_letter :: "char \<Rightarrow> bool" where
  "is_letter c = (is_upper c \<or> is_lower c)"

definition lease_absolute :: "string \<Rightarrow> bool" where
  "lease_absolute raw =
     (starts_with ''/'' raw \<or> starts_with [CHR 0x5C] raw
      \<or> length raw \<ge> 2 \<and> is_letter (raw ! 0) \<and> raw ! 1 = CHR '':'')"

definition slash_segments :: "string \<Rightarrow> string list" where
  "slash_segments raw =
     filter (\<lambda>s. s \<noteq> [] \<and> s \<noteq> ''.'')
       (split_on (CHR ''/'') (map (\<lambda>c. if c = CHR 0x5C then CHR ''/'' else c) raw))"

definition normalize_project_relative :: "string \<Rightarrow> string option" where
  "normalize_project_relative raw =
     (if lease_absolute raw then None
      else let ss = slash_segments raw
           in if ss = [] \<or> ''..'' \<in> set ss then None else Some (join_with ''/'' ss))"

record lease_rule =
  rl_path :: string
  rl_subtree :: bool

definition normalize_lease_rule :: "string \<Rightarrow> lease_rule option" where
  "normalize_lease_rule raw =
     (let t = js_trim raw;
          deep = (ends_with ''/**'' t \<or> ends_with (CHR 0x5C # ''**'') t);
          sub = (deep \<or> ends_with ''/'' t \<or> ends_with [CHR 0x5C] t);
          bare = (if deep then drop_last 3 t else if sub then drop_last 1 t else t)
      in if t = [] \<or> lease_absolute t \<or> bare = [] then None
         else case normalize_project_relative bare of None \<Rightarrow> None
           | Some p \<Rightarrow> if CHR ''*'' \<in> set p then None else Some \<lparr>rl_path = p, rl_subtree = sub\<rparr>)"

subsection \<open>Direct writes\<close>

definition high_risk_basenames :: "string list" where
  "high_risk_basenames =
     [''agents.md'', ''.gitmodules'', ''.travis.yml'', ''appveyor.yml'', ''azure-pipelines.yml'',
      ''bitbucket-pipelines.yml'', ''jenkinsfile'', ''package.json'', ''package-lock.json'', ''yarn.lock'',
      ''pnpm-lock.yaml'', ''bun.lock'', ''bun.lockb'', ''deno.lock'', ''pyproject.toml'', ''poetry.lock'',
      ''uv.lock'', ''pipfile'', ''pipfile.lock'', ''requirements.txt'', ''cargo.toml'', ''cargo.lock'', ''go.mod'',
      ''go.sum'', ''composer.json'', ''composer.lock'', ''gemfile'', ''gemfile.lock'', ''environment.yml'',
      ''environment.yaml'', ''pom.xml'', ''gradle.lockfile'', ''build.gradle'', ''build.gradle.kts'',
      ''settings.gradle'', ''settings.gradle.kts'', ''packages.lock.json'', ''deps.edn'', ''mix.exs'', ''mix.lock'',
      ''pubspec.yaml'', ''pubspec.lock'', ''flake.nix'', ''flake.lock'', ''dockerfile'', ''compose.yaml'',
      ''compose.yml'', ''docker-compose.yaml'', ''docker-compose.yml'']"

definition high_risk_segments :: "string list" where
  "high_risk_segments =
     [''.pi'', ''.git'', ''.github'', ''.gitlab'', ''.circleci'', ''.buildkite'', ''.azure'', ''.husky'', ''deploy'',
      ''deployment'', ''infra'', ''helm'', ''k8s'', ''kubernetes'', ''migrations'', ''terraform'']"

definition high_risk_words :: "string list" where
  "high_risk_words =
     [''auth'', ''security'', ''permission'', ''policy'', ''credential'', ''secret'', ''crypto'', ''lease'',
      ''release'', ''migration'']"

text \<open>\<open>/^requirements(?:[-_.][^/]*)?\.txt$/\<close> on a segment\<close>

definition dependency_name :: "string \<Rightarrow> bool" where
  "dependency_name s =
     (starts_with ''requirements'' s
      \<and> (let r = drop 12 s
         in r = ''.txt'' \<or> r \<noteq> [] \<and> hd r \<in> {CHR ''-'', CHR ''_'', CHR ''.''} \<and> ends_with ''.txt'' (tl r)))"

definition high_risk_path :: "string \<Rightarrow> bool" where
  "high_risk_path normalized =
     (let ss = split_on (CHR ''/'') (to_lower normalized); base = last ss
      in base \<in> set high_risk_basenames \<or> dependency_name base
         \<or> (\<exists>s\<in>set ss. s \<in> set high_risk_segments)
         \<or> (\<exists>s\<in>set ss. \<exists>w\<in>set high_risk_words. contains_text w s))"

fun object_members :: "jv \<Rightarrow> fields option" where
  "object_members (JObj f) = Some f"
| "object_members (JArr vs) = Some []"
| "object_members (JExotic k) = Some []"
| "object_members _ = None"

definition has_nul :: "jv \<Rightarrow> bool" where
  "has_nul v = (case v of JStr s \<Rightarrow> CHR 0x00 \<in> set s | _ \<Rightarrow> False)"

datatype direct_block = Not_canonical | Binary_content | High_risk string

definition direct_write_block :: "string \<Rightarrow> jv \<Rightarrow> direct_block option" where
  "direct_write_block path v =
     (case normalize_project_relative path of
        None \<Rightarrow> Some Not_canonical
      | Some n \<Rightarrow>
          if path \<noteq> js_trim path \<or> CHR 0x5C \<in> set path \<or> n \<noteq> path then Some Not_canonical
          else if (case object_members v of None \<Rightarrow> False
                   | Some f \<Rightarrow> \<exists>k\<in>set [''content'', ''oldText'', ''newText'']. has_nul (get_prop f k))
          then Some Binary_content
          else if high_risk_path n then Some (High_risk n) else None)"

subsection \<open>Leases\<close>

datatype lease_reason = Bootstrap_policy | Worker_unavailable | Security_emergency | User_directed

fun lease_reason_text :: "lease_reason \<Rightarrow> string" where
  "lease_reason_text Bootstrap_policy = ''bootstrap-policy''"
| "lease_reason_text Worker_unavailable = ''worker-unavailable''"
| "lease_reason_text Security_emergency = ''security-emergency''"
| "lease_reason_text User_directed = ''user-directed''"

definition lease_reasons :: "lease_reason list" where
  "lease_reasons = [Bootstrap_policy, Worker_unavailable, Security_emergency, User_directed]"

interpretation lease_reason_wire: wire_enum lease_reasons lease_reason_text
proof
  show "e \<in> set lease_reasons" for e by (cases e) (simp_all add: lease_reasons_def)
  show "distinct (map lease_reason_text lease_reasons)" by (simp add: lease_reasons_def)
qed

datatype lease_tool = Tool_edit | Tool_write

fun lease_tool_text :: "lease_tool \<Rightarrow> string" where
  "lease_tool_text Tool_edit = ''edit''"
| "lease_tool_text Tool_write = ''write''"

definition lease_tools :: "lease_tool list" where
  "lease_tools = [Tool_edit, Tool_write]"

interpretation lease_tool_wire: wire_enum lease_tools lease_tool_text
proof
  show "e \<in> set lease_tools" for e by (cases e) (simp_all add: lease_tools_def)
  show "distinct (map lease_tool_text lease_tools)" by (simp add: lease_tools_def)
qed

datatype lease_state = Lease_locked | Lease_pending | Lease_active | Lease_expired | Lease_exhausted | Lease_revoked

record write_lease =
  wl_id :: string
  wl_reason :: lease_reason
  wl_paths :: "string list"
  wl_tools :: "lease_tool list"
  wl_max_calls :: int
  wl_calls_used :: int
  wl_issued_at :: string
  wl_expires_at :: string
  wl_token_a :: string
  wl_token_b :: string
  wl_confirmed :: bool
  wl_confirmed_at :: "string option"
  wl_revoked_reason :: "string option"
  wl_updated_at :: string

definition max_lease_calls :: int where "max_lease_calls = 10"
definition max_lease_duration :: int where "max_lease_duration = 30 * 60 * 1000"
definition max_lease_id :: nat where "max_lease_id = 64"
definition max_token :: nat where "max_token = 64"

type_synonym date_parser = "string \<Rightarrow> int option"

definition is_lease_path_authorized :: "write_lease option \<Rightarrow> string \<Rightarrow> bool" where
  "is_lease_path_authorized lease path =
     (case lease of None \<Rightarrow> False
      | Some l \<Rightarrow>
          \<not> lease_absolute path
          \<and> (case normalize_project_relative path of None \<Rightarrow> False
             | Some c \<Rightarrow>
                 \<exists>raw\<in>set (wl_paths l). case normalize_lease_rule raw of None \<Rightarrow> False
                   | Some r \<Rightarrow> c = rl_path r
                       \<or> rl_subtree r \<and> (c = rl_path r \<or> starts_with (rl_path r @ ''/'') c)))"

definition lease_covers_tool :: "write_lease \<Rightarrow> string \<Rightarrow> bool" where
  "lease_covers_tool l tool =
     ((tool = ''edit'' \<or> tool = ''write'') \<and> tool \<in> set (map lease_tool_text (wl_tools l)))"

definition lease_status :: "date_parser \<Rightarrow> write_lease option \<Rightarrow> string \<Rightarrow> lease_state" where
  "lease_status parse_date lease now =
     (case lease of None \<Rightarrow> Lease_locked
      | Some l \<Rightarrow>
          if wl_revoked_reason l \<noteq> None then Lease_revoked
          else (case (parse_date now, parse_date (wl_expires_at l)) of
                  (Some n, Some e) \<Rightarrow>
                    if n \<ge> e then Lease_expired
                    else if wl_calls_used l \<ge> wl_max_calls l then Lease_exhausted
                    else if wl_confirmed l then Lease_active else Lease_pending
                | _ \<Rightarrow> Lease_expired))"

record lease_request =
  lq_id :: string
  lq_reason :: string
  lq_paths :: "string list"
  lq_tools :: "string list option"
  lq_max_calls :: "int option"
  lq_duration :: "int option"
  lq_token_a :: string
  lq_token_b :: string
  lq_now :: string

datatype lease_error =
    Bad_lease_id | Bad_reason | No_paths | Bad_rule string | No_tools | Bad_tool string | Bad_max_calls
  | Bad_duration | Bad_tokens | Same_tokens | Bad_time | Is_revoked | Is_expired | Is_exhausted
  | Already_confirmed | Token_mismatch | Not_active lease_state | Tool_not_covered | Path_not_authorized

fun check_rules :: "string list \<Rightarrow> lease_error + string list" where
  "check_rules [] = Inr []"
| "check_rules (raw # raws) =
     (if normalize_lease_rule raw = None then Inl (Bad_rule raw)
      else case check_rules raws of Inl e \<Rightarrow> Inl e | Inr ps \<Rightarrow> Inr (js_trim raw # ps))"

fun check_tools :: "string list \<Rightarrow> lease_error + lease_tool list" where
  "check_tools [] = Inr []"
| "check_tools (t # ts) =
     (case find (\<lambda>x. lease_tool_text x = t) lease_tools of
        None \<Rightarrow> Inl (Bad_tool t)
      | Some x \<Rightarrow> (case check_tools ts of Inl e \<Rightarrow> Inl e | Inr xs \<Rightarrow> Inr (x # xs)))"

definition tokens_ok :: "string \<Rightarrow> string \<Rightarrow> bool" where
  "tokens_ok a b = (a \<noteq> [] \<and> b \<noteq> [] \<and> length a \<le> max_token \<and> length b \<le> max_token)"

definition or_else :: "'a option \<Rightarrow> 'a \<Rightarrow> 'a" where
  "or_else x d = (case x of None \<Rightarrow> d | Some y \<Rightarrow> y)"

definition issue_lease :: "date_parser \<Rightarrow> (int \<Rightarrow> string) \<Rightarrow> lease_request \<Rightarrow> lease_error + write_lease" where
  "issue_lease parse_date to_iso q =
     (let i = js_trim (lq_id q) in
      if i = [] \<or> length i > max_lease_id then Inl Bad_lease_id
      else case find (\<lambda>r. lease_reason_text r = lq_reason q) lease_reasons of None \<Rightarrow> Inl Bad_reason
      | Some reason \<Rightarrow>
        if lq_paths q = [] then Inl No_paths
        else case check_rules (lq_paths q) of Inl e \<Rightarrow> Inl e
        | Inr paths \<Rightarrow>
          let tools = or_else (lq_tools q) (map lease_tool_text lease_tools) in
          if tools = [] then Inl No_tools
          else case check_tools tools of Inl e \<Rightarrow> Inl e
          | Inr ts \<Rightarrow>
            let calls = or_else (lq_max_calls q) max_lease_calls;
                dur = or_else (lq_duration q) max_lease_duration;
                a = js_trim (lq_token_a q); b = js_trim (lq_token_b q)
            in if calls < 1 \<or> calls > max_lease_calls then Inl Bad_max_calls
               else if dur < 1 \<or> dur > max_lease_duration then Inl Bad_duration
               else if \<not> tokens_ok a b then Inl Bad_tokens
               else if a = b then Inl Same_tokens
               else case parse_date (lq_now q) of None \<Rightarrow> Inl Bad_time
               | Some t \<Rightarrow>
                   Inr \<lparr>wl_id = i, wl_reason = reason, wl_paths = paths, wl_tools = ts, wl_max_calls = calls,
                        wl_calls_used = 0, wl_issued_at = to_iso t, wl_expires_at = to_iso (t + dur),
                        wl_token_a = a, wl_token_b = b, wl_confirmed = False, wl_confirmed_at = None,
                        wl_revoked_reason = None, wl_updated_at = to_iso t\<rparr>)"

definition confirm_lease :: "date_parser \<Rightarrow> write_lease \<Rightarrow> string \<Rightarrow> string \<Rightarrow> string \<Rightarrow> lease_error + write_lease" where
  "confirm_lease parse_date l a b now =
     (case lease_status parse_date (Some l) now of
        Lease_revoked \<Rightarrow> Inl Is_revoked
      | Lease_expired \<Rightarrow> Inl Is_expired
      | Lease_exhausted \<Rightarrow> Inl Is_exhausted
      | _ \<Rightarrow>
          if wl_confirmed l then Inl Already_confirmed
          else if wl_token_a l = [] \<or> wl_token_b l = [] \<or> a \<noteq> wl_token_a l \<or> b \<noteq> wl_token_b l then Inl Token_mismatch
          else Inr (l\<lparr>wl_confirmed := True, wl_token_a := [], wl_token_b := [], wl_confirmed_at := Some now,
                     wl_updated_at := now\<rparr>))"

definition consume_lease_call :: "date_parser \<Rightarrow> write_lease \<Rightarrow> string \<Rightarrow> string \<Rightarrow> string \<Rightarrow> lease_error + write_lease" where
  "consume_lease_call parse_date l tool path now =
     (let st = lease_status parse_date (Some l) now in
      if st \<noteq> Lease_active then Inl (Not_active st)
      else if \<not> lease_covers_tool l tool then Inl Tool_not_covered
      else if \<not> is_lease_path_authorized (Some l) path then Inl Path_not_authorized
      else Inr (l\<lparr>wl_calls_used := wl_calls_used l + 1, wl_updated_at := now\<rparr>))"

definition revoke_lease :: "write_lease \<Rightarrow> string \<Rightarrow> string \<Rightarrow> write_lease" where
  "revoke_lease l why now =
     (if wl_revoked_reason l \<noteq> None then l
      else l\<lparr>wl_revoked_reason := Some (if js_trim why = [] then ''revoked'' else js_trim why), wl_updated_at := now\<rparr>)"

record revoke_facts =
  rf_mode :: "string option"
  rf_provider :: "string option"
  rf_model :: "string option"
  rf_ended :: bool

datatype revoke_reason = Session_ended | Left_dev string | Commander_changed

definition lease_revoke_reason :: "write_lease option \<Rightarrow> revoke_facts \<Rightarrow> revoke_reason option" where
  "lease_revoke_reason lease f =
     (case lease of None \<Rightarrow> None
      | Some l \<Rightarrow>
          if wl_revoked_reason l \<noteq> None then None
          else if rf_ended f then Some Session_ended
          else case rf_mode f of
             Some m \<Rightarrow> if m \<noteq> ''DEV'' then Some (Left_dev m)
                       else if \<not> is_approved_sol (rf_provider f) (rf_model f) then Some Commander_changed else None
           | None \<Rightarrow> if \<not> is_approved_sol (rf_provider f) (rf_model f) then Some Commander_changed else None)"

definition can_issue_lease :: "write_policy option \<Rightarrow> bool" where
  "can_issue_lease p = (p = Some Worker_first_strict)"

subsection \<open>The second-layer decision for the commander\<close>

datatype commander_refusal =
    Bash_blocked | Path_required string | Direct_block direct_block | Lease_needed string lease_state
  | Outside_lease string | Lease_tool_only | Outside_allowlist string

definition commander_block :: "date_parser \<Rightarrow> actor_role \<Rightarrow> string \<Rightarrow> jv \<Rightarrow> write_lease option \<Rightarrow> string \<Rightarrow> commander_refusal option" where
  "commander_block parse_date actor tool v lease now =
     (if actor \<noteq> Sol_commander then None
      else if tool = ''bash'' then Some Bash_blocked
      else if tool = ''edit'' \<or> tool = ''write'' then
        (case (case object_members v of None \<Rightarrow> None | Some f \<Rightarrow> as_string (get_prop f ''path'')) of
           None \<Rightarrow> Some (Path_required tool)
         | Some path \<Rightarrow>
             if path = [] then Some (Path_required tool)
             else (case direct_write_block path v of
                 None \<Rightarrow> None
               | Some (High_risk n) \<Rightarrow>
                   let st = lease_status parse_date lease now in
                   if st \<noteq> Lease_active then Some (Lease_needed n st)
                   else if \<not> is_lease_path_authorized lease path then Some (Outside_lease path)
                   else if \<not> (case lease of None \<Rightarrow> False | Some l \<Rightarrow> lease_covers_tool l tool) then Some Lease_tool_only
                   else None
               | Some d \<Rightarrow> Some (Direct_block d)))
      else if tool \<notin> set strict_allowlist then Some (Outside_allowlist tool)
      else None)"

subsection \<open>Persistence\<close>

definition optional :: "string option \<Rightarrow> jv" where
  "optional x = (case x of None \<Rightarrow> JUndef | Some s \<Rightarrow> JStr s)"

definition serialize_lease :: "write_lease \<Rightarrow> jv" where
  "serialize_lease l = JObj
     [(''id'', JStr (wl_id l)), (''reason'', JStr (lease_reason_text (wl_reason l))),
      (''paths'', JArr (map JStr (wl_paths l))), (''tools'', JArr (map (JStr \<circ> lease_tool_text) (wl_tools l))),
      (''maxCalls'', JNum (JInt (wl_max_calls l))), (''callsUsed'', JNum (JInt (wl_calls_used l))),
      (''issuedAt'', JStr (wl_issued_at l)), (''expiresAt'', JStr (wl_expires_at l)),
      (''confirmationTokenA'', JStr (wl_token_a l)), (''confirmationTokenB'', JStr (wl_token_b l)),
      (''confirmationStatus'', JStr (if wl_confirmed l then ''confirmed'' else ''pending'')),
      (''confirmedAt'', optional (wl_confirmed_at l)), (''revokedReason'', optional (wl_revoked_reason l)),
      (''updatedAt'', JStr (wl_updated_at l))]"

definition string_or_empty :: "jv \<Rightarrow> string" where
  "string_or_empty v = (case as_string v of Some s \<Rightarrow> s | None \<Rightarrow> [])"

definition non_empty_string :: "jv \<Rightarrow> string option" where
  "non_empty_string v = (case as_string v of Some s \<Rightarrow> if s = [] then None else Some s | None \<Rightarrow> None)"

fun whole_number :: "jv \<Rightarrow> int option" where
  "whole_number (JNum (JInt i)) = Some i"
| "whole_number _ = None"

fun restore_paths :: "jv list \<Rightarrow> string list option" where
  "restore_paths [] = Some []"
| "restore_paths (v # vs) =
     (case as_string v of None \<Rightarrow> None
      | Some s \<Rightarrow> if normalize_lease_rule s = None then None
                 else map_option (Cons (js_trim s)) (restore_paths vs))"

fun restore_tools :: "jv list \<Rightarrow> lease_tool list option" where
  "restore_tools [] = Some []"
| "restore_tools (v # vs) =
     (case parse_enum lease_tools lease_tool_text v of None \<Rightarrow> None
      | Some t \<Rightarrow> map_option (Cons t) (restore_tools vs))"

definition restore_window :: "date_parser \<Rightarrow> string \<Rightarrow> string \<Rightarrow> bool" where
  "restore_window parse_date issued expires =
     (issued \<noteq> [] \<and> expires \<noteq> []
      \<and> (case (parse_date issued, parse_date expires) of
           (Some i, Some e) \<Rightarrow> 1 \<le> e - i \<and> e - i \<le> max_lease_duration
         | _ \<Rightarrow> False))"

definition restore_tokens :: "jv \<Rightarrow> string \<Rightarrow> string \<Rightarrow> bool option" where
  "restore_tokens st a b =
     (if st = JStr ''pending'' then (if tokens_ok a b \<and> a \<noteq> b then Some False else None)
      else if st = JStr ''confirmed'' then (if a = [] \<and> b = [] then Some True else None)
      else None)"

definition restore_lease :: "date_parser \<Rightarrow> jv \<Rightarrow> write_lease option" where
  "restore_lease parse_date raw =
     (case object_members raw of None \<Rightarrow> None
      | Some r \<Rightarrow>
        let i = js_trim (string_or_empty (get_prop r ''id''));
            issued = string_or_empty (get_prop r ''issuedAt'');
            expires = string_or_empty (get_prop r ''expiresAt'');
            a = string_or_empty (get_prop r ''confirmationTokenA'');
            b = string_or_empty (get_prop r ''confirmationTokenB'')
        in if i = [] \<or> length i > max_lease_id then None
           else case (parse_enum lease_reasons lease_reason_text (get_prop r ''reason''),
                      Option.bind (as_array (get_prop r ''paths'')) restore_paths,
                      Option.bind (as_array (get_prop r ''tools'')) restore_tools,
                      whole_number (get_prop r ''maxCalls''), whole_number (get_prop r ''callsUsed''),
                      restore_tokens (get_prop r ''confirmationStatus'') a b) of
             (Some reason, Some paths, Some tools, Some calls, Some used, Some confirmed) \<Rightarrow>
               if paths = [] \<or> tools = [] \<or> calls < 1 \<or> calls > max_lease_calls \<or> used < 0 \<or> used > calls
                  \<or> \<not> restore_window parse_date issued expires then None
               else Some \<lparr>wl_id = i, wl_reason = reason, wl_paths = paths, wl_tools = tools, wl_max_calls = calls,
                     wl_calls_used = used, wl_issued_at = issued, wl_expires_at = expires,
                     wl_token_a = (if confirmed then [] else a), wl_token_b = (if confirmed then [] else b),
                     wl_confirmed = confirmed, wl_confirmed_at = non_empty_string (get_prop r ''confirmedAt''),
                     wl_revoked_reason = non_empty_string (get_prop r ''revokedReason''),
                     wl_updated_at = or_else (non_empty_string (get_prop r ''updatedAt'')) issued\<rparr>
           | _ \<Rightarrow> None)"

record lease_entry =
  le_type :: string
  le_custom :: "string option"
  le_data :: jv

definition load_lease_step :: "date_parser \<Rightarrow> write_lease option \<Rightarrow> lease_entry \<Rightarrow> write_lease option" where
  "load_lease_step parse_date l e =
     (if le_type e \<noteq> ''custom'' \<or> le_custom e \<noteq> Some ''workbench-write-lease'' then l
      else case restore_lease parse_date (le_data e) of Some r \<Rightarrow> Some r | None \<Rightarrow> l)"

definition load_lease :: "date_parser \<Rightarrow> lease_entry list \<Rightarrow> write_lease option" where
  "load_lease parse_date es = foldl (load_lease_step parse_date) None es"

subsection \<open>The life of a lease\<close>

text \<open>A lease with the log of the writes it authorised: tool, path and time.\<close>

type_synonym write_log = "(string \<times> string \<times> string) list"

inductive lease_step :: "date_parser \<Rightarrow> write_lease \<times> write_log \<Rightarrow> write_lease \<times> write_log \<Rightarrow> bool" for pd where
  ls_confirm: "confirm_lease pd l a b now = Inr l' \<Longrightarrow> lease_step pd (l, w) (l', w)"
| ls_consume: "consume_lease_call pd l tool path now = Inr l' \<Longrightarrow>
    lease_step pd (l, w) (l', w @ [(tool, path, now)])"
| ls_revoke: "lease_step pd (l, w) (revoke_lease l why now, w)"

inductive_cases lease_stepE: "lease_step pd (l, w) (l', w')"

inductive lease_life :: "date_parser \<Rightarrow> (int \<Rightarrow> string) \<Rightarrow> lease_request \<Rightarrow> write_lease \<Rightarrow> write_log \<Rightarrow> bool" for pd to_iso q where
  ll_issue: "issue_lease pd to_iso q = Inr l \<Longrightarrow> lease_life pd to_iso q l []"
| ll_step: "lease_life pd to_iso q l w \<Longrightarrow> lease_step pd (l, w) (l', w') \<Longrightarrow> lease_life pd to_iso q l' w'"

definition authorised :: "write_lease \<Rightarrow> string \<times> string \<times> string \<Rightarrow> bool" where
  "authorised l e = (lease_covers_tool l (fst e) \<and> is_lease_path_authorized (Some l) (fst (snd e)))"

definition lease_inv :: "date_parser \<Rightarrow> write_lease \<Rightarrow> write_log \<Rightarrow> bool" where
  "lease_inv pd l w =
     (wl_calls_used l = int (length w) \<and> wl_calls_used l \<le> wl_max_calls l
      \<and> 1 \<le> wl_max_calls l \<and> wl_max_calls l \<le> max_lease_calls
      \<and> (w \<noteq> [] \<longrightarrow> wl_confirmed l)
      \<and> (\<forall>e\<in>set w. authorised l e
           \<and> (\<exists>n x. pd (snd (snd e)) = Some n \<and> pd (wl_expires_at l) = Some x \<and> n < x))
      \<and> wl_id l \<noteq> [] \<and> js_trim (wl_id l) = wl_id l \<and> length (wl_id l) \<le> max_lease_id
      \<and> wl_paths l \<noteq> [] \<and> (\<forall>p\<in>set (wl_paths l). js_trim p = p \<and> normalize_lease_rule p \<noteq> None)
      \<and> wl_tools l \<noteq> []
      \<and> (if wl_confirmed l then wl_token_a l = [] \<and> wl_token_b l = []
         else tokens_ok (wl_token_a l) (wl_token_b l) \<and> wl_token_a l \<noteq> wl_token_b l)
      \<and> wl_revoked_reason l \<noteq> Some [])"

lemma issue_lease_fields:
  assumes "issue_lease pd to_iso q = Inr l"
  obtains t dur where "pd (lq_now q) = Some t" "1 \<le> dur" "dur \<le> max_lease_duration"
    "wl_issued_at l = to_iso t" "wl_expires_at l = to_iso (t + dur)" "wl_updated_at l = to_iso t"
    "check_rules (lq_paths q) = Inr (wl_paths l)" "lq_paths q \<noteq> []"
    "check_tools (or_else (lq_tools q) (map lease_tool_text lease_tools)) = Inr (wl_tools l)"
    "or_else (lq_tools q) (map lease_tool_text lease_tools) \<noteq> []"
    "wl_id l = js_trim (lq_id q)" "wl_id l \<noteq> []" "length (wl_id l) \<le> max_lease_id"
    "1 \<le> wl_max_calls l" "wl_max_calls l \<le> max_lease_calls" "wl_calls_used l = 0"
    "tokens_ok (wl_token_a l) (wl_token_b l)" "wl_token_a l \<noteq> wl_token_b l" "\<not> wl_confirmed l"
    "wl_confirmed_at l = None" "wl_revoked_reason l = None"
  using assms
  by (auto simp: issue_lease_def Let_def not_less split: if_splits option.splits sum.splits)

lemma check_rules_ok: "check_rules raws = Inr ps \<Longrightarrow> length ps = length raws
    \<and> (\<forall>p\<in>set ps. js_trim p = p \<and> normalize_lease_rule p \<noteq> None)"
proof (induction raws arbitrary: ps)
  case (Cons raw raws)
  from Cons.prems obtain qs where qs: "normalize_lease_rule raw \<noteq> None" "check_rules raws = Inr qs" "ps = js_trim raw # qs"
    by (auto split: if_splits sum.splits)
  have "normalize_lease_rule (js_trim raw) = normalize_lease_rule raw"
    by (simp only: normalize_lease_rule_def js_trim_idem)
  with qs Cons.IH[OF qs(2)] show ?case by simp
qed simp

lemma check_tools_length: "check_tools ts = Inr xs \<Longrightarrow> length xs = length ts"
  by (induction ts arbitrary: xs) (auto split: option.splits sum.splits)

lemma lease_inv_issue: "issue_lease pd to_iso q = Inr l \<Longrightarrow> lease_inv pd l []"
proof -
  assume "issue_lease pd to_iso q = Inr l"
  then show ?thesis
  proof (cases rule: issue_lease_fields)
    case (1 t dur)
    have "wl_paths l \<noteq> []" "\<forall>p\<in>set (wl_paths l). js_trim p = p \<and> normalize_lease_rule p \<noteq> None"
      using check_rules_ok[OF 1(7)] 1(8) by auto
    moreover have "wl_tools l \<noteq> []" using check_tools_length[OF 1(9)] 1(10) by auto
    ultimately show ?thesis using 1 by (simp add: lease_inv_def)
  qed
qed

lemma confirm_lease_fields:
  assumes "confirm_lease pd l a b now = Inr l'"
  shows "l' = l\<lparr>wl_confirmed := True, wl_token_a := [], wl_token_b := [], wl_confirmed_at := Some now, wl_updated_at := now\<rparr>
    \<and> \<not> wl_confirmed l \<and> a = wl_token_a l \<and> b = wl_token_b l \<and> lease_status pd (Some l) now = Lease_pending"
proof -
  have "wl_confirmed l \<or> lease_status pd (Some l) now \<noteq> Lease_active" "lease_status pd (Some l) now \<noteq> Lease_locked"
    by (auto simp: lease_status_def split: option.splits)
  with assms show ?thesis
    by (cases "lease_status pd (Some l) now") (auto simp: confirm_lease_def split: if_splits)
qed

lemma active_lease:
  "lease_status pd (Some l) now = Lease_active \<Longrightarrow>
     wl_revoked_reason l = None \<and> wl_confirmed l \<and> wl_calls_used l < wl_max_calls l
     \<and> (\<exists>n x. pd now = Some n \<and> pd (wl_expires_at l) = Some x \<and> n < x)"
  by (auto simp: lease_status_def not_le split: option.splits if_splits)

lemma authorised_update:
  assumes "wl_paths l' = wl_paths l" "wl_tools l' = wl_tools l"
  shows "authorised l' = authorised l"
  by (rule ext) (simp only: authorised_def lease_covers_tool_def is_lease_path_authorized_def option.case assms)

lemma lease_inv_step: "lease_step pd (l, w) (l', w') \<Longrightarrow> lease_inv pd l w \<Longrightarrow> lease_inv pd l' w'"
proof (erule lease_stepE)
  fix a b now assume "lease_inv pd l w" and c: "confirm_lease pd l a b now = Inr l'" and "w' = w"
  moreover have "authorised l' = authorised l"
    using confirm_lease_fields[OF c] by (intro authorised_update) auto
  ultimately show "lease_inv pd l' w'" using confirm_lease_fields[OF c] by (auto simp: lease_inv_def)
next
  fix tool path now
  assume inv: "lease_inv pd l w" and c: "consume_lease_call pd l tool path now = Inr l'"
    and w: "w' = w @ [(tool, path, now)]"
  from c have l': "l' = l\<lparr>wl_calls_used := wl_calls_used l + 1, wl_updated_at := now\<rparr>"
    and act: "lease_status pd (Some l) now = Lease_active" and auth: "authorised l (tool, path, now)"
    by (auto simp: consume_lease_call_def Let_def authorised_def split: if_splits)
  have "authorised l' = authorised l" by (rule authorised_update) (simp_all add: l')
  with inv auth active_lease[OF act] show "lease_inv pd l' w'"
    by (auto simp: lease_inv_def w l')
next
  fix why now assume inv: "lease_inv pd l w" and r: "l' = revoke_lease l why now" "w' = w"
  have "authorised l' = authorised l" by (rule authorised_update) (simp_all add: r revoke_lease_def)
  with inv show "lease_inv pd l' w'" by (auto simp: lease_inv_def r revoke_lease_def)
qed

lemma lease_life_inv: "lease_life pd to_iso q l w \<Longrightarrow> lease_inv pd l w"
  by (induction rule: lease_life.induct) (auto intro: lease_inv_issue lease_inv_step)

lemma lease_life_window:
  "lease_life pd to_iso q l w \<Longrightarrow> \<exists>t dur. pd (lq_now q) = Some t \<and> 1 \<le> dur \<and> dur \<le> max_lease_duration
     \<and> wl_issued_at l = to_iso t \<and> wl_expires_at l = to_iso (t + dur)"
proof (induction rule: lease_life.induct)
  case (ll_issue l)
  then show ?case by (cases rule: issue_lease_fields) blast
next
  case (ll_step l w l' w')
  have "wl_issued_at l' = wl_issued_at l \<and> wl_expires_at l' = wl_expires_at l"
    using ll_step.hyps(2)
    by (cases rule: lease_stepE)
      (auto simp: consume_lease_call_def revoke_lease_def Let_def dest!: confirm_lease_fields split: if_splits)
  with ll_step.IH show ?case by simp
qed

text \<open>C11: A commander lease is bounded however it is used. In every life of a lease, at most ten writes are
  authorised and never more than its call limit; each is an edit or a write on a path of the lease,
  strictly earlier than thirty minutes after the issue; none happens before the lease was
  confirmed, and once it is revoked no further call is authorised. (\<open>toISOString\<close> and
  \<open>Date.parse\<close> agree on the times of the window.)\<close>

theorem lease_is_bounded:
  assumes life: "lease_life pd to_iso q l w"
    and clock: "\<And>t d. pd (lq_now q) = Some t \<Longrightarrow> 0 \<le> d \<Longrightarrow> d \<le> 1800000 \<Longrightarrow> pd (to_iso (t + d)) = Some (t + d)"
  shows "length w \<le> 10 \<and> int (length w) \<le> wl_max_calls l \<and> (w \<noteq> [] \<longrightarrow> wl_confirmed l)
    \<and> (\<exists>t. pd (lq_now q) = Some t \<and>
         (\<forall>(tool, path, now)\<in>set w. tool \<in> {''edit'', ''write''} \<and> is_lease_path_authorized (Some l) path
            \<and> (\<exists>n. pd now = Some n \<and> n < t + 1800000)))
    \<and> (wl_revoked_reason l \<noteq> None \<longrightarrow> consume_lease_call pd l tool' path' now' = Inl (Not_active Lease_revoked))"
proof -
  obtain t dur where win: "pd (lq_now q) = Some t" "1 \<le> dur" "dur \<le> max_lease_duration"
    "wl_expires_at l = to_iso (t + dur)" using lease_life_window[OF life] by blast
  have expires: "pd (wl_expires_at l) = Some (t + dur)"
    using clock[of t dur] win by (simp add: max_lease_duration_def)
  note inv = lease_life_inv[OF life]
  have each: "fst e \<in> {''edit'', ''write''} \<and> is_lease_path_authorized (Some l) (fst (snd e))
      \<and> (\<exists>n. pd (snd (snd e)) = Some n \<and> n < t + 1800000)" if "e \<in> set w" for e
  proof -
    from inv that expires obtain n where "pd (snd (snd e)) = Some n" "n < t + dur" and "authorised l e"
      by (auto simp: lease_inv_def)
    with win(3) show ?thesis by (auto simp: authorised_def lease_covers_tool_def max_lease_duration_def)
  qed
  have "length w \<le> 10" "int (length w) \<le> wl_max_calls l" "w \<noteq> [] \<longrightarrow> wl_confirmed l"
    using inv by (auto simp: lease_inv_def max_lease_calls_def)
  moreover have "wl_revoked_reason l \<noteq> None \<longrightarrow> consume_lease_call pd l tool' path' now' = Inl (Not_active Lease_revoked)"
    by (simp add: consume_lease_call_def lease_status_def)
  ultimately show ?thesis using win(1) each by fastforce
qed

text \<open>A clock of its own for the witnesses: a time is written as that many letters.\<close>

definition unary_clock :: date_parser where "unary_clock s = Some (int (length s))"
definition unary_iso :: "int \<Rightarrow> string" where "unary_iso t = replicate (nat t) (CHR ''x'')"

definition lease_request_1 :: lease_request where
  "lease_request_1 = \<lparr>lq_id = ''l1'', lq_reason = ''user-directed'', lq_paths = [''.pi/**''], lq_tools = None,
     lq_max_calls = Some 2, lq_duration = Some 5, lq_token_a = ''a'', lq_token_b = ''b'', lq_now = ''xx''\<rparr>"

definition lease_1 :: write_lease where
  "lease_1 = \<lparr>wl_id = ''l1'', wl_reason = User_directed, wl_paths = [''.pi/**''], wl_tools = [Tool_edit, Tool_write],
     wl_max_calls = 2, wl_calls_used = 0, wl_issued_at = ''xx'', wl_expires_at = ''xxxxxxx'', wl_token_a = ''a'',
     wl_token_b = ''b'', wl_confirmed = False, wl_confirmed_at = None, wl_revoked_reason = None,
     wl_updated_at = ''xx''\<rparr>"

definition lease_1_confirmed :: write_lease where
  "lease_1_confirmed = lease_1\<lparr>wl_confirmed := True, wl_token_a := [], wl_token_b := [],
     wl_confirmed_at := Some ''xxx'', wl_updated_at := ''xxx''\<rparr>"

definition lease_1_used :: write_lease where
  "lease_1_used = lease_1_confirmed\<lparr>wl_calls_used := 1, wl_updated_at := ''xxxx''\<rparr>"

lemma lease_1_issued: "issue_lease unary_clock unary_iso lease_request_1 = Inr lease_1"
  by code_simp

lemma lease_1_life: "lease_life unary_clock unary_iso lease_request_1 lease_1_used [(''edit'', ''.pi/a'', ''xxxx'')]"
proof -
  have "confirm_lease unary_clock lease_1 ''a'' ''b'' ''xxx'' = Inr lease_1_confirmed" by code_simp
  moreover have "consume_lease_call unary_clock lease_1_confirmed ''edit'' ''.pi/a'' ''xxxx'' = Inr lease_1_used" by code_simp
  ultimately show ?thesis
    using ll_step[OF ll_step[OF ll_issue[OF lease_1_issued] ls_confirm] ls_consume] by fastforce
qed

theorem lease_is_bounded_witness:
  "int (length [(''edit'', ''.pi/a'', ''xxxx'')]) \<le> wl_max_calls lease_1_used \<and> wl_confirmed lease_1_used"
proof -
  have clock: "\<And>t d. unary_clock (lq_now lease_request_1) = Some t \<Longrightarrow> 0 \<le> d \<Longrightarrow> d \<le> 1800000
      \<Longrightarrow> unary_clock (unary_iso (t + d)) = Some (t + d)"
    by (auto simp: unary_clock_def unary_iso_def lease_request_1_def)
  show ?thesis using lease_is_bounded[where pd = unary_clock and to_iso = unary_iso, OF lease_1_life clock] by simp
qed

lemma confirmed_at_step:
  assumes "lease_step pd (l, w) (l', w')" "pd [] = None" "wl_confirmed_at l \<noteq> Some []"
  shows "wl_confirmed_at l' \<noteq> Some []"
  using assms(1)
proof (rule lease_stepE)
  fix a b now assume c: "confirm_lease pd l a b now = Inr l'"
  then have "pd now \<noteq> None"
    by (auto simp: confirm_lease_def lease_status_def split: option.splits if_splits lease_state.splits)
  then show ?thesis using confirm_lease_fields[OF c] assms(2) by auto
next
  fix tool path now assume "consume_lease_call pd l tool path now = Inr l'"
  then show ?thesis using assms(3) by (auto simp: consume_lease_call_def Let_def split: if_splits)
next
  fix why now assume "l' = revoke_lease l why now"
  then show ?thesis using assms(3) by (simp add: revoke_lease_def)
qed

lemma lease_life_confirmed_at: "lease_life pd to_iso q l w \<Longrightarrow> pd [] = None \<Longrightarrow> wl_confirmed_at l \<noteq> Some []"
proof (induction rule: lease_life.induct)
  case (ll_issue l)
  then show ?case by (cases rule: issue_lease_fields) simp
next
  case (ll_step l w l' w')
  have "wl_confirmed_at l \<noteq> Some []" using ll_step.IH ll_step.prems by blast
  with ll_step.hyps(2) ll_step.prems show ?case by (rule confirmed_at_step)
qed

lemma restore_paths_map:
  "\<forall>p\<in>set ps. js_trim p = p \<and> normalize_lease_rule p \<noteq> None \<Longrightarrow> restore_paths (map JStr ps) = Some ps"
  by (induction ps) auto

lemma restore_tools_map: "restore_tools (map (JStr \<circ> lease_tool_text) ts) = Some ts"
  by (induction ts) (simp_all add: lease_tool_wire.parse_text)

lemma non_empty_optional: "x \<noteq> Some [] \<Longrightarrow> non_empty_string (optional x) = x"
  by (cases x) (auto simp: non_empty_string_def optional_def)

text \<open>A lease survives the session file unchanged at every point of its life, pending, confirmed, used or
  revoked: a restart neither gives calls back nor brings a revoked or consumed confirmation back.\<close>

theorem lease_roundtrip:
  assumes life: "lease_life pd to_iso q l w" and "pd [] = None" "wl_updated_at l \<noteq> []"
    and clock: "\<And>t d. pd (lq_now q) = Some t \<Longrightarrow> 0 \<le> d \<Longrightarrow> d \<le> 1800000 \<Longrightarrow> pd (to_iso (t + d)) = Some (t + d)"
  shows "restore_lease pd (serialize_lease l) = Some l"
proof -
  note inv = lease_life_inv[OF life, unfolded lease_inv_def]
  obtain t dur where win: "pd (lq_now q) = Some t" "1 \<le> dur" "dur \<le> max_lease_duration"
    "wl_issued_at l = to_iso t" "wl_expires_at l = to_iso (t + dur)" using lease_life_window[OF life] by blast
  have "pd (wl_issued_at l) = Some t" "pd (wl_expires_at l) = Some (t + dur)"
    using clock[of t 0] clock[of t dur] win by (simp_all add: max_lease_duration_def)
  then have window: "restore_window pd (wl_issued_at l) (wl_expires_at l)"
    using win assms(2) by (auto simp: restore_window_def)
  have tokens: "restore_tokens (JStr (if wl_confirmed l then ''confirmed'' else ''pending'')) (wl_token_a l) (wl_token_b l)
      = Some (wl_confirmed l)"
    using inv by (auto simp: restore_tokens_def split: if_splits)
  have ids: "js_trim (wl_id l) = wl_id l" "wl_id l \<noteq> []" "length (wl_id l) \<le> max_lease_id" using inv by blast+
  have nums: "1 \<le> wl_max_calls l" "wl_max_calls l \<le> max_lease_calls" "0 \<le> wl_calls_used l" "wl_calls_used l \<le> wl_max_calls l"
    using inv by auto
  have paths: "restore_paths (map JStr (wl_paths l)) = Some (wl_paths l)" "wl_paths l \<noteq> []" "wl_tools l \<noteq> []"
    using inv restore_paths_map by blast+
  have toks: "(if wl_confirmed l then [] else wl_token_a l) = wl_token_a l"
    "(if wl_confirmed l then [] else wl_token_b l) = wl_token_b l" using inv by (auto split: if_splits)
  have opts: "non_empty_string (optional (wl_confirmed_at l)) = wl_confirmed_at l"
    "non_empty_string (optional (wl_revoked_reason l)) = wl_revoked_reason l"
    "non_empty_string (JStr (wl_updated_at l)) = Some (wl_updated_at l)"
    using lease_life_confirmed_at[OF life assms(2)] inv assms(3) non_empty_optional by (auto simp: non_empty_string_def)
  show ?thesis
    using window tokens ids nums paths toks opts
    by (simp add: restore_lease_def serialize_lease_def Let_def string_or_empty_def lease_reason_wire.parse_text
        restore_tools_map or_else_def not_le not_less)
qed

definition strict_clock :: date_parser where
  "strict_clock s = (if s = [] then None else Some (int (length s)))"

theorem lease_roundtrip_witness:
  "restore_lease strict_clock (serialize_lease lease_1_used) = Some lease_1_used"
proof -
  have i: "issue_lease strict_clock unary_iso lease_request_1 = Inr lease_1" by code_simp
  have "confirm_lease strict_clock lease_1 ''a'' ''b'' ''xxx'' = Inr lease_1_confirmed" by code_simp
  moreover have "consume_lease_call strict_clock lease_1_confirmed ''edit'' ''.pi/a'' ''xxxx'' = Inr lease_1_used" by code_simp
  ultimately have life: "lease_life strict_clock unary_iso lease_request_1 lease_1_used [(''edit'', ''.pi/a'', ''xxxx'')]"
    using ll_step[OF ll_step[OF ll_issue[OF i] ls_confirm] ls_consume] by fastforce
  have clock: "\<And>t d. strict_clock (lq_now lease_request_1) = Some t \<Longrightarrow> 0 \<le> d \<Longrightarrow> d \<le> 1800000
      \<Longrightarrow> strict_clock (unary_iso (t + d)) = Some (t + d)"
    by (auto simp: strict_clock_def unary_iso_def lease_request_1_def)
  show ?thesis
    using lease_roundtrip[where pd = strict_clock and to_iso = unary_iso, OF life _ _ clock]
    by (simp add: strict_clock_def lease_1_used_def)
qed

subsection \<open>What the second layer lets through\<close>

lemma canonical_segments:
  assumes "normalize_project_relative p = Some n"
  shows "split_on (CHR ''/'') n = slash_segments p \<and> slash_segments p \<noteq> [] \<and> ''..'' \<notin> set (slash_segments p)"
proof -
  from assms have n: "n = join_with ''/'' (slash_segments p)" and "slash_segments p \<noteq> []" "''..'' \<notin> set (slash_segments p)"
    by (auto simp: normalize_project_relative_def Let_def split: if_splits)
  moreover have "\<forall>s\<in>set (slash_segments p). CHR ''/'' \<notin> set s"
    by (auto simp: slash_segments_def dest: split_on_segment)
  ultimately show ?thesis by (simp add: split_join)
qed

text \<open>C12: An edit or write of the commander that the second layer lets through names one canonical
  project-relative file: its segments are non-empty and contain neither \<open>.\<close> nor \<open>..\<close>, and it is not
  absolute. When that file is high risk there is a lease that is confirmed, not revoked, not expired and not
  used up, which lists the tool and covers the path.\<close>

theorem commander_write_is_authorised:
  assumes passed: "commander_block pd Sol_commander tool v lease now = None" and tool: "tool = ''edit'' \<or> tool = ''write''"
  shows "\<exists>f path. object_members v = Some f \<and> get_prop f ''path'' = JStr path
    \<and> \<not> lease_absolute path \<and> (\<forall>s\<in>set (split_on (CHR ''/'') path). s \<noteq> [] \<and> s \<noteq> ''.'' \<and> s \<noteq> ''..'')
    \<and> (high_risk_path path \<longrightarrow>
         (\<exists>l n e. lease = Some l \<and> wl_confirmed l \<and> wl_revoked_reason l = None
            \<and> pd now = Some n \<and> pd (wl_expires_at l) = Some e \<and> n < e \<and> wl_calls_used l < wl_max_calls l
            \<and> lease_covers_tool l tool \<and> is_lease_path_authorized (Some l) path))"
proof -
  from passed tool obtain f path where f: "object_members v = Some f" "get_prop f ''path'' = JStr path"
    and block: "direct_write_block path v = None \<or> (\<exists>n. direct_write_block path v = Some (High_risk n)
        \<and> lease_status pd lease now = Lease_active \<and> is_lease_path_authorized lease path
        \<and> (case lease of None \<Rightarrow> False | Some l \<Rightarrow> lease_covers_tool l tool))"
    by (auto simp: commander_block_def Let_def split: option.splits if_splits direct_block.splits)
  from block have canon: "normalize_project_relative path = Some path"
    and risk: "high_risk_path path \<longrightarrow> direct_write_block path v \<noteq> None"
    by (auto simp: direct_write_block_def split: option.splits if_splits)
  have "\<not> lease_absolute path" using canon by (simp add: normalize_project_relative_def split: if_splits)
  moreover have "\<forall>s\<in>set (split_on (CHR ''/'') path). s \<noteq> [] \<and> s \<noteq> ''.'' \<and> s \<noteq> ''..''"
    using canonical_segments[OF canon] by (auto simp: slash_segments_def)
  moreover have "high_risk_path path \<longrightarrow> (\<exists>l n e. lease = Some l \<and> wl_confirmed l \<and> wl_revoked_reason l = None
      \<and> pd now = Some n \<and> pd (wl_expires_at l) = Some e \<and> n < e \<and> wl_calls_used l < wl_max_calls l
      \<and> lease_covers_tool l tool \<and> is_lease_path_authorized (Some l) path)"
    using block risk by (auto simp: lease_status_def not_le split: option.splits if_splits)
  ultimately show ?thesis using f by blast
qed

theorem commander_write_is_authorised_witness:
  "\<exists>l. Some lease_1_used = Some l \<and> wl_calls_used l < wl_max_calls l \<and> lease_covers_tool l ''write''"
proof -
  have "commander_block unary_clock Sol_commander ''write''
      (JObj [(''path'', JStr ''.pi/a''), (''content'', JStr ''x'')]) (Some lease_1_used) ''xxxx'' = None" by code_simp
  from commander_write_is_authorised[OF this] have "high_risk_path ''.pi/a'' \<longrightarrow> ?thesis" by fastforce
  moreover have "high_risk_path ''.pi/a''" by code_simp
  ultimately show ?thesis by simp
qed

end
