(* ===== verification/Mode_Policy.thy ===== *)
theory Mode_Policy
  imports Path_Guard Write_Authority
begin

section \<open>Modes and the worker's guard (core/mode-policy.ts, core/worker-policy.ts)\<close>

text \<open>
  The tools a mode advertises and the guard every tool call passes, then the guards that hold inside
  a delegated worker process: its tool matrix, the block of a tool call and the decision on the
  recipes it may run. Messages are reduced to the branch that produced them. The filter of the active tools by a
  lifecycle snapshot and the text of a worker task are not modelled.
\<close>

subsection \<open>Modes\<close>

datatype wb_mode = Mode_AUDIT | Mode_DEV | Mode_VERIFY

fun wb_mode_text :: "wb_mode \<Rightarrow> string" where
  "wb_mode_text Mode_AUDIT = ''AUDIT''"
| "wb_mode_text Mode_DEV = ''DEV''"
| "wb_mode_text Mode_VERIFY = ''VERIFY''"

definition mode_names :: "wb_mode list" where
  "mode_names = [Mode_AUDIT, Mode_DEV, Mode_VERIFY]"

interpretation mode_wire: wire_enum mode_names wb_mode_text
proof
  show "e \<in> set mode_names" for e by (cases e) (simp_all add: mode_names_def)
  show "distinct (map wb_mode_text mode_names)" by (simp add: mode_names_def)
qed

text \<open>Any value that is not a known mode falls back to DEV.\<close>

definition normalize_mode :: "jv \<Rightarrow> wb_mode" where
  "normalize_mode raw = (case parse_enum mode_names wb_mode_text raw of Some m \<Rightarrow> m | None \<Rightarrow> Mode_DEV)"

definition workbench_tool_names :: "string list" where
  "workbench_tool_names =
     [''workbench_project_inspect'', ''workbench_run_recipe'', ''workbench_read_run'', ''workbench_run_gate'',
      ''workbench_read_gate'', ''workbench_list_gates'', ''workbench_compare_runs'', ''workbench_delegate_worker'',
      ''workbench_review_worker_diff'', ''workbench_delegation_status'', ''workbench_recover_tool_result'',
      ''workbench_git'', ''workbench_repair_delegation'']"

definition audit_tools :: "string list" where
  "audit_tools =
     [''read'', ''grep'', ''find'', ''ls'', ''workbench_project_inspect'', ''workbench_read_run'',
      ''workbench_read_gate'', ''workbench_list_gates'', ''workbench_compare_runs'', ''workbench_recover_tool_result'']"

definition dev_tools :: "string list" where
  "dev_tools = [''read'', ''grep'', ''find'', ''ls'', ''bash'', ''edit'', ''write''] @ workbench_tool_names"

definition verify_tools :: "string list" where
  "verify_tools =
     [''read'', ''grep'', ''find'', ''ls'', ''workbench_project_inspect'', ''workbench_run_recipe'',
      ''workbench_read_run'', ''workbench_run_gate'', ''workbench_read_gate'', ''workbench_list_gates'',
      ''workbench_compare_runs'', ''workbench_delegate_worker'', ''workbench_review_worker_diff'',
      ''workbench_delegation_status'', ''workbench_git'', ''workbench_recover_tool_result'']"

fun mode_tools :: "wb_mode \<Rightarrow> string list" where
  "mode_tools Mode_AUDIT = audit_tools"
| "mode_tools Mode_DEV = dev_tools"
| "mode_tools Mode_VERIFY = verify_tools"

definition worker_tool_name :: string where "worker_tool_name = ''workbench_delegate_worker''"

definition is_tool_allowed_in_mode :: "wb_mode \<Rightarrow> string \<Rightarrow> bool" where
  "is_tool_allowed_in_mode mode tool = (tool \<in> set (mode_tools mode))"

definition is_tool_hard_denied :: "wb_mode \<Rightarrow> string \<Rightarrow> bool" where
  "is_tool_hard_denied mode tool =
     (if mode = Mode_AUDIT then
        tool = ''bash'' \<or> tool = ''edit'' \<or> tool = ''write'' \<or> tool = ''workbench_run_recipe''
        \<or> tool = ''workbench_run_gate'' \<or> tool = worker_tool_name \<or> tool = ''workbench_repair_delegation''
        \<or> tool = ''workbench_git''
      else if mode = Mode_VERIFY then
        tool = ''bash'' \<or> tool = ''edit'' \<or> tool = ''write'' \<or> tool = worker_tool_name
        \<or> tool = ''workbench_repair_delegation'' \<or> tool = ''workbench_git''
      else False)"

text \<open>
  The insertion-ordered set of the source: the tools of the mode, then in DEV the foreign tools, sorted
  and without duplicates. Every managed tool is a DEV tool.
\<close>

definition compute_active_tools :: "wb_mode \<Rightarrow> string list \<Rightarrow> actor_facts option \<Rightarrow> string list" where
  "compute_active_tools mode current facts =
     (if mode = Mode_DEV
         \<and> (case facts of None \<Rightarrow> False
            | Some f \<Rightarrow> detect_actor_role f = Sol_commander
                \<and> default_write_policy (af_provider f) (af_model f) = Some Worker_first_strict)
      then development_first_allowlist
      else mode_tools mode @
        (if mode = Mode_DEV then remdups (sort (filter (\<lambda>t. t \<notin> set dev_tools) current)) else []))"

subsection \<open>The guard of a tool call\<close>

definition config_maintenance_paths :: "string list" where
  "config_maintenance_paths = [''.pi/workbench/recipes.yaml'', ''.pi/workbench/gates.yaml'']"

definition is_config_maintenance :: "jv \<Rightarrow> bool" where
  "is_config_maintenance v =
     (case v of
        JObj r \<Rightarrow>
          (get_prop r ''task_kind'' = JUndef \<or> get_prop r ''task_kind'' = JStr ''implementation'')
          \<and> (case get_prop r ''allowed_paths'' of
               JArr ps \<Rightarrow> ps \<noteq> [] \<and> (\<forall>p\<in>set ps. case p of JStr s \<Rightarrow> s \<in> set config_maintenance_paths | _ \<Rightarrow> False)
             | _ \<Rightarrow> False)
          \<and> (get_prop r ''verification'' = JUndef \<or> get_prop r ''verification'' = JArr [])
      | JExotic k \<Rightarrow> False
      | _ \<Rightarrow> False)"

definition recovery_actions :: "string list" where
  "recovery_actions = [''close_clean_repair'', ''close_inactive_blocker'', ''quarantine_unreadable_authority'']"

datatype call_block =
    Mode_denied wb_mode string
  | Catastrophic string string
  | Protected_path path_block

text \<open>The two exceptions of VERIFY, and the branch for bash.\<close>

definition is_authority_recovery :: "wb_mode \<Rightarrow> string \<Rightarrow> jv \<Rightarrow> bool" where
  "is_authority_recovery mode tool v =
     (mode = Mode_VERIFY \<and> tool = ''workbench_git''
      \<and> (case input_fields v of None \<Rightarrow> False
         | Some f \<Rightarrow> \<exists>a\<in>set recovery_actions. get_prop f ''action'' = JStr a))"

definition is_maintenance_call :: "wb_mode \<Rightarrow> string \<Rightarrow> jv \<Rightarrow> bool" where
  "is_maintenance_call mode tool v = (mode = Mode_VERIFY \<and> tool = worker_tool_name \<and> is_config_maintenance v)"

definition bash_call_block :: "wb_mode \<Rightarrow> jv \<Rightarrow> call_block option" where
  "bash_call_block mode v =
     (case Option.bind (input_fields v) (\<lambda>f. as_string (get_prop f ''command'')) of
        None \<Rightarrow> None
      | Some command \<Rightarrow>
          (case find_catastrophic command of
             Some rule \<Rightarrow> Some (Catastrophic rule command)
           | None \<Rightarrow> map_option Protected_path (bash_protected_read (wb_mode_text mode) command)))"

definition check_tool_call :: "wb_mode \<Rightarrow> string \<Rightarrow> jv \<Rightarrow> call_block option" where
  "check_tool_call mode tool v =
     (if \<not> is_authority_recovery mode tool v \<and> \<not> is_maintenance_call mode tool v \<and> is_tool_hard_denied mode tool
      then Some (Mode_denied mode tool)
      else if tool = ''bash'' then bash_call_block mode v
      else map_option Protected_path (path_policy_block (wb_mode_text mode) tool v))"

subsection \<open>The worker process\<close>

datatype task_kind = Kind_implementation | Kind_diagnosis | Kind_invalid

text \<open>\<open>resolveWorkerTaskKind\<close> of the public contract; \<open>Kind_invalid\<close> is its error.\<close>

definition resolve_task_kind :: "jv \<Rightarrow> task_kind" where
  "resolve_task_kind raw =
     (if raw = JUndef \<or> raw = JStr ''implementation'' then Kind_implementation
      else if raw = JStr ''diagnosis'' then Kind_diagnosis else Kind_invalid)"

definition parse_task_kind_env :: "string option \<Rightarrow> task_kind" where
  "parse_task_kind_env raw = resolve_task_kind (case raw of None \<Rightarrow> JUndef | Some s \<Rightarrow> JStr s)"

text \<open>\<open>/^[1-9][0-9]*$/u\<close>\<close>

definition plain_positive :: "string \<Rightarrow> bool" where
  "plain_positive s = (s \<noteq> [] \<and> hd s \<noteq> CHR ''0'' \<and> list_all is_digit s)"

definition parse_timeout_env :: "string option \<Rightarrow> nat option" where
  "parse_timeout_env raw =
     (case raw of None \<Rightarrow> None
      | Some s \<Rightarrow> if plain_positive s \<and> decimal_value 0 s \<le> 86400000 then Some (decimal_value 0 s) else None)"

definition parse_attempt_env :: "string option \<Rightarrow> nat" where
  "parse_attempt_env raw =
     (case raw of None \<Rightarrow> 1
      | Some s \<Rightarrow> if plain_positive s \<and> decimal_value 0 s \<le> 1000 then decimal_value 0 s else 1)"

definition commander_blocked :: "string option \<Rightarrow> string option \<Rightarrow> bool" where
  "commander_blocked provider model =
     (model \<noteq> Some commander_model
      \<or> (case provider of None \<Rightarrow> True | Some p \<Rightarrow> p = [] \<or> p \<notin> set commander_providers))"

text \<open>The path contract of a child process; \<open>json\<close> is \<open>JSON.parse\<close>, \<open>None\<close> when it throws.\<close>

definition parse_allowed_paths :: "(string \<Rightarrow> jv option) \<Rightarrow> string option \<Rightarrow> string list" where
  "parse_allowed_paths json raw =
     (case raw of None \<Rightarrow> []
      | Some s \<Rightarrow>
          if s = [] then []
          else case json s of
              Some (JArr vs) \<Rightarrow> take 100 (filter (\<lambda>p. p \<noteq> []) (map js_trim (List.map_filter as_string vs)))
            | _ \<Rightarrow> [])"

definition worker_hidden_tools :: "string list" where
  "worker_hidden_tools =
     [''bash'', ''workbench_run_gate'', ''workbench_git'', ''workbench_repair_delegation'', worker_tool_name]"

definition effective_kind :: "task_kind option \<Rightarrow> task_kind" where
  "effective_kind k = or_else k Kind_implementation"

definition compute_role_active_tools :: "string list \<Rightarrow> string option \<Rightarrow> task_kind option \<Rightarrow> string list" where
  "compute_role_active_tools tools role kind =
     (if role \<noteq> Some ''worker'' then tools
      else let read_only = (effective_kind kind \<noteq> Kind_implementation)
           in filter (\<lambda>t. t \<notin> set worker_hidden_tools \<and> \<not> (read_only \<and> t \<in> set [''edit'', ''write''])) tools)"

record worker_context =
  wc_role :: "string option"
  wc_root :: "string option"
  wc_allowed :: "string list option"
  wc_kind :: "task_kind option"

datatype worker_block =
    No_recursion | No_repairs | No_gates | No_git | No_bash | Read_only string | Invalid_kind string
  | Needs_path string | No_contract | Out_of_scope string

definition worker_block_reason :: "string \<Rightarrow> worker_context \<Rightarrow> string \<Rightarrow> jv \<Rightarrow> worker_block option" where
  "worker_block_reason cwd ctx tool v =
     (if wc_role ctx \<noteq> Some ''worker'' then None
      else if tool = worker_tool_name then Some No_recursion
      else if tool = ''workbench_repair_delegation'' then Some No_repairs
      else if tool = ''workbench_run_gate'' then Some No_gates
      else if tool = ''workbench_git'' then Some No_git
      else if tool = ''bash'' then Some No_bash
      else if tool \<noteq> ''edit'' \<and> tool \<noteq> ''write'' then None
      else if effective_kind (wc_kind ctx) \<noteq> Kind_implementation then
        Some (if effective_kind (wc_kind ctx) = Kind_diagnosis then Read_only tool else Invalid_kind tool)
      else case Option.bind (input_fields v) (\<lambda>f. as_string (get_prop f ''path'')) of
          None \<Rightarrow> Some (Needs_path tool)
        | Some path \<Rightarrow>
            if js_trim path = [] then Some (Needs_path tool)
            else case (wc_root ctx, wc_allowed ctx) of
                (Some root_dir, Some allowed) \<Rightarrow>
                  if root_dir = [] \<or> allowed = [] then Some No_contract
                  else if \<not> is_worker_path_allowed cwd root_dir path allowed then Some (Out_of_scope path)
                  else None
              | _ \<Rightarrow> Some No_contract)"

subsection \<open>Recipes\<close>

datatype recipe_mutation = Mut_none | Mut_artifacts | Mut_source

record recipe_scope =
  rs_root :: string
  rs_allowed :: "string list"
  rs_kind :: task_kind

definition exact_recipe_write :: "string \<Rightarrow> string \<Rightarrow> string \<Rightarrow> bool" where
  "exact_recipe_write cwd dir path =
     (path = js_trim path \<and> path \<noteq> [] \<and> \<not> posix_is_absolute path \<and> CHR 0x5C \<notin> set path
      \<and> \<not> starts_with ''./'' path \<and> \<not> ends_with ''/'' path \<and> \<not> contains_text ''//'' path
      \<and> (\<forall>c\<in>set path. c \<notin> {CHR ''*'', CHR ''?'', CHR ''['', CHR '']'', CHR ''{'', CHR ''}''})
      \<and> (\<forall>s\<in>set (split_on (CHR ''/'') path). s \<noteq> [] \<and> s \<noteq> ''.'' \<and> s \<noteq> ''..'')
      \<and> is_inside (posix_resolve cwd dir) (posix_resolve (posix_resolve cwd dir) path))"

datatype recipe_block =
    No_scope | Diagnosis_recipe | Invalid_recipe_kind | No_outputs | Inexact_output string
  | Output_out_of_scope string | Sol_source_recipe

fun outputs_block :: "string \<Rightarrow> recipe_scope \<Rightarrow> string list \<Rightarrow> recipe_block option" where
  "outputs_block cwd sc [] = None"
| "outputs_block cwd sc (p # ps) =
     (if \<not> exact_recipe_write cwd (rs_root sc) p then Some (Inexact_output p)
      else if \<not> is_worker_path_allowed cwd (rs_root sc) p (rs_allowed sc) then Some (Output_out_of_scope p)
      else outputs_block cwd sc ps)"

definition recipe_mutation_block ::
  "string \<Rightarrow> actor_facts option \<Rightarrow> recipe_mutation \<Rightarrow> string list \<Rightarrow> recipe_scope option \<Rightarrow> recipe_block option" where
  "recipe_mutation_block cwd facts mutation writes scope =
     (if (case facts of None \<Rightarrow> False | Some f \<Rightarrow> af_role_env f = Some ''worker'') then
        (if mutation = Mut_none then None
         else case scope of None \<Rightarrow> Some No_scope
         | Some sc \<Rightarrow>
             if rs_kind sc \<noteq> Kind_implementation then
               Some (if rs_kind sc = Kind_diagnosis then Diagnosis_recipe else Invalid_recipe_kind)
             else if writes = [] then Some No_outputs
             else outputs_block cwd sc writes)
      else if (case facts of None \<Rightarrow> False | Some f \<Rightarrow> is_approved_sol (af_provider f) (af_model f))
              \<and> mutation = Mut_source then Some Sol_source_recipe
      else None)"

text \<open>\<open>workerRecipeBlockReason\<close>: without a declared mutation, writes make a recipe a source mutation.\<close>

definition worker_recipe_block ::
  "string \<Rightarrow> string option \<Rightarrow> string list \<Rightarrow> recipe_mutation option \<Rightarrow> recipe_scope option \<Rightarrow> recipe_block option" where
  "worker_recipe_block cwd role writes mutation scope =
     recipe_mutation_block cwd
       (if role = Some ''worker'' then Some \<lparr>af_role_env = role, af_provider = None, af_model = None\<rparr> else None)
       (or_else mutation (if writes = [] then Mut_none else Mut_source)) writes scope"

text \<open>\<open>resolveWorkerRepairOf\<close>: \<open>/^\d{8}-\d{6}-[A-Za-z0-9]{4}$/\<close>, or nothing at all.\<close>

definition repair_of_re :: "string \<Rightarrow> bool" where
  "repair_of_re s =
     (length s = 20 \<and> list_all is_digit (take 8 s) \<and> s ! 8 = CHR ''-'' \<and> list_all is_digit (take 6 (drop 9 s))
      \<and> s ! 15 = CHR ''-'' \<and> list_all is_alnum (drop 16 s))"

definition resolve_repair_of :: "jv \<Rightarrow> string option option" where
  "resolve_repair_of v =
     (case v of JUndef \<Rightarrow> Some None
      | JStr s \<Rightarrow> if repair_of_re s then Some (Some s) else None
      | _ \<Rightarrow> None)"

subsection \<open>What the guards promise\<close>

lemma keep_trailing: "name \<noteq> [] \<Longrightarrow> CHR ''/'' \<notin> set name \<Longrightarrow>
  dropWhile (\<lambda>c. c = CHR ''/'') (rev (d @ name)) = rev (d @ name)"
proof -
  assume n: "name \<noteq> []" "CHR ''/'' \<notin> set name"
  then have "hd (rev name) \<noteq> CHR ''/''" by (metis hd_in_set rev_is_Nil_conv set_rev)
  with n(1) show ?thesis by (cases "rev name") auto
qed

lemma basename_below: "name \<noteq> [] \<Longrightarrow> CHR ''/'' \<notin> set name \<Longrightarrow> posix_basename (d @ CHR ''/'' # name) = name"
  using keep_trailing[of name "d @ ''/''"] by (simp add: posix_basename_def split_on_join split_on_no_sep)

lemma basename_plain: "name \<noteq> [] \<Longrightarrow> CHR ''/'' \<notin> set name \<Longrightarrow> posix_basename name = name"
  using keep_trailing[of name "[]"] by (simp add: posix_basename_def split_on_no_sep)

lemma strip_home_below: "\<exists>d'. strip_home (d @ CHR ''/'' # name) = d' @ CHR ''/'' # name \<or> strip_home (d @ CHR ''/'' # name) = name"
proof (cases d)
  case Nil then show ?thesis by (simp add: strip_home_def starts_with_def)
next
  case (Cons c cs)
  then show ?thesis
    by (cases cs) (auto simp: strip_home_def starts_with_def)
qed

text \<open>The names of credential files, in lower case.\<close>

definition secret_name :: "string \<Rightarrow> bool" where
  "secret_name name =
     (to_lower name \<in> {''.env'', ''id_rsa'', ''id_ed25519'', ''id_ecdsa'', ''id_dsa'', ''auth.json'', ''.netrc''}
      \<or> (\<exists>p\<in>{''credentials.'', ''secrets.'', ''exchange-keys.''}. starts_with p (to_lower name))
      \<or> (\<exists>e\<in>{''.pem'', ''.key'', ''.p8'', ''.p12'', ''.pfx'', ''.jks'', ''.token''}. ends_with e (to_lower name))
      \<or> starts_with ''.env.'' (to_lower name) \<and> to_lower name \<notin> {''.env.example'', ''.env.template''})"

lemma secret_nonempty: "secret_name name \<Longrightarrow> name \<noteq> []"
  by (auto simp: secret_name_def to_lower_def starts_with_def ends_with_def)

lemma secret_match: "posix_basename (strip_home path) = name \<Longrightarrow> secret_name name \<Longrightarrow> match_protected path \<noteq> None"
  by (auto simp: match_protected_def Let_def secret_name_def exact_names_def prefix_names_def env_allowlist_def split: if_splits)

lemma to_lower_Cons: "to_lower (c # cs) = to_lower_char c # to_lower cs"
  by (simp add: to_lower_def)

lemma to_lower_tilde: "to_lower_char (CHR ''~'') = CHR ''~''"
  by code_simp

lemma ends_with_tail: "ends_with e (c # s) \<Longrightarrow> e \<noteq> c # s \<Longrightarrow> ends_with e s"
  by (auto simp: ends_with_def Suc_diff_le drop_Cons' split: if_splits)

text \<open>The home shorthand in front of a bare name does not hide it.\<close>

lemma secret_tail:
  assumes "secret_name (CHR ''~'' # rest)"
  shows "secret_name rest"
proof -
  have low: "to_lower (CHR ''~'' # rest) = CHR ''~'' # to_lower rest" by (simp add: to_lower_Cons to_lower_tilde)
  have "\<exists>e\<in>{''.pem'', ''.key'', ''.p8'', ''.p12'', ''.pfx'', ''.jks'', ''.token''}. ends_with e (CHR ''~'' # to_lower rest)"
    using assms unfolding secret_name_def low by (simp add: starts_with_def)
  then obtain e where e: "e \<in> {''.pem'', ''.key'', ''.p8'', ''.p12'', ''.pfx'', ''.jks'', ''.token''}"
    "ends_with e (CHR ''~'' # to_lower rest)" by (rule bexE)
  have "hd x \<noteq> CHR ''~''" if "x \<in> {''.pem'', ''.key'', ''.p8'', ''.p12'', ''.pfx'', ''.jks'', ''.token''}" for x
    using that by (elim insertE emptyE) simp_all
  from this[OF e(1)] have "e \<noteq> CHR ''~'' # to_lower rest" by (metis list.sel(1))
  then have "ends_with e (to_lower rest)" by (rule ends_with_tail[OF e(2)])
  with e(1) have "\<exists>e\<in>{''.pem'', ''.key'', ''.p8'', ''.p12'', ''.pfx'', ''.jks'', ''.token''}. ends_with e (to_lower rest)" by (rule rev_bexI)
  then show ?thesis unfolding secret_name_def by (rule disjI2[OF disjI2[OF disjI1]])
qed

lemma secret_protected:
  assumes "secret_name name" "CHR ''/'' \<notin> set name" "path = name \<or> (\<exists>folder. path = folder @ CHR ''/'' # name)"
  shows "match_protected path \<noteq> None" "path \<noteq> []"
proof -
  note n = secret_nonempty[OF assms(1)]
  show "path \<noteq> []" using assms(3) n by auto
  consider (tilde) rest where "path = name" "name = CHR ''~'' # rest" | (plain) "path = name" "hd name \<noteq> CHR ''~''"
    | (folder) folder where "path = folder @ CHR ''/'' # name"
    using assms(3) n by (cases name) auto
  then show "match_protected path \<noteq> None"
  proof cases
    case tilde
    have rest: "secret_name rest" using secret_tail assms(1) tilde(2) by simp
    have "strip_home path = rest" using tilde assms(2) by (cases rest) (auto simp: strip_home_def starts_with_def)
    then have "posix_basename (strip_home path) = rest"
      using basename_plain[OF secret_nonempty[OF rest]] assms(2) tilde(2) by simp
    then show ?thesis using rest by (rule secret_match)
  next
    case plain
    have "strip_home path = name" using plain n by (cases name) (simp_all add: strip_home_def starts_with_def)
    then have "posix_basename (strip_home path) = name" using basename_plain[OF n assms(2)] by simp
    then show ?thesis using assms(1) by (rule secret_match)
  next
    case folder
    obtain d' where "strip_home path = d' @ CHR ''/'' # name \<or> strip_home path = name"
      using strip_home_below folder by blast
    then have "posix_basename (strip_home path) = name"
      using basename_below[OF n assms(2)] basename_plain[OF n assms(2)] by metis
    then show ?thesis using assms(1) by (rule secret_match)
  qed
qed

text \<open>C18: Credential files are guarded at every depth. For a file whose base name is one of the protected
  names, in any letter case, at the root (the bare name, also behind the home shorthand) or in whatever
  directory the path puts it, a structured file tool passes the guard exactly when the mode is DEV and
  the tool only reads; no mode lets an edit or a write through.\<close>

theorem credentials_are_guarded:
  assumes "secret_name name" "CHR ''/'' \<notin> set name" "path = name \<or> (\<exists>folder. path = folder @ CHR ''/'' # name)"
    and "tool \<in> set path_arg_tools" "get_prop f ''path'' = JStr path"
  shows "check_tool_call mode tool (JObj f) = None \<longleftrightarrow> mode = Mode_DEV \<and> tool \<noteq> ''edit'' \<and> tool \<noteq> ''write''"
proof -
  from secret_protected[OF assms(1-3)] obtain m where m: "match_protected path = Some m" "path \<noteq> []" by blast
  then have block: "path_policy_block mt tool (JObj f) = (if tool \<in> set write_tools
      then Some (Blocks_modifying path (pm_rule m)) else if mt \<noteq> ''DEV''
      then Some (Blocks_reading mt path (pm_rule m)) else None)" for mt
    using assms(4,5) by (simp add: path_policy_block_def extract_tool_path_def)
  have not_special: "tool \<noteq> ''bash''" "tool \<noteq> ''workbench_git''" "tool \<noteq> worker_tool_name"
      "tool \<in> set write_tools \<longleftrightarrow> tool = ''edit'' \<or> tool = ''write''"
    using assms(4) by (auto simp: path_arg_tools_def worker_tool_name_def write_tools_def)
  have call: "check_tool_call mode tool (JObj f) = (if is_tool_hard_denied mode tool then Some (Mode_denied mode tool)
      else map_option Protected_path (path_policy_block (wb_mode_text mode) tool (JObj f)))"
    using not_special(1-3)
    by (simp only: check_tool_call_def is_authority_recovery_def is_maintenance_call_def simp_thms if_False)
  have "wb_mode_text mode = ''DEV'' \<longleftrightarrow> mode = Mode_DEV" by (cases mode) simp_all
  then show ?thesis
    unfolding call block not_special(4) by (cases mode) (auto simp: is_tool_hard_denied_def)
qed

theorem credentials_are_guarded_witness:
  "check_tool_call Mode_DEV ''write'' (JObj [(''path'', JStr ''a/b/.ENV'')]) \<noteq> None
   \<and> check_tool_call Mode_VERIFY ''read'' (JObj [(''path'', JStr ''.env'')]) \<noteq> None
   \<and> check_tool_call Mode_DEV ''read'' (JObj [(''path'', JStr ''.env'')]) = None"
proof -
  have name: "secret_name ''.ENV''" "CHR ''/'' \<notin> set ''.ENV''" "secret_name ''.env''" "CHR ''/'' \<notin> set ''.env''" by code_simp+
  have tool: "''write'' \<in> set path_arg_tools" "''read'' \<in> set path_arg_tools" by code_simp+
  have "''a/b/.ENV'' = ''.ENV'' \<or> (\<exists>folder. ''a/b/.ENV'' = folder @ CHR ''/'' # ''.ENV'')"
    by (intro disjI2 exI[of _ "''a/b''"]) simp
  from credentials_are_guarded[OF name(1,2) this tool(1), of "[(''path'', JStr ''a/b/.ENV'')]" Mode_DEV]
    credentials_are_guarded[OF name(3,4) disjI1[OF refl] tool(2), of "[(''path'', JStr ''.env'')]"]
  show ?thesis by simp
qed

lemma config_maintenance_paths_only:
  assumes "is_config_maintenance v"
  shows "\<exists>f ps. v = JObj f \<and> get_prop f ''allowed_paths'' = JArr (map JStr ps) \<and> ps \<noteq> [] \<and> set ps \<subseteq> set config_maintenance_paths"
proof -
  from assms obtain f vs where f: "v = JObj f" "get_prop f ''allowed_paths'' = JArr vs" "vs \<noteq> []"
    and each: "\<forall>p\<in>set vs. case p of JStr s \<Rightarrow> s \<in> set config_maintenance_paths | _ \<Rightarrow> False"
    by (auto simp: is_config_maintenance_def split: jv.splits)
  have "\<exists>ps. vs = map JStr ps \<and> set ps \<subseteq> set config_maintenance_paths" using each
  proof (induction vs)
    case (Cons w ws)
    from Cons.prems obtain s where "w = JStr s" "s \<in> set config_maintenance_paths" by (auto split: jv.splits)
    moreover from Cons obtain ps where "ws = map JStr ps" "set ps \<subseteq> set config_maintenance_paths" by auto
    ultimately have "w # ws = map JStr (s # ps) \<and> set (s # ps) \<subseteq> set config_maintenance_paths" by simp
    then show ?case by (rule exI[of _ "s # ps"])
  qed simp
  with f show ?thesis by auto
qed

lemma passed_denied:
  assumes "check_tool_call mode tool v = None" "is_tool_hard_denied mode tool"
  shows "mode = Mode_VERIFY \<and> (tool = ''workbench_git'' \<and> (\<exists>f a. v = JObj f \<and> a \<in> set recovery_actions \<and> get_prop f ''action'' = JStr a)
      \<or> tool = worker_tool_name \<and> is_config_maintenance v)"
proof -
  have "is_authority_recovery mode tool v \<or> is_maintenance_call mode tool v"
    using assms by (auto simp only: check_tool_call_def split: if_splits)
  moreover have "is_authority_recovery mode tool v \<Longrightarrow>
      mode = Mode_VERIFY \<and> tool = ''workbench_git'' \<and> (\<exists>f a. v = JObj f \<and> a \<in> set recovery_actions \<and> get_prop f ''action'' = JStr a)"
    unfolding is_authority_recovery_def by (cases v) (auto simp only: input_fields.simps option.case get_prop_def map_of.simps jv.distinct)
  ultimately show ?thesis unfolding is_maintenance_call_def by blast
qed

lemma passed_bash:
  assumes "check_tool_call mode ''bash'' (JObj f) = None" "get_prop f ''command'' = JStr c"
  shows "find_catastrophic c = None"
proof -
  have "bash_call_block mode (JObj f) = None"
    using assms(1) by (simp only: check_tool_call_def refl if_True option.distinct split: if_splits)
  then show ?thesis using assms(2) by (simp add: bash_call_block_def split: option.splits)
qed

lemma denied_table:
  "is_tool_hard_denied m ''bash'' \<longleftrightarrow> m \<noteq> Mode_DEV"
  "is_tool_hard_denied m ''edit'' \<longleftrightarrow> m \<noteq> Mode_DEV"
  "is_tool_hard_denied m ''write'' \<longleftrightarrow> m \<noteq> Mode_DEV"
  "is_tool_hard_denied m ''workbench_git'' \<longleftrightarrow> m \<noteq> Mode_DEV"
  "is_tool_hard_denied m ''workbench_repair_delegation'' \<longleftrightarrow> m \<noteq> Mode_DEV"
  "is_tool_hard_denied m ''workbench_delegate_worker'' \<longleftrightarrow> m \<noteq> Mode_DEV"
  "is_tool_hard_denied m ''workbench_run_recipe'' \<longleftrightarrow> m = Mode_AUDIT"
  "is_tool_hard_denied m ''workbench_run_gate'' \<longleftrightarrow> m = Mode_AUDIT"
  by (cases m; simp add: is_tool_hard_denied_def worker_tool_name_def)+

lemma passed_exception:
  "check_tool_call mode tool v = None \<Longrightarrow> is_tool_hard_denied mode tool \<Longrightarrow>
     mode = Mode_VERIFY \<and> (tool = ''workbench_git'' \<or> tool = ''workbench_delegate_worker'')"
  using passed_denied unfolding worker_tool_name_def by blast

text \<open>What the guard lets through respects the mode: bash, edit and write pass in DEV only; in AUDIT no recipe,
  gate, delegation, repair or Git call passes; in VERIFY a Git call is one of the three recovery actions, a
  delegation is limited to the two configuration files, and no repair starts; and no command that
  passes matches a catastrophic rule.\<close>

theorem passed_calls_respect_mode:
  assumes "check_tool_call mode tool v = None"
  shows "(tool \<in> {''bash'', ''edit'', ''write''} \<longrightarrow> mode = Mode_DEV)
    \<and> (mode = Mode_AUDIT \<longrightarrow> tool \<notin> {''workbench_run_recipe'', ''workbench_run_gate'', ''workbench_delegate_worker'',
         ''workbench_repair_delegation'', ''workbench_git''})
    \<and> (mode = Mode_VERIFY \<longrightarrow> tool \<noteq> ''workbench_repair_delegation''
        \<and> (tool = ''workbench_git'' \<longrightarrow> (\<exists>f a. v = JObj f \<and> a \<in> set recovery_actions \<and> get_prop f ''action'' = JStr a))
        \<and> (tool = ''workbench_delegate_worker'' \<longrightarrow> (\<exists>f ps. v = JObj f \<and> ps \<noteq> []
             \<and> get_prop f ''allowed_paths'' = JArr (map JStr ps) \<and> set ps \<subseteq> set config_maintenance_paths)))
    \<and> (\<forall>f command. tool = ''bash'' \<longrightarrow> v = JObj f \<longrightarrow> get_prop f ''command'' = JStr command \<longrightarrow> find_catastrophic command = None)"
proof -
  have mutating: "tool \<noteq> ''bash'' \<and> tool \<noteq> ''edit'' \<and> tool \<noteq> ''write''" if "mode \<noteq> Mode_DEV"
    using passed_exception[OF assms] denied_table(1-3) that by (intro conjI notI) simp_all
  then have bash: "tool \<in> {''bash'', ''edit'', ''write''} \<Longrightarrow> mode = Mode_DEV" by blast
  have "\<not> is_tool_hard_denied mode tool" if "mode = Mode_AUDIT"
    using passed_exception[OF assms] that by blast
  then have audit: "mode = Mode_AUDIT \<Longrightarrow> tool \<notin> {''workbench_run_recipe'', ''workbench_run_gate'', ''workbench_delegate_worker'',
         ''workbench_repair_delegation'', ''workbench_git''}"
    by (auto simp: denied_table)
  have repair: "mode = Mode_VERIFY \<Longrightarrow> tool \<noteq> ''workbench_repair_delegation''"
    using passed_exception[OF assms] denied_table(5) by (intro notI) simp
  have git: "mode = Mode_VERIFY \<Longrightarrow> tool = ''workbench_git'' \<Longrightarrow>
      \<exists>f a. v = JObj f \<and> a \<in> set recovery_actions \<and> get_prop f ''action'' = JStr a"
    using passed_denied[OF assms] denied_table(4) by (simp add: worker_tool_name_def)
  have delegate: "mode = Mode_VERIFY \<Longrightarrow> tool = ''workbench_delegate_worker'' \<Longrightarrow> is_config_maintenance v"
    using passed_denied[OF assms] denied_table(6) by (simp add: worker_tool_name_def)
  have command: "tool = ''bash'' \<Longrightarrow> v = JObj f \<Longrightarrow> get_prop f ''command'' = JStr c \<Longrightarrow> find_catastrophic c = None" for f c
    using passed_bash assms by blast
  have configuration: "mode = Mode_VERIFY \<Longrightarrow> tool = ''workbench_delegate_worker'' \<Longrightarrow> \<exists>f ps. v = JObj f \<and> ps \<noteq> []
             \<and> get_prop f ''allowed_paths'' = JArr (map JStr ps) \<and> set ps \<subseteq> set config_maintenance_paths"
    using config_maintenance_paths_only[OF delegate] by metis
  show ?thesis
    by (intro conjI impI allI; (rule bash audit repair git configuration command; assumption))
qed

theorem passed_calls_respect_mode_witness:
  "\<exists>f ps. JObj [(''allowed_paths'', JArr [JStr ''.pi/workbench/gates.yaml''])] = JObj f \<and> ps \<noteq> []
     \<and> get_prop f ''allowed_paths'' = JArr (map JStr ps) \<and> set ps \<subseteq> set config_maintenance_paths"
proof -
  have "check_tool_call Mode_VERIFY ''workbench_delegate_worker''
      (JObj [(''allowed_paths'', JArr [JStr ''.pi/workbench/gates.yaml''])]) = None" by code_simp
  from passed_calls_respect_mode[OF this, THEN conjunct2, THEN conjunct2, THEN conjunct1, THEN mp, OF refl,
      THEN conjunct2, THEN conjunct2, THEN mp, OF refl] show ?thesis .
qed

lemma worker_guard_cases:
  "worker_block_reason cwd \<lparr>wc_role = Some ''worker'', wc_root = Some dir, wc_allowed = Some allowed, wc_kind = kind\<rparr> tool v = None
   \<longleftrightarrow> tool \<notin> set worker_hidden_tools
     \<and> (tool \<in> {''edit'', ''write''} \<longrightarrow> effective_kind kind = Kind_implementation
         \<and> (\<exists>f path. input_fields v = Some f \<and> get_prop f ''path'' = JStr path \<and> js_trim path \<noteq> []
              \<and> dir \<noteq> [] \<and> allowed \<noteq> [] \<and> is_worker_path_allowed cwd dir path allowed))"
  (is "?l \<longleftrightarrow> ?r")
proof -
  consider "tool \<in> set worker_hidden_tools" | "tool \<notin> set worker_hidden_tools" "tool \<noteq> ''edit''" "tool \<noteq> ''write''"
    | "tool = ''edit'' \<or> tool = ''write''" "tool \<notin> set worker_hidden_tools" by blast
  then show ?thesis
  proof cases
    case 1
    then have "\<not> ?l" by (auto simp only: worker_block_reason_def worker_hidden_tools_def worker_context.simps
          list.set insert_iff empty_iff option.distinct refl if_True simp_thms split: if_splits)
    then show ?thesis using 1 by blast
  next
    case 2
    then have ?l by (simp add: worker_block_reason_def worker_hidden_tools_def)
    then show ?thesis using 2 by blast
  next
    case 3
    then have ew: "(tool \<noteq> ''edit'' \<and> tool \<noteq> ''write'') = False" by blast
    from 3 have hidden: "tool \<noteq> worker_tool_name" "tool \<noteq> ''workbench_repair_delegation''" "tool \<noteq> ''workbench_run_gate''"
      "tool \<noteq> ''workbench_git''" "tool \<noteq> ''bash''" by (auto simp: worker_hidden_tools_def)
    have "worker_block_reason cwd \<lparr>wc_role = Some ''worker'', wc_root = Some dir, wc_allowed = Some allowed, wc_kind = kind\<rparr> tool v =
      (if effective_kind kind \<noteq> Kind_implementation then
        Some (if effective_kind kind = Kind_diagnosis then Read_only tool else Invalid_kind tool)
      else case Option.bind (input_fields v) (\<lambda>f. as_string (get_prop f ''path'')) of
          None \<Rightarrow> Some (Needs_path tool)
        | Some path \<Rightarrow> if js_trim path = [] then Some (Needs_path tool)
            else if dir = [] \<or> allowed = [] then Some No_contract
            else if \<not> is_worker_path_allowed cwd dir path allowed then Some (Out_of_scope path) else None)"
      unfolding worker_block_reason_def worker_context.simps ew using hidden
      by (simp only: if_False simp_thms option.case prod.case)
    then show ?thesis using 3 by (auto simp: bind_eq_Some_conv split: option.splits if_splits)
  qed
qed

text \<open>The tools a worker is shown and the guard of its calls agree: a tool is in the worker's active set exactly
  when it was offered and there is some call of it, under some path contract, that the guard lets through.\<close>

theorem worker_matrix_agrees_with_guard:
  "tool \<in> set (compute_role_active_tools tools (Some ''worker'') kind) \<longleftrightarrow>
     tool \<in> set tools
     \<and> (\<exists>cwd dir allowed v. worker_block_reason cwd
          \<lparr>wc_role = Some ''worker'', wc_root = Some dir, wc_allowed = Some allowed, wc_kind = kind\<rparr> tool v = None)"
proof -
  have "is_worker_path_allowed ''/'' ''/p'' ''a'' [''a''] \<and> js_trim ''a'' \<noteq> []" by code_simp
  then have "\<exists>cwd dir allowed v f path. input_fields v = Some f \<and> get_prop f ''path'' = JStr path \<and> js_trim path \<noteq> []
      \<and> dir \<noteq> [] \<and> allowed \<noteq> [] \<and> is_worker_path_allowed cwd dir path allowed"
    by (intro exI[of _ "''/''"] exI[of _ "''/p''"] exI[of _ "[''a'']"] exI[of _ "JObj [(''path'', JStr ''a'')]"]
        exI[of _ "[(''path'', JStr ''a'')]"] exI[of _ "''a''"]) simp
  then obtain cwd dir allowed v f path where call: "input_fields v = Some f \<and> get_prop f ''path'' = JStr path \<and> js_trim path \<noteq> []
      \<and> dir \<noteq> [] \<and> allowed \<noteq> [] \<and> is_worker_path_allowed cwd dir path allowed" by blast
  have shown: "tool \<in> set (compute_role_active_tools tools (Some ''worker'') kind) \<longleftrightarrow>
      tool \<in> set tools \<and> tool \<notin> set worker_hidden_tools
      \<and> (tool \<in> {''edit'', ''write''} \<longrightarrow> effective_kind kind = Kind_implementation)"
    by (auto simp: compute_role_active_tools_def)
  have "tool \<notin> set worker_hidden_tools \<Longrightarrow> (tool \<in> {''edit'', ''write''} \<longrightarrow> effective_kind kind = Kind_implementation) \<Longrightarrow>
      worker_block_reason cwd \<lparr>wc_role = Some ''worker'', wc_root = Some dir, wc_allowed = Some allowed, wc_kind = kind\<rparr> tool v = None"
    unfolding worker_guard_cases using call by blast
  then show ?thesis unfolding shown using worker_guard_cases by blast
qed

lemma outputs_block_None:
  "outputs_block cwd sc ws = None \<longleftrightarrow>
     (\<forall>p\<in>set ws. exact_recipe_write cwd (rs_root sc) p \<and> is_worker_path_allowed cwd (rs_root sc) p (rs_allowed sc))"
  by (induction ws) auto

text \<open>C19: A worker process can only write inside its contract, whether by an edit or write call, whatever its
  input, or as a declared output of a mutating recipe. What gets through is the work of an implementation
  worker; the path is relative, resolves on its segments to a place below the project root, and a rule of
  the contract that itself resolves below the root names exactly that place, or ends in \<open>/\<close> or \<open>/**\<close>
  and names a directory above it. An edit or write call that passes has such a path in its \<open>path\<close> field;
  a recipe that passes declares outputs, each of them one exact file with no empty, dot or dot-dot segment.\<close>

theorem worker_writes_stay_in_scope:
  fixes cwd :: string and sc :: recipe_scope
  defines "base \<equiv> posix_resolve cwd (rs_root sc)"
  defines "place \<equiv> (\<lambda>path. abs_segments (posix_resolve base path))"
  defines "scoped \<equiv> (\<lambda>path. \<not> posix_is_absolute path \<and> prefix (abs_segments base) (place path)
      \<and> (\<exists>raw\<in>set (rs_allowed sc). \<exists>B subtree. rule_segments base raw = Some (B, subtree) \<and> prefix (abs_segments base) B
           \<and> (place path = B \<or> subtree \<and> prefix B (place path))))"
  assumes "af_role_env facts = Some ''worker''" "tool \<in> {''edit'', ''write''}" "mutation \<noteq> Mut_none"
  shows "(worker_block_reason cwd \<lparr>wc_role = Some ''worker'', wc_root = Some (rs_root sc),
             wc_allowed = Some (rs_allowed sc), wc_kind = Some (rs_kind sc)\<rparr> tool v = None \<longrightarrow>
           rs_kind sc = Kind_implementation
           \<and> (\<exists>f path. input_fields v = Some f \<and> get_prop f ''path'' = JStr path \<and> scoped path))
    \<and> (recipe_mutation_block cwd (Some facts) mutation outputs (Some sc) = None \<longrightarrow>
           rs_kind sc = Kind_implementation \<and> outputs \<noteq> []
           \<and> (\<forall>path\<in>set outputs. scoped path
                \<and> (\<forall>s\<in>set (split_on (CHR ''/'') path). s \<noteq> [] \<and> s \<noteq> ''.'' \<and> s \<noteq> ''..'')))"
proof -
  have scope: "is_worker_path_allowed cwd (rs_root sc) path (rs_allowed sc) \<longleftrightarrow> scoped path" for path
    unfolding worker_scope_on_segments scoped_def place_def base_def by (rule refl)
  have "rs_kind sc = Kind_implementation \<and> outputs \<noteq> [] \<and> outputs_block cwd sc outputs = None"
    if "recipe_mutation_block cwd (Some facts) mutation outputs (Some sc) = None"
    using that assms(4,6) by (simp add: recipe_mutation_block_def split: if_splits)
  then have recipe: "rs_kind sc = Kind_implementation \<and> outputs \<noteq> []
      \<and> (\<forall>path\<in>set outputs. scoped path \<and> (\<forall>s\<in>set (split_on (CHR ''/'') path). s \<noteq> [] \<and> s \<noteq> ''.'' \<and> s \<noteq> ''..''))"
    if "recipe_mutation_block cwd (Some facts) mutation outputs (Some sc) = None"
    using that unfolding outputs_block_None scope exact_recipe_write_def by blast
  have "rs_kind sc = Kind_implementation
      \<and> (\<exists>f path. input_fields v = Some f \<and> get_prop f ''path'' = JStr path \<and> scoped path)"
    if "worker_block_reason cwd \<lparr>wc_role = Some ''worker'', wc_root = Some (rs_root sc),
           wc_allowed = Some (rs_allowed sc), wc_kind = Some (rs_kind sc)\<rparr> tool v = None"
    using that assms(5) unfolding worker_guard_cases scope by (auto simp: effective_kind_def or_else_def)
  with recipe show ?thesis by blast
qed

theorem worker_writes_stay_in_scope_witness:
  "\<exists>B subtree. rule_segments ''/p'' ''src/**'' = Some (B, subtree) \<and> ([''p'', ''src'', ''a''] = B \<or> subtree \<and> prefix B [''p'', ''src'', ''a''])"
proof -
  define sc where "sc = \<lparr>rs_root = ''/p'', rs_allowed = [''src/**''], rs_kind = Kind_implementation\<rparr>"
  have passed: "recipe_mutation_block ''/'' (Some \<lparr>af_role_env = Some ''worker'', af_provider = None, af_model = None\<rparr>) Mut_source
      [''src/a''] (Some sc) = None" unfolding sc_def by code_simp
  have base: "posix_resolve ''/'' (rs_root sc) = ''/p''" "abs_segments (posix_resolve ''/p'' ''src/a'') = [''p'', ''src'', ''a'']"
    unfolding sc_def by code_simp+
  from worker_writes_stay_in_scope[of "\<lparr>af_role_env = Some ''worker'', af_provider = None, af_model = None\<rparr>" "''edit''"
      Mut_source "''/''" sc JNull "[''src/a'']", unfolded base]
  have "\<exists>raw\<in>set (rs_allowed sc). \<exists>B subtree. rule_segments ''/p'' raw = Some (B, subtree)
      \<and> (abs_segments (posix_resolve ''/p'' ''src/a'') = B \<or> subtree \<and> prefix B (abs_segments (posix_resolve ''/p'' ''src/a'')))"
    using passed by (simp add: Let_def) blast
  then show ?thesis unfolding base(2) by (simp add: sc_def)
qed

end
