(* ===== verification/Js_Time.thy ===== *)
theory Js_Time
  imports Js_Value
begin

section \<open>Canonical times\<close>

text \<open>
  The durable records keep times as texts and accept exactly those that \<open>toISOString\<close> prints:
  \<open>new Date(value).toISOString() === value\<close>. Those are \<open>YYYY-MM-DDTHH:mm:ss.sssZ\<close> on an existing
  day of the proleptic Gregorian calendar, and the six-digit signed years within the range of a Date.
\<close>

definition leap_year :: "nat \<Rightarrow> bool" where
  "leap_year y = (y mod 4 = 0 \<and> (y mod 100 \<noteq> 0 \<or> y mod 400 = 0))"

definition month_days :: "nat \<Rightarrow> nat \<Rightarrow> nat" where
  "month_days y m = (if m = 2 then (if leap_year y then 29 else 28) else if m \<in> {4, 6, 9, 11} then 30 else 31)"

text \<open>The part after the year, \<open>-MM-DDTHH:mm:ss.sssZ\<close>.\<close>

definition iso_tail :: "nat \<Rightarrow> string \<Rightarrow> bool" where
  "iso_tail y s =
     (let num = (\<lambda>i n. decimal_value 0 (take n (drop i s)))
      in length s = 20
         \<and> map (\<lambda>i. s ! i) [0, 3, 6, 9, 12, 15, 19] = ''--T::.Z''
         \<and> list_all (\<lambda>i. is_digit (s ! i)) [1, 2, 4, 5, 7, 8, 10, 11, 13, 14, 16, 17, 18]
         \<and> 1 \<le> num 1 2 \<and> num 1 2 \<le> 12 \<and> 1 \<le> num 4 2 \<and> num 4 2 \<le> month_days y (num 1 2)
         \<and> num 7 2 \<le> 23 \<and> num 10 2 \<le> 59 \<and> num 13 2 \<le> 59)"

definition canonical_iso :: "string \<Rightarrow> bool" where
  "canonical_iso s =
     (length s = 24 \<and> list_all is_digit (take 4 s) \<and> iso_tail (decimal_value 0 (take 4 s)) (drop 4 s)
      \<or> length s = 27 \<and> list_all is_digit (take 6 (drop 1 s))
        \<and> (let y = decimal_value 0 (take 6 (drop 1 s)); r = drop 7 s
           in iso_tail y r
              \<and> (hd s = CHR ''+'' \<and> 10000 \<le> y
                   \<and> (y < 275760 \<or> y = 275760 \<and> r \<le> ''-09-13T00:00:00.000Z'')
                 \<or> hd s = CHR ''-'' \<and> 1 \<le> y
                   \<and> (y < 271821 \<or> y = 271821 \<and> ''-04-20T00:00:00.000Z'' \<le> r))))"

text \<open>\<open>isIsoTime\<close> of the transaction modules.\<close>

definition is_iso_time :: "string \<Rightarrow> bool" where
  "is_iso_time s = (20 \<le> length s \<and> length s \<le> 32 \<and> canonical_iso s)"

text \<open>
  \<open>Date.parse\<close> on a canonical time: milliseconds since 1970. \<open>days_before_year\<close> counts from
  the first day of year zero, which lies 719528 days before the epoch.
\<close>

definition days_before_year :: "int \<Rightarrow> int" where
  "days_before_year y = 365 * y + (y + 3) div 4 - (y + 99) div 100 + (y + 399) div 400"

definition iso_year :: "string \<Rightarrow> int" where
  "iso_year s =
     (if length s = 24 then int (decimal_value 0 (take 4 s))
      else (if hd s = CHR ''-'' then - 1 else 1) * int (decimal_value 0 (take 6 (drop 1 s))))"

definition date_parse :: "string \<Rightarrow> int" where
  "date_parse s =
     (let y = iso_year s; t = drop (length s - 20) s; num = (\<lambda>i n. decimal_value 0 (take n (drop i t)));
          month_sum = sum_list (map (month_days (nat (y mod 400))) [1..<num 1 2]);
          days = days_before_year y + int month_sum + int (num 4 2) - 1 - 719528
      in (((days * 24 + int (num 7 2)) * 60 + int (num 10 2)) * 60 + int (num 13 2)) * 1000 + int (num 16 3))"

end
