(* ===== verification/Delegation_Transaction.thy ===== *)
theory Delegation_Transaction
  imports Canonical_Hash Js_Time Path_Lane
begin

section \<open>Delegation transactions (core/delegation-transaction.ts, core/worker-run-failure.ts)\<close>

text \<open>
  The durable record of one delegation: prepared, running, committing, then one of the terminal
  statuses. Every transition parses its source record with the closed parser of the file, compares the
  caller's expectations with it, and returns the next revision. Records are typed as the interfaces of the
  source; the parsers read JavaScript values.
\<close>

subsection \<open>Vocabulary\<close>

datatype delegation_task =
    Task_implementation
  | Task_diagnosis

primrec delegation_task_text :: "delegation_task \<Rightarrow> string" where
  "delegation_task_text Task_implementation = ''implementation''"
| "delegation_task_text Task_diagnosis = ''diagnosis''"

definition delegation_task_all :: "delegation_task list" where
  "delegation_task_all = [Task_implementation, Task_diagnosis]"

interpretation delegation_task_wire: wire_enum delegation_task_all delegation_task_text
proof
  show "e \<in> set delegation_task_all" for e by (cases e) (simp_all add: delegation_task_all_def)
  show "distinct (map delegation_task_text delegation_task_all)" by (simp add: delegation_task_all_def)
qed

datatype delegation_status =
    St_PREPARED
  | St_RUNNING
  | St_COMMITTING
  | St_FINISHED
  | St_PENDING_REVIEW
  | St_INTERRUPTED
  | St_REVIEWED
  | St_FAILED
  | St_ABORTED
  | St_RECOVERY_REQUIRED

primrec delegation_status_text :: "delegation_status \<Rightarrow> string" where
  "delegation_status_text St_PREPARED = ''PREPARED''"
| "delegation_status_text St_RUNNING = ''RUNNING''"
| "delegation_status_text St_COMMITTING = ''COMMITTING''"
| "delegation_status_text St_FINISHED = ''FINISHED''"
| "delegation_status_text St_PENDING_REVIEW = ''PENDING_REVIEW''"
| "delegation_status_text St_INTERRUPTED = ''INTERRUPTED''"
| "delegation_status_text St_REVIEWED = ''REVIEWED''"
| "delegation_status_text St_FAILED = ''FAILED''"
| "delegation_status_text St_ABORTED = ''ABORTED''"
| "delegation_status_text St_RECOVERY_REQUIRED = ''RECOVERY_REQUIRED''"

definition delegation_status_all :: "delegation_status list" where
  "delegation_status_all = [St_PREPARED, St_RUNNING, St_COMMITTING, St_FINISHED, St_PENDING_REVIEW, St_INTERRUPTED, St_REVIEWED, St_FAILED, St_ABORTED, St_RECOVERY_REQUIRED]"

interpretation delegation_status_wire: wire_enum delegation_status_all delegation_status_text
proof
  show "e \<in> set delegation_status_all" for e by (cases e) (simp_all add: delegation_status_all_def)
  show "distinct (map delegation_status_text delegation_status_all)" by (simp add: delegation_status_all_def)
qed

datatype postcondition =
    Pc_PROVIDER_NOT_SUCCESS
  | Pc_WORKER_RUN_FAILED
  | Pc_EXIT_CODE_NOT_ZERO
  | Pc_REPORT_INCOMPLETE
  | Pc_TERMINAL_FACTS_INCOMPLETE
  | Pc_SCOPE_INCOMPLETE
  | Pc_WORKSPACE_DRIFT_DETECTED
  | Pc_CHANGE_SET_CONFLICT
  | Pc_OUT_OF_SCOPE_CHANGES
  | Pc_IMPLEMENTATION_DELTA_REQUIRED
  | Pc_IMPLEMENTATION_DELTA_HASH_REQUIRED
  | Pc_DIAGNOSIS_DELTA_FORBIDDEN
  | Pc_DIAGNOSIS_SUCCESSFUL_WRITES_FORBIDDEN
  | Pc_DIAGNOSIS_DENIED_WRITES_FORBIDDEN

primrec postcondition_text :: "postcondition \<Rightarrow> string" where
  "postcondition_text Pc_PROVIDER_NOT_SUCCESS = ''PROVIDER_NOT_SUCCESS''"
| "postcondition_text Pc_WORKER_RUN_FAILED = ''WORKER_RUN_FAILED''"
| "postcondition_text Pc_EXIT_CODE_NOT_ZERO = ''EXIT_CODE_NOT_ZERO''"
| "postcondition_text Pc_REPORT_INCOMPLETE = ''REPORT_INCOMPLETE''"
| "postcondition_text Pc_TERMINAL_FACTS_INCOMPLETE = ''TERMINAL_FACTS_INCOMPLETE''"
| "postcondition_text Pc_SCOPE_INCOMPLETE = ''SCOPE_INCOMPLETE''"
| "postcondition_text Pc_WORKSPACE_DRIFT_DETECTED = ''WORKSPACE_DRIFT_DETECTED''"
| "postcondition_text Pc_CHANGE_SET_CONFLICT = ''CHANGE_SET_CONFLICT''"
| "postcondition_text Pc_OUT_OF_SCOPE_CHANGES = ''OUT_OF_SCOPE_CHANGES''"
| "postcondition_text Pc_IMPLEMENTATION_DELTA_REQUIRED = ''IMPLEMENTATION_DELTA_REQUIRED''"
| "postcondition_text Pc_IMPLEMENTATION_DELTA_HASH_REQUIRED = ''IMPLEMENTATION_DELTA_HASH_REQUIRED''"
| "postcondition_text Pc_DIAGNOSIS_DELTA_FORBIDDEN = ''DIAGNOSIS_DELTA_FORBIDDEN''"
| "postcondition_text Pc_DIAGNOSIS_SUCCESSFUL_WRITES_FORBIDDEN = ''DIAGNOSIS_SUCCESSFUL_WRITES_FORBIDDEN''"
| "postcondition_text Pc_DIAGNOSIS_DENIED_WRITES_FORBIDDEN = ''DIAGNOSIS_DENIED_WRITES_FORBIDDEN''"

definition postcondition_all :: "postcondition list" where
  "postcondition_all = [Pc_PROVIDER_NOT_SUCCESS, Pc_WORKER_RUN_FAILED, Pc_EXIT_CODE_NOT_ZERO, Pc_REPORT_INCOMPLETE, Pc_TERMINAL_FACTS_INCOMPLETE, Pc_SCOPE_INCOMPLETE, Pc_WORKSPACE_DRIFT_DETECTED, Pc_CHANGE_SET_CONFLICT, Pc_OUT_OF_SCOPE_CHANGES, Pc_IMPLEMENTATION_DELTA_REQUIRED, Pc_IMPLEMENTATION_DELTA_HASH_REQUIRED, Pc_DIAGNOSIS_DELTA_FORBIDDEN, Pc_DIAGNOSIS_SUCCESSFUL_WRITES_FORBIDDEN, Pc_DIAGNOSIS_DENIED_WRITES_FORBIDDEN]"

interpretation postcondition_wire: wire_enum postcondition_all postcondition_text
proof
  show "e \<in> set postcondition_all" for e by (cases e) (simp_all add: postcondition_all_def)
  show "distinct (map postcondition_text postcondition_all)" by (simp add: postcondition_all_def)
qed

datatype run_failure =
    Wf_COMPACTION_REJECTED
  | Wf_CONTEXT_HARD_LIMIT
  | Wf_SPEND_TOTAL_TOKEN_LIMIT
  | Wf_SPEND_OUTPUT_TOKEN_LIMIT
  | Wf_SPEND_TURN_LIMIT
  | Wf_SPEND_TURN_LIMIT_LEGACY
  | Wf_MODEL_IDENTITY_MISMATCH
  | Wf_ABORTED
  | Wf_TIMED_OUT
  | Wf_EXIT_CODE_NONZERO
  | Wf_STOP_REASON_FAILURE
  | Wf_PROVIDER_RESPONSE_UNVERIFIED
  | Wf_FINAL_OUTPUT_MISSING
  | Wf_COMMAND_EFFECT_RUN_FAILED

primrec run_failure_text :: "run_failure \<Rightarrow> string" where
  "run_failure_text Wf_COMPACTION_REJECTED = ''COMPACTION_REJECTED''"
| "run_failure_text Wf_CONTEXT_HARD_LIMIT = ''CONTEXT_HARD_LIMIT''"
| "run_failure_text Wf_SPEND_TOTAL_TOKEN_LIMIT = ''SPEND_TOTAL_TOKEN_LIMIT''"
| "run_failure_text Wf_SPEND_OUTPUT_TOKEN_LIMIT = ''SPEND_OUTPUT_TOKEN_LIMIT''"
| "run_failure_text Wf_SPEND_TURN_LIMIT = ''SPEND_TURN_LIMIT''"
| "run_failure_text Wf_SPEND_TURN_LIMIT_LEGACY = ''SPEND_TURN_LIMIT_LEGACY''"
| "run_failure_text Wf_MODEL_IDENTITY_MISMATCH = ''MODEL_IDENTITY_MISMATCH''"
| "run_failure_text Wf_ABORTED = ''ABORTED''"
| "run_failure_text Wf_TIMED_OUT = ''TIMED_OUT''"
| "run_failure_text Wf_EXIT_CODE_NONZERO = ''EXIT_CODE_NONZERO''"
| "run_failure_text Wf_STOP_REASON_FAILURE = ''STOP_REASON_FAILURE''"
| "run_failure_text Wf_PROVIDER_RESPONSE_UNVERIFIED = ''PROVIDER_RESPONSE_UNVERIFIED''"
| "run_failure_text Wf_FINAL_OUTPUT_MISSING = ''FINAL_OUTPUT_MISSING''"
| "run_failure_text Wf_COMMAND_EFFECT_RUN_FAILED = ''COMMAND_EFFECT_RUN_FAILED''"

definition run_failure_all :: "run_failure list" where
  "run_failure_all = [Wf_COMPACTION_REJECTED, Wf_CONTEXT_HARD_LIMIT, Wf_SPEND_TOTAL_TOKEN_LIMIT, Wf_SPEND_OUTPUT_TOKEN_LIMIT, Wf_SPEND_TURN_LIMIT, Wf_SPEND_TURN_LIMIT_LEGACY, Wf_MODEL_IDENTITY_MISMATCH, Wf_ABORTED, Wf_TIMED_OUT, Wf_EXIT_CODE_NONZERO, Wf_STOP_REASON_FAILURE, Wf_PROVIDER_RESPONSE_UNVERIFIED, Wf_FINAL_OUTPUT_MISSING, Wf_COMMAND_EFFECT_RUN_FAILED]"

interpretation run_failure_wire: wire_enum run_failure_all run_failure_text
proof
  show "e \<in> set run_failure_all" for e by (cases e) (simp_all add: run_failure_all_def)
  show "distinct (map run_failure_text run_failure_all)" by (simp add: run_failure_all_def)
qed

datatype change_status =
    Cs_ATTRIBUTED
  | Cs_WORKSPACE_DRIFT
  | Cs_CONFLICT

primrec change_status_text :: "change_status \<Rightarrow> string" where
  "change_status_text Cs_ATTRIBUTED = ''ATTRIBUTED''"
| "change_status_text Cs_WORKSPACE_DRIFT = ''WORKSPACE_DRIFT''"
| "change_status_text Cs_CONFLICT = ''CONFLICT''"

definition change_status_all :: "change_status list" where
  "change_status_all = [Cs_ATTRIBUTED, Cs_WORKSPACE_DRIFT, Cs_CONFLICT]"

interpretation change_status_wire: wire_enum change_status_all change_status_text
proof
  show "e \<in> set change_status_all" for e by (cases e) (simp_all add: change_status_all_def)
  show "distinct (map change_status_text change_status_all)" by (simp add: change_status_all_def)
qed

definition interruption_failures :: "run_failure list" where
  "interruption_failures =
     [Wf_COMPACTION_REJECTED, Wf_CONTEXT_HARD_LIMIT, Wf_SPEND_TOTAL_TOKEN_LIMIT, Wf_SPEND_OUTPUT_TOKEN_LIMIT,
      Wf_SPEND_TURN_LIMIT, Wf_SPEND_TURN_LIMIT_LEGACY, Wf_ABORTED, Wf_TIMED_OUT, Wf_EXIT_CODE_NONZERO,
      Wf_STOP_REASON_FAILURE, Wf_FINAL_OUTPUT_MISSING]"

definition committed_record_names :: "string list" where
  "committed_record_names =
     [''after.json'', ''before.json'', ''identity.json'', ''review.json'', ''scope.json'', ''usage.json'',
      ''worker-report.md'', ''worker-summary.json'']"

subsection \<open>Records\<close>

record worker_identity =
  wi_provider :: string
  wi_model :: string
  wi_worker :: string

text \<open>
  \<open>to_worker\<close> holds the two fields \<open>worker_success\<close> and \<open>worker_failure_code\<close>, absent together on
  historical records.
\<close>

record terminal_outcome =
  to_delegation :: string
  to_task :: delegation_task
  to_identity :: worker_identity
  to_provider_success :: bool
  to_worker :: "(bool \<times> run_failure option) option"
  to_exit_code :: int
  to_report_complete :: bool
  to_facts_complete :: bool
  to_scope_complete :: bool
  to_change_status :: change_status
  to_changed_paths :: "string list"
  to_writes :: int
  to_denied :: int
  to_delta_hash :: "string option"

record commit_proof =
  pr_schema :: int
  pr_delegation :: string
  pr_task :: delegation_task
  pr_contract :: string
  pr_identity :: worker_identity
  pr_generation :: int
  pr_revision :: int
  pr_names :: "string list"
  pr_count :: int
  pr_content :: string
  pr_marker :: string

record review_proof =
  rv_delegation :: string
  rv_generation :: int
  rv_revision :: int
  rv_hash :: string
  rv_at :: string
  rv_reviewer :: string

record lineage_input =
  ln_root :: string
  ln_repair_of :: string
  ln_root_hash :: string
  ln_decision_id :: string
  ln_decision_hash :: string
  ln_parent_hash :: "string option"
  ln_depth :: int
  ln_paths :: "string list"

record repair_lineage = lineage_input +
  ln_hash :: string

record transaction =
  tx_delegation :: string
  tx_task :: delegation_task
  tx_contract :: string
  tx_allowed :: "string list"
  tx_identity :: worker_identity
  tx_generation :: int
  tx_revision :: int
  tx_status :: delegation_status
  tx_created :: string
  tx_updated :: string
  tx_reasons :: "postcondition list"
  tx_outcome :: "terminal_outcome option"
  tx_proof :: "commit_proof option"
  tx_review :: "review_proof option"
  tx_abort :: "string option"
  tx_recovery :: "string option"
  tx_lineage :: "repair_lineage option"

subsection \<open>Field readers\<close>

definition str_where :: "(string \<Rightarrow> bool) \<Rightarrow> jv \<Rightarrow> string option" where
  "str_where P v = (case as_string v of None \<Rightarrow> None | Some s \<Rightarrow> if P s then Some s else None)"

definition null_or :: "(jv \<Rightarrow> 'a option) \<Rightarrow> jv \<Rightarrow> 'a option option" where
  "null_or p v = (if v = JNull then Some None else map_option Some (p v))"

definition list_where :: "(string list \<Rightarrow> bool) \<Rightarrow> jv \<Rightarrow> string list option" where
  "list_where P v = (case Option.bind (as_array v) as_strings of None \<Rightarrow> None | Some ss \<Rightarrow> if P ss then Some ss else None)"

definition positive_integer :: "int \<Rightarrow> bool" where
  "positive_integer i = (0 < i \<and> i \<le> max_safe_integer)"

definition non_negative_integer :: "int \<Rightarrow> bool" where
  "non_negative_integer i = (0 \<le> i \<and> i \<le> max_safe_integer)"

definition int_where :: "(int \<Rightarrow> bool) \<Rightarrow> jv \<Rightarrow> int option" where
  "int_where P v = (case as_safe_int v of None \<Rightarrow> None | Some i \<Rightarrow> if P i then Some i else None)"

definition null_value :: "('a \<Rightarrow> jv) \<Rightarrow> 'a option \<Rightarrow> jv" where
  "null_value f x = (case x of None \<Rightarrow> JNull | Some y \<Rightarrow> f y)"

definition is_strict_relative_path :: "string \<Rightarrow> bool" where
  "is_strict_relative_path s =
     (s \<noteq> [] \<and> length s \<le> 400 \<and> s = js_trim s \<and> \<not> posix_is_absolute s \<and> CHR 0x5C \<notin> set s \<and> CHR 0x00 \<notin> set s
      \<and> posix_normalize s = s \<and> s \<noteq> ''.'' \<and> s \<noteq> ''..'' \<and> \<not> starts_with ''../'' s)"

definition is_allowed_path_rule :: "string \<Rightarrow> bool" where
  "is_allowed_path_rule s =
     (s \<noteq> [] \<and> length s \<le> 400
      \<and> (let base = (if ends_with ''/**'' s then drop_last 3 s else if ends_with ''/'' s then drop_last 1 s else s)
         in base \<noteq> [] \<and> is_strict_relative_path base))"

fun is_sorted_unique :: "string list \<Rightarrow> bool" where
  "is_sorted_unique (a # b # xs) = (a < b \<and> is_sorted_unique (b # xs))"
| "is_sorted_unique _ = True"

text \<open>The exact-file scope a repair needs: no subtree and no glob.\<close>

definition exact_repair_paths :: "string list \<Rightarrow> string list option" where
  "exact_repair_paths rules =
     (if rules \<noteq> [] \<and> (\<forall>r\<in>set rules. is_allowed_path_rule r \<and> \<not> ends_with ''/'' r \<and> \<not> ends_with ''/**'' r
           \<and> (\<forall>c\<in>set r. c \<notin> {CHR ''?'', CHR ''*'', CHR ''['', CHR '']'', CHR ''{'', CHR ''}''}))
      then Some rules else None)"

subsection \<open>Worker identity\<close>

definition worker_provider :: string where "worker_provider = ''openai-codex''"
definition worker_model :: string where "worker_model = ''gpt-5.6-luna''"

text \<open>\<open>/^[A-Za-z0-9][A-Za-z0-9._:-]{0,63}$/\<close>\<close>

definition worker_id_re :: "string \<Rightarrow> bool" where
  "worker_id_re s =
     (s \<noteq> [] \<and> length s \<le> 64 \<and> is_alnum (hd s)
      \<and> (\<forall>c\<in>set s. is_alnum c \<or> c \<in> {CHR ''.'', CHR ''_'', CHR '':'', CHR ''-''}))"

definition valid_identity :: "worker_identity \<Rightarrow> bool" where
  "valid_identity i = (wi_provider i = worker_provider \<and> wi_model i = worker_model \<and> worker_id_re (wi_worker i))"

definition identity_value :: "worker_identity \<Rightarrow> jv" where
  "identity_value i =
     JObj [(''provider'', JStr (wi_provider i)), (''model'', JStr (wi_model i)), (''worker_id'', JStr (wi_worker i))]"

definition identity_fields :: "string list" where
  "identity_fields = [''provider'', ''model'', ''worker_id'']"

definition parse_identity :: "jv \<Rightarrow> worker_identity option" where
  "parse_identity v =
     (case as_record v of None \<Rightarrow> None
      | Some f \<Rightarrow>
          if \<not> exact_fields f identity_fields then None
          else case (as_string (get_prop f ''provider''), as_string (get_prop f ''model''), as_string (get_prop f ''worker_id'')) of
              (Some a, Some b, Some c) \<Rightarrow>
                let i = \<lparr>wi_provider = a, wi_model = b, wi_worker = c\<rparr> in if valid_identity i then Some i else None
            | _ \<Rightarrow> None)"

subsection \<open>Terminal outcome\<close>

definition legacy_outcome_fields :: "string list" where
  "legacy_outcome_fields =
     [''delegation_id'', ''task_kind'', ''worker_identity'', ''provider_success'', ''exit_code'', ''report_complete'',
      ''terminal_facts_complete'', ''scope_complete'', ''change_set_status'', ''changed_paths'',
      ''successful_write_count'', ''denied_write_count'', ''delta_hash'']"

definition outcome_fields :: "string list" where
  "outcome_fields = legacy_outcome_fields @ [''worker_success'', ''worker_failure_code'']"

text \<open>\<open>isCurrentDelegationTerminalOutcome\<close>: both worker fields are there and agree.\<close>

definition is_current_outcome :: "terminal_outcome \<Rightarrow> bool" where
  "is_current_outcome o1 = (case to_worker o1 of None \<Rightarrow> False | Some (ok, failure) \<Rightarrow> ok = (failure = None))"

definition valid_paths :: "string list \<Rightarrow> bool" where
  "valid_paths ps = (length ps \<le> max_transaction_paths \<and> list_all is_strict_relative_path ps \<and> increasing ps)"

definition valid_outcome :: "terminal_outcome \<Rightarrow> bool" where
  "valid_outcome o1 =
     (transaction_id_re (to_delegation o1) \<and> valid_identity (to_identity o1) \<and> \<bar>to_exit_code o1\<bar> \<le> max_safe_integer
      \<and> (to_worker o1 \<noteq> None \<longrightarrow> is_current_outcome o1)
      \<and> valid_paths (to_changed_paths o1)
      \<and> non_negative_integer (to_writes o1) \<and> non_negative_integer (to_denied o1)
      \<and> (case to_delta_hash o1 of None \<Rightarrow> True | Some h \<Rightarrow> hash_re h))"

definition worker_value :: "bool \<times> run_failure option \<Rightarrow> fields" where
  "worker_value w =
     [(''worker_success'', JBool (fst w)), (''worker_failure_code'', null_value (JStr \<circ> run_failure_text) (snd w))]"

definition outcome_value :: "terminal_outcome \<Rightarrow> jv" where
  "outcome_value o1 = JObj
     ([(''delegation_id'', JStr (to_delegation o1)), (''task_kind'', JStr (delegation_task_text (to_task o1))),
       (''worker_identity'', identity_value (to_identity o1)), (''provider_success'', JBool (to_provider_success o1)),
       (''exit_code'', JNum (JInt (to_exit_code o1))), (''report_complete'', JBool (to_report_complete o1)),
       (''terminal_facts_complete'', JBool (to_facts_complete o1)), (''scope_complete'', JBool (to_scope_complete o1)),
       (''change_set_status'', JStr (change_status_text (to_change_status o1))),
       (''changed_paths'', JArr (map JStr (to_changed_paths o1))), (''successful_write_count'', JNum (JInt (to_writes o1))),
       (''denied_write_count'', JNum (JInt (to_denied o1))), (''delta_hash'', null_value JStr (to_delta_hash o1))]
      @ (case to_worker o1 of None \<Rightarrow> [] | Some w \<Rightarrow> worker_value w))"

definition parse_worker :: "fields \<Rightarrow> (bool \<times> run_failure option) option option" where
  "parse_worker f =
     (if exact_fields f outcome_fields then
        (case (as_bool (get_prop f ''worker_success''),
               null_or (parse_enum run_failure_all run_failure_text) (get_prop f ''worker_failure_code'')) of
           (Some b, Some c) \<Rightarrow> Some (Some (b, c)) | _ \<Rightarrow> None)
      else if exact_fields f legacy_outcome_fields then Some None else None)"

definition parse_outcome :: "jv \<Rightarrow> terminal_outcome option" where
  "parse_outcome v =
     (case as_record v of None \<Rightarrow> None
      | Some f \<Rightarrow>
          (case (parse_worker f, as_string (get_prop f ''delegation_id''),
                 parse_enum delegation_task_all delegation_task_text (get_prop f ''task_kind''),
                 parse_identity (get_prop f ''worker_identity''), as_bool (get_prop f ''provider_success''),
                 as_safe_int (get_prop f ''exit_code''), as_bool (get_prop f ''report_complete''),
                 as_bool (get_prop f ''terminal_facts_complete''), as_bool (get_prop f ''scope_complete''),
                 parse_enum change_status_all change_status_text (get_prop f ''change_set_status''),
                 list_where valid_paths (get_prop f ''changed_paths''), as_safe_int (get_prop f ''successful_write_count''),
                 as_safe_int (get_prop f ''denied_write_count''), null_or as_string (get_prop f ''delta_hash'')) of
             (Some w, Some did, Some task, Some i, Some ps, Some ec, Some rc, Some fc, Some sc, Some cs, Some paths,
              Some wr, Some dn, Some dh) \<Rightarrow>
               let o1 = \<lparr>to_delegation = did, to_task = task, to_identity = i, to_provider_success = ps, to_worker = w,
                   to_exit_code = ec, to_report_complete = rc, to_facts_complete = fc, to_scope_complete = sc,
                   to_change_status = cs, to_changed_paths = paths, to_writes = wr, to_denied = dn, to_delta_hash = dh\<rparr>
               in if valid_outcome o1 then Some o1 else None
           | _ \<Rightarrow> None))"

subsection \<open>Committed-generation proof and review\<close>

definition commit_marker :: "commit_proof \<Rightarrow> string" where
  "commit_marker p =
     ''delegation-v2:'' @ pr_delegation p @ '':'' @ delegation_task_text (pr_task p) @ '':'' @ pr_contract p @ '':''
       @ int_text (pr_generation p) @ '':'' @ int_text (pr_revision p) @ '':'' @ pr_content p"

definition valid_proof :: "commit_proof \<Rightarrow> bool" where
  "valid_proof p =
     (pr_schema p = 2 \<and> transaction_id_re (pr_delegation p) \<and> hash_re (pr_contract p) \<and> valid_identity (pr_identity p)
      \<and> positive_integer (pr_generation p) \<and> non_negative_integer (pr_revision p)
      \<and> pr_names p = committed_record_names \<and> pr_count p = int (length committed_record_names)
      \<and> hash_re (pr_content p) \<and> pr_marker p = commit_marker p)"

definition proof_fields :: "string list" where
  "proof_fields =
     [''schema_version'', ''delegation_id'', ''task_kind'', ''contract_hash'', ''worker_identity'', ''generation'',
      ''revision'', ''record_names'', ''record_count'', ''content_hash'', ''commit_marker'']"

definition proof_value :: "commit_proof \<Rightarrow> jv" where
  "proof_value p = JObj
     [(''schema_version'', JNum (JInt (pr_schema p))), (''delegation_id'', JStr (pr_delegation p)),
      (''task_kind'', JStr (delegation_task_text (pr_task p))), (''contract_hash'', JStr (pr_contract p)),
      (''worker_identity'', identity_value (pr_identity p)), (''generation'', JNum (JInt (pr_generation p))),
      (''revision'', JNum (JInt (pr_revision p))), (''record_names'', JArr (map JStr (pr_names p))),
      (''record_count'', JNum (JInt (pr_count p))), (''content_hash'', JStr (pr_content p)),
      (''commit_marker'', JStr (pr_marker p))]"

definition parse_proof :: "jv \<Rightarrow> commit_proof option" where
  "parse_proof v =
     (case as_record v of None \<Rightarrow> None
      | Some f \<Rightarrow>
          if \<not> exact_fields f proof_fields then None
          else (case (as_safe_int (get_prop f ''schema_version''), as_string (get_prop f ''delegation_id''),
                 parse_enum delegation_task_all delegation_task_text (get_prop f ''task_kind''),
                 as_string (get_prop f ''contract_hash''), parse_identity (get_prop f ''worker_identity''),
                 as_safe_int (get_prop f ''generation''), as_safe_int (get_prop f ''revision''),
                 list_where (\<lambda>_. True) (get_prop f ''record_names''), as_safe_int (get_prop f ''record_count''),
                 as_string (get_prop f ''content_hash''), as_string (get_prop f ''commit_marker'')) of
             (Some sv, Some did, Some task, Some ch, Some i, Some g, Some r, Some ns, Some c, Some h, Some m) \<Rightarrow>
               let p = \<lparr>pr_schema = sv, pr_delegation = did, pr_task = task, pr_contract = ch, pr_identity = i,
                   pr_generation = g, pr_revision = r, pr_names = ns, pr_count = c, pr_content = h, pr_marker = m\<rparr>
               in if valid_proof p then Some p else None
           | _ \<Rightarrow> None))"

definition valid_review :: "review_proof \<Rightarrow> bool" where
  "valid_review r =
     (transaction_id_re (rv_delegation r) \<and> positive_integer (rv_generation r) \<and> non_negative_integer (rv_revision r)
      \<and> hash_re (rv_hash r) \<and> is_iso_time (rv_at r) \<and> rv_reviewer r = ''sol'')"

definition review_fields :: "string list" where
  "review_fields =
     [''delegation_id'', ''generation'', ''transaction_revision'', ''review_hash'', ''reviewed_at'', ''reviewer'']"

definition review_value :: "review_proof \<Rightarrow> jv" where
  "review_value r = JObj
     [(''delegation_id'', JStr (rv_delegation r)), (''generation'', JNum (JInt (rv_generation r))),
      (''transaction_revision'', JNum (JInt (rv_revision r))), (''review_hash'', JStr (rv_hash r)),
      (''reviewed_at'', JStr (rv_at r)), (''reviewer'', JStr (rv_reviewer r))]"

definition parse_review :: "jv \<Rightarrow> review_proof option" where
  "parse_review v =
     (case as_record v of None \<Rightarrow> None
      | Some f \<Rightarrow>
          if \<not> exact_fields f review_fields then None
          else (case (as_string (get_prop f ''delegation_id''), as_safe_int (get_prop f ''generation''),
                 as_safe_int (get_prop f ''transaction_revision''), as_string (get_prop f ''review_hash''),
                 as_string (get_prop f ''reviewed_at''), as_string (get_prop f ''reviewer'')) of
             (Some did, Some g, Some n, Some h, Some t, Some w) \<Rightarrow>
               let r = \<lparr>rv_delegation = did, rv_generation = g, rv_revision = n, rv_hash = h, rv_at = t, rv_reviewer = w\<rparr>
               in if valid_review r then Some r else None
           | _ \<Rightarrow> None))"

subsection \<open>Repair lineage\<close>

definition max_lineage_depth :: int where "max_lineage_depth = 16"

definition valid_lineage_input :: "'a lineage_input_scheme \<Rightarrow> bool" where
  "valid_lineage_input l =
     (transaction_id_re (ln_root l) \<and> transaction_id_re (ln_repair_of l) \<and> hash_re (ln_root_hash l)
      \<and> transaction_id_re (ln_decision_id l) \<and> hash_re (ln_decision_hash l)
      \<and> (case ln_parent_hash l of None \<Rightarrow> True | Some h \<Rightarrow> hash_re h)
      \<and> positive_integer (ln_depth l) \<and> ln_depth l \<le> max_lineage_depth
      \<and> ln_paths l \<noteq> [] \<and> valid_paths (ln_paths l)
      \<and> (if ln_depth l = 1
         then ln_parent_hash l = None \<and> ln_root l = ln_repair_of l \<and> ln_decision_id l = ln_root l
              \<and> ln_decision_hash l = ln_root_hash l
         else ln_parent_hash l \<noteq> None \<and> ln_root l \<noteq> ln_repair_of l))"

definition lineage_kind :: string where "lineage_kind = ''semantic-repair-lineage-v1''"

definition lineage_projection :: "'a lineage_input_scheme \<Rightarrow> fields" where
  "lineage_projection l =
     [(''schema_version'', JNum (JInt 1)), (''kind'', JStr lineage_kind), (''root_delegation_id'', JStr (ln_root l)),
      (''repair_of'', JStr (ln_repair_of l)), (''root_decision_hash'', JStr (ln_root_hash l)),
      (''continuation_decision_delegation_id'', JStr (ln_decision_id l)),
      (''continuation_decision_hash'', JStr (ln_decision_hash l)),
      (''parent_lineage_hash'', null_value JStr (ln_parent_hash l)), (''depth'', JNum (JInt (ln_depth l))),
      (''carried_paths'', JArr (map JStr (ln_paths l)))]"

definition lineage_fields :: "string list" where
  "lineage_fields =
     [''schema_version'', ''kind'', ''root_delegation_id'', ''repair_of'', ''root_decision_hash'',
      ''continuation_decision_delegation_id'', ''continuation_decision_hash'', ''parent_lineage_hash'', ''depth'',
      ''carried_paths'', ''lineage_hash'']"

definition compute_lineage_hash :: "'a lineage_input_scheme \<Rightarrow> canon_error + string" where
  "compute_lineage_hash l = canonical_hash (JObj (lineage_projection l))"

definition bind_lineage :: "'a lineage_input_scheme \<Rightarrow> repair_lineage option" where
  "bind_lineage l =
     (if \<not> valid_lineage_input l then None
      else case compute_lineage_hash l of Inl e \<Rightarrow> None
      | Inr h \<Rightarrow> Some \<lparr>ln_root = ln_root l, ln_repair_of = ln_repair_of l, ln_root_hash = ln_root_hash l,
            ln_decision_id = ln_decision_id l, ln_decision_hash = ln_decision_hash l, ln_parent_hash = ln_parent_hash l,
            ln_depth = ln_depth l, ln_paths = ln_paths l, ln_hash = h\<rparr>)"

definition lineage_value :: "repair_lineage \<Rightarrow> jv" where
  "lineage_value l = JObj (lineage_projection l @ [(''lineage_hash'', JStr (ln_hash l))])"

definition parse_lineage :: "jv \<Rightarrow> repair_lineage option" where
  "parse_lineage v =
     (case as_record v of None \<Rightarrow> None
      | Some f \<Rightarrow>
          if \<not> exact_fields f lineage_fields \<or> get_prop f ''schema_version'' \<noteq> JNum (JInt 1)
             \<or> get_prop f ''kind'' \<noteq> JStr lineage_kind then None
          else (case (as_string (get_prop f ''root_delegation_id''), as_string (get_prop f ''repair_of''),
                 as_string (get_prop f ''root_decision_hash''), as_string (get_prop f ''continuation_decision_delegation_id''),
                 as_string (get_prop f ''continuation_decision_hash''), null_or as_string (get_prop f ''parent_lineage_hash''),
                 as_safe_int (get_prop f ''depth''), list_where (\<lambda>_. True) (get_prop f ''carried_paths''),
                 str_where hash_re (get_prop f ''lineage_hash'')) of
             (Some root_id, Some ro, Some rh, Some di, Some dh, Some ph, Some d, Some ps, Some h) \<Rightarrow>
               (case bind_lineage \<lparr>ln_root = root_id, ln_repair_of = ro, ln_root_hash = rh, ln_decision_id = di,
                    ln_decision_hash = dh, ln_parent_hash = ph, ln_depth = d, ln_paths = ps\<rparr> of
                  None \<Rightarrow> None
                | Some bound \<Rightarrow> if ln_hash bound = h then Some bound else None)
           | _ \<Rightarrow> None))"

text \<open>The review scope of a generation: its own delta and every carried path of the lineage.\<close>

definition repair_review_paths :: "string list \<Rightarrow> repair_lineage option \<Rightarrow> string list option" where
  "repair_review_paths effective lineage =
     (if \<not> list_all is_strict_relative_path effective then None
      else let paths = sort_key utf8 (remdups (effective @ (case lineage of None \<Rightarrow> [] | Some l \<Rightarrow> ln_paths l)))
           in if length paths \<le> max_transaction_paths then Some paths else None)"

subsection \<open>Postconditions\<close>

definition path_allowed_v2 :: "string \<Rightarrow> string list \<Rightarrow> bool" where
  "path_allowed_v2 path allowed =
     (\<exists>rule\<in>set allowed.
        if ends_with ''/**'' rule then path = drop_last 3 rule \<or> starts_with (drop_last 3 rule @ ''/'') path
        else if ends_with ''/'' rule then path = drop_last 1 rule \<or> starts_with (drop_last 1 rule @ ''/'') path
        else path = rule)"

definition only_if :: "bool \<Rightarrow> 'a \<Rightarrow> 'a list" where
  "only_if b x = (if b then [x] else [])"

definition evaluate_postconditions :: "delegation_task \<Rightarrow> string list \<Rightarrow> bool \<Rightarrow> terminal_outcome \<Rightarrow> postcondition list" where
  "evaluate_postconditions task allowed repair o1 =
     only_if (\<not> to_provider_success o1) Pc_PROVIDER_NOT_SUCCESS
     @ only_if (is_current_outcome o1 \<and> (case to_worker o1 of Some (False, _) \<Rightarrow> True | _ \<Rightarrow> False)) Pc_WORKER_RUN_FAILED
     @ only_if (to_exit_code o1 \<noteq> 0) Pc_EXIT_CODE_NOT_ZERO
     @ only_if (\<not> to_report_complete o1) Pc_REPORT_INCOMPLETE
     @ only_if (\<not> to_facts_complete o1) Pc_TERMINAL_FACTS_INCOMPLETE
     @ only_if (\<not> to_scope_complete o1) Pc_SCOPE_INCOMPLETE
     @ only_if (to_change_status o1 = Cs_WORKSPACE_DRIFT) Pc_WORKSPACE_DRIFT_DETECTED
     @ only_if (to_change_status o1 = Cs_CONFLICT) Pc_CHANGE_SET_CONFLICT
     @ only_if (\<exists>p\<in>set (to_changed_paths o1). \<not> path_allowed_v2 p allowed) Pc_OUT_OF_SCOPE_CHANGES
     @ (if task = Task_implementation
        then only_if (to_changed_paths o1 = [] \<and> \<not> repair) Pc_IMPLEMENTATION_DELTA_REQUIRED
             @ only_if (to_delta_hash o1 = None) Pc_IMPLEMENTATION_DELTA_HASH_REQUIRED
        else only_if (to_changed_paths o1 \<noteq> [] \<or> to_delta_hash o1 \<noteq> None) Pc_DIAGNOSIS_DELTA_FORBIDDEN
             @ only_if (to_writes o1 \<noteq> 0) Pc_DIAGNOSIS_SUCCESSFUL_WRITES_FORBIDDEN
             @ only_if (to_denied o1 \<noteq> 0) Pc_DIAGNOSIS_DENIED_WRITES_FORBIDDEN)"

text \<open>The fixed evaluation order.\<close>

primrec reason_index :: "postcondition \<Rightarrow> nat" where
  "reason_index Pc_PROVIDER_NOT_SUCCESS = 0"
| "reason_index Pc_WORKER_RUN_FAILED = 1"
| "reason_index Pc_EXIT_CODE_NOT_ZERO = 2"
| "reason_index Pc_REPORT_INCOMPLETE = 3"
| "reason_index Pc_TERMINAL_FACTS_INCOMPLETE = 4"
| "reason_index Pc_SCOPE_INCOMPLETE = 5"
| "reason_index Pc_WORKSPACE_DRIFT_DETECTED = 6"
| "reason_index Pc_CHANGE_SET_CONFLICT = 7"
| "reason_index Pc_OUT_OF_SCOPE_CHANGES = 8"
| "reason_index Pc_IMPLEMENTATION_DELTA_REQUIRED = 9"
| "reason_index Pc_IMPLEMENTATION_DELTA_HASH_REQUIRED = 10"
| "reason_index Pc_DIAGNOSIS_DELTA_FORBIDDEN = 11"
| "reason_index Pc_DIAGNOSIS_SUCCESSFUL_WRITES_FORBIDDEN = 12"
| "reason_index Pc_DIAGNOSIS_DENIED_WRITES_FORBIDDEN = 13"

text \<open>Older repair generations recorded a missing delta, inserted at its place in the order.\<close>

definition historical_postconditions :: "delegation_task \<Rightarrow> string list \<Rightarrow> bool \<Rightarrow> terminal_outcome \<Rightarrow> postcondition list" where
  "historical_postconditions task allowed repair o1 =
     (let rs = evaluate_postconditions task allowed repair o1 in
      if task \<noteq> Task_implementation \<or> \<not> repair \<or> to_changed_paths o1 \<noteq> [] \<or> Pc_IMPLEMENTATION_DELTA_REQUIRED \<in> set rs then rs
      else let early = takeWhile (\<lambda>r. \<not> reason_index Pc_IMPLEMENTATION_DELTA_REQUIRED < reason_index r) rs
           in early @ Pc_IMPLEMENTATION_DELTA_REQUIRED # drop (length early) rs)"

definition interrupted_reasons :: "postcondition list" where
  "interrupted_reasons = [Pc_WORKER_RUN_FAILED, Pc_EXIT_CODE_NOT_ZERO, Pc_REPORT_INCOMPLETE]"

text \<open>
  An interrupted candidate: an implementation with a complete, attributed, in-scope delta whose worker run
  was cut off. The source passes the whole record to the postconditions, so a carried lineage is seen.
\<close>

definition is_interrupted_candidate :: "delegation_task \<Rightarrow> string list \<Rightarrow> bool \<Rightarrow> terminal_outcome \<Rightarrow> bool" where
  "is_interrupted_candidate task allowed repair o1 =
     (task = Task_implementation \<and> is_current_outcome o1
      \<and> (case to_worker o1 of Some (False, Some f) \<Rightarrow> f \<in> set interruption_failures | _ \<Rightarrow> False)
      \<and> to_provider_success o1 \<and> to_facts_complete o1 \<and> to_scope_complete o1
      \<and> to_change_status o1 = Cs_ATTRIBUTED \<and> to_changed_paths o1 \<noteq> [] \<and> to_delta_hash o1 \<noteq> None
      \<and> (\<forall>p\<in>set (to_changed_paths o1). path_allowed_v2 p allowed)
      \<and> (let rs = evaluate_postconditions task allowed repair o1
         in Pc_WORKER_RUN_FAILED \<in> set rs \<and> set rs \<subseteq> set interrupted_reasons))"

subsection \<open>The invariants of a record\<close>

definition valid_reason_text :: "string \<Rightarrow> bool" where
  "valid_reason_text s = (s \<noteq> [] \<and> length s \<le> 500 \<and> s = js_trim s \<and> CHR 0x00 \<notin> set s)"

definition has_lineage :: "transaction \<Rightarrow> bool" where
  "has_lineage s = (tx_lineage s \<noteq> None)"

definition state_postconditions :: "transaction \<Rightarrow> terminal_outcome \<Rightarrow> postcondition list" where
  "state_postconditions s o1 = evaluate_postconditions (tx_task s) (tx_allowed s) (has_lineage s) o1"

definition state_interrupted :: "transaction \<Rightarrow> terminal_outcome \<Rightarrow> bool" where
  "state_interrupted s o1 = is_interrupted_candidate (tx_task s) (tx_allowed s) (has_lineage s) o1"

text \<open>The parts of a record that name its own delegation, generation and worker.\<close>

definition parts_agree :: "transaction \<Rightarrow> bool" where
  "parts_agree s =
     ((has_lineage s \<longrightarrow> tx_task s = Task_implementation)
      \<and> (case tx_outcome s of
           None \<Rightarrow> tx_reasons s = []
         | Some o1 \<Rightarrow> to_delegation o1 = tx_delegation s \<and> to_task o1 = tx_task s \<and> to_identity o1 = tx_identity s
             \<and> (tx_reasons s = state_postconditions s o1
                \<or> tx_reasons s = historical_postconditions (tx_task s) (tx_allowed s) (has_lineage s) o1))
      \<and> (case tx_proof s of None \<Rightarrow> True
         | Some p \<Rightarrow> pr_delegation p = tx_delegation s \<and> pr_task p = tx_task s \<and> pr_contract p = tx_contract s
             \<and> pr_identity p = tx_identity s \<and> pr_generation p = tx_generation s)
      \<and> (case tx_review s of None \<Rightarrow> True
         | Some r \<Rightarrow> rv_delegation r = tx_delegation s \<and> rv_generation r = tx_generation s))"

definition proof_at :: "transaction \<Rightarrow> int \<Rightarrow> bool" where
  "proof_at s n = (case tx_proof s of None \<Rightarrow> False | Some p \<Rightarrow> pr_revision p = n)"

definition no_stop :: "transaction \<Rightarrow> bool" where
  "no_stop s = (tx_abort s = None \<and> tx_recovery s = None)"

definition committed_shape :: "transaction \<Rightarrow> bool" where
  "committed_shape s =
     (3 \<le> tx_revision s \<and> tx_revision s mod 2 = 1 \<and> tx_outcome s \<noteq> None \<and> tx_review s = None
      \<and> proof_at s (tx_revision s - 1) \<and> no_stop s)"

definition status_shape :: "transaction \<Rightarrow> bool" where
  "status_shape s =
     (case tx_status s of
        St_PREPARED \<Rightarrow> tx_revision s = 0 \<and> tx_outcome s = None \<and> tx_proof s = None \<and> tx_review s = None \<and> no_stop s
      | St_RUNNING \<Rightarrow> 1 \<le> tx_revision s \<and> tx_revision s mod 2 = 1 \<and> tx_outcome s = None \<and> tx_proof s = None
          \<and> tx_review s = None \<and> no_stop s
      | St_COMMITTING \<Rightarrow> 2 \<le> tx_revision s \<and> tx_revision s mod 2 = 0 \<and> tx_outcome s \<noteq> None \<and> tx_proof s = None
          \<and> tx_review s = None \<and> no_stop s
      | St_PENDING_REVIEW \<Rightarrow> committed_shape s \<and> tx_task s = Task_implementation \<and> tx_reasons s = []
      | St_INTERRUPTED \<Rightarrow> committed_shape s \<and> (case tx_outcome s of None \<Rightarrow> False | Some o1 \<Rightarrow> state_interrupted s o1)
      | St_FINISHED \<Rightarrow> committed_shape s \<and> tx_task s = Task_diagnosis \<and> tx_reasons s = []
      | St_REVIEWED \<Rightarrow> 4 \<le> tx_revision s \<and> tx_revision s mod 2 = 0 \<and> tx_task s = Task_implementation \<and> tx_outcome s \<noteq> None
          \<and> proof_at s (tx_revision s - 2)
          \<and> (case tx_review s of None \<Rightarrow> False | Some r \<Rightarrow> rv_revision r = tx_revision s - 1)
          \<and> tx_reasons s = [] \<and> no_stop s
      | St_FAILED \<Rightarrow> committed_shape s \<and> tx_reasons s \<noteq> []
          \<and> (case tx_outcome s of None \<Rightarrow> False
             | Some o1 \<Rightarrow> to_facts_complete o1 \<and> to_scope_complete o1 \<and> \<not> state_interrupted s o1)
      | St_ABORTED \<Rightarrow> (tx_revision s = 1 \<or> tx_revision s = 2) \<and> tx_outcome s = None \<and> tx_proof s = None
          \<and> tx_review s = None \<and> tx_abort s \<noteq> None \<and> tx_recovery s = None
      | St_RECOVERY_REQUIRED \<Rightarrow> tx_review s = None \<and> tx_abort s = None \<and> tx_recovery s \<noteq> None
          \<and> (if tx_outcome s = None then 2 \<le> tx_revision s \<and> tx_revision s mod 2 = 0 \<and> tx_proof s = None
             else 3 \<le> tx_revision s \<and> tx_revision s mod 2 = 1
                  \<and> (tx_proof s = None \<or> proof_at s (tx_revision s - 1))))"

definition valid_state_invariants :: "transaction \<Rightarrow> bool" where
  "valid_state_invariants s = (parts_agree s \<and> status_shape s)"

subsection \<open>The parser of the durable record\<close>

definition top_level_fields :: "string list" where
  "top_level_fields =
     [''schema_version'', ''delegation_id'', ''task_kind'', ''contract_hash'', ''allowed_paths'', ''worker_identity'',
      ''generation'', ''revision'', ''status'', ''created_at'', ''updated_at'', ''postcondition_reasons'',
      ''terminal_outcome'', ''committed_proof'', ''review'', ''abort_reason'', ''recovery_reason'']"

definition max_rules :: nat where "max_rules = 50"

fun ordered_reasons :: "postcondition list \<Rightarrow> bool" where
  "ordered_reasons (a # b # rs) = (reason_index a < reason_index b \<and> ordered_reasons (b # rs))"
| "ordered_reasons _ = True"

text \<open>What the parser asks of the fields of a record, apart from the invariants between them.\<close>

definition valid_fields :: "transaction \<Rightarrow> bool" where
  "valid_fields s =
     (transaction_id_re (tx_delegation s) \<and> hash_re (tx_contract s)
      \<and> tx_allowed s \<noteq> [] \<and> length (tx_allowed s) \<le> max_rules \<and> list_all is_allowed_path_rule (tx_allowed s)
      \<and> is_sorted_unique (tx_allowed s) \<and> valid_identity (tx_identity s)
      \<and> positive_integer (tx_generation s) \<and> non_negative_integer (tx_revision s)
      \<and> is_iso_time (tx_created s) \<and> is_iso_time (tx_updated s) \<and> \<not> tx_updated s < tx_created s
      \<and> ordered_reasons (tx_reasons s)
      \<and> (case tx_outcome s of None \<Rightarrow> True | Some o1 \<Rightarrow> valid_outcome o1)
      \<and> (case tx_proof s of None \<Rightarrow> True | Some p \<Rightarrow> valid_proof p)
      \<and> (case tx_review s of None \<Rightarrow> True | Some r \<Rightarrow> valid_review r)
      \<and> (case tx_abort s of None \<Rightarrow> True | Some t \<Rightarrow> valid_reason_text t)
      \<and> (case tx_recovery s of None \<Rightarrow> True | Some t \<Rightarrow> valid_reason_text t)
      \<and> (case tx_lineage s of None \<Rightarrow> True | Some l \<Rightarrow> bind_lineage l = Some l))"

definition valid_record :: "transaction \<Rightarrow> bool" where
  "valid_record s = (valid_fields s \<and> valid_state_invariants s)"

fun parse_reasons :: "jv list \<Rightarrow> postcondition list option" where
  "parse_reasons [] = Some []"
| "parse_reasons (v # vs) =
     (case (parse_enum postcondition_all postcondition_text v, parse_reasons vs) of
        (Some r, Some rs) \<Rightarrow> Some (r # rs) | _ \<Rightarrow> None)"

definition transaction_value :: "transaction \<Rightarrow> jv" where
  "transaction_value s = JObj
     ([(''schema_version'', JNum (JInt 2)), (''delegation_id'', JStr (tx_delegation s)),
       (''task_kind'', JStr (delegation_task_text (tx_task s))), (''contract_hash'', JStr (tx_contract s)),
       (''allowed_paths'', JArr (map JStr (tx_allowed s))), (''worker_identity'', identity_value (tx_identity s)),
       (''generation'', JNum (JInt (tx_generation s))), (''revision'', JNum (JInt (tx_revision s))),
       (''status'', JStr (delegation_status_text (tx_status s))), (''created_at'', JStr (tx_created s)),
       (''updated_at'', JStr (tx_updated s)),
       (''postcondition_reasons'', JArr (map (JStr \<circ> postcondition_text) (tx_reasons s))),
       (''terminal_outcome'', null_value outcome_value (tx_outcome s)), (''committed_proof'', null_value proof_value (tx_proof s)),
       (''review'', null_value review_value (tx_review s)), (''abort_reason'', null_value JStr (tx_abort s)),
       (''recovery_reason'', null_value JStr (tx_recovery s))]
      @ (case tx_lineage s of None \<Rightarrow> [] | Some l \<Rightarrow> [(''repair_lineage'', lineage_value l)]))"

text \<open>The optional last field: absent, or a lineage that parses.\<close>

definition parse_top_lineage :: "fields \<Rightarrow> repair_lineage option option" where
  "parse_top_lineage f =
     (if ''repair_lineage'' \<in> set (own_keys f)
      then if exact_fields f (top_level_fields @ [''repair_lineage'']) then map_option Some (parse_lineage (get_prop f ''repair_lineage''))
           else None
      else if exact_fields f top_level_fields then Some None else None)"

definition parse_state :: "jv \<Rightarrow> transaction option" where
  "parse_state raw =
     (case as_record raw of None \<Rightarrow> None
      | Some f \<Rightarrow>
          if get_prop f ''schema_version'' \<noteq> JNum (JInt 2) then None
          else (case (parse_top_lineage f, as_string (get_prop f ''delegation_id''),
                 parse_enum delegation_task_all delegation_task_text (get_prop f ''task_kind''),
                 as_string (get_prop f ''contract_hash''), list_where (\<lambda>_. True) (get_prop f ''allowed_paths''),
                 parse_identity (get_prop f ''worker_identity''), as_safe_int (get_prop f ''generation''),
                 as_safe_int (get_prop f ''revision''),
                 parse_enum delegation_status_all delegation_status_text (get_prop f ''status''),
                 as_string (get_prop f ''created_at''), as_string (get_prop f ''updated_at''),
                 Option.bind (as_array (get_prop f ''postcondition_reasons'')) parse_reasons,
                 null_or parse_outcome (get_prop f ''terminal_outcome''), null_or parse_proof (get_prop f ''committed_proof''),
                 null_or parse_review (get_prop f ''review''), null_or as_string (get_prop f ''abort_reason''),
                 null_or as_string (get_prop f ''recovery_reason'')) of
             (Some li, Some did, Some task, Some ch, Some al, Some i, Some g, Some r, Some st, Some cr, Some up, Some rs,
              Some oc, Some pf, Some rv, Some ab, Some rc) \<Rightarrow>
               let s = \<lparr>tx_delegation = did, tx_task = task, tx_contract = ch, tx_allowed = al, tx_identity = i,
                   tx_generation = g, tx_revision = r, tx_status = st, tx_created = cr, tx_updated = up, tx_reasons = rs,
                   tx_outcome = oc, tx_proof = pf, tx_review = rv, tx_abort = ab, tx_recovery = rc, tx_lineage = li\<rparr>
               in if valid_record s then Some s else None
           | _ \<Rightarrow> None))"

definition max_transaction_bytes :: nat where "max_transaction_bytes = 1048576"

text \<open>
  The size bound is on the JSON text; its length does not depend on the order of the keys, so the
  canonical text measures it. Values that are not JSON are refused by either check.
\<close>

definition parse_transaction :: "jv \<Rightarrow> transaction option" where
  "parse_transaction raw =
     (case canonical_json raw of Inl e \<Rightarrow> None
      | Inr t \<Rightarrow> if byte_length t > max_transaction_bytes then None else parse_state raw)"

subsection \<open>Transitions\<close>

datatype tx_error =
    Invalid_source | Delegation_mismatch | Contract_mismatch | Worker_mismatch | Generation_mismatch
  | Revision_mismatch | Bad_time | Wrong_status delegation_status | Bad_outcome | Outcome_mismatch
  | Outcome_worker_mismatch | Bad_proof | Proof_mismatch | Proof_revision_mismatch | Bad_review_hash | Bad_reason_text
  | Bad_delegation_id | Bad_task_kind | Bad_contract | Bad_worker | Bad_generation | Bad_lineage | Lineage_needs_implementation
  | Bad_allowed_paths | Duplicate_allowed_paths

record cas_input =
  ci_delegation :: string
  ci_contract :: string
  ci_identity :: worker_identity
  ci_generation :: int
  ci_revision :: int
  ci_now :: string

definition validate_cas :: "transaction \<Rightarrow> cas_input \<Rightarrow> tx_error option" where
  "validate_cas s i =
     (if ci_delegation i \<noteq> tx_delegation s then Some Delegation_mismatch
      else if ci_contract i \<noteq> tx_contract s then Some Contract_mismatch
      else if \<not> valid_identity (ci_identity i) \<or> ci_identity i \<noteq> tx_identity s then Some Worker_mismatch
      else if ci_generation i \<noteq> tx_generation s then Some Generation_mismatch
      else if ci_revision i \<noteq> tx_revision s then Some Revision_mismatch
      else if \<not> is_iso_time (ci_now i) \<or> ci_now i < tx_updated s then Some Bad_time
      else None)"

text \<open>
  The common start of every transition: the source parses, and the caller's expectations match it. The
  continuation works on the detached record the parser returned.
\<close>

definition with_tx_source :: "transaction \<Rightarrow> cas_input \<Rightarrow> (transaction \<Rightarrow> tx_error + transaction) \<Rightarrow> tx_error + transaction" where
  "with_tx_source s0 i k =
     (case parse_transaction (transaction_value s0) of None \<Rightarrow> Inl Invalid_source
      | Some s \<Rightarrow> (case validate_cas s i of Some e \<Rightarrow> Inl e | None \<Rightarrow> k s))"

definition advance :: "transaction \<Rightarrow> string \<Rightarrow> transaction" where
  "advance s now = s\<lparr>tx_revision := tx_revision s + 1, tx_updated := now\<rparr>"

record prepare_input =
  pi_delegation :: string
  pi_task :: string
  pi_contract :: string
  pi_allowed :: "string list"
  pi_identity :: worker_identity
  pi_generation :: int
  pi_now :: string
  pi_lineage :: "repair_lineage option"

definition create_prepared :: "prepare_input \<Rightarrow> tx_error + transaction" where
  "create_prepared q =
     (if \<not> transaction_id_re (pi_delegation q) then Inl Bad_delegation_id
      else case parse_enum delegation_task_all delegation_task_text (JStr (pi_task q)) of None \<Rightarrow> Inl Bad_task_kind
      | Some task \<Rightarrow>
        if \<not> hash_re (pi_contract q) then Inl Bad_contract
        else if \<not> valid_identity (pi_identity q) then Inl Bad_worker
        else if \<not> positive_integer (pi_generation q) then Inl Bad_generation
        else if \<not> is_iso_time (pi_now q) then Inl Bad_time
        else let lineage = Option.bind (pi_lineage q) (\<lambda>l. parse_lineage (lineage_value l)) in
          if pi_lineage q \<noteq> None \<and> lineage = None then Inl Bad_lineage
          else if lineage \<noteq> None \<and> task \<noteq> Task_implementation then Inl Lineage_needs_implementation
          else if pi_allowed q = [] \<or> length (pi_allowed q) > max_rules \<or> \<not> list_all is_allowed_path_rule (pi_allowed q)
          then Inl Bad_allowed_paths
          else if \<not> is_sorted_unique (sort (pi_allowed q)) then Inl Duplicate_allowed_paths
          else Inr \<lparr>tx_delegation = pi_delegation q, tx_task = task, tx_contract = pi_contract q,
                 tx_allowed = sort (pi_allowed q), tx_identity = pi_identity q, tx_generation = pi_generation q,
                 tx_revision = 0, tx_status = St_PREPARED, tx_created = pi_now q, tx_updated = pi_now q, tx_reasons = [],
                 tx_outcome = None, tx_proof = None, tx_review = None, tx_abort = None, tx_recovery = None,
                 tx_lineage = lineage\<rparr>)"

definition start_transaction :: "transaction \<Rightarrow> cas_input \<Rightarrow> tx_error + transaction" where
  "start_transaction s0 i = with_tx_source s0 i (\<lambda>s.
     if tx_status s \<noteq> St_PREPARED then Inl (Wrong_status (tx_status s))
     else Inr ((advance s (ci_now i))\<lparr>tx_status := St_RUNNING\<rparr>))"

definition resumable_reasons :: "string list" where
  "resumable_reasons =
     [''worker runner failed before terminal facts'', ''worker paused at a bounded budget epoch before terminal facts'']"

definition resume_transaction :: "transaction \<Rightarrow> cas_input \<Rightarrow> tx_error + transaction" where
  "resume_transaction s0 i = with_tx_source s0 i (\<lambda>s.
     if tx_status s \<noteq> St_RECOVERY_REQUIRED \<or> tx_outcome s \<noteq> None \<or> tx_proof s \<noteq> None
        \<or> \<not> (case tx_recovery s of None \<Rightarrow> False | Some r \<Rightarrow> r \<in> set resumable_reasons)
     then Inl (Wrong_status (tx_status s))
     else Inr ((advance s (ci_now i))\<lparr>tx_status := St_RUNNING, tx_recovery := None\<rparr>))"

definition begin_commit :: "transaction \<Rightarrow> cas_input \<Rightarrow> terminal_outcome \<Rightarrow> tx_error + transaction" where
  "begin_commit s0 i o1 = with_tx_source s0 i (\<lambda>s.
     if tx_status s \<noteq> St_RUNNING then Inl (Wrong_status (tx_status s))
     else if \<not> valid_outcome o1 then Inl Bad_outcome
     else if to_delegation o1 \<noteq> tx_delegation s \<or> to_task o1 \<noteq> tx_task s then Inl Outcome_mismatch
     else if to_identity o1 \<noteq> tx_identity s then Inl Outcome_worker_mismatch
     else Inr ((advance s (ci_now i))\<lparr>tx_status := St_COMMITTING, tx_outcome := Some o1,
            tx_reasons := state_postconditions s o1\<rparr>))"

definition published_status :: "transaction \<Rightarrow> terminal_outcome \<Rightarrow> delegation_status" where
  "published_status s o1 =
     (if \<not> to_facts_complete o1 \<or> \<not> to_scope_complete o1 then St_RECOVERY_REQUIRED
      else if state_interrupted s o1 then St_INTERRUPTED
      else if tx_reasons s \<noteq> [] then St_FAILED
      else if tx_task s = Task_implementation then St_PENDING_REVIEW else St_FINISHED)"

definition publish_commit :: "transaction \<Rightarrow> cas_input \<Rightarrow> commit_proof \<Rightarrow> tx_error + transaction" where
  "publish_commit s0 i p = with_tx_source s0 i (\<lambda>s.
     case tx_outcome s of None \<Rightarrow> Inl (Wrong_status (tx_status s))
     | Some o1 \<Rightarrow>
         if tx_status s \<noteq> St_COMMITTING then Inl (Wrong_status (tx_status s))
         else if \<not> valid_proof p then Inl Bad_proof
         else if pr_delegation p \<noteq> tx_delegation s \<or> pr_task p \<noteq> tx_task s \<or> pr_contract p \<noteq> tx_contract s
                 \<or> pr_identity p \<noteq> tx_identity s then Inl Proof_mismatch
         else if pr_generation p \<noteq> tx_generation s \<or> pr_revision p \<noteq> tx_revision s then Inl Proof_revision_mismatch
         else let st = published_status s o1
              in Inr ((advance s (ci_now i))\<lparr>tx_status := st, tx_proof := Some p,
                   tx_recovery := (if st = St_RECOVERY_REQUIRED
                                   then Some ''committed terminal or scope facts are incomplete'' else None)\<rparr>))"

definition review_transaction :: "transaction \<Rightarrow> cas_input \<Rightarrow> string \<Rightarrow> tx_error + transaction" where
  "review_transaction s0 i h = with_tx_source s0 i (\<lambda>s.
     if tx_status s \<noteq> St_PENDING_REVIEW \<or> tx_task s \<noteq> Task_implementation \<or> tx_proof s = None
     then Inl (Wrong_status (tx_status s))
     else if \<not> hash_re h then Inl Bad_review_hash
     else Inr ((advance s (ci_now i))\<lparr>tx_status := St_REVIEWED,
            tx_review := Some \<lparr>rv_delegation = tx_delegation s, rv_generation = tx_generation s,
              rv_revision = tx_revision s, rv_hash = h, rv_at = ci_now i, rv_reviewer = ''sol''\<rparr>\<rparr>))"

definition abort_transaction :: "transaction \<Rightarrow> cas_input \<Rightarrow> string \<Rightarrow> tx_error + transaction" where
  "abort_transaction s0 i why = with_tx_source s0 i (\<lambda>s.
     if tx_status s \<noteq> St_PREPARED \<and> tx_status s \<noteq> St_RUNNING then Inl (Wrong_status (tx_status s))
     else if \<not> valid_reason_text why then Inl Bad_reason_text
     else Inr ((advance s (ci_now i))\<lparr>tx_status := St_ABORTED, tx_abort := Some why\<rparr>))"

definition require_recovery :: "transaction \<Rightarrow> cas_input \<Rightarrow> string \<Rightarrow> tx_error + transaction" where
  "require_recovery s0 i why = with_tx_source s0 i (\<lambda>s.
     if tx_status s \<noteq> St_RUNNING \<and> tx_status s \<noteq> St_COMMITTING then Inl (Wrong_status (tx_status s))
     else if \<not> valid_reason_text why then Inl Bad_reason_text
     else Inr ((advance s (ci_now i))\<lparr>tx_status := St_RECOVERY_REQUIRED, tx_recovery := Some why\<rparr>))"

end
