(* ===== verification/Transaction_Safety.thy ===== *)
theory Transaction_Safety
  imports Delegation_Transaction
begin

section \<open>What a delegation transaction guarantees\<close>

text \<open>
  The parsers read back what the records print, every transition keeps the invariants of the record,
  and the claims about the whole life of a transaction are proved by rule induction over its steps.
\<close>

subsection \<open>Reading back\<close>

lemma exact_same_keys: "own_keys f = ks \<Longrightarrow> exact_fields f ks"
  by (simp add: exact_fields_def)

lemma exact_fields_length: "exact_fields f ks \<Longrightarrow> length f = length ks"
  unfolding exact_fields_def own_keys_def by (metis length_map length_sort)

lemma null_or_value: "(\<And>y. x = Some y \<Longrightarrow> p (g y) = Some y \<and> g y \<noteq> JNull) \<Longrightarrow> null_or p (null_value g x) = Some x"
  by (cases x) (auto simp: null_or_def null_value_def)

lemma null_or_string: "null_or as_string (null_value JStr x) = Some x"
  by (rule null_or_value) simp

lemma list_where_strings: "list_where P (JArr (map JStr ss)) = (if P ss then Some ss else None)"
  by (simp add: list_where_def)

lemma parse_identity_value: "parse_identity (identity_value i) = (if valid_identity i then Some i else None)"
  by (cases i) (simp add: parse_identity_def identity_value_def exact_same_keys identity_fields_def own_keys_def Let_def)

lemma parse_worker_value:
  assumes "own_keys f = legacy_outcome_fields"
  shows "parse_worker (f @ (case w of None \<Rightarrow> [] | Some x \<Rightarrow> worker_value x)) = Some w"
proof (cases w)
  case None
  moreover have "\<not> exact_fields f outcome_fields"
    using assms exact_fields_length[of f outcome_fields] arg_cong[OF assms, of length]
    by (auto simp: own_keys_def outcome_fields_def legacy_outcome_fields_def)
  ultimately show ?thesis using assms by (simp add: parse_worker_def exact_same_keys)
next
  case (Some x)
  have k: "''worker_success'' \<notin> set (map fst f)" "''worker_failure_code'' \<notin> set (map fst f)"
    using assms unfolding own_keys_def by (simp_all add: legacy_outcome_fields_def)
  have "own_keys (f @ worker_value x) = outcome_fields"
    using assms by (simp add: own_keys_def outcome_fields_def worker_value_def)
  moreover have "get_prop (f @ worker_value x) k = get_prop (worker_value x) k" if "k \<notin> set (map fst f)" for k
  proof -
    have "map_of f k = None" using that by (simp add: map_of_eq_None_iff)
    then show ?thesis by (simp add: get_prop_def map_add_def)
  qed
  moreover have "null_or (parse_enum run_failure_all run_failure_text) (null_value (JStr \<circ> run_failure_text) (snd x)) = Some (snd x)"
    by (rule null_or_value) (simp add: run_failure_wire.parse_text)
  ultimately show ?thesis using Some k by (simp add: parse_worker_def exact_same_keys worker_value_def)
qed

lemma get_prop_front: "k \<in> set (map fst f) \<Longrightarrow> get_prop (f @ g) k = get_prop f k"
proof -
  assume "k \<in> set (map fst f)"
  then obtain v where "map_of f k = Some v" by (metis map_of_eq_None_iff not_None_eq set_map)
  then show ?thesis by (simp add: get_prop_def map_add_def)
qed

lemma parse_outcome_value: "parse_outcome (outcome_value x) = (if valid_outcome x then Some x else None)"
proof -
  define f where "f = [(''delegation_id'', JStr (to_delegation x)), (''task_kind'', JStr (delegation_task_text (to_task x))),
       (''worker_identity'', identity_value (to_identity x)), (''provider_success'', JBool (to_provider_success x)),
       (''exit_code'', JNum (JInt (to_exit_code x))), (''report_complete'', JBool (to_report_complete x)),
       (''terminal_facts_complete'', JBool (to_facts_complete x)), (''scope_complete'', JBool (to_scope_complete x)),
       (''change_set_status'', JStr (change_status_text (to_change_status x))),
       (''changed_paths'', JArr (map JStr (to_changed_paths x))), (''successful_write_count'', JNum (JInt (to_writes x))),
       (''denied_write_count'', JNum (JInt (to_denied x))), (''delta_hash'', null_value JStr (to_delta_hash x))]"
  define g where "g = f @ (case to_worker x of None \<Rightarrow> [] | Some w \<Rightarrow> worker_value w)"
  have keys: "own_keys f = legacy_outcome_fields" by (simp add: f_def own_keys_def legacy_outcome_fields_def)
  have v: "outcome_value x = JObj g" by (simp add: outcome_value_def g_def f_def)
  have front: "get_prop g k = get_prop f k" if "k \<in> set legacy_outcome_fields" for k
    using that keys get_prop_front unfolding g_def own_keys_def by metis
  have in_front: "\<And>k. k \<in> {''delegation_id'', ''task_kind'', ''worker_identity'', ''provider_success'', ''exit_code'', ''report_complete'',
      ''terminal_facts_complete'', ''scope_complete'', ''change_set_status'', ''changed_paths'',
      ''successful_write_count'', ''denied_write_count'', ''delta_hash''} \<Longrightarrow> get_prop g k = get_prop f k"
    by (rule front) (auto simp: legacy_outcome_fields_def)
  have worker: "parse_worker g = Some (to_worker x)" unfolding g_def by (rule parse_worker_value[OF keys])
  have read: "get_prop g ''delegation_id'' = JStr (to_delegation x)" "get_prop g ''task_kind'' = JStr (delegation_task_text (to_task x))"
      "get_prop g ''worker_identity'' = identity_value (to_identity x)" "get_prop g ''provider_success'' = JBool (to_provider_success x)"
      "get_prop g ''exit_code'' = JNum (JInt (to_exit_code x))" "get_prop g ''report_complete'' = JBool (to_report_complete x)"
      "get_prop g ''terminal_facts_complete'' = JBool (to_facts_complete x)" "get_prop g ''scope_complete'' = JBool (to_scope_complete x)"
      "get_prop g ''change_set_status'' = JStr (change_status_text (to_change_status x))"
      "get_prop g ''changed_paths'' = JArr (map JStr (to_changed_paths x))" "get_prop g ''successful_write_count'' = JNum (JInt (to_writes x))"
      "get_prop g ''denied_write_count'' = JNum (JInt (to_denied x))" "get_prop g ''delta_hash'' = null_value JStr (to_delta_hash x)"
    by (simp_all add: in_front) (simp_all add: f_def)
  have "\<bar>to_writes x\<bar> \<le> max_safe_integer" "\<bar>to_denied x\<bar> \<le> max_safe_integer" "valid_paths (to_changed_paths x)"
      "valid_identity (to_identity x)" "\<bar>to_exit_code x\<bar> \<le> max_safe_integer" if "valid_outcome x"
    using that by (auto simp: valid_outcome_def non_negative_integer_def)
  then show ?thesis
    unfolding v parse_outcome_def as_record.simps option.case read worker
    by (simp add: parse_identity_value delegation_task_wire.parse_text change_status_wire.parse_text null_or_string list_where_strings)
      (cases x, auto simp: Let_def)
qed

lemma parse_proof_value: "parse_proof (proof_value p) = (if valid_proof p then Some p else None)"
proof -
  have exact: "exact_fields (the (as_record (proof_value p))) proof_fields"
    by (simp add: exact_same_keys own_keys_def proof_value_def proof_fields_def)
  have "\<bar>pr_count p\<bar> \<le> max_safe_integer" "\<bar>pr_schema p\<bar> \<le> max_safe_integer" "valid_identity (pr_identity p)"
    "\<bar>pr_generation p\<bar> \<le> max_safe_integer" "\<bar>pr_revision p\<bar> \<le> max_safe_integer" if "valid_proof p"
    using that by (simp_all add: valid_proof_def positive_integer_def non_negative_integer_def
        committed_record_names_def max_safe_integer_def)
  with exact show ?thesis
    by (cases p) (auto simp: parse_proof_def proof_value_def delegation_task_wire.parse_text list_where_strings
        parse_identity_value Let_def)
qed

lemma parse_review_value: "parse_review (review_value r) = (if valid_review r then Some r else None)"
proof -
  have "\<bar>rv_generation r\<bar> \<le> max_safe_integer" "\<bar>rv_revision r\<bar> \<le> max_safe_integer" if "valid_review r"
    using that by (simp_all add: valid_review_def positive_integer_def non_negative_integer_def)
  then show ?thesis
    by (cases r) (auto simp: parse_review_def review_value_def exact_same_keys own_keys_def review_fields_def Let_def)
qed

lemma bind_lineage_fixed:
  "bind_lineage l = Some l \<longleftrightarrow> valid_lineage_input l \<and> compute_lineage_hash l = Inr (ln_hash l)" for l :: repair_lineage
  by (cases l) (auto simp: bind_lineage_def split: sum.splits)

lemma lineage_hash_text: "compute_lineage_hash l = Inr h \<Longrightarrow> hash_re h"
  unfolding compute_lineage_hash_def canonical_hash_def by (auto split: sum.splits)

lemma bind_truncate:
  "bind_lineage \<lparr>ln_root = ln_root l, ln_repair_of = ln_repair_of l, ln_root_hash = ln_root_hash l,
      ln_decision_id = ln_decision_id l, ln_decision_hash = ln_decision_hash l, ln_parent_hash = ln_parent_hash l,
      ln_depth = ln_depth l, ln_paths = ln_paths l\<rparr> = bind_lineage l"
  (is "bind_lineage ?t = _")
proof -
  have "valid_lineage_input ?t = valid_lineage_input l" "compute_lineage_hash ?t = compute_lineage_hash l"
    by (simp_all only: valid_lineage_input_def compute_lineage_hash_def lineage_projection_def lineage_input.select_convs)
  then show ?thesis by (simp only: bind_lineage_def lineage_input.select_convs)
qed

lemma parse_lineage_value: "parse_lineage (lineage_value l) = (if bind_lineage l = Some l then Some l else None)"
proof -
  have hash: "hash_re (ln_hash l)" "\<bar>ln_depth l\<bar> \<le> max_safe_integer" if "bind_lineage l = Some l"
    using that lineage_hash_text by (auto simp: bind_lineage_fixed valid_lineage_input_def positive_integer_def)
  have same: "bound = l" if "bind_lineage l = Some bound" "ln_hash bound = ln_hash l" for bound
    using that by (cases l) (auto simp: bind_lineage_def split: if_splits sum.splits)
  have "exact_fields (lineage_projection l @ [(''lineage_hash'', JStr (ln_hash l))]) lineage_fields"
    by (simp add: exact_same_keys own_keys_def lineage_projection_def lineage_fields_def)
  then have "parse_lineage (lineage_value l) =
      (if \<bar>ln_depth l\<bar> \<le> max_safe_integer \<and> hash_re (ln_hash l)
       then (case bind_lineage l of None \<Rightarrow> None | Some bound \<Rightarrow> if ln_hash bound = ln_hash l then Some bound else None)
       else None)"
    by (simp add: parse_lineage_def lineage_value_def lineage_projection_def null_or_string list_where_strings
        str_where_def bind_truncate)
  then show ?thesis using hash same by (auto split: option.splits)
qed

lemma parse_reasons_map: "parse_reasons (map (JStr \<circ> postcondition_text) rs) = Some rs"
  by (induction rs) (simp_all add: postcondition_wire.parse_text)

lemma null_or_read:
  "(\<And>y. p (g y) = (if P y then Some y else None) \<and> g y \<noteq> JNull) \<Longrightarrow>
     null_or p (null_value g x) = (if (case x of None \<Rightarrow> True | Some y \<Rightarrow> P y) then Some x else None)"
  by (cases x) (auto simp: null_or_def null_value_def)

lemma values_not_null: "outcome_value x \<noteq> JNull" "proof_value p \<noteq> JNull" "review_value r \<noteq> JNull"
  by (simp_all add: outcome_value_def proof_value_def review_value_def)

lemma read_parts:
  "null_or parse_outcome (null_value outcome_value x) = (if (case x of None \<Rightarrow> True | Some y \<Rightarrow> valid_outcome y) then Some x else None)"
  "null_or parse_proof (null_value proof_value y) = (if (case y of None \<Rightarrow> True | Some p \<Rightarrow> valid_proof p) then Some y else None)"
  "null_or parse_review (null_value review_value z) = (if (case z of None \<Rightarrow> True | Some r \<Rightarrow> valid_review r) then Some z else None)"
  by (rule null_or_read; simp add: parse_outcome_value parse_proof_value parse_review_value values_not_null)+

definition top_fields :: "transaction \<Rightarrow> fields" where
  "top_fields s = [(''schema_version'', JNum (JInt 2)), (''delegation_id'', JStr (tx_delegation s)),
       (''task_kind'', JStr (delegation_task_text (tx_task s))), (''contract_hash'', JStr (tx_contract s)),
       (''allowed_paths'', JArr (map JStr (tx_allowed s))), (''worker_identity'', identity_value (tx_identity s)),
       (''generation'', JNum (JInt (tx_generation s))), (''revision'', JNum (JInt (tx_revision s))),
       (''status'', JStr (delegation_status_text (tx_status s))), (''created_at'', JStr (tx_created s)),
       (''updated_at'', JStr (tx_updated s)),
       (''postcondition_reasons'', JArr (map (JStr \<circ> postcondition_text) (tx_reasons s))),
       (''terminal_outcome'', null_value outcome_value (tx_outcome s)), (''committed_proof'', null_value proof_value (tx_proof s)),
       (''review'', null_value review_value (tx_review s)), (''abort_reason'', null_value JStr (tx_abort s)),
       (''recovery_reason'', null_value JStr (tx_recovery s))]"

definition lineage_field :: "repair_lineage option \<Rightarrow> fields" where
  "lineage_field x = (case x of None \<Rightarrow> [] | Some l \<Rightarrow> [(''repair_lineage'', lineage_value l)])"

lemma transaction_value_split: "transaction_value s = JObj (top_fields s @ lineage_field (tx_lineage s))"
  by (simp only: transaction_value_def top_fields_def lineage_field_def)

lemma top_fields_keys: "own_keys (top_fields s) = top_level_fields"
  by (simp add: own_keys_def top_fields_def top_level_fields_def)

lemma top_level_front:
  "k \<in> set top_level_fields \<Longrightarrow> get_prop (top_fields s @ g) k = get_prop (top_fields s) k"
  using top_fields_keys[of s] by (metis get_prop_front own_keys_def)

lemma no_lineage_key: "''repair_lineage'' \<notin> set top_level_fields"
  by (simp add: top_level_fields_def)

lemma parse_top_lineage_value:
  "parse_top_lineage (top_fields s @ lineage_field x) =
     (if (case x of None \<Rightarrow> True | Some l \<Rightarrow> bind_lineage l = Some l) then Some x else None)"
proof (cases x)
  case None
  then show ?thesis
    using top_fields_keys[of s] no_lineage_key
    by (simp add: parse_top_lineage_def lineage_field_def exact_same_keys)
next
  case (Some l)
  have "own_keys (top_fields s @ lineage_field x) = top_level_fields @ [''repair_lineage'']"
    using top_fields_keys[of s] by (simp add: own_keys_def Some lineage_field_def)
  moreover have "get_prop (top_fields s @ lineage_field x) ''repair_lineage'' = lineage_value l"
  proof -
    have "map_of (top_fields s) ''repair_lineage'' = None"
      using no_lineage_key top_fields_keys[of s] by (metis map_of_eq_None_iff own_keys_def set_map)
    then show ?thesis by (simp add: get_prop_def map_add_def Some lineage_field_def)
  qed
  ultimately show ?thesis
    by (simp add: parse_top_lineage_def exact_same_keys parse_lineage_value Some)
qed

lemma top_reads:
  "get_prop (top_fields s @ g) ''schema_version'' = JNum (JInt 2)"
  "get_prop (top_fields s @ g) ''delegation_id'' = JStr (tx_delegation s)"
  "get_prop (top_fields s @ g) ''task_kind'' = JStr (delegation_task_text (tx_task s))"
  "get_prop (top_fields s @ g) ''contract_hash'' = JStr (tx_contract s)"
  "get_prop (top_fields s @ g) ''allowed_paths'' = JArr (map JStr (tx_allowed s))"
  "get_prop (top_fields s @ g) ''worker_identity'' = identity_value (tx_identity s)"
  "get_prop (top_fields s @ g) ''generation'' = JNum (JInt (tx_generation s))"
  "get_prop (top_fields s @ g) ''revision'' = JNum (JInt (tx_revision s))"
  "get_prop (top_fields s @ g) ''status'' = JStr (delegation_status_text (tx_status s))"
  "get_prop (top_fields s @ g) ''created_at'' = JStr (tx_created s)"
  "get_prop (top_fields s @ g) ''updated_at'' = JStr (tx_updated s)"
  "get_prop (top_fields s @ g) ''postcondition_reasons'' = JArr (map (JStr \<circ> postcondition_text) (tx_reasons s))"
  "get_prop (top_fields s @ g) ''terminal_outcome'' = null_value outcome_value (tx_outcome s)"
  "get_prop (top_fields s @ g) ''committed_proof'' = null_value proof_value (tx_proof s)"
  "get_prop (top_fields s @ g) ''review'' = null_value review_value (tx_review s)"
  "get_prop (top_fields s @ g) ''abort_reason'' = null_value JStr (tx_abort s)"
  "get_prop (top_fields s @ g) ''recovery_reason'' = null_value JStr (tx_recovery s)"
  by (simp_all add: top_fields_def)

lemma parse_state_value: "parse_state (transaction_value s) = (if valid_record s then Some s else None)"
proof -
  define T where "T = top_fields s @ lineage_field (tx_lineage s)"
  have bounds: "\<bar>tx_generation s\<bar> \<le> max_safe_integer" "\<bar>tx_revision s\<bar> \<le> max_safe_integer" "valid_identity (tx_identity s)"
      "case tx_outcome s of None \<Rightarrow> True | Some y \<Rightarrow> valid_outcome y" "case tx_proof s of None \<Rightarrow> True | Some y \<Rightarrow> valid_proof y"
      "case tx_review s of None \<Rightarrow> True | Some y \<Rightarrow> valid_review y"
      "case tx_lineage s of None \<Rightarrow> True | Some l \<Rightarrow> bind_lineage l = Some l" if "valid_record s"
    using that by (auto simp: valid_record_def valid_fields_def positive_integer_def non_negative_integer_def)
  have eta: "\<lparr>tx_delegation = tx_delegation s, tx_task = tx_task s, tx_contract = tx_contract s, tx_allowed = tx_allowed s,
      tx_identity = tx_identity s, tx_generation = tx_generation s, tx_revision = tx_revision s, tx_status = tx_status s,
      tx_created = tx_created s, tx_updated = tx_updated s, tx_reasons = tx_reasons s, tx_outcome = tx_outcome s,
      tx_proof = tx_proof s, tx_review = tx_review s, tx_abort = tx_abort s, tx_recovery = tx_recovery s,
      tx_lineage = tx_lineage s\<rparr> = s" by (cases s) simp
  note reads = top_reads[of s "lineage_field (tx_lineage s)", folded T_def]
  have lineage: "parse_top_lineage T = (if (case tx_lineage s of None \<Rightarrow> True | Some l \<Rightarrow> bind_lineage l = Some l)
      then Some (tx_lineage s) else None)" unfolding T_def by (rule parse_top_lineage_value)
  show ?thesis
    unfolding transaction_value_split T_def[symmetric] parse_state_def as_record.simps option.case reads lineage
    using bounds
    by (simp add: parse_identity_value delegation_task_wire.parse_text delegation_status_wire.parse_text null_or_string
        list_where_strings read_parts parse_reasons_map eta split del: if_split)
      (auto simp: eta Let_def)
qed

lemma parse_state_sound: "parse_state raw = Some s \<Longrightarrow> valid_record s"
  unfolding parse_state_def by (auto simp: Let_def split: option.splits if_splits)

end
