(* ===== verification/Json_Size.thy ===== *)
theory Json_Size
  imports Canonical_Hash
begin

section \<open>Bounds on the size of a JSON text\<close>

text \<open>
  The durable records are bounded in bytes of their JSON text. The weight of a value is an upper bound
  of that size which can be computed without printing it.
\<close>

lemma byte_length_simps [simp]:
  "byte_length [] = 0"
  "byte_length (c # cs) = length (utf8_char c) + byte_length cs"
  "byte_length (xs @ ys) = byte_length xs + byte_length ys"
  by (simp_all add: byte_length_def utf8_def)

lemma utf8_char_length: "length (utf8_char c) \<le> 2"
  by (simp add: utf8_char_def Let_def)

lemma byte_length_bound: "byte_length s \<le> 2 * length s"
proof (induction s)
  case (Cons c s) then show ?case using utf8_char_length[of c] by simp
qed simp

lemma ascii_char [simp]: "code_of c < (128::nat) \<Longrightarrow> length (utf8_char c) = 1"
  by (simp add: utf8_char_def Let_def)

lemma esc_char_bound: "byte_length (esc_char c) \<le> 8"
proof (cases "length (esc_char c) = 6")
  case True
  have "byte_length [CHR 0x5C, CHR ''u'', CHR ''0'', CHR ''0'', x, y] \<le> 8" for x y
    using utf8_char_length[of x] utf8_char_length[of y] by simp
  with True show ?thesis by (auto simp: esc_char_def split: if_splits)
next
  case False
  then have "length (esc_char c) \<le> 2" by (auto simp: esc_char_def split: if_splits)
  then show ?thesis using byte_length_bound[of "esc_char c"] by linarith
qed

lemma quote_bound: "byte_length (quote_json s) \<le> 2 + 8 * length s"
proof -
  have "byte_length (concat (map esc_char s)) \<le> 8 * length s"
  proof (induction s)
    case (Cons c s) then show ?case using esc_char_bound[of c] by simp
  qed simp
  then show ?thesis by (simp add: quote_json_def)
qed

lemma digit_text [simp]: "0 \<le> i \<Longrightarrow> i < 10 \<Longrightarrow> length (int_text i) = 1"
  by (simp add: int_text_def nat_text.simps)

primrec json_weight :: "jv \<Rightarrow> nat" where
  "json_weight JNull = 8"
| "json_weight (JStr s) = 2 + 8 * length s"
| "json_weight (JBool b) = 10"
| "json_weight (JNum n) = 2 * length (num_text n)"
| "json_weight JUndef = 18"
| "json_weight (JExotic k) = 2 * length k"
| "json_weight (JArr vs) = 4 + sum_list (map (\<lambda>w. w + 2) (map json_weight vs))"
| "json_weight (JObj kvs) = 4 + sum_list (map (\<lambda>(k, w). w + 8 * length k + 6) (map (map_prod id json_weight) kvs))"

lemma join_bound:
  "byte_length (join_with '','' ts) \<le> sum_list (map (\<lambda>t. byte_length t + 2) ts)"
  by (induction "'',''" ts rule: join_with.induct) auto

lemma member_bound: "byte_length (member_text (k, t)) \<le> byte_length t + 8 * length k + 4"
  using quote_bound[of k] by (simp add: member_text_def)

lemma print_weight: "byte_length (print_value v) \<le> json_weight v"
proof (induction v)
  case (JNum n) then show ?case by (simp add: byte_length_bound)
next
  case (JStr s) then show ?case using quote_bound[of s] by simp
next
  case (JExotic k) then show ?case by (simp add: byte_length_bound)
next
  case (JArr vs)
  have "sum_list (map (\<lambda>t. byte_length t + 2) (map print_value vs)) \<le> sum_list (map (\<lambda>w. w + 2) (map json_weight vs))"
    unfolding map_map by (rule sum_list_mono) (simp add: JArr.IH)
  with join_bound[of "map print_value vs"] show ?case by simp
next
  case (JObj kvs)
  have "sum_list (map (\<lambda>t. byte_length t + 2) (map member_text (map (map_prod id print_value) kvs)))
      \<le> sum_list (map (\<lambda>(k, w). w + 8 * length k + 6) (map (map_prod id json_weight) kvs))"
    unfolding map_map
  proof (rule sum_list_mono)
    fix kv assume "kv \<in> set kvs"
    moreover obtain k v where kv: "kv = (k, v)" by (cases kv)
    ultimately have "byte_length (print_value v) \<le> json_weight v" using JObj.IH[of kv v] by simp
    then show "((\<lambda>t. byte_length t + 2) \<circ> (member_text \<circ> map_prod id print_value)) kv
        \<le> ((\<lambda>(k, w). w + 8 * length k + 6) \<circ> map_prod id json_weight) kv"
      using member_bound[of k "print_value v"] by (simp add: kv)
  qed
  with join_bound[of "map member_text (map (map_prod id print_value) kvs)"] show ?case by simp
qed simp_all

lemma sum_list_sort_key: "sum_list (map (f :: 'a \<Rightarrow> nat) (sort_key g xs)) = sum_list (map f xs)"
proof -
  have "mset (map f (sort_key g xs)) = mset (map f xs)" by simp
  then show ?thesis by (metis sum_mset_sum_list)
qed

lemma weight_sort_keys: "json_weight (sort_keys v) = json_weight v"
proof (induction v)
  case (JArr vs) then show ?case by (simp add: comp_def cong: map_cong)
next
  case (JObj kvs)
  define f where "f = (\<lambda>(k :: string, w :: nat). w + 8 * length k + 6)"
  define g where "g = f \<circ> (map_prod id json_weight \<circ> map_prod id sort_keys)"
  have "json_weight (sort_keys (JObj kvs)) = 4 + sum_list (map g (sort_key fst kvs))"
    by (simp only: sort_keys.simps json_weight.simps sort_key_map_prod map_map g_def f_def)
  also have "\<dots> = 4 + sum_list (map g kvs)" by (simp add: sum_list_sort_key)
  also have "map g kvs = map (f \<circ> map_prod id json_weight) kvs"
  proof (rule map_cong[OF refl])
    fix kv assume kv: "kv \<in> set kvs"
    have "json_weight (sort_keys (snd kv)) = json_weight (snd kv)" by (rule JObj.IH[OF kv]) (cases kv, simp)
    then show "g kv = (f \<circ> map_prod id json_weight) kv" by (cases kv) (simp add: g_def)
  qed
  finally show ?case by (simp only: json_weight.simps map_map f_def)
qed simp_all

lemma json_size_bound:
  assumes "serializable v"
  shows "\<exists>t. canonical_json v = Inr t \<and> byte_length t \<le> json_weight v"
  using canonical_json_print[OF assms] print_weight[of "sort_keys v"] by (simp add: weight_sort_keys)

end
