(* ===== verification/Cas_Machine.thy ===== *)
theory Cas_Machine
  imports Main
begin

section \<open>Machines advanced by compare-and-swap\<close>

text \<open>
  The durable records of the runtime are advanced one revision at a time: a caller names the revision it read,
  and a transition that finds another one refuses. The contract is stated once; the transactions
  interpret it. A run applies a list of events, each with the input of its caller, and stops at the first refusal.
\<close>

fun run_steps :: "('e \<Rightarrow> 's \<Rightarrow> 'i \<Rightarrow> 'err + 's) \<Rightarrow> 's \<Rightarrow> ('e \<times> 'i) list \<Rightarrow> 's option" where
  "run_steps step s [] = Some s"
| "run_steps step s ((e, i) # es) = (case step e s i of Inl err \<Rightarrow> None | Inr s' \<Rightarrow> run_steps step s' es)"

locale cas_machine =
  fixes step :: "'e \<Rightarrow> 's \<Rightarrow> 'i \<Rightarrow> 'err + 's" and revision :: "'s \<Rightarrow> int" and expected :: "'i \<Rightarrow> int"
  assumes advances: "step e s i = Inr s' \<Longrightarrow> revision s' = revision s + 1"
    and guarded: "step e s i = Inr s' \<Longrightarrow> expected i = revision s"
begin

lemma run_revision: "run_steps step s es = Some s' \<Longrightarrow> revision s' = revision s + int (length es)"
proof (induction es arbitrary: s)
  case (Cons ei es)
  then show ?case by (cases ei) (auto dest!: advances split: sum.splits)
qed simp

lemma run_expected: "run_steps step s es = Some s' \<Longrightarrow> map (expected \<circ> snd) es = map (\<lambda>n. revision s + int n) [0..<length es]"
proof (induction es arbitrary: s)
  case (Cons ei es)
  obtain e i where ei: "ei = (e, i)" by (cases ei)
  with Cons.prems obtain s1 where s1: "step e s i = Inr s1" "run_steps step s1 es = Some s'"
    by (auto split: sum.splits)
  have "map (\<lambda>n. revision s1 + int n) [0..<length es] = map (\<lambda>n. revision s + int n) (map Suc [0..<length es])"
    by (simp add: advances[OF s1(1)])
  also have "map Suc [0..<length es] = [1..<Suc (length es)]" by (simp add: map_Suc_upt del: upt_Suc)
  finally show ?case using Cons.IH[OF s1(2)] by (simp add: ei guarded[OF s1(1)] upt_conv_Cons del: upt_Suc)
qed simp

lemma stale_refused:
  assumes "step e s i = Inr s1" "run_steps step s1 es = Some s2" "expected j = expected i"
  shows "\<exists>err. step e' s2 j = Inl err"
proof (cases "step e' s2 j")
  case (Inr s3)
  then have "expected j = revision s2" by (rule guarded)
  also have "\<dots> = revision s + 1 + int (length es)" using run_revision[OF assms(2)] advances[OF assms(1)] by simp
  finally show ?thesis using assms(3) guarded[OF assms(1)] by simp
qed blast

end

end
