(* ===== verification/Transaction_Life.thy ===== *)
theory Transaction_Life
  imports Transaction_Safety Json_Size Cas_Machine
begin

section \<open>The life of a delegation transaction\<close>

text \<open>
  A transaction is created once and then advanced by the transitions of
  core/delegation-transaction.ts, in any order and with any input; the relation below is that life,
  and the invariants hold over everything it reaches.
\<close>

datatype tx_event =
    Tx_start | Tx_resume | Tx_commit terminal_outcome | Tx_publish commit_proof | Tx_review string
  | Tx_abort string | Tx_recover string

primrec transition :: "tx_event \<Rightarrow> transaction \<Rightarrow> cas_input \<Rightarrow> tx_error + transaction" where
  "transition Tx_start s i = start_transaction s i"
| "transition Tx_resume s i = resume_transaction s i"
| "transition (Tx_commit x) s i = begin_commit s i x"
| "transition (Tx_publish p) s i = publish_commit s i p"
| "transition (Tx_review h) s i = review_transaction s i h"
| "transition (Tx_abort why) s i = abort_transaction s i why"
| "transition (Tx_recover why) s i = require_recovery s i why"

inductive tx_life :: "prepare_input \<Rightarrow> transaction \<Rightarrow> bool" for q where
  tl_create: "create_prepared q = Inr s \<Longrightarrow> tx_life q s"
| tl_step: "tx_life q s \<Longrightarrow> transition e s i = Inr s' \<Longrightarrow> tx_life q s'"

lemma with_tx_source_Inr:
  "with_tx_source s0 i k = Inr s' \<Longrightarrow> valid_record s0 \<and> validate_cas s0 i = None \<and> k s0 = Inr s'"
  unfolding with_tx_source_def parse_transaction_def parse_state_value
  by (auto split: option.splits sum.splits if_splits)

lemmas transition_defs = start_transaction_def resume_transaction_def begin_commit_def publish_commit_def
  review_transaction_def abort_transaction_def require_recovery_def

lemma transition_source: "transition e s i = Inr s' \<Longrightarrow> valid_record s \<and> validate_cas s i = None"
  by (cases e) (auto simp: transition_defs dest!: with_tx_source_Inr)

subsection \<open>What a transition writes\<close>

lemma start_fields: "start_transaction s i = Inr s' \<Longrightarrow>
    valid_record s \<and> tx_status s = St_PREPARED \<and> s' = (advance s (ci_now i))\<lparr>tx_status := St_RUNNING\<rparr>"
  unfolding start_transaction_def by (auto dest!: with_tx_source_Inr split: if_splits)

lemma resume_fields: "resume_transaction s i = Inr s' \<Longrightarrow>
    valid_record s \<and> tx_status s = St_RECOVERY_REQUIRED \<and> tx_outcome s = None \<and> tx_proof s = None
    \<and> s' = (advance s (ci_now i))\<lparr>tx_status := St_RUNNING, tx_recovery := None\<rparr>"
  unfolding resume_transaction_def by (auto dest!: with_tx_source_Inr split: if_splits)

lemma commit_fields: "begin_commit s i x = Inr s' \<Longrightarrow>
    valid_record s \<and> tx_status s = St_RUNNING \<and> valid_outcome x \<and> to_delegation x = tx_delegation s
    \<and> to_task x = tx_task s \<and> to_identity x = tx_identity s
    \<and> s' = (advance s (ci_now i))\<lparr>tx_status := St_COMMITTING, tx_outcome := Some x, tx_reasons := state_postconditions s x\<rparr>"
  unfolding begin_commit_def by (auto dest!: with_tx_source_Inr split: if_splits)

lemma publish_fields:
  assumes "publish_commit s i p = Inr s'"
  obtains x where "valid_record s" "tx_status s = St_COMMITTING" "tx_outcome s = Some x" "valid_proof p"
    "pr_delegation p = tx_delegation s" "pr_task p = tx_task s" "pr_contract p = tx_contract s"
    "pr_identity p = tx_identity s" "pr_generation p = tx_generation s" "pr_revision p = tx_revision s"
    "s' = (advance s (ci_now i))\<lparr>tx_status := published_status s x, tx_proof := Some p,
       tx_recovery := (if published_status s x = St_RECOVERY_REQUIRED
                       then Some ''committed terminal or scope facts are incomplete'' else None)\<rparr>"
  using assms unfolding publish_commit_def
  by (auto simp: Let_def dest!: with_tx_source_Inr split: if_splits option.splits)

lemma review_fields_of: "review_transaction s i h = Inr s' \<Longrightarrow>
    valid_record s \<and> tx_status s = St_PENDING_REVIEW \<and> hash_re h
    \<and> s' = (advance s (ci_now i))\<lparr>tx_status := St_REVIEWED,
            tx_review := Some \<lparr>rv_delegation = tx_delegation s, rv_generation = tx_generation s,
              rv_revision = tx_revision s, rv_hash = h, rv_at = ci_now i, rv_reviewer = ''sol''\<rparr>\<rparr>"
  unfolding review_transaction_def by (auto dest!: with_tx_source_Inr split: if_splits)

lemma abort_fields: "abort_transaction s i why = Inr s' \<Longrightarrow>
    valid_record s \<and> (tx_status s = St_PREPARED \<or> tx_status s = St_RUNNING) \<and> valid_reason_text why
    \<and> s' = (advance s (ci_now i))\<lparr>tx_status := St_ABORTED, tx_abort := Some why\<rparr>"
  unfolding abort_transaction_def by (auto dest!: with_tx_source_Inr split: if_splits)

lemma recovery_fields: "require_recovery s i why = Inr s' \<Longrightarrow>
    valid_record s \<and> (tx_status s = St_RUNNING \<or> tx_status s = St_COMMITTING) \<and> valid_reason_text why
    \<and> s' = (advance s (ci_now i))\<lparr>tx_status := St_RECOVERY_REQUIRED, tx_recovery := Some why\<rparr>"
  unfolding require_recovery_def by (auto dest!: with_tx_source_Inr split: if_splits)

subsection \<open>The invariant\<close>

lemma advance_simps [simp]:
  "tx_delegation (advance s n) = tx_delegation s" "tx_task (advance s n) = tx_task s" "tx_contract (advance s n) = tx_contract s"
  "tx_allowed (advance s n) = tx_allowed s" "tx_identity (advance s n) = tx_identity s"
  "tx_generation (advance s n) = tx_generation s" "tx_revision (advance s n) = tx_revision s + 1"
  "tx_status (advance s n) = tx_status s" "tx_created (advance s n) = tx_created s" "tx_updated (advance s n) = n"
  "tx_reasons (advance s n) = tx_reasons s" "tx_outcome (advance s n) = tx_outcome s" "tx_proof (advance s n) = tx_proof s"
  "tx_review (advance s n) = tx_review s" "tx_abort (advance s n) = tx_abort s" "tx_recovery (advance s n) = tx_recovery s"
  "tx_lineage (advance s n) = tx_lineage s"
  by (simp_all add: advance_def)

lemma state_facts_cong:
  assumes "tx_task s' = tx_task s" "tx_allowed s' = tx_allowed s" "tx_lineage s' = tx_lineage s"
  shows "state_postconditions s' = state_postconditions s" "state_interrupted s' = state_interrupted s"
    "has_lineage s' = has_lineage s"
  using assms by (auto simp: state_postconditions_def state_interrupted_def has_lineage_def)

lemma odd_step: "n mod 2 = 1 \<Longrightarrow> (n + 1) mod 2 = (0::int)" "n mod 2 = 0 \<Longrightarrow> (n + 1) mod 2 = (1::int)"
  by presburger+

lemma valid_record_invariants: "valid_record s \<Longrightarrow> parts_agree s \<and> status_shape s"
  by (simp add: valid_record_def valid_state_invariants_def)

lemma start_invariants: "start_transaction s i = Inr s' \<Longrightarrow> valid_state_invariants s'"
proof -
  assume "start_transaction s i = Inr s'"
  note f = start_fields[OF this]
  then have "parts_agree s" "status_shape s" using valid_record_invariants by blast+
  with f show ?thesis
    by (auto simp: valid_state_invariants_def parts_agree_def status_shape_def no_stop_def has_lineage_def)
qed

lemma resume_invariants: "resume_transaction s i = Inr s' \<Longrightarrow> valid_state_invariants s'"
proof -
  assume "resume_transaction s i = Inr s'"
  note f = resume_fields[OF this]
  then have "parts_agree s" "status_shape s" using valid_record_invariants by blast+
  with f show ?thesis
    by (auto simp: valid_state_invariants_def parts_agree_def status_shape_def no_stop_def has_lineage_def odd_step)
qed

lemma commit_invariants: "begin_commit s i x = Inr s' \<Longrightarrow> valid_state_invariants s'"
proof -
  assume "begin_commit s i x = Inr s'"
  note f = commit_fields[OF this]
  then have inv: "parts_agree s" "status_shape s" using valid_record_invariants by blast+
  have same: "state_postconditions s' = state_postconditions s" "has_lineage s' = has_lineage s"
    by (rule state_facts_cong; simp add: f)+
  from inv f have "parts_agree s'" unfolding parts_agree_def same by (auto split: option.splits)
  moreover from inv f have "status_shape s'" by (simp add: status_shape_def no_stop_def odd_step)
  ultimately show ?thesis by (simp add: valid_state_invariants_def)
qed

lemma recovery_invariants: "require_recovery s i why = Inr s' \<Longrightarrow> valid_state_invariants s'"
proof -
  assume "require_recovery s i why = Inr s'"
  note f = recovery_fields[OF this]
  then have inv: "parts_agree s" "status_shape s" using valid_record_invariants by blast+
  have same: "state_postconditions s' = state_postconditions s" "has_lineage s' = has_lineage s"
    by (rule state_facts_cong; simp add: f)+
  from inv f have "parts_agree s'" unfolding parts_agree_def same by (auto split: option.splits)
  moreover from inv f have "status_shape s'" by (auto simp: status_shape_def no_stop_def odd_step)
  ultimately show ?thesis by (simp add: valid_state_invariants_def)
qed

lemma publish_invariants: "publish_commit s i p = Inr s' \<Longrightarrow> valid_state_invariants s'"
proof (erule publish_fields)
  fix x assume src: "valid_record s" "tx_status s = St_COMMITTING" "tx_outcome s = Some x"
    and p: "valid_proof p" "pr_delegation p = tx_delegation s" "pr_task p = tx_task s" "pr_contract p = tx_contract s"
      "pr_identity p = tx_identity s" "pr_generation p = tx_generation s" "pr_revision p = tx_revision s"
    and s': "s' = (advance s (ci_now i))\<lparr>tx_status := published_status s x, tx_proof := Some p,
       tx_recovery := (if published_status s x = St_RECOVERY_REQUIRED
                       then Some ''committed terminal or scope facts are incomplete'' else None)\<rparr>"
  from src(1) have inv: "parts_agree s" "status_shape s" using valid_record_invariants by blast+
  have same: "state_postconditions s' = state_postconditions s" "state_interrupted s' = state_interrupted s"
      "has_lineage s' = has_lineage s" by (rule state_facts_cong; simp add: s')+
  have "parts_agree s'" using inv(1) p src(3) unfolding parts_agree_def same by (auto simp: s' split: option.splits)
  moreover have "status_shape s'"
  proof -
    have rev: "2 \<le> tx_revision s" "tx_revision s mod 2 = 0" "tx_review s = None" "no_stop s"
      using inv(2) src(2) by (simp_all add: status_shape_def)
    have fields: "tx_revision s' = tx_revision s + 1" "tx_outcome s' = Some x" "tx_review s' = None" "tx_task s' = tx_task s"
        "tx_reasons s' = tx_reasons s" "tx_abort s' = None" "proof_at s' (tx_revision s)" "tx_proof s' \<noteq> None"
        "tx_status s' = published_status s x"
        "published_status s x \<noteq> St_RECOVERY_REQUIRED \<Longrightarrow> no_stop s'"
        "published_status s x = St_RECOVERY_REQUIRED \<Longrightarrow> tx_recovery s' \<noteq> None"
      using rev src(3) p by (simp_all add: s' no_stop_def proof_at_def)
    have shape: "published_status s x \<noteq> St_RECOVERY_REQUIRED \<Longrightarrow> committed_shape s'"
      using fields rev by (simp add: committed_shape_def odd_step)
    have task: "tx_task s \<noteq> Task_implementation \<Longrightarrow> tx_task s = Task_diagnosis" by (cases "tx_task s") simp_all
    show ?thesis
      using fields rev shape task
      by (auto simp: status_shape_def published_status_def same odd_step split: if_splits)
  qed
  ultimately show ?thesis by (simp add: valid_state_invariants_def)
qed

lemma review_invariants: "review_transaction s i h = Inr s' \<Longrightarrow> valid_state_invariants s'"
proof -
  assume "review_transaction s i h = Inr s'"
  note f = review_fields_of[OF this]
  then have inv: "parts_agree s" "status_shape s" using valid_record_invariants by blast+
  have same: "state_postconditions s' = state_postconditions s" "has_lineage s' = has_lineage s"
    by (rule state_facts_cong; simp add: f)+
  from inv f have "parts_agree s'" unfolding parts_agree_def same by (auto split: option.splits)
  moreover have "proof_at s' = proof_at s" by (rule ext) (simp add: f proof_at_def)
  then have "status_shape s'" using inv f by (auto simp: status_shape_def committed_shape_def no_stop_def odd_step)
  ultimately show ?thesis by (simp add: valid_state_invariants_def)
qed

lemma abort_invariants:
  "abort_transaction s i why = Inr s' \<Longrightarrow> valid_state_invariants s' \<or> tx_status s' = St_ABORTED \<and> 2 < tx_revision s'"
proof -
  assume "abort_transaction s i why = Inr s'"
  note f = abort_fields[OF this]
  then have inv: "parts_agree s" "status_shape s" using valid_record_invariants by blast+
  have same: "state_postconditions s' = state_postconditions s" "has_lineage s' = has_lineage s"
    by (rule state_facts_cong; simp add: f)+
  from inv f have "parts_agree s'" unfolding parts_agree_def same by (auto split: option.splits)
  moreover from inv f have "status_shape s' \<or> 2 < tx_revision s'" by (auto simp: status_shape_def no_stop_def)
  ultimately show ?thesis using f by (auto simp: valid_state_invariants_def)
qed

lemma transition_invariants:
  "transition e s i = Inr s' \<Longrightarrow> valid_state_invariants s' \<or> tx_status s' = St_ABORTED \<and> 2 < tx_revision s'"
  using start_invariants resume_invariants commit_invariants publish_invariants review_invariants abort_invariants
    recovery_invariants by (cases e) simp_all

text \<open>What no transition changes.\<close>

definition frozen :: "transaction \<Rightarrow> string \<times> delegation_task \<times> string \<times> string list \<times> worker_identity \<times> int \<times> string \<times> repair_lineage option" where
  "frozen s = (tx_delegation s, tx_task s, tx_contract s, tx_allowed s, tx_identity s, tx_generation s, tx_created s, tx_lineage s)"

lemma transition_step:
  assumes "transition e s i = Inr s'"
  shows "frozen s' = frozen s \<and> tx_revision s' = tx_revision s + 1 \<and> tx_updated s' = ci_now i \<and> tx_updated s \<le> tx_updated s'"
proof -
  have "\<not> ci_now i < tx_updated s"
    using transition_source[OF assms] by (auto simp: validate_cas_def split: if_splits)
  moreover have "frozen s' = frozen s \<and> tx_revision s' = tx_revision s + 1 \<and> tx_updated s' = ci_now i"
  proof (cases e)
    case (Tx_publish p)
    with assms have "publish_commit s i p = Inr s'" by simp
    then show ?thesis by (rule publish_fields) (simp add: frozen_def)
  qed (use assms in \<open>auto simp: frozen_def dest!: start_fields resume_fields commit_fields review_fields_of abort_fields recovery_fields\<close>)
  ultimately show ?thesis by simp
qed

lemma created_form:
  assumes "create_prepared q = Inr s"
  obtains task lineage where "lineage \<noteq> None \<Longrightarrow> task = Task_implementation"
    "s = \<lparr>tx_delegation = pi_delegation q, tx_task = task, tx_contract = pi_contract q,
         tx_allowed = sort (pi_allowed q), tx_identity = pi_identity q, tx_generation = pi_generation q,
         tx_revision = 0, tx_status = St_PREPARED, tx_created = pi_now q, tx_updated = pi_now q, tx_reasons = [],
         tx_outcome = None, tx_proof = None, tx_review = None, tx_abort = None, tx_recovery = None,
         tx_lineage = lineage\<rparr>"
  using assms unfolding create_prepared_def Let_def
  by (simp only: sum.distinct sum.inject simp_thms not_None_eq split: option.splits if_split_asm) (rule that[rotated], erule sym, blast)

lemma created_invariants:
  assumes "create_prepared q = Inr s"
  shows "valid_state_invariants s \<and> tx_delegation s = pi_delegation q \<and> tx_contract s = pi_contract q
    \<and> tx_allowed s = sort (pi_allowed q) \<and> tx_identity s = pi_identity q \<and> tx_generation s = pi_generation q
    \<and> tx_created s = pi_now q \<and> tx_updated s = pi_now q \<and> tx_revision s = 0"
  using assms
  by (rule created_form) (simp add: valid_state_invariants_def parts_agree_def status_shape_def no_stop_def has_lineage_def)

lemma life_invariants: "tx_life q s \<Longrightarrow> valid_state_invariants s \<or> tx_status s = St_ABORTED \<and> 2 < tx_revision s"
  by (induction rule: tx_life.induct) (use created_invariants transition_invariants in blast)+

lemma life_frozen:
  "tx_life q s \<Longrightarrow> tx_delegation s = pi_delegation q \<and> tx_contract s = pi_contract q \<and> tx_allowed s = sort (pi_allowed q)
     \<and> tx_identity s = pi_identity q \<and> tx_generation s = pi_generation q \<and> tx_created s = pi_now q \<and> pi_now q \<le> tx_updated s"
proof (induction rule: tx_life.induct)
  case (tl_create s) then show ?case using created_invariants by simp
next
  case (tl_step s e i s')
  from transition_step[OF tl_step.hyps(2)] tl_step.IH show ?case by (auto simp: frozen_def intro: order_trans)
qed

lemma run_time:
  "run_steps transition s steps = Some s' \<Longrightarrow> tx_updated s \<le> tx_updated s' \<and> tx_revision s' = tx_revision s + int (length steps)"
proof (induction steps arbitrary: s)
  case (Cons ei es)
  obtain e i where ei: "ei = (e, i)" by (cases ei)
  with Cons.prems obtain u where u: "transition e s i = Inr u" "run_steps transition u es = Some s'"
    by (auto split: sum.splits)
  from transition_step[OF u(1)] Cons.IH[OF u(2)] show ?case by (auto simp: ei intro: order_trans)
qed simp

lemma run_life: "tx_life q s \<Longrightarrow> run_steps transition s steps = Some s' \<Longrightarrow> tx_life q s'"
proof (induction steps arbitrary: s)
  case (Cons ei es)
  obtain e i where ei: "ei = (e, i)" by (cases ei)
  with Cons.prems obtain u where u: "transition e s i = Inr u" "run_steps transition u es = Some s'"
    by (auto split: sum.splits)
  show ?case by (rule Cons.IH[OF tl_step[OF Cons.prems(1) u(1)] u(2)])
qed simp

text \<open>C20: The life of a transaction keeps the record consistent. Whatever transitions are applied, with whatever
  inputs, to a record its life reached, the later record satisfies the invariants the parser demands (except an
  aborted record beyond revision two); its identity, contract, rules, worker, generation and creation time are
  those it was prepared with; its revision has grown by one per transition; and its time never runs backwards:
  the later record's time of update is not before the earlier one's, nor before the creation.\<close>

theorem transaction_stays_consistent:
  assumes "tx_life q s" "run_steps transition s steps = Some s'"
  shows "(valid_state_invariants s' \<or> tx_status s' = St_ABORTED \<and> 2 < tx_revision s')
    \<and> tx_delegation s' = pi_delegation q \<and> tx_contract s' = pi_contract q \<and> tx_allowed s' = sort (pi_allowed q)
    \<and> tx_identity s' = pi_identity q \<and> tx_generation s' = pi_generation q \<and> tx_created s' = pi_now q
    \<and> pi_now q \<le> tx_updated s \<and> tx_updated s \<le> tx_updated s' \<and> tx_revision s' = tx_revision s + int (length steps)"
  using life_invariants[OF run_life[OF assms]] life_frozen[OF run_life[OF assms]] life_frozen[OF assms(1)] run_time[OF assms(2)]
  by blast

subsection \<open>Accepted work\<close>

lemma life_parts_valid:
  "tx_life q s \<Longrightarrow> (\<forall>x. tx_outcome s = Some x \<longrightarrow> valid_outcome x) \<and> (\<forall>p. tx_proof s = Some p \<longrightarrow> valid_proof p)
     \<and> (\<forall>r. tx_review s = Some r \<longrightarrow> hash_re (rv_hash r) \<and> rv_reviewer r = ''sol'')"
proof (induction rule: tx_life.induct)
  case (tl_create s) then show ?case by (auto elim!: created_form)
next
  case (tl_step s e i s')
  show ?case
  proof (cases e)
    case (Tx_publish p)
    with tl_step.hyps have "publish_commit s i p = Inr s'" by simp
    then show ?thesis by (rule publish_fields) (use tl_step.IH in simp)
  qed (use tl_step in \<open>auto dest!: start_fields resume_fields commit_fields review_fields_of abort_fields recovery_fields\<close>)
qed

lemma historical_empty:
  "historical_postconditions task allowed repair x = [] \<Longrightarrow> evaluate_postconditions task allowed repair x = []"
  by (simp add: historical_postconditions_def Let_def split: if_splits)

lemma only_if_empty [simp]: "only_if b x = [] \<longleftrightarrow> \<not> b"
  by (simp add: only_if_def)

lemma no_postcondition_failed:
  assumes "evaluate_postconditions task allowed repair x = []" "valid_outcome x"
  shows "to_provider_success x \<and> (to_worker x = None \<or> to_worker x = Some (True, None)) \<and> to_exit_code x = 0
    \<and> to_report_complete x \<and> to_facts_complete x \<and> to_scope_complete x \<and> to_change_status x = Cs_ATTRIBUTED
    \<and> (\<forall>p\<in>set (to_changed_paths x). path_allowed_v2 p allowed)
    \<and> (if task = Task_implementation then to_delta_hash x \<noteq> None \<and> (to_changed_paths x \<noteq> [] \<or> repair)
       else to_changed_paths x = [] \<and> to_delta_hash x = None \<and> to_writes x = 0 \<and> to_denied x = 0)"
proof -
  have "to_worker x = None \<or> to_worker x = Some (True, None)"
    using assms by (auto simp: evaluate_postconditions_def valid_outcome_def is_current_outcome_def split: option.splits bool.splits)
  moreover have "to_change_status x = Cs_ATTRIBUTED"
    using assms by (cases "to_change_status x") (simp_all add: evaluate_postconditions_def)
  ultimately show ?thesis
    using assms(1) by (auto simp: evaluate_postconditions_def split: if_splits)
qed

lemma path_allowed_sort [simp]: "path_allowed_v2 p (sort allowed) = path_allowed_v2 p allowed"
  by (simp add: path_allowed_v2_def)

text \<open>C21: A transaction that waits for review, is finished or is reviewed carries the machine facts of success: the
  provider and the worker succeeded, the report, facts and scope are complete, every changed path is allowed by
  the rules it was prepared with, the committed generation is proved by the full record inventory at the
  revision the publication consumed, the one before the published revision; implementations carry an attributed
  delta (or an open repair), diagnoses changed nothing; and a reviewed one was reviewed at exactly the published
  revision.\<close>

theorem accepted_work_is_proved:
  assumes life: "tx_life q s" and status: "tx_status s \<in> {St_PENDING_REVIEW, St_FINISHED, St_REVIEWED}"
  shows "\<exists>x p. tx_outcome s = Some x \<and> tx_proof s = Some p
    \<and> to_provider_success x \<and> (to_worker x = None \<or> to_worker x = Some (True, None)) \<and> to_exit_code x = 0
    \<and> to_report_complete x \<and> to_facts_complete x \<and> to_scope_complete x \<and> to_change_status x = Cs_ATTRIBUTED
    \<and> (\<forall>path\<in>set (to_changed_paths x). path_allowed_v2 path (pi_allowed q))
    \<and> pr_names p = committed_record_names \<and> pr_marker p = commit_marker p \<and> pr_contract p = pi_contract q
    \<and> pr_generation p = pi_generation q
    \<and> (if tx_status s = St_FINISHED then tx_task s = Task_diagnosis \<and> to_changed_paths x = [] \<and> to_writes x = 0 \<and> to_denied x = 0
       else tx_task s = Task_implementation \<and> to_delta_hash x \<noteq> None \<and> (to_changed_paths x \<noteq> [] \<or> tx_lineage s \<noteq> None))
    \<and> (tx_status s \<noteq> St_REVIEWED \<longrightarrow> tx_revision s = pr_revision p + 1)
    \<and> (tx_status s = St_REVIEWED \<longrightarrow> (\<exists>r. tx_review s = Some r \<and> rv_revision r = pr_revision p + 1
         \<and> tx_revision s = pr_revision p + 2 \<and> hash_re (rv_hash r) \<and> rv_reviewer r = ''sol''))"
proof -
  have inv: "parts_agree s" "status_shape s"
    using life_invariants[OF life] status by (auto simp: valid_state_invariants_def)
  from inv(2) status obtain x p where x: "tx_outcome s = Some x" and p: "tx_proof s = Some p" and none: "tx_reasons s = []"
    by (auto simp: status_shape_def committed_shape_def proof_at_def split: option.splits)
  from inv(1) x none have "state_postconditions s x = []"
    using historical_empty unfolding parts_agree_def state_postconditions_def by auto
  then have facts: "evaluate_postconditions (tx_task s) (sort (pi_allowed q)) (has_lineage s) x = []"
    using life_frozen[OF life] by (simp add: state_postconditions_def)
  have valid: "valid_outcome x" "valid_proof p" using life_parts_valid[OF life] x p by auto
  note ok = no_postcondition_failed[OF facts valid(1)]
  have proof_ids: "pr_contract p = pi_contract q" "pr_generation p = pi_generation q"
    using inv(1) p life_frozen[OF life] by (auto simp: parts_agree_def)
  have task: "tx_status s = St_FINISHED \<Longrightarrow> tx_task s = Task_diagnosis" "tx_status s \<noteq> St_FINISHED \<Longrightarrow> tx_task s = Task_implementation"
    using inv(2) status by (auto simp: status_shape_def)
  have review: "tx_status s = St_REVIEWED \<Longrightarrow> \<exists>r. tx_review s = Some r \<and> rv_revision r = pr_revision p + 1
         \<and> tx_revision s = pr_revision p + 2 \<and> hash_re (rv_hash r) \<and> rv_reviewer r = ''sol''"
    using inv(2) p life_parts_valid[OF life] by (auto simp: status_shape_def proof_at_def split: option.splits)
  have published: "tx_status s \<noteq> St_REVIEWED \<Longrightarrow> tx_revision s = pr_revision p + 1"
    using inv(2) status p by (auto simp: status_shape_def committed_shape_def proof_at_def)
  have "valid_proof p \<Longrightarrow> pr_names p = committed_record_names \<and> pr_marker p = commit_marker p" by (simp add: valid_proof_def)
  then show ?thesis
    using x p ok proof_ids task review published valid(2) by (intro exI[of _ x] exI[of _ p]) (auto simp: has_lineage_def)
qed

subsection \<open>One winner per revision\<close>

interpretation tx_cas: cas_machine transition tx_revision ci_revision
proof
  show "tx_revision s' = tx_revision s + 1" if "transition e s i = Inr s'" for e s i s'
    using transition_step[OF that] by simp
  show "ci_revision i = tx_revision s" if "transition e s i = Inr s'" for e s i s'
    using transition_source[OF that] by (auto simp: validate_cas_def split: if_splits)
qed

definition live_statuses :: "delegation_status list" where
  "live_statuses = [St_PREPARED, St_RUNNING, St_COMMITTING, St_PENDING_REVIEW, St_RECOVERY_REQUIRED]"

lemma transition_live: "transition e s i = Inr s' \<Longrightarrow> tx_status s \<in> set live_statuses"
proof (cases e)
  case (Tx_publish p)
  moreover assume "transition e s i = Inr s'"
  ultimately have "publish_commit s i p = Inr s'" by simp
  then show ?thesis by (rule publish_fields) (simp add: live_statuses_def)
qed (auto simp: live_statuses_def dest!: start_fields resume_fields commit_fields review_fields_of abort_fields recovery_fields)

text \<open>C22: A revision is consumed once. After a transition went through, no later transition, after any number of
  further ones, goes through for a caller that read the same revision; a run of n transitions was driven
  by exactly the n consecutive revisions; and only the live statuses ever advance.\<close>

theorem revision_is_consumed_once:
  assumes "transition e s i = Inr s1" "run_steps transition s1 es = Some s2"
  shows "(\<forall>e' j. ci_revision j = ci_revision i \<longrightarrow> (\<exists>err. transition e' s2 j = Inl err))
    \<and> tx_revision s2 = tx_revision s + 1 + int (length es)
    \<and> map (ci_revision \<circ> snd) ((e, i) # es) = map (\<lambda>n. tx_revision s + int n) [0..<Suc (length es)]
    \<and> tx_status s \<in> set live_statuses"
proof -
  have "run_steps transition s ((e, i) # es) = Some s2" using assms by simp
  from tx_cas.run_expected[OF this] have "map (ci_revision \<circ> snd) ((e, i) # es) = map (\<lambda>n. tx_revision s + int n) [0..<Suc (length es)]"
    by simp
  then show ?thesis
    using tx_cas.stale_refused[OF assms] tx_cas.run_revision[OF assms(2)] tx_cas.advances[OF assms(1)] transition_live[OF assms(1)]
    by simp
qed

subsection \<open>Durability\<close>

lemma strings_serializable [simp]:
  "list_all id (map (serializable \<circ> JStr) ss)" "list_all id (map (serializable \<circ> (JStr \<circ> f)) xs)"
  by (simp_all add: list_all_iff)

lemma null_serializable [simp]: "(\<And>y. serializable (f y)) \<Longrightarrow> serializable (null_value f x)"
  by (cases x) (simp_all add: null_value_def)

lemma value_serializable [simp]:
  "serializable (identity_value i)" "serializable (proof_value p)" "serializable (review_value r)"
  by (simp_all add: identity_value_def proof_value_def review_value_def)

lemma outcome_serializable [simp]: "serializable (outcome_value x)"
  by (cases "to_worker x") (simp_all add: outcome_value_def worker_value_def)

lemma lineage_serializable [simp]: "serializable (lineage_value l)"
  by (simp add: lineage_value_def lineage_projection_def)

lemma transaction_serializable [simp]: "serializable (transaction_value s)"
  by (cases "tx_lineage s") (simp_all add: transaction_value_def)

text \<open>C23: Durable state is read back exactly. The parser accepts the printed form of a record if and only if the
  record is valid and its JSON text is within the size bound, and then returns that record.\<close>

theorem transaction_roundtrip:
  "parse_transaction (transaction_value s) = Some s' \<longleftrightarrow>
     s' = s \<and> valid_record s \<and> (\<exists>t. canonical_json (transaction_value s) = Inr t \<and> byte_length t \<le> max_transaction_bytes)"
  using canonical_json_print[OF transaction_serializable[of s]]
  by (auto simp: parse_transaction_def parse_state_value not_le)

text \<open>A record whose weight is within the bound is small enough.\<close>

definition tx_fits :: "transaction \<Rightarrow> bool" where
  "tx_fits s = (json_weight (transaction_value s) \<le> max_transaction_bytes)"

lemma parse_fitting: "tx_fits s \<Longrightarrow> valid_record s \<Longrightarrow> parse_transaction (transaction_value s) = Some s"
  using json_size_bound[OF transaction_serializable[of s]]
  by (auto simp: parse_transaction_def parse_state_value tx_fits_def)

lemma with_tx_source_fitting:
  "tx_fits s \<Longrightarrow> valid_record s \<Longrightarrow> with_tx_source s i k = (case validate_cas s i of Some e \<Rightarrow> Inl e | None \<Rightarrow> k s)"
  by (simp add: with_tx_source_def parse_fitting)

subsection \<open>Aborting a resumed run\<close>

text \<open>Exception found: a run that was stopped, resumed and then aborted leaves a record the parser refuses. A
  resumed record is at revision three or later, the parser knows aborted records at revision one and two
  only, so the result of the abort can be printed but never read back as a transaction.\<close>

theorem abort_after_resume_is_unreadable:
  assumes "resume_transaction s i = Inr s1" "abort_transaction s1 j why = Inr s2"
  shows "tx_status s2 = St_ABORTED \<and> 4 \<le> tx_revision s2 \<and> parse_transaction (transaction_value s2) = None"
proof -
  note r = resume_fields[OF assms(1)]
  then have "status_shape s" using valid_record_invariants by blast
  with r have "2 \<le> tx_revision s" by (simp add: status_shape_def)
  with r have rev: "3 \<le> tx_revision s1" by simp
  note a = abort_fields[OF assms(2)]
  from a rev have "tx_status s2 = St_ABORTED" "4 \<le> tx_revision s2" by simp_all
  moreover from this have "\<not> valid_record s2" by (auto simp: valid_record_def valid_state_invariants_def status_shape_def)
  ultimately show ?thesis using transaction_serializable[of s2]
    by (auto simp: parse_transaction_def parse_state_value split: sum.splits)
qed

subsection \<open>Lineages are bound by their hash\<close>

definition seal_lineage :: "repair_lineage \<Rightarrow> repair_lineage" where
  "seal_lineage l = l\<lparr>ln_hash := digest (JObj (lineage_projection l))\<rparr>"

interpretation lineage: sealed_record "\<lambda>l. JObj (lineage_projection l)" ln_hash seal_lineage
  by unfold_locales (simp_all add: seal_lineage_def lineage_projection_def)

lemma projection_ok: "valid_lineage_input l \<Longrightarrow> value_ok (JObj (lineage_projection l))"
proof -
  assume "valid_lineage_input l"
  then have "\<bar>ln_depth l\<bar> < 1000000000000000000000" by (auto simp: valid_lineage_input_def positive_integer_def max_lineage_depth_def)
  moreover have "list_all wf_value (map JStr (ln_paths l))" by (simp add: list_all_iff)
  ultimately show ?thesis
    by (cases "ln_parent_hash l") (simp_all add: value_ok_def lineage_projection_def null_value_def)
qed

lemma bound_lineage:
  assumes "bind_lineage l = Some a"
  shows "valid_lineage_input a" "lineage.intact a" "bind_lineage a = Some a" "lineage_projection a = lineage_projection l"
proof -
  have valid: "valid_lineage_input l" using assms by (auto simp: bind_lineage_def split: if_splits)
  then have ser: "serializable (JObj (lineage_projection l))" using projection_ok[of l] by (simp add: value_ok_def)
  from assms have a: "a = \<lparr>ln_root = ln_root l, ln_repair_of = ln_repair_of l, ln_root_hash = ln_root_hash l,
            ln_decision_id = ln_decision_id l, ln_decision_hash = ln_decision_hash l, ln_parent_hash = ln_parent_hash l,
            ln_depth = ln_depth l, ln_paths = ln_paths l, ln_hash = digest (JObj (lineage_projection l))\<rparr>"
    by (auto simp: bind_lineage_def compute_lineage_hash_def canonical_hash_digest[OF ser] split: if_splits)
  show same: "lineage_projection a = lineage_projection l" by (simp add: a lineage_projection_def)
  then show "lineage.intact a" by (simp add: lineage.intact_def) (simp add: a)
  show "valid_lineage_input a" using valid by (simp add: a valid_lineage_input_def)
  then show "bind_lineage a = Some a"
    by (simp add: bind_lineage_fixed compute_lineage_hash_def same canonical_hash_digest[OF ser]) (simp add: a)
qed

lemma projection_injective:
  fixes a b :: repair_lineage
  assumes "sort_keys (JObj (lineage_projection a)) = sort_keys (JObj (lineage_projection b))" "ln_hash a = ln_hash b"
  shows "a = b"
proof -
  have null: "sort_keys (null_value JStr x) = null_value JStr x" for x by (cases x) (simp_all add: null_value_def)
  have inj: "null_value JStr x = null_value JStr y \<longleftrightarrow> x = y" for x y by (cases x; cases y) (simp_all add: null_value_def)
  have list: "map JStr xs = map JStr ys \<longleftrightarrow> xs = ys" for xs ys by (rule inj_map_eq_map) (simp add: inj_def)
  from assms show ?thesis
    by (cases a; cases b) (simp add: lineage_projection_def sort_keys_object own_keys_def get_prop_def null inj list)
qed

text \<open>A repair lineage is bound by its hash. A bound lineage is read back from its durable form, and two bound
  lineages with the same hash are the same lineage, unless SHA-256 collides on their two projections.\<close>

theorem lineage_hash_binds:
  assumes "bind_lineage l = Some a" "bind_lineage m = Some b"
  shows "parse_lineage (lineage_value a) = Some a
    \<and> ((ln_hash a = ln_hash b \<longleftrightarrow> a = b)
       \<or> collides (canonical_text (JObj (lineage_projection a))) (canonical_text (JObj (lineage_projection b))))"
proof -
  note A = bound_lineage[OF assms(1)] and B = bound_lineage[OF assms(2)]
  have "ln_hash a = ln_hash b \<Longrightarrow> \<not> collides (canonical_text (JObj (lineage_projection a))) (canonical_text (JObj (lineage_projection b)))
      \<Longrightarrow> a = b"
    using lineage.intact_same_hash[OF A(2) B(2) _ projection_ok[OF A(1)] projection_ok[OF B(1)]] projection_injective
    by (auto simp: collides_def)
  then show ?thesis using A(3) by (auto simp: parse_lineage_value)
qed

end
