(* ===== verification/Transaction_Examples.thy ===== *)
theory Transaction_Examples
  imports Transaction_Life
begin

section \<open>One implementation and one interrupted run, step by step\<close>

text \<open>
  Concrete records that go through the life of a transaction: the theorems are applied to them, and the
  one transition whose result the parser refuses is shown on them.
\<close>

definition hash_a :: string where "hash_a = replicate 64 (CHR ''a'')"

definition noon :: string where "noon = ''2026-01-01T12:00:00.000Z''"

definition worker_1 :: worker_identity where
  "worker_1 = \<lparr>wi_provider = worker_provider, wi_model = worker_model, wi_worker = ''w1''\<rparr>"

definition prepare_1 :: prepare_input where
  "prepare_1 = \<lparr>pi_delegation = ''20260101-000000-abcd'', pi_task = ''implementation'', pi_contract = hash_a,
     pi_allowed = [''src/**''], pi_identity = worker_1, pi_generation = 1, pi_now = noon, pi_lineage = None\<rparr>"

definition cas_1 :: "int \<Rightarrow> cas_input" where
  "cas_1 r = \<lparr>ci_delegation = ''20260101-000000-abcd'', ci_contract = hash_a, ci_identity = worker_1,
     ci_generation = 1, ci_revision = r, ci_now = noon\<rparr>"

definition outcome_1 :: terminal_outcome where
  "outcome_1 = \<lparr>to_delegation = ''20260101-000000-abcd'', to_task = Task_implementation, to_identity = worker_1,
     to_provider_success = True, to_worker = Some (True, None), to_exit_code = 0, to_report_complete = True,
     to_facts_complete = True, to_scope_complete = True, to_change_status = Cs_ATTRIBUTED,
     to_changed_paths = [''src/a.ts''], to_writes = 1, to_denied = 0, to_delta_hash = Some hash_a\<rparr>"

definition proof_0 :: commit_proof where
  "proof_0 = \<lparr>pr_schema = 2, pr_delegation = ''20260101-000000-abcd'', pr_task = Task_implementation,
     pr_contract = hash_a, pr_identity = worker_1, pr_generation = 1, pr_revision = 2,
     pr_names = committed_record_names, pr_count = 8, pr_content = hash_a, pr_marker = []\<rparr>"

definition proof_1 :: commit_proof where
  "proof_1 = proof_0\<lparr>pr_marker := commit_marker proof_0\<rparr>"

definition review_1 :: review_proof where
  "review_1 = \<lparr>rv_delegation = ''20260101-000000-abcd'', rv_generation = 1, rv_revision = 3, rv_hash = hash_a,
     rv_at = noon, rv_reviewer = ''sol''\<rparr>"

definition prepared_1 :: transaction where
  "prepared_1 = \<lparr>tx_delegation = ''20260101-000000-abcd'', tx_task = Task_implementation, tx_contract = hash_a,
     tx_allowed = [''src/**''], tx_identity = worker_1, tx_generation = 1, tx_revision = 0, tx_status = St_PREPARED,
     tx_created = noon, tx_updated = noon, tx_reasons = [], tx_outcome = None, tx_proof = None, tx_review = None,
     tx_abort = None, tx_recovery = None, tx_lineage = None\<rparr>"

definition running_1 :: transaction where
  "running_1 = prepared_1\<lparr>tx_status := St_RUNNING, tx_revision := 1\<rparr>"

definition committing_1 :: transaction where
  "committing_1 = prepared_1\<lparr>tx_status := St_COMMITTING, tx_revision := 2, tx_outcome := Some outcome_1\<rparr>"

definition pending_1 :: transaction where
  "pending_1 = prepared_1\<lparr>tx_status := St_PENDING_REVIEW, tx_revision := 3, tx_outcome := Some outcome_1,
     tx_proof := Some proof_1\<rparr>"

definition reviewed_1 :: transaction where
  "reviewed_1 = prepared_1\<lparr>tx_status := St_REVIEWED, tx_revision := 4, tx_outcome := Some outcome_1,
     tx_proof := Some proof_1, tx_review := Some review_1\<rparr>"

definition stopped_1 :: transaction where
  "stopped_1 = prepared_1\<lparr>tx_status := St_RECOVERY_REQUIRED, tx_revision := 2,
     tx_recovery := Some ''worker runner failed before terminal facts''\<rparr>"

definition resumed_1 :: transaction where
  "resumed_1 = prepared_1\<lparr>tx_status := St_RUNNING, tx_revision := 3\<rparr>"

definition aborted_1 :: transaction where
  "aborted_1 = prepared_1\<lparr>tx_status := St_ABORTED, tx_revision := 4, tx_abort := Some ''stopped by the operator''\<rparr>"

lemma create_1: "create_prepared prepare_1 = Inr prepared_1"
  by code_simp

lemma parts_1: "valid_fields prepared_1" "valid_outcome outcome_1" "valid_proof proof_1"
  "valid_reason_text ''worker runner failed before terminal facts''"
  by code_simp+

lemma shapes_1:
  "valid_state_invariants prepared_1" "valid_state_invariants running_1" "valid_state_invariants committing_1"
  "valid_state_invariants pending_1" "valid_state_invariants stopped_1" "valid_state_invariants resumed_1"
  by code_simp+

lemma readable_1:
  "valid_record prepared_1" "valid_record running_1" "valid_record committing_1" "valid_record pending_1"
  "valid_record stopped_1" "valid_record resumed_1"
  using parts_1 shapes_1
  by (simp_all add: valid_record_def valid_fields_def non_negative_integer_def max_safe_integer_def
      running_1_def committing_1_def pending_1_def stopped_1_def resumed_1_def)

lemmas record_values = transaction_value_def null_value_def identity_value_def outcome_value_def worker_value_def
  proof_value_def review_value_def worker_1_def outcome_1_def proof_1_def proof_0_def hash_a_def noon_def
  worker_provider_def worker_model_def commit_marker_def committed_record_names_def prepared_1_def

lemma small_1:
  "tx_fits prepared_1" "tx_fits running_1" "tx_fits committing_1" "tx_fits pending_1" "tx_fits stopped_1" "tx_fits resumed_1"
  by (simp_all add: tx_fits_def max_transaction_bytes_def running_1_def committing_1_def pending_1_def stopped_1_def
      resumed_1_def record_values)

lemma start_1: "start_transaction prepared_1 (cas_1 0) = Inr running_1"
  unfolding start_transaction_def with_tx_source_fitting[OF small_1(1) readable_1(1)] by code_simp

lemma commit_1: "begin_commit running_1 (cas_1 1) outcome_1 = Inr committing_1"
  unfolding begin_commit_def with_tx_source_fitting[OF small_1(2) readable_1(2)] by code_simp

lemma publish_1: "publish_commit committing_1 (cas_1 2) proof_1 = Inr pending_1"
  unfolding publish_commit_def with_tx_source_fitting[OF small_1(3) readable_1(3)] by code_simp

lemma review_step_1: "review_transaction pending_1 (cas_1 3) hash_a = Inr reviewed_1"
  unfolding review_transaction_def with_tx_source_fitting[OF small_1(4) readable_1(4)] by code_simp

lemma stop_1: "require_recovery running_1 (cas_1 1) ''worker runner failed before terminal facts'' = Inr stopped_1"
  unfolding require_recovery_def with_tx_source_fitting[OF small_1(2) readable_1(2)] by code_simp

lemma resume_1: "resume_transaction stopped_1 (cas_1 2) = Inr resumed_1"
  unfolding resume_transaction_def with_tx_source_fitting[OF small_1(5) readable_1(5)] by code_simp

lemma abort_1: "abort_transaction resumed_1 (cas_1 3) ''stopped by the operator'' = Inr aborted_1"
  unfolding abort_transaction_def with_tx_source_fitting[OF small_1(6) readable_1(6)] by code_simp

lemma life_0: "tx_life prepare_1 running_1"
proof -
  have "tx_life prepare_1 prepared_1" by (rule tl_create) (rule create_1)
  then show ?thesis by (rule tl_step[where e = Tx_start and i = "cas_1 0"]) (simp add: start_1)
qed

lemma life_run_1: "run_steps transition running_1 [(Tx_commit outcome_1, cas_1 1), (Tx_publish proof_1, cas_1 2)] = Some pending_1"
  by (simp add: commit_1 publish_1)

lemma life_1: "tx_life prepare_1 pending_1"
  by (rule run_life[OF life_0 life_run_1])

lemma life_2: "tx_life prepare_1 reviewed_1"
  by (rule tl_step[OF life_1, where e = "Tx_review hash_a" and i = "cas_1 3"]) (simp add: review_step_1)

subsection \<open>Witnesses\<close>

theorem transaction_stays_consistent_witness:
  "valid_state_invariants pending_1 \<and> tx_contract pending_1 = pi_contract prepare_1
   \<and> tx_updated running_1 \<le> tx_updated pending_1 \<and> tx_revision pending_1 = tx_revision running_1 + 2"
  using transaction_stays_consistent[OF life_0 life_run_1] by (simp add: pending_1_def)

theorem accepted_work_is_proved_witness:
  "\<exists>x p. tx_outcome reviewed_1 = Some x \<and> tx_proof reviewed_1 = Some p \<and> to_worker x = Some (True, None)
     \<and> pr_marker p = commit_marker p \<and> (\<exists>r. tx_review reviewed_1 = Some r \<and> rv_revision r = pr_revision p + 1)"
proof -
  have st: "tx_status reviewed_1 \<in> {St_PENDING_REVIEW, St_FINISHED, St_REVIEWED}" by (simp add: reviewed_1_def)
  have out: "tx_outcome reviewed_1 = Some outcome_1" "tx_status reviewed_1 = St_REVIEWED" by (simp_all add: reviewed_1_def)
  show ?thesis using accepted_work_is_proved[OF life_2 st] by (auto simp: out) (auto simp: outcome_1_def)
qed

theorem revision_is_consumed_once_witness:
  "\<exists>err. review_transaction pending_1 (cas_1 0) hash_a = Inl err"
proof -
  have start: "transition Tx_start prepared_1 (cas_1 0) = Inr running_1" by (simp add: start_1)
  from revision_is_consumed_once[OF start life_run_1] have "ci_revision (cas_1 0) = ci_revision (cas_1 0) \<longrightarrow>
      (\<exists>err. transition (Tx_review hash_a) pending_1 (cas_1 0) = Inl err)" by blast
  then show ?thesis by simp
qed

theorem abort_after_resume_is_unreadable_witness:
  "tx_status aborted_1 = St_ABORTED \<and> parse_transaction (transaction_value aborted_1) = None"
  using abort_after_resume_is_unreadable[OF resume_1 abort_1] by simp

definition lineage_1 :: "string \<Rightarrow> lineage_input" where
  "lineage_1 path = \<lparr>ln_root = ''20260101-000000-abcd'', ln_repair_of = ''20260101-000000-abcd'', ln_root_hash = hash_a,
     ln_decision_id = ''20260101-000000-abcd'', ln_decision_hash = hash_a, ln_parent_hash = None, ln_depth = 1,
     ln_paths = [path]\<rparr>"

lemma lineage_binds_1:
  assumes "valid_lineage_input (lineage_1 path)"
  shows "\<exists>a. bind_lineage (lineage_1 path) = Some a \<and> ln_paths a = [path]"
proof -
  have "serializable (JObj (lineage_projection (lineage_1 path)))" using projection_ok[OF assms] by (simp add: value_ok_def)
  then show ?thesis using assms
    by (simp add: bind_lineage_def compute_lineage_hash_def canonical_hash_digest) (simp add: lineage_1_def)
qed

text \<open>Two repairs of the same root that carry different files have different hashes, unless SHA-256 collides.\<close>

theorem lineage_hash_binds_witness:
  "\<exists>a b. bind_lineage (lineage_1 ''src/a.ts'') = Some a \<and> bind_lineage (lineage_1 ''src/b.ts'') = Some b
     \<and> parse_lineage (lineage_value a) = Some a
     \<and> (ln_hash a \<noteq> ln_hash b
        \<or> collides (canonical_text (JObj (lineage_projection a))) (canonical_text (JObj (lineage_projection b))))"
proof -
  have "valid_lineage_input (lineage_1 ''src/a.ts'')" "valid_lineage_input (lineage_1 ''src/b.ts'')" by code_simp+
  then obtain a b where ab: "bind_lineage (lineage_1 ''src/a.ts'') = Some a" "bind_lineage (lineage_1 ''src/b.ts'') = Some b"
      "ln_paths a = [''src/a.ts'']" "ln_paths b = [''src/b.ts'']"
    using lineage_binds_1 by metis
  then have "a \<noteq> b" by auto
  then show ?thesis using lineage_hash_binds[OF ab(1,2)] ab by blast
qed

end
