(* ===== verification/Js_Text.thy ===== *)
theory Js_Text
  imports Canonical_Hash Js_Number
begin

section \<open>Texts and conversions of values\<close>

text \<open>
  The conversions of the language that the output controls and the attempt parser use:
  \<open>String(value)\<close>, truth, optional property reads and the positive floors of caps.
\<close>

text \<open>
  \<open>String(value)\<close>: an array is the join of its members, so a nested array of one text reads as that
  text. An object reads as a tag. \<open>string_throws\<close> tells the values whose conversion raises a
  \<open>TypeError\<close>: an object whose own \<open>toString\<close> cannot be called, at any depth of an array.
\<close>

primrec string_of :: "jv \<Rightarrow> string" where
  "string_of JUndef = ''undefined''"
| "string_of JNull = ''null''"
| "string_of (JBool b) = (if b then ''true'' else ''false'')"
| "string_of (JNum n) = num_text n"
| "string_of (JStr s) = s"
| "string_of (JArr vs) =
     join_with '','' (map (\<lambda>(v, t). if v = JNull \<or> v = JUndef then [] else t) (zip vs (map string_of vs)))"
| "string_of (JObj kvs) = ''[object Object]''"
| "string_of (JExotic k) = ''[object '' @ k @ '']''"

primrec string_throws :: "jv \<Rightarrow> bool" where
  "string_throws JUndef = False"
| "string_throws JNull = False"
| "string_throws (JBool b) = False"
| "string_throws (JNum n) = False"
| "string_throws (JStr s) = False"
| "string_throws (JArr vs) = list_ex id (map string_throws vs)"
| "string_throws (JObj kvs) = (''toString'' \<in> set (map fst kvs))"
| "string_throws (JExotic k) = False"

definition js_string :: "jv \<Rightarrow> string option" where
  "js_string v = (if string_throws v then None else Some (string_of v))"

fun truthy :: "jv \<Rightarrow> bool" where
  "truthy JUndef = False"
| "truthy JNull = False"
| "truthy (JBool b) = b"
| "truthy (JNum n) = (n \<noteq> JNaN \<and> n \<noteq> JInt 0)"
| "truthy (JStr s) = (s \<noteq> [])"
| "truthy _ = True"

text \<open>\<open>value?.name\<close>: only plain objects have the names read here.\<close>

fun opt_prop :: "jv \<Rightarrow> string \<Rightarrow> jv" where
  "opt_prop (JObj kvs) k = get_prop kvs k"
| "opt_prop _ k = JUndef"

text \<open>\<open>Number.isFinite(value) && value > 0 ? Math.floor(value) : 0\<close>\<close>

definition positive_floor :: "jv \<Rightarrow> nat" where
  "positive_floor v = (case finite_number v of None \<Rightarrow> 0 | Some x \<Rightarrow> if 0 < x then nat \<lfloor>x\<rfloor> else 0)"

lemma positive_floor_int [simp]: "positive_floor (JNum (JInt i)) = nat i"
  by (simp add: positive_floor_def)

lemma positive_floor_undef [simp]: "positive_floor JUndef = 0"
  by (simp add: positive_floor_def)

end
