(* ===== verification/Compact_Attempt.thy ===== *)
theory Compact_Attempt
  imports Js_Time Js_Text
begin

section \<open>Compaction attempts (core/compact-lifecycle.ts, core/compact-overflow.ts)\<close>

text \<open>
  One compaction attempt is started once and finished at most once; its persisted record is read back by
  a strict parser. A context-window overflow is classified from an explicit provider signal and grants a
  single compact-and-retry.
\<close>

subsection \<open>Vocabulary\<close>

datatype attempt_end = End_completed | End_failed | End_cancelled

primrec attempt_end_text :: "attempt_end \<Rightarrow> string" where
  "attempt_end_text End_completed = ''completed''"
| "attempt_end_text End_failed = ''failed''"
| "attempt_end_text End_cancelled = ''cancelled''"

definition attempt_ends :: "attempt_end list" where
  "attempt_ends = [End_completed, End_failed, End_cancelled]"

primrec result_code :: "attempt_end \<Rightarrow> string" where
  "result_code End_completed = ''compact_completed''"
| "result_code End_failed = ''compact_failed''"
| "result_code End_cancelled = ''compact_cancelled''"

datatype attempt_reason = Ar_manual | Ar_threshold | Ar_overflow

primrec attempt_reason_text :: "attempt_reason \<Rightarrow> string" where
  "attempt_reason_text Ar_manual = ''manual''"
| "attempt_reason_text Ar_threshold = ''threshold''"
| "attempt_reason_text Ar_overflow = ''overflow''"

definition attempt_reasons :: "attempt_reason list" where
  "attempt_reasons = [Ar_manual, Ar_threshold, Ar_overflow]"

datatype attempt_owner = Ow_native | Ow_recovery

primrec attempt_owner_text :: "attempt_owner \<Rightarrow> string" where
  "attempt_owner_text Ow_native = ''pi-native''"
| "attempt_owner_text Ow_recovery = ''workbench-overflow-recovery''"

definition attempt_owners :: "attempt_owner list" where
  "attempt_owners = [Ow_native, Ow_recovery]"

interpretation attempt_end_wire: wire_enum attempt_ends attempt_end_text
proof
  show "e \<in> set attempt_ends" for e by (cases e) (simp_all add: attempt_ends_def)
  show "distinct (map attempt_end_text attempt_ends)" by (simp add: attempt_ends_def)
qed

interpretation attempt_reason_wire: wire_enum attempt_reasons attempt_reason_text
proof
  show "e \<in> set attempt_reasons" for e by (cases e) (simp_all add: attempt_reasons_def)
  show "distinct (map attempt_reason_text attempt_reasons)" by (simp add: attempt_reasons_def)
qed

interpretation attempt_owner_wire: wire_enum attempt_owners attempt_owner_text
proof
  show "e \<in> set attempt_owners" for e by (cases e) (simp_all add: attempt_owners_def)
  show "distinct (map attempt_owner_text attempt_owners)" by (simp add: attempt_owners_def)
qed

subsection \<open>The record\<close>

text \<open>
  The status is kept as the value the parser found: the source casts it without converting it.
\<close>

record attempt =
  at_id :: string
  at_status :: jv
  at_started :: string
  at_finished :: "string option"
  at_reason :: attempt_reason
  at_owner :: attempt_owner
  at_retry :: bool
  at_code :: "string option"

definition attempt_schema :: string where "attempt_schema = ''workbench-compact-attempt-v1''"

definition started_status :: jv where "started_status = JStr ''started''"

definition ended_status :: "jv \<Rightarrow> attempt_end option" where
  "ended_status v = find (\<lambda>e. attempt_end_text e = string_of v) attempt_ends"

text \<open>\<open>/^[A-Za-z0-9][A-Za-z0-9._:-]{0,127}$/\<close>\<close>

definition attempt_id_re :: "string \<Rightarrow> bool" where
  "attempt_id_re s =
     (s \<noteq> [] \<and> length s \<le> 128 \<and> is_alnum (hd s)
      \<and> (\<forall>c\<in>set s. is_alnum c \<or> c \<in> {CHR ''.'', CHR ''_'', CHR '':'', CHR ''-''}))"

definition timestamp :: "string \<Rightarrow> bool" where
  "timestamp s = (length s \<le> 32 \<and> canonical_iso s)"

definition state_keys :: "string list" where
  "state_keys = [''schema'', ''attemptId'', ''status'', ''startedAt'', ''finishedAt'', ''reason'', ''owner'', ''willRetry'', ''resultCode'']"

definition null_text :: "string option \<Rightarrow> jv" where
  "null_text x = (case x of None \<Rightarrow> JNull | Some s \<Rightarrow> JStr s)"

definition attempt_value :: "attempt \<Rightarrow> jv" where
  "attempt_value a = JObj
     [(''schema'', JStr attempt_schema), (''attemptId'', JStr (at_id a)), (''status'', at_status a),
      (''startedAt'', JStr (at_started a)), (''finishedAt'', null_text (at_finished a)),
      (''reason'', JStr (attempt_reason_text (at_reason a))), (''owner'', JStr (attempt_owner_text (at_owner a))),
      (''willRetry'', JBool (at_retry a)), (''resultCode'', null_text (at_code a))]"

text \<open>The two optional fields, which the status decides.\<close>

definition attempt_outcome :: "jv \<Rightarrow> string \<Rightarrow> jv \<Rightarrow> jv \<Rightarrow> (string option \<times> string option) option" where
  "attempt_outcome status start finish code =
     (if status = started_status then (if finish = JNull \<and> code = JNull then Some (None, None) else None)
      else case (ended_status status, as_string finish) of
          (Some e, Some f) \<Rightarrow>
            if timestamp f \<and> \<not> date_parse f < date_parse start \<and> code = JStr (result_code e)
            then Some (Some f, Some (result_code e)) else None
        | _ \<Rightarrow> None)"

definition parse_attempt :: "jv \<Rightarrow> attempt option" where
  "parse_attempt v =
     (case as_record v of None \<Rightarrow> None
      | Some f \<Rightarrow>
          if \<not> exact_fields f state_keys \<or> get_prop f ''schema'' \<noteq> JStr attempt_schema then None
          else (case (as_string (get_prop f ''attemptId''), as_string (get_prop f ''startedAt''),
                  parse_enum attempt_reasons attempt_reason_text (get_prop f ''reason''),
                  parse_enum attempt_owners attempt_owner_text (get_prop f ''owner''), as_bool (get_prop f ''willRetry'')) of
              (Some i, Some st, Some r, Some ow, Some w) \<Rightarrow>
                if \<not> attempt_id_re i \<or> \<not> timestamp st then None
                else map_option (\<lambda>(fin, code). \<lparr>at_id = i, at_status = get_prop f ''status'', at_started = st, at_finished = fin,
                       at_reason = r, at_owner = ow, at_retry = w, at_code = code\<rparr>)
                     (attempt_outcome (get_prop f ''status'') st (get_prop f ''finishedAt'') (get_prop f ''resultCode''))
            | _ \<Rightarrow> None))"

subsection \<open>Transitions\<close>

record start_input =
  si_id :: string
  si_started :: string
  si_reason :: attempt_reason
  si_owner :: attempt_owner
  si_retry :: bool

text \<open>\<open>None\<close> is the \<open>TypeError\<close> of the source.\<close>

definition start_attempt :: "start_input \<Rightarrow> attempt option" where
  "start_attempt q = parse_attempt (attempt_value
     \<lparr>at_id = si_id q, at_status = started_status, at_started = si_started q, at_finished = None, at_reason = si_reason q,
      at_owner = si_owner q, at_retry = si_retry q, at_code = None\<rparr>)"

definition finish_attempt :: "jv \<Rightarrow> attempt_end \<Rightarrow> string \<Rightarrow> attempt option" where
  "finish_attempt v e finished =
     (case parse_attempt v of None \<Rightarrow> None
      | Some a \<Rightarrow>
          if at_status a \<noteq> started_status then None
          else parse_attempt (attempt_value (a\<lparr>at_status := JStr (attempt_end_text e), at_finished := Some finished,
                 at_code := Some (result_code e)\<rparr>)))"

definition is_attempt_terminal :: "jv \<Rightarrow> bool" where
  "is_attempt_terminal v = (case parse_attempt v of None \<Rightarrow> False | Some a \<Rightarrow> at_status a \<noteq> started_status)"

definition serialize_attempt :: "jv \<Rightarrow> attempt option" where
  "serialize_attempt v = parse_attempt v"

subsection \<open>Overflow classification\<close>

definition overflow_codes :: "string list" where
  "overflow_codes = [''context_length_exceeded'', ''context_window_exceeded'', ''input_too_long'', ''prompt_too_long'']"

text \<open>The rest of the text after each place where one of the literals occurs.\<close>

fun after_any :: "string list \<Rightarrow> string \<Rightarrow> string list" where
  "after_any ls [] = []"
| "after_any ls (c # s) = map (\<lambda>l. drop (length l) (c # s)) (filter (\<lambda>l. starts_with l (c # s)) ls) @ after_any ls s"

text \<open>\<open>[^.\n]{0,n}\<close> followed by one of the literals.\<close>

fun within_gap :: "nat \<Rightarrow> string list \<Rightarrow> string \<Rightarrow> string list" where
  "within_gap n ls [] = []"
| "within_gap n ls (c # s) =
     map (\<lambda>l. drop (length l) (c # s)) (filter (\<lambda>l. starts_with l (c # s)) ls)
     @ (case n of 0 \<Rightarrow> [] | Suc m \<Rightarrow> if c \<in> {CHR ''.'', CHR 0x0A} then [] else within_gap m ls s)"

definition token_count_follows :: "string \<Rightarrow> bool" where
  "token_count_follows s =
     (s \<noteq> [] \<and> is_digit (hd s) \<and> starts_with '' tokens'' (dropWhile (\<lambda>c. is_digit c \<or> c = CHR '','') s))"

definition overflow_message :: "string \<Rightarrow> bool" where
  "overflow_message raw =
     (let s = to_lower raw in
        (\<exists>r\<in>set (after_any [''maximum context length is '', ''maximum context length of ''] s). token_count_follows r)
        \<or> (\<exists>r\<in>set (after_any [''context length'', ''context window''] s).
             within_gap 80 [''exceed'', ''too large'', ''too long''] r \<noteq> [])
        \<or> (\<exists>r\<in>set (after_any [''prompt is too long''] s
                    @ concat (map (within_gap 80 [''exceed'', ''exceeds'']) (after_any [''input token count''] s))).
             within_gap 120 [''maximum'', ''context''] r \<noteq> []))"

datatype overflow_source = By_code | By_message

definition own_value :: "jv \<Rightarrow> string \<Rightarrow> jv" where
  "own_value v k = (case as_record v of None \<Rightarrow> JUndef | Some f \<Rightarrow> get_prop f k)"

definition overflow_candidates :: "jv \<Rightarrow> jv list" where
  "overflow_candidates v = (let nested = own_value v ''error'' in if nested = JUndef then [v] else [v, nested])"

definition has_overflow_code :: "jv \<Rightarrow> bool" where
  "has_overflow_code v =
     (case as_string (own_value v ''code'') of None \<Rightarrow> False | Some c \<Rightarrow> to_lower c \<in> set overflow_codes)"

definition has_overflow_message :: "jv \<Rightarrow> bool" where
  "has_overflow_message v =
     (case as_string (case v of JStr s \<Rightarrow> JStr s | _ \<Rightarrow> own_value v ''message'') of None \<Rightarrow> False
      | Some m \<Rightarrow> length m \<le> 4096 \<and> overflow_message m)"

definition classify_overflow :: "jv \<Rightarrow> overflow_source option" where
  "classify_overflow v =
     (if list_ex has_overflow_code (overflow_candidates v) then Some By_code
      else if list_ex has_overflow_message (overflow_candidates v) then Some By_message
      else None)"

datatype recovery_reason = Not_overflow | Recover_once | Already_attempted

record recovery_decision =
  rd_source :: "overflow_source option"
  rd_recover :: bool
  rd_attempted :: bool
  rd_reason :: recovery_reason

definition decide_recovery :: "jv \<Rightarrow> bool \<Rightarrow> recovery_decision" where
  "decide_recovery err attempted =
     (case classify_overflow err of
        None \<Rightarrow> \<lparr>rd_source = None, rd_recover = False, rd_attempted = attempted, rd_reason = Not_overflow\<rparr>
      | Some src \<Rightarrow>
          if attempted then \<lparr>rd_source = Some src, rd_recover = False, rd_attempted = True, rd_reason = Already_attempted\<rparr>
          else \<lparr>rd_source = Some src, rd_recover = True, rd_attempted = True, rd_reason = Recover_once\<rparr>)"

subsection \<open>A record is read back exactly when it is valid\<close>

definition valid_attempt :: "attempt \<Rightarrow> bool" where
  "valid_attempt a =
     (attempt_id_re (at_id a) \<and> timestamp (at_started a)
      \<and> (if at_status a = started_status then at_finished a = None \<and> at_code a = None
         else (case (ended_status (at_status a), at_finished a) of
                 (Some e, Some f) \<Rightarrow> timestamp f \<and> date_parse (at_started a) \<le> date_parse f \<and> at_code a = Some (result_code e)
               | _ \<Rightarrow> False)))"

lemma null_text_eq [simp]:
  "null_text x = JNull \<longleftrightarrow> x = None" "null_text x = JStr s \<longleftrightarrow> x = Some s" "as_string (null_text x) = x"
  by (cases x; simp add: null_text_def)+

lemma outcome_of_value:
  "attempt_outcome (at_status a) (at_started a) (null_text (at_finished a)) (null_text (at_code a))
     = (if at_status a = started_status then (if at_finished a = None \<and> at_code a = None then Some (None, None) else None)
        else (case (ended_status (at_status a), at_finished a) of
            (Some e, Some f) \<Rightarrow>
              if timestamp f \<and> date_parse (at_started a) \<le> date_parse f \<and> at_code a = Some (result_code e)
              then Some (Some f, Some (result_code e)) else None
          | _ \<Rightarrow> None))"
  by (simp add: attempt_outcome_def not_less cong: option.case_cong)

lemma parse_attempt_value: "parse_attempt (attempt_value a) = (if valid_attempt a then Some a else None)"
proof -
  have "exact_fields (the (as_record (attempt_value a))) state_keys"
    by (simp add: exact_fields_def attempt_value_def state_keys_def own_keys_def)
  then have "parse_attempt (attempt_value a) =
      (if \<not> attempt_id_re (at_id a) \<or> \<not> timestamp (at_started a) then None
       else map_option (\<lambda>(fin, code). a\<lparr>at_finished := fin, at_code := code\<rparr>)
              (attempt_outcome (at_status a) (at_started a) (null_text (at_finished a)) (null_text (at_code a))))"
    by (cases a) (simp add: parse_attempt_def attempt_value_def)
  then show ?thesis
    unfolding outcome_of_value valid_attempt_def by (cases a) (auto split: option.splits)
qed

lemma parse_attempt_valid: "parse_attempt v = Some a \<Longrightarrow> valid_attempt a"
  by (auto simp: parse_attempt_def valid_attempt_def attempt_outcome_def
      split: option.splits if_splits)

lemma ended_text [simp]: "ended_status (JStr (attempt_end_text e)) = Some e"
  using attempt_end_wire.parse_text[of e] by (simp add: ended_status_def parse_enum_def)

lemma ended_not_started [simp]: "JStr (attempt_end_text e) \<noteq> started_status"
  by (cases e) (simp_all add: started_status_def)

text \<open>A compaction attempt ends at most once. Finishing succeeds only on a readable record that is still started
  and only at a time not before its start; it changes the status, the end time and the result code together
  and nothing else, the result is readable and terminal, and no further finish of it ever succeeds.\<close>

theorem attempt_finishes_once:
  assumes "finish_attempt v e t = Some b"
  shows "\<exists>a. parse_attempt v = Some a \<and> at_status a = started_status \<and> date_parse (at_started a) \<le> date_parse t
     \<and> b = a\<lparr>at_status := JStr (attempt_end_text e), at_finished := Some t, at_code := Some (result_code e)\<rparr>
     \<and> parse_attempt (attempt_value b) = Some b \<and> is_attempt_terminal (attempt_value b)
     \<and> (\<forall>e' t'. finish_attempt (attempt_value b) e' t' = None)"
proof -
  obtain a where a: "parse_attempt v = Some a" "at_status a = started_status"
    and b: "parse_attempt (attempt_value (a\<lparr>at_status := JStr (attempt_end_text e), at_finished := Some t,
                 at_code := Some (result_code e)\<rparr>)) = Some b"
    using assms by (auto simp: finish_attempt_def split: option.splits if_splits)
  let ?b = "a\<lparr>at_status := JStr (attempt_end_text e), at_finished := Some t, at_code := Some (result_code e)\<rparr>"
  from b have v: "valid_attempt ?b" "b = ?b" by (auto simp: parse_attempt_value split: if_splits)
  then have "parse_attempt (attempt_value b) = Some b" by (simp add: parse_attempt_value)
  moreover from v(1) have "date_parse (at_started a) \<le> date_parse t" by (simp add: valid_attempt_def)
  ultimately show ?thesis using a v(2) by (auto simp: is_attempt_terminal_def finish_attempt_def)
qed

definition attempt_1 :: attempt where
  "attempt_1 = \<lparr>at_id = ''a1'', at_status = started_status, at_started = ''2026-01-01T00:00:00.000Z'', at_finished = None,
     at_reason = Ar_threshold, at_owner = Ow_native, at_retry = False, at_code = None\<rparr>"

theorem attempt_finishes_once_witness:
  "\<exists>b. finish_attempt (attempt_value attempt_1) End_completed ''2026-01-01T00:00:01.000Z'' = Some b
     \<and> is_attempt_terminal (attempt_value b) \<and> finish_attempt (attempt_value b) End_failed ''2026-01-01T00:00:02.000Z'' = None"
proof -
  have "finish_attempt (attempt_value attempt_1) End_completed ''2026-01-01T00:00:01.000Z''
      = Some (attempt_1\<lparr>at_status := JStr ''completed'', at_finished := Some ''2026-01-01T00:00:01.000Z'',
                at_code := Some ''compact_completed''\<rparr>)"
    by code_simp
  from attempt_finishes_once[OF this] this show ?thesis by blast
qed

text \<open>
  Exception found: the status is tested by its text, so a record whose status is an array of one end status
  parses, is terminal, and keeps the array as its status.
\<close>

theorem array_status_is_accepted:
  "valid_attempt b \<Longrightarrow> at_status b = JStr (attempt_end_text e) \<Longrightarrow>
     parse_attempt (attempt_value (b\<lparr>at_status := JArr [JStr (attempt_end_text e)]\<rparr>))
       = Some (b\<lparr>at_status := JArr [JStr (attempt_end_text e)]\<rparr>)"
proof -
  have "ended_status (JArr [JStr (attempt_end_text e)]) = ended_status (JStr (attempt_end_text e))"
    by (simp add: ended_status_def)
  moreover have "JArr [JStr (attempt_end_text e)] \<noteq> started_status" by (simp add: started_status_def)
  ultimately show "valid_attempt b \<Longrightarrow> at_status b = JStr (attempt_end_text e) \<Longrightarrow>
     parse_attempt (attempt_value (b\<lparr>at_status := JArr [JStr (attempt_end_text e)]\<rparr>))
       = Some (b\<lparr>at_status := JArr [JStr (attempt_end_text e)]\<rparr>)"
    by (auto simp: parse_attempt_value valid_attempt_def split: option.splits)
qed

subsection \<open>One recovery\<close>

text \<open>The decisions of a session: each passes its flag on to the next error.\<close>

fun recovery_run :: "bool \<Rightarrow> jv list \<Rightarrow> recovery_decision list" where
  "recovery_run attempted [] = []"
| "recovery_run attempted (err # errs) =
     (let d = decide_recovery err attempted in d # recovery_run (rd_attempted d) errs)"

lemma recovery_run_attempted: "\<forall>d\<in>set (recovery_run True errs). \<not> rd_recover d"
  by (induction errs) (auto simp: decide_recovery_def Let_def split: option.splits)

lemma recovery_at_most_once:
  "length (filter rd_recover (recovery_run False errs)) = (if \<exists>err\<in>set errs. classify_overflow err \<noteq> None then 1 else 0)"
proof (induction errs)
  case (Cons err errs)
  show ?case
  proof (cases "classify_overflow err")
    case None with Cons show ?thesis by (auto simp: decide_recovery_def Let_def)
  next
    case (Some src)
    have "filter rd_recover (recovery_run True errs) = []" using recovery_run_attempted by (simp add: filter_empty_conv)
    with Some show ?thesis by (simp add: decide_recovery_def Let_def)
  qed
qed simp

end
