(* ===== verification/Compact_Preflight.thy ===== *)
theory Compact_Preflight
  imports Js_Value
begin

section \<open>The preflight of a compaction summary (core/compact-preflight.ts)\<close>

text \<open>
  Before a native compaction the runtime estimates each provider request and compares its envelope with the
  context window. The text of a message comes from the host's public serializer, which is the parameter
  \<open>render\<close> (\<open>None\<close> when it throws). Numbers are safe integers; the products and quotients
  below are exact in doubles because every operand of a division is a safe integer.
\<close>

definition fixed_input_tokens :: int where "fixed_input_tokens = 2048"
definition safety_bps :: int where "safety_bps = 500"
definition headroom_bps :: int where "headroom_bps = 500"
definition warn_bps :: int where "warn_bps = 9000"
definition basis_points :: int where "basis_points = 10000"

datatype preflight_verdict = Pv_allow | Pv_warn | Pv_block | Pv_unknown

datatype preflight_reason = Within_budget | Near_capacity | Request_too_large | Invalid_input | Estimation_failed

datatype request_kind = Rk_history | Rk_turn_prefix

record call_facts =
  cf_kind :: request_kind
  cf_chars :: int
  cf_bytes :: int
  cf_base :: int
  cf_input :: int
  cf_output :: int
  cf_safety :: int
  cf_envelope :: int

record preflight_result =
  pr_verdict :: preflight_verdict
  pr_reason :: preflight_reason
  pr_worst :: "request_kind option"
  pr_window :: int
  pr_worst_tokens :: int
  pr_calls :: "call_facts list"

definition unknown_result :: "preflight_reason \<Rightarrow> preflight_result" where
  "unknown_result why =
     \<lparr>pr_verdict = Pv_unknown, pr_reason = why, pr_worst = None, pr_window = 0, pr_worst_tokens = 0, pr_calls = []\<rparr>"

subsection \<open>Arithmetic\<close>

text \<open>\<open>None\<close> is the \<open>RangeError\<close> of the source.\<close>

fun add_from :: "int \<Rightarrow> int list \<Rightarrow> int option" where
  "add_from acc [] = Some acc"
| "add_from acc (v # vs) =
     (if \<bar>v\<bar> > max_safe_integer \<or> v < 0 \<or> acc > max_safe_integer - v then None else add_from (acc + v) vs)"

definition safe_add :: "int list \<Rightarrow> int option" where
  "safe_add vs = add_from 0 vs"

definition ceil_div :: "int \<Rightarrow> int \<Rightarrow> int" where
  "ceil_div a b = - (- a div b)"

definition floor_ratio :: "int \<Rightarrow> int \<Rightarrow> int \<Rightarrow> int option" where
  "floor_ratio v n d = safe_add [v div d * n, v mod d * n div d]"

definition ceil_ratio :: "int \<Rightarrow> int \<Rightarrow> int \<Rightarrow> int option" where
  "ceil_ratio v n d = safe_add [v div d * n, ceil_div (v mod d * n) d]"

subsection \<open>Sizes\<close>

fun size_from :: "(jv \<Rightarrow> string option) \<Rightarrow> jv list \<Rightarrow> nat \<Rightarrow> int \<times> int \<Rightarrow> (int \<times> int) option" where
  "size_from render [] emitted (chars, bytes) = Some (chars, bytes)"
| "size_from render (m # ms) emitted (chars, bytes) =
     (case render m of None \<Rightarrow> None
      | Some text \<Rightarrow>
          if text = [] then size_from render ms emitted (chars, bytes)
          else (let sep = (if emitted > 0 then [2] else []) in
            case (safe_add (chars # sep @ [int (length text)]), safe_add (bytes # sep @ [int (byte_length text)])) of
              (Some c, Some b) \<Rightarrow> size_from render ms (emitted + 1) (c, b)
            | _ \<Rightarrow> None))"

definition serialized_size :: "(jv \<Rightarrow> string option) \<Rightarrow> jv list \<Rightarrow> (int \<times> int) option" where
  "serialized_size render ms = size_from render ms 0 (0, 0)"

definition string_size :: "string option \<Rightarrow> int \<times> int" where
  "string_size v = (case v of None \<Rightarrow> (0, 0) | Some s \<Rightarrow> (int (length s), int (byte_length s)))"

subsection \<open>One request\<close>

record preflight_model =
  pm_window :: int
  pm_max_tokens :: int

definition evaluate_call ::
  "(jv \<Rightarrow> string option) \<Rightarrow> request_kind \<Rightarrow> jv list \<Rightarrow> (int \<times> int) list \<Rightarrow> int \<Rightarrow> preflight_model \<Rightarrow> call_facts option" where
  "evaluate_call render kind ms dynamic reserve m =
     Option.bind (serialized_size render ms) (\<lambda>(chars, bytes).
     Option.bind (safe_add (chars # map fst dynamic)) (\<lambda>payload_chars.
     Option.bind (safe_add (bytes # map snd dynamic)) (\<lambda>payload_bytes.
     let base = max (ceil_div payload_chars 4) (ceil_div payload_bytes 3) in
     Option.bind (ceil_ratio base (basis_points + headroom_bps) basis_points) (\<lambda>scaled.
     Option.bind (safe_add [scaled, fixed_input_tokens]) (\<lambda>inp.
     Option.bind (floor_ratio reserve (if kind = Rk_history then 8 else 5) 10) (\<lambda>reserved.
     let out = (if pm_max_tokens m > 0 then min reserved (pm_max_tokens m) else reserved) in
     Option.bind (ceil_ratio (pm_window m) safety_bps basis_points) (\<lambda>safety.
     Option.bind (safe_add [inp, out, safety]) (\<lambda>envelope.
       Some \<lparr>cf_kind = kind, cf_chars = chars, cf_bytes = bytes, cf_base = base, cf_input = inp, cf_output = out,
             cf_safety = safety, cf_envelope = envelope\<rparr>))))))))"

subsection \<open>The evaluation\<close>

text \<open>An optional text: absent, or a string.\<close>

definition as_optional_text :: "jv \<Rightarrow> string option option" where
  "as_optional_text v = (if v = JUndef then Some None else map_option Some (as_string v))"

record preflight_input =
  pf_history :: "jv list"
  pf_prefix :: "jv list"
  pf_split :: bool
  pf_reserve :: int
  pf_summary :: "string option"
  pf_custom :: "string option"
  pf_model :: preflight_model

definition read_model :: "jv \<Rightarrow> preflight_model option" where
  "read_model v =
     (case as_record v of None \<Rightarrow> None
      | Some f \<Rightarrow> (case (as_safe_int (get_prop f ''contextWindow''), as_safe_int (get_prop f ''maxTokens'')) of
            (Some w, Some t) \<Rightarrow> if w > 0 then Some \<lparr>pm_window = w, pm_max_tokens = t\<rparr> else None
          | _ \<Rightarrow> None))"

text \<open>The runtime checks on the preparation, the model and the instructions.\<close>

definition read_preflight :: "jv \<Rightarrow> jv \<Rightarrow> jv \<Rightarrow> preflight_input option" where
  "read_preflight preparation model custom =
     (case as_record preparation of None \<Rightarrow> None
      | Some p \<Rightarrow>
          (case (read_model model, as_array (get_prop p ''messagesToSummarize''), as_array (get_prop p ''turnPrefixMessages''),
                 as_bool (get_prop p ''isSplitTurn''), as_record (get_prop p ''settings''),
                 as_optional_text (get_prop p ''previousSummary''), as_optional_text custom) of
             (Some m, Some h, Some t, Some b, Some st, Some prev, Some c) \<Rightarrow>
               (case as_safe_int (get_prop st ''reserveTokens'') of None \<Rightarrow> None
                | Some r \<Rightarrow> if r < 0 then None
                    else Some \<lparr>pf_history = h, pf_prefix = t, pf_split = b, pf_reserve = r, pf_summary = prev,
                            pf_custom = c, pf_model = m\<rparr>)
           | _ \<Rightarrow> None))"

definition planned_calls :: "(jv \<Rightarrow> string option) \<Rightarrow> preflight_input \<Rightarrow> call_facts option list" where
  "planned_calls render q =
     (if \<not> pf_split q \<or> pf_history q \<noteq> []
      then [evaluate_call render Rk_history (pf_history q) [string_size (pf_summary q), string_size (pf_custom q)]
              (pf_reserve q) (pf_model q)] else [])
     @ (if pf_split q \<and> pf_prefix q \<noteq> []
        then [evaluate_call render Rk_turn_prefix (pf_prefix q) [] (pf_reserve q) (pf_model q)] else [])"

fun worst_call :: "call_facts \<Rightarrow> call_facts list \<Rightarrow> call_facts" where
  "worst_call w [] = w"
| "worst_call w (c # cs) = worst_call (if cf_envelope c > cf_envelope w then c else w) cs"

definition verdict_of :: "int \<Rightarrow> call_facts list \<Rightarrow> (preflight_verdict \<times> preflight_reason) option" where
  "verdict_of window calls =
     (if \<exists>c\<in>set calls. cf_envelope c \<ge> window then Some (Pv_block, Request_too_large)
      else case ceil_ratio window warn_bps basis_points of None \<Rightarrow> None
        | Some t \<Rightarrow> Some (if \<exists>c\<in>set calls. cf_envelope c \<ge> t then (Pv_warn, Near_capacity) else (Pv_allow, Within_budget)))"

fun gather :: "'a option list \<Rightarrow> 'a list option" where
  "gather [] = Some []"
| "gather (None # xs) = None"
| "gather (Some x # xs) = map_option (\<lambda>ys. x # ys) (gather xs)"

text \<open>
  A model that is \<open>null\<close> raises when its fields are read, after the preparation was looked at; every
  raise ends in the same catch.
\<close>

definition evaluate_preflight :: "(jv \<Rightarrow> string option) \<Rightarrow> jv \<Rightarrow> jv \<Rightarrow> jv \<Rightarrow> preflight_result" where
  "evaluate_preflight render preparation model custom =
     (if is_js_object preparation \<and> model = JNull then unknown_result Estimation_failed
      else case read_preflight preparation model custom of None \<Rightarrow> unknown_result Invalid_input
      | Some q \<Rightarrow>
          (case gather (planned_calls render q) of
             None \<Rightarrow> unknown_result Estimation_failed
           | Some [] \<Rightarrow> unknown_result Invalid_input
           | Some (c # cs) \<Rightarrow>
               (case verdict_of (pm_window (pf_model q)) (c # cs) of
                  None \<Rightarrow> unknown_result Estimation_failed
                | Some (v, r) \<Rightarrow>
                    \<lparr>pr_verdict = v, pr_reason = r, pr_worst = Some (cf_kind (worst_call c cs)),
                     pr_window = pm_window (pf_model q), pr_worst_tokens = cf_envelope (worst_call c cs), pr_calls = c # cs\<rparr>)))"

subsection \<open>The arithmetic is exact\<close>

lemma add_from_Some: "0 \<le> t \<Longrightarrow> t \<le> max_safe_integer \<Longrightarrow>
    add_from t vs = (if (\<forall>v\<in>set vs. 0 \<le> v) \<and> t + sum_list vs \<le> max_safe_integer then Some (t + sum_list vs) else None)"
proof (induction vs arbitrary: t)
  case (Cons v vs)
  have pos: "(\<forall>x\<in>set vs. 0 \<le> x) \<Longrightarrow> 0 \<le> sum_list vs" by (rule sum_list_nonneg) blast
  show ?case
  proof (cases "0 \<le> v \<and> t + v \<le> max_safe_integer")
    case True
    with Cons.IH[of "t + v"] Cons.prems show ?thesis by (auto simp: add.assoc)
  next
    case False
    with Cons.prems pos show ?thesis by (cases "\<forall>x\<in>set vs. 0 \<le> x") (auto simp: not_le)
  qed
qed simp

lemma safe_add_sum: "safe_add vs = (if (\<forall>v\<in>set vs. 0 \<le> v) \<and> sum_list vs \<le> max_safe_integer then Some (sum_list vs) else None)"
  unfolding safe_add_def by (subst add_from_Some) (simp_all add: max_safe_integer_def)

lemma ratio_split:
  fixes v n d :: int
  assumes "0 < d"
  shows "v * n div d = v div d * n + v mod d * n div d"
proof -
  have "v * n = v mod d * n + v div d * n * d"
    using div_mult_mod_eq[of v d] by (metis add.commute distrib_right mult.assoc mult.commute)
  then show ?thesis using assms div_mult_self1[of d "v mod d * n" "v div d * n"] by simp
qed

lemma floor_ratio_exact:
  assumes "0 \<le> v" "0 \<le> n" "0 < d"
  shows "floor_ratio v n d = (if v * n div d \<le> max_safe_integer then Some (v * n div d) else None)"
proof -
  have "0 \<le> v div d" "0 \<le> v mod d" using assms by (simp_all only: pos_imp_zdiv_nonneg_iff pos_mod_sign)
  then have "0 \<le> v div d * n" "0 \<le> v mod d * n div d" using assms
    by (simp_all only: mult_nonneg_nonneg pos_imp_zdiv_nonneg_iff)
  then show ?thesis unfolding ratio_split[OF assms(3), of v n] by (simp add: floor_ratio_def safe_add_sum)
qed

lemma ceil_ratio_exact:
  assumes "0 \<le> v" "0 \<le> n" "0 < d"
  shows "ceil_ratio v n d = (if ceil_div (v * n) d \<le> max_safe_integer then Some (ceil_div (v * n) d) else None)"
proof -
  have split: "ceil_div (v * n) d = v div d * n + ceil_div (v mod d * n) d"
    using ratio_split[OF assms(3), of v "- n"] by (simp add: ceil_div_def)
  have "0 \<le> v div d" "0 \<le> v mod d" using assms by (simp_all only: pos_imp_zdiv_nonneg_iff pos_mod_sign)
  then have "0 \<le> v mod d * n" and q: "0 \<le> v div d * n" using assms by (simp_all only: mult_nonneg_nonneg)
  then have "0 \<le> ceil_div (v mod d * n) d"
    using assms(3) div_nonpos_pos_le0[of "- (v mod d * n)" d] by (simp add: ceil_div_def)
  with q show ?thesis unfolding split by (simp add: ceil_ratio_def safe_add_sum)
qed

lemma ceil_div_bounds: "0 < d \<Longrightarrow> a \<le> ceil_div a d * d" "0 < d \<Longrightarrow> e < ceil_div a d \<longleftrightarrow> e * d < a"
proof -
  assume d: "0 < d"
  have "- a div d * d \<le> - a" using d by (metis add_le_same_cancel1 div_mult_mod_eq le_add_same_cancel1 pos_mod_sign)
  then show "a \<le> ceil_div a d * d" by (simp add: ceil_div_def)
  have "- e \<le> - a div d \<longleftrightarrow> - e * d \<le> - a"
  proof
    assume "- e \<le> - a div d"
    from mult_right_mono[OF this, of d] have "- e * d \<le> - a div d * d" using d by simp
    with \<open>- a div d * d \<le> - a\<close> show "- e * d \<le> - a" by simp
  next
    assume "- e * d \<le> - a"
    moreover have "- e * d div d = - e" using d by (simp only: nonzero_mult_div_cancel_right)
    ultimately show "- e \<le> - a div d" using zdiv_mono1[OF _ d] by metis
  qed
  then show "e < ceil_div a d \<longleftrightarrow> e * d < a" by (auto simp: ceil_div_def)
qed

subsection \<open>Sizes agree with the whole conversation\<close>

text \<open>The whole-array text of the host: the non-empty texts joined by an empty line.\<close>

definition blank_line :: string where "blank_line = [CHR 0x0A, CHR 0x0A]"

definition conversation :: "(jv \<Rightarrow> string option) \<Rightarrow> jv list \<Rightarrow> string" where
  "conversation render ms = join_with blank_line (filter (\<lambda>s. s \<noteq> []) (List.map_filter render ms))"

lemma join_cons: "join_with s (x # xs) = x @ (if xs = [] then [] else s @ join_with s xs)"
  by (cases xs) simp_all

lemma safe_add_Some: "safe_add vs = Some t \<longleftrightarrow> (\<forall>v\<in>set vs. 0 \<le> v) \<and> sum_list vs \<le> max_safe_integer \<and> t = sum_list vs"
  by (auto simp: safe_add_sum)

lemma byte_length_append: "byte_length (s @ t) = byte_length s + byte_length t"
  by (simp add: byte_length_def utf8_def)

lemma byte_length_blank: "byte_length blank_line = 2" "length blank_line = 2" "byte_length [] = 0"
  by (simp_all add: byte_length_def utf8_def blank_line_def utf8_char_def)

lemma size_from_sum:
  "size_from render ms emitted (c, b) = Some (c', b') \<Longrightarrow>
     (let ts = filter (\<lambda>s. s \<noteq> []) (List.map_filter render ms); lead = (if emitted > 0 \<and> ts \<noteq> [] then 2 else 0)
      in c' = c + lead + int (length (join_with blank_line ts)) \<and> b' = b + lead + int (byte_length (join_with blank_line ts)))"
proof (induction ms arbitrary: emitted c b)
  case Nil then show ?case by (simp add: List.map_filter_def byte_length_blank)
next
  case (Cons m ms)
  obtain s where s: "render m = Some s" using Cons.prems by (auto split: option.splits)
  show ?case
  proof (cases "s = []")
    case True
    then show ?thesis using Cons.IH[of emitted c b] Cons.prems s by (simp add: List.map_filter_def)
  next
    case False
    let ?sep = "if emitted > 0 then [2] else [] :: int list"
    obtain c1 b1 where *: "safe_add (c # ?sep @ [int (length s)]) = Some c1" "safe_add (b # ?sep @ [int (byte_length s)]) = Some b1"
        "size_from render ms (emitted + 1) (c1, b1) = Some (c', b')"
      using Cons.prems s False by (auto simp: Let_def split: option.splits)
    from Cons.IH[OF *(3)] *(1,2) s False show ?thesis
      by (auto simp: List.map_filter_def join_cons safe_add_Some byte_length_append byte_length_blank Let_def)
  qed
qed

lemma serialized_size_conversation:
  "serialized_size render ms = Some (c, b) \<Longrightarrow>
     c = int (length (conversation render ms)) \<and> b = int (byte_length (conversation render ms))"
  using size_from_sum[of render ms 0 0 0 c b] by (simp add: serialized_size_def conversation_def Let_def)

subsection \<open>What an allowed compaction guarantees\<close>

lemma call_bounds:
  assumes "evaluate_call render kind ms dynamic reserve m = Some f" "\<forall>d\<in>set dynamic. 0 \<le> fst d \<and> 0 \<le> snd d"
    and "0 \<le> reserve" "0 < pm_window m"
  shows "cf_kind f = kind \<and> cf_chars f = int (length (conversation render ms)) \<and> cf_bytes f = int (byte_length (conversation render ms))
    \<and> cf_chars f + sum_list (map fst dynamic) \<le> 4 * cf_base f \<and> cf_bytes f + sum_list (map snd dynamic) \<le> 3 * cf_base f
    \<and> 10500 * cf_base f \<le> 10000 * (cf_input f - 2048)
    \<and> cf_output f = (let share = reserve * (if kind = Rk_history then 8 else 5) div 10
         in if pm_max_tokens m > 0 then min share (pm_max_tokens m) else share)
    \<and> pm_window m \<le> 20 * cf_safety f \<and> cf_envelope f = cf_input f + cf_output f + cf_safety f"
proof -
  obtain chars bytes pc pb scaled inp reserved safety envelope where
    size: "serialized_size render ms = Some (chars, bytes)"
    and pc: "safe_add (chars # map fst dynamic) = Some pc" and pb: "safe_add (bytes # map snd dynamic) = Some pb"
    and scaled: "ceil_ratio (max (ceil_div pc 4) (ceil_div pb 3)) 10500 10000 = Some scaled"
    and inp: "safe_add [scaled, 2048] = Some inp"
    and reserved: "floor_ratio reserve (if kind = Rk_history then 8 else 5) 10 = Some reserved"
    and safety: "ceil_ratio (pm_window m) 500 10000 = Some safety"
    and env: "safe_add [inp, if pm_max_tokens m > 0 then min reserved (pm_max_tokens m) else reserved, safety] = Some envelope"
    and f: "f = \<lparr>cf_kind = kind, cf_chars = chars, cf_bytes = bytes, cf_base = max (ceil_div pc 4) (ceil_div pb 3), cf_input = inp,
       cf_output = (if pm_max_tokens m > 0 then min reserved (pm_max_tokens m) else reserved), cf_safety = safety,
       cf_envelope = envelope\<rparr>"
    using assms(1) unfolding evaluate_call_def Let_def basis_points_def headroom_bps_def safety_bps_def fixed_input_tokens_def
    by (auto simp: bind_eq_Some_conv split: prod.splits)
  have said: "chars = int (length (conversation render ms))" "bytes = int (byte_length (conversation render ms))"
    using serialized_size_conversation[OF size] by simp_all
  have "0 \<le> sum_list (map fst dynamic)" "0 \<le> sum_list (map snd dynamic)"
    using assms(2) by (auto intro!: sum_list_nonneg)
  then have p: "chars \<le> pc" "bytes \<le> pb" "chars + sum_list (map fst dynamic) = pc" "bytes + sum_list (map snd dynamic) = pb"
    using pc pb by (auto simp: safe_add_Some)
  have base: "pc \<le> ceil_div pc 4 * 4" "pb \<le> ceil_div pb 3 * 3" by (simp_all add: ceil_div_bounds(1))
  then have covered: "pc \<le> 4 * max (ceil_div pc 4) (ceil_div pb 3)" "pb \<le> 3 * max (ceil_div pc 4) (ceil_div pb 3)" by linarith+
  have "0 \<le> max (ceil_div pc 4) (ceil_div pb 3)" using p said base by linarith
  with scaled have "scaled = ceil_div (max (ceil_div pc 4) (ceil_div pb 3) * 10500) 10000"
    by (simp add: ceil_ratio_exact split: if_splits)
  then have "10500 * max (ceil_div pc 4) (ceil_div pb 3) \<le> 10000 * scaled"
    using ceil_div_bounds(1)[of 10000 "max (ceil_div pc 4) (ceil_div pb 3) * 10500"] by (simp only: mult.commute)
  moreover have "reserved = reserve * (if kind = Rk_history then 8 else 5) div 10"
    using reserved assms(3) by (simp add: floor_ratio_exact split: if_splits)
  moreover have "pm_window m \<le> 20 * safety"
  proof -
    have "safety = ceil_div (pm_window m * 500) 10000" using safety assms(4) by (simp add: ceil_ratio_exact split: if_splits)
    then show ?thesis using ceil_div_bounds(1)[of 10000 "pm_window m * 500"] by simp
  qed
  ultimately show ?thesis using p covered inp env said by (simp add: f safe_add_Some Let_def)
qed

lemma gather_Some: "gather xs = Some ys \<longleftrightarrow> xs = map Some ys"
  by (induction xs arbitrary: ys rule: gather.induct) auto

lemma worst_call_max: "\<forall>c\<in>set (w # cs). cf_envelope c \<le> cf_envelope (worst_call w cs)"
proof (induction cs arbitrary: w)
  case (Cons c cs)
  from Cons.IH[of c] Cons.IH[of w] show ?case by auto
qed simp

lemma string_size_nonneg: "0 \<le> fst (string_size v)" "0 \<le> snd (string_size v)"
  by (cases v; simp add: string_size_def)+

lemma read_preflight_bounds: "read_preflight p m c = Some q \<Longrightarrow> 0 \<le> pf_reserve q \<and> 0 < pm_window (pf_model q)"
  by (auto simp: read_preflight_def read_model_def split: option.splits if_splits)

lemma as_optional_text_Some: "as_optional_text v = Some x \<longleftrightarrow> v = JUndef \<and> x = None \<or> (\<exists>s. v = JStr s \<and> x = Some s)"
  by (cases v) (auto simp: as_optional_text_def)

lemma read_preflight_fields:
  assumes "read_preflight p m c = Some q"
  shows "\<exists>f. p = JObj f \<and> get_prop f ''messagesToSummarize'' = JArr (pf_history q) \<and> get_prop f ''turnPrefixMessages'' = JArr (pf_prefix q)
    \<and> as_optional_text (get_prop f ''previousSummary'') = Some (pf_summary q)" "as_optional_text c = Some (pf_custom q)"
proof -
  have arr: "as_array v = Some xs \<Longrightarrow> v = JArr xs" for v xs by (cases v) auto
  have rec: "as_record v = Some g \<Longrightarrow> v = JObj g" for v g by (cases v) auto
  show "as_optional_text c = Some (pf_custom q)"
    using assms by (auto simp: read_preflight_def split: option.splits if_splits)
  show "\<exists>f. p = JObj f \<and> get_prop f ''messagesToSummarize'' = JArr (pf_history q) \<and> get_prop f ''turnPrefixMessages'' = JArr (pf_prefix q)
    \<and> as_optional_text (get_prop f ''previousSummary'') = Some (pf_summary q)"
    using assms by (auto simp: read_preflight_def dest!: arr rec split: option.splits if_splits)
qed

text \<open>The messages of a request and the texts the host appends to them: the previous summary and the
  caller's instructions go with the history, nothing with a turn prefix.\<close>

definition sent_messages :: "preflight_input \<Rightarrow> request_kind \<Rightarrow> jv list" where
  "sent_messages q k = (if k = Rk_history then pf_history q else pf_prefix q)"

definition appended :: "preflight_input \<Rightarrow> request_kind \<Rightarrow> string" where
  "appended q k = (if k = Rk_history
     then (case pf_summary q of None \<Rightarrow> [] | Some s \<Rightarrow> s) @ (case pf_custom q of None \<Rightarrow> [] | Some s \<Rightarrow> s) else [])"

lemma appended_size:
  "sum_list (map fst [string_size a, string_size b])
     = int (length ((case a of None \<Rightarrow> [] | Some s \<Rightarrow> s) @ (case b of None \<Rightarrow> [] | Some s \<Rightarrow> s)))"
  "sum_list (map snd [string_size a, string_size b])
     = int (byte_length ((case a of None \<Rightarrow> [] | Some s \<Rightarrow> s) @ (case b of None \<Rightarrow> [] | Some s \<Rightarrow> s)))"
  by (cases a; cases b; simp add: string_size_def byte_length_append byte_length_blank)+

definition call_fits :: "(jv \<Rightarrow> string option) \<Rightarrow> preflight_input \<Rightarrow> call_facts \<Rightarrow> bool" where
  "call_fits render q f =
     (let sent = conversation render (sent_messages q (cf_kind f)); more = appended q (cf_kind f);
          share = pf_reserve q * (if cf_kind f = Rk_history then 8 else 5) div 10
      in cf_chars f = int (length sent) \<and> cf_bytes f = int (byte_length sent)
         \<and> int (length sent + length more) \<le> 4 * cf_base f \<and> int (byte_length sent + byte_length more) \<le> 3 * cf_base f
         \<and> 10500 * cf_base f \<le> 10000 * (cf_input f - 2048)
         \<and> cf_output f = (if pm_max_tokens (pf_model q) > 0 then min share (pm_max_tokens (pf_model q)) else share)
         \<and> pm_window (pf_model q) \<le> 20 * cf_safety f
         \<and> cf_input f + cf_output f + cf_safety f = cf_envelope f)"

lemma planned_call_fits:
  assumes "Some g \<in> set (planned_calls render q)" "0 \<le> pf_reserve q" "0 < pm_window (pf_model q)"
  shows "call_fits render q g"
proof -
  have "evaluate_call render Rk_history (pf_history q) [string_size (pf_summary q), string_size (pf_custom q)]
          (pf_reserve q) (pf_model q) = Some g
      \<or> evaluate_call render Rk_turn_prefix (pf_prefix q) [] (pf_reserve q) (pf_model q) = Some g"
    using assms(1) by (auto simp: planned_calls_def split: if_splits)
  then show ?thesis
  proof (elim disjE)
    assume e: "evaluate_call render Rk_history (pf_history q) [string_size (pf_summary q), string_size (pf_custom q)]
        (pf_reserve q) (pf_model q) = Some g"
    have d: "\<forall>d\<in>set [string_size (pf_summary q), string_size (pf_custom q)]. 0 \<le> fst d \<and> 0 \<le> snd d"
      by (simp add: string_size_nonneg)
    note k = call_bounds[OF e d assms(2,3), unfolded appended_size]
    then have "cf_kind g = Rk_history" by blast
    then show ?thesis using k by (simp add: call_fits_def sent_messages_def appended_def Let_def)
  next
    assume e: "evaluate_call render Rk_turn_prefix (pf_prefix q) [] (pf_reserve q) (pf_model q) = Some g"
    have d: "\<forall>d\<in>set []. 0 \<le> fst d \<and> (0 :: int) \<le> (snd d :: int)" by simp
    note k = call_bounds[OF e d assms(2,3)]
    then have "cf_kind g = Rk_turn_prefix" by blast
    then show ?thesis using k by (simp add: call_fits_def sent_messages_def appended_def byte_length_blank Let_def)
  qed
qed

lemma planned_kinds:
  assumes "planned_calls render q = map Some fs" "0 \<le> pf_reserve q" "0 < pm_window (pf_model q)"
  shows "map cf_kind fs = (if \<not> pf_split q \<or> pf_history q \<noteq> [] then [Rk_history] else [])
    @ (if pf_split q \<and> pf_prefix q \<noteq> [] then [Rk_turn_prefix] else [])"
proof -
  have d: "\<forall>d\<in>set [string_size (pf_summary q), string_size (pf_custom q)]. 0 \<le> fst d \<and> 0 \<le> snd d"
    by (simp add: string_size_nonneg)
  have h: "evaluate_call render Rk_history (pf_history q) [string_size (pf_summary q), string_size (pf_custom q)]
      (pf_reserve q) (pf_model q) = Some f \<Longrightarrow> cf_kind f = Rk_history" for f
    using call_bounds[OF _ d assms(2,3)] by blast
  have t: "evaluate_call render Rk_turn_prefix (pf_prefix q) [] (pf_reserve q) (pf_model q) = Some f \<Longrightarrow> cf_kind f = Rk_turn_prefix" for f
    using call_bounds[OF _ _ assms(2,3), of render Rk_turn_prefix "pf_prefix q" "[]"] by simp
  have "map (map_option cf_kind) (planned_calls render q) = map Some (map cf_kind fs)"
    using assms(1) by (simp add: comp_def)
  moreover have "\<forall>x\<in>set (planned_calls render q). x \<noteq> None" using assms(1) by auto
  ultimately have "map Some (map cf_kind fs) = map Some ((if \<not> pf_split q \<or> pf_history q \<noteq> [] then [Rk_history] else [])
    @ (if pf_split q \<and> pf_prefix q \<noteq> [] then [Rk_turn_prefix] else []))"
    unfolding planned_calls_def using h t by (auto split: if_splits)
  then show ?thesis by (rule injD[OF inj_mapI[OF inj_Some]])
qed

text \<open>C24: A compaction that the preflight lets through fits the context window. The requests are the ones the
  host makes (the history unless a split turn has none, and the prefix of a split turn). Each is measured on what
  the host sends: its conversation is the non-empty messages joined by an empty line, and the previous summary and
  the caller's instructions count with the history. The token estimate covers a quarter of all these characters and
  a third of their bytes with five percent headroom and the fixed input; the output reservation is eight tenths of
  the reserve for the history and half of it for a prefix, cut only by a positive output limit of the model; at
  least five percent of the window are added as safety; the envelope is the sum of these and strictly inside the
  window; and the verdict is \<open>allow\<close> exactly when every envelope is below nine tenths of it.\<close>

theorem compaction_fits:
  assumes "evaluate_preflight render p m c = r" "pr_verdict r \<in> {Pv_allow, Pv_warn}"
  shows "\<exists>q. read_preflight p m c = Some q
    \<and> (\<exists>f. p = JObj f \<and> get_prop f ''messagesToSummarize'' = JArr (pf_history q) \<and> get_prop f ''turnPrefixMessages'' = JArr (pf_prefix q)
         \<and> (get_prop f ''previousSummary'' = JUndef \<and> pf_summary q = None \<or> (\<exists>s. get_prop f ''previousSummary'' = JStr s \<and> pf_summary q = Some s)))
    \<and> (c = JUndef \<and> pf_custom q = None \<or> (\<exists>s. c = JStr s \<and> pf_custom q = Some s))
    \<and> pr_calls r \<noteq> []
    \<and> map cf_kind (pr_calls r) = (if \<not> pf_split q \<or> pf_history q \<noteq> [] then [Rk_history] else [])
         @ (if pf_split q \<and> pf_prefix q \<noteq> [] then [Rk_turn_prefix] else [])
    \<and> (pr_verdict r = Pv_allow \<longleftrightarrow> (\<forall>f\<in>set (pr_calls r). 10 * cf_envelope f < 9 * pm_window (pf_model q)))
    \<and> (\<forall>f\<in>set (pr_calls r).
         let sent = conversation render (sent_messages q (cf_kind f)); more = appended q (cf_kind f);
             share = pf_reserve q * (if cf_kind f = Rk_history then 8 else 5) div 10
         in cf_chars f = int (length sent) \<and> cf_bytes f = int (byte_length sent)
            \<and> int (length sent + length more) \<le> 4 * cf_base f \<and> int (byte_length sent + byte_length more) \<le> 3 * cf_base f
            \<and> 10500 * cf_base f \<le> 10000 * (cf_input f - 2048)
            \<and> cf_output f = (if pm_max_tokens (pf_model q) > 0 then min share (pm_max_tokens (pf_model q)) else share)
            \<and> pm_window (pf_model q) \<le> 20 * cf_safety f
            \<and> cf_input f + cf_output f + cf_safety f = cf_envelope f
            \<and> cf_envelope f < pm_window (pf_model q) \<and> cf_envelope f \<le> pr_worst_tokens r)"
proof -
  obtain q f fs v why where q: "read_preflight p m c = Some q" and plan: "planned_calls render q = map Some (f # fs)"
    and v: "verdict_of (pm_window (pf_model q)) (f # fs) = Some (v, why)"
    and r: "pr_calls r = f # fs" "pr_verdict r = v" "pr_worst_tokens r = cf_envelope (worst_call f fs)"
    using assms by (auto simp: evaluate_preflight_def unknown_result_def gather_Some split: if_splits option.splits list.splits)
  note b = read_preflight_bounds[OF q]
  have warn: "ceil_ratio (pm_window (pf_model q)) warn_bps basis_points = Some t \<Longrightarrow> t = ceil_div (pm_window (pf_model q) * 9000) 10000" for t
    using b by (simp add: warn_bps_def basis_points_def ceil_ratio_exact split: if_splits)
  have below: "e < ceil_div (pm_window (pf_model q) * 9000) 10000 \<longleftrightarrow> 10 * e < 9 * pm_window (pf_model q)" for e
    by (subst ceil_div_bounds(2)) auto
  have fit: "\<forall>g\<in>set (f # fs). cf_envelope g < pm_window (pf_model q)"
    "v = Pv_allow \<longleftrightarrow> (\<forall>g\<in>set (f # fs). 10 * cf_envelope g < 9 * pm_window (pf_model q))"
    using v assms(2) r(2) warn unfolding below[symmetric] by (auto simp: verdict_of_def not_le not_less split: if_splits option.splits)
  have each: "call_fits render q g \<and> cf_envelope g < pm_window (pf_model q) \<and> cf_envelope g \<le> pr_worst_tokens r"
    if g: "g \<in> set (pr_calls r)" for g
  proof -
    have "Some g \<in> set (planned_calls render q)" using g plan r(1) by auto
    then show ?thesis
      using planned_call_fits[of g render q] b fit(1) worst_call_max[of f fs] g r by auto
  qed
  note fields = read_preflight_fields[OF q, unfolded as_optional_text_Some]
  show ?thesis
  proof (intro exI[of _ q] conjI ballI)
    fix g assume g: "g \<in> set (pr_calls r)"
    from each[OF g] show "let sent = conversation render (sent_messages q (cf_kind g)); more = appended q (cf_kind g);
             share = pf_reserve q * (if cf_kind g = Rk_history then 8 else 5) div 10
         in cf_chars g = int (length sent) \<and> cf_bytes g = int (byte_length sent)
            \<and> int (length sent + length more) \<le> 4 * cf_base g \<and> int (byte_length sent + byte_length more) \<le> 3 * cf_base g
            \<and> 10500 * cf_base g \<le> 10000 * (cf_input g - 2048)
            \<and> cf_output g = (if pm_max_tokens (pf_model q) > 0 then min share (pm_max_tokens (pf_model q)) else share)
            \<and> pm_window (pf_model q) \<le> 20 * cf_safety g
            \<and> cf_input g + cf_output g + cf_safety g = cf_envelope g
            \<and> cf_envelope g < pm_window (pf_model q) \<and> cf_envelope g \<le> pr_worst_tokens r"
      unfolding call_fits_def Let_def by (elim conjE, intro conjI)
  next
    show "map cf_kind (pr_calls r) = (if \<not> pf_split q \<or> pf_history q \<noteq> [] then [Rk_history] else [])
         @ (if pf_split q \<and> pf_prefix q \<noteq> [] then [Rk_turn_prefix] else [])"
      using planned_kinds[OF plan] b r(1) by simp
  qed (use q r fit(2) fields in simp_all)
qed

text \<open>A window of 200000 tokens and one short message.\<close>

definition host_render :: "jv \<Rightarrow> string option" where
  "host_render v = as_string v"

definition preparation_1 :: jv where
  "preparation_1 = JObj [(''messagesToSummarize'', JArr [JStr ''[User]: hello'']), (''turnPrefixMessages'', JArr []),
     (''isSplitTurn'', JBool False), (''settings'', JObj [(''reserveTokens'', JNum (JInt 16384))])]"

definition model_1 :: jv where
  "model_1 = JObj [(''contextWindow'', JNum (JInt 200000)), (''maxTokens'', JNum (JInt 32000))]"

theorem compaction_fits_witness:
  "\<exists>f. pr_calls (evaluate_preflight host_render preparation_1 model_1 JUndef) = [f] \<and> cf_chars f = 13
     \<and> 10 * cf_envelope f < 9 * 200000"
proof -
  let ?r = "evaluate_preflight host_render preparation_1 model_1 JUndef"
  have v: "pr_verdict ?r = Pv_allow" and one: "length (pr_calls ?r) = 1" by code_simp+
  have q: "read_preflight preparation_1 model_1 JUndef = Some \<lparr>pf_history = [JStr ''[User]: hello''], pf_prefix = [],
      pf_split = False, pf_reserve = 16384, pf_summary = None, pf_custom = None,
      pf_model = \<lparr>pm_window = 200000, pm_max_tokens = 32000\<rparr>\<rparr>" by code_simp
  obtain f where f: "pr_calls ?r = [f]" using one by (auto simp: length_Suc_conv)
  have kind: "cf_kind f = Rk_history"
  proof -
    have "map cf_kind (pr_calls ?r) = [Rk_history]" by code_simp
    with f show ?thesis by simp
  qed
  have said: "length (conversation host_render [JStr ''[User]: hello'']) = 13" by code_simp
  have "pr_verdict ?r \<in> {Pv_allow, Pv_warn}" using v by simp
  from compaction_fits[OF refl this] v q f kind said show ?thesis
    by (auto simp: Let_def sent_messages_def)
qed

end
