(* ===== verification/Continuation_Cursor.thy ===== *)
theory Continuation_Cursor
  imports Canonical_Hash
begin

section \<open>Continuation cursors (core/continuation-cursor.ts)\<close>

text \<open>
  A bounded read hands the model a cursor: a versioned payload as JSON, in base64url, sealed with a
  truncated SHA-256. Decoding is strict; a decoded cursor is then compared with the source it names and
  with the snapshot of the file at that time.
\<close>

datatype file_kind = Fk_read | Fk_gate

primrec file_kind_text :: "file_kind \<Rightarrow> string" where
  "file_kind_text Fk_read = ''read''"
| "file_kind_text Fk_gate = ''gate-read''"

definition file_kinds :: "file_kind list" where
  "file_kinds = [Fk_read, Fk_gate]"

interpretation file_kind_wire: wire_enum file_kinds file_kind_text
proof
  show "e \<in> set file_kinds" for e by (cases e) (simp_all add: file_kinds_def)
  show "distinct (map file_kind_text file_kinds)" by (simp add: file_kinds_def)
qed

datatype cursor_error = Invalid_cursor | Stale_cursor | Source_mismatch | Source_changed

text \<open>
  A snapshot of a file; \<open>dev\<close> and \<open>ino\<close> occur together, and the nanoseconds are a canonical decimal.
\<close>

record file_snapshot =
  sn_size :: int
  sn_mtime :: int
  sn_ns :: "string option"
  sn_device :: "(int \<times> int) option"

record file_payload =
  fp_kind :: file_kind
  fp_source :: string
  fp_offset :: int
  fp_line :: int
  fp_snapshot :: file_snapshot

record run_payload =
  rp_source :: string
  rp_state :: string
  rp_stdout :: int
  rp_stderr :: int

text \<open>A file payload is of version two exactly when its snapshot has nanoseconds.\<close>

datatype cursor_payload = File_cursor file_payload | Run_cursor run_payload

subsection \<open>Readers\<close>

definition has_exact_keys :: "fields \<Rightarrow> string list \<Rightarrow> bool" where
  "has_exact_keys f expected = (own_keys f = expected)"

definition non_negative :: "jv \<Rightarrow> int option" where
  "non_negative v = (case as_safe_int v of None \<Rightarrow> None | Some i \<Rightarrow> if 0 \<le> i then Some i else None)"

definition positive :: "jv \<Rightarrow> int option" where
  "positive v = (case as_safe_int v of None \<Rightarrow> None | Some i \<Rightarrow> if 1 \<le> i then Some i else None)"

definition source_id :: "jv \<Rightarrow> string option" where
  "source_id v = (case as_string v of None \<Rightarrow> None | Some s \<Rightarrow> if hash_re s then Some s else None)"

text \<open>\<open>/^(?:0|[1-9][0-9]{0,31})$/\<close>\<close>

definition nanoseconds_re :: "string \<Rightarrow> bool" where
  "nanoseconds_re s = (s = ''0'' \<or> s \<noteq> [] \<and> length s \<le> 32 \<and> list_all is_digit s \<and> hd s \<noteq> CHR ''0'')"

definition nanoseconds :: "jv \<Rightarrow> string option" where
  "nanoseconds v = (case as_string v of None \<Rightarrow> None | Some s \<Rightarrow> if nanoseconds_re s then Some s else None)"

definition device_fields :: "fields \<Rightarrow> (int \<times> int) option" where
  "device_fields f =
     (case (non_negative (get_prop f ''dev''), non_negative (get_prop f ''ino'')) of
        (Some d, Some i) \<Rightarrow> Some (d, i) | _ \<Rightarrow> None)"

text \<open>The device part: absent when the keys say so, else both numbers.\<close>

definition optional_device :: "bool \<Rightarrow> fields \<Rightarrow> (int \<times> int) option option" where
  "optional_device present f = (if present then map_option Some (device_fields f) else Some None)"

definition file_keys :: "string list" where
  "file_keys = [''v'', ''kind'', ''sourceId'', ''byteOffset'', ''lineNumber'', ''fileSize'', ''mtimeMs'']"

text \<open>\<open>readFilePayload\<close> (version one) and \<open>readFilePayloadV2\<close>, which differ in the nanoseconds.\<close>

definition read_file_fields :: "fields \<Rightarrow> string option \<Rightarrow> bool \<Rightarrow> file_payload option" where
  "read_file_fields f ns device =
     (case (parse_enum file_kinds file_kind_text (get_prop f ''kind''), source_id (get_prop f ''sourceId''),
            non_negative (get_prop f ''byteOffset''), positive (get_prop f ''lineNumber''), non_negative (get_prop f ''fileSize''),
            non_negative (get_prop f ''mtimeMs''), optional_device device f) of
        (Some k, Some s, Some ofs, Some ln, Some total_size, Some mtime, Some dv) \<Rightarrow>
          if ofs > total_size then None
          else Some \<lparr>fp_kind = k, fp_source = s, fp_offset = ofs, fp_line = ln,
                 fp_snapshot = \<lparr>sn_size = total_size, sn_mtime = mtime, sn_ns = ns, sn_device = dv\<rparr>\<rparr>
      | _ \<Rightarrow> None)"

definition read_file_payload :: "fields \<Rightarrow> file_payload option" where
  "read_file_payload f =
     (let device = has_exact_keys f (file_keys @ [''dev'', ''ino''])
      in if \<not> has_exact_keys f file_keys \<and> \<not> device \<or> get_prop f ''v'' \<noteq> JNum (JInt 1) then None
         else read_file_fields f None device)"

definition read_file_payload_v2 :: "fields \<Rightarrow> file_payload option" where
  "read_file_payload_v2 f =
     (let device = has_exact_keys f (file_keys @ [''mtimeNs'', ''dev'', ''ino''])
      in if \<not> has_exact_keys f (file_keys @ [''mtimeNs'']) \<and> \<not> device \<or> get_prop f ''v'' \<noteq> JNum (JInt 2) then None
         else case nanoseconds (get_prop f ''mtimeNs'') of None \<Rightarrow> None
              | Some ns \<Rightarrow> read_file_fields f (Some ns) device)"

definition run_keys :: "string list" where
  "run_keys = [''v'', ''kind'', ''sourceId'', ''sourceStateId'', ''stdoutEndExclusive'', ''stderrEndExclusive'']"

definition read_run_payload :: "fields \<Rightarrow> run_payload option" where
  "read_run_payload f =
     (if \<not> has_exact_keys f run_keys \<or> get_prop f ''v'' \<noteq> JNum (JInt 1) \<or> get_prop f ''kind'' \<noteq> JStr ''run-log'' then None
      else case (source_id (get_prop f ''sourceId''), source_id (get_prop f ''sourceStateId''),
                 non_negative (get_prop f ''stdoutEndExclusive''), non_negative (get_prop f ''stderrEndExclusive'')) of
          (Some s, Some st, Some a, Some b) \<Rightarrow> Some \<lparr>rp_source = s, rp_state = st, rp_stdout = a, rp_stderr = b\<rparr>
        | _ \<Rightarrow> None)"

definition normalize_payload :: "jv \<Rightarrow> cursor_payload option" where
  "normalize_payload v =
     (case as_record v of None \<Rightarrow> None
      | Some f \<Rightarrow>
          if get_prop f ''kind'' = JStr ''run-log'' then map_option Run_cursor (read_run_payload f)
          else map_option File_cursor (if get_prop f ''v'' = JNum (JInt 2) then read_file_payload_v2 f else read_file_payload f))"

subsection \<open>The canonical JSON of a payload\<close>

definition int_value :: "int \<Rightarrow> jv" where "int_value i = JNum (JInt i)"

definition device_value :: "(int \<times> int) option \<Rightarrow> fields" where
  "device_value d = (case d of None \<Rightarrow> [] | Some (a, b) \<Rightarrow> [(''dev'', int_value a), (''ino'', int_value b)])"

definition ns_value :: "string option \<Rightarrow> fields" where
  "ns_value n = (case n of None \<Rightarrow> [] | Some t \<Rightarrow> [(''mtimeNs'', JStr t)])"

definition file_version :: "file_payload \<Rightarrow> int" where
  "file_version p = (if sn_ns (fp_snapshot p) = None then 1 else 2)"

fun payload_value :: "cursor_payload \<Rightarrow> jv" where
  "payload_value (File_cursor p) = JObj
     ([(''v'', int_value (file_version p)), (''kind'', JStr (file_kind_text (fp_kind p))), (''sourceId'', JStr (fp_source p)),
       (''byteOffset'', int_value (fp_offset p)), (''lineNumber'', int_value (fp_line p)),
       (''fileSize'', int_value (sn_size (fp_snapshot p))), (''mtimeMs'', int_value (sn_mtime (fp_snapshot p)))]
      @ ns_value (sn_ns (fp_snapshot p)) @ device_value (sn_device (fp_snapshot p)))"
| "payload_value (Run_cursor r) = JObj
     [(''v'', int_value 1), (''kind'', JStr ''run-log''), (''sourceId'', JStr (rp_source r)), (''sourceStateId'', JStr (rp_state r)),
      (''stdoutEndExclusive'', int_value (rp_stdout r)), (''stderrEndExclusive'', int_value (rp_stderr r))]"

definition payload_json :: "cursor_payload \<Rightarrow> string" where
  "payload_json p = print_value (payload_value p)"

subsection \<open>base64url\<close>

definition b64_char :: "nat \<Rightarrow> char" where
  "b64_char n =
     (if n < 26 then char_of (65 + n) else if n < 52 then char_of (71 + n) else if n < 62 then char_of (n - 4)
      else if n = 62 then CHR ''-'' else CHR ''_'')"

definition b64_value :: "char \<Rightarrow> nat" where
  "b64_value c =
     (if is_upper c then code_of c - 65 else if is_lower c then code_of c - 71 else if is_digit c then code_of c + 4
      else if c = CHR ''-'' then 62 else 63)"

definition is_b64 :: "char \<Rightarrow> bool" where
  "is_b64 c = (is_alnum c \<or> c = CHR ''-'' \<or> c = CHR ''_'')"

fun b64_encode :: "nat list \<Rightarrow> string" where
  "b64_encode [] = []"
| "b64_encode [a] = [b64_char (a div 4), b64_char (a mod 4 * 16)]"
| "b64_encode [a, b] = [b64_char (a div 4), b64_char (a mod 4 * 16 + b div 16), b64_char (b mod 16 * 4)]"
| "b64_encode (a # b # c # r) =
     b64_char (a div 4) # b64_char (a mod 4 * 16 + b div 16) # b64_char (b mod 16 * 4 + c div 64) # b64_char (c mod 64) # b64_encode r"

text \<open>The lenient decoder of \<open>Buffer.from\<close>, on the alphabet: left-over bits are dropped.\<close>

fun b64_decode :: "string \<Rightarrow> nat list" where
  "b64_decode (w # x # y # z # r) =
     (b64_value w * 4 + b64_value x div 16) # (b64_value x mod 16 * 16 + b64_value y div 4)
       # (b64_value y mod 4 * 64 + b64_value z) # b64_decode r"
| "b64_decode [w, x, y] = [b64_value w * 4 + b64_value x div 16, b64_value x mod 16 * 16 + b64_value y div 4]"
| "b64_decode [w, x] = [b64_value w * 4 + b64_value x div 16]"
| "b64_decode _ = []"

subsection \<open>Text of the bytes\<close>

text \<open>
  \<open>new TextDecoder("utf-8", { fatal: true })\<close> drops a leading byte order mark. A text that is not ASCII
  is never the canonical JSON of a payload, so the model refuses it here instead of at the comparison.
\<close>

definition byte_order_mark :: "nat list" where
  "byte_order_mark = [239, 187, 191]"

definition decode_text :: "nat list \<Rightarrow> string option" where
  "decode_text bs =
     (let r = (if take 3 bs = byte_order_mark then drop 3 bs else bs)
      in if list_all (\<lambda>b. b < 128) r then Some (map char_of r) else None)"

text \<open>
  \<open>JSON.parse\<close> on the texts that can be canonical: one object of texts without escapes and of plain
  decimals. Any other text is refused here, where the source refuses it at the comparison.
\<close>

definition plain_char :: "char \<Rightarrow> bool" where
  "plain_char c = (is_alnum c \<or> c = CHR ''-'')"

definition read_quoted :: "string \<Rightarrow> string option" where
  "read_quoted s =
     (if 2 \<le> length s \<and> hd s = CHR 0x22 \<and> last s = CHR 0x22 \<and> list_all plain_char (butlast (tl s)) then Some (butlast (tl s)) else None)"

definition read_decimal :: "string \<Rightarrow> int option" where
  "read_decimal s =
     (if s = ''0'' \<or> s \<noteq> [] \<and> list_all is_digit s \<and> hd s \<noteq> CHR ''0'' then Some (int (decimal_value 0 s)) else None)"

definition read_member :: "string \<Rightarrow> (string \<times> jv) option" where
  "read_member s =
     (case split_on (CHR '':'') s of
        [k, v] \<Rightarrow> (case read_quoted k of None \<Rightarrow> None
          | Some key \<Rightarrow> (case read_quoted v of Some t \<Rightarrow> Some (key, JStr t)
              | None \<Rightarrow> map_option (\<lambda>i. (key, JNum (JInt i))) (read_decimal v)))
      | _ \<Rightarrow> None)"

fun read_members :: "string list \<Rightarrow> fields option" where
  "read_members [] = Some []"
| "read_members (s # ss) =
     (case (read_member s, read_members ss) of (Some m, Some ms) \<Rightarrow> Some (m # ms) | _ \<Rightarrow> None)"

definition json_parse :: "string \<Rightarrow> jv option" where
  "json_parse s =
     (if 2 \<le> length s \<and> hd s = CHR ''{'' \<and> last s = CHR ''}''
      then map_option JObj (read_members (split_on (CHR '','') (butlast (tl s)))) else None)"

subsection \<open>Encoding and decoding\<close>

definition cursor_prefix :: "cursor_payload \<Rightarrow> string" where
  "cursor_prefix p =
     (case p of File_cursor f \<Rightarrow> if file_version f = 2 then ''wbcur2'' else ''wbcur1'' | Run_cursor r \<Rightarrow> ''wbcur1'')"

definition max_cursor_chars :: nat where "max_cursor_chars = 1024"

definition checksum :: "string \<Rightarrow> string" where
  "checksum s = take 16 (sha256_hex s)"

definition seal_cursor :: "string \<Rightarrow> nat list \<Rightarrow> string" where
  "seal_cursor pre bs = (let signed = pre @ ''.'' @ b64_encode bs in signed @ ''.'' @ checksum signed)"

definition encode_cursor :: "jv \<Rightarrow> cursor_error + string" where
  "encode_cursor v =
     (case normalize_payload v of None \<Rightarrow> Inl Invalid_cursor
      | Some p \<Rightarrow>
          let cursor = seal_cursor (cursor_prefix p) (utf8 (payload_json p))
          in if length cursor \<le> max_cursor_chars then Inr cursor else Inl Invalid_cursor)"

definition checksum_re :: "string \<Rightarrow> bool" where
  "checksum_re s = (length s = 16 \<and> list_all is_lower_hex s)"

definition decode_payload :: "string \<Rightarrow> string \<Rightarrow> cursor_payload option" where
  "decode_payload pre segment =
     (let bytes = b64_decode segment in
      if b64_encode bytes \<noteq> segment then None
      else Option.bind (decode_text bytes) (\<lambda>json.
           Option.bind (json_parse json) (\<lambda>parsed.
           Option.bind (normalize_payload parsed) (\<lambda>p.
             if pre \<noteq> cursor_prefix p \<or> payload_json p \<noteq> json then None else Some p))))"

definition decode_cursor :: "jv \<Rightarrow> cursor_error + cursor_payload" where
  "decode_cursor v =
     (case as_string v of None \<Rightarrow> Inl Invalid_cursor
      | Some s \<Rightarrow>
          if s = [] \<or> length s > max_cursor_chars then Inl Invalid_cursor
          else (case split_on (CHR ''.'') s of
              [pre, segment, chk] \<Rightarrow>
                if pre \<noteq> ''wbcur1'' \<and> pre \<noteq> ''wbcur2'' \<or> segment = [] \<or> \<not> list_all is_b64 segment \<or> \<not> checksum_re chk
                   \<or> checksum (pre @ ''.'' @ segment) \<noteq> chk then Inl Invalid_cursor
                else (case decode_payload pre segment of None \<Rightarrow> Inl Invalid_cursor | Some p \<Rightarrow> Inr p)
            | _ \<Rightarrow> Inl Invalid_cursor))"

subsection \<open>Sources\<close>

text \<open>\<open>validSnapshot\<close>, reading the snapshot it accepts.\<close>

definition read_snapshot :: "jv \<Rightarrow> file_snapshot option" where
  "read_snapshot v =
     (case as_record v of None \<Rightarrow> None
      | Some f \<Rightarrow>
          let base = [''fileSize'', ''mtimeMs'']; ns = base @ [''mtimeNs'']; dv = [''dev'', ''ino''];
              v2 = (has_exact_keys f ns \<or> has_exact_keys f (ns @ dv)); device = (has_exact_keys f (base @ dv) \<or> has_exact_keys f (ns @ dv))
          in if \<not> (has_exact_keys f base \<or> device \<or> v2) then None
             else (case (non_negative (get_prop f ''fileSize''), non_negative (get_prop f ''mtimeMs''),
                    if v2 then map_option Some (nanoseconds (get_prop f ''mtimeNs'')) else Some None, optional_device device f) of
                 (Some n, Some m, Some t, Some d) \<Rightarrow> Some \<lparr>sn_size = n, sn_mtime = m, sn_ns = t, sn_device = d\<rparr>
               | _ \<Rightarrow> None))"

definition stat_value :: "file_snapshot \<Rightarrow> jv" where
  "stat_value s = JObj ([(''fileSize'', int_value (sn_size s)), (''mtimeMs'', int_value (sn_mtime s))]
      @ ns_value (sn_ns s) @ device_value (sn_device s))"

definition validate_snapshot :: "jv \<Rightarrow> jv \<Rightarrow> cursor_error + file_snapshot" where
  "validate_snapshot expected current =
     (case (read_snapshot expected, read_snapshot current) of
        (Some e, Some c) \<Rightarrow> if e = c then Inr c else Inl Stale_cursor
      | _ \<Rightarrow> Inl Stale_cursor)"

definition validate_file_source :: "jv \<Rightarrow> file_kind \<Rightarrow> string \<Rightarrow> jv \<Rightarrow> cursor_error + file_payload" where
  "validate_file_source payload kind expected_source current =
     (case normalize_payload payload of
        Some (File_cursor p) \<Rightarrow>
          if fp_kind p \<noteq> kind then Inl Invalid_cursor
          else if \<not> hash_re expected_source \<or> fp_source p \<noteq> expected_source then Inl Source_mismatch
          else (case validate_snapshot (stat_value (fp_snapshot p)) current of Inl e \<Rightarrow> Inl Stale_cursor | Inr s \<Rightarrow> Inr p)
      | _ \<Rightarrow> Inl Invalid_cursor)"

definition validate_run_source :: "jv \<Rightarrow> string \<Rightarrow> string \<Rightarrow> cursor_error + run_payload" where
  "validate_run_source payload expected_source current_state =
     (case normalize_payload payload of
        Some (Run_cursor r) \<Rightarrow>
          if \<not> hash_re expected_source \<or> rp_source r \<noteq> expected_source then Inl Source_mismatch
          else if \<not> hash_re current_state \<or> rp_state r \<noteq> current_state then Inl Stale_cursor
          else Inr r
      | _ \<Rightarrow> Inl Invalid_cursor)"

subsection \<open>Source identities\<close>

definition max_locator_bytes :: nat where "max_locator_bytes = 32768"
definition max_component_chars :: nat where "max_component_chars = 512"

definition file_source_value :: "file_kind \<Rightarrow> string \<Rightarrow> jv" where
  "file_source_value k locator = JObj [(''kind'', JStr (file_kind_text k)), (''logicalLocator'', JStr locator)]"

definition file_source_id :: "file_kind \<Rightarrow> jv \<Rightarrow> cursor_error + string" where
  "file_source_id k v =
     (case as_string v of None \<Rightarrow> Inl Invalid_cursor
      | Some locator \<Rightarrow>
          if locator = [] \<or> byte_length locator > max_locator_bytes then Inl Invalid_cursor
          else Inr (sha256_hex (print_value (file_source_value k locator))))"

datatype log_stream = Ls_stdout | Ls_stderr | Ls_both

primrec log_stream_text :: "log_stream \<Rightarrow> string" where
  "log_stream_text Ls_stdout = ''stdout''"
| "log_stream_text Ls_stderr = ''stderr''"
| "log_stream_text Ls_both = ''both''"

definition log_streams :: "log_stream list" where "log_streams = [Ls_stdout, Ls_stderr, Ls_both]"

definition run_source_id :: "jv \<Rightarrow> jv \<Rightarrow> cursor_error + string" where
  "run_source_id run_id stream =
     (case (as_string run_id, parse_enum log_streams log_stream_text stream) of
        (Some r, Some s) \<Rightarrow>
          if r = [] \<or> length r > max_component_chars then Inl Invalid_cursor
          else Inr (sha256_hex (print_value (JObj [(''runId'', JStr r), (''logStream'', JStr (log_stream_text s))])))
      | _ \<Rightarrow> Inl Invalid_cursor)"

text \<open>A stream of a run: absent, or present with its snapshot.\<close>

definition read_stream :: "jv \<Rightarrow> file_snapshot option option" where
  "read_stream v = (if v = JNull then Some None else map_option Some (read_snapshot v))"

definition stream_value :: "file_snapshot option \<Rightarrow> jv" where
  "stream_value s = (case s of None \<Rightarrow> JNull | Some x \<Rightarrow> stat_value x)"

definition run_state_value :: "file_snapshot option \<Rightarrow> file_snapshot option \<Rightarrow> jv" where
  "run_state_value a b = JObj [(''stdout'', stream_value a), (''stderr'', stream_value b)]"

definition run_state_id :: "jv \<Rightarrow> cursor_error + string" where
  "run_state_id v =
     (case as_record v of None \<Rightarrow> Inl Invalid_cursor
      | Some f \<Rightarrow>
          if \<not> has_exact_keys f [''stdout'', ''stderr''] then Inl Invalid_cursor
          else (case (read_stream (get_prop f ''stdout''), read_stream (get_prop f ''stderr'')) of
              (Some a, Some b) \<Rightarrow> Inr (sha256_hex (print_value (run_state_value a b)))
            | _ \<Rightarrow> Inl Invalid_cursor))"

end
