(* ===== verification/Cursor_Safety.thy ===== *)
theory Cursor_Safety
  imports Continuation_Cursor
begin

section \<open>What a continuation cursor guarantees\<close>

text \<open>
  The readers are inverse to the canonical values, base64url and the JSON fragment round-trip, and so the
  accepted cursors of a payload are known exactly.
\<close>

subsection \<open>base64url\<close>

lemma b64_value_char: "n < 64 \<Longrightarrow> b64_value (b64_char n) = n"
  by (auto simp: b64_char_def b64_value_def is_upper_def is_lower_def is_digit_def code_of_char_of)

lemma b64_char_alphabet: "n < 64 \<Longrightarrow> is_b64 (b64_char n)"
  by (auto simp: b64_char_def is_b64_def is_alnum_def is_upper_def is_lower_def is_digit_def code_of_char_of)

lemma bits:
  fixes a b c :: nat
  shows "b < 256 \<Longrightarrow> b div 16 < 16" "c < 256 \<Longrightarrow> c div 64 < 4" "a < 256 \<Longrightarrow> a div 4 < 64"
  by (simp_all add: less_mult_imp_div_less)

lemma b64_parts:
  fixes a b c :: nat
  shows "b < 256 \<Longrightarrow> a mod 4 * 16 + b div 16 < 64" "a mod 4 * 16 < 64"
    "c < 256 \<Longrightarrow> b mod 16 * 4 + c div 64 < 64" "b mod 16 * 4 < 64" "c mod 64 < 64"
    "b < 256 \<Longrightarrow> b div 16 div 16 = 0" "b < 256 \<Longrightarrow> b div 16 mod 16 * 16 + b mod 16 = b"
    "c < 256 \<Longrightarrow> c div 64 div 4 = 0" "c < 256 \<Longrightarrow> c div 64 mod 4 * 64 + c mod 64 = c"
  using bits(1)[of b] bits(2)[of c] mod_less_divisor[of 4 a] mod_less_divisor[of 16 b] by (simp_all add: div_mult_mod_eq)

lemma b64_roundtrip: "\<forall>b\<in>set bs. b < 256 \<Longrightarrow> b64_decode (b64_encode bs) = bs"
  by (induction bs rule: b64_encode.induct) (simp_all add: b64_value_char b64_parts bits)

lemma b64_encode_alphabet: "\<forall>b\<in>set bs. b < 256 \<Longrightarrow> list_all is_b64 (b64_encode bs)"
  by (induction bs rule: b64_encode.induct) (simp_all add: b64_char_alphabet b64_parts bits)

lemma b64_encode_empty [simp]: "b64_encode bs = [] \<longleftrightarrow> bs = []"
  by (induction bs rule: b64_encode.induct) simp_all

subsection \<open>Readers and values\<close>

lemma int_value_reads [simp]:
  "non_negative (int_value i) = (if 0 \<le> i \<and> i \<le> max_safe_integer then Some i else None)"
  "positive (int_value i) = (if 1 \<le> i \<and> i \<le> max_safe_integer then Some i else None)"
  "int_value i = JNum (JInt j) \<longleftrightarrow> i = j"
  by (auto simp: non_negative_def positive_def int_value_def)

lemma int_value_inj [simp]: "int_value i = int_value j \<longleftrightarrow> i = j"
  by (simp add: int_value_def)

lemma reads_Some:
  "non_negative v = Some i \<longleftrightarrow> v = int_value i \<and> 0 \<le> i \<and> i \<le> max_safe_integer"
  "positive v = Some i \<longleftrightarrow> v = int_value i \<and> 1 \<le> i \<and> i \<le> max_safe_integer"
  "source_id v = Some s \<longleftrightarrow> v = JStr s \<and> hash_re s"
  "nanoseconds v = Some s \<longleftrightarrow> v = JStr s \<and> nanoseconds_re s"
  by (auto simp: non_negative_def positive_def source_id_def nanoseconds_def int_value_def as_safe_int_Some split: option.splits if_splits)

lemma str_reads [simp]:
  "source_id (JStr s) = (if hash_re s then Some s else None)" "nanoseconds (JStr s) = (if nanoseconds_re s then Some s else None)"
  by (simp_all add: source_id_def nanoseconds_def)

text \<open>A record with exactly the given keys in order is the list of its properties.\<close>

lemma keys_fields: "has_exact_keys f ks \<Longrightarrow> distinct ks \<Longrightarrow> f = map (\<lambda>k. (k, get_prop f k)) ks"
proof -
  assume "has_exact_keys f ks" "distinct ks"
  then have ks: "ks = map fst f" "distinct (map fst f)" by (simp_all add: has_exact_keys_def own_keys_def)
  have "map (\<lambda>k. (k, get_prop f k)) (map fst f) = map id f"
    unfolding map_map by (rule map_cong[OF refl]) (use get_prop_mem[OF ks(2)] in auto)
  then show "f = map (\<lambda>k. (k, get_prop f k)) ks" using ks(1) by simp
qed

definition safe_count :: "int \<Rightarrow> bool" where
  "safe_count i = (0 \<le> i \<and> i \<le> max_safe_integer)"

definition valid_snapshot :: "file_snapshot \<Rightarrow> bool" where
  "valid_snapshot s =
     (safe_count (sn_size s) \<and> safe_count (sn_mtime s)
      \<and> (case sn_ns s of None \<Rightarrow> True | Some t \<Rightarrow> nanoseconds_re t)
      \<and> (case sn_device s of None \<Rightarrow> True | Some (a, b) \<Rightarrow> safe_count a \<and> safe_count b))"

fun valid_payload :: "cursor_payload \<Rightarrow> bool" where
  "valid_payload (File_cursor p) =
     (hash_re (fp_source p) \<and> safe_count (fp_offset p) \<and> 1 \<le> fp_line p \<and> fp_line p \<le> max_safe_integer
      \<and> valid_snapshot (fp_snapshot p) \<and> fp_offset p \<le> sn_size (fp_snapshot p))"
| "valid_payload (Run_cursor r) =
     (hash_re (rp_source r) \<and> hash_re (rp_state r) \<and> safe_count (rp_stdout r) \<and> safe_count (rp_stderr r))"

lemma device_read: "optional_device d f = Some dv \<longleftrightarrow>
    (if d then \<exists>a b. dv = Some (a, b) \<and> get_prop f ''dev'' = int_value a \<and> get_prop f ''ino'' = int_value b \<and> safe_count a \<and> safe_count b
     else dv = None)"
  by (auto simp: optional_device_def device_fields_def safe_count_def reads_Some split: option.splits)

lemma read_file_fields_Some: "read_file_fields f ns device = Some p \<longleftrightarrow>
    get_prop f ''kind'' = JStr (file_kind_text (fp_kind p)) \<and> get_prop f ''sourceId'' = JStr (fp_source p)
    \<and> get_prop f ''byteOffset'' = int_value (fp_offset p) \<and> get_prop f ''lineNumber'' = int_value (fp_line p)
    \<and> get_prop f ''fileSize'' = int_value (sn_size (fp_snapshot p)) \<and> get_prop f ''mtimeMs'' = int_value (sn_mtime (fp_snapshot p))
    \<and> optional_device device f = Some (sn_device (fp_snapshot p)) \<and> sn_ns (fp_snapshot p) = ns
    \<and> hash_re (fp_source p) \<and> safe_count (fp_offset p) \<and> 1 \<le> fp_line p \<and> fp_line p \<le> max_safe_integer
    \<and> safe_count (sn_size (fp_snapshot p)) \<and> safe_count (sn_mtime (fp_snapshot p)) \<and> fp_offset p \<le> sn_size (fp_snapshot p)"
  unfolding read_file_fields_def safe_count_def
  by (cases p; cases "fp_snapshot p") (auto simp: reads_Some file_kind_wire.parse_iff split: option.splits if_splits)

lemma keys_distinct: "distinct (file_keys @ [''mtimeNs'', ''dev'', ''ino''])" "distinct run_keys"
  by (simp_all add: file_keys_def run_keys_def)

lemma keys_distinct_parts: "distinct file_keys" "distinct (file_keys @ [''mtimeNs''])" "distinct (file_keys @ [''dev'', ''ino''])"
  by (simp_all add: file_keys_def)

lemma file_payload_fields:
  assumes keys: "has_exact_keys f (file_keys @ ns_keys @ (if device then [''dev'', ''ino''] else []))"
    and ns: "ns_keys = map fst (ns_value ns)" "\<And>t. ns = Some t \<Longrightarrow> get_prop f ''mtimeNs'' = JStr t"
    and v: "get_prop f ''v'' = int_value (file_version p)" and p: "read_file_fields f ns device = Some p"
  shows "JObj f = payload_value (File_cursor p)"
proof -
  have "distinct (file_keys @ ns_keys @ (if device then [''dev'', ''ino''] else []))"
    using ns(1) by (cases ns) (simp_all add: ns_value_def file_keys_def)
  from keys_fields[OF keys this] have "f = map (\<lambda>k. (k, get_prop f k)) (file_keys @ ns_keys @ (if device then [''dev'', ''ino''] else []))" .
  also have "\<dots> = [(''v'', int_value (file_version p)), (''kind'', JStr (file_kind_text (fp_kind p))), (''sourceId'', JStr (fp_source p)),
       (''byteOffset'', int_value (fp_offset p)), (''lineNumber'', int_value (fp_line p)),
       (''fileSize'', int_value (sn_size (fp_snapshot p))), (''mtimeMs'', int_value (sn_mtime (fp_snapshot p)))]
      @ ns_value ns @ device_value (sn_device (fp_snapshot p))"
    using p[unfolded read_file_fields_Some] ns v
    by (cases ns; cases device) (auto simp: file_keys_def device_read ns_value_def device_value_def)
  finally show ?thesis using p[unfolded read_file_fields_Some] by simp
qed

lemma read_v1_parts:
  assumes "read_file_payload f = Some p"
  obtains device where "has_exact_keys f (file_keys @ [] @ (if device then [''dev'', ''ino''] else []))"
    "get_prop f ''v'' = JNum (JInt 1)" "read_file_fields f None device = Some p"
proof -
  let ?d = "has_exact_keys f (file_keys @ [''dev'', ''ino''])"
  have "has_exact_keys f file_keys \<or> ?d" and rest: "get_prop f ''v'' = JNum (JInt 1)" "read_file_fields f None ?d = Some p"
    using assms by (simp_all add: read_file_payload_def Let_def split: if_splits)
  then have "has_exact_keys f (file_keys @ [] @ (if ?d then [''dev'', ''ino''] else []))" by (cases ?d) simp_all
  then show thesis using that rest by blast
qed

lemma read_v1: "read_file_payload f = Some p \<Longrightarrow> JObj f = payload_value (File_cursor p) \<and> sn_ns (fp_snapshot p) = None"
proof (erule read_v1_parts)
  fix device assume d: "has_exact_keys f (file_keys @ [] @ (if device then [''dev'', ''ino''] else []))"
      "get_prop f ''v'' = JNum (JInt 1)" and r: "read_file_fields f None device = Some p"
  have "sn_ns (fp_snapshot p) = None" using r by (simp add: read_file_fields_Some)
  with file_payload_fields[OF d(1) _ _ _ r] d(2) show ?thesis by (simp add: ns_value_def file_version_def int_value_def)
qed

lemma read_v2_parts:
  assumes "read_file_payload_v2 f = Some p"
  obtains device t where "has_exact_keys f (file_keys @ [''mtimeNs''] @ (if device then [''dev'', ''ino''] else []))"
    "get_prop f ''v'' = JNum (JInt 2)" "get_prop f ''mtimeNs'' = JStr t" "nanoseconds_re t"
    "read_file_fields f (Some t) device = Some p"
proof -
  let ?d = "has_exact_keys f (file_keys @ [''mtimeNs'', ''dev'', ''ino''])"
  obtain t where "has_exact_keys f (file_keys @ [''mtimeNs'']) \<or> ?d" and rest: "get_prop f ''v'' = JNum (JInt 2)"
      "get_prop f ''mtimeNs'' = JStr t" "nanoseconds_re t" "read_file_fields f (Some t) ?d = Some p"
    using assms by (auto simp: read_file_payload_v2_def Let_def reads_Some split: if_splits option.splits)
  then have "has_exact_keys f (file_keys @ [''mtimeNs''] @ (if ?d then [''dev'', ''ino''] else []))" by (cases ?d) simp_all
  then show thesis using that rest by blast
qed

lemma read_v2: "read_file_payload_v2 f = Some p \<Longrightarrow> JObj f = payload_value (File_cursor p) \<and> sn_ns (fp_snapshot p) \<noteq> None"
proof (erule read_v2_parts)
  fix device t assume d: "has_exact_keys f (file_keys @ [''mtimeNs''] @ (if device then [''dev'', ''ino''] else []))"
      "get_prop f ''v'' = JNum (JInt 2)" and t: "get_prop f ''mtimeNs'' = JStr t" "nanoseconds_re t"
      and r: "read_file_fields f (Some t) device = Some p"
  have "sn_ns (fp_snapshot p) = Some t" using r by (simp add: read_file_fields_Some)
  with file_payload_fields[OF d(1) _ _ _ r] d(2) t show ?thesis by (simp add: ns_value_def file_version_def int_value_def)
qed

lemma read_run: "read_run_payload f = Some r \<Longrightarrow> JObj f = payload_value (Run_cursor r) \<and> valid_payload (Run_cursor r)"
proof -
  assume r: "read_run_payload f = Some r"
  then have "has_exact_keys f run_keys" by (auto simp: read_run_payload_def split: if_splits)
  from keys_fields[OF this keys_distinct(2)] have "f = map (\<lambda>k. (k, get_prop f k)) run_keys" .
  with r show ?thesis
    by (auto simp: read_run_payload_def run_keys_def reads_Some safe_count_def int_value_def split: if_splits option.splits)
qed

lemma file_reads_valid:
  "read_file_fields f ns device = Some p \<Longrightarrow> (\<And>t. ns = Some t \<Longrightarrow> nanoseconds_re t) \<Longrightarrow> valid_payload (File_cursor p)"
  by (auto simp: read_file_fields_Some valid_snapshot_def device_read split: option.splits if_splits)

lemma normalize_sound: "normalize_payload v = Some p \<Longrightarrow> v = payload_value p \<and> valid_payload p"
proof -
  assume n: "normalize_payload v = Some p"
  then obtain f where v: "v = JObj f" by (auto simp: normalize_payload_def split: option.splits)
  consider r where "p = Run_cursor r" "read_run_payload f = Some r"
    | q where "p = File_cursor q" "read_file_payload f = Some q" | q where "p = File_cursor q" "read_file_payload_v2 f = Some q"
    using n v by (auto simp: normalize_payload_def split: if_splits)
  then show ?thesis
  proof cases
    case 1 then show ?thesis using read_run v by simp
  next
    case 2
    then have "valid_payload p" by (auto elim!: read_v1_parts dest: file_reads_valid simp del: valid_payload.simps)
    then show ?thesis using 2 read_v1[of f q] v by (simp del: payload_value.simps valid_payload.simps)
  next
    case 3
    then have "valid_payload p" by (auto elim!: read_v2_parts dest: file_reads_valid simp del: valid_payload.simps)
    then show ?thesis using 3 read_v2[of f q] v by (simp del: payload_value.simps valid_payload.simps)
  qed
qed

lemma normalize_value: "valid_payload p \<Longrightarrow> normalize_payload (payload_value p) = Some p"
proof (cases p)
  case (Run_cursor r)
  assume "valid_payload p"
  with Run_cursor show ?thesis
    by (simp add: normalize_payload_def read_run_payload_def has_exact_keys_def own_keys_def run_keys_def safe_count_def)
next
  case (File_cursor q)
  assume v: "valid_payload p"
  let ?s = "fp_snapshot q"
  define F where "F = (''v'', int_value (file_version q)) # (''kind'', JStr (file_kind_text (fp_kind q))) # (''sourceId'', JStr (fp_source q))
    # (''byteOffset'', int_value (fp_offset q)) # (''lineNumber'', int_value (fp_line q))
    # (''fileSize'', int_value (sn_size ?s)) # (''mtimeMs'', int_value (sn_mtime ?s)) # ns_value (sn_ns ?s) @ device_value (sn_device ?s)"
  have f: "payload_value p = JObj F" by (simp add: File_cursor F_def)
  have props: "get_prop F ''v'' = int_value (file_version q)" "get_prop F ''kind'' = JStr (file_kind_text (fp_kind q))"
    "read_file_fields F (sn_ns ?s) (sn_device ?s \<noteq> None) = Some q"
    using v by (auto simp: F_def File_cursor read_file_fields_Some device_read valid_snapshot_def ns_value_def device_value_def
        split: option.splits)
  have keys: "own_keys F = file_keys @ map fst (ns_value (sn_ns ?s)) @ map fst (device_value (sn_device ?s))"
    by (simp add: F_def own_keys_def file_keys_def)
  have kind: "JStr (file_kind_text (fp_kind q)) \<noteq> JStr ''run-log''" by (cases "fp_kind q") simp_all
  show ?thesis
  proof (cases "sn_ns ?s")
    case None
    then have "read_file_payload F = Some q"
      using props keys
      by (cases "sn_device ?s") (auto simp: read_file_payload_def has_exact_keys_def ns_value_def device_value_def file_version_def int_value_def)
    then show ?thesis unfolding f using props kind None
      by (simp add: normalize_payload_def file_version_def int_value_def File_cursor)
  next
    case (Some t)
    then have "nanoseconds (get_prop F ''mtimeNs'') = Some t" using v by (simp add: F_def File_cursor ns_value_def valid_snapshot_def)
    with Some have "read_file_payload_v2 F = Some q"
      using props keys
      by (cases "sn_device ?s") (auto simp: read_file_payload_v2_def has_exact_keys_def ns_value_def device_value_def file_version_def int_value_def)
    then show ?thesis unfolding f using props kind Some
      by (simp add: normalize_payload_def file_version_def int_value_def File_cursor)
  qed
qed

lemma normalize_iff: "normalize_payload v = Some p \<longleftrightarrow> v = payload_value p \<and> valid_payload p"
  using normalize_sound normalize_value by blast

subsection \<open>The JSON of a payload is read back\<close>

lemma plain_code: "plain_char c \<Longrightarrow> 45 \<le> code_of c \<and> code_of c \<le> (122 :: nat) \<and> code_of c \<noteq> (92 :: nat) \<and> code_of c \<noteq> (58 :: nat)"
  by (auto simp: plain_char_def is_alnum_def is_digit_def is_upper_def is_lower_def)

lemma esc_plain: "plain_char c \<Longrightarrow> esc_char c = [c]"
proof -
  assume "plain_char c"
  note code = plain_code[OF this]
  have "c \<noteq> d" if "code_of d < (45 :: nat) \<or> code_of d = (92 :: nat)" for d using code that by auto
  then have "c \<noteq> CHR 0x22" "c \<noteq> CHR 0x5C" "c \<noteq> CHR 0x08" "c \<noteq> CHR 0x09" "c \<noteq> CHR 0x0A" "c \<noteq> CHR 0x0C" "c \<noteq> CHR 0x0D"
    by simp_all
  with code show ?thesis by (simp add: esc_char_def)
qed

lemma quote_plain: "list_all plain_char s \<Longrightarrow> quote_json s = CHR 0x22 # s @ [CHR 0x22]"
proof -
  have "list_all plain_char s \<Longrightarrow> concat (map esc_char s) = s" by (induction s) (simp_all add: esc_plain)
  then show "list_all plain_char s \<Longrightarrow> ?thesis" by (simp add: quote_json_def)
qed

lemma read_quoted_plain: "list_all plain_char s \<Longrightarrow> read_quoted (quote_json s) = Some s"
  by (simp add: quote_plain read_quoted_def)

lemma decimal_snoc: "decimal_value acc (s @ [c]) = 10 * decimal_value acc s + (code_of c - 48)"
  by (induction s arbitrary: acc) simp_all

lemma decimal_nat_text: "decimal_value 0 (nat_text n) = n"
proof (induction n rule: nat_text.induct)
  case (1 n)
  show ?case
  proof (cases "n < 10")
    case True then show ?thesis by (subst nat_text.simps) (simp add: code_of_char_of)
  next
    case False
    with 1 show ?thesis by (subst nat_text.simps) (simp add: decimal_snoc code_of_char_of)
  qed
qed

lemma nat_text_head: "nat_text n = ''0'' \<or> hd (nat_text n) \<noteq> CHR ''0''"
proof (induction n rule: nat_text.induct)
  case (1 n)
  show ?case
  proof (cases "n < 10")
    case True
    have "n = 0 \<or> code_of (char_of (48 + n) :: char) \<noteq> (48 :: nat)" using True by (auto simp: code_of_char_of)
    then have "n = 0 \<or> char_of (48 + n) \<noteq> CHR ''0''" by force
    with True show ?thesis by (subst nat_text.simps, subst (2) nat_text.simps) auto
  next
    case False
    then have "nat_text (n div 10) \<noteq> ''0''" using decimal_nat_text[of "n div 10"] by auto
    with 1 False show ?thesis by (subst nat_text.simps, subst (2) nat_text.simps) simp
  qed
qed

lemma read_decimal_nat: "read_decimal (nat_text n) = Some (int n)"
  using nat_text_head[of n] by (auto simp: read_decimal_def decimal_nat_text nat_text_digits)

lemma read_quoted_nat: "read_quoted (nat_text n) = None"
proof -
  have "list_all is_digit (nat_text n)" "nat_text n \<noteq> []" by (simp_all add: nat_text_digits)
  then have "is_digit (hd (nat_text n))" by (cases "nat_text n") simp_all
  then show ?thesis by (auto simp: read_quoted_def is_digit_def)
qed

fun simple_value :: "jv \<Rightarrow> bool" where
  "simple_value (JStr s) = list_all plain_char s"
| "simple_value (JNum (JInt i)) = (0 \<le> i)"
| "simple_value _ = False"

text \<open>The characters of the printed fragment.\<close>

definition json_char :: "char \<Rightarrow> bool" where
  "json_char c = (plain_char c \<or> c = CHR 0x22)"

lemma digit_plain: "list_all is_digit s \<Longrightarrow> list_all plain_char s"
  by (auto simp: list_all_iff plain_char_def is_alnum_def)

lemma print_simple_chars: "simple_value v \<Longrightarrow> list_all json_char (print_value v)"
proof (cases v rule: simple_value.cases)
  case (1 s) then show "simple_value v \<Longrightarrow> ?thesis" by (auto simp: quote_plain json_char_def list_all_iff)
next
  case (2 i)
  have "list_all plain_char (nat_text (nat i))" by (rule digit_plain[OF nat_text_digits])
  with 2 show "simple_value v \<Longrightarrow> ?thesis" by (auto simp: int_text_def json_char_def list_all_iff)
qed simp_all

lemma json_char_sep: "list_all json_char s \<Longrightarrow> CHR '':'' \<notin> set s \<and> CHR '','' \<notin> set s"
proof -
  have "\<not> json_char (CHR '':'')" "\<not> json_char (CHR '','')"
    using plain_code[of "CHR '':''"] plain_code[of "CHR '',''"] by (auto simp: json_char_def)
  then show "list_all json_char s \<Longrightarrow> ?thesis" by (auto simp: list_all_iff)
qed

lemma quote_chars: "list_all plain_char k \<Longrightarrow> list_all json_char (quote_json k)"
  by (auto simp: quote_plain json_char_def list_all_iff)

lemma read_member_print: "list_all plain_char k \<Longrightarrow> simple_value v \<Longrightarrow> read_member (member_text (k, print_value v)) = Some (k, v)"
proof -
  assume k: "list_all plain_char k" and v: "simple_value v"
  have "split_on (CHR '':'') (member_text (k, print_value v)) = [quote_json k, print_value v]"
    using json_char_sep[OF quote_chars[OF k]] json_char_sep[OF print_simple_chars[OF v]]
    by (simp add: member_text_def split_on_append split_on_no_sep)
  then show ?thesis using v
    by (cases v rule: simple_value.cases)
       (simp_all add: read_member_def read_quoted_plain k int_text_def read_decimal_nat read_quoted_nat)
qed

lemma member_chars: "list_all plain_char k \<Longrightarrow> simple_value v \<Longrightarrow> CHR '','' \<notin> set (member_text (k, print_value v))"
  using json_char_sep[OF quote_chars[of k]] json_char_sep[OF print_simple_chars[of v]] by (auto simp: member_text_def)

lemma json_parse_print:
  assumes "kvs \<noteq> []" "\<forall>(k, v)\<in>set kvs. list_all plain_char k \<and> simple_value v"
  shows "json_parse (print_value (JObj kvs)) = Some (JObj kvs)"
proof -
  let ?ms = "map (\<lambda>(k, v). member_text (k, print_value v)) kvs"
  have ms: "map member_text (map (map_prod id print_value) kvs) = ?ms" by (simp add: case_prod_beta map_prod_def)
  have "split_on (CHR '','') (join_with '','' ?ms) = ?ms"
    using assms member_chars by (intro split_join) auto
  moreover have "read_members ?ms = Some kvs"
    using assms(2) by (induction kvs) (auto simp: read_member_print)
  ultimately show ?thesis unfolding json_parse_def print_value.simps ms by simp
qed

lemma hash_plain: "hash_re s \<Longrightarrow> list_all plain_char s"
  by (auto simp: hash_re_def list_all_iff plain_char_def is_alnum_def is_lower_hex_def is_lower_def)

lemma ns_plain: "nanoseconds_re s \<Longrightarrow> list_all plain_char s"
  using digit_plain[of s] by (auto simp: nanoseconds_re_def plain_char_def is_alnum_def is_digit_def)

lemma kind_plain: "list_all plain_char (file_kind_text k)" "list_all plain_char ''run-log''"
  by (cases k; simp add: plain_char_def is_alnum_def is_digit_def is_upper_def is_lower_def)
     (simp add: plain_char_def is_alnum_def is_digit_def is_upper_def is_lower_def)

lemma simple_int [simp]: "simple_value (int_value i) = (0 \<le> i)"
  by (simp add: int_value_def)

lemma payload_fields_simple:
  assumes "valid_payload p"
  obtains kvs where "payload_value p = JObj kvs" "kvs \<noteq> []" "\<forall>(k, v)\<in>set kvs. list_all plain_char k \<and> simple_value v"
proof (cases p)
  case (File_cursor q)
  have keys: "\<forall>k\<in>set (file_keys @ [''mtimeNs'', ''dev'', ''ino'']). list_all plain_char k" by code_simp
  from that File_cursor show ?thesis
    using assms hash_plain ns_plain kind_plain(1) keys
    by (auto simp: file_keys_def safe_count_def valid_snapshot_def ns_value_def device_value_def file_version_def split: option.splits)
next
  case (Run_cursor r)
  have keys: "\<forall>k\<in>set run_keys. list_all plain_char k" by code_simp
  from that Run_cursor show ?thesis
    using assms hash_plain kind_plain(2) keys by (auto simp: run_keys_def safe_count_def)
qed

lemma parse_payload_json: "valid_payload p \<Longrightarrow> json_parse (payload_json p) = Some (payload_value p)"
  by (erule payload_fields_simple) (simp add: payload_json_def json_parse_print del: print_value.simps)

subsection \<open>The bytes of a payload\<close>

definition ascii :: "string \<Rightarrow> bool" where
  "ascii s = list_all (\<lambda>c. code_of c < (128 :: nat)) s"

lemma json_char_ascii: "list_all json_char s \<Longrightarrow> ascii s"
proof -
  have "code_of c < (128 :: nat)" if "json_char c" for c using that plain_code[of c] by (auto simp: json_char_def)
  then show "list_all json_char s \<Longrightarrow> ?thesis" by (auto simp: ascii_def list_all_iff)
qed

lemma ascii_append [simp]: "ascii (s @ t) = (ascii s \<and> ascii t)" "ascii (c # s) = (code_of c < (128 :: nat) \<and> ascii s)" "ascii []"
  by (simp_all add: ascii_def)

lemma join_ascii: "\<forall>s\<in>set ss. ascii s \<Longrightarrow> ascii (join_with '','' ss)"
  by (induction "'',''" ss rule: join_with.induct) simp_all

lemma payload_json_ascii: "valid_payload p \<Longrightarrow> ascii (payload_json p)"
proof (erule payload_fields_simple)
  fix kvs assume kvs: "payload_value p = JObj kvs" "\<forall>(k, v)\<in>set kvs. list_all plain_char k \<and> simple_value v"
  have "ascii (member_text (k, print_value v))" if "(k, v) \<in> set kvs" for k v
    using kvs(2) that json_char_ascii[OF quote_chars] json_char_ascii[OF print_simple_chars] by (fastforce simp: member_text_def)
  then have "ascii (join_with '','' (map member_text (map (map_prod id print_value) kvs)))" by (intro join_ascii) auto
  then show ?thesis using kvs(1) by (simp add: payload_json_def)
qed

lemma utf8_ascii: "ascii s \<Longrightarrow> utf8 s = map code_of s"
  by (induction s) (simp_all add: utf8_char_def)

lemma utf8_bytes: "\<forall>b\<in>set (utf8 s). b < 256"
proof -
  have "\<forall>b\<in>set (utf8_char c). b < 256" for c
  proof -
    have "code_of c div 64 < (64 :: nat)" by (rule less_mult_imp_div_less) (rule order.strict_trans[OF code_of_bound], simp)
    moreover have "code_of c mod 64 < (64 :: nat)" by simp
    ultimately have "192 + code_of c div 64 < (256 :: nat)" "128 + code_of c mod 64 < (256 :: nat)" by linarith+
    then show ?thesis by (simp add: utf8_char_def Let_def)
  qed
  then show ?thesis by (simp add: utf8_def)
qed

lemma decode_text_iff:
  "decode_text bs = Some s \<longleftrightarrow> ascii s \<and> (bs = utf8 s \<or> bs = byte_order_mark @ utf8 s)"
proof
  assume d: "decode_text bs = Some s"
  define r where "r = (if take 3 bs = byte_order_mark then drop 3 bs else bs)"
  have small: "list_all (\<lambda>b. b < 128) r" and s: "s = map char_of r"
    using d by (auto simp: decode_text_def r_def Let_def split: if_splits)
  have codes: "map code_of s = r"
    unfolding s map_map by (rule map_idI) (use small in \<open>auto simp: code_of_char_of list_all_iff\<close>)
  then have "ascii s" using small by (auto simp: ascii_def list_all_iff)
  moreover have "bs = r \<or> bs = byte_order_mark @ r" unfolding r_def by (metis append_take_drop_id)
  ultimately show "ascii s \<and> (bs = utf8 s \<or> bs = byte_order_mark @ utf8 s)" using codes by (simp add: utf8_ascii)
next
  assume "ascii s \<and> (bs = utf8 s \<or> bs = byte_order_mark @ utf8 s)"
  then have a: "ascii s" and bs: "bs = map code_of s \<or> bs = byte_order_mark @ map code_of s" by (auto simp: utf8_ascii)
  have "take 3 (map code_of s) \<noteq> byte_order_mark" using a by (cases s) (auto simp: byte_order_mark_def)
  with bs have "(if take 3 bs = byte_order_mark then drop 3 bs else bs) = map code_of s" by (auto simp: byte_order_mark_def)
  then show "decode_text bs = Some s" using a by (simp add: decode_text_def Let_def ascii_def list_all_iff comp_def)
qed

subsection \<open>The accepted cursors\<close>

definition payload_bytes :: "cursor_payload \<Rightarrow> nat list" where
  "payload_bytes p = utf8 (payload_json p)"

lemma byte_order_mark_bytes: "\<forall>b\<in>set byte_order_mark. b < 256" "byte_order_mark \<noteq> []"
  by (simp_all add: byte_order_mark_def)

lemma decode_payload_iff:
  "decode_payload pre segment = Some p \<longleftrightarrow> valid_payload p \<and> pre = cursor_prefix p
     \<and> (segment = b64_encode (payload_bytes p) \<or> segment = b64_encode (byte_order_mark @ payload_bytes p))"
proof
  assume "decode_payload pre segment = Some p"
  then obtain json parsed where d: "b64_encode (b64_decode segment) = segment" "decode_text (b64_decode segment) = Some json"
      "json_parse json = Some parsed" "normalize_payload parsed = Some p" "pre = cursor_prefix p" "payload_json p = json"
    by (auto simp: decode_payload_def Let_def bind_eq_Some_conv split: if_splits)
  have "b64_decode segment = payload_bytes p \<or> b64_decode segment = byte_order_mark @ payload_bytes p"
    using d(2,6) by (simp add: decode_text_iff payload_bytes_def)
  then show "valid_payload p \<and> pre = cursor_prefix p
     \<and> (segment = b64_encode (payload_bytes p) \<or> segment = b64_encode (byte_order_mark @ payload_bytes p))"
    using d(1,4,5) normalize_sound by metis
next
  assume r: "valid_payload p \<and> pre = cursor_prefix p
     \<and> (segment = b64_encode (payload_bytes p) \<or> segment = b64_encode (byte_order_mark @ payload_bytes p))"
  then obtain bs where bs: "segment = b64_encode bs" "bs = payload_bytes p \<or> bs = byte_order_mark @ payload_bytes p" by blast
  have "\<forall>b\<in>set bs. b < 256" using bs(2) utf8_bytes byte_order_mark_bytes(1) by (auto simp: payload_bytes_def)
  then have "b64_decode segment = bs" using bs(1) b64_roundtrip by simp
  moreover have "decode_text bs = Some (payload_json p)"
    using bs(2) r payload_json_ascii by (simp add: decode_text_iff payload_bytes_def)
  ultimately show "decode_payload pre segment = Some p"
    using r bs(1) parse_payload_json normalize_value by (simp add: decode_payload_def)
qed

lemma checksum_chars: "checksum_re (checksum s)"
  using sha256_hex_hash_re[of s] by (auto simp: checksum_re_def checksum_def hash_re_def list_all_iff dest: in_set_takeD)

lemma no_dot: "list_all is_b64 s \<Longrightarrow> CHR ''.'' \<notin> set s" "checksum_re s \<Longrightarrow> CHR ''.'' \<notin> set s"
  by (auto simp: checksum_re_def list_all_iff is_b64_def is_alnum_def is_digit_def is_upper_def is_lower_def is_lower_hex_def)

lemma prefix_text: "cursor_prefix p = ''wbcur1'' \<or> cursor_prefix p = ''wbcur2''"
  by (cases p) (simp_all add: cursor_prefix_def)

lemma payload_bytes_nonempty: "payload_bytes p \<noteq> []"
proof -
  have "length (payload_json p) > 0" by (cases p) (simp_all add: payload_json_def)
  then show ?thesis using byte_length_ge[of "payload_json p"] by (auto simp: payload_bytes_def byte_length_def)
qed

lemma decode_cursor_iff:
  "decode_cursor (JStr c) = Inr p \<longleftrightarrow> length c \<le> max_cursor_chars \<and> valid_payload p
     \<and> (c = seal_cursor (cursor_prefix p) (payload_bytes p) \<or> c = seal_cursor (cursor_prefix p) (byte_order_mark @ payload_bytes p))"
proof
  assume d: "decode_cursor (JStr c) = Inr p"
  then obtain pre segment chk where s: "split_on (CHR ''.'') c = [pre, segment, chk]" "length c \<le> max_cursor_chars"
      "checksum (pre @ ''.'' @ segment) = chk" "decode_payload pre segment = Some p"
    by (auto simp: decode_cursor_def split: if_splits list.splits option.splits)
  have "c = pre @ ''.'' @ segment @ ''.'' @ chk" using join_split[of "CHR ''.''" c] s(1) by simp
  with s show "length c \<le> max_cursor_chars \<and> valid_payload p
     \<and> (c = seal_cursor (cursor_prefix p) (payload_bytes p) \<or> c = seal_cursor (cursor_prefix p) (byte_order_mark @ payload_bytes p))"
    by (auto simp: decode_payload_iff seal_cursor_def)
next
  assume r: "length c \<le> max_cursor_chars \<and> valid_payload p
     \<and> (c = seal_cursor (cursor_prefix p) (payload_bytes p) \<or> c = seal_cursor (cursor_prefix p) (byte_order_mark @ payload_bytes p))"
  then obtain bs where c: "c = seal_cursor (cursor_prefix p) bs" and bs: "bs = payload_bytes p \<or> bs = byte_order_mark @ payload_bytes p"
    by blast
  have bytes: "\<forall>b\<in>set bs. b < 256" using bs utf8_bytes byte_order_mark_bytes by (auto simp: payload_bytes_def)
  have nonempty: "bs \<noteq> []" using bs payload_bytes_nonempty[of p] byte_order_mark_bytes(2) by auto
  let ?seg = "b64_encode bs" and ?pre = "cursor_prefix p"
  have alpha: "list_all is_b64 ?seg" using b64_encode_alphabet[OF bytes] .
  have "CHR ''.'' \<notin> set ?pre" using prefix_text[of p] by auto
  then have split: "split_on (CHR ''.'') c = [?pre, ?seg, checksum (?pre @ ''.'' @ ?seg)]"
    using no_dot(1)[OF alpha] no_dot(2)[OF checksum_chars]
    by (simp add: c seal_cursor_def split_on_append split_on_no_sep)
  have "decode_payload ?pre ?seg = Some p" using r bs by (auto simp: decode_payload_iff)
  moreover have "c \<noteq> []" using prefix_text[of p] by (auto simp: c seal_cursor_def)
  ultimately show "decode_cursor (JStr c) = Inr p"
    using r split alpha nonempty prefix_text[of p] checksum_chars by (simp add: decode_cursor_def)
qed

lemma payload_value_inj: "payload_value p = payload_value q \<Longrightarrow> p = q"
proof -
  have kind: "file_kind_text k \<noteq> ''run-log''" for k by (cases k) simp_all
  have "fst (hd (device_value d)) \<noteq> ''mtimeNs'' \<or> d = None" for d by (cases d) (auto simp: device_value_def)
  then have parts: "ns_value n @ device_value d = ns_value n' @ device_value d' \<longleftrightarrow> n = n' \<and> d = d'" for n n' d d'
    by (cases n; cases n'; cases d; cases d') (auto simp: ns_value_def device_value_def)
  show "payload_value p = payload_value q \<Longrightarrow> p = q"
    by (cases p; cases q)
       (auto simp: kind kind[symmetric] parts intro!: file_payload.equality run_payload.equality file_snapshot.equality)
qed

lemma normalize_value_iff: "normalize_payload (payload_value p) = Some q \<longleftrightarrow> q = p \<and> valid_payload p"
  using normalize_iff payload_value_inj by metis

lemma encode_cursor_iff:
  "encode_cursor (payload_value p) = Inr c \<longleftrightarrow> valid_payload p \<and> length c \<le> max_cursor_chars
     \<and> c = seal_cursor (cursor_prefix p) (payload_bytes p)"
proof (cases "valid_payload p")
  case True
  with normalize_value_iff[of p p] show ?thesis
    by (auto simp: encode_cursor_def Let_def payload_bytes_def simp del: valid_payload.simps payload_value.simps)
next
  case False
  with normalize_value_iff[of p] have "normalize_payload (payload_value p) = None" by (cases "normalize_payload (payload_value p)") auto
  with False show ?thesis by (simp add: encode_cursor_def del: valid_payload.simps payload_value.simps)
qed

text \<open>C25: A cursor names one payload, and a payload has one cursor text besides the one an exception adds. The texts the
  decoder accepts for a payload are exactly the text the encoder prints for it, and the text with the same
  JSON after a byte order mark: the text decoder of the platform drops that mark before the comparison with
  the canonical JSON, so the check for the exact canonical form does not see it.\<close>

theorem cursor_roundtrip:
  "(encode_cursor (payload_value p) = Inr c \<longleftrightarrow> valid_payload p \<and> length c \<le> max_cursor_chars
      \<and> c = seal_cursor (cursor_prefix p) (payload_bytes p))
   \<and> (decode_cursor (JStr c) = Inr p \<longleftrightarrow> valid_payload p \<and> length c \<le> max_cursor_chars
      \<and> (c = seal_cursor (cursor_prefix p) (payload_bytes p)
         \<or> c = seal_cursor (cursor_prefix p) (byte_order_mark @ payload_bytes p)))"
  unfolding encode_cursor_iff decode_cursor_iff by blast

lemma marked_length: "length (seal_cursor pre (byte_order_mark @ bs)) = length (seal_cursor pre bs) + 4"
  using checksum_chars by (simp add: seal_cursor_def byte_order_mark_def checksum_re_def)

theorem marked_cursor_is_accepted:
  "valid_payload p \<Longrightarrow> length (seal_cursor (cursor_prefix p) (byte_order_mark @ payload_bytes p)) \<le> max_cursor_chars \<Longrightarrow>
     decode_cursor (JStr (seal_cursor (cursor_prefix p) (byte_order_mark @ payload_bytes p))) = Inr p
     \<and> encode_cursor (payload_value p) \<noteq> Inr (seal_cursor (cursor_prefix p) (byte_order_mark @ payload_bytes p))"
  using marked_length[of "cursor_prefix p" "payload_bytes p"] by (auto simp: decode_cursor_iff encode_cursor_iff)

subsection \<open>Sources\<close>

lemma read_stat_value: "valid_snapshot s \<Longrightarrow> read_snapshot (stat_value s) = Some s"
  by (cases s; cases "sn_ns s"; cases "sn_device s")
     (auto simp: read_snapshot_def stat_value_def valid_snapshot_def ns_value_def device_value_def has_exact_keys_def own_keys_def
        Let_def safe_count_def optional_device_def device_fields_def)

text \<open>A file cursor is honoured exactly for the source and the file state it was made for: the kind, the source
  identity, and every component of the snapshot (size, milliseconds, nanoseconds, device) must be those of the
  payload, and absent components must be absent; in particular a cursor without nanoseconds is refused for a
  source that has them. A run-log cursor is honoured exactly for its run identity and stream state.\<close>

theorem cursor_binds_source:
  "(validate_file_source v k src cur = Inr p \<longleftrightarrow> v = payload_value (File_cursor p) \<and> valid_payload (File_cursor p)
      \<and> fp_kind p = k \<and> fp_source p = src \<and> read_snapshot cur = Some (fp_snapshot p))
   \<and> (validate_run_source v src st = Inr r \<longleftrightarrow> v = payload_value (Run_cursor r) \<and> valid_payload (Run_cursor r)
      \<and> rp_source r = src \<and> rp_state r = st)"
proof
  show "validate_file_source v k src cur = Inr p \<longleftrightarrow> v = payload_value (File_cursor p) \<and> valid_payload (File_cursor p)
      \<and> fp_kind p = k \<and> fp_source p = src \<and> read_snapshot cur = Some (fp_snapshot p)" (is "?L = ?R")
  proof
    assume ?L
    then obtain e where n: "normalize_payload v = Some (File_cursor p)" and e: "fp_kind p = k" "fp_source p = src"
        "validate_snapshot (stat_value (fp_snapshot p)) cur = Inr e"
      by (auto simp: validate_file_source_def split: option.splits cursor_payload.splits if_splits sum.splits)
    note v = normalize_sound[OF n]
    have "valid_snapshot (fp_snapshot p)" using v by simp
    from e(3) read_stat_value[OF this] have "read_snapshot cur = Some (fp_snapshot p)"
      by (auto simp: validate_snapshot_def split: option.splits if_splits)
    then show ?R using v e(1,2) by blast
  next
    assume r: ?R
    then have n: "normalize_payload v = Some (File_cursor p)" using normalize_value by blast
    have "hash_re src" "read_snapshot (stat_value (fp_snapshot p)) = Some (fp_snapshot p)"
      using r read_stat_value by auto
    with r n show ?L by (simp add: validate_file_source_def validate_snapshot_def)
  qed
  show "validate_run_source v src st = Inr r \<longleftrightarrow> v = payload_value (Run_cursor r) \<and> valid_payload (Run_cursor r)
      \<and> rp_source r = src \<and> rp_state r = st" (is "?L = ?R")
  proof
    assume ?L
    then show ?R
      by (auto simp: validate_run_source_def simp del: valid_payload.simps payload_value.simps dest: normalize_sound
          split: option.splits cursor_payload.splits if_splits)
  next
    assume ?R
    then show ?L using normalize_value[of "Run_cursor r"] by (auto simp: validate_run_source_def)
  qed
qed

end
