(* ===== verification/Worker_Checkpoint.thy ===== *)
theory Worker_Checkpoint
  imports Worker_Spend Delegation_Transaction
begin

section \<open>Worker checkpoints (core/worker-checkpoint.ts)\<close>

text \<open>
  A checkpoint is the hash-bound machine record from which a fresh worker continues a delegation: what was
  touched, what was spent, what is left of the budget, and bounded advice. The validator works on an
  unknown value, so the definitions read the fields of that value as the source does. Where the source
  raises (an impossible date of the right shape) the model answers false.
\<close>

subsection \<open>Bounds and field checks\<close>

definition ck_max_bytes :: nat where "ck_max_bytes = 262144"
definition ck_advisory_bytes :: nat where "ck_advisory_bytes = 4096"
definition ck_capsule_bytes :: nat where "ck_capsule_bytes = 16384"
definition ck_max_paths :: nat where "ck_max_paths = 500"
definition ck_max_recipes :: nat where "ck_max_recipes = 128"
definition ck_item_bytes :: nat where "ck_item_bytes = 240"
definition ck_item_count :: nat where "ck_item_count = 4"
definition ck_capsule_paths :: nat where "ck_capsule_paths = 12"
definition ck_capsule_recipes :: nat where "ck_capsule_recipes = 12"

definition safe_nat :: "jv \<Rightarrow> nat option" where
  "safe_nat v = (case as_safe_int v of None \<Rightarrow> None | Some i \<Rightarrow> if 0 \<le> i then Some (nat i) else None)"

definition is_count :: "jv \<Rightarrow> bool" where
  "is_count v = (safe_nat v \<noteq> None)"

definition count_of :: "jv \<Rightarrow> nat" where
  "count_of v = (case safe_nat v of None \<Rightarrow> 0 | Some n \<Rightarrow> n)"

definition finite_count :: "jv \<Rightarrow> bool" where
  "finite_count v = (case finite_number v of None \<Rightarrow> False | Some x \<Rightarrow> 0 \<le> x)"

definition is_hash :: "jv \<Rightarrow> bool" where
  "is_hash v = (case as_string v of None \<Rightarrow> False | Some s \<Rightarrow> hash_re s)"

definition is_text_where :: "(string \<Rightarrow> bool) \<Rightarrow> jv \<Rightarrow> bool" where
  "is_text_where P v = (case as_string v of None \<Rightarrow> False | Some s \<Rightarrow> P s)"

definition ck_path :: "string \<Rightarrow> bool" where
  "ck_path s =
     (s \<noteq> [] \<and> byte_length s \<le> 400 \<and> CHR 0x00 \<notin> set s \<and> CHR 0x5C \<notin> set s \<and> \<not> starts_with ''/'' s \<and> \<not> ends_with ''/'' s
      \<and> \<not> contains_text ''//'' s \<and> (\<forall>p\<in>set (split_on (CHR ''/'') s). p \<noteq> [] \<and> p \<noteq> ''.'' \<and> p \<noteq> ''..''))"

definition ck_text :: "nat \<Rightarrow> string \<Rightarrow> bool" where
  "ck_text bound s = (s \<noteq> [] \<and> byte_length s \<le> bound \<and> (\<forall>c\<in>set s. \<not> is_control c))"

definition cost_fields :: "string list" where
  "cost_fields = [''input'', ''output'', ''cacheRead'', ''cacheWrite'', ''total'']"

definition optional_key :: "fields \<Rightarrow> string \<Rightarrow> string list" where
  "optional_key f k = (if get_prop f k = JUndef then [] else [k])"

definition valid_usage :: "jv \<Rightarrow> bool" where
  "valid_usage v =
     (case as_record v of None \<Rightarrow> False
      | Some f \<Rightarrow>
          exact_fields f ([''input'', ''output'', ''cacheRead'', ''cacheWrite'', ''totalTokens'', ''cost'']
            @ optional_key f ''cacheWrite1h'' @ optional_key f ''reasoning'')
          \<and> (\<forall>k\<in>set ([''input'', ''output'', ''cacheRead'', ''cacheWrite'', ''totalTokens'']
                 @ optional_key f ''cacheWrite1h'' @ optional_key f ''reasoning''). is_count (get_prop f k))
          \<and> (case as_record (get_prop f ''cost'') of None \<Rightarrow> False
             | Some c \<Rightarrow> exact_fields c cost_fields \<and> (\<forall>k\<in>set (own_keys c). finite_count (get_prop c k))))"

definition sorted_texts :: "string list \<Rightarrow> nat \<Rightarrow> nat \<Rightarrow> bool" where
  "sorted_texts ss most bound = (length ss \<le> most \<and> list_all (ck_text bound) ss \<and> increasing ss)"

definition valid_sorted_strings :: "jv \<Rightarrow> nat \<Rightarrow> nat \<Rightarrow> bool" where
  "valid_sorted_strings v most bound =
     (case Option.bind (as_array v) as_strings of None \<Rightarrow> False | Some ss \<Rightarrow> sorted_texts ss most bound)"

definition sorted_unique :: "string list \<Rightarrow> string list" where
  "sorted_unique ss = sort_key utf8 (remdups ss)"

subsection \<open>The advisory\<close>

definition rich_fields :: "string list" where
  "rich_fields = [''completed_work'', ''key_decisions'', ''verification_notes'', ''remaining_risks'', ''next_actions'']"

definition has_rich :: "fields \<Rightarrow> bool" where
  "has_rich f = (\<exists>k\<in>set rich_fields. get_prop f k \<noteq> JUndef)"

definition valid_advisory :: "jv \<Rightarrow> bool" where
  "valid_advisory v =
     (case as_record v of None \<Rightarrow> False
      | Some f \<Rightarrow>
          exact_fields f ([''completed_criteria'', ''remaining_criteria''] @ (if has_rich f then rich_fields else []))
          \<and> valid_sorted_strings (get_prop f ''completed_criteria'') 64 400
          \<and> valid_sorted_strings (get_prop f ''remaining_criteria'') 64 400
          \<and> (has_rich f \<longrightarrow> (\<forall>k\<in>set rich_fields. valid_sorted_strings (get_prop f k) ck_item_count ck_item_bytes))
          \<and> byte_length (print_value v) \<le> ck_advisory_bytes)"

record rich_advisory =
  ra_completed :: "string list"
  ra_remaining :: "string list"
  ra_work :: "string list"
  ra_decisions :: "string list"
  ra_notes :: "string list"
  ra_risks :: "string list"
  ra_next :: "string list"

definition texts_value :: "string list \<Rightarrow> jv" where
  "texts_value ss = JArr (map JStr ss)"

definition build_rich_advisory :: "rich_advisory \<Rightarrow> jv option" where
  "build_rich_advisory a =
     (let v = JObj [(''completed_criteria'', texts_value (sorted_unique (ra_completed a))),
            (''remaining_criteria'', texts_value (sorted_unique (ra_remaining a))),
            (''completed_work'', texts_value (sorted_unique (ra_work a))), (''key_decisions'', texts_value (sorted_unique (ra_decisions a))),
            (''verification_notes'', texts_value (sorted_unique (ra_notes a))), (''remaining_risks'', texts_value (sorted_unique (ra_risks a))),
            (''next_actions'', texts_value (sorted_unique (ra_next a)))]
      in if valid_advisory v then Some v else None)"

subsection \<open>Parts of a checkpoint\<close>

definition touched_fields :: "string list" where
  "touched_fields = [''path'', ''before_hash'', ''current_hash'', ''journal_hash'']"

definition valid_touched :: "jv \<Rightarrow> bool" where
  "valid_touched v =
     (case as_record v of None \<Rightarrow> False
      | Some f \<Rightarrow> exact_fields f touched_fields \<and> is_text_where ck_path (get_prop f ''path'')
          \<and> (get_prop f ''before_hash'' = JNull \<or> is_hash (get_prop f ''before_hash''))
          \<and> (get_prop f ''current_hash'' = JNull \<or> is_hash (get_prop f ''current_hash''))
          \<and> is_hash (get_prop f ''journal_hash''))"

definition touched_path :: "jv \<Rightarrow> string" where
  "touched_path v =
     (case as_record v of None \<Rightarrow> [] | Some f \<Rightarrow> (case as_string (get_prop f ''path'') of None \<Rightarrow> [] | Some s \<Rightarrow> s))"

definition valid_touched_paths :: "jv \<Rightarrow> bool" where
  "valid_touched_paths v =
     (case as_array v of None \<Rightarrow> False
      | Some vs \<Rightarrow> length vs \<le> ck_max_paths \<and> list_all valid_touched vs \<and> increasing (map touched_path vs))"

definition spend_fields :: "string list" where
  "spend_fields = [''turns'', ''total_tokens'', ''output_tokens'']"

definition valid_attempt_spend :: "jv \<Rightarrow> bool" where
  "valid_attempt_spend v =
     (case as_record v of None \<Rightarrow> False
      | Some f \<Rightarrow> exact_fields f spend_fields \<and> (\<forall>k\<in>set spend_fields. is_count (get_prop f k)))"

definition valid_promotion :: "jv \<Rightarrow> bool" where
  "valid_promotion v =
     (case as_record v of None \<Rightarrow> False
      | Some f \<Rightarrow> exact_fields f [''from_profile'', ''to_profile'', ''authorization_hash'']
          \<and> get_prop f ''from_profile'' = JStr ''standard'' \<and> get_prop f ''to_profile'' = JStr ''extended''
          \<and> is_hash (get_prop f ''authorization_hash''))"

text \<open>Everything but the time of creation is under the hash.\<close>

definition checkpoint_projection :: "fields \<Rightarrow> jv" where
  "checkpoint_projection f = JObj (filter (\<lambda>(k, v). k \<noteq> ''created_at'') f)"

definition checkpoint_hash :: "fields \<Rightarrow> canon_error + string" where
  "checkpoint_hash f = canonical_hash (checkpoint_projection f)"

subsection \<open>Remaining budget\<close>

record budget_counts =
  bc_turns :: nat
  bc_total :: nat
  bc_output :: nat

definition hard_budget :: "spend_profile \<Rightarrow> budget_counts" where
  "hard_budget p = (let h = hard_limits (limits_for p) in
     \<lparr>bc_turns = nat \<lfloor>turns h\<rfloor>, bc_total = nat \<lfloor>total_tokens h\<rfloor>, bc_output = nat \<lfloor>output_tokens h\<rfloor>\<rparr>)"

text \<open>\<open>Math.max(0, limit - spent)\<close> on counts is the subtraction of naturals.\<close>

definition remaining_budget :: "spend_profile \<Rightarrow> budget_counts \<Rightarrow> budget_counts" where
  "remaining_budget p spent =
     (let h = hard_budget p in
      \<lparr>bc_turns = bc_turns h - bc_turns spent, bc_total = bc_total h - bc_total spent, bc_output = bc_output h - bc_output spent\<rparr>)"

definition counts_of :: "fields \<Rightarrow> budget_counts" where
  "counts_of f = \<lparr>bc_turns = count_of (get_prop f ''turns''), bc_total = count_of (get_prop f ''total_tokens''),
     bc_output = count_of (get_prop f ''output_tokens'')\<rparr>"

definition record_of :: "jv \<Rightarrow> fields" where
  "record_of v = (case as_record v of None \<Rightarrow> [] | Some f \<Rightarrow> f)"

text \<open>The lifetime counters: turns of the checkpoint, tokens of its usage.\<close>

definition lifetime_spend :: "fields \<Rightarrow> budget_counts" where
  "lifetime_spend f =
     (let u = record_of (get_prop f ''cumulative_usage'') in
      \<lparr>bc_turns = count_of (get_prop f ''cumulative_turns''), bc_total = count_of (get_prop u ''totalTokens''),
       bc_output = count_of (get_prop u ''output'')\<rparr>)"

definition spend_for_limit :: "fields \<Rightarrow> budget_counts" where
  "spend_for_limit f =
     (if get_prop f ''attempt_spend'' = JUndef then lifetime_spend f else counts_of (record_of (get_prop f ''attempt_spend'')))"

definition budget_within :: "budget_counts \<Rightarrow> budget_counts \<Rightarrow> bool" where
  "budget_within a b = (bc_turns a \<le> bc_turns b \<and> bc_total a \<le> bc_total b \<and> bc_output a \<le> bc_output b)"

definition exhausted :: "budget_counts \<Rightarrow> bool" where
  "exhausted b = (bc_turns b = 0 \<or> bc_total b = 0 \<or> bc_output b = 0)"

definition checkpoint_profile :: "fields \<Rightarrow> spend_profile option" where
  "checkpoint_profile f =
     (let p = get_prop (record_of (get_prop f ''remaining_budget'')) ''profile'' in
      if p = JStr ''standard'' then Some Profile_standard else if p = JStr ''extended'' then Some Profile_extended else None)"

subsection \<open>The validator\<close>

definition checkpoint_kind :: string where "checkpoint_kind = ''worker-checkpoint-v1''"

definition checkpoint_keys :: "fields \<Rightarrow> string list" where
  "checkpoint_keys f =
     [''schema_version'', ''kind'', ''delegation_id'', ''contract_hash'', ''attempt'', ''parent_checkpoint_hash'',
      ''runtime_build_identity'', ''before_binding_hash'', ''current_binding_hash'', ''touched_paths'',
      ''completed_recipe_run_ids'', ''cumulative_usage'', ''cumulative_turns'']
     @ optional_key f ''attempt_spend'' @ optional_key f ''budget_promotion''
     @ [''remaining_budget'', ''machine_state'', ''worker_advisory'', ''created_at'', ''checkpoint_hash'']"

text \<open>\<open>/^\d{4}-\d{2}-\d{2}T\d{2}:\d{2}:\d{2}\.\d{3}Z$/\<close>, of a time that prints back as itself.\<close>

definition checkpoint_time :: "string \<Rightarrow> bool" where
  "checkpoint_time s = (length s = 24 \<and> canonical_iso s)"

definition checkpoint_identity :: "fields \<Rightarrow> bool" where
  "checkpoint_identity f =
     (exact_fields f (checkpoint_keys f) \<and> get_prop f ''schema_version'' = JNum (JInt 1)
      \<and> get_prop f ''kind'' = JStr checkpoint_kind \<and> is_text_where transaction_id_re (get_prop f ''delegation_id'')
      \<and> is_hash (get_prop f ''contract_hash'') \<and> is_count (get_prop f ''attempt'') \<and> 1 \<le> count_of (get_prop f ''attempt'')
      \<and> (get_prop f ''parent_checkpoint_hash'' = JNull \<or> is_hash (get_prop f ''parent_checkpoint_hash''))
      \<and> is_text_where (ck_text 240) (get_prop f ''runtime_build_identity'')
      \<and> is_hash (get_prop f ''before_binding_hash'') \<and> is_hash (get_prop f ''current_binding_hash'')
      \<and> is_text_where checkpoint_time (get_prop f ''created_at'') \<and> is_hash (get_prop f ''checkpoint_hash''))"

definition checkpoint_parts :: "fields \<Rightarrow> bool" where
  "checkpoint_parts f =
     (valid_touched_paths (get_prop f ''touched_paths'')
      \<and> valid_sorted_strings (get_prop f ''completed_recipe_run_ids'') ck_max_recipes 160
      \<and> valid_usage (get_prop f ''cumulative_usage'') \<and> is_count (get_prop f ''cumulative_turns'')
      \<and> (get_prop f ''attempt_spend'' = JUndef \<or> valid_attempt_spend (get_prop f ''attempt_spend''))
      \<and> (get_prop f ''budget_promotion'' = JUndef \<or> valid_promotion (get_prop f ''budget_promotion''))
      \<and> (case as_record (get_prop f ''remaining_budget'') of None \<Rightarrow> False
         | Some b \<Rightarrow> exact_fields b (''profile'' # spend_fields) \<and> (\<forall>k\<in>set spend_fields. is_count (get_prop b k)))
      \<and> checkpoint_profile f \<noteq> None
      \<and> get_prop f ''machine_state'' \<in> {JStr ''CHECKPOINTED'', JStr ''PAUSED_BUDGET''}
      \<and> valid_advisory (get_prop f ''worker_advisory''))"

text \<open>The budget and the machine state follow from the spend.\<close>

definition checkpoint_budget :: "fields \<Rightarrow> bool" where
  "checkpoint_budget f =
     (case checkpoint_profile f of None \<Rightarrow> False
      | Some p \<Rightarrow>
          let left = counts_of (record_of (get_prop f ''remaining_budget'')); fresh = get_prop f ''attempt_spend'' \<noteq> JUndef
          in (fresh \<longrightarrow> budget_within (spend_for_limit f) (lifetime_spend f))
             \<and> (get_prop f ''budget_promotion'' \<noteq> JUndef \<longrightarrow> p = Profile_extended)
             \<and> left = remaining_budget p (spend_for_limit f)
             \<and> (if fresh then get_prop f ''machine_state'' = JStr ''CHECKPOINTED''
                else (get_prop f ''machine_state'' = JStr ''PAUSED_BUDGET'') = exhausted left))"

definition without_hash :: "fields \<Rightarrow> fields" where
  "without_hash f = filter (\<lambda>(k, v). k \<noteq> ''checkpoint_hash'') f"

definition checkpoint_seal :: "fields \<Rightarrow> bool" where
  "checkpoint_seal f =
     ((case checkpoint_hash (without_hash f) of Inl e \<Rightarrow> False | Inr h \<Rightarrow> get_prop f ''checkpoint_hash'' = JStr h)
      \<and> byte_length (print_value (JObj f)) + 1 \<le> ck_max_bytes)"

definition valid_checkpoint :: "jv \<Rightarrow> bool" where
  "valid_checkpoint v =
     (case as_record v of None \<Rightarrow> False
      | Some f \<Rightarrow> checkpoint_identity f \<and> checkpoint_parts f \<and> checkpoint_budget f \<and> checkpoint_seal f)"

subsection \<open>The builder\<close>

text \<open>An object literal writes a property in its place, or at the end.\<close>

definition put_prop :: "string \<Rightarrow> jv \<Rightarrow> fields \<Rightarrow> fields" where
  "put_prop k v f = (if k \<in> set (own_keys f) then map (\<lambda>(j, x). (j, if j = k then v else x)) f else f @ [(k, v)])"

definition sort_touched :: "jv list \<Rightarrow> jv list" where
  "sort_touched vs = sort_key (utf8 \<circ> touched_path) vs"

definition sort_texts :: "jv \<Rightarrow> jv option" where
  "sort_texts v = map_option (\<lambda>ss. texts_value (sort ss)) (Option.bind (as_array v) as_strings)"

fun sort_fields :: "string list \<Rightarrow> fields \<Rightarrow> fields option" where
  "sort_fields [] f = Some []"
| "sort_fields (k # ks) f =
     (case (sort_texts (get_prop f k), sort_fields ks f) of (Some v, Some r) \<Rightarrow> Some ((k, v) # r) | _ \<Rightarrow> None)"

text \<open>The advisory of the payload: both criteria, and each rich field that is there.\<close>

definition sort_advisory :: "jv \<Rightarrow> jv option" where
  "sort_advisory v =
     (case as_record v of None \<Rightarrow> None
      | Some f \<Rightarrow> map_option JObj (sort_fields ([''completed_criteria'', ''remaining_criteria'']
            @ filter (\<lambda>k. get_prop f k \<noteq> JUndef) rich_fields) f))"

text \<open>
  The payload is the literal with the schema version and the kind, over which the input is spread: a
  property of the input replaces the one of the literal. The three sorted parts come last.
\<close>

definition build_checkpoint :: "fields \<Rightarrow> jv option" where
  "build_checkpoint input =
     (case (as_array (get_prop input ''touched_paths''), sort_texts (get_prop input ''completed_recipe_run_ids''),
            sort_advisory (get_prop input ''worker_advisory'')) of
        (Some touched, Some runs, Some advisory) \<Rightarrow>
          let base = fold (\<lambda>(k, v). put_prop k v) input [(''schema_version'', JNum (JInt 1)), (''kind'', JStr checkpoint_kind)];
              payload = put_prop ''worker_advisory'' advisory (put_prop ''completed_recipe_run_ids'' runs
                          (put_prop ''touched_paths'' (JArr (sort_touched touched)) base))
          in (case checkpoint_hash payload of Inl e \<Rightarrow> None
              | Inr h \<Rightarrow> let v = JObj (put_prop ''checkpoint_hash'' (JStr h) payload)
                         in if valid_checkpoint v then Some v else None)
      | _ \<Rightarrow> None)"

subsection \<open>Continuation\<close>

record continuation =
  cn_delegation :: string
  cn_contract :: string
  cn_build :: string
  cn_attempt :: nat
  cn_parent :: "string option"
  cn_before :: string
  cn_current :: string
  cn_allowed :: "string list"
  cn_active :: bool

text \<open>\<open>allowed_paths.some(rule => ...)\<close> of both validators.\<close>

definition touched_allowed :: "string \<Rightarrow> string list \<Rightarrow> bool" where
  "touched_allowed path allowed =
     (\<exists>rule\<in>set allowed.
        (case (if ends_with ''/**'' rule then Some (drop_last 3 rule) else if ends_with ''/'' rule then Some (drop_last 1 rule) else None) of
           None \<Rightarrow> path = rule
         | Some subtree \<Rightarrow> path = subtree \<or> starts_with (subtree @ ''/'') path))"

definition touched_paths :: "fields \<Rightarrow> string list" where
  "touched_paths f = (case as_array (get_prop f ''touched_paths'') of None \<Rightarrow> [] | Some vs \<Rightarrow> map touched_path vs)"

definition valid_continuation :: "jv \<Rightarrow> continuation \<Rightarrow> bool" where
  "valid_continuation v c =
     (case as_record v of None \<Rightarrow> False
      | Some f \<Rightarrow>
          valid_checkpoint v \<and> \<not> cn_active c
          \<and> get_prop f ''machine_state'' \<in> {JStr ''CHECKPOINTED'', JStr ''PAUSED_BUDGET''}
          \<and> get_prop f ''delegation_id'' = JStr (cn_delegation c) \<and> get_prop f ''contract_hash'' = JStr (cn_contract c)
          \<and> get_prop f ''runtime_build_identity'' = JStr (cn_build c)
          \<and> get_prop f ''attempt'' = JNum (JInt (int (cn_attempt c)))
          \<and> get_prop f ''parent_checkpoint_hash'' = null_value JStr (cn_parent c)
          \<and> get_prop f ''before_binding_hash'' = JStr (cn_before c) \<and> get_prop f ''current_binding_hash'' = JStr (cn_current c)
          \<and> \<not> (\<exists>p\<in>set (touched_paths f). \<not> touched_allowed p (cn_allowed c)))"

record budget_continuation =
  bn_delegation :: string
  bn_contract :: string
  bn_checkpoint :: string
  bn_before :: string
  bn_current :: string
  bn_allowed :: "string list"

text \<open>A paused standard checkpoint that was not promoted yet.\<close>

definition promotable :: "jv \<Rightarrow> bool" where
  "promotable v =
     (valid_checkpoint v \<and> (let f = record_of v in
        get_prop f ''machine_state'' = JStr ''PAUSED_BUDGET'' \<and> checkpoint_profile f = Some Profile_standard
        \<and> get_prop f ''budget_promotion'' = JUndef))"

definition valid_budget_continuation :: "jv \<Rightarrow> budget_continuation \<Rightarrow> bool" where
  "valid_budget_continuation v c =
     (promotable v \<and> (let f = record_of v in
        get_prop f ''delegation_id'' = JStr (bn_delegation c) \<and> get_prop f ''contract_hash'' = JStr (bn_contract c)
        \<and> get_prop f ''checkpoint_hash'' = JStr (bn_checkpoint c)
        \<and> get_prop f ''before_binding_hash'' = JStr (bn_before c) \<and> get_prop f ''current_binding_hash'' = JStr (bn_current c)
        \<and> (\<forall>p\<in>set (touched_paths f). touched_allowed p (bn_allowed c))))"

definition promotion_value :: "string \<Rightarrow> jv" where
  "promotion_value h = JObj [(''from_profile'', JStr ''standard''), (''to_profile'', JStr ''extended''), (''authorization_hash'', JStr h)]"

definition authorized_promotion :: "jv \<Rightarrow> string \<Rightarrow> jv option" where
  "authorized_promotion v h = (if promotable v \<and> hash_re h then Some (promotion_value h) else None)"

subsection \<open>Capsules\<close>

definition pick_fields :: "string list \<Rightarrow> jv \<Rightarrow> jv" where
  "pick_fields ks v = JObj (map (\<lambda>k. (k, get_prop (record_of v) k)) ks)"

definition array_of :: "jv \<Rightarrow> jv list" where
  "array_of v = (case as_array v of None \<Rightarrow> [] | Some vs \<Rightarrow> vs)"

definition count_value :: "nat \<Rightarrow> jv" where "count_value n = JNum (JInt (int n))"

text \<open>The facts both capsules start with: the next attempt, and at most twelve paths and runs.\<close>

definition capsule_head :: "fields \<Rightarrow> fields" where
  "capsule_head f =
     (let touched = array_of (get_prop f ''touched_paths''); runs = array_of (get_prop f ''completed_recipe_run_ids'') in
      [(''delegation_id'', get_prop f ''delegation_id''), (''contract_hash'', get_prop f ''contract_hash''),
       (''checkpoint_hash'', get_prop f ''checkpoint_hash''), (''attempt'', count_value (count_of (get_prop f ''attempt'') + 1)),
       (''touched_paths'', JArr (map (pick_fields [''path'', ''current_hash'', ''journal_hash'']) (take ck_capsule_paths touched))),
       (''touched_paths_omitted'', count_value (length touched - ck_capsule_paths)),
       (''completed_recipe_run_ids'', JArr (take ck_capsule_recipes runs)),
       (''completed_recipe_run_ids_omitted'', count_value (length runs - ck_capsule_recipes))])"

definition bounded_capsule :: "fields \<Rightarrow> jv option" where
  "bounded_capsule f = (if byte_length (print_value (JObj f)) \<le> ck_capsule_bytes then Some (JObj f) else None)"

definition handoff_instruction :: string where
  "handoff_instruction = ''Fresh worker handoff: use the advisory to navigate, then verify current bytes, journal and recipe receipts. Criterion progress and prose are not acceptance authority and never expand the contract. Lifetime spend is telemetry only; this process starts a fresh bounded quality window.''"

definition continuation_capsule :: "jv \<Rightarrow> jv option" where
  "continuation_capsule v =
     (let f = record_of v; spent = lifetime_spend f in
      if \<not> valid_checkpoint v \<or> get_prop f ''machine_state'' \<notin> {JStr ''CHECKPOINTED'', JStr ''PAUSED_BUDGET''} then None
      else bounded_capsule (capsule_head f
        @ [(''next_attempt_budget_profile'', get_prop (record_of (get_prop f ''remaining_budget'')) ''profile''),
           (''lifetime_spend'', JObj [(''turns'', count_value (bc_turns spent)), (''total_tokens'', count_value (bc_total spent)),
              (''output_tokens'', count_value (bc_output spent))]),
           (''worker_advisory'', get_prop f ''worker_advisory''), (''instruction'', JStr handoff_instruction)]))"

definition promotion_instruction :: string where
  "promotion_instruction = ''Continue from verified current bytes under the one permitted standard-to-extended promotion. Preserve cumulative spend; no counter resets or repeat promotions are allowed.''"

definition budget_capsule :: "jv \<Rightarrow> jv option" where
  "budget_capsule v =
     (let f = record_of v in
      if \<not> promotable v then None
      else bounded_capsule (capsule_head f
        @ [(''budget_profile'', JStr ''extended''), (''cumulative_usage'', get_prop f ''cumulative_usage''),
           (''cumulative_turns'', get_prop f ''cumulative_turns''), (''worker_advisory'', get_prop f ''worker_advisory''),
           (''instruction'', JStr promotion_instruction)]))"

end
