(* ===== verification/Checkpoint_Safety.thy ===== *)
theory Checkpoint_Safety
  imports Worker_Checkpoint Json_Size
begin

section \<open>What a worker checkpoint guarantees\<close>

subsection \<open>The hash\<close>

lemma hash_Inr: "canonical_hash v = Inr h \<Longrightarrow> serializable v \<and> h = digest v"
proof -
  assume h: "canonical_hash v = Inr h"
  then have "serializable v"
    using serialize_Inr_serializable by (auto simp: canonical_hash_def canonical_json_def split: sum.splits)
  then show ?thesis using h by (simp add: canonical_hash_digest)
qed

lemma sorted_objects_agree:
  assumes "sort_keys (JObj F) = sort_keys (JObj G)" "distinct (map fst F)" "distinct (map fst G)"
  shows "sort_keys (get_prop F k) = sort_keys (get_prop G k)"
proof -
  have eq: "map (\<lambda>k. (k, sort_keys (get_prop F k))) (sort (own_keys F)) = map (\<lambda>k. (k, sort_keys (get_prop G k))) (sort (own_keys G))"
    using assms by (simp add: sort_keys_object del: sort_keys.simps)
  from arg_cong[OF this, of "map fst"] have keys: "sort (own_keys F) = sort (own_keys G)" by (simp add: comp_def)
  show ?thesis
  proof (cases "k \<in> set (own_keys F)")
    case True
    then have "k \<in> set (sort (own_keys F))" by simp
    then show ?thesis using eq keys by auto
  next
    case False
    moreover from False keys have "k \<notin> set (own_keys G)" by (metis set_sort)
    ultimately show ?thesis by (simp add: get_prop_def own_keys_def map_of_eq_None_iff[symmetric])
  qed
qed

lemma get_prop_filter: "get_prop (filter (\<lambda>(j, v). P j) f) k = (if P k then get_prop f k else JUndef)"
  by (induction f) (auto simp: get_prop_def)

lemma sealed_payload: "checkpoint_projection (without_hash f) = JObj (filter (\<lambda>(k, v). k \<noteq> ''created_at'' \<and> k \<noteq> ''checkpoint_hash'') f)"
  by (auto simp: checkpoint_projection_def without_hash_def intro!: filter_cong)

lemma payload_ok:
  assumes "checkpoint_seal f" "wf_value (JObj f)"
  shows "value_ok (checkpoint_projection (without_hash f))" "get_prop f ''checkpoint_hash'' = JStr (digest (checkpoint_projection (without_hash f)))"
proof -
  obtain h where "checkpoint_hash (without_hash f) = Inr h" and h: "get_prop f ''checkpoint_hash'' = JStr h"
    using assms(1) by (auto simp: checkpoint_seal_def split: sum.splits)
  then have s: "serializable (checkpoint_projection (without_hash f))" "h = digest (checkpoint_projection (without_hash f))"
    using hash_Inr by (auto simp: checkpoint_hash_def)
  show "get_prop f ''checkpoint_hash'' = JStr (digest (checkpoint_projection (without_hash f)))" using h s(2) by simp
  have "wf_value (checkpoint_projection (without_hash f))"
    using assms(2) by (auto simp: sealed_payload distinct_map_filter)
  with s(1) show "value_ok (checkpoint_projection (without_hash f))" by (simp add: value_ok_def)
qed

lemma valid_checkpoint_parts:
  "valid_checkpoint (JObj f) \<longleftrightarrow> checkpoint_identity f \<and> checkpoint_parts f \<and> checkpoint_budget f \<and> checkpoint_seal f"
  by (simp add: valid_checkpoint_def)

text \<open>The hash of a checkpoint binds everything in it but the time of its creation: two valid checkpoints with the
  same hash have the same data in every other field, unless SHA-256 collides on their two projections.\<close>

theorem checkpoint_hash_binds:
  assumes "valid_checkpoint (JObj f)" "valid_checkpoint (JObj g)" "wf_value (JObj f)" "wf_value (JObj g)"
    and "get_prop f ''checkpoint_hash'' = get_prop g ''checkpoint_hash''" and "k \<noteq> ''created_at''"
  shows "sort_keys (get_prop f k) = sort_keys (get_prop g k)
    \<or> collides (canonical_text (checkpoint_projection (without_hash f))) (canonical_text (checkpoint_projection (without_hash g)))"
proof -
  let ?P = "\<lambda>f. checkpoint_projection (without_hash f)"
  note F = payload_ok[of f] and G = payload_ok[of g]
  have ok: "value_ok (?P f)" "value_ok (?P g)" and same: "digest (?P f) = digest (?P g)"
    using assms F G by (simp_all add: valid_checkpoint_parts)
  show ?thesis
  proof (cases "canonical_text (?P f) = canonical_text (?P g)")
    case False
    with same show ?thesis by (simp add: collides_def digest_def)
  next
    case True
    then have "sort_keys (?P f) = sort_keys (?P g)" using canonical_text_inj ok by blast
    then have "sort_keys (get_prop (filter (\<lambda>(k, v). k \<noteq> ''created_at'' \<and> k \<noteq> ''checkpoint_hash'') f) k)
        = sort_keys (get_prop (filter (\<lambda>(k, v). k \<noteq> ''created_at'' \<and> k \<noteq> ''checkpoint_hash'') g) k)"
      unfolding sealed_payload by (rule sorted_objects_agree) (use assms(3,4) in \<open>simp_all add: distinct_map_filter\<close>)
    then show ?thesis using assms(5,6) by (cases "k = ''checkpoint_hash''") (simp_all add: get_prop_filter)
  qed
qed

subsection \<open>Continuation\<close>

lemma touched_allowed_rules: "touched_allowed p allowed = path_allowed_v2 p allowed"
  by (auto simp: touched_allowed_def path_allowed_v2_def)

lemma increasing_sorted: "increasing ss \<Longrightarrow> sorted_wrt (\<lambda>a b. utf8 a < utf8 b) ss"
proof (induction ss rule: increasing.induct)
  case (1 a b xs)
  then have step: "utf8 a < utf8 b" "sorted_wrt (\<lambda>a b. utf8 a < utf8 b) (b # xs)"
    by (auto simp: byte_compare_def split: if_splits)
  then have "\<forall>x\<in>set xs. utf8 b < utf8 x" by simp
  with step show ?case by (auto intro: less_trans)
qed simp_all

lemma increasing_distinct: "increasing ss \<Longrightarrow> distinct ss"
proof -
  have "sorted_wrt (\<lambda>a b. utf8 a < utf8 b) ss \<Longrightarrow> distinct ss" by (induction ss) auto
  then show "increasing ss \<Longrightarrow> ?thesis" using increasing_sorted by blast
qed

text \<open>The limits of the two profiles a checkpoint can name.\<close>

lemma hard_budgets:
  "hard_budget Profile_standard = \<lparr>bc_turns = 64, bc_total = 10880000, bc_output = 320000\<rparr>"
  "hard_budget Profile_extended = \<lparr>bc_turns = 96, bc_total = 17408000, bc_output = 512000\<rparr>"
  by (simp_all add: hard_budget_def)

text \<open>What an attempt has used up of one dimension: the spend of the attempt where it is recorded, and the
  cumulative counters otherwise.\<close>

definition used_up :: "fields \<Rightarrow> fields \<Rightarrow> string \<Rightarrow> nat" where
  "used_up f u k =
     (if get_prop f ''attempt_spend'' \<noteq> JUndef then count_of (get_prop (record_of (get_prop f ''attempt_spend'')) k)
      else if k = ''turns'' then count_of (get_prop f ''cumulative_turns'')
      else if k = ''total_tokens'' then count_of (get_prop u ''totalTokens'') else count_of (get_prop u ''output''))"

lemma used_up_counts:
  "spend_for_limit f = \<lparr>bc_turns = used_up f u ''turns'', bc_total = used_up f u ''total_tokens'', bc_output = used_up f u ''output_tokens''\<rparr>"
  if "get_prop f ''cumulative_usage'' = JObj u"
  using that by (simp add: spend_for_limit_def lifetime_spend_def counts_of_def used_up_def record_of_def Let_def)

lemma profile_budget:
  assumes "checkpoint_profile f = Some p" "get_prop f ''remaining_budget'' = JObj b"
    and "counts_of b = remaining_budget p \<lparr>bc_turns = n, bc_total = t, bc_output = q\<rparr>"
  shows "get_prop b ''profile'' = JStr ''standard'' \<and> count_of (get_prop b ''turns'') = 64 - n
           \<and> count_of (get_prop b ''total_tokens'') = 10880000 - t \<and> count_of (get_prop b ''output_tokens'') = 320000 - q
         \<or> get_prop b ''profile'' = JStr ''extended'' \<and> count_of (get_prop b ''turns'') = 96 - n
           \<and> count_of (get_prop b ''total_tokens'') = 17408000 - t \<and> count_of (get_prop b ''output_tokens'') = 512000 - q"
proof -
  have "p = Profile_standard \<and> get_prop b ''profile'' = JStr ''standard'' \<or> p = Profile_extended \<and> get_prop b ''profile'' = JStr ''extended''"
    using assms(1,2) by (auto simp: checkpoint_profile_def record_of_def Let_def split: if_splits)
  then show ?thesis using assms(3) by (elim disjE) (simp_all add: remaining_budget_def counts_of_def hard_budgets)
qed

text \<open>C26: A worker continues from a checkpoint only inside its contract. No other attempt is active, and the
  delegation, the contract, the runtime build, the attempt number, the parent and both bindings are the named ones;
  every touched path is inside the allowed rules by the same relation the transaction uses, each path once. The
  remaining budget is what is really left, in every dimension: the hard limit of the profile (64 turns, 10880000
  tokens, 320000 output tokens for standard; 96, 17408000 and 512000 for extended) less what the attempt used up, and
  zero where that is more; what an attempt used up is never more than the lifetime counters; and the checkpoint is
  paused exactly when it records no attempt spend and some dimension is exhausted.\<close>

theorem continuation_stays_in_contract:
  assumes "valid_continuation v c"
  shows "\<exists>f b u. v = JObj f \<and> get_prop f ''remaining_budget'' = JObj b \<and> get_prop f ''cumulative_usage'' = JObj u
    \<and> \<not> cn_active c \<and> get_prop f ''delegation_id'' = JStr (cn_delegation c)
    \<and> get_prop f ''contract_hash'' = JStr (cn_contract c) \<and> get_prop f ''runtime_build_identity'' = JStr (cn_build c)
    \<and> get_prop f ''attempt'' = JNum (JInt (int (cn_attempt c))) \<and> get_prop f ''parent_checkpoint_hash'' = null_value JStr (cn_parent c)
    \<and> get_prop f ''before_binding_hash'' = JStr (cn_before c) \<and> get_prop f ''current_binding_hash'' = JStr (cn_current c)
    \<and> (\<forall>path\<in>set (touched_paths f). path_allowed_v2 path (cn_allowed c)) \<and> distinct (touched_paths f)
    \<and> (let n = used_up f u ''turns''; t = used_up f u ''total_tokens''; q = used_up f u ''output_tokens'';
           left = (\<lambda>k. count_of (get_prop b k))
        in (get_prop b ''profile'' = JStr ''standard'' \<and> left ''turns'' = 64 - n
              \<and> left ''total_tokens'' = 10880000 - t \<and> left ''output_tokens'' = 320000 - q
            \<or> get_prop b ''profile'' = JStr ''extended'' \<and> left ''turns'' = 96 - n
              \<and> left ''total_tokens'' = 17408000 - t \<and> left ''output_tokens'' = 512000 - q)
          \<and> n \<le> count_of (get_prop f ''cumulative_turns'') \<and> t \<le> count_of (get_prop u ''totalTokens'')
          \<and> q \<le> count_of (get_prop u ''output'')
          \<and> (get_prop f ''machine_state'' = JStr ''PAUSED_BUDGET''
               \<longleftrightarrow> get_prop f ''attempt_spend'' = JUndef \<and> (left ''turns'' = 0 \<or> left ''total_tokens'' = 0 \<or> left ''output_tokens'' = 0)))"
proof -
  obtain f where v: "v = JObj f" and ok: "valid_checkpoint v" and c: "\<not> cn_active c"
      "get_prop f ''delegation_id'' = JStr (cn_delegation c)" "get_prop f ''contract_hash'' = JStr (cn_contract c)"
      "get_prop f ''runtime_build_identity'' = JStr (cn_build c)" "get_prop f ''attempt'' = JNum (JInt (int (cn_attempt c)))"
      "get_prop f ''parent_checkpoint_hash'' = null_value JStr (cn_parent c)" "get_prop f ''before_binding_hash'' = JStr (cn_before c)"
      "get_prop f ''current_binding_hash'' = JStr (cn_current c)" "\<forall>p\<in>set (touched_paths f). path_allowed_v2 p (cn_allowed c)"
    using assms by (auto simp: valid_continuation_def touched_allowed_rules split: option.splits)
  have parts: "checkpoint_parts f" "checkpoint_budget f" using ok v by (simp_all add: valid_checkpoint_parts)
  have obj: "as_record w = Some g \<Longrightarrow> w = JObj g" for w g by (cases w) auto
  obtain vs where vs: "get_prop f ''touched_paths'' = JArr vs" "increasing (map touched_path vs)"
    using parts(1) by (auto simp: checkpoint_parts_def valid_touched_paths_def split: option.splits)
  have once: "distinct (touched_paths f)" using increasing_distinct[OF vs(2)] by (simp add: touched_paths_def vs(1))
  obtain b where b: "get_prop f ''remaining_budget'' = JObj b"
    using parts(1) by (auto simp: checkpoint_parts_def dest!: obj split: option.splits)
  obtain u where u: "get_prop f ''cumulative_usage'' = JObj u"
    using parts(1) by (auto simp: checkpoint_parts_def valid_usage_def dest!: obj split: option.splits)
  obtain p where p: "checkpoint_profile f = Some p" using parts(2) by (auto simp: checkpoint_budget_def split: option.splits)
  note spent = used_up_counts[OF u]
  have left: "counts_of b = remaining_budget p (spend_for_limit f)"
    and within: "budget_within (spend_for_limit f) (lifetime_spend f)"
    and paused: "get_prop f ''machine_state'' = JStr ''PAUSED_BUDGET''
         \<longleftrightarrow> get_prop f ''attempt_spend'' = JUndef \<and> exhausted (counts_of b)"
    using parts(2) p b by (auto simp: checkpoint_budget_def record_of_def Let_def budget_within_def spend_for_limit_def split: if_splits)
  have life: "used_up f u ''turns'' \<le> count_of (get_prop f ''cumulative_turns'')"
    "used_up f u ''total_tokens'' \<le> count_of (get_prop u ''totalTokens'')" "used_up f u ''output_tokens'' \<le> count_of (get_prop u ''output'')"
    using within by (simp_all add: spent budget_within_def lifetime_spend_def record_of_def u Let_def)
  have stop: "exhausted (counts_of b) \<longleftrightarrow> count_of (get_prop b ''turns'') = 0 \<or> count_of (get_prop b ''total_tokens'') = 0
      \<or> count_of (get_prop b ''output_tokens'') = 0"
    by (simp add: exhausted_def counts_of_def)
  show ?thesis
    by (intro exI[of _ f] exI[of _ b] exI[of _ u] conjI v b u c once)
      (use profile_budget[OF p b left[unfolded spent]] life paused[unfolded stop] in \<open>simp add: Let_def\<close>)
qed

subsection \<open>A checkpoint\<close>

text \<open>One attempt that touched one file; the hash and the creation time are parameters.\<close>

definition ck_hash_a :: string where "ck_hash_a = replicate 64 (CHR ''a'')"

definition ck_usage :: jv where
  "ck_usage = JObj [(''input'', JNum (JInt 10)), (''output'', JNum (JInt 5)), (''cacheRead'', JNum (JInt 0)),
     (''cacheWrite'', JNum (JInt 0)), (''totalTokens'', JNum (JInt 15)),
     (''cost'', JObj (map (\<lambda>k. (k, JNum (JInt 0))) cost_fields))]"

definition ck_touched :: jv where
  "ck_touched = JArr [JObj [(''path'', JStr ''src/a.ts''), (''before_hash'', JNull), (''current_hash'', JStr ck_hash_a),
     (''journal_hash'', JStr ck_hash_a)]]"

definition ck_fields :: "string \<Rightarrow> string \<Rightarrow> fields" where
  "ck_fields created h =
     [(''schema_version'', JNum (JInt 1)), (''kind'', JStr checkpoint_kind), (''delegation_id'', JStr ''20260101-000000-abcd''),
      (''contract_hash'', JStr ck_hash_a), (''attempt'', JNum (JInt 1)), (''parent_checkpoint_hash'', JNull),
      (''runtime_build_identity'', JStr ''build-1''), (''before_binding_hash'', JStr ck_hash_a),
      (''current_binding_hash'', JStr ck_hash_a), (''touched_paths'', ck_touched),
      (''completed_recipe_run_ids'', JArr []), (''cumulative_usage'', ck_usage), (''cumulative_turns'', JNum (JInt 1)),
      (''remaining_budget'', JObj [(''profile'', JStr ''standard''), (''turns'', JNum (JInt 63)),
          (''total_tokens'', JNum (JInt 10879985)), (''output_tokens'', JNum (JInt 319995))]),
      (''machine_state'', JStr ''CHECKPOINTED''),
      (''worker_advisory'', JObj [(''completed_criteria'', JArr []), (''remaining_criteria'', JArr [])]),
      (''created_at'', JStr created), (''checkpoint_hash'', JStr h)]"

lemma count_read [simp]: "safe_nat (JNum (JInt i)) = (if 0 \<le> i \<and> i \<le> max_safe_integer then Some (nat i) else None)"
  by (simp add: safe_nat_def)

lemma ck_budget: "checkpoint_budget (ck_fields created h)"
  by (simp add: checkpoint_budget_def checkpoint_profile_def ck_fields_def record_of_def counts_of_def count_of_def
      spend_for_limit_def lifetime_spend_def remaining_budget_def hard_budgets ck_usage_def exhausted_def max_safe_integer_def Let_def)

lemma ck_touched_valid: "valid_touched_paths ck_touched"
  by code_simp

lemma ck_usage_valid: "valid_usage ck_usage"
  by (simp add: valid_usage_def ck_usage_def cost_fields_def exact_fields_def own_keys_def optional_key_def is_count_def
      finite_count_def max_safe_integer_def)

lemma ck_advisory_valid: "valid_advisory (JObj [(''completed_criteria'', JArr []), (''remaining_criteria'', JArr [])])"
  by code_simp

lemma ck_parts: "checkpoint_parts (ck_fields created h)"
  using ck_touched_valid ck_usage_valid ck_advisory_valid
  by (simp add: checkpoint_parts_def ck_fields_def valid_sorted_strings_def sorted_texts_def is_count_def max_safe_integer_def
      exact_fields_def own_keys_def spend_fields_def checkpoint_profile_def record_of_def ck_max_recipes_def)

lemma ck_identity: "checkpoint_time created \<Longrightarrow> hash_re h \<Longrightarrow> checkpoint_identity (ck_fields created h)"
proof -
  have "transaction_id_re ''20260101-000000-abcd''" "hash_re ck_hash_a" "ck_text 240 ''build-1''" by code_simp+
  then show "checkpoint_time created \<Longrightarrow> hash_re h \<Longrightarrow> ?thesis"
    by (simp add: checkpoint_identity_def checkpoint_keys_def ck_fields_def exact_fields_def own_keys_def optional_key_def
        is_text_where_def is_hash_def is_count_def count_of_def max_safe_integer_def)
qed

definition ck_digest :: "string \<Rightarrow> string" where
  "ck_digest created = digest (checkpoint_projection (without_hash (ck_fields created [])))"

lemma ck_projection: "checkpoint_projection (without_hash (ck_fields created h)) = checkpoint_projection (without_hash (ck_fields t []))"
  by (simp add: checkpoint_projection_def without_hash_def ck_fields_def)

lemma ck_projection_serializable: "serializable (checkpoint_projection (without_hash (ck_fields created h)))"
  by (simp add: checkpoint_projection_def without_hash_def ck_fields_def ck_touched_def ck_usage_def cost_fields_def)

lemma number_lengths: "length (int_text 10) = 2" "length (int_text 15) = 2" "length (int_text 63) = 2" "length (int_text 319995) = 6"
    "length (int_text 10879985) = 8"
  by (simp_all add: int_text_def nat_text.simps)

lemma ck_weight: "length created \<le> 24 \<Longrightarrow> length h \<le> 64 \<Longrightarrow> json_weight (JObj (ck_fields created h)) + 1 \<le> ck_max_bytes"
  by (simp add: ck_fields_def ck_max_bytes_def ck_touched_def ck_usage_def cost_fields_def ck_hash_a_def checkpoint_kind_def number_lengths)

lemma ck_seal:
  assumes "checkpoint_time created"
  shows "checkpoint_seal (ck_fields created (ck_digest created))"
proof -
  let ?f = "ck_fields created (ck_digest created)"
  have "checkpoint_projection (without_hash ?f) = checkpoint_projection (without_hash (ck_fields created []))" by (rule ck_projection)
  then have "checkpoint_hash (without_hash ?f) = Inr (ck_digest created)"
    using ck_projection_serializable[of created "[]"] by (simp add: checkpoint_hash_def ck_digest_def canonical_hash_digest)
  moreover have "length created \<le> 24" "length (ck_digest created) \<le> 64"
    using assms digest_hash_re by (simp_all add: checkpoint_time_def ck_digest_def hash_re_def)
  then have "byte_length (print_value (JObj ?f)) + 1 \<le> ck_max_bytes"
    using ck_weight print_weight[of "JObj ?f"] by (metis add_le_mono1 order.trans)
  moreover have "get_prop ?f ''checkpoint_hash'' = JStr (ck_digest created)" by (simp add: ck_fields_def)
  ultimately show ?thesis by (simp add: checkpoint_seal_def del: print_value.simps)
qed

lemma ck_valid: "checkpoint_time created \<Longrightarrow> valid_checkpoint (JObj (ck_fields created (ck_digest created)))"
  using ck_identity ck_parts ck_budget ck_seal digest_hash_re by (simp add: valid_checkpoint_parts ck_digest_def)

lemma ck_wf: "wf_value (JObj (ck_fields created h))"
  by (auto simp: ck_fields_def ck_touched_def ck_usage_def cost_fields_def)

definition ck_time_1 :: string where "ck_time_1 = ''2026-01-01T00:00:00.000Z''"
definition ck_time_2 :: string where "ck_time_2 = ''2026-01-02T00:00:00.000Z''"

lemma ck_times: "checkpoint_time ck_time_1" "checkpoint_time ck_time_2"
  by code_simp+

text \<open>The same checkpoint at two times has one hash, so its touched paths are bound and its time is not.\<close>

theorem checkpoint_hash_binds_witness:
  "get_prop (ck_fields ck_time_1 (ck_digest ck_time_1)) ''created_at'' \<noteq> get_prop (ck_fields ck_time_2 (ck_digest ck_time_2)) ''created_at''
   \<and> (sort_keys (get_prop (ck_fields ck_time_1 (ck_digest ck_time_1)) ''touched_paths'')
        = sort_keys (get_prop (ck_fields ck_time_2 (ck_digest ck_time_2)) ''touched_paths'')
      \<or> collides (canonical_text (checkpoint_projection (without_hash (ck_fields ck_time_1 (ck_digest ck_time_1)))))
           (canonical_text (checkpoint_projection (without_hash (ck_fields ck_time_2 (ck_digest ck_time_2))))))"
proof -
  have "checkpoint_projection (without_hash (ck_fields ck_time_1 [])) = checkpoint_projection (without_hash (ck_fields ck_time_2 []))"
    by (rule ck_projection)
  then have "get_prop (ck_fields ck_time_1 (ck_digest ck_time_1)) ''checkpoint_hash'' = get_prop (ck_fields ck_time_2 (ck_digest ck_time_2)) ''checkpoint_hash''"
    by (simp add: ck_fields_def ck_digest_def)
  from checkpoint_hash_binds[OF ck_valid[OF ck_times(1)] ck_valid[OF ck_times(2)] ck_wf ck_wf this, of "''touched_paths''"]
  show ?thesis by (simp add: ck_time_1_def ck_time_2_def ck_fields_def)
qed

definition continuation_1 :: continuation where
  "continuation_1 = \<lparr>cn_delegation = ''20260101-000000-abcd'', cn_contract = ck_hash_a, cn_build = ''build-1'', cn_attempt = 1,
     cn_parent = None, cn_before = ck_hash_a, cn_current = ck_hash_a, cn_allowed = [''src/**''], cn_active = False\<rparr>"

theorem continuation_stays_in_contract_witness:
  "path_allowed_v2 (hd (touched_paths (ck_fields ck_time_1 (ck_digest ck_time_1)))) (cn_allowed continuation_1)"
proof -
  let ?v = "JObj (ck_fields ck_time_1 (ck_digest ck_time_1))"
  have touched: "touched_paths (ck_fields ck_time_1 (ck_digest ck_time_1)) = [''src/a.ts'']"
    by (simp add: touched_paths_def ck_fields_def ck_touched_def touched_path_def)
  have "touched_allowed ''src/a.ts'' (cn_allowed continuation_1)" by code_simp
  then have "valid_continuation ?v continuation_1"
    using ck_valid[OF ck_times(1)] touched
    by (simp add: valid_continuation_def continuation_1_def ck_fields_def null_value_def)
  from continuation_stays_in_contract[OF this] touched show ?thesis by auto
qed

end
