(* ===== verification/Output_Policy.thy ===== *)
theory Output_Policy
  imports Js_Text
begin

section \<open>Output policies and the whole-result clamp (core/output-policy.ts)\<close>

text \<open>
  The hard limits of the context a tool result may take: the policy of a tool, the ceiling of a
  policy identifier, and the clamp of a whole result with its marker inside the limits. Texts are
  strings of Latin-1, so the repair of lone surrogates is the identity.
\<close>

subsection \<open>Limits\<close>

definition native_read_max_bytes :: nat where "native_read_max_bytes = 12288"
definition native_read_max_lines :: nat where "native_read_max_lines = 252"
definition default_result_max_bytes :: nat where "default_result_max_bytes = 16384"
definition default_result_max_lines :: nat where "default_result_max_lines = 240"
definition long_result_max_bytes :: nat where "long_result_max_bytes = 32768"
definition long_result_max_lines :: nat where "long_result_max_lines = 400"
definition error_result_max_bytes :: nat where "error_result_max_bytes = 8192"
definition commander_turn_max_bytes :: nat where "commander_turn_max_bytes = 65536"
definition worker_turn_max_bytes :: nat where "worker_turn_max_bytes = 49152"
definition stream_update_max_bytes :: nat where "stream_update_max_bytes = 4096"
definition max_tool_calls_per_turn :: nat where "max_tool_calls_per_turn = 16"

lemmas output_limits = native_read_max_bytes_def native_read_max_lines_def default_result_max_bytes_def
  default_result_max_lines_def long_result_max_bytes_def long_result_max_lines_def
  error_result_max_bytes_def commander_turn_max_bytes_def worker_turn_max_bytes_def
  stream_update_max_bytes_def max_tool_calls_per_turn_def

subsection \<open>Policies\<close>

datatype policy_id = Native_read_page | Native_search | Run_summary | Run_log_page | Gate_summary
  | Gate_read | Diff_review | Compare_policy | Worker_handoff | Recovery_policy | Default_policy

definition policy_ids :: "policy_id list" where
  "policy_ids = [Native_read_page, Native_search, Run_summary, Run_log_page, Gate_summary, Gate_read,
     Diff_review, Compare_policy, Worker_handoff, Recovery_policy, Default_policy]"

fun policy_id_text :: "policy_id \<Rightarrow> string" where
  "policy_id_text Native_read_page = ''native-read-page''"
| "policy_id_text Native_search = ''native-search''"
| "policy_id_text Run_summary = ''run-summary''"
| "policy_id_text Run_log_page = ''run-log-page''"
| "policy_id_text Gate_summary = ''gate-summary''"
| "policy_id_text Gate_read = ''gate-read''"
| "policy_id_text Diff_review = ''diff-review''"
| "policy_id_text Compare_policy = ''compare''"
| "policy_id_text Worker_handoff = ''worker-handoff''"
| "policy_id_text Recovery_policy = ''recovery''"
| "policy_id_text Default_policy = ''default''"

interpretation policy_id_wire: wire_enum policy_ids policy_id_text
proof
  show "e \<in> set policy_ids" for e by (cases e) (simp_all add: policy_ids_def)
  show "distinct (map policy_id_text policy_ids)" by (simp add: policy_ids_def)
qed

datatype output_overflow = Overflow_cursor | Source_pointer | Artifact_pointer | Narrow_query | Receipt_only

record output_policy =
  op_id :: policy_id
  op_max_bytes :: nat
  op_max_lines :: nat
  op_min_reservation :: nat
  op_overflow :: output_overflow
  op_images :: bool

record output_ceiling =
  oc_max_bytes :: nat
  oc_max_lines :: nat
  oc_images :: bool

fun hard_ceiling :: "policy_id \<Rightarrow> output_ceiling" where
  "hard_ceiling Native_read_page = \<lparr>oc_max_bytes = native_read_max_bytes, oc_max_lines = native_read_max_lines, oc_images = True\<rparr>"
| "hard_ceiling Run_log_page = \<lparr>oc_max_bytes = long_result_max_bytes, oc_max_lines = long_result_max_lines, oc_images = False\<rparr>"
| "hard_ceiling Gate_read = \<lparr>oc_max_bytes = 24576, oc_max_lines = 320, oc_images = False\<rparr>"
| "hard_ceiling Diff_review = \<lparr>oc_max_bytes = long_result_max_bytes, oc_max_lines = long_result_max_lines, oc_images = False\<rparr>"
| "hard_ceiling Compare_policy = \<lparr>oc_max_bytes = long_result_max_bytes, oc_max_lines = long_result_max_lines, oc_images = False\<rparr>"
| "hard_ceiling Worker_handoff = \<lparr>oc_max_bytes = native_read_max_bytes, oc_max_lines = 120, oc_images = False\<rparr>"
| "hard_ceiling Recovery_policy = \<lparr>oc_max_bytes = error_result_max_bytes, oc_max_lines = 120, oc_images = False\<rparr>"
| "hard_ceiling _ = \<lparr>oc_max_bytes = default_result_max_bytes, oc_max_lines = default_result_max_lines, oc_images = False\<rparr>"

definition resolve_ceiling_id :: "jv \<Rightarrow> policy_id" where
  "resolve_ceiling_id v = (case parse_enum policy_ids policy_id_text v of Some p \<Rightarrow> p | None \<Rightarrow> Default_policy)"

definition make_policy :: "policy_id \<Rightarrow> nat \<Rightarrow> nat \<Rightarrow> nat \<Rightarrow> output_overflow \<Rightarrow> bool \<Rightarrow> output_policy" where
  "make_policy p b l m ov im = \<lparr>op_id = p, op_max_bytes = b, op_max_lines = l, op_min_reservation = m,
     op_overflow = ov, op_images = im\<rparr>"

definition native_read_policy :: output_policy where
  "native_read_policy = make_policy Native_read_page native_read_max_bytes native_read_max_lines 2048 Overflow_cursor True"

definition native_search_policy :: output_policy where
  "native_search_policy = make_policy Native_search default_result_max_bytes default_result_max_lines 2048 Narrow_query False"

definition run_summary_policy :: output_policy where
  "run_summary_policy = make_policy Run_summary 8192 120 2048 Source_pointer False"

definition run_recipe_policy :: output_policy where
  "run_recipe_policy = make_policy Run_summary default_result_max_bytes default_result_max_lines 4096 Source_pointer False"

definition run_log_policy :: output_policy where
  "run_log_policy = make_policy Run_log_page long_result_max_bytes long_result_max_lines 4096 Overflow_cursor False"

definition gate_summary_policy :: output_policy where
  "gate_summary_policy = make_policy Gate_summary default_result_max_bytes default_result_max_lines 4096 Artifact_pointer False"

definition gate_read_policy :: output_policy where
  "gate_read_policy = make_policy Gate_read 24576 320 4096 Source_pointer False"

definition gate_list_policy :: output_policy where
  "gate_list_policy = make_policy Gate_read default_result_max_bytes default_result_max_lines 2048 Narrow_query False"

definition diff_review_policy :: output_policy where
  "diff_review_policy = make_policy Diff_review long_result_max_bytes long_result_max_lines 4096 Narrow_query False"

definition compare_policy :: output_policy where
  "compare_policy = make_policy Compare_policy long_result_max_bytes long_result_max_lines 4096 Artifact_pointer False"

definition worker_handoff_policy :: output_policy where
  "worker_handoff_policy = make_policy Worker_handoff native_read_max_bytes 120 4096 Source_pointer False"

definition recovery_policy :: output_policy where
  "recovery_policy = make_policy Recovery_policy error_result_max_bytes 120 2048 Receipt_only False"

definition default_policy :: output_policy where
  "default_policy = make_policy Default_policy default_result_max_bytes default_result_max_lines 2048 Receipt_only False"

definition run_include :: "jv \<Rightarrow> jv" where
  "run_include args = opt_prop args ''include''"

definition resolve_tool_policy :: "string \<Rightarrow> jv \<Rightarrow> output_policy" where
  "resolve_tool_policy tool args =
     (if tool = ''read'' then native_read_policy
      else if tool \<in> {''grep'', ''find'', ''ls''} then native_search_policy
      else if tool = ''workbench_run_recipe'' then run_recipe_policy
      else if tool = ''workbench_read_run'' then
        (if run_include args = JStr ''logs'' \<or> run_include args = JStr ''all'' then run_log_policy else run_summary_policy)
      else if tool = ''workbench_run_gate'' then gate_summary_policy
      else if tool = ''workbench_read_gate'' then gate_read_policy
      else if tool = ''workbench_list_gates'' then gate_list_policy
      else if tool = ''workbench_compare_runs'' then compare_policy
      else if tool \<in> {''workbench_delegate_worker'', ''workbench_repair_delegation''} then worker_handoff_policy
      else if tool = ''workbench_review_worker_diff'' then diff_review_policy
      else if tool = ''workbench_recover_tool_result'' then recovery_policy
      else default_policy)"

lemmas policy_defs = native_read_policy_def native_search_policy_def run_summary_policy_def
  run_recipe_policy_def run_log_policy_def gate_summary_policy_def gate_read_policy_def
  gate_list_policy_def diff_review_policy_def compare_policy_def worker_handoff_policy_def
  recovery_policy_def default_policy_def make_policy_def

text \<open>Every policy is positive, keeps its minimum below its cap, and lies inside the ceiling of its identifier.\<close>

lemma tool_policy_within:
  "op_max_bytes (resolve_tool_policy tool args) \<le> oc_max_bytes (hard_ceiling (op_id (resolve_tool_policy tool args)))"
  "op_max_lines (resolve_tool_policy tool args) \<le> oc_max_lines (hard_ceiling (op_id (resolve_tool_policy tool args)))"
  "0 < op_min_reservation (resolve_tool_policy tool args)"
  "op_min_reservation (resolve_tool_policy tool args) \<le> op_max_bytes (resolve_tool_policy tool args)"
  "op_max_bytes (resolve_tool_policy tool args) \<le> long_result_max_bytes"
  by (simp_all add: resolve_tool_policy_def policy_defs output_limits)

lemma ceiling_bounds:
  "oc_max_bytes (hard_ceiling p) \<le> long_result_max_bytes"
  "oc_max_lines (hard_ceiling p) \<le> long_result_max_lines"
  "oc_images (hard_ceiling p) \<longleftrightarrow> p = Native_read_page"
  by (cases p; simp add: output_limits)+

subsection \<open>Lines and bounded prefixes\<close>

abbreviation newline :: char where
  "newline \<equiv> CHR 0x0A"

definition text_lines :: "string \<Rightarrow> nat" where
  "text_lines t = (if t = [] then 0 else Suc (length (filter (\<lambda>c. c = newline) t)))"

text \<open>The loop of \<open>boundedPrefix\<close>: bytes and lines used so far, and whether the output is empty.\<close>

fun prefix_loop :: "nat \<Rightarrow> nat \<Rightarrow> nat \<Rightarrow> nat \<Rightarrow> bool \<Rightarrow> string \<Rightarrow> string" where
  "prefix_loop max_b max_l used_b used_l fresh [] = []"
| "prefix_loop max_b max_l used_b used_l fresh (c # cs) =
     (let b = used_b + length (utf8_char c);
          l = (if fresh then (if c = newline then 2 else 1) else used_l + (if c = newline then 1 else 0))
      in if max_b < b \<or> max_l < l then [] else c # prefix_loop max_b max_l b l False cs)"

definition bounded_prefix :: "string \<Rightarrow> nat \<Rightarrow> nat \<Rightarrow> string" where
  "bounded_prefix t max_b max_l =
     (if max_b = 0 \<or> max_l = 0 \<or> t = [] then [] else prefix_loop max_b max_l 0 0 True t)"

lemma prefix_loop_prefix: "\<exists>r. t = prefix_loop mb ml ub ul e t @ r"
  by (induction mb ml ub ul e t rule: prefix_loop.induct) (auto simp: Let_def)

lemma prefix_loop_bytes: "ub \<le> mb \<Longrightarrow> ub + byte_length (prefix_loop mb ml ub ul e t) \<le> mb"
proof (induction mb ml ub ul e t rule: prefix_loop.induct)
  case (2 mb ml ub ul e c cs)
  then show ?case by (auto simp: Let_def byte_length_def add.assoc utf8_def)
qed (simp add: byte_length_def utf8_def)

lemma prefix_loop_more_lines:
  "ul \<le> ml \<Longrightarrow> ul + length (filter (\<lambda>c. c = newline) (prefix_loop mb ml ub ul False t)) \<le> ml"
proof (induction t arbitrary: ub ul)
  case (Cons c cs)
  show ?case using Cons.IH[of "ul + (if c = newline then 1 else 0)" "ub + length (utf8_char c)"] Cons.prems
    by (auto simp: Let_def)
qed simp

lemma prefix_loop_lines: "text_lines (prefix_loop mb ml ub ul True t) \<le> ml"
proof (cases t)
  case (Cons c cs)
  show ?thesis
    using prefix_loop_more_lines[of "if c = newline then 2 else 1" ml mb "ub + length (utf8_char c)" cs]
    by (auto simp: Cons Let_def text_lines_def)
qed (simp add: text_lines_def)

lemma bounded_prefix_prefix: "\<exists>r. t = bounded_prefix t mb ml @ r"
  using prefix_loop_prefix[of t mb ml 0 0 True] by (simp add: bounded_prefix_def)

lemma bounded_prefix_bytes: "byte_length (bounded_prefix t mb ml) \<le> mb"
  using prefix_loop_bytes[of 0 mb ml 0 True t] by (simp add: bounded_prefix_def byte_length_def utf8_def)

lemma bounded_prefix_lines: "text_lines (bounded_prefix t mb ml) \<le> ml"
  using prefix_loop_lines[of mb ml 0 0 t] by (simp add: bounded_prefix_def) (simp add: text_lines_def)

lemmas bounded_prefix_within = bounded_prefix_bytes bounded_prefix_lines

text \<open>Two texts on one more line than both have.\<close>

lemma text_lines_join:
  "p \<noteq> [] \<Longrightarrow> m \<noteq> [] \<Longrightarrow> text_lines (p @ newline # m) = text_lines p + text_lines m"
  by (simp add: text_lines_def)

lemma byte_length_join: "byte_length (p @ newline # m) = byte_length p + 1 + byte_length m"
  by (simp add: byte_length_def utf8_def utf8_char_def)

lemma byte_length_nil [simp]: "byte_length t = 0 \<longleftrightarrow> t = []"
  using byte_length_ge[of t] by (auto simp: byte_length_def utf8_def)

lemma byte_length_none [simp]: "byte_length [] = 0"
  by (simp add: byte_length_def utf8_def)

lemma byte_length_prefix: "byte_length (p @ r) = byte_length p + byte_length r"
  by (simp add: byte_length_def utf8_def)

lemma text_lines_prefix: "text_lines p \<le> text_lines (p @ r)"
  by (simp add: text_lines_def)

subsection \<open>The whole-result clamp\<close>

definition failure_text :: string where
  "failure_text = ''workbench output control failure (bounded fail-closed result)''"

record whole_clamp =
  wc_text :: string
  wc_truncated :: bool
  wc_failed :: bool
  wc_original_bytes :: nat
  wc_original_lines :: nat
  wc_shown_bytes :: nat
  wc_shown_lines :: nat
  wc_omitted_bytes :: nat
  wc_omitted_lines :: nat

text \<open>Only an omitted cap receives the default; a bad one is zero.\<close>

definition resolve_cap :: "jv \<Rightarrow> string \<Rightarrow> nat \<Rightarrow> nat \<Rightarrow> nat" where
  "resolve_cap options key fallback hard =
     (let v = opt_prop options key in if v = JUndef then fallback else min (positive_floor v) hard)"

definition clamp_failure :: "nat \<Rightarrow> nat \<Rightarrow> whole_clamp" where
  "clamp_failure max_b max_l =
     (let t = bounded_prefix failure_text (min max_b error_result_max_bytes) max_l
      in \<lparr>wc_text = t, wc_truncated = True, wc_failed = True, wc_original_bytes = 0, wc_original_lines = 0,
          wc_shown_bytes = byte_length t, wc_shown_lines = text_lines t, wc_omitted_bytes = 0, wc_omitted_lines = 0\<rparr>)"

definition truncation_marker :: "nat \<Rightarrow> nat \<Rightarrow> string" where
  "truncation_marker b l = ''[workbench-output truncated omitted_bytes='' @ nat_text b @ '' omitted_lines='' @ nat_text l @ '']''"

definition omission_marker :: "string \<Rightarrow> string \<Rightarrow> string" where
  "omission_marker source p = truncation_marker (byte_length source - byte_length p) (text_lines source - text_lines p)"

text \<open>The rounds that fit the marker to the prefix it leaves; the source runs at most eight.\<close>

fun clamp_rounds :: "nat \<Rightarrow> string \<Rightarrow> nat \<Rightarrow> nat \<Rightarrow> string \<Rightarrow> string \<Rightarrow> string \<times> string" where
  "clamp_rounds 0 source max_b max_l marker p = (marker, p)"
| "clamp_rounds (Suc n) source max_b max_l marker p =
     (let p' = bounded_prefix source (max_b - byte_length marker - 1) (max_l - 1);
          marker' = omission_marker source p'
      in if marker' = marker then (marker, p') else clamp_rounds n source max_b max_l marker' p')"

text \<open>A cut result: the kept beginning of the source and the text that is shown.\<close>

definition clamp_cut :: "string \<Rightarrow> string \<Rightarrow> string \<Rightarrow> whole_clamp" where
  "clamp_cut source p t =
     \<lparr>wc_text = t, wc_truncated = True, wc_failed = False,
      wc_original_bytes = byte_length source, wc_original_lines = text_lines source,
      wc_shown_bytes = byte_length t, wc_shown_lines = text_lines t,
      wc_omitted_bytes = byte_length source - byte_length p, wc_omitted_lines = text_lines source - text_lines p\<rparr>"

definition clamp_text :: "string \<Rightarrow> nat \<Rightarrow> nat \<Rightarrow> whole_clamp" where
  "clamp_text source max_b max_l =
     (let ob = byte_length source; ol = text_lines source
      in if ob \<le> max_b \<and> ol \<le> max_l
         then \<lparr>wc_text = source, wc_truncated = False, wc_failed = False, wc_original_bytes = ob, wc_original_lines = ol,
               wc_shown_bytes = ob, wc_shown_lines = ol, wc_omitted_bytes = 0, wc_omitted_lines = 0\<rparr>
         else
           let (marker, p) = clamp_rounds 8 source max_b max_l (truncation_marker ob ol) [];
               only = bounded_prefix marker max_b max_l;
               t = (if p \<noteq> [] then p @ newline # marker else only)
           in if max_b < byte_length t \<or> max_l < text_lines t then clamp_cut source [] only else clamp_cut source p t)"

definition clamp_byte_cap :: "jv \<Rightarrow> nat" where
  "clamp_byte_cap options = resolve_cap options ''maxBytes'' default_result_max_bytes long_result_max_bytes"

definition clamp_line_cap :: "jv \<Rightarrow> nat" where
  "clamp_line_cap options = resolve_cap options ''maxLines'' default_result_max_lines long_result_max_lines"

definition clamp_whole_result :: "jv \<Rightarrow> jv \<Rightarrow> whole_clamp" where
  "clamp_whole_result input options =
     (case js_string input of None \<Rightarrow> clamp_failure (clamp_byte_cap options) (clamp_line_cap options)
      | Some s \<Rightarrow> clamp_text s (clamp_byte_cap options) (clamp_line_cap options))"


text \<open>Whatever the number of rounds, the marker names what the prefix left out.\<close>

lemma clamp_rounds_honest:
  "clamp_rounds n source mb ml marker p = (m, q) \<Longrightarrow> marker = omission_marker source p \<Longrightarrow> \<exists>r. source = p @ r
    \<Longrightarrow> m = omission_marker source q \<and> (\<exists>r. source = q @ r)"
proof (induction n arbitrary: marker p)
  case (Suc n)
  let ?p = "bounded_prefix source (mb - byte_length marker - 1) (ml - 1)"
  show ?case
    using Suc.IH[of "omission_marker source ?p" ?p] Suc.prems(1) bounded_prefix_prefix[of source "mb - byte_length marker - 1" "ml - 1"]
    by (auto simp: Let_def split: if_splits)
qed simp

lemma clamp_text_cut:
  assumes "\<not> (byte_length s \<le> b \<and> text_lines s \<le> l)"
  shows "(\<exists>p q. p \<noteq> [] \<and> s = p @ q \<and> clamp_text s b l = clamp_cut s p (p @ newline # omission_marker s p)
            \<and> byte_length (p @ newline # omission_marker s p) \<le> b \<and> text_lines (p @ newline # omission_marker s p) \<le> l)
       \<or> (\<exists>m n. clamp_text s b l = clamp_cut s [] (bounded_prefix (truncation_marker m n) b l))"
proof -
  obtain m p where mp: "clamp_rounds 8 s b l (truncation_marker (byte_length s) (text_lines s)) [] = (m, p)" by fastforce
  have "truncation_marker (byte_length s) (text_lines s) = omission_marker s []"
    by (simp add: omission_marker_def text_lines_def byte_length_def utf8_def)
  from clamp_rounds_honest[OF mp this] obtain q where q: "m = omission_marker s p" "s = p @ q" by auto
  have only: "\<exists>k n. clamp_cut s [] (bounded_prefix m b l) = clamp_cut s [] (bounded_prefix (truncation_marker k n) b l)"
    using q(1) by (auto simp: omission_marker_def)
  show ?thesis
  proof (cases "p \<noteq> [] \<and> byte_length (p @ newline # m) \<le> b \<and> text_lines (p @ newline # m) \<le> l")
    case True
    then have "clamp_text s b l = clamp_cut s p (p @ newline # m)" using assms mp by (auto simp: clamp_text_def Let_def)
    then show ?thesis using True q by blast
  next
    case False
    then have "clamp_text s b l = clamp_cut s [] (bounded_prefix m b l)"
      using assms mp bounded_prefix_within[of m b l] by (auto simp: clamp_text_def Let_def)
    then show ?thesis using only by auto
  qed
qed

text \<open>What a cut result says of its source.\<close>

definition clamp_explains :: "string \<Rightarrow> whole_clamp \<Rightarrow> bool" where
  "clamp_explains s r \<longleftrightarrow>
     (\<exists>p q. s = p @ q \<and> wc_omitted_bytes r = byte_length q \<and> wc_omitted_lines r = text_lines s - text_lines p
       \<and> (if p = [] then \<exists>m n c. truncation_marker m n = wc_text r @ c
          else wc_text r = p @ newline # truncation_marker (wc_omitted_bytes r) (wc_omitted_lines r)))"

lemma clamp_cut_explains:
  "p \<noteq> [] \<Longrightarrow> s = p @ q \<Longrightarrow> clamp_explains s (clamp_cut s p (p @ newline # omission_marker s p))"
  "clamp_explains s (clamp_cut s [] (bounded_prefix (truncation_marker m n) b l))"
proof -
  assume "p \<noteq> []" "s = p @ q"
  then show "clamp_explains s (clamp_cut s p (p @ newline # omission_marker s p))"
    unfolding clamp_explains_def
    by (intro exI[of _ p] exI[of _ q]) (simp add: clamp_cut_def omission_marker_def byte_length_prefix)
next
  show "clamp_explains s (clamp_cut s [] (bounded_prefix (truncation_marker m n) b l))"
    unfolding clamp_explains_def using bounded_prefix_prefix[of "truncation_marker m n" b l]
    by (intro exI[of _ "[]"] exI[of _ s]) (simp add: clamp_cut_def byte_length_def utf8_def text_lines_def, blast)
qed

text \<open>The whole-result clamp is bounded and honest. Whatever the result and whatever caps a caller passes, the text
  fits the caps, and the caps never exceed the largest result. A text that fits is returned whole; otherwise what is
  shown is a beginning of the text on a line of its own before a marker with exactly the bytes and lines that were
  left out, or a beginning of a marker alone. A value that has no text gives the failure text.\<close>

theorem clamp_is_bounded:
  "let r = clamp_whole_result input options; b = clamp_byte_cap options; l = clamp_line_cap options
   in byte_length (wc_text r) \<le> b \<and> text_lines (wc_text r) \<le> l \<and> b \<le> long_result_max_bytes \<and> l \<le> long_result_max_lines
     \<and> wc_shown_bytes r = byte_length (wc_text r) \<and> wc_shown_lines r = text_lines (wc_text r)
     \<and> (case js_string input of
          None \<Rightarrow> wc_failed r \<and> (\<exists>q. failure_text = wc_text r @ q)
        | Some s \<Rightarrow> \<not> wc_failed r \<and>
            (if byte_length s \<le> b \<and> text_lines s \<le> l then wc_text r = s \<and> \<not> wc_truncated r
             else wc_truncated r \<and> clamp_explains s r))"
proof -
  let ?b = "clamp_byte_cap options" and ?l = "clamp_line_cap options"
  have caps: "?b \<le> long_result_max_bytes" "?l \<le> long_result_max_lines"
    by (simp_all add: clamp_byte_cap_def clamp_line_cap_def resolve_cap_def Let_def output_limits)
  show ?thesis
  proof (cases "js_string input")
    case None
    have "byte_length (bounded_prefix failure_text (min ?b error_result_max_bytes) ?l) \<le> ?b"
      using bounded_prefix_bytes[of failure_text "min ?b error_result_max_bytes" ?l] by simp
    then show ?thesis
      using None caps bounded_prefix_lines bounded_prefix_prefix
      by (simp add: clamp_whole_result_def clamp_failure_def Let_def)
  next
    case (Some s)
    show ?thesis
    proof (cases "byte_length s \<le> ?b \<and> text_lines s \<le> ?l")
      case True
      then show ?thesis using Some caps by (simp add: clamp_whole_result_def clamp_text_def Let_def)
    next
      case False
      have r: "clamp_whole_result input options = clamp_text s ?b ?l" using Some by (simp add: clamp_whole_result_def)
      let ?r = "clamp_text s ?b ?l"
      have "byte_length (wc_text ?r) \<le> ?b \<and> text_lines (wc_text ?r) \<le> ?l \<and> clamp_explains s ?r"
        using clamp_text_cut[OF False] clamp_cut_explains bounded_prefix_within by (auto simp: clamp_cut_def)
      moreover have "wc_truncated ?r" "\<not> wc_failed ?r" "wc_shown_bytes ?r = byte_length (wc_text ?r)"
          "wc_shown_lines ?r = text_lines (wc_text ?r)"
        using clamp_text_cut[OF False] by (auto simp: clamp_cut_def)
      ultimately show ?thesis using Some caps False by (simp only: Let_def r option.case clamp_explains_def if_False simp_thms)
    qed
  qed
qed

end
