(* ===== verification/Output_Envelope.thy ===== *)
theory Output_Envelope
  imports Output_Policy
begin

section \<open>The output envelope (core/output-envelope.ts)\<close>

text \<open>
  The envelope of every tool result: content blocks are read strictly, their texts joined by one
  newline as the providers join them, and cut with a marker to the smallest of the policy, the ceiling
  of the policy identifier, the error cap and the allocation of the turn. The input is unknown data; of
  the values that \<open>Array.from\<close> reads by their \<open>length\<close>, the ones whose length is a text, an array or an
  object to be converted to a number are refused here.
\<close>

subsection \<open>Content\<close>

datatype content_block = Text_block string | Image_block string string

datatype envelope_reason = Reason_none | Per_tool_cap | Turn_reservation | Runtime_failure

record output_facts =
  of_policy :: policy_id
  of_truncated :: bool
  of_original_bytes :: nat
  of_original_lines :: nat
  of_shown_bytes :: nat
  of_shown_lines :: nat
  of_omitted_bytes :: nat
  of_omitted_lines :: nat
  of_original_images :: nat
  of_shown_images :: nat
  of_omitted_images :: nat
  of_reason :: envelope_reason
  of_continuation :: "(string \<times> string) option"

record envelope_result =
  er_content :: "content_block list"
  er_facts :: output_facts
  er_error :: bool

record envelope_input =
  ei_tool :: jv
  ei_content :: jv
  ei_error :: jv
  ei_policy :: jv
  ei_allocated :: jv
  ei_continuation :: jv
  ei_receipt :: jv

definition meta_max_bytes :: nat where "meta_max_bytes = 1024"

definition envelope_failure_text :: string where "envelope_failure_text = ''output_envelope_error''"

definition image_omission :: string where "image_omission = ''[workbench-output image omitted]''"

definition bash_replay_action :: string where
  "bash_replay_action = ''rerun_redirect_file_then_bounded_read''"

definition generic_replay_action :: string where
  "generic_replay_action = ''rerun_narrow_or_persist_then_bounded_read''"

text \<open>
  The \<open>length\<close> by which \<open>Array.from\<close> reads a plain object: a number is cut to a natural number, and
  beyond the largest length of an array it is a \<open>RangeError\<close>.
\<close>

fun array_like_length :: "jv \<Rightarrow> nat option" where
  "array_like_length JUndef = Some 0"
| "array_like_length JNull = Some 0"
| "array_like_length (JBool b) = Some (if b then 1 else 0)"
| "array_like_length (JNum JNaN) = Some 0"
| "array_like_length (JNum (JInf negative)) = (if negative then Some 0 else None)"
| "array_like_length (JNum x) =
     (case finite_number (JNum x) of None \<Rightarrow> None
      | Some y \<Rightarrow> let n = nat \<lfloor>y\<rfloor> in if n \<le> 4294967295 then Some n else None)"
| "array_like_length _ = None"

text \<open>\<open>Array.from\<close>; \<open>None\<close> is the \<open>TypeError\<close> of a missing value, or the \<open>RangeError\<close>.\<close>

fun array_from :: "jv \<Rightarrow> jv list option" where
  "array_from (JArr vs) = Some vs"
| "array_from (JStr s) = Some (map (\<lambda>c. JStr [c]) s)"
| "array_from (JObj kvs) =
     map_option (\<lambda>n. map (\<lambda>i. get_prop kvs (nat_text i)) [0..<n]) (array_like_length (get_prop kvs ''length''))"
| "array_from JUndef = None"
| "array_from JNull = None"
| "array_from _ = Some []"

definition read_block :: "jv \<Rightarrow> content_block option" where
  "read_block v =
     (if opt_prop v ''type'' = JStr ''text'' then map_option Text_block (as_string (opt_prop v ''text''))
      else if opt_prop v ''type'' = JStr ''image'' then
        (case (as_string (opt_prop v ''data''), as_string (opt_prop v ''mimeType'')) of
           (Some d, Some m) \<Rightarrow> Some (Image_block d m) | _ \<Rightarrow> None)
      else None)"

fun read_blocks :: "jv list \<Rightarrow> content_block list option" where
  "read_blocks [] = Some []"
| "read_blocks (v # vs) =
     (case (read_block v, read_blocks vs) of (Some b, Some bs) \<Rightarrow> Some (b # bs) | _ \<Rightarrow> None)"

fun is_image :: "content_block \<Rightarrow> bool" where
  "is_image (Image_block d m) = True"
| "is_image (Text_block t) = False"

fun block_texts :: "content_block list \<Rightarrow> string list" where
  "block_texts [] = []"
| "block_texts (Text_block t # bs) = t # block_texts bs"
| "block_texts (Image_block d m # bs) = block_texts bs"

definition bounded_inline :: "jv \<Rightarrow> string" where
  "bounded_inline v =
     (case as_string v of None \<Rightarrow> []
      | Some s \<Rightarrow> bounded_prefix (map (\<lambda>c. if code_of c < (32::nat) \<or> code_of c = 127 then CHR '' '' else c) s) meta_max_bytes 1)"

subsection \<open>Failure and marker\<close>

definition safe_failure :: "policy_id \<Rightarrow> nat \<Rightarrow> nat \<Rightarrow> envelope_result" where
  "safe_failure p byte_cap line_cap =
     (let t = bounded_prefix envelope_failure_text (min byte_cap error_result_max_bytes) (min line_cap 1)
      in \<lparr>er_content = (if t = [] then [] else [Text_block t]),
          er_facts = \<lparr>of_policy = p, of_truncated = True, of_original_bytes = 0, of_original_lines = 0,
            of_shown_bytes = byte_length t, of_shown_lines = text_lines t, of_omitted_bytes = 0, of_omitted_lines = 0,
            of_original_images = 0, of_shown_images = 0, of_omitted_images = 0, of_reason = Runtime_failure,
            of_continuation = None\<rparr>,
          er_error = True\<rparr>)"

definition envelope_marker :: "nat \<Rightarrow> nat \<Rightarrow> string \<Rightarrow> (string \<times> string) option \<Rightarrow> string \<Rightarrow> string" where
  "envelope_marker b l action continuation receipt =
     ''[workbench-output truncated '' @
     join_with '' ''
       ([case continuation of
           Some (k, v) \<Rightarrow> ''continuation='' @ bounded_inline (JStr k) @ '':'' @ bounded_inline (JStr v)
         | None \<Rightarrow> ''action='' @ action,
         ''omitted_bytes='' @ nat_text b, ''omitted_lines='' @ nat_text l] @
        (if receipt = [] then [] else [''receipt='' @ bounded_inline (JStr receipt)])) @ '']''"

definition truncation_reason :: "nat \<Rightarrow> nat \<Rightarrow> nat \<Rightarrow> nat \<Rightarrow> nat \<Rightarrow> nat \<Rightarrow> envelope_reason" where
  "truncation_reason orig_b orig_l omitted_images allocated policy_b policy_l =
     (if omitted_images = 0 \<and> orig_l \<le> policy_l \<and> allocated < policy_b \<and> allocated < orig_b \<and> orig_b \<le> policy_b
      then Turn_reservation else Per_tool_cap)"

subsection \<open>The envelope\<close>

text \<open>The caps, read before any content: policy, bytes of the policy, lines, allocation.\<close>

record envelope_caps =
  ec_policy :: policy_id
  ec_policy_bytes :: nat
  ec_lines :: nat
  ec_allocated :: nat

definition read_caps :: "envelope_input \<Rightarrow> envelope_caps option" where
  "read_caps i =
     (if ei_policy i \<in> {JUndef, JNull} then None
      else let p = resolve_ceiling_id (opt_prop (ei_policy i) ''id''); hard = hard_ceiling p
        in Some \<lparr>ec_policy = p,
             ec_policy_bytes = min (positive_floor (opt_prop (ei_policy i) ''maxTextBytes'')) (oc_max_bytes hard),
             ec_lines = min (positive_floor (opt_prop (ei_policy i) ''maxLines'')) (oc_max_lines hard),
             ec_allocated = positive_floor (ei_allocated i)\<rparr>)"

definition effective_bytes :: "envelope_input \<Rightarrow> envelope_caps \<Rightarrow> nat" where
  "effective_bytes i c =
     (if ei_error i = JBool True then min (ec_policy_bytes c) error_result_max_bytes else ec_policy_bytes c)"

definition envelope_bytes :: "envelope_input \<Rightarrow> envelope_caps \<Rightarrow> nat" where
  "envelope_bytes i c = min (effective_bytes i c) (ec_allocated c)"

definition read_continuation :: "jv \<Rightarrow> (string \<times> string) option" where
  "read_continuation v =
     (if truthy v then Some (bounded_inline (opt_prop v ''kind''), bounded_inline (opt_prop v ''value'')) else None)"

definition kept_image :: "envelope_input \<Rightarrow> envelope_caps \<Rightarrow> content_block list \<Rightarrow> content_block option" where
  "kept_image i c blocks =
     (if ec_policy c = Native_read_page \<and> oc_images (hard_ceiling (ec_policy c))
         \<and> opt_prop (ei_policy i) ''preserveImages'' = JBool True
      then find is_image blocks else None)"

definition empty_envelope :: "envelope_input \<Rightarrow> envelope_caps \<Rightarrow> string \<Rightarrow> nat \<Rightarrow> envelope_result" where
  "empty_envelope i c source images =
     (let b = byte_length source; l = text_lines source; truncated = (0 < b \<or> 0 < images)
      in \<lparr>er_content = [],
          er_facts = \<lparr>of_policy = ec_policy c, of_truncated = truncated, of_original_bytes = b, of_original_lines = l,
            of_shown_bytes = 0, of_shown_lines = 0, of_omitted_bytes = b, of_omitted_lines = l,
            of_original_images = images, of_shown_images = 0, of_omitted_images = images,
            of_reason = (if truncated then truncation_reason b l images (ec_allocated c) (effective_bytes i c) (ec_lines c)
                         else Reason_none), of_continuation = None\<rparr>,
          er_error = (ei_error i = JBool True)\<rparr>)"

text \<open>The shown part of the source and the marker behind it.\<close>

definition with_image_note :: "nat \<Rightarrow> string \<Rightarrow> string" where
  "with_image_note omitted_images m = (if 0 < omitted_images then image_omission @ '' '' @ m else m)"

definition cut_source :: "string \<Rightarrow> nat \<Rightarrow> nat \<Rightarrow> nat \<Rightarrow> (nat \<Rightarrow> nat \<Rightarrow> string) \<Rightarrow> string \<times> string" where
  "cut_source source byte_cap line_cap omitted_images marker =
     (let reserved = bounded_prefix (with_image_note omitted_images (marker (byte_length source) (text_lines source))) byte_cap line_cap;
          used = (if reserved = [] then 0 else 1);
          shown = bounded_prefix source (byte_cap - byte_length reserved - used) (line_cap - used);
          final = bounded_prefix
            (with_image_note omitted_images
              (marker (byte_length source - byte_length shown) (text_lines source - text_lines shown)))
            (byte_cap - byte_length shown - (if shown = [] then 0 else 1)) (line_cap - text_lines shown)
      in (shown, final))"

definition final_text :: "string \<Rightarrow> string \<Rightarrow> string" where
  "final_text shown marker =
     (if shown \<noteq> [] \<and> marker \<noteq> [] then shown @ newline # marker else if shown \<noteq> [] then shown else marker)"

definition source_text :: "content_block list \<Rightarrow> string" where
  "source_text blocks = join_with [newline] (block_texts blocks)"

definition image_count :: "content_block list \<Rightarrow> nat" where
  "image_count blocks = length (filter is_image blocks)"

definition kept_count :: "content_block option \<Rightarrow> nat" where
  "kept_count kept = (if kept = None then 0 else 1)"

definition cut_needed :: "envelope_input \<Rightarrow> envelope_caps \<Rightarrow> content_block list \<Rightarrow> bool" where
  "cut_needed i c blocks \<longleftrightarrow>
     envelope_bytes i c < byte_length (source_text blocks) \<or> ec_lines c < text_lines (source_text blocks)
     \<or> 0 < image_count blocks - kept_count (kept_image i c blocks)"

definition envelope_cut :: "envelope_input \<Rightarrow> envelope_caps \<Rightarrow> content_block list \<Rightarrow> string \<times> string" where
  "envelope_cut i c blocks =
     (if cut_needed i c blocks
      then cut_source (source_text blocks) (envelope_bytes i c) (ec_lines c)
             (image_count blocks - kept_count (kept_image i c blocks))
             (\<lambda>b l. envelope_marker b l (if ei_tool i = JStr ''bash'' then bash_replay_action else generic_replay_action)
                (read_continuation (ei_continuation i)) (bounded_inline (ei_receipt i)))
      else (source_text blocks, []))"

definition fill_envelope :: "envelope_input \<Rightarrow> envelope_caps \<Rightarrow> content_block list \<Rightarrow> envelope_result" where
  "fill_envelope i c blocks =
     (let source = source_text blocks; images = image_count blocks
      in if envelope_bytes i c = 0 \<or> ec_lines c = 0 then empty_envelope i c source images
         else
           let kept = kept_image i c blocks; cut = cut_needed i c blocks;
               (shown, marker) = envelope_cut i c blocks; t = final_text shown marker
           in \<lparr>er_content = (case kept of None \<Rightarrow> [] | Some b \<Rightarrow> [b]) @ (if t = [] then [] else [Text_block t]),
               er_facts = \<lparr>of_policy = ec_policy c, of_truncated = cut,
                 of_original_bytes = byte_length source, of_original_lines = text_lines source,
                 of_shown_bytes = byte_length t, of_shown_lines = text_lines t,
                 of_omitted_bytes = byte_length source - byte_length shown,
                 of_omitted_lines = text_lines source - text_lines shown,
                 of_original_images = images, of_shown_images = kept_count kept,
                 of_omitted_images = images - kept_count kept,
                 of_reason = (if cut then truncation_reason (byte_length source) (text_lines source)
                                (images - kept_count kept) (ec_allocated c) (effective_bytes i c) (ec_lines c)
                              else Reason_none),
                 of_continuation = (if cut then read_continuation (ei_continuation i) else None)\<rparr>,
               er_error = (ei_error i = JBool True)\<rparr>)"

definition read_content :: "envelope_input \<Rightarrow> content_block list option" where
  "read_content i = Option.bind (array_from (ei_content i)) read_blocks"

definition enforce_envelope :: "envelope_input \<Rightarrow> envelope_result" where
  "enforce_envelope i =
     (case read_caps i of None \<Rightarrow> safe_failure Default_policy 0 0
      | Some c \<Rightarrow>
          (case read_content i of
             None \<Rightarrow> safe_failure (ec_policy c)
               (min (ec_allocated c) (min (ec_policy_bytes c) error_result_max_bytes)) (ec_lines c)
           | Some blocks \<Rightarrow> fill_envelope i c blocks))"

subsection \<open>Streaming updates\<close>

definition stream_update_max_lines :: nat where "stream_update_max_lines = 80"

definition stream_policy :: jv where
  "stream_policy = JObj [(''id'', JStr ''default''), (''maxTextBytes'', JNum (JInt (int stream_update_max_bytes))),
     (''maxLines'', JNum (JInt (int stream_update_max_lines))), (''minReservationBytes'', JNum (JInt 1)),
     (''overflow'', JStr ''receipt-only''), (''preserveImages'', JBool False)]"

definition enforce_streaming_update :: "jv \<Rightarrow> jv \<Rightarrow> envelope_result" where
  "enforce_streaming_update tool content =
     enforce_envelope \<lparr>ei_tool = JStr (case as_string tool of Some s \<Rightarrow> s | None \<Rightarrow> []), ei_content = content,
       ei_error = JBool False, ei_policy = stream_policy,
       ei_allocated = JNum (JInt (int stream_update_max_bytes)), ei_continuation = JUndef, ei_receipt = JUndef\<rparr>"

subsection \<open>The cut\<close>

lemma cut_source_facts:
  assumes "cut_source source b l im marker = (shown, m)"
  shows "byte_length (final_text shown m) \<le> b" "text_lines (final_text shown m) \<le> l" "\<exists>q. source = shown @ q"
proof -
  obtain mb ml t where m: "m = bounded_prefix t (b - byte_length shown - (if shown = [] then 0 else 1)) (l - text_lines shown)"
    and shown: "shown = bounded_prefix source mb ml" "mb \<le> b" "ml \<le> l"
    using assms by (auto simp: cut_source_def Let_def)
  have sb: "byte_length shown \<le> b" "text_lines shown \<le> l"
    using bounded_prefix_within[of source mb ml] shown by simp_all
  have mb: "byte_length m \<le> b - byte_length shown - (if shown = [] then 0 else 1)" "text_lines m \<le> l - text_lines shown"
    unfolding m by (rule bounded_prefix_within)+
  have "m \<noteq> [] \<Longrightarrow> 0 < byte_length m" by (metis byte_length_nil gr0I)
  then show "byte_length (final_text shown m) \<le> b" "text_lines (final_text shown m) \<le> l"
    using sb mb by (auto simp: final_text_def byte_length_join text_lines_join split: if_splits)
  show "\<exists>q. source = shown @ q" unfolding shown(1) by (rule bounded_prefix_prefix)
qed

subsection \<open>What every result satisfies\<close>

definition shown_text :: "envelope_result \<Rightarrow> string" where
  "shown_text r = join_with [newline] (block_texts (er_content r))"

definition shown_images :: "envelope_result \<Rightarrow> nat" where
  "shown_images r = length (filter is_image (er_content r))"

text \<open>The facts describe the content, and text and images stay inside the given caps.\<close>

definition envelope_ok :: "policy_id \<Rightarrow> nat \<Rightarrow> nat \<Rightarrow> envelope_result \<Rightarrow> bool" where
  "envelope_ok p b l r \<longleftrightarrow>
     byte_length (shown_text r) \<le> b \<and> text_lines (shown_text r) \<le> l \<and> length (block_texts (er_content r)) \<le> 1
     \<and> shown_images r \<le> (if p = Native_read_page then 1 else 0)
     \<and> of_policy (er_facts r) = p
     \<and> of_shown_bytes (er_facts r) = byte_length (shown_text r) \<and> of_shown_lines (er_facts r) = text_lines (shown_text r)
     \<and> of_shown_images (er_facts r) = shown_images r
     \<and> of_shown_images (er_facts r) + of_omitted_images (er_facts r) = of_original_images (er_facts r)"

lemma find_filter: "find P xs = Some x \<Longrightarrow> 0 < length (filter P xs) \<and> P x"
  by (induction xs) (auto split: if_splits)

lemma kept_image_facts:
  assumes "kept_image i c blocks = Some b"
  shows "is_image b" "0 < length (filter is_image blocks)" "ec_policy c = Native_read_page"
  using assms find_filter[of is_image blocks b] by (auto simp: kept_image_def split: if_splits)

lemma image_block_texts: "is_image b \<Longrightarrow> block_texts (b # bs) = block_texts bs"
  by (cases b) auto

lemma safe_failure_ok: "envelope_ok p b l (safe_failure p b l)" "er_error (safe_failure p b l)"
proof -
  let ?t = "bounded_prefix envelope_failure_text (min b error_result_max_bytes) (min l 1)"
  show "envelope_ok p b l (safe_failure p b l)"
    using bounded_prefix_within[of envelope_failure_text "min b error_result_max_bytes" "min l 1"]
    by (auto simp: envelope_ok_def safe_failure_def Let_def shown_text_def shown_images_def)
  show "er_error (safe_failure p b l)" by (simp add: safe_failure_def Let_def)
qed

lemma empty_envelope_ok: "envelope_ok (ec_policy c) b l (empty_envelope i c source images)"
  by (simp add: envelope_ok_def empty_envelope_def Let_def shown_text_def shown_images_def byte_length_def utf8_def text_lines_def)

text \<open>The shown text of a filled envelope is the final text, its images the kept one.\<close>

lemma final_content:
  assumes "k = None \<or> (\<exists>b. k = Some b \<and> is_image b)"
  shows "block_texts ((case k of None \<Rightarrow> [] | Some b \<Rightarrow> [b]) @ (if t = [] then [] else [Text_block t])) = (if t = [] then [] else [t])"
    "length (filter is_image ((case k of None \<Rightarrow> [] | Some b \<Rightarrow> [b]) @ (if t = [] then [] else [Text_block t]))) = (if k = None then 0 else 1)"
  using assms image_block_texts by (auto simp: image_block_texts)


lemma envelope_cut_facts:
  assumes "envelope_cut i c blocks = (shown, m)"
  shows "byte_length (final_text shown m) \<le> envelope_bytes i c" "text_lines (final_text shown m) \<le> ec_lines c"
    "\<exists>q. source_text blocks = shown @ q"
proof -
  have "byte_length (final_text shown m) \<le> envelope_bytes i c \<and> text_lines (final_text shown m) \<le> ec_lines c
      \<and> (\<exists>q. source_text blocks = shown @ q)"
  proof (cases "cut_needed i c blocks")
    case True
    then show ?thesis using assms cut_source_facts by (simp add: envelope_cut_def)
  next
    case False
    then show ?thesis using assms
      by (auto simp: envelope_cut_def cut_needed_def final_text_def text_lines_def byte_length_def utf8_def split: if_splits)
  qed
  then show "byte_length (final_text shown m) \<le> envelope_bytes i c" "text_lines (final_text shown m) \<le> ec_lines c"
    "\<exists>q. source_text blocks = shown @ q" by simp_all
qed

text \<open>A filled envelope is inside its caps; it is uncut exactly when nothing had to go, and then shows the
  whole source.\<close>

lemma fill_envelope_facts:
  fixes i c blocks
  defines "r \<equiv> fill_envelope i c blocks"
  assumes caps: "0 < envelope_bytes i c" "0 < ec_lines c"
  shows "envelope_ok (ec_policy c) (envelope_bytes i c) (ec_lines c) r"
    "of_truncated (er_facts r) \<longleftrightarrow> cut_needed i c blocks" "of_original_bytes (er_facts r) = byte_length (source_text blocks)"
    "\<exists>p q m. source_text blocks = p @ q \<and> shown_text r = final_text p m \<and> of_omitted_bytes (er_facts r) = byte_length q
       \<and> (if of_truncated (er_facts r) then True else q = [] \<and> m = [])"
proof -
  let ?k = "kept_image i c blocks"
  have k: "?k = None \<or> (\<exists>b. ?k = Some b \<and> is_image b)" using kept_image_facts(1) by (cases ?k) auto
  have kn: "kept_count ?k \<le> image_count blocks"
    using kept_image_facts(2)[of i c blocks]
    by (cases ?k) (auto simp: kept_count_def image_count_def Suc_le_eq simp del: length_greater_0_conv)
  have kp: "?k = None" if "ec_policy c \<noteq> Native_read_page" using that kept_image_facts(3) by (cases ?k) auto
  obtain shown m where cut: "envelope_cut i c blocks = (shown, m)" by fastforce
  note fit = envelope_cut_facts[OF cut]
  have r: "er_content r = (case ?k of None \<Rightarrow> [] | Some b \<Rightarrow> [b]) @
        (if final_text shown m = [] then [] else [Text_block (final_text shown m)])"
      "of_truncated (er_facts r) \<longleftrightarrow> cut_needed i c blocks"
      "of_shown_bytes (er_facts r) = byte_length (final_text shown m)" "of_shown_lines (er_facts r) = text_lines (final_text shown m)"
      "of_shown_images (er_facts r) = kept_count ?k" "of_original_images (er_facts r) = image_count blocks"
      "of_omitted_images (er_facts r) = image_count blocks - kept_count ?k" "of_policy (er_facts r) = ec_policy c"
      "of_omitted_bytes (er_facts r) = byte_length (source_text blocks) - byte_length shown"
      "of_original_bytes (er_facts r) = byte_length (source_text blocks)"
    using caps cut by (simp_all add: r_def fill_envelope_def Let_def)
  have shown: "shown_text r = final_text shown m" "shown_images r = kept_count ?k"
    unfolding shown_text_def shown_images_def kept_count_def r(1) by (simp_all only: final_content[OF k]) simp_all
  have "kept_count ?k \<le> (if ec_policy c = Native_read_page then 1 else 0)" using kp by (simp add: kept_count_def)
  then show "envelope_ok (ec_policy c) (envelope_bytes i c) (ec_lines c) r"
    using fit kn shown r(3-8) final_content(1)[OF k] by (simp add: envelope_ok_def r(1))
  show "of_truncated (er_facts r) \<longleftrightarrow> cut_needed i c blocks" "of_original_bytes (er_facts r) = byte_length (source_text blocks)"
    by (rule r)+
  obtain q where q: "source_text blocks = shown @ q" using fit(3) by blast
  have "q = [] \<and> m = []" if "\<not> cut_needed i c blocks" using that cut q by (simp add: envelope_cut_def)
  then show "\<exists>p q m. source_text blocks = p @ q \<and> shown_text r = final_text p m \<and> of_omitted_bytes (er_facts r) = byte_length q
       \<and> (if of_truncated (er_facts r) then True else q = [] \<and> m = [])"
    using q shown(1) r(2,9) by (intro exI[of _ shown] exI[of _ q] exI[of _ m]) (simp add: byte_length_prefix)
qed

lemma envelope_ok_mono: "envelope_ok p b l r \<Longrightarrow> b \<le> b' \<Longrightarrow> l \<le> l' \<Longrightarrow> envelope_ok p b' l' r"
  by (auto simp: envelope_ok_def)

text \<open>The caps a caller asks for, by the fields of its policy and its allocation.\<close>

definition asked_bytes :: "envelope_input \<Rightarrow> nat" where
  "asked_bytes i = min (positive_floor (opt_prop (ei_policy i) ''maxTextBytes'')) (positive_floor (ei_allocated i))"

definition asked_lines :: "envelope_input \<Rightarrow> nat" where
  "asked_lines i = positive_floor (opt_prop (ei_policy i) ''maxLines'')"

text \<open>A filled envelope shows a beginning of the source, and all of it when it is not marked as truncated.\<close>

definition envelope_shows :: "content_block list \<Rightarrow> envelope_result \<Rightarrow> bool" where
  "envelope_shows blocks r \<longleftrightarrow>
     (\<exists>p q m. source_text blocks = p @ q \<and> shown_text r = final_text p m \<and> of_omitted_bytes (er_facts r) = byte_length q
       \<and> (if of_truncated (er_facts r) then True else q = [] \<and> m = []))"

lemma fill_envelope_result:
  "envelope_ok (ec_policy c) (envelope_bytes i c) (ec_lines c) (fill_envelope i c blocks)"
  "envelope_shows blocks (fill_envelope i c blocks)"
  "er_error (fill_envelope i c blocks) \<longleftrightarrow> ei_error i = JBool True"
proof -
  show "envelope_ok (ec_policy c) (envelope_bytes i c) (ec_lines c) (fill_envelope i c blocks)"
    using fill_envelope_facts(1)[of i c blocks] empty_envelope_ok[of c] by (simp add: fill_envelope_def Let_def)
  have "envelope_shows blocks (empty_envelope i c (source_text blocks) (image_count blocks))"
    unfolding envelope_shows_def
    by (intro exI[of _ "[]"] exI[of _ "source_text blocks"])
      (auto simp: empty_envelope_def Let_def shown_text_def final_text_def)
  then show "envelope_shows blocks (fill_envelope i c blocks)"
    using fill_envelope_facts(4)[of i c blocks] unfolding envelope_shows_def[symmetric]
    by (simp add: fill_envelope_def Let_def)
  show "er_error (fill_envelope i c blocks) \<longleftrightarrow> ei_error i = JBool True"
    by (simp add: fill_envelope_def empty_envelope_def Let_def split: prod.splits)
qed

lemma read_caps_fields:
  assumes "read_caps i = Some c"
  shows "ec_policy_bytes c = min (positive_floor (opt_prop (ei_policy i) ''maxTextBytes'')) (oc_max_bytes (hard_ceiling (ec_policy c)))"
    "ec_lines c = min (asked_lines i) (oc_max_lines (hard_ceiling (ec_policy c)))" "ec_allocated c = positive_floor (ei_allocated i)"
    "ec_policy c = resolve_ceiling_id (opt_prop (ei_policy i) ''id'')"
  using assms by (auto simp: read_caps_def asked_lines_def Let_def split: if_splits)

text \<open>The smallest of the caps that apply to a result under a policy.\<close>

definition result_cap :: "envelope_input \<Rightarrow> policy_id \<Rightarrow> bool \<Rightarrow> nat" where
  "result_cap i p err = min (asked_bytes i)
     (min (oc_max_bytes (hard_ceiling p)) (if err then error_result_max_bytes else long_result_max_bytes))"

lemma enforce_envelope_ok:
  assumes "r = enforce_envelope i" "p = of_policy (er_facts r)"
  shows "envelope_ok p (result_cap i p (er_error r)) (min (asked_lines i) (oc_max_lines (hard_ceiling p))) r"
    "read_caps i = Some c \<Longrightarrow> p = ec_policy c"
proof (atomize (full), cases "read_caps i")
  case None
  then have "r = safe_failure Default_policy 0 0" using assms by (simp add: enforce_envelope_def)
  then show "envelope_ok p (result_cap i p (er_error r)) (min (asked_lines i) (oc_max_lines (hard_ceiling p))) r
      \<and> (read_caps i = Some c \<longrightarrow> p = ec_policy c)"
    using None assms(2) safe_failure_ok(1)[of Default_policy 0 0] by (auto simp: envelope_ok_def)
next
  case (Some d)
  note c = read_caps_fields[OF Some]
  have "envelope_ok (ec_policy d) (result_cap i (ec_policy d) (er_error r)) (ec_lines d) r"
  proof (cases "read_content i")
    case None
    then have r: "r = safe_failure (ec_policy d) (min (ec_allocated d) (min (ec_policy_bytes d) error_result_max_bytes)) (ec_lines d)"
      using Some assms(1) by (simp add: enforce_envelope_def)
    then show ?thesis unfolding r using safe_failure_ok(2)
      by (auto intro!: envelope_ok_mono[OF safe_failure_ok(1)] simp: c result_cap_def asked_bytes_def)
  next
    case blocks: (Some blocks)
    then have r: "r = fill_envelope i d blocks" using Some assms(1) by (simp add: enforce_envelope_def)
    show ?thesis unfolding r using ceiling_bounds(1)[of "ec_policy d"]
      by (intro envelope_ok_mono[OF fill_envelope_result(1)])
        (auto simp: c fill_envelope_result(3) result_cap_def asked_bytes_def envelope_bytes_def effective_bytes_def)
  qed
  then show "envelope_ok p (result_cap i p (er_error r)) (min (asked_lines i) (oc_max_lines (hard_ceiling p))) r
      \<and> (read_caps i = Some c \<longrightarrow> p = ec_policy c)"
    using Some c(2) assms(2) by (auto simp: envelope_ok_def)
qed

text \<open>C17: No tool result leaves the envelope larger than asked. Whatever content, policy object and allocation are
  handed in, the text that is shown fits the allocation, the caps of the policy object and the ceiling of the policy it
  names (errors fit the error cap too), there is at most one text, at most one image and that only for a page read, the
  recorded facts describe what is shown, and every image is either shown or counted as omitted. Content that can be read
  is shown from its beginning with the bytes that are missing counted, and whole when it is not marked as truncated;
  content that cannot be read, or a missing policy, gives an error.\<close>

theorem envelope_is_bounded:
  "let r = enforce_envelope i; p = of_policy (er_facts r)
   in envelope_ok p (result_cap i p (er_error r)) (min (asked_lines i) (oc_max_lines (hard_ceiling p))) r
      \<and> (case (read_caps i, read_content i) of
           (Some c, Some blocks) \<Rightarrow> envelope_shows blocks r \<and> er_error r = (ei_error i = JBool True)
         | _ \<Rightarrow> er_error r \<and> of_reason (er_facts r) = Runtime_failure)"
proof -
  have "case (read_caps i, read_content i) of
           (Some c, Some blocks) \<Rightarrow> enforce_envelope i = fill_envelope i c blocks
         | _ \<Rightarrow> \<exists>p b l. enforce_envelope i = safe_failure p b l"
    by (auto simp: enforce_envelope_def split: option.splits)
  moreover have "of_reason (er_facts (safe_failure p b l)) = Runtime_failure" for p b l by (simp add: safe_failure_def Let_def)
  ultimately have "case (read_caps i, read_content i) of
           (Some c, Some blocks) \<Rightarrow> envelope_shows blocks (enforce_envelope i) \<and> er_error (enforce_envelope i) = (ei_error i = JBool True)
         | _ \<Rightarrow> er_error (enforce_envelope i) \<and> of_reason (er_facts (enforce_envelope i)) = Runtime_failure"
    using fill_envelope_result(2,3) safe_failure_ok(2) by (auto split: option.splits)
  then show ?thesis using enforce_envelope_ok(1)[OF refl refl] by (simp add: Let_def)
qed

text \<open>Streaming updates have a fixed envelope of their own.\<close>

lemma streaming_update_bounded:
  "envelope_ok Default_policy stream_update_max_bytes stream_update_max_lines (enforce_streaming_update tool content)"
proof -
  let ?i = "\<lparr>ei_tool = JStr (case as_string tool of Some s \<Rightarrow> s | None \<Rightarrow> []), ei_content = content,
       ei_error = JBool False, ei_policy = stream_policy, ei_allocated = JNum (JInt (int stream_update_max_bytes)),
       ei_continuation = JUndef, ei_receipt = JUndef\<rparr>"
  obtain c where c: "read_caps ?i = Some c" by (auto simp: read_caps_def stream_policy_def Let_def)
  have "resolve_ceiling_id (JStr ''default'') = Default_policy"
    using policy_id_wire.parse_text[of Default_policy] by (simp add: resolve_ceiling_id_def)
  then have p: "of_policy (er_facts (enforce_envelope ?i)) = Default_policy"
    using enforce_envelope_ok(2)[OF refl refl c] read_caps_fields(4)[OF c] by (simp add: stream_policy_def)
  show ?thesis
    unfolding enforce_streaming_update_def
    by (rule envelope_ok_mono[OF enforce_envelope_ok(1)[OF refl refl, of ?i, unfolded p]])
      (simp_all add: result_cap_def asked_bytes_def asked_lines_def stream_policy_def)
qed

end
