(* ===== verification/Turn_Plan.thy ===== *)
theory Turn_Plan
  imports Output_Policy
begin

section \<open>The output plan of a turn (core/turn-output-budget.ts)\<close>

text \<open>
  Before any tool of a batch starts, the whole batch is given its share of the bytes of the turn: the
  minima are reserved in order, the texts of blocked calls come out of the same cap, and what is left is
  divided in proportion to what each call still wants. The input is unknown data. Byte counts stay far
  below the safe integers, so the division of the source is exact.
\<close>

datatype turn_role = Turn_commander | Turn_worker | Turn_other

datatype turn_block = Turn_call_limit | Turn_output_budget

datatype reservation_status = Res_reserved | Res_blocked | Res_consumed | Res_released

record reservation =
  rs_call :: string
  rs_tool :: string
  rs_policy :: policy_id
  rs_desired :: nat
  rs_minimum :: nat
  rs_allocated :: nat
  rs_control :: nat
  rs_ordinal :: nat
  rs_status :: reservation_status
  rs_block :: "turn_block option"

record turn_plan =
  tp_serial :: nat
  tp_role :: turn_role
  tp_max :: nat
  tp_reservations :: "reservation list"
  tp_reserved :: nat
  tp_total :: nat
  tp_consumed :: nat
  tp_control_consumed :: nat

definition dynamic_reservation_bytes :: nat where "dynamic_reservation_bytes = 2048"
definition max_block_control_bytes :: nat where "max_block_control_bytes = 512"
definition max_input_calls :: nat where "max_input_calls = 2048"
definition max_call_key :: nat where "max_call_key = 512"

fun turn_role_text :: "turn_role \<Rightarrow> string" where
  "turn_role_text Turn_commander = ''commander''"
| "turn_role_text Turn_worker = ''worker''"
| "turn_role_text Turn_other = ''other''"

definition normalize_role :: "jv \<Rightarrow> turn_role" where
  "normalize_role v = (if v = JStr ''commander'' then Turn_commander else if v = JStr ''worker'' then Turn_worker else Turn_other)"

fun role_cap :: "turn_role \<Rightarrow> nat" where
  "role_cap Turn_commander = commander_turn_max_bytes"
| "role_cap _ = worker_turn_max_bytes"

definition normalize_serial :: "jv \<Rightarrow> nat" where
  "normalize_serial v = (case as_safe_int v of Some i \<Rightarrow> if 0 \<le> i then nat i else 0 | None \<Rightarrow> 0)"

definition safe_lower_cap :: "jv \<Rightarrow> nat \<Rightarrow> nat \<Rightarrow> bool \<Rightarrow> nat" where
  "safe_lower_cap v fallback hard readable =
     (if \<not> readable then 0 else if v = JUndef then fallback else min (positive_floor v) hard)"

text \<open>\<open>None\<close> is a value without properties.\<close>

definition safe_property :: "jv \<Rightarrow> string \<Rightarrow> jv option" where
  "safe_property v k = (if is_js_object v then Some (opt_prop v k) else None)"

definition bounded_call_key :: "jv \<Rightarrow> string option" where
  "bounded_call_key v =
     (case as_string v of Some s \<Rightarrow> if s \<noteq> [] \<and> length s \<le> max_call_key then Some s else None | None \<Rightarrow> None)"

subsection \<open>Calls\<close>

record norm_call =
  nc_call :: string
  nc_tool :: string
  nc_args :: jv
  nc_valid :: bool
  nc_ordinal :: nat

text \<open>A field under its first name, else under its second; a null first field is a missing one.\<close>

definition call_field :: "jv \<Rightarrow> string \<Rightarrow> string \<Rightarrow> jv option" where
  "call_field v k1 k2 =
     (case safe_property v k1 of None \<Rightarrow> None
      | Some x \<Rightarrow> if x = JUndef then safe_property v k2 else if x = JNull then Some JUndef else Some x)"

definition normalize_call :: "jv \<Rightarrow> nat \<Rightarrow> norm_call" where
  "normalize_call v ordinal =
     (let cid = Option.bind (call_field v ''toolCallId'' ''id'') bounded_call_key;
          name = Option.bind (call_field v ''toolName'' ''name'') bounded_call_key;
          args = call_field v ''args'' ''arguments''
      in \<lparr>nc_call = (case cid of Some s \<Rightarrow> s | None \<Rightarrow> []), nc_tool = (case name of Some s \<Rightarrow> s | None \<Rightarrow> []),
          nc_args = (case args of Some a \<Rightarrow> a | None \<Rightarrow> JUndef), nc_valid = (cid \<noteq> None \<and> name \<noteq> None \<and> args \<noteq> None),
          nc_ordinal = ordinal\<rparr>)"

definition normalize_calls :: "jv \<Rightarrow> norm_call list \<times> bool" where
  "normalize_calls v =
     (case as_array v of
        None \<Rightarrow> ([], v \<noteq> JUndef \<and> v \<noteq> JNull)
      | Some vs \<Rightarrow> (map (\<lambda>(x, n). normalize_call x n) (zip (take max_input_calls vs) [0..<length (take max_input_calls vs)]),
                   max_input_calls < length vs))"

subsection \<open>Blocked calls\<close>

fun blocked_control_text :: "turn_block \<Rightarrow> string" where
  "blocked_control_text Turn_call_limit = ''[workbench-output blocked code=turn_call_limit]''"
| "blocked_control_text Turn_output_budget = ''[workbench-output blocked code=turn_output_budget]''"

definition control_bytes :: "turn_block \<Rightarrow> nat" where
  "control_bytes code =
     (let n = byte_length (blocked_control_text code) in if n < max_block_control_bytes then n else 0)"

subsection \<open>Planning\<close>

definition planned_block :: "norm_call list \<Rightarrow> bool \<Rightarrow> nat \<Rightarrow> norm_call \<Rightarrow> turn_block option" where
  "planned_block calls oversized max_calls c =
     (if max_calls \<le> nc_ordinal c then Some Turn_call_limit
      else if oversized \<or> \<not> nc_valid c
        \<or> 1 < length (filter (\<lambda>d. nc_valid d \<and> nc_call d = nc_call c) calls) then Some Turn_output_budget
      else None)"

definition initial_reservation :: "norm_call list \<Rightarrow> bool \<Rightarrow> nat \<Rightarrow> norm_call \<Rightarrow> reservation" where
  "initial_reservation calls oversized max_calls c =
     (let policy = resolve_tool_policy (nc_tool c) (nc_args c); block = planned_block calls oversized max_calls c
      in \<lparr>rs_call = nc_call c, rs_tool = nc_tool c, rs_policy = op_id policy, rs_desired = op_max_bytes policy,
          rs_minimum = min (op_min_reservation policy) (op_max_bytes policy), rs_allocated = 0, rs_control = 0,
          rs_ordinal = nc_ordinal c, rs_status = (if block = None then Res_reserved else Res_blocked), rs_block = block\<rparr>)"

text \<open>The first pass, with the bytes that remain and whether calls and control texts are still admitted.\<close>

definition control_need :: "reservation \<Rightarrow> nat" where
  "control_need r = control_bytes (case rs_block r of Some b \<Rightarrow> b | None \<Rightarrow> Turn_output_budget)"

fun admit :: "nat \<Rightarrow> bool \<Rightarrow> bool \<Rightarrow> reservation list \<Rightarrow> reservation list \<times> nat" where
  "admit remaining calls_open texts_open [] = ([], remaining)"
| "admit remaining calls_open texts_open (r # rs) =
     (if rs_status r = Res_reserved \<and> calls_open \<and> 0 < rs_minimum r \<and> rs_minimum r \<le> remaining
      then let (rs', left) = admit (remaining - rs_minimum r) calls_open texts_open rs
           in (r\<lparr>rs_allocated := rs_minimum r\<rparr> # rs', left)
      else
        let (b, calls_open') =
              (if rs_status r = Res_reserved then (r\<lparr>rs_status := Res_blocked, rs_block := Some Turn_output_budget\<rparr>, False)
               else (r, calls_open));
            needed = control_need b
        in if texts_open \<and> 0 < needed \<and> needed \<le> remaining
           then let (rs', left) = admit (remaining - needed) calls_open' texts_open rs
                in (b\<lparr>rs_control := needed\<rparr> # rs', left)
           else let (rs', left) = admit remaining calls_open' False rs in (b # rs', left))"

definition executable :: "reservation \<Rightarrow> bool" where
  "executable r \<longleftrightarrow> rs_status r = Res_reserved"

definition extra_need :: "reservation \<Rightarrow> nat" where
  "extra_need r = (if executable r then rs_desired r - rs_minimum r else 0)"

definition total_extra_need :: "reservation list \<Rightarrow> nat" where
  "total_extra_need rs = sum_list (map extra_need rs)"

definition give_share :: "nat \<Rightarrow> nat \<Rightarrow> reservation \<Rightarrow> reservation" where
  "give_share distributable tot r =
     (if executable r then r\<lparr>rs_allocated := rs_allocated r + distributable * extra_need r div tot\<rparr> else r)"

text \<open>One round over the executable calls: a byte for each that still wants one.\<close>

fun hand_out :: "nat \<Rightarrow> reservation list \<Rightarrow> reservation list \<times> nat" where
  "hand_out 0 rs = (rs, 0)"
| "hand_out n [] = ([], n)"
| "hand_out (Suc n) (r # rs) =
     (if executable r \<and> rs_allocated r < rs_desired r
      then let (rs', k) = hand_out n rs in (r\<lparr>rs_allocated := Suc (rs_allocated r)\<rparr> # rs', k)
      else let (rs', k) = hand_out (Suc n) rs in (r # rs', k))"

lemma hand_out_le: "snd (hand_out n rs) \<le> n"
proof (induction n rs rule: hand_out.induct)
  case (3 n r rs)
  then show ?case by (auto split: prod.splits)
qed auto

text \<open>The rounds end with the remainder, or when a round gives nothing.\<close>

function spread :: "nat \<Rightarrow> reservation list \<Rightarrow> reservation list" where
  "spread n rs =
     (if n = 0 then rs
      else let (rs', k) = hand_out n rs in if k = n then rs' else spread k rs')"
  by auto
termination
proof (relation "measure fst")
  fix n :: nat and rs rs' :: "reservation list" and x k
  assume "x = hand_out n rs" "(rs', k) = x" "k \<noteq> n"
  then have "k < n" using hand_out_le[of n rs] by (metis le_neq_implies_less snd_conv)
  then show "((k, rs'), (n, rs)) \<in> measure fst" by simp
qed simp

declare spread.simps [simp del]

definition distribute :: "nat \<Rightarrow> reservation list \<Rightarrow> reservation list" where
  "distribute remaining rs =
     (let tot = total_extra_need rs; distributable = min remaining tot
      in if 0 < distributable \<and> 0 < tot
         then spread (distributable - sum_list (map (\<lambda>r. distributable * extra_need r div tot) (filter executable rs)))
                (map (give_share distributable tot) rs)
         else rs)"

definition reserved_bytes :: "reservation list \<Rightarrow> nat" where
  "reserved_bytes rs = sum_list (map (\<lambda>r. rs_allocated r + rs_control r) rs)"

text \<open>The plan for given caps and calls.\<close>

definition plan_reservations :: "nat \<Rightarrow> nat \<Rightarrow> norm_call list \<Rightarrow> bool \<Rightarrow> reservation list" where
  "plan_reservations max_bytes max_calls calls oversized =
     (let (rs, left) = admit max_bytes True True (map (initial_reservation calls oversized max_calls) calls)
      in distribute left rs)"

definition plan_turn :: "jv \<Rightarrow> turn_plan" where
  "plan_turn input =
     (let readable = is_js_object input;
          field = (\<lambda>k. if readable then opt_prop input k else JUndef);
          role = normalize_role (field ''role'');
          max_bytes = safe_lower_cap (field ''maxBytes'') (role_cap role) (role_cap role) readable;
          max_calls = safe_lower_cap (field ''maxCalls'') max_tool_calls_per_turn max_tool_calls_per_turn readable;
          (calls, oversized) = normalize_calls (field ''calls'');
          rs = plan_reservations max_bytes max_calls calls oversized
      in \<lparr>tp_serial = normalize_serial (field ''turnSerial''), tp_role = role, tp_max = max_bytes, tp_reservations = rs,
          tp_reserved = reserved_bytes rs, tp_total = reserved_bytes rs, tp_consumed = 0, tp_control_consumed = 0\<rparr>)"

subsection \<open>Growing reservations\<close>

text \<open>The second pass only raises the allocation of executable calls, never above what they want.\<close>

definition grows :: "reservation \<Rightarrow> reservation \<Rightarrow> bool" where
  "grows r r' \<longleftrightarrow> (\<exists>a. r' = r\<lparr>rs_allocated := a\<rparr> \<and> rs_allocated r \<le> a
     \<and> (if executable r then a \<le> max (rs_allocated r) (rs_desired r) else a = rs_allocated r))"

lemma grows_refl [simp]: "grows r r"
  unfolding grows_def by (rule exI[of _ "rs_allocated r"]) simp

lemma executable_update [simp]: "executable (r\<lparr>rs_allocated := a\<rparr>) = executable r"
  by (simp add: executable_def)

lemma grows_trans:
  assumes "grows r s" "grows s t"
  shows "grows r t"
proof -
  obtain a where a: "s = r\<lparr>rs_allocated := a\<rparr>" "rs_allocated r \<le> a"
      "if executable r then a \<le> max (rs_allocated r) (rs_desired r) else a = rs_allocated r"
    using assms(1) unfolding grows_def by blast
  obtain b where b: "t = s\<lparr>rs_allocated := b\<rparr>" "rs_allocated s \<le> b"
      "if executable s then b \<le> max (rs_allocated s) (rs_desired s) else b = rs_allocated s"
    using assms(2) unfolding grows_def by blast
  have "t = r\<lparr>rs_allocated := b\<rparr>" "rs_allocated r \<le> b" using a(1,2) b(1,2) by simp_all
  moreover have "if executable r then b \<le> max (rs_allocated r) (rs_desired r) else b = rs_allocated r"
    using a b(3) by (auto split: if_splits)
  ultimately show ?thesis unfolding grows_def by blast
qed

lemma all_grow_refl [simp]: "list_all2 grows rs rs"
  by (simp add: list_all2_refl)

lemma all_grow_trans: "list_all2 grows rs ss \<Longrightarrow> list_all2 grows ss ts \<Longrightarrow> list_all2 grows rs ts"
  using list_all2_trans[of grows grows grows] grows_trans by blast

text \<open>What the executable calls still want.\<close>

definition unmet :: "reservation \<Rightarrow> nat" where
  "unmet r = (if executable r then rs_desired r - rs_allocated r else 0)"

definition total_unmet :: "reservation list \<Rightarrow> nat" where
  "total_unmet rs = sum_list (map unmet rs)"

lemma sums_simps [simp]:
  "reserved_bytes [] = 0" "reserved_bytes (r # rs) = rs_allocated r + rs_control r + reserved_bytes rs"
  "total_unmet [] = 0" "total_unmet (r # rs) = unmet r + total_unmet rs"
  "total_extra_need [] = 0" "total_extra_need (r # rs) = extra_need r + total_extra_need rs"
  by (simp_all add: reserved_bytes_def total_unmet_def total_extra_need_def)

lemma hand_out_facts:
  "hand_out n rs = (rs', k) \<Longrightarrow> list_all2 grows rs rs' \<and> k \<le> n
     \<and> reserved_bytes rs' + k = reserved_bytes rs + n \<and> total_unmet rs' + n = total_unmet rs + k
     \<and> (k = 0 \<or> k + total_unmet rs \<le> n \<or> k < n)"
proof (induction n rs arbitrary: rs' k rule: hand_out.induct)
  case (3 n r rs)
  show ?case
  proof (cases "executable r \<and> rs_allocated r < rs_desired r")
    case True
    then obtain ss where ss: "hand_out n rs = (ss, k)" "rs' = r\<lparr>rs_allocated := Suc (rs_allocated r)\<rparr> # ss"
      using 3(3) by (auto split: prod.splits)
    have "grows r (r\<lparr>rs_allocated := Suc (rs_allocated r)\<rparr>)" using True by (auto simp: grows_def)
    then show ?thesis using "3.IH"(1)[OF True ss(1)] True by (auto simp: ss(2) unmet_def executable_def)
  next
    case False
    then obtain ss where ss: "hand_out (Suc n) rs = (ss, k)" "rs' = r # ss"
      using 3(3) by (auto split: prod.splits)
    show ?thesis using "3.IH"(2)[OF False ss(1)] False by (auto simp: ss(2) unmet_def)
  qed
qed auto

lemma spread_facts:
  "n \<le> total_unmet rs \<Longrightarrow> list_all2 grows rs (spread n rs)
     \<and> reserved_bytes (spread n rs) = reserved_bytes rs + n \<and> total_unmet (spread n rs) + n = total_unmet rs"
proof (induction n rs rule: spread.induct)
  case (1 n rs)
  obtain rs' k where h: "hand_out n rs = (rs', k)" by fastforce
  note facts = hand_out_facts[OF h]
  show ?case
  proof (cases "n = 0")
    case False
    then have "k \<noteq> n" using facts 1(2) by auto
    then have "spread n rs = spread k rs'" using False h by (simp add: spread.simps[of n])
    moreover have "list_all2 grows rs' (spread k rs') \<and> reserved_bytes (spread k rs') = reserved_bytes rs' + k
        \<and> total_unmet (spread k rs') + k = total_unmet rs'"
      using "1.IH"[OF False h[symmetric] refl] \<open>k \<noteq> n\<close> facts 1(2) by auto
    ultimately show ?thesis using facts all_grow_trans by auto
  qed (simp add: spread.simps)
qed


lemma shares_bounded:
  fixes f :: "'a \<Rightarrow> nat"
  assumes "0 < t" "sum_list (map f xs) \<le> t"
  shows "sum_list (map (\<lambda>x. d * f x div t) xs) \<le> d"
proof -
  have "sum_list (map (\<lambda>x. d * f x div t) xs) * t \<le> d * sum_list (map f xs)"
    by (induction xs) (auto simp: algebra_simps intro: add_mono)
  also have "\<dots> \<le> d * t" using assms(2) by simp
  finally show ?thesis using assms(1) by simp
qed

definition at_minimum :: "reservation \<Rightarrow> bool" where
  "at_minimum r \<longleftrightarrow> rs_minimum r \<le> rs_desired r \<and> (if executable r then rs_allocated r = rs_minimum r else True)"

lemma share_le_need: "d \<le> t \<Longrightarrow> d * n div t \<le> (n::nat)"
proof (cases "t = 0")
  case False
  assume "d \<le> t"
  then have "d * n div t \<le> t * n div t" by (intro div_le_mono mult_le_mono1)
  then show ?thesis using False by simp
qed simp

lemma give_share_facts:
  assumes "at_minimum r" "d \<le> t"
  shows "grows r (give_share d t r)" "unmet (give_share d t r) + d * extra_need r div t = extra_need r"
    "rs_allocated (give_share d t r) = rs_allocated r + d * extra_need r div t" "rs_control (give_share d t r) = rs_control r"
proof -
  have "d * extra_need r div t \<le> extra_need r" using share_le_need[OF assms(2)] .
  then show "unmet (give_share d t r) + d * extra_need r div t = extra_need r"
      "rs_allocated (give_share d t r) = rs_allocated r + d * extra_need r div t" "rs_control (give_share d t r) = rs_control r"
    using assms(1) by (auto simp: give_share_def unmet_def extra_need_def at_minimum_def split: if_splits)
  show "grows r (give_share d t r)"
    using \<open>d * extra_need r div t \<le> extra_need r\<close> assms(1)
    unfolding grows_def
    by (intro exI[of _ "rs_allocated r + d * extra_need r div t"]) (auto simp: give_share_def extra_need_def at_minimum_def)
qed

lemma all_shares:
  assumes "d \<le> t" "list_all at_minimum rs"
  shows "list_all2 grows rs (map (give_share d t) rs)
     \<and> reserved_bytes (map (give_share d t) rs) = reserved_bytes rs + sum_list (map (\<lambda>r. d * extra_need r div t) rs)
     \<and> total_unmet (map (give_share d t) rs) + sum_list (map (\<lambda>r. d * extra_need r div t) rs) = total_extra_need rs"
  using assms(2)
proof (induction rs)
  case (Cons r rs)
  then show ?case using give_share_facts[of r, OF _ assms(1)] by auto
qed simp

lemma executable_shares:
  "sum_list (map (\<lambda>r. d * extra_need r div t) (filter executable rs)) = sum_list (map (\<lambda>r. d * extra_need r div t) rs)"
  by (induction rs) (auto simp: extra_need_def)

lemma distribute_facts:
  assumes "list_all at_minimum rs"
  shows "list_all2 grows rs (distribute left rs)
     \<and> reserved_bytes (distribute left rs) = reserved_bytes rs + min left (total_extra_need rs)
     \<and> total_unmet (distribute left rs) = total_extra_need rs - left"
proof (cases "0 < min left (total_extra_need rs)")
  case True
  let ?t = "total_extra_need rs"
  obtain d where d: "d = min left ?t" by simp
  obtain k where k: "k = sum_list (map (\<lambda>r. d * extra_need r div ?t) rs)" by simp
  let ?rs = "map (give_share d ?t) rs"
  have s: "k \<le> d" using shares_bounded[of ?t extra_need rs d] True unfolding k by (simp add: total_extra_need_def)
  have all: "list_all2 grows rs ?rs" "reserved_bytes ?rs = reserved_bytes rs + k" "total_unmet ?rs + k = ?t"
    using all_shares[of d ?t rs] assms unfolding k by (simp_all add: d)
  have "d - k \<le> total_unmet ?rs" using all(3) s by (simp add: d)
  note sp = spread_facts[OF this]
  have "list_all2 grows rs (spread (d - k) ?rs)" using sp all(1) all_grow_trans by blast
  moreover have "reserved_bytes (spread (d - k) ?rs) = reserved_bytes rs + d" using sp all(2) s by simp
  moreover have "total_unmet (spread (d - k) ?rs) = ?t - left"
  proof -
    have "total_unmet (spread (d - k) ?rs) + d = ?t" using sp all(3) s by linarith
    then show ?thesis unfolding d by (simp add: min_def split: if_splits)
  qed
  moreover have "distribute left rs = spread (d - k) ?rs"
    using True by (simp add: distribute_def executable_shares Let_def d k)
  ultimately show ?thesis unfolding d by simp
next
  case False
  have "total_unmet rs = total_extra_need rs" using assms
    by (induction rs) (auto simp: unmet_def extra_need_def at_minimum_def)
  then show ?thesis using False by (auto simp: distribute_def Let_def)
qed

subsection \<open>Admission\<close>

definition fresh_reservation :: "reservation \<Rightarrow> bool" where
  "fresh_reservation r \<longleftrightarrow> rs_allocated r = 0 \<and> rs_control r = 0 \<and> 0 < rs_minimum r \<and> rs_minimum r \<le> rs_desired r
     \<and> (if executable r then rs_block r = None else rs_status r = Res_blocked \<and> rs_block r \<noteq> None)"

text \<open>An executable call holds between its minimum and what it wants; a blocked one holds at most the text that says so.\<close>

definition sound_reservation :: "reservation \<Rightarrow> bool" where
  "sound_reservation r \<longleftrightarrow> 0 < rs_minimum r \<and> rs_minimum r \<le> rs_desired r
     \<and> (if executable r
        then rs_block r = None \<and> rs_control r = 0 \<and> rs_minimum r \<le> rs_allocated r \<and> rs_allocated r \<le> rs_desired r
        else rs_status r = Res_blocked \<and> rs_block r \<noteq> None \<and> rs_allocated r = 0 \<and> rs_control r \<in> {0, control_need r})"

text \<open>The passes keep what a reservation is about, and never open a blocked call.\<close>

definition same_call :: "reservation \<Rightarrow> reservation \<Rightarrow> bool" where
  "same_call r r' \<longleftrightarrow> rs_call r' = rs_call r \<and> rs_tool r' = rs_tool r \<and> rs_policy r' = rs_policy r
     \<and> rs_desired r' = rs_desired r \<and> rs_minimum r' = rs_minimum r \<and> rs_ordinal r' = rs_ordinal r
     \<and> (if executable r then executable r' \<or> rs_block r' = Some Turn_output_budget
        else \<not> executable r' \<and> rs_block r' = rs_block r)"

lemma grows_sound: "grows r r' \<Longrightarrow> sound_reservation r \<Longrightarrow> sound_reservation r'"
  by (auto simp: grows_def sound_reservation_def control_need_def executable_def split: if_splits)

lemma all_grow_sound: "list_all2 grows rs ss \<Longrightarrow> list_all sound_reservation rs \<Longrightarrow> list_all sound_reservation ss"
  by (induction rule: list_all2_induct) (auto intro: grows_sound)

lemma grows_same_call: "grows r r' \<Longrightarrow> same_call r r'"
  by (auto simp: grows_def same_call_def executable_def)

lemma same_call_trans: "same_call r s \<Longrightarrow> same_call s t \<Longrightarrow> same_call r t"
  by (auto simp: same_call_def split: if_splits)

definition block_call :: "reservation \<Rightarrow> reservation" where
  "block_call r = (if executable r then r\<lparr>rs_status := Res_blocked, rs_block := Some Turn_output_budget\<rparr> else r)"

lemma block_call_facts:
  assumes "fresh_reservation r"
  shows "\<not> executable (block_call r)" "same_call r (block_call r)" "rs_allocated (block_call r) = 0"
    "rs_control (block_call r) = 0" "sound_reservation (block_call r)" "at_minimum (block_call r)"
  using assms by (simp_all add: block_call_def fresh_reservation_def executable_def same_call_def sound_reservation_def at_minimum_def
      split: if_splits)

lemma control_text_facts:
  assumes "fresh_reservation r" "n = control_need (block_call r)"
  shows "same_call r (block_call r\<lparr>rs_control := n\<rparr>)" "sound_reservation (block_call r\<lparr>rs_control := n\<rparr>)"
    "at_minimum (block_call r\<lparr>rs_control := n\<rparr>)"
  using assms block_call_facts[OF assms(1)]
  by (auto simp: same_call_def sound_reservation_def at_minimum_def executable_def control_need_def split: if_splits)

lemma admit_call_facts:
  assumes "fresh_reservation r" "executable r"
  shows "same_call r (r\<lparr>rs_allocated := rs_minimum r\<rparr>)" "sound_reservation (r\<lparr>rs_allocated := rs_minimum r\<rparr>)"
    "at_minimum (r\<lparr>rs_allocated := rs_minimum r\<rparr>)"
  using assms by (simp_all add: fresh_reservation_def same_call_def sound_reservation_def at_minimum_def)

text \<open>One step of the first pass, by its three outcomes.\<close>

lemma admit_step:
  "admit n calls texts (r # rs) =
     (if executable r \<and> calls \<and> 0 < rs_minimum r \<and> rs_minimum r \<le> n
      then map_prod ((#) (r\<lparr>rs_allocated := rs_minimum r\<rparr>)) id (admit (n - rs_minimum r) calls texts rs)
      else let calls' = (calls \<and> \<not> executable r); needed = control_need (block_call r)
        in if texts \<and> 0 < needed \<and> needed \<le> n
           then map_prod ((#) (block_call r\<lparr>rs_control := needed\<rparr>)) id (admit (n - needed) calls' texts rs)
           else map_prod ((#) (block_call r)) id (admit n calls' False rs))"
  by (simp add: executable_def block_call_def Let_def map_prod_def split: prod.splits)

lemma map_prod_cons: "map_prod ((#) x) id p = (xs, l) \<longleftrightarrow> (\<exists>ys. xs = x # ys \<and> p = (ys, l))"
  by (cases p) auto

lemma admit_facts:
  "list_all fresh_reservation rs \<Longrightarrow> admit n calls texts rs = (rs', left) \<Longrightarrow>
     list_all2 same_call rs rs' \<and> list_all sound_reservation rs' \<and> list_all at_minimum rs' \<and> reserved_bytes rs' + left = n"
proof (induction rs arbitrary: n calls texts rs' left)
  case (Cons r rs)
  have r: "fresh_reservation r" and rs: "list_all fresh_reservation rs" using Cons.prems(1) by simp_all
  let ?need = "control_need (block_call r)"
  consider (call) ss c t where "executable r" "rs_minimum r \<le> n" "rs' = r\<lparr>rs_allocated := rs_minimum r\<rparr> # ss"
      "admit (n - rs_minimum r) c t rs = (ss, left)"
    | (control) ss c t where "?need \<le> n" "rs' = block_call r\<lparr>rs_control := ?need\<rparr> # ss"
      "admit (n - ?need) c t rs = (ss, left)"
    | (none) ss c t where "rs' = block_call r # ss" "admit n c t rs = (ss, left)"
    using Cons.prems(2) unfolding admit_step Let_def by (simp only: map_prod_cons split: if_splits) blast+
  then show ?case
  proof cases
    case call
    then show ?thesis using Cons.IH[OF rs call(4)] admit_call_facts[OF r call(1)] r by (auto simp: fresh_reservation_def)
  next
    case control
    then show ?thesis using Cons.IH[OF rs control(3)] control_text_facts[OF r refl] block_call_facts(3)[OF r] by auto
  next
    case none
    then show ?thesis using Cons.IH[OF rs none(2)] block_call_facts[OF r] by simp
  qed
qed simp

subsection \<open>The plan\<close>

text \<open>A reservation is about its call: it carries the policy of the call's tool, is executable only if
  nothing blocked the call from the start, and names the reason it is blocked for.\<close>

definition about_call :: "norm_call list \<Rightarrow> bool \<Rightarrow> nat \<Rightarrow> norm_call \<Rightarrow> reservation \<Rightarrow> bool" where
  "about_call calls oversized max_calls c r \<longleftrightarrow>
     (let pol = resolve_tool_policy (nc_tool c) (nc_args c) in
      rs_call r = nc_call c \<and> rs_tool r = nc_tool c \<and> rs_ordinal r = nc_ordinal c
      \<and> rs_policy r = op_id pol \<and> rs_desired r = op_max_bytes pol
      \<and> rs_minimum r = min (op_min_reservation pol) (op_max_bytes pol) \<and> rs_desired r \<le> long_result_max_bytes
      \<and> (executable r \<longrightarrow> nc_ordinal c < max_calls \<and> \<not> oversized \<and> nc_valid c
           \<and> length (filter (\<lambda>d. nc_valid d \<and> nc_call d = nc_call c) calls) = 1)
      \<and> (\<not> executable r \<longrightarrow> rs_block r = Some (if max_calls \<le> nc_ordinal c then Turn_call_limit else Turn_output_budget)))"

lemma initial_fresh: "fresh_reservation (initial_reservation calls oversized max_calls c)"
  using tool_policy_within(3,4) by (simp add: fresh_reservation_def initial_reservation_def Let_def executable_def)

lemma initial_about:
  assumes "same_call (initial_reservation calls oversized max_calls c) r" "c \<in> set calls"
  shows "about_call calls oversized max_calls c r"
proof -
  have "0 < length (filter (\<lambda>d. nc_valid d \<and> nc_call d = nc_call c) calls)" if "nc_valid c"
    using assms(2) that by (auto simp: filter_empty_conv)
  then show ?thesis
    using assms(1) tool_policy_within(5)
    by (auto simp: same_call_def about_call_def initial_reservation_def planned_block_def Let_def executable_def
        not_less not_le less_Suc_eq_le le_Suc_eq split: if_splits)
qed

lemma plan_reservations_facts:
  assumes "rs = plan_reservations max_bytes max_calls calls oversized"
  shows "list_all sound_reservation rs" "list_all2 (about_call calls oversized max_calls) calls rs"
    "reserved_bytes rs \<le> max_bytes" "reserved_bytes rs = max_bytes \<or> total_unmet rs = 0"
proof -
  let ?init = "map (initial_reservation calls oversized max_calls) calls"
  obtain ad left where ad: "admit max_bytes True True ?init = (ad, left)" by fastforce
  have "list_all fresh_reservation ?init" by (simp add: list_all_iff initial_fresh)
  note a = admit_facts[OF this ad]
  have rs: "rs = distribute left ad" using ad by (simp add: assms plan_reservations_def)
  note d = distribute_facts[of ad left, folded rs]
  have g: "list_all2 grows ad rs" using a d by blast
  show "list_all sound_reservation rs" using all_grow_sound[OF g] a by blast
  have "list_all2 same_call ad rs" using g by (rule list_all2_mono) (rule grows_same_call)
  with a have "list_all2 same_call ?init rs"
    using list_all2_trans[of same_call same_call same_call ?init ad rs] same_call_trans by blast
  then show "list_all2 (about_call calls oversized max_calls) calls rs"
    unfolding list_all2_map1
    by (auto simp: list_all2_conv_all_nth intro: initial_about nth_mem)
  show "reserved_bytes rs \<le> max_bytes" "reserved_bytes rs = max_bytes \<or> total_unmet rs = 0" using a d by linarith+
qed

lemma unmet_zero:
  "list_all sound_reservation rs \<Longrightarrow> total_unmet rs = 0 \<Longrightarrow> list_all (\<lambda>r. rs_allocated r = rs_desired r) (filter executable rs)"
  by (induction rs) (auto simp: sound_reservation_def unmet_def split: if_splits)

lemma executable_calls_count:
  "list_all2 (about_call calls oversized m) cs rs \<Longrightarrow>
     length (filter (\<lambda>r. executable r \<and> rs_call r = a) rs) \<le> length (filter (\<lambda>c. nc_valid c \<and> nc_call c = a) cs)"
  by (induction rule: list_all2_induct) (auto simp: about_call_def Let_def split: if_splits)

lemma distinct_filter_map:
  "\<forall>a. (\<exists>x\<in>set xs. P x \<and> f x = a) \<longrightarrow> length (filter (\<lambda>x. P x \<and> f x = a) xs) \<le> 1 \<Longrightarrow> distinct (map f (filter P xs))"
proof (induction xs)
  case (Cons x xs)
  have "length (filter (\<lambda>y. P y \<and> f y = a) xs) \<le> 1" if "\<exists>y\<in>set xs. P y \<and> f y = a" for a
    using Cons.prems[rule_format, of a] that by (auto split: if_splits)
  then have d: "distinct (map f (filter P xs))" using Cons.IH by blast
  have "filter (\<lambda>y. P y \<and> f y = f x) xs = []" if "P x"
    using Cons.prems[rule_format, of "f x"] that by simp
  then show ?case using d by (force simp: filter_empty_conv)
qed simp

lemma executable_calls_distinct:
  assumes "list_all2 (about_call calls oversized m) calls rs"
  shows "distinct (map rs_call (filter executable rs))"
proof (rule distinct_filter_map, intro allI impI)
  fix a assume "\<exists>r\<in>set rs. executable r \<and> rs_call r = a"
  then have "length (filter (\<lambda>d. nc_valid d \<and> nc_call d = a) calls) = 1"
    using assms by (auto simp: about_call_def Let_def list_all2_conv_all_nth in_set_conv_nth)
  then show "length (filter (\<lambda>r. executable r \<and> rs_call r = a) rs) \<le> 1" using executable_calls_count[OF assms, of a] by linarith
qed

lemma normalized_ordinals: "map nc_ordinal (fst (normalize_calls v)) = [0..<length (fst (normalize_calls v))]"
  by (rule nth_equalityI) (auto simp: normalize_calls_def normalize_call_def Let_def split: option.splits)

lemma plan_ordinals:
  assumes "list_all2 (about_call calls oversized m) calls rs" "map nc_ordinal calls = [0..<length calls]"
  shows "map rs_ordinal rs = [0..<length rs]" "length (filter executable rs) \<le> m"
proof -
  have "map rs_ordinal rs = map nc_ordinal calls"
    using assms(1) by (intro nth_equalityI) (auto simp: list_all2_conv_all_nth about_call_def Let_def)
  then show o: "map rs_ordinal rs = [0..<length rs]" using assms by (simp add: list_all2_lengthD)
  have "distinct (map rs_ordinal (filter executable rs))"
    by (metis distinct_map_filter distinct_upt o)
  moreover have "set (map rs_ordinal (filter executable rs)) \<subseteq> {..<m}"
  proof
    fix k assume "k \<in> set (map rs_ordinal (filter executable rs))"
    then obtain n where n: "n < length rs" "executable (rs ! n)" "k = rs_ordinal (rs ! n)" by (auto simp: in_set_conv_nth)
    then have "about_call calls oversized m (calls ! n) (rs ! n)" using assms(1) by (simp add: list_all2_conv_all_nth)
    then show "k \<in> {..<m}" using n by (auto simp: about_call_def Let_def split: if_splits)
  qed
  ultimately have "card (set (map rs_ordinal (filter executable rs))) \<le> m"
    using card_mono[of "{..<m}"] by fastforce
  then show "length (filter executable rs) \<le> m"
    using distinct_card[OF \<open>distinct (map rs_ordinal (filter executable rs))\<close>] by simp
qed

lemma normalized_calls_facts:
  assumes "normalize_calls v = (calls, oversized)"
  shows "\<forall>c\<in>set calls. \<exists>x n. c = normalize_call x n" "length calls \<le> max_input_calls"
  using assms by (auto simp: normalize_calls_def split: option.splits) blast+

text \<open>The fields of an input as the plan reads them; an input that is no object has none.\<close>

definition plan_field :: "jv \<Rightarrow> string \<Rightarrow> jv" where
  "plan_field input k = (if is_js_object input then opt_prop input k else JUndef)"

definition plan_calls :: "jv \<Rightarrow> norm_call list" where
  "plan_calls input = fst (normalize_calls (plan_field input ''calls''))"

definition plan_max_calls :: "jv \<Rightarrow> nat" where
  "plan_max_calls input =
     (if \<not> is_js_object input then 0
      else if plan_field input ''maxCalls'' = JUndef then 16 else min (positive_floor (plan_field input ''maxCalls'')) 16)"

lemma plan_turn_calls:
  "list_all2 (about_call (plan_calls input) (snd (normalize_calls (plan_field input ''calls''))) (plan_max_calls input))
     (plan_calls input) (tp_reservations (plan_turn input))"
proof -
  obtain calls oversized where nc: "normalize_calls (plan_field input ''calls'') = (calls, oversized)" by fastforce
  have "safe_lower_cap (plan_field input ''maxCalls'') max_tool_calls_per_turn max_tool_calls_per_turn (is_js_object input)
      = plan_max_calls input"
    by (simp add: safe_lower_cap_def plan_max_calls_def output_limits)
  then have "\<exists>b. tp_reservations (plan_turn input) = plan_reservations b (plan_max_calls input) calls oversized"
    using nc by (auto simp: plan_turn_def plan_field_def Let_def)
  then show ?thesis using plan_reservations_facts(2) nc by (metis plan_calls_def fst_conv snd_conv)
qed

lemma plan_turn_parts:
  obtains calls oversized m where "list_all2 (about_call calls oversized m) calls (tp_reservations (plan_turn input))"
    "m \<le> max_tool_calls_per_turn" "\<forall>c\<in>set calls. \<exists>x n. c = normalize_call x n" "length calls \<le> max_input_calls"
    "map nc_ordinal calls = [0..<length calls]"
proof -
  obtain calls oversized where nc: "normalize_calls (plan_field input ''calls'') = (calls, oversized)" by fastforce
  have "list_all2 (about_call calls oversized (plan_max_calls input)) calls (tp_reservations (plan_turn input))"
    using plan_turn_calls[of input] nc by (simp add: plan_calls_def)
  moreover have "plan_max_calls input \<le> max_tool_calls_per_turn" by (simp add: plan_max_calls_def output_limits)
  moreover have "map nc_ordinal calls = [0..<length calls]" using normalized_ordinals[of "plan_field input ''calls''"] nc by simp
  ultimately show ?thesis using that normalized_calls_facts[OF nc] by blast
qed

lemma plan_turn_totals:
  "tp_total (plan_turn input) = reserved_bytes (tp_reservations (plan_turn input))"
  "tp_reserved (plan_turn input) = reserved_bytes (tp_reservations (plan_turn input))"
  "tp_consumed (plan_turn input) = 0" "tp_control_consumed (plan_turn input) = 0"
  "tp_total (plan_turn input) \<le> tp_max (plan_turn input)" "tp_max (plan_turn input) \<le> role_cap (tp_role (plan_turn input))"
  "list_all sound_reservation (tp_reservations (plan_turn input))"
  "tp_total (plan_turn input) = tp_max (plan_turn input) \<or> total_unmet (tp_reservations (plan_turn input)) = 0"
proof -
  have "\<exists>m calls oversized. tp_reservations (plan_turn input) = plan_reservations (tp_max (plan_turn input)) m calls oversized"
    unfolding plan_turn_def Let_def by (split prod.split) auto
  then obtain m calls oversized where
    p: "tp_reservations (plan_turn input) = plan_reservations (tp_max (plan_turn input)) m calls oversized" by blast
  show t: "tp_total (plan_turn input) = reserved_bytes (tp_reservations (plan_turn input))"
      "tp_reserved (plan_turn input) = reserved_bytes (tp_reservations (plan_turn input))"
      "tp_consumed (plan_turn input) = 0" "tp_control_consumed (plan_turn input) = 0"
    by (simp_all add: plan_turn_def Let_def split: prod.splits)
  show "tp_max (plan_turn input) \<le> role_cap (tp_role (plan_turn input))"
    by (simp add: plan_turn_def Let_def safe_lower_cap_def split: prod.splits)
  show "tp_total (plan_turn input) \<le> tp_max (plan_turn input)" "list_all sound_reservation (tp_reservations (plan_turn input))"
      "tp_total (plan_turn input) = tp_max (plan_turn input) \<or> total_unmet (tp_reservations (plan_turn input)) = 0"
    using plan_reservations_facts(1,3,4)[OF p] by (simp_all add: t(1))
qed

lemma reservation_facts:
  assumes "list_all sound_reservation rs" "list_all2 (about_call calls oversized m) calls rs"
  shows "list_all2 (\<lambda>c r. let pol = resolve_tool_policy (nc_tool c) (nc_args c) in
      rs_call r = nc_call c \<and> rs_tool r = nc_tool c \<and> rs_ordinal r = nc_ordinal c
      \<and> rs_policy r = op_id pol \<and> rs_desired r = op_max_bytes pol
      \<and> rs_minimum r = min (op_min_reservation pol) (op_max_bytes pol)
      \<and> (if executable r
          then nc_ordinal c < m \<and> \<not> oversized \<and> nc_valid c
            \<and> length (filter (\<lambda>d. nc_valid d \<and> nc_call d = nc_call c) calls) = 1
            \<and> rs_block r = None \<and> rs_control r = 0
            \<and> 0 < rs_minimum r \<and> rs_minimum r \<le> rs_allocated r \<and> rs_allocated r \<le> op_max_bytes pol
          else rs_status r = Res_blocked
            \<and> rs_block r = Some (if m \<le> nc_ordinal c then Turn_call_limit else Turn_output_budget)
            \<and> rs_allocated r = 0 \<and> (rs_control r = 0 \<or> rs_control r = control_need r))) calls rs"
  using assms
  by (auto simp: list_all2_conv_all_nth list_all_length about_call_def sound_reservation_def Let_def split: if_splits)

text \<open>C14: A turn plan never promises more than the turn has. Whatever the input, the reserved bytes (results and control
  texts together) stay within the cap, which never exceeds that of the role. The plan has one reservation for each of the
  first 2048 calls of the input, in their order, with the identifier, the tool and the output policy of the call, so that
  what a call wants is the byte limit of its policy and its minimum the one of its policy. An executable call comes before
  the call limit of the input (at most 16), in a batch of at most 2048 calls, is well formed, and is the only well-formed
  call of the input with its identifier, so that of calls sharing an identifier none is executable, the first included; it
  holds at least its minimum and at most the limit of its policy. A blocked call names the call limit or the output budget
  as its reason and holds no bytes but those of the text that says so. Nothing is wasted: either the whole cap is handed out
  or every executable call gets all it may use.\<close>

theorem turn_plan_is_sound:
  "let p = plan_turn input; rs = tp_reservations p; calls = plan_calls input; m = plan_max_calls input;
       oversized = snd (normalize_calls (plan_field input ''calls''))
   in tp_total p = reserved_bytes rs \<and> tp_total p \<le> tp_max p \<and> tp_max p \<le> role_cap (tp_role p)
      \<and> map rs_ordinal rs = [0..<length rs]
      \<and> list_all2 (\<lambda>c r. let pol = resolve_tool_policy (nc_tool c) (nc_args c) in
          rs_call r = nc_call c \<and> rs_tool r = nc_tool c \<and> rs_ordinal r = nc_ordinal c
          \<and> rs_policy r = op_id pol \<and> rs_desired r = op_max_bytes pol
          \<and> rs_minimum r = min (op_min_reservation pol) (op_max_bytes pol)
          \<and> (if executable r
              then nc_ordinal c < m \<and> \<not> oversized \<and> nc_valid c
                \<and> length (filter (\<lambda>d. nc_valid d \<and> nc_call d = nc_call c) calls) = 1
                \<and> rs_block r = None \<and> rs_control r = 0
                \<and> 0 < rs_minimum r \<and> rs_minimum r \<le> rs_allocated r \<and> rs_allocated r \<le> op_max_bytes pol
              else rs_status r = Res_blocked
                \<and> rs_block r = Some (if m \<le> nc_ordinal c then Turn_call_limit else Turn_output_budget)
                \<and> rs_allocated r = 0 \<and> (rs_control r = 0 \<or> rs_control r = control_need r))) calls rs
      \<and> length (filter executable rs) \<le> 16 \<and> distinct (map rs_call (filter executable rs))
      \<and> (tp_total p = tp_max p \<or> list_all (\<lambda>r. rs_allocated r = rs_desired r) (filter executable rs))"
proof -
  obtain calls oversized m where a: "list_all2 (about_call calls oversized m) calls (tp_reservations (plan_turn input))"
      "m \<le> max_tool_calls_per_turn" "map nc_ordinal calls = [0..<length calls]"
    using plan_turn_parts by metis
  have "length (filter executable (tp_reservations (plan_turn input))) \<le> 16"
    using plan_ordinals(2)[OF a(1,3)] a(2) by (simp add: output_limits)
  then show ?thesis
    using plan_turn_totals[of input] plan_ordinals(1)[OF a(1,3)] executable_calls_distinct[OF a(1)]
      unmet_zero[of "tp_reservations (plan_turn input)"]
      reservation_facts[OF plan_turn_totals(7) plan_turn_calls, of input]
    unfolding Let_def by (intro conjI) (assumption | simp | blast)+
qed

end
