(* ===== verification/Turn_Budget.thy ===== *)
theory Turn_Budget
  imports Turn_Plan
begin

section \<open>Accounting of a turn (class TurnOutputBudgetState of core/turn-output-budget.ts)\<close>

text \<open>
  The mutable state of a turn: a plan is installed (or the turn is closed), calls are authorised against
  it in order, results are accounted once each, and the end of the turn releases the rest. Without a plan
  a defensive mode reserves per call. The objects that the class shares between its record list, its
  queues and its map of authorisations are positions in the record list here; the JSON text of a call
  and a tool that keys a queue is the pair itself.
\<close>

subsection \<open>State\<close>

record tracked = reservation +
  tr_auth :: string
  tr_authorized :: bool
  tr_settled :: bool
  tr_dynamic :: bool
  tr_executable :: nat
  tr_control :: nat

record turn_telemetry =
  tt_serial :: nat
  tt_role :: turn_role
  tt_planned :: bool
  tt_max :: nat
  tt_reservations :: nat
  tt_blocked :: nat
  tt_consumed :: nat
  tt_released :: nat
  tt_reserved_bytes :: nat
  tt_consumed_bytes :: nat
  tt_control_bytes :: nat
  tt_total_bytes :: nat
  tt_released_bytes :: nat
  tt_unused_bytes :: nat

record turn_state =
  ts_serial :: nat
  ts_role :: turn_role
  ts_max :: nat
  ts_planned :: bool
  ts_ended :: bool
  ts_records :: "tracked list"
  ts_queues :: "string \<times> string \<Rightarrow> nat list"
  ts_offsets :: "string \<times> string \<Rightarrow> nat"
  ts_auths :: "string \<Rightarrow> nat option"
  ts_pairs :: "(string \<times> string) list"
  ts_attempts :: nat
  ts_committed :: nat
  ts_consumed :: nat
  ts_control_consumed :: nat
  ts_telemetry :: "turn_telemetry option"

definition reset_turn :: turn_state where
  "reset_turn = \<lparr>ts_serial = 0, ts_role = Turn_other, ts_max = worker_turn_max_bytes, ts_planned = False, ts_ended = False,
     ts_records = [], ts_queues = (\<lambda>_. []), ts_offsets = (\<lambda>_. 0), ts_auths = Map.empty, ts_pairs = [], ts_attempts = 0,
     ts_committed = 0, ts_consumed = 0, ts_control_consumed = 0, ts_telemetry = None\<rparr>"

definition start_turn :: "jv \<Rightarrow> turn_state" where
  "start_turn input =
     (let role = normalize_role (opt_prop input ''role'')
      in reset_turn\<lparr>ts_role := role, ts_serial := normalize_serial (opt_prop input ''turnSerial''), ts_max := role_cap role\<rparr>)"

definition fail_closed :: "turn_state \<Rightarrow> turn_state" where
  "fail_closed st = st\<lparr>ts_records := [], ts_queues := (\<lambda>_. []), ts_offsets := (\<lambda>_. 0), ts_auths := Map.empty, ts_pairs := [],
     ts_attempts := 0, ts_committed := 0, ts_consumed := 0, ts_control_consumed := 0, ts_planned := True, ts_ended := False\<rparr>"

subsection \<open>Installing a plan\<close>

fun turn_block_text :: "turn_block \<Rightarrow> string" where
  "turn_block_text Turn_call_limit = ''turn_call_limit''"
| "turn_block_text Turn_output_budget = ''turn_output_budget''"

definition turn_blocks :: "turn_block list" where "turn_blocks = [Turn_call_limit, Turn_output_budget]"

interpretation turn_block_wire: wire_enum turn_blocks turn_block_text
proof
  show "e \<in> set turn_blocks" for e by (cases e) (simp_all add: turn_blocks_def)
  show "distinct (map turn_block_text turn_blocks)" by (simp add: turn_blocks_def)
qed

definition count_field :: "fields \<Rightarrow> string \<Rightarrow> nat option" where
  "count_field f k = (case as_safe_int (get_prop f k) of Some i \<Rightarrow> if 0 \<le> i then Some (nat i) else None | None \<Rightarrow> None)"

text \<open>Status and block code of a reservation that is not used yet.\<close>

definition read_status :: "fields \<Rightarrow> (reservation_status \<times> turn_block option) option" where
  "read_status f =
     (if get_prop f ''status'' = JStr ''reserved'' then
        (if get_prop f ''blockCode'' = JUndef then Some (Res_reserved, None) else None)
      else if get_prop f ''status'' = JStr ''blocked'' then
        map_option (\<lambda>b. (Res_blocked, Some b)) (parse_enum turn_blocks turn_block_text (get_prop f ''blockCode''))
      else None)"

definition reservation_checks :: "reservation \<Rightarrow> bool" where
  "reservation_checks r \<longleftrightarrow> rs_minimum r \<le> rs_desired r \<and> rs_allocated r \<le> rs_desired r
     \<and> (if executable r then rs_control r = 0 \<and> rs_minimum r \<le> rs_allocated r else rs_allocated r = 0)
     \<and> rs_control r \<in> {0, control_need r}"

definition read_reservation :: "jv \<Rightarrow> reservation option" where
  "read_reservation v =
     (case as_record v of None \<Rightarrow> None
      | Some f \<Rightarrow>
          (case (bounded_call_key (get_prop f ''toolCallId''), bounded_call_key (get_prop f ''toolName''),
                 parse_enum policy_ids policy_id_text (get_prop f ''policyId''), read_status f) of
             (Some c, Some t, Some p, Some (s, b)) \<Rightarrow>
               (case (count_field f ''sourceOrdinal'', count_field f ''desiredBytes'', count_field f ''minimumBytes'',
                      count_field f ''allocatedBytes'', count_field f ''controlAllocatedBytes'') of
                  (Some n, Some d, Some m, Some a, Some k) \<Rightarrow>
                    let r = \<lparr>rs_call = c, rs_tool = t, rs_policy = p, rs_desired = d, rs_minimum = m, rs_allocated = a,
                             rs_control = k, rs_ordinal = n, rs_status = s, rs_block = b\<rparr>
                    in if reservation_checks r then Some r else None
                | _ \<Rightarrow> None)
           | _ \<Rightarrow> None))"

fun read_reservations :: "jv list \<Rightarrow> reservation list option" where
  "read_reservations [] = Some []"
| "read_reservations (v # vs) =
     (case (read_reservation v, read_reservations vs) of (Some r, Some rs) \<Rightarrow> Some (r # rs) | _ \<Rightarrow> None)"

definition turn_schema :: string where "turn_schema = ''workbench-turn-output-v1''"

definition duplicates_blocked :: "reservation list \<Rightarrow> bool" where
  "duplicates_blocked rs \<longleftrightarrow>
     list_all (\<lambda>r. length (filter (\<lambda>q. rs_call q = rs_call r) rs) \<le> 1) (filter (\<lambda>r. rs_status r \<noteq> Res_blocked) rs)"

definition read_role :: "jv \<Rightarrow> turn_role option" where
  "read_role v = (if v = JStr (turn_role_text (normalize_role v)) then Some (normalize_role v) else None)"

definition read_plan :: "jv \<Rightarrow> (turn_role \<times> nat \<times> reservation list) option" where
  "read_plan v =
     (case as_record v of None \<Rightarrow> None
      | Some f \<Rightarrow>
          if get_prop f ''schema'' \<noteq> JStr turn_schema then None
          else (case (as_array (get_prop f ''reservations''), read_role (get_prop f ''role''), count_field f ''maxBytes'') of
             (Some vs, Some role, Some n) \<Rightarrow>
               if role_cap role < n \<or> max_input_calls < length vs then None
               else (case read_reservations vs of None \<Rightarrow> None
                 | Some rs \<Rightarrow>
                     if distinct (map rs_ordinal rs) \<and> duplicates_blocked rs \<and> reserved_bytes rs \<le> n
                        \<and> get_prop f ''reservedBytes'' = JNum (JInt (int (reserved_bytes rs)))
                        \<and> get_prop f ''totalReservedBytes'' = JNum (JInt (int (reserved_bytes rs)))
                     then Some (role, n, sort_key rs_ordinal rs) else None)
           | _ \<Rightarrow> None))"

definition track :: "string \<Rightarrow> bool \<Rightarrow> bool \<Rightarrow> reservation \<Rightarrow> tracked" where
  "track auth authorized dynamic r = reservation.extend r
     \<lparr>tr_auth = auth, tr_authorized = authorized, tr_settled = False, tr_dynamic = dynamic, tr_executable = 0, tr_control = 0\<rparr>"

definition planned_auth :: "nat \<Rightarrow> nat \<Rightarrow> string" where
  "planned_auth serial n = nat_text serial @ '':'' @ nat_text n"

definition dynamic_auth :: "nat \<Rightarrow> nat \<Rightarrow> string" where
  "dynamic_auth serial n = nat_text serial @ '':dynamic:'' @ nat_text n"

definition queue_of :: "tracked list \<Rightarrow> string \<times> string \<Rightarrow> nat list" where
  "queue_of ts key = filter (\<lambda>i. (rs_call (ts ! i), rs_tool (ts ! i)) = key) [0..<length ts]"

definition install :: "turn_state \<Rightarrow> jv \<Rightarrow> bool \<times> turn_state" where
  "install st v =
     (case read_plan v of None \<Rightarrow> (False, fail_closed st)
      | Some (role, n, rs) \<Rightarrow>
          let serial = normalize_serial (opt_prop v ''turnSerial'');
              ts = map (\<lambda>r. track (planned_auth serial (rs_ordinal r)) False False r) rs
          in (True, reset_turn\<lparr>ts_serial := serial, ts_role := role, ts_max := n, ts_planned := True, ts_records := ts,
                ts_queues := queue_of ts\<rparr>))"

subsection \<open>Authorisation\<close>

record authorization =
  au_id :: "string option"
  au_call :: string
  au_tool :: string
  au_policy :: policy_id
  au_ordinal :: "nat option"
  au_planned :: bool
  au_allowed :: bool
  au_allocated :: nat
  au_control :: nat
  au_block :: "turn_block option"
  au_text :: "string option"

definition rejected :: "string \<Rightarrow> string \<Rightarrow> bool \<Rightarrow> turn_block \<Rightarrow> authorization" where
  "rejected c t planned b = \<lparr>au_id = None, au_call = c, au_tool = t, au_policy = Default_policy, au_ordinal = None,
     au_planned = planned, au_allowed = False, au_allocated = 0, au_control = 0, au_block = Some b, au_text = None\<rparr>"

definition granted :: "bool \<Rightarrow> tracked \<Rightarrow> authorization" where
  "granted planned r =
     (let ok = (rs_status r = Res_reserved)
      in \<lparr>au_id = Some (tr_auth r), au_call = rs_call r, au_tool = rs_tool r, au_policy = rs_policy r,
          au_ordinal = Some (rs_ordinal r), au_planned = planned, au_allowed = ok,
          au_allocated = (if ok then rs_allocated r else 0), au_control = (if ok then 0 else rs_control r),
          au_block = rs_block r,
          au_text = (if \<not> ok \<and> 0 < rs_control r then map_option blocked_control_text (rs_block r) else None)\<rparr>)"

text \<open>A new record of the defensive mode.\<close>

definition add_dynamic :: "turn_state \<Rightarrow> tracked \<Rightarrow> turn_state" where
  "add_dynamic st r = st\<lparr>ts_records := ts_records st @ [r], ts_auths := (ts_auths st)(tr_auth r \<mapsto> length (ts_records st)),
     ts_committed := ts_committed st + rs_allocated r + rs_control r\<rparr>"

definition authorize_limit :: "turn_state \<Rightarrow> norm_call \<Rightarrow> nat \<Rightarrow> authorization \<times> turn_state" where
  "authorize_limit st c ordinal =
     (let policy = (if nc_valid c then resolve_tool_policy (nc_tool c) (nc_args c) else resolve_tool_policy [] JUndef);
          needed = control_bytes Turn_call_limit
      in if 0 < needed \<and> needed \<le> ts_max st - ts_committed st
         then let r = track (dynamic_auth (ts_serial st) ordinal) True True
                    \<lparr>rs_call = nc_call c, rs_tool = nc_tool c, rs_policy = op_id policy, rs_desired = 0, rs_minimum = 0,
                     rs_allocated = 0, rs_control = needed, rs_ordinal = ordinal, rs_status = Res_blocked,
                     rs_block = Some Turn_call_limit\<rparr>
              in (granted False r, add_dynamic st r)
         else (rejected (nc_call c) (nc_tool c) False Turn_call_limit, st))"

definition authorize_planned :: "turn_state \<Rightarrow> norm_call \<Rightarrow> authorization \<times> turn_state" where
  "authorize_planned st c =
     (let key = (nc_call c, nc_tool c); n = ts_offsets st key
      in if n < length (ts_queues st key)
         then let i = ts_queues st key ! n; r = (ts_records st ! i)\<lparr>tr_authorized := True\<rparr>
              in (granted True r, st\<lparr>ts_offsets := (ts_offsets st)(key := Suc n), ts_records := (ts_records st)[i := r],
                    ts_auths := (ts_auths st)(tr_auth r \<mapsto> i)\<rparr>)
         else (rejected (nc_call c) (nc_tool c) True Turn_output_budget, st))"

definition authorize_dynamic :: "turn_state \<Rightarrow> norm_call \<Rightarrow> nat \<Rightarrow> authorization \<times> turn_state" where
  "authorize_dynamic st c ordinal =
     (let key = (nc_call c, nc_tool c)
      in if key \<in> set (ts_pairs st) then (rejected (nc_call c) (nc_tool c) False Turn_output_budget, st)
         else
           let policy = resolve_tool_policy (nc_tool c) (nc_args c);
               remaining = ts_max st - ts_committed st;
               allocation = min dynamic_reservation_bytes (op_max_bytes policy);
               fits = (0 < allocation \<and> allocation \<le> remaining);
               needed = control_bytes Turn_output_budget;
               r = track (dynamic_auth (ts_serial st) ordinal) True True
                     \<lparr>rs_call = nc_call c, rs_tool = nc_tool c, rs_policy = op_id policy, rs_desired = op_max_bytes policy,
                      rs_minimum = allocation, rs_allocated = (if fits then allocation else 0),
                      rs_control = (if \<not> fits \<and> needed \<le> remaining then needed else 0), rs_ordinal = ordinal,
                      rs_status = (if fits then Res_reserved else Res_blocked),
                      rs_block = (if fits then None else Some Turn_output_budget)\<rparr>
           in (granted False r, add_dynamic (st\<lparr>ts_pairs := key # ts_pairs st\<rparr>) r))"

definition authorize :: "turn_state \<Rightarrow> jv \<Rightarrow> authorization \<times> turn_state" where
  "authorize st input =
     (if ts_ended st then (rejected [] [] (ts_planned st) Turn_output_budget, st)
      else
        let c = normalize_call input 0
        in if ts_planned st then
             (if nc_valid c then authorize_planned st c
              else (rejected (nc_call c) (nc_tool c) True Turn_output_budget, st))
           else
             let ordinal = ts_attempts st;
                 st' = (if int ordinal < max_safe_integer then st\<lparr>ts_attempts := Suc ordinal\<rparr> else st)
             in if max_tool_calls_per_turn \<le> ordinal then authorize_limit st' c ordinal
                else if nc_valid c then authorize_dynamic st' c ordinal
                else (rejected (nc_call c) (nc_tool c) False Turn_output_budget, st'))"

subsection \<open>Results\<close>

record accounting =
  ac_accepted :: bool
  ac_allowed :: nat
  ac_accounted :: nat
  ac_truncated :: bool
  ac_control :: bool

definition empty_accounting :: "bool \<Rightarrow> accounting" where
  "empty_accounting control = \<lparr>ac_accepted = False, ac_allowed = 0, ac_accounted = 0, ac_truncated = True, ac_control = control\<rparr>"

text \<open>The bytes a result claims: a bad claim counts as the whole allowance.\<close>

definition observed_bytes :: "jv \<Rightarrow> nat \<Rightarrow> nat \<times> bool" where
  "observed_bytes v allowed =
     (case finite_number v of None \<Rightarrow> (allowed, True) | Some x \<Rightarrow> if x < 0 then (allowed, True) else (nat \<lfloor>x\<rfloor>, False))"

definition find_authorization :: "turn_state \<Rightarrow> jv \<Rightarrow> nat option" where
  "find_authorization st v =
     (case as_string v of None \<Rightarrow> None
      | Some s \<Rightarrow> if s = [] \<or> 1024 < length s then None else ts_auths st s)"

definition account :: "jv \<Rightarrow> nat \<Rightarrow> bool \<Rightarrow> accounting" where
  "account actual allowed control =
     (let (n, invalid) = observed_bytes actual allowed
      in \<lparr>ac_accepted = True, ac_allowed = allowed, ac_accounted = min n allowed, ac_truncated = (invalid \<or> allowed < n),
          ac_control = control\<rparr>)"

definition settle_executable :: "turn_state \<Rightarrow> nat \<Rightarrow> nat \<Rightarrow> turn_state" where
  "settle_executable st i n =
     st\<lparr>ts_records := (ts_records st)[i := (ts_records st ! i)\<lparr>tr_settled := True, rs_status := Res_consumed, tr_executable := n\<rparr>],
        ts_consumed := ts_consumed st + n\<rparr>"

definition settle_control :: "turn_state \<Rightarrow> nat \<Rightarrow> nat \<Rightarrow> turn_state" where
  "settle_control st i n =
     st\<lparr>ts_records := (ts_records st)[i := (ts_records st ! i)\<lparr>tr_settled := True, tr_control := n\<rparr>],
        ts_control_consumed := ts_control_consumed st + n\<rparr>"

definition open_reserved :: "turn_state \<Rightarrow> jv \<Rightarrow> nat option" where
  "open_reserved st v =
     (case find_authorization st v of None \<Rightarrow> None
      | Some i \<Rightarrow> if tr_settled (ts_records st ! i) \<or> rs_status (ts_records st ! i) \<noteq> Res_reserved then None else Some i)"

definition consume :: "turn_state \<Rightarrow> jv \<Rightarrow> jv \<Rightarrow> accounting \<times> turn_state" where
  "consume st auth actual =
     (case open_reserved st auth of None \<Rightarrow> (empty_accounting False, st)
      | Some i \<Rightarrow> let a = account actual (rs_allocated (ts_records st ! i)) False
                 in (a, settle_executable st i (ac_accounted a)))"

definition release :: "turn_state \<Rightarrow> jv \<Rightarrow> bool \<times> turn_state" where
  "release st auth =
     (case open_reserved st auth of None \<Rightarrow> (False, st)
      | Some i \<Rightarrow> (True, st\<lparr>ts_records := (ts_records st)[i := (ts_records st ! i)\<lparr>tr_settled := True, rs_status := Res_released\<rparr>]\<rparr>))"

definition account_immediate :: "turn_state \<Rightarrow> jv \<Rightarrow> jv \<Rightarrow> accounting \<times> turn_state" where
  "account_immediate st auth actual =
     (case find_authorization st auth of None \<Rightarrow> (empty_accounting False, st)
      | Some i \<Rightarrow>
          let r = ts_records st ! i; control = (rs_status r = Res_blocked)
          in if tr_settled r then (empty_accounting control, st)
             else let a = account actual (if control then rs_control r else rs_allocated r) control
                  in (a, if control then settle_control st i (ac_accounted a) else settle_executable st i (ac_accounted a)))"

subsection \<open>The end of a turn\<close>

definition settled_at_end :: "tracked \<Rightarrow> tracked" where
  "settled_at_end r = (if \<not> tr_settled r \<and> rs_status r = Res_reserved then r\<lparr>rs_status := Res_released, tr_settled := True\<rparr> else r)"

definition counts_as_consumed :: "tracked \<Rightarrow> bool" where
  "counts_as_consumed r \<longleftrightarrow> 0 < tr_executable r \<or> 0 < tr_control r \<or> tr_settled r \<and> rs_status r = Res_consumed"

definition held_bytes :: "tracked list \<Rightarrow> nat" where
  "held_bytes ts = sum_list (map (\<lambda>r. rs_allocated r + rs_control r) ts)"

definition turn_end :: "turn_state \<Rightarrow> turn_telemetry \<times> turn_state" where
  "turn_end st =
     (case ts_telemetry st of Some t \<Rightarrow> (t, st)
      | None \<Rightarrow>
          let ts = map settled_at_end (ts_records st); used = ts_consumed st + ts_control_consumed st;
              t = \<lparr>tt_serial = ts_serial st, tt_role = ts_role st, tt_planned = ts_planned st, tt_max = ts_max st,
                   tt_reservations = length ts, tt_blocked = length (filter (\<lambda>r. rs_status r = Res_blocked) (ts_records st)),
                   tt_consumed = length (filter counts_as_consumed (ts_records st)),
                   tt_released = length (filter (\<lambda>r. rs_status r = Res_released) ts),
                   tt_reserved_bytes = held_bytes (ts_records st), tt_consumed_bytes = ts_consumed st,
                   tt_control_bytes = ts_control_consumed st, tt_total_bytes = used,
                   tt_released_bytes = held_bytes (ts_records st) - used, tt_unused_bytes = ts_max st - used\<rparr>
          in (t, st\<lparr>ts_ended := True, ts_records := ts, ts_queues := (\<lambda>_. []), ts_offsets := (\<lambda>_. 0), ts_auths := Map.empty,
                ts_telemetry := Some t\<rparr>))"

definition snapshot_turn :: "turn_state \<Rightarrow> turn_plan" where
  "snapshot_turn st =
     (let rs = map reservation.truncate (ts_records st)
      in \<lparr>tp_serial = ts_serial st, tp_role = ts_role st, tp_max = ts_max st, tp_reservations = rs,
          tp_reserved = reserved_bytes rs, tp_total = reserved_bytes rs, tp_consumed = ts_consumed st,
          tp_control_consumed = ts_control_consumed st\<rparr>)"

subsection \<open>The value of a plan\<close>

definition num :: "nat \<Rightarrow> jv" where
  "num n = JNum (JInt (int n))"

fun status_text :: "reservation_status \<Rightarrow> string" where
  "status_text Res_reserved = ''reserved''"
| "status_text Res_blocked = ''blocked''"
| "status_text Res_consumed = ''consumed''"
| "status_text Res_released = ''released''"

definition reservation_value :: "reservation \<Rightarrow> jv" where
  "reservation_value r = JObj
     ([(''toolCallId'', JStr (rs_call r)), (''toolName'', JStr (rs_tool r)), (''policyId'', JStr (policy_id_text (rs_policy r))),
       (''desiredBytes'', num (rs_desired r)), (''minimumBytes'', num (rs_minimum r)), (''allocatedBytes'', num (rs_allocated r)),
       (''controlAllocatedBytes'', num (rs_control r)), (''sourceOrdinal'', num (rs_ordinal r)),
       (''status'', JStr (status_text (rs_status r)))]
      @ (case rs_block r of None \<Rightarrow> [] | Some b \<Rightarrow> [(''blockCode'', JStr (turn_block_text b))]))"

definition plan_value :: "turn_plan \<Rightarrow> jv" where
  "plan_value p = JObj
     [(''schema'', JStr turn_schema), (''turnSerial'', num (tp_serial p)), (''role'', JStr (turn_role_text (tp_role p))),
      (''maxBytes'', num (tp_max p)), (''reservations'', JArr (map reservation_value (tp_reservations p))),
      (''reservedBytes'', num (tp_reserved p)), (''totalReservedBytes'', num (tp_total p)),
      (''consumedBytes'', num (tp_consumed p)), (''controlConsumedBytes'', num (tp_control_consumed p))]"

subsection \<open>A plan can be installed\<close>

definition safe_count :: "nat \<Rightarrow> bool" where
  "safe_count n \<longleftrightarrow> int n \<le> max_safe_integer"

lemma count_field_num: "get_prop f k = num n \<Longrightarrow> safe_count n \<Longrightarrow> count_field f k = Some n"
  by (simp add: count_field_def num_def safe_count_def)

lemma read_named_reservation:
  assumes "sound_reservation r" "rs_call r \<noteq> []" "rs_tool r \<noteq> []" "length (rs_call r) \<le> max_call_key" "length (rs_tool r) \<le> max_call_key"
    "safe_count (rs_desired r)" "safe_count (rs_ordinal r)"
  shows "read_reservation (reservation_value r) = Some r"
proof -
  have c: "safe_count (rs_minimum r)" "safe_count (rs_allocated r)" "safe_count (rs_control r)" "reservation_checks r"
    using assms(1,6) unfolding sound_reservation_def reservation_checks_def safe_count_def control_need_def control_bytes_def
    by (auto simp: max_safe_integer_def max_block_control_bytes_def Let_def split: if_splits)
  have "read_status (case reservation_value r of JObj f \<Rightarrow> f) = Some (rs_status r, rs_block r)"
    using assms(1) by (cases "rs_status r"; cases "rs_block r")
      (auto simp: reservation_value_def read_status_def sound_reservation_def executable_def)
  then show ?thesis
    using assms c
    by (cases r; cases "rs_block r") (auto simp: reservation_value_def read_reservation_def count_field_num bounded_call_key_def Let_def)
qed

lemma read_unnamed_reservation:
  assumes "rs_call r = [] \<or> rs_tool r = []"
  shows "read_reservation (reservation_value r) = None"
  using assms by (auto simp: reservation_value_def read_reservation_def bounded_call_key_def split: option.splits)

definition named :: "reservation \<Rightarrow> bool" where
  "named r \<longleftrightarrow> rs_call r \<noteq> [] \<and> rs_tool r \<noteq> []"

text \<open>A call with both names is valid.\<close>

lemma named_call_valid:
  "nc_call (normalize_call v n) \<noteq> [] \<Longrightarrow> nc_tool (normalize_call v n) \<noteq> [] \<Longrightarrow> nc_valid (normalize_call v n)"
  by (auto simp: normalize_call_def Let_def call_field_def safe_property_def split: option.splits if_splits)

lemma call_key_length:
  "length (nc_call (normalize_call v n)) \<le> max_call_key" "length (nc_tool (normalize_call v n)) \<le> max_call_key"
proof -
  have "length s \<le> max_call_key" if "Option.bind x bounded_call_key = Some s" for x s
    using that by (cases x) (auto simp: bounded_call_key_def split: option.splits if_splits)
  then show "length (nc_call (normalize_call v n)) \<le> max_call_key" "length (nc_tool (normalize_call v n)) \<le> max_call_key"
    by (auto simp: normalize_call_def Let_def split: option.splits)
qed

lemma read_reservations_map:
  "read_reservations (map reservation_value rs) = (if list_all named rs then Some rs else None)"
  if "\<forall>r\<in>set rs. named r \<longrightarrow> read_reservation (reservation_value r) = Some r"
  using that
proof (induction rs)
  case (Cons r rs)
  then show ?case using read_unnamed_reservation[of r] by (auto simp: named_def split: option.splits)
qed simp

lemma about_named_valid:
  assumes "about_call calls oversized m c r" "named r" "\<exists>x n. c = normalize_call x n"
  shows "nc_valid c" "length (rs_call r) \<le> max_call_key" "length (rs_tool r) \<le> max_call_key"
  using assms named_call_valid call_key_length by (auto simp: about_call_def Let_def named_def)

lemma same_name_count:
  "list_all2 (about_call calls oversized m) cs rs \<Longrightarrow> list_all named rs \<Longrightarrow> \<forall>c\<in>set cs. \<exists>x n. c = normalize_call x n \<Longrightarrow>
     length (filter (\<lambda>q. rs_call q = a) rs) = length (filter (\<lambda>d. nc_valid d \<and> nc_call d = a) cs)"
proof (induction rule: list_all2_induct)
  case (Cons c cs r rs)
  then show ?case using about_named_valid(1)[OF Cons(1)] by (auto simp: about_call_def Let_def)
qed simp

lemma plan_duplicates_blocked:
  assumes "list_all2 (about_call calls oversized m) calls rs" "list_all named rs" "\<forall>c\<in>set calls. \<exists>x n. c = normalize_call x n"
    "list_all sound_reservation rs"
  shows "duplicates_blocked rs"
  unfolding duplicates_blocked_def list_all_iff
proof
  fix r assume "r \<in> set (filter (\<lambda>r. rs_status r \<noteq> Res_blocked) rs)"
  then have r: "r \<in> set rs" "executable r" using assms(4) by (auto simp: list_all_iff sound_reservation_def split: if_splits)
  then have "length (filter (\<lambda>d. nc_valid d \<and> nc_call d = rs_call r) calls) = 1"
    using assms(1) by (auto simp: about_call_def Let_def list_all2_conv_all_nth in_set_conv_nth)
  then show "length (filter (\<lambda>q. rs_call q = rs_call r) rs) \<le> 1"
    using same_name_count[OF assms(1-3)] by simp
qed


lemma read_role_text: "read_role (JStr (turn_role_text r)) = Some r"
  by (cases r) (simp_all add: read_role_def normalize_role_def)

lemma truncate_track [simp]: "reservation.truncate (track a b d r) = r"
  by (cases r) (simp add: track_def reservation.defs)

lemma plan_serial: "normalize_serial (num (tp_serial (plan_turn input))) = tp_serial (plan_turn input)"
proof -
  have "int (normalize_serial v) \<le> max_safe_integer" for v
    by (auto simp: normalize_serial_def as_safe_int_Some max_safe_integer_def split: option.splits)
  moreover have "\<exists>v. tp_serial (plan_turn input) = normalize_serial v"
    unfolding plan_turn_def Let_def by (split prod.split) auto
  moreover have "int n \<le> max_safe_integer \<Longrightarrow> normalize_serial (num n) = n" for n by (simp add: normalize_serial_def num_def)
  ultimately show ?thesis by auto
qed

lemma read_plan_value:
  "read_plan (plan_value (plan_turn input)) =
     (if list_all named (tp_reservations (plan_turn input))
      then Some (tp_role (plan_turn input), tp_max (plan_turn input), tp_reservations (plan_turn input)) else None)"
proof -
  let ?p = "plan_turn input" let ?rs = "tp_reservations ?p"
  obtain calls oversized m where a: "list_all2 (about_call calls oversized m) calls ?rs"
      "\<forall>c\<in>set calls. \<exists>x n. c = normalize_call x n" "length calls \<le> max_input_calls" "map nc_ordinal calls = [0..<length calls]"
    using plan_turn_parts by metis
  note t = plan_turn_totals[of input] and o = plan_ordinals(1)[OF a(1,4)]
  have len: "length ?rs \<le> max_input_calls" using a(1,3) by (simp add: list_all2_lengthD)
  have cap: "tp_max ?p \<le> commander_turn_max_bytes"
    using t(6) by (cases "tp_role ?p") (simp_all add: output_limits)
  have "read_reservation (reservation_value r) = Some r" if r: "r \<in> set ?rs" "named r" for r
  proof -
    obtain n where n: "n < length ?rs" "r = ?rs ! n" using r(1) by (auto simp: in_set_conv_nth)
    have ab: "about_call calls oversized m (calls ! n) r" "\<exists>x k. calls ! n = normalize_call x k"
      using a(1,2) n by (auto simp: list_all2_conv_all_nth)
    have "rs_ordinal r = n" using o n by (metis nth_map nth_upt add_0 length_map)
    then have "safe_count (rs_ordinal r)" "safe_count (rs_desired r)"
      using n len ab(1) by (auto simp: safe_count_def max_safe_integer_def max_input_calls_def about_call_def Let_def output_limits)
    then show ?thesis
      using read_named_reservation[of r] about_named_valid(2,3)[OF ab(1) r(2) ab(2)] r t(7) by (auto simp: named_def list_all_iff)
  qed
  then have rr: "read_reservations (map reservation_value ?rs) = (if list_all named ?rs then Some ?rs else None)"
    using read_reservations_map by blast
  have "count_field f k = Some (tp_max ?p)" if "get_prop f k = num (tp_max ?p)" for f k
    using that cap by (intro count_field_num) (auto simp: safe_count_def max_safe_integer_def output_limits)
  moreover have "distinct (map rs_ordinal ?rs)" "sort_key rs_ordinal ?rs = ?rs" using o by (simp_all add: sort_key_id_if_sorted)
  moreover have "list_all named ?rs \<Longrightarrow> duplicates_blocked ?rs" using plan_duplicates_blocked[OF a(1) _ a(2) t(7)] by blast
  ultimately show ?thesis
    using t(1,2,5,6) len rr by (simp add: read_plan_def plan_value_def turn_schema_def read_role_text num_def)
qed

text \<open>A plan made for a batch is the plan the turn runs with. Installing it succeeds exactly when every call of the batch
  has an identifier and a tool name, and the state then shows the very plan that was made; otherwise the turn is closed
  and no call of any kind is allowed.\<close>

theorem planned_turn_installs:
  "let p = plan_turn input; (ok, st') = install st (plan_value p)
   in ok = list_all named (tp_reservations p)
      \<and> (if ok then snapshot_turn st' = p else \<forall>call. \<not> au_allowed (fst (authorize st' call)))"
proof -
  let ?p = "plan_turn input"
  have ser: "opt_prop (plan_value ?p) ''turnSerial'' = num (tp_serial ?p)" by (simp add: plan_value_def)
  have shown: "\<lparr>tp_serial = tp_serial ?p, tp_role = tp_role ?p, tp_max = tp_max ?p, tp_reservations = tp_reservations ?p,
      tp_reserved = reserved_bytes (tp_reservations ?p), tp_total = reserved_bytes (tp_reservations ?p), tp_consumed = 0,
      tp_control_consumed = 0\<rparr> = ?p"
    using plan_turn_totals(1-4)[of input] by simp
  have closed: "\<not> au_allowed (fst (authorize (fail_closed st) call))" for call
    by (simp add: authorize_def fail_closed_def authorize_planned_def rejected_def Let_def)
  show ?thesis
    using shown closed by (simp add: install_def read_plan_value ser plan_serial Let_def snapshot_turn_def reset_turn_def o_def)
qed

end
