(* ===== verification/Turn_Safety.thy ===== *)
theory Turn_Safety
  imports Turn_Budget
begin

section \<open>What the accounting of a turn guarantees\<close>

text \<open>
  The methods of the turn state in any order, as a step relation: within a turn (authorise, account,
  release, end) and between turns (reset, start, install).
\<close>

inductive turn_step :: "turn_state \<Rightarrow> turn_state \<Rightarrow> bool" where
  step_authorize: "authorize st call = (a, st') \<Longrightarrow> turn_step st st'"
| step_consume: "consume st auth n = (c, st') \<Longrightarrow> turn_step st st'"
| step_release: "release st auth = (ok, st') \<Longrightarrow> turn_step st st'"
| step_immediate: "account_immediate st auth n = (c, st') \<Longrightarrow> turn_step st st'"
| step_end: "turn_end st = (t, st') \<Longrightarrow> turn_step st st'"

inductive turn_run :: "turn_state \<Rightarrow> bool" where
  run_reset: "turn_run reset_turn"
| run_start: "turn_run (start_turn input)"
| run_install: "turn_run st \<Longrightarrow> install st v = (ok, st') \<Longrightarrow> turn_run st'"
| run_step: "turn_run st \<Longrightarrow> turn_step st st' \<Longrightarrow> turn_run st'"

subsection \<open>The invariant\<close>

definition tracked_ok :: "tracked \<Rightarrow> bool" where
  "tracked_ok r \<longleftrightarrow> tr_executable r \<le> rs_allocated r \<and> tr_control r \<le> rs_control r
     \<and> (if tr_settled r then rs_status r \<noteq> Res_reserved else tr_executable r = 0 \<and> tr_control r = 0)"

definition executable_sum :: "tracked list \<Rightarrow> nat" where
  "executable_sum ts = sum_list (map tr_executable ts)"

definition control_sum :: "tracked list \<Rightarrow> nat" where
  "control_sum ts = sum_list (map tr_control ts)"

text \<open>Authorisations and queues point at records; an authorisation at the one that carries its text.\<close>

definition auths_ok :: "(string \<Rightarrow> nat option) \<Rightarrow> string list \<Rightarrow> bool" where
  "auths_ok m as \<longleftrightarrow> (\<forall>s i. m s = Some i \<longrightarrow> i < length as \<and> as ! i = s)"

definition queues_ok :: "(string \<times> string \<Rightarrow> nat list) \<Rightarrow> nat \<Rightarrow> bool" where
  "queues_ok q n \<longleftrightarrow> (\<forall>k. \<forall>i\<in>set (q k). i < n)"

lemma auths_ok_simps:
  "auths_ok Map.empty as" "auths_ok m as \<Longrightarrow> i < length as \<Longrightarrow> s = as ! i \<Longrightarrow> auths_ok (m(s \<mapsto> i)) as"
  "auths_ok m as \<Longrightarrow> n = length as \<Longrightarrow> auths_ok (m(s \<mapsto> n)) (as @ [s])"
  by (auto simp: auths_ok_def nth_append less_Suc_eq)

lemma queues_ok_nth: "queues_ok q n \<Longrightarrow> i < length (q k) \<Longrightarrow> q k ! i < n"
  unfolding queues_ok_def using nth_mem by blast

lemma queues_ok_simps: "queues_ok (\<lambda>_. []) n" "queues_ok q n \<Longrightarrow> n \<le> m \<Longrightarrow> queues_ok q m"
  by (force simp: queues_ok_def)+

definition turn_inv :: "turn_state \<Rightarrow> bool" where
  "turn_inv st \<longleftrightarrow> list_all tracked_ok (ts_records st) \<and> held_bytes (ts_records st) \<le> ts_max st
     \<and> ts_max st \<le> role_cap (ts_role st)
     \<and> ts_consumed st = executable_sum (ts_records st) \<and> ts_control_consumed st = control_sum (ts_records st)
     \<and> (if ts_planned st then True else ts_committed st = held_bytes (ts_records st))
     \<and> auths_ok (ts_auths st) (map tr_auth (ts_records st)) \<and> queues_ok (ts_queues st) (length (ts_records st))
     \<and> (if ts_planned st then distinct (map tr_auth (ts_records st)) else True)"

lemma sum_replaced:
  fixes f :: "'a \<Rightarrow> nat"
  shows "i < length ts \<Longrightarrow> sum_list (map f (ts[i := r])) + f (ts ! i) = sum_list (map f ts) + f r"
proof (induction ts arbitrary: i)
  case (Cons t ts)
  then show ?case using Cons.IH[of "i - 1"] by (cases i) auto
qed simp

text \<open>Replacing one record by one with the same bytes, identity and authorisation.\<close>

lemma inv_update:
  assumes "turn_inv st" "i < length (ts_records st)" "tracked_ok r"
    "rs_allocated r = rs_allocated (ts_records st ! i)" "rs_control r = rs_control (ts_records st ! i)"
    "tr_auth r = tr_auth (ts_records st ! i)"
    "tr_executable (ts_records st ! i) + de = tr_executable r" "tr_control (ts_records st ! i) + dc = tr_control r"
  shows "turn_inv (st\<lparr>ts_records := (ts_records st)[i := r], ts_consumed := ts_consumed st + de,
    ts_control_consumed := ts_control_consumed st + dc\<rparr>)"
proof -
  let ?ts = "ts_records st"
  have held: "held_bytes (?ts[i := r]) = held_bytes ?ts"
    using sum_replaced[OF assms(2), of "\<lambda>r. rs_allocated r + rs_control r" r] assms(4,5) by (simp add: held_bytes_def)
  have "executable_sum (?ts[i := r]) = executable_sum ?ts + de" "control_sum (?ts[i := r]) = control_sum ?ts + dc"
    using sum_replaced[OF assms(2), of tr_executable r] sum_replaced[OF assms(2), of tr_control r] assms(7,8)
    by (simp_all add: executable_sum_def control_sum_def)
  moreover have "map tr_auth (?ts[i := r]) = map tr_auth ?ts" using assms(2,6) by (metis list_update_id map_update nth_map)
  moreover have "list_all tracked_ok (?ts[i := r])"
    using assms(1,3) by (auto simp: turn_inv_def list_all_iff dest: set_update_subset_insert[THEN subsetD])
  ultimately show ?thesis using assms(1) held unfolding turn_inv_def by simp
qed

subsection \<open>Every method keeps the invariant\<close>

lemma inv_auth: "turn_inv st \<Longrightarrow> find_authorization st v = Some i \<Longrightarrow> i < length (ts_records st)"
  by (auto simp: find_authorization_def turn_inv_def auths_ok_def split: option.splits if_splits)

lemma inv_record: "turn_inv st \<Longrightarrow> i < length (ts_records st) \<Longrightarrow> tracked_ok (ts_records st ! i)"
  by (simp add: turn_inv_def list_all_length)

lemma open_reserved_Some:
  "open_reserved st v = Some i \<longleftrightarrow>
     find_authorization st v = Some i \<and> \<not> tr_settled (ts_records st ! i) \<and> rs_status (ts_records st ! i) = Res_reserved"
  by (auto simp: open_reserved_def split: option.splits if_splits)

lemma account_le [simp]: "ac_accounted (account n allowed c) \<le> allowed"
  by (simp add: account_def split: prod.splits)

lemma inv_settle_executable:
  assumes "turn_inv st" "i < length (ts_records st)" "\<not> tr_settled (ts_records st ! i)" "n \<le> rs_allocated (ts_records st ! i)"
  shows "turn_inv (settle_executable st i n)"
proof -
  have eq: "settle_executable st i n = st\<lparr>ts_records := (ts_records st)[i := (ts_records st ! i)\<lparr>tr_settled := True,
      rs_status := Res_consumed, tr_executable := n\<rparr>], ts_consumed := ts_consumed st + n,
      ts_control_consumed := ts_control_consumed st + 0\<rparr>"
    by (simp add: settle_executable_def)
  show ?thesis unfolding eq
    using assms inv_record[OF assms(1,2)] by (intro inv_update) (auto simp: tracked_ok_def)
qed

lemma inv_settle_control:
  assumes "turn_inv st" "i < length (ts_records st)" "\<not> tr_settled (ts_records st ! i)"
    "rs_status (ts_records st ! i) = Res_blocked" "n \<le> rs_control (ts_records st ! i)"
  shows "turn_inv (settle_control st i n)"
proof -
  have eq: "settle_control st i n = st\<lparr>ts_records := (ts_records st)[i := (ts_records st ! i)\<lparr>tr_settled := True,
      tr_control := n\<rparr>], ts_consumed := ts_consumed st + 0, ts_control_consumed := ts_control_consumed st + n\<rparr>"
    by (simp add: settle_control_def)
  show ?thesis unfolding eq
    using assms inv_record[OF assms(1,2)] by (intro inv_update) (auto simp: tracked_ok_def)
qed

lemma inv_consume: "turn_inv st \<Longrightarrow> consume st auth n = (c, st') \<Longrightarrow> turn_inv st'"
  by (auto simp: consume_def open_reserved_Some Let_def inv_auth intro!: inv_settle_executable split: option.splits)

lemma inv_release:
  assumes "turn_inv st" "release st auth = (ok, st')"
  shows "turn_inv st'"
proof (cases "open_reserved st auth")
  case None
  then show ?thesis using assms by (simp add: release_def)
next
  case (Some i)
  then have i: "i < length (ts_records st)" "\<not> tr_settled (ts_records st ! i)" "rs_status (ts_records st ! i) = Res_reserved"
    using inv_auth[OF assms(1)] by (auto simp: open_reserved_Some)
  have eq: "st' = st\<lparr>ts_records := (ts_records st)[i := (ts_records st ! i)\<lparr>tr_settled := True, rs_status := Res_released\<rparr>],
      ts_consumed := ts_consumed st + 0, ts_control_consumed := ts_control_consumed st + 0\<rparr>"
    using assms(2) Some by (auto simp: release_def)
  show ?thesis unfolding eq
    using assms(1) i inv_record[OF assms(1) i(1)] by (intro inv_update) (auto simp: tracked_ok_def)
qed

lemma inv_immediate:
  assumes "turn_inv st" "account_immediate st auth n = (c, st')"
  shows "turn_inv st'"
proof (cases "find_authorization st auth")
  case None
  then show ?thesis using assms by (simp add: account_immediate_def)
next
  case (Some i)
  note i = inv_auth[OF assms(1) Some]
  show ?thesis
  proof (cases "tr_settled (ts_records st ! i)")
    case True
    then show ?thesis using assms Some by (simp add: account_immediate_def Let_def)
  next
    case False
    then show ?thesis
      using assms Some inv_settle_control[OF assms(1) i False] inv_settle_executable[OF assms(1) i False]
      by (auto simp: account_immediate_def Let_def split: if_splits)
  qed
qed

lemma inv_end:
  assumes "turn_inv st" "turn_end st = (t, st')"
  shows "turn_inv st'"
proof -
  have m: "tracked_ok r \<Longrightarrow> tracked_ok (settled_at_end r)" "rs_allocated (settled_at_end r) = rs_allocated r"
      "rs_control (settled_at_end r) = rs_control r" "tr_executable (settled_at_end r) = tr_executable r"
      "tr_control (settled_at_end r) = tr_control r" "tr_auth (settled_at_end r) = tr_auth r" for r
    by (auto simp: settled_at_end_def tracked_ok_def)
  have "list_all tracked_ok (map settled_at_end ts)" if "list_all tracked_ok ts" for ts
    using that m(1) by (auto simp: list_all_iff)
  moreover have "held_bytes (map settled_at_end ts) = held_bytes ts" "executable_sum (map settled_at_end ts) = executable_sum ts"
      "control_sum (map settled_at_end ts) = control_sum ts" "map tr_auth (map settled_at_end ts) = map tr_auth ts" for ts
    by (simp_all add: held_bytes_def executable_sum_def control_sum_def m(2-6) o_def)
  ultimately show ?thesis using assms unfolding turn_inv_def by (auto simp: turn_end_def Let_def m(6) o_def auths_ok_simps queues_ok_simps split: option.splits)
qed

lemma inv_authorize_planned:
  assumes "turn_inv st" "ts_planned st" "authorize_planned st c = (a, st')"
  shows "turn_inv st'"
proof (cases "ts_offsets st (nc_call c, nc_tool c) < length (ts_queues st (nc_call c, nc_tool c))")
  case True
  let ?key = "(nc_call c, nc_tool c)"
  let ?i = "ts_queues st ?key ! ts_offsets st ?key"
  have i: "?i < length (ts_records st)" using assms(1) True by (auto simp: turn_inv_def intro: queues_ok_nth)
  let ?r = "(ts_records st ! ?i)\<lparr>tr_authorized := True\<rparr>"
  have "turn_inv (st\<lparr>ts_records := (ts_records st)[?i := ?r], ts_consumed := ts_consumed st + 0,
      ts_control_consumed := ts_control_consumed st + 0\<rparr>)"
    using assms(1) i inv_record[OF assms(1) i] by (intro inv_update) (auto simp: tracked_ok_def)
  then show ?thesis using assms(2,3) True i by (auto simp: turn_inv_def authorize_planned_def Let_def intro!: auths_ok_simps(2))
qed (use assms in \<open>simp add: authorize_planned_def Let_def\<close>)

lemma inv_add_dynamic:
  assumes "turn_inv st" "\<not> ts_planned st" "tracked_ok r" "rs_allocated r + rs_control r \<le> ts_max st - ts_committed st"
    "tr_executable r = 0" "tr_control r = 0"
  shows "turn_inv (add_dynamic st r)"
proof -
  have "ts_committed st = held_bytes (ts_records st)" "held_bytes (ts_records st) \<le> ts_max st"
    using assms(1,2) by (auto simp: turn_inv_def)
  then show ?thesis
    using assms auths_ok_simps(3)[of "ts_auths st" "map tr_auth (ts_records st)" _ "tr_auth r"] queues_ok_simps(2)[of "ts_queues st"]
    by (auto simp: turn_inv_def add_dynamic_def held_bytes_def executable_sum_def control_sum_def)
qed

lemma track_fields [simp]:
  "rs_allocated (track a b d r) = rs_allocated r" "rs_control (track a b d r) = rs_control r"
  "rs_status (track a b d r) = rs_status r" "tr_executable (track a b d r) = 0" "tr_control (track a b d r) = 0"
  "tr_auth (track a b d r) = a" "tracked_ok (track a b d r)"
  by (simp_all add: track_def reservation.defs tracked_ok_def)

lemma inv_authorize:
  assumes "turn_inv st" "authorize st call = (a, st')"
  shows "turn_inv st'"
proof -
  let ?c = "normalize_call call 0" and ?n = "ts_attempts st"
  have attempts: "turn_inv (st\<lparr>ts_attempts := k\<rparr>)" for k using assms(1) by (simp add: turn_inv_def)
  obtain st1 where st1: "st1 = (if int ?n < max_safe_integer then st\<lparr>ts_attempts := Suc ?n\<rparr> else st)" by simp
  have inv1: "turn_inv st1" "ts_planned st1 = ts_planned st" using attempts assms(1) by (simp_all add: st1)
  have limit: "turn_inv (snd (authorize_limit st1 c k))" if "\<not> ts_planned st" for c k
    using inv1 that by (auto simp: authorize_limit_def Let_def intro!: inv_add_dynamic)
  have dynamic: "turn_inv (snd (authorize_dynamic st1 c k))" if "\<not> ts_planned st" for c k
  proof -
    have "turn_inv (st1\<lparr>ts_pairs := ps\<rparr>)" for ps using inv1 by (simp add: turn_inv_def)
    then show ?thesis using inv1 that by (auto simp: authorize_dynamic_def Let_def intro!: inv_add_dynamic)
  qed
  show ?thesis
  proof (cases "ts_ended st \<or> ts_planned st")
    case True
    then show ?thesis using assms inv_authorize_planned by (auto simp: authorize_def Let_def split: if_splits)
  next
    case False
    then have "(a, st') = (if max_tool_calls_per_turn \<le> ?n then authorize_limit st1 ?c ?n
        else if nc_valid ?c then authorize_dynamic st1 ?c ?n else (rejected (nc_call ?c) (nc_tool ?c) False Turn_output_budget, st1))"
      using assms(2) unfolding authorize_def Let_def st1 by (simp only: if_False de_Morgan_disj simp_thms)
    then show ?thesis using limit[of ?c ?n] dynamic[of ?c ?n] inv1(1) False by (metis snd_conv)
  qed
qed

lemma planned_auth_inj: "planned_auth s m = planned_auth s n \<Longrightarrow> m = n"
  by (simp add: planned_auth_def nat_text_inj)

lemma read_plan_facts:
  assumes "read_plan v = Some (role, n, rs)"
  shows "n \<le> role_cap role" "distinct (map rs_ordinal rs)" "reserved_bytes rs \<le> n"
proof -
  obtain ss where "rs = sort_key rs_ordinal ss" "n \<le> role_cap role" "distinct (map rs_ordinal ss)" "reserved_bytes ss \<le> n"
    using assms by (auto simp: read_plan_def not_less split: option.splits if_splits)
  moreover have "reserved_bytes (sort_key rs_ordinal ss) = reserved_bytes ss"
    by (simp add: reserved_bytes_def flip: sum_mset_sum_list)
  moreover have "distinct (map rs_ordinal (sort_key rs_ordinal ss)) = distinct (map rs_ordinal ss)"
    by (simp add: distinct_map)
  ultimately show "n \<le> role_cap role" "distinct (map rs_ordinal rs)" "reserved_bytes rs \<le> n" by simp_all
qed

lemma inv_install:
  assumes "turn_inv st" "install st v = (ok, st')"
  shows "turn_inv st'"
proof (cases "read_plan v")
  case None
  then show ?thesis using assms
    by (auto simp: install_def fail_closed_def turn_inv_def held_bytes_def executable_sum_def control_sum_def auths_ok_simps queues_ok_simps)
next
  case (Some p)
  obtain role n rs where p: "p = (role, n, rs)" by (cases p)
  note f = read_plan_facts[OF Some[unfolded p]]
  let ?serial = "normalize_serial (opt_prop v ''turnSerial'')"
  let ?ts = "map (\<lambda>r. track (planned_auth ?serial (rs_ordinal r)) False False r) rs"
  have st': "st' = reset_turn\<lparr>ts_serial := ?serial, ts_role := role, ts_max := n, ts_planned := True, ts_records := ?ts,
                ts_queues := queue_of ?ts\<rparr>"
    using assms(2) Some p by (simp add: install_def Let_def)
  have "held_bytes ?ts = reserved_bytes rs" by (simp add: held_bytes_def reserved_bytes_def o_def)
  moreover have "executable_sum ?ts = 0" "control_sum ?ts = 0" by (simp_all add: executable_sum_def control_sum_def o_def)
  moreover have "map tr_auth ?ts = map (planned_auth ?serial) (map rs_ordinal rs)" by (simp add: o_def)
  moreover have "distinct (map (planned_auth ?serial) (map rs_ordinal rs))"
    unfolding distinct_map using f(2) planned_auth_inj by (auto simp: distinct_map inj_on_def)
  moreover have "queues_ok (queue_of ?ts) (length ?ts)" by (auto simp: queue_of_def queues_ok_def)
  ultimately show ?thesis using f(1,3) unfolding st' turn_inv_def by (auto simp: reset_turn_def list_all_iff auths_ok_simps o_def)
qed

lemma inv_reset: "turn_inv reset_turn"
  by (simp add: turn_inv_def reset_turn_def held_bytes_def executable_sum_def control_sum_def auths_ok_simps queues_ok_simps)

lemma inv_start: "turn_inv (start_turn input)"
  using inv_reset by (simp add: turn_inv_def start_turn_def Let_def reset_turn_def)

lemma inv_turn_step: "turn_step st st' \<Longrightarrow> turn_inv st \<Longrightarrow> turn_inv st'"
  by (induction rule: turn_step.induct) (auto intro: inv_authorize inv_consume inv_release inv_immediate inv_end)

lemma turn_run_inv: "turn_run st \<Longrightarrow> turn_inv st"
  by (induction rule: turn_run.induct) (auto intro: inv_reset inv_start inv_install inv_turn_step)

subsection \<open>What the runs promise\<close>

lemma sums_bounded: "list_all tracked_ok ts \<Longrightarrow> executable_sum ts + control_sum ts \<le> held_bytes ts"
  by (induction ts) (auto simp: executable_sum_def control_sum_def held_bytes_def tracked_ok_def)

text \<open>C15: A turn never puts more into the context than its budget. However its methods are called, with or without a plan,
  and whatever sizes results claim, the accounted bytes (results and control texts) stay within what is reserved, the
  reservations within the cap of the turn, and the cap within that of the role; no result is accounted above its own
  allocation.\<close>

theorem turn_stays_within_budget:
  assumes "turn_run st"
  shows "ts_consumed st + ts_control_consumed st \<le> held_bytes (ts_records st) \<and> held_bytes (ts_records st) \<le> ts_max st
    \<and> ts_max st \<le> role_cap (ts_role st)
    \<and> list_all (\<lambda>r. tr_executable r \<le> rs_allocated r \<and> tr_control r \<le> rs_control r) (ts_records st)"
  using turn_run_inv[OF assms] sums_bounded[of "ts_records st"] by (auto simp: turn_inv_def list_all_iff tracked_ok_def)

text \<open>Settled records stay settled, and a planned turn keeps its records and what they hold.\<close>

definition keeps_settled :: "tracked list \<Rightarrow> tracked list \<Rightarrow> bool" where
  "keeps_settled ts ts' \<longleftrightarrow> list_all2 (\<lambda>r r'. tr_auth r' = tr_auth r \<and> rs_allocated r' = rs_allocated r \<and> (tr_settled r \<longrightarrow> tr_settled r')) ts ts'"

lemma keeps_settled_refl [simp]: "keeps_settled ts ts"
  by (simp add: keeps_settled_def list_all2_refl)

lemma keeps_settled_trans: "keeps_settled ts us \<Longrightarrow> keeps_settled us vs \<Longrightarrow> keeps_settled ts vs"
  unfolding keeps_settled_def by (rule list_all2_trans) auto

lemma keeps_settled_update:
  "i < length ts \<Longrightarrow> tr_auth r = tr_auth (ts ! i) \<Longrightarrow> rs_allocated r = rs_allocated (ts ! i) \<Longrightarrow> (tr_settled (ts ! i) \<Longrightarrow> tr_settled r) \<Longrightarrow> keeps_settled ts (ts[i := r])"
  by (auto simp: keeps_settled_def list_all2_conv_all_nth nth_list_update)

lemma keeps_settled_end: "keeps_settled ts (map settled_at_end ts)"
  by (auto simp: keeps_settled_def list_all2_conv_all_nth settled_at_end_def)

lemma planned_step:
  "turn_step st st' \<Longrightarrow> turn_inv st \<Longrightarrow> ts_planned st \<Longrightarrow> ts_planned st' \<and> keeps_settled (ts_records st) (ts_records st')"
proof (induction rule: turn_step.induct)
  case (step_authorize st call a st')
  have "\<And>i k. i < length (ts_queues st k) \<Longrightarrow> ts_queues st k ! i < length (ts_records st)"
    using step_authorize(2) queues_ok_nth by (auto simp: turn_inv_def)
  then show ?case using step_authorize
    by (auto simp: authorize_def authorize_planned_def Let_def intro!: keeps_settled_update split: if_splits)
next
  case (step_consume st auth n c st')
  then show ?case using inv_auth[OF step_consume(2)]
    by (auto simp: consume_def open_reserved_Some settle_executable_def Let_def intro!: keeps_settled_update split: option.splits)
next
  case (step_release st auth ok st')
  then show ?case using inv_auth[OF step_release(2)]
    by (auto simp: release_def open_reserved_Some intro!: keeps_settled_update split: option.splits)
next
  case (step_immediate st auth n c st')
  then show ?case using inv_auth[OF step_immediate(2)]
    by (auto simp: account_immediate_def settle_executable_def settle_control_def Let_def intro!: keeps_settled_update
        split: option.splits if_splits)
next
  case (step_end st t st')
  then show ?case using keeps_settled_end by (auto simp: turn_end_def Let_def split: option.splits)
qed

lemma planned_steps:
  "turn_step\<^sup>*\<^sup>* st st' \<Longrightarrow> turn_inv st \<Longrightarrow> ts_planned st \<Longrightarrow> turn_inv st' \<and> ts_planned st' \<and> keeps_settled (ts_records st) (ts_records st')"
proof (induction rule: rtranclp_induct)
  case (step st1 st2)
  then show ?case using planned_step inv_turn_step keeps_settled_trans by blast
qed simp

text \<open>An authorisation is settled by a result that is accepted or by a release.\<close>

inductive settles :: "turn_state \<Rightarrow> jv \<Rightarrow> turn_state \<Rightarrow> bool" where
  settles_consume: "consume st auth n = (c, st') \<Longrightarrow> ac_accepted c \<Longrightarrow> settles st auth st'"
| settles_immediate: "account_immediate st auth n = (c, st') \<Longrightarrow> ac_accepted c \<Longrightarrow> settles st auth st'"
| settles_release: "release st auth = (True, st') \<Longrightarrow> settles st auth st'"

lemma settles_step: "settles st auth st' \<Longrightarrow> turn_step st st'"
  by (induction rule: settles.induct) (auto intro: turn_step.intros)

lemma settles_facts:
  assumes "settles st auth st'" "turn_inv st"
  obtains i where "find_authorization st auth = Some i" "i < length (ts_records st')" "tr_settled (ts_records st' ! i)"
    "tr_auth (ts_records st' ! i) = tr_auth (ts_records st ! i)" "\<not> tr_settled (ts_records st ! i)"
  using assms
proof (induction rule: settles.induct)
  case (settles_consume st auth n c st')
  then show ?case using inv_auth[OF settles_consume(4)]
    by (auto simp: consume_def open_reserved_Some settle_executable_def empty_accounting_def Let_def
        split: option.splits)
next
  case (settles_immediate st auth n c st')
  then show ?case using inv_auth[OF settles_immediate(4)]
    by (auto simp: account_immediate_def settle_executable_def settle_control_def empty_accounting_def Let_def
        split: option.splits if_splits)
next
  case (settles_release st auth st')
  then show ?case using inv_auth[OF settles_release(3)]
    by (auto simp: release_def open_reserved_Some split: option.splits)
qed


lemma auths_ok_nth: "auths_ok m (map tr_auth ts) \<Longrightarrow> m s = Some i \<Longrightarrow> i < length ts \<and> tr_auth (ts ! i) = s"
proof -
  assume "auths_ok m (map tr_auth ts)" "m s = Some i"
  then have "i < length (map tr_auth ts) \<and> map tr_auth ts ! i = s" unfolding auths_ok_def by blast
  then show ?thesis by auto
qed

lemma find_authorization_text:
  "turn_inv st \<Longrightarrow> find_authorization st v = Some i \<Longrightarrow> v = JStr (tr_auth (ts_records st ! i)) \<and> i < length (ts_records st)"
proof -
  assume inv: "turn_inv st" and "find_authorization st v = Some i"
  then obtain s where "v = JStr s" "ts_auths st s = Some i" by (auto simp: find_authorization_def split: option.splits if_splits)
  then show ?thesis using auths_ok_nth[of "ts_auths st" "ts_records st" s i] inv by (simp add: turn_inv_def)
qed

text \<open>C16: In a planned turn every authorisation is settled at most once. Once a result was accepted for it, or it was
  released, no later call of the turn accepts another result for it or releases it again, whatever was authorised,
  accounted or ended in between.\<close>

theorem authorisation_settles_once:
  assumes "turn_run st" "ts_planned st" "settles st auth st1" "turn_step\<^sup>*\<^sup>* st1 st2"
  shows "\<nexists>st3. settles st2 auth st3"
proof
  assume "\<exists>st3. settles st2 auth st3"
  then obtain st3 where again: "settles st2 auth st3" by blast
  note inv = turn_run_inv[OF assms(1)]
  have inv1: "turn_inv st1" "ts_planned st1"
    using settles_step[OF assms(3)] planned_step inv assms(2) inv_turn_step by blast+
  note inv2 = planned_steps[OF assms(4) inv1]
  obtain i where i: "find_authorization st auth = Some i" "i < length (ts_records st1)" "tr_settled (ts_records st1 ! i)"
      "tr_auth (ts_records st1 ! i) = tr_auth (ts_records st ! i)"
    using settles_facts[OF assms(3) inv] by metis
  obtain j where j: "find_authorization st2 auth = Some j" "\<not> tr_settled (ts_records st2 ! j)"
    using settles_facts[OF again] inv2 by metis
  have len: "length (ts_records st2) = length (ts_records st1)"
    using inv2 by (auto simp: keeps_settled_def list_all2_lengthD)
  have "tr_auth (ts_records st2 ! i) = tr_auth (ts_records st1 ! i)" "tr_settled (ts_records st2 ! i)"
    using inv2 i by (auto simp: keeps_settled_def list_all2_conv_all_nth)
  moreover have "auth = JStr (tr_auth (ts_records st ! i))" "auth = JStr (tr_auth (ts_records st2 ! j))" "j < length (ts_records st2)"
    using find_authorization_text[OF inv i(1)] find_authorization_text[of st2, OF _ j(1)] inv2 by auto
  moreover have "distinct (map tr_auth (ts_records st2))" using inv2 by (auto simp: turn_inv_def)
  ultimately have "i = j" using i(2,4) len nth_eq_iff_index_eq[of "map tr_auth (ts_records st2)" i j] by auto
  then show False using j(2) \<open>tr_settled (ts_records st2 ! i)\<close> by simp
qed

subsection \<open>A turn\<close>

text \<open>One planned call of a worker, eight bytes.\<close>

definition reservation_1 :: reservation where
  "reservation_1 = \<lparr>rs_call = ''c1'', rs_tool = ''read'', rs_policy = Native_read_page, rs_desired = 8, rs_minimum = 1,
     rs_allocated = 8, rs_control = 0, rs_ordinal = 0, rs_status = Res_reserved, rs_block = None\<rparr>"

definition plan_1 :: turn_plan where
  "plan_1 = \<lparr>tp_serial = 1, tp_role = Turn_worker, tp_max = 8, tp_reservations = [reservation_1], tp_reserved = 8, tp_total = 8,
     tp_consumed = 0, tp_control_consumed = 0\<rparr>"

definition call_1 :: jv where
  "call_1 = JObj [(''toolCallId'', JStr ''c1''), (''toolName'', JStr ''read''), (''args'', JUndef)]"

definition turn_1 :: turn_state where
  "turn_1 = snd (authorize (snd (install reset_turn (plan_value plan_1))) call_1)"

definition auth_1 :: authorization where
  "auth_1 = fst (authorize (snd (install reset_turn (plan_value plan_1))) call_1)"

lemma run_1: "turn_run turn_1"
  unfolding turn_1_def
  by (rule run_step[OF run_install[OF run_reset]]) (auto intro: turn_step.step_authorize prod.collapse[symmetric])

lemma read_plan_1: "read_plan (plan_value plan_1) = Some (Turn_worker, 8, [reservation_1])"
proof -
  have "read_reservation (reservation_value reservation_1) = Some reservation_1"
    by (rule read_named_reservation)
      (simp_all add: reservation_1_def sound_reservation_def executable_def max_call_key_def safe_count_def max_safe_integer_def)
  moreover have "read_role (JStr ''worker'') = Some Turn_worker" using read_role_text[of Turn_worker] by simp
  moreover have "rs_status reservation_1 = Res_reserved" "rs_allocated reservation_1 = 8" "rs_control reservation_1 = 0"
    by (simp_all add: reservation_1_def)
  ultimately show ?thesis
    by (simp add: read_plan_def plan_value_def plan_1_def turn_schema_def count_field_def num_def max_safe_integer_def
        output_limits max_input_calls_def duplicates_blocked_def)
qed

definition tracked_1 :: "bool \<Rightarrow> tracked" where
  "tracked_1 authorized = track (planned_auth 1 0) authorized False reservation_1"

lemma turn_1_form:
  "ts_records turn_1 = [tracked_1 True]" "ts_auths turn_1 = [planned_auth 1 0 \<mapsto> 0]" "ts_planned turn_1"
  "au_id auth_1 = Some (planned_auth 1 0)" "au_allowed auth_1" "au_allocated auth_1 = 8"
proof -
  have c: "normalize_call call_1 0 = \<lparr>nc_call = ''c1'', nc_tool = ''read'', nc_args = JUndef, nc_valid = True, nc_ordinal = 0\<rparr>"
    by (simp add: normalize_call_def call_1_def call_field_def safe_property_def bounded_call_key_def max_call_key_def)
  have serial: "normalize_serial (opt_prop (plan_value plan_1) ''turnSerial'') = 1"
    by (simp add: plan_value_def plan_1_def num_def normalize_serial_def max_safe_integer_def)
  have o: "rs_ordinal reservation_1 = 0" by (simp add: reservation_1_def)
  have st: "snd (install reset_turn (plan_value plan_1)) = reset_turn\<lparr>ts_serial := 1, ts_role := Turn_worker, ts_max := 8,
      ts_planned := True, ts_records := [tracked_1 False], ts_queues := queue_of [tracked_1 False]\<rparr>"
    by (simp add: install_def read_plan_1 serial o tracked_1_def Let_def)
  have q: "queue_of [tracked_1 False] (''c1'', ''read'') = [0]"
    by (simp add: queue_of_def tracked_1_def track_def reservation.defs reservation_1_def)
  have t: "(tracked_1 False)\<lparr>tr_authorized := True\<rparr> = tracked_1 True" "tr_auth (tracked_1 b) = planned_auth 1 0" for b
    by (simp_all add: tracked_1_def track_def reservation.defs reservation_1_def)
  have g: "rs_status (tracked_1 b) = Res_reserved" "rs_allocated (tracked_1 b) = 8" for b by (simp_all add: tracked_1_def reservation_1_def)
  show "ts_records turn_1 = [tracked_1 True]" "ts_auths turn_1 = [planned_auth 1 0 \<mapsto> 0]" "ts_planned turn_1"
      "au_id auth_1 = Some (planned_auth 1 0)" "au_allowed auth_1" "au_allocated auth_1 = 8"
    unfolding turn_1_def auth_1_def st by (simp_all add: authorize_def c authorize_planned_def reset_turn_def q t g granted_def Let_def)
qed

text \<open>The result claims twelve bytes and is accounted with eight.\<close>

definition turn_2 :: turn_state where
  "turn_2 = snd (consume turn_1 (JStr (planned_auth 1 0)) (num 12))"

lemma settles_1: "settles turn_1 (JStr (planned_auth 1 0)) turn_2" "ts_consumed turn_2 = ts_consumed turn_1 + 8"
proof -
  have "planned_auth 1 0 = ''1:0''" by code_simp
  then have "open_reserved turn_1 (JStr (planned_auth 1 0)) = Some 0"
    by (simp add: open_reserved_Some find_authorization_def turn_1_form tracked_1_def track_def reservation.defs reservation_1_def)
  moreover have "observed_bytes (num 12) n = (12, False)" for n by (simp add: observed_bytes_def num_def)
  moreover have "rs_allocated (tracked_1 b) = 8" for b by (simp add: tracked_1_def reservation_1_def)
  ultimately have c: "consume turn_1 (JStr (planned_auth 1 0)) (num 12) =
      (\<lparr>ac_accepted = True, ac_allowed = 8, ac_accounted = 8, ac_truncated = True, ac_control = False\<rparr>,
       settle_executable turn_1 0 8)"
    by (simp add: consume_def account_def turn_1_form)
  then show "settles turn_1 (JStr (planned_auth 1 0)) turn_2" by (intro settles_consume) (auto simp: turn_2_def)
  show "ts_consumed turn_2 = ts_consumed turn_1 + 8" unfolding turn_2_def c by (simp add: settle_executable_def)
qed

theorem turn_stays_within_budget_witness: "8 \<le> ts_consumed turn_2 \<and> ts_consumed turn_2 \<le> ts_max turn_2"
proof -
  have "turn_run turn_2" using run_1 settles_step[OF settles_1(1)] by (rule run_step)
  from turn_stays_within_budget[OF this] show ?thesis using settles_1(2) by simp
qed

theorem authorisation_settles_once_witness: "\<nexists>st. settles turn_2 (JStr (planned_auth 1 0)) st"
  using authorisation_settles_once[OF run_1 turn_1_form(3) settles_1(1) rtranclp.rtrancl_refl] .

end
