(* ===== verification/Tool_Result.thy ===== *)
theory Tool_Result
  imports Output_Envelope Turn_Safety
begin

section \<open>Delivery of a tool result (core/tool-result-middleware-controller.ts)\<close>

text \<open>
  The handler that every result of a tool passes on its way into the context: the policy of the tool, the
  envelope under the bytes its authorisation holds, and the accounting of what is shown. A result whose
  accounting is refused is replaced by an empty error. Results with an ingress authority pass a
  projection of their content first, which is not modelled; nor are the receipts and details that later
  handlers attach.
\<close>

fun overflow_text :: "output_overflow \<Rightarrow> string" where
  "overflow_text Overflow_cursor = ''cursor''"
| "overflow_text Source_pointer = ''source-pointer''"
| "overflow_text Artifact_pointer = ''artifact-pointer''"
| "overflow_text Narrow_query = ''narrow-query''"
| "overflow_text Receipt_only = ''receipt-only''"

definition policy_value :: "output_policy \<Rightarrow> jv" where
  "policy_value p = JObj [(''id'', JStr (policy_id_text (op_id p))), (''maxTextBytes'', num (op_max_bytes p)),
     (''maxLines'', num (op_max_lines p)), (''minReservationBytes'', num (op_min_reservation p)),
     (''overflow'', JStr (overflow_text (op_overflow p))), (''preserveImages'', JBool (op_images p))]"

record tool_result =
  res_tool :: string
  res_input :: jv
  res_content :: jv
  res_error :: jv
  res_continuation :: jv

definition refused_result :: "tool_result \<Rightarrow> envelope_result" where
  "refused_result r = enforce_envelope
     \<lparr>ei_tool = JStr (res_tool r), ei_content = JArr [], ei_error = JBool True,
      ei_policy = policy_value (resolve_tool_policy (res_tool r) (res_input r)), ei_allocated = num 0,
      ei_continuation = JUndef, ei_receipt = JUndef\<rparr>"

definition apply_envelope :: "tool_result \<Rightarrow> nat \<Rightarrow> envelope_result" where
  "apply_envelope r allocated = enforce_envelope
     \<lparr>ei_tool = JStr (res_tool r), ei_content = res_content r, ei_error = res_error r,
      ei_policy = policy_value (resolve_tool_policy (res_tool r) (res_input r)), ei_allocated = num allocated,
      ei_continuation = res_continuation r, ei_receipt = JUndef\<rparr>"

definition deliver_result :: "turn_state \<Rightarrow> authorization \<Rightarrow> tool_result \<Rightarrow> envelope_result \<times> turn_state" where
  "deliver_result st a r =
     (case au_id a of
        None \<Rightarrow> (refused_result r, st)
      | Some auth \<Rightarrow>
          if \<not> au_allowed a \<or> auth = [] then (refused_result r, st)
          else let env = apply_envelope r (au_allocated a);
                   (c, st') = consume st (JStr auth) (num (of_shown_bytes (er_facts env)))
               in (if ac_accepted c then env else refused_result r, st'))"

subsection \<open>What is shown is accounted\<close>

lemma envelope_text_fits: "byte_length (shown_text (enforce_envelope i)) \<le> positive_floor (ei_allocated i)"
  "of_shown_bytes (er_facts (enforce_envelope i)) = byte_length (shown_text (enforce_envelope i))"
  using enforce_envelope_ok(1)[OF refl refl, of i] by (auto simp: envelope_ok_def result_cap_def asked_bytes_def)

lemma refused_is_empty: "shown_text (refused_result r) = []"
  using envelope_text_fits(1)[of "\<lparr>ei_tool = JStr (res_tool r), ei_content = JArr [], ei_error = JBool True,
      ei_policy = policy_value (resolve_tool_policy (res_tool r) (res_input r)), ei_allocated = num 0,
      ei_continuation = JUndef, ei_receipt = JUndef\<rparr>"]
  by (simp add: refused_result_def num_def)

lemma applied_fits: "byte_length (shown_text (apply_envelope r n)) \<le> n"
  "of_shown_bytes (er_facts (apply_envelope r n)) = byte_length (shown_text (apply_envelope r n))"
  using envelope_text_fits[of "\<lparr>ei_tool = JStr (res_tool r), ei_content = res_content r, ei_error = res_error r,
      ei_policy = policy_value (resolve_tool_policy (res_tool r) (res_input r)), ei_allocated = num n,
      ei_continuation = res_continuation r, ei_receipt = JUndef\<rparr>"]
  by (simp_all add: apply_envelope_def num_def)

text \<open>An authorisation of the turn: an allowed one carries the bytes of the record it names.\<close>

definition issued :: "turn_state \<Rightarrow> authorization \<Rightarrow> bool" where
  "issued st a \<longleftrightarrow> (if au_allowed a
     then \<exists>i. i < length (ts_records st) \<and> au_id a = Some (tr_auth (ts_records st ! i)) \<and> au_allocated a = rs_allocated (ts_records st ! i)
     else True)"

lemma observed_num: "observed_bytes (num n) k = (n, False)"
  by (simp add: observed_bytes_def num_def)

lemma consume_amount:
  assumes "turn_inv st" "ts_planned st" "issued st a" "au_allowed a" "au_id a = Some auth"
    "consume st (JStr auth) (num n) = (c, st')" "n \<le> au_allocated a" "ac_accepted c"
  shows "ts_consumed st' = ts_consumed st + n"
proof -
  obtain i where i: "open_reserved st (JStr auth) = Some i"
    using assms(6,8) by (auto simp: consume_def empty_accounting_def split: option.splits)
  obtain j where j: "j < length (ts_records st)" "auth = tr_auth (ts_records st ! j)" "au_allocated a = rs_allocated (ts_records st ! j)"
    using assms(3,4,5) by (auto simp: issued_def)
  have "i < length (ts_records st)" "auth = tr_auth (ts_records st ! i)"
    using find_authorization_text[OF assms(1), of "JStr auth" i] i by (auto simp: open_reserved_Some)
  moreover have "distinct (map tr_auth (ts_records st))" using assms(1,2) by (simp add: turn_inv_def)
  ultimately have "i = j" using j nth_eq_iff_index_eq[of "map tr_auth (ts_records st)" i j] by auto
  then show ?thesis
    using assms(6,7) i j(3) by (auto simp: consume_def account_def observed_num settle_executable_def Let_def)
qed

lemma deliver_step: "deliver_result st a r = (env, st') \<Longrightarrow> st' = st \<or> turn_step st st'"
  by (auto simp: deliver_result_def Let_def intro: turn_step.step_consume split: option.splits if_splits prod.splits)

lemma deliver_accounts:
  assumes "turn_inv st" "ts_planned st" "issued st a" "deliver_result st a r = (env, st')"
  shows "ts_consumed st + byte_length (shown_text env) \<le> ts_consumed st'"
proof (cases "au_allowed a \<and> au_id a \<noteq> None \<and> au_id a \<noteq> Some []")
  case False
  then show ?thesis using assms(4) refused_is_empty by (auto simp: deliver_result_def split: option.splits)
next
  case True
  then obtain auth where auth: "au_id a = Some auth" "auth \<noteq> []" by auto
  let ?env = "apply_envelope r (au_allocated a)"
  obtain c st2 where c: "consume st (JStr auth) (num (of_shown_bytes (er_facts ?env))) = (c, st2)" by fastforce
  have r: "env = (if ac_accepted c then ?env else refused_result r)" "st' = st2"
    using assms(4) True auth c by (auto simp: deliver_result_def Let_def)
  show ?thesis
  proof (cases "ac_accepted c")
    case True
    then show ?thesis
      using consume_amount[OF assms(1-3) _ auth(1) c _ True] applied_fits[of r "au_allocated a"] r \<open>au_allowed a \<and> _\<close> by simp
  next
    case False
    then have "st2 = st" using c by (auto simp: consume_def account_def Let_def split: option.splits prod.splits)
    then show ?thesis using False r refused_is_empty by simp
  qed
qed

subsection \<open>Deliveries of a turn\<close>

text \<open>
  A planned turn: the authorisations that were issued and the texts that were shown, newest first. Any
  other method of the turn may run in between.
\<close>

inductive turn_delivers :: "turn_state \<Rightarrow> authorization list \<Rightarrow> string list \<Rightarrow> bool" where
  opened: "turn_run st0 \<Longrightarrow> install st0 v = (True, st) \<Longrightarrow> turn_delivers st [] []"
| authorised: "turn_delivers st as ts \<Longrightarrow> authorize st call = (a, st') \<Longrightarrow> turn_delivers st' (a # as) ts"
| delivered: "turn_delivers st as ts \<Longrightarrow> a \<in> set as \<Longrightarrow> deliver_result st a r = (env, st') \<Longrightarrow>
    turn_delivers st' as (shown_text env # ts)"
| other: "turn_delivers st as ts \<Longrightarrow> turn_step st st' \<Longrightarrow> turn_delivers st' as ts"

lemma issued_step: "keeps_settled (ts_records st) (ts_records st') \<Longrightarrow> issued st a \<Longrightarrow> issued st' a"
  by (auto simp: issued_def keeps_settled_def list_all2_conv_all_nth split: if_splits)

lemma authorize_issues:
  assumes "turn_inv st" "ts_planned st" "authorize st call = (a, st')"
  shows "issued st' a"
proof (cases "ts_ended st \<or> \<not> nc_valid (normalize_call call 0)")
  case True
  then show ?thesis using assms(2,3) by (auto simp: authorize_def Let_def rejected_def issued_def split: if_splits)
next
  case False
  let ?c = "normalize_call call 0"
  let ?key = "(nc_call ?c, nc_tool ?c)"
  let ?i = "ts_queues st ?key ! ts_offsets st ?key"
  have p: "authorize_planned st ?c = (a, st')" using False assms(2,3) by (simp add: authorize_def Let_def)
  show ?thesis
  proof (cases "ts_offsets st ?key < length (ts_queues st ?key)")
    case True
    then have "?i < length (ts_records st)" using assms(1) queues_ok_nth by (auto simp: turn_inv_def)
    then show ?thesis using p True
      by (auto simp: authorize_planned_def Let_def issued_def granted_def intro!: exI[of _ ?i])
  next
    case False
    then show ?thesis using p by (auto simp: authorize_planned_def Let_def rejected_def issued_def)
  qed
qed

definition total_bytes :: "string list \<Rightarrow> nat" where
  "total_bytes ts = sum_list (map byte_length ts)"

definition delivery_inv :: "turn_state \<Rightarrow> authorization list \<Rightarrow> string list \<Rightarrow> bool" where
  "delivery_inv st as ts \<longleftrightarrow> turn_run st \<and> ts_planned st \<and> list_all (issued st) as \<and> total_bytes ts \<le> ts_consumed st"

text \<open>What a step adds to the accounted bytes is never negative.\<close>

lemma consumed_grows: "turn_step st st' \<Longrightarrow> ts_consumed st \<le> ts_consumed st'"
  by (induction rule: turn_step.induct)
    (auto simp: authorize_def authorize_planned_def authorize_limit_def authorize_dynamic_def add_dynamic_def consume_def release_def
      account_immediate_def turn_end_def settle_executable_def settle_control_def Let_def split: if_splits option.splits)

lemma delivery_step:
  assumes "delivery_inv st as ts" "st' = st \<or> turn_step st st'" "ts_consumed st + total_bytes us \<le> ts_consumed st'"
  shows "delivery_inv st' as (us @ ts)"
proof -
  have "turn_inv st" "ts_planned st" "list_all (issued st) as" "turn_run st"
    using assms(1) turn_run_inv by (auto simp: delivery_inv_def)
  moreover from calculation have "ts_planned st' \<and> keeps_settled (ts_records st) (ts_records st')"
    using assms(2) planned_step by auto
  ultimately have "ts_planned st'" "list_all (issued st') as" "turn_run st'"
    using assms(2) issued_step run_step by (auto simp: list_all_iff)
  then show ?thesis using assms(1,3) by (simp add: delivery_inv_def total_bytes_def)
qed

lemma turn_delivers_inv: "turn_delivers st as ts \<Longrightarrow> delivery_inv st as ts"
proof (induction rule: turn_delivers.induct)
  case (opened st0 v st)
  then have "turn_run st" by (rule run_install)
  moreover have "ts_planned st" using opened(2) by (auto simp: install_def Let_def split: option.splits)
  ultimately show ?case by (simp add: delivery_inv_def total_bytes_def)
next
  case (authorised st as ts call a st')
  then have inv: "turn_inv st" "ts_planned st" using turn_run_inv by (auto simp: delivery_inv_def)
  have step: "turn_step st st'" using authorised(2) by (rule turn_step.step_authorize)
  have "delivery_inv st' as ([] @ ts)"
    by (rule delivery_step[OF authorised(3)]) (use step consumed_grows[OF step] in \<open>simp_all add: total_bytes_def\<close>)
  then show ?case using authorize_issues[OF inv authorised(2)] by (simp add: delivery_inv_def)
next
  case (delivered st as ts a r env st')
  then have inv: "turn_inv st" "ts_planned st" "issued st a" using turn_run_inv by (auto simp: delivery_inv_def list_all_iff)
  have "delivery_inv st' as ([shown_text env] @ ts)"
    by (rule delivery_step[OF delivered(4) deliver_step[OF delivered(3)]])
      (use deliver_accounts[OF inv delivered(3)] in \<open>simp add: total_bytes_def\<close>)
  then show ?case by simp
next
  case (other st as ts st')
  have "delivery_inv st' as ([] @ ts)"
    by (rule delivery_step[OF other(3)]) (use other(2) consumed_grows[OF other(2)] in \<open>simp_all add: total_bytes_def\<close>)
  then show ?case by simp
qed

subsection \<open>A delivery\<close>

definition result_1 :: tool_result where
  "result_1 = \<lparr>res_tool = ''read'', res_input = JUndef,
     res_content = JArr [JObj [(''type'', JStr ''text''), (''text'', JStr ''hello'')]], res_error = JBool False,
     res_continuation = JUndef\<rparr>"

lemma delivers_1: "turn_delivers turn_1 [auth_1] []"
proof -
  have "install reset_turn (plan_value plan_1) = (True, snd (install reset_turn (plan_value plan_1)))"
    by (simp add: install_def read_plan_1 Let_def)
  from authorised[OF opened[OF run_reset this]] show ?thesis unfolding turn_1_def auth_1_def by (metis prod.collapse)
qed

lemma shown_1: "shown_text (apply_envelope result_1 8) = ''hello''"
proof -
  have "policy_id_text Native_read_page = ''native-read-page''" by simp
  then have id: "resolve_ceiling_id (JStr ''native-read-page'') = Native_read_page"
    using policy_id_wire.parse_text[of Native_read_page] by (simp add: resolve_ceiling_id_def)
  have b: "byte_length ''hello'' = 5" "text_lines ''hello'' = 1" by code_simp+
  show ?thesis
    by (simp add: apply_envelope_def result_1_def enforce_envelope_def read_caps_def policy_value_def resolve_tool_policy_def
        policy_defs id output_limits num_def read_content_def read_block_def fill_envelope_def envelope_bytes_def effective_bytes_def
        source_text_def image_count_def kept_image_def kept_count_def cut_needed_def envelope_cut_def b final_text_def shown_text_def Let_def)
qed

lemma deliver_1: "fst (deliver_result turn_1 auth_1 result_1) = apply_envelope result_1 8"
proof -
  let ?n = "num (of_shown_bytes (er_facts (apply_envelope result_1 8)))"
  have "planned_auth 1 0 = ''1:0''" by code_simp
  then have o: "open_reserved turn_1 (JStr (planned_auth 1 0)) = Some 0" and ne: "planned_auth 1 0 \<noteq> []"
    by (simp_all add: open_reserved_Some find_authorization_def turn_1_form tracked_1_def track_def reservation.defs reservation_1_def)
  obtain c st where c: "consume turn_1 (JStr (planned_auth 1 0)) ?n = (c, st)" by fastforce
  then have "ac_accepted c" using o by (auto simp: consume_def account_def Let_def split: prod.splits)
  then show ?thesis unfolding deliver_result_def turn_1_form(4,6) using c ne turn_1_form(5) by (simp add: Let_def)
qed

end
