(* ===== verification/Gate_Schema.thy ===== *)
theory Gate_Schema
  imports Delegation_State Write_Authority Js_Text
begin

section \<open>Gate declarations (core/gate-schema.ts)\<close>

text \<open>
  A gate is a named validation stage with a list of checks. This theory holds the declarations, the
  strict parser of the project's gates.yaml (every message it collects, in its order), the merge of
  the project's gates with the built-in catalog and the selector. The document arrives here as the
  value the YAML library decoded.
\<close>

subsection \<open>The vocabulary\<close>

datatype check_kind =
    Check_config | Check_recipe | Check_artifact | Check_file | Check_json | Check_numeric
  | Check_manual | Check_schema | Check_worker_first

primrec check_kind_text :: "check_kind \<Rightarrow> string" where
  "check_kind_text Check_config = ''config''"
| "check_kind_text Check_recipe = ''recipe''"
| "check_kind_text Check_artifact = ''artifact''"
| "check_kind_text Check_file = ''file''"
| "check_kind_text Check_json = ''json''"
| "check_kind_text Check_numeric = ''numeric''"
| "check_kind_text Check_manual = ''manual''"
| "check_kind_text Check_schema = ''schema''"
| "check_kind_text Check_worker_first = ''worker-first''"

definition check_kinds :: "check_kind list" where
  "check_kinds = [Check_config, Check_recipe, Check_artifact, Check_file, Check_json, Check_numeric,
     Check_manual, Check_schema, Check_worker_first]"

interpretation check_kind: wire_enum check_kinds check_kind_text
proof
  fix e :: check_kind
  show "e \<in> set check_kinds" by (cases e) (simp_all add: check_kinds_def)
  show "distinct (map check_kind_text check_kinds)" by (simp add: check_kinds_def)
qed

datatype gate_status = Gate_PASS | Gate_FAIL | Gate_BLOCKED | Gate_NOT_RUN

primrec gate_status_text :: "gate_status \<Rightarrow> string" where
  "gate_status_text Gate_PASS = ''PASS''"
| "gate_status_text Gate_FAIL = ''FAIL''"
| "gate_status_text Gate_BLOCKED = ''BLOCKED''"
| "gate_status_text Gate_NOT_RUN = ''NOT_RUN''"

definition gate_statuses :: "gate_status list" where
  "gate_statuses = [Gate_PASS, Gate_FAIL, Gate_BLOCKED, Gate_NOT_RUN]"

interpretation gate_status: wire_enum gate_statuses gate_status_text
proof
  fix e :: gate_status
  show "e \<in> set gate_statuses" by (cases e) (simp_all add: gate_statuses_def)
  show "distinct (map gate_status_text gate_statuses)" by (simp add: gate_statuses_def)
qed

datatype safety_check =
    Strict_policy_active | No_unauthorized_writes | No_pending_review | No_stale_review
  | Reviewed_hash_current | Worker_paths_contained | No_unexplained_lease | Commander_verification

primrec safety_check_text :: "safety_check \<Rightarrow> string" where
  "safety_check_text Strict_policy_active = ''strict-policy-active''"
| "safety_check_text No_unauthorized_writes = ''no-unauthorized-commander-writes''"
| "safety_check_text No_pending_review = ''no-pending-review''"
| "safety_check_text No_stale_review = ''no-stale-review''"
| "safety_check_text Reviewed_hash_current = ''reviewed-hash-matches-current''"
| "safety_check_text Worker_paths_contained = ''worker-paths-within-contracts''"
| "safety_check_text No_unexplained_lease = ''no-active-unexplained-lease''"
| "safety_check_text Commander_verification = ''commander-initiated-final-verification''"

definition safety_checks :: "safety_check list" where
  "safety_checks = [Strict_policy_active, No_unauthorized_writes, No_pending_review, No_stale_review,
     Reviewed_hash_current, Worker_paths_contained, No_unexplained_lease, Commander_verification]"

interpretation safety_check: wire_enum safety_checks safety_check_text
proof
  fix e :: safety_check
  show "e \<in> set safety_checks" by (cases e) (simp_all add: safety_checks_def)
  show "distinct (map safety_check_text safety_checks)" by (simp add: safety_checks_def)
qed

definition quant_gate_id_re :: "string \<Rightarrow> bool" where
  "quant_gate_id_re s = (starts_with ''q'' s \<and> tl s \<noteq> [] \<and> list_all is_digit (tl s))"

definition quant_profiles :: "string list" where
  "quant_profiles = [''quant-research/stock-selection'', ''quant-research/market-timing'']"

text \<open>\<open>WorkerFirstGateFacts\<close>; a null is \<open>None\<close>, an absent plan field too.\<close>

record safety_facts =
  sf_blocked_reason :: "string option"
  sf_actor :: "actor_role option"
  sf_write_policy :: "write_policy option"
  sf_writes_denied :: "bool option"
  sf_blocked_attempts :: "int option"
  sf_has_delegation :: "bool option"
  sf_latest_delegation :: "string option"
  sf_review_status :: "review_status option"
  sf_current_hash :: "string option"
  sf_reviewed_hash :: "string option"
  sf_review_verdict :: "bool option"
  sf_violations :: "int option"
  sf_lease_status :: "lease_state option"
  sf_lease_reason :: "lease_reason option"
  sf_lease_used :: "int option"
  sf_lease_max :: "int option"
  sf_by_commander :: "bool option"
  sf_plan_hash :: "string option"
  sf_plan_gates :: "string list option"
  sf_plan_current :: "bool option"
  sf_plan_blocked :: "string option"

record gate_check =
  gc_id :: string
  gc_title :: string
  gc_description :: string
  gc_required :: bool
  gc_blocking :: bool
  gc_kind :: check_kind
  gc_recipe :: "string option"
  gc_recipes :: "string list option"
  gc_path :: "string option"
  gc_any_of :: "string list option"
  gc_repository_root :: bool
  gc_artifact_recipe :: "string option"
  gc_artifact_glob :: "string option"
  gc_json_file :: "string option"
  gc_json_path :: "string option"
  gc_json_equals :: jv
  gc_json_any_of :: "string list option"
  gc_min :: "jnum option"
  gc_max :: "jnum option"
  gc_prompt :: "string option"
  gc_schema :: "string option"
  gc_safety :: "safety_check option"

datatype gate_source = From_catalog | From_project

record gate =
  ga_id :: string
  ga_title :: string
  ga_description :: string
  ga_profiles :: "string list"
  ga_prerequisites :: "string list"
  ga_required :: bool
  ga_blocking :: bool
  ga_evidence :: "string list"
  ga_acceptance :: string
  ga_checks :: "gate_check list"
  ga_source :: gate_source

subsection \<open>Reading fields\<close>

text \<open>Each reader returns the messages it adds and the value it found.\<close>

definition quoted :: "string \<Rightarrow> string" where
  "quoted s = CHR 0x22 # s @ [CHR 0x22]"

definition field_label :: "string \<Rightarrow> string \<Rightarrow> string" where
  "field_label label name = label @ '': '' @ quoted name"

definition text_field :: "fields \<Rightarrow> string \<Rightarrow> string \<Rightarrow> string list \<times> string option" where
  "text_field f label name =
     (case get_prop f name of
        JUndef \<Rightarrow> ([], None)
      | JStr s \<Rightarrow> if js_trim s = [] then ([field_label label name @ '' must be a non-empty string''], None) else ([], Some s)
      | _ \<Rightarrow> ([field_label label name @ '' must be a non-empty string''], None))"

fun text_items :: "string \<Rightarrow> jv list \<Rightarrow> string list \<times> string list" where
  "text_items label [] = ([], [])"
| "text_items label (v # vs) =
     (let (es, out) = text_items label vs
      in case v of
           JStr s \<Rightarrow> if js_trim s = [] then ((label @ '' entries must be non-empty strings'') # es, out) else (es, s # out)
         | _ \<Rightarrow> ((label @ '' entries must be non-empty strings'') # es, out))"

definition texts_field :: "fields \<Rightarrow> string \<Rightarrow> string \<Rightarrow> string list \<times> string list" where
  "texts_field f label name =
     (case get_prop f name of
        JUndef \<Rightarrow> ([], [])
      | JArr vs \<Rightarrow> text_items (field_label label name) vs
      | _ \<Rightarrow> ([field_label label name @ '' must be an array of strings''], []))"

definition bool_field :: "fields \<Rightarrow> bool \<Rightarrow> string \<Rightarrow> string \<Rightarrow> string list \<times> bool" where
  "bool_field f fallback label name =
     (case get_prop f name of
        JUndef \<Rightarrow> ([], fallback)
      | JBool b \<Rightarrow> ([], b)
      | _ \<Rightarrow> ([field_label label name @ '' must be a boolean''], fallback))"

definition number_field :: "fields \<Rightarrow> string \<Rightarrow> string \<Rightarrow> string list \<times> jnum option" where
  "number_field f label name =
     (case get_prop f name of
        JUndef \<Rightarrow> ([], None)
      | JNum n \<Rightarrow> if finite_number (JNum n) = None then ([field_label label name @ '' must be a finite number''], None) else ([], Some n)
      | _ \<Rightarrow> ([field_label label name @ '' must be a finite number''], None))"

text \<open>\<open>isRecord\<close> with the properties read: an object that is not an array.\<close>

fun record_fields :: "jv \<Rightarrow> fields option" where
  "record_fields (JObj f) = Some f"
| "record_fields (JExotic k) = (if is_js_object (JExotic k) then Some [] else None)"
| "record_fields _ = None"

definition unknown_fields :: "fields \<Rightarrow> string list \<Rightarrow> string \<Rightarrow> string list" where
  "unknown_fields f known label =
     map (\<lambda>k. label @ '': unknown field '' @ quoted k) (filter (\<lambda>k. k \<notin> set known) (own_keys f))"

definition non_empty :: "'a list \<Rightarrow> 'a list option" where
  "non_empty xs = (if xs = [] then None else Some xs)"

definition message_when :: "bool \<Rightarrow> string \<Rightarrow> string list" where
  "message_when c m = (if c then [m] else [])"

lemma message_when_nil [simp]: "message_when c m = [] \<longleftrightarrow> \<not> c"
  by (simp add: message_when_def)

subsection \<open>One check\<close>

definition check_fields :: "string list" where
  "check_fields = [''id'', ''title'', ''description'', ''required'', ''blocking'', ''kind'', ''recipe'', ''recipes'',
     ''file'', ''path'', ''any_of'', ''artifact_recipe'', ''glob'', ''equals'', ''any_of_paths'', ''min'', ''max'',
     ''prompt'', ''schema'', ''worker_first'']"

definition number_above :: "jnum option \<Rightarrow> jnum option \<Rightarrow> bool" where
  "number_above a b =
     (case (Option.bind a (\<lambda>n. finite_number (JNum n)), Option.bind b (\<lambda>n. finite_number (JNum n))) of
        (Some x, Some y) \<Rightarrow> y < x | _ \<Rightarrow> False)"

definition parse_check :: "jv \<Rightarrow> string \<Rightarrow> nat \<Rightarrow> string list + gate_check" where
  \<open>parse_check raw gate_id index =
     (case record_fields raw of
        None \<Rightarrow> Inl [''gate '' @ quoted gate_id @ '': check #'' @ nat_text (index + 1) @ '' must be a mapping'']
      | Some f \<Rightarrow>
        let label = ''gate '' @ quoted gate_id @ '' check #'' @ nat_text (index + 1);
            unknown = unknown_fields f check_fields label;
            (e_id, cid) = text_field f label ''id''
        in case parse_enum check_kinds check_kind_text (get_prop f ''kind'') of
             None \<Rightarrow> Inl (unknown @ e_id @ [label @ '': "kind" must be one of '' @ join_with '', '' (map check_kind_text check_kinds)])
           | Some kind \<Rightarrow>
             let (e_recipe, recipe) = text_field f label ''recipe'';
                 (e_recipes, recipes) = texts_field f label ''recipes'';
                 (e_path, path) = text_field f label ''path'';
                 (e_any, any_of) = texts_field f label ''any_of'';
                 (e_art, artifact) = text_field f label ''artifact_recipe'';
                 (e_glob, glob) = text_field f label ''glob'';
                 (e_file, file) = text_field f label ''file'';
                 (e_paths, paths) = texts_field f label ''any_of_paths'';
                 equals = get_prop f ''equals'';
                 (e_min, lo) = number_field f label ''min'';
                 (e_max, hi) = number_field f label ''max'';
                 (e_prompt, prompt) = text_field f label ''prompt'';
                 (e_schema, schema) = text_field f label ''schema'';
                 (e_wf, wf) = text_field f label ''worker_first'';
                 safety = parse_enum safety_checks safety_check_text (get_prop f ''worker_first'');
                 cid' = (case cid of Some s \<Rightarrow> s | None \<Rightarrow> gate_id @ ''.'' @ nat_text (index + 1));
                 (e_title, title) = text_field f label ''title'';
                 (e_req, required) = bool_field f True label ''required'';
                 (e_blk, blocking) = bool_field f True label ''blocking'';
                 errors = unknown @ e_id @ e_recipe @ e_recipes
                   @ message_when (kind = Check_recipe \<and> recipe = None \<and> recipes = [])
                       (label @ '': kind=recipe needs "recipe" or "recipes"'')
                   @ e_path @ e_any
                   @ message_when (kind = Check_file \<and> path = None \<and> any_of = [])
                       (label @ '': kind=file needs "path" or "any_of"'')
                   @ e_art
                   @ message_when (kind = Check_artifact \<and> artifact = None)
                       (label @ '': kind=artifact needs "artifact_recipe"'')
                   @ e_glob @ e_file
                   @ message_when (kind \<in> {Check_json, Check_numeric, Check_schema} \<and> file = None)
                       (label @ '': kind='' @ check_kind_text kind @ '' needs "file"'')
                   @ e_path
                   @ (if kind \<in> {Check_json, Check_numeric} then
                        e_paths
                        @ message_when (path = None \<and> paths = [])
                            (label @ '': kind='' @ check_kind_text kind @ '' needs "path" (or "any_of_paths" for kind=json)'')
                        @ message_when (kind = Check_json \<and> paths \<noteq> [] \<and> path \<noteq> None)
                            (label @ '': use either "path" or "any_of_paths", not both'')
                        @ message_when (kind = Check_numeric \<and> paths \<noteq> [])
                            (label @ '': "any_of_paths" is only valid for kind=json'')
                      else [])
                   @ message_when (kind = Check_json \<and> equals \<noteq> JUndef \<and> path = None)
                       (label @ '': "equals" requires "path"'')
                   @ (if kind = Check_json then e_paths else [])
                   @ e_min @ e_max
                   @ message_when (kind \<noteq> Check_numeric \<and> (get_prop f ''min'' \<noteq> JUndef \<or> get_prop f ''max'' \<noteq> JUndef))
                       (label @ '': "min"/"max" are only valid for kind=numeric'')
                   @ message_when (number_above lo hi) (label @ '': "min" must be <= "max"'')
                   @ e_prompt @ e_schema
                   @ message_when (kind = Check_schema \<and> schema = None)
                       (label @ '': kind=schema needs "schema" (built-in: quant-result, quant-research)'')
                   @ e_wf
                   @ (if kind = Check_worker_first then
                        message_when (wf = None \<or> safety = None)
                          (label @ '': kind=worker-first needs "worker_first" set to one of ''
                             @ join_with '', '' (map safety_check_text safety_checks))
                      else message_when (get_prop f ''worker_first'' \<noteq> JUndef)
                             (label @ '': "worker_first" is only valid for kind=worker-first''))
                   @ e_title @ e_req @ e_blk
             in if errors \<noteq> [] then Inl errors
                else Inr \<lparr>gc_id = cid', gc_title = (case title of Some t \<Rightarrow> t | None \<Rightarrow> cid'),
                          gc_description = (case get_prop f ''description'' of JStr s \<Rightarrow> s | _ \<Rightarrow> []),
                          gc_required = required, gc_blocking = blocking, gc_kind = kind,
                          gc_recipe = recipe, gc_recipes = non_empty recipes, gc_path = path, gc_any_of = non_empty any_of,
                          gc_repository_root = False, gc_artifact_recipe = artifact, gc_artifact_glob = glob,
                          gc_json_file = file, gc_json_path = path, gc_json_equals = equals,
                          gc_json_any_of = (if kind = Check_json then non_empty paths else None),
                          gc_min = lo, gc_max = hi, gc_prompt = prompt, gc_schema = schema,
                          gc_safety = (if kind = Check_worker_first then safety else None)\<rparr>)\<close>

subsection \<open>One gate and the document\<close>

definition gate_fields :: "string list" where
  "gate_fields = [''id'', ''title'', ''description'', ''profiles'', ''prerequisites'', ''required'', ''blocking'',
     ''evidence'', ''acceptance'', ''checks'']"

text \<open>The loop over the raw checks: \<open>seen\<close> are the ids kept so far.\<close>

fun parse_checks :: "string \<Rightarrow> nat \<Rightarrow> string list \<Rightarrow> jv list \<Rightarrow> string list \<times> gate_check list" where
  "parse_checks gid i seen [] = ([], [])"
| \<open>parse_checks gid i seen (v # vs) =
     (case parse_check v gid i of
        Inl errs \<Rightarrow> (let (es, cs) = parse_checks gid (i + 1) seen vs in (errs @ es, cs))
      | Inr c \<Rightarrow>
          if gc_id c \<in> set seen then
            (let (es, cs) = parse_checks gid (i + 1) seen vs
             in ((''gate '' @ quoted gid @ '': duplicate check id '' @ quoted (gc_id c)) # es, cs))
          else (let (es, cs) = parse_checks gid (i + 1) (gc_id c # seen) vs in (es, c # cs)))\<close>

definition parse_gate :: "jv \<Rightarrow> nat \<Rightarrow> string list + gate" where
  \<open>parse_gate raw index =
     (case record_fields raw of
        None \<Rightarrow> Inl [''gate #'' @ nat_text (index + 1) @ '' must be a mapping'']
      | Some f \<Rightarrow>
        let label = ''gate #'' @ nat_text (index + 1);
            unknown = unknown_fields f gate_fields label;
            (e_id, gid) = text_field f label ''id''
        in case gid of
             None \<Rightarrow> Inl (unknown @ e_id)
           | Some i \<Rightarrow>
             let glabel = ''gate '' @ quoted i;
                 (e_title, title) = text_field f glabel ''title'';
                 (e_prof, profiles) = texts_field f glabel ''profiles'';
                 (e_pre, prerequisites) = texts_field f glabel ''prerequisites'';
                 (e_ev, evidence) = texts_field f glabel ''evidence'';
                 (e_acc, acceptance) = text_field f glabel ''acceptance'';
                 (e_req, required) = bool_field f True glabel ''required'';
                 (e_blk, blocking) = bool_field f True glabel ''blocking'';
                 (e_checks, checks) =
                   (case get_prop f ''checks'' of
                      JArr vs \<Rightarrow> parse_checks i 0 [] vs
                    | _ \<Rightarrow> ([glabel @ '': "checks" must be an array''], []));
                 errors = unknown @ e_id @ e_title @ e_prof @ e_pre @ e_ev @ e_acc @ e_req @ e_blk @ e_checks
             in if errors \<noteq> [] then Inl errors
                else if checks = [] then Inl [glabel @ '': at least one check is required'']
                else Inr \<lparr>ga_id = i, ga_title = (case title of Some t \<Rightarrow> t | None \<Rightarrow> i),
                          ga_description = (case get_prop f ''description'' of JStr s \<Rightarrow> s | _ \<Rightarrow> []),
                          ga_profiles = profiles, ga_prerequisites = prerequisites, ga_required = required,
                          ga_blocking = blocking, ga_evidence = evidence,
                          ga_acceptance = (case acceptance of Some a \<Rightarrow> a | None \<Rightarrow> []),
                          ga_checks = checks, ga_source = From_project\<rparr>)\<close>

fun parse_gate_list :: "nat \<Rightarrow> string list \<Rightarrow> jv list \<Rightarrow> gate list \<times> string list" where
  "parse_gate_list i seen [] = ([], [])"
| \<open>parse_gate_list i seen (v # vs) =
     (case parse_gate v i of
        Inl errs \<Rightarrow> (let (gs, es) = parse_gate_list (i + 1) seen vs in (gs, errs @ es))
      | Inr g \<Rightarrow>
          if ga_id g \<in> set seen then
            (let (gs, es) = parse_gate_list (i + 1) seen vs in (gs, (''duplicate gate id '' @ quoted (ga_id g)) # es))
          else (let (gs, es) = parse_gate_list (i + 1) (ga_id g # seen) vs in (g # gs, es)))\<close>

definition parse_gates_document :: "jv \<Rightarrow> gate list \<times> string list" where
  \<open>parse_gates_document doc =
     (case doc of
        JNull \<Rightarrow> ([], [])
      | JUndef \<Rightarrow> ([], [])
      | JArr vs \<Rightarrow> parse_gate_list 0 [] vs
      | _ \<Rightarrow> (case Option.bind (record_fields doc) (\<lambda>f. as_array (get_prop f ''gates'')) of
               Some vs \<Rightarrow> parse_gate_list 0 [] vs
             | None \<Rightarrow> ([], [''gates.yaml root must be a list or a mapping with a "gates" key''])))\<close>

subsection \<open>The effective catalog\<close>

text \<open>\<open>Map.set\<close>: a known key keeps its place, a new one goes last.\<close>

fun put_gate :: "gate \<Rightarrow> gate list \<Rightarrow> gate list" where
  "put_gate g [] = [g]"
| "put_gate g (h # hs) = (if ga_id h = ga_id g then g # hs else h # put_gate g hs)"

definition gate_named :: "gate list \<Rightarrow> string \<Rightarrow> gate option" where
  "gate_named gs i = find (\<lambda>g. ga_id g = i) gs"

fun merge_gates :: "gate list \<Rightarrow> gate list \<Rightarrow> string + gate list" where
  "merge_gates known [] = Inr known"
| \<open>merge_gates known (g # gs) =
     (if ga_id g = ''b6'' \<and> map_option ga_source (gate_named known ''b6'') = Some From_catalog
      then Inl ''gate "b6" is reserved and cannot override the built-in development-safety gate''
      else merge_gates (put_gate g known) gs)\<close>

definition loads_for_profile :: "string option \<Rightarrow> gate \<Rightarrow> bool" where
  "loads_for_profile profile g =
     (let p = (case profile of Some s \<Rightarrow> s | None \<Rightarrow> [])
      in if ga_profiles g \<noteq> [] then p \<in> set (ga_profiles g)
         else \<not> (quant_gate_id_re (ga_id g) \<and> p \<notin> set quant_profiles))"

definition effective_gates :: "string option \<Rightarrow> gate list \<Rightarrow> gate list \<Rightarrow> string + gate list" where
  "effective_gates profile catalog project =
     (case merge_gates (fold put_gate catalog []) project of
        Inl e \<Rightarrow> Inl e
      | Inr gs \<Rightarrow> Inr (sort_key ga_id (filter (loads_for_profile profile) gs)))"

subsection \<open>Selectors\<close>

definition resolve_selector :: "string \<Rightarrow> gate list \<Rightarrow> string list" where
  "resolve_selector selector gs =
     (let token = js_trim selector
      in if token = ''all'' then map ga_id gs
         else if token = ''base'' then map ga_id (filter (\<lambda>g. \<not> quant_gate_id_re (ga_id g)) gs)
         else if token = ''quant'' then map ga_id (filter (\<lambda>g. quant_gate_id_re (ga_id g)) gs)
         else filter (\<lambda>t. t \<noteq> []) (map js_trim (split_on (CHR '','') token)))"

end
