(* ===== verification/Gate_Order.thy ===== *)
theory Gate_Order
  imports Gate_Schema
begin

section \<open>Execution order of gates (orderGates)\<close>

text \<open>
  \<open>orderGates\<close> closes the selected gates under prerequisites and orders them by a depth-first
  search that marks a gate while its prerequisites are visited (0) and once it is placed (1). The
  search raises on an undeclared gate and on a gate that is its own prerequisite through a chain.
  \<open>visit_gates\<close> is the recursive \<open>visit\<close> together with the loop that calls it; its domain is
  total because every mark takes one declared gate out of the unmarked ones.
\<close>

datatype order_error =
    Prereq_cycle "string list"
  | Unknown_prerequisite string string
  | Unknown_gate string

type_synonym gate_marks = "string \<rightharpoonup> bool"

text \<open>\<open>new Map(gates.map(...))\<close>: the last gate of an id wins.\<close>

definition gate_by_id :: "gate list \<Rightarrow> string \<Rightarrow> gate option" where
  "gate_by_id gs i = map_of (rev (map (\<lambda>g. (ga_id g, g)) gs)) i"

definition missing_gate :: "string list \<Rightarrow> string \<Rightarrow> order_error" where
  "missing_gate chain i =
     (if chain \<noteq> [] \<and> last chain \<noteq> [] then Unknown_prerequisite (last chain) i else Unknown_gate i)"

function (sequential) visit_gates ::
  "gate list \<Rightarrow> string list \<Rightarrow> string list \<Rightarrow> gate_marks \<times> string list \<Rightarrow> order_error + gate_marks \<times> string list" where
  "visit_gates gs [] chain st = Inr st"
| "visit_gates gs (i # rest) chain (marks, out) =
     (case marks i of
        Some True \<Rightarrow> visit_gates gs rest chain (marks, out)
      | Some False \<Rightarrow> Inl (Prereq_cycle (chain @ [i]))
      | None \<Rightarrow>
          (case gate_by_id gs i of
             None \<Rightarrow> Inl (missing_gate chain i)
           | Some g \<Rightarrow>
               (case visit_gates gs (ga_prerequisites g) (chain @ [i]) (marks(i \<mapsto> False), out) of
                  Inl e \<Rightarrow> Inl e
                | Inr (marks', out') \<Rightarrow> visit_gates gs rest chain (marks'(i \<mapsto> True), out' @ [i]))))"
  by pat_completeness auto

lemma visit_gates_keeps_marks:
  "visit_gates_dom (gs, ids, chain, st) \<Longrightarrow> visit_gates gs ids chain st = Inr st' \<Longrightarrow> dom (fst st) \<subseteq> dom (fst st')"
proof (induction gs ids chain st arbitrary: st' rule: visit_gates.pinduct)
  case (2 gs i rest chain marks out)
  note IH = "2.IH" and run = "2.prems" and dom = "2.hyps"
  show ?case
  proof (cases "marks i")
    case None
    with run dom obtain g m o1 where g: "gate_by_id gs i = Some g"
      and inner: "visit_gates gs (ga_prerequisites g) (chain @ [i]) (marks(i \<mapsto> False), out) = Inr (m, o1)"
      and outer: "visit_gates gs rest chain (m(i \<mapsto> True), o1 @ [i]) = Inr st'"
      by (auto simp: visit_gates.psimps split: option.splits sum.splits)
    show ?thesis using IH(1)[OF None g inner] IH(2)[OF None g inner refl outer]
      by (metis (no_types, opaque_lifting) dom_fun_upd fst_conv insert_subset option.distinct(1) subset_trans)
  next
    case (Some b)
    then show ?thesis using IH(3)[of b] run dom by (cases b) (auto simp: visit_gates.psimps)
  qed
qed (simp add: visit_gates.psimps)

definition unmarked :: "gate list \<Rightarrow> gate_marks \<Rightarrow> nat" where
  "unmarked gs marks = card (set (map ga_id gs) - dom marks)"

lemma gate_by_id_declared: "gate_by_id gs i = Some g \<Longrightarrow> i \<in> ga_id ` set gs"
  unfolding gate_by_id_def by (drule map_of_SomeD) auto

lemma unmarked_mono: "dom m \<subseteq> dom m' \<Longrightarrow> unmarked gs m' \<le> unmarked gs m"
  unfolding unmarked_def by (rule card_mono) auto

lemma unmarked_less: "i \<in> ga_id ` set gs \<Longrightarrow> m i = None \<Longrightarrow> i \<in> dom m' \<Longrightarrow> dom m \<subseteq> dom m' \<Longrightarrow> unmarked gs m' < unmarked gs m"
  unfolding unmarked_def by (rule psubset_card_mono) auto

termination visit_gates
proof (relation "measures [\<lambda>(gs, ids, chain, st). unmarked gs (fst st), \<lambda>(gs, ids, chain, st). length ids]", goal_cases)
  case (2 gs i rest chain marks out g)
  then have "unmarked gs (marks(i \<mapsto> False)) < unmarked gs marks"
    by (intro unmarked_less[of i]) (auto simp: gate_by_id_declared)
  then show ?case by simp
next
  case (3 gs i rest chain marks out g st' marks' out')
  note dom = 3(5)
  have run: "visit_gates gs (ga_prerequisites g) (chain @ [i]) (marks(i \<mapsto> False), out) = Inr (marks', out')"
    using 3(3,4) by simp
  have "dom (marks(i \<mapsto> False)) \<subseteq> dom marks'" using visit_gates_keeps_marks[OF dom run] by simp
  then have "unmarked gs (marks'(i \<mapsto> True)) < unmarked gs marks"
    using 3(1,2) by (intro unmarked_less[of i]) (auto simp: gate_by_id_declared)
  then show ?case by simp
qed auto

definition order_gates :: "string list \<Rightarrow> gate list \<Rightarrow> order_error + string list" where
  "order_gates ids gs =
     (case visit_gates gs ids [] (Map.empty, []) of Inl e \<Rightarrow> Inl e | Inr (marks, out) \<Rightarrow> Inr out)"


subsection \<open>The prerequisite relation\<close>

definition needs :: "gate list \<Rightarrow> string \<Rightarrow> string \<Rightarrow> bool" where
  "needs gs i p = (case gate_by_id gs i of None \<Rightarrow> False | Some g \<Rightarrow> p \<in> set (ga_prerequisites g))"

definition reachable_gates :: "gate list \<Rightarrow> string list \<Rightarrow> string set" where
  "reachable_gates gs ids = {p. \<exists>i\<in>set ids. (needs gs)\<^sup>*\<^sup>* i p}"

text \<open>Every gate of the list is declared and comes after its prerequisites.\<close>

fun placed_after :: "gate list \<Rightarrow> string set \<Rightarrow> string list \<Rightarrow> bool" where
  "placed_after gs before [] = True"
| "placed_after gs before (i # is) =
     ((case gate_by_id gs i of None \<Rightarrow> False | Some g \<Rightarrow> set (ga_prerequisites g) \<subseteq> before)
      \<and> placed_after gs (insert i before) is)"

lemma placed_after_append [simp]:
  "placed_after gs before (xs @ ys) = (placed_after gs before xs \<and> placed_after gs (before \<union> set xs) ys)"
  by (induction xs arbitrary: before) auto

lemma placed_after_closed: "placed_after gs {} out \<Longrightarrow> i \<in> set out \<Longrightarrow> needs gs i p \<Longrightarrow> p \<in> set out"
proof -
  assume p: "placed_after gs {} out" "i \<in> set out" "needs gs i p"
  from p(2) obtain xs ys where "out = xs @ i # ys" by (meson split_list)
  with p(1,3) show ?thesis by (auto simp: needs_def split: option.splits)
qed

lemma placed_after_reach: "(needs gs)\<^sup>*\<^sup>* i p \<Longrightarrow> placed_after gs {} out \<Longrightarrow> i \<in> set out \<Longrightarrow> p \<in> set out"
  by (induction rule: rtranclp_induct) (auto intro: placed_after_closed)

lemma placed_before:
  assumes "placed_after gs {} (xs @ i # ys)" "needs gs i p"
  shows "p \<in> set xs"
  using assms by (auto simp: needs_def split: option.splits)

lemma placed_before_chain:
  "(needs gs)\<^sup>+\<^sup>+ i p \<Longrightarrow> placed_after gs {} (xs @ i # ys) \<Longrightarrow> p \<in> set xs"
proof (induction rule: tranclp_induct)
  case (base p)
  then show ?case by (rule placed_before[rotated])
next
  case (step p q)
  then have "p \<in> set xs" by simp
  then obtain us vs where "xs = us @ p # vs" by (meson split_list)
  then show ?case using placed_before[of gs us p "vs @ i # ys" q] step by auto
qed

lemma reachable_cons: "reachable_gates gs (i # ids) = {p. (needs gs)\<^sup>*\<^sup>* i p} \<union> reachable_gates gs ids"
  by (auto simp: reachable_gates_def)

lemma reachable_self: "set ids \<subseteq> reachable_gates gs ids"
  by (auto simp: reachable_gates_def)

lemma reachable_prerequisites:
  "gate_by_id gs i = Some g \<Longrightarrow> reachable_gates gs (ga_prerequisites g) \<subseteq> {p. (needs gs)\<^sup>*\<^sup>* i p}"
  by (auto simp: reachable_gates_def needs_def intro: converse_rtranclp_into_rtranclp)

subsection \<open>What the search leaves behind\<close>

definition marks_of :: "string list \<Rightarrow> string list \<Rightarrow> gate_marks" where
  "marks_of chain out = (\<lambda>i. if i \<in> set out then Some True else if i \<in> set chain then Some False else None)"

definition visit_inv :: "gate list \<Rightarrow> string list \<Rightarrow> gate_marks \<times> string list \<Rightarrow> bool" where
  "visit_inv gs chain st =
     (fst st = marks_of chain (snd st) \<and> distinct (chain @ snd st) \<and> placed_after gs {} (snd st))"

lemma visit_inv_enter:
  "visit_inv gs chain (marks, out) \<Longrightarrow> marks i = None \<Longrightarrow> visit_inv gs (chain @ [i]) (marks(i \<mapsto> False), out)"
  by (auto simp: visit_inv_def marks_of_def split: if_splits)

lemma visit_inv_leave:
  "visit_inv gs (chain @ [i]) (marks, out) \<Longrightarrow> gate_by_id gs i = Some g \<Longrightarrow> set (ga_prerequisites g) \<subseteq> set out
   \<Longrightarrow> visit_inv gs chain (marks(i \<mapsto> True), out @ [i])"
  by (auto simp: visit_inv_def marks_of_def)

lemma visit_gates_places:
  "visit_gates gs ids chain st = Inr (marks', out') \<Longrightarrow> visit_inv gs chain st \<Longrightarrow>
   visit_inv gs chain (marks', out') \<and> set (snd st) \<subseteq> set out' \<and> set ids \<subseteq> set out'
   \<and> set out' \<subseteq> set (snd st) \<union> reachable_gates gs ids"
proof (induction gs ids chain st arbitrary: marks' out' rule: visit_gates.induct)
  case (2 gs i rest chain marks out)
  note IH = "2.IH" and run = "2.prems"(1) and inv = "2.prems"(2)
  show ?case
  proof (cases "marks i")
    case None
    with run obtain g m o1 where g: "gate_by_id gs i = Some g"
      and inner: "visit_gates gs (ga_prerequisites g) (chain @ [i]) (marks(i \<mapsto> False), out) = Inr (m, o1)"
      and outer: "visit_gates gs rest chain (m(i \<mapsto> True), o1 @ [i]) = Inr (marks', out')"
      by (auto split: option.splits sum.splits)
    note in1 = IH(1)[OF None g inner visit_inv_enter[OF inv None]]
    then have "visit_inv gs chain (m(i \<mapsto> True), o1 @ [i])" using visit_inv_leave g by auto
    note out1 = IH(2)[OF None g inner refl outer this]
    show ?thesis using in1 out1 reachable_prerequisites[OF g] by (auto simp: reachable_cons)
  next
    case (Some b)
    with inv have "i \<in> set out" if b using that by (auto simp: visit_inv_def marks_of_def split: if_splits)
    then show ?thesis using IH(3)[of b] run inv Some by (cases b) (auto simp: reachable_cons)
  qed
qed auto

subsection \<open>Why it raises\<close>

definition order_fault :: "gate list \<Rightarrow> string list \<Rightarrow> order_error \<Rightarrow> bool" where
  "order_fault gs ids e =
     (case e of
        Prereq_cycle c \<Rightarrow> c \<noteq> [] \<and> hd c \<in> set ids \<and> successively (needs gs) c \<and> last c \<in> set (butlast c)
      | Unknown_prerequisite d p \<Rightarrow> d \<in> reachable_gates gs ids \<and> needs gs d p \<and> gate_by_id gs p = None
      | Unknown_gate p \<Rightarrow> p \<in> reachable_gates gs ids \<and> gate_by_id gs p = None)"

lemma successively_reach: "successively (needs gs) c \<Longrightarrow> c \<noteq> [] \<Longrightarrow> x \<in> set c \<Longrightarrow> (needs gs)\<^sup>*\<^sup>* (hd c) x"
proof (induction c)
  case (Cons a c)
  then show ?case by (cases c) (auto intro: converse_rtranclp_into_rtranclp)
qed simp

definition chain_from :: "gate list \<Rightarrow> string list \<Rightarrow> string list \<Rightarrow> string list \<Rightarrow> bool" where
  "chain_from gs start chain ids =
     (successively (needs gs) chain
      \<and> (if chain = [] then set ids \<subseteq> set start
         else hd chain \<in> set start \<and> (\<forall>p\<in>set ids. needs gs (last chain) p)))"

lemma chain_from_snoc: "chain_from gs start chain (i # ids) \<Longrightarrow> successively (needs gs) (chain @ [i]) \<and> hd (chain @ [i]) \<in> set start"
  by (auto simp: chain_from_def successively_append_iff split: if_splits)

lemma chain_from_enter:
  "chain_from gs start chain (i # ids) \<Longrightarrow> gate_by_id gs i = Some g \<Longrightarrow> chain_from gs start (chain @ [i]) (ga_prerequisites g)"
  using chain_from_snoc[of gs start chain i ids] by (auto simp: chain_from_def needs_def)

lemma chain_from_missing:
  assumes c: "chain_from gs start chain (i # ids)" and m: "gate_by_id gs i = None"
  shows "order_fault gs start (missing_gate chain i)"
proof -
  have r: "x \<in> reachable_gates gs start" if "x \<in> set (chain @ [i])" for x
    using chain_from_snoc[OF c] successively_reach[of gs "chain @ [i]" x] that
    by (auto simp: reachable_gates_def)
  then show ?thesis using c m by (auto simp: order_fault_def missing_gate_def chain_from_def split: if_splits)
qed

lemma visit_gates_raises:
  "visit_gates gs ids chain st = Inl e \<Longrightarrow> visit_inv gs chain st \<Longrightarrow> chain_from gs start chain ids \<Longrightarrow> order_fault gs start e"
proof (induction gs ids chain st arbitrary: e rule: visit_gates.induct)
  case (2 gs i rest chain marks out)
  note IH = "2.IH" and run = "2.prems"(1) and inv = "2.prems"(2) and chain = "2.prems"(3)
  have rest: "chain_from gs start chain rest" using chain by (auto simp: chain_from_def split: if_splits)
  show ?case
  proof (cases "marks i")
    case None
    show ?thesis
    proof (cases "gate_by_id gs i")
      case None
      then show ?thesis using run chain_from_missing[OF chain] \<open>marks i = None\<close> by simp
    next
      case (Some g)
      note start = chain_from_enter[OF chain Some] and enter = visit_inv_enter[OF inv None]
      show ?thesis
      proof (cases "visit_gates gs (ga_prerequisites g) (chain @ [i]) (marks(i \<mapsto> False), out)")
        case (Inl x)
        then show ?thesis using IH(1)[OF None Some Inl enter start] run None Some by simp
      next
        case (Inr y)
        obtain m o1 where y: "y = (m, o1)" by (cases y)
        have "visit_inv gs chain (m(i \<mapsto> True), o1 @ [i])"
          using visit_gates_places[OF Inr[unfolded y] enter] visit_inv_leave Some by auto
        then show ?thesis using IH(2)[OF None Some Inr y[symmetric] _ _ rest] run None Some Inr y by simp
      qed
    qed
  next
    case (Some b)
    show ?thesis
    proof (cases b)
      case True
      then show ?thesis using IH(3)[of b, OF Some _ _ inv rest] run Some by simp
    next
      case False
      then have "i \<in> set chain" using inv Some by (auto simp: visit_inv_def marks_of_def split: if_splits)
      then show ?thesis using run Some False chain_from_snoc[OF chain] by (auto simp: order_fault_def)
    qed
  qed
qed auto


subsection \<open>The order\<close>

lemma start_inv: "visit_inv gs [] (Map.empty, [])"
  by (simp add: visit_inv_def marks_of_def)

lemma order_gates_Inr:
  "order_gates ids gs = Inr out \<Longrightarrow> distinct out \<and> set out = reachable_gates gs ids \<and> placed_after gs {} out"
proof -
  assume "order_gates ids gs = Inr out"
  then obtain marks where "visit_gates gs ids [] (Map.empty, []) = Inr (marks, out)"
    by (auto simp: order_gates_def split: sum.splits)
  from visit_gates_places[OF this start_inv]
  have "visit_inv gs [] (marks, out)" "set ids \<subseteq> set out" "set out \<subseteq> reachable_gates gs ids" by auto
  moreover from this have "reachable_gates gs ids \<subseteq> set out"
    by (auto simp: reachable_gates_def visit_inv_def intro: placed_after_reach)
  ultimately show ?thesis by (auto simp: visit_inv_def)
qed

lemma order_gates_Inl: "order_gates ids gs = Inl e \<Longrightarrow> order_fault gs ids e"
  using visit_gates_raises[of gs ids "[]" "(Map.empty, [])" e ids] start_inv
  by (auto simp: order_gates_def chain_from_def split: sum.splits)

lemma ordered_no_fault:
  assumes "order_gates ids gs = Inr out" "i \<in> reachable_gates gs ids"
  shows "gate_by_id gs i \<noteq> None" "\<not> (needs gs)\<^sup>+\<^sup>+ i i"
proof -
  from order_gates_Inr[OF assms(1)] assms(2) obtain xs ys
    where o: "out = xs @ i # ys" "placed_after gs {} (xs @ i # ys)" "distinct out"
    by (metis split_list)
  then show "gate_by_id gs i \<noteq> None" by (auto split: option.splits)
  show "\<not> (needs gs)\<^sup>+\<^sup>+ i i" using placed_before_chain[of gs i i xs ys] o by auto
qed

lemma cycle_of_chain:
  assumes "successively (needs gs) c" "c \<noteq> []" "last c \<in> set (butlast c)"
  shows "(needs gs)\<^sup>+\<^sup>+ (last c) (last c)"
proof -
  from assms(3) obtain us vs where b: "butlast c = us @ last c # vs" by (meson split_list)
  then have "c = us @ last c # vs @ [last c]" by (metis append.assoc append_Cons append_butlast_last_id assms(2))
  then have s: "successively (needs gs) (last c # vs @ [last c])" using assms(1) by (metis successively_append_iff)
  then obtain y where "needs gs (last c) y" "(needs gs)\<^sup>*\<^sup>* y (last c)"
    using successively_reach[of gs "vs @ [last c]" "last c"]
    by (cases vs) auto
  then show ?thesis by simp
qed

lemma fault_breaks: "order_fault gs ids e \<Longrightarrow>
  \<exists>i\<in>reachable_gates gs ids. gate_by_id gs i = None \<or> (needs gs)\<^sup>+\<^sup>+ i i"
proof (cases e)
  case (Prereq_cycle c)
  assume "order_fault gs ids e"
  with Prereq_cycle have c: "c \<noteq> []" "hd c \<in> set ids" "successively (needs gs) c" "last c \<in> set (butlast c)"
    by (auto simp: order_fault_def)
  then have "last c \<in> reachable_gates gs ids"
    using successively_reach[of gs c "last c"] by (auto simp: reachable_gates_def)
  then show ?thesis using cycle_of_chain c by blast
next
  case (Unknown_prerequisite d p)
  assume "order_fault gs ids e"
  with Unknown_prerequisite have "d \<in> reachable_gates gs ids" "needs gs d p" "gate_by_id gs p = None"
    by (auto simp: order_fault_def)
  then show ?thesis by (auto simp: reachable_gates_def intro: rtranclp.rtrancl_into_rtrancl)
qed (auto simp: order_fault_def)

text \<open>C29: \<open>orderGates\<close> terminates, and it returns an order exactly when no selected gate, and no
  gate reached from one through prerequisites, is undeclared or its own prerequisite. The order lists
  every reached gate once, and each after all of its prerequisites; an error names a real fault.\<close>

theorem order_gates_topological:
  "(case order_gates ids gs of
      Inr out \<Rightarrow> distinct out \<and> set out = reachable_gates gs ids
                 \<and> (\<forall>xs i ys. out = xs @ i # ys \<longrightarrow> {p. needs gs i p} \<subseteq> set xs)
    | Inl e \<Rightarrow> order_fault gs ids e)
   \<and> (\<exists>out. order_gates ids gs = Inr out)
      = (\<forall>i\<in>reachable_gates gs ids. gate_by_id gs i \<noteq> None \<and> \<not> (needs gs)\<^sup>+\<^sup>+ i i)"
proof (cases "order_gates ids gs")
  case (Inl e)
  note f = order_gates_Inl[OF Inl]
  then show ?thesis using fault_breaks[OF f] Inl by auto
next
  case (Inr out)
  have "\<forall>xs i ys. out = xs @ i # ys \<longrightarrow> {p. needs gs i p} \<subseteq> set xs"
    using order_gates_Inr[OF Inr] placed_before by blast
  then show ?thesis using order_gates_Inr[OF Inr] ordered_no_fault[OF Inr] Inr by auto
qed

end
