(* ===== verification/Gate_Catalog.thy ===== *)
theory Gate_Catalog
  imports Gate_Order
begin

section \<open>The built-in validation ladder (core/gate-catalog.ts)\<close>

text \<open>
  The gates every project starts from: the base ladder b0 to b6 and the quant ladder q0 to q5, each
  check with its fields. The dashes of the prompts are outside the characters of the model and are
  written with a hyphen.
\<close>

definition catalog_check :: "string \<Rightarrow> string \<Rightarrow> check_kind \<Rightarrow> string \<Rightarrow> gate_check" where
  "catalog_check i title kind description =
     \<lparr>gc_id = i, gc_title = title, gc_description = description, gc_required = True, gc_blocking = True, gc_kind = kind,
      gc_recipe = None, gc_recipes = None, gc_path = None, gc_any_of = None, gc_repository_root = False,
      gc_artifact_recipe = None, gc_artifact_glob = None, gc_json_file = None, gc_json_path = None,
      gc_json_equals = JUndef, gc_json_any_of = None, gc_min = None, gc_max = None, gc_prompt = None,
      gc_schema = None, gc_safety = None\<rparr>"

definition b0_checks :: "gate_check list" where
  \<open>b0_checks =
     [(catalog_check ''b0.1'' ''Workbench config valid'' Check_config
        ''project root, profile, recipes.yaml, gates.yaml and profiles.yaml load without issues''),
      (catalog_check ''b0.2'' ''Project entry point identifiable'' Check_file
        ''a standard project or language-stack manifest exists at the project root'')
        \<lparr>gc_any_of := Some [''package.json'', ''pyproject.toml'', ''requirements.txt'', ''setup.py'', ''setup.cfg'', ''go.mod'', ''Cargo.toml'', ''pom.xml'', ''build.gradle'', ''build.gradle.kts'']\<rparr>,
      (catalog_check ''b0.3'' ''Dependency configuration present'' Check_file
        ''dependency manifests or lockfiles exist'')
        \<lparr>gc_any_of := Some [''package.json'', ''package-lock.json'', ''pnpm-lock.yaml'', ''yarn.lock'', ''poetry.lock'', ''uv.lock'', ''requirements.txt'', ''go.mod'', ''Cargo.toml'', ''Gemfile'']\<rparr>,
      (catalog_check ''b0.4'' ''Required workbench files present'' Check_file
        ''the workbench configuration written by /q-init exists at the repository root'')
        \<lparr>gc_any_of := Some [''.pi/workbench/project.yaml'', ''.pi/workbench/recipes.yaml''],
         gc_repository_root := True\<rparr>]\<close>

definition b1_checks :: "gate_check list" where
  \<open>b1_checks =
     [(catalog_check ''b1.1'' ''Format check passes'' Check_recipe
        ''declared format recipe runs with the expected exit code'')
        \<lparr>gc_recipes := Some [''check:format'', ''format'']\<rparr>,
      (catalog_check ''b1.2'' ''Lint check passes'' Check_recipe
        ''declared lint recipe runs with the expected exit code'')
        \<lparr>gc_recipes := Some [''check:lint'', ''lint'']\<rparr>,
      (catalog_check ''b1.3'' ''Typecheck passes'' Check_recipe
        ''declared typecheck recipe runs with the expected exit code'')
        \<lparr>gc_recipes := Some [''check:typecheck'', ''typecheck'']\<rparr>,
      (catalog_check ''b1.4'' ''Static analysis passes'' Check_recipe
        ''declared static-analysis recipe runs with the expected exit code'')
        \<lparr>gc_recipes := Some [''check:static'', ''static'', ''check:analysis'', ''analysis'']\<rparr>]\<close>

definition b2_checks :: "gate_check list" where
  \<open>b2_checks =
     [(catalog_check ''b2.1'' ''Unit tests pass'' Check_recipe
        ''declared unit-test recipe runs with the expected exit code'')
        \<lparr>gc_recipes := Some [''test:unit'', ''unit'', ''test'']\<rparr>,
      (catalog_check ''b2.2'' ''Boundary conditions covered'' Check_manual
        [])
        \<lparr>gc_prompt := Some ''Evidence that boundary conditions (empty input, extremes, zero/negative values) are tested - e.g. test list or coverage report.''\<rparr>,
      (catalog_check ''b2.3'' ''Error paths covered'' Check_manual
        [])
        \<lparr>gc_prompt := Some ''Evidence that error paths are tested - failures return non-zero exit codes and are handled gracefully.''\<rparr>]\<close>

definition b3_checks :: "gate_check list" where
  \<open>b3_checks =
     [(catalog_check ''b3.1'' ''Integration tests pass'' Check_recipe
        ''declared integration-test recipe runs with the expected exit code'')
        \<lparr>gc_recipes := Some [''test:integration'', ''integration'', ''test:e2e'', ''e2e'']\<rparr>,
      (catalog_check ''b3.2'' ''CLI/API entry and config loading smoke'' Check_manual
        [])
        \<lparr>gc_prompt := Some ''Smoke-test evidence that the CLI/API entry point works and configuration loads correctly.''\<rparr>,
      (catalog_check ''b3.3'' ''Data read/write path smoke'' Check_manual
        [])
        \<lparr>gc_prompt := Some ''Smoke-test evidence that the data read/write path works (for quant projects this is covered by the Q1 data:fetch recipe check).''\<rparr>]\<close>

definition b4_checks :: "gate_check list" where
  \<open>b4_checks =
     [(catalog_check ''b4.1'' ''CLI exit-code contract'' Check_manual
        [])
        \<lparr>gc_prompt := Some ''Evidence that the CLI contract holds: success exits 0, failures exit non-zero (test output or script run).''\<rparr>,
      (catalog_check ''b4.2'' ''Structured vs human output consistent'' Check_manual
        [])
        \<lparr>gc_prompt := Some ''Evidence that JSON/CSV/schema output and human-readable output carry the same numbers.''\<rparr>,
      (catalog_check ''b4.3'' ''Artifact completeness'' Check_manual
        [])
        \<lparr>gc_prompt := Some ''Evidence that every declared artifact is produced by the pipeline (for quant projects the schema/artifact checks in Q gates cover this).''\<rparr>]\<close>

definition b5_checks :: "gate_check list" where
  \<open>b5_checks =
     [(catalog_check ''b5.1'' ''Reproducibility snapshot'' Check_manual
        [])
        \<lparr>gc_prompt := Some ''Evidence that config snapshot, run command, parameters and seed are recorded so the run can be reproduced.''\<rparr>,
      (catalog_check ''b5.2'' ''Git state and open issues documented'' Check_manual
        [])
        \<lparr>gc_prompt := Some ''Evidence that git state (commit, dirty files) and unresolved issues are documented in the handoff.''\<rparr>]\<close>

definition b6_checks :: "gate_check list" where
  \<open>b6_checks =
     [(catalog_check ''b6.1'' ''Development-first policy active'' Check_worker_first
        ''the session resolves to the development-first policy (legacy compatibility id worker-first-strict)'')
        \<lparr>gc_safety := Some Strict_policy_active\<rparr>,
      (catalog_check ''b6.2'' ''No unauthorized commander writes (hard denial active)'' Check_worker_first
        ''zero unauthorized commander write attempts, or commander edit/write is hard-denied'')
        \<lparr>gc_safety := Some No_unauthorized_writes\<rparr>,
      (catalog_check ''b6.3'' ''No pending recovery review'' Check_worker_first
        ''the latest delegation is not PENDING_REVIEW (review before the next delegation / VERIFY)'')
        \<lparr>gc_safety := Some No_pending_review\<rparr>,
      (catalog_check ''b6.4'' ''No stale recovery review'' Check_worker_first
        ''the latest delegation is not STALE (no diff change since the reviewed hash)'')
        \<lparr>gc_safety := Some No_stale_review\<rparr>,
      (catalog_check ''b6.5'' ''Reviewed diff hash matches the current diff'' Check_worker_first
        ''the latest reviewed diff hash equals the current diff hash'')
        \<lparr>gc_safety := Some Reviewed_hash_current\<rparr>,
      (catalog_check ''b6.6'' ''All worker paths within approved contracts'' Check_worker_first
        ''the latest valid PASS review found zero worker paths outside the parent-approved contracts (sequential review gating means earlier delegations could not be bypassed)'')
        \<lparr>gc_safety := Some Worker_paths_contained\<rparr>,
      (catalog_check ''b6.7'' ''No active unexplained commander write lease'' Check_worker_first
        ''an active lease carries one of the fixed audited reasons; otherwise the lease is locked/terminal'')
        \<lparr>gc_safety := Some No_unexplained_lease\<rparr>,
      (catalog_check ''b6.8'' ''Final verification initiated by the Sol commander'' Check_worker_first
        ''this gate run was initiated by the approved GPT-5.6 Sol commander (workers cannot run final gates)'')
        \<lparr>gc_safety := Some Commander_verification\<rparr>]\<close>

definition q0_checks :: "gate_check list" where
  \<open>q0_checks =
     [(catalog_check ''q0.1'' ''Strategy type declared'' Check_json
        ''research contract declares the strategy type'')
        \<lparr>gc_json_file := Some ''research/contract.json'',
         gc_json_path := Some ''strategy_type''\<rparr>,
      (catalog_check ''q0.2'' ''Universe declared'' Check_json
        ''research contract declares the universe'')
        \<lparr>gc_json_file := Some ''research/contract.json'',
         gc_json_path := Some ''universe''\<rparr>,
      (catalog_check ''q0.3'' ''Frequency declared'' Check_json
        ''research contract declares the time frequency'')
        \<lparr>gc_json_file := Some ''research/contract.json'',
         gc_json_path := Some ''frequency''\<rparr>,
      (catalog_check ''q0.4'' ''Benchmark declared'' Check_json
        ''research contract declares the benchmark'')
        \<lparr>gc_json_file := Some ''research/contract.json'',
         gc_json_path := Some ''benchmark''\<rparr>,
      (catalog_check ''q0.5'' ''Signal and execution assumptions declared'' Check_json
        ''research contract declares signal generation and execution assumptions'')
        \<lparr>gc_json_file := Some ''research/contract.json'',
         gc_json_path := Some ''signal''\<rparr>,
      (catalog_check ''q0.6'' ''Acceptance criteria declared'' Check_json
        ''research contract declares acceptance criteria'')
        \<lparr>gc_json_file := Some ''research/contract.json'',
         gc_json_path := Some ''acceptance''\<rparr>]\<close>

definition q1_checks :: "gate_check list" where
  \<open>q1_checks =
     [(catalog_check ''q1.1'' ''Data pipeline runs'' Check_recipe
        ''declared data recipe runs with the expected exit code'')
        \<lparr>gc_recipes := Some [''data:fetch'', ''fetch-data'', ''fetch'']\<rparr>,
      (catalog_check ''q1.2'' ''Time coverage, missing/duplicate records, timezone'' Check_manual
        [])
        \<lparr>gc_prompt := Some ''Evidence that time coverage is verified, missing/duplicate records are handled, and timestamps/timezones are aligned.''\<rparr>,
      (catalog_check ''q1.3'' ''Adjustments and corporate actions'' Check_manual
        [])
        \<lparr>gc_prompt := Some ''Evidence that split/dividend adjustments and corporate actions are handled correctly.''\<rparr>,
      (catalog_check ''q1.4'' ''Delisting, point-in-time, survivorship'' Check_manual
        [])
        \<lparr>gc_prompt := Some ''Evidence that delisted names are included, data is point-in-time, and survivorship bias is controlled.''\<rparr>]\<close>

definition q2_checks :: "gate_check list" where
  \<open>q2_checks =
     [(catalog_check ''q2.1'' ''Backtest runs'' Check_recipe
        ''declared backtest recipe runs with the expected exit code'')
        \<lparr>gc_recipes := Some [''backtest'', ''backtest:selection'', ''backtest:timing'']\<rparr>,
      (catalog_check ''q2.2'' ''Output conforms to quant-result contract'' Check_schema
        ''results/quant-result.json validates against quant-result.schema.json'')
        \<lparr>gc_json_file := Some ''results/quant-result.json'',
         gc_schema := Some ''quant-result''\<rparr>,
      (catalog_check ''q2.3'' ''Signal/execution timing declared'' Check_json
        ''the artifact declares signal generation vs execution timing'')
        \<lparr>gc_json_file := Some ''results/quant-result.json'',
         gc_json_path := Some ''semantics.signal_execution_delay''\<rparr>,
      (catalog_check ''q2.4'' ''No look-ahead audit'' Check_manual
        [])
        \<lparr>gc_prompt := Some ''Evidence of a code/timestamp audit that no future information is used (signal uses only point-in-time data).''\<rparr>,
      (catalog_check ''q2.5'' ''Rebalance semantics, cash and positions'' Check_manual
        [])
        \<lparr>gc_prompt := Some ''Evidence that rebalance semantics and cash/position accounting are verified.''\<rparr>,
      (catalog_check ''q2.6'' ''Costs and benchmark alignment'' Check_manual
        [])
        \<lparr>gc_prompt := Some ''Evidence that fees/slippage are modeled and the benchmark is aligned with the strategy return computation.''\<rparr>]\<close>

definition q3_checks :: "gate_check list" where
  \<open>q3_checks =
     [(catalog_check ''q3.1'' ''Split method declared'' Check_json
        ''results/quant-result.json declares split.method (walk-forward / train-validation-test / time-series)'')
        \<lparr>gc_json_file := Some ''results/quant-result.json'',
         gc_json_path := Some ''split.method''\<rparr>,
      (catalog_check ''q3.2'' ''Multiple folds recorded'' Check_numeric
        ''at least two folds are recorded (full trial reporting)'')
        \<lparr>gc_json_file := Some ''results/quant-result.json'',
         gc_json_path := Some ''folds.length'',
         gc_min := Some (JInt 2)\<rparr>,
      (catalog_check ''q3.3'' ''Seed, baseline and search space'' Check_manual
        [])
        \<lparr>gc_prompt := Some ''Evidence that seeds, the baseline comparison and the parameter search space are recorded.''\<rparr>,
      (catalog_check ''q3.4'' ''Full trial reporting'' Check_manual
        [])
        \<lparr>gc_prompt := Some ''Evidence that ALL trials are reported - failed trials are never deleted and results are never best-trial-only.''\<rparr>]\<close>

definition q4_checks :: "gate_check list" where
  \<open>q4_checks =
     [(catalog_check ''q4.1'' ''Out-of-sample range declared'' Check_json
        ''results/quant-result.json declares the out-of-sample test range'')
        \<lparr>gc_json_file := Some ''results/quant-result.json'',
         gc_json_path := Some ''split.test''\<rparr>,
      (catalog_check ''q4.2'' ''Multi-fold out-of-sample'' Check_numeric
        ''multiple folds cover out-of-sample evaluation (override for single-split designs)'')
        \<lparr>gc_json_file := Some ''results/quant-result.json'',
         gc_json_path := Some ''folds.length'',
         gc_min := Some (JInt 2)\<rparr>,
      (catalog_check ''q4.3'' ''Parameter stability'' Check_manual
        [])
        \<lparr>gc_prompt := Some ''Evidence that neighboring parameter values give similar results (stability, not a single lucky point).''\<rparr>,
      (catalog_check ''q4.4'' ''Market-stage coverage'' Check_manual
        [])
        \<lparr>gc_prompt := Some ''Evidence that results are reported across different market stages/regimes.''\<rparr>,
      (catalog_check ''q4.5'' ''Cost sensitivity'' Check_manual
        [])
        \<lparr>gc_prompt := Some ''Evidence that results are robust to cost assumptions (sensitivity analysis).''\<rparr>,
      (catalog_check ''q4.6'' ''Failed folds reported'' Check_manual
        [])
        \<lparr>gc_prompt := Some ''Evidence that failed folds and out-of-sample underperformance are reported, not hidden.''\<rparr>,
      (catalog_check ''q4.7'' ''Time-ordered research evidence'' Check_schema
        ''machine validation proves chronological train/validation/test folds, declared gap/embargo applicability, retained failures, and parameter-stability evidence references'')
        \<lparr>gc_json_file := Some ''results/quant-result.json'',
         gc_schema := Some ''quant-research''\<rparr>]\<close>

definition q5_checks :: "gate_check list" where
  \<open>q5_checks =
     [(catalog_check ''q5.1'' ''Return reported'' Check_numeric
        ''metrics.return is a finite number'')
        \<lparr>gc_json_file := Some ''results/quant-result.json'',
         gc_json_path := Some ''metrics.return''\<rparr>,
      (catalog_check ''q5.2'' ''Volatility reported'' Check_numeric
        ''metrics.volatility is a finite number'')
        \<lparr>gc_json_file := Some ''results/quant-result.json'',
         gc_json_path := Some ''metrics.volatility''\<rparr>,
      (catalog_check ''q5.3'' ''Drawdown reported'' Check_numeric
        ''metrics.drawdown is a finite number'')
        \<lparr>gc_json_file := Some ''results/quant-result.json'',
         gc_json_path := Some ''metrics.drawdown''\<rparr>,
      (catalog_check ''q5.4'' ''Risk-adjusted metric reported'' Check_json
        ''at least one of sharpe/sortino/calmar/information_ratio is reported'')
        \<lparr>gc_json_file := Some ''results/quant-result.json'',
         gc_json_any_of := Some [''metrics.sharpe'', ''metrics.sortino'', ''metrics.calmar'', ''metrics.information_ratio'']\<rparr>,
      (catalog_check ''q5.5'' ''Turnover reported'' Check_numeric
        ''metrics.turnover is a finite number'')
        \<lparr>gc_json_file := Some ''results/quant-result.json'',
         gc_json_path := Some ''metrics.turnover''\<rparr>,
      (catalog_check ''q5.6'' ''Exposure reported'' Check_numeric
        ''metrics.exposure is a finite number'')
        \<lparr>gc_json_file := Some ''results/quant-result.json'',
         gc_json_path := Some ''metrics.exposure''\<rparr>,
      (catalog_check ''q5.7'' ''Benchmark delta reported'' Check_json
        ''metrics.benchmark_delta is present'')
        \<lparr>gc_json_file := Some ''results/quant-result.json'',
         gc_json_path := Some ''metrics.benchmark_delta''\<rparr>,
      (catalog_check ''q5.8'' ''Reporting completeness'' Check_manual
        [])
        \<lparr>gc_prompt := Some ''Evidence that pre/post-cost comparison, limitations and conclusion confidence level are stated.''\<rparr>]\<close>

definition catalog_gate :: "string \<Rightarrow> string \<Rightarrow> string \<Rightarrow> string list \<Rightarrow> gate_check list \<Rightarrow> string \<Rightarrow> gate" where
  "catalog_gate i title description prerequisites checks acceptance =
     \<lparr>ga_id = i, ga_title = title, ga_description = description, ga_profiles = [], ga_prerequisites = prerequisites,
      ga_required = True, ga_blocking = True, ga_evidence = [], ga_acceptance = acceptance, ga_checks = checks,
      ga_source = From_catalog\<rparr>"

definition base_gates :: "gate list" where
  \<open>base_gates =
     [(catalog_gate ''b0'' ''Project Readiness''
        ''Project root and entry point are identifiable, dependency configuration exists, required files exist, and recipe configuration is valid.''
        [] b0_checks
        ''The project is initialized: workbench config valid, entry point and dependencies identifiable, required files present.''),
      (catalog_gate ''b1'' ''Static Quality''
        ''Format, lint, typecheck and static analysis all pass on declared recipes.''
        [''b0''] b1_checks
        ''All static-quality recipes (format, lint, typecheck, static analysis) run with the expected exit codes.''),
      (catalog_gate ''b2'' ''Unit Correctness''
        ''Unit tests pass; boundary conditions and error paths are covered.''
        [''b1''] b2_checks
        ''Unit-test recipe passes and boundary/error-path coverage is evidenced.''),
      (catalog_gate ''b3'' ''Integration Correctness''
        ''Integration tests pass; CLI/API entry, config loading and the data read/write path work.''
        [''b2''] b3_checks
        ''Integration-test recipe passes and entry/config/data-path smoke evidence is provided.''),
      (catalog_gate ''b4'' ''Output Contract''
        ''Structured output (JSON/CSV/schema), CLI exit codes, artifact completeness, and human-vs-structured consistency.''
        [''b3''] b4_checks
        ''Output contract audits pass: exit codes, structured output consistency, artifact completeness.''),
      (catalog_gate ''b5'' ''Reproducibility and Handoff''
        ''Config snapshot, git state, seed, run command, documentation and open issues are recorded.''
        [''b4''] b5_checks
        ''Reproducibility snapshot and handoff documentation are complete.''),
      (catalog_gate ''b6'' ''Development Safety''
        ''Machine-backed development safety: direct development policy active, high-risk writes remain authorized, no pending or stale recovery review, reviewed binding is current, delegated paths stay within contract, no unexplained high-risk lease is active, and final verification is commander-initiated. Facts are injected by the runtime; the legacy worker-first check kind remains only for record compatibility, and model prose can never satisfy these checks.''
        [] b6_checks
        ''Development safety holds: ordinary writes remain direct, high-risk writes are authorized, delegation recovery state is clean, reviewed binding is current, delegated paths stay within contracts, no unexplained active lease exists, and final verification is Sol-initiated.'')]\<close>

definition quant_gates :: "gate list" where
  \<open>quant_gates =
     [(catalog_gate ''q0'' ''Research Contract''
        ''Strategy type, universe, time frequency, benchmark, signal/execution assumptions and acceptance criteria are declared.''
        [''b5''] q0_checks
        ''research/contract.json declares strategy type, universe, frequency, benchmark, signal/execution assumptions and acceptance criteria.'')
        \<lparr>ga_evidence := [''research/contract.json''], ga_profiles := quant_profiles\<rparr>,
      (catalog_gate ''q1'' ''Market Data Integrity''
        ''Time coverage, missing/duplicate records, timezone, adjustments, corporate actions, delisting, point-in-time and survivorship bias.''
        [''q0''] q1_checks
        ''The data pipeline runs and the integrity audits (coverage, adjustments, delisting, point-in-time, survivorship) are evidenced.''),
      (catalog_gate ''q2'' ''Backtest Semantics''
        ''No future functions, signal/execution timing consistency, rebalance semantics, cash and positions, costs and benchmark alignment.''
        [''q1''] q2_checks
        ''The backtest runs, output conforms to the quant-result contract, timing is declared, and the semantic audits are evidenced.'')
        \<lparr>ga_evidence := [''results/quant-result.json'']\<rparr>,
      (catalog_gate ''q3'' ''Experiment Integrity''
        ''Train/validation/test or walk-forward split, search space, seed, baseline and full trial records (never best-only).''
        [''q2''] q3_checks
        ''The split method is declared, multiple folds are recorded, and seed/baseline/search-space/full-reporting audits are evidenced.'')
        \<lparr>ga_evidence := [''results/quant-result.json'']\<rparr>,
      (catalog_gate ''q4'' ''Out-of-Sample Robustness''
        ''Out-of-sample evaluation, parameter stability, market-stage coverage, cost sensitivity, multiple folds, failed folds not hidden.''
        [''q3''] q4_checks
        ''Out-of-sample range and multi-fold evaluation are recorded and robustness audits are evidenced.'')
        \<lparr>ga_evidence := [''results/quant-result.json'']\<rparr>,
      (catalog_gate ''q5'' ''Strategy Reporting''
        ''Return, volatility, drawdown, risk-adjusted metric, turnover, exposure, benchmark delta, pre/post cost, limitations and conclusion confidence.''
        [''q4''] q5_checks
        ''All required metrics are reported as finite numbers and the reporting audit is evidenced.'')
        \<lparr>ga_evidence := [''results/quant-result.json'']\<rparr>]\<close>

definition gate_catalog :: "gate list" where
  "gate_catalog = base_gates @ quant_gates"


subsection \<open>What every project keeps\<close>

lemma put_gate_ids: "map ga_id (put_gate g gs) = (if ga_id g \<in> set (map ga_id gs) then map ga_id gs else map ga_id gs @ [ga_id g])"
  by (induction gs) auto

lemma put_gate_distinct: "distinct (map ga_id gs) \<Longrightarrow> distinct (map ga_id (put_gate g gs))"
  by (simp add: put_gate_ids)

lemma put_gate_set: "set (put_gate g gs) \<subseteq> insert g (set gs)"
  by (induction gs) auto

lemma put_gate_other: "ga_id g \<noteq> i \<Longrightarrow> gate_named (put_gate g gs) i = gate_named gs i"
  unfolding gate_named_def by (induction gs) auto

lemma gate_named_Some: "gate_named gs i = Some g \<Longrightarrow> g \<in> set gs \<and> ga_id g = i"
  by (auto simp: gate_named_def find_Some_iff)

lemma fold_put_gate_distinct: "distinct (map ga_id gs) \<Longrightarrow> distinct (map ga_id (fold put_gate hs gs))"
  by (induction hs arbitrary: gs) (simp_all add: put_gate_distinct)

lemma merge_gates_distinct: "merge_gates known hs = Inr gs \<Longrightarrow> distinct (map ga_id known) \<Longrightarrow> distinct (map ga_id gs)"
  by (induction known hs rule: merge_gates.induct) (auto simp: put_gate_distinct split: if_splits)

text \<open>The reserved gate stays what the catalog declares, whatever the project adds.\<close>

lemma merge_gates_reserved:
  "merge_gates known hs = Inr gs \<Longrightarrow> gate_named known ''b6'' = Some g \<Longrightarrow> ga_source g = From_catalog \<Longrightarrow>
   gate_named gs ''b6'' = Some g"
  by (induction known hs rule: merge_gates.induct) (auto simp: put_gate_other split: if_splits)

lemma gate_named_member: "distinct (map ga_id gs) \<Longrightarrow> gate_named gs i = Some g \<longleftrightarrow> g \<in> set gs \<and> ga_id g = i"
proof
  assume d: "distinct (map ga_id gs)" and g: "g \<in> set gs \<and> ga_id g = i"
  then have "h = g" if "h \<in> set gs" "ga_id h = i" for h
    using that by (metis distinct_map inj_onD)
  then show "gate_named gs i = Some g"
    using g unfolding gate_named_def by (metis (mono_tags, lifting) find_None_iff find_Some_iff nth_mem option.exhaust)
qed (auto dest: gate_named_Some)

lemma gate_by_id_named: "distinct (map ga_id gs) \<Longrightarrow> gate_by_id gs i = gate_named gs i"
proof -
  assume d: "distinct (map ga_id gs)"
  have "gate_by_id gs i = Some g \<longleftrightarrow> (i, g) \<in> set (map (\<lambda>g. (ga_id g, g)) gs)" for g
    unfolding gate_by_id_def using d by (subst map_of_eq_Some_iff) (simp_all add: comp_def rev_map[symmetric])
  then have "gate_by_id gs i = Some g \<longleftrightarrow> gate_named gs i = Some g" for g
    unfolding gate_named_member[OF d] by auto
  then show ?thesis by (metis not_None_eq)
qed

lemma effective_gates_distinct: "effective_gates profile catalog project = Inr gs \<Longrightarrow> distinct (map ga_id gs)"
proof -
  assume "effective_gates profile catalog project = Inr gs"
  then obtain hs where hs: "merge_gates (fold put_gate catalog []) project = Inr hs"
    and gs: "gs = sort_key ga_id (filter (loads_for_profile profile) hs)"
    by (auto simp: effective_gates_def split: sum.splits)
  have "distinct (map ga_id hs)" using merge_gates_distinct[OF hs] fold_put_gate_distinct[of "[]"] by simp
  then have "distinct (map ga_id (filter (loads_for_profile profile) hs))" by (rule distinct_map_filter)
  then show ?thesis unfolding gs by (simp add: distinct_map)
qed

lemma effective_gates_reserved:
  assumes e: "effective_gates profile catalog project = Inr gs"
    and c: "gate_named (fold put_gate catalog []) ''b6'' = Some g" "ga_source g = From_catalog" "ga_profiles g = []"
  shows "gate_named gs ''b6'' = Some g"
proof -
  from e obtain hs where hs: "merge_gates (fold put_gate catalog []) project = Inr hs"
    and gs: "gs = sort_key ga_id (filter (loads_for_profile profile) hs)"
    by (auto simp: effective_gates_def split: sum.splits)
  have "gate_named hs ''b6'' = Some g" by (rule merge_gates_reserved[OF hs c(1,2)])
  then have g: "g \<in> set hs" "ga_id g = ''b6''" by (auto dest: gate_named_Some)
  then have "loads_for_profile profile g" using c(3) by (simp add: loads_for_profile_def quant_gate_id_re_def starts_with_def)
  with g have "g \<in> set gs" by (simp add: gs)
  then show ?thesis using g(2) gate_named_member[OF effective_gates_distinct[OF e]] by simp
qed

definition safety_gate :: gate where
  "safety_gate = base_gates ! 6"

lemma catalog_ids: "map ga_id gate_catalog = [''b0'', ''b1'', ''b2'', ''b3'', ''b4'', ''b5'', ''b6'', ''q0'', ''q1'', ''q2'', ''q3'', ''q4'', ''q5'']"
  by (simp add: gate_catalog_def base_gates_def quant_gates_def catalog_gate_def)

lemma fold_put_fresh: "distinct (map ga_id (gs @ hs)) \<Longrightarrow> fold put_gate hs gs = gs @ hs"
proof (induction hs arbitrary: gs)
  case (Cons h hs)
  have "ga_id h \<notin> ga_id ` set gs \<Longrightarrow> put_gate h gs = gs @ [h]" by (induction gs) auto
  then have "put_gate h gs = gs @ [h]" using Cons.prems by auto
  then show ?case using Cons.IH[of "gs @ [h]"] Cons.prems by simp
qed simp

lemma catalog_kept: "fold put_gate gate_catalog [] = gate_catalog"
proof -
  have "distinct (map ga_id ([] @ gate_catalog))" unfolding append_Nil catalog_ids by simp
  from fold_put_fresh[OF this] show ?thesis by simp
qed

lemma safety_gate_facts:
  "ga_id safety_gate = ''b6''" "ga_source safety_gate = From_catalog" "ga_profiles safety_gate = []"
  "ga_prerequisites safety_gate = []" "ga_required safety_gate" "ga_checks safety_gate = b6_checks"
  by (simp_all add: safety_gate_def base_gates_def catalog_gate_def)

lemma catalog_safety_gate: "gate_named gate_catalog ''b6'' = Some safety_gate"
  by (simp add: gate_named_def gate_catalog_def base_gates_def catalog_gate_def safety_gate_def)

text \<open>The reserved safety gate is in every project's ladder, exactly as the catalog declares it.\<close>

lemma effective_safety_gate:
  "effective_gates profile gate_catalog project = Inr gs \<Longrightarrow> gate_named gs ''b6'' = Some safety_gate"
  using effective_gates_reserved catalog_kept catalog_safety_gate safety_gate_facts by metis

end
