(* ===== verification/Gate_Check.thy ===== *)
theory Gate_Check
  imports Canonical_Hash Mode_Policy Gate_Catalog
begin

section \<open>Evaluating one check (core/gate-engine.ts)\<close>

text \<open>
  A check is evaluated against the context of the run. The store, recipe runner, file system and
  schema validators that the engine calls are functions of the context; each takes the point of the
  run (gate id, check id) it is called from, since its answer may change between calls. An outcome is a
  verdict, the setup error that stops the whole run, or another exception, which becomes a FAIL. The
  dash and the ellipsis of the assertion messages are outside the characters of the model and are
  written with a hyphen and three dots.
\<close>

subsection \<open>Evidence and entries\<close>

datatype evidence_type =
    Ev_config | Ev_recipe_run | Ev_artifact | Ev_file | Ev_json | Ev_numeric | Ev_manual | Ev_schema | Ev_worker_first

primrec evidence_type_text :: "evidence_type \<Rightarrow> string" where
  "evidence_type_text Ev_config = ''config''"
| "evidence_type_text Ev_recipe_run = ''recipe_run''"
| "evidence_type_text Ev_artifact = ''artifact''"
| "evidence_type_text Ev_file = ''file''"
| "evidence_type_text Ev_json = ''json''"
| "evidence_type_text Ev_numeric = ''numeric''"
| "evidence_type_text Ev_manual = ''manual''"
| "evidence_type_text Ev_schema = ''schema''"
| "evidence_type_text Ev_worker_first = ''worker_first''"

record evidence_entry =
  ev_type :: evidence_type
  ev_source :: "string option"
  ev_detail :: string
  ev_run_id :: "string option"
  ev_recipe :: "string option"
  ev_exit_code :: "int option option"
  ev_execution :: "string option"
  ev_paths :: "string list option"
  ev_check_id :: "string option"
  ev_provided_by :: "string option"
  ev_digest :: "string option"
  ev_freshness :: "string option"
  ev_errors :: "string list option"
  ev_warnings :: "string list option"
  ev_artifact :: "string option"

definition evidence_of :: "evidence_type \<Rightarrow> string \<Rightarrow> evidence_entry" where
  "evidence_of t detail =
     \<lparr>ev_type = t, ev_source = None, ev_detail = detail, ev_run_id = None, ev_recipe = None, ev_exit_code = None,
      ev_execution = None, ev_paths = None, ev_check_id = None, ev_provided_by = None, ev_digest = None,
      ev_freshness = None, ev_errors = None, ev_warnings = None, ev_artifact = None\<rparr>"

definition sourced :: "evidence_type \<Rightarrow> string \<Rightarrow> string \<Rightarrow> evidence_entry" where
  "sourced t source detail = (evidence_of t detail)\<lparr>ev_source := Some source\<rparr>"

definition run_evidence :: "string \<Rightarrow> string \<Rightarrow> string list \<Rightarrow> string \<Rightarrow> evidence_entry" where
  "run_evidence run recipe paths detail =
     (evidence_of Ev_artifact detail)\<lparr>ev_run_id := Some run, ev_recipe := Some recipe, ev_paths := Some paths\<rparr>"

text \<open>The part of an entry that decides the status of its gate, and the whole entry.\<close>

record check_facts =
  ce_check :: string
  ce_status :: gate_status
  ce_required :: bool
  ce_blocking :: bool
  ce_failure :: "string option"
  ce_blocked :: "string option"
  ce_warnings :: "string list"

record check_entry = check_facts +
  ce_gate :: string
  ce_kind :: check_kind
  ce_evidence :: "evidence_entry list"
  ce_started :: int
  ce_finished :: int

subsection \<open>The context of a run\<close>

datatype provenance = User_command | Model_tool

record recipe_decl =
  rd_name :: string
  rd_modes :: "wb_mode list"
  rd_mutation :: recipe_mutation

record recipe_record =
  rr_run_id :: string
  rr_exit_code :: "int option"
  rr_source :: "string option"
  rr_timed_out :: bool

text \<open>\<open>RunRecipeResult\<close>; the last field is the path of the copied run summary, when it could be copied.\<close>

record recipe_result =
  rx_ok :: bool
  rx_error :: "string option"
  rx_record :: "recipe_record option"
  rx_stderr :: "string option"
  rx_copied :: "string option"

record run_manifest =
  rm_run_id :: string
  rm_recipe :: string
  rm_outcome :: "string option"
  rm_exit_code :: "int option"
  rm_expected :: "int list"
  rm_timed_out :: bool
  rm_cancelled :: bool
  rm_argv_hash :: "string option"
  rm_artifacts :: "string list"
  rm_validation :: jv

datatype run_attempt = No_attempt | Corrupt_attempt string string | Attempt run_manifest

record committed_artifact =
  ca_path :: string
  ca_root :: "string option"
  ca_current :: bool

datatype json_read = Json_value jv | Json_missing | Json_oversized | Json_not_regular | Json_invalid | Json_failed

record schema_verdict =
  sv_valid :: bool
  sv_status :: string
  sv_cacheable :: bool
  sv_errors :: "string list"
  sv_warnings :: "string list"
  sv_failed_folds :: "string list"

type_synonym run_point = "string \<times> string"

record check_context =
  cx_project_root :: string
  cx_effective_root :: string
  cx_config_issues :: "(string \<times> string) list"
  cx_recipes :: "recipe_decl list"
  cx_mode :: wb_mode
  cx_manual :: "(string \<times> string) list"
  cx_provenance :: provenance
  cx_facts :: "safety_facts option"
  cx_actor :: "actor_facts option"
  cx_check_times :: "run_point \<Rightarrow> int \<times> int"
  cx_gate_times :: "string \<Rightarrow> int \<times> int"
  cx_run_recipe :: "run_point \<Rightarrow> string \<Rightarrow> string + recipe_result"
  cx_latest_attempt :: "run_point \<Rightarrow> string \<Rightarrow> run_attempt"
  cx_committed :: "run_point \<Rightarrow> string \<Rightarrow> run_manifest option"
  cx_identity :: "jv \<Rightarrow> string option"
  cx_eligible :: "jv \<Rightarrow> string \<Rightarrow> string option \<Rightarrow> bool"
  cx_artifacts :: "run_point \<Rightarrow> string \<Rightarrow> string + committed_artifact list"
  cx_glob_match :: "string \<Rightarrow> string \<Rightarrow> bool"
  cx_source_refused :: "run_point \<Rightarrow> recipe_decl \<Rightarrow> run_manifest \<Rightarrow> string list option"
  cx_contained :: "run_point \<Rightarrow> string \<Rightarrow> string \<Rightarrow> string option"
  cx_files :: "run_point \<Rightarrow> string \<Rightarrow> string \<Rightarrow> string list"
  cx_read_json :: "run_point \<Rightarrow> string \<Rightarrow> json_read"
  cx_schema :: "string \<Rightarrow> jv \<Rightarrow> schema_verdict"

datatype check_outcome =
    Verdict gate_status "evidence_entry list" "string option" "string option" "string list" "string list"
  | Setup_error string
  | Raised string

definition passed :: "evidence_entry list \<Rightarrow> string list \<Rightarrow> check_outcome" where
  "passed ev artifacts = Verdict Gate_PASS ev None None [] artifacts"

definition failed :: "string \<Rightarrow> evidence_entry list \<Rightarrow> string list \<Rightarrow> check_outcome" where
  "failed reason ev artifacts = Verdict Gate_FAIL ev (Some reason) None [] artifacts"

definition blocked :: "string \<Rightarrow> check_outcome" where
  "blocked reason = Verdict Gate_BLOCKED [] None (Some reason) [] []"

definition not_run :: "string option \<Rightarrow> check_outcome" where
  "not_run reason = Verdict Gate_NOT_RUN [] reason None [] []"

subsection \<open>Property reads through the prototype\<close>

definition object_method_names :: "string list" where
  "object_method_names = [''constructor'', ''__defineGetter__'', ''__defineSetter__'', ''hasOwnProperty'',
     ''__lookupGetter__'', ''__lookupSetter__'', ''isPrototypeOf'', ''propertyIsEnumerable'', ''toString'', ''valueOf'',
     ''toLocaleString'']"

definition array_method_names :: "string list" where
  "array_method_names = [''at'', ''concat'', ''copyWithin'', ''fill'', ''find'', ''findIndex'', ''findLast'',
     ''findLastIndex'', ''lastIndexOf'', ''pop'', ''push'', ''reverse'', ''shift'', ''unshift'', ''slice'', ''sort'',
     ''splice'', ''includes'', ''indexOf'', ''join'', ''keys'', ''entries'', ''values'', ''forEach'', ''filter'', ''flat'',
     ''flatMap'', ''map'', ''every'', ''some'', ''reduce'', ''reduceRight'', ''toReversed'', ''toSorted'', ''toSpliced'',
     ''with'']"

definition function_value :: jv where "function_value = JExotic ''function''"
definition object_prototype :: jv where "object_prototype = JExotic ''Object.prototype''"
definition array_prototype :: jv where "array_prototype = JExotic ''Array.prototype''"

definition inherited :: "string \<Rightarrow> jv" where
  "inherited k =
     (if k \<in> set object_method_names then function_value else if k = ''__proto__'' then object_prototype else JUndef)"

text \<open>An array index is a decimal numeral without leading zeros.\<close>

definition array_index :: "string \<Rightarrow> nat option" where
  "array_index k =
     (if k \<noteq> [] \<and> list_all is_digit k \<and> nat_text (decimal_value 0 k) = k then Some (decimal_value 0 k) else None)"

definition json_member :: "jv \<Rightarrow> string \<Rightarrow> jv" where
  "json_member v k =
     (case v of
        JObj f \<Rightarrow> (case map_of f k of Some x \<Rightarrow> x | None \<Rightarrow> inherited k)
      | JArr vs \<Rightarrow>
          (case array_index k of
             Some i \<Rightarrow> if i < length vs then vs ! i else JUndef
           | None \<Rightarrow> if k \<in> set array_method_names then function_value
                     else if k = ''__proto__'' then array_prototype else inherited k)
      | _ \<Rightarrow>
          if v = array_prototype then
            (if k \<in> set array_method_names then function_value else if k = ''length'' then JNum (JInt 0) else inherited k)
          else if v = object_prototype then (if k = ''__proto__'' then JNull else inherited k)
          else inherited k)"

fun is_array :: "jv \<Rightarrow> bool" where
  "is_array (JArr vs) = True"
| "is_array v = (v = array_prototype)"

fun array_length :: "jv \<Rightarrow> nat" where
  "array_length (JArr vs) = length vs"
| "array_length v = 0"

fun resolve_segments :: "jv \<Rightarrow> string list \<Rightarrow> jv option" where
  "resolve_segments cur [] = (if cur = JUndef then None else Some cur)"
| "resolve_segments cur (seg # segs) =
     (if cur = JNull \<or> cur = JUndef then None
      else if seg = ''length'' \<and> is_array cur then resolve_segments (JNum (JInt (int (array_length cur)))) segs
      else if \<not> is_js_object cur then None
      else resolve_segments (json_member cur seg) segs)"

definition resolve_json_path :: "jv \<Rightarrow> string \<Rightarrow> jv option" where
  "resolve_json_path v path = resolve_segments v (filter (\<lambda>s. s \<noteq> []) (split_on (CHR ''.'') path))"

subsection \<open>What JSON.stringify keeps\<close>

fun stringifies :: "jv \<Rightarrow> bool" where
  "stringifies JUndef = False"
| "stringifies (JExotic k) = (k \<notin> {''function'', ''symbol''})"
| "stringifies v = True"

primrec json_clean :: "jv \<Rightarrow> jv" where
  "json_clean JUndef = JNull"
| "json_clean JNull = JNull"
| "json_clean (JBool b) = JBool b"
| "json_clean (JNum n) = (case n of JNaN \<Rightarrow> JNull | JInf b \<Rightarrow> JNull | _ \<Rightarrow> JNum n)"
| "json_clean (JStr s) = JStr s"
| "json_clean (JArr vs) = JArr (map json_clean vs)"
| "json_clean (JObj kvs) = JObj (map snd (filter fst (map (\<lambda>((k, v), c). (stringifies v, (k, c))) (zip kvs (map snd (map (map_prod id json_clean) kvs))))))"
| "json_clean (JExotic k) = (if k = ''function'' \<or> k = ''symbol'' then JNull else JObj [])"

definition type_name :: "jv \<Rightarrow> string" where
  "type_name v =
     (case v of JNull \<Rightarrow> ''null'' | JArr vs \<Rightarrow> ''array'' | JUndef \<Rightarrow> ''undefined'' | JBool b \<Rightarrow> ''boolean''
      | JNum n \<Rightarrow> ''number'' | JStr s \<Rightarrow> ''string'' | JObj f \<Rightarrow> ''object''
      | JExotic k \<Rightarrow> if is_array v then ''array'' else if is_js_object v then ''object'' else k)"

definition json_value_facts :: "jv \<Rightarrow> string" where
  "json_value_facts v =
     (if \<not> stringifies v \<or> v = JExotic ''bigint''
      then ''type='' @ type_name v @ '', json_bytes=unavailable, sha256=unavailable''
      else let t = (if v = array_prototype then ''[]'' else print_value (json_clean v))
           in ''type='' @ type_name v @ '', json_bytes='' @ nat_text (byte_length t) @ '', sha256='' @ sha256_hex t)"

text \<open>\<open>isDeepStrictEqual\<close> on decoded JSON: equal up to the order of object keys.\<close>

definition deep_equal :: "jv \<Rightarrow> jv \<Rightarrow> bool" where
  "deep_equal a b = (sort_keys a = sort_keys b)"

subsection \<open>Manual evidence\<close>

text \<open>
  \<open>trimmedManualEvidence\<close>: own text entries, trimmed, the blank ones dropped. Writing the key
  \<open>__proto__\<close> sets the prototype, which ignores a text.
\<close>

definition trimmed_manual_evidence :: "fields \<Rightarrow> (string \<times> string) list" where
  "trimmed_manual_evidence raw =
     List.map_filter (\<lambda>(k, v). case v of
        JStr s \<Rightarrow> if js_trim s = [] \<or> k = ''__proto__'' then None else Some (k, js_trim s)
      | _ \<Rightarrow> None) raw"

text \<open>Reading a note: an id that names a member of \<open>Object.prototype\<close> finds that member.\<close>

definition manual_note :: "(string \<times> string) list \<Rightarrow> string \<Rightarrow> jv" where
  "manual_note notes k = (case map_of notes k of Some s \<Rightarrow> JStr s | None \<Rightarrow> inherited k)"

definition evaluate_manual :: "check_context \<Rightarrow> gate_check \<Rightarrow> check_outcome" where
  "evaluate_manual cx c =
     (case manual_note (cx_manual cx) (gc_id c) of
        JUndef \<Rightarrow> not_run None
      | JStr s \<Rightarrow>
          if js_trim s = [] \<or> cx_provenance cx \<noteq> User_command then not_run None
          else passed [(evidence_of Ev_manual (js_trim s))
                         \<lparr>ev_check_id := Some (gc_id c), ev_provided_by := Some ''user-command''\<rparr>] []
      | _ \<Rightarrow> Raised ''note.trim is not a function'')"

subsection \<open>Development-safety assertions\<close>

primrec lease_state_text :: "lease_state \<Rightarrow> string" where
  "lease_state_text Lease_locked = ''locked''"
| "lease_state_text Lease_pending = ''pending''"
| "lease_state_text Lease_active = ''active''"
| "lease_state_text Lease_expired = ''expired''"
| "lease_state_text Lease_exhausted = ''exhausted''"
| "lease_state_text Lease_revoked = ''revoked''"

definition delegation_name :: "safety_facts \<Rightarrow> string" where
  "delegation_name f = (case sf_latest_delegation f of Some i \<Rightarrow> i | None \<Rightarrow> ''?'')"

fun evaluate_assertion :: "safety_check \<Rightarrow> safety_facts \<Rightarrow> gate_status \<times> string" where
  "evaluate_assertion Strict_policy_active f =
     (if sf_write_policy f = Some Worker_first_strict
      then (Gate_PASS, ''development-first direct-write policy is active (legacy compatibility id worker-first-strict)'')
      else (Gate_FAIL, ''worker-first-strict policy is not active for this actor (got not applicable)''))"
| "evaluate_assertion No_unauthorized_writes f =
     (if sf_writes_denied f = Some True
      then (Gate_PASS, ''high-risk commander writes require an explicit lease; ordinary project writes remain direct'')
      else case sf_blocked_attempts f of
        Some n \<Rightarrow>
          if n = 0 then (Gate_PASS, ''zero unauthorized commander write attempts'')
          else if n > 0 then (Gate_FAIL, int_text n @ '' unauthorized commander write attempt(s) while the hard denial was inactive'')
          else (Gate_NOT_RUN, ''no hard-denial / blocked-write fact injected'')
      | None \<Rightarrow> (Gate_NOT_RUN, ''no hard-denial / blocked-write fact injected''))"
| "evaluate_assertion No_pending_review f =
     (if sf_has_delegation f = Some False then (Gate_PASS, ''no delegation - nothing pending'')
      else case sf_review_status f of
        None \<Rightarrow> (Gate_NOT_RUN, ''no review-status fact injected'')
      | Some st \<Rightarrow>
          if st = PENDING_REVIEW
          then (Gate_FAIL, ''delegation '' @ delegation_name f @ '' is PENDING_REVIEW - review the worker diff first'')
          else (Gate_PASS, ''latest delegation '' @ delegation_name f @ '' is '' @ review_status_text st))"
| "evaluate_assertion No_stale_review f =
     (if sf_has_delegation f = Some False then (Gate_PASS, ''no delegation - nothing stale'')
      else case sf_review_status f of
        None \<Rightarrow> (Gate_NOT_RUN, ''no review-status fact injected'')
      | Some st \<Rightarrow>
          if st = STALE
          then (Gate_FAIL, ''delegation '' @ delegation_name f @ '' is STALE - the diff changed since the review'')
          else (Gate_PASS, ''latest delegation '' @ delegation_name f @ '' is '' @ review_status_text st))"
| "evaluate_assertion Reviewed_hash_current f =
     (if sf_has_delegation f = Some False then (Gate_PASS, ''no delegation - nothing reviewed yet'')
      else if sf_review_status f = Some PENDING_REVIEW
      then (Gate_NOT_RUN, ''no reviewed hash yet - the delegation is PENDING_REVIEW'')
      else case (sf_reviewed_hash f, sf_current_hash f) of
        (Some r, Some c) \<Rightarrow>
          if r = c then (Gate_PASS, ''reviewed hash '' @ take 12 r @ ''... equals the current diff hash'')
          else (Gate_FAIL, ''reviewed hash '' @ take 12 r @ ''... differs from the current diff hash '' @ take 12 c @ ''...'')
      | _ \<Rightarrow> (Gate_NOT_RUN, ''reviewed/current diff-hash facts not injected''))"
| "evaluate_assertion Worker_paths_contained f =
     (if sf_has_delegation f = Some False then (Gate_PASS, ''no delegation - no worker paths to check'')
      else if sf_review_verdict f = None \<and> sf_violations f = None then (Gate_NOT_RUN, ''no completed review facts injected'')
      else let n = (case sf_violations f of Some n \<Rightarrow> n | None \<Rightarrow> 0)
           in if sf_review_verdict f = Some True \<and> n = 0
              then (Gate_PASS, ''latest review PASS - every worker path is within the approved contracts'')
              else (Gate_FAIL, int_text n @ '' worker path(s) outside the approved contracts (latest review ''
                      @ (if sf_review_verdict f = Some True then ''PASS'' else ''FAIL'') @ '')''))"
| "evaluate_assertion No_unexplained_lease f =
     (case sf_lease_status f of
        None \<Rightarrow> (Gate_NOT_RUN, ''no lease-status fact injected'')
      | Some st \<Rightarrow>
          if st = Lease_active then
            (case sf_lease_reason f of
               Some r \<Rightarrow> (Gate_PASS, ''active lease with audited fixed reason '' @ lease_reason_text r)
             | None \<Rightarrow> (Gate_FAIL, ''an active commander write lease has no audited fixed reason''))
          else (Gate_PASS, ''write lease is '' @ lease_state_text st))"
| "evaluate_assertion Commander_verification f =
     (case sf_by_commander f of
        None \<Rightarrow> (Gate_NOT_RUN, ''no gate-run initiator fact injected'')
      | Some b \<Rightarrow>
          if b then (Gate_PASS, ''this gate run was initiated by the approved GPT-5.6 Sol commander'')
          else (Gate_FAIL, ''this gate run was not initiated by the approved Sol commander - final verification is a commander-owned act''))"

definition check_label :: "string \<Rightarrow> gate_check \<Rightarrow> string" where
  "check_label gid c = ''gate '' @ quoted gid @ '' check '' @ quoted (gc_id c)"

definition evaluate_safety :: "check_context \<Rightarrow> string \<Rightarrow> gate_check \<Rightarrow> check_outcome" where
  "evaluate_safety cx gid c =
     (case gc_safety c of
        None \<Rightarrow> Setup_error (check_label gid c @ '': kind=worker-first needs a valid '' @ quoted ''worker_first''
                  @ '' assertion (one of '' @ join_with '', '' (map safety_check_text safety_checks) @ '')'')
      | Some name \<Rightarrow>
          (case cx_facts cx of
             None \<Rightarrow> not_run None
           | Some f \<Rightarrow>
               if sf_blocked_reason f \<noteq> None \<and> sf_blocked_reason f \<noteq> Some []
               then blocked (the (sf_blocked_reason f))
               else
                 (case evaluate_assertion name f of
                    (Gate_PASS, d) \<Rightarrow> passed [evidence_of Ev_worker_first d] []
                  | (Gate_FAIL, d) \<Rightarrow> failed d [evidence_of Ev_worker_first d] []
                  | (_, d) \<Rightarrow> not_run (Some d))))"


subsection \<open>Recipes and artifacts\<close>

definition opt_list :: "'a option \<Rightarrow> 'a list" where
  "opt_list x = (case x of None \<Rightarrow> [] | Some y \<Rightarrow> [y])"

definition gate_recipe_block :: "check_context \<Rightarrow> recipe_decl \<Rightarrow> string option" where
  "gate_recipe_block cx r =
     (case recipe_mutation_block (cx_project_root cx) (cx_actor cx) (rd_mutation r) [] None of
        None \<Rightarrow> None
      | Some Sol_source_recipe \<Rightarrow>
          Some (''Worker-first write authority denies recipe '' @ quoted (rd_name r)
            @ '' for the strict Sol commander: it declares mutation: source; strict Sol runs only mutation: none and mutation: artifacts recipes - delegate source-mutating implementation to workbench_delegate_worker'')
      | Some _ \<Rightarrow>
          Some (''Delegated worker cannot run mutating recipe '' @ quoted (rd_name r)
            @ '': immutable task-kind and allowed-path authority are unavailable''))"

definition exit_text :: "recipe_record option \<Rightarrow> string \<Rightarrow> string \<Rightarrow> string" where
  "exit_text rr missing none_text =
     (case rr of None \<Rightarrow> missing | Some r \<Rightarrow> (case rr_exit_code r of Some n \<Rightarrow> int_text n | None \<Rightarrow> none_text))"

definition recipe_detail :: "recipe_decl \<Rightarrow> recipe_result \<Rightarrow> string" where
  "recipe_detail r x =
     ''recipe '' @ quoted (rd_name r)
     @ (if rx_ok x then '' exited '' @ exit_text (rx_record x) ''undefined'' ''null'' @ '' as expected''
        else '' failed (exit '' @ exit_text (rx_record x) ''killed'' ''killed'' @ '', timed_out=''
          @ (case rx_record x of None \<Rightarrow> ''undefined'' | Some rr \<Rightarrow> if rr_timed_out rr then ''true'' else ''false'') @ '')'')"

definition recipe_evidence :: "recipe_decl \<Rightarrow> recipe_result \<Rightarrow> evidence_entry" where
  "recipe_evidence r x =
     (evidence_of Ev_recipe_run (recipe_detail r x))
       \<lparr>ev_run_id := map_option rr_run_id (rx_record x), ev_recipe := Some (rd_name r),
        ev_exit_code := Some (Option.bind (rx_record x) rr_exit_code),
        ev_execution := Some (case Option.bind (rx_record x) rr_source of Some s \<Rightarrow> s | None \<Rightarrow> ''exec''),
        ev_artifact := rx_copied x\<rparr>"

definition evaluate_recipe :: "check_context \<Rightarrow> string \<Rightarrow> gate_check \<Rightarrow> check_outcome" where
  "evaluate_recipe cx gid c =
     (let candidates = (case gc_recipe c of Some r \<Rightarrow> [r] | None \<Rightarrow> (case gc_recipes c of Some rs \<Rightarrow> rs | None \<Rightarrow> []))
      in case find (\<lambda>r. rd_name r \<in> set candidates) (cx_recipes cx) of
           None \<Rightarrow>
             failed (''no declared recipe among: '' @ join_with '', '' candidates)
               [sourced Ev_config ''.pi/workbench/recipes.yaml'' (''none of '' @ join_with '', '' candidates @ '' is declared'')] []
         | Some r \<Rightarrow>
             if cx_mode cx \<notin> set (rd_modes r)
             then blocked (''recipe '' @ quoted (rd_name r) @ '' is not allowed in '' @ wb_mode_text (cx_mode cx) @ '' mode'')
             else (case gate_recipe_block cx r of
               Some why \<Rightarrow> blocked why
             | None \<Rightarrow>
                (case cx_run_recipe cx (gid, gc_id c) (rd_name r) of
                   Inl m \<Rightarrow> Raised m
                 | Inr x \<Rightarrow>
                     (case (rx_ok x, rx_error x) of
                        (False, Some (e # es)) \<Rightarrow>
                          failed (''recipe '' @ quoted (rd_name r) @ '' could not run: '' @ (e # es))
                            [(evidence_of Ev_recipe_run (e # es))\<lparr>ev_recipe := Some (rd_name r)\<rparr>] []
                      | _ \<Rightarrow>
                         let warnings = (case rx_stderr x of Some t \<Rightarrow> if js_trim t = [] then []
                                           else [''recipe '' @ quoted (rd_name r) @ '' wrote to stderr''] | None \<Rightarrow> [])
                         in if rx_ok x
                            then Verdict Gate_PASS [recipe_evidence r x] None None warnings (opt_list (rx_copied x))
                            else Verdict Gate_FAIL [recipe_evidence r x] (Some (recipe_detail r x)) None warnings
                                   (opt_list (rx_copied x))))))"

definition successful_run :: "run_manifest \<Rightarrow> bool" where
  "successful_run m =
     (rm_outcome m = Some ''SUCCESS''
      \<and> (case rm_exit_code m of None \<Rightarrow> False | Some n \<Rightarrow> n \<in> set (rm_expected m))
      \<and> \<not> rm_timed_out m \<and> \<not> rm_cancelled m)"

definition artifact_path :: "committed_artifact \<Rightarrow> string" where
  "artifact_path a = (case ca_root a of None \<Rightarrow> ca_path a | Some r \<Rightarrow> ''external:'' @ r @ ''/'' @ ca_path a)"

text \<open>
  The newest attempt of the recipe decides: its committed identity, outcome, validation authority and
  artifacts are checked, and current artifacts need a reusable source.
\<close>

definition artifact_authority ::
  "check_context \<Rightarrow> string \<Rightarrow> gate_check \<Rightarrow> string \<Rightarrow> run_manifest \<Rightarrow> run_manifest \<Rightarrow> committed_artifact list \<Rightarrow> string \<Rightarrow> check_outcome" where
  "artifact_authority cx gid c recipe m strict artifacts dig =
     (let matched = (case gc_artifact_glob c of
             Some g \<Rightarrow> filter (\<lambda>a. cx_glob_match cx (artifact_path a) g) artifacts | None \<Rightarrow> artifacts);
          current = list_ex ca_current matched;
          paths = map artifact_path matched;
          accepted = passed [(run_evidence (rm_run_id m) recipe paths
                        (''run '' @ rm_run_id m @ '' artifacts: '' @ join_with '', '' paths))
                        \<lparr>ev_digest := Some dig,
                         ev_freshness := Some (if current then ''current'' else ''immutable-snapshot'')\<rparr>] []
      in if matched = [] then
           failed (''run '' @ rm_run_id m @ '' of '' @ quoted recipe @ '' produced no matching artifacts''
                    @ (case gc_artifact_glob c of Some g \<Rightarrow> '' (glob: '' @ g @ '')'' | None \<Rightarrow> []))
             [run_evidence (rm_run_id m) recipe (rm_artifacts m) ''no matching artifacts''] []
         else if \<not> current then accepted
         else (case find (\<lambda>r. rd_name r = recipe) (cx_recipes cx) of
             None \<Rightarrow> failed (''artifact source recipe '' @ quoted recipe @ '' is not currently declared'')
               [run_evidence (rm_run_id strict) recipe (rm_artifacts strict) ''source recipe missing from current trusted config''] []
           | Some r \<Rightarrow>
               (case cx_source_refused cx (gid, gc_id c) r strict of
                  None \<Rightarrow> accepted
                | Some reasons \<Rightarrow>
                    failed (''run '' @ rm_run_id strict @ '' of '' @ quoted recipe @ '' is not current reusable authority'')
                      [run_evidence (rm_run_id strict) recipe (rm_artifacts strict)
                         (''source validation refused: ''
                            @ (if join_with '','' reasons = [] then ''unknown'' else join_with '','' reasons))] [])))"

definition evaluate_artifact :: "check_context \<Rightarrow> string \<Rightarrow> gate_check \<Rightarrow> check_outcome" where
  "evaluate_artifact cx gid c =
     (let recipe = (case gc_artifact_recipe c of Some r \<Rightarrow> r | None \<Rightarrow> ''undefined''); point = (gid, gc_id c)
      in case cx_latest_attempt cx point recipe of
           No_attempt \<Rightarrow>
             failed (''no run of recipe '' @ quoted recipe @ '' found'')
               [sourced Ev_config ''.pi/workbench/recipes.yaml'' (''no persisted run of '' @ quoted recipe)] []
         | Corrupt_attempt run why \<Rightarrow>
             failed (''run '' @ run @ '' of '' @ quoted recipe @ '' failed diagnostic identity verification'')
               [(evidence_of Ev_artifact why)\<lparr>ev_run_id := Some run, ev_recipe := Some recipe\<rparr>] []
         | Attempt m \<Rightarrow>
             (case cx_committed cx point (rm_run_id m) of
                None \<Rightarrow>
                  failed (''run '' @ rm_run_id m @ '' of '' @ quoted recipe @ '' failed committed identity verification'')
                    [run_evidence (rm_run_id m) recipe (rm_artifacts m) ''run transaction identity failed''] []
              | Some strict \<Rightarrow>
                  if \<not> successful_run strict then
                    failed (''latest run '' @ rm_run_id strict @ '' of '' @ quoted recipe @ '' is not a successful committed run'')
                      [run_evidence (rm_run_id strict) recipe (rm_artifacts strict)
                        (''run outcome '' @ (case rm_outcome strict of Some t \<Rightarrow> t | None \<Rightarrow> ''legacy''))] []
                  else (case cx_identity cx (rm_validation strict) of
                      Some (d # ds) \<Rightarrow>
                        if rm_recipe strict = recipe \<and> cx_eligible cx (rm_validation strict) recipe (rm_argv_hash strict)
                        then (case cx_artifacts cx point (rm_run_id m) of
                            Inl code \<Rightarrow>
                              failed (''run '' @ rm_run_id m @ '' of '' @ quoted recipe @ '' has invalid artifact authority ('' @ code @ '')'')
                                [run_evidence (rm_run_id m) recipe (rm_artifacts m) code] []
                          | Inr artifacts \<Rightarrow> artifact_authority cx gid c recipe m strict artifacts (d # ds))
                        else failed (''run '' @ rm_run_id strict @ '' of '' @ quoted recipe @ '' has no usable validation authority'')
                          [run_evidence (rm_run_id strict) recipe (rm_artifacts strict)
                            ''validation binding is missing, malformed, incomplete, unsuccessful, or not Sol-owned''] []
                    | _ \<Rightarrow> failed (''run '' @ rm_run_id strict @ '' of '' @ quoted recipe @ '' has no usable validation authority'')
                          [run_evidence (rm_run_id strict) recipe (rm_artifacts strict)
                            ''validation binding is missing, malformed, incomplete, unsuccessful, or not Sol-owned''] [])))"

subsection \<open>Files\<close>

definition file_check_root :: "check_context \<Rightarrow> gate_check \<Rightarrow> string" where
  "file_check_root cx c = (if gc_repository_root c then cx_project_root cx else cx_effective_root cx)"

definition file_safe_char :: "char \<Rightarrow> bool" where
  "file_safe_char c = (is_alnum c \<or> c \<in> {CHR ''.'', CHR ''_'', CHR ''-''})"

text \<open>\<open>copyEvidenceFile\<close> returns the intended path whether or not the copy succeeds.\<close>

definition evidence_copy :: "check_context \<Rightarrow> gate_check \<Rightarrow> string \<Rightarrow> string" where
  "evidence_copy cx c absolute =
     ''artifacts/'' @ map (\<lambda>ch. if file_safe_char ch then ch else CHR ''-'') (gc_id c) @ ''-''
       @ (if absolute = cx_project_root cx then [] else posix_basename absolute)"

text \<open>The patterns in turn: an escaping pattern stops the run, an escaping match is skipped.\<close>

fun match_files :: "check_context \<Rightarrow> run_point \<Rightarrow> string \<Rightarrow> string list \<Rightarrow> string + (string \<times> string) list" where
  "match_files cx point base [] = Inr []"
| "match_files cx point base (p # ps) =
     (if cx_contained cx point base p = None then Inl p
      else let here = List.map_filter (\<lambda>m. map_option (\<lambda>a. (m, a)) (cx_contained cx point base m)) (cx_files cx point base p)
           in case match_files cx point base ps of Inl e \<Rightarrow> Inl e | Inr rest \<Rightarrow> Inr (here @ rest))"

definition evaluate_file :: "check_context \<Rightarrow> string \<Rightarrow> gate_check \<Rightarrow> check_outcome" where
  "evaluate_file cx gid c =
     (let patterns = (case gc_any_of c of Some ps \<Rightarrow> ps | None \<Rightarrow> opt_list (gc_path c))
      in case match_files cx (gid, gc_id c) (file_check_root cx c) patterns of
           Inl p \<Rightarrow> Setup_error (check_label gid c @ '': file path escapes the project root: '' @ p)
         | Inr [] \<Rightarrow> failed (''no file matched: '' @ join_with '' | '' patterns) [sourced Ev_file (join_with '' | '' patterns) ''no match''] []
         | Inr (f # fs) \<Rightarrow>
             passed [sourced Ev_file (join_with '', '' (map fst (f # fs))) ''exists''] [evidence_copy cx c (snd f)])"

subsection \<open>JSON artifacts\<close>

text \<open>\<open>resolveJsonFile\<close>: the setup error, the reason with the missing flag, or the file and its value.\<close>

datatype json_artifact = Json_escapes string | Json_refused bool string | Json_file string jv

definition resolve_json_file :: "check_context \<Rightarrow> string \<Rightarrow> gate_check \<Rightarrow> string \<Rightarrow> json_artifact" where
  "resolve_json_file cx gid c file =
     (case cx_contained cx (gid, gc_id c) (cx_effective_root cx) file of
        None \<Rightarrow> Json_escapes (check_label gid c @ '' path escapes the project root: '' @ file)
      | Some absolute \<Rightarrow>
          (case cx_read_json cx (gid, gc_id c) absolute of
             Json_value v \<Rightarrow> Json_file absolute v
           | Json_missing \<Rightarrow> Json_refused True ''missing''
           | Json_oversized \<Rightarrow> Json_refused False ''source_oversized (maximum 1048576 bytes)''
           | Json_not_regular \<Rightarrow> Json_refused False ''source_not_regular''
           | Json_invalid \<Rightarrow> Json_refused False ''invalid JSON''
           | Json_failed \<Rightarrow> Json_refused False ''bounded read failed''))"

definition with_json_file ::
  "check_context \<Rightarrow> string \<Rightarrow> gate_check \<Rightarrow> evidence_type \<Rightarrow> (string \<Rightarrow> string list \<Rightarrow> jv \<Rightarrow> check_outcome) \<Rightarrow> check_outcome" where
  "with_json_file cx gid c t k =
     (let file = (case gc_json_file c of Some f \<Rightarrow> f | None \<Rightarrow> ''undefined'')
      in case resolve_json_file cx gid c file of
           Json_escapes m \<Rightarrow> Setup_error m
         | Json_refused missing why \<Rightarrow>
             failed (if missing then ''artifact missing: '' @ file else file @ '': '' @ why)
               [sourced t file (if missing then ''file not found'' else why)] []
         | Json_file absolute v \<Rightarrow> k file [evidence_copy cx c absolute] v)"

definition evaluate_json :: "check_context \<Rightarrow> string \<Rightarrow> gate_check \<Rightarrow> check_outcome" where
  "evaluate_json cx gid c = with_json_file cx gid c Ev_json (\<lambda>file copied v.
     let paths = (case gc_json_any_of c of Some ps \<Rightarrow> ps
                  | None \<Rightarrow> (case gc_json_path c of Some (p # ps) \<Rightarrow> [p # ps] | _ \<Rightarrow> []))
     in case find (\<lambda>p. resolve_json_path v p \<noteq> None) paths of
          Some (p # ps) \<Rightarrow>
            let path = p # ps; actual = the (resolve_json_path v path)
            in if gc_json_equals c \<noteq> JUndef \<and> \<not> deep_equal actual (gc_json_equals c)
               then failed (''JSON field '' @ file @ ''#'' @ path @ '' does not equal expected value ('' @ json_value_facts (gc_json_equals c) @ '')'')
                 [sourced Ev_json file (path @ '' mismatch: actual('' @ json_value_facts actual @ ''), expected(''
                    @ json_value_facts (gc_json_equals c) @ '')'')] copied
               else passed [sourced Ev_json file (path @ '' present'')] copied
        | _ \<Rightarrow> failed (''JSON field missing: '' @ file @ ''#'' @ join_with '' | '' paths)
                 [sourced Ev_json file (''field(s) not found: '' @ join_with '' | '' paths)] copied)"

definition number_value :: "jnum \<Rightarrow> rat" where
  "number_value n = (case finite_number (JNum n) of Some x \<Rightarrow> x | None \<Rightarrow> 0)"

definition evaluate_numeric :: "check_context \<Rightarrow> string \<Rightarrow> gate_check \<Rightarrow> check_outcome" where
  "evaluate_numeric cx gid c = with_json_file cx gid c Ev_numeric (\<lambda>file copied v.
     case gc_json_path c of
       None \<Rightarrow> Raised ''Cannot read properties of undefined (reading 'split')''
     | Some path \<Rightarrow>
        (case resolve_json_path v path of
           Some (JNum n) \<Rightarrow>
             if finite_number (JNum n) = None then
               failed (''numeric field '' @ file @ ''#'' @ path @ '' must be a finite number ('' @ json_value_facts (JNum n) @ '')'')
                 [sourced Ev_numeric file (path @ '' is not a finite number ('' @ json_value_facts (JNum n) @ '')'')] copied
             else if (case gc_min c of Some lo \<Rightarrow> number_value n < number_value lo | None \<Rightarrow> False) then
               failed (''numeric field '' @ file @ ''#'' @ path @ '' = '' @ num_text n @ '' is below min '' @ num_text (the (gc_min c)))
                 [sourced Ev_numeric file (path @ '' = '' @ num_text n @ '' < min '' @ num_text (the (gc_min c)))] copied
             else if (case gc_max c of Some hi \<Rightarrow> number_value hi < number_value n | None \<Rightarrow> False) then
               failed (''numeric field '' @ file @ ''#'' @ path @ '' = '' @ num_text n @ '' is above max '' @ num_text (the (gc_max c)))
                 [sourced Ev_numeric file (path @ '' = '' @ num_text n @ '' > max '' @ num_text (the (gc_max c)))] copied
             else passed [sourced Ev_numeric file
                    (path @ '' = '' @ num_text n
                       @ (case gc_min c of Some lo \<Rightarrow> '' >= '' @ num_text lo | None \<Rightarrow> [])
                       @ (case gc_max c of Some hi \<Rightarrow> '' <= '' @ num_text hi | None \<Rightarrow> []))] copied
         | found \<Rightarrow>
             let facts = (case found of Some x \<Rightarrow> json_value_facts x | None \<Rightarrow> ''value=missing'')
             in failed (''numeric field '' @ file @ ''#'' @ path @ '' must be a finite number ('' @ facts @ '')'')
                  [sourced Ev_numeric file (path @ '' is not a finite number ('' @ facts @ '')'')] copied))"

definition quant_contract_schemas :: "string list" where
  "quant_contract_schemas = [''data-snapshot'', ''feature-set'', ''backtest-result'']"

definition or_text :: "string \<Rightarrow> string \<Rightarrow> string" where
  "or_text a b = (if a = [] then b else a)"

definition evaluate_schema :: "check_context \<Rightarrow> string \<Rightarrow> gate_check \<Rightarrow> check_outcome" where
  "evaluate_schema cx gid c =
     (let schema = (case gc_schema c of Some s \<Rightarrow> s | None \<Rightarrow> ''quant-result''); contract = schema \<in> set quant_contract_schemas
      in if schema \<noteq> ''quant-result'' \<and> schema \<noteq> ''quant-research'' \<and> \<not> contract
         then Setup_error (check_label gid c @ '': unknown built-in schema '' @ quoted schema
                @ '' (supported: quant-result, quant-research, '' @ join_with '', '' quant_contract_schemas @ '')'')
         else with_json_file cx gid c Ev_schema (\<lambda>file copied v.
           let q = cx_schema cx schema v;
               ok = (if contract then sv_status q = ''validated'' else sv_valid q);
               detail = (if contract then
                    (if ok then ''conforms to '' @ schema @ ''.schema ('' @ sv_status q
                        @ (if sv_cacheable q then '', cache-eligible'' else []) @ '')''
                     else ''not '' @ schema @ ''.schema validated: ''
                        @ or_text (join_with ''; '' (take 3 (sv_errors q)))
                            (or_text (join_with ''; '' (take 3 (filter (\<lambda>w. contains_text ''validated'' w \<or> contains_text ''semantics'' w)
                                                          (sv_warnings q))))
                              (sv_status q)))
                  else (if sv_valid q then ''conforms to '' @ schema @ ''.schema.json''
                        else ''schema violations: '' @ join_with ''; '' (take 5 (sv_errors q)))
                    @ (if sv_failed_folds q = [] then [] else '' | failed folds reported: '' @ join_with '', '' (sv_failed_folds q)));
               ev = (sourced Ev_schema file detail)\<lparr>ev_errors := Some (sv_errors q), ev_warnings := Some (sv_warnings q)\<rparr>
           in if ok then passed [ev] copied
              else failed (''artifact '' @ file @ '' does not conform to '' @ schema @ '' contract (validation status: ''
                     @ (if contract then sv_status q else ''invalid'') @ '')'') [ev] copied))"

subsection \<open>The check\<close>

definition evaluate_config :: "check_context \<Rightarrow> check_outcome" where
  "evaluate_config cx =
     (if cx_config_issues cx = []
      then passed [sourced Ev_config ''.pi/workbench'' ''workbench config loads with 0 issues''] []
      else let detail = join_with ''; '' (map (\<lambda>(f, m). f @ '': '' @ m) (cx_config_issues cx))
           in failed (''workbench config has issues: '' @ detail) [sourced Ev_config ''.pi/workbench'' detail] [])"

definition evaluate_kind :: "check_context \<Rightarrow> string \<Rightarrow> gate_check \<Rightarrow> check_outcome" where
  "evaluate_kind cx gid c =
     (case gc_kind c of
        Check_config \<Rightarrow> evaluate_config cx
      | Check_recipe \<Rightarrow> evaluate_recipe cx gid c
      | Check_artifact \<Rightarrow> evaluate_artifact cx gid c
      | Check_file \<Rightarrow> evaluate_file cx gid c
      | Check_json \<Rightarrow> evaluate_json cx gid c
      | Check_numeric \<Rightarrow> evaluate_numeric cx gid c
      | Check_manual \<Rightarrow> evaluate_manual cx c
      | Check_schema \<Rightarrow> evaluate_schema cx gid c
      | Check_worker_first \<Rightarrow> evaluate_safety cx gid c)"

text \<open>The entry with its artifact paths, or the setup error that stops the run.\<close>

definition evaluate_check :: "check_context \<Rightarrow> string \<Rightarrow> gate_check \<Rightarrow> string + check_entry \<times> string list" where
  "evaluate_check cx gid c =
     (let times = cx_check_times cx (gid, gc_id c);
          entry = (\<lambda>st ev failure why warnings.
             \<lparr>ce_check = gc_id c, ce_status = st, ce_required = gc_required c, ce_blocking = gc_blocking c,
              ce_failure = failure, ce_blocked = why, ce_warnings = warnings, ce_gate = gid, ce_kind = gc_kind c,
              ce_evidence = ev, ce_started = fst times, ce_finished = snd times\<rparr>)
      in case evaluate_kind cx gid c of
           Setup_error e \<Rightarrow> Inl e
         | Raised m \<Rightarrow> Inr (entry Gate_FAIL [] (Some (check_label gid c @ '': unexpected error: '' @ m)) None [], [])
         | Verdict st ev failure why warnings artifacts \<Rightarrow> Inr (entry st ev failure why warnings, artifacts))"

end
