(* ===== verification/Gate_Plan.thy ===== *)
theory Gate_Plan
  imports Canonical_Hash Gate_Order
begin

section \<open>Plan references (core/plan-reference.ts)\<close>

text \<open>
  A plan reference names one durable plan snapshot and maps its criteria to the gates a final run has
  to cover. This theory holds the strict parser, the normaliser of the public tool input, the identity
  and the required gates, the coverage predicate and the check of a reference against the bytes of the
  plan file. \<open>localeCompare\<close> of the host's collation is a parameter of the normaliser, and the
  file system calls of the byte check are a record of what they return.
\<close>

subsection \<open>Texts of a reference\<close>

definition id_tail :: "string \<Rightarrow> bool" where
  "id_tail s = (length s \<le> 127 \<and> (\<forall>c\<in>set s. is_alnum c \<or> c \<in> {CHR ''.'', CHR ''_'', CHR '':'', CHR ''-''}))"

definition plan_id_re :: "string \<Rightarrow> bool" where
  "plan_id_re s = (s \<noteq> [] \<and> is_alnum (hd s) \<and> id_tail (tl s))"

definition plan_gate_id_re :: "string \<Rightarrow> bool" where
  "plan_gate_id_re s = (s \<noteq> [] \<and> (is_upper (hd s) \<or> is_lower (hd s)) \<and> id_tail (tl s))"

definition plan_text :: "nat \<Rightarrow> string \<Rightarrow> bool" where
  "plan_text bound s = (s \<noteq> [] \<and> length s \<le> bound \<and> s = js_trim s \<and> (\<forall>c\<in>set s. \<not> is_control c))"

definition strict_relative_path :: "string \<Rightarrow> bool" where
  "strict_relative_path s = (plan_text 400 s \<and> CHR 0x5C \<notin> set s \<and> canonical_relative s)"

definition plan_sorted :: "string list \<Rightarrow> bool" where
  "plan_sorted ss = sorted_wrt (<) ss"

text \<open>The members of an array that are all texts of the wanted form.\<close>

definition texts_where :: "(string \<Rightarrow> bool) \<Rightarrow> jv list \<Rightarrow> string list option" where
  "texts_where P vs =
     (case as_strings vs of None \<Rightarrow> None | Some ss \<Rightarrow> if list_all P ss then Some ss else None)"

definition parse_string_list :: "nat \<Rightarrow> (string \<Rightarrow> bool) \<Rightarrow> jv \<Rightarrow> string list option" where
  "parse_string_list max_items P v =
     (case as_array v of None \<Rightarrow> None
      | Some vs \<Rightarrow>
          if length vs > max_items then None
          else case texts_where (\<lambda>s. plan_text 200 s \<and> P s) vs of None \<Rightarrow> None
          | Some ss \<Rightarrow> if plan_sorted ss then Some ss else None)"

subsection \<open>The strict parser\<close>

datatype plan_status = Plan_NOT_STARTED | Plan_IN_PROGRESS | Plan_BLOCKED | Plan_EVIDENCED

primrec plan_status_text :: "plan_status \<Rightarrow> string" where
  "plan_status_text Plan_NOT_STARTED = ''NOT_STARTED''"
| "plan_status_text Plan_IN_PROGRESS = ''IN_PROGRESS''"
| "plan_status_text Plan_BLOCKED = ''BLOCKED''"
| "plan_status_text Plan_EVIDENCED = ''EVIDENCED''"

definition plan_statuses :: "plan_status list" where
  "plan_statuses = [Plan_NOT_STARTED, Plan_IN_PROGRESS, Plan_BLOCKED, Plan_EVIDENCED]"

interpretation plan_status: wire_enum plan_statuses plan_status_text
proof
  fix e :: plan_status
  show "e \<in> set plan_statuses" by (cases e) (simp_all add: plan_statuses_def)
  show "distinct (map plan_status_text plan_statuses)" by (simp add: plan_statuses_def)
qed

record plan_criterion =
  pc_id :: string
  pc_gate :: string
  pc_checks :: "string list"
  pc_evidence :: "string list"

record plan_reference =
  pr_id :: string
  pr_version :: string
  pr_path :: string
  pr_sha256 :: string
  pr_candidate :: string
  pr_status :: plan_status
  pr_criteria :: "plan_criterion list"
  pr_next :: string

definition plan_schema :: string where "plan_schema = ''workbench-plan-ref-v1''"

definition max_plan_criteria :: nat where "max_plan_criteria = 20"
definition max_plan_check_refs :: nat where "max_plan_check_refs = 20"
definition max_plan_evidence_refs :: nat where "max_plan_evidence_refs = 20"
definition max_plan_file_bytes :: nat where "max_plan_file_bytes = 1024 * 1024"

definition plan_keys :: "string list" where
  "plan_keys = [''schema'', ''plan_id'', ''version'', ''plan_path'', ''plan_sha256'', ''candidate'', ''status'', ''criteria'', ''next_action'']"

definition criterion_keys :: "string list" where
  "criterion_keys = [''id'', ''gate_id'', ''check_ids'', ''evidence_paths'']"

definition exact_record :: "jv \<Rightarrow> string list \<Rightarrow> fields option" where
  "exact_record v keys =
     (case as_record v of None \<Rightarrow> None | Some f \<Rightarrow> if exact_fields f keys then Some f else None)"

definition text_where :: "(string \<Rightarrow> bool) \<Rightarrow> jv \<Rightarrow> string option" where
  "text_where P v = (case as_string v of None \<Rightarrow> None | Some s \<Rightarrow> if P s then Some s else None)"

definition criterion_gate_ok :: "string \<Rightarrow> bool" where
  "criterion_gate_ok s = (s \<noteq> ''UNMAPPED'' \<and> plan_gate_id_re s)"

definition parse_evidence_paths :: "jv \<Rightarrow> string list option" where
  "parse_evidence_paths v =
     (case as_array v of None \<Rightarrow> None
      | Some vs \<Rightarrow>
          if length vs > max_plan_evidence_refs then None
          else case texts_where strict_relative_path vs of None \<Rightarrow> None
          | Some ss \<Rightarrow> if plan_sorted ss then Some ss else None)"

definition parse_criterion :: "jv \<Rightarrow> plan_criterion option" where
  "parse_criterion v =
     (case exact_record v criterion_keys of None \<Rightarrow> None
      | Some f \<Rightarrow>
          (case (text_where plan_id_re (get_prop f ''id''), text_where criterion_gate_ok (get_prop f ''gate_id''),
                 parse_string_list max_plan_check_refs plan_id_re (get_prop f ''check_ids''),
                 parse_evidence_paths (get_prop f ''evidence_paths'')) of
             (Some i, Some g, Some cs, Some es) \<Rightarrow> Some \<lparr>pc_id = i, pc_gate = g, pc_checks = cs, pc_evidence = es\<rparr>
           | _ \<Rightarrow> None))"

fun parse_criteria :: "jv list \<Rightarrow> plan_criterion list option" where
  "parse_criteria [] = Some []"
| "parse_criteria (v # vs) =
     (case (parse_criterion v, parse_criteria vs) of (Some c, Some cs) \<Rightarrow> Some (c # cs) | _ \<Rightarrow> None)"

definition criteria_of :: "jv \<Rightarrow> plan_criterion list option" where
  "criteria_of v =
     (case as_array v of None \<Rightarrow> None
      | Some vs \<Rightarrow>
          if vs = [] \<or> length vs > max_plan_criteria then None
          else case parse_criteria vs of None \<Rightarrow> None
          | Some cs \<Rightarrow> if plan_sorted (map pc_id cs) then Some cs else None)"

definition parse_plan_reference :: "jv \<Rightarrow> plan_reference option" where
  "parse_plan_reference v =
     (case exact_record v plan_keys of None \<Rightarrow> None
      | Some f \<Rightarrow>
          if get_prop f ''schema'' \<noteq> JStr plan_schema then None
          else
          (case (text_where plan_id_re (get_prop f ''plan_id''), text_where (plan_text 64) (get_prop f ''version''),
                 text_where strict_relative_path (get_prop f ''plan_path''), text_where hash_re (get_prop f ''plan_sha256''),
                 text_where (plan_text 128) (get_prop f ''candidate'')) of
             (Some i, Some ver, Some path, Some sha, Some cand) \<Rightarrow>
               (case (parse_enum plan_statuses plan_status_text (get_prop f ''status''), criteria_of (get_prop f ''criteria''),
                      text_where (plan_text 500) (get_prop f ''next_action'')) of
                  (Some st, Some cs, Some nxt) \<Rightarrow>
                    Some \<lparr>pr_id = i, pr_version = ver, pr_path = path, pr_sha256 = sha, pr_candidate = cand,
                          pr_status = st, pr_criteria = cs, pr_next = nxt\<rparr>
                | _ \<Rightarrow> None)
           | _ \<Rightarrow> None))"

subsection \<open>Normalising the tool input\<close>

text \<open>A stable insertion sort by a comparator, as \<open>Array.prototype.sort\<close> with a consistent one.\<close>

fun insert_by :: "('a \<Rightarrow> 'a \<Rightarrow> int) \<Rightarrow> 'a \<Rightarrow> 'a list \<Rightarrow> 'a list" where
  "insert_by cmp x [] = [x]"
| "insert_by cmp x (y # ys) = (if cmp x y \<le> 0 then x # y # ys else y # insert_by cmp x ys)"

definition sort_by :: "('a \<Rightarrow> 'a \<Rightarrow> int) \<Rightarrow> 'a list \<Rightarrow> 'a list" where
  "sort_by cmp xs = foldr (insert_by cmp) xs []"

definition normalize_strings :: "nat \<Rightarrow> (string \<Rightarrow> bool) \<Rightarrow> jv \<Rightarrow> string list option" where
  "normalize_strings max_items P v =
     (case as_array v of None \<Rightarrow> None
      | Some vs \<Rightarrow>
          if length vs > max_items then None
          else case as_strings vs of None \<Rightarrow> None
          | Some ss \<Rightarrow>
              (let out = sort (map js_trim ss)
               in if list_all (\<lambda>s. plan_text 200 s \<and> P s) out \<and> plan_sorted out then Some out else None))"

definition trimmed :: "jv \<Rightarrow> jv" where
  "trimmed v = (case v of JStr s \<Rightarrow> JStr (js_trim s) | _ \<Rightarrow> v)"

definition normalize_evidence :: "jv \<Rightarrow> string list option" where
  "normalize_evidence v =
     (case as_array v of None \<Rightarrow> None
      | Some vs \<Rightarrow>
          if length vs > max_plan_evidence_refs then None
          else case texts_where strict_relative_path (map trimmed vs) of None \<Rightarrow> None
          | Some ss \<Rightarrow> if plan_sorted (sort ss) then Some (sort ss) else None)"

definition normalize_criterion :: "jv \<Rightarrow> plan_criterion option" where
  "normalize_criterion v =
     (case exact_record v criterion_keys of None \<Rightarrow> None
      | Some f \<Rightarrow>
          (case (as_string (get_prop f ''id''), as_string (get_prop f ''gate_id''),
                 normalize_strings max_plan_check_refs plan_id_re (get_prop f ''check_ids''),
                 normalize_evidence (get_prop f ''evidence_paths'')) of
             (Some i, Some g, Some cs, Some es) \<Rightarrow>
               Some \<lparr>pc_id = js_trim i, pc_gate = js_trim g, pc_checks = cs, pc_evidence = es\<rparr>
           | _ \<Rightarrow> None))"

fun normalize_criteria :: "jv list \<Rightarrow> plan_criterion list option" where
  "normalize_criteria [] = Some []"
| "normalize_criteria (v # vs) =
     (case (normalize_criterion v, normalize_criteria vs) of (Some c, Some cs) \<Rightarrow> Some (c # cs) | _ \<Rightarrow> None)"

definition criterion_value :: "plan_criterion \<Rightarrow> jv" where
  "criterion_value c = JObj [(''id'', JStr (pc_id c)), (''gate_id'', JStr (pc_gate c)),
     (''check_ids'', JArr (map JStr (pc_checks c))), (''evidence_paths'', JArr (map JStr (pc_evidence c)))]"

text \<open>The frozen object the parser returns, and the one the normaliser hands to it.\<close>

definition plan_object :: "jv \<Rightarrow> jv \<Rightarrow> jv \<Rightarrow> jv \<Rightarrow> jv \<Rightarrow> jv \<Rightarrow> jv \<Rightarrow> plan_criterion list \<Rightarrow> jv \<Rightarrow> jv" where
  "plan_object schema i ver path sha cand st cs nxt =
     JObj [(''schema'', schema), (''plan_id'', i), (''version'', ver), (''plan_path'', path), (''plan_sha256'', sha),
           (''candidate'', cand), (''status'', st), (''criteria'', JArr (map criterion_value cs)), (''next_action'', nxt)]"

definition plan_reference_value :: "plan_reference \<Rightarrow> jv" where
  "plan_reference_value p = plan_object (JStr plan_schema) (JStr (pr_id p)) (JStr (pr_version p)) (JStr (pr_path p))
     (JStr (pr_sha256 p)) (JStr (pr_candidate p)) (JStr (plan_status_text (pr_status p))) (pr_criteria p) (JStr (pr_next p))"

definition normalize_plan_reference :: "(string \<Rightarrow> string \<Rightarrow> int) \<Rightarrow> jv \<Rightarrow> plan_reference option" where
  "normalize_plan_reference locale_compare v =
     (if v = JUndef then None
      else case exact_record v plan_keys of None \<Rightarrow> None
      | Some f \<Rightarrow>
          (case as_array (get_prop f ''criteria'') of None \<Rightarrow> None
           | Some vs \<Rightarrow>
               (case normalize_criteria vs of None \<Rightarrow> None
                | Some cs \<Rightarrow>
                    parse_plan_reference
                      (plan_object (get_prop f ''schema'') (trimmed (get_prop f ''plan_id'')) (trimmed (get_prop f ''version''))
                         (trimmed (get_prop f ''plan_path'')) (get_prop f ''plan_sha256'') (trimmed (get_prop f ''candidate''))
                         (get_prop f ''status'') (sort_by (\<lambda>a b. locale_compare (pc_id a) (pc_id b)) cs)
                         (trimmed (get_prop f ''next_action''))))))"

subsection \<open>Identity, required gates and coverage\<close>

definition plan_reference_hash :: "jv \<Rightarrow> string option" where
  "plan_reference_hash v =
     (case parse_plan_reference v of None \<Rightarrow> None
      | Some p \<Rightarrow> (case canonical_hash (plan_reference_value p) of Inr h \<Rightarrow> Some h | Inl e \<Rightarrow> None))"

definition required_plan_gate_ids :: "jv \<Rightarrow> string list" where
  "required_plan_gate_ids v =
     (case parse_plan_reference v of None \<Rightarrow> []
      | Some p \<Rightarrow> sort (remdups (map pc_gate (pr_criteria p))))"

record plan_coverage =
  cov_required :: "string list"
  cov_missing :: "string list"
  cov_non_pass :: "string list"
  cov_covered :: bool

text \<open>The statuses are the own properties of the record the caller passes.\<close>

definition evaluate_plan_gate_coverage :: "jv \<Rightarrow> (string \<rightharpoonup> string) \<Rightarrow> plan_coverage" where
  "evaluate_plan_gate_coverage v statuses =
     (let required = required_plan_gate_ids v;
          missing = filter (\<lambda>g. statuses g = None) required;
          non_pass = filter (\<lambda>g. statuses g \<noteq> None \<and> statuses g \<noteq> Some ''PASS'') required
      in \<lparr>cov_required = required, cov_missing = missing, cov_non_pass = non_pass,
          cov_covered = (required \<noteq> [] \<and> missing = [] \<and> non_pass = [])\<rparr>)"

subsection \<open>The current bytes of the plan\<close>

datatype plan_file_error =
    Plan_invalid_reference | Plan_invalid_root | Plan_unsafe_path | Plan_unavailable | Plan_not_regular
  | Plan_too_large | Plan_changed | Plan_digest_mismatch

record file_identity =
  fi_regular :: bool
  fi_dev :: nat
  fi_ino :: nat
  fi_bytes :: nat
  fi_mtime :: int
  fi_ctime :: int

text \<open>
  What the file system answers: the containment of the path (\<open>Inl\<close> when it throws), the first
  stat of the opened handle (\<open>None\<close> when opening or the stat throws), the bytes behind the handle,
  and the second stat with the containment after the read.
\<close>

record plan_file =
  pf_contained :: "unit + string option"
  pf_before :: "file_identity option"
  pf_bytes :: "nat list option"
  pf_after :: "file_identity option"
  pf_contained_after :: "unit + string option"

definition same_file :: "file_identity \<Rightarrow> file_identity \<Rightarrow> bool" where
  "same_file a b = (fi_dev a = fi_dev b \<and> fi_ino a = fi_ino b \<and> fi_bytes a = fi_bytes b
     \<and> fi_mtime a = fi_mtime b \<and> fi_ctime a = fi_ctime b)"

definition root_ok :: "jv \<Rightarrow> bool" where
  "root_ok v = (case as_string v of None \<Rightarrow> False
     | Some s \<Rightarrow> s \<noteq> [] \<and> s = js_trim s \<and> posix_is_absolute s \<and> CHR 0x00 \<notin> set s)"

text \<open>The buffer holds one byte more than the bound, so a longer file shows as one byte too many.\<close>

definition verify_current_plan :: "jv \<Rightarrow> jv \<Rightarrow> plan_file \<Rightarrow> plan_file_error + plan_reference" where
  "verify_current_plan root_v v io =
     (case parse_plan_reference v of None \<Rightarrow> Inl Plan_invalid_reference
      | Some p \<Rightarrow>
        if \<not> root_ok root_v then Inl Plan_invalid_root
        else case pf_contained io of
          Inl u \<Rightarrow> Inl Plan_unavailable
        | Inr None \<Rightarrow> Inl Plan_unsafe_path
        | Inr (Some target) \<Rightarrow>
          (case pf_before io of None \<Rightarrow> Inl Plan_unavailable
           | Some st \<Rightarrow>
             if \<not> fi_regular st then Inl Plan_not_regular
             else if fi_bytes st > max_plan_file_bytes then Inl Plan_too_large
             else case pf_bytes io of None \<Rightarrow> Inl Plan_unavailable
             | Some bs \<Rightarrow>
               let buffer = take (max_plan_file_bytes + 1) bs
               in if length buffer > max_plan_file_bytes then Inl Plan_too_large
                  else case (pf_after io, pf_contained_after io) of
                    (Some st', Inr target') \<Rightarrow>
                      if target' \<noteq> Some target \<or> \<not> same_file st st' \<or> length buffer \<noteq> fi_bytes st'
                      then Inl Plan_changed
                      else if sha256_hex_bytes buffer \<noteq> pr_sha256 p then Inl Plan_digest_mismatch
                      else Inr p
                  | _ \<Rightarrow> Inl Plan_unavailable))"


subsection \<open>What the parser keeps\<close>

lemma text_where_Some [simp]: "text_where P v = Some s \<longleftrightarrow> v = JStr s \<and> P s"
  by (auto simp: text_where_def split: option.splits)

lemma texts_where_Some [simp]: "texts_where P vs = Some ss \<longleftrightarrow> vs = map JStr ss \<and> list_all P ss"
  by (auto simp: texts_where_def as_strings_Some split: option.splits)

lemma texts_where_map [simp]: "texts_where P (map JStr ss) = (if list_all P ss then Some ss else None)"
  by (simp add: texts_where_def)

lemma parse_string_list_Some [simp]:
  "parse_string_list n P v = Some ss \<longleftrightarrow>
     v = JArr (map JStr ss) \<and> length ss \<le> n \<and> list_all (\<lambda>s. plan_text 200 s \<and> P s) ss \<and> plan_sorted ss"
  by (auto simp: parse_string_list_def split: option.splits)

lemma parse_evidence_paths_Some [simp]:
  "parse_evidence_paths v = Some ss \<longleftrightarrow>
     v = JArr (map JStr ss) \<and> length ss \<le> max_plan_evidence_refs \<and> list_all strict_relative_path ss \<and> plan_sorted ss"
  by (auto simp: parse_evidence_paths_def split: option.splits)

definition criterion_ok :: "plan_criterion \<Rightarrow> bool" where
  "criterion_ok c =
     (plan_id_re (pc_id c) \<and> criterion_gate_ok (pc_gate c)
      \<and> length (pc_checks c) \<le> max_plan_check_refs \<and> plan_sorted (pc_checks c)
      \<and> list_all (\<lambda>s. plan_text 200 s \<and> plan_id_re s) (pc_checks c)
      \<and> length (pc_evidence c) \<le> max_plan_evidence_refs \<and> plan_sorted (pc_evidence c)
      \<and> list_all strict_relative_path (pc_evidence c))"

definition plan_ok :: "plan_reference \<Rightarrow> bool" where
  "plan_ok p =
     (plan_id_re (pr_id p) \<and> plan_text 64 (pr_version p) \<and> strict_relative_path (pr_path p) \<and> hash_re (pr_sha256 p)
      \<and> plan_text 128 (pr_candidate p) \<and> plan_text 500 (pr_next p) \<and> pr_criteria p \<noteq> []
      \<and> length (pr_criteria p) \<le> max_plan_criteria \<and> list_all criterion_ok (pr_criteria p)
      \<and> plan_sorted (map pc_id (pr_criteria p)))"

lemma parse_criterion_ok: "parse_criterion v = Some c \<Longrightarrow> criterion_ok c"
  by (auto simp: parse_criterion_def criterion_ok_def split: option.splits)

lemma parse_criteria_ok: "parse_criteria vs = Some cs \<Longrightarrow> list_all criterion_ok cs \<and> length cs = length vs"
  by (induction vs arbitrary: cs) (auto dest: parse_criterion_ok split: option.splits)

lemma parse_criterion_value: "criterion_ok c \<Longrightarrow> parse_criterion (criterion_value c) = Some c"
  by (simp add: parse_criterion_def criterion_value_def exact_record_def exact_fields_def own_keys_def criterion_keys_def
      criterion_ok_def text_where_def texts_where_def parse_string_list_def parse_evidence_paths_def)

lemma parse_criteria_values: "list_all criterion_ok cs \<Longrightarrow> parse_criteria (map criterion_value cs) = Some cs"
  by (induction cs) (auto simp: parse_criterion_value)

lemma criteria_of_Some: "criteria_of v = Some cs \<Longrightarrow>
  cs \<noteq> [] \<and> length cs \<le> max_plan_criteria \<and> list_all criterion_ok cs \<and> plan_sorted (map pc_id cs)"
  by (auto simp: criteria_of_def dest: parse_criteria_ok split: option.splits if_splits)

lemma criteria_of_values:
  "list_all criterion_ok cs \<Longrightarrow>
   criteria_of (JArr (map criterion_value cs)) =
     (if cs \<noteq> [] \<and> length cs \<le> max_plan_criteria \<and> plan_sorted (map pc_id cs) then Some cs else None)"
  by (simp add: criteria_of_def parse_criteria_values)

lemma parse_plan_ok: "parse_plan_reference v = Some p \<Longrightarrow> plan_ok p"
  by (auto simp: parse_plan_reference_def plan_ok_def dest: criteria_of_Some split: option.splits if_splits)

lemma plan_object_fields: "exact_record (plan_object a b c d e f g cs h) plan_keys =
  Some [(''schema'', a), (''plan_id'', b), (''version'', c), (''plan_path'', d), (''plan_sha256'', e),
        (''candidate'', f), (''status'', g), (''criteria'', JArr (map criterion_value cs)), (''next_action'', h)]"
  by (simp add: plan_object_def exact_record_def exact_fields_def own_keys_def plan_keys_def)

lemma parse_plan_value: "plan_ok p \<Longrightarrow> parse_plan_reference (plan_reference_value p) = Some p"
  by (simp add: parse_plan_reference_def plan_reference_value_def plan_object_fields plan_ok_def text_where_def criteria_of_values)

lemma normalized_plan_parses: "normalize_plan_reference lc v = Some p \<Longrightarrow> plan_ok p"
  by (auto simp: normalize_plan_reference_def dest: parse_plan_ok split: if_splits option.splits)

subsection \<open>Normal forms under a collation\<close>

lemma insert_by_first: "(\<forall>y\<in>set ys. cmp x y \<le> 0) \<Longrightarrow> insert_by cmp x ys = x # ys"
  by (cases ys) auto

lemma sort_by_sorted: "sorted_wrt (\<lambda>x y. cmp x y \<le> 0) xs \<Longrightarrow> sort_by cmp xs = xs"
  unfolding sort_by_def by (induction xs) (auto simp: insert_by_first)

lemma plan_sorted_sort: "plan_sorted ss \<Longrightarrow> sort ss = ss"
  unfolding plan_sorted_def
  by (rule sorted_sort_id) (metis less_imp_le sorted_wrt_mono_rel)

lemma plan_text_trim: "plan_text n s \<Longrightarrow> js_trim s = s"
  by (simp add: plan_text_def)

lemma id_char_no_space: "is_alnum c \<or> c \<in> {CHR ''.'', CHR ''_'', CHR '':'', CHR ''-''} \<Longrightarrow> \<not> is_js_space c"
  by (auto simp: is_alnum_def is_digit_def is_upper_def is_lower_def is_js_space_def)

lemma id_trim: "id_tail (tl s) \<Longrightarrow> is_alnum (hd s) \<Longrightarrow> js_trim s = s"
proof (cases s)
  case (Cons c cs)
  assume t: "id_tail (tl s)" "is_alnum (hd s)"
  have "\<not> is_js_space x" if "x \<in> set s" for x
  proof (rule id_char_no_space)
    show "is_alnum x \<or> x \<in> {CHR ''.'', CHR ''_'', CHR '':'', CHR ''-''}"
      using t that Cons by (auto simp: id_tail_def)
  qed
  then show ?thesis unfolding js_trim_fixed using hd_in_set last_in_set by metis
qed (simp add: js_trim_def)

lemma plan_id_trim: "plan_id_re s \<Longrightarrow> js_trim s = s"
  by (rule id_trim) (simp_all add: plan_id_re_def)

lemma plan_gate_id_trim: "plan_gate_id_re s \<Longrightarrow> js_trim s = s"
  by (rule id_trim) (auto simp: plan_gate_id_re_def is_alnum_def)

lemma normalize_criterion_value: "criterion_ok c \<Longrightarrow> normalize_criterion (criterion_value c) = Some c"
proof -
  assume c: "criterion_ok c"
  have m: "map js_trim (pc_checks c) = pc_checks c"
    using c by (intro map_idI) (auto simp: criterion_ok_def list_all_iff dest: plan_id_trim)
  have "map (trimmed \<circ> JStr) (pc_evidence c) = map JStr (pc_evidence c)"
    using c by (auto simp: criterion_ok_def list_all_iff trimmed_def strict_relative_path_def dest: plan_text_trim)
  then have e: "texts_where strict_relative_path (map (trimmed \<circ> JStr) (pc_evidence c)) = Some (pc_evidence c)"
    using c by (simp only: texts_where_map) (simp add: criterion_ok_def)
  show ?thesis
    using c m
    by (simp add: e normalize_criterion_def criterion_value_def exact_record_def exact_fields_def own_keys_def criterion_keys_def
        criterion_ok_def normalize_strings_def normalize_evidence_def plan_sorted_sort plan_id_trim
        criterion_gate_ok_def plan_gate_id_trim)
qed

lemma normalize_criteria_values: "list_all criterion_ok cs \<Longrightarrow> normalize_criteria (map criterion_value cs) = Some cs"
  by (induction cs) (auto simp: normalize_criterion_value)

definition collates_ids :: "(string \<Rightarrow> string \<Rightarrow> int) \<Rightarrow> string list \<Rightarrow> bool" where
  "collates_ids lc is = sorted_wrt (\<lambda>a b. lc a b \<le> 0) is"

lemma plan_object_record: "plan_object a b c d e f g cs h \<noteq> JUndef"
  by (simp add: plan_object_def)

lemma normalize_plan_value:
  assumes p: "plan_ok p"
  shows "normalize_plan_reference lc (plan_reference_value p) =
     parse_plan_reference (plan_reference_value (p\<lparr>pr_criteria := sort_by (\<lambda>a b. lc (pc_id a) (pc_id b)) (pr_criteria p)\<rparr>))"
  using p
  by (simp add: normalize_plan_reference_def plan_reference_value_def plan_object_fields plan_ok_def normalize_criteria_values trimmed_def
      plan_id_trim plan_text_trim[of 64] plan_text_trim[of 128] plan_text_trim[of 400] plan_text_trim[of 500]
      strict_relative_path_def plan_object_record)


lemma normalize_canonical:
  "plan_ok p \<Longrightarrow> collates_ids lc (map pc_id (pr_criteria p)) \<Longrightarrow> normalize_plan_reference lc (plan_reference_value p) = Some p"
  by (simp add: normalize_plan_value collates_ids_def sort_by_sorted sorted_wrt_map parse_plan_value)

lemma parse_unsorted: "list_all criterion_ok cs \<Longrightarrow> \<not> plan_sorted (map pc_id cs) \<Longrightarrow>
  parse_plan_reference (plan_reference_value (p\<lparr>pr_criteria := cs\<rparr>)) = None"
  by (simp add: parse_plan_reference_def plan_reference_value_def plan_object_fields criteria_of_values split: option.split)

lemma normalize_swapped:
  assumes "plan_ok p" "map pc_id (pr_criteria p) = [a, b]" "lc a b > 0"
  shows "normalize_plan_reference lc (plan_reference_value p) = None"
proof -
  obtain c d where cd: "pr_criteria p = [c, d]" "pc_id c = a" "pc_id d = b"
    using assms(2) by auto
  then have sw: "sort_by (\<lambda>a b. lc (pc_id a) (pc_id b)) (pr_criteria p) = [d, c]"
    using assms(3) by (simp add: sort_by_def)
  have "a < b" using assms(1) cd by (simp add: plan_ok_def plan_sorted_def)
  then have u: "\<not> plan_sorted (map pc_id [d, c])" using cd by (simp add: plan_sorted_def)
  have k: "list_all criterion_ok [d, c]" using assms(1) cd by (simp add: plan_ok_def)
  show ?thesis unfolding normalize_plan_value[OF assms(1)] sw by (rule parse_unsorted[OF k u])
qed

definition criterion_named :: "string \<Rightarrow> plan_criterion" where
  "criterion_named i = \<lparr>pc_id = i, pc_gate = ''b1'', pc_checks = [], pc_evidence = []\<rparr>"

definition sample_plan :: "plan_criterion list \<Rightarrow> plan_reference" where
  "sample_plan cs = \<lparr>pr_id = ''plan-1'', pr_version = ''1'', pr_path = ''docs/plan.md'', pr_sha256 = replicate 64 (CHR ''0''),
     pr_candidate = ''main'', pr_status = Plan_IN_PROGRESS, pr_criteria = cs, pr_next = ''review''\<rparr>"

lemma sample_plan_ok: "cs \<in> {[criterion_named ''a''], [criterion_named ''B'', criterion_named ''a'']} \<Longrightarrow> plan_ok (sample_plan cs)"
  by (elim insertE emptyE; hypsubst; code_simp)

text \<open>The strict parser returns only well-formed references and reads back what it returns; the
  normaliser returns only such references, leaves a reference unchanged whose criterion ids the
  collation orders as code units do, and refuses a valid reference with two criteria whenever the
  collation and the code units disagree about their ids.\<close>

theorem plan_reference_normal_form:
  "(parse_plan_reference v = Some p \<or> normalize_plan_reference lc v = Some p \<longrightarrow>
      plan_ok p \<and> parse_plan_reference (plan_reference_value p) = Some p
      \<and> (collates_ids lc (map pc_id (pr_criteria p)) \<longrightarrow> normalize_plan_reference lc (plan_reference_value p) = Some p)
      \<and> (\<forall>a b. map pc_id (pr_criteria p) = [a, b] \<and> lc a b > 0 \<longrightarrow> normalize_plan_reference lc (plan_reference_value p) = None))"
proof (intro impI)
  assume "parse_plan_reference v = Some p \<or> normalize_plan_reference lc v = Some p"
  then have ok: "plan_ok p" using parse_plan_ok normalized_plan_parses by blast
  then show "plan_ok p \<and> parse_plan_reference (plan_reference_value p) = Some p
      \<and> (collates_ids lc (map pc_id (pr_criteria p)) \<longrightarrow> normalize_plan_reference lc (plan_reference_value p) = Some p)
      \<and> (\<forall>a b. map pc_id (pr_criteria p) = [a, b] \<and> lc a b > 0 \<longrightarrow> normalize_plan_reference lc (plan_reference_value p) = None)"
    by (intro conjI impI allI) (auto intro: parse_plan_value normalize_canonical normalize_swapped)
qed

text \<open>A collation that ignores case first, as ICU does: \<open>a\<close> sorts before \<open>B\<close>.\<close>

definition case_blind_compare :: "string \<Rightarrow> string \<Rightarrow> int" where
  "case_blind_compare a b = (if to_lower a < to_lower b then -1 else if to_lower b < to_lower a then 1 else 0)"

theorem plan_reference_normal_form_witness:
  "normalize_plan_reference case_blind_compare (plan_reference_value (sample_plan [criterion_named ''B'', criterion_named ''a''])) = None
   \<and> parse_plan_reference (plan_reference_value (sample_plan [criterion_named ''B'', criterion_named ''a''])) \<noteq> None
   \<and> normalize_plan_reference case_blind_compare (plan_reference_value (sample_plan [criterion_named ''a''])) \<noteq> None"
proof -
  let ?p = "sample_plan [criterion_named ''B'', criterion_named ''a'']" and ?q = "sample_plan [criterion_named ''a'']"
  have p: "parse_plan_reference (plan_reference_value ?p) = Some ?p" "parse_plan_reference (plan_reference_value ?q) = Some ?q"
    by (simp_all add: parse_plan_value sample_plan_ok)
  have l: "map pc_id (pr_criteria ?p) = [''B'', ''a''] \<and> case_blind_compare ''B'' ''a'' > 0"
    "collates_ids case_blind_compare (map pc_id (pr_criteria ?q))" by code_simp+
  show ?thesis
    using plan_reference_normal_form[of "plan_reference_value ?p" ?p case_blind_compare]
      plan_reference_normal_form[of "plan_reference_value ?q" ?q case_blind_compare] p l by simp
qed

subsection \<open>Coverage and current bytes\<close>

lemma plan_gates_set: "parse_plan_reference v = Some p \<Longrightarrow> set (required_plan_gate_ids v) = pc_gate ` set (pr_criteria p)"
  by (simp add: required_plan_gate_ids_def)

text \<open>A plan is covered exactly when the reference parses and the gate of every criterion has
  the status PASS among the given statuses; an invalid reference is never covered.\<close>

theorem plan_coverage_exact:
  "cov_covered (evaluate_plan_gate_coverage v statuses) =
     (\<exists>p. parse_plan_reference v = Some p \<and> list_all (\<lambda>c. statuses (pc_gate c) = Some ''PASS'') (pr_criteria p))"
proof (cases "parse_plan_reference v")
  case None
  then show ?thesis by (simp add: evaluate_plan_gate_coverage_def required_plan_gate_ids_def)
next
  case (Some p)
  have "pr_criteria p \<noteq> []" using parse_plan_ok[OF Some] by (simp add: plan_ok_def)
  then have ne: "required_plan_gate_ids v \<noteq> []" using plan_gates_set[OF Some] by force
  have "(\<forall>c\<in>set (pr_criteria p). statuses (pc_gate c) = Some ''PASS'')
      = (\<forall>g\<in>set (required_plan_gate_ids v). statuses g = Some ''PASS'')"
    using plan_gates_set[OF Some] by simp
  also have "\<dots> = cov_covered (evaluate_plan_gate_coverage v statuses)"
    using ne by (auto simp: evaluate_plan_gate_coverage_def Let_def filter_empty_conv) (metis option.distinct(1))
  finally show ?thesis using Some by (simp add: list_all_iff)
qed

lemma verify_plan_Inr:
  assumes "verify_current_plan dir v io = Inr p"
  shows "parse_plan_reference v = Some p \<and> root_ok dir
     \<and> (\<exists>target bs st st'. pf_contained io = Inr (Some target) \<and> pf_contained_after io = Inr (Some target)
          \<and> pf_before io = Some st \<and> pf_after io = Some st' \<and> fi_regular st \<and> same_file st st'
          \<and> pf_bytes io = Some bs \<and> length bs = fi_bytes st' \<and> length bs \<le> max_plan_file_bytes
          \<and> sha256_hex_bytes bs = pr_sha256 p)"
proof -
  from assms obtain target bs st st' where
      facts: "parse_plan_reference v = Some p" "root_ok dir" "pf_contained io = Inr (Some target)"
        "pf_contained_after io = Inr (Some target)" "pf_before io = Some st" "pf_after io = Some st'" "fi_regular st"
        "same_file st st'" "pf_bytes io = Some bs"
    and len: "length (take (max_plan_file_bytes + 1) bs) = fi_bytes st'"
        "length (take (max_plan_file_bytes + 1) bs) \<le> max_plan_file_bytes"
    and sha: "sha256_hex_bytes (take (max_plan_file_bytes + 1) bs) = pr_sha256 p"
    by (auto simp: verify_current_plan_def Let_def simp del: length_take
        split: option.splits sum.splits if_splits)
  then have "take (max_plan_file_bytes + 1) bs = bs" by simp
  with facts len sha show ?thesis by auto
qed

end
