(* ===== verification/Candidate_Binding.thy ===== *)
theory Candidate_Binding
  imports Canonical_Hash Mode_Policy
begin

section \<open>Candidate bindings (core/candidate-binding.ts)\<close>

text \<open>
  The frozen identity of a candidate that a strict-lane gate run carries: parsed strictly, turned back
  into its record and reduced to the edge that enters the validation state.
\<close>

record candidate_binding =
  cb_candidate :: string
  cb_source_run :: string
  cb_version_path :: string
  cb_validation :: string
  cb_artifacts :: string
  cb_runtime :: string

definition candidate_version_path :: "string \<Rightarrow> string" where
  "candidate_version_path i = ''.pi/workbench/candidates/versions/'' @ i @ ''.json''"

definition binding_keys :: "string list" where
  "binding_keys = [''artifact_manifest_identity'', ''candidate_identity'', ''candidate_source_run_id'',
     ''candidate_version_path'', ''kind'', ''runtime_identity_hash'', ''schema_version'', ''validation_identity'']"

definition hash_text :: "jv \<Rightarrow> string option" where
  "hash_text v = (case as_string v of None \<Rightarrow> None | Some s \<Rightarrow> if hash_re s then Some s else None)"

text \<open>The run id has the shape of a delegation id.\<close>

definition run_id_text :: "jv \<Rightarrow> string option" where
  "run_id_text v = (case as_string v of None \<Rightarrow> None | Some s \<Rightarrow> if repair_of_re s then Some s else None)"

definition parse_candidate_binding :: "jv \<Rightarrow> candidate_binding option" where
  "parse_candidate_binding v =
     (case as_record v of None \<Rightarrow> None
      | Some f \<Rightarrow>
          if \<not> exact_fields f binding_keys then None
          else if get_prop f ''schema_version'' \<noteq> JNum (JInt 1)
                  \<or> get_prop f ''kind'' \<noteq> JStr ''workbench-gate-candidate-binding-v1'' then None
          else (case (hash_text (get_prop f ''candidate_identity''), hash_text (get_prop f ''validation_identity''),
                      hash_text (get_prop f ''artifact_manifest_identity''), hash_text (get_prop f ''runtime_identity_hash''),
                      run_id_text (get_prop f ''candidate_source_run_id'')) of
                  (Some c, Some va, Some a, Some r, Some run) \<Rightarrow>
                    if get_prop f ''candidate_version_path'' \<noteq> JStr (candidate_version_path c) then None
                    else Some \<lparr>cb_candidate = c, cb_source_run = run, cb_version_path = candidate_version_path c,
                               cb_validation = va, cb_artifacts = a, cb_runtime = r\<rparr>
                | _ \<Rightarrow> None))"

definition binding_value :: "candidate_binding \<Rightarrow> jv" where
  "binding_value b = JObj
     [(''schema_version'', JNum (JInt 1)), (''kind'', JStr ''workbench-gate-candidate-binding-v1''),
      (''candidate_identity'', JStr (cb_candidate b)), (''candidate_source_run_id'', JStr (cb_source_run b)),
      (''candidate_version_path'', JStr (cb_version_path b)), (''validation_identity'', JStr (cb_validation b)),
      (''artifact_manifest_identity'', JStr (cb_artifacts b)), (''runtime_identity_hash'', JStr (cb_runtime b))]"

definition candidate_source_authority :: "candidate_binding \<Rightarrow> string" where
  "candidate_source_authority b =
     join_with '':'' [cb_candidate b, cb_source_run b, cb_validation b, cb_artifacts b, cb_runtime b]"

definition binding_wf :: "candidate_binding \<Rightarrow> bool" where
  "binding_wf b =
     (hash_re (cb_candidate b) \<and> hash_re (cb_validation b) \<and> hash_re (cb_artifacts b) \<and> hash_re (cb_runtime b)
      \<and> repair_of_re (cb_source_run b) \<and> cb_version_path b = candidate_version_path (cb_candidate b))"

lemma hash_text_Some [simp]: "hash_text v = Some s \<longleftrightarrow> v = JStr s \<and> hash_re s"
  by (auto simp: hash_text_def split: option.splits)

lemma run_id_text_Some [simp]: "run_id_text v = Some s \<longleftrightarrow> v = JStr s \<and> repair_of_re s"
  by (auto simp: run_id_text_def split: option.splits)

lemma parse_binding_wf: "parse_candidate_binding v = Some b \<Longrightarrow> binding_wf b"
  by (auto simp: parse_candidate_binding_def binding_wf_def split: option.splits if_splits)

lemma parse_binding_value: "parse_candidate_binding (binding_value b) = Some b \<longleftrightarrow> binding_wf b"
  by (auto simp: parse_candidate_binding_def binding_value_def binding_wf_def exact_fields_def own_keys_def binding_keys_def
      hash_text_def run_id_text_def split: option.splits if_splits)

text \<open>The edge determines the binding: its parts have fixed lengths and the version path follows.\<close>

lemma edge_determines_binding:
  assumes "binding_wf a" "binding_wf b" "candidate_source_authority a = candidate_source_authority b"
  shows "a = b"
proof -
  have l: "length (cb_candidate a) = length (cb_candidate b)" "length (cb_source_run a) = length (cb_source_run b)"
    "length (cb_validation a) = length (cb_validation b)" "length (cb_artifacts a) = length (cb_artifacts b)"
    using assms(1,2) by (simp_all add: binding_wf_def hash_re_def repair_of_re_def)
  have e: "cb_candidate a @ '':'' @ cb_source_run a @ '':'' @ cb_validation a @ '':'' @ cb_artifacts a @ '':'' @ cb_runtime a
     = cb_candidate b @ '':'' @ cb_source_run b @ '':'' @ cb_validation b @ '':'' @ cb_artifacts b @ '':'' @ cb_runtime b"
    using assms(3) by (simp add: candidate_source_authority_def)
  have "cb_candidate a = cb_candidate b \<and> cb_source_run a = cb_source_run b \<and> cb_validation a = cb_validation b
    \<and> cb_artifacts a = cb_artifacts b \<and> cb_runtime a = cb_runtime b"
    using e l by simp
  then show ?thesis using assms(1,2) by (auto simp: binding_wf_def)
qed

end
