(* ===== verification/Gate_Run.thy ===== *)
theory Gate_Run
  imports Gate_Check Gate_Plan Candidate_Binding
begin

section \<open>Gate runs (core/gate-engine.ts)\<close>

text \<open>
  The status of a gate from its checks, its evaluation after its prerequisites, the selection and the
  plan authority that precede a run, the read-only preflight and the run itself up to its verdict and
  the bindings it derives. A setup violation stops the run and is the left value.
\<close>

subsection \<open>Status of a gate\<close>

primrec status_rank :: "gate_status \<Rightarrow> nat" where
  "status_rank Gate_PASS = 0"
| "status_rank Gate_NOT_RUN = 1"
| "status_rank Gate_BLOCKED = 2"
| "status_rank Gate_FAIL = 3"

definition worst_status :: "gate_status \<Rightarrow> gate_status \<Rightarrow> gate_status" where
  "worst_status a b = (if status_rank b \<le> status_rank a then a else b)"

definition null_text :: "string option \<Rightarrow> string" where
  "null_text x = (case x of Some s \<Rightarrow> s | None \<Rightarrow> ''null'')"

definition check_warnings :: "'a check_facts_scheme \<Rightarrow> string list" where
  "check_warnings c =
     (if ce_status c = Gate_FAIL \<and> \<not> ce_blocking c
      then [''non-blocking check '' @ ce_check c @ '' failed: '' @ null_text (ce_failure c)] else [])
     @ (if ce_status c = Gate_BLOCKED \<and> \<not> ce_blocking c
        then [''non-blocking check '' @ ce_check c @ '' blocked: '' @ null_text (ce_blocked c)] else [])
     @ (if ce_status c = Gate_NOT_RUN \<and> \<not> ce_required c then [''optional check '' @ ce_check c @ '' not run''] else [])
     @ map (\<lambda>w. ''check '' @ ce_check c @ '': '' @ w) (ce_warnings c)"

record gate_verdict =
  gv_status :: gate_status
  gv_failure :: "string option"
  gv_blocked :: "string option"
  gv_warnings :: "string list"

definition gate_status_from_checks :: "'a check_facts_scheme list \<Rightarrow> gate_verdict" where
  "gate_status_from_checks cs =
     (let failed = filter (\<lambda>c. ce_status c = Gate_FAIL \<and> ce_blocking c) cs;
          blocked = filter (\<lambda>c. ce_status c = Gate_BLOCKED \<and> ce_blocking c) cs;
          not_run = filter (\<lambda>c. ce_status c = Gate_NOT_RUN \<and> ce_required c) cs;
          warnings = concat (map check_warnings cs)
      in if failed \<noteq> [] then
           \<lparr>gv_status = Gate_FAIL, gv_failure = Some (''check(s) failed: '' @ join_with '', '' (map ce_check failed)),
            gv_blocked = None, gv_warnings = warnings\<rparr>
         else if blocked \<noteq> [] then
           \<lparr>gv_status = Gate_BLOCKED, gv_failure = None,
            gv_blocked = Some (''check(s) blocked: ''
               @ join_with ''; '' (map (\<lambda>c. ce_check c @ '' ('' @ null_text (ce_blocked c) @ '')'') blocked)),
            gv_warnings = warnings\<rparr>
         else \<lparr>gv_status = (if not_run \<noteq> [] then Gate_NOT_RUN else Gate_PASS), gv_failure = None, gv_blocked = None,
               gv_warnings = warnings\<rparr>)"

subsection \<open>One gate\<close>

record gate_entry =
  ge_id :: string
  ge_title :: string
  ge_description :: string
  ge_status :: gate_status
  ge_required :: bool
  ge_blocking :: bool
  ge_prerequisites :: "string list"
  ge_prereq_status :: "(string \<times> gate_status \<times> bool) list"
  ge_checks :: "check_entry list"
  ge_failure :: "string option"
  ge_blocked :: "string option"
  ge_warnings :: "string list"
  ge_evidence_paths :: "string list"
  ge_declared :: "string list"
  ge_started :: int
  ge_finished :: int

definition entry_of :: "gate_entry list \<Rightarrow> string \<Rightarrow> gate_entry option" where
  "entry_of done i = find (\<lambda>e. ge_id e = i) (rev done)"

definition prerequisite_source :: "bool \<Rightarrow> string" where
  "prerequisite_source in_run = (if in_run then ''this-run'' else ''missing-this-run'')"

text \<open>
  Assignment to a key of a record object: the key \<open>__proto__\<close> sets the prototype and leaves the own
  properties alone.
\<close>

fun assign_key :: "string \<Rightarrow> 'a \<Rightarrow> (string \<times> 'a) list \<Rightarrow> (string \<times> 'a) list" where
  "assign_key k v [] = [(k, v)]"
| "assign_key k v ((k', v') # kvs) = (if k' = k then (k, v) # kvs else (k', v') # assign_key k v kvs)"

definition put_status :: "string \<Rightarrow> 'a \<Rightarrow> (string \<times> 'a) list \<Rightarrow> (string \<times> 'a) list" where
  "put_status k v m = (if k = ''__proto__'' then m else assign_key k v m)"

text \<open>
  The loop over the prerequisites: it records the status of each and stops at the first blocking one
  that did not pass. A gate outside the effective list blocks.
\<close>

fun check_prerequisites ::
  "gate list \<Rightarrow> gate_entry list \<Rightarrow> (string \<times> gate_status \<times> bool) list \<Rightarrow> string list
   \<Rightarrow> (string \<times> gate_status \<times> bool) list \<times> string option" where
  "check_prerequisites gs done acc [] = (acc, None)"
| "check_prerequisites gs done acc (p # ps) =
     (let blocking = (case gate_named gs p of Some g \<Rightarrow> ga_blocking g | None \<Rightarrow> True);
          entry = entry_of done p;
          status = (case entry of Some e \<Rightarrow> ge_status e | None \<Rightarrow> Gate_NOT_RUN);
          acc' = put_status p (status, entry \<noteq> None) acc
      in if status \<noteq> Gate_PASS \<and> blocking
         then (acc', Some (''prerequisite '' @ p @ '' is '' @ gate_status_text status @ '' ('' @ prerequisite_source (entry \<noteq> None) @ '')''))
         else check_prerequisites gs done acc' ps)"

fun evaluate_checks :: "check_context \<Rightarrow> string \<Rightarrow> gate_check list \<Rightarrow> string + (check_entry \<times> string list) list" where
  "evaluate_checks cx gid [] = Inr []"
| "evaluate_checks cx gid (c # cs) =
     (case evaluate_check cx gid c of
        Inl e \<Rightarrow> Inl e
      | Inr r \<Rightarrow> (case evaluate_checks cx gid cs of Inl e \<Rightarrow> Inl e | Inr rs \<Rightarrow> Inr (r # rs)))"

definition evaluate_gate :: "check_context \<Rightarrow> gate list \<Rightarrow> gate_entry list \<Rightarrow> gate \<Rightarrow> string + gate_entry" where
  "evaluate_gate cx gs done g =
     (let times = cx_gate_times cx (ga_id g);
          (statuses, why) = check_prerequisites gs done [] (ga_prerequisites g);
          entry = \<lparr>ge_id = ga_id g, ge_title = ga_title g, ge_description = ga_description g, ge_status = Gate_BLOCKED,
                   ge_required = ga_required g, ge_blocking = ga_blocking g, ge_prerequisites = ga_prerequisites g,
                   ge_prereq_status = statuses, ge_checks = [], ge_failure = None, ge_blocked = why, ge_warnings = [],
                   ge_evidence_paths = [], ge_declared = ga_evidence g, ge_started = fst times, ge_finished = snd times\<rparr>
      in if why \<noteq> None then Inr entry
         else case evaluate_checks cx (ga_id g) (ga_checks g) of
           Inl e \<Rightarrow> Inl e
         | Inr rs \<Rightarrow>
             let cs = map fst rs; v = gate_status_from_checks cs
             in Inr (entry\<lparr>ge_status := gv_status v, ge_checks := cs, ge_failure := gv_failure v, ge_blocked := gv_blocked v,
                           ge_warnings := gv_warnings v,
                           ge_evidence_paths := concat (map (\<lambda>(c, as). (''evidence.json#/checks/'' @ ce_check c) # as) rs)\<rparr>))"

subsection \<open>Selection\<close>

record gate_selection =
  gs_gates :: "gate list"
  gs_requested :: "string list"
  gs_ordered :: "string list"

fun order_error_text :: "order_error \<Rightarrow> string" where
  "order_error_text (Prereq_cycle c) = ''gate prerequisite cycle: '' @ join_with '' -> '' c"
| "order_error_text (Unknown_prerequisite d p) = ''gate '' @ quoted d @ '' references unknown prerequisite '' @ quoted p"
| "order_error_text (Unknown_gate i) = ''unknown gate '' @ quoted i"

text \<open>
  \<open>selectGates\<close> on the decoded gates.yaml and the profile of the project configuration: parse
  errors, the reserved gate, an empty or unknown selection and a broken prerequisite stop the run.
\<close>

definition load_gate_list :: "string option \<Rightarrow> jv \<Rightarrow> string + gate list" where
  "load_gate_list profile doc =
     (let (project, errors) = parse_gates_document doc
      in if errors \<noteq> [] then Inl (join_with ''; '' errors) else effective_gates profile gate_catalog project)"

definition select_gates :: "string option \<Rightarrow> jv \<Rightarrow> string \<Rightarrow> string + gate_selection" where
  "select_gates profile doc selector =
     (case load_gate_list profile doc of
        Inl e \<Rightarrow> Inl e
      | Inr gs \<Rightarrow>
          let requested = resolve_selector selector gs;
              unknown = filter (\<lambda>i. i \<notin> set (map ga_id gs)) requested
          in if requested = [] then Inl (''selector '' @ quoted selector @ '' matched no gates'')
             else if unknown \<noteq> [] then
               Inl (''gate(s) not available for profile '' @ (case profile of Some p \<Rightarrow> p | None \<Rightarrow> ''(none)'') @ '': ''
                    @ join_with '', '' unknown
                    @ (if quant_gate_id_re (hd unknown) then '' (quant gates load only for quant-research profiles)'' else []))
             else case order_gates requested gs of
               Inl e \<Rightarrow> Inl (order_error_text e)
             | Inr ordered \<Rightarrow> Inr \<lparr>gs_gates = gs, gs_requested = requested, gs_ordered = ordered\<rparr>)"

subsection \<open>Plan authority of a run\<close>

text \<open>The current plan authority is read by delegation-plan-reference.ts and arrives as its answer.\<close>

datatype plan_authority = Plan_absent | Plan_blocked_by string | Plan_current string "string list"

definition carries_plan_facts :: "safety_facts option \<Rightarrow> bool" where
  "carries_plan_facts fs =
     (case fs of None \<Rightarrow> False
      | Some f \<Rightarrow> sf_plan_hash f \<noteq> None \<or> sf_plan_gates f \<noteq> None \<or> sf_plan_current f \<noteq> None \<or> sf_plan_blocked f \<noteq> None)"

definition is_final_plan_selector :: "string \<Rightarrow> bool" where
  "is_final_plan_selector selector = (js_trim selector \<in> {''base'', ''all''})"

record plan_validation =
  pv_hash :: string
  pv_gates :: "string list"
  pv_full :: bool

definition resolve_plan_authority ::
  "plan_authority \<Rightarrow> string \<Rightarrow> gate list \<Rightarrow> string list \<Rightarrow> safety_facts option \<Rightarrow> string + plan_validation option" where
  "resolve_plan_authority authority selector gs effective facts =
     (case authority of
        Plan_blocked_by why \<Rightarrow> Inl (''PLAN_REFERENCE_BLOCKED:'' @ why)
      | Plan_absent \<Rightarrow> if carries_plan_facts facts then Inl ''PLAN_REFERENCE_FACTS_MISMATCH'' else Inr None
      | Plan_current h required \<Rightarrow>
          let expected = sort required;
              injected = (case facts of None \<Rightarrow> []
                | Some f \<Rightarrow> (case sf_plan_gates f of None \<Rightarrow> [] | Some gs \<Rightarrow> sort (remdups gs)));
              unavailable = filter (\<lambda>i. i \<notin> set (map ga_id gs)) expected;
              unselected = filter (\<lambda>i. i \<notin> set effective) expected;
              final = is_final_plan_selector selector
          in if (case facts of None \<Rightarrow> True
                 | Some f \<Rightarrow> sf_plan_hash f \<noteq> Some h \<or> sf_plan_current f \<noteq> Some True \<or> sf_plan_blocked f \<noteq> None)
                \<or> injected \<noteq> expected
             then Inl ''PLAN_REFERENCE_FACTS_MISMATCH''
             else if unavailable \<noteq> [] then Inl (''PLAN_REFERENCE_GATE_UNAVAILABLE:'' @ join_with '','' unavailable)
             else if final \<and> unselected \<noteq> [] then
               Inl (''PLAN_REFERENCE_SELECTOR_INCOMPLETE:'' @ join_with '','' unselected
                    @ (if list_ex quant_gate_id_re unselected then '':use-all-for-quant-plan-gates'' else []))
             else Inr (Some \<lparr>pv_hash = h, pv_gates = expected, pv_full = (final \<and> unselected = [])\<rparr>))"

subsection \<open>Preflight\<close>

record required_manual =
  mq_gate :: string
  mq_check :: string
  mq_prompt :: "string option"
  mq_provided :: bool

record manual_preflight =
  mp_requested :: "string list"
  mp_checks :: "required_manual list"
  mp_provided :: "string list"
  mp_missing :: "string list"
  mp_ready :: bool

definition required_manual_checks :: "(string \<times> string) list \<Rightarrow> string list \<Rightarrow> gate list \<Rightarrow> required_manual list" where
  "required_manual_checks notes ordered gs =
     concat (map (\<lambda>g. if ga_id g \<notin> set ordered then []
        else map (\<lambda>c. \<lparr>mq_gate = ga_id g, mq_check = gc_id c, mq_prompt = gc_prompt c,
                     mq_provided = (manual_note notes (gc_id c) \<noteq> JUndef)\<rparr>)
               (filter (\<lambda>c. gc_kind c = Check_manual \<and> gc_required c) (ga_checks g))) gs)"

definition preflight_manual_evidence :: "string option \<Rightarrow> jv \<Rightarrow> string \<Rightarrow> fields \<Rightarrow> string + manual_preflight" where
  "preflight_manual_evidence profile doc selector raw =
     (case select_gates profile doc selector of
        Inl e \<Rightarrow> Inl e
      | Inr s \<Rightarrow>
          let qs = required_manual_checks (trimmed_manual_evidence raw) (gs_ordered s) (gs_gates s);
              missing = map mq_check (filter (\<lambda>q. \<not> mq_provided q) qs)
          in Inr \<lparr>mp_requested = gs_requested s, mp_checks = qs, mp_provided = map mq_check (filter mq_provided qs),
                  mp_missing = missing, mp_ready = (missing = [])\<rparr>)"

subsection \<open>The run\<close>

fun run_ordered :: "check_context \<Rightarrow> gate list \<Rightarrow> gate_entry list \<Rightarrow> string list \<Rightarrow> string + gate_entry list" where
  "run_ordered cx gs done [] = Inr done"
| "run_ordered cx gs done (i # is) =
     (case gate_named gs i of
        None \<Rightarrow> run_ordered cx gs done is
      | Some g \<Rightarrow>
          (case evaluate_gate cx gs done g of
             Inl e \<Rightarrow> Inl e
           | Inr entry \<Rightarrow> run_ordered cx gs (done @ [entry]) is))"

definition overall_status :: "string list \<Rightarrow> gate_entry list \<Rightarrow> gate_status" where
  "overall_status requested entries =
     fold (\<lambda>e st. if ge_id e \<in> set requested \<or> ge_required e then worst_status st (ge_status e) else st) entries Gate_PASS"

definition mapped_statuses :: "plan_validation option \<Rightarrow> gate_entry list \<Rightarrow> gate_status list" where
  "mapped_statuses pv entries =
     (case pv of None \<Rightarrow> []
      | Some v \<Rightarrow> map (\<lambda>i. case entry_of entries i of Some e \<Rightarrow> ge_status e | None \<Rightarrow> Gate_NOT_RUN) (pv_gates v))"

text \<open>The map from check id to entry: the last entry of an id wins.\<close>

definition evidence_by_check :: "gate_entry list \<Rightarrow> (string \<times> check_entry) list" where
  "evidence_by_check entries =
     fold (\<lambda>c m. put_status (ce_check c) c m) (concat (map ge_checks entries)) []"

definition manual_entry_note :: "string \<Rightarrow> evidence_entry \<Rightarrow> string option" where
  "manual_entry_note cid ev =
     (if ev_type ev = Ev_manual \<and> ev_check_id ev = Some cid \<and> ev_provided_by ev = Some ''user-command'' \<and> js_trim (ev_detail ev) \<noteq> []
      then Some (js_trim (ev_detail ev)) else None)"

definition persisted_manual_evidence :: "(string \<times> check_entry) list \<Rightarrow> (string \<times> string) list" where
  "persisted_manual_evidence m =
     fold (\<lambda>(cid, c) out. fold (\<lambda>ev o'. case manual_entry_note cid ev of Some n \<Rightarrow> put_status cid n o' | None \<Rightarrow> o') (ce_evidence c) out)
       m []"

definition prerequisite_statuses :: "gate_entry list \<Rightarrow> (string \<times> gate_status) list" where
  "prerequisite_statuses entries =
     fold (\<lambda>(i, st, src) m. put_status i st m) (concat (map ge_prereq_status entries)) []"

definition source_edge :: "string \<Rightarrow> evidence_entry \<Rightarrow> (string \<times> string) option" where
  "source_edge cid ev =
     (case (ev_run_id ev, ev_recipe ev, ev_digest ev) of
        (Some run, Some recipe, Some d) \<Rightarrow>
          if ev_type ev = Ev_artifact \<and> run \<noteq> [] \<and> recipe \<noteq> [] \<and> d \<noteq> []
          then Some (''artifact:'' @ cid @ '':'' @ recipe,
                     run @ '':'' @ d @ '':'' @ (case ev_freshness ev of Some t \<Rightarrow> t | None \<Rightarrow> ''current''))
          else None
      | _ \<Rightarrow> None)"

definition source_authority :: "candidate_binding option \<Rightarrow> gate_entry list \<Rightarrow> (string \<times> string) list" where
  "source_authority binding entries =
     fold (\<lambda>c m. fold (\<lambda>ev m'. case source_edge (ce_check c) ev of Some (k, v) \<Rightarrow> put_status k v m' | None \<Rightarrow> m') (ce_evidence c) m)
       (concat (map ge_checks entries))
       (case binding of Some b \<Rightarrow> [(''candidate'', candidate_source_authority b)] | None \<Rightarrow> [])"

record gate_run =
  gr_ok :: bool
  gr_status :: gate_status
  gr_requested :: "string list"
  gr_entries :: "gate_entry list"
  gr_plan :: "plan_validation option"
  gr_binding :: "candidate_binding option"
  gr_manual :: "(string \<times> string) list"
  gr_prereq_status :: "(string \<times> gate_status) list"
  gr_sources :: "(string \<times> string) list"
  gr_reusable :: bool

record gate_input =
  gi_profile :: "string option"
  gi_document :: jv
  gi_selector :: string
  gi_manual :: fields
  gi_authority :: plan_authority
  gi_binding :: jv

definition gate_context :: "check_context \<Rightarrow> gate_input \<Rightarrow> check_context" where
  "gate_context cx inp = cx\<lparr>cx_manual := trimmed_manual_evidence (gi_manual inp)\<rparr>"

definition conclude_run ::
  "candidate_binding option \<Rightarrow> string list \<Rightarrow> plan_validation option \<Rightarrow> gate_entry list \<Rightarrow> gate_run" where
  "conclude_run binding requested pv entries =
     (let mapped = mapped_statuses pv entries;
          full = (case pv of Some v \<Rightarrow> pv_full v | None \<Rightarrow> False);
          overall = (if full then fold (\<lambda>st acc. worst_status acc st) mapped (overall_status requested entries)
                     else overall_status requested entries);
          ok = (overall = Gate_PASS)
      in \<lparr>gr_ok = ok, gr_status = overall, gr_requested = requested, gr_entries = entries, gr_plan = pv, gr_binding = binding,
          gr_manual = persisted_manual_evidence (evidence_by_check entries),
          gr_prereq_status = prerequisite_statuses entries, gr_sources = source_authority binding entries,
          gr_reusable = (ok \<and> (pv = None \<or> full \<and> list_all (\<lambda>st. st = Gate_PASS) mapped))\<rparr>)"

definition accept_binding :: "wb_mode \<Rightarrow> jv \<Rightarrow> string + candidate_binding option" where
  "accept_binding mode v =
     (if v = JUndef then Inr None
      else case parse_candidate_binding v of
        None \<Rightarrow> Inl ''INVALID_CANDIDATE_BINDING''
      | Some b \<Rightarrow> if mode \<noteq> Mode_VERIFY then Inl ''CANDIDATE_GATE_REQUIRES_VERIFY'' else Inr (Some b))"

definition run_gates :: "check_context \<Rightarrow> gate_input \<Rightarrow> string + gate_run" where
  "run_gates cx inp =
     (case accept_binding (cx_mode cx) (gi_binding inp) of
        Inl e \<Rightarrow> Inl e
      | Inr binding \<Rightarrow>
     (case select_gates (gi_profile inp) (gi_document inp) (gi_selector inp) of
        Inl e \<Rightarrow> Inl e
      | Inr s \<Rightarrow>
     (case resolve_plan_authority (gi_authority inp) (gi_selector inp) (gs_gates s) (gs_ordered s) (cx_facts cx) of
        Inl e \<Rightarrow> Inl e
      | Inr pv \<Rightarrow>
     (case run_ordered (gate_context cx inp) (gs_gates s) [] (gs_ordered s) of
        Inl e \<Rightarrow> Inl e
      | Inr entries \<Rightarrow> Inr (conclude_run binding (gs_requested s) pv entries)))))"

end
