(* ===== verification/Gate_Safety.thy ===== *)
theory Gate_Safety
  imports Gate_Run
begin

section \<open>What a gate run promises\<close>

text \<open>
  Facts about one gate (\<open>gate_status_pass\<close>), one evaluation (\<open>evaluate_gate_pass\<close>), the loop over
  the order (\<open>run_ordered_entries\<close>) and the verdict (\<open>overall_pass\<close>), and the properties of a
  whole run that rest on them.
\<close>

named_theorems gate_facts

subsection \<open>Statuses\<close>

definition check_satisfied :: "'a check_facts_scheme \<Rightarrow> bool" where
  "check_satisfied c =
     (case ce_status c of
        Gate_PASS \<Rightarrow> True
      | Gate_NOT_RUN \<Rightarrow> \<not> ce_required c
      | _ \<Rightarrow> \<not> ce_blocking c)"

lemma gate_status_pass [gate_facts]:
  "gv_status (gate_status_from_checks cs) = Gate_PASS \<longleftrightarrow> (\<forall>c\<in>set cs. check_satisfied c)"
proof -
  have c: "check_satisfied c \<longleftrightarrow> \<not> (ce_status c = Gate_FAIL \<and> ce_blocking c) \<and> \<not> (ce_status c = Gate_BLOCKED \<and> ce_blocking c)
      \<and> \<not> (ce_status c = Gate_NOT_RUN \<and> ce_required c)" for c
    by (cases "ce_status c") (simp_all add: check_satisfied_def)
  show ?thesis unfolding c by (auto simp: gate_status_from_checks_def Let_def filter_empty_conv)
qed

lemma worst_status_pass [gate_facts]: "worst_status a b = Gate_PASS \<longleftrightarrow> a = Gate_PASS \<and> b = Gate_PASS"
  by (cases a; cases b) (simp_all add: worst_status_def)

lemma overall_fold: "fold (\<lambda>e st. if P e then worst_status st (ge_status e) else st) es st = Gate_PASS \<longleftrightarrow>
    st = Gate_PASS \<and> (\<forall>e\<in>set es. P e \<longrightarrow> ge_status e = Gate_PASS)"
  by (induction es arbitrary: st) (auto simp: worst_status_pass)

lemma overall_pass [gate_facts]:
  "overall_status requested es = Gate_PASS \<longleftrightarrow>
     (\<forall>e\<in>set es. ge_id e \<in> set requested \<or> ge_required e \<longrightarrow> ge_status e = Gate_PASS)"
  unfolding overall_status_def by (simp add: overall_fold[where P = "\<lambda>e. ge_id e \<in> set requested \<or> ge_required e"])

lemma mapped_fold: "fold (\<lambda>st acc. worst_status acc st) ss acc = Gate_PASS \<longleftrightarrow> acc = Gate_PASS \<and> (\<forall>s\<in>set ss. s = Gate_PASS)"
  by (induction ss arbitrary: acc) (auto simp: worst_status_pass)

lemma worst_status_upper: "status_rank a \<le> status_rank (worst_status a b)" "status_rank b \<le> status_rank (worst_status a b)"
  by (simp_all add: worst_status_def)

subsection \<open>Prerequisites\<close>

lemma entry_of_snoc: "entry_of (done @ [e]) i = (if ge_id e = i then Some e else entry_of done i)"
  by (simp add: entry_of_def)

lemma entry_of_Some: "entry_of done i = Some e \<Longrightarrow> e \<in> set done \<and> ge_id e = i"
  by (auto simp: entry_of_def find_Some_iff) (metis in_set_conv_nth length_rev set_rev)

lemma entry_of_distinct: "distinct (map ge_id done) \<Longrightarrow> entry_of done i = Some e \<longleftrightarrow> e \<in> set done \<and> ge_id e = i"
proof
  assume d: "distinct (map ge_id done)" and e: "e \<in> set done \<and> ge_id e = i"
  then have "entry_of done i \<noteq> None" unfolding entry_of_def find_None_iff by auto
  then obtain e' where e': "entry_of done i = Some e'" by auto
  then have "e' \<in> set done" "ge_id e' = ge_id e" using entry_of_Some e by auto
  then have "e' = e" using d e by (auto simp: distinct_map dest: inj_onD)
  with e' show "entry_of done i = Some e" by simp
qed (rule entry_of_Some)

definition prerequisite_holds :: "gate list \<Rightarrow> gate_entry list \<Rightarrow> string \<Rightarrow> bool" where
  "prerequisite_holds gs done p =
     ((case gate_named gs p of Some g \<Rightarrow> \<not> ga_blocking g | None \<Rightarrow> False)
      \<or> (\<exists>e. entry_of done p = Some e \<and> ge_status e = Gate_PASS))"

lemma prerequisites_none: "snd (check_prerequisites gs done acc ps) = None \<longleftrightarrow> (\<forall>p\<in>set ps. prerequisite_holds gs done p)"
  by (induction gs "done" acc ps rule: check_prerequisites.induct)
    (auto simp: prerequisite_holds_def Let_def split: option.splits if_splits)

subsection \<open>One gate\<close>

lemma evaluate_checks_each:
  "evaluate_checks cx gid cs = Inr rs \<Longrightarrow> list_all2 (\<lambda>c r. evaluate_check cx gid c = Inr r) cs rs"
  by (induction cs arbitrary: rs) (auto split: sum.splits)

lemma evaluate_gate_facts:
  assumes "evaluate_gate cx gs done g = Inr e"
  shows "ge_id e = ga_id g" "ge_required e = ga_required g" "ge_blocking e = ga_blocking g"
    "ge_prerequisites e = ga_prerequisites g"
  using assms by (auto simp: evaluate_gate_def Let_def split: prod.splits if_splits sum.splits)

lemma evaluate_gate_pass:
  assumes "evaluate_gate cx gs done g = Inr e" "ge_status e = Gate_PASS"
  shows "(\<forall>p\<in>set (ga_prerequisites g). prerequisite_holds gs done p)
    \<and> list_all2 (\<lambda>c ce. \<exists>as. evaluate_check cx (ga_id g) c = Inr (ce, as)) (ga_checks g) (ge_checks e)
    \<and> (\<forall>c\<in>set (ge_checks e). check_satisfied c)"
proof -
  obtain st why where p: "check_prerequisites gs done [] (ga_prerequisites g) = (st, why)" by fastforce
  have w: "why = None" using assms p by (auto simp: evaluate_gate_def Let_def split: if_splits)
  with assms p obtain rs where r: "evaluate_checks cx (ga_id g) (ga_checks g) = Inr rs"
    and e: "ge_checks e = map fst rs" "ge_status e = gv_status (gate_status_from_checks (map fst rs))"
    by (auto simp: evaluate_gate_def Let_def split: sum.splits)
  have "list_all2 (\<lambda>c ce. \<exists>as. evaluate_check cx (ga_id g) c = Inr (ce, as)) (ga_checks g) (map fst rs)"
    using evaluate_checks_each[OF r] unfolding list_all2_map2 by (rule list_all2_mono) auto
  moreover have "\<forall>p\<in>set (ga_prerequisites g). prerequisite_holds gs done p"
    using prerequisites_none[of gs "done" "[]" "ga_prerequisites g"] p w by simp
  moreover have "gv_status (gate_status_from_checks (ge_checks e)) = Gate_PASS" using e assms(2) by simp
  ultimately show ?thesis unfolding gate_status_pass using e(1) by simp
qed

subsection \<open>The loop\<close>

definition entries_evaluated :: "check_context \<Rightarrow> gate list \<Rightarrow> gate_entry list \<Rightarrow> bool" where
  "entries_evaluated cx gs es =
     (\<forall>xs e ys. es = xs @ e # ys \<longrightarrow> (\<exists>g. gate_named gs (ge_id e) = Some g \<and> evaluate_gate cx gs xs g = Inr e))"

lemma entries_evaluated_snoc:
  "entries_evaluated cx gs es \<Longrightarrow> gate_named gs (ge_id e) = Some g \<Longrightarrow> evaluate_gate cx gs es g = Inr e
   \<Longrightarrow> entries_evaluated cx gs (es @ [e])"
  unfolding entries_evaluated_def
proof (intro allI impI)
  fix xs x ys
  assume es: "\<forall>xs e ys. es = xs @ e # ys \<longrightarrow> (\<exists>g. gate_named gs (ge_id e) = Some g \<and> evaluate_gate cx gs xs g = Inr e)"
    and g: "gate_named gs (ge_id e) = Some g" "evaluate_gate cx gs es g = Inr e" and x: "es @ [e] = xs @ x # ys"
  show "\<exists>g. gate_named gs (ge_id x) = Some g \<and> evaluate_gate cx gs xs g = Inr x"
  proof (cases ys rule: rev_cases)
    case Nil
    with x g show ?thesis by auto
  next
    case (snoc ys' y)
    with x have "es = xs @ x # ys'" by simp
    with es show ?thesis by blast
  qed
qed

lemma run_ordered_entries:
  "run_ordered cx gs done ids = Inr es \<Longrightarrow> entries_evaluated cx gs done \<Longrightarrow> set ids \<subseteq> ga_id ` set gs \<Longrightarrow>
   entries_evaluated cx gs es \<and> map ge_id es = map ge_id done @ ids"
proof (induction ids arbitrary: "done")
  case (Cons i ids)
  have "gate_named gs i \<noteq> None" using Cons.prems(3) unfolding gate_named_def find_None_iff by auto
  then obtain g where g: "gate_named gs i = Some g" by auto
  then obtain e where e: "evaluate_gate cx gs done g = Inr e" and run: "run_ordered cx gs (done @ [e]) ids = Inr es"
    using Cons.prems(1) by (auto split: sum.splits)
  have i: "ge_id e = i" using evaluate_gate_facts(1)[OF e] gate_named_Some[OF g] by simp
  then have "entries_evaluated cx gs (done @ [e])" using entries_evaluated_snoc Cons.prems(2) g e by simp
  from Cons.IH[OF run this] i Cons.prems(3) show ?case by simp
qed simp

subsection \<open>Selection\<close>

lemma select_gates_facts:
  assumes "select_gates profile doc selector = Inr s"
  shows "distinct (map ga_id (gs_gates s))" "gate_named (gs_gates s) ''b6'' = Some safety_gate"
    "gs_requested s = resolve_selector selector (gs_gates s)" "gs_requested s \<noteq> []"
    "set (gs_requested s) \<subseteq> ga_id ` set (gs_gates s)"
    "order_gates (gs_requested s) (gs_gates s) = Inr (gs_ordered s)"
    "\<exists>project errors. parse_gates_document doc = (project, errors) \<and> errors = []
       \<and> effective_gates profile gate_catalog project = Inr (gs_gates s)"
proof -
  obtain gs where gs: "load_gate_list profile doc = Inr gs"
    using assms by (auto simp: select_gates_def split: sum.splits)
  then obtain project where p: "parse_gates_document doc = (project, [])" "effective_gates profile gate_catalog project = Inr gs"
    by (auto simp: load_gate_list_def split: prod.splits if_splits)
  have unk: "filter (\<lambda>i. i \<notin> set (map ga_id gs)) (resolve_selector selector gs) = []"
    using assms gs by (simp add: select_gates_def Let_def split: sum.splits if_splits)
  have s: "gs_gates s = gs" "gs_requested s = resolve_selector selector gs" "resolve_selector selector gs \<noteq> []"
    "order_gates (resolve_selector selector gs) gs = Inr (gs_ordered s)"
    using assms gs unk by (auto simp: select_gates_def Let_def split: sum.splits if_splits)
  show "distinct (map ga_id (gs_gates s))" "gate_named (gs_gates s) ''b6'' = Some safety_gate"
    using effective_gates_distinct effective_safety_gate p s by auto
  show "gs_requested s = resolve_selector selector (gs_gates s)" "gs_requested s \<noteq> []"
    "order_gates (gs_requested s) (gs_gates s) = Inr (gs_ordered s)" using s by auto
  show "set (gs_requested s) \<subseteq> ga_id ` set (gs_gates s)" using unk s by (auto simp: filter_empty_conv)
  show "\<exists>project errors. parse_gates_document doc = (project, errors) \<and> errors = []
       \<and> effective_gates profile gate_catalog project = Inr (gs_gates s)" using p s by auto
qed

lemma reachable_declared:
  assumes "order_gates ids gs = Inr out"
  shows "set out \<subseteq> ga_id ` set gs"
proof
  fix i assume "i \<in> set out"
  then have "i \<in> reachable_gates gs ids" using order_gates_Inr[OF assms] by simp
  from ordered_no_fault(1)[OF assms this] show "i \<in> ga_id ` set gs" by (auto dest: gate_by_id_declared)
qed

definition run_selection :: "gate_input \<Rightarrow> gate_selection \<Rightarrow> bool" where
  "run_selection inp s = (select_gates (gi_profile inp) (gi_document inp) (gi_selector inp) = Inr s)"

lemma run_gates_facts:
  assumes "run_gates cx inp = Inr r"
  obtains s where "run_selection inp s" "gr_requested r = gs_requested s"
    "accept_binding (cx_mode cx) (gi_binding inp) = Inr (gr_binding r)"
    "resolve_plan_authority (gi_authority inp) (gi_selector inp) (gs_gates s) (gs_ordered s) (cx_facts cx) = Inr (gr_plan r)"
    "entries_evaluated (gate_context cx inp) (gs_gates s) (gr_entries r)" "map ge_id (gr_entries r) = gs_ordered s"
    "r = conclude_run (gr_binding r) (gs_requested s) (gr_plan r) (gr_entries r)"
proof -
  from assms obtain b s pv es where
      b: "accept_binding (cx_mode cx) (gi_binding inp) = Inr b"
    and s: "select_gates (gi_profile inp) (gi_document inp) (gi_selector inp) = Inr s"
    and pv: "resolve_plan_authority (gi_authority inp) (gi_selector inp) (gs_gates s) (gs_ordered s) (cx_facts cx) = Inr pv"
    and es: "run_ordered (gate_context cx inp) (gs_gates s) [] (gs_ordered s) = Inr es"
    and r: "r = conclude_run b (gs_requested s) pv es"
    by (auto simp: run_gates_def split: sum.splits)
  have sub: "set (gs_ordered s) \<subseteq> ga_id ` set (gs_gates s)" by (rule reachable_declared[OF select_gates_facts(6)[OF s]])
  have f: "gr_requested r = gs_requested s" "gr_plan r = pv" "gr_entries r = es" "gr_binding r = b"
    by (simp_all add: r conclude_run_def Let_def)
  have "entries_evaluated (gate_context cx inp) (gs_gates s) es \<and> map ge_id es = gs_ordered s"
    using run_ordered_entries[OF es _ sub] by (simp add: entries_evaluated_def)
  with that[of s] s pv b f r show thesis by (simp add: run_selection_def)
qed

lemma run_gates_ok: "gr_ok (conclude_run b req pv es) \<Longrightarrow> overall_status req es = Gate_PASS"
  by (auto simp: conclude_run_def Let_def mapped_fold split: if_splits)


subsection \<open>A passing run\<close>

definition blocking_needs :: "gate list \<Rightarrow> string \<Rightarrow> string \<Rightarrow> bool" where
  "blocking_needs gs i p =
     (needs gs i p \<and> (case gate_named gs p of Some g \<Rightarrow> ga_blocking g | None \<Rightarrow> True))"

text \<open>The gate was evaluated in this run, on the checks it declares, and all of them are satisfied.\<close>

definition gate_earned :: "check_context \<Rightarrow> gate list \<Rightarrow> gate_entry list \<Rightarrow> string \<Rightarrow> bool" where
  "gate_earned cx gs es i =
     (\<exists>e g. e \<in> set es \<and> ge_id e = i \<and> gate_named gs i = Some g \<and> ge_status e = Gate_PASS
        \<and> list_all2 (\<lambda>c ce. \<exists>as. evaluate_check cx i c = Inr (ce, as)) (ga_checks g) (ge_checks e)
        \<and> (\<forall>ce\<in>set (ge_checks e). check_satisfied ce))"

lemma entry_earned:
  assumes es: "entries_evaluated cx gs es" and e: "e \<in> set es" "ge_status e = Gate_PASS"
  shows "gate_earned cx gs es (ge_id e)"
proof -
  from e(1) obtain xs ys where "es = xs @ e # ys" by (meson split_list)
  with es obtain g where g: "gate_named gs (ge_id e) = Some g" "evaluate_gate cx gs xs g = Inr e"
    unfolding entries_evaluated_def by blast
  have "ga_id g = ge_id e" using evaluate_gate_facts(1)[OF g(2)] by simp
  then show ?thesis using evaluate_gate_pass[OF g(2) e(2)] e g unfolding gate_earned_def by auto
qed

lemma blocking_step:
  assumes es: "entries_evaluated cx gs es" and d: "distinct (map ga_id gs)"
    and i: "gate_earned cx gs es i" "distinct (map ge_id es)" and n: "blocking_needs gs i p"
  shows "gate_earned cx gs es p"
proof -
  from i obtain e where e: "e \<in> set es" "ge_id e = i" "ge_status e = Gate_PASS" by (auto simp: gate_earned_def)
  from e(1) obtain xs ys where x: "es = xs @ e # ys" by (meson split_list)
  with es e(2) obtain g where g: "gate_named gs i = Some g" "evaluate_gate cx gs xs g = Inr e"
    unfolding entries_evaluated_def by blast
  have "p \<in> set (ga_prerequisites g)"
    using n g(1) by (auto simp: blocking_needs_def needs_def gate_by_id_named[OF d])
  then have "prerequisite_holds gs xs p" using evaluate_gate_pass[OF g(2) e(3)] by simp
  then obtain e' where "entry_of xs p = Some e'" "ge_status e' = Gate_PASS"
    using n by (auto simp: prerequisite_holds_def blocking_needs_def split: option.splits)
  then have "e' \<in> set es" "ge_id e' = p" "ge_status e' = Gate_PASS" using entry_of_Some x by auto
  then show ?thesis using entry_earned[OF es] by auto
qed

lemma requested_earned:
  assumes "run_gates cx inp = Inr r" "gr_ok r" "run_selection inp s" "i \<in> set (gr_requested r)"
  shows "gate_earned (gate_context cx inp) (gs_gates s) (gr_entries r) i"
    "entries_evaluated (gate_context cx inp) (gs_gates s) (gr_entries r)" "distinct (map ge_id (gr_entries r))"
proof -
  from run_gates_facts[OF assms(1)] obtain s' where s': "run_selection inp s'" "gr_requested r = gs_requested s'"
    "entries_evaluated (gate_context cx inp) (gs_gates s') (gr_entries r)" "map ge_id (gr_entries r) = gs_ordered s'"
    "r = conclude_run (gr_binding r) (gs_requested s') (gr_plan r) (gr_entries r)" by blast
  have s: "s' = s" using s'(1) assms(3) by (simp add: run_selection_def)
  note sel = select_gates_facts[OF s'(1)[unfolded run_selection_def s]]
  note order = order_gates_Inr[OF sel(6)]
  show ev: "entries_evaluated (gate_context cx inp) (gs_gates s) (gr_entries r)" using s'(3) s by simp
  show "distinct (map ge_id (gr_entries r))" using order s'(4) s by simp
  have "i \<in> set (map ge_id (gr_entries r))" using order assms(4) reachable_self s'(2,4) s by auto
  then obtain e where e: "e \<in> set (gr_entries r)" "ge_id e = i" by auto
  have "overall_status (gs_requested s) (gr_entries r) = Gate_PASS"
    using run_gates_ok[of "gr_binding r" "gs_requested s'" "gr_plan r" "gr_entries r"] s'(5) assms(2) s by simp
  then have "ge_status e = Gate_PASS" using e assms(4) s'(2) s by (simp add: overall_pass)
  from entry_earned[OF ev e(1) this] e(2) show "gate_earned (gate_context cx inp) (gs_gates s) (gr_entries r) i" by simp
qed

text \<open>C27: when a gate run passes, every requested gate, and every gate it reaches through blocking
  prerequisites, was evaluated in the same run on exactly the checks it declares, with each required
  check run and no blocking check failed or blocked.\<close>

theorem gate_pass_is_earned:
  assumes "run_gates cx inp = Inr r" "gr_ok r" "run_selection inp s" "i \<in> set (gr_requested r)"
    and "(blocking_needs (gs_gates s))\<^sup>*\<^sup>* i p"
  shows "gate_earned (gate_context cx inp) (gs_gates s) (gr_entries r) p"
  using assms(5)
proof (induction rule: rtranclp_induct)
  case base
  show ?case by (rule requested_earned(1)[OF assms(1-4)])
next
  case (step p q)
  show ?case
    by (rule blocking_step[OF requested_earned(2)[OF assms(1-4)] _ step.IH requested_earned(3)[OF assms(1-4)] step.hyps(2)])
      (rule select_gates_facts(1)[OF assms(3)[unfolded run_selection_def]])
qed

subsection \<open>The safety gate\<close>

definition development_safe :: "safety_facts \<Rightarrow> bool" where
  "development_safe f =
     (sf_write_policy f = Some Worker_first_strict
      \<and> (sf_writes_denied f = Some True \<or> sf_blocked_attempts f = Some 0)
      \<and> (sf_has_delegation f = Some False
         \<or> sf_review_status f = Some REVIEWED \<and> sf_review_verdict f = Some True
           \<and> sf_violations f \<in> {None, Some 0} \<and> sf_reviewed_hash f \<noteq> None \<and> sf_reviewed_hash f = sf_current_hash f)
      \<and> (case sf_lease_status f of None \<Rightarrow> False | Some st \<Rightarrow> st = Lease_active \<longrightarrow> sf_lease_reason f \<noteq> None)
      \<and> sf_by_commander f = Some True)"

definition facts_unblocked :: "safety_facts \<Rightarrow> bool" where
  "facts_unblocked f = (sf_blocked_reason f = None \<or> sf_blocked_reason f = Some [])"

lemma assertions_exact:
  "(\<forall>n\<in>set safety_checks. fst (evaluate_assertion n f) = Gate_PASS) \<longleftrightarrow> development_safe f"
proof -
  have r: "st \<noteq> PENDING_REVIEW \<and> st \<noteq> STALE \<longleftrightarrow> st = REVIEWED" for st by (cases st) simp_all
  show ?thesis
  proof (cases "sf_has_delegation f = Some False")
    case True
    then show ?thesis
      by (auto simp: safety_checks_def development_safe_def split: option.splits if_splits)
  next
    case False
    then show ?thesis
      using r by (auto simp: safety_checks_def development_safe_def Let_def split: option.splits if_splits)
  qed
qed

lemma evaluate_safety_pass:
  assumes "gc_kind c = Check_worker_first" "gc_safety c = Some n" "evaluate_check cx gid c = Inr (ce, as)"
  shows "ce_status ce = Gate_PASS \<longleftrightarrow> (\<exists>f. cx_facts cx = Some f \<and> facts_unblocked f \<and> fst (evaluate_assertion n f) = Gate_PASS)"
    "ce_required ce = gc_required c" "ce_blocking ce = gc_blocking c"
proof -
  show "ce_required ce = gc_required c" "ce_blocking ce = gc_blocking c"
    using assms(3) by (auto simp: evaluate_check_def Let_def split: check_outcome.splits)
  have k: "evaluate_kind cx gid c = evaluate_safety cx gid c" using assms(1) by (simp add: evaluate_kind_def)
  show "ce_status ce = Gate_PASS \<longleftrightarrow> (\<exists>f. cx_facts cx = Some f \<and> facts_unblocked f \<and> fst (evaluate_assertion n f) = Gate_PASS)"
  proof (cases "cx_facts cx")
    case None
    then show ?thesis using assms(2,3) k by (auto simp: evaluate_check_def Let_def evaluate_safety_def not_run_def)
  next
    case (Some f)
    obtain st d where ev: "evaluate_assertion n f = (st, d)" by fastforce
    show ?thesis using assms(2,3) k Some ev
      by (cases st) (auto simp: evaluate_check_def Let_def evaluate_safety_def not_run_def blocked_def passed_def failed_def
          facts_unblocked_def split: if_splits)
  qed
qed

lemma safety_gate_checks:
  "list_all (\<lambda>c. gc_kind c = Check_worker_first \<and> gc_required c \<and> gc_blocking c) (ga_checks safety_gate)"
  "map gc_safety (ga_checks safety_gate) = map Some safety_checks"
  by (simp_all add: safety_gate_facts b6_checks_def catalog_check_def safety_checks_def)

lemma safety_gate_earned:
  assumes "gate_earned cx gs es ''b6''" "gate_named gs ''b6'' = Some safety_gate"
  shows "\<exists>f. cx_facts cx = Some f \<and> facts_unblocked f \<and> development_safe f"
proof -
  from assms(1) obtain e :: gate_entry and g where g: "gate_named gs ''b6'' = Some g"
    and evg: "list_all2 (\<lambda>c ce. \<exists>as. evaluate_check cx ''b6'' c = Inr (ce, as)) (ga_checks g) (ge_checks e)"
    and sat: "\<forall>ce\<in>set (ge_checks e). check_satisfied ce"
    unfolding gate_earned_def by blast
  have ev: "list_all2 (\<lambda>c ce. \<exists>as. evaluate_check cx ''b6'' c = Inr (ce, as)) (ga_checks safety_gate) (ge_checks e)"
    using evg g assms(2) by simp
  have each: "\<exists>f. cx_facts cx = Some f \<and> facts_unblocked f \<and> fst (evaluate_assertion n f) = Gate_PASS" if n: "n \<in> set safety_checks" for n
  proof -
    have "Some n \<in> set (map gc_safety (ga_checks safety_gate))" using n safety_gate_checks(2) by simp
    then obtain c where c: "c \<in> set (ga_checks safety_gate)" "gc_safety c = Some n" by auto
    then have k: "gc_kind c = Check_worker_first" "gc_required c" "gc_blocking c"
      using safety_gate_checks(1) by (auto simp: list_all_iff)
    from c(1) obtain j where j: "j < length (ga_checks safety_gate)" "ga_checks safety_gate ! j = c" by (auto simp: in_set_conv_nth)
    have len: "length (ge_checks e) = length (ga_checks safety_gate)" using ev by (simp add: list_all2_lengthD)
    from list_all2_nthD[OF ev j(1)] j(2) obtain as where "evaluate_check cx ''b6'' c = Inr (ge_checks e ! j, as)" by auto
    then obtain ce where ce: "ce \<in> set (ge_checks e)" "evaluate_check cx ''b6'' c = Inr (ce, as)"
      using j(1) len nth_mem by metis
    note pass = evaluate_safety_pass[OF k(1) c(2) ce(2)]
    have "check_satisfied ce" using sat ce(1) by blast
    then have "ce_status ce = Gate_PASS" using k(2,3) pass(2,3) by (cases "ce_status ce") (simp_all add: check_satisfied_def)
    then show ?thesis using pass(1) by simp
  qed
  have "Strict_policy_active \<in> set safety_checks" by (simp add: safety_checks_def)
  from each[OF this] obtain f where f: "cx_facts cx = Some f" "facts_unblocked f" by blast
  then have "\<forall>n\<in>set safety_checks. fst (evaluate_assertion n f) = Gate_PASS" using each by fastforce
  with f show ?thesis using assertions_exact by blast
qed

lemma final_selector_safety:
  assumes "select_gates profile doc selector = Inr s" "is_final_plan_selector selector"
  shows "''b6'' \<in> set (gs_requested s)"
proof -
  have g: "safety_gate \<in> set (gs_gates s)" "ga_id safety_gate = ''b6''"
    using select_gates_facts(2)[OF assms(1)] gate_named_Some by auto
  have "\<not> quant_gate_id_re ''b6''" by (simp add: quant_gate_id_re_def starts_with_def)
  then show ?thesis
    using g assms(2) unfolding select_gates_facts(3)[OF assms(1)] is_final_plan_selector_def resolve_selector_def
    by (force simp: Let_def)
qed

text \<open>C28: whatever gates.yaml declares and whatever the profile, a passing run of a final selector
  (base or all) had unblocked injected facts, and they are those of a safe development state: the strict
  policy is active, no unauthorised write was attempted, the latest delegation is reviewed with the
  current diff and no violation, no lease is unexplained, and the commander started the run.\<close>

theorem final_pass_implies_safety:
  assumes "run_gates cx inp = Inr r" "gr_ok r" "is_final_plan_selector (gi_selector inp)"
  shows "\<exists>f. cx_facts cx = Some f \<and> facts_unblocked f \<and> development_safe f"
proof -
  from run_gates_facts[OF assms(1)] obtain s where s: "run_selection inp s" "gr_requested r = gs_requested s" by blast
  note sel = s(1)[unfolded run_selection_def]
  have "''b6'' \<in> set (gr_requested r)" using final_selector_safety[OF sel assms(3)] s(2) by simp
  from requested_earned(1)[OF assms(1,2) s(1) this]
  have "gate_earned (gate_context cx inp) (gs_gates s) (gr_entries r) ''b6''" .
  from safety_gate_earned[OF this select_gates_facts(2)[OF sel]] show ?thesis by (simp add: gate_context_def)
qed


subsection \<open>Manual evidence\<close>

definition plain_name :: "string \<Rightarrow> bool" where
  "plain_name k = (k \<noteq> ''__proto__'' \<and> k \<notin> set object_method_names)"

lemma manual_note_plain: "plain_name k \<Longrightarrow> manual_note notes k \<noteq> JUndef \<longleftrightarrow> map_of notes k \<noteq> None"
  by (auto simp: manual_note_def plain_name_def inherited_def split: option.splits)

lemma trimmed_notes: "map_of (trimmed_manual_evidence raw) k = Some n \<Longrightarrow> n \<noteq> [] \<and> js_trim n = n"
proof -
  assume "map_of (trimmed_manual_evidence raw) k = Some n"
  then have "(k, n) \<in> set (trimmed_manual_evidence raw)" by (rule map_of_SomeD)
  then show ?thesis by (auto simp: trimmed_manual_evidence_def map_filter_set split: jv.splits if_splits)
qed

lemma evaluate_manual_plain:
  assumes "plain_name (gc_id c)" "cx_manual cx = trimmed_manual_evidence raw"
  shows "(\<exists>ev. evaluate_manual cx c = passed ev []) \<longleftrightarrow>
     cx_provenance cx = User_command \<and> manual_note (trimmed_manual_evidence raw) (gc_id c) \<noteq> JUndef"
  using assms trimmed_notes[of raw "gc_id c"]
  by (auto simp: evaluate_manual_def manual_note_def inherited_def plain_name_def not_run_def passed_def split: option.splits)

lemma evaluate_manual_entry:
  assumes "gc_kind c = Check_manual" "evaluate_check cx gid c = Inr (ce, as)"
  shows "ce_status ce = Gate_PASS \<longleftrightarrow> (\<exists>ev. evaluate_manual cx c = passed ev [])"
  using assms unfolding evaluate_check_def evaluate_kind_def
  by (auto simp: Let_def evaluate_manual_def passed_def not_run_def split: jv.splits if_splits)

lemma required_manual_set:
  "q \<in> set (required_manual_checks notes ordered gs) \<longleftrightarrow>
     (\<exists>g\<in>set gs. ga_id g \<in> set ordered \<and> (\<exists>c\<in>set (ga_checks g). gc_kind c = Check_manual \<and> gc_required c
        \<and> q = \<lparr>mq_gate = ga_id g, mq_check = gc_id c, mq_prompt = gc_prompt c,
               mq_provided = (manual_note notes (gc_id c) \<noteq> JUndef)\<rparr>))"
  unfolding required_manual_checks_def by (auto split: if_splits)

lemma evaluate_check_entry:
  "evaluate_check cx gid c = Inr (ce, as) \<Longrightarrow>
   ce_check ce = gc_id c \<and> ce_kind ce = gc_kind c \<and> ce_required ce = gc_required c \<and> ce_blocking ce = gc_blocking c \<and> ce_gate ce = gid"
  by (auto simp: evaluate_check_def Let_def split: check_outcome.splits)

lemma entry_checks:
  assumes "evaluate_gate cx gs done g = Inr e" "ce \<in> set (ge_checks e)"
  shows "\<exists>c as. c \<in> set (ga_checks g) \<and> evaluate_check cx (ga_id g) c = Inr (ce, as)"
proof -
  from assms obtain rs where r: "evaluate_checks cx (ga_id g) (ga_checks g) = Inr rs" "ge_checks e = map fst rs"
    by (auto simp: evaluate_gate_def Let_def split: prod.splits if_splits sum.splits)
  with assms(2) obtain as where "(ce, as) \<in> set rs" by auto
  then obtain j where j: "j < length rs" "rs ! j = (ce, as)" by (auto simp: in_set_conv_nth)
  note each = evaluate_checks_each[OF r(1)]
  have "j < length (ga_checks g)" using each j(1) by (simp add: list_all2_lengthD)
  then show ?thesis using list_all2_nthD2[OF each j(1)] j(2) nth_mem by auto
qed

lemma run_entry_check:
  assumes "entries_evaluated cx gs es" "e \<in> set es" "ce \<in> set (ge_checks e)"
  shows "\<exists>g c as. gate_named gs (ge_id e) = Some g \<and> c \<in> set (ga_checks g) \<and> evaluate_check cx (ge_id e) c = Inr (ce, as)"
proof -
  from assms(2) obtain xs ys where "es = xs @ e # ys" by (meson split_list)
  with assms(1) obtain g where g: "gate_named gs (ge_id e) = Some g" "evaluate_gate cx gs xs g = Inr e"
    unfolding entries_evaluated_def by blast
  then show ?thesis using entry_checks[OF g(2) assms(3)] evaluate_gate_facts(1)[OF g(2)] by auto
qed

lemma preflight_facts:
  assumes "preflight_manual_evidence profile doc selector raw = Inr m"
  obtains s where "select_gates profile doc selector = Inr s" "mp_requested m = gs_requested s"
    "mp_checks m = required_manual_checks (trimmed_manual_evidence raw) (gs_ordered s) (gs_gates s)"
    "mp_provided m = map mq_check (filter mq_provided (mp_checks m))"
    "mp_ready m \<longleftrightarrow> (\<forall>q\<in>set (mp_checks m). mq_provided q)"
  using assms by (auto simp: preflight_manual_evidence_def Let_def filter_empty_conv split: sum.splits)

text \<open>C32: the preflight resolves the selection of the run, and it predicts each required manual check
  the run evaluates: with notes from the user command the check passes exactly when the preflight counts
  it as provided, and with notes from the model it never passes. A ready preflight provides them all.
  (The id must not name a member of \<open>Object.prototype\<close>.)\<close>

theorem preflight_predicts_manual:
  assumes pre: "preflight_manual_evidence (gi_profile inp) (gi_document inp) (gi_selector inp) (gi_manual inp) = Inr m"
    and run: "run_gates cx inp = Inr r"
    and ce: "e \<in> set (gr_entries r)" "ce \<in> set (ge_checks e)" "ce_kind ce = Check_manual" "ce_required ce" "plain_name (ce_check ce)"
  shows "mp_requested m = gr_requested r
     \<and> (ce_status ce = Gate_PASS \<longleftrightarrow> cx_provenance cx = User_command \<and> ce_check ce \<in> set (mp_provided m))
     \<and> (mp_ready m \<longrightarrow> ce_check ce \<in> set (mp_provided m))"
proof -
  from preflight_facts[OF pre] obtain s where s: "select_gates (gi_profile inp) (gi_document inp) (gi_selector inp) = Inr s"
    "mp_requested m = gs_requested s"
    "mp_checks m = required_manual_checks (trimmed_manual_evidence (gi_manual inp)) (gs_ordered s) (gs_gates s)"
    "mp_provided m = map mq_check (filter mq_provided (mp_checks m))"
    "mp_ready m \<longleftrightarrow> (\<forall>q\<in>set (mp_checks m). mq_provided q)" by blast
  from run_gates_facts[OF run] s(1) have r: "gr_requested r = gs_requested s"
    "entries_evaluated (gate_context cx inp) (gs_gates s) (gr_entries r)" "map ge_id (gr_entries r) = gs_ordered s"
    by (metis run_selection_def sum.inject(2))+
  from run_entry_check[OF r(2) ce(1,2)] obtain g c as where g: "gate_named (gs_gates s) (ge_id e) = Some g"
    and c: "c \<in> set (ga_checks g)" "evaluate_check (gate_context cx inp) (ge_id e) c = Inr (ce, as)" by blast
  note facts = evaluate_check_entry[OF c(2)]
  have ord: "ga_id g \<in> set (gs_ordered s)" "g \<in> set (gs_gates s)"
    using gate_named_Some[OF g] ce(1) r(3) by (metis imageI list.set_map)+
  let ?note = "manual_note (trimmed_manual_evidence (gi_manual inp)) (gc_id c)"
  let ?q = "\<lparr>mq_gate = ga_id g, mq_check = gc_id c, mq_prompt = gc_prompt c, mq_provided = (?note \<noteq> JUndef)\<rparr>"
  have q: "?q \<in> set (mp_checks m)"
    unfolding s(3) required_manual_set using ord c(1) ce(3,4) facts by (intro bexI[of _ g] conjI bexI[of _ c] refl) auto
  have prov: "ce_check ce \<in> set (mp_provided m) \<longleftrightarrow> ?note \<noteq> JUndef"
  proof
    assume "ce_check ce \<in> set (mp_provided m)"
    then obtain q' where "q' \<in> set (mp_checks m)" "mq_provided q'" "mq_check q' = gc_id c" using facts s(4) by auto
    then show "?note \<noteq> JUndef" unfolding s(3) required_manual_set by auto
  next
    assume "?note \<noteq> JUndef"
    then have "?q \<in> set (filter mq_provided (mp_checks m))" using q by simp
    then have "mq_check ?q \<in> set (mp_provided m)" unfolding s(4) by (metis imageI list.set_map)
    then show "ce_check ce \<in> set (mp_provided m)" using facts by simp
  qed
  have "ce_status ce = Gate_PASS \<longleftrightarrow> (\<exists>ev. evaluate_manual (gate_context cx inp) c = passed ev [])"
    using evaluate_manual_entry[OF _ c(2)] facts ce(3) by simp
  also have "\<dots> \<longleftrightarrow> cx_provenance cx = User_command \<and> ?note \<noteq> JUndef"
    using evaluate_manual_plain[of c "gate_context cx inp" "gi_manual inp"] facts ce(5) by (simp add: gate_context_def)
  finally have "ce_status ce = Gate_PASS \<longleftrightarrow> cx_provenance cx = User_command \<and> ce_check ce \<in> set (mp_provided m)"
    using prov by simp
  moreover have "mp_ready m \<longrightarrow> ce_check ce \<in> set (mp_provided m)" using q s(5) prov by fastforce
  ultimately show ?thesis using r(1) s(2) by simp
qed


subsection \<open>Plan coverage\<close>

lemma mapped_entry:
  assumes "entry_of es i = Some e"
  shows "e \<in> set es \<and> ge_id e = i"
  using entry_of_Some[OF assms] .

lemma resolve_current_plan:
  "resolve_plan_authority (Plan_current h required) selector gs effective facts = Inr pv \<Longrightarrow>
   pv = Some \<lparr>pv_hash = h, pv_gates = sort required,
              pv_full = (is_final_plan_selector selector \<and> filter (\<lambda>i. i \<notin> set effective) (sort required) = [])\<rparr>
   \<and> (\<exists>f. facts = Some f \<and> sf_plan_hash f = Some h \<and> sf_plan_current f = Some True)"
  by (cases facts) (auto simp: resolve_plan_authority_def Let_def split: if_splits)

text \<open>Evidence that a run marks as reusable under a current plan comes from a final selector, and
  every gate the plan requires was selected, evaluated in that run and passed.\<close>

theorem reusable_run_covers_plan:
  assumes run: "run_gates cx inp = Inr r" and ok: "gr_reusable r" and plan: "gi_authority inp = Plan_current h required"
  shows "is_final_plan_selector (gi_selector inp) \<and> (\<exists>f. cx_facts cx = Some f \<and> sf_plan_hash f = Some h)
     \<and> (\<forall>i\<in>set required. \<exists>s. run_selection inp s \<and> gate_earned (gate_context cx inp) (gs_gates s) (gr_entries r) i)"
proof -
  from run_gates_facts[OF run] obtain s where s: "run_selection inp s" "gr_requested r = gs_requested s"
    "resolve_plan_authority (gi_authority inp) (gi_selector inp) (gs_gates s) (gs_ordered s) (cx_facts cx) = Inr (gr_plan r)"
    "entries_evaluated (gate_context cx inp) (gs_gates s) (gr_entries r)"
    "r = conclude_run (gr_binding r) (gs_requested s) (gr_plan r) (gr_entries r)" by blast
  note cur = resolve_current_plan[OF s(3)[unfolded plan]]
  then obtain v where v: "gr_plan r = Some v" "pv_gates v = sort required"
    "pv_full v = (is_final_plan_selector (gi_selector inp) \<and> filter (\<lambda>i. i \<notin> set (gs_ordered s)) (sort required) = [])"
    by simp
  have f: "\<exists>f. cx_facts cx = Some f \<and> sf_plan_hash f = Some h" using cur by blast
  have rs: "gr_reusable (conclude_run (gr_binding r) (gs_requested s) (gr_plan r) (gr_entries r))" using ok s(5) by simp
  then have full: "pv_full v" and mapped: "list_all (\<lambda>st. st = Gate_PASS) (mapped_statuses (gr_plan r) (gr_entries r))"
    using v(1) by (auto simp: conclude_run_def Let_def)
  have "gate_earned (gate_context cx inp) (gs_gates s) (gr_entries r) i" if i: "i \<in> set required" for i
  proof -
    have "(case entry_of (gr_entries r) i of Some e \<Rightarrow> ge_status e | None \<Rightarrow> Gate_NOT_RUN) = Gate_PASS"
      using mapped i v(1,2) by (auto simp: mapped_statuses_def list_all_iff)
    then obtain e where e: "entry_of (gr_entries r) i = Some e" "ge_status e = Gate_PASS" by (auto split: option.splits)
    from entry_earned[OF s(4) _ e(2)] mapped_entry[OF e(1)] show ?thesis by auto
  qed
  then show ?thesis using f full v(3) s(1) by auto
qed

subsection \<open>Prerequisite state is that of the run\<close>

lemma assign_key_keys: "set (map fst (assign_key k v m)) = insert k (set (map fst m))"
  by (induction k v m rule: assign_key.induct) auto

lemma assign_key_set: "set (assign_key k v m) \<subseteq> insert (k, v) (set m)"
  by (induction k v m rule: assign_key.induct) auto

lemma put_status_set: "set (put_status k v m) \<subseteq> insert (k, v) (set m)"
  using assign_key_set[of k v m] by (auto simp: put_status_def)

lemma check_prerequisites_set:
  "(p, st, src) \<in> set (fst (check_prerequisites gs done acc ps)) \<Longrightarrow>
   (p, st, src) \<in> set acc \<or> p \<in> set ps \<and> src = (entry_of done p \<noteq> None)
     \<and> st = (case entry_of done p of Some e \<Rightarrow> ge_status e | None \<Rightarrow> Gate_NOT_RUN)"
proof (induction gs "done" acc ps rule: check_prerequisites.induct)
  case (2 gs "done" acc q ps)
  let ?e = "entry_of done q"
  let ?st = "case ?e of Some e \<Rightarrow> ge_status e | None \<Rightarrow> Gate_NOT_RUN"
  have "(p, st, src) \<in> set (put_status q (?st, ?e \<noteq> None) acc) \<or>
      (p \<in> set ps \<and> src = (entry_of done p \<noteq> None) \<and> st = (case entry_of done p of Some e \<Rightarrow> ge_status e | None \<Rightarrow> Gate_NOT_RUN))"
    using 2 by (auto simp: Let_def split: if_splits)
  then show ?case using put_status_set[of q "(?st, ?e \<noteq> None)" acc] by auto
qed simp

lemma evaluate_gate_prerequisites:
  assumes "evaluate_gate cx gs done g = Inr e" "(p, st, src) \<in> set (ge_prereq_status e)"
  shows "p \<in> set (ga_prerequisites g) \<and> src = (entry_of done p \<noteq> None)
     \<and> st = (case entry_of done p of Some e \<Rightarrow> ge_status e | None \<Rightarrow> Gate_NOT_RUN)"
proof -
  have "ge_prereq_status e = fst (check_prerequisites gs done [] (ga_prerequisites g))"
    using assms(1) by (auto simp: evaluate_gate_def Let_def split: prod.splits if_splits sum.splits)
  then show ?thesis using check_prerequisites_set[of p st src gs "done" "[]" "ga_prerequisites g"] assms(2) by simp
qed

lemma ordered_prefix:
  assumes "placed_after gs {} (xs @ i # ys)" "gate_by_id gs i = Some g" "p \<in> set (ga_prerequisites g)"
  shows "p \<in> set xs"
  using assms by auto

text \<open>A run never decides on a status from elsewhere: every prerequisite status a gate records
  is marked as of this run and is the status of that gate's own entry, evaluated before it.\<close>

theorem prerequisites_of_this_run:
  assumes run: "run_gates cx inp = Inr r" and e: "gr_entries r = xs @ e # ys" and p: "(p, st, src) \<in> set (ge_prereq_status e)"
  shows "src \<and> p \<in> set (ge_prerequisites e) \<and> (\<exists>e'\<in>set xs. ge_id e' = p \<and> ge_status e' = st)"
proof -
  from run_gates_facts[OF run] obtain s where s: "run_selection inp s"
    "entries_evaluated (gate_context cx inp) (gs_gates s) (gr_entries r)" "map ge_id (gr_entries r) = gs_ordered s" by blast
  note sel = select_gates_facts[OF s(1)[unfolded run_selection_def]]
  from s(2) e obtain g where g: "gate_named (gs_gates s) (ge_id e) = Some g" "evaluate_gate (gate_context cx inp) (gs_gates s) xs g = Inr e"
    unfolding entries_evaluated_def by blast
  note pre = evaluate_gate_prerequisites[OF g(2) p]
  have "placed_after (gs_gates s) {} (map ge_id xs @ ge_id e # map ge_id ys)"
    using order_gates_Inr[OF sel(6)] s(3) e by (metis list.simps(9) map_append)
  then have "p \<in> set (map ge_id xs)"
    using ordered_prefix pre g(1) gate_by_id_named[OF sel(1)] by metis
  then have "entry_of xs p \<noteq> None" unfolding entry_of_def find_None_iff by auto
  then obtain e' where e': "entry_of xs p = Some e'" by auto
  then show ?thesis using pre entry_of_Some[OF e'] evaluate_gate_facts(4)[OF g(2)] by auto
qed

end
