(* ===== verification/Gate_Examples.thy ===== *)
theory Gate_Examples
  imports Gate_Safety
begin

section \<open>A run on concrete inputs\<close>

text \<open>
  A project that replaces the base gates b0 to b5 by small ones (one of them with a manual check) and
  a context whose facts are those of a safe development state; the witnesses of the run's properties
  are evaluated on it.
\<close>

definition small_gate :: "string \<Rightarrow> string list \<Rightarrow> string \<Rightarrow> jv" where
  "small_gate i prereqs kind = JObj [(''id'', JStr i), (''prerequisites'', JArr (map JStr prereqs)),
     (''checks'', JArr [JObj [(''id'', JStr (i @ ''.1'')), (''kind'', JStr kind)]])]"

definition small_document :: jv where
  "small_document = JObj [(''gates'', JArr
     [small_gate ''b0'' [] ''config'', small_gate ''b1'' [''b0''] ''config'', small_gate ''b2'' [''b1''] ''manual'',
      small_gate ''b3'' [''b2''] ''config'', small_gate ''b4'' [''b3''] ''config'', small_gate ''b5'' [''b4''] ''config''])]"

definition safe_facts :: safety_facts where
  "safe_facts = \<lparr>sf_blocked_reason = None, sf_actor = Some Sol_commander, sf_write_policy = Some Worker_first_strict,
     sf_writes_denied = Some True, sf_blocked_attempts = Some 0, sf_has_delegation = Some False,
     sf_latest_delegation = None, sf_review_status = None, sf_current_hash = None, sf_reviewed_hash = None,
     sf_review_verdict = None, sf_violations = None, sf_lease_status = Some Lease_locked, sf_lease_reason = None,
     sf_lease_used = None, sf_lease_max = None, sf_by_commander = Some True,
     sf_plan_hash = Some ''h'', sf_plan_gates = Some [''b1''], sf_plan_current = Some True, sf_plan_blocked = None\<rparr>"

definition idle_manifest :: run_manifest where
  "idle_manifest = \<lparr>rm_run_id = [], rm_recipe = [], rm_outcome = None, rm_exit_code = None, rm_expected = [],
     rm_timed_out = False, rm_cancelled = False, rm_argv_hash = None, rm_artifacts = [], rm_validation = JUndef\<rparr>"

definition sample_context :: check_context where
  "sample_context = \<lparr>cx_project_root = ''/p'', cx_effective_root = ''/p'', cx_config_issues = [], cx_recipes = [],
     cx_mode = Mode_VERIFY, cx_manual = [], cx_provenance = User_command, cx_facts = Some safe_facts, cx_actor = None,
     cx_check_times = (\<lambda>p. (0, 5)), cx_gate_times = (\<lambda>g. (0, 7)), cx_run_recipe = (\<lambda>p r. Inl ''no runner''),
     cx_latest_attempt = (\<lambda>p r. No_attempt), cx_committed = (\<lambda>p r. None), cx_identity = (\<lambda>v. None),
     cx_eligible = (\<lambda>v r h. False), cx_artifacts = (\<lambda>p r. Inl ''NONE''), cx_glob_match = (\<lambda>p g. p = g),
     cx_source_refused = (\<lambda>p r m. None), cx_contained = (\<lambda>p root f. Some (root @ ''/'' @ f)), cx_files = (\<lambda>p root f. []),
     cx_read_json = (\<lambda>p f. Json_missing),
     cx_schema = (\<lambda>s v. \<lparr>sv_valid = False, sv_status = ''invalid'', sv_cacheable = False, sv_errors = [], sv_warnings = [],
                          sv_failed_folds = []\<rparr>)\<rparr>"

definition sample_input :: gate_input where
  "sample_input = \<lparr>gi_profile = None, gi_document = small_document, gi_selector = ''base'',
     gi_manual = [(''b2.1'', JStr '' reviewed ''), (''other'', JStr ''x'')], gi_authority = Plan_current ''h'' [''b1''],
     gi_binding = JUndef\<rparr>"

definition plain_gate :: "string \<Rightarrow> string list \<Rightarrow> check_kind \<Rightarrow> gate" where
  "plain_gate i prereqs kind =
     \<lparr>ga_id = i, ga_title = i, ga_description = [], ga_profiles = [], ga_prerequisites = prereqs, ga_required = True,
      ga_blocking = True, ga_evidence = [], ga_acceptance = [],
      ga_checks = [(catalog_check (i @ ''.1'') (i @ ''.1'') kind [])], ga_source = From_project\<rparr>"

definition small_gates :: "gate list" where
  "small_gates = [plain_gate ''b0'' [] Check_config, plain_gate ''b1'' [''b0''] Check_config, plain_gate ''b2'' [''b1''] Check_manual,
     plain_gate ''b3'' [''b2''] Check_config, plain_gate ''b4'' [''b3''] Check_config, plain_gate ''b5'' [''b4''] Check_config]"

lemma small_parse: "parse_gates_document small_document = (small_gates, [])"
  by code_simp

lemma plain_gate_sel [simp]:
  "ga_id (plain_gate i ps k) = i" "ga_profiles (plain_gate i ps k) = []" "ga_prerequisites (plain_gate i ps k) = ps"
  "ga_required (plain_gate i ps k)" "ga_blocking (plain_gate i ps k)"
  "ga_checks (plain_gate i ps k) = [catalog_check (i @ ''.1'') (i @ ''.1'') k []]"
  by (simp_all add: plain_gate_def)

lemma catalog_profiles: "map ga_profiles gate_catalog = replicate 7 [] @ quant_profiles # replicate 5 []"
  by (simp add: gate_catalog_def base_gates_def quant_gates_def catalog_gate_def numeral_eq_Suc)

lemma small_merge:
  assumes "gate_catalog = [c0, c1, c2, c3, c4, c5, c6, d0, d1, d2, d3, d4, d5]"
  shows "merge_gates gate_catalog small_gates = Inr (small_gates @ [c6, d0, d1, d2, d3, d4, d5])"
  using catalog_ids unfolding assms by (simp add: small_gates_def gate_named_def)

lemma small_effective: "effective_gates None gate_catalog small_gates = Inr (small_gates @ [safety_gate])"
proof -
  obtain c0 c1 c2 c3 c4 c5 c6 d0 d1 d2 d3 d4 d5 where c: "gate_catalog = [c0, c1, c2, c3, c4, c5, c6, d0, d1, d2, d3, d4, d5]"
    using catalog_ids by (auto simp: map_eq_Cons_conv)
  have c6: "c6 = safety_gate"
    using catalog_safety_gate catalog_ids unfolding c by (simp add: gate_named_def)
  have ids: "ga_id d0 = ''q0''" "ga_id d1 = ''q1''" "ga_id d2 = ''q2''" "ga_id d3 = ''q3''" "ga_id d4 = ''q4''" "ga_id d5 = ''q5''"
    using catalog_ids unfolding c by simp_all
  have prof: "ga_profiles d0 = quant_profiles" "ga_profiles d1 = []" "ga_profiles d2 = []" "ga_profiles d3 = []" "ga_profiles d4 = []"
    "ga_profiles d5 = []"
    using catalog_profiles unfolding c by (simp_all add: numeral_eq_Suc)
  have f: "filter (loads_for_profile None) (small_gates @ [c6, d0, d1, d2, d3, d4, d5]) = small_gates @ [safety_gate]"
    using ids prof
    by (simp add: small_gates_def c6 loads_for_profile_def quant_gate_id_re_def starts_with_def is_digit_def quant_profiles_def safety_gate_facts)
  have "sort_key ga_id (small_gates @ [safety_gate]) = small_gates @ [safety_gate]"
    by (rule sort_key_id_if_sorted) (simp add: small_gates_def safety_gate_facts)
  then show ?thesis by (simp only: effective_gates_def catalog_kept small_merge[OF c] sum.case f)
qed

definition base_ids :: "string list" where
  "base_ids = [''b0'', ''b1'', ''b2'', ''b3'', ''b4'', ''b5'', ''b6'']"

lemma small_order: "order_gates base_ids (small_gates @ [safety_gate]) = Inr base_ids"
  by (simp add: order_gates_def base_ids_def small_gates_def gate_by_id_def safety_gate_facts)

lemma small_select: "select_gates None small_document ''base''
   = Inr \<lparr>gs_gates = small_gates @ [safety_gate], gs_requested = base_ids, gs_ordered = base_ids\<rparr>"
proof -
  have "resolve_selector ''base'' (small_gates @ [safety_gate]) = base_ids"
    by (simp add: resolve_selector_def js_trim_def is_js_space_def small_gates_def safety_gate_facts base_ids_def
        quant_gate_id_re_def starts_with_def)
  then show ?thesis
    using small_order
    by (simp add: select_gates_def load_gate_list_def small_parse small_effective) (simp add: base_ids_def small_gates_def safety_gate_facts)
qed

definition entry_summary :: "gate_entry \<Rightarrow> string \<times> gate_status \<times> string list \<times> (string \<times> gate_status \<times> bool) list" where
  "entry_summary e = (ge_id e, ge_status e, map ce_check (filter (\<lambda>c. ce_kind c = Check_manual \<and> ce_required c) (ge_checks e)),
               ge_prereq_status e)"

lemma safe_context: "gate_context sample_context sample_input = sample_context\<lparr>cx_manual := [(''b2.1'', ''reviewed''), (''other'', ''x'')]\<rparr>"
  by (simp add: gate_context_def sample_input_def trimmed_manual_evidence_def map_filter_simps js_trim_def is_js_space_def)

lemma small_run: "map_sum id (map entry_summary) (run_ordered (gate_context sample_context sample_input) (small_gates @ [safety_gate]) [] base_ids)
  = Inr [(''b0'', Gate_PASS, [], []), (''b1'', Gate_PASS, [], [(''b0'', Gate_PASS, True)]),
       (''b2'', Gate_PASS, [''b2.1''], [(''b1'', Gate_PASS, True)]), (''b3'', Gate_PASS, [], [(''b2'', Gate_PASS, True)]),
       (''b4'', Gate_PASS, [], [(''b3'', Gate_PASS, True)]), (''b5'', Gate_PASS, [], [(''b4'', Gate_PASS, True)]),
       (''b6'', Gate_PASS, [], [])]"
  unfolding safe_context
  by (simp add: base_ids_def small_gates_def gate_named_def evaluate_gate_def entry_of_def put_status_def safety_gate_facts
      evaluate_check_def evaluate_kind_def evaluate_config_def evaluate_manual_def manual_note_def passed_def
      catalog_check_def sample_context_def js_trim_def is_js_space_def gate_status_from_checks_def entry_summary_def
      b6_checks_def evaluate_safety_def safe_facts_def)

definition sample_entries :: "gate_entry list" where
  "sample_entries = (case run_ordered (gate_context sample_context sample_input) (small_gates @ [safety_gate]) [] base_ids of
     Inr es \<Rightarrow> es | Inl e \<Rightarrow> [])"

definition sample_run :: gate_run where
  "sample_run = conclude_run None base_ids (Some \<lparr>pv_hash = ''h'', pv_gates = [''b1''], pv_full = True\<rparr>) sample_entries"

lemma sample_entries: "run_ordered (gate_context sample_context sample_input) (small_gates @ [safety_gate]) [] base_ids = Inr sample_entries"
  using small_run unfolding sample_entries_def
  by (cases "run_ordered (gate_context sample_context sample_input) (small_gates @ [safety_gate]) [] base_ids") simp_all

lemma entry_summaries: "map entry_summary sample_entries =
  [(''b0'', Gate_PASS, [], []), (''b1'', Gate_PASS, [], [(''b0'', Gate_PASS, True)]),
       (''b2'', Gate_PASS, [''b2.1''], [(''b1'', Gate_PASS, True)]), (''b3'', Gate_PASS, [], [(''b2'', Gate_PASS, True)]),
       (''b4'', Gate_PASS, [], [(''b3'', Gate_PASS, True)]), (''b5'', Gate_PASS, [], [(''b4'', Gate_PASS, True)]),
       (''b6'', Gate_PASS, [], [])]"
  using small_run unfolding sample_entries by simp

lemma entries_pass: "e \<in> set sample_entries \<Longrightarrow> ge_status e = Gate_PASS"
proof -
  assume "e \<in> set sample_entries"
  then have "entry_summary e \<in> set (map entry_summary sample_entries)" by simp
  then show ?thesis unfolding entry_summaries by (auto simp: entry_summary_def)
qed

lemma entry_ids: "map ge_id sample_entries = base_ids"
proof -
  have "map fst (map entry_summary sample_entries) = base_ids" unfolding entry_summaries by (simp add: base_ids_def)
  then show ?thesis by (simp add: entry_summary_def comp_def)
qed

lemma sample_plan: "resolve_plan_authority (gi_authority sample_input) (gi_selector sample_input) (small_gates @ [safety_gate]) base_ids
    (cx_facts sample_context) = Inr (Some \<lparr>pv_hash = ''h'', pv_gates = [''b1''], pv_full = True\<rparr>)"
  by (simp add: resolve_plan_authority_def sample_input_def sample_context_def safe_facts_def small_gates_def base_ids_def
      is_final_plan_selector_def js_trim_def is_js_space_def)

lemma sample_run: "run_gates sample_context sample_input = Inr sample_run"
proof -
  have i: "gi_profile sample_input = None" "gi_document sample_input = small_document" "gi_selector sample_input = ''base''"
    "gi_binding sample_input = JUndef" by (simp_all add: sample_input_def)
  show ?thesis
    unfolding run_gates_def i accept_binding_def small_select
    using sample_plan by (simp add: i sample_entries sample_run_def)
qed

lemma sample_overall: "overall_status base_ids sample_entries = Gate_PASS"
  by (simp add: overall_pass entries_pass)

lemma sample_mapped: "mapped_statuses (Some \<lparr>pv_hash = ''h'', pv_gates = [''b1''], pv_full = True\<rparr>) sample_entries = [Gate_PASS]"
proof -
  have "''b1'' \<in> set (map ge_id sample_entries)" unfolding entry_ids by (simp add: base_ids_def)
  then have "entry_of sample_entries ''b1'' \<noteq> None" unfolding entry_of_def find_None_iff by auto
  then obtain e where "entry_of sample_entries ''b1'' = Some e" by auto
  then show ?thesis using entries_pass entry_of_Some by (auto simp: mapped_statuses_def)
qed

lemma sample_run_facts: "gr_ok sample_run" "gr_reusable sample_run" "gr_requested sample_run = base_ids" "gr_entries sample_run = sample_entries"
  by (simp_all add: sample_run_def conclude_run_def sample_mapped sample_overall worst_status_def)

definition sample_selection :: gate_selection where
  "sample_selection = \<lparr>gs_gates = small_gates @ [safety_gate], gs_requested = base_ids, gs_ordered = base_ids\<rparr>"

lemma sample_selection: "run_selection sample_input sample_selection"
  using small_select by (simp add: run_selection_def sample_input_def sample_selection_def)

theorem gate_pass_is_earned_witness:
  "gate_earned (gate_context sample_context sample_input) (gs_gates sample_selection) (gr_entries sample_run) ''b5''"
  using gate_pass_is_earned[OF sample_run _ sample_selection, of "''b5''" "''b5''"] sample_run_facts by (simp add: base_ids_def)

lemma final_base: "is_final_plan_selector (gi_selector sample_input)"
  by (simp add: is_final_plan_selector_def sample_input_def js_trim_def is_js_space_def)

theorem final_pass_implies_safety_witness:
  "\<exists>f. cx_facts sample_context = Some f \<and> facts_unblocked f \<and> development_safe f"
  using final_pass_implies_safety[OF sample_run _ final_base] sample_run_facts by simp

theorem reusable_run_covers_plan_witness:
  "\<exists>s. run_selection sample_input s \<and> gate_earned (gate_context sample_context sample_input) (gs_gates s) (gr_entries sample_run) ''b1''"
  using reusable_run_covers_plan[OF sample_run, of "''h''" "[''b1'']"] sample_run_facts by (simp add: sample_input_def)

lemma sample_entry: "\<exists>xs e ys ce. gr_entries sample_run = xs @ e # ys \<and> ge_prereq_status e = [(''b1'', Gate_PASS, True)]
   \<and> ce \<in> set (ge_checks e) \<and> ce_kind ce = Check_manual \<and> ce_required ce \<and> ce_check ce = ''b2.1''"
proof -
  have l: "length sample_entries = 7" using arg_cong[OF entry_summaries, of length] by simp
  let ?e = "sample_entries ! 2"
  have "entry_summary ?e = map entry_summary sample_entries ! 2" using l by simp
  also have "\<dots> = (''b2'', Gate_PASS, [''b2.1''], [(''b1'', Gate_PASS, True)])" unfolding entry_summaries by simp
  finally have e: "map ce_check (filter (\<lambda>c. ce_kind c = Check_manual \<and> ce_required c) (ge_checks ?e)) = [''b2.1'']"
    "ge_prereq_status ?e = [(''b1'', Gate_PASS, True)]" by (simp_all add: entry_summary_def)
  from e(1) have "''b2.1'' \<in> set (map ce_check (filter (\<lambda>c. ce_kind c = Check_manual \<and> ce_required c) (ge_checks ?e)))" by simp
  then obtain ce where "ce \<in> set (ge_checks ?e)" "ce_kind ce = Check_manual" "ce_required ce" "ce_check ce = ''b2.1''" by auto
  moreover have "sample_entries = take 2 sample_entries @ ?e # drop 3 sample_entries" using l id_take_nth_drop[of 2 sample_entries] by simp
  ultimately show ?thesis using e(2) sample_run_facts(4) by metis
qed

theorem prerequisites_of_this_run_witness:
  "\<exists>e'\<in>set (gr_entries sample_run). ge_id e' = ''b1'' \<and> ge_status e' = Gate_PASS"
proof -
  from sample_entry obtain xs e ys where e: "gr_entries sample_run = xs @ e # ys" "ge_prereq_status e = [(''b1'', Gate_PASS, True)]"
    by blast
  from prerequisites_of_this_run[OF sample_run e(1), of "''b1''" Gate_PASS True] e show ?thesis by auto
qed

definition sample_preflight :: manual_preflight where
  "sample_preflight = \<lparr>mp_requested = base_ids,
     mp_checks = [\<lparr>mq_gate = ''b2'', mq_check = ''b2.1'', mq_prompt = None, mq_provided = True\<rparr>],
     mp_provided = [''b2.1''], mp_missing = [], mp_ready = True\<rparr>"

lemma sample_preflight: "preflight_manual_evidence None small_document ''base'' (gi_manual sample_input) = Inr sample_preflight"
  by (simp add: preflight_manual_evidence_def small_select required_manual_checks_def small_gates_def base_ids_def
      catalog_check_def safety_gate_facts b6_checks_def sample_input_def trimmed_manual_evidence_def map_filter_simps js_trim_def
      is_js_space_def manual_note_def sample_preflight_def)

theorem preflight_predicts_manual_witness:
  "mp_requested sample_preflight = gr_requested sample_run
   \<and> (\<exists>e\<in>set (gr_entries sample_run). \<exists>ce\<in>set (ge_checks e). ce_check ce = ''b2.1'' \<and> ce_status ce = Gate_PASS)"
proof -
  from sample_entry obtain xs e ys ce where e: "gr_entries sample_run = xs @ e # ys"
    and ce: "ce \<in> set (ge_checks e)" "ce_kind ce = Check_manual" "ce_required ce" "ce_check ce = ''b2.1''" by blast
  have pre: "preflight_manual_evidence (gi_profile sample_input) (gi_document sample_input) (gi_selector sample_input)
      (gi_manual sample_input) = Inr sample_preflight"
    using sample_preflight by (simp add: sample_input_def)
  have n: "plain_name (ce_check ce)" by (simp add: ce(4) plain_name_def object_method_names_def)
  have "mp_ready sample_preflight" by (simp add: sample_preflight_def)
  moreover have "e \<in> set (gr_entries sample_run)" using e by simp
  moreover have "cx_provenance sample_context = User_command" by (simp add: sample_context_def)
  ultimately show ?thesis
    using preflight_predicts_manual[OF pre sample_run _ ce(1,2,3) n] ce by blast
qed

end
