(* ===== verification/Gate_Record.thy ===== *)
theory Gate_Record
  imports Gate_Safety
begin

section \<open>Persisted gate records (gates.json and evidence.json)\<close>

text \<open>
  A run writes its entries to gates.json and its checks to evidence.json; a later assessment reads both
  back with \<open>validatePersistedGateRunRecords\<close>, which rebuilds the facts of the run and refuses
  every contradiction. The writer and the reader are modelled on the decoded JSON values;
  \<open>toISOString\<close> and \<open>Date.parse\<close> are the parameters \<open>to_iso\<close> and \<open>pd\<close>. All refusals
  of the reader are the same null, so its tests are written as one conjunction per record.
\<close>

subsection \<open>Writing\<close>

text \<open>The order of the own keys of an object: array indices first, ascending.\<close>

definition index_key :: "string \<Rightarrow> nat option" where
  "index_key k = (case array_index k of Some n \<Rightarrow> if n < 4294967295 then Some n else None | None \<Rightarrow> None)"

definition js_object :: "(string \<times> jv) list \<Rightarrow> jv" where
  "js_object kvs =
     JObj (sort_key (\<lambda>kv. the (index_key (fst kv))) (filter (\<lambda>kv. index_key (fst kv) \<noteq> None) kvs)
           @ filter (\<lambda>kv. index_key (fst kv) = None) kvs)"

definition texts_value :: "string list \<Rightarrow> jv" where
  "texts_value ss = JArr (map JStr ss)"

definition null_value :: "string option \<Rightarrow> jv" where
  "null_value x = (case x of Some s \<Rightarrow> JStr s | None \<Rightarrow> JNull)"

definition optional_field :: "string \<Rightarrow> 'a option \<Rightarrow> ('a \<Rightarrow> jv) \<Rightarrow> fields" where
  "optional_field k x f = (case x of Some y \<Rightarrow> [(k, f y)] | None \<Rightarrow> [])"

definition int_value :: "int \<Rightarrow> jv" where
  "int_value i = JNum (JInt i)"

definition evidence_value :: "evidence_entry \<Rightarrow> jv" where
  "evidence_value e = JObj
     ([(''type'', JStr (evidence_type_text (ev_type e)))]
      @ optional_field ''source'' (ev_source e) JStr
      @ [(''detail'', JStr (ev_detail e))]
      @ optional_field ''run_id'' (ev_run_id e) JStr
      @ optional_field ''recipe'' (ev_recipe e) JStr
      @ optional_field ''exit_code'' (ev_exit_code e) (\<lambda>x. case x of Some n \<Rightarrow> int_value n | None \<Rightarrow> JNull)
      @ optional_field ''execution_source'' (ev_execution e) JStr
      @ optional_field ''paths'' (ev_paths e) texts_value
      @ optional_field ''check_id'' (ev_check_id e) JStr
      @ optional_field ''provided_by'' (ev_provided_by e) JStr
      @ optional_field ''authority_digest'' (ev_digest e) JStr
      @ optional_field ''authority_freshness'' (ev_freshness e) JStr
      @ optional_field ''errors'' (ev_errors e) texts_value
      @ optional_field ''warnings'' (ev_warnings e) texts_value
      @ optional_field ''artifact_path'' (ev_artifact e) JStr)"

definition elapsed :: "int \<Rightarrow> int \<Rightarrow> int" where
  "elapsed start finish = max 0 (finish - start)"

definition check_value :: "(int \<Rightarrow> string) \<Rightarrow> check_entry \<Rightarrow> jv" where
  "check_value to_iso c = JObj
     [(''check_id'', JStr (ce_check c)), (''gate_id'', JStr (ce_gate c)),
      (''status'', JStr (gate_status_text (ce_status c))), (''kind'', JStr (check_kind_text (ce_kind c))),
      (''required'', JBool (ce_required c)), (''blocking'', JBool (ce_blocking c)),
      (''evidence'', JArr (map evidence_value (ce_evidence c))), (''failure_reason'', null_value (ce_failure c)),
      (''blocked_reason'', null_value (ce_blocked c)), (''warnings'', texts_value (ce_warnings c)),
      (''started_at'', JStr (to_iso (ce_started c))), (''finished_at'', JStr (to_iso (ce_finished c))),
      (''duration_ms'', int_value (elapsed (ce_started c) (ce_finished c)))]"

definition prereq_value :: "gate_status \<times> bool \<Rightarrow> jv" where
  "prereq_value x = JObj [(''status'', JStr (gate_status_text (fst x))), (''source'', JStr (prerequisite_source (snd x)))]"

definition gate_value :: "(int \<Rightarrow> string) \<Rightarrow> gate_entry \<Rightarrow> jv" where
  "gate_value to_iso e = JObj
     [(''id'', JStr (ge_id e)), (''title'', JStr (ge_title e)), (''description'', JStr (ge_description e)),
      (''status'', JStr (gate_status_text (ge_status e))), (''required'', JBool (ge_required e)),
      (''blocking'', JBool (ge_blocking e)), (''prerequisites'', texts_value (ge_prerequisites e)),
      (''prerequisite_status'', js_object (map (\<lambda>(p, x). (p, prereq_value x)) (ge_prereq_status e))),
      (''checks'', JArr (map (check_value to_iso) (ge_checks e))), (''failure_reason'', null_value (ge_failure e)),
      (''blocked_reason'', null_value (ge_blocked e)), (''warnings'', texts_value (ge_warnings e)),
      (''evidence_paths'', texts_value (ge_evidence_paths e)), (''declared_evidence'', texts_value (ge_declared e)),
      (''started_at'', JStr (to_iso (ge_started e))), (''finished_at'', JStr (to_iso (ge_finished e))),
      (''duration_ms'', int_value (elapsed (ge_started e) (ge_finished e)))]"

definition record_head :: "string \<Rightarrow> string option \<Rightarrow> wb_mode \<Rightarrow> gate_run \<Rightarrow> fields" where
  "record_head run profile mode r =
     [(''schema_version'', int_value 1), (''run_id'', JStr run), (''requested'', texts_value (gr_requested r))]
     @ optional_field ''profile'' profile JStr @ [(''mode'', JStr (wb_mode_text mode))]
     @ optional_field ''candidate_binding'' (gr_binding r) binding_value"

definition gates_record :: "(int \<Rightarrow> string) \<Rightarrow> string \<Rightarrow> string option \<Rightarrow> wb_mode \<Rightarrow> gate_run \<Rightarrow> jv" where
  "gates_record to_iso run profile mode r =
     JObj (record_head run profile mode r @ [(''gates'', JArr (map (gate_value to_iso) (gr_entries r)))])"

definition evidence_record :: "(int \<Rightarrow> string) \<Rightarrow> string \<Rightarrow> string option \<Rightarrow> wb_mode \<Rightarrow> gate_run \<Rightarrow> jv" where
  "evidence_record to_iso run profile mode r =
     JObj (record_head run profile mode r
           @ [(''checks'', js_object (map (\<lambda>(i, c). (i, check_value to_iso c)) (evidence_by_check (gr_entries r))))])"

text \<open>The manifest fields the reader compares.\<close>

record gate_manifest =
  gm_run_id :: string
  gm_recipe :: string
  gm_profile :: "string option"
  gm_mode :: "string option"
  gm_binding :: jv
  gm_outcome :: "string option"
  gm_exit_code :: "int option"
  gm_expected :: "int list"

definition run_manifest_of :: "string \<Rightarrow> string option \<Rightarrow> wb_mode \<Rightarrow> gate_run \<Rightarrow> gate_manifest" where
  "run_manifest_of run profile mode r =
     \<lparr>gm_run_id = run, gm_recipe = ''gate'', gm_profile = profile, gm_mode = Some (wb_mode_text mode),
      gm_binding = (case gr_binding r of Some b \<Rightarrow> binding_value b | None \<Rightarrow> JUndef),
      gm_outcome = Some (if gr_ok r then ''SUCCESS'' else ''PROCESS_FAILED''),
      gm_exit_code = Some (if gr_ok r then 0 else 1), gm_expected = [0]\<rparr>"

subsection \<open>Reading values\<close>

definition bounded_strings :: "nat \<Rightarrow> nat \<Rightarrow> jv \<Rightarrow> string list option" where
  "bounded_strings items chars v =
     (case as_array v of None \<Rightarrow> None
      | Some vs \<Rightarrow>
          if length vs > items then None
          else case as_strings vs of None \<Rightarrow> None
          | Some ss \<Rightarrow> if list_all (\<lambda>s. length s \<le> chars) ss then Some ss else None)"

definition bounded_id :: "jv \<Rightarrow> string option" where
  "bounded_id v = (case as_string v of None \<Rightarrow> None | Some s \<Rightarrow> if s \<noteq> [] \<and> length s \<le> 200 then Some s else None)"

definition optional_profile :: "jv \<Rightarrow> string option option" where
  "optional_profile v =
     (case v of JUndef \<Rightarrow> Some None | JStr s \<Rightarrow> if length s \<le> 200 then Some (Some s) else None | _ \<Rightarrow> None)"

definition nullable_text :: "jv \<Rightarrow> string option option" where
  "nullable_text v = (case v of JNull \<Rightarrow> Some None | JStr s \<Rightarrow> Some (Some s) | _ \<Rightarrow> None)"

definition read_time :: "date_parser \<Rightarrow> jv \<Rightarrow> int option" where
  "read_time pd v = Option.bind (as_string v) pd"

text \<open>The two times parse, and the duration is their difference, never negative.\<close>

definition times_agree :: "date_parser \<Rightarrow> fields \<Rightarrow> bool" where
  "times_agree pd f =
     (case (read_time pd (get_prop f ''started_at''), read_time pd (get_prop f ''finished_at''),
            as_safe_int (get_prop f ''duration_ms'')) of
        (Some a, Some b, Some d) \<Rightarrow> d = elapsed a b
      | _ \<Rightarrow> False)"

definition read_gate_status :: "jv \<Rightarrow> gate_status option" where
  "read_gate_status v = parse_enum gate_statuses gate_status_text v"

definition record_texts_ok :: "gate_status \<Rightarrow> string option \<Rightarrow> string option \<Rightarrow> bool" where
  "record_texts_ok st failure why =
     (case st of
        Gate_PASS \<Rightarrow> failure = None \<and> why = None
      | Gate_FAIL \<Rightarrow> failure \<noteq> None \<and> failure \<noteq> Some []
      | Gate_BLOCKED \<Rightarrow> why \<noteq> None \<and> why \<noteq> Some []
      | Gate_NOT_RUN \<Rightarrow> True)"

subsection \<open>Reading a check and a gate\<close>

definition read_check :: "date_parser \<Rightarrow> string \<Rightarrow> jv \<Rightarrow> check_facts option" where
  "read_check pd gid v =
     (case record_fields v of None \<Rightarrow> None
      | Some f \<Rightarrow>
          (case (bounded_id (get_prop f ''check_id''), read_gate_status (get_prop f ''status''), as_bool (get_prop f ''required''),
                 as_bool (get_prop f ''blocking'')) of
             (Some i, Some st, Some rq, Some bl) \<Rightarrow>
               (case (nullable_text (get_prop f ''failure_reason''), nullable_text (get_prop f ''blocked_reason''),
                      bounded_strings 500 4096 (get_prop f ''warnings'')) of
                  (Some fr, Some br, Some ws) \<Rightarrow>
                    if get_prop f ''gate_id'' = JStr gid \<and> bounded_id (get_prop f ''kind'') \<noteq> None
                       \<and> as_array (get_prop f ''evidence'') \<noteq> None \<and> times_agree pd f \<and> record_texts_ok st fr br
                    then Some \<lparr>ce_check = i, ce_status = st, ce_required = rq, ce_blocking = bl, ce_failure = fr,
                               ce_blocked = br, ce_warnings = ws\<rparr>
                    else None
                | _ \<Rightarrow> None)
           | _ \<Rightarrow> None))"

fun read_checks :: "date_parser \<Rightarrow> string \<Rightarrow> jv list \<Rightarrow> (check_facts \<times> jv) list option" where
  "read_checks pd gid [] = Some []"
| "read_checks pd gid (v # vs) =
     (case (read_check pd gid v, read_checks pd gid vs) of (Some c, Some cs) \<Rightarrow> Some ((c, v) # cs) | _ \<Rightarrow> None)"

type_synonym prior_gates = "(string \<times> gate_status \<times> bool) list"

text \<open>
  The prerequisites a truthful entry records: those up to the first blocking one that did not pass, each
  a gate that came before.
\<close>

fun expected_prerequisites :: "prior_gates \<Rightarrow> string list \<Rightarrow> (string list \<times> (string \<times> gate_status) option) option" where
  "expected_prerequisites prior [] = Some ([], None)"
| "expected_prerequisites prior (p # ps) =
     (case map_of prior p of None \<Rightarrow> None
      | Some (st, bl) \<Rightarrow>
          if st \<noteq> Gate_PASS \<and> bl then Some ([p], Some (p, st))
          else (case expected_prerequisites prior ps of None \<Rightarrow> None | Some (qs, b) \<Rightarrow> Some (p # qs, b)))"

definition read_prereq :: "prior_gates \<Rightarrow> string \<times> jv \<Rightarrow> (string \<times> gate_status) option" where
  "read_prereq prior kv =
     (case record_fields (snd kv) of None \<Rightarrow> None
      | Some f \<Rightarrow>
          (case (read_gate_status (get_prop f ''status''), map_of prior (fst kv)) of
             (Some st, Some (st', bl)) \<Rightarrow>
               if get_prop f ''source'' = JStr ''this-run'' \<and> st' = st then Some (fst kv, st) else None
           | _ \<Rightarrow> None))"

fun read_prereqs :: "prior_gates \<Rightarrow> fields \<Rightarrow> (string \<times> gate_status) list option" where
  "read_prereqs prior [] = Some []"
| "read_prereqs prior (kv # kvs) =
     (case (read_prereq prior kv, read_prereqs prior kvs) of (Some x, Some xs) \<Rightarrow> Some (x # xs) | _ \<Rightarrow> None)"

record read_gate_entry =
  rg_id :: string
  rg_status :: gate_status
  rg_required :: bool
  rg_blocking :: bool
  rg_prereqs :: "(string \<times> gate_status) list"
  rg_checks :: "(check_facts \<times> jv) list"

definition prerequisite_ids_ok :: "string \<Rightarrow> string list \<Rightarrow> bool" where
  "prerequisite_ids_ok gid ps = (distinct ps \<and> list_all (\<lambda>p. p \<noteq> [] \<and> length p \<le> 200 \<and> p \<noteq> gid) ps)"

text \<open>A blocked gate has no checks and names the first blocking prerequisite; any other status is that of its checks.\<close>

definition status_derived ::
  "gate_status \<Rightarrow> string option \<Rightarrow> string option \<Rightarrow> check_facts list \<Rightarrow> (string \<times> gate_status) option \<Rightarrow> bool" where
  "status_derived st fr br cs blocking =
     (if cs = [] \<and> st = Gate_BLOCKED
      then (case blocking of None \<Rightarrow> False
            | Some (p, pst) \<Rightarrow> fr = None
                \<and> br = Some (''prerequisite '' @ p @ '' is '' @ gate_status_text pst @ '' (this-run)''))
      else blocking = None \<and> (let v = gate_status_from_checks cs in st = gv_status v \<and> fr = gv_failure v \<and> br = gv_blocked v))"

definition gate_texts_ok :: "date_parser \<Rightarrow> fields \<Rightarrow> bool" where
  "gate_texts_ok pd f =
     (as_string (get_prop f ''title'') \<noteq> None \<and> as_string (get_prop f ''description'') \<noteq> None
      \<and> bounded_strings 500 4096 (get_prop f ''warnings'') \<noteq> None
      \<and> bounded_strings 10000 4096 (get_prop f ''evidence_paths'') \<noteq> None
      \<and> bounded_strings 500 4096 (get_prop f ''declared_evidence'') \<noteq> None
      \<and> times_agree pd f)"

definition read_gate :: "date_parser \<Rightarrow> prior_gates \<Rightarrow> jv \<Rightarrow> read_gate_entry option" where
  "read_gate pd prior v =
     (case record_fields v of None \<Rightarrow> None
      | Some f \<Rightarrow>
          (case (bounded_id (get_prop f ''id''), read_gate_status (get_prop f ''status''), as_bool (get_prop f ''required''),
                 as_bool (get_prop f ''blocking''), bounded_strings 500 200 (get_prop f ''prerequisites'')) of
             (Some i, Some st, Some rq, Some bl, Some ps) \<Rightarrow>
               (case (nullable_text (get_prop f ''failure_reason''), nullable_text (get_prop f ''blocked_reason''),
                      expected_prerequisites prior ps, record_fields (get_prop f ''prerequisite_status''),
                      as_array (get_prop f ''checks'')) of
                  (Some fr, Some br, Some (expected, blocking), Some kvs, Some cvs) \<Rightarrow>
                    (case (read_prereqs prior kvs, read_checks pd i cvs) of
                       (Some prereqs, Some cs) \<Rightarrow>
                         if i \<notin> set (map fst prior) \<and> gate_texts_ok pd f \<and> prerequisite_ids_ok i ps
                            \<and> own_keys kvs = expected \<and> length cvs \<le> 500 \<and> status_derived st fr br (map fst cs) blocking
                         then Some \<lparr>rg_id = i, rg_status = st, rg_required = rq, rg_blocking = bl, rg_prereqs = prereqs, rg_checks = cs\<rparr>
                         else None
                     | _ \<Rightarrow> None)
                | _ \<Rightarrow> None)
           | _ \<Rightarrow> None))"

fun read_gates :: "date_parser \<Rightarrow> prior_gates \<Rightarrow> jv list \<Rightarrow> read_gate_entry list option" where
  "read_gates pd prior [] = Some []"
| "read_gates pd prior (v # vs) =
     (case read_gate pd prior v of None \<Rightarrow> None
      | Some g \<Rightarrow>
          (case read_gates pd ((rg_id g, rg_status g, rg_blocking g) # prior) vs of
             None \<Rightarrow> None | Some gs \<Rightarrow> Some (g # gs)))"

subsection \<open>Reading the evidence\<close>

record artifact_source =
  as_check :: string
  as_recipe :: string
  as_run :: string
  as_digest :: string
  as_freshness :: string

text \<open>What one evidence entry of a check contributes: a note, an artifact source, or nothing.\<close>

datatype evidence_fact = Fact_none | Fact_note string | Fact_source artifact_source

definition read_evidence :: "string \<Rightarrow> bool \<Rightarrow> jv \<Rightarrow> evidence_fact option" where
  "read_evidence cid check_passed v =
     (case record_fields v of None \<Rightarrow> None
      | Some f \<Rightarrow>
          (case as_string (get_prop f ''type'') of None \<Rightarrow> None
           | Some t \<Rightarrow>
               let named = get_prop f ''check_id''
               in if t = ''manual'' then
                    (case as_string (get_prop f ''detail'') of None \<Rightarrow> None
                     | Some d \<Rightarrow>
                         if named \<noteq> JStr cid \<or> get_prop f ''provided_by'' \<noteq> JStr ''user-command'' \<or> length d > 262144 then None
                         else Some (if js_trim d = [] then Fact_none else Fact_note (js_trim d)))
                  else if named \<noteq> JUndef \<and> named \<noteq> JStr cid then None
                  else if t = ''artifact'' then
                    (case (bounded_id (get_prop f ''recipe''), bounded_id (get_prop f ''run_id'')) of
                       (Some recipe, Some run) \<Rightarrow>
                         (case (hash_text (get_prop f ''authority_digest''), as_string (get_prop f ''authority_freshness'')) of
                            (Some d, Some fresh) \<Rightarrow>
                              if fresh = ''current'' \<or> fresh = ''immutable-snapshot''
                              then Some (Fact_source \<lparr>as_check = cid, as_recipe = recipe, as_run = run, as_digest = d, as_freshness = fresh\<rparr>)
                              else if check_passed then None else Some Fact_none
                          | _ \<Rightarrow> if check_passed then None else Some Fact_none)
                     | _ \<Rightarrow> None)
                  else Some Fact_none))"

fun read_evidences :: "string \<Rightarrow> bool \<Rightarrow> jv list \<Rightarrow> evidence_fact list option" where
  "read_evidences cid ok [] = Some []"
| "read_evidences cid ok (v # vs) =
     (case (read_evidence cid ok v, read_evidences cid ok vs) of (Some x, Some xs) \<Rightarrow> Some (x # xs) | _ \<Rightarrow> None)"

definition notes_of :: "string \<Rightarrow> evidence_fact list \<Rightarrow> (string \<times> string) list \<Rightarrow> (string \<times> string) list" where
  "notes_of cid facts m = fold (\<lambda>x m. case x of Fact_note n \<Rightarrow> put_status cid n m | _ \<Rightarrow> m) facts m"

definition sources_of :: "evidence_fact list \<Rightarrow> artifact_source list" where
  "sources_of facts = List.map_filter (\<lambda>x. case x of Fact_source s \<Rightarrow> Some s | _ \<Rightarrow> None) facts"

text \<open>One member of the checks map: it is the check the gates record knows under that id.\<close>

definition read_evidence_check :: "(string \<Rightarrow> jv option) \<Rightarrow> string \<times> jv \<Rightarrow> evidence_fact list option" where
  "read_evidence_check known kv =
     (case (record_fields (snd kv), known (fst kv)) of
        (Some f, Some w) \<Rightarrow>
          if get_prop f ''check_id'' \<noteq> JStr (fst kv) \<or> bounded_id (JStr (fst kv)) = None \<or> \<not> deep_equal (snd kv) w then None
          else (case as_array (get_prop f ''evidence'') of None \<Rightarrow> None
                | Some vs \<Rightarrow> read_evidences (fst kv) (get_prop f ''status'' = JStr ''PASS'') vs)
      | _ \<Rightarrow> None)"

fun read_evidence_map ::
  "(string \<Rightarrow> jv option) \<Rightarrow> fields \<Rightarrow> (string \<times> string) list \<times> artifact_source list
   \<Rightarrow> ((string \<times> string) list \<times> artifact_source list) option" where
  "read_evidence_map known [] acc = Some acc"
| "read_evidence_map known (kv # kvs) acc =
     (case read_evidence_check known kv of None \<Rightarrow> None
      | Some facts \<Rightarrow> read_evidence_map known kvs (notes_of (fst kv) facts (fst acc), snd acc @ sources_of facts))"

subsection \<open>Reading both records\<close>

record persisted_facts =
  pg_requested :: "string list"
  pg_gates :: "(string \<times> (string \<times> gate_status) list) list"
  pg_manual :: "(string \<times> string) list"
  pg_sources :: "artifact_source list"
  pg_binding :: "candidate_binding option"

definition checks_known :: "read_gate_entry list \<Rightarrow> (string \<times> jv) list" where
  "checks_known gs = concat (map (\<lambda>g. map (\<lambda>(c, v). (ce_check c, v)) (rg_checks g)) gs)"

definition read_overall :: "string list \<Rightarrow> read_gate_entry list \<Rightarrow> gate_status" where
  "read_overall requested gs =
     fold (\<lambda>g st. if rg_id g \<in> set requested \<or> rg_required g then worst_status st (rg_status g) else st) gs Gate_PASS"

text \<open>The three bindings are all absent, or all parse to the same one, in VERIFY.\<close>

definition read_bindings :: "string \<Rightarrow> jv list \<Rightarrow> candidate_binding option option" where
  "read_bindings mode vs =
     (if list_all (\<lambda>v. v = JUndef) vs then Some None
      else case those (map parse_candidate_binding vs) of
        Some (b # bs) \<Rightarrow> if list_all (\<lambda>x. x = b) bs \<and> mode = ''VERIFY'' then Some (Some b) else None
      | _ \<Rightarrow> None)"

definition set_identity :: "string list \<Rightarrow> string" where
  "set_identity vs = join_with [CHR 0x00] (sort (remdups vs))"

definition heads_agree :: "string \<Rightarrow> gate_manifest \<Rightarrow> fields \<Rightarrow> fields \<Rightarrow> bool" where
  "heads_agree run m g e =
     (get_prop g ''schema_version'' = int_value 1 \<and> get_prop g ''run_id'' = JStr run
      \<and> get_prop e ''schema_version'' = int_value 1 \<and> get_prop e ''run_id'' = JStr run
      \<and> (case (bounded_strings 500 200 (get_prop g ''requested''), bounded_strings 500 200 (get_prop e ''requested'')) of
           (Some a, Some b) \<Rightarrow> a \<noteq> [] \<and> distinct a \<and> b \<noteq> [] \<and> distinct b \<and> set_identity a = set_identity b
         | _ \<Rightarrow> False)
      \<and> optional_profile (get_prop g ''profile'') = Some (gm_profile m)
      \<and> optional_profile (get_prop e ''profile'') = Some (gm_profile m)
      \<and> (case gm_mode m of None \<Rightarrow> False
         | Some mode \<Rightarrow> get_prop g ''mode'' = JStr mode \<and> get_prop e ''mode'' = JStr mode \<and> mode \<noteq> [] \<and> length mode \<le> 200)
      \<and> gm_recipe m = ''gate'' \<and> gm_run_id m = run)"

text \<open>The checks over both records, once their heads agree and their lists are read.\<close>

definition conclude_records ::
  "date_parser \<Rightarrow> gate_manifest \<Rightarrow> string list \<Rightarrow> jv list \<Rightarrow> candidate_binding option \<Rightarrow> fields \<Rightarrow> persisted_facts option" where
  "conclude_records pd m requested vs binding checks =
     (if vs = [] \<or> length vs > 500 then None
      else case read_gates pd [] vs of None \<Rightarrow> None
        | Some gs \<Rightarrow>
            let known = checks_known gs; success = (read_overall requested gs = Gate_PASS)
            in if \<not> set requested \<subseteq> set (map rg_id gs) \<or> length checks \<noteq> card (set (map fst known))
                  \<or> success \<noteq> (gm_outcome m = Some ''SUCCESS'')
                  \<or> success \<noteq> (case gm_exit_code m of None \<Rightarrow> False | Some n \<Rightarrow> n \<in> set (gm_expected m))
               then None
               else (case read_evidence_map (map_of (rev known)) checks ([], []) of None \<Rightarrow> None
                 | Some (notes, sources) \<Rightarrow>
                     Some \<lparr>pg_requested = requested, pg_gates = map (\<lambda>x. (rg_id x, rg_prereqs x)) gs,
                           pg_manual = notes, pg_sources = sources, pg_binding = binding\<rparr>))"

definition validate_records :: "date_parser \<Rightarrow> string \<Rightarrow> gate_manifest \<Rightarrow> jv \<Rightarrow> jv \<Rightarrow> persisted_facts option" where
  "validate_records pd run m gates_v evidence_v =
     (case (record_fields gates_v, record_fields evidence_v) of
        (Some g, Some e) \<Rightarrow>
          if \<not> heads_agree run m g e then None
          else (case (bounded_strings 500 200 (get_prop g ''requested''), as_array (get_prop g ''gates''),
                      read_bindings (the (gm_mode m)) [gm_binding m, get_prop g ''candidate_binding'', get_prop e ''candidate_binding''],
                      record_fields (get_prop e ''checks'')) of
              (Some requested, Some vs, Some binding, Some checks) \<Rightarrow> conclude_records pd m requested vs binding checks
            | _ \<Rightarrow> None)
      | _ \<Rightarrow> None)"

end
