(* ===== verification/Gate_Record_Safety.thy ===== *)
theory Gate_Record_Safety
  imports Gate_Record
begin

section \<open>What an accepted record promises\<close>

text \<open>
  The reader is the only guard between a file on disk and the reuse of a run, so its promise is stated
  over the JSON value itself: the gates of the record that counted were earned by the checks beside
  them. \<open>read_gate_Some\<close> and \<open>read_gates_nth\<close> give the facts of one entry and of the list.
\<close>

subsection \<open>The record as a value\<close>

definition member :: "jv \<Rightarrow> string \<Rightarrow> jv" where
  "member v k = (case v of JObj f \<Rightarrow> get_prop f k | _ \<Rightarrow> JUndef)"

definition items :: "jv \<Rightarrow> jv list" where
  "items v = (case v of JArr vs \<Rightarrow> vs | _ \<Rightarrow> [])"

text \<open>The checks of an entry bear a PASS: none failed or blocked that blocks, none required is not run.\<close>

definition recorded_check_ok :: "jv \<Rightarrow> bool" where
  "recorded_check_ok c =
     (member c ''status'' = JStr ''PASS''
      \<or> member c ''status'' = JStr ''NOT_RUN'' \<and> member c ''required'' = JBool False
      \<or> (member c ''status'' = JStr ''FAIL'' \<or> member c ''status'' = JStr ''BLOCKED'') \<and> member c ''blocking'' = JBool False)"

text \<open>Entry \<open>v\<close> stands in the list and is a PASS that its own checks bear.\<close>

definition record_earned :: "jv list \<Rightarrow> string \<Rightarrow> bool" where
  "record_earned vs i =
     (\<exists>v\<in>set vs. member v ''id'' = JStr i \<and> member v ''status'' = JStr ''PASS''
        \<and> (\<forall>c\<in>set (items (member v ''checks'')). member c ''gate_id'' = JStr i \<and> recorded_check_ok c))"

text \<open>Entry \<open>i\<close> of the record declares \<open>p\<close>, recorded as blocking, as a prerequisite.\<close>

definition record_needs :: "jv list \<Rightarrow> string \<Rightarrow> string \<Rightarrow> bool" where
  "record_needs vs i p =
     (\<exists>v\<in>set vs. member v ''id'' = JStr i \<and> JStr p \<in> set (items (member v ''prerequisites''))
        \<and> (\<exists>w\<in>set vs. member w ''id'' = JStr p \<and> member w ''blocking'' = JBool True))"

subsection \<open>One check, one gate\<close>

lemma record_fields_member: "record_fields v = Some f \<Longrightarrow> member v k = get_prop f k"
  by (cases v) (auto simp: member_def get_prop_def split: if_splits)

lemma read_gate_status_Some: "read_gate_status v = Some st \<Longrightarrow> v = JStr (gate_status_text st)"
  unfolding read_gate_status_def by (rule gate_status.parse_sound)

lemma bounded_id_Some: "bounded_id v = Some i \<Longrightarrow> v = JStr i \<and> i \<noteq> [] \<and> length i \<le> 200"
  by (auto simp: bounded_id_def split: option.splits if_splits)

lemma bounded_strings_Some: "bounded_strings n k v = Some ss \<Longrightarrow> v = JArr (map JStr ss) \<and> length ss \<le> n"
  by (auto simp: bounded_strings_def as_strings_Some split: option.splits if_splits)

lemma read_check_Some:
  assumes "read_check pd gid v = Some c"
  shows "member v ''gate_id'' = JStr gid" "member v ''status'' = JStr (gate_status_text (ce_status c))"
    "member v ''required'' = JBool (ce_required c)" "member v ''blocking'' = JBool (ce_blocking c)"
  using assms
  by (auto simp: read_check_def record_fields_member split: option.splits if_splits dest!: read_gate_status_Some)

lemma read_check_satisfied:
  assumes "read_check pd gid v = Some c" "check_satisfied c"
  shows "member v ''gate_id'' = JStr gid \<and> recorded_check_ok v"
  using read_check_Some[OF assms(1)] assms(2)
  by (cases "ce_status c") (simp_all add: check_satisfied_def recorded_check_ok_def)

lemma read_checks_Some:
  "read_checks pd gid vs = Some cs \<Longrightarrow> map snd cs = vs \<and> (\<forall>(c, v)\<in>set cs. read_check pd gid v = Some c)"
  by (induction pd gid vs arbitrary: cs rule: read_checks.induct) (auto split: option.splits)

lemma expected_unblocked:
  "expected_prerequisites prior ps = Some (qs, None) \<Longrightarrow> p \<in> set ps \<Longrightarrow>
     \<exists>st bl. map_of prior p = Some (st, bl) \<and> (bl \<longrightarrow> st = Gate_PASS)"
  by (induction prior ps arbitrary: qs rule: expected_prerequisites.induct) (auto split: option.splits if_splits prod.splits)

lemma read_gate_Some:
  assumes "read_gate pd prior v = Some g"
  shows "member v ''id'' = JStr (rg_id g)" "member v ''status'' = JStr (gate_status_text (rg_status g))"
    "member v ''required'' = JBool (rg_required g)" "member v ''blocking'' = JBool (rg_blocking g)"
    "rg_id g \<notin> set (map fst prior)" "rg_id g \<noteq> []"
    "\<exists>ps. member v ''prerequisites'' = JArr (map JStr ps)
       \<and> (rg_status g = Gate_PASS \<longrightarrow> (\<forall>p\<in>set ps. \<exists>st bl. map_of prior p = Some (st, bl) \<and> (bl \<longrightarrow> st = Gate_PASS)))"
    "\<exists>cvs. member v ''checks'' = JArr cvs
       \<and> (rg_status g = Gate_PASS \<longrightarrow> (\<forall>c\<in>set cvs. member c ''gate_id'' = JStr (rg_id g) \<and> recorded_check_ok c))"
proof -
  from assms obtain f i st rq bl ps fr br expected blocking kvs cvs prereqs cs where
    f: "record_fields v = Some f" and
    h: "bounded_id (get_prop f ''id'') = Some i" "read_gate_status (get_prop f ''status'') = Some st"
      "as_bool (get_prop f ''required'') = Some rq" "as_bool (get_prop f ''blocking'') = Some bl"
      "bounded_strings 500 200 (get_prop f ''prerequisites'') = Some ps"
      "expected_prerequisites prior ps = Some (expected, blocking)" "as_array (get_prop f ''checks'') = Some cvs"
      "read_checks pd i cvs = Some cs" "i \<notin> set (map fst prior)" "status_derived st fr br (map fst cs) blocking" and
    g: "g = \<lparr>rg_id = i, rg_status = st, rg_required = rq, rg_blocking = bl, rg_prereqs = prereqs, rg_checks = cs\<rparr>"
    by (auto simp: read_gate_def split: option.splits prod.splits if_splits)
  note m = record_fields_member[OF f]
  note id = bounded_id_Some[OF h(1)]
  show "member v ''id'' = JStr (rg_id g)" "member v ''status'' = JStr (gate_status_text (rg_status g))"
    "member v ''required'' = JBool (rg_required g)" "member v ''blocking'' = JBool (rg_blocking g)"
    "rg_id g \<notin> set (map fst prior)" "rg_id g \<noteq> []"
    using h(3,4,9) id read_gate_status_Some[OF h(2)] by (simp_all add: m g)
  have pass: "blocking = None \<and> (\<forall>c\<in>set (map fst cs). check_satisfied c)" if "st = Gate_PASS"
    using h(10) that gate_status_pass[of "map fst cs"] by (simp add: status_derived_def Let_def)
  show "\<exists>ps. member v ''prerequisites'' = JArr (map JStr ps)
       \<and> (rg_status g = Gate_PASS \<longrightarrow> (\<forall>p\<in>set ps. \<exists>st bl. map_of prior p = Some (st, bl) \<and> (bl \<longrightarrow> st = Gate_PASS)))"
    using bounded_strings_Some[OF h(5)] expected_unblocked[of prior ps expected] h(6) pass by (auto simp: m g)
  have "\<forall>c\<in>set cvs. member c ''gate_id'' = JStr i \<and> recorded_check_ok c" if "st = Gate_PASS"
  proof
    fix x assume "x \<in> set cvs"
    then obtain c where "(c, x) \<in> set cs" using read_checks_Some[OF h(8)] by auto
    then show "member x ''gate_id'' = JStr i \<and> recorded_check_ok x"
      using read_checks_Some[OF h(8)] pass[OF that] by (intro read_check_satisfied[of pd i x c]) auto
  qed
  then show "\<exists>cvs. member v ''checks'' = JArr cvs
       \<and> (rg_status g = Gate_PASS \<longrightarrow> (\<forall>c\<in>set cvs. member c ''gate_id'' = JStr (rg_id g) \<and> recorded_check_ok c))"
    using h(7) by (auto simp: m g)
qed

subsection \<open>The list of gates\<close>

definition gate_fact :: "read_gate_entry \<Rightarrow> string \<times> gate_status \<times> bool" where
  "gate_fact g = (rg_id g, rg_status g, rg_blocking g)"

lemma read_gates_nth:
  "read_gates pd prior vs = Some gs \<Longrightarrow> length gs = length vs
     \<and> (\<forall>n<length vs. read_gate pd (rev (map gate_fact (take n gs)) @ prior) (vs ! n) = Some (gs ! n))"
proof (induction pd prior vs arbitrary: gs rule: read_gates.induct)
  case (1 pd prior)
  then show ?case by simp
next
  case (2 pd prior v vs)
  from 2(2) obtain g gs' where g: "read_gate pd prior v = Some g" "read_gates pd (gate_fact g # prior) vs = Some gs'" "gs = g # gs'"
    by (auto simp: gate_fact_def split: option.splits)
  note ih = 2(1)[OF g(1) g(2)[unfolded gate_fact_def], folded gate_fact_def]
  have "read_gate pd (rev (map gate_fact (take n gs)) @ prior) ((v # vs) ! n) = Some (gs ! n)" if "n < length (v # vs)" for n
    using that ih g by (cases n) simp_all
  then show ?case using ih g(3) by simp
qed

lemma read_gates_distinct:
  assumes "read_gates pd [] vs = Some gs"
  shows "distinct (map rg_id gs)"
proof -
  note r = read_gates_nth[OF assms]
  have "rg_id (gs ! i) \<noteq> rg_id (gs ! j)" if "i < j" "j < length gs" for i j
  proof -
    have "rg_id (gs ! j) \<notin> set (map fst (rev (map gate_fact (take j gs)) @ []))"
      using read_gate_Some(5) r that by (metis (no_types, lifting))
    moreover have "gs ! i \<in> set (take j gs)" using that by (auto simp: in_set_conv_nth intro!: exI[of _ i])
    ultimately show ?thesis by (auto simp: gate_fact_def image_iff)
  qed
  then show ?thesis by (auto simp: distinct_conv_nth) (metis linorder_neqE_nat)
qed

lemma prior_fact:
  assumes "map_of (rev (map gate_fact (take n gs))) p = Some (st, bl)"
  shows "\<exists>g\<in>set gs. rg_id g = p \<and> rg_status g = st \<and> rg_blocking g = bl"
proof -
  from map_of_SomeD[OF assms] obtain g where "g \<in> set (take n gs)" "gate_fact g = (p, st, bl)" by auto
  then show ?thesis using set_take_subset[of n gs] by (auto simp: gate_fact_def)
qed

lemma read_overall_pass:
  "read_overall requested gs = Gate_PASS \<longleftrightarrow> (\<forall>g\<in>set gs. rg_id g \<in> set requested \<or> rg_required g \<longrightarrow> rg_status g = Gate_PASS)"
proof -
  have "fold (\<lambda>g st. if P g then worst_status st (rg_status g) else st) es st = Gate_PASS \<longleftrightarrow>
      st = Gate_PASS \<and> (\<forall>e\<in>set es. P e \<longrightarrow> rg_status e = Gate_PASS)" for P es st
    by (induction es arbitrary: st) (auto simp: worst_status_pass)
  from this[of "\<lambda>g. rg_id g \<in> set requested \<or> rg_required g" gs Gate_PASS] show ?thesis by (simp add: read_overall_def)
qed

lemma recorded_index:
  assumes "read_gates pd [] vs = Some gs" "g \<in> set gs"
  obtains n where "n < length vs" "gs ! n = g" "read_gate pd (rev (map gate_fact (take n gs))) (vs ! n) = Some g"
  using assms read_gates_nth[OF assms(1)] by (auto simp: in_set_conv_nth)

lemma recorded_pass_earned:
  assumes "read_gates pd [] vs = Some gs" "g \<in> set gs" "rg_status g = Gate_PASS"
  shows "record_earned vs (rg_id g)"
proof -
  obtain n where n: "n < length vs" "read_gate pd (rev (map gate_fact (take n gs))) (vs ! n) = Some g"
    using recorded_index[OF assms(1,2)] by metis
  note g = read_gate_Some[OF n(2)]
  have "vs ! n \<in> set vs" using n(1) by simp
  then show ?thesis using g(1,2,8) assms(3) unfolding record_earned_def by (intro bexI[of _ "vs ! n"]) (auto simp: items_def)
qed

lemma recorded_member:
  assumes "read_gates pd [] vs = Some gs" "v \<in> set vs"
  obtains n g where "n < length vs" "v = vs ! n" "g \<in> set gs" "read_gate pd (rev (map gate_fact (take n gs))) v = Some g"
  using assms read_gates_nth[OF assms(1)] by (auto simp: in_set_conv_nth)

lemma recorded_step:
  assumes r: "read_gates pd [] vs = Some gs" and g: "g \<in> set gs" "rg_status g = Gate_PASS" and n: "record_needs vs (rg_id g) p"
  shows "\<exists>g'\<in>set gs. rg_id g' = p \<and> rg_status g' = Gate_PASS"
proof -
  from n obtain v w where v: "v \<in> set vs" "member v ''id'' = JStr (rg_id g)" "JStr p \<in> set (items (member v ''prerequisites''))"
    and w: "w \<in> set vs" "member w ''id'' = JStr p" "member w ''blocking'' = JBool True"
    unfolding record_needs_def by blast
  obtain k g1 where k: "g1 \<in> set gs" "read_gate pd (rev (map gate_fact (take k gs))) v = Some g1"
    using recorded_member[OF r v(1)] by metis
  have "g1 = g" using read_gate_Some(1)[OF k(2)] v(2) k(1) g(1) read_gates_distinct[OF r] by (auto simp: distinct_map inj_on_def)
  with read_gate_Some(7)[OF k(2)] g(2) obtain ps where ps: "member v ''prerequisites'' = JArr (map JStr ps)"
    "\<forall>p\<in>set ps. \<exists>st bl. map_of (rev (map gate_fact (take k gs))) p = Some (st, bl) \<and> (bl \<longrightarrow> st = Gate_PASS)" by blast
  have "p \<in> set ps" using v(3) ps(1) by (auto simp: items_def)
  with ps(2) obtain st bl where
    st: "map_of (rev (map gate_fact (take k gs))) p = Some (st, bl)" "bl \<longrightarrow> st = Gate_PASS" by blast
  from prior_fact[OF st(1)] obtain g' where g': "g' \<in> set gs" "rg_id g' = p" "rg_status g' = st" "rg_blocking g' = bl" by blast
  obtain j g2 where j: "g2 \<in> set gs" "read_gate pd (rev (map gate_fact (take j gs))) w = Some g2"
    using recorded_member[OF r w(1)] by metis
  have "g2 = g'" using read_gate_Some(1)[OF j(2)] w(2) j(1) g'(1,2) read_gates_distinct[OF r] by (auto simp: distinct_map inj_on_def)
  then have "bl" using read_gate_Some(4)[OF j(2)] w(3) g'(4) by simp
  then show ?thesis using g' st(2) by blast
qed

subsection \<open>The property\<close>

lemma validate_records_Some:
  assumes "validate_records pd run m gv ev = Some facts"
  obtains vs gs where "member gv ''gates'' = JArr vs" "read_gates pd [] vs = Some gs" "set (pg_requested facts) \<subseteq> set (map rg_id gs)"
    "read_overall (pg_requested facts) gs = Gate_PASS \<longleftrightarrow> gm_outcome m = Some ''SUCCESS''"
proof -
  from assms obtain g e where ge: "record_fields gv = Some g" "record_fields ev = Some e" "heads_agree run m g e"
    unfolding validate_records_def by (fastforce split: option.splits if_splits)
  from assms ge(3) obtain requested vs binding checks where
    h: "bounded_strings 500 200 (get_prop g ''requested'') = Some requested" "as_array (get_prop g ''gates'') = Some vs"
      "conclude_records pd m requested vs binding checks = Some facts"
    unfolding validate_records_def ge(1,2) by (auto split: option.splits simp del: as_array_Some)
  note a1 = h(3)[unfolded conclude_records_def]
  from a1 obtain gs where gs: "read_gates pd [] vs = Some gs" by (cases "read_gates pd [] vs") (simp_all split: if_splits)
  note a2 = a1[unfolded gs option.case Let_def]
  have c: "set requested \<subseteq> set (map rg_id gs)" "(read_overall requested gs = Gate_PASS) = (gm_outcome m = Some ''SUCCESS'')"
    using a2 by (auto split: if_splits)
  have "pg_requested facts = requested" using a2 by (auto split: if_splits option.splits)
  with c show ?thesis using that[of vs gs] h(2) gs record_fields_member[OF ge(1)] by simp
qed

text \<open>C31: a record that is accepted for a run with a SUCCESS manifest was earned as recorded: every
  requested gate, and every gate it reaches through blocking prerequisites, stands in the record as a
  PASS whose own recorded checks bear it. Editing a status, a check or a prerequisite of such a gate
  makes the reader refuse the record.\<close>

theorem accepted_record_is_earned:
  assumes "validate_records pd run m gv ev = Some facts" "gm_outcome m = Some ''SUCCESS''"
    and "i \<in> set (pg_requested facts)" "(record_needs (items (member gv ''gates'')))\<^sup>*\<^sup>* i p"
  shows "record_earned (items (member gv ''gates'')) p"
proof -
  obtain vs gs where "member gv ''gates'' = JArr vs" "read_gates pd [] vs = Some gs"
    "set (pg_requested facts) \<subseteq> set (map rg_id gs)" "read_overall (pg_requested facts) gs = Gate_PASS \<longleftrightarrow> gm_outcome m = Some ''SUCCESS''"
    by (rule validate_records_Some[OF assms(1)])
  then have v: "items (member gv ''gates'') = vs" "read_gates pd [] vs = Some gs" "set (pg_requested facts) \<subseteq> set (map rg_id gs)"
    "read_overall (pg_requested facts) gs = Gate_PASS" using assms(2) by (simp_all add: items_def)
  have "\<exists>g\<in>set gs. rg_id g = p \<and> rg_status g = Gate_PASS"
    using assms(4) unfolding v(1)
  proof (induction rule: rtranclp_induct)
    case base
    then show ?case using v(3,4) assms(3) unfolding read_overall_pass by auto
  next
    case (step p q)
    then show ?case using recorded_step[OF v(2)] by metis
  qed
  then show ?thesis using recorded_pass_earned[OF v(2)] unfolding v(1) by blast
qed

end
