(* ===== verification/Gate_Roundtrip.thy ===== *)
theory Gate_Roundtrip
  imports Gate_Record_Safety
begin

section \<open>Persisted runs are read back\<close>

text \<open>
  What a run writes, the reader accepts: value by value (\<open>read_check_value\<close>, \<open>read_gate_value\<close>,
  \<open>read_evidence_value\<close>) and list by list, under the bounds the reader imposes, which
  \<open>persistable\<close> collects.
\<close>

named_theorems record_facts

subsection \<open>Values\<close>

lemma get_field [simp]:
  "get_prop ((k, v) # kvs) k = v" "k' \<noteq> k \<Longrightarrow> get_prop ((k', v) # kvs) k = get_prop kvs k" "get_prop [] k = JUndef"
  by (simp_all add: get_prop_def)

lemma get_optional [simp]:
  "get_prop (optional_field k' x f @ kvs) k = (if k' = k then (case x of Some y \<Rightarrow> f y | None \<Rightarrow> get_prop kvs k) else get_prop kvs k)"
  by (simp add: optional_field_def split: option.splits)

lemma get_optional_last [simp]:
  "get_prop (optional_field k' x f) k = (if k' = k then (case x of Some y \<Rightarrow> f y | None \<Rightarrow> JUndef) else JUndef)"
  using get_optional[of k' x f "[]" k] by (simp split: option.splits)

lemma bounded_texts [simp]:
  "bounded_strings n k (texts_value ss) = (if length ss \<le> n \<and> list_all (\<lambda>s. length s \<le> k) ss then Some ss else None)"
  by (simp add: bounded_strings_def texts_value_def)

lemma bounded_id_str [simp]: "bounded_id (JStr s) = (if s \<noteq> [] \<and> length s \<le> 200 then Some s else None)"
  by (simp add: bounded_id_def)

lemma nullable_value [simp]: "nullable_text (null_value x) = Some x"
  by (simp add: nullable_text_def null_value_def split: option.splits)

lemma read_gate_status_value [simp]: "read_gate_status (JStr (gate_status_text st)) = Some st"
  unfolding read_gate_status_def by (rule gate_status.parse_text)

definition times_ok :: "date_parser \<Rightarrow> (int \<Rightarrow> string) \<Rightarrow> int \<Rightarrow> int \<Rightarrow> bool" where
  "times_ok pd to_iso a b = (pd (to_iso a) = Some a \<and> pd (to_iso b) = Some b \<and> elapsed a b \<le> max_safe_integer)"

lemma times_agree_value:
  assumes "times_ok pd to_iso a b" "get_prop f ''started_at'' = JStr (to_iso a)" "get_prop f ''finished_at'' = JStr (to_iso b)"
    "get_prop f ''duration_ms'' = int_value (elapsed a b)"
  shows "times_agree pd f"
  using assms by (simp add: times_agree_def times_ok_def read_time_def int_value_def elapsed_def)

subsection \<open>Checks\<close>

definition check_writable :: "date_parser \<Rightarrow> (int \<Rightarrow> string) \<Rightarrow> check_entry \<Rightarrow> bool" where
  "check_writable pd to_iso c =
     (ce_check c \<noteq> [] \<and> length (ce_check c) \<le> 200 \<and> ce_check c \<noteq> ''__proto__'' \<and> index_key (ce_check c) = None
      \<and> length (ce_warnings c) \<le> 500 \<and> list_all (\<lambda>w. length w \<le> 4096) (ce_warnings c)
      \<and> record_texts_ok (ce_status c) (ce_failure c) (ce_blocked c) \<and> times_ok pd to_iso (ce_started c) (ce_finished c))"

lemma kind_text_bound: "check_kind_text k \<noteq> [] \<and> length (check_kind_text k) \<le> 200"
  by (cases k) simp_all

lemma read_check_value:
  assumes "check_writable pd to_iso c"
  shows "read_check pd (ce_gate c) (check_value to_iso c) = Some (check_facts.truncate c)"
proof -
  obtain f where f: "check_value to_iso c = JObj f" by (simp add: check_value_def)
  note g = f[symmetric, unfolded check_value_def jv.inject]
  have "times_agree pd f" unfolding g
    using assms by (intro times_agree_value[where a = "ce_started c" and b = "ce_finished c"]) (simp_all add: check_writable_def)
  then show ?thesis
    using assms kind_text_bound[of "ce_kind c"]
    unfolding f read_check_def
    by (simp add: g check_writable_def check_facts.truncate_def)
qed

lemma read_checks_value:
  "\<forall>c\<in>set cs. check_writable pd to_iso c \<and> ce_gate c = gid \<Longrightarrow>
   read_checks pd gid (map (check_value to_iso) cs) = Some (map (\<lambda>c. (check_facts.truncate c, check_value to_iso c)) cs)"
proof (induction cs)
  case (Cons c cs)
  then have "read_check pd gid (check_value to_iso c) = Some (check_facts.truncate c)" using read_check_value[of pd to_iso c] by simp
  with Cons show ?case by simp
qed simp

lemma truncate_facts [simp]:
  "ce_check (check_facts.truncate c) = ce_check c" "ce_status (check_facts.truncate c) = ce_status c"
  "ce_required (check_facts.truncate c) = ce_required c" "ce_blocking (check_facts.truncate c) = ce_blocking c"
  "ce_failure (check_facts.truncate c) = ce_failure c" "ce_blocked (check_facts.truncate c) = ce_blocked c"
  "ce_warnings (check_facts.truncate c) = ce_warnings c"
  by (simp_all add: check_facts.truncate_def)

lemma warnings_truncate: "check_warnings (check_facts.truncate c) = check_warnings c"
  by (simp add: check_warnings_def)

lemma status_truncate: "gate_status_from_checks (map check_facts.truncate cs) = gate_status_from_checks cs"
  by (simp add: gate_status_from_checks_def Let_def filter_map comp_def warnings_truncate)

subsection \<open>Prerequisites\<close>

definition entry_fact :: "gate_entry \<Rightarrow> string \<times> gate_status \<times> bool" where
  "entry_fact e = (ge_id e, ge_status e, ge_blocking e)"

lemma map_of_prior: "map_of (rev (map entry_fact es)) p = map_option (\<lambda>e. (ge_status e, ge_blocking e)) (entry_of es p)"
proof -
  have "map_of (map entry_fact es) p = map_option (\<lambda>e. (ge_status e, ge_blocking e)) (find (\<lambda>e. ge_id e = p) es)" for es
    by (induction es) (auto simp: entry_fact_def)
  from this[of "rev es"] show ?thesis by (simp add: entry_of_def rev_map)
qed

definition blocks_as :: "gate list \<Rightarrow> gate_entry list \<Rightarrow> string \<Rightarrow> bool" where
  "blocks_as gs done p = (\<exists>e g. entry_of done p = Some e \<and> gate_named gs p = Some g \<and> ga_blocking g = ge_blocking e)"

definition status_of :: "gate_entry list \<Rightarrow> string \<Rightarrow> gate_status" where
  "status_of done p = (case entry_of done p of Some e \<Rightarrow> ge_status e | None \<Rightarrow> Gate_NOT_RUN)"

lemma put_fresh: "k \<notin> fst ` set m \<Longrightarrow> k \<noteq> ''__proto__'' \<Longrightarrow> put_status k v m = m @ [(k, v)]"
proof -
  have "k \<notin> fst ` set m \<Longrightarrow> assign_key k v m = m @ [(k, v)]"
    by (induction m) auto
  then show "k \<notin> fst ` set m \<Longrightarrow> k \<noteq> ''__proto__'' \<Longrightarrow> put_status k v m = m @ [(k, v)]" by (simp add: put_status_def)
qed

lemma prerequisites_recorded:
  assumes "\<forall>p\<in>set ps. blocks_as gs done p" "distinct ps" "''__proto__'' \<notin> set ps" "fst ` set acc \<inter> set ps = {}"
  shows "\<exists>qs b. expected_prerequisites (rev (map entry_fact done)) ps = Some (qs, b) \<and> set qs \<subseteq> set ps
     \<and> check_prerequisites gs done acc ps
         = (acc @ map (\<lambda>q. (q, status_of done q, True)) qs,
            map_option (\<lambda>(p, st). ''prerequisite '' @ p @ '' is '' @ gate_status_text st @ '' (this-run)'') b)"
  using assms
proof (induction ps arbitrary: acc)
  case (Cons p ps)
  from Cons.prems(1) obtain e g where e: "entry_of done p = Some e" "gate_named gs p = Some g" "ga_blocking g = ge_blocking e"
    by (auto simp: blocks_as_def)
  have put: "put_status p x acc = acc @ [(p, x)]" for x using Cons.prems by (intro put_fresh) auto
  show ?case
  proof (cases "ge_status e \<noteq> Gate_PASS \<and> ge_blocking e")
    case True
    then show ?thesis using e by (simp add: map_of_prior put status_of_def prerequisite_source_def Let_def)
  next
    case False
    have "\<exists>qs b. expected_prerequisites (rev (map entry_fact done)) ps = Some (qs, b) \<and> set qs \<subseteq> set ps
       \<and> check_prerequisites gs done (acc @ [(p, ge_status e, True)]) ps
           = ((acc @ [(p, ge_status e, True)]) @ map (\<lambda>q. (q, status_of done q, True)) qs,
              map_option (\<lambda>(p, st). ''prerequisite '' @ p @ '' is '' @ gate_status_text st @ '' (this-run)'') b)"
      using Cons.prems by (intro Cons.IH) auto
    then show ?thesis using e False by (auto simp: map_of_prior put status_of_def Let_def)
  qed
qed simp

lemma read_prereqs_value:
  assumes "\<forall>q\<in>set qs. \<exists>e. entry_of done q = Some e"
  shows "read_prereqs (rev (map entry_fact done)) (map (\<lambda>(p, x). (p, prereq_value x)) (map (\<lambda>q. (q, status_of done q, True)) qs))
     = Some (map (\<lambda>q. (q, status_of done q)) qs)"
  using assms
  by (induction qs) (auto simp: read_prereq_def prereq_value_def map_of_prior status_of_def prerequisite_source_def)

lemma js_object_plain: "list_all (\<lambda>kv. index_key (fst kv) = None) kvs \<Longrightarrow> js_object kvs = JObj kvs"
  by (simp add: js_object_def list_all_iff filter_False filter_True)

subsection \<open>Gates\<close>

definition gate_writable :: "date_parser \<Rightarrow> (int \<Rightarrow> string) \<Rightarrow> gate_entry \<Rightarrow> bool" where
  "gate_writable pd to_iso e =
     (ge_id e \<noteq> [] \<and> length (ge_id e) \<le> 200 \<and> prerequisite_ids_ok (ge_id e) (ge_prerequisites e)
      \<and> length (ge_prerequisites e) \<le> 500 \<and> list_all (\<lambda>p. p \<noteq> ''__proto__'' \<and> index_key p = None) (ge_prerequisites e)
      \<and> length (ge_warnings e) \<le> 500 \<and> list_all (\<lambda>w. length w \<le> 4096) (ge_warnings e)
      \<and> length (ge_evidence_paths e) \<le> 10000 \<and> list_all (\<lambda>w. length w \<le> 4096) (ge_evidence_paths e)
      \<and> length (ge_declared e) \<le> 500 \<and> list_all (\<lambda>w. length w \<le> 4096) (ge_declared e)
      \<and> length (ge_checks e) \<le> 500 \<and> list_all (check_writable pd to_iso) (ge_checks e)
      \<and> times_ok pd to_iso (ge_started e) (ge_finished e))"

definition read_back :: "(int \<Rightarrow> string) \<Rightarrow> gate_entry \<Rightarrow> read_gate_entry" where
  "read_back to_iso e =
     \<lparr>rg_id = ge_id e, rg_status = ge_status e, rg_required = ge_required e, rg_blocking = ge_blocking e,
      rg_prereqs = map (\<lambda>(p, st, _). (p, st)) (ge_prereq_status e),
      rg_checks = map (\<lambda>c. (check_facts.truncate c, check_value to_iso c)) (ge_checks e)\<rparr>"

lemma read_back_sel [simp]:
  "rg_id (read_back to_iso e) = ge_id e" "rg_status (read_back to_iso e) = ge_status e"
  "rg_required (read_back to_iso e) = ge_required e" "rg_blocking (read_back to_iso e) = ge_blocking e"
  "rg_prereqs (read_back to_iso e) = map (\<lambda>(p, st, _). (p, st)) (ge_prereq_status e)"
  "rg_checks (read_back to_iso e) = map (\<lambda>c. (check_facts.truncate c, check_value to_iso c)) (ge_checks e)"
  by (simp_all add: read_back_def)

text \<open>The status an evaluation records is the one the reader derives.\<close>

lemma evaluate_gate_derived:
  assumes "evaluate_gate cx gs done g = Inr e" "list_all (\<lambda>p. p \<noteq> ''__proto__'') (ga_prerequisites g)"
    "distinct (ga_prerequisites g)" "\<forall>p\<in>set (ga_prerequisites g). blocks_as gs done p"
  obtains qs b where "expected_prerequisites (rev (map entry_fact done)) (ge_prerequisites e) = Some (qs, b)"
    "set qs \<subseteq> set (ge_prerequisites e)" "ge_prereq_status e = map (\<lambda>q. (q, status_of done q, True)) qs"
    "status_derived (ge_status e) (ge_failure e) (ge_blocked e) (map check_facts.truncate (ge_checks e)) b"
proof -
  have "''__proto__'' \<notin> set (ga_prerequisites g)" using assms(2) by (auto simp: list_all_iff)
  from prerequisites_recorded[OF assms(4,3) this, of "[]"] obtain qs b where
    x: "expected_prerequisites (rev (map entry_fact done)) (ga_prerequisites g) = Some (qs, b)" "set qs \<subseteq> set (ga_prerequisites g)" and
    c: "check_prerequisites gs done [] (ga_prerequisites g)
         = (map (\<lambda>q. (q, status_of done q, True)) qs,
            map_option (\<lambda>(p, st). ''prerequisite '' @ p @ '' is '' @ gate_status_text st @ '' (this-run)'') b)" by auto
  note p = evaluate_gate_facts(4)[OF assms(1)]
  have q: "ge_prereq_status e = map (\<lambda>q. (q, status_of done q, True)) qs"
    using assms(1) by (auto simp: evaluate_gate_def c Let_def split: if_splits sum.splits)
  have "status_derived (ge_status e) (ge_failure e) (ge_blocked e) (map check_facts.truncate (ge_checks e)) b"
  proof (cases b)
    case (Some y)
    then show ?thesis using assms(1) by (cases y) (auto simp: evaluate_gate_def c Let_def status_derived_def)
  next
    case None
    with assms(1) c have "ge_status e = gv_status (gate_status_from_checks (ge_checks e))"
      "ge_failure e = gv_failure (gate_status_from_checks (ge_checks e))" "ge_blocked e = gv_blocked (gate_status_from_checks (ge_checks e))"
      by (auto simp: evaluate_gate_def Let_def split: sum.splits)
    moreover have "gv_status (gate_status_from_checks ([] :: check_entry list)) = Gate_PASS" by (simp add: gate_status_from_checks_def)
    ultimately show ?thesis using None status_truncate[of "ge_checks e"] by (auto simp: status_derived_def Let_def)
  qed
  with that x q p show thesis by simp
qed

lemma read_gate_value:
  assumes w: "gate_writable pd to_iso e" and ev: "evaluate_gate cx gs done g = Inr e"
    and pre: "\<forall>p\<in>set (ga_prerequisites g). blocks_as gs done p" and new: "ge_id e \<notin> ge_id ` set done"
  shows "read_gate pd (rev (map entry_fact done)) (gate_value to_iso e) = Some (read_back to_iso e)"
proof -
  note p = evaluate_gate_facts(4)[OF ev]
  obtain qs b where x: "expected_prerequisites (rev (map entry_fact done)) (ge_prerequisites e) = Some (qs, b)"
    "set qs \<subseteq> set (ge_prerequisites e)" "ge_prereq_status e = map (\<lambda>q. (q, status_of done q, True)) qs"
    "status_derived (ge_status e) (ge_failure e) (ge_blocked e) (map check_facts.truncate (ge_checks e)) b"
    by (rule evaluate_gate_derived[OF ev _ _ pre]) (use w p in \<open>auto simp: gate_writable_def prerequisite_ids_ok_def list_all_iff\<close>)
  have checks: "read_checks pd (ge_id e) (map (check_value to_iso) (ge_checks e))
      = Some (map (\<lambda>c. (check_facts.truncate c, check_value to_iso c)) (ge_checks e))"
  proof (rule read_checks_value, rule ballI)
    fix c assume c: "c \<in> set (ge_checks e)"
    from entry_checks[OF ev c] obtain d as where "evaluate_check cx (ga_id g) d = Inr (c, as)" by blast
    then have "ce_gate c = ge_id e" using evaluate_check_entry evaluate_gate_facts(1)[OF ev] by metis
    then show "check_writable pd to_iso c \<and> ce_gate c = ge_id e" using w c by (simp add: gate_writable_def list_all_iff)
  qed
  have keys: "js_object (map (\<lambda>(p, x). (p, prereq_value x)) (ge_prereq_status e)) = JObj (map (\<lambda>(p, x). (p, prereq_value x)) (ge_prereq_status e))"
    using w x(2,3) by (intro js_object_plain) (auto simp: list_all_iff gate_writable_def)
  have pres: "read_prereqs (rev (map entry_fact done)) (map (\<lambda>(p, x). (p, prereq_value x)) (ge_prereq_status e))
      = Some (map (\<lambda>(p, st, _). (p, st)) (ge_prereq_status e))"
    unfolding x(3) by (subst read_prereqs_value) (use pre x(2) p in \<open>auto simp: blocks_as_def comp_def\<close>)
  have own: "own_keys (map (\<lambda>(p, x). (p, prereq_value x)) (ge_prereq_status e)) = qs"
    by (simp add: own_keys_def x(3) comp_def)
  obtain f where f: "gate_value to_iso e = JObj f" by (simp add: gate_value_def)
  note g = f[symmetric, unfolded gate_value_def jv.inject keys]
  have id: "ge_id e \<notin> set (map fst (rev (map entry_fact done)))" using new by (auto simp: entry_fact_def)
  have t: "gate_texts_ok pd f" unfolding gate_texts_ok_def
    using w times_agree_value[of pd to_iso "ge_started e" "ge_finished e" f] by (simp add: g gate_writable_def)
  have fields: "get_prop f ''id'' = JStr (ge_id e)" "get_prop f ''status'' = JStr (gate_status_text (ge_status e))"
    "get_prop f ''required'' = JBool (ge_required e)" "get_prop f ''blocking'' = JBool (ge_blocking e)"
    "get_prop f ''prerequisites'' = texts_value (ge_prerequisites e)" "get_prop f ''failure_reason'' = null_value (ge_failure e)"
    "get_prop f ''blocked_reason'' = null_value (ge_blocked e)"
    "get_prop f ''prerequisite_status'' = JObj (map (\<lambda>(p, x). (p, prereq_value x)) (ge_prereq_status e))"
    "get_prop f ''checks'' = JArr (map (check_value to_iso) (ge_checks e))"
    by (simp_all add: g)
  have bounds: "length (ge_id e) \<le> 200" "ge_id e \<noteq> []" "length (ge_prerequisites e) \<le> 500"
    "list_all (\<lambda>s. length s \<le> 200) (ge_prerequisites e)" "prerequisite_ids_ok (ge_id e) (ge_prerequisites e)" "length (ge_checks e) \<le> 500"
    using w by (auto simp: gate_writable_def prerequisite_ids_ok_def list_all_iff)
  show ?thesis
    unfolding f read_gate_def
    using bounds id t x(4) by (simp add: fields x(1) pres checks own read_back_def comp_def)
qed

lemma read_gates_value:
  assumes es: "entries_evaluated cx gs (xs @ ys)" and d: "distinct (map ge_id (xs @ ys))"
    and w: "list_all (gate_writable pd to_iso) ys"
    and pre: "\<And>as e bs g p. xs @ ys = as @ e # bs \<Longrightarrow> gate_named gs (ge_id e) = Some g \<Longrightarrow> p \<in> set (ga_prerequisites g)
                \<Longrightarrow> blocks_as gs as p"
  shows "read_gates pd (rev (map entry_fact xs)) (map (gate_value to_iso) ys) = Some (map (read_back to_iso) ys)"
  using assms
proof (induction ys arbitrary: xs)
  case (Cons e ys)
  from Cons.prems(1) obtain g where g: "gate_named gs (ge_id e) = Some g" "evaluate_gate cx gs xs g = Inr e"
    unfolding entries_evaluated_def by blast
  have r: "read_gate pd (rev (map entry_fact xs)) (gate_value to_iso e) = Some (read_back to_iso e)"
    using Cons.prems(2,3) Cons.prems(4)[OF refl g(1)] by (intro read_gate_value[OF _ g(2)]) auto
  have "read_gates pd (rev (map entry_fact (xs @ [e]))) (map (gate_value to_iso) ys) = Some (map (read_back to_iso) ys)"
    using Cons.prems by (intro Cons.IH) auto
  then show ?case using r by (simp add: entry_fact_def[of e])
qed simp

subsection \<open>Evidence\<close>

definition evidence_writable :: "string \<Rightarrow> bool \<Rightarrow> evidence_entry \<Rightarrow> bool" where
  "evidence_writable cid ok ev =
     (if ev_type ev = Ev_manual
      then ev_check_id ev = Some cid \<and> ev_provided_by ev = Some ''user-command'' \<and> length (ev_detail ev) \<le> 262144
      else (ev_check_id ev = None \<or> ev_check_id ev = Some cid)
        \<and> (ev_type ev = Ev_artifact \<longrightarrow>
             (case (ev_recipe ev, ev_run_id ev) of
                (Some recipe, Some run) \<Rightarrow> recipe \<noteq> [] \<and> length recipe \<le> 200 \<and> run \<noteq> [] \<and> length run \<le> 200
              | _ \<Rightarrow> False)
             \<and> (ok \<longrightarrow> (\<exists>d\<in>set_option (ev_digest ev). hash_re d) \<and> ev_freshness ev \<in> {Some ''current'', Some ''immutable-snapshot''})))"

definition fact_of :: "string \<Rightarrow> evidence_entry \<Rightarrow> evidence_fact" where
  "fact_of cid ev =
     (if ev_type ev = Ev_manual then (if js_trim (ev_detail ev) = [] then Fact_none else Fact_note (js_trim (ev_detail ev)))
      else if ev_type ev = Ev_artifact then
        (case (ev_recipe ev, ev_run_id ev, ev_digest ev, ev_freshness ev) of
           (Some recipe, Some run, Some d, Some fresh) \<Rightarrow>
             if hash_re d \<and> (fresh = ''current'' \<or> fresh = ''immutable-snapshot'')
             then Fact_source \<lparr>as_check = cid, as_recipe = recipe, as_run = run, as_digest = d, as_freshness = fresh\<rparr>
             else Fact_none
         | _ \<Rightarrow> Fact_none)
      else Fact_none)"

lemma evidence_text_kinds: "(evidence_type_text t = ''manual'') = (t = Ev_manual)" "(evidence_type_text t = ''artifact'') = (t = Ev_artifact)"
  by (cases t; simp)+

lemma read_evidence_value:
  assumes "evidence_writable cid ok ev"
  shows "read_evidence cid ok (evidence_value ev) = Some (fact_of cid ev)"
proof -
  obtain f where f: "evidence_value ev = JObj f" by (simp add: evidence_value_def)
  note g = f[symmetric, unfolded evidence_value_def jv.inject]
  have opt: "get_prop f ''check_id'' = (case ev_check_id ev of Some y \<Rightarrow> JStr y | None \<Rightarrow> JUndef)"
    "get_prop f ''provided_by'' = (case ev_provided_by ev of Some y \<Rightarrow> JStr y | None \<Rightarrow> JUndef)"
    "get_prop f ''recipe'' = (case ev_recipe ev of Some y \<Rightarrow> JStr y | None \<Rightarrow> JUndef)"
    "get_prop f ''run_id'' = (case ev_run_id ev of Some y \<Rightarrow> JStr y | None \<Rightarrow> JUndef)"
    "get_prop f ''authority_digest'' = (case ev_digest ev of Some y \<Rightarrow> JStr y | None \<Rightarrow> JUndef)"
    "get_prop f ''authority_freshness'' = (case ev_freshness ev of Some y \<Rightarrow> JStr y | None \<Rightarrow> JUndef)"
    "get_prop f ''type'' = JStr (evidence_type_text (ev_type ev))" "get_prop f ''detail'' = JStr (ev_detail ev)"
    by (simp_all add: g cong: option.case_cong)
  show ?thesis
  proof (cases "ev_type ev = Ev_manual")
    case True
    then show ?thesis using assms by (simp add: f read_evidence_def opt evidence_writable_def fact_of_def)
  next
    case m: False
    show ?thesis
    proof (cases "ev_type ev = Ev_artifact")
      case True
      with assms obtain recipe run where r: "ev_recipe ev = Some recipe" "ev_run_id ev = Some run" "recipe \<noteq> []" "length recipe \<le> 200"
        "run \<noteq> []" "length run \<le> 200" by (auto simp: evidence_writable_def split: option.splits)
      show ?thesis using assms True r
        by (auto simp: f read_evidence_def opt evidence_writable_def fact_of_def hash_text_def Let_def split: option.splits)
    next
      case False
      then show ?thesis using assms m
        by (auto simp: f read_evidence_def opt evidence_writable_def fact_of_def evidence_text_kinds Let_def)
    qed
  qed
qed

lemma read_evidences_value:
  "list_all (evidence_writable cid ok) evs \<Longrightarrow> read_evidences cid ok (map evidence_value evs) = Some (map (fact_of cid) evs)"
  by (induction evs) (simp_all add: read_evidence_value)

subsection \<open>The map of checks\<close>

lemma put_status_map:
  assumes "k \<noteq> ''__proto__''"
  shows "map_of (put_status k v m) = (map_of m)(k \<mapsto> v)" "distinct (map fst m) \<Longrightarrow> distinct (map fst (put_status k v m))"
    "set (map fst (put_status k v m)) = insert k (set (map fst m))"
proof -
  have "map_of (assign_key k v m) = (map_of m)(k \<mapsto> v)" by (induction m) (auto simp: fun_eq_iff)
  moreover have "distinct (map fst m) \<Longrightarrow> distinct (map fst (assign_key k v m))"
  proof (induction m)
    case (Cons x m)
    then show ?case using assign_key_keys[of k v m] by (cases x) (auto simp del: set_map)
  qed simp
  ultimately show "map_of (put_status k v m) = (map_of m)(k \<mapsto> v)" "distinct (map fst m) \<Longrightarrow> distinct (map fst (put_status k v m))"
    "set (map fst (put_status k v m)) = insert k (set (map fst m))"
    using assms assign_key_keys[of k v m] by (simp_all add: put_status_def)
qed

lemma fold_put:
  assumes "\<forall>c\<in>set cs. key c \<noteq> ''__proto__''" "distinct (map fst m)"
  shows "distinct (map fst (fold (\<lambda>c m. put_status (key c) c m) cs m))
    \<and> set (map fst (fold (\<lambda>c m. put_status (key c) c m) cs m)) = key ` set cs \<union> set (map fst m)
    \<and> map_of (fold (\<lambda>c m. put_status (key c) c m) cs m) = map_of m ++ map_of (map (\<lambda>c. (key c, c)) (rev cs))"
  using assms
proof (induction cs arbitrary: m)
  case (Cons c cs)
  have k: "key c \<noteq> ''__proto__''" using Cons.prems(1) by simp
  have "map_of m ++ map_of (map (\<lambda>c. (key c, c)) (rev (c # cs))) = (map_of m)(key c \<mapsto> c) ++ map_of (map (\<lambda>c. (key c, c)) (rev cs))"
    by (simp add: map_add_upd_left)
  then show ?case using Cons.IH[where m = "put_status (key c) c m"] Cons.prems put_status_map[OF k, where v = c and m = m] by (auto simp: fun_upd_def)
qed simp

lemma map_add_rev: "map_of (map (\<lambda>c. (key c, f c)) (rev cs)) k = map_option f (map_of (map (\<lambda>c. (key c, c)) (rev cs)) k)"
proof -
  have "map_of (map (\<lambda>c. (key c, f c)) cs) k = map_option f (map_of (map (\<lambda>c. (key c, c)) cs) k)" for cs
    by (induction cs) auto
  then show ?thesis .
qed

lemma notes_of_facts:
  assumes "list_all (evidence_writable k ok) evs"
  shows "notes_of k (map (fact_of k) evs) n
     = fold (\<lambda>ev o'. case manual_entry_note k ev of Some x \<Rightarrow> put_status k x o' | None \<Rightarrow> o') evs n"
  using assms
proof (induction evs arbitrary: n)
  case (Cons ev evs)
  have "(case fact_of k ev of Fact_note x \<Rightarrow> put_status k x n | _ \<Rightarrow> n)
      = (case manual_entry_note k ev of Some x \<Rightarrow> put_status k x n | None \<Rightarrow> n)"
    using Cons.prems
    by (auto simp: fact_of_def manual_entry_note_def evidence_writable_def split: option.splits)
  with Cons show ?case by (simp add: notes_of_def)
qed (simp add: notes_of_def)

definition sources_in :: "(string \<times> check_entry) list \<Rightarrow> artifact_source list" where
  "sources_in m = concat (map (\<lambda>(k, c). sources_of (map (fact_of k) (ce_evidence c))) m)"

lemma read_evidence_map_value:
  assumes "\<forall>(k, c)\<in>set m. known k = Some (check_value to_iso c) \<and> ce_check c = k \<and> k \<noteq> [] \<and> length k \<le> 200
      \<and> list_all (evidence_writable k (ce_status c = Gate_PASS)) (ce_evidence c)"
  shows "read_evidence_map known (map (\<lambda>(k, c). (k, check_value to_iso c)) m) (n, src)
     = Some (fold (\<lambda>(k, c) out. fold (\<lambda>ev o'. case manual_entry_note k ev of Some x \<Rightarrow> put_status k x o' | None \<Rightarrow> o') (ce_evidence c) out) m n,
             src @ sources_in m)"
  using assms
proof (induction m arbitrary: n src)
  case (Cons kc m)
  obtain k c where kc: "kc = (k, c)" by fastforce
  obtain f where f: "check_value to_iso c = JObj f" by (simp add: check_value_def)
  note g = f[symmetric, unfolded check_value_def jv.inject]
  have st: "(get_prop f ''status'' = JStr ''PASS'') = (ce_status c = Gate_PASS)" by (cases "ce_status c") (simp_all add: g)
  have fs: "get_prop f ''check_id'' = JStr (ce_check c)" "get_prop f ''evidence'' = JArr (map evidence_value (ce_evidence c))"
    by (simp_all add: g)
  have w: "list_all (evidence_writable k (ce_status c = Gate_PASS)) (ce_evidence c)" using Cons.prems kc by simp
  have "read_evidence_check known (k, check_value to_iso c) = Some (map (fact_of k) (ce_evidence c))"
    using Cons.prems kc read_evidences_value[OF w]
    by (simp add: read_evidence_check_def f fs st deep_equal_def)
  then show ?case using Cons kc notes_of_facts[OF w] by (simp add: sources_in_def)
qed (simp add: sources_in_def)

subsection \<open>The whole record\<close>

definition persistable :: "date_parser \<Rightarrow> (int \<Rightarrow> string) \<Rightarrow> string option \<Rightarrow> gate_run \<Rightarrow> bool" where
  "persistable pd to_iso profile r =
     (list_all (gate_writable pd to_iso) (gr_entries r) \<and> length (gr_entries r) \<le> 500
      \<and> list_all (\<lambda>c. list_all (evidence_writable (ce_check c) (ce_status c = Gate_PASS)) (ce_evidence c))
          (concat (map ge_checks (gr_entries r)))
      \<and> distinct (gr_requested r) \<and> length (gr_requested r) \<le> 500 \<and> list_all (\<lambda>i. length i \<le> 200) (gr_requested r)
      \<and> (case profile of Some p \<Rightarrow> length p \<le> 200 | None \<Rightarrow> True)
      \<and> gr_ok r = (overall_status (gr_requested r) (gr_entries r) = Gate_PASS))"

definition recovered :: "gate_run \<Rightarrow> persisted_facts" where
  "recovered r =
     \<lparr>pg_requested = gr_requested r,
      pg_gates = map (\<lambda>e. (ge_id e, map (\<lambda>(p, st, _). (p, st)) (ge_prereq_status e))) (gr_entries r),
      pg_manual = gr_manual r, pg_sources = sources_in (evidence_by_check (gr_entries r)), pg_binding = gr_binding r\<rparr>"

lemma head_fields:
  assumes "k = ''gates'' \<or> k = ''checks''"
  shows "get_prop (record_head run profile mode r @ [(k, v)]) ''schema_version'' = int_value 1"
    "get_prop (record_head run profile mode r @ [(k, v)]) ''run_id'' = JStr run"
    "get_prop (record_head run profile mode r @ [(k, v)]) ''requested'' = texts_value (gr_requested r)"
    "get_prop (record_head run profile mode r @ [(k, v)]) ''profile'' = (case profile of Some p \<Rightarrow> JStr p | None \<Rightarrow> JUndef)"
    "get_prop (record_head run profile mode r @ [(k, v)]) ''mode'' = JStr (wb_mode_text mode)"
    "get_prop (record_head run profile mode r @ [(k, v)]) ''candidate_binding''
       = (case gr_binding r of Some b \<Rightarrow> binding_value b | None \<Rightarrow> JUndef)"
    "get_prop (record_head run profile mode r @ [(k, v)]) k = v"
  using assms by (auto simp: record_head_def cong: option.case_cong)

lemma mode_text_bound: "wb_mode_text mode \<noteq> [] \<and> length (wb_mode_text mode) \<le> 200"
  by (cases mode) simp_all

lemma read_overall_value: "read_overall requested (map (read_back to_iso) es) = overall_status requested es"
proof -
  have "fold (\<lambda>g st. if rg_id g \<in> R \<or> rg_required g then worst_status st (rg_status g) else st) (map (read_back to_iso) es) st
      = fold (\<lambda>e st. if ge_id e \<in> R \<or> ge_required e then worst_status st (ge_status e) else st) es st" for R st
    by (induction es arbitrary: st) simp_all
  then show ?thesis by (simp add: read_overall_def overall_status_def)
qed

lemma run_blocks:
  assumes s: "entries_evaluated cx gs es" "order_gates ids gs = Inr (map ge_id es)" "distinct (map ga_id gs)"
    and e: "es = as @ e # bs" "gate_named gs (ge_id e) = Some g" "p \<in> set (ga_prerequisites g)"
  shows "blocks_as gs as p"
proof -
  have "placed_after gs {} (map ge_id as @ ge_id e # map ge_id bs)"
    using order_gates_Inr[OF s(2)] e(1) by simp
  then have "p \<in> set (map ge_id as)" using ordered_prefix e(2,3) gate_by_id_named[OF s(3)] by metis
  then have "entry_of as p \<noteq> None" unfolding entry_of_def find_None_iff by auto
  then obtain e' where e': "entry_of as p = Some e'" by auto
  then have m: "e' \<in> set as" "ge_id e' = p" using entry_of_Some by blast+
  then obtain xs ys where "as = xs @ e' # ys" by (meson split_list)
  then have "es = xs @ e' # (ys @ e # bs)" using e(1) by simp
  then obtain g' where "gate_named gs (ge_id e') = Some g'" "evaluate_gate cx gs xs g' = Inr e'"
    using s(1) unfolding entries_evaluated_def by blast
  then show ?thesis using e' m evaluate_gate_facts(3)[of cx gs xs g' e'] by (auto simp: blocks_as_def)
qed

lemma checks_map:
  assumes "\<forall>c\<in>set cs. ce_check c \<noteq> ''__proto__''"
  defines "m \<equiv> fold (\<lambda>c m. put_status (ce_check c) c m) cs ([] :: (string \<times> check_entry) list)"
  shows "length m = card (ce_check ` set cs)"
    "\<forall>(k, c)\<in>set m. c \<in> set cs \<and> ce_check c = k \<and> map_of (rev (map (\<lambda>c. (ce_check c, f c)) cs)) k = Some (f c)"
proof -
  have f: "distinct (map fst m)" "set (map fst m) = ce_check ` set cs" "map_of m = map_of (map (\<lambda>c. (ce_check c, c)) (rev cs))"
    using fold_put[of cs ce_check "[]"] assms(1) unfolding m_def by auto
  show "length m = card (ce_check ` set cs)" using f(1,2) by (metis distinct_card length_map)
  show "\<forall>(k, c)\<in>set m. c \<in> set cs \<and> ce_check c = k \<and> map_of (rev (map (\<lambda>c. (ce_check c, f c)) cs)) k = Some (f c)"
  proof (rule ballI, clarify)
    fix k c assume "(k, c) \<in> set m"
    then have a: "map_of (map (\<lambda>c. (ce_check c, c)) (rev cs)) k = Some c" using f(1,3) by (metis map_of_is_SomeI)
    have c: "c \<in> set cs" "ce_check c = k" using map_of_SomeD[OF a] by auto
    then show "c \<in> set cs \<and> ce_check c = k \<and> map_of (rev (map (\<lambda>c. (ce_check c, f c)) cs)) k = Some (f c)"
      using a map_add_rev[of ce_check f cs k] by (simp add: rev_map)
  qed
qed

lemma conclude_records_value:
  assumes run: "run_gates cx inp = Inr r" and p: "persistable pd to_iso profile r"
    and m: "gm_outcome m = Some (if gr_ok r then ''SUCCESS'' else ''PROCESS_FAILED'')" "gm_exit_code m = Some (if gr_ok r then 0 else 1)"
      "gm_expected m = [0]"
  shows "conclude_records pd m (gr_requested r) (map (gate_value to_iso) (gr_entries r)) (gr_binding r)
      (map (\<lambda>(i, c). (i, check_value to_iso c)) (evidence_by_check (gr_entries r))) = Some (recovered r)"
proof -
  from run_gates_facts[OF run] obtain s where s: "run_selection inp s" "gr_requested r = gs_requested s"
    "entries_evaluated (gate_context cx inp) (gs_gates s) (gr_entries r)" "map ge_id (gr_entries r) = gs_ordered s"
    "r = conclude_run (gr_binding r) (gs_requested s) (gr_plan r) (gr_entries r)" by blast
  note sel = select_gates_facts[OF s(1)[unfolded run_selection_def]]
  note order = order_gates_Inr[OF sel(6)]
  define cs where "cs = concat (map ge_checks (gr_entries r))"
  define gs where "gs = map (read_back to_iso) (gr_entries r)"
  have wr: "list_all (gate_writable pd to_iso) (gr_entries r)" "length (gr_entries r) \<le> 500"
    "gr_ok r = (overall_status (gr_requested r) (gr_entries r) = Gate_PASS)"
    "\<forall>c\<in>set cs. list_all (evidence_writable (ce_check c) (ce_status c = Gate_PASS)) (ce_evidence c)"
    using p by (auto simp: persistable_def cs_def list_all_iff)
  have cw: "\<forall>c\<in>set cs. check_writable pd to_iso c" using wr(1) by (auto simp: cs_def gate_writable_def list_all_iff)
  have ids: "set (gr_requested r) \<subseteq> set (map ge_id (gr_entries r))"
    using order reachable_self s(2,4) by auto
  have ne: "gr_entries r \<noteq> []" using ids sel(4) s(2) by auto
  have reads: "read_gates pd [] (map (gate_value to_iso) (gr_entries r)) = Some gs"
    unfolding gs_def
  proof (rule read_gates_value[of "gate_context cx inp" "gs_gates s" "[]", simplified])
    fix as e bs g p
    assume "gr_entries r = as @ e # bs" "gate_named (gs_gates s) (ge_id e) = Some g" "p \<in> set (ga_prerequisites g)"
    then show "blocks_as (gs_gates s) as p"
      using run_blocks[OF s(3) _ sel(1), of "gs_requested s"] sel(6) s(4) by simp
  qed (use s(3,4) order wr(1) in simp_all)
  have known: "checks_known gs = map (\<lambda>c. (ce_check c, check_value to_iso c)) cs"
    by (simp add: checks_known_def gs_def cs_def comp_def map_concat)
  have proto: "\<forall>c\<in>set cs. ce_check c \<noteq> ''__proto__''" using cw by (auto simp: check_writable_def)
  have em: "evidence_by_check (gr_entries r) = fold (\<lambda>c m. put_status (ce_check c) c m) cs []"
    by (simp add: evidence_by_check_def cs_def)
  note cm = checks_map[OF proto, folded em]
  have ev: "read_evidence_map (map_of (rev (checks_known gs))) (map (\<lambda>(i, c). (i, check_value to_iso c)) (evidence_by_check (gr_entries r))) ([], [])
      = Some (gr_manual r, sources_in (evidence_by_check (gr_entries r)))"
  proof -
    have "gr_manual r = persisted_manual_evidence (evidence_by_check (gr_entries r))"
      using s(5) by (metis conclude_run_def gate_run.select_convs(7))
    moreover have "\<forall>(k, c)\<in>set (evidence_by_check (gr_entries r)). map_of (rev (checks_known gs)) k = Some (check_value to_iso c)
        \<and> ce_check c = k \<and> k \<noteq> [] \<and> length k \<le> 200 \<and> list_all (evidence_writable k (ce_status c = Gate_PASS)) (ce_evidence c)"
      unfolding known using cm(2)[of "check_value to_iso"] cw wr(4) by (fastforce simp: check_writable_def)
    ultimately show ?thesis
      using read_evidence_map_value[of "evidence_by_check (gr_entries r)" "map_of (rev (checks_known gs))" to_iso "[]" "[]"]
      by (simp add: persisted_manual_evidence_def)
  qed
  have len: "length (evidence_by_check (gr_entries r)) = card (set (map fst (checks_known gs)))"
    using cm(1) by (simp add: known image_comp comp_def)
  have "read_overall (gr_requested r) gs = overall_status (gr_requested r) (gr_entries r)" by (simp add: gs_def read_overall_value)
  moreover have "map rg_id gs = map ge_id (gr_entries r)" by (simp add: gs_def)
  moreover have "map (\<lambda>x. (rg_id x, rg_prereqs x)) gs
      = map (\<lambda>e. (ge_id e, map (\<lambda>(p, st, _). (p, st)) (ge_prereq_status e))) (gr_entries r)" by (simp add: gs_def)
  ultimately show ?thesis
    unfolding conclude_records_def using ne wr(2,3) reads ev len ids m by (simp add: Let_def recovered_def)
qed

lemma persisted_run_read:
  assumes "run_gates cx inp = Inr r" "persistable pd to_iso profile r"
  shows "validate_records pd run (run_manifest_of run profile (cx_mode cx) r) (gates_record to_iso run profile (cx_mode cx) r)
      (evidence_record to_iso run profile (cx_mode cx) r) = Some (recovered r)"
proof -
  define m where "m = run_manifest_of run profile (cx_mode cx) r"
  define g where "g = record_head run profile (cx_mode cx) r @ [(''gates'', JArr (map (gate_value to_iso) (gr_entries r)))]"
  define kvs where "kvs = map (\<lambda>(i, c). (i, check_value to_iso c)) (evidence_by_check (gr_entries r))"
  define e where "e = record_head run profile (cx_mode cx) r @ [(''checks'', JObj kvs)]"
  note h = head_fields[OF disjI1[OF refl], of run profile "cx_mode cx" r "JArr (map (gate_value to_iso) (gr_entries r))", folded g_def]
    head_fields[OF disjI2[OF refl], of run profile "cx_mode cx" r "JObj kvs", folded e_def]
  have bounds: "distinct (gr_requested r)" "length (gr_requested r) \<le> 500" "list_all (\<lambda>i. length i \<le> 200) (gr_requested r)"
    "case profile of Some p \<Rightarrow> length p \<le> 200 | None \<Rightarrow> True"
    using assms(2) by (auto simp: persistable_def)
  obtain s where s: "run_selection inp s" "gr_requested r = gs_requested s"
    "accept_binding (cx_mode cx) (gi_binding inp) = Inr (gr_binding r)"
    by (rule run_gates_facts[OF assms(1)])
  have ne: "gr_requested r \<noteq> []" using select_gates_facts(4)[OF s(1)[unfolded run_selection_def]] s(2) by simp
  have texts: "bounded_strings 500 200 (texts_value (gr_requested r)) = Some (gr_requested r)" using bounds by simp
  have prof: "optional_profile (case profile of Some p \<Rightarrow> JStr p | None \<Rightarrow> JUndef) = Some profile"
    using bounds(4) by (cases profile) (simp_all add: optional_profile_def)
  have head: "heads_agree run m g e"
    unfolding heads_agree_def h texts prof using ne bounds(1) mode_text_bound[of "cx_mode cx"]
    by (simp add: m_def run_manifest_of_def)
  have bind: "read_bindings (the (gm_mode m)) [gm_binding m, get_prop g ''candidate_binding'', get_prop e ''candidate_binding''] = Some (gr_binding r)"
  proof (cases "gr_binding r")
    case None
    then show ?thesis by (simp add: h m_def run_manifest_of_def read_bindings_def)
  next
    case (Some b)
    with s(3) have b: "parse_candidate_binding (gi_binding inp) = Some b" "cx_mode cx = Mode_VERIFY"
      by (auto simp: accept_binding_def split: if_splits option.splits)
    have "parse_candidate_binding (binding_value b) = Some b" using parse_binding_wf[OF b(1)] parse_binding_value by blast
    moreover have "binding_value b \<noteq> JUndef" by (simp add: binding_value_def)
    ultimately show ?thesis using Some b(2) by (simp add: h m_def run_manifest_of_def read_bindings_def)
  qed
  have keys: "js_object kvs = JObj kvs"
  proof (rule js_object_plain)
    have "\<forall>c\<in>set (concat (map ge_checks (gr_entries r))). check_writable pd to_iso c"
      using assms(2) by (auto simp: persistable_def gate_writable_def list_all_iff)
    then have w: "\<forall>c\<in>set (concat (map ge_checks (gr_entries r))). ce_check c \<noteq> ''__proto__'' \<and> index_key (ce_check c) = None"
      by (simp add: check_writable_def)
    then show "list_all (\<lambda>kv. index_key (fst kv) = None) kvs"
      using checks_map(2)[of "concat (map ge_checks (gr_entries r))" "\<lambda>_. ()"]
      by (fastforce simp: kvs_def evidence_by_check_def list_all_iff)
  qed
  have written: "gates_record to_iso run profile (cx_mode cx) r = JObj g" "evidence_record to_iso run profile (cx_mode cx) r = JObj e"
    using keys by (simp_all add: gates_record_def evidence_record_def g_def e_def kvs_def)
  have "conclude_records pd m (gr_requested r) (map (gate_value to_iso) (gr_entries r)) (gr_binding r) kvs = Some (recovered r)"
    unfolding kvs_def by (rule conclude_records_value[OF assms]) (simp_all add: m_def run_manifest_of_def)
  then show ?thesis
    unfolding written m_def[symmetric] validate_records_def using head bind bounds by (simp add: h)
qed

text \<open>C30: what a run persists can be relied on later, if it is one the reader can represent (\<open>persistable\<close>):
  the requested ids are distinct, the outcome is the overall status of the requested gates, at most 500
  gates and 500 requested ids, ids within 200 characters and texts and lists within the bounds of the
  reader, no check or prerequisite named like an array index or \<open>__proto__\<close>, times that print and
  parse back, manual evidence from the user command and artifact evidence with its recipe and run, a PASS
  with its digest and freshness. Then both records are accepted against the manifest of the run, and the
  facts recovered from them are those of the run - the requested gates, the prerequisite statuses, the
  notes of the user, the artifact sources and the candidate binding.\<close>

theorem persisted_run_is_recovered:
  assumes "run_gates cx inp = Inr r" "persistable pd to_iso profile r"
  shows "validate_records pd run (run_manifest_of run profile (cx_mode cx) r) (gates_record to_iso run profile (cx_mode cx) r)
      (evidence_record to_iso run profile (cx_mode cx) r) = Some (recovered r)"
  by (rule persisted_run_read[OF assms])

end
