(* ===== verification/Gate_Record_Examples.thy ===== *)
theory Gate_Record_Examples
  imports Gate_Examples Gate_Roundtrip
begin

section \<open>A persisted run\<close>

text \<open>
  A run of one gate with its prerequisites, written with a unary clock and read back, and a record that
  was edited after the run.
\<close>

definition short_input :: gate_input where
  "short_input = sample_input\<lparr>gi_selector := ''b2''\<rparr>"

definition short_ids :: "string list" where "short_ids = [''b0'', ''b1'', ''b2'']"

lemma short_context: "gate_context sample_context short_input = sample_context\<lparr>cx_manual := [(''b2.1'', ''reviewed''), (''other'', ''x'')]\<rparr>"
  using safe_context by (simp add: gate_context_def short_input_def)

lemma short_order: "order_gates [''b2''] (small_gates @ [safety_gate]) = Inr short_ids"
  by (simp add: order_gates_def short_ids_def small_gates_def gate_by_id_def safety_gate_facts)

lemma short_select: "select_gates None small_document ''b2''
   = Inr \<lparr>gs_gates = small_gates @ [safety_gate], gs_requested = [''b2''], gs_ordered = short_ids\<rparr>"
proof -
  have "resolve_selector ''b2'' (small_gates @ [safety_gate]) = [''b2'']"
    by (simp add: resolve_selector_def js_trim_def is_js_space_def map_filter_simps)
  then show ?thesis
    using short_order
    by (simp add: select_gates_def load_gate_list_def small_parse small_effective) (simp add: small_gates_def safety_gate_facts)
qed

definition short_entry :: "string \<Rightarrow> string list \<Rightarrow> check_kind \<Rightarrow> evidence_entry list \<Rightarrow> gate_entry" where
  "short_entry i ps k evs =
     \<lparr>ge_id = i, ge_title = i, ge_description = [], ge_status = Gate_PASS, ge_required = True, ge_blocking = True, ge_prerequisites = ps,
      ge_prereq_status = map (\<lambda>p. (p, Gate_PASS, True)) ps,
      ge_checks = [\<lparr>ce_check = i @ ''.1'', ce_status = Gate_PASS, ce_required = True, ce_blocking = True, ce_failure = None,
        ce_blocked = None, ce_warnings = [], ce_gate = i, ce_kind = k, ce_evidence = evs, ce_started = 0, ce_finished = 5\<rparr>],
      ge_failure = None, ge_blocked = None, ge_warnings = [], ge_evidence_paths = [''evidence.json#/checks/'' @ i @ ''.1''],
      ge_declared = [], ge_started = 0, ge_finished = 7\<rparr>"

definition plain_evidence :: "evidence_entry list \<Rightarrow> bool" where
  "plain_evidence evs = list_all (\<lambda>e. ev_type e \<notin> {Ev_manual, Ev_artifact} \<and> ev_check_id e = None) evs"

definition note_evidence :: evidence_entry where
  "note_evidence = (evidence_of Ev_manual ''reviewed'')\<lparr>ev_check_id := Some ''b2.1'', ev_provided_by := Some ''user-command''\<rparr>"

definition short_run_entries :: "evidence_entry list \<Rightarrow> evidence_entry list \<Rightarrow> gate_entry list" where
  "short_run_entries v w =
     [short_entry ''b0'' [] Check_config v, short_entry ''b1'' [''b0''] Check_config w, short_entry ''b2'' [''b1''] Check_manual [note_evidence]]"

lemma short_entries: "\<exists>v w. plain_evidence v \<and> plain_evidence w
   \<and> run_ordered (gate_context sample_context short_input) (small_gates @ [safety_gate]) [] short_ids = Inr (short_run_entries v w)"
  unfolding short_context
  by (simp add: short_run_entries_def short_ids_def small_gates_def gate_named_def evaluate_gate_def entry_of_def put_status_def
      safety_gate_facts evaluate_check_def evaluate_kind_def evaluate_config_def evaluate_manual_def manual_note_def passed_def
      catalog_check_def sample_context_def js_trim_def is_js_space_def gate_status_from_checks_def check_warnings_def plain_gate_def
      short_entry_def note_evidence_def)
    (simp add: plain_evidence_def evidence_of_def sourced_def)

definition short_run :: "evidence_entry list \<Rightarrow> evidence_entry list \<Rightarrow> gate_run" where
  "short_run v w = conclude_run None [''b2''] (Some \<lparr>pv_hash = ''h'', pv_gates = [''b1''], pv_full = False\<rparr>) (short_run_entries v w)"

lemma short_run: "\<exists>v w. plain_evidence v \<and> plain_evidence w \<and> run_gates sample_context short_input = Inr (short_run v w)"
proof -
  obtain v w where e: "plain_evidence v" "plain_evidence w"
    "run_ordered (gate_context sample_context short_input) (small_gates @ [safety_gate]) [] short_ids = Inr (short_run_entries v w)"
    using short_entries by blast
  have i: "gi_profile short_input = None" "gi_document short_input = small_document" "gi_selector short_input = ''b2''"
    "gi_binding short_input = JUndef" by (simp_all add: short_input_def sample_input_def)
  have "resolve_plan_authority (gi_authority short_input) (gi_selector short_input) (small_gates @ [safety_gate]) short_ids
    (cx_facts sample_context) = Inr (Some \<lparr>pv_hash = ''h'', pv_gates = [''b1''], pv_full = False\<rparr>)"
    by (simp add: resolve_plan_authority_def short_input_def sample_input_def sample_context_def safe_facts_def small_gates_def
        is_final_plan_selector_def js_trim_def is_js_space_def)
  then have "run_gates sample_context short_input = Inr (short_run v w)"
    unfolding run_gates_def i accept_binding_def short_select using e(3) by (simp add: i short_run_def)
  with e(1,2) show ?thesis by blast
qed

lemma unary_times: "times_ok unary_clock unary_iso 0 5" "times_ok unary_clock unary_iso 0 7"
  by (simp_all add: times_ok_def unary_clock_def unary_iso_def elapsed_def max_safe_integer_def)

lemma plain_names: "index_key ''b0'' = None" "index_key ''b1'' = None" "index_key ''b0.1'' = None" "index_key ''b1.1'' = None" "index_key ''b2.1'' = None"
  by (simp_all add: index_key_def array_index_def is_digit_def)

lemma short_entry_writable:
  assumes "length i \<le> 2" "i \<noteq> []" "index_key (i @ ''.1'') = None" "list_all (\<lambda>p. p \<noteq> i \<and> p \<noteq> [] \<and> length p \<le> 2 \<and> index_key p = None) ps"
    "length ps \<le> 1"
  shows "gate_writable unary_clock unary_iso (short_entry i ps k evs)"
proof -
  have "''__proto__'' \<noteq> i @ ''.1''" using assms(1) by (auto dest: arg_cong[where f = length])
  moreover have "list_all (\<lambda>p. p \<noteq> ''__proto__'') ps" using assms(4) by (auto simp: list_all_iff)
  moreover have "distinct ps" using assms(5) by (cases ps) auto
  ultimately show ?thesis
    using assms unary_times
    by (auto simp: short_entry_def gate_writable_def check_writable_def record_texts_ok_def prerequisite_ids_ok_def list_all_iff)
qed

lemma plain_writable: "plain_evidence evs \<Longrightarrow> list_all (evidence_writable k ok) evs"
  by (auto simp: plain_evidence_def evidence_writable_def list_all_iff)

lemma short_persistable:
  assumes "plain_evidence v" "plain_evidence w"
  shows "persistable unary_clock unary_iso None (short_run v w)"
proof -
  have st: "gr_requested (short_run v w) = [''b2'']" "gr_entries (short_run v w) = short_run_entries v w"
    "gr_ok (short_run v w)" "overall_status [''b2''] (short_run_entries v w) = Gate_PASS"
    by (simp_all add: short_run_def conclude_run_def Let_def overall_status_def short_run_entries_def short_entry_def worst_status_def)
  have "list_all (gate_writable unary_clock unary_iso) (short_run_entries v w)"
    by (simp add: short_run_entries_def short_entry_writable plain_names)
  moreover have "list_all (evidence_writable ''b2.1'' True) [note_evidence]"
    by (simp add: note_evidence_def evidence_writable_def evidence_of_def)
  ultimately show ?thesis
    using plain_writable assms by (simp add: persistable_def st) (simp add: short_run_entries_def short_entry_def)
qed

theorem persisted_run_is_recovered_witness:
  "\<exists>v w. validate_records unary_clock ''r'' (run_manifest_of ''r'' None Mode_VERIFY (short_run v w))
        (gates_record unary_iso ''r'' None Mode_VERIFY (short_run v w)) (evidence_record unary_iso ''r'' None Mode_VERIFY (short_run v w))
      = Some (recovered (short_run v w))"
proof -
  obtain v w where r: "plain_evidence v" "plain_evidence w" "run_gates sample_context short_input = Inr (short_run v w)"
    using short_run by blast
  have "cx_mode sample_context = Mode_VERIFY" by (simp add: sample_context_def)
  then show ?thesis using persisted_run_is_recovered[OF r(3) short_persistable[OF r(1,2)], of "''r''"] by metis
qed

lemma gate_value_member:
  "member (gate_value to_iso e) ''id'' = JStr (ge_id e)" "member (gate_value to_iso e) ''blocking'' = JBool (ge_blocking e)"
  "member (gate_value to_iso e) ''prerequisites'' = texts_value (ge_prerequisites e)"
  by (simp_all add: member_def gate_value_def)

lemma recorded_gates: "items (member (gates_record to_iso run profile mode r) ''gates'') = map (gate_value to_iso) (gr_entries r)"
  by (simp add: member_def gates_record_def head_fields items_def)

theorem accepted_record_is_earned_witness:
  "\<exists>v w. record_earned (map (gate_value unary_iso) (short_run_entries v w)) ''b1''"
proof -
  obtain v w where r: "plain_evidence v" "plain_evidence w" "run_gates sample_context short_input = Inr (short_run v w)"
    using short_run by blast
  have mode: "cx_mode sample_context = Mode_VERIFY" by (simp add: sample_context_def)
  note accepted = persisted_run_read[OF r(3) short_persistable[OF r(1,2)], of "''r''", unfolded mode]
  have e: "gr_entries (short_run v w) = short_run_entries v w" "gr_ok (short_run v w)" "gr_requested (short_run v w) = [''b2'']"
    by (simp_all add: short_run_def conclude_run_def Let_def overall_status_def short_run_entries_def short_entry_def worst_status_def)
  have out: "gm_outcome (run_manifest_of ''r'' None Mode_VERIFY (short_run v w)) = Some ''SUCCESS''"
    by (simp add: run_manifest_of_def e)
  have req: "''b2'' \<in> set (pg_requested (recovered (short_run v w)))" by (simp add: recovered_def e)
  have "record_needs (map (gate_value unary_iso) (short_run_entries v w)) ''b2'' ''b1''"
    by (simp add: record_needs_def gate_value_member short_run_entries_def short_entry_def texts_value_def items_def)
  then have "(record_needs (items (member (gates_record unary_iso ''r'' None Mode_VERIFY (short_run v w)) ''gates'')))\<^sup>*\<^sup>* ''b2'' ''b1''"
    unfolding recorded_gates e by blast
  from accepted_record_is_earned[OF accepted out req this] show ?thesis unfolding recorded_gates e by blast
qed

text \<open>The record of a failed check whose gate was turned into a pass does not bear it.\<close>

lemma edited_check_not_ok: "\<not> recorded_check_ok (check_value to_iso (c\<lparr>ce_status := Gate_FAIL, ce_blocking := True\<rparr>))"
  by (simp add: recorded_check_ok_def member_def check_value_def)

theorem order_gates_topological_witness:
  "set short_ids = reachable_gates (small_gates @ [safety_gate]) [''b2''] \<and> {p. needs (small_gates @ [safety_gate]) ''b2'' p} \<subseteq> {''b0'', ''b1''}"
proof -
  have "set short_ids = reachable_gates (small_gates @ [safety_gate]) [''b2'']
      \<and> (\<forall>xs i ys. short_ids = xs @ i # ys \<longrightarrow> {p. needs (small_gates @ [safety_gate]) i p} \<subseteq> set xs)"
    using order_gates_topological[where ids = "[''b2'']" and gs = "small_gates @ [safety_gate]"] by (simp add: short_order)
  moreover have "short_ids = [''b0'', ''b1''] @ ''b2'' # []" by (simp add: short_ids_def)
  ultimately show ?thesis by (metis list.simps(15) empty_set)
qed

end
