(* ===== verification/File_Identity.thy ===== *)
theory File_Identity
  imports Canonical_Hash Path_Guard
begin

section \<open>Full identities of files (core/streaming-identity.ts)\<close>

text \<open>
  An identity of a path is its absence or the size, digest and stat facts of a regular file that did not
  change while every byte was read. The adapter and the fault hooks are the record \<open>identity_io\<close>:
  each call of the source is a field, asked with the path it is about and, where the source calls twice,
  the phase, so that the file system may change at any point of a capture. A call that throws answers
  \<open>Io_threw\<close>. The meter is threaded through, also on failure.
\<close>

subsection \<open>Identities\<close>

record id_stat =
  st_dev :: string
  st_ino :: string
  st_mtime :: string
  st_ctime :: string

datatype path_identity = Missing_at string | File_at string nat string id_stat

primrec id_path :: "path_identity \<Rightarrow> string" where
  "id_path (Missing_at p) = p"
| "id_path (File_at p n h st) = p"

primrec id_bytes :: "path_identity \<Rightarrow> nat" where
  "id_bytes (Missing_at p) = 0"
| "id_bytes (File_at p n h st) = n"

definition max_identity_paths :: nat where "max_identity_paths = 500"
definition max_identity_file_bytes :: nat where "max_identity_file_bytes = 67108864"
definition max_identity_total_bytes :: nat where "max_identity_total_bytes = 268435456"
definition max_identity_path_bytes :: nat where "max_identity_path_bytes = 400"
definition identity_chunk_bytes :: nat where "identity_chunk_bytes = 65536"

text \<open>The lexical form both path tests share; they differ in the characters they forbid.\<close>

definition strict_relative_form :: "string \<Rightarrow> bool" where
  "strict_relative_form s =
     (\<not> posix_is_absolute s \<and> CHR 0x5C \<notin> set s \<and> s \<noteq> ''.'' \<and> \<not> starts_with ''./'' s \<and> \<not> ends_with ''/'' s
      \<and> \<not> contains_text ''//'' s \<and> posix_normalize s = s
      \<and> list_all (\<lambda>g. g \<noteq> [] \<and> g \<noteq> ''.'' \<and> g \<noteq> ''..'') (split_on (CHR ''/'') s))"

definition strict_identity_path :: "string \<Rightarrow> bool" where
  "strict_identity_path s =
     (s \<noteq> [] \<and> byte_length s \<le> max_identity_path_bytes \<and> list_all (\<lambda>c. \<not> is_control c) s \<and> strict_relative_form s)"

datatype identity_error =
    Id_invalid_input | Id_invalid_path | Id_duplicate_path | Id_path_count_overflow | Id_file_bytes_overflow
  | Id_total_bytes_overflow | Id_path_symlink | Id_path_not_regular | Id_path_escape | Id_stat_failed
  | Id_open_failed | Id_read_failed | Id_close_failed | Id_path_after_failed | Id_unstable

subsection \<open>The meter and the limits\<close>

record id_meter =
  im_attempted :: nat
  im_completed :: nat
  im_bytes :: nat

definition zero_meter :: id_meter where
  "zero_meter = \<lparr>im_attempted = 0, im_completed = 0, im_bytes = 0\<rparr>"

record id_limits =
  il_paths :: nat
  il_total :: nat
  il_file :: nat

definition limit_within :: "int option \<Rightarrow> nat \<Rightarrow> nat option" where
  "limit_within x hard =
     (case x of None \<Rightarrow> Some hard | Some i \<Rightarrow> if 0 < i \<and> i \<le> int hard then Some (nat i) else None)"

definition normalize_id_limits :: "int option \<Rightarrow> int option \<Rightarrow> int option \<Rightarrow> id_limits option" where
  "normalize_id_limits paths total_bytes file_bytes =
     (case (limit_within paths max_identity_paths, limit_within total_bytes max_identity_total_bytes,
            limit_within file_bytes max_identity_file_bytes) of
        (Some a, Some b, Some c) \<Rightarrow> Some \<lparr>il_paths = a, il_total = b, il_file = c\<rparr>
      | _ \<Rightarrow> None)"

subsection \<open>The file system\<close>

datatype 'a io = Io_threw | Io 'a

record path_stat =
  ps_file :: bool
  ps_link :: bool
  ps_dev :: int
  ps_ino :: int
  ps_size :: int
  ps_mtime :: int
  ps_ctime :: int

datatype capture_phase = Ph_before | Ph_after

datatype fault_point =
    Pt_path_before_stat | Pt_path_before_realpath | Pt_open | Pt_handle_before_stat | Pt_read | Pt_after_hash
  | Pt_handle_after_stat | Pt_path_after_stat | Pt_path_after_realpath | Pt_close

record identity_io =
  io_root :: "string option io"
  io_fault :: "fault_point \<Rightarrow> string \<Rightarrow> nat \<Rightarrow> bool"
  io_lstat :: "capture_phase \<Rightarrow> string \<Rightarrow> path_stat option io"
  io_realpath :: "capture_phase \<Rightarrow> string \<Rightarrow> string \<Rightarrow> string option io"
  io_open :: "string \<Rightarrow> bool"
  io_handle_stat :: "capture_phase \<Rightarrow> string \<Rightarrow> path_stat io"
  io_read :: "string \<Rightarrow> nat \<Rightarrow> nat \<Rightarrow> nat list io"
  io_close :: "string \<Rightarrow> bool"

definition same_stat :: "path_stat \<Rightarrow> path_stat \<Rightarrow> bool" where
  "same_stat a b =
     (ps_file a = ps_file b \<and> ps_link a = ps_link b \<and> ps_dev a = ps_dev b \<and> ps_ino a = ps_ino b
      \<and> ps_size a = ps_size b \<and> ps_mtime a = ps_mtime b \<and> ps_ctime a = ps_ctime b)"

definition normalized_stat :: "path_stat \<Rightarrow> id_stat option" where
  "normalized_stat s =
     (if ps_dev s < 0 \<or> ps_ino s < 0 \<or> ps_mtime s < 0 \<or> ps_ctime s < 0 then None
      else Some \<lparr>st_dev = int_text (ps_dev s), st_ino = int_text (ps_ino s), st_mtime = int_text (ps_mtime s),
                 st_ctime = int_text (ps_ctime s)\<rparr>)"

definition safe_byte_size :: "path_stat \<Rightarrow> nat option" where
  "safe_byte_size s = (if 0 \<le> ps_size s \<and> ps_size s \<le> 9007199254740991 then Some (nat (ps_size s)) else None)"

definition path_contained :: "string \<Rightarrow> string \<Rightarrow> bool" where
  "path_contained root target = (target = root \<or> starts_with (root @ ''/'') target)"

text \<open>\<open>resolve(root, ...path.split("/"))\<close> of an absolute root and a strict path.\<close>

definition resolve_under :: "string \<Rightarrow> string \<Rightarrow> string" where
  "resolve_under root path = (if root = ''/'' then root @ path else root @ ''/'' @ path)"

function deepest_existing :: "(string \<Rightarrow> string option io) \<Rightarrow> string \<Rightarrow> string option io" where
  "deepest_existing rp cur =
     (case rp cur of
        Io_threw \<Rightarrow> Io_threw
      | Io (Some r) \<Rightarrow> Io (Some r)
      | Io None \<Rightarrow> (if posix_dirname cur = cur then Io None else deepest_existing rp (posix_dirname cur)))"
  by pat_completeness auto
termination by (relation "measure (path_depth \<circ> snd)") (auto intro: dirname_depth)

declare deepest_existing.simps [simp del]

subsection \<open>One path\<close>

definition real_inside :: "string \<Rightarrow> string option \<Rightarrow> bool" where
  "real_inside root r = (case r of Some s \<Rightarrow> path_contained root s | None \<Rightarrow> False)"

definition capture_missing :: "identity_io \<Rightarrow> string \<Rightarrow> string \<Rightarrow> string \<Rightarrow> identity_error + path_identity" where
  "capture_missing io root path absolute =
     (if io_fault io Pt_path_before_realpath path 0 then Inl Id_stat_failed
      else case deepest_existing (io_realpath io Ph_before path) (posix_dirname absolute) of
        Io_threw \<Rightarrow> Inl Id_stat_failed
      | Io before \<Rightarrow>
          if \<not> real_inside root before then Inl Id_path_escape
          else if io_fault io Pt_path_after_realpath path 0 then Inl Id_path_after_failed
          else case deepest_existing (io_realpath io Ph_after path) (posix_dirname absolute) of
            Io_threw \<Rightarrow> Inl Id_path_after_failed
          | Io after \<Rightarrow>
              if \<not> real_inside root after then Inl Id_path_escape
              else if io_fault io Pt_path_after_stat path 0 then Inl Id_path_after_failed
              else case io_lstat io Ph_after path of
                Io_threw \<Rightarrow> Inl Id_path_after_failed
              | Io None \<Rightarrow> Inr (Missing_at path)
              | Io (Some _) \<Rightarrow> Inl Id_unstable)"

text \<open>The reading loop: the bytes so far give the offset; a short read is continued, an empty one is not.\<close>

function read_chunks :: "identity_io \<Rightarrow> string \<Rightarrow> nat \<Rightarrow> nat list \<Rightarrow> identity_error option \<times> nat list" where
  "read_chunks io path fsize content =
     (if fsize \<le> length content then (None, content)
      else let requested = min (min identity_chunk_bytes (max fsize 1)) (fsize - length content)
      in if io_fault io Pt_read path (length content) then (Some Id_read_failed, content)
         else case io_read io path (length content) requested of
           Io_threw \<Rightarrow> (Some Id_read_failed, content)
         | Io bs \<Rightarrow>
             if bs = [] \<or> length bs > requested then (Some Id_unstable, content)
             else read_chunks io path fsize (content @ bs))"
  by pat_completeness auto
termination
  by (relation "measure (\<lambda>(io, path, fsize, content). fsize - length content)") (simp, clarsimp, simp add: diff_less_mono2)

declare read_chunks.simps [simp del]

text \<open>What happens between open and close; the second component are the bytes read.\<close>

definition verify_after :: "identity_io \<Rightarrow> string \<Rightarrow> string \<Rightarrow> path_stat \<Rightarrow> string \<Rightarrow> string \<Rightarrow> identity_error option" where
  "verify_after io root path opened absolute before_real =
     (if io_fault io Pt_after_hash path 0 then Some Id_unstable
      else if io_fault io Pt_handle_after_stat path 0 then Some Id_stat_failed
      else case io_handle_stat io Ph_after path of
        Io_threw \<Rightarrow> Some Id_stat_failed
      | Io after_handle \<Rightarrow>
          if \<not> same_stat opened after_handle then Some Id_unstable
          else if io_fault io Pt_path_after_realpath path 0 then Some Id_path_after_failed
          else case io_realpath io Ph_after path absolute of
            Io_threw \<Rightarrow> Some Id_path_after_failed
          | Io after_real \<Rightarrow>
              if after_real \<noteq> Some before_real \<or> \<not> path_contained root before_real then Some Id_unstable
              else if io_fault io Pt_path_after_stat path 0 then Some Id_path_after_failed
              else case io_lstat io Ph_after path of
                Io_threw \<Rightarrow> Some Id_path_after_failed
              | Io None \<Rightarrow> Some Id_unstable
              | Io (Some after_path) \<Rightarrow> if same_stat after_handle after_path then None else Some Id_unstable)"

definition capture_opened ::
  "identity_io \<Rightarrow> string \<Rightarrow> id_limits \<Rightarrow> nat \<Rightarrow> string \<Rightarrow> string \<Rightarrow> path_stat \<Rightarrow> string
   \<Rightarrow> (identity_error + path_identity) \<times> nat list" where
  "capture_opened io root lim used path absolute before_path before_real =
     (if io_fault io Pt_handle_before_stat path 0 then (Inl Id_stat_failed, [])
      else case io_handle_stat io Ph_before path of
        Io_threw \<Rightarrow> (Inl Id_stat_failed, [])
      | Io opened \<Rightarrow>
          if \<not> ps_file opened \<or> ps_link opened \<or> \<not> same_stat before_path opened then (Inl Id_unstable, [])
          else (case (safe_byte_size opened, normalized_stat opened) of
            (Some fsize, Some st) \<Rightarrow>
              if fsize > il_file lim then (Inl Id_file_bytes_overflow, [])
              else if used + fsize > il_total lim then (Inl Id_total_bytes_overflow, [])
              else (case read_chunks io path fsize [] of
                (Some e, content) \<Rightarrow> (Inl e, content)
              | (None, content) \<Rightarrow>
                  (case verify_after io root path opened absolute before_real of
                     Some e \<Rightarrow> (Inl e, content)
                   | None \<Rightarrow> (Inr (File_at path fsize (sha256_hex_bytes content) st), content)))
          | _ \<Rightarrow> (Inl Id_stat_failed, [])))"

definition capture_one ::
  "identity_io \<Rightarrow> string \<Rightarrow> id_limits \<Rightarrow> nat \<Rightarrow> string \<Rightarrow> string \<Rightarrow> (identity_error + path_identity) \<times> nat list" where
  "capture_one io root lim used path absolute =
     (if io_fault io Pt_path_before_stat path 0 then (Inl Id_stat_failed, [])
      else case io_lstat io Ph_before path of
        Io_threw \<Rightarrow> (Inl Id_stat_failed, [])
      | Io None \<Rightarrow> (capture_missing io root path absolute, [])
      | Io (Some before_path) \<Rightarrow>
          if ps_link before_path then (Inl Id_path_symlink, [])
          else if \<not> ps_file before_path then (Inl Id_path_not_regular, [])
          else if io_fault io Pt_path_before_realpath path 0 then (Inl Id_stat_failed, [])
          else case io_realpath io Ph_before path absolute of
            Io_threw \<Rightarrow> (Inl Id_stat_failed, [])
          | Io None \<Rightarrow> (Inl Id_unstable, [])
          | Io (Some before_real) \<Rightarrow>
              if \<not> path_contained root before_real then (Inl Id_path_escape, [])
              else if io_fault io Pt_open path 0 \<or> \<not> io_open io path then (Inl Id_open_failed, [])
              else let r = capture_opened io root lim used path absolute before_path before_real
                   in if io_fault io Pt_close path 0 \<or> \<not> io_close io path then (Inl Id_close_failed, snd r) else r)"

subsection \<open>A set of paths\<close>

type_synonym capture_failure = "identity_error \<times> string option"

fun capture_paths ::
  "identity_io \<Rightarrow> string \<Rightarrow> string \<Rightarrow> id_limits \<Rightarrow> id_meter \<Rightarrow> string list
   \<Rightarrow> (capture_failure + path_identity list) \<times> id_meter" where
  "capture_paths io root_abs root lim m [] = (Inr [], m)"
| "capture_paths io root_abs root lim m (p # ps) =
     (let m1 = m\<lparr>im_attempted := im_attempted m + 1\<rparr>; absolute = resolve_under root_abs p
      in if absolute = root_abs \<or> \<not> starts_with (root_abs @ ''/'') absolute then (Inl (Id_path_escape, Some p), m1)
         else (case capture_one io root lim (im_bytes m1) p absolute of
             (Inl e, content) \<Rightarrow> (Inl (e, Some p), m1\<lparr>im_bytes := im_bytes m1 + length content\<rparr>)
           | (Inr i, content) \<Rightarrow>
               (case capture_paths io root_abs root lim
                       (m1\<lparr>im_bytes := im_bytes m1 + length content, im_completed := im_completed m1 + 1\<rparr>) ps of
                  (Inl e, m2) \<Rightarrow> (Inl e, m2)
                | (Inr is, m2) \<Rightarrow> (Inr (i # is), m2))))"

fun path_problem :: "string list \<Rightarrow> string list \<Rightarrow> capture_failure option" where
  "path_problem seen [] = None"
| "path_problem seen (p # ps) =
     (if \<not> strict_identity_path p then Some (Id_invalid_path, Some (take max_identity_path_bytes p))
      else if p \<in> set seen then Some (Id_duplicate_path, Some p)
      else path_problem (p # seen) ps)"

definition meter_wf :: "id_meter \<Rightarrow> bool" where
  "meter_wf m = (im_completed m \<le> im_attempted m \<and> im_attempted m \<le> 9007199254740991 \<and> im_bytes m \<le> 9007199254740991)"

definition capture_identities ::
  "identity_io \<Rightarrow> string \<Rightarrow> id_limits option \<Rightarrow> id_meter \<Rightarrow> string list \<Rightarrow> (capture_failure + path_identity list) \<times> id_meter" where
  "capture_identities io root_abs limits m paths =
     (if \<not> meter_wf m then (Inl (Id_invalid_input, None), zero_meter)
      else case limits of None \<Rightarrow> (Inl (Id_invalid_input, None), m)
      | Some lim \<Rightarrow>
          if im_attempted m > il_paths lim \<or> length paths > il_paths lim - im_attempted m
          then (Inl (Id_path_count_overflow, None), m)
          else if im_bytes m > il_total lim then (Inl (Id_total_bytes_overflow, None), m)
          else (case path_problem [] paths of Some f \<Rightarrow> (Inl f, m)
            | None \<Rightarrow>
                (case io_root io of
                   Io (Some root) \<Rightarrow>
                     if posix_is_absolute root then capture_paths io root_abs root lim m (sort paths)
                     else (Inl (Id_stat_failed, None), m)
                 | _ \<Rightarrow> (Inl (Id_stat_failed, None), m))))"

subsection \<open>What a capture promises\<close>

text \<open>The content was read chunk by chunk, each at the offset the earlier ones reach.\<close>

definition chunks_from :: "identity_io \<Rightarrow> string \<Rightarrow> nat \<Rightarrow> nat \<Rightarrow> nat list list \<Rightarrow> bool" where
  "chunks_from io path fsize from chunks =
     (\<forall>k<length chunks. io_read io path (from + length (concat (take k chunks)))
        (min (min identity_chunk_bytes (max fsize 1)) (fsize - (from + length (concat (take k chunks))))) = Io (chunks ! k))"

definition content_read :: "identity_io \<Rightarrow> string \<Rightarrow> nat \<Rightarrow> nat list \<Rightarrow> bool" where
  "content_read io path fsize content =
     (\<exists>chunks. content = concat chunks \<and> length content = fsize \<and> chunks_from io path fsize 0 chunks)"

definition held_still :: "identity_io \<Rightarrow> string \<Rightarrow> string \<Rightarrow> path_identity \<Rightarrow> bool" where
  "held_still io root_abs root i =
     (case i of
        Missing_at p \<Rightarrow> io_lstat io Ph_before p = Io None \<and> io_lstat io Ph_after p = Io None
      | File_at p n h st \<Rightarrow>
          \<exists>s t real content. io_lstat io Ph_before p = Io (Some s) \<and> same_stat s t \<and> io_handle_stat io Ph_before p = Io t
            \<and> (\<exists>u v. io_handle_stat io Ph_after p = Io u \<and> io_lstat io Ph_after p = Io (Some v) \<and> same_stat t u \<and> same_stat u v)
            \<and> ps_file t \<and> \<not> ps_link t \<and> safe_byte_size t = Some n \<and> normalized_stat t = Some st
            \<and> io_realpath io Ph_before p (resolve_under root_abs p) = Io (Some real)
            \<and> io_realpath io Ph_after p (resolve_under root_abs p) = Io (Some real) \<and> path_contained root real
            \<and> content_read io p n content \<and> h = sha256_hex_bytes content)"

lemma read_chunks_done: "fsize \<le> length content \<Longrightarrow> read_chunks io path fsize content = (None, content)"
  by (subst read_chunks.simps) simp

lemma read_chunks_step:
  "\<not> fsize \<le> length content \<Longrightarrow> read_chunks io path fsize content =
     (if io_fault io Pt_read path (length content) then (Some Id_read_failed, content)
      else case io_read io path (length content) (min (min identity_chunk_bytes (max fsize 1)) (fsize - length content)) of
        Io_threw \<Rightarrow> (Some Id_read_failed, content)
      | Io bs \<Rightarrow>
          if bs = [] \<or> length bs > min (min identity_chunk_bytes (max fsize 1)) (fsize - length content) then (Some Id_unstable, content)
          else read_chunks io path fsize (content @ bs))"
  by (subst read_chunks.simps) (simp only: Let_def if_False)

lemma read_chunks_bounds:
  "read_chunks io path fsize content = (e, content') \<Longrightarrow> length content \<le> fsize \<Longrightarrow>
     length content' \<le> fsize \<and> (e = None \<longrightarrow> length content' = fsize)"
proof (induction io path fsize content rule: read_chunks.induct)
  case (1 io path fsize content)
  show ?case
  proof (cases "fsize \<le> length content")
    case True
    with 1(2,3) show ?thesis by (auto simp: read_chunks_done)
  next
    case False
    let ?r = "min (min identity_chunk_bytes (max fsize 1)) (fsize - length content)"
    show ?thesis
    proof (cases "\<not> io_fault io Pt_read path (length content) \<and> (\<exists>bs. io_read io path (length content) ?r = Io bs \<and> bs \<noteq> [] \<and> length bs \<le> ?r)")
      case True
      then obtain bs where bs: "\<not> io_fault io Pt_read path (length content)" "io_read io path (length content) ?r = Io bs"
        "\<not> (bs = [] \<or> ?r < length bs)" by auto
      with 1(2) False have r: "read_chunks io path fsize (content @ bs) = (e, content')" by (simp add: read_chunks_step del: neq_Nil_conv)
      have l: "length (content @ bs) \<le> fsize" using bs(3) False by (simp only: length_append) linarith
      show ?thesis by (rule 1(1)[OF False refl bs r l])
    next
      case no: False
      have "e \<noteq> None \<and> content' = content"
        using 1(2) no unfolding read_chunks_step[OF False]
        by (cases "io_read io path (length content) ?r") (auto simp del: neq_Nil_conv split: if_splits)
      with 1(3) show ?thesis by auto
    qed
  qed
qed

lemma chunks_from_Nil: "chunks_from io path fsize n []"
  by (simp add: chunks_from_def)

lemma chunks_from_Cons:
  assumes "io_read io path n (min (min identity_chunk_bytes (max fsize 1)) (fsize - n)) = Io bs"
    "chunks_from io path fsize (n + length bs) chunks"
  shows "chunks_from io path fsize n (bs # chunks)"
  unfolding chunks_from_def
proof (intro allI impI)
  fix k assume "k < length (bs # chunks)"
  then show "io_read io path (n + length (concat (take k (bs # chunks))))
      (min (min identity_chunk_bytes (max fsize 1)) (fsize - (n + length (concat (take k (bs # chunks)))))) = Io ((bs # chunks) ! k)"
    using assms by (cases k) (simp_all add: chunks_from_def add.assoc)
qed

lemma read_chunks_content:
  "read_chunks io path fsize content = (None, content') \<Longrightarrow> length content \<le> fsize \<Longrightarrow>
     \<exists>chunks. content' = content @ concat chunks \<and> chunks_from io path fsize (length content) chunks"
proof (induction io path fsize content rule: read_chunks.induct)
  case (1 io path fsize content)
  show ?case
  proof (cases "fsize \<le> length content")
    case True
    with 1(2,3) have "content' = content" by (simp add: read_chunks_done)
    then show ?thesis by (intro exI[of _ "[]"]) (simp add: chunks_from_Nil)
  next
    case False
    let ?r = "min (min identity_chunk_bytes (max fsize 1)) (fsize - length content)"
    from 1(2) obtain bs where bs: "\<not> io_fault io Pt_read path (length content)" "io_read io path (length content) ?r = Io bs"
      "\<not> (bs = [] \<or> ?r < length bs)" "read_chunks io path fsize (content @ bs) = (None, content')"
      by (auto simp only: read_chunks_step[OF False] split: if_splits io.splits)
    have l: "length (content @ bs) \<le> fsize" using bs(3) False by (simp only: length_append) linarith
    from 1(1)[OF False refl bs l] obtain chunks where c: "content' = (content @ bs) @ concat chunks"
      "chunks_from io path fsize (length (content @ bs)) chunks" by blast
    have "chunks_from io path fsize (length content) (bs # chunks)"
      by (rule chunks_from_Cons[OF bs(2)]) (use c(2) in simp)
    with c(1) show ?thesis by (intro exI[of _ "bs # chunks"]) simp
  qed
qed

lemma capture_opened_facts:
  assumes "capture_opened io root lim used path absolute bp br = (r, content)" "used \<le> il_total lim"
  shows "used + length content \<le> il_total lim"
    "r = Inr i \<Longrightarrow> \<exists>t u v st. i = File_at path (length content) (sha256_hex_bytes content) st \<and> length content \<le> il_file lim
        \<and> io_handle_stat io Ph_before path = Io t \<and> same_stat bp t \<and> ps_file t \<and> \<not> ps_link t
        \<and> safe_byte_size t = Some (length content) \<and> normalized_stat t = Some st
        \<and> io_handle_stat io Ph_after path = Io u \<and> same_stat t u \<and> io_lstat io Ph_after path = Io (Some v) \<and> same_stat u v
        \<and> io_realpath io Ph_after path absolute = Io (Some br) \<and> content_read io path (length content) content"
proof -
  show "used + length content \<le> il_total lim"
    using assms read_chunks_bounds[of io path _ "[]"]
    by (fastforce simp: capture_opened_def split: if_splits io.splits option.splits prod.splits)
  assume "r = Inr i"
  with assms(1) obtain t fsize st where t: "io_handle_stat io Ph_before path = Io t" "ps_file t" "\<not> ps_link t" "same_stat bp t"
    "safe_byte_size t = Some fsize" "normalized_stat t = Some st" "fsize \<le> il_file lim"
    "read_chunks io path fsize [] = (None, content)" "verify_after io root path t absolute br = None"
    "i = File_at path fsize (sha256_hex_bytes content) st"
    by (auto simp: capture_opened_def split: if_splits io.splits option.splits prod.splits)
  have n: "length content = fsize" using read_chunks_bounds[OF t(8)] by simp
  have c: "content_read io path fsize content"
    using read_chunks_content[OF t(8)] n by (auto simp: content_read_def)
  show "\<exists>t u v st. i = File_at path (length content) (sha256_hex_bytes content) st \<and> length content \<le> il_file lim
        \<and> io_handle_stat io Ph_before path = Io t \<and> same_stat bp t \<and> ps_file t \<and> \<not> ps_link t
        \<and> safe_byte_size t = Some (length content) \<and> normalized_stat t = Some st
        \<and> io_handle_stat io Ph_after path = Io u \<and> same_stat t u \<and> io_lstat io Ph_after path = Io (Some v) \<and> same_stat u v
        \<and> io_realpath io Ph_after path absolute = Io (Some br) \<and> content_read io path (length content) content"
    using t c n by (auto simp: verify_after_def split: if_splits io.splits option.splits)
qed


lemma capture_one_facts:
  assumes "capture_one io root lim used path (resolve_under root_abs path) = (r, content)" "used \<le> il_total lim"
  shows "used + length content \<le> il_total lim"
    "r = Inr i \<Longrightarrow> id_path i = path \<and> id_bytes i = length content \<and> length content \<le> il_file lim \<and> held_still io root_abs root i"
proof -
  have "content = [] \<or> (\<exists>s real. content = snd (capture_opened io root lim used path (resolve_under root_abs path) s real))"
    using assms(1) by (auto simp: capture_one_def Let_def split: if_splits io.splits option.splits) (metis snd_conv)
  then show "used + length content \<le> il_total lim"
    using assms(2) capture_opened_facts(1)[OF prod.collapse[symmetric] assms(2)] by auto
  assume r: "r = Inr i"
  show "id_path i = path \<and> id_bytes i = length content \<and> length content \<le> il_file lim \<and> held_still io root_abs root i"
  proof (cases "io_lstat io Ph_before path = Io None")
    case True
    with assms(1) r have "content = []" "capture_missing io root path (resolve_under root_abs path) = Inr i"
      by (auto simp: capture_one_def split: if_splits)
    then have "i = Missing_at path" "io_lstat io Ph_after path = Io None" "content = []"
      by (auto simp: capture_missing_def split: if_splits io.splits option.splits)
    with True show ?thesis by (simp add: held_still_def)
  next
    case False
    with assms(1) r obtain s real where sr: "io_lstat io Ph_before path = Io (Some s)"
      "io_realpath io Ph_before path (resolve_under root_abs path) = Io (Some real)" "path_contained root real"
      "capture_opened io root lim used path (resolve_under root_abs path) s real = (Inr i, content)"
      by (auto simp: capture_one_def Let_def split: if_splits io.splits option.splits)
    from capture_opened_facts(2)[OF sr(4) assms(2) refl] sr(1-3)
    show ?thesis unfolding held_still_def by fastforce
  qed
qed

definition meter_fits :: "id_limits \<Rightarrow> id_meter \<Rightarrow> bool" where
  "meter_fits lim m = (im_completed m \<le> im_attempted m \<and> im_attempted m \<le> il_paths lim \<and> im_bytes m \<le> il_total lim)"

lemma capture_paths_facts:
  assumes "capture_paths io root_abs root lim m ps = (r, m')" "meter_fits lim m" "length ps \<le> il_paths lim - im_attempted m"
  shows "meter_fits lim m' \<and> im_attempted m \<le> im_attempted m' \<and> im_bytes m \<le> im_bytes m' \<and> im_completed m \<le> im_completed m'
     \<and> (\<forall>is. r = Inr is \<longrightarrow> map id_path is = ps \<and> list_all (held_still io root_abs root) is
          \<and> list_all (\<lambda>i. id_bytes i \<le> il_file lim) is
          \<and> m' = \<lparr>im_attempted = im_attempted m + length ps, im_completed = im_completed m + length ps,
                 im_bytes = im_bytes m + sum_list (map id_bytes is)\<rparr>)"
  using assms
proof (induction ps arbitrary: m r m')
  case Nil
  then show ?case by auto
next
  case (Cons p ps)
  define m1 where "m1 = m\<lparr>im_attempted := im_attempted m + 1\<rparr>"
  have f1: "meter_fits lim m1" "im_bytes m1 = im_bytes m" "im_completed m1 = im_completed m" "im_attempted m1 = Suc (im_attempted m)"
    "im_bytes m1 \<le> il_total lim"
    using Cons.prems(2,3) by (auto simp: m1_def meter_fits_def)
  let ?abs = "resolve_under root_abs p"
  show ?case
  proof (cases "?abs = root_abs \<or> \<not> starts_with (root_abs @ ''/'') ?abs")
    case True
    with Cons.prems(1) have "r = Inl (Id_path_escape, Some p)" "m' = m1" by (simp_all add: m1_def Let_def)
    with f1 show ?thesis by simp
  next
    case False
    obtain one content where one: "capture_one io root lim (im_bytes m1) p ?abs = (one, content)" by fastforce
    note bytes = capture_one_facts(1)[OF one f1(5)]
    show ?thesis
    proof (cases one)
      case (Inl e)
      with Cons.prems(1) False one have "r = Inl (e, Some p)" "m' = m1\<lparr>im_bytes := im_bytes m1 + length content\<rparr>"
        by (simp_all add: m1_def Let_def)
      with f1 bytes show ?thesis by (simp add: meter_fits_def)
    next
      case (Inr i)
      define m2 where "m2 = m1\<lparr>im_bytes := im_bytes m1 + length content, im_completed := im_completed m1 + 1\<rparr>"
      obtain rest m3 where rest: "capture_paths io root_abs root lim m2 ps = (rest, m3)" by fastforce
      have f2: "meter_fits lim m2" "length ps \<le> il_paths lim - im_attempted m2"
        using f1 bytes Cons.prems(2,3) by (auto simp: m2_def meter_fits_def)
      note ih = Cons.IH[OF rest f2]
      note here = capture_one_facts(2)[OF one f1(5) Inr]
      have out: "m' = m3" "r = (case rest of Inl e \<Rightarrow> Inl e | Inr is \<Rightarrow> Inr (i # is))"
        using Cons.prems(1) False one Inr rest by (auto simp: m1_def m2_def Let_def split: sum.splits)
      have m2f: "im_attempted m2 = Suc (im_attempted m)" "im_completed m2 = Suc (im_completed m)" "im_bytes m2 = im_bytes m + length content"
        by (simp_all add: m2_def f1)
      show ?thesis
      proof (cases rest)
        case (Inl e)
        with out ih m2f show ?thesis by simp
      next
        case (Inr ids)
        have "meter_fits lim m'" using ih out(1) by blast
        with Inr out ih m2f here show ?thesis by simp
      qed
    qed
  qed
qed

lemma path_problem_None: "path_problem seen ps = None \<Longrightarrow> list_all strict_identity_path ps \<and> distinct ps \<and> set ps \<inter> set seen = {}"
  by (induction seen ps rule: path_problem.induct) (auto split: if_splits)

text \<open>What every capture with good limits does, whatever the file system answers.\<close>

lemma capture_identities_facts:
  assumes "capture_identities io root_abs (Some lim) m paths = (r, m')" "meter_wf m"
  shows "im_attempted m \<le> im_attempted m' \<and> im_bytes m \<le> im_bytes m' \<and> im_completed m \<le> im_completed m' \<and> im_completed m' \<le> im_attempted m'"
    "meter_fits lim m \<Longrightarrow> meter_fits lim m'"
    "r = Inr is \<Longrightarrow> \<exists>root. io_root io = Io (Some root) \<and> map id_path is = sort paths \<and> distinct paths \<and> list_all strict_identity_path paths
        \<and> list_all (held_still io root_abs root) is \<and> list_all (\<lambda>i. id_bytes i \<le> il_file lim) is \<and> meter_fits lim m'
        \<and> m' = \<lparr>im_attempted = im_attempted m + length paths, im_completed = im_completed m + length paths,
               im_bytes = im_bytes m + sum_list (map id_bytes is)\<rparr>"
proof -
  consider (no) e where "r = Inl e" "m' = m"
    | (yes) root where "capture_paths io root_abs root lim m (sort paths) = (r, m')" "meter_fits lim m" "io_root io = Io (Some root)"
        "length paths \<le> il_paths lim - im_attempted m" "path_problem [] paths = None"
    using assms by (auto simp: capture_identities_def meter_wf_def meter_fits_def split: if_splits option.splits io.splits)
  note cs = this
  show "im_attempted m \<le> im_attempted m' \<and> im_bytes m \<le> im_bytes m' \<and> im_completed m \<le> im_completed m' \<and> im_completed m' \<le> im_attempted m'"
    using cs
  proof cases
    case no
    with assms(2) show ?thesis by (simp add: meter_wf_def)
  next
    case (yes root)
    with capture_paths_facts[OF yes(1,2)] show ?thesis by (simp add: meter_fits_def)
  qed
  show "meter_fits lim m'" if "meter_fits lim m"
    using cs
  proof cases
    case no
    with that show ?thesis by simp
  next
    case (yes root)
    with capture_paths_facts[OF yes(1,2)] show ?thesis by simp
  qed
  show "\<exists>root. io_root io = Io (Some root) \<and> map id_path is = sort paths \<and> distinct paths \<and> list_all strict_identity_path paths
        \<and> list_all (held_still io root_abs root) is \<and> list_all (\<lambda>i. id_bytes i \<le> il_file lim) is \<and> meter_fits lim m'
        \<and> m' = \<lparr>im_attempted = im_attempted m + length paths, im_completed = im_completed m + length paths,
               im_bytes = im_bytes m + sum_list (map id_bytes is)\<rparr>" if "r = Inr is"
    using cs
  proof cases
    case no
    with that show ?thesis by simp
  next
    case (yes root)
    from capture_paths_facts[OF yes(1,2)] yes(3,4) path_problem_None[OF yes(5)] that
    show ?thesis by (intro exI[of _ root] conjI) auto
  qed
qed

text \<open>C38: a successful capture gives the identities of the sorted paths; every one held still while it was read, the
  sizes and the meter stay within the limits, and the meter has counted exactly the paths and bytes given back.\<close>

theorem capture_is_honest:
  assumes "capture_identities io root_abs (normalize_id_limits a b c) m paths = (Inr is, m')"
  shows "\<exists>lim rt. normalize_id_limits a b c = Some lim \<and> io_root io = Io (Some rt) \<and> map id_path is = sort paths \<and> distinct paths
     \<and> list_all strict_identity_path paths \<and> list_all (held_still io root_abs rt) is \<and> list_all (\<lambda>i. id_bytes i \<le> il_file lim) is
     \<and> meter_fits lim m'
     \<and> m' = \<lparr>im_attempted = im_attempted m + length paths, im_completed = im_completed m + length paths,
            im_bytes = im_bytes m + sum_list (map id_bytes is)\<rparr>"
proof -
  have wf: "meter_wf m" and "normalize_id_limits a b c \<noteq> None"
    using assms by (auto simp: capture_identities_def split: if_splits option.splits)
  then obtain lim where lim: "normalize_id_limits a b c = Some lim" by blast
  from capture_identities_facts(3)[OF assms[unfolded lim] wf refl] show ?thesis by (auto simp: lim)
qed

end
