(* ===== verification/Json_Pretty.thy ===== *)
theory Json_Pretty
  imports Json_Size
begin

section \<open>Indented JSON\<close>

text \<open>
  \<open>JSON.stringify(value, null, 2)\<close> of plain data: members and items on lines of their own, two
  spaces per level; empty arrays and objects stay on one line. Values that JSON drops do not occur in
  the records printed here.
\<close>

definition indent :: "nat \<Rightarrow> string" where
  "indent d = replicate (2 * d) (CHR '' '')"

definition block_text :: "char \<Rightarrow> char \<Rightarrow> nat \<Rightarrow> string list \<Rightarrow> string" where
  "block_text l r d ts =
     (if ts = [] then [l, r]
      else [l, CHR 0x0A] @ join_with [CHR '','', CHR 0x0A] (map (\<lambda>t. indent (Suc d) @ t) ts)
           @ [CHR 0x0A] @ indent d @ [r])"

primrec pretty_value :: "jv \<Rightarrow> nat \<Rightarrow> string" where
  "pretty_value JNull d = ''null''"
| "pretty_value (JStr s) d = quote_json s"
| "pretty_value (JBool b) d = (if b then ''true'' else ''false'')"
| "pretty_value (JNum n) d = num_text n"
| "pretty_value JUndef d = ''undefined''"
| "pretty_value (JExotic k) d = k"
| "pretty_value (JArr vs) d = block_text (CHR ''['') (CHR '']'') d (map (\<lambda>f. f (Suc d)) (map pretty_value vs))"
| "pretty_value (JObj kvs) d =
     block_text (CHR ''{'') (CHR ''}'') d
       (map (\<lambda>(k, f). quote_json k @ '': '' @ f (Suc d)) (map (map_prod id pretty_value) kvs))"

definition pretty_line :: "jv \<Rightarrow> string" where
  "pretty_line v = pretty_value v 0 @ [CHR 0x0A]"

end
