(* ===== verification/Write_Journal.thy ===== *)
theory Write_Journal
  imports File_Identity Json_Pretty Path_Lane
begin

section \<open>The write journal of a worker (core/write-journal.ts)\<close>

text \<open>
  Every edit and write of a worker is bracketed by two full identities of its file: an operation is begun
  with the identity before and completed with the identity after and its outcome. The journal is open
  until it is sealed with a hash over all of its facts. Here are its record, the strict normaliser all
  readers share, and the transitions; the lock, the temporary files and the decoding of the stored bytes
  are storage.
\<close>

subsection \<open>The record\<close>

record journal_limits =
  jl_paths :: nat
  jl_operations :: nat
  jl_identities :: nat
  jl_total :: nat
  jl_file :: nat
  jl_serialized :: nat

datatype write_kind = Write_edit | Write_write

primrec write_kind_text :: "write_kind \<Rightarrow> string" where
  "write_kind_text Write_edit = ''edit''"
| "write_kind_text Write_write = ''write''"

definition write_kinds :: "write_kind list" where "write_kinds = [Write_edit, Write_write]"

interpretation write_kind: wire_enum write_kinds write_kind_text
  by unfold_locales (auto simp: write_kinds_def intro: write_kind.exhaust)

datatype write_outcome = Write_succeeded | Write_failed

primrec write_outcome_text :: "write_outcome \<Rightarrow> string" where
  "write_outcome_text Write_succeeded = ''succeeded''"
| "write_outcome_text Write_failed = ''failed''"

definition write_outcomes :: "write_outcome list" where "write_outcomes = [Write_succeeded, Write_failed]"

interpretation write_outcome: wire_enum write_outcomes write_outcome_text
  by unfold_locales (auto simp: write_outcomes_def intro: write_outcome.exhaust)

text \<open>An operation is pending until its identity after and its outcome are known.\<close>

record journal_op =
  jo_sequence :: nat
  jo_id :: string
  jo_kind :: write_kind
  jo_path :: string
  jo_before :: path_identity
  jo_result :: "(path_identity \<times> write_outcome) option"

record journal =
  wj_delegation :: string
  wj_contract :: string
  wj_sealed :: bool
  wj_revision :: nat
  wj_limits :: journal_limits
  wj_meter :: id_meter
  wj_operations :: "journal_op list"
  wj_hash :: "string option"

definition max_journal_paths :: nat where "max_journal_paths = 500"
definition max_journal_operations :: nat where "max_journal_operations = 1000"
definition max_journal_bytes :: nat where "max_journal_bytes = 4194304"
definition max_journal_revision :: nat where "max_journal_revision = 100000"

subsection \<open>Writing\<close>

definition counter_value :: "nat \<Rightarrow> jv" where
  "counter_value n = JNum (JInt (int n))"

definition id_stat_value :: "id_stat \<Rightarrow> jv" where
  "id_stat_value s = JObj [(''dev'', JStr (st_dev s)), (''ino'', JStr (st_ino s)), (''mtime_ns'', JStr (st_mtime s)), (''ctime_ns'', JStr (st_ctime s))]"

primrec path_identity_value :: "path_identity \<Rightarrow> jv" where
  "path_identity_value (Missing_at p) = JObj [(''schema_version'', counter_value 2), (''kind'', JStr ''missing''), (''path'', JStr p)]"
| "path_identity_value (File_at p n h st) =
     JObj [(''schema_version'', counter_value 2), (''kind'', JStr ''file''), (''path'', JStr p), (''byte_size'', counter_value n),
           (''sha256'', JStr h), (''stat'', id_stat_value st)]"

definition operation_value :: "journal_op \<Rightarrow> jv" where
  "operation_value x = JObj
     ([(''sequence'', counter_value (jo_sequence x)), (''operation_id'', JStr (jo_id x)), (''kind'', JStr (write_kind_text (jo_kind x))),
       (''path'', JStr (jo_path x)), (''status'', JStr (case jo_result x of None \<Rightarrow> ''pending'' | Some _ \<Rightarrow> ''completed'')),
       (''before'', path_identity_value (jo_before x))]
      @ (case jo_result x of None \<Rightarrow> []
         | Some (after, outcome) \<Rightarrow> [(''after'', path_identity_value after), (''outcome'', JStr (write_outcome_text outcome))]))"

definition meter_value :: "id_meter \<Rightarrow> jv" where
  "meter_value m = JObj [(''paths_attempted'', counter_value (im_attempted m)), (''paths_completed'', counter_value (im_completed m)),
     (''bytes_read'', counter_value (im_bytes m))]"

definition limits_value :: "journal_limits \<Rightarrow> jv" where
  "limits_value l = JObj
     [(''max_unique_paths'', counter_value (jl_paths l)), (''max_operations'', counter_value (jl_operations l)),
      (''max_identity_paths'', counter_value (jl_identities l)), (''max_total_bytes'', counter_value (jl_total l)),
      (''max_file_bytes'', counter_value (jl_file l)), (''max_serialized_bytes'', counter_value (jl_serialized l))]"

definition payload_fields :: "journal \<Rightarrow> fields" where
  "payload_fields j =
     [(''schema_version'', counter_value 2), (''delegation_id'', JStr (wj_delegation j)), (''contract_hash'', JStr (wj_contract j)),
      (''state'', JStr (if wj_sealed j then ''SEALED'' else ''OPEN'')), (''revision'', counter_value (wj_revision j)),
      (''limits'', limits_value (wj_limits j)), (''meter'', meter_value (wj_meter j)),
      (''operations'', JArr (map operation_value (wj_operations j)))]"

definition journal_value :: "journal \<Rightarrow> jv" where
  "journal_value j = JObj (payload_fields j @ [(''journal_hash'', case wj_hash j of Some h \<Rightarrow> JStr h | None \<Rightarrow> JNull)])"

text \<open>\<open>encodeCanonicalJson\<close>: the text, unless it is longer than the bound.\<close>

definition bounded_text :: "nat \<Rightarrow> jv \<Rightarrow> string option" where
  "bounded_text bound v = (if byte_length (pretty_line v) \<le> bound then Some (pretty_line v) else None)"

definition canonical_journal :: "journal \<Rightarrow> string option" where
  "canonical_journal j = bounded_text (min (jl_serialized (wj_limits j)) max_journal_bytes) (journal_value j)"

text \<open>The hash of everything but the hash field; it throws when the payload is too long.\<close>

definition journal_hash :: "journal \<Rightarrow> string option" where
  "journal_hash j = map_option sha256_hex (bounded_text max_journal_bytes (JObj (payload_fields j)))"

subsection \<open>The strict normaliser\<close>

definition counter :: "jv \<Rightarrow> nat option" where
  "counter v = (case as_safe_int v of Some i \<Rightarrow> if 0 \<le> i then Some (nat i) else None | None \<Rightarrow> None)"

text \<open>\<open>input?.field ?? hard\<close>, then a positive integer up to the hard limit.\<close>

definition read_limit :: "nat \<Rightarrow> jv \<Rightarrow> nat option" where
  "read_limit hard v =
     (if v = JUndef \<or> v = JNull then Some hard
      else case as_safe_int v of Some i \<Rightarrow> if 0 < i \<and> i \<le> int hard then Some (nat i) else None | None \<Rightarrow> None)"

definition limit_fields :: "string list" where
  "limit_fields = [''max_unique_paths'', ''max_operations'', ''max_identity_paths'', ''max_total_bytes'', ''max_file_bytes'', ''max_serialized_bytes'']"

definition normalize_limits :: "fields \<Rightarrow> journal_limits option" where
  "normalize_limits f =
     (if \<not> set (own_keys f) \<subseteq> set limit_fields then None
      else case (read_limit max_journal_paths (get_prop f ''max_unique_paths''), read_limit max_journal_operations (get_prop f ''max_operations''),
                 read_limit max_identity_paths (get_prop f ''max_identity_paths'')) of
        (Some a, Some b, Some c) \<Rightarrow>
          (case (read_limit max_identity_total_bytes (get_prop f ''max_total_bytes''), read_limit max_identity_file_bytes (get_prop f ''max_file_bytes''),
                 read_limit max_journal_bytes (get_prop f ''max_serialized_bytes'')) of
             (Some d, Some e, Some s) \<Rightarrow>
               Some \<lparr>jl_paths = a, jl_operations = b, jl_identities = c, jl_total = d, jl_file = e, jl_serialized = s\<rparr>
           | _ \<Rightarrow> None)
      | _ \<Rightarrow> None)"

definition normalize_meter :: "jv \<Rightarrow> id_meter option" where
  "normalize_meter v =
     (case as_record v of None \<Rightarrow> None
      | Some f \<Rightarrow>
          if \<not> exact_fields f [''paths_attempted'', ''paths_completed'', ''bytes_read''] then None
          else (case (counter (get_prop f ''paths_attempted''), counter (get_prop f ''paths_completed''), counter (get_prop f ''bytes_read'')) of
              (Some a, Some c, Some b) \<Rightarrow> if c \<le> a then Some \<lparr>im_attempted = a, im_completed = c, im_bytes = b\<rparr> else None
            | _ \<Rightarrow> None))"

text \<open>\<open>/^(0|[1-9]\d*)$/\<close>\<close>

definition decimal_re :: "string \<Rightarrow> bool" where
  "decimal_re s = (s = ''0'' \<or> s \<noteq> [] \<and> list_all is_digit s \<and> hd s \<noteq> CHR ''0'')"

definition decimal :: "jv \<Rightarrow> string option" where
  "decimal v = (case as_string v of Some s \<Rightarrow> if decimal_re s then Some s else None | None \<Rightarrow> None)"

definition read_stat :: "jv \<Rightarrow> id_stat option" where
  "read_stat v =
     (case as_record v of None \<Rightarrow> None
      | Some f \<Rightarrow>
          if \<not> exact_fields f [''dev'', ''ino'', ''mtime_ns'', ''ctime_ns''] then None
          else (case (decimal (get_prop f ''dev''), decimal (get_prop f ''ino''), decimal (get_prop f ''mtime_ns''), decimal (get_prop f ''ctime_ns'')) of
              (Some a, Some b, Some c, Some d) \<Rightarrow> Some \<lparr>st_dev = a, st_ino = b, st_mtime = c, st_ctime = d\<rparr>
            | _ \<Rightarrow> None))"

definition hash_field :: "jv \<Rightarrow> string option" where
  "hash_field v = (case as_string v of Some s \<Rightarrow> if hash_re s then Some s else None | None \<Rightarrow> None)"

definition normalize_identity :: "jv \<Rightarrow> string \<Rightarrow> path_identity option" where
  "normalize_identity v path =
     (case as_record v of None \<Rightarrow> None
      | Some f \<Rightarrow>
          if get_prop f ''schema_version'' \<noteq> counter_value 2 \<or> get_prop f ''path'' \<noteq> JStr path then None
          else if get_prop f ''kind'' = JStr ''missing'' then
            (if exact_fields f [''schema_version'', ''kind'', ''path''] then Some (Missing_at path) else None)
          else if get_prop f ''kind'' \<noteq> JStr ''file'' \<or> \<not> exact_fields f [''schema_version'', ''kind'', ''path'', ''byte_size'', ''sha256'', ''stat'']
          then None
          else (case (read_stat (get_prop f ''stat''), counter (get_prop f ''byte_size''), hash_field (get_prop f ''sha256'')) of
              (Some st, Some n, Some h) \<Rightarrow> Some (File_at path n h st)
            | _ \<Rightarrow> None))"

definition pending_fields :: "string list" where
  "pending_fields = [''sequence'', ''operation_id'', ''kind'', ''path'', ''status'', ''before'']"

definition completed_fields :: "string list" where
  "completed_fields = pending_fields @ [''after'', ''outcome'']"

definition normalize_operation :: "jv \<Rightarrow> nat \<Rightarrow> journal_op option" where
  "normalize_operation v n =
     (case as_record v of None \<Rightarrow> None
      | Some f \<Rightarrow>
          if get_prop f ''sequence'' \<noteq> counter_value n then None
          else (case (hash_field (get_prop f ''operation_id''), parse_enum write_kinds write_kind_text (get_prop f ''kind''), as_string (get_prop f ''path'')) of
              (Some i, Some k, Some p) \<Rightarrow>
                if \<not> strict_identity_path p then None
                else (case normalize_identity (get_prop f ''before'') p of None \<Rightarrow> None
                  | Some b \<Rightarrow>
                      let x = \<lparr>jo_sequence = n, jo_id = i, jo_kind = k, jo_path = p, jo_before = b, jo_result = None\<rparr>
                      in if get_prop f ''status'' = JStr ''pending''
                         then (if exact_fields f pending_fields then Some x else None)
                         else if get_prop f ''status'' \<noteq> JStr ''completed'' \<or> \<not> exact_fields f completed_fields then None
                         else (case (parse_enum write_outcomes write_outcome_text (get_prop f ''outcome''), normalize_identity (get_prop f ''after'') p) of
                             (Some outcome, Some a) \<Rightarrow> Some (x\<lparr>jo_result := Some (a, outcome)\<rparr>)
                           | _ \<Rightarrow> None))
            | _ \<Rightarrow> None))"

fun normalize_operations :: "nat \<Rightarrow> jv list \<Rightarrow> journal_op list option" where
  "normalize_operations n [] = Some []"
| "normalize_operations n (v # vs) =
     (case (normalize_operation v n, normalize_operations (Suc n) vs) of (Some x, Some xs) \<Rightarrow> Some (x # xs) | _ \<Rightarrow> None)"

definition op_done :: "journal_op \<Rightarrow> bool" where
  "op_done x = (jo_result x \<noteq> None)"

definition op_identities :: "journal_op \<Rightarrow> path_identity list" where
  "op_identities x = jo_before x # (case jo_result x of Some (a, _) \<Rightarrow> [a] | None \<Rightarrow> [])"

text \<open>The identity before an operation is the one after the last completed operation on its path.\<close>

fun valid_chain :: "(string \<Rightarrow> path_identity option) \<Rightarrow> journal_op list \<Rightarrow> bool" where
  "valid_chain known [] = True"
| "valid_chain known (x # xs) =
     ((case known (jo_path x) of Some i \<Rightarrow> i = jo_before x | None \<Rightarrow> True)
      \<and> valid_chain (case jo_result x of Some (a, _) \<Rightarrow> known(jo_path x \<mapsto> a) | None \<Rightarrow> known) xs)"

definition identity_bytes :: "journal_op list \<Rightarrow> nat" where
  "identity_bytes xs = sum_list (map id_bytes (concat (map op_identities xs)))"

definition captures :: "journal_op list \<Rightarrow> nat" where
  "captures xs = length xs + length (filter op_done xs)"

definition operations_fit :: "journal_limits \<Rightarrow> id_meter \<Rightarrow> nat \<Rightarrow> journal_op list \<Rightarrow> bool" where
  "operations_fit l m revision xs =
     (im_attempted m \<le> jl_identities l \<and> im_bytes m \<le> jl_total l \<and> length xs \<le> jl_operations l
      \<and> distinct (map jo_id xs) \<and> list_all op_done (butlast xs)
      \<and> card (set (map jo_path xs)) \<le> jl_paths l \<and> valid_chain Map.empty xs
      \<and> identity_bytes xs \<le> 9007199254740991 \<and> identity_bytes xs \<le> im_bytes m
      \<and> captures xs \<le> im_completed m \<and> captures xs \<le> revision
      \<and> list_all (\<lambda>x. list_all (\<lambda>i. id_bytes i \<le> jl_file l) (op_identities x)) xs)"

definition journal_fields :: "string list" where
  "journal_fields = [''schema_version'', ''delegation_id'', ''contract_hash'', ''state'', ''revision'', ''limits'', ''meter'', ''operations'', ''journal_hash'']"

definition seal_ok :: "journal \<Rightarrow> bool" where
  "seal_ok j =
     (if wj_sealed j
      then list_all op_done (wj_operations j) \<and> captures (wj_operations j) + 1 \<le> wj_revision j
           \<and> (case wj_hash j of Some h \<Rightarrow> hash_re h \<and> journal_hash j = Some h | None \<Rightarrow> False)
      else wj_hash j = None)"

definition normalize_journal :: "jv \<Rightarrow> journal option" where
  "normalize_journal v =
     (case as_record v of None \<Rightarrow> None
      | Some f \<Rightarrow>
          if \<not> exact_fields f journal_fields \<or> get_prop f ''schema_version'' \<noteq> counter_value 2 then None
          else (case (as_string (get_prop f ''delegation_id''), hash_field (get_prop f ''contract_hash''), counter (get_prop f ''revision'')) of
              (Some d, Some ch, Some revno) \<Rightarrow>
                (case (as_record (get_prop f ''limits''), normalize_meter (get_prop f ''meter''), as_array (get_prop f ''operations'')) of
                   (Some lf, Some m, Some vs) \<Rightarrow>
                     (case (normalize_limits lf, normalize_operations 1 vs) of
                        (Some l, Some xs) \<Rightarrow>
                          let state = get_prop f ''state''; stored = get_prop f ''journal_hash'';
                              j = \<lparr>wj_delegation = d, wj_contract = ch, wj_sealed = (state = JStr ''SEALED''), wj_revision = revno,
                                   wj_limits = l, wj_meter = m, wj_operations = xs, wj_hash = as_string stored\<rparr>
                          in if transaction_id_re d \<and> (state = JStr ''OPEN'' \<or> state = JStr ''SEALED'') \<and> revno \<le> max_journal_revision
                                \<and> exact_fields lf limit_fields \<and> operations_fit l m revno xs
                                \<and> (stored = JNull \<or> as_string stored \<noteq> None) \<and> seal_ok j
                             then Some j else None
                      | _ \<Rightarrow> None)
                 | _ \<Rightarrow> None)
            | _ \<Rightarrow> None))"

subsection \<open>The operations\<close>

datatype journal_error =
    J_invalid_input | J_invalid_path | J_conflict | J_storage_failure | J_invalid_record | J_limit_exceeded
  | J_identity_failure identity_error

record journal_input =
  ji_delegation :: string
  ji_contract :: string
  ji_revision :: nat
  ji_op :: string
  ji_kind :: write_kind
  ji_path :: string

definition create_journal :: "string \<Rightarrow> string \<Rightarrow> jv \<Rightarrow> journal_error + journal" where
  "create_journal d ch limits =
     (if \<not> transaction_id_re d \<or> \<not> hash_re ch then Inl J_invalid_input
      else case (case limits of JUndef \<Rightarrow> normalize_limits [] | JObj f \<Rightarrow> normalize_limits f | _ \<Rightarrow> None) of
        None \<Rightarrow> Inl J_invalid_input
      | Some l \<Rightarrow>
          let j = \<lparr>wj_delegation = d, wj_contract = ch, wj_sealed = False, wj_revision = 0, wj_limits = l, wj_meter = zero_meter,
                   wj_operations = [], wj_hash = None\<rparr>
          in if canonical_journal j = None then Inl J_limit_exceeded else Inr j)"

text \<open>
  What an operation does with the record it read: it refuses, or it publishes another record and then
  gives an answer.
\<close>

datatype change = Refused journal_error | Change journal "journal_error option"

definition input_error :: "journal_input \<Rightarrow> journal_error option" where
  "input_error inp =
     (if transaction_id_re (ji_delegation inp) \<and> hash_re (ji_contract inp) \<and> ji_revision inp \<le> max_journal_revision
         \<and> hash_re (ji_op inp) \<and> strict_identity_path (ji_path inp) then None
      else if \<not> strict_identity_path (ji_path inp) then Some J_invalid_path else Some J_invalid_input)"

definition readable_for :: "journal \<Rightarrow> journal_input \<Rightarrow> bool" where
  "readable_for j inp = (wj_delegation j = ji_delegation inp \<and> wj_contract j = ji_contract inp)"

definition capture_path :: "identity_io \<Rightarrow> string \<Rightarrow> journal \<Rightarrow> string \<Rightarrow> (capture_failure + path_identity list) \<times> id_meter" where
  "capture_path io root j path =
     capture_identities io root
       (normalize_id_limits (Some (int (jl_identities (wj_limits j)))) (Some (int (jl_total (wj_limits j))))
          (Some (int (jl_file (wj_limits j))))) (wj_meter j) [path]"

text \<open>A failed capture still spends its meter.\<close>

definition meter_change :: "journal \<Rightarrow> id_meter \<Rightarrow> identity_error \<Rightarrow> change" where
  "meter_change j m e =
     (if m = wj_meter j then Refused (J_identity_failure e)
      else if wj_revision j \<ge> max_journal_revision then Refused J_limit_exceeded
      else Change (j\<lparr>wj_revision := wj_revision j + 1, wj_meter := m\<rparr>) (Some (J_identity_failure e)))"

definition last_identity :: "journal_op list \<Rightarrow> string \<Rightarrow> path_identity option option" where
  "last_identity xs path = map_option (\<lambda>x. map_option fst (jo_result x)) (find (\<lambda>x. jo_path x = path) (rev xs))"

text \<open>The checks before the identity is captured, in their order.\<close>

definition begin_refusal :: "journal \<Rightarrow> journal_input \<Rightarrow> journal_error option" where
  "begin_refusal j inp =
     (let xs = wj_operations j; l = wj_limits j
      in if input_error inp \<noteq> None then input_error inp
         else if \<not> readable_for j inp then Some J_invalid_record
         else if wj_sealed j \<or> wj_revision j \<noteq> ji_revision inp \<or> list_ex (\<lambda>x. \<not> op_done x \<or> jo_id x = ji_op inp) xs
         then Some J_conflict
         else if length xs \<ge> jl_operations l \<or> wj_revision j \<ge> max_journal_revision then Some J_limit_exceeded
         else if ji_path inp \<notin> set (map jo_path xs) \<and> card (set (map jo_path xs)) \<ge> jl_paths l then Some J_limit_exceeded
         else None)"

definition begin_change :: "identity_io \<Rightarrow> string \<Rightarrow> journal \<Rightarrow> journal_input \<Rightarrow> change" where
  "begin_change io root j inp =
     (case begin_refusal j inp of Some e \<Rightarrow> Refused e
      | None \<Rightarrow>
          (case capture_path io root j (ji_path inp) of
             (Inl (e, _), m) \<Rightarrow> meter_change j m e
           | (Inr is, m) \<Rightarrow>
               let xs = wj_operations j; before = hd is
               in if (case last_identity xs (ji_path inp) of None \<Rightarrow> False | Some known \<Rightarrow> known \<noteq> Some before)
                  then meter_change j m Id_unstable
                  else Change (j\<lparr>wj_revision := wj_revision j + 1, wj_meter := m,
                          wj_operations := xs @ [\<lparr>jo_sequence = length xs + 1, jo_id = ji_op inp, jo_kind = ji_kind inp,
                            jo_path = ji_path inp, jo_before = before, jo_result = None\<rparr>]\<rparr>) None))"

definition complete_refusal :: "journal \<Rightarrow> journal_input \<Rightarrow> journal_error option" where
  "complete_refusal j inp =
     (let xs = wj_operations j; latest = last xs
      in if input_error inp \<noteq> None then input_error inp
         else if \<not> readable_for j inp then Some J_invalid_record
         else if xs = [] then Some J_conflict
         else if wj_sealed j \<or> wj_revision j \<noteq> ji_revision inp \<or> op_done latest \<or> jo_id latest \<noteq> ji_op inp
                 \<or> jo_kind latest \<noteq> ji_kind inp \<or> jo_path latest \<noteq> ji_path inp \<or> wj_revision j \<ge> max_journal_revision
         then Some J_conflict
         else None)"

definition complete_change :: "identity_io \<Rightarrow> string \<Rightarrow> journal \<Rightarrow> journal_input \<Rightarrow> write_outcome \<Rightarrow> change" where
  "complete_change io root j inp outcome =
     (case complete_refusal j inp of Some e \<Rightarrow> Refused e
      | None \<Rightarrow>
          (case capture_path io root j (ji_path inp) of
             (Inl (e, _), m) \<Rightarrow> meter_change j m e
           | (Inr is, m) \<Rightarrow>
               let xs = wj_operations j
               in Change (j\<lparr>wj_revision := wj_revision j + 1, wj_meter := m,
                    wj_operations := butlast xs @ [(last xs)\<lparr>jo_result := Some (hd is, outcome)\<rparr>]\<rparr>) None))"

definition seal_change :: "journal \<Rightarrow> string \<Rightarrow> string \<Rightarrow> nat \<Rightarrow> change + journal" where
  "seal_change j d ch expected =
     (if \<not> transaction_id_re d \<or> \<not> hash_re ch \<or> expected > max_journal_revision then Inl (Refused J_invalid_input)
      else if wj_delegation j \<noteq> d \<or> wj_contract j \<noteq> ch then Inl (Refused J_invalid_record)
      else if wj_revision j \<noteq> expected then Inl (Refused J_conflict)
      else if wj_sealed j then Inr j
      else if list_ex (\<lambda>x. \<not> op_done x) (wj_operations j) \<or> \<not> valid_chain Map.empty (wj_operations j) then Inl (Refused J_conflict)
      else if wj_revision j \<ge> max_journal_revision then Inl (Refused J_limit_exceeded)
      else let s = j\<lparr>wj_sealed := True, wj_revision := wj_revision j + 1, wj_hash := None\<rparr>
           in case journal_hash s of None \<Rightarrow> Inl (Refused J_storage_failure) | Some h \<Rightarrow> Inl (Change (s\<lparr>wj_hash := Some h\<rparr>) None))"

text \<open>
  Publication under the lock: the record is written to a temporary file, read back through the
  normaliser, renamed and read again. Storage can fail before the rename (the record read stays) or
  after it (the new record is durable although a failure is reported); \<open>publishAfterIdentityCapture\<close>
  retries once and ends in one of the same three ways.
\<close>

datatype publication = Published | Lost | Hidden

definition apply_change :: "publication \<Rightarrow> journal \<Rightarrow> change \<Rightarrow> (journal_error + journal) \<times> journal" where
  "apply_change pub j c =
     (case c of
        Refused e \<Rightarrow> (Inl e, j)
      | Change j' answer \<Rightarrow>
          if canonical_journal j' = None then (Inl J_limit_exceeded, j)
          else if normalize_journal (journal_value j') \<noteq> Some j' then (Inl J_storage_failure, j)
          else (case pub of
              Published \<Rightarrow> ((case answer of None \<Rightarrow> Inr j' | Some e \<Rightarrow> Inl e), j')
            | Lost \<Rightarrow> (Inl J_storage_failure, j)
            | Hidden \<Rightarrow> (Inl J_storage_failure, j')))"

text \<open>The stored journal of one delegation, whatever the storage and the files do.\<close>

inductive journal_step :: "string \<Rightarrow> journal \<Rightarrow> journal \<Rightarrow> bool" for root where
  step_begun: "apply_change pub j (begin_change io root j inp) = (answer, j') \<Longrightarrow> journal_step root j j'"
| step_completed: "apply_change pub j (complete_change io root j inp outcome) = (answer, j') \<Longrightarrow> journal_step root j j'"
| step_sealed: "seal_change j d ch expected = Inl c \<Longrightarrow> apply_change pub j c = (answer, j') \<Longrightarrow> journal_step root j j'"

inductive journal_runs :: "string \<Rightarrow> journal \<Rightarrow> bool" for root where
  run_created: "create_journal d ch limits = Inr j \<Longrightarrow> journal_runs root j"
| run_step: "journal_runs root j \<Longrightarrow> journal_step root j j' \<Longrightarrow> journal_runs root j'"

end
