(* ===== verification/Workspace_Guard.thy ===== *)
theory Workspace_Guard
  imports Write_Journal Lane_Admission
begin

section \<open>The workspace guard (core/workspace-guard.ts)\<close>

text \<open>
  A guard binds the Git head and the exact paths of \<open>git status --porcelain=v1 -z\<close> to lstat facts taken
  twice. The answers of Git, the lstat adapter and the fault hooks are the record \<open>guard_io\<close>; the name of
  the configuration directory comes from the host package and is the parameter \<open>cfg\<close>. Bytes are numbers;
  the output of a child process is a string, so its bytes are the UTF-8 form of the characters of the
  model (code points below 256, one or two bytes each), and \<open>utf8_decode\<close> inverts just those forms.
\<close>

subsection \<open>Records\<close>

datatype guard_kind = Gk_file | Gk_directory | Gk_symlink | Gk_other

primrec guard_kind_text :: "guard_kind \<Rightarrow> string" where
  "guard_kind_text Gk_file = ''file''"
| "guard_kind_text Gk_directory = ''directory''"
| "guard_kind_text Gk_symlink = ''symlink''"
| "guard_kind_text Gk_other = ''other''"

definition guard_kinds :: "guard_kind list" where
  "guard_kinds = [Gk_file, Gk_directory, Gk_symlink, Gk_other]"

interpretation guard_kind: wire_enum guard_kinds guard_kind_text
  by unfold_locales (auto simp: guard_kinds_def intro: guard_kind.exhaust)

datatype guard_identity = Guard_missing | Guard_present guard_kind nat id_stat

record guard_entry =
  we_path :: string
  we_status :: string
  we_identity :: guard_identity

record guard_meter =
  gm_status :: nat
  gm_relevant :: nat
  gm_irrelevant :: nat
  gm_stats :: nat

definition empty_meter :: guard_meter where
  "empty_meter = \<lparr>gm_status = 0, gm_relevant = 0, gm_irrelevant = 0, gm_stats = 0\<rparr>"

record guard =
  gd_head :: "string option"
  gd_entries :: "guard_entry list"
  gd_irrelevant :: "string list"
  gd_meter :: guard_meter
  gd_hash :: string

datatype guard_error = G_invalid_input | G_git_failure | G_invalid_path | G_path_overflow | G_status_overflow | G_stat_failure | G_unstable

definition max_guard_paths :: nat where "max_guard_paths = 500"
definition max_guard_irrelevant :: nat where "max_guard_irrelevant = 500"
definition max_status_bytes :: nat where "max_status_bytes = 1048576"
definition max_guard_path_bytes :: nat where "max_guard_path_bytes = 400"

record guard_limits =
  gl_relevant :: nat
  gl_irrelevant :: nat
  gl_status :: nat
  gl_path :: nat

definition guard_limit_fields :: "string list" where
  "guard_limit_fields = [''max_relevant_paths'', ''max_irrelevant_paths'', ''max_status_bytes'', ''max_path_bytes'']"

definition normalize_guard_limits :: "jv \<Rightarrow> guard_limits option" where
  "normalize_guard_limits v =
     (case (if v = JUndef then Some [] else as_record v) of None \<Rightarrow> None
      | Some f \<Rightarrow>
          if \<not> set (own_keys f) \<subseteq> set guard_limit_fields then None
          else (case (read_limit max_guard_paths (get_prop f ''max_relevant_paths''), read_limit max_guard_irrelevant (get_prop f ''max_irrelevant_paths''),
                      read_limit max_status_bytes (get_prop f ''max_status_bytes''), read_limit max_guard_path_bytes (get_prop f ''max_path_bytes'')) of
              (Some a, Some b, Some c, Some d) \<Rightarrow> Some \<lparr>gl_relevant = a, gl_irrelevant = b, gl_status = c, gl_path = d\<rparr>
            | _ \<Rightarrow> None))"

subsection \<open>Paths and states\<close>

definition strict_guard_path :: "string \<Rightarrow> bool" where
  "strict_guard_path s =
     (s \<noteq> [] \<and> byte_length s \<le> max_guard_path_bytes \<and> CHR 0x00 \<notin> set s \<and> strict_relative_form s)"

definition status_chars :: string where
  "status_chars = '' MADRCU?!''"

definition guard_status :: "string \<Rightarrow> bool" where
  "guard_status s =
     (case s of
        [x, y] \<Rightarrow>
          x \<in> set status_chars \<and> y \<in> set status_chars
          \<and> (if x = CHR ''?'' \<or> y = CHR ''?'' then s = ''??''
             else if x = CHR ''!'' \<or> y = CHR ''!'' then s = ''!!''
             else s \<noteq> ''  '')
      | _ \<Rightarrow> False)"

definition max_path_length :: nat where "max_path_length = 400"

text \<open>\<open>normalizeStatusPath\<close> of core/delegation-ledger.ts: both slashes separate, empty and dot segments drop.\<close>

definition drive_prefix :: "string \<Rightarrow> bool" where
  "drive_prefix s =
     (case s of c # d # _ \<Rightarrow> (is_lower c \<or> is_upper c) \<and> d = CHR '':'' | _ \<Rightarrow> False)"

definition normalize_status_path :: "string \<Rightarrow> string option" where
  "normalize_status_path raw =
     (if raw = [] \<or> hd raw = CHR ''/'' \<or> hd raw = CHR 0x5C \<or> drive_prefix raw then None
      else let segments = filter (\<lambda>g. g \<noteq> [] \<and> g \<noteq> ''.'') (split_on (CHR ''/'') (map (\<lambda>c. if c = CHR 0x5C then CHR ''/'' else c) raw));
               path = join_with ''/'' segments
           in if segments = [] \<or> ''..'' \<in> set segments \<or> length path > max_path_length then None else Some path)"

definition lock_suffix :: "string \<Rightarrow> bool" where
  "lock_suffix s =
     list_ex (\<lambda>p. starts_with p s \<and> length s = length p + 32 \<and> list_all is_lower_hex (drop (length p) s))
       [''.candidate.'', ''.release.'', ''.recovered.'']"

definition start_lock_artifact :: "string \<Rightarrow> string \<Rightarrow> bool" where
  "start_lock_artifact cfg raw =
     (case normalize_status_path raw of None \<Rightarrow> False
      | Some rel \<Rightarrow>
          let fixed = cfg @ ''/workbench/delegation-start.lock''
          in rel = fixed \<or> starts_with (fixed @ ''.'') rel \<and> lock_suffix (drop (length fixed) rel))"

definition control_prefixes :: "string list" where
  "control_prefixes = [''.pi/workbench/delegations/'', ''.pi/workbench/tool-results/'', ''.pi/workbench/runs/'']"

definition irrelevant_artifact :: "string \<Rightarrow> string \<Rightarrow> bool" where
  "irrelevant_artifact cfg p = (list_ex (\<lambda>c. starts_with c p) control_prefixes \<or> start_lock_artifact cfg p)"

definition python_bytecode :: "string \<Rightarrow> bool" where
  "python_bytecode p =
     (let segments = split_on (CHR ''/'') p
      in ''__pycache__'' \<in> set (butlast segments) \<and> (ends_with ''.pyc'' (last segments) \<or> ends_with ''.pyo'' (last segments)))"

definition collected_irrelevant :: "string \<Rightarrow> string \<Rightarrow> bool" where
  "collected_irrelevant cfg p = (irrelevant_artifact cfg p \<or> python_bytecode p)"

subsection \<open>The output of git status\<close>

fun utf8_decode :: "nat list \<Rightarrow> string option" where
  "utf8_decode [] = Some []"
| "utf8_decode (b # bs) =
     (if b < 128 then map_option ((#) (char_of b)) (utf8_decode bs)
      else case bs of
          c # cs \<Rightarrow> if (b = 194 \<or> b = 195) \<and> 128 \<le> c \<and> c < 192 then map_option ((#) (char_of ((b - 192) * 64 + (c - 128)))) (utf8_decode cs)
                   else None
        | [] \<Rightarrow> None)"

text \<open>\<open>toString("ascii")\<close> drops the high bit of every byte.\<close>

definition ascii_text :: "nat list \<Rightarrow> string" where
  "ascii_text bs = map (\<lambda>b. char_of (b mod 128)) bs"

definition decode_path :: "nat \<Rightarrow> nat list \<Rightarrow> string option" where
  "decode_path bound bs =
     (if bs = [] \<or> length bs > bound then None
      else case utf8_decode bs of Some p \<Rightarrow> if strict_guard_path p then Some p else None | None \<Rightarrow> None)"

definition renames :: "string \<Rightarrow> bool" where
  "renames status = (CHR ''R'' \<in> set status \<or> CHR ''C'' \<in> set status)"

definition item_bytes :: "nat list \<Rightarrow> nat list" where
  "item_bytes bs = takeWhile (\<lambda>b. b \<noteq> 0) bs"

definition after_item :: "nat list \<Rightarrow> nat list" where
  "after_item bs = dropWhile (\<lambda>b. b \<noteq> 0) bs"

lemma after_item_length: "length (after_item bs) \<le> length bs"
  by (simp add: after_item_def length_dropWhile_le)

function parse_status :: "nat \<Rightarrow> nat list \<Rightarrow> (string \<times> string) list option" where
  "parse_status bound bs =
     (if bs = [] then Some []
      else let item = item_bytes bs; status = ascii_text (take 2 item)
           in if after_item bs = [] \<or> length item < 4 then None
              else if \<not> guard_status status \<or> item ! 2 \<noteq> 32 then None
              else case decode_path bound (drop 3 item) of None \<Rightarrow> None
                | Some p \<Rightarrow>
                    if renames status
                    then (let bs1 = tl (after_item bs)
                          in if after_item bs1 = [] then None
                             else case decode_path bound (item_bytes bs1) of None \<Rightarrow> None
                               | Some q \<Rightarrow> map_option (\<lambda>ps. (p, status) # (q, status) # ps) (parse_status bound (tl (after_item bs1))))
                    else map_option ((#) (p, status)) (parse_status bound (tl (after_item bs))))"
  by pat_completeness auto
termination
proof (relation "measure (length \<circ> snd)"; simp)
  fix bs :: "nat list"
  have shrink: "length (after_item xs) - Suc 0 < length xs" if "xs \<noteq> []" for xs :: "nat list"
    using that after_item_length[of xs] by (cases xs) (auto simp: less_Suc_eq_le)
  show "length (after_item bs) - Suc 0 < length bs" if "bs \<noteq> []" using shrink[OF that] .
  show "length (after_item (tl (after_item bs))) - Suc 0 < length bs" if "bs \<noteq> []"
    using shrink[OF that] after_item_length[of "tl (after_item bs)"] by simp
qed

declare parse_status.simps [simp del]

subsection \<open>Values and the hash\<close>

primrec guard_identity_value :: "guard_identity \<Rightarrow> jv" where
  "guard_identity_value Guard_missing = JObj [(''kind'', JStr ''missing'')]"
| "guard_identity_value (Guard_present k n st) =
     JObj [(''kind'', JStr (guard_kind_text k)), (''byte_size'', counter_value n), (''stat'', id_stat_value st)]"

definition guard_entry_value :: "guard_entry \<Rightarrow> jv" where
  "guard_entry_value e = JObj [(''path'', JStr (we_path e)), (''status'', JStr (we_status e)), (''identity'', guard_identity_value (we_identity e))]"

definition head_value :: "string option \<Rightarrow> jv" where
  "head_value h = (case h of None \<Rightarrow> JNull | Some s \<Rightarrow> JStr s)"

definition guard_hash :: "string option \<Rightarrow> guard_entry list \<Rightarrow> string" where
  "guard_hash h es = sha256_hex (print_value (JObj
     [(''schema_version'', counter_value 2), (''git_head'', head_value h), (''entries'', JArr (map guard_entry_value es))]))"

definition guard_meter_value :: "guard_meter \<Rightarrow> jv" where
  "guard_meter_value m = JObj [(''status_bytes'', counter_value (gm_status m)), (''relevant_paths'', counter_value (gm_relevant m)),
     (''irrelevant_paths'', counter_value (gm_irrelevant m)), (''stat_calls'', counter_value (gm_stats m)),
     (''content_bytes_read'', counter_value 0)]"

definition guard_value :: "guard \<Rightarrow> jv" where
  "guard_value g = JObj
     [(''schema_version'', counter_value 2), (''git_head'', head_value (gd_head g)),
      (''entries'', JArr (map guard_entry_value (gd_entries g))),
      (''irrelevant_artifact_paths'', JArr (map JStr (gd_irrelevant g))),
      (''meter'', guard_meter_value (gd_meter g)), (''workspace_guard_hash'', JStr (gd_hash g))]"

subsection \<open>The validator\<close>

definition head_re :: "string \<Rightarrow> bool" where
  "head_re s = ((length s = 40 \<or> length s = 64) \<and> list_all is_lower_hex s)"

definition read_head :: "jv \<Rightarrow> string option option" where
  "read_head v =
     (if v = JNull then Some None
      else case as_string v of Some s \<Rightarrow> if head_re s then Some (Some s) else None | None \<Rightarrow> None)"

definition read_guard_identity :: "jv \<Rightarrow> guard_identity option" where
  "read_guard_identity v =
     (case as_record v of None \<Rightarrow> None
      | Some f \<Rightarrow>
          if get_prop f ''kind'' = JStr ''missing'' then (if exact_fields f [''kind''] then Some Guard_missing else None)
          else if \<not> exact_fields f [''kind'', ''byte_size'', ''stat''] then None
          else (case (parse_enum guard_kinds guard_kind_text (get_prop f ''kind''), counter (get_prop f ''byte_size''), read_stat (get_prop f ''stat'')) of
              (Some k, Some n, Some st) \<Rightarrow> Some (Guard_present k n st)
            | _ \<Rightarrow> None))"

definition read_guard_entry :: "jv \<Rightarrow> guard_entry option" where
  "read_guard_entry v =
     (case as_record v of None \<Rightarrow> None
      | Some f \<Rightarrow>
          if \<not> exact_fields f [''path'', ''status'', ''identity''] then None
          else (case (as_string (get_prop f ''path''), as_string (get_prop f ''status''), read_guard_identity (get_prop f ''identity'')) of
              (Some p, Some s, Some i) \<Rightarrow>
                if strict_guard_path p \<and> guard_status s then Some \<lparr>we_path = p, we_status = s, we_identity = i\<rparr> else None
            | _ \<Rightarrow> None))"

fun read_all :: "(jv \<Rightarrow> 'a option) \<Rightarrow> jv list \<Rightarrow> 'a list option" where
  "read_all r [] = Some []"
| "read_all r (v # vs) = (case (r v, read_all r vs) of (Some x, Some xs) \<Rightarrow> Some (x # xs) | _ \<Rightarrow> None)"

definition read_list :: "(jv \<Rightarrow> 'a option) \<Rightarrow> jv \<Rightarrow> 'a list option" where
  "read_list r v = (case as_array v of Some vs \<Rightarrow> read_all r vs | None \<Rightarrow> None)"

definition guard_meter_fields :: "string list" where
  "guard_meter_fields = [''status_bytes'', ''relevant_paths'', ''irrelevant_paths'', ''stat_calls'', ''content_bytes_read'']"

definition read_guard_meter :: "jv \<Rightarrow> guard_meter option" where
  "read_guard_meter v =
     (case as_record v of None \<Rightarrow> None
      | Some f \<Rightarrow>
          if \<not> exact_fields f guard_meter_fields \<or> get_prop f ''content_bytes_read'' \<noteq> counter_value 0 then None
          else (case (counter (get_prop f ''status_bytes''), counter (get_prop f ''relevant_paths''), counter (get_prop f ''irrelevant_paths''),
                      counter (get_prop f ''stat_calls'')) of
              (Some a, Some b, Some c, Some d) \<Rightarrow> Some \<lparr>gm_status = a, gm_relevant = b, gm_irrelevant = c, gm_stats = d\<rparr>
            | _ \<Rightarrow> None))"

text \<open>What the validator demands of the parts once they are read.\<close>

definition guard_ok :: "string \<Rightarrow> guard_limits \<Rightarrow> guard \<Rightarrow> bool" where
  "guard_ok cfg l g =
     (length (gd_entries g) \<le> gl_relevant l \<and> length (gd_irrelevant g) \<le> gl_irrelevant l
      \<and> list_all (\<lambda>e. \<not> irrelevant_artifact cfg (we_path e) \<and> byte_length (we_path e) \<le> gl_path l) (gd_entries g)
      \<and> strictly_sorted (map we_path (gd_entries g))
      \<and> list_all (\<lambda>p. strict_guard_path p \<and> collected_irrelevant cfg p \<and> byte_length p \<le> gl_path l) (gd_irrelevant g)
      \<and> strictly_sorted (gd_irrelevant g)
      \<and> gm_status (gd_meter g) \<le> gl_status l \<and> gm_relevant (gd_meter g) = length (gd_entries g)
      \<and> gm_irrelevant (gd_meter g) = length (gd_irrelevant g) \<and> gm_stats (gd_meter g) = 2 * length (gd_entries g)
      \<and> hash_re (gd_hash g) \<and> gd_hash g = guard_hash (gd_head g) (gd_entries g))"

definition guard_fields :: "string list" where
  "guard_fields = [''schema_version'', ''git_head'', ''entries'', ''irrelevant_artifact_paths'', ''meter'', ''workspace_guard_hash'']"

definition validate_guard :: "string \<Rightarrow> jv \<Rightarrow> jv \<Rightarrow> guard option" where
  "validate_guard cfg limits v =
     (case (normalize_guard_limits limits, as_record v) of
        (Some l, Some f) \<Rightarrow>
          if \<not> exact_fields f guard_fields \<or> get_prop f ''schema_version'' \<noteq> counter_value 2 then None
          else (case (read_head (get_prop f ''git_head''), read_list read_guard_entry (get_prop f ''entries''),
                      read_list as_string (get_prop f ''irrelevant_artifact_paths''), read_guard_meter (get_prop f ''meter''),
                      as_string (get_prop f ''workspace_guard_hash'')) of
              (Some h, Some es, Some is, Some m, Some hash) \<Rightarrow>
                let g = \<lparr>gd_head = h, gd_entries = es, gd_irrelevant = is, gd_meter = m, gd_hash = hash\<rparr>
                in if guard_ok cfg l g then Some g else None
            | _ \<Rightarrow> None)
      | _ \<Rightarrow> None)"

end
