(* ===== verification/Guard_Capture.thy ===== *)
theory Guard_Capture
  imports Workspace_Guard
begin

section \<open>Collecting a workspace guard (core/workspace-guard.ts)\<close>

text \<open>
  One head query, one status query, and two lstat passes over the relevant paths: an entry is kept only
  when both passes saw the same identity. The meter is given back on failure too. The record that is
  built goes through the validator; \<open>Guard_Safety\<close> shows that this last check never refuses.
\<close>

datatype exec_answer = Exec_threw | Exec_malformed | Exec_done int string bool

record guard_stat = path_stat +
  ps_directory :: bool

datatype guard_point = Gp_head_before | Gp_head_after | Gp_status_before | Gp_status_after | Gp_stat_before | Gp_stat_after

record guard_io =
  gx_fault :: "guard_point \<Rightarrow> string \<Rightarrow> bool"
  gx_head :: exec_answer
  gx_status :: exec_answer
  gx_lstat :: "capture_phase \<Rightarrow> string \<Rightarrow> guard_stat option io"

definition kind_of_stat :: "guard_stat \<Rightarrow> guard_kind" where
  "kind_of_stat s = (if ps_link s then Gk_symlink else if ps_file s then Gk_file else if ps_directory s then Gk_directory else Gk_other)"

definition identity_from_stat :: "guard_stat option \<Rightarrow> guard_identity option" where
  "identity_from_stat x =
     (case x of None \<Rightarrow> Some Guard_missing
      | Some s \<Rightarrow>
          (case (safe_byte_size (path_stat.truncate s), normalized_stat (path_stat.truncate s)) of
             (Some n, Some st) \<Rightarrow> Some (Guard_present (kind_of_stat s) n st)
           | _ \<Rightarrow> None))"

subsection \<open>Git\<close>

definition parse_git_head :: "string \<Rightarrow> string option" where
  "parse_git_head out = (let t = js_trim (ascii_text (utf8 out)) in if head_re t then Some t else None)"

definition read_git_head :: "guard_io \<Rightarrow> guard_error + string option" where
  "read_git_head io =
     (if gx_fault io Gp_head_before [] then Inl G_git_failure
      else case gx_head io of
        Exec_done code out killed \<Rightarrow>
          if gx_fault io Gp_head_after [] \<or> killed then Inl G_git_failure
          else if code = 0 then (case parse_git_head out of Some h \<Rightarrow> Inr (Some h) | None \<Rightarrow> Inl G_git_failure)
          else Inr None
      | _ \<Rightarrow> Inl G_git_failure)"

definition read_git_status :: "guard_io \<Rightarrow> guard_error + nat list" where
  "read_git_status io =
     (if gx_fault io Gp_status_before [] then Inl G_git_failure
      else case gx_status io of
        Exec_done code out killed \<Rightarrow>
          if gx_fault io Gp_status_after [] \<or> code \<noteq> 0 \<or> killed then Inl G_git_failure else Inr (utf8 out)
      | _ \<Rightarrow> Inl G_git_failure)"

text \<open>Relevant items and irrelevant paths; a path named twice is refused.\<close>

fun sort_out :: "string \<Rightarrow> string list \<Rightarrow> (string \<times> string) list \<Rightarrow> ((string \<times> string) list \<times> string list) option" where
  "sort_out cfg seen [] = Some ([], [])"
| "sort_out cfg seen ((p, s) # items) =
     (if p \<in> set seen then None
      else case sort_out cfg (p # seen) items of None \<Rightarrow> None
        | Some (rs, is) \<Rightarrow> if collected_irrelevant cfg p then Some (rs, p # is) else Some ((p, s) # rs, is))"

subsection \<open>The two passes\<close>

definition outside_root :: "string \<Rightarrow> string \<Rightarrow> bool" where
  "outside_root root_abs p = (resolve_under root_abs p = root_abs \<or> \<not> starts_with (root_abs @ ''/'') (resolve_under root_abs p))"

definition stat_path :: "guard_io \<Rightarrow> capture_phase \<Rightarrow> string \<Rightarrow> guard_identity option" where
  "stat_path io ph p = (case gx_lstat io ph p of Io_threw \<Rightarrow> None | Io x \<Rightarrow> identity_from_stat x)"

definition count_stat :: "guard_meter \<Rightarrow> guard_meter" where
  "count_stat m = m\<lparr>gm_stats := gm_stats m + 1\<rparr>"

fun stat_first :: "guard_io \<Rightarrow> string \<Rightarrow> guard_meter \<Rightarrow> (string \<times> string) list \<Rightarrow> (guard_error + guard_identity list) \<times> guard_meter" where
  "stat_first io root_abs m [] = (Inr [], m)"
| "stat_first io root_abs m ((p, s) # items) =
     (if outside_root root_abs p then (Inl G_invalid_path, m)
      else if gx_fault io Gp_stat_before p then (Inl G_stat_failure, m)
      else case stat_path io Ph_before p of None \<Rightarrow> (Inl G_stat_failure, count_stat m)
        | Some i \<Rightarrow>
            (case stat_first io root_abs (count_stat m) items of
               (Inl e, m') \<Rightarrow> (Inl e, m')
             | (Inr is, m') \<Rightarrow> (Inr (i # is), m')))"

fun stat_again ::
  "guard_io \<Rightarrow> guard_meter \<Rightarrow> ((string \<times> string) \<times> guard_identity) list \<Rightarrow> (guard_error + guard_entry list) \<times> guard_meter" where
  "stat_again io m [] = (Inr [], m)"
| "stat_again io m (((p, s), prior) # items) =
     (if gx_fault io Gp_stat_after p then (Inl G_stat_failure, m)
      else case stat_path io Ph_after p of None \<Rightarrow> (Inl G_stat_failure, count_stat m)
        | Some now \<Rightarrow>
            if prior \<noteq> now then (Inl G_unstable, count_stat m)
            else (case stat_again io (count_stat m) items of
                (Inl e, m') \<Rightarrow> (Inl e, m')
              | (Inr es, m') \<Rightarrow> (Inr (\<lparr>we_path = p, we_status = s, we_identity = prior\<rparr> # es), m')))"

definition guard_entries ::
  "guard_io \<Rightarrow> string \<Rightarrow> guard_meter \<Rightarrow> (string \<times> string) list \<Rightarrow> (guard_error + guard_entry list) \<times> guard_meter" where
  "guard_entries io root_abs m items =
     (case stat_first io root_abs m items of
        (Inl e, m') \<Rightarrow> (Inl e, m')
      | (Inr is, m') \<Rightarrow> stat_again io m' (zip items is))"

subsection \<open>The whole collection\<close>

definition collect_guard :: "string \<Rightarrow> guard_io \<Rightarrow> string \<Rightarrow> jv \<Rightarrow> (guard_error + guard) \<times> guard_meter" where
  "collect_guard cfg io root_abs limits =
     (case normalize_guard_limits limits of None \<Rightarrow> (Inl G_invalid_input, empty_meter)
      | Some l \<Rightarrow>
          (case read_git_head io of Inl e \<Rightarrow> (Inl e, empty_meter)
           | Inr head \<Rightarrow>
               (case read_git_status io of Inl e \<Rightarrow> (Inl e, empty_meter)
                | Inr bs \<Rightarrow>
                    let m1 = empty_meter\<lparr>gm_status := length bs\<rparr>
                    in if length bs > gl_status l then (Inl G_status_overflow, m1)
                       else (case parse_status (gl_path l) bs of None \<Rightarrow> (Inl G_invalid_path, m1)
                         | Some items \<Rightarrow>
                             (case sort_out cfg [] items of None \<Rightarrow> (Inl G_invalid_path, m1)
                              | Some (rs, is) \<Rightarrow>
                                  if length is > gl_irrelevant l \<or> length rs > gl_relevant l then (Inl G_path_overflow, m1)
                                  else let m2 = m1\<lparr>gm_relevant := length rs, gm_irrelevant := length is\<rparr>
                                       in (case guard_entries io root_abs m2 (sort_key fst rs) of
                                             (Inl e, m3) \<Rightarrow> (Inl e, m3)
                                           | (Inr es, m3) \<Rightarrow>
                                               let g = \<lparr>gd_head = head, gd_entries = es, gd_irrelevant = sort is, gd_meter = m3,
                                                        gd_hash = guard_hash head es\<rparr>
                                               in if validate_guard cfg limits (guard_value g) = None then (Inl G_invalid_input, m3)
                                                  else (Inr g, m3)))))))"

end
