(* ===== verification/Journal_Reading.thy ===== *)
theory Journal_Reading
  imports Write_Journal
begin

section \<open>Write journals are read back\<close>

text \<open>
  The journals the strict normaliser gives are exactly the well-formed ones (\<open>journal_wf\<close>), and every
  well-formed journal is read back from what is written for it. So the normaliser is idempotent on the
  journals it accepts, and the check before a publication can be argued on records instead of values.
\<close>

subsection \<open>Well-formed parts\<close>

definition stat_wf :: "id_stat \<Rightarrow> bool" where
  "stat_wf s = (decimal_re (st_dev s) \<and> decimal_re (st_ino s) \<and> decimal_re (st_mtime s) \<and> decimal_re (st_ctime s))"

definition safe_nat :: "nat \<Rightarrow> bool" where
  "safe_nat n = (int n \<le> max_safe_integer)"

primrec identity_wf :: "path_identity \<Rightarrow> bool" where
  "identity_wf (Missing_at p) = True"
| "identity_wf (File_at p n h st) = (safe_nat n \<and> hash_re h \<and> stat_wf st)"

definition op_wf :: "nat \<Rightarrow> journal_op \<Rightarrow> bool" where
  "op_wf n x =
     (jo_sequence x = n \<and> hash_re (jo_id x) \<and> strict_identity_path (jo_path x)
      \<and> list_all (\<lambda>i. id_path i = jo_path x \<and> identity_wf i) (op_identities x))"

fun ops_wf :: "nat \<Rightarrow> journal_op list \<Rightarrow> bool" where
  "ops_wf n [] = True"
| "ops_wf n (x # xs) = (op_wf n x \<and> ops_wf (Suc n) xs)"

definition limit_ok :: "nat \<Rightarrow> nat \<Rightarrow> bool" where
  "limit_ok hard n = (0 < n \<and> n \<le> hard)"

definition limits_wf :: "journal_limits \<Rightarrow> bool" where
  "limits_wf l =
     (limit_ok max_journal_paths (jl_paths l) \<and> limit_ok max_journal_operations (jl_operations l)
      \<and> limit_ok max_identity_paths (jl_identities l) \<and> limit_ok max_identity_total_bytes (jl_total l)
      \<and> limit_ok max_identity_file_bytes (jl_file l) \<and> limit_ok max_journal_bytes (jl_serialized l))"

definition journal_wf :: "journal \<Rightarrow> bool" where
  "journal_wf j =
     (transaction_id_re (wj_delegation j) \<and> hash_re (wj_contract j) \<and> wj_revision j \<le> max_journal_revision
      \<and> limits_wf (wj_limits j) \<and> im_completed (wj_meter j) \<le> im_attempted (wj_meter j)
      \<and> operations_fit (wj_limits j) (wj_meter j) (wj_revision j) (wj_operations j)
      \<and> ops_wf 1 (wj_operations j) \<and> seal_ok j)"

lemma hard_limits:
  "safe_nat max_journal_paths" "safe_nat max_journal_operations" "safe_nat max_identity_paths" "safe_nat max_identity_total_bytes"
  "safe_nat max_identity_file_bytes" "safe_nat max_journal_bytes" "safe_nat max_journal_revision"
  by (simp_all add: safe_nat_def max_safe_integer_def max_journal_paths_def max_journal_operations_def max_identity_paths_def
      max_identity_total_bytes_def max_identity_file_bytes_def max_journal_bytes_def max_journal_revision_def)

lemma safe_nat_le: "safe_nat m \<Longrightarrow> n \<le> m \<Longrightarrow> safe_nat n"
  by (simp add: safe_nat_def)

subsection \<open>Reading parts\<close>

lemma counter_eq: "counter v = Some n \<longleftrightarrow> v = counter_value n \<and> safe_nat n"
  by (auto simp: counter_def counter_value_def safe_nat_def as_safe_int_Some split: option.splits if_splits)

lemma counter_value_inj [simp]: "counter_value m = counter_value n \<longleftrightarrow> m = n"
  by (simp add: counter_value_def)

lemma read_limit_value: "limit_ok hard n \<Longrightarrow> safe_nat hard \<Longrightarrow> read_limit hard (counter_value n) = Some n"
  by (auto simp: read_limit_def counter_value_def limit_ok_def safe_nat_def)

lemma read_limit_sound: "read_limit hard v = Some n \<Longrightarrow> 0 < hard \<Longrightarrow> limit_ok hard n"
  by (auto simp: read_limit_def limit_ok_def split: if_splits option.splits)

lemma decimal_eq: "decimal v = Some s \<longleftrightarrow> v = JStr s \<and> decimal_re s"
  by (auto simp: decimal_def split: option.splits if_splits)

lemma hash_field_eq: "hash_field v = Some s \<longleftrightarrow> v = JStr s \<and> hash_re s"
  by (auto simp: hash_field_def split: option.splits if_splits)

lemma read_id_stat_value: "stat_wf s \<Longrightarrow> read_stat (id_stat_value s) = Some s"
  by (simp add: read_stat_def id_stat_value_def exact_fields_def own_keys_def get_prop_def stat_wf_def decimal_def)

lemma read_stat_sound: "read_stat v = Some s \<Longrightarrow> stat_wf s"
  by (auto simp: read_stat_def stat_wf_def decimal_eq split: option.splits if_splits)

lemma identity_read: "identity_wf i \<Longrightarrow> id_path i = path \<Longrightarrow> normalize_identity (path_identity_value i) path = Some i"
  by (cases i) (auto simp: normalize_identity_def exact_fields_def own_keys_def get_prop_def read_id_stat_value counter_def counter_value_def
      safe_nat_def hash_field_def)

lemma identity_sound: "normalize_identity v path = Some i \<Longrightarrow> identity_wf i \<and> id_path i = path"
  by (auto simp: normalize_identity_def counter_eq hash_field_eq dest: read_stat_sound split: option.splits if_splits)

lemma operation_read: "op_wf n x \<Longrightarrow> normalize_operation (operation_value x) n = Some x"
  by (cases "jo_result x")
    (auto simp: op_wf_def op_identities_def normalize_operation_def operation_value_def exact_fields_def own_keys_def get_prop_def
      pending_fields_def completed_fields_def identity_read hash_field_def write_kind.parse_text write_outcome.parse_text split: prod.splits)

lemma operation_sound:
  assumes "normalize_operation v n = Some x" shows "op_wf n x"
proof -
  from assms obtain f i k p b where f: "as_record v = Some f" "hash_field (get_prop f ''operation_id'') = Some i"
    "strict_identity_path p" "normalize_identity (get_prop f ''before'') p = Some b"
    and x: "x = \<lparr>jo_sequence = n, jo_id = i, jo_kind = k, jo_path = p, jo_before = b, jo_result = None\<rparr>
      \<or> (\<exists>a out. normalize_identity (get_prop f ''after'') p = Some a
           \<and> x = \<lparr>jo_sequence = n, jo_id = i, jo_kind = k, jo_path = p, jo_before = b, jo_result = Some (a, out)\<rparr>)"
    unfolding normalize_operation_def by (auto simp: Let_def split: option.splits if_splits)
  from x f(2,3) identity_sound[OF f(4)] show ?thesis
    by (auto simp: op_wf_def op_identities_def hash_field_eq dest: identity_sound)
qed

lemma operations_read: "ops_wf n xs \<Longrightarrow> normalize_operations n (map operation_value xs) = Some xs"
  by (induction xs arbitrary: n) (simp_all add: operation_read)

lemma operations_sound: "normalize_operations n vs = Some xs \<Longrightarrow> ops_wf n xs"
  by (induction vs arbitrary: n xs) (auto simp: operation_sound split: option.splits)

lemma limits_read: "limits_wf l \<Longrightarrow> normalize_limits (the (as_record (limits_value l))) = Some l"
  by (simp add: normalize_limits_def limits_value_def limits_wf_def own_keys_def limit_fields_def get_prop_def read_limit_value hard_limits)

lemma limits_sound: "normalize_limits f = Some l \<Longrightarrow> limits_wf l"
  by (auto simp: normalize_limits_def limits_wf_def max_journal_paths_def max_journal_operations_def max_identity_paths_def
      max_identity_total_bytes_def max_identity_file_bytes_def max_journal_bytes_def dest!: read_limit_sound
      split: option.splits if_splits)

lemma meter_read:
  "im_completed m \<le> im_attempted m \<Longrightarrow> safe_nat (im_attempted m) \<Longrightarrow> safe_nat (im_bytes m) \<Longrightarrow> normalize_meter (meter_value m) = Some m"
  by (auto simp: normalize_meter_def meter_value_def exact_fields_def own_keys_def get_prop_def counter_def counter_value_def safe_nat_def)

lemma meter_sound: "normalize_meter v = Some m \<Longrightarrow> im_completed m \<le> im_attempted m"
  by (auto simp: normalize_meter_def split: option.splits if_splits)

subsection \<open>Journals\<close>

lemma journal_meter_safe:
  "operations_fit l m r xs \<Longrightarrow> limits_wf l \<Longrightarrow> safe_nat (im_attempted m) \<and> safe_nat (im_bytes m)"
  by (auto simp: operations_fit_def limits_wf_def limit_ok_def intro: safe_nat_le hard_limits(3,4) dest: order_trans)

lemma journal_read:
  assumes "journal_wf j" shows "normalize_journal (journal_value j) = Some j"
proof -
  note wf = assms[unfolded journal_wf_def]
  have meter: "normalize_meter (meter_value (wj_meter j)) = Some (wj_meter j)"
    using wf journal_meter_safe by (intro meter_read) blast+
  have limits: "normalize_limits (the (as_record (limits_value (wj_limits j)))) = Some (wj_limits j)"
    using wf by (intro limits_read) blast
  have ops: "normalize_operations 1 (map operation_value (wj_operations j)) = Some (wj_operations j)"
    using wf by (intro operations_read) blast
  have rev: "counter (counter_value (wj_revision j)) = Some (wj_revision j)"
    using wf hard_limits(7) safe_nat_le by (auto simp: counter_eq)
  obtain lf where lf: "limits_value (wj_limits j) = JObj lf" by (simp add: limits_value_def)
  have lk: "exact_fields lf limit_fields"
    using lf by (auto simp: limits_value_def exact_fields_def own_keys_def limit_fields_def)
  have hash: "as_string (case wj_hash j of Some h \<Rightarrow> JStr h | None \<Rightarrow> JNull) = wj_hash j"
    by (simp split: option.splits)
  have keys: "exact_fields (the (as_record (journal_value j))) journal_fields"
    by (simp add: journal_value_def payload_fields_def exact_fields_def own_keys_def journal_fields_def)
  obtain d ch sealed r l m xs h where j: "j = \<lparr>wj_delegation = d, wj_contract = ch, wj_sealed = sealed, wj_revision = r,
      wj_limits = l, wj_meter = m, wj_operations = xs, wj_hash = h\<rparr>" by (cases j)
  show ?thesis
    using wf meter limits ops rev lk hash keys lf unfolding j
    by (auto simp: normalize_journal_def journal_value_def payload_fields_def get_prop_def Let_def hash_field_def split: option.splits)
qed

lemma journal_sound: "normalize_journal v = Some j \<Longrightarrow> journal_wf j"
  unfolding normalize_journal_def journal_wf_def
  by (auto simp: Let_def hash_field_eq dest: limits_sound meter_sound operations_sound split: option.splits if_splits)

lemma journal_readable: "normalize_journal (journal_value j) = Some j \<longleftrightarrow> journal_wf j"
  using journal_read journal_sound by blast

end
