(* ===== verification/Change_Set.thy ===== *)
theory Change_Set
  imports Guard_Capture Journal_Reading
begin

section \<open>Change sets (core/change-set.ts)\<close>

text \<open>
  A change set attributes to a worker what its sealed journal, two workspace guards and one final identity
  per touched path agree on. The inputs are JSON values that are read strictly; the computation itself
  works on the records read. Errors come in the order of the source.
\<close>

subsection \<open>Records\<close>

datatype change_kind = Ch_new | Ch_modify | Ch_delete

primrec change_kind_text :: "change_kind \<Rightarrow> string" where
  "change_kind_text Ch_new = ''new''"
| "change_kind_text Ch_modify = ''modify''"
| "change_kind_text Ch_delete = ''delete''"

definition change_kinds :: "change_kind list" where "change_kinds = [Ch_new, Ch_modify, Ch_delete]"

interpretation change_kind: wire_enum change_kinds change_kind_text
  by unfold_locales (auto simp: change_kinds_def intro: change_kind.exhaust)

datatype drift_class = Drift_dependency | Drift_unknown

primrec drift_class_text :: "drift_class \<Rightarrow> string" where
  "drift_class_text Drift_dependency = ''dependency''"
| "drift_class_text Drift_unknown = ''unknown_origin''"

definition drift_classes :: "drift_class list" where "drift_classes = [Drift_dependency, Drift_unknown]"

interpretation drift_class: wire_enum drift_classes drift_class_text
  by unfold_locales (auto simp: drift_classes_def intro: drift_class.exhaust)

datatype conflict_reason = Final_mismatch | Guard_mismatch

primrec conflict_text :: "conflict_reason \<Rightarrow> string" where
  "conflict_text Final_mismatch = ''final_identity_mismatch''"
| "conflict_text Guard_mismatch = ''guard_identity_mismatch''"

definition conflict_reasons :: "conflict_reason list" where "conflict_reasons = [Final_mismatch, Guard_mismatch]"

interpretation conflict_reason: wire_enum conflict_reasons conflict_text
  by unfold_locales (auto simp: conflict_reasons_def intro: conflict_reason.exhaust)

datatype change_set_status = Cs_attributed | Cs_drift | Cs_conflict

primrec change_set_status_text :: "change_set_status \<Rightarrow> string" where
  "change_set_status_text Cs_attributed = ''ATTRIBUTED''"
| "change_set_status_text Cs_drift = ''WORKSPACE_DRIFT''"
| "change_set_status_text Cs_conflict = ''CONFLICT''"

definition change_statuses :: "change_set_status list" where "change_statuses = [Cs_attributed, Cs_drift, Cs_conflict]"

interpretation change_set_status: wire_enum change_statuses change_set_status_text
  by unfold_locales (auto simp: change_statuses_def intro: change_set_status.exhaust)

record attributed =
  at_path :: string
  at_change :: change_kind
  at_count :: nat
  at_before :: path_identity
  at_after :: path_identity

record drift_entry =
  dr_path :: string
  dr_class :: drift_class
  dr_before :: "guard_entry option"
  dr_after :: "guard_entry option"

record change_counts =
  cc_touched :: nat
  cc_attributed :: nat
  cc_zero :: nat
  cc_drift :: nat
  cc_dependency :: nat
  cc_unknown :: nat
  cc_conflict :: nat

record change_set =
  cs_delegation :: string
  cs_contract :: string
  cs_journal :: string
  cs_before :: string
  cs_after :: string
  cs_dependencies :: "string list"
  cs_status :: change_set_status
  cs_delta :: "attributed list"
  cs_drift :: "drift_entry list"
  cs_conflicts :: "(string \<times> conflict_reason) list"
  cs_meter :: id_meter
  cs_counts :: change_counts
  cs_delta_hash :: string
  cs_guard_hash :: string
  cs_hash :: string

datatype change_error =
  C_invalid_input | C_invalid_journal | C_invalid_guard | C_invalid_dependencies | C_invalid_finals | C_invalid_meter | C_limit_exceeded

definition max_change_paths :: nat where "max_change_paths = 500"

subsection \<open>Strict reading of the inputs\<close>

text \<open>\<open>validIdentity\<close>: as the journal reads one, with a strict path and the hard file bound.\<close>

definition strict_identity :: "jv \<Rightarrow> string \<Rightarrow> path_identity option" where
  "strict_identity v path =
     (case normalize_identity v path of None \<Rightarrow> None
      | Some i \<Rightarrow> if strict_identity_path path \<and> id_bytes i \<le> max_identity_file_bytes then Some i else None)"

definition strict_operation :: "jv \<Rightarrow> nat \<Rightarrow> journal_op option" where
  "strict_operation v n =
     (case as_record v of None \<Rightarrow> None
      | Some f \<Rightarrow>
          if \<not> exact_fields f completed_fields \<or> get_prop f ''sequence'' \<noteq> counter_value n \<or> get_prop f ''status'' \<noteq> JStr ''completed'' then None
          else (case (hash_field (get_prop f ''operation_id''), parse_enum write_kinds write_kind_text (get_prop f ''kind''),
                      as_string (get_prop f ''path''), parse_enum write_outcomes write_outcome_text (get_prop f ''outcome'')) of
              (Some i, Some k, Some p, Some outcome) \<Rightarrow>
                (case (strict_identity (get_prop f ''before'') p, strict_identity (get_prop f ''after'') p) of
                   (Some b, Some a) \<Rightarrow> Some \<lparr>jo_sequence = n, jo_id = i, jo_kind = k, jo_path = p, jo_before = b, jo_result = Some (a, outcome)\<rparr>
                 | _ \<Rightarrow> None)
            | _ \<Rightarrow> None))"

fun strict_operations :: "nat \<Rightarrow> jv list \<Rightarrow> journal_op list option" where
  "strict_operations n [] = Some []"
| "strict_operations n (v # vs) =
     (case (strict_operation v n, strict_operations (Suc n) vs) of (Some x, Some xs) \<Rightarrow> Some (x # xs) | _ \<Rightarrow> None)"

definition strict_limit :: "nat \<Rightarrow> jv \<Rightarrow> nat option" where
  "strict_limit hard v = (case counter v of Some n \<Rightarrow> if 1 \<le> n \<and> n \<le> hard then Some n else None | None \<Rightarrow> None)"

definition strict_limits :: "jv \<Rightarrow> journal_limits option" where
  "strict_limits v =
     (case as_record v of None \<Rightarrow> None
      | Some f \<Rightarrow>
          if \<not> exact_fields f limit_fields then None
          else (case (strict_limit max_journal_paths (get_prop f ''max_unique_paths''), strict_limit max_journal_operations (get_prop f ''max_operations''),
                      strict_limit max_identity_paths (get_prop f ''max_identity_paths'')) of
              (Some a, Some b, Some c) \<Rightarrow>
                (case (strict_limit max_identity_total_bytes (get_prop f ''max_total_bytes''), strict_limit max_identity_file_bytes (get_prop f ''max_file_bytes''),
                       strict_limit max_journal_bytes (get_prop f ''max_serialized_bytes'')) of
                   (Some d, Some e, Some s) \<Rightarrow>
                     Some \<lparr>jl_paths = a, jl_operations = b, jl_identities = c, jl_total = d, jl_file = e, jl_serialized = s\<rparr>
                 | _ \<Rightarrow> None)
            | _ \<Rightarrow> None))"

text \<open>
  The hash is taken over the value given: its limits and meter are spread, with the order of their fields,
  and its operations are cloned.
\<close>

definition given_journal_hash :: "fields \<Rightarrow> journal_op list \<Rightarrow> string option" where
  "given_journal_hash f xs = map_option sha256_hex (bounded_text max_journal_bytes (JObj
     (map (\<lambda>k. (k, get_prop f k)) [''schema_version'', ''delegation_id'', ''contract_hash'', ''state'', ''revision'', ''limits'', ''meter'']
      @ [(''operations'', JArr (map operation_value xs))])))"

definition strict_journal_fits :: "journal_limits \<Rightarrow> id_meter \<Rightarrow> nat \<Rightarrow> journal_op list \<Rightarrow> bool" where
  "strict_journal_fits l m revision xs =
     (revision \<le> max_journal_revision \<and> length xs \<le> jl_operations l \<and> im_attempted m \<le> jl_identities l \<and> im_bytes m \<le> jl_total l
      \<and> distinct (map jo_id xs) \<and> valid_chain Map.empty xs
      \<and> list_all (\<lambda>x. list_all (\<lambda>i. id_bytes i \<le> jl_file l) (op_identities x)) xs \<and> identity_bytes xs \<le> 9007199254740991
      \<and> card (set (map jo_path xs)) \<le> jl_paths l \<and> 2 * length xs \<le> im_completed m \<and> identity_bytes xs \<le> im_bytes m
      \<and> 2 * length xs + 1 \<le> revision)"

definition validate_strict_journal :: "jv \<Rightarrow> string \<Rightarrow> string \<Rightarrow> string \<Rightarrow> journal_op list option" where
  "validate_strict_journal v d ch jh =
     (case as_record v of None \<Rightarrow> None
      | Some f \<Rightarrow>
          if \<not> exact_fields f journal_fields \<or> get_prop f ''schema_version'' \<noteq> counter_value 2 \<or> get_prop f ''delegation_id'' \<noteq> JStr d
             \<or> get_prop f ''contract_hash'' \<noteq> JStr ch \<or> get_prop f ''state'' \<noteq> JStr ''SEALED'' \<or> get_prop f ''journal_hash'' \<noteq> JStr jh then None
          else (case (counter (get_prop f ''revision''), as_array (get_prop f ''operations''), strict_limits (get_prop f ''limits''),
                      normalize_meter (get_prop f ''meter'')) of
              (Some r, Some vs, Some l, Some m) \<Rightarrow>
                (case strict_operations 1 vs of None \<Rightarrow> None
                 | Some xs \<Rightarrow>
                     if strict_journal_fits l m r xs \<and> byte_length (pretty_line v) \<le> jl_serialized l \<and> given_journal_hash f xs = Some jh
                     then Some xs else None)
            | _ \<Rightarrow> None))"

definition strict_dependencies :: "jv \<Rightarrow> string list option" where
  "strict_dependencies v =
     (case read_list as_string v of None \<Rightarrow> None
      | Some ps \<Rightarrow> if length ps \<le> max_change_paths \<and> list_all strict_identity_path ps \<and> strictly_sorted ps then Some ps else None)"

fun strict_finals :: "string list \<Rightarrow> jv list \<Rightarrow> path_identity list option" where
  "strict_finals [] [] = Some []"
| "strict_finals (p # ps) (v # vs) =
     (case (strict_identity v p, strict_finals ps vs) of (Some i, Some is) \<Rightarrow> Some (i # is) | _ \<Rightarrow> None)"
| "strict_finals _ _ = None"

definition strict_meter :: "nat \<Rightarrow> path_identity list \<Rightarrow> jv \<Rightarrow> id_meter option" where
  "strict_meter n finals v =
     (case normalize_meter v of None \<Rightarrow> None
      | Some m \<Rightarrow>
          if im_attempted m = n \<and> im_completed m = n \<and> im_bytes m \<le> max_identity_total_bytes
             \<and> sum_list (map id_bytes finals) \<le> 9007199254740991 \<and> sum_list (map id_bytes finals) \<le> im_bytes m
          then Some m else None)"

subsection \<open>Comparisons\<close>

definition content_equal :: "path_identity \<Rightarrow> path_identity \<Rightarrow> bool" where
  "content_equal a b =
     (case (a, b) of
        (Missing_at p, Missing_at q) \<Rightarrow> True
      | (File_at p n h st, File_at q m k su) \<Rightarrow> n = m \<and> h = k
      | _ \<Rightarrow> False)"

definition guard_matches :: "guard_identity \<Rightarrow> path_identity \<Rightarrow> bool" where
  "guard_matches g i =
     (case i of
        Missing_at p \<Rightarrow> g = Guard_missing
      | File_at p n h st \<Rightarrow> g = Guard_present Gk_file n st)"

definition classify_change :: "path_identity \<Rightarrow> path_identity \<Rightarrow> change_kind" where
  "classify_change b a =
     (case b of Missing_at p \<Rightarrow> Ch_new
      | File_at p n h st \<Rightarrow> (case a of Missing_at q \<Rightarrow> Ch_delete | File_at q m k su \<Rightarrow> Ch_modify))"

text \<open>\<open>guardEntryEqual\<close> compares the serialised clones.\<close>

definition guard_entry_equal :: "guard_entry option \<Rightarrow> guard_entry option \<Rightarrow> bool" where
  "guard_entry_equal l r =
     (case (l, r) of
        (Some a, Some b) \<Rightarrow> print_value (guard_entry_value a) = print_value (guard_entry_value b)
      | _ \<Rightarrow> l = None \<and> r = None)"

subsection \<open>Hashes\<close>

primrec content_projection :: "path_identity \<Rightarrow> jv" where
  "content_projection (Missing_at p) = JObj [(''kind'', JStr ''missing'')]"
| "content_projection (File_at p n h st) = JObj [(''kind'', JStr ''file''), (''byte_size'', counter_value n), (''sha256'', JStr h)]"

definition conflict_value :: "string \<times> conflict_reason \<Rightarrow> jv" where
  "conflict_value c = JObj [(''path'', JStr (fst c)), (''reason'', JStr (conflict_text (snd c)))]"

definition delta_hash :: "attributed list \<Rightarrow> (string \<times> conflict_reason) list \<Rightarrow> string" where
  "delta_hash delta conflicts = sha256_hex (print_value (
     if conflicts \<noteq> []
     then JObj [(''schema_version'', counter_value 2), (''status'', JStr ''CONFLICT''), (''conflicts'', JArr (map conflict_value conflicts))]
     else JObj [(''schema_version'', counter_value 2), (''status'', JStr ''ATTRIBUTED''),
       (''entries'', JArr (map (\<lambda>e. JObj [(''path'', JStr (at_path e)), (''before'', content_projection (at_before e)),
                                   (''after'', content_projection (at_after e))]) delta))]))"

definition attributed_value :: "attributed \<Rightarrow> jv" where
  "attributed_value e = JObj [(''path'', JStr (at_path e)), (''change'', JStr (change_kind_text (at_change e))),
     (''operation_count'', counter_value (at_count e)), (''before'', path_identity_value (at_before e)), (''after'', path_identity_value (at_after e))]"

definition optional_entry_value :: "guard_entry option \<Rightarrow> jv" where
  "optional_entry_value x = (case x of None \<Rightarrow> JNull | Some e \<Rightarrow> guard_entry_value e)"

definition drift_value :: "drift_entry \<Rightarrow> jv" where
  "drift_value d = JObj [(''path'', JStr (dr_path d)), (''classification'', JStr (drift_class_text (dr_class d))),
     (''before'', optional_entry_value (dr_before d)), (''after'', optional_entry_value (dr_after d))]"

definition counts_value :: "change_counts \<Rightarrow> jv" where
  "counts_value c = JObj [(''touched_paths'', counter_value (cc_touched c)), (''attributed_paths'', counter_value (cc_attributed c)),
     (''zero_delta_paths'', counter_value (cc_zero c)), (''workspace_drift_paths'', counter_value (cc_drift c)),
     (''dependency_drift_paths'', counter_value (cc_dependency c)), (''unknown_origin_drift_paths'', counter_value (cc_unknown c)),
     (''conflict_paths'', counter_value (cc_conflict c))]"

definition change_set_fields :: "change_set \<Rightarrow> fields" where
  "change_set_fields c =
     [(''schema_version'', counter_value 2), (''delegation_id'', JStr (cs_delegation c)), (''contract_hash'', JStr (cs_contract c)),
      (''journal_hash'', JStr (cs_journal c)), (''before_workspace_guard_hash'', JStr (cs_before c)),
      (''after_workspace_guard_hash'', JStr (cs_after c)), (''dependency_paths'', JArr (map JStr (cs_dependencies c))),
      (''status'', JStr (change_set_status_text (cs_status c))), (''worker_delta'', JArr (map attributed_value (cs_delta c))),
      (''workspace_drift'', JArr (map drift_value (cs_drift c))), (''conflicts'', JArr (map conflict_value (cs_conflicts c))),
      (''finalization_meter'', meter_value (cs_meter c)), (''counts'', counts_value (cs_counts c)),
      (''worker_delta_hash'', JStr (cs_delta_hash c)), (''workspace_guard_hash'', JStr (cs_guard_hash c))]"

definition change_set_hash :: "change_set \<Rightarrow> string" where
  "change_set_hash c = sha256_hex (print_value (JObj (change_set_fields c)))"

definition change_set_value :: "change_set \<Rightarrow> jv" where
  "change_set_value c = JObj (change_set_fields c @ [(''change_set_hash'', JStr (cs_hash c))])"

subsection \<open>The computation\<close>

definition first_op :: "journal_op list \<Rightarrow> string \<Rightarrow> journal_op option" where
  "first_op xs p = find (\<lambda>x. jo_path x = p) xs"

definition last_op :: "journal_op list \<Rightarrow> string \<Rightarrow> journal_op option" where
  "last_op xs p = find (\<lambda>x. jo_path x = p) (rev xs)"

definition op_count :: "journal_op list \<Rightarrow> string \<Rightarrow> nat" where
  "op_count xs p = length (filter (\<lambda>x. jo_path x = p) xs)"

definition first_before :: "journal_op list \<Rightarrow> string \<Rightarrow> path_identity" where
  "first_before xs p = (case first_op xs p of Some x \<Rightarrow> jo_before x | None \<Rightarrow> Missing_at p)"

definition last_after :: "journal_op list \<Rightarrow> string \<Rightarrow> path_identity option" where
  "last_after xs p = (case last_op xs p of Some x \<Rightarrow> map_option fst (jo_result x) | None \<Rightarrow> None)"

definition touched_change_paths :: "journal_op list \<Rightarrow> string list" where
  "touched_change_paths xs = sort (remdups (map jo_path xs))"

definition guard_at :: "guard \<Rightarrow> string \<Rightarrow> guard_entry option" where
  "guard_at g = map_of (rev (map (\<lambda>e. (we_path e, e)) (gd_entries g)))"

definition entry_matches :: "guard_entry option \<Rightarrow> path_identity \<Rightarrow> bool" where
  "entry_matches x i = (case x of None \<Rightarrow> True | Some e \<Rightarrow> guard_matches (we_identity e) i)"

definition path_conflict :: "journal_op list \<Rightarrow> guard \<Rightarrow> guard \<Rightarrow> string \<Rightarrow> path_identity \<Rightarrow> conflict_reason option" where
  "path_conflict xs bg ag p final =
     (if last_after xs p \<noteq> Some final then Some Final_mismatch
      else if \<not> entry_matches (guard_at bg p) (first_before xs p) \<or> \<not> entry_matches (guard_at ag p) final then Some Guard_mismatch
      else None)"

definition change_conflicts :: "journal_op list \<Rightarrow> guard \<Rightarrow> guard \<Rightarrow> (string \<times> path_identity) list \<Rightarrow> (string \<times> conflict_reason) list" where
  "change_conflicts xs bg ag finals =
     List.map_filter (\<lambda>(p, i). map_option (Pair p) (path_conflict xs bg ag p i)) finals"

definition guard_paths :: "guard \<Rightarrow> guard \<Rightarrow> string list" where
  "guard_paths bg ag = sort (remdups (map we_path (gd_entries bg) @ map we_path (gd_entries ag)))"

definition workspace_drift :: "string list \<Rightarrow> string list \<Rightarrow> guard \<Rightarrow> guard \<Rightarrow> drift_entry list" where
  "workspace_drift deps touched bg ag =
     map (\<lambda>p. \<lparr>dr_path = p, dr_class = (if p \<in> set deps then Drift_dependency else Drift_unknown),
               dr_before = guard_at bg p, dr_after = guard_at ag p\<rparr>)
       (filter (\<lambda>p. p \<notin> set touched \<and> \<not> guard_entry_equal (guard_at bg p) (guard_at ag p)) (guard_paths bg ag))"

definition worker_delta :: "journal_op list \<Rightarrow> (string \<times> path_identity) list \<Rightarrow> attributed list" where
  "worker_delta xs finals =
     map (\<lambda>(p, a). \<lparr>at_path = p, at_change = classify_change (first_before xs p) a, at_count = op_count xs p,
                    at_before = first_before xs p, at_after = a\<rparr>)
       (filter (\<lambda>(p, a). \<not> content_equal (first_before xs p) a) finals)"

definition dependency_drift :: "drift_entry list \<Rightarrow> nat" where
  "dependency_drift ds = length (filter (\<lambda>d. dr_class d = Drift_dependency) ds)"

definition attribute_changes ::
  "string \<Rightarrow> string \<Rightarrow> string \<Rightarrow> journal_op list \<Rightarrow> guard \<Rightarrow> guard \<Rightarrow> string list \<Rightarrow> path_identity list \<Rightarrow> id_meter \<Rightarrow> change_error + change_set" where
  "attribute_changes d ch jh xs bg ag deps finals m =
     (let touched = touched_change_paths xs; pairs = zip touched finals;
          conflicts = change_conflicts xs bg ag pairs;
          drift = workspace_drift deps touched bg ag
      in if length drift > max_change_paths then Inl C_limit_exceeded
         else let delta = (if conflicts = [] then worker_delta xs pairs else []);
                  c = \<lparr>cs_delegation = d, cs_contract = ch, cs_journal = jh, cs_before = gd_hash bg, cs_after = gd_hash ag,
                       cs_dependencies = deps,
                       cs_status = (if conflicts \<noteq> [] then Cs_conflict else if drift \<noteq> [] then Cs_drift else Cs_attributed),
                       cs_delta = delta, cs_drift = drift, cs_conflicts = conflicts, cs_meter = m,
                       cs_counts = \<lparr>cc_touched = length touched, cc_attributed = length delta,
                         cc_zero = (if conflicts = [] then length touched - length delta else 0), cc_drift = length drift,
                         cc_dependency = dependency_drift drift, cc_unknown = length drift - dependency_drift drift,
                         cc_conflict = length conflicts\<rparr>,
                       cs_delta_hash = delta_hash delta conflicts, cs_guard_hash = gd_hash ag, cs_hash = []\<rparr>
              in Inr (c\<lparr>cs_hash := change_set_hash c\<rparr>))"

definition change_input_fields :: "string list" where
  "change_input_fields = [''delegation_id'', ''contract_hash'', ''journal_hash'', ''journal'', ''before_guard'', ''after_guard'',
     ''dependency_paths'', ''final_identities'', ''finalization_meter'']"

text \<open>What precedes the finals: the identifiers, the journal, the guards, the dependencies.\<close>

definition change_facts ::
  "string \<Rightarrow> fields \<Rightarrow> change_error + (string \<times> string \<times> string) \<times> journal_op list \<times> (guard \<times> guard) \<times> string list" where
  "change_facts cfg f =
     (case (as_string (get_prop f ''delegation_id''), hash_field (get_prop f ''contract_hash''), hash_field (get_prop f ''journal_hash'')) of
        (Some d, Some ch, Some jh) \<Rightarrow>
          if \<not> exact_fields f change_input_fields \<or> \<not> transaction_id_re d then Inl C_invalid_input
          else (case validate_strict_journal (get_prop f ''journal'') d ch jh of None \<Rightarrow> Inl C_invalid_journal
            | Some xs \<Rightarrow>
                (case (validate_guard cfg JUndef (get_prop f ''before_guard''), validate_guard cfg JUndef (get_prop f ''after_guard'')) of
                   (Some bg, Some ag) \<Rightarrow>
                     if gd_head bg \<noteq> gd_head ag then Inl C_invalid_guard
                     else (case strict_dependencies (get_prop f ''dependency_paths'') of None \<Rightarrow> Inl C_invalid_dependencies
                       | Some deps \<Rightarrow> Inr ((d, ch, jh), xs, (bg, ag), deps))
                 | _ \<Rightarrow> Inl C_invalid_guard))
      | _ \<Rightarrow> Inl C_invalid_input)"

definition compute_change_set :: "string \<Rightarrow> jv \<Rightarrow> change_error + change_set" where
  "compute_change_set cfg v =
     (case as_record v of None \<Rightarrow> Inl C_invalid_input
      | Some f \<Rightarrow>
          (case change_facts cfg f of Inl e \<Rightarrow> Inl e
           | Inr ((d, ch, jh), xs, (bg, ag), deps) \<Rightarrow>
               let touched = touched_change_paths xs
               in if length touched > max_change_paths then Inl C_limit_exceeded
                  else (case as_array (get_prop f ''final_identities'') of None \<Rightarrow> Inl C_invalid_finals
                    | Some vs \<Rightarrow>
                        (case strict_finals touched vs of None \<Rightarrow> Inl C_invalid_finals
                         | Some finals \<Rightarrow>
                             (case strict_meter (length touched) finals (get_prop f ''finalization_meter'') of None \<Rightarrow> Inl C_invalid_meter
                              | Some m \<Rightarrow> attribute_changes d ch jh xs bg ag deps finals m)))))"

end
