(* ===== verification/Change_Finalizer.thy ===== *)
theory Change_Finalizer
  imports Change_Set
begin

section \<open>Persisted change sets and the finalizer (core/change-set.ts, core/change-set-finalizer.ts)\<close>

text \<open>
  The strict validator of a stored change set, and the boundary that captures the final identities of the
  touched paths once and hands them to the pure computation.
\<close>

subsection \<open>The validator\<close>

definition read_attributed :: "jv \<Rightarrow> attributed option" where
  "read_attributed v =
     (case as_record v of None \<Rightarrow> None
      | Some f \<Rightarrow>
          if \<not> exact_fields f [''path'', ''change'', ''operation_count'', ''before'', ''after''] then None
          else (case (as_string (get_prop f ''path''), parse_enum change_kinds change_kind_text (get_prop f ''change''),
                      counter (get_prop f ''operation_count'')) of
              (Some p, Some k, Some n) \<Rightarrow>
                (case (strict_identity (get_prop f ''before'') p, strict_identity (get_prop f ''after'') p) of
                   (Some b, Some a) \<Rightarrow>
                     if 1 \<le> n \<and> \<not> content_equal b a \<and> classify_change b a = k
                     then Some \<lparr>at_path = p, at_change = k, at_count = n, at_before = b, at_after = a\<rparr> else None
                 | _ \<Rightarrow> None)
            | _ \<Rightarrow> None))"

definition read_optional_entry :: "jv \<Rightarrow> string \<Rightarrow> guard_entry option option" where
  "read_optional_entry v p =
     (if v = JNull then Some None
      else case read_guard_entry v of Some e \<Rightarrow> if we_path e = p then Some (Some e) else None | None \<Rightarrow> None)"

definition read_drift :: "jv \<Rightarrow> drift_entry option" where
  "read_drift v =
     (case as_record v of None \<Rightarrow> None
      | Some f \<Rightarrow>
          if \<not> exact_fields f [''path'', ''classification'', ''before'', ''after''] then None
          else (case (as_string (get_prop f ''path''), parse_enum drift_classes drift_class_text (get_prop f ''classification'')) of
              (Some p, Some k) \<Rightarrow>
                (case (read_optional_entry (get_prop f ''before'') p, read_optional_entry (get_prop f ''after'') p) of
                   (Some b, Some a) \<Rightarrow>
                     if strict_guard_path p \<and> \<not> guard_entry_equal b a
                     then Some \<lparr>dr_path = p, dr_class = k, dr_before = b, dr_after = a\<rparr> else None
                 | _ \<Rightarrow> None)
            | _ \<Rightarrow> None))"

definition read_conflict :: "jv \<Rightarrow> (string \<times> conflict_reason) option" where
  "read_conflict v =
     (case as_record v of None \<Rightarrow> None
      | Some f \<Rightarrow>
          if \<not> exact_fields f [''path'', ''reason''] then None
          else (case (as_string (get_prop f ''path''), parse_enum conflict_reasons conflict_text (get_prop f ''reason'')) of
              (Some p, Some r) \<Rightarrow> if strict_identity_path p then Some (p, r) else None
            | _ \<Rightarrow> None))"

definition counts_fields :: "string list" where
  "counts_fields = [''touched_paths'', ''attributed_paths'', ''zero_delta_paths'', ''workspace_drift_paths'', ''dependency_drift_paths'',
     ''unknown_origin_drift_paths'', ''conflict_paths'']"

definition read_counts :: "jv \<Rightarrow> change_counts option" where
  "read_counts v =
     (case as_record v of None \<Rightarrow> None
      | Some f \<Rightarrow>
          if \<not> exact_fields f counts_fields then None
          else (case (counter (get_prop f ''touched_paths''), counter (get_prop f ''attributed_paths''), counter (get_prop f ''zero_delta_paths''),
                      counter (get_prop f ''workspace_drift_paths'')) of
              (Some a, Some b, Some c, Some d) \<Rightarrow>
                (case (counter (get_prop f ''dependency_drift_paths''), counter (get_prop f ''unknown_origin_drift_paths''),
                       counter (get_prop f ''conflict_paths'')) of
                   (Some e, Some g, Some h) \<Rightarrow>
                     Some \<lparr>cc_touched = a, cc_attributed = b, cc_zero = c, cc_drift = d, cc_dependency = e, cc_unknown = g, cc_conflict = h\<rparr>
                 | _ \<Rightarrow> None)
            | _ \<Rightarrow> None))"

definition change_set_ok :: "change_set \<Rightarrow> bool" where
  "change_set_ok c =
     (let deltas = map at_path (cs_delta c); drifts = map dr_path (cs_drift c); conflicts = map fst (cs_conflicts c);
          recorded = sum_list (map (id_bytes \<circ> at_after) (cs_delta c)); k = cs_counts c; m = cs_meter c
      in transaction_id_re (cs_delegation c) \<and> hash_re (cs_contract c) \<and> hash_re (cs_journal c) \<and> hash_re (cs_before c) \<and> hash_re (cs_after c)
         \<and> cs_guard_hash c = cs_after c \<and> hash_re (cs_delta_hash c) \<and> hash_re (cs_hash c)
         \<and> length deltas \<le> max_change_paths \<and> length drifts \<le> max_change_paths \<and> length conflicts \<le> max_change_paths
         \<and> strictly_sorted deltas \<and> recorded \<le> 9007199254740991
         \<and> strictly_sorted drifts \<and> set drifts \<inter> set deltas = {}
         \<and> list_all (\<lambda>d. (dr_path d \<in> set (cs_dependencies c)) = (dr_class d = Drift_dependency)) (cs_drift c)
         \<and> strictly_sorted conflicts \<and> set conflicts \<inter> set deltas = {} \<and> set conflicts \<inter> set drifts = {}
         \<and> im_completed m = im_attempted m \<and> im_attempted m \<le> max_identity_paths \<and> im_bytes m \<le> max_identity_total_bytes
         \<and> cc_touched k = im_attempted m \<and> cc_attributed k = length deltas \<and> cc_drift k = length drifts
         \<and> cc_dependency k = dependency_drift (cs_drift c) \<and> cc_unknown k = length drifts - dependency_drift (cs_drift c)
         \<and> cc_conflict k = length conflicts \<and> recorded \<le> im_bytes m
         \<and> (if cs_status c = Cs_conflict then conflicts \<noteq> [] \<and> deltas = [] \<and> cc_zero k = 0
            else conflicts = [] \<and> int (cc_zero k) = int (cc_touched k) - int (length deltas)
                 \<and> (if cs_status c = Cs_attributed then drifts = [] else drifts \<noteq> []))
         \<and> cs_delta_hash c = delta_hash (cs_delta c) (cs_conflicts c) \<and> cs_hash c = change_set_hash c)"

definition change_set_keys :: "string list" where
  "change_set_keys = [''schema_version'', ''delegation_id'', ''contract_hash'', ''journal_hash'', ''before_workspace_guard_hash'',
     ''after_workspace_guard_hash'', ''dependency_paths'', ''status'', ''worker_delta'', ''workspace_drift'', ''conflicts'',
     ''finalization_meter'', ''counts'', ''worker_delta_hash'', ''workspace_guard_hash'', ''change_set_hash'']"

definition validate_change_set :: "jv \<Rightarrow> change_set option" where
  "validate_change_set v =
     (case as_record v of None \<Rightarrow> None
      | Some f \<Rightarrow>
          if \<not> exact_fields f change_set_keys \<or> get_prop f ''schema_version'' \<noteq> counter_value 2 then None
          else (case (as_string (get_prop f ''delegation_id''), as_string (get_prop f ''contract_hash''), as_string (get_prop f ''journal_hash''),
                      as_string (get_prop f ''before_workspace_guard_hash''), as_string (get_prop f ''after_workspace_guard_hash'')) of
              (Some d, Some ch, Some jh, Some b, Some a) \<Rightarrow>
                (case (as_string (get_prop f ''worker_delta_hash''), as_string (get_prop f ''workspace_guard_hash''), as_string (get_prop f ''change_set_hash''),
                       strict_dependencies (get_prop f ''dependency_paths''), parse_enum change_statuses change_set_status_text (get_prop f ''status'')) of
                   (Some dh, Some gh, Some h, Some deps, Some st) \<Rightarrow>
                     (case (read_list read_attributed (get_prop f ''worker_delta''), read_list read_drift (get_prop f ''workspace_drift''),
                            read_list read_conflict (get_prop f ''conflicts''), normalize_meter (get_prop f ''finalization_meter''),
                            read_counts (get_prop f ''counts'')) of
                        (Some delta, Some drift, Some conflicts, Some m, Some k) \<Rightarrow>
                          let c = \<lparr>cs_delegation = d, cs_contract = ch, cs_journal = jh, cs_before = b, cs_after = a, cs_dependencies = deps,
                                   cs_status = st, cs_delta = delta, cs_drift = drift, cs_conflicts = conflicts, cs_meter = m, cs_counts = k,
                                   cs_delta_hash = dh, cs_guard_hash = gh, cs_hash = h\<rparr>
                          in if change_set_ok c then Some c else None
                      | _ \<Rightarrow> None)
                 | _ \<Rightarrow> None)
            | _ \<Rightarrow> None))"

subsection \<open>The finalizer\<close>

datatype finalize_error =
  F_invalid_input | F_invalid_journal | F_invalid_guard | F_invalid_dependencies | F_identity_failure identity_error | F_limit_exceeded "identity_error option"

definition map_pure_failure :: "change_error \<Rightarrow> finalize_error" where
  "map_pure_failure e =
     (case e of C_invalid_journal \<Rightarrow> F_invalid_journal | C_invalid_guard \<Rightarrow> F_invalid_guard | C_invalid_dependencies \<Rightarrow> F_invalid_dependencies
      | C_limit_exceeded \<Rightarrow> F_limit_exceeded None | _ \<Rightarrow> F_invalid_input)"

definition finalizer_limits :: "jv \<Rightarrow> id_limits option" where
  "finalizer_limits v =
     (case (if v = JUndef then Some [] else as_record v) of None \<Rightarrow> None
      | Some f \<Rightarrow>
          if \<not> set (own_keys f) \<subseteq> {''max_paths'', ''max_file_bytes'', ''max_total_bytes''} then None
          else (case (read_limit max_identity_paths (get_prop f ''max_paths''), read_limit max_identity_file_bytes (get_prop f ''max_file_bytes''),
                      read_limit max_identity_total_bytes (get_prop f ''max_total_bytes'')) of
              (Some a, Some b, Some c) \<Rightarrow> Some \<lparr>il_paths = a, il_total = c, il_file = b\<rparr>
            | _ \<Rightarrow> None))"

definition finalize_fields :: "string list" where
  "finalize_fields = [''project_root'', ''delegation_id'', ''contract_hash'', ''journal_hash'', ''journal'', ''before_guard'', ''after_guard'', ''dependency_paths'']"

definition pure_input :: "fields \<Rightarrow> path_identity list \<Rightarrow> id_meter \<Rightarrow> jv" where
  "pure_input f finals m = JObj
     (map (\<lambda>k. (k, get_prop f k)) [''delegation_id'', ''contract_hash'', ''journal_hash'', ''journal'', ''before_guard'', ''after_guard'', ''dependency_paths'']
      @ [(''final_identities'', JArr (map path_identity_value finals)), (''finalization_meter'', meter_value m)])"

text \<open>\<open>new Set(input.journal.operations.map((operation) => operation.path))\<close> of a journal the computation has accepted.\<close>

definition journal_paths :: "fields \<Rightarrow> string list" where
  "journal_paths f =
     (case as_record (get_prop f ''journal'') of None \<Rightarrow> []
      | Some jf \<Rightarrow> (case as_array (get_prop jf ''operations'') of None \<Rightarrow> []
          | Some vs \<Rightarrow> List.map_filter (\<lambda>v. case as_record v of Some xf \<Rightarrow> as_string (get_prop xf ''path'') | None \<Rightarrow> None) vs))"

definition overflow_error :: "identity_error \<Rightarrow> bool" where
  "overflow_error e = (e \<in> {Id_path_count_overflow, Id_file_bytes_overflow, Id_total_bytes_overflow})"

definition finalize_change_set :: "string \<Rightarrow> identity_io \<Rightarrow> string \<Rightarrow> jv \<Rightarrow> jv \<Rightarrow> finalize_error + change_set" where
  "finalize_change_set cfg io root_abs limits v =
     (case as_record v of None \<Rightarrow> Inl F_invalid_input
      | Some f \<Rightarrow>
          if \<not> exact_fields f finalize_fields \<or> as_string (get_prop f ''project_root'') \<in> {None, Some []} then Inl F_invalid_input
          else (case finalizer_limits limits of None \<Rightarrow> Inl F_invalid_input
            | Some l \<Rightarrow>
                (case compute_change_set cfg (pure_input f [] zero_meter) of
                   Inr c \<Rightarrow> Inr c
                 | Inl e \<Rightarrow>
                     if e \<noteq> C_invalid_finals \<and> e \<noteq> C_invalid_meter then Inl (map_pure_failure e)
                     else let touched = sort (remdups (journal_paths f))
                          in if length touched > il_paths l then Inl (F_limit_exceeded None)
                             else (case capture_identities io root_abs (Some l) zero_meter touched of
                                 (Inl (ie, _), m) \<Rightarrow> Inl (if overflow_error ie then F_limit_exceeded (Some ie) else F_identity_failure ie)
                               | (Inr finals, m) \<Rightarrow>
                                   (case compute_change_set cfg (pure_input f finals m) of
                                      Inr c \<Rightarrow> Inr c
                                    | Inl e2 \<Rightarrow> Inl (map_pure_failure e2))))))"

end
