(* ===== verification/Journal_Safety.thy ===== *)
theory Journal_Safety
  imports Journal_Reading
begin

section \<open>Every change of a journal is well formed\<close>

text \<open>
  A captured identity is well formed and paid for by the meter; with it every operation of the journal
  keeps \<open>journal_wf\<close>. The check before a publication therefore never refuses, and every journal that is
  ever stored is read back as it was written.
\<close>

subsection \<open>Captured identities\<close>

lemma bytes_hash_re [simp]: "hash_re (sha256_hex_bytes bs)"
proof -
  have "length (concat (map hex_word (sha256 bs))) = 8 * length (sha256 bs)"
    by (rule length_concat_const) (simp add: hex_word_def)
  moreover have "list_all is_lower_hex (concat (map hex_word (sha256 bs)))"
    using hex_word_lower by (auto simp: list_all_iff)
  ultimately show ?thesis by (simp add: hash_re_def sha256_hex_bytes_def)
qed

lemma nat_text_first: "0 < n \<Longrightarrow> hd (nat_text n) \<noteq> CHR ''0''"
proof (induction n rule: nat_text.induct)
  case (1 n)
  show ?case
  proof (cases "n < 10")
    case True
    have "code_of (char_of (48 + n)) \<noteq> code_of (CHR ''0'')" using 1(2) True by simp
    then have "char_of (48 + n) \<noteq> CHR ''0''" by metis
    then show ?thesis using True by (subst nat_text.simps) simp
  next
    case False
    then have "hd (nat_text (n div 10)) \<noteq> CHR ''0''" using 1 by simp
    then show ?thesis using False by (subst nat_text.simps) simp
  qed
qed

lemma decimal_of_nat_text: "decimal_re (nat_text n)"
proof (cases "n = 0")
  case True
  have "nat_text 0 = ''0''" by code_simp
  with True show ?thesis by (simp add: decimal_re_def)
next
  case False
  then show ?thesis using nat_text_first[of n] nat_text_digits[of n] by (simp add: decimal_re_def)
qed

lemma held_still_wf: "held_still io root_abs root i \<Longrightarrow> identity_wf i"
proof (cases i)
  case (File_at p n h st)
  assume "held_still io root_abs root i"
  with File_at obtain t content where "safe_byte_size t = Some n" "normalized_stat t = Some st" "h = sha256_hex_bytes content"
    by (auto simp: held_still_def)
  then show ?thesis using File_at
    by (auto simp: safe_byte_size_def normalized_stat_def int_text_def stat_wf_def safe_nat_def max_safe_integer_def decimal_of_nat_text
        split: if_splits)
qed simp

definition journal_id_limits :: "journal \<Rightarrow> id_limits" where
  "journal_id_limits j = \<lparr>il_paths = jl_identities (wj_limits j), il_total = jl_total (wj_limits j), il_file = jl_file (wj_limits j)\<rparr>"

lemma journal_limits_normal:
  assumes "journal_wf j"
  shows "normalize_id_limits (Some (int (jl_identities (wj_limits j)))) (Some (int (jl_total (wj_limits j)))) (Some (int (jl_file (wj_limits j))))
    = Some (journal_id_limits j)"
  using assms by (simp add: journal_wf_def limits_wf_def limit_ok_def normalize_id_limits_def limit_within_def journal_id_limits_def)

lemma journal_meter:
  assumes "journal_wf j"
  shows "meter_wf (wj_meter j)" "meter_fits (journal_id_limits j) (wj_meter j)"
proof -
  have "operations_fit (wj_limits j) (wj_meter j) (wj_revision j) (wj_operations j)" "limits_wf (wj_limits j)"
    "im_completed (wj_meter j) \<le> im_attempted (wj_meter j)"
    using assms by (simp_all add: journal_wf_def)
  moreover from journal_meter_safe[OF this(1,2)] have "int (im_attempted (wj_meter j)) \<le> 9007199254740991" "int (im_bytes (wj_meter j)) \<le> 9007199254740991"
    by (simp_all add: safe_nat_def max_safe_integer_def)
  ultimately show "meter_wf (wj_meter j)" "meter_fits (journal_id_limits j) (wj_meter j)"
    by (simp_all add: meter_wf_def meter_fits_def journal_id_limits_def operations_fit_def)
qed

lemma journal_capture:
  assumes "capture_path io root j path = (r, m')" "journal_wf j"
  shows "meter_fits (journal_id_limits j) m'"
    "im_completed (wj_meter j) \<le> im_completed m' \<and> im_bytes (wj_meter j) \<le> im_bytes m'"
    "r = Inr ids \<Longrightarrow> \<exists>i. ids = [i] \<and> id_path i = path \<and> identity_wf i \<and> id_bytes i \<le> jl_file (wj_limits j) \<and> strict_identity_path path
       \<and> im_completed m' = Suc (im_completed (wj_meter j)) \<and> im_bytes m' = im_bytes (wj_meter j) + id_bytes i"
proof -
  note c = assms(1)[unfolded capture_path_def journal_limits_normal[OF assms(2)]]
  note facts = capture_identities_facts[OF c journal_meter(1)[OF assms(2)]]
  show "meter_fits (journal_id_limits j) m'" by (rule facts(2)[OF journal_meter(2)[OF assms(2)]])
  show "im_completed (wj_meter j) \<le> im_completed m' \<and> im_bytes (wj_meter j) \<le> im_bytes m'" using facts(1) by blast
  assume "r = Inr ids"
  from facts(3)[OF this] obtain rt where rt: "map id_path ids = [path]" "strict_identity_path path" "list_all (held_still io root rt) ids"
    "list_all (\<lambda>i. id_bytes i \<le> il_file (journal_id_limits j)) ids"
    "m' = \<lparr>im_attempted = im_attempted (wj_meter j) + 1, im_completed = im_completed (wj_meter j) + 1,
             im_bytes = im_bytes (wj_meter j) + sum_list (map id_bytes ids)\<rparr>"
    by auto
  from rt(1) obtain i where i: "ids = [i]" "id_path i = path" by auto
  with rt show "\<exists>i. ids = [i] \<and> id_path i = path \<and> identity_wf i \<and> id_bytes i \<le> jl_file (wj_limits j) \<and> strict_identity_path path
       \<and> im_completed m' = Suc (im_completed (wj_meter j)) \<and> im_bytes m' = im_bytes (wj_meter j) + id_bytes i"
    by (intro exI[of _ i]) (auto simp: journal_id_limits_def dest: held_still_wf)
qed

subsection \<open>The chain of identities\<close>

definition known_after :: "(string \<Rightarrow> path_identity option) \<Rightarrow> journal_op list \<Rightarrow> string \<Rightarrow> path_identity option" where
  "known_after known xs = foldl (\<lambda>k x. case jo_result x of Some (a, _) \<Rightarrow> k(jo_path x \<mapsto> a) | None \<Rightarrow> k) known xs"

lemma valid_chain_append:
  "valid_chain known (xs @ ys) = (valid_chain known xs \<and> valid_chain (known_after known xs) ys)"
  by (induction xs arbitrary: known) (simp_all add: known_after_def)

lemma last_identity_snoc:
  "last_identity (xs @ [x]) p = (if jo_path x = p then Some (map_option fst (jo_result x)) else last_identity xs p)"
  by (simp add: last_identity_def)

lemma known_after_last: "list_all op_done xs \<Longrightarrow> known_after Map.empty xs p = (case last_identity xs p of None \<Rightarrow> None | Some r \<Rightarrow> r)"
proof (induction xs rule: rev_induct)
  case Nil
  then show ?case by (simp add: known_after_def last_identity_def)
next
  case (snoc x xs)
  from snoc(2) obtain a w where a: "jo_result x = Some (a, w)" by (auto simp: op_done_def)
  have "known_after Map.empty (xs @ [x]) = (known_after Map.empty xs)(jo_path x \<mapsto> a)"
    by (simp add: known_after_def a)
  with snoc a show ?case by (simp add: last_identity_snoc)
qed

subsection \<open>Lists of operations\<close>

lemma ops_wf_append: "ops_wf n (xs @ ys) = (ops_wf n xs \<and> ops_wf (n + length xs) ys)"
  by (induction xs arbitrary: n) simp_all

lemma identity_bytes_append: "identity_bytes (xs @ ys) = identity_bytes xs + identity_bytes ys"
  by (simp add: identity_bytes_def)

lemma captures_append: "captures (xs @ ys) = captures xs + captures ys"
  by (simp add: captures_def)

lemma not_list_ex: "\<not> list_ex (\<lambda>x. \<not> P x \<or> Q x) xs \<longleftrightarrow> list_all P xs \<and> (\<forall>x\<in>set xs. \<not> Q x)"
  by (auto simp: list_ex_iff list_all_iff)

lemma operations_fit_meter:
  assumes "operations_fit l m r xs" "im_attempted m' \<le> jl_identities l" "im_bytes m' \<le> jl_total l"
    "im_completed m \<le> im_completed m'" "im_bytes m \<le> im_bytes m'" "r \<le> r'"
  shows "operations_fit l m' r' xs"
  using assms by (auto simp: operations_fit_def)

subsection \<open>Each operation\<close>

lemma meter_change_wf:
  assumes "journal_wf j" "meter_change j m e = Change j' a" "meter_fits (journal_id_limits j) m"
    "im_completed (wj_meter j) \<le> im_completed m \<and> im_bytes (wj_meter j) \<le> im_bytes m" "\<not> wj_sealed j"
  shows "journal_wf j'"
proof -
  from assms(2) have j': "j' = j\<lparr>wj_revision := wj_revision j + 1, wj_meter := m\<rparr>" and r: "wj_revision j < max_journal_revision"
    by (auto simp: meter_change_def split: if_splits)
  note wf = assms(1)[unfolded journal_wf_def]
  have m: "im_attempted m \<le> jl_identities (wj_limits j)" "im_bytes m \<le> jl_total (wj_limits j)" "im_completed m \<le> im_attempted m"
    using assms(3) by (simp_all add: meter_fits_def journal_id_limits_def)
  have "operations_fit (wj_limits j) (wj_meter j) (wj_revision j) (wj_operations j)" using wf by blast
  then have "operations_fit (wj_limits j) m (wj_revision j + 1) (wj_operations j)"
    by (rule operations_fit_meter) (use m assms(4) in simp_all)
  then show ?thesis using wf m r assms(5) by (simp add: j' journal_wf_def seal_ok_def)
qed

text \<open>The guards an operation has passed when it changes the journal.\<close>

lemma begin_refusal_None:
  assumes "begin_refusal j inp = None"
  shows "input_error inp = None" "\<not> wj_sealed j" "list_all op_done (wj_operations j)" "ji_op inp \<notin> jo_id ` set (wj_operations j)"
    "length (wj_operations j) < jl_operations (wj_limits j)" "wj_revision j < max_journal_revision"
    "ji_path inp \<notin> set (map jo_path (wj_operations j)) \<Longrightarrow> card (set (map jo_path (wj_operations j))) < jl_paths (wj_limits j)"
  using assms unfolding begin_refusal_def Let_def not_list_ex by (auto simp: list_ex_iff list_all_iff split: if_splits)

lemma begin_change_guards: "begin_change io root j inp = Change j' a \<Longrightarrow> begin_refusal j inp = None"
  by (simp add: begin_change_def split: option.splits)

definition begun_op :: "journal \<Rightarrow> journal_input \<Rightarrow> path_identity \<Rightarrow> journal_op" where
  "begun_op j inp i = \<lparr>jo_sequence = length (wj_operations j) + 1, jo_id = ji_op inp, jo_kind = ji_kind inp, jo_path = ji_path inp,
     jo_before = i, jo_result = None\<rparr>"

lemma begin_change_outcome:
  assumes "begin_change io root j inp = Change j' a" "capture_path io root j (ji_path inp) = (r, m)"
  shows "case r of Inl (e, q) \<Rightarrow> meter_change j m e = Change j' a
    | Inr ids \<Rightarrow> meter_change j m Id_unstable = Change j' a
        \<or> (j' = j\<lparr>wj_revision := wj_revision j + 1, wj_meter := m, wj_operations := wj_operations j @ [begun_op j inp (hd ids)]\<rparr>
             \<and> (case last_identity (wj_operations j) (ji_path inp) of None \<Rightarrow> True | Some known \<Rightarrow> known = Some (hd ids)))"
  using assms by (auto simp: begin_change_def begun_op_def Let_def split: option.splits if_splits sum.splits)

lemma operations_fit_begun:
  assumes fit: "operations_fit l m r xs" and closed: "list_all op_done xs" and fresh: "jo_id x \<notin> jo_id ` set xs"
    and room: "length xs < jl_operations l" "jo_path x \<notin> set (map jo_path xs) \<Longrightarrow> card (set (map jo_path xs)) < jl_paths l"
    and x: "jo_result x = None" "id_bytes (jo_before x) \<le> jl_file l"
    and known: "case last_identity xs (jo_path x) of None \<Rightarrow> True | Some known \<Rightarrow> known = Some (jo_before x)"
    and m': "im_attempted m' \<le> jl_identities l" "im_bytes m' \<le> jl_total l" "im_bytes m' \<le> 9007199254740991"
      "im_completed m' = Suc (im_completed m)" "im_bytes m' = im_bytes m + id_bytes (jo_before x)"
  shows "operations_fit l m' (r + 1) (xs @ [x])"
proof -
  have ids: "op_identities x = [jo_before x]" by (simp add: op_identities_def x)
  have chain: "valid_chain Map.empty (xs @ [x])"
    using fit known by (auto simp: valid_chain_append operations_fit_def known_after_last[OF closed] split: option.splits)
  have bytes: "identity_bytes (xs @ [x]) = identity_bytes xs + id_bytes (jo_before x)"
    by (simp add: identity_bytes_append) (simp add: identity_bytes_def ids)
  have caps: "captures (xs @ [x]) = Suc (captures xs)" by (simp add: captures_append) (simp add: captures_def op_done_def x)
  have card: "card (set (map jo_path (xs @ [x]))) \<le> jl_paths l"
  proof (cases "jo_path x \<in> set (map jo_path xs)")
    case True
    then have "set (map jo_path (xs @ [x])) = set (map jo_path xs)" by auto
    then show ?thesis using fit by (simp add: operations_fit_def)
  next
    case False
    then show ?thesis using room(2) by (simp add: card_insert_if)
  qed
  have ident: "list_all (\<lambda>y. list_all (\<lambda>i. id_bytes i \<le> jl_file l) (op_identities y)) (xs @ [x])"
    using fit x(2) by (simp add: operations_fit_def ids)
  have uniq: "distinct (map jo_id (xs @ [x]))" using fit fresh by (simp add: operations_fit_def)
  have low: "captures xs \<le> im_completed m" "captures xs \<le> r" "identity_bytes xs \<le> im_bytes m"
    using fit by (simp_all add: operations_fit_def)
  show ?thesis unfolding operations_fit_def
    using m' room(1) closed chain card ident uniq low by (simp only: bytes caps butlast_snoc length_append) simp
qed

lemma begin_change_wf:
  assumes wf: "journal_wf j" and ch: "begin_change io root j inp = Change j' a"
  shows "journal_wf j'"
proof -
  let ?xs = "wj_operations j" and ?l = "wj_limits j"
  note g = begin_refusal_None[OF begin_change_guards[OF ch]]
  obtain r m where cap: "capture_path io root j (ji_path inp) = (r, m)" by fastforce
  note facts = journal_capture[OF cap wf]
  note out = begin_change_outcome[OF ch cap]
  show ?thesis
  proof (cases "\<exists>e. meter_change j m e = Change j' a")
    case True
    then show ?thesis using meter_change_wf[OF wf _ facts(1,2) g(2)] by blast
  next
    case False
    with out obtain ids where r: "r = Inr ids" by (auto split: sum.splits)
    from facts(3)[OF r] obtain i where i: "ids = [i]" "id_path i = ji_path inp" "identity_wf i" "id_bytes i \<le> jl_file ?l"
      "strict_identity_path (ji_path inp)" "im_completed m = Suc (im_completed (wj_meter j))" "im_bytes m = im_bytes (wj_meter j) + id_bytes i" by blast
    define x where "x = begun_op j inp i"
    have j': "j' = j\<lparr>wj_revision := wj_revision j + 1, wj_meter := m, wj_operations := ?xs @ [x]\<rparr>"
      and known: "case last_identity ?xs (ji_path inp) of None \<Rightarrow> True | Some known \<Rightarrow> known = Some i"
      using out False unfolding r i(1) x_def list.sel sum.case by blast+
    have x: "jo_path x = ji_path inp" "jo_id x = ji_op inp" "jo_result x = None" "jo_before x = i" "jo_sequence x = length ?xs + 1"
      by (simp_all add: x_def begun_op_def)
    have opx: "op_wf (1 + length ?xs) x"
      using i g(1) by (simp add: op_wf_def x op_identities_def input_error_def split: if_splits)
    have m: "im_attempted m \<le> jl_identities ?l" "im_bytes m \<le> jl_total ?l" "im_completed m \<le> im_attempted m"
      using facts(1) by (simp_all add: meter_fits_def journal_id_limits_def)
    have safe: "im_bytes m \<le> 9007199254740991"
      using m(2) wf by (simp add: journal_wf_def limits_wf_def limit_ok_def max_identity_total_bytes_def)
    have known': "case last_identity ?xs (jo_path x) of None \<Rightarrow> True | Some known \<Rightarrow> known = Some (jo_before x)"
      unfolding x by (rule known)
    have "operations_fit ?l m (wj_revision j + 1) (?xs @ [x])"
      using wf g i m safe by (intro operations_fit_begun[where m = "wj_meter j"] known') (simp_all add: x journal_wf_def)
    moreover have "ops_wf 1 (?xs @ [x])" using wf opx by (simp add: ops_wf_append journal_wf_def)
    ultimately show ?thesis using wf g(2,6) m(3) by (simp add: j' journal_wf_def seal_ok_def)
  qed
qed

lemma complete_refusal_None:
  assumes "complete_refusal j inp = None"
  shows "input_error inp = None" "\<not> wj_sealed j" "wj_operations j \<noteq> []" "\<not> op_done (last (wj_operations j))"
    "wj_revision j < max_journal_revision" "jo_path (last (wj_operations j)) = ji_path inp" "jo_id (last (wj_operations j)) = ji_op inp"
  using assms by (auto simp: complete_refusal_def Let_def split: if_splits)

lemma complete_change_guards: "complete_change io root j inp outcome = Change j' a \<Longrightarrow> complete_refusal j inp = None"
  by (simp add: complete_change_def split: option.splits)

lemma complete_change_outcome:
  assumes "complete_change io root j inp outcome = Change j' a" "capture_path io root j (ji_path inp) = (r, m)"
  shows "case r of Inl (e, q) \<Rightarrow> meter_change j m e = Change j' a
    | Inr ids \<Rightarrow> j' = j\<lparr>wj_revision := wj_revision j + 1, wj_meter := m,
          wj_operations := butlast (wj_operations j) @ [last (wj_operations j)\<lparr>jo_result := Some (hd ids, outcome)\<rparr>]\<rparr>"
  using assms by (auto simp: complete_change_def Let_def split: option.splits if_splits sum.splits)

lemma operations_fit_completed:
  assumes fit: "operations_fit l m r (xs @ [x])" and x: "jo_result x = None" and i: "id_bytes i \<le> jl_file l"
    and m': "im_attempted m' \<le> jl_identities l" "im_bytes m' \<le> jl_total l" "im_bytes m' \<le> 9007199254740991"
      "im_completed m' = Suc (im_completed m)" "im_bytes m' = im_bytes m + id_bytes i"
  shows "operations_fit l m' (r + 1) (xs @ [x\<lparr>jo_result := Some (i, w)\<rparr>])"
proof -
  let ?y = "x\<lparr>jo_result := Some (i, w)\<rparr>"
  have ids: "op_identities x = [jo_before x]" "op_identities ?y = [jo_before x, i]" by (simp_all add: op_identities_def x)
  have "valid_chain k [?y] = valid_chain k [x]" for k by (simp split: option.split)
  then have chain: "valid_chain Map.empty (xs @ [?y])"
    using fit unfolding valid_chain_append operations_fit_def by blast
  have bytes: "identity_bytes (xs @ [?y]) = identity_bytes (xs @ [x]) + id_bytes i"
    by (simp add: identity_bytes_append) (simp add: identity_bytes_def ids)
  have caps: "captures (xs @ [?y]) = Suc (captures (xs @ [x]))" by (simp add: captures_append) (simp add: captures_def op_done_def x)
  have ident: "list_all (\<lambda>y. list_all (\<lambda>i. id_bytes i \<le> jl_file l) (op_identities y)) (xs @ [?y])"
    using fit i by (simp add: operations_fit_def ids)
  have same: "map jo_id (xs @ [?y]) = map jo_id (xs @ [x])" "map jo_path (xs @ [?y]) = map jo_path (xs @ [x])"
    "length (xs @ [?y]) = length (xs @ [x])" "butlast (xs @ [?y]) = butlast (xs @ [x])"
    by simp_all
  show ?thesis
    using fit m' chain ident unfolding operations_fit_def bytes caps same by linarith
qed

lemma complete_change_wf:
  assumes wf: "journal_wf j" and ch: "complete_change io root j inp outcome = Change j' a"
  shows "journal_wf j'"
proof -
  let ?l = "wj_limits j"
  note g = complete_refusal_None[OF complete_change_guards[OF ch]]
  obtain xs x where xs: "wj_operations j = xs @ [x]" using g(3) by (metis append_butlast_last_id)
  obtain r m where cap: "capture_path io root j (ji_path inp) = (r, m)" by fastforce
  note facts = journal_capture[OF cap wf]
  note out = complete_change_outcome[OF ch cap]
  show ?thesis
  proof (cases r)
    case (Inl f)
    with out obtain e where "meter_change j m e = Change j' a" by (auto split: prod.splits)
    then show ?thesis using meter_change_wf[OF wf _ facts(1,2) g(2)] by blast
  next
    case (Inr ids)
    from facts(3)[OF Inr] obtain i where i: "ids = [i]" "id_path i = ji_path inp" "identity_wf i" "id_bytes i \<le> jl_file ?l"
      "strict_identity_path (ji_path inp)" "im_completed m = Suc (im_completed (wj_meter j))" "im_bytes m = im_bytes (wj_meter j) + id_bytes i" by blast
    have x: "jo_result x = None" "jo_path x = ji_path inp" using g(4,6) unfolding op_done_def by (simp_all only: xs last_snoc simp_thms)
    have j': "j' = j\<lparr>wj_revision := wj_revision j + 1, wj_meter := m, wj_operations := xs @ [x\<lparr>jo_result := Some (i, outcome)\<rparr>]\<rparr>"
      using out by (simp add: Inr i(1) xs)
    have m: "im_attempted m \<le> jl_identities ?l" "im_bytes m \<le> jl_total ?l" "im_completed m \<le> im_attempted m"
      using facts(1) by (simp_all add: meter_fits_def journal_id_limits_def)
    have safe: "im_bytes m \<le> 9007199254740991"
      using m(2) wf by (simp add: journal_wf_def limits_wf_def limit_ok_def max_identity_total_bytes_def)
    have "operations_fit ?l m (wj_revision j + 1) (xs @ [x\<lparr>jo_result := Some (i, outcome)\<rparr>])"
      using wf i m safe x by (intro operations_fit_completed[where m = "wj_meter j"]) (simp_all add: journal_wf_def xs)
    moreover have "ops_wf 1 (xs @ [x\<lparr>jo_result := Some (i, outcome)\<rparr>])"
      using wf i x by (simp add: ops_wf_append journal_wf_def xs op_wf_def op_identities_def)
    ultimately show ?thesis using wf g(2,5) m(3) by (simp add: j' journal_wf_def seal_ok_def)
  qed
qed

lemma seal_change_wf:
  assumes wf: "journal_wf j" and ch: "seal_change j d ch expected = Inl (Change j' a)"
  shows "journal_wf j' \<and> wj_sealed j'"
proof -
  let ?s = "j\<lparr>wj_sealed := True, wj_revision := wj_revision j + 1, wj_hash := None\<rparr>"
  from ch obtain h where h: "journal_hash ?s = Some h" "j' = ?s\<lparr>wj_hash := Some h\<rparr>" "list_all op_done (wj_operations j)"
    "wj_revision j < max_journal_revision"
    by (auto simp: seal_change_def Let_def list_ex_iff list_all_iff split: if_splits option.splits)
  have "journal_hash j' = Some h" using h(1,2) by (simp add: journal_hash_def payload_fields_def)
  moreover have "hash_re h" using h(1) by (auto simp: journal_hash_def)
  moreover have fit: "operations_fit (wj_limits j) (wj_meter j) (wj_revision j) (wj_operations j)" using wf by (simp add: journal_wf_def)
  moreover have "operations_fit (wj_limits j) (wj_meter j) (wj_revision j + 1) (wj_operations j)"
    by (rule operations_fit_meter[OF fit]) (use fit in \<open>simp_all add: operations_fit_def\<close>)
  moreover have "captures (wj_operations j) \<le> wj_revision j" using fit by (simp add: operations_fit_def)
  ultimately show ?thesis using wf h(2-4) by (simp add: journal_wf_def seal_ok_def)
qed

lemma create_journal_wf:
  assumes "create_journal d ch limits = Inr j" shows "journal_wf j \<and> \<not> wj_sealed j"
proof -
  define given where "given = (case limits of JUndef \<Rightarrow> normalize_limits [] | JObj f \<Rightarrow> normalize_limits f | _ \<Rightarrow> None)"
  from assms obtain l where "transaction_id_re d" "hash_re ch" and g: "given = Some l" and
    j: "j = \<lparr>wj_delegation = d, wj_contract = ch, wj_sealed = False, wj_revision = 0, wj_limits = l, wj_meter = zero_meter,
       wj_operations = [], wj_hash = None\<rparr>"
    unfolding create_journal_def given_def[symmetric] by (auto simp: Let_def split: if_splits option.splits)
  moreover have "limits_wf l" using g by (cases limits) (auto simp: given_def dest: limits_sound)
  ultimately show ?thesis
    by (simp add: journal_wf_def operations_fit_def zero_meter_def seal_ok_def identity_bytes_def captures_def)
qed

text \<open>Whatever an operation wants to publish is read back as it is: the check before the rename never refuses.\<close>

lemma apply_change_answers:
  assumes "journal_wf j" and c: "\<And>j' a. c = Change j' a \<Longrightarrow> journal_wf j'"
  shows "apply_change pub j c =
     (case c of
        Refused e \<Rightarrow> (Inl e, j)
      | Change j' answer \<Rightarrow>
          if canonical_journal j' = None then (Inl J_limit_exceeded, j)
          else case pub of
              Published \<Rightarrow> ((case answer of None \<Rightarrow> Inr j' | Some e \<Rightarrow> Inl e), j')
            | Lost \<Rightarrow> (Inl J_storage_failure, j)
            | Hidden \<Rightarrow> (Inl J_storage_failure, j'))"
  using assms by (auto simp: apply_change_def journal_read split: change.splits)

lemma apply_change_wf:
  assumes "apply_change pub j c = (answer, j')" "journal_wf j"
  shows "journal_wf j'"
  using assms by (auto simp: apply_change_def journal_readable split: change.splits if_splits publication.splits)

lemma journal_step_wf: "journal_step root j j' \<Longrightarrow> journal_wf j \<Longrightarrow> journal_wf j'"
  by (induction rule: journal_step.induct) (blast intro: apply_change_wf)+

lemma journal_runs_wf: "journal_runs root j \<Longrightarrow> journal_wf j"
proof (induction rule: journal_runs.induct)
  case (run_created d ch limits j)
  then show ?case using create_journal_wf by blast
qed (blast intro: journal_step_wf)

subsection \<open>History\<close>

text \<open>What a step may do to the facts already recorded.\<close>

definition extends_journal :: "journal \<Rightarrow> journal \<Rightarrow> bool" where
  "extends_journal j j' =
     (wj_delegation j' = wj_delegation j \<and> wj_contract j' = wj_contract j \<and> wj_limits j' = wj_limits j
      \<and> prefix (filter op_done (wj_operations j)) (filter op_done (wj_operations j'))
      \<and> wj_revision j \<le> wj_revision j' \<and> (wj_revision j' = wj_revision j \<longrightarrow> j' = j) \<and> (wj_sealed j \<longrightarrow> j' = j))"

lemma extends_refl: "extends_journal j j"
  by (simp add: extends_journal_def)

lemma extends_trans: "extends_journal i j \<Longrightarrow> extends_journal j k \<Longrightarrow> extends_journal i k"
  by (auto simp: extends_journal_def)

lemma change_extends:
  assumes "\<And>j' a. c = Change j' a \<Longrightarrow> extends_journal j j'" "apply_change pub j c = (answer, j')"
  shows "extends_journal j j'"
  using assms by (auto simp: apply_change_def extends_refl split: change.splits if_splits publication.splits)

lemma meter_change_extends: "meter_change j m e = Change j' a \<Longrightarrow> \<not> wj_sealed j \<Longrightarrow> extends_journal j j'"
  by (auto simp: meter_change_def extends_journal_def split: if_splits)

lemma begin_extends:
  assumes "begin_change io root j inp = Change j' a" shows "extends_journal j j'"
proof -
  note g = begin_refusal_None[OF begin_change_guards[OF assms]]
  obtain r m where cap: "capture_path io root j (ji_path inp) = (r, m)" by fastforce
  from begin_change_outcome[OF assms cap]
  consider e where "meter_change j m e = Change j' a"
    | x where "j' = j\<lparr>wj_revision := wj_revision j + 1, wj_meter := m, wj_operations := wj_operations j @ [x]\<rparr>"
    by (cases r) (auto split: prod.splits)
  then show ?thesis
    using g(2) by cases (auto intro: meter_change_extends, simp add: extends_journal_def)
qed

lemma complete_extends:
  assumes "complete_change io root j inp outcome = Change j' a" shows "extends_journal j j'"
proof -
  note g = complete_refusal_None[OF complete_change_guards[OF assms]]
  obtain xs x where xs: "wj_operations j = xs @ [x]" using g(3) by (metis append_butlast_last_id)
  obtain r m where cap: "capture_path io root j (ji_path inp) = (r, m)" by fastforce
  from complete_change_outcome[OF assms cap]
  consider e where "meter_change j m e = Change j' a"
    | y where "j' = j\<lparr>wj_revision := wj_revision j + 1, wj_meter := m, wj_operations := butlast (wj_operations j) @ [y]\<rparr>"
    by (cases r) (auto split: prod.splits)
  then show ?thesis
  proof cases
    case 1
    then show ?thesis using g(2) meter_change_extends by blast
  next
    case 2
    then show ?thesis using g(2,4) by (simp add: extends_journal_def xs)
  qed
qed

lemma seal_extends:
  assumes "seal_change j d ch expected = Inl (Change j' a)" shows "extends_journal j j'"
  using assms by (auto simp: seal_change_def Let_def extends_journal_def split: if_splits option.splits)

lemma step_extends: "journal_step root j j' \<Longrightarrow> extends_journal j j'"
proof (induction rule: journal_step.induct)
  case (step_begun pub j io inp answer j')
  show ?case by (rule change_extends[OF begin_extends step_begun])
next
  case (step_completed pub j io inp outcome answer j')
  show ?case by (rule change_extends[OF complete_extends step_completed])
next
  case (step_sealed j d ch expected c pub answer j')
  show ?case by (rule change_extends[OF _ step_sealed(2)]) (use step_sealed(1) in \<open>blast intro: seal_extends\<close>)
qed

lemma step_star_extends: "(journal_step root)\<^sup>*\<^sup>* j j' \<Longrightarrow> extends_journal j j'"
  by (induction rule: rtranclp_induct) (auto intro: extends_refl extends_trans step_extends)

text \<open>C36: every journal that is ever stored is read back as it was written, and so is every record an operation wants to
  publish: the strict reader never refuses what the transitions make.\<close>

theorem stored_journal_reads_back:
  assumes "journal_runs root j"
  shows "normalize_journal (journal_value j) = Some j
     \<and> (begin_change io root j inp = Change j' a \<longrightarrow> normalize_journal (journal_value j') = Some j')
     \<and> (complete_change io root j inp outcome = Change j' a \<longrightarrow> normalize_journal (journal_value j') = Some j')
     \<and> (seal_change j d ch expected = Inl (Change j' a) \<longrightarrow> normalize_journal (journal_value j') = Some j')"
proof -
  note wf = journal_runs_wf[OF assms]
  show ?thesis unfolding journal_readable
    using wf begin_change_wf[OF wf] complete_change_wf[OF wf] seal_change_wf[OF wf] by blast
qed

text \<open>C37: whatever the storage and the files do, a later journal keeps the completed operations of an earlier one in
  front, its identity and its limits; its revision only grows and names one record, and a sealed journal is final.\<close>

theorem journal_history_is_kept:
  assumes "(journal_step root)\<^sup>*\<^sup>* j j'"
  shows "prefix (filter op_done (wj_operations j)) (filter op_done (wj_operations j'))
     \<and> wj_delegation j' = wj_delegation j \<and> wj_contract j' = wj_contract j \<and> wj_limits j' = wj_limits j
     \<and> wj_revision j \<le> wj_revision j' \<and> (wj_revision j' = wj_revision j \<longrightarrow> j' = j) \<and> (wj_sealed j \<longrightarrow> j' = j)"
  using step_star_extends[OF assms] by (simp add: extends_journal_def)

end
