(* ===== verification/Guard_Safety.thy ===== *)
theory Guard_Safety
  imports Guard_Capture Journal_Safety
begin

section \<open>Collected guards are valid\<close>

text \<open>
  The validator accepts exactly the well-formed guards (\<open>guard_wf\<close>), a collected guard is well formed, and
  the parser of the status output inverts the format Git documents.
\<close>

subsection \<open>Reading values back\<close>

primrec guard_identity_wf :: "guard_identity \<Rightarrow> bool" where
  "guard_identity_wf Guard_missing = True"
| "guard_identity_wf (Guard_present k n st) = (safe_nat n \<and> stat_wf st)"

definition guard_entry_wf :: "guard_entry \<Rightarrow> bool" where
  "guard_entry_wf e = (strict_guard_path (we_path e) \<and> guard_status (we_status e) \<and> guard_identity_wf (we_identity e))"

definition guard_wf :: "guard \<Rightarrow> bool" where
  "guard_wf g =
     ((case gd_head g of None \<Rightarrow> True | Some h \<Rightarrow> head_re h) \<and> list_all guard_entry_wf (gd_entries g)
      \<and> safe_nat (gm_status (gd_meter g)) \<and> safe_nat (gm_relevant (gd_meter g)) \<and> safe_nat (gm_irrelevant (gd_meter g))
      \<and> safe_nat (gm_stats (gd_meter g)))"

lemma guard_identity_read: "guard_identity_wf i \<Longrightarrow> read_guard_identity (guard_identity_value i) = Some i"
proof (cases i)
  case (Guard_present k n st)
  assume "guard_identity_wf i"
  moreover have "guard_kind_text k \<noteq> ''missing''" by (cases k) simp_all
  ultimately show ?thesis using Guard_present
    by (auto simp: read_guard_identity_def exact_fields_def own_keys_def get_prop_def read_id_stat_value counter_def counter_value_def
        safe_nat_def guard_kind.parse_text)
qed (simp add: read_guard_identity_def exact_fields_def own_keys_def get_prop_def)

lemma guard_identity_sound: "read_guard_identity v = Some i \<Longrightarrow> guard_identity_wf i"
  by (auto simp: read_guard_identity_def counter_eq dest: read_stat_sound split: option.splits if_splits)

lemma guard_entry_read: "guard_entry_wf e \<Longrightarrow> read_guard_entry (guard_entry_value e) = Some e"
  by (simp add: read_guard_entry_def guard_entry_value_def exact_fields_def own_keys_def get_prop_def guard_identity_read guard_entry_wf_def)

lemma guard_entry_sound: "read_guard_entry v = Some e \<Longrightarrow> guard_entry_wf e"
  by (auto simp: read_guard_entry_def guard_entry_wf_def dest: guard_identity_sound split: option.splits if_splits)

lemma read_all_map: "(\<And>x. x \<in> set xs \<Longrightarrow> r (w x) = Some x) \<Longrightarrow> read_all r (map w xs) = Some xs"
  by (induction xs) simp_all

lemma read_all_sound: "read_all r vs = Some xs \<Longrightarrow> (\<And>v x. r v = Some x \<Longrightarrow> P x) \<Longrightarrow> list_all P xs"
  by (induction vs arbitrary: xs) (auto split: option.splits)

lemma read_head_value: "(case h of None \<Rightarrow> True | Some s \<Rightarrow> head_re s) \<Longrightarrow> read_head (head_value h) = Some h"
  by (cases h) (simp_all add: read_head_def head_value_def)

lemma read_head_sound: "read_head v = Some h \<Longrightarrow> (case h of None \<Rightarrow> True | Some s \<Rightarrow> head_re s)"
  by (auto simp: read_head_def split: if_splits option.splits)

lemma guard_meter_read:
  "safe_nat (gm_status m) \<Longrightarrow> safe_nat (gm_relevant m) \<Longrightarrow> safe_nat (gm_irrelevant m) \<Longrightarrow> safe_nat (gm_stats m)
    \<Longrightarrow> read_guard_meter (guard_meter_value m) = Some m"
  by (simp add: read_guard_meter_def guard_meter_value_def exact_fields_def own_keys_def get_prop_def guard_meter_fields_def
      counter_def counter_value_def safe_nat_def)

lemma guard_meter_sound:
  "read_guard_meter v = Some m \<Longrightarrow> safe_nat (gm_status m) \<and> safe_nat (gm_relevant m) \<and> safe_nat (gm_irrelevant m) \<and> safe_nat (gm_stats m)"
  by (auto simp: read_guard_meter_def counter_eq split: option.splits if_splits)

lemma guard_read:
  assumes "normalize_guard_limits limits = Some l" "guard_wf g" "guard_ok cfg l g"
  shows "validate_guard cfg limits (guard_value g) = Some g"
proof -
  have entries: "read_list read_guard_entry (JArr (map guard_entry_value (gd_entries g))) = Some (gd_entries g)"
    using assms(2) by (auto simp: read_list_def guard_wf_def list_all_iff guard_entry_read intro!: read_all_map)
  have paths: "read_list as_string (JArr (map JStr (gd_irrelevant g))) = Some (gd_irrelevant g)"
    by (auto simp: read_list_def intro: read_all_map)
  have head: "read_head (head_value (gd_head g)) = Some (gd_head g)"
    using assms(2) by (auto simp: guard_wf_def intro: read_head_value)
  have meter: "read_guard_meter (guard_meter_value (gd_meter g)) = Some (gd_meter g)"
    using assms(2) by (auto simp: guard_wf_def intro: guard_meter_read)
  have keys: "exact_fields (the (as_record (guard_value g))) guard_fields"
    by (simp add: guard_value_def exact_fields_def own_keys_def guard_fields_def)
  obtain h es ps m hash where g: "g = \<lparr>gd_head = h, gd_entries = es, gd_irrelevant = ps, gd_meter = m, gd_hash = hash\<rparr>" by (cases g)
  show ?thesis
    using assms(1,3) entries paths head meter keys unfolding g
    by (simp add: validate_guard_def guard_value_def get_prop_def Let_def)
qed

lemma guard_sound:
  assumes "validate_guard cfg limits v = Some g"
  shows "guard_wf g \<and> (\<exists>l. normalize_guard_limits limits = Some l \<and> guard_ok cfg l g)"
proof -
  from assms obtain f l where "normalize_guard_limits limits = Some l" "guard_ok cfg l g"
    "read_head (get_prop f ''git_head'') = Some (gd_head g)" "read_list read_guard_entry (get_prop f ''entries'') = Some (gd_entries g)"
    "read_guard_meter (get_prop f ''meter'') = Some (gd_meter g)"
    unfolding validate_guard_def Let_def by (auto split: option.splits if_splits)
  then show ?thesis
    using guard_meter_sound by (auto simp: guard_wf_def read_list_def split: option.splits
        dest: read_head_sound read_all_sound[where P = guard_entry_wf, OF _ guard_entry_sound])
qed

subsection \<open>What a collection sees\<close>

definition seen_twice :: "guard_io \<Rightarrow> guard_entry \<Rightarrow> bool" where
  "seen_twice io e = (stat_path io Ph_before (we_path e) = Some (we_identity e) \<and> stat_path io Ph_after (we_path e) = Some (we_identity e))"

lemma stat_path_wf: "stat_path io ph p = Some i \<Longrightarrow> guard_identity_wf i"
  by (auto simp: stat_path_def identity_from_stat_def safe_byte_size_def normalized_stat_def stat_wf_def safe_nat_def
      max_safe_integer_def int_text_def decimal_of_nat_text split: io.splits option.splits if_splits)

lemma stat_first_facts:
  "stat_first io root_abs m items = (Inr is, m') \<Longrightarrow>
     length is = length items \<and> list_all (\<lambda>((p, s), i). stat_path io Ph_before p = Some i) (zip items is)
     \<and> m' = m\<lparr>gm_stats := gm_stats m + length items\<rparr>"
proof (induction items arbitrary: m "is" m')
  case (Cons x items)
  obtain p s where x: "x = (p, s)" by (cases x)
  from Cons.prems obtain i is' where i: "stat_path io Ph_before p = Some i" "stat_first io root_abs (count_stat m) items = (Inr is', m')" "is = i # is'"
    by (auto simp: x split: if_splits option.splits prod.splits sum.splits)
  from Cons.IH[OF i(2)] i(1,3) show ?case by (simp add: x count_stat_def)
qed simp

lemma stat_again_facts:
  "stat_again io m items = (Inr es, m') \<Longrightarrow> list_all (\<lambda>((p, s), i). stat_path io Ph_before p = Some i) items \<Longrightarrow>
     map (\<lambda>e. (we_path e, we_status e)) es = map fst items \<and> list_all (seen_twice io) es
     \<and> m' = m\<lparr>gm_stats := gm_stats m + length items\<rparr>"
proof (induction items arbitrary: m es m')
  case (Cons x items)
  obtain p s i where x: "x = ((p, s), i)" by (metis prod.exhaust)
  from Cons.prems(1) obtain es' where e: "stat_path io Ph_after p = Some i" "stat_again io (count_stat m) items = (Inr es', m')"
    "es = \<lparr>we_path = p, we_status = s, we_identity = i\<rparr> # es'"
    by (auto simp: x split: if_splits option.splits prod.splits sum.splits)
  from Cons.IH[OF e(2)] e(1,3) Cons.prems(2) show ?case by (simp add: x count_stat_def seen_twice_def)
qed simp

lemma guard_entries_facts:
  assumes "guard_entries io root_abs m items = (Inr es, m')"
  shows "map (\<lambda>e. (we_path e, we_status e)) es = items" "list_all (seen_twice io) es" "m' = m\<lparr>gm_stats := gm_stats m + 2 * length items\<rparr>"
proof -
  from assms obtain ids m1 where f: "stat_first io root_abs m items = (Inr ids, m1)" "stat_again io m1 (zip items ids) = (Inr es, m')"
    by (auto simp: guard_entries_def split: prod.splits sum.splits)
  note a = stat_first_facts[OF f(1)]
  note b = stat_again_facts[OF f(2)]
  show "map (\<lambda>e. (we_path e, we_status e)) es = items" "list_all (seen_twice io) es" "m' = m\<lparr>gm_stats := gm_stats m + 2 * length items\<rparr>"
    using a b by (simp_all add: map_fst_zip)
qed

lemma sort_out_facts:
  "sort_out cfg seen items = Some (rs, is) \<Longrightarrow>
     distinct (map fst items) \<and> set (map fst items) \<inter> set seen = {} \<and> rs = filter (\<lambda>x. \<not> collected_irrelevant cfg (fst x)) items
     \<and> is = filter (collected_irrelevant cfg) (map fst items)"
  by (induction cfg seen items arbitrary: rs "is" rule: sort_out.induct) (auto split: if_splits option.splits)

subsection \<open>Bytes\<close>

lemma utf8_decode_sound: "utf8_decode bs = Some s \<Longrightarrow> utf8 s = bs"
proof (induction bs arbitrary: s rule: utf8_decode.induct)
  case (2 b bs)
  show ?case
  proof (cases "b < 128")
    case True
    with 2(3) obtain t where t: "utf8_decode bs = Some t" "s = char_of b # t" by auto
    have "utf8_char (char_of b) = [b]" using True by (simp add: utf8_char_def)
    with 2(1)[OF True t(1)] t(2) show ?thesis by simp
  next
    case False
    with 2(3) obtain c cs t where t: "bs = c # cs" "b = 194 \<or> b = 195" "128 \<le> c" "c < 192" "utf8_decode cs = Some t"
      "s = char_of ((b - 192) * 64 + (c - 128)) # t"
      by (auto split: list.splits if_splits)
    let ?n = "(b - 192) * 64 + (c - 128)"
    have "c - 128 < 64" using t(4) by linarith
    then have "?n div 64 = b - 192" "?n mod 64 = c - 128" by (simp_all add: div_mult_self3 mod_mult_self3)
    then have n: "?n < 256" "\<not> ?n < 128" "192 + ?n div 64 = b" "128 + ?n mod 64 = c"
      using t(2-4) \<open>c - 128 < 64\<close> by linarith+
    have "utf8_char (char_of ?n) = [b, c]" using n by (simp add: utf8_char_def Let_def)
    with 2(2)[OF False t(1)] t show ?thesis by simp
  qed
qed simp

lemma code_less_256: "code_of (c :: char) < (256 :: nat)"
  by simp

lemma utf8_decode_utf8 [simp]: "utf8_decode (utf8 s) = Some s"
proof (induction s)
  case (Cons c s)
  show ?case
  proof (cases "code_of c < (128::nat)")
    case True
    then show ?thesis using Cons by (simp add: utf8_char_def)
  next
    case False
    let ?n = "code_of c :: nat"
    have n: "192 + ?n div 64 = 194 \<or> 192 + ?n div 64 = 195" "128 + ?n mod 64 < 192" "?n div 64 * 64 + ?n mod 64 = ?n"
      using False code_less_256[of c] div_mult_mod_eq[of ?n 64] by linarith+
    have "char_of ?n = c" by simp
    then show ?thesis using Cons False n by (simp add: utf8_char_def Let_def)
  qed
qed simp

lemma decode_path_Some:
  "decode_path bound bs = Some p \<Longrightarrow> strict_guard_path p \<and> utf8 p = bs \<and> byte_length p \<le> bound"
  by (auto simp: decode_path_def byte_length_def dest: utf8_decode_sound split: if_splits option.splits)

lemma parse_status_items:
  "parse_status bound bs = Some items \<Longrightarrow>
     list_all (\<lambda>(p, s). strict_guard_path p \<and> byte_length p \<le> bound \<and> guard_status s) items"
proof (induction bound bs arbitrary: items rule: parse_status.induct)
  case (1 bound bs)
  show ?case
  proof (cases "bs = []")
    case True
    with 1(3) show ?thesis by (simp add: parse_status.simps)
  next
    case False
    let ?item = "item_bytes bs" and ?s = "ascii_text (take 2 (item_bytes bs))" and ?r = "tl (after_item bs)"
    from 1(3) False obtain p where p: "\<not> (after_item bs = [] \<or> length ?item < 4)" "guard_status ?s" "?item ! 2 = 32"
      "decode_path bound (drop 3 ?item) = Some p"
      by (subst (asm) parse_status.simps) (auto simp: Let_def split: if_splits option.splits)
    have neg: "\<not> (\<not> guard_status ?s \<or> ?item ! 2 \<noteq> 32)" using p by simp
    show ?thesis
    proof (cases "renames ?s")
      case True
      from 1(3) False p True obtain q ps where q: "after_item ?r \<noteq> []" "decode_path bound (item_bytes ?r) = Some q"
        "parse_status bound (tl (after_item ?r)) = Some ps" "items = (p, ?s) # (q, ?s) # ps"
        by (subst (asm) parse_status.simps) (auto simp: Let_def split: if_splits option.splits)
      have "list_all (\<lambda>(p, s). strict_guard_path p \<and> byte_length p \<le> bound \<and> guard_status s) ps"
        by (rule 1(1)[OF False refl refl p(1) neg p(4) True refl q(1,2,3)])
      with p q show ?thesis by (auto dest!: decode_path_Some)
    next
      case no: False
      from 1(3) False p no obtain ps where q: "parse_status bound ?r = Some ps" "items = (p, ?s) # ps"
        by (subst (asm) parse_status.simps) (auto simp: Let_def split: if_splits option.splits)
      have "list_all (\<lambda>(p, s). strict_guard_path p \<and> byte_length p \<le> bound \<and> guard_status s) ps"
        by (rule 1(2)[OF False refl refl p(1) neg p(4) no q(1)])
      with p q show ?thesis by (auto dest!: decode_path_Some)
    qed
  qed
qed

subsection \<open>The format of git status\<close>

text \<open>One item of \<open>--porcelain=v1 -z\<close>: two state letters, a blank, the path, and for a rename or a copy the path it came from.\<close>

record status_item =
  si_status :: string
  si_path :: string
  si_from :: "string option"

definition item_output :: "status_item \<Rightarrow> nat list" where
  "item_output x = utf8 (si_status x) @ [32] @ utf8 (si_path x) @ [0] @ (case si_from x of Some q \<Rightarrow> utf8 q @ [0] | None \<Rightarrow> [])"

definition status_output :: "status_item list \<Rightarrow> nat list" where
  "status_output xs = concat (map item_output xs)"

definition item_paths :: "status_item \<Rightarrow> (string \<times> string) list" where
  "item_paths x = (si_path x, si_status x) # (case si_from x of Some q \<Rightarrow> [(q, si_status x)] | None \<Rightarrow> [])"

definition path_fits :: "nat \<Rightarrow> string \<Rightarrow> bool" where
  "path_fits bound p = (strict_guard_path p \<and> byte_length p \<le> bound)"

definition item_wf :: "nat \<Rightarrow> status_item \<Rightarrow> bool" where
  "item_wf bound x =
     (guard_status (si_status x) \<and> path_fits bound (si_path x)
      \<and> (case si_from x of Some q \<Rightarrow> renames (si_status x) \<and> path_fits bound q | None \<Rightarrow> \<not> renames (si_status x)))"

lemma utf8_no_zero: "CHR 0x00 \<notin> set s \<Longrightarrow> 0 \<notin> set (utf8 s)"
proof (induction s)
  case (Cons c s)
  have "code_of c \<noteq> (0::nat)"
  proof
    assume "code_of c = (0::nat)"
    then have "c = char_of (0::nat)" by (metis char_of_char)
    then show False using Cons.prems by (simp add: char_of_def)
  qed
  then show ?case using Cons by (auto simp: utf8_char_def Let_def)
qed simp

lemma item_bytes_append: "0 \<notin> set xs \<Longrightarrow> item_bytes (xs @ 0 # ys) = xs" "0 \<notin> set xs \<Longrightarrow> after_item (xs @ 0 # ys) = 0 # ys"
  by (induction xs) (auto simp: item_bytes_def after_item_def)

text \<open>
  What Git writes there: two ASCII letters, a path, and a source path with the renames and copies; no
  path holds a NUL.
\<close>

definition git_item :: "status_item \<Rightarrow> bool" where
  "git_item x =
     (length (si_status x) = 2 \<and> list_all (\<lambda>c. 0 < (code_of c :: nat) \<and> code_of c < (128 :: nat)) (si_status x)
      \<and> si_path x \<noteq> [] \<and> CHR 0x00 \<notin> set (si_path x)
      \<and> (case si_from x of Some q \<Rightarrow> renames (si_status x) \<and> CHR 0x00 \<notin> set q | None \<Rightarrow> \<not> renames (si_status x)))"

lemma utf8_nonempty: "s \<noteq> [] \<Longrightarrow> utf8 s \<noteq> []"
  by (cases s) auto

lemma decode_path_utf8: "decode_path bound (utf8 p) = (if path_fits bound p then Some p else None)"
  using utf8_nonempty[of p] by (auto simp: decode_path_def path_fits_def byte_length_def strict_guard_path_def)

lemma ascii_bytes:
  assumes "list_all (\<lambda>c. 0 < (code_of c :: nat) \<and> code_of c < (128 :: nat)) s"
  shows "utf8 s = map code_of s" "0 \<notin> set (utf8 s)" "ascii_text (utf8 s) = s"
proof -
  show u: "utf8 s = map code_of s" using assms by (induction s) (auto simp: utf8_char_def)
  show "0 \<notin> set (utf8 s)" using assms unfolding u by (auto simp: list_all_iff)
  have "char_of ((code_of c :: nat) mod 128) = c" if "c \<in> set s" for c
    using assms that by (simp add: list_all_iff)
  then show "ascii_text (utf8 s) = s" unfolding u ascii_text_def by (simp add: map_idI)
qed

lemma item_output_shape:
  assumes "git_item x"
  shows "item_bytes (item_output x @ rest) = utf8 (si_status x) @ 32 # utf8 (si_path x)"
    "after_item (item_output x @ rest) = 0 # (case si_from x of Some q \<Rightarrow> utf8 q @ [0] | None \<Rightarrow> []) @ rest"
proof -
  let ?i = "utf8 (si_status x) @ 32 # utf8 (si_path x)" and ?r = "(case si_from x of Some q \<Rightarrow> utf8 q @ [0] | None \<Rightarrow> []) @ rest"
  have eq: "item_output x @ rest = ?i @ 0 # ?r" by (simp add: item_output_def)
  have "0 \<notin> set ?i"
    using assms ascii_bytes(2)[of "si_status x"] utf8_no_zero[of "si_path x"] by (simp add: git_item_def)
  from item_bytes_append[OF this, of ?r] show "item_bytes (item_output x @ rest) = ?i" "after_item (item_output x @ rest) = 0 # ?r"
    unfolding eq by simp_all
qed

lemma parse_item:
  assumes g: "git_item x"
  shows "parse_status bound (item_output x @ rest) =
    (if item_wf bound x then map_option ((@) (item_paths x)) (parse_status bound rest) else None)"
proof -
  note sh = item_output_shape[OF g, of rest]
  have st: "length (utf8 (si_status x)) = 2" "ascii_text (utf8 (si_status x)) = si_status x"
    using g ascii_bytes[of "si_status x"] by (simp_all add: git_item_def)
  obtain a b where ab: "utf8 (si_status x) = [a, b]" using st(1) by (auto simp: numeral_2_eq_2 length_Suc_conv)
  have "utf8 (si_path x) \<noteq> []" using g utf8_nonempty by (simp add: git_item_def)
  then obtain b1 bs1 where up: "utf8 (si_path x) = b1 # bs1" by (cases "utf8 (si_path x)") auto
  have item: "item_bytes (item_output x @ rest) = [a, b, 32, b1] @ bs1" using sh(1) by (simp add: ab up)
  have nonempty: "item_output x \<noteq> []" by (simp add: item_output_def)
  have cons: "(@) [(si_path x, si_status x)] = (#) (si_path x, si_status x)" by (rule ext) simp
  have ascii: "ascii_text [a, b] = si_status x" using st(2) ab by simp
  have path: "decode_path bound (b1 # bs1) = (if path_fits bound (si_path x) then Some (si_path x) else None)"
    using decode_path_utf8[of bound "si_path x"] up by simp
  show ?thesis
  proof (cases "si_from x")
    case None
    then have "\<not> renames (si_status x)" using g by (simp add: git_item_def)
    then show ?thesis using sh(2) None nonempty
      by (subst parse_status.simps) (simp add: item ascii path item_paths_def item_wf_def Let_def cons)
  next
    case (Some q)
    then have r: "renames (si_status x)" and q: "0 \<notin> set (utf8 q)"
      using g utf8_no_zero by (simp_all add: git_item_def)
    have "item_bytes (utf8 q @ 0 # rest) = utf8 q" "after_item (utf8 q @ 0 # rest) = 0 # rest"
      by (rule item_bytes_append[OF q])+
    moreover have "(@) [(si_path x, si_status x), (q, si_status x)] = (\<lambda>ps. (si_path x, si_status x) # (q, si_status x) # ps)"
      by (rule ext) simp
    ultimately show ?thesis using sh(2) Some nonempty r
      by (subst parse_status.simps) (simp add: item ascii path decode_path_utf8 item_paths_def item_wf_def Let_def)
  qed
qed

lemma parse_git_output:
  "list_all git_item xs \<Longrightarrow> parse_status bound (status_output xs)
     = (if list_all (item_wf bound) xs then Some (concat (map item_paths xs)) else None)"
proof (induction xs)
  case Nil
  then show ?case by (simp add: status_output_def parse_status.simps)
next
  case (Cons x xs)
  have "status_output (x # xs) = item_output x @ status_output xs" by (simp add: status_output_def)
  with Cons show ?case by (simp add: parse_item)
qed

subsection \<open>The collected guard\<close>

lemma map_entries:
  "map (\<lambda>e. (we_path e, we_status e)) es = items \<Longrightarrow> map we_path es = map fst items \<and> length es = length items"
  by auto

lemma sort_key_fst: "map fst (sort_key fst xs) = sort (map fst xs)"
proof -
  have "insort_key fst x ys = map id (insort_key fst x ys)" for x :: "'a \<times> 'b" and ys by simp
  have "map fst (insort_key fst x ys) = insort (fst x) (map fst ys)" for x :: "'a \<times> 'b" and ys
    by (induction ys) auto
  then show ?thesis by (induction xs) (simp_all add: sort_key_def)
qed

lemma read_git_head_wf: "read_git_head io = Inr h \<Longrightarrow> (case h of None \<Rightarrow> True | Some s \<Rightarrow> head_re s)"
  by (auto simp: read_git_head_def parse_git_head_def Let_def split: if_splits exec_answer.splits option.splits)

lemma guard_limits_wf:
  "normalize_guard_limits v = Some l \<Longrightarrow> gl_relevant l \<le> max_guard_paths \<and> gl_irrelevant l \<le> max_guard_irrelevant \<and> gl_status l \<le> max_status_bytes"
  by (auto simp: normalize_guard_limits_def limit_ok_def max_guard_paths_def max_guard_irrelevant_def max_status_bytes_def
      max_guard_path_bytes_def dest!: read_limit_sound split: option.splits if_splits)

lemma built_guard_ok:
  assumes l: "normalize_guard_limits limits = Some l" and h: "case h of None \<Rightarrow> True | Some s \<Rightarrow> head_re s"
    and n: "n \<le> gl_status l" and items: "parse_status (gl_path l) bs = Some items" "sort_out cfg [] items = Some (rs, ps)"
    and room: "length ps \<le> gl_irrelevant l" "length rs \<le> gl_relevant l"
    and es: "map (\<lambda>e. (we_path e, we_status e)) es = sort_key fst rs" "list_all (seen_twice io) es"
    and g: "g = \<lparr>gd_head = h, gd_entries = es, gd_irrelevant = sort ps,
       gd_meter = \<lparr>gm_status = n, gm_relevant = length rs, gm_irrelevant = length ps, gm_stats = 2 * length rs\<rparr>, gd_hash = guard_hash h es\<rparr>"
  shows "validate_guard cfg limits (guard_value g) = Some g"
proof -
  note so = sort_out_facts[OF items(2)]
  note pi = parse_status_items[OF items(1), unfolded list_all_iff]
  note lims = guard_limits_wf[OF l]
  have paths: "map we_path es = sort (map fst rs)" "length es = length rs" using map_entries[OF es(1)] by (simp_all add: sort_key_fst)
  have "set (map (\<lambda>e. (we_path e, we_status e)) es) = set rs" using es(1) by simp
  then have ent: "(we_path e, we_status e) \<in> set rs" if "e \<in> set es" for e using that by force
  have ent_ok: "strict_guard_path (we_path e) \<and> byte_length (we_path e) \<le> gl_path l \<and> guard_status (we_status e)
      \<and> \<not> collected_irrelevant cfg (we_path e)" if "e \<in> set es" for e
    using ent[OF that] pi so by fastforce
  have entries: "list_all guard_entry_wf es"
    unfolding list_all_iff guard_entry_wf_def using ent_ok es(2) stat_path_wf by (fastforce simp: seen_twice_def list_all_iff)
  have "distinct (map fst rs)" using so by (simp add: distinct_map_filter)
  then have sorted: "strictly_sorted (map we_path es)" by (simp add: strictly_sorted_iff paths)
  have irr: "strict_guard_path p \<and> collected_irrelevant cfg p \<and> byte_length p \<le> gl_path l" if "p \<in> set ps" for p
    using that pi so by fastforce
  have "distinct ps" using so by simp
  then have sorted': "strictly_sorted (sort ps)" by (simp add: strictly_sorted_iff)
  have safe: "safe_nat n" "safe_nat (length rs)" "safe_nat (length ps)" "safe_nat (2 * length rs)"
    using n room lims by (simp_all add: safe_nat_def max_safe_integer_def max_guard_paths_def max_guard_irrelevant_def max_status_bytes_def)
  have "guard_wf g" using h entries safe by (simp add: guard_wf_def g)
  moreover have "guard_ok cfg l g"
    using room n ent_ok irr sorted sorted' paths(2) by (auto simp: guard_ok_def g list_all_iff collected_irrelevant_def guard_hash_def)
  ultimately show ?thesis by (rule guard_read[OF l])
qed

text \<open>The steps a successful collection went through.\<close>

definition collected_from :: "string \<Rightarrow> guard_io \<Rightarrow> guard_limits \<Rightarrow> guard \<Rightarrow> bool" where
  "collected_from cfg io l g =
     (\<exists>bs items. read_git_head io = Inr (gd_head g) \<and> read_git_status io = Inr bs \<and> parse_status (gl_path l) bs = Some items
        \<and> distinct (map fst items)
        \<and> map (\<lambda>e. (we_path e, we_status e)) (gd_entries g) = sort_key fst (filter (\<lambda>x. \<not> collected_irrelevant cfg (fst x)) items)
        \<and> list_all (seen_twice io) (gd_entries g)
        \<and> gd_irrelevant g = sort (filter (collected_irrelevant cfg) (map fst items))
        \<and> gd_hash g = guard_hash (gd_head g) (gd_entries g))"

lemma stat_again_error: "stat_again io m items = (Inl e, m') \<Longrightarrow> e \<noteq> G_invalid_input"
  by (induction io m items arbitrary: m' rule: stat_again.induct) (auto split: if_splits option.splits prod.splits sum.splits)

lemma stat_first_error: "stat_first io r m items = (Inl e, m') \<Longrightarrow> e \<noteq> G_invalid_input"
  by (induction io r m items arbitrary: m' rule: stat_first.induct) (auto split: if_splits option.splits prod.splits sum.splits)

lemma guard_entries_error: "guard_entries io r m items = (Inl e, m') \<Longrightarrow> e \<noteq> G_invalid_input"
  by (auto simp: guard_entries_def split: prod.splits sum.splits dest: stat_again_error stat_first_error)

lemma read_git_error: "read_git_head io = Inl e \<Longrightarrow> e \<noteq> G_invalid_input" "read_git_status io = Inl e \<Longrightarrow> e \<noteq> G_invalid_input"
  by (auto simp: read_git_head_def read_git_status_def split: if_splits exec_answer.splits option.splits)

lemma collect_cases:
  assumes l: "normalize_guard_limits limits = Some l" and c: "collect_guard cfg io root_abs limits = (r, m)"
  shows "(\<exists>e. r = Inl e \<and> e \<noteq> G_invalid_input)
    \<or> (\<exists>g. r = Inr g \<and> collected_from cfg io l g \<and> validate_guard cfg limits (guard_value g) = Some g)"
proof (cases "\<exists>e. r = Inl e \<and> e \<noteq> G_invalid_input")
  case False
  have git: "\<exists>h. read_git_head io = Inr h" "\<exists>bs. read_git_status io = Inr bs"
    using c l False read_git_error by (auto simp: collect_guard_def split: sum.splits)
  then obtain h bs where hb: "read_git_head io = Inr h" "read_git_status io = Inr bs" by blast
  have n: "length bs \<le> gl_status l" using c l False hb by (auto simp: collect_guard_def Let_def split: if_splits)
  obtain items where items: "parse_status (gl_path l) bs = Some items"
    using c l False hb n by (auto simp: collect_guard_def Let_def split: option.splits)
  obtain rs ps where so: "sort_out cfg [] items = Some (rs, ps)"
    using c l False hb n items by (auto simp: collect_guard_def Let_def split: option.splits)
  have room: "length ps \<le> gl_irrelevant l" "length rs \<le> gl_relevant l"
    using c l False hb n items so by (auto simp: collect_guard_def Let_def split: if_splits)
  define m2 where "m2 = empty_meter\<lparr>gm_status := length bs, gm_relevant := length rs, gm_irrelevant := length ps\<rparr>"
  obtain x m3 where x: "guard_entries io root_abs m2 (sort_key fst rs) = (x, m3)" by fastforce
  have rest: "(r, m) = (case x of Inl e \<Rightarrow> (Inl e, m3)
      | Inr es \<Rightarrow> let g = \<lparr>gd_head = h, gd_entries = es, gd_irrelevant = sort ps, gd_meter = m3, gd_hash = guard_hash h es\<rparr>
                 in if validate_guard cfg limits (guard_value g) = None then (Inl G_invalid_input, m3) else (Inr g, m3))"
    using c l hb n items so room x by (simp add: collect_guard_def Let_def m2_def split: sum.splits)
  obtain es where es: "x = Inr es"
    using rest False x by (cases x) (auto dest: guard_entries_error)
  note facts = guard_entries_facts[OF x[unfolded es]]
  define g where "g = \<lparr>gd_head = h, gd_entries = es, gd_irrelevant = sort ps, gd_meter = m3, gd_hash = guard_hash h es\<rparr>"
  have m3: "m3 = \<lparr>gm_status = length bs, gm_relevant = length rs, gm_irrelevant = length ps, gm_stats = 2 * length rs\<rparr>"
    using facts(3) by (simp add: m2_def empty_meter_def)
  have valid: "validate_guard cfg limits (guard_value g) = Some g"
    by (rule built_guard_ok[OF l read_git_head_wf[OF hb(1)] n items so room facts(1,2)]) (simp add: g_def m3)
  have "r = Inr g" using rest valid by (simp add: es g_def)
  moreover have "collected_from cfg io l g"
    using hb items sort_out_facts[OF so] facts(1,2) by (auto simp: collected_from_def g_def)
  ultimately show ?thesis using valid by blast
qed simp

lemma status_char_set: "set status_chars = {CHR ''?'', CHR ''!''} \<union> set '' MADRCU''"
  unfolding status_chars_def list.set by (simp only: Un_insert_left Un_empty_left insert_commute)

lemma two_letters:
  assumes "Q \<notin> M" "E \<notin> M"
  shows "(x \<in> {Q, E} \<union> M \<and> y \<in> {Q, E} \<union> M
      \<and> (if x = Q \<or> y = Q then [x, y] = [Q, Q] else if x = E \<or> y = E then [x, y] = [E, E] else [x, y] \<noteq> B))
     \<longleftrightarrow> [x, y] = [Q, Q] \<or> Q \<noteq> E \<and> [x, y] = [E, E] \<or> x \<in> M \<and> y \<in> M \<and> [x, y] \<noteq> B"
  using assms by (cases "x = Q"; cases "y = Q"; cases "x = E"; cases "y = E"; auto)

lemma guard_status_pair:
  "guard_status [x, y] \<longleftrightarrow> [x, y] = ''??'' \<or> [x, y] = ''!!''
     \<or> x \<in> set '' MADRCU'' \<and> y \<in> set '' MADRCU'' \<and> [x, y] \<noteq> ''  ''"
proof -
  have apart: "CHR ''?'' \<notin> set '' MADRCU''" "CHR ''!'' \<notin> set '' MADRCU''" by simp_all
  show ?thesis unfolding guard_status_def list.case status_char_set two_letters[OF apart] by simp
qed

lemma guard_status_letters:
  assumes "length s = 2"
  shows "guard_status s \<longleftrightarrow> s \<in> {''??'', ''!!''} \<or> set s \<subseteq> set '' MADRCU'' \<and> s \<noteq> ''  ''"
proof -
  obtain x y where s: "s = [x, y]" using assms by (auto simp: numeral_2_eq_2 length_Suc_conv)
  have "set [x, y] \<subseteq> M \<longleftrightarrow> x \<in> M \<and> y \<in> M" for M :: "char set" by simp
  then show ?thesis unfolding s guard_status_pair by blast
qed

text \<open>C40: on the output Git writes for its items (two ASCII letters, a blank, a path without NUL, and a second path
  exactly for a rename or a copy) the parser gives back all paths and states, in order, when every item is one it
  admits, and refuses the whole output otherwise. It admits an item whose two letters are among
  \<open> MADRCU\<close> and not both blank, or are \<open>??\<close> or \<open>!!\<close>, and whose paths are strict relative paths within the byte bound: so
  a type change (Git's letter T), a path with a backslash, a trailing slash (a nested repository) or one beyond
  the bound is refused, not given back.\<close>

theorem status_output_is_parsed:
  assumes "list_all git_item xs"
  shows "parse_status bound (status_output xs) =
    (if list_all (\<lambda>x.
          (si_status x \<in> {''??'', ''!!''} \<or> set (si_status x) \<subseteq> set '' MADRCU'' \<and> si_status x \<noteq> ''  '')
          \<and> path_fits bound (si_path x) \<and> (\<forall>q. si_from x = Some q \<longrightarrow> path_fits bound q)) xs
     then Some (concat (map item_paths xs)) else None)"
proof -
  note letters = guard_status_letters
  have "item_wf bound x \<longleftrightarrow> (si_status x \<in> {''??'', ''!!''} \<or> set (si_status x) \<subseteq> set '' MADRCU'' \<and> si_status x \<noteq> ''  '')
          \<and> path_fits bound (si_path x) \<and> (\<forall>q. si_from x = Some q \<longrightarrow> path_fits bound q)" if "git_item x" for x
    using that letters[of "si_status x"] by (auto simp: git_item_def item_wf_def split: option.splits)
  then have "list_all (item_wf bound) xs \<longleftrightarrow> list_all (\<lambda>x.
          (si_status x \<in> {''??'', ''!!''} \<or> set (si_status x) \<subseteq> set '' MADRCU'' \<and> si_status x \<noteq> ''  '')
          \<and> path_fits bound (si_path x) \<and> (\<forall>q. si_from x = Some q \<longrightarrow> path_fits bound q)) xs"
    using assms by (simp add: list_all_iff)
  then show ?thesis using parse_git_output[OF assms] by simp
qed

text \<open>C39: the validation that closes a collection never refuses, and a collected guard holds exactly the relevant
  status paths in order, each with an identity both passes saw.\<close>

theorem collected_guard_is_valid:
  assumes "normalize_guard_limits limits = Some l" "collect_guard cfg io root_abs limits = (r, m)"
  shows "r \<noteq> Inl G_invalid_input
     \<and> (\<forall>g. r = Inr g \<longrightarrow> validate_guard cfg limits (guard_value g) = Some g \<and> collected_from cfg io l g)"
  using collect_cases[OF assms] by auto

end
