(* ===== verification/Change_Safety.thy ===== *)
theory Change_Safety
  imports Change_Finalizer Guard_Safety
begin

section \<open>What a change set says\<close>

text \<open>
  The sealed journals of \<open>Write_Journal\<close> and the guards of \<open>Guard_Capture\<close> are accepted by the strict
  readers of the change set; what is computed from them is accepted by the validator of stored change
  sets; and its entries are exactly the touched paths whose content differs.
\<close>

subsection \<open>Sealed journals are accepted\<close>

definition strict_op_wf :: "journal_op \<Rightarrow> bool" where
  "strict_op_wf x =
     (op_done x \<and> strict_identity_path (jo_path x)
      \<and> list_all (\<lambda>i. id_path i = jo_path x \<and> identity_wf i \<and> id_bytes i \<le> max_identity_file_bytes) (op_identities x))"

lemma strict_identity_read:
  "identity_wf i \<Longrightarrow> id_path i = p \<Longrightarrow> strict_identity_path p \<Longrightarrow> id_bytes i \<le> max_identity_file_bytes \<Longrightarrow>
     strict_identity (path_identity_value i) p = Some i"
  by (simp add: strict_identity_def identity_read)

lemma strict_identity_sound:
  "strict_identity v p = Some i \<Longrightarrow> identity_wf i \<and> id_path i = p \<and> strict_identity_path p \<and> id_bytes i \<le> max_identity_file_bytes"
  by (auto simp: strict_identity_def dest: identity_sound split: option.splits if_splits)

lemma strict_operation_read:
  "op_wf n x \<Longrightarrow> strict_op_wf x \<Longrightarrow> strict_operation (operation_value x) n = Some x"
  by (cases x; cases "jo_result x")
    (auto simp: op_wf_def strict_op_wf_def op_done_def op_identities_def strict_operation_def operation_value_def exact_fields_def own_keys_def
      get_prop_def pending_fields_def completed_fields_def strict_identity_read hash_field_def write_kind.parse_text write_outcome.parse_text
      split: prod.splits)

lemma strict_operations_read:
  "ops_wf n xs \<Longrightarrow> list_all strict_op_wf xs \<Longrightarrow> strict_operations n (map operation_value xs) = Some xs"
  by (induction xs arbitrary: n) (simp_all add: strict_operation_read)

lemma strict_operation_sound:
  assumes "strict_operation v n = Some x" shows "strict_op_wf x \<and> op_wf n x"
proof -
  from assms obtain f i k p b a w where "hash_re i" "strict_identity (get_prop f ''before'') p = Some b" "strict_identity (get_prop f ''after'') p = Some a"
    "x = \<lparr>jo_sequence = n, jo_id = i, jo_kind = k, jo_path = p, jo_before = b, jo_result = Some (a, w)\<rparr>"
    unfolding strict_operation_def by (auto simp: hash_field_eq split: option.splits if_splits)
  then show ?thesis by (auto simp: strict_op_wf_def op_wf_def op_done_def op_identities_def dest!: strict_identity_sound)
qed

lemma strict_operations_sound: "strict_operations n vs = Some xs \<Longrightarrow> list_all strict_op_wf xs \<and> ops_wf n xs"
  by (induction vs arbitrary: n xs) (auto dest: strict_operation_sound split: option.splits)

lemma strict_limit_value: "limit_ok hard n \<Longrightarrow> safe_nat hard \<Longrightarrow> strict_limit hard (counter_value n) = Some n"
  by (auto simp: strict_limit_def counter_def counter_value_def limit_ok_def safe_nat_def)

lemma strict_limits_read: "limits_wf l \<Longrightarrow> strict_limits (limits_value l) = Some l"
  by (simp add: strict_limits_def limits_value_def limits_wf_def exact_fields_def own_keys_def limit_fields_def get_prop_def
      strict_limit_value hard_limits)

lemma all_done_captures: "list_all op_done xs \<Longrightarrow> captures xs = 2 * length xs"
  by (induction xs) (simp_all add: captures_def)

lemma sealed_journal_accepted:
  assumes wf: "journal_wf j" and sealed: "wj_sealed j" "wj_hash j = Some h" and canon: "canonical_journal j \<noteq> None"
  shows "validate_strict_journal (journal_value j) (wj_delegation j) (wj_contract j) h = Some (wj_operations j)"
proof -
  note w = wf[unfolded journal_wf_def]
  have fit: "operations_fit (wj_limits j) (wj_meter j) (wj_revision j) (wj_operations j)"
    and lw: "limits_wf (wj_limits j)" and ow: "ops_wf 1 (wj_operations j)" using w by blast+
  have seal: "list_all op_done (wj_operations j)" "captures (wj_operations j) + 1 \<le> wj_revision j" "journal_hash j = Some h" "hash_re h"
    using w sealed by (simp_all add: seal_ok_def)
  have small: "list_all (\<lambda>x. list_all (\<lambda>i. id_bytes i \<le> max_identity_file_bytes) (op_identities x)) (wj_operations j)"
    using fit lw by (fastforce simp: operations_fit_def limits_wf_def limit_ok_def list_all_iff)
  have "op_wf n x \<Longrightarrow> op_done x \<Longrightarrow> list_all (\<lambda>i. id_bytes i \<le> max_identity_file_bytes) (op_identities x) \<Longrightarrow> strict_op_wf x" for n x
    by (auto simp: op_wf_def strict_op_wf_def list_all_iff)
  then have "ops_wf n xs \<Longrightarrow> list_all op_done xs \<Longrightarrow> list_all (\<lambda>x. list_all (\<lambda>i. id_bytes i \<le> max_identity_file_bytes) (op_identities x)) xs
      \<Longrightarrow> list_all strict_op_wf xs" for n xs
    by (induction xs arbitrary: n) auto
  from this[OF ow seal(1) small] have ops: "strict_operations 1 (map operation_value (wj_operations j)) = Some (wj_operations j)"
    by (rule strict_operations_read[OF ow])
  have meter: "normalize_meter (meter_value (wj_meter j)) = Some (wj_meter j)"
    using w journal_meter_safe[OF fit lw] by (intro meter_read) blast+
  have limits: "strict_limits (limits_value (wj_limits j)) = Some (wj_limits j)" by (rule strict_limits_read[OF lw])
  have rv: "counter (counter_value (wj_revision j)) = Some (wj_revision j)"
    using w hard_limits(7) safe_nat_le by (auto simp: counter_eq)
  have fits: "strict_journal_fits (wj_limits j) (wj_meter j) (wj_revision j) (wj_operations j)"
    using fit seal w by (auto simp: strict_journal_fits_def operations_fit_def all_done_captures)
  have size: "byte_length (pretty_line (journal_value j)) \<le> jl_serialized (wj_limits j)"
    using canon by (auto simp: canonical_journal_def bounded_text_def split: if_splits)
  have hash: "given_journal_hash (payload_fields j @ [(''journal_hash'', case wj_hash j of Some h \<Rightarrow> JStr h | None \<Rightarrow> JNull)]) (wj_operations j) = Some h"
    using seal(3) by (simp add: given_journal_hash_def journal_hash_def payload_fields_def get_prop_def)
  have keys: "exact_fields (payload_fields j @ [(''journal_hash'', case wj_hash j of Some h \<Rightarrow> JStr h | None \<Rightarrow> JNull)]) journal_fields"
    by (simp add: payload_fields_def exact_fields_def own_keys_def journal_fields_def)
  show ?thesis
    using ops meter limits rv fits size hash keys sealed
    by (simp add: validate_strict_journal_def journal_value_def) (simp add: payload_fields_def get_prop_def)
qed

lemma apply_change_canonical:
  "apply_change pub j c = (answer, j') \<Longrightarrow> canonical_journal j \<noteq> None \<Longrightarrow> canonical_journal j' \<noteq> None"
  by (auto simp: apply_change_def split: change.splits if_splits publication.splits)

lemma journal_runs_canonical: "journal_runs root j \<Longrightarrow> canonical_journal j \<noteq> None"
proof (induction rule: journal_runs.induct)
  case (run_created d ch limits j)
  then show ?case by (auto simp: create_journal_def Let_def split: if_splits option.splits)
next
  case (run_step j j')
  from run_step(2) show ?case
    by cases (use run_step(3) apply_change_canonical in blast)+
qed

subsection \<open>The facts a computation starts from\<close>

lemma journal_accepted_sound:
  assumes "validate_strict_journal v d ch jh = Some xs"
  shows "list_all strict_op_wf xs \<and> ops_wf 1 xs \<and> valid_chain Map.empty xs \<and> length xs \<le> max_journal_operations \<and> card (set (map jo_path xs)) \<le> max_journal_paths"
proof -
  from assms obtain l m r vs f where x: "strict_operations 1 vs = Some xs" "strict_journal_fits l m r xs"
    and l: "strict_limits (get_prop f ''limits'') = Some l"
    unfolding validate_strict_journal_def by (auto split: option.splits if_splits)
  have "jl_paths l \<le> max_journal_paths" "jl_operations l \<le> max_journal_operations"
    using l by (auto simp: strict_limits_def strict_limit_def split: option.splits if_splits)
  with x strict_operations_sound[OF x(1)] show ?thesis by (auto simp: strict_journal_fits_def)
qed

lemma change_facts_sound:
  assumes "change_facts cfg f = Inr ((d, ch, jh), xs, (bg, ag), deps)"
  shows "transaction_id_re d" "hash_re ch" "hash_re jh" "list_all strict_op_wf xs" "length xs \<le> max_journal_operations"
    "card (set (map jo_path xs)) \<le> max_journal_paths" "valid_chain Map.empty xs" "guard_wf bg" "guard_wf ag" "gd_head bg = gd_head ag"
    "hash_re (gd_hash bg)" "hash_re (gd_hash ag)" "strictly_sorted (map we_path (gd_entries bg))" "strictly_sorted (map we_path (gd_entries ag))"
    "strict_dependencies (JArr (map JStr deps)) = Some deps"
proof -
  from assms have v: "validate_strict_journal (get_prop f ''journal'') d ch jh = Some xs" "transaction_id_re d" "hash_re ch" "hash_re jh"
    "validate_guard cfg JUndef (get_prop f ''before_guard'') = Some bg" "validate_guard cfg JUndef (get_prop f ''after_guard'') = Some ag"
    "gd_head bg = gd_head ag" "strict_dependencies (get_prop f ''dependency_paths'') = Some deps"
    unfolding change_facts_def by (auto simp: hash_field_eq split: option.splits if_splits)
  show "transaction_id_re d" "hash_re ch" "hash_re jh" "gd_head bg = gd_head ag" using v by blast+
  show "list_all strict_op_wf xs" "length xs \<le> max_journal_operations" "card (set (map jo_path xs)) \<le> max_journal_paths" "valid_chain Map.empty xs"
    using journal_accepted_sound[OF v(1)] by blast+
  show "guard_wf bg" "guard_wf ag" using guard_sound v(5,6) by blast+
  show "hash_re (gd_hash bg)" "hash_re (gd_hash ag)" "strictly_sorted (map we_path (gd_entries bg))" "strictly_sorted (map we_path (gd_entries ag))"
    using guard_sound[OF v(5)] guard_sound[OF v(6)] by (auto simp: guard_ok_def)
  have "read_list as_string (JArr (map JStr deps)) = Some deps" by (auto simp: read_list_def intro: read_all_map)
  with v(8) show "strict_dependencies (JArr (map JStr deps)) = Some deps"
    by (auto simp: strict_dependencies_def split: option.splits if_splits)
qed

lemma strict_finals_sound:
  "strict_finals ps vs = Some is \<Longrightarrow>
     map id_path is = ps \<and> list_all (\<lambda>i. identity_wf i \<and> strict_identity_path (id_path i) \<and> id_bytes i \<le> max_identity_file_bytes) is"
  by (induction ps vs arbitrary: "is" rule: strict_finals.induct) (auto dest!: strict_identity_sound split: option.splits)

subsection \<open>The paths of a computation\<close>

lemma touched_set [simp]: "set (touched_change_paths xs) = jo_path ` set xs" "distinct (touched_change_paths xs)" "sorted (touched_change_paths xs)"
  by (simp_all add: touched_change_paths_def)

lemma touched_length: "length (touched_change_paths xs) = card (set (map jo_path xs))"
  by (simp add: touched_change_paths_def length_remdups_card_conv)

lemma first_op_in: "p \<in> jo_path ` set xs \<Longrightarrow> \<exists>x. first_op xs p = Some x \<and> x \<in> set xs \<and> jo_path x = p"
  by (induction xs) (auto simp: first_op_def)

lemma op_count_bounds: "p \<in> jo_path ` set xs \<Longrightarrow> 1 \<le> op_count xs p \<and> op_count xs p \<le> length xs"
  by (auto simp: op_count_def filter_empty_conv Suc_le_eq)

lemma first_before_wf:
  assumes "list_all strict_op_wf xs" "p \<in> jo_path ` set xs"
  shows "identity_wf (first_before xs p) \<and> id_path (first_before xs p) = p \<and> strict_identity_path p
     \<and> id_bytes (first_before xs p) \<le> max_identity_file_bytes"
proof -
  obtain x where x: "first_op xs p = Some x" "x \<in> set xs" "jo_path x = p" using first_op_in[OF assms(2)] by blast
  then have "strict_op_wf x" using assms(1) by (simp add: list_all_iff)
  with x show ?thesis by (simp add: first_before_def strict_op_wf_def op_identities_def)
qed

lemma guard_at_Some: "guard_at g p = Some e \<Longrightarrow> e \<in> set (gd_entries g) \<and> we_path e = p"
  by (auto simp: guard_at_def dest!: map_of_SomeD)

lemma guard_at_None: "guard_at g p = None \<longleftrightarrow> p \<notin> we_path ` set (gd_entries g)"
  by (auto simp: guard_at_def map_of_eq_None_iff rev_map image_image)

subsection \<open>Entries of a change set read back\<close>

definition attributed_wf :: "attributed \<Rightarrow> bool" where
  "attributed_wf e =
     (strict_identity_path (at_path e) \<and> 1 \<le> at_count e \<and> safe_nat (at_count e)
      \<and> identity_wf (at_before e) \<and> id_path (at_before e) = at_path e \<and> id_bytes (at_before e) \<le> max_identity_file_bytes
      \<and> identity_wf (at_after e) \<and> id_path (at_after e) = at_path e \<and> id_bytes (at_after e) \<le> max_identity_file_bytes
      \<and> \<not> content_equal (at_before e) (at_after e) \<and> at_change e = classify_change (at_before e) (at_after e))"

lemma attributed_read: "attributed_wf e \<Longrightarrow> read_attributed (attributed_value e) = Some e"
  by (cases e) (auto simp: attributed_wf_def read_attributed_def attributed_value_def exact_fields_def own_keys_def get_prop_def
      strict_identity_read counter_def counter_value_def safe_nat_def change_kind.parse_text)

definition drift_wf :: "drift_entry \<Rightarrow> bool" where
  "drift_wf d =
     (strict_guard_path (dr_path d) \<and> \<not> guard_entry_equal (dr_before d) (dr_after d)
      \<and> (\<forall>e. dr_before d = Some e \<or> dr_after d = Some e \<longrightarrow> guard_entry_wf e \<and> we_path e = dr_path d))"

lemma optional_entry_read:
  "(\<And>e. x = Some e \<Longrightarrow> guard_entry_wf e \<and> we_path e = p) \<Longrightarrow> read_optional_entry (optional_entry_value x) p = Some x"
proof (cases x)
  case (Some e)
  moreover have "guard_entry_value e \<noteq> JNull" by (simp add: guard_entry_value_def)
  moreover assume "\<And>e. x = Some e \<Longrightarrow> guard_entry_wf e \<and> we_path e = p"
  ultimately show ?thesis by (simp add: read_optional_entry_def optional_entry_value_def guard_entry_read)
qed (simp add: read_optional_entry_def optional_entry_value_def)

lemma drift_read: "drift_wf d \<Longrightarrow> read_drift (drift_value d) = Some d"
  by (cases d) (simp add: drift_wf_def read_drift_def drift_value_def exact_fields_def own_keys_def get_prop_def optional_entry_read
      drift_class.parse_text)

lemma conflict_read: "strict_identity_path (fst c) \<Longrightarrow> read_conflict (conflict_value c) = Some c"
  by (cases c) (simp add: read_conflict_def conflict_value_def exact_fields_def own_keys_def get_prop_def conflict_reason.parse_text)

lemma counts_read:
  "safe_nat (cc_touched k) \<Longrightarrow> safe_nat (cc_attributed k) \<Longrightarrow> safe_nat (cc_zero k) \<Longrightarrow> safe_nat (cc_drift k) \<Longrightarrow> safe_nat (cc_dependency k)
    \<Longrightarrow> safe_nat (cc_unknown k) \<Longrightarrow> safe_nat (cc_conflict k) \<Longrightarrow> read_counts (counts_value k) = Some k"
  by (simp add: read_counts_def counts_value_def exact_fields_def own_keys_def get_prop_def counts_fields_def counter_def counter_value_def safe_nat_def)

lemma change_set_read:
  assumes ok: "change_set_ok c" and deps: "strict_dependencies (JArr (map JStr (cs_dependencies c))) = Some (cs_dependencies c)"
    and parts: "list_all attributed_wf (cs_delta c)" "list_all drift_wf (cs_drift c)" "list_all (strict_identity_path \<circ> fst) (cs_conflicts c)"
    and k: "cs_counts c = k" "safe_nat (cc_touched k)" "safe_nat (cc_attributed k)" "safe_nat (cc_zero k)" "safe_nat (cc_drift k)"
      "safe_nat (cc_dependency k)" "safe_nat (cc_unknown k)" "safe_nat (cc_conflict k)"
  shows "validate_change_set (change_set_value c) = Some c"
proof -
  have "im_completed (cs_meter c) \<le> im_attempted (cs_meter c)" "im_attempted (cs_meter c) \<le> max_identity_paths" "im_bytes (cs_meter c) \<le> max_identity_total_bytes"
    using ok by (simp_all add: change_set_ok_def Let_def)
  then have meter: "normalize_meter (meter_value (cs_meter c)) = Some (cs_meter c)"
    by (intro meter_read) (auto intro: safe_nat_le hard_limits(3,4))
  have counts: "read_counts (counts_value (cs_counts c)) = Some (cs_counts c)" using counts_read[OF k(2-8)] k(1) by simp
  have delta: "read_list read_attributed (JArr (map attributed_value (cs_delta c))) = Some (cs_delta c)"
    using parts(1) by (auto simp: read_list_def list_all_iff attributed_read intro!: read_all_map)
  have drift: "read_list read_drift (JArr (map drift_value (cs_drift c))) = Some (cs_drift c)"
    using parts(2) by (auto simp: read_list_def list_all_iff drift_read intro!: read_all_map)
  have conflicts: "read_list read_conflict (JArr (map conflict_value (cs_conflicts c))) = Some (cs_conflicts c)"
    using parts(3) by (auto simp: read_list_def list_all_iff intro!: read_all_map conflict_read)
  have keys: "exact_fields (change_set_fields c @ [(''change_set_hash'', JStr (cs_hash c))]) change_set_keys"
    by (simp add: change_set_fields_def exact_fields_def own_keys_def change_set_keys_def)
  have status: "parse_enum change_statuses change_set_status_text (JStr (change_set_status_text st)) = Some st" for st
    by (rule change_set_status.parse_text)
  obtain d ch jh b a ds st dl dr cf m ks dh gh h where c: "c = \<lparr>cs_delegation = d, cs_contract = ch, cs_journal = jh, cs_before = b, cs_after = a,
     cs_dependencies = ds, cs_status = st, cs_delta = dl, cs_drift = dr, cs_conflicts = cf, cs_meter = m, cs_counts = ks,
     cs_delta_hash = dh, cs_guard_hash = gh, cs_hash = h\<rparr>" by (cases c)
  show ?thesis
    using ok deps meter counts delta drift conflicts keys status unfolding c
    by (simp add: validate_change_set_def change_set_value_def change_set_fields_def get_prop_def Let_def)
qed

subsection \<open>What is computed is valid\<close>

lemma conflict_paths:
  "map fst (change_conflicts xs bg ag prs) = map fst (filter (\<lambda>(p, i). path_conflict xs bg ag p i \<noteq> None) prs)"
  by (induction prs) (auto simp: change_conflicts_def List.map_filter_simps split: option.splits)

lemma delta_paths:
  "map at_path (worker_delta xs prs) = map fst (filter (\<lambda>(p, a). \<not> content_equal (first_before xs p) a) prs)"
  by (simp add: worker_delta_def split_def comp_def)

lemma drift_paths:
  "map dr_path (workspace_drift deps touched bg ag)
     = filter (\<lambda>p. p \<notin> set touched \<and> \<not> guard_entry_equal (guard_at bg p) (guard_at ag p)) (guard_paths bg ag)"
  by (simp add: workspace_drift_def comp_def)

lemma sorted_firsts: "sorted (map fst prs) \<Longrightarrow> distinct (map fst prs) \<Longrightarrow> strictly_sorted (map fst (filter P prs))"
  by (simp add: strictly_sorted_iff sorted_filter distinct_map_filter)

lemma sum_filter_le: "sum_list (map f (filter P xs)) \<le> (sum_list (map f xs) :: nat)"
  by (induction xs) auto

lemma worker_delta_wf:
  assumes xs: "list_all strict_op_wf xs" "length xs \<le> max_journal_operations"
    and finals: "map id_path finals = touched_change_paths xs"
      "list_all (\<lambda>i. identity_wf i \<and> strict_identity_path (id_path i) \<and> id_bytes i \<le> max_identity_file_bytes) finals"
  shows "list_all attributed_wf (worker_delta xs (zip (touched_change_paths xs) finals))"
proof -
  have "attributed_wf \<lparr>at_path = p, at_change = classify_change (first_before xs p) a, at_count = op_count xs p,
          at_before = first_before xs p, at_after = a\<rparr>"
    if "(p, a) \<in> set (zip (touched_change_paths xs) finals)" "\<not> content_equal (first_before xs p) a" for p a
  proof -
    have in_sets: "p \<in> set (touched_change_paths xs)" "a \<in> set finals" using that(1) by (auto dest: set_zip_leftD set_zip_rightD)
    have "zip (touched_change_paths xs) finals = map (\<lambda>i. (id_path i, i)) finals"
      unfolding finals(1)[symmetric] by (induction finals) simp_all
    then have "id_path a = p" using that(1) by auto
    moreover have "identity_wf a \<and> id_bytes a \<le> max_identity_file_bytes" using finals(2) in_sets(2) by (simp add: list_all_iff)
    moreover have "p \<in> jo_path ` set xs" using in_sets(1) by simp
    moreover from this have "1 \<le> op_count xs p \<and> safe_nat (op_count xs p)"
      using op_count_bounds xs(2) hard_limits(2) by (meson le_trans safe_nat_le)
    ultimately show ?thesis using that(2) first_before_wf[OF xs(1)] by (simp add: attributed_wf_def)
  qed
  then show ?thesis by (auto simp: worker_delta_def list_all_iff)
qed

lemma guard_entry_at_wf: "guard_wf g \<Longrightarrow> guard_at g p = Some e \<Longrightarrow> guard_entry_wf e \<and> we_path e = p"
  by (auto simp: guard_wf_def list_all_iff dest: guard_at_Some)

lemma workspace_drift_wf:
  assumes "guard_wf bg" "guard_wf ag"
  shows "list_all drift_wf (workspace_drift deps touched bg ag)"
proof -
  have "strict_guard_path p" if "p \<in> set (guard_paths bg ag)" for p
    using that assms by (auto simp: guard_paths_def guard_wf_def guard_entry_wf_def list_all_iff)
  then show ?thesis using guard_entry_at_wf assms by (auto simp: workspace_drift_def list_all_iff drift_wf_def)
qed

lemma attribute_changes_valid:
  assumes ids: "transaction_id_re d" "hash_re ch" "hash_re jh" "hash_re (gd_hash bg)" "hash_re (gd_hash ag)"
    and xs: "list_all strict_op_wf xs" "length xs \<le> max_journal_operations" "length (touched_change_paths xs) \<le> max_change_paths"
    and guards: "guard_wf bg" "guard_wf ag" and deps: "strict_dependencies (JArr (map JStr deps)) = Some deps"
    and finals: "map id_path finals = touched_change_paths xs"
      "list_all (\<lambda>i. identity_wf i \<and> strict_identity_path (id_path i) \<and> id_bytes i \<le> max_identity_file_bytes) finals"
    and m: "im_attempted m = length (touched_change_paths xs)" "im_completed m = length (touched_change_paths xs)" "im_bytes m \<le> max_identity_total_bytes"
      "sum_list (map id_bytes finals) \<le> im_bytes m"
    and c: "attribute_changes d ch jh xs bg ag deps finals m = Inr c"
  shows "validate_change_set (change_set_value c) = Some c"
proof -
  define prs where "prs = zip (touched_change_paths xs) finals"
  have "length finals = length (touched_change_paths xs)" using finals(1) by (metis length_map)
  then have prs: "map fst prs = touched_change_paths xs" "map snd prs = finals" "length prs = length (touched_change_paths xs)" by (simp_all add: prs_def)
  define conflicts where "conflicts = change_conflicts xs bg ag prs"
  define drift where "drift = workspace_drift deps (touched_change_paths xs) bg ag"
  define delta where "delta = (if conflicts = [] then worker_delta xs prs else [])"
  have room: "length drift \<le> max_change_paths"
    using c by (auto simp: attribute_changes_def Let_def drift_def split: if_splits)
  define k where "k = \<lparr>cc_touched = length (touched_change_paths xs), cc_attributed = length delta,
      cc_zero = (if conflicts = [] then length (touched_change_paths xs) - length delta else 0), cc_drift = length drift,
      cc_dependency = dependency_drift drift, cc_unknown = length drift - dependency_drift drift, cc_conflict = length conflicts\<rparr>"
  define c0 where "c0 = \<lparr>cs_delegation = d, cs_contract = ch, cs_journal = jh, cs_before = gd_hash bg, cs_after = gd_hash ag,
      cs_dependencies = deps, cs_status = (if conflicts \<noteq> [] then Cs_conflict else if drift \<noteq> [] then Cs_drift else Cs_attributed),
      cs_delta = delta, cs_drift = drift, cs_conflicts = conflicts, cs_meter = m, cs_counts = k,
      cs_delta_hash = delta_hash delta conflicts, cs_guard_hash = gd_hash ag, cs_hash = []\<rparr>"
  have c: "c = c0\<lparr>cs_hash := change_set_hash c0\<rparr>"
    using c unfolding attribute_changes_def Let_def prs_def[symmetric] conflicts_def[symmetric] drift_def[symmetric] delta_def[symmetric]
      k_def[symmetric] c0_def[symmetric] if_not_P[OF leD[OF room]] by simp
  have "change_set_fields c = change_set_fields c0" by (simp add: c change_set_fields_def)
  then have hash: "cs_hash c = change_set_hash c" by (simp add: c change_set_hash_def)
  have firsts: "sorted (map fst prs)" "distinct (map fst prs)" by (simp_all add: prs(1))
  have cpaths: "map fst conflicts = map fst (filter (\<lambda>(p, i). path_conflict xs bg ag p i \<noteq> None) prs)"
    by (simp add: conflicts_def conflict_paths)
  have "strictly_sorted (map at_path delta) \<and> set (map at_path delta) \<subseteq> set (touched_change_paths xs) \<and> length delta \<le> length (touched_change_paths xs)"
  proof (cases "conflicts = []")
    case True
    then have d: "map at_path delta = map fst (filter (\<lambda>(p, a). \<not> content_equal (first_before xs p) a) prs)"
      by (simp add: delta_def delta_paths)
    have "strictly_sorted (map at_path delta)" unfolding d by (rule sorted_firsts[OF firsts])
    moreover have "set (map at_path delta) \<subseteq> set (touched_change_paths xs)" unfolding d prs(1)[symmetric] by auto
    moreover have "length (map at_path delta) \<le> length prs" unfolding d by simp
    ultimately show ?thesis by (simp add: prs(3))
  qed (simp add: delta_def strictly_sorted_iff)
  then have dpaths: "strictly_sorted (map at_path delta)" "set (map at_path delta) \<subseteq> set (touched_change_paths xs)" "length delta \<le> length (touched_change_paths xs)"
    by blast+
  have cset: "strictly_sorted (map fst conflicts)" "set (map fst conflicts) \<subseteq> set (touched_change_paths xs)" "length conflicts \<le> length (touched_change_paths xs)"
  proof -
    show "strictly_sorted (map fst conflicts)" unfolding cpaths by (rule sorted_firsts[OF firsts])
    show "set (map fst conflicts) \<subseteq> set (touched_change_paths xs)" unfolding cpaths prs(1)[symmetric] by auto
    have "length (map fst conflicts) \<le> length prs" unfolding cpaths by simp
    then show "length conflicts \<le> length (touched_change_paths xs)" by (simp add: prs(3))
  qed
  have "sorted (guard_paths bg ag)" "distinct (guard_paths bg ag)" by (simp_all add: guard_paths_def)
  then have wpaths: "strictly_sorted (map dr_path drift)" "set (map dr_path drift) \<inter> set (touched_change_paths xs) = {}"
    by (auto simp: drift_def drift_paths strictly_sorted_iff sorted_filter[where f = id, simplified])
  have classed: "list_all (\<lambda>e. (dr_path e \<in> set deps) = (dr_class e = Drift_dependency)) drift"
    by (auto simp: drift_def workspace_drift_def list_all_iff)
  have "sum_list (map (id_bytes \<circ> at_after) delta) \<le> sum_list (map id_bytes finals)"
  proof (cases "conflicts = []")
    case True
    have "map (id_bytes \<circ> at_after) (worker_delta xs prs) = map (id_bytes \<circ> snd) (filter (\<lambda>(p, a). \<not> content_equal (first_before xs p) a) prs)"
      by (simp add: worker_delta_def split_def comp_def)
    then show ?thesis using sum_filter_le[of "id_bytes \<circ> snd" _ prs] prs(2) by (simp add: delta_def True map_map[symmetric] del: map_map)
  qed (simp add: delta_def)
  then have bytes: "sum_list (map (id_bytes \<circ> at_after) delta) \<le> im_bytes m" using m(4) by simp
  have tot: "im_bytes m \<le> 9007199254740991" using m(3) by (simp add: max_identity_total_bytes_def)
  have dep: "dependency_drift drift \<le> length drift" by (simp add: dependency_drift_def)
  have hard: "max_change_paths = 500" "max_identity_paths = 500" by (simp_all add: max_change_paths_def max_identity_paths_def)
  have sel: "cs_delegation c = d" "cs_contract c = ch" "cs_journal c = jh" "cs_before c = gd_hash bg" "cs_after c = gd_hash ag"
    "cs_dependencies c = deps" "cs_status c = (if conflicts \<noteq> [] then Cs_conflict else if drift \<noteq> [] then Cs_drift else Cs_attributed)"
    "cs_delta c = delta" "cs_drift c = drift" "cs_conflicts c = conflicts" "cs_meter c = m" "cs_counts c = k"
    "cs_delta_hash c = delta_hash delta conflicts" "cs_guard_hash c = gd_hash ag"
    by (simp_all add: c c0_def)
  have ks: "cc_touched k = length (touched_change_paths xs)" "cc_attributed k = length delta"
    "cc_zero k = (if conflicts = [] then length (touched_change_paths xs) - length delta else 0)" "cc_drift k = length drift"
    "cc_dependency k = dependency_drift drift" "cc_unknown k = length drift - dependency_drift drift" "cc_conflict k = length conflicts"
    by (simp_all add: k_def)
  have hashes: "hash_re (delta_hash delta conflicts)" "hash_re (change_set_hash c)" by (simp_all add: delta_hash_def change_set_hash_def)
  have apart: "set (map dr_path drift) \<inter> set (map at_path delta) = {}" "set (map fst conflicts) \<inter> set (map dr_path drift) = {}"
    "conflicts \<noteq> [] \<Longrightarrow> delta = []"
    using wpaths(2) dpaths(2) cset(2) by (blast, blast, simp add: delta_def)
  have ok: "change_set_ok c"
    unfolding change_set_ok_def Let_def sel hash ks
    using ids m(1-3) dpaths cset(1,3) wpaths(1) classed bytes tot room xs(3) hard hashes apart
    by (cases "conflicts = []") (simp_all add: of_nat_diff)
  have deltas: "list_all attributed_wf delta"
    using worker_delta_wf[OF xs(1,2) finals] by (simp add: delta_def prs_def)
  have drifts: "list_all drift_wf drift" unfolding drift_def by (rule workspace_drift_wf[OF guards])
  have confs: "list_all (strict_identity_path \<circ> fst) conflicts"
  proof -
    have "strict_identity_path p" if "p \<in> set (touched_change_paths xs)" for p
      using that xs(1) by (auto simp: list_all_iff strict_op_wf_def)
    then show ?thesis using cset(2) by (auto simp: list_all_iff)
  qed
  have safe: "n \<le> 500 \<Longrightarrow> safe_nat n" for n by (simp add: safe_nat_def max_safe_integer_def)
  show ?thesis
    by (rule change_set_read[where k = k, OF ok]; unfold sel ks)
      (use deps deltas drifts confs dpaths(3) cset(3) room dep xs(3) hard in \<open>simp_all add: safe\<close>)
qed

end
