(* ===== verification/Attribution.thy ===== *)
theory Attribution
  imports Change_Safety
begin

section \<open>Attribution of changes, end to end\<close>

text \<open>
  From captured files to a stored change set: what a capture, a journal, a collected guard, a change set
  and the finalizer promise.
\<close>

subsection \<open>Guard entries are compared exactly\<close>

lemma guard_entry_value_ok: "guard_entry_wf e \<Longrightarrow> value_ok (guard_entry_value e)"
  by (cases "we_identity e")
    (simp_all add: guard_entry_wf_def safe_nat_def max_safe_integer_def guard_entry_value_def value_ok_def counter_value_def id_stat_value_def)

lemma guard_identity_value_inj: "guard_identity_value a = guard_identity_value b \<longleftrightarrow> a = b"
proof (cases a; cases b)
  fix k n st k' n' st'
  assume ab: "a = Guard_present k n st" "b = Guard_present k' n' st'"
  have "id_stat_value st = id_stat_value st' \<longleftrightarrow> st = st'" by (cases st; cases st') (simp add: id_stat_value_def)
  then show ?thesis by (simp add: ab guard_kind.text_inj)
qed simp_all

lemma guard_entry_value_inj: "guard_entry_value a = guard_entry_value b \<longleftrightarrow> a = b"
  by (cases a; cases b) (simp add: guard_entry_value_def guard_identity_value_inj)

lemma guard_entry_equal_iff:
  assumes "\<And>e. l = Some e \<Longrightarrow> guard_entry_wf e" "\<And>e. r = Some e \<Longrightarrow> guard_entry_wf e"
  shows "guard_entry_equal l r \<longleftrightarrow> l = r"
proof (cases l; cases r)
  fix a b assume l: "l = Some a" "r = Some b"
  have "print_value (guard_entry_value a) = print_value (guard_entry_value b) \<Longrightarrow> guard_entry_value a = guard_entry_value b"
    using print_value_inj[OF guard_entry_value_ok[OF assms(1)[OF l(1)]] guard_entry_value_ok[OF assms(2)[OF l(2)]] stops_nil stops_nil] by simp
  then show ?thesis using l by (auto simp: guard_entry_equal_def guard_entry_value_inj)
qed (simp_all add: guard_entry_equal_def)

subsection \<open>The parts of a computed change set\<close>

definition computed_from ::
  "string \<Rightarrow> fields \<Rightarrow> journal_op list \<Rightarrow> guard \<Rightarrow> guard \<Rightarrow> string list \<Rightarrow> path_identity list \<Rightarrow> change_set \<Rightarrow> bool" where
  "computed_from cfg f xs bg ag deps finals c =
     (change_facts cfg f = Inr ((cs_delegation c, cs_contract c, cs_journal c), xs, (bg, ag), deps)
      \<and> length (touched_change_paths xs) \<le> max_change_paths
      \<and> (\<exists>vs. get_prop f ''final_identities'' = JArr vs \<and> strict_finals (touched_change_paths xs) vs = Some finals)
      \<and> strict_meter (length (touched_change_paths xs)) finals (get_prop f ''finalization_meter'') = Some (cs_meter c)
      \<and> attribute_changes (cs_delegation c) (cs_contract c) (cs_journal c) xs bg ag deps finals (cs_meter c) = Inr c)"

lemma attribute_fields:
  assumes "attribute_changes d ch jh xs bg ag deps finals m = Inr c"
  shows "cs_delegation c = d" "cs_contract c = ch" "cs_journal c = jh" "cs_meter c = m" "cs_dependencies c = deps"
    "cs_conflicts c = change_conflicts xs bg ag (zip (touched_change_paths xs) finals)"
    "cs_drift c = workspace_drift deps (touched_change_paths xs) bg ag"
    "cs_delta c = (if cs_conflicts c = [] then worker_delta xs (zip (touched_change_paths xs) finals) else [])"
    "cs_status c = (if cs_conflicts c \<noteq> [] then Cs_conflict else if cs_drift c \<noteq> [] then Cs_drift else Cs_attributed)"
  using assms by (simp_all add: attribute_changes_def Let_def split: if_split_asm) (drule sym, simp)+

lemma compute_cases:
  assumes "compute_change_set cfg v = Inr c"
  obtains f xs bg ag deps finals where "v = JObj f" "computed_from cfg f xs bg ag deps finals c"
proof -
  from assms obtain f d ch jh xs bg ag deps vs finals m where x: "v = JObj f" "change_facts cfg f = Inr ((d, ch, jh), xs, (bg, ag), deps)"
    "length (touched_change_paths xs) \<le> max_change_paths" "get_prop f ''final_identities'' = JArr vs" "strict_finals (touched_change_paths xs) vs = Some finals"
    "strict_meter (length (touched_change_paths xs)) finals (get_prop f ''finalization_meter'') = Some m"
    "attribute_changes d ch jh xs bg ag deps finals m = Inr c"
    unfolding compute_change_set_def Let_def by (auto split: option.splits sum.splits prod.splits if_splits)
  show thesis
    by (rule that[OF x(1), of xs bg ag deps finals])
      (use x(2-7) attribute_fields(1-4)[OF x(7)] in \<open>simp add: computed_from_def\<close>)
qed

lemma computed_valid:
  assumes "computed_from cfg f xs bg ag deps finals c"
  shows "validate_change_set (change_set_value c) = Some c"
proof -
  from assms obtain vs where x: "change_facts cfg f = Inr ((cs_delegation c, cs_contract c, cs_journal c), xs, (bg, ag), deps)"
    "length (touched_change_paths xs) \<le> max_change_paths" "strict_finals (touched_change_paths xs) vs = Some finals"
    "strict_meter (length (touched_change_paths xs)) finals (get_prop f ''finalization_meter'') = Some (cs_meter c)"
    "attribute_changes (cs_delegation c) (cs_contract c) (cs_journal c) xs bg ag deps finals (cs_meter c) = Inr c"
    by (auto simp: computed_from_def)
  note s = change_facts_sound[OF x(1)] and fin = strict_finals_sound[OF x(3)]
  from x(4) have m: "im_attempted (cs_meter c) = length (touched_change_paths xs)" "im_completed (cs_meter c) = length (touched_change_paths xs)"
    "im_bytes (cs_meter c) \<le> max_identity_total_bytes" "sum_list (map id_bytes finals) \<le> im_bytes (cs_meter c)"
    by (auto simp: strict_meter_def split: option.splits if_splits)
  show ?thesis
    by (rule attribute_changes_valid[OF s(1-3,11,12,4,5) x(2) s(8,9,15) conjunct1[OF fin] conjunct2[OF fin] m x(5)])
qed

lemma computed_change_set: "compute_change_set cfg v = Inr c \<Longrightarrow> validate_change_set (change_set_value c) = Some c"
  using computed_valid by (elim compute_cases) blast

text \<open>C34: whatever is computed, the validator of stored change sets reads back as it was.\<close>

theorem computed_change_set_validates:
  assumes "compute_change_set cfg v = Inr c"
  shows "validate_change_set (change_set_value c) = Some c"
  by (rule computed_change_set[OF assms])

subsection \<open>Attribution\<close>

lemma zip_finals: "map id_path finals = ps \<Longrightarrow> zip ps finals = map (\<lambda>i. (id_path i, i)) finals"
  by (induction finals arbitrary: ps) auto

lemma no_conflicts:
  "change_conflicts xs bg ag prs = [] \<longleftrightarrow> (\<forall>(p, i)\<in>set prs. path_conflict xs bg ag p i = None)"
  by (induction prs) (auto simp: change_conflicts_def List.map_filter_simps split: option.splits)

lemma path_conflict_None:
  "path_conflict xs bg ag p i = None \<longleftrightarrow>
     last_after xs p = Some i \<and> entry_matches (guard_at bg p) (first_before xs p) \<and> entry_matches (guard_at ag p) i"
  by (auto simp: path_conflict_def)

definition delta_facts :: "change_set \<Rightarrow> (string \<times> path_identity \<times> path_identity) set" where
  "delta_facts c = (\<lambda>e. (at_path e, at_before e, at_after e)) ` set (cs_delta c)"

definition journal_facts :: "journal_op list \<Rightarrow> (string \<times> path_identity \<times> path_identity) set" where
  "journal_facts xs =
     {(p, b, a) | p b a. p \<in> jo_path ` set xs \<and> b = first_before xs p \<and> last_after xs p = Some a \<and> \<not> content_equal b a}"

lemma computed_delta:
  assumes "map id_path finals = touched_change_paths xs" "change_conflicts xs bg ag (zip (touched_change_paths xs) finals) = []"
  shows "(\<lambda>e. (at_path e, at_before e, at_after e)) ` set (worker_delta xs (zip (touched_change_paths xs) finals)) = journal_facts xs"
proof -
  have z: "zip (touched_change_paths xs) finals = map (\<lambda>i. (id_path i, i)) finals" by (rule zip_finals[OF assms(1)])
  have set: "id_path ` set finals = jo_path ` set xs" using arg_cong[OF assms(1), of set] by simp
  have last: "last_after xs (id_path i) = Some i" if "i \<in> set finals" for i
    using assms(2) that by (auto simp: no_conflicts z path_conflict_None)
  have "p \<in> jo_path ` set xs \<and> last_after xs p = Some a \<longleftrightarrow> a \<in> set finals \<and> p = id_path a" for p a
    using set last by (metis (no_types, lifting) imageE imageI option.inject)
  moreover have "(\<lambda>e. (at_path e, at_before e, at_after e)) ` set (worker_delta xs prs)
      = {(p, b, a). (p, a) \<in> set prs \<and> b = first_before xs p \<and> \<not> content_equal b a}" for prs
    by (auto simp: worker_delta_def image_image split_def image_iff)
  ultimately show ?thesis by (auto simp: z journal_facts_def)
qed

lemma computed_drift:
  assumes "guard_wf bg" "guard_wf ag"
  shows "dr_path ` set (workspace_drift deps touched bg ag) = {p. p \<notin> set touched \<and> guard_at bg p \<noteq> guard_at ag p}"
proof -
  have eq: "guard_entry_equal (guard_at bg p) (guard_at ag p) \<longleftrightarrow> guard_at bg p = guard_at ag p" for p
    using assms guard_entry_at_wf by (intro guard_entry_equal_iff) blast+
  have "p \<in> set (guard_paths bg ag)" if "guard_at bg p \<noteq> guard_at ag p" for p
    using that guard_at_None[of bg p] guard_at_None[of ag p] by (auto simp: guard_paths_def)
  then show ?thesis by (auto simp: workspace_drift_def eq image_image)
qed

text \<open>C33: a computed change set without conflicts attributes exactly the touched paths whose content before the
  first operation differs from the content after the last one, and both guards agree with the journal on every
  touched path; with any conflict its delta is empty, whatever the journal says. In both cases its drift is exactly
  the guarded paths that changed between the guards without being touched.\<close>

theorem attribution_is_exact:
  assumes "compute_change_set cfg (JObj f) = Inr c"
  shows "\<exists>xs bg ag.
     validate_strict_journal (get_prop f ''journal'') (cs_delegation c) (cs_contract c) (cs_journal c) = Some xs
     \<and> validate_guard cfg JUndef (get_prop f ''before_guard'') = Some bg \<and> validate_guard cfg JUndef (get_prop f ''after_guard'') = Some ag
     \<and> delta_facts c = (if cs_conflicts c = [] then journal_facts xs else {})
     \<and> dr_path ` set (cs_drift c) = {p. p \<notin> jo_path ` set xs \<and> guard_at bg p \<noteq> guard_at ag p}
     \<and> (cs_conflicts c = [] \<longrightarrow> (\<forall>p\<in>jo_path ` set xs. entry_matches (guard_at bg p) (first_before xs p)
           \<and> entry_matches (guard_at ag p) (the (last_after xs p))))"
proof -
  from assms obtain f' xs bg ag deps finals where f': "JObj f = JObj f'" "computed_from cfg f' xs bg ag deps finals c" by (rule compute_cases)
  then obtain vs where x: "change_facts cfg f = Inr ((cs_delegation c, cs_contract c, cs_journal c), xs, (bg, ag), deps)"
    "strict_finals (touched_change_paths xs) vs = Some finals"
    "attribute_changes (cs_delegation c) (cs_contract c) (cs_journal c) xs bg ag deps finals (cs_meter c) = Inr c"
    by (auto simp: computed_from_def)
  note fin = conjunct1[OF strict_finals_sound[OF x(2)]] and parts = attribute_fields[OF x(3)] and s = change_facts_sound[OF x(1)]
  have v: "validate_strict_journal (get_prop f ''journal'') (cs_delegation c) (cs_contract c) (cs_journal c) = Some xs"
    "validate_guard cfg JUndef (get_prop f ''before_guard'') = Some bg" "validate_guard cfg JUndef (get_prop f ''after_guard'') = Some ag"
    using x(1) unfolding change_facts_def by (auto split: option.splits if_splits)
  have delta: "delta_facts c = (if cs_conflicts c = [] then journal_facts xs else {})"
    using computed_delta[OF fin] parts(6,8) by (auto simp: delta_facts_def)
  have drift: "dr_path ` set (cs_drift c) = {p. p \<notin> jo_path ` set xs \<and> guard_at bg p \<noteq> guard_at ag p}"
    using computed_drift[OF s(8,9), of deps "touched_change_paths xs"] by (simp add: parts(7))
  have "entry_matches (guard_at bg p) (first_before xs p) \<and> entry_matches (guard_at ag p) (the (last_after xs p))"
    if "cs_conflicts c = []" "p \<in> jo_path ` set xs" for p
  proof -
    have "p \<in> id_path ` set finals" using that(2) arg_cong[OF fin, of set] by simp
    then obtain i where "i \<in> set finals" "p = id_path i" by blast
    with that(1) show ?thesis by (auto simp: parts(6) no_conflicts zip_finals[OF fin] path_conflict_None)
  qed
  with v delta drift show ?thesis by blast
qed

subsection \<open>The finalizer\<close>

lemma journal_paths_eq:
  assumes "validate_strict_journal (get_prop f ''journal'') d ch jh = Some xs"
  shows "journal_paths f = map jo_path xs"
proof -
  have op: "strict_operation v n = Some x \<Longrightarrow> \<exists>xf. v = JObj xf \<and> get_prop xf ''path'' = JStr (jo_path x)" for v n x
    unfolding strict_operation_def by (auto split: option.splits if_splits)
  have "strict_operations n vs = Some xs \<Longrightarrow>
      List.map_filter (\<lambda>v. case as_record v of Some xf \<Rightarrow> as_string (get_prop xf ''path'') | None \<Rightarrow> None) vs = map jo_path xs" for n vs
    by (induction vs arbitrary: n xs) (auto simp: List.map_filter_simps dest!: op split: option.splits)
  with assms show ?thesis
    unfolding validate_strict_journal_def journal_paths_def by (auto split: option.splits if_splits)
qed

definition pure_fields :: "fields \<Rightarrow> path_identity list \<Rightarrow> id_meter \<Rightarrow> fields" where
  "pure_fields f finals m = the (as_record (pure_input f finals m))"

lemma pure_input_fields: "pure_input f finals m = JObj (pure_fields f finals m)"
  by (simp add: pure_fields_def pure_input_def)

lemma pure_fields_get:
  "get_prop (pure_fields f finals m) ''delegation_id'' = get_prop f ''delegation_id''"
  "get_prop (pure_fields f finals m) ''contract_hash'' = get_prop f ''contract_hash''"
  "get_prop (pure_fields f finals m) ''journal_hash'' = get_prop f ''journal_hash''"
  "get_prop (pure_fields f finals m) ''journal'' = get_prop f ''journal''"
  "get_prop (pure_fields f finals m) ''before_guard'' = get_prop f ''before_guard''"
  "get_prop (pure_fields f finals m) ''after_guard'' = get_prop f ''after_guard''"
  "get_prop (pure_fields f finals m) ''dependency_paths'' = get_prop f ''dependency_paths''"
  "get_prop (pure_fields f finals m) ''final_identities'' = JArr (map path_identity_value finals)"
  "get_prop (pure_fields f finals m) ''finalization_meter'' = meter_value m"
  "exact_fields (pure_fields f finals m) change_input_fields = True"
  by (simp_all add: pure_fields_def pure_input_def get_prop_def exact_fields_def own_keys_def change_input_fields_def)

lemma pure_facts: "change_facts cfg (pure_fields f finals m) = change_facts cfg (pure_fields f [] zero_meter)"
  unfolding change_facts_def pure_fields_get ..

lemma strict_finals_values:
  "map id_path is = ps \<Longrightarrow> list_all (\<lambda>i. identity_wf i \<and> strict_identity_path (id_path i) \<and> id_bytes i \<le> max_identity_file_bytes) is \<Longrightarrow>
     strict_finals ps (map path_identity_value is) = Some is"
  by (induction "is" arbitrary: ps) (auto simp: strict_identity_read)

lemma finalizer_limits_bounds:
  "finalizer_limits v = Some l \<Longrightarrow> il_paths l \<le> max_identity_paths \<and> il_total l \<le> max_identity_total_bytes \<and> il_file l \<le> max_identity_file_bytes"
  by (auto simp: finalizer_limits_def limit_ok_def max_identity_paths_def max_identity_total_bytes_def max_identity_file_bytes_def
      dest!: read_limit_sound split: option.splits if_splits)

text \<open>After a capture of the touched paths the computation only fails when the drift is too large.\<close>

lemma compute_after_capture:
  assumes facts: "change_facts cfg (pure_fields f finals m) = Inr ((d, ch, jh), xs, (bg, ag), deps)"
    and lims: "finalizer_limits limits = Some l" and room: "length (touched_change_paths xs) \<le> il_paths l"
    and cap: "capture_identities io root_abs (Some l) zero_meter (touched_change_paths xs) = (Inr finals, m)"
  shows "compute_change_set cfg (pure_input f finals m) = attribute_changes d ch jh xs bg ag deps finals m"
    "\<exists>rt. io_root io = Io (Some rt) \<and> list_all (held_still io root_abs rt) finals"
proof -
  note b = finalizer_limits_bounds[OF lims]
  have zero: "meter_wf zero_meter" by (simp add: meter_wf_def zero_meter_def)
  from capture_identities_facts(3)[OF cap zero refl] obtain rt where rt: "io_root io = Io (Some rt)" "map id_path finals = sort (touched_change_paths xs)"
    "list_all strict_identity_path (touched_change_paths xs)" "list_all (held_still io root_abs rt) finals" "list_all (\<lambda>i. id_bytes i \<le> il_file l) finals"
    "meter_fits l m" "m = \<lparr>im_attempted = length (touched_change_paths xs), im_completed = length (touched_change_paths xs), im_bytes = sum_list (map id_bytes finals)\<rparr>"
    by (auto simp: zero_meter_def)
  have paths: "map id_path finals = touched_change_paths xs" using rt(2) by (simp add: sorted_sort_id)
  have ok: "list_all (\<lambda>i. identity_wf i \<and> strict_identity_path (id_path i) \<and> id_bytes i \<le> max_identity_file_bytes) finals"
    unfolding list_all_iff
  proof
    fix i assume i: "i \<in> set finals"
    then have "id_path i \<in> set (touched_change_paths xs)" using arg_cong[OF paths, of set] by (metis imageI list.set_map)
    with i rt(3-5) b show "identity_wf i \<and> strict_identity_path (id_path i) \<and> id_bytes i \<le> max_identity_file_bytes"
      using held_still_wf by (fastforce simp: list_all_iff)
  qed
  have bytes: "im_bytes m \<le> max_identity_total_bytes" using rt(6) b by (simp add: meter_fits_def)
  have "normalize_meter (meter_value m) = Some m"
    using bytes room b by (intro meter_read) (auto simp: rt(7) intro: safe_nat_le hard_limits(3,4))
  then have meter: "strict_meter (length (touched_change_paths xs)) finals (meter_value m) = Some m"
    using bytes by (simp add: strict_meter_def rt(7) max_identity_total_bytes_def)
  have "length (touched_change_paths xs) \<le> max_change_paths" using room b by (simp add: max_identity_paths_def max_change_paths_def)
  then show "compute_change_set cfg (pure_input f finals m) = attribute_changes d ch jh xs bg ag deps finals m"
    using facts meter strict_finals_values[OF paths ok]
    by (simp add: compute_change_set_def pure_input_fields pure_fields_get Let_def)
  show "\<exists>rt. io_root io = Io (Some rt) \<and> list_all (held_still io root_abs rt) finals" using rt by blast
qed

lemma attribute_error: "attribute_changes d ch jh xs bg ag deps finals m = Inl e \<Longrightarrow> e = C_limit_exceeded"
  by (auto simp: attribute_changes_def Let_def split: if_splits)

text \<open>Without touched paths the first computation already gives the record.\<close>

lemma compute_preflight:
  assumes "change_facts cfg (pure_fields f [] zero_meter) = Inr ((d, ch, jh), xs, (bg, ag), deps)" "length (touched_change_paths xs) \<le> max_change_paths"
  shows "compute_change_set cfg (pure_input f [] zero_meter) =
     (if xs = [] then attribute_changes d ch jh xs bg ag deps [] zero_meter else Inl C_invalid_finals)"
proof (cases xs)
  case Nil
  have "strict_meter 0 [] (meter_value zero_meter) = Some zero_meter"
    using meter_read[of zero_meter] by (simp add: strict_meter_def zero_meter_def safe_nat_def max_safe_integer_def)
  with Nil assms show ?thesis by (simp add: compute_change_set_def pure_input_fields pure_fields_get touched_change_paths_def Let_def)
next
  case (Cons x ys)
  have "jo_path x \<in> set (touched_change_paths xs)" by (simp add: Cons)
  then obtain p ps where "touched_change_paths xs = p # ps" by (cases "touched_change_paths xs") auto
  with Cons assms show ?thesis by (simp add: compute_change_set_def pure_input_fields pure_fields_get Let_def)
qed

definition finalize_input :: "string \<Rightarrow> journal \<Rightarrow> string \<Rightarrow> guard \<Rightarrow> guard \<Rightarrow> string list \<Rightarrow> fields" where
  "finalize_input root j h bg ag deps =
     [(''project_root'', JStr root), (''delegation_id'', JStr (wj_delegation j)), (''contract_hash'', JStr (wj_contract j)), (''journal_hash'', JStr h),
      (''journal'', journal_value j), (''before_guard'', guard_value bg), (''after_guard'', guard_value ag), (''dependency_paths'', JArr (map JStr deps))]"

lemma evidence_facts:
  assumes "journal_runs rr j" "wj_sealed j" "wj_hash j = Some h"
    and "validate_guard cfg JUndef (guard_value bg) = Some bg" "validate_guard cfg JUndef (guard_value ag) = Some ag" "gd_head bg = gd_head ag"
    and deps: "length deps \<le> max_change_paths" "list_all strict_identity_path deps" "strictly_sorted deps"
  shows "change_facts cfg (pure_fields (finalize_input root j h bg ag deps) finals m)
     = Inr ((wj_delegation j, wj_contract j, h), wj_operations j, (bg, ag), deps)"
proof -
  have wf: "journal_wf j" by (rule journal_runs_wf[OF assms(1)])
  have acc: "validate_strict_journal (journal_value j) (wj_delegation j) (wj_contract j) h = Some (wj_operations j)"
    by (rule sealed_journal_accepted[OF wf assms(2,3) journal_runs_canonical[OF assms(1)]])
  have "hash_re h" "hash_re (wj_contract j)" "transaction_id_re (wj_delegation j)"
    using wf assms(2,3) by (simp_all add: journal_wf_def seal_ok_def)
  moreover have "read_list as_string (JArr (map JStr deps)) = Some deps" by (auto simp: read_list_def intro: read_all_map)
  then have "strict_dependencies (JArr (map JStr deps)) = Some deps" using deps by (simp add: strict_dependencies_def)
  moreover have g: "get_prop (finalize_input root j h bg ag deps) ''delegation_id'' = JStr (wj_delegation j)"
    "get_prop (finalize_input root j h bg ag deps) ''contract_hash'' = JStr (wj_contract j)"
    "get_prop (finalize_input root j h bg ag deps) ''journal_hash'' = JStr h"
    "get_prop (finalize_input root j h bg ag deps) ''journal'' = journal_value j"
    "get_prop (finalize_input root j h bg ag deps) ''before_guard'' = guard_value bg"
    "get_prop (finalize_input root j h bg ag deps) ''after_guard'' = guard_value ag"
    "get_prop (finalize_input root j h bg ag deps) ''dependency_paths'' = JArr (map JStr deps)"
    by (simp_all add: finalize_input_def get_prop_def)
  ultimately show ?thesis
    using acc assms(4-6) by (simp add: change_facts_def pure_fields_get hash_field_def)
qed

lemma delta_finals: "attribute_changes d ch jh xs bg ag deps finals m = Inr c \<Longrightarrow> set (map at_after (cs_delta c)) \<subseteq> set finals"
  by (auto simp: attribute_fields(8) worker_delta_def dest: set_zip_rightD split: if_splits)

lemma touched_of_journal: "journal_wf j \<Longrightarrow> length (touched_change_paths (wj_operations j)) \<le> max_change_paths"
  by (auto simp: touched_length journal_wf_def operations_fit_def limits_wf_def limit_ok_def max_journal_paths_def max_change_paths_def
      intro: order_trans)

lemma finalize_unfolds:
  assumes "exact_fields f finalize_fields" "get_prop f ''project_root'' = JStr root" "root \<noteq> []" "finalizer_limits limits = Some l"
    and "sort (remdups (journal_paths f)) = touched"
  shows "finalize_change_set cfg io root_abs limits (JObj f) =
     (case compute_change_set cfg (pure_input f [] zero_meter) of Inr c \<Rightarrow> Inr c
      | Inl e \<Rightarrow> if e \<noteq> C_invalid_finals \<and> e \<noteq> C_invalid_meter then Inl (map_pure_failure e)
          else if length touched > il_paths l then Inl (F_limit_exceeded None)
          else (case capture_identities io root_abs (Some l) zero_meter touched of
               (Inl (ie, _), m) \<Rightarrow> Inl (if overflow_error ie then F_limit_exceeded (Some ie) else F_identity_failure ie)
             | (Inr finals, m) \<Rightarrow> (case compute_change_set cfg (pure_input f finals m) of Inr c \<Rightarrow> Inr c | Inl e2 \<Rightarrow> Inl (map_pure_failure e2))))"
  using assms by (simp add: finalize_change_set_def Let_def split: sum.split prod.split)

definition settles :: "identity_io \<Rightarrow> string \<Rightarrow> string \<Rightarrow> finalize_error + change_set \<Rightarrow> bool" where
  "settles io root_abs h r =
     (case r of
        Inl e \<Rightarrow> (\<exists>ie. e = F_identity_failure ie) \<or> (\<exists>x. e = F_limit_exceeded x)
      | Inr c \<Rightarrow> validate_change_set (change_set_value c) = Some c \<and> cs_journal c = h
          \<and> (\<exists>rt. list_all (\<lambda>e. held_still io root_abs rt (at_after e)) (cs_delta c)))"

lemma attribution_settles:
  assumes "compute_change_set cfg v = attribute_changes d ch h xs bg ag deps finals m" "list_all (held_still io root_abs rt) finals"
  shows "settles io root_abs h (case compute_change_set cfg v of Inr c \<Rightarrow> Inr c | Inl e \<Rightarrow> Inl (map_pure_failure e))"
proof (cases "attribute_changes d ch h xs bg ag deps finals m")
  case (Inl e)
  with attribute_error[OF this] show ?thesis by (simp add: assms(1) settles_def map_pure_failure_def)
next
  case (Inr c)
  have "list_all (\<lambda>e. held_still io root_abs rt (at_after e)) (cs_delta c)"
    using assms(2) delta_finals[OF Inr] by (auto simp: list_all_iff)
  moreover have "validate_change_set (change_set_value c) = Some c"
    by (rule computed_change_set[OF assms(1)[unfolded Inr]])
  ultimately show ?thesis using attribute_fields(3)[OF Inr] by (auto simp: assms(1) Inr settles_def)
qed

lemma finalize_settles:
  assumes facts: "\<And>finals m. change_facts cfg (pure_fields f finals m) = Inr ((d, ch, h), xs, (bg, ag), deps)"
    and shape: "exact_fields f finalize_fields" "get_prop f ''project_root'' = JStr root" "root \<noteq> []" "finalizer_limits limits = Some l"
    and paths: "sort (remdups (journal_paths f)) = touched_change_paths xs" and room: "length (touched_change_paths xs) \<le> max_change_paths"
  shows "settles io root_abs h (finalize_change_set cfg io root_abs limits (JObj f))"
proof (cases "xs = []")
  case True
  have pre: "compute_change_set cfg (pure_input f [] zero_meter) = attribute_changes d ch h xs bg ag deps [] zero_meter"
    using compute_preflight[OF facts room] True by simp
  have "settles io root_abs h (case compute_change_set cfg (pure_input f [] zero_meter) of Inr c \<Rightarrow> Inr c | Inl e \<Rightarrow> Inl (map_pure_failure e))"
    by (rule attribution_settles[OF pre, where rt = root]) simp
  then show ?thesis
    using pre by (auto simp: finalize_unfolds[OF shape paths] split: sum.splits dest!: attribute_error)
next
  case False
  have pre: "compute_change_set cfg (pure_input f [] zero_meter) = Inl C_invalid_finals"
    using compute_preflight[OF facts room] False by simp
  obtain x m where cap: "capture_identities io root_abs (Some l) zero_meter (touched_change_paths xs) = (x, m)" by fastforce
  show ?thesis
  proof (cases "length (touched_change_paths xs) > il_paths l \<or> (\<exists>e. x = Inl e)")
    case True
    then show ?thesis using cap by (auto simp: finalize_unfolds[OF shape paths] pre settles_def split: prod.splits)
  next
    case no: False
    then obtain finals where x: "x = Inr finals" by (cases x) auto
    have few: "length (touched_change_paths xs) \<le> il_paths l" using no by simp
    note after = compute_after_capture[OF facts shape(4) few cap[unfolded x]]
    then obtain rt where "list_all (held_still io root_abs rt) finals" by blast
    from attribution_settles[OF after(1) this] show ?thesis using few cap by (simp add: finalize_unfolds[OF shape paths] pre x)
  qed
qed

text \<open>C35: the finalizer accepts every sealed journal a run can reach, with two valid guards of one head, a sorted
  list of at most 500 distinct strict dependency paths, a non-empty root and valid limits: it then fails only when
  a capture fails or a limit is exceeded, and otherwise gives a record that its validator reads back, that names the
  hash of the journal, and whose final identities were held still during the capture.\<close>

theorem finalizer_accepts_evidence:
  assumes run: "journal_runs rr j" "wj_sealed j" "wj_hash j = Some h"
    and guards: "validate_guard cfg JUndef (guard_value bg) = Some bg" "validate_guard cfg JUndef (guard_value ag) = Some ag" "gd_head bg = gd_head ag"
    and deps: "length deps \<le> max_change_paths" "list_all strict_identity_path deps" "strictly_sorted deps"
    and given: "root \<noteq> []" "finalizer_limits limits = Some l"
  shows "case finalize_change_set cfg io root_abs limits (JObj (finalize_input root j h bg ag deps)) of
      Inl e \<Rightarrow> (\<exists>ie. e = F_identity_failure ie) \<or> (\<exists>x. e = F_limit_exceeded x)
    | Inr c \<Rightarrow> validate_change_set (change_set_value c) = Some c \<and> cs_journal c = h
        \<and> (\<exists>rt. list_all (\<lambda>e. held_still io root_abs rt (at_after e)) (cs_delta c))"
proof -
  let ?f = "finalize_input root j h bg ag deps"
  note wf = journal_runs_wf[OF run(1)] and facts = evidence_facts[OF run guards deps]
  have "validate_strict_journal (get_prop ?f ''journal'') (wj_delegation j) (wj_contract j) h = Some (wj_operations j)"
    using sealed_journal_accepted[OF wf run(2,3) journal_runs_canonical[OF run(1)]] by (simp add: finalize_input_def get_prop_def)
  then have paths: "sort (remdups (journal_paths ?f)) = touched_change_paths (wj_operations j)" by (simp add: journal_paths_eq touched_change_paths_def)
  have "exact_fields ?f finalize_fields" "get_prop ?f ''project_root'' = JStr root"
    by (simp_all add: finalize_input_def finalize_fields_def exact_fields_def own_keys_def get_prop_def)
  from finalize_settles[OF facts this given paths touched_of_journal[OF wf]] show ?thesis by (simp add: settles_def)
qed

end
