(* ===== verification/Pretty_Size.thy ===== *)
theory Pretty_Size
  imports Json_Pretty
begin

section \<open>How long an indented text is\<close>

text \<open>An upper bound of the bytes of \<open>pretty_value\<close> that is computed without building the text.\<close>

lemma join_length:
  "byte_length (join_with s ts) \<le> sum_list (map (\<lambda>t. byte_length t + byte_length s) ts)"
  by (induction s ts rule: join_with.induct) auto

lemma indent_length [simp]: "byte_length (indent d) = 2 * d"
proof -
  have "byte_length (replicate n (CHR '' '')) = n" for n by (induction n) simp_all
  then show ?thesis by (simp add: indent_def)
qed

lemma block_bound:
  assumes "code_of l < (128::nat)" "code_of r < (128::nat)"
  shows "byte_length (block_text l r d ts) \<le> 4 + 2 * d + sum_list (map (\<lambda>t. byte_length t + 2 * d + 4) ts)"
proof -
  have "map (\<lambda>t. byte_length t + byte_length [CHR '','', CHR 0x0A]) (map (\<lambda>t. indent (Suc d) @ t) ts) = map (\<lambda>t. byte_length t + 2 * d + 4) ts"
    by simp
  then have "byte_length (join_with [CHR '','', CHR 0x0A] (map (\<lambda>t. indent (Suc d) @ t) ts)) \<le> sum_list (map (\<lambda>t. byte_length t + 2 * d + 4) ts)"
    using join_length[of "[CHR '','', CHR 0x0A]" "map (\<lambda>t. indent (Suc d) @ t) ts"] by (simp only:)
  then show ?thesis using assms by (simp add: block_text_def)
qed

primrec pretty_weight :: "jv \<Rightarrow> nat \<Rightarrow> nat" where
  "pretty_weight JNull d = 8"
| "pretty_weight (JStr s) d = 2 + 8 * length s"
| "pretty_weight (JBool b) d = 10"
| "pretty_weight (JNum n) d = 2 * length (num_text n)"
| "pretty_weight JUndef d = 18"
| "pretty_weight (JExotic k) d = 2 * length k"
| "pretty_weight (JArr vs) d = 4 + 2 * d + sum_list (map (\<lambda>w. w (Suc d) + 2 * d + 4) (map pretty_weight vs))"
| "pretty_weight (JObj kvs) d =
     4 + 2 * d + sum_list (map (\<lambda>(k, w). w (Suc d) + 8 * length k + 4 + 2 * d + 4) (map (map_prod id pretty_weight) kvs))"

lemma pretty_bound: "byte_length (pretty_value v d) \<le> pretty_weight v d"
proof (induction v arbitrary: d)
  case (JNum n) then show ?case by (simp add: byte_length_bound)
next
  case (JStr s) then show ?case using quote_bound[of s] by simp
next
  case (JExotic k) then show ?case by (simp add: byte_length_bound)
next
  case (JArr vs)
  let ?ts = "map (\<lambda>f. f (Suc d)) (map pretty_value vs)"
  have "sum_list (map (\<lambda>t. byte_length t + 2 * d + 4) ?ts) \<le> sum_list (map (\<lambda>w. w (Suc d) + 2 * d + 4) (map pretty_weight vs))"
    unfolding map_map by (rule sum_list_mono) (simp add: JArr.IH)
  with block_bound[of "CHR ''[''" "CHR '']''" d ?ts] show ?case by simp
next
  case (JObj kvs)
  let ?ts = "map (\<lambda>(k, f). quote_json k @ '': '' @ f (Suc d)) (map (map_prod id pretty_value) kvs)"
  have "sum_list (map (\<lambda>t. byte_length t + 2 * d + 4) ?ts)
      \<le> sum_list (map (\<lambda>(k, w). w (Suc d) + 8 * length k + 4 + 2 * d + 4) (map (map_prod id pretty_weight) kvs))"
    unfolding map_map
  proof (rule sum_list_mono)
    fix kv assume "kv \<in> set kvs"
    moreover obtain k v where kv: "kv = (k, v)" by (cases kv)
    ultimately have "byte_length (pretty_value v (Suc d)) \<le> pretty_weight v (Suc d)" using JObj.IH[of kv v] by simp
    then show "((\<lambda>t. byte_length t + 2 * d + 4) \<circ> ((\<lambda>(k, f). quote_json k @ '': '' @ f (Suc d)) \<circ> map_prod id pretty_value)) kv
        \<le> ((\<lambda>(k, w). w (Suc d) + 8 * length k + 4 + 2 * d + 4) \<circ> map_prod id pretty_weight) kv"
      using quote_bound[of k] by (simp add: kv)
  qed
  with block_bound[of "CHR ''{''" "CHR ''}''" d ?ts] show ?case by simp
qed simp_all

lemma pretty_line_bound: "pretty_weight v 0 \<le> n \<Longrightarrow> byte_length (pretty_line v) \<le> Suc n"
  using pretty_bound[of v 0] by (simp add: pretty_line_def)

end
