(* ===== verification/Attribution_Examples.thy ===== *)
theory Attribution_Examples
  imports Attribution Pretty_Size
begin

section \<open>A worker that makes one file\<close>

text \<open>
  One delegation creates the file \<open>a\<close>: the journal is created, the operation begun while the file is
  missing and completed when it is there, and the journal is sealed. The properties of the attribution are
  applied to this run.
\<close>

subsection \<open>The file system and the inputs\<close>

definition ex_stat :: path_stat where
  "ex_stat = \<lparr>ps_file = True, ps_link = False, ps_dev = 1, ps_ino = 2, ps_size = 1, ps_mtime = 3, ps_ctime = 4\<rparr>"

definition ex_io :: "bool \<Rightarrow> identity_io" where
  "ex_io present =
     \<lparr>io_root = Io (Some ''/w''), io_fault = (\<lambda>pt p n. False),
      io_lstat = (\<lambda>ph p. Io (if present then Some ex_stat else None)),
      io_realpath = (\<lambda>ph p t. Io (if t = ''/w'' \<or> present then Some t else None)),
      io_open = (\<lambda>p. True), io_handle_stat = (\<lambda>ph p. Io ex_stat), io_read = (\<lambda>p off n. Io [104]), io_close = (\<lambda>p. True)\<rparr>"

lemma ex_io_simps [simp]:
  "io_root (ex_io b) = Io (Some ''/w'')" "io_fault (ex_io b) pt p n = False"
  "io_lstat (ex_io b) ph p = Io (if b then Some ex_stat else None)"
  "io_realpath (ex_io b) ph p t = Io (if t = ''/w'' \<or> b then Some t else None)"
  "io_open (ex_io b) p = True" "io_handle_stat (ex_io b) ph p = Io ex_stat" "io_read (ex_io b) p off n = Io [104]" "io_close (ex_io b) p = True"
  by (simp_all add: ex_io_def)

lemma ex_stat_simps [simp]: "ps_file ex_stat" "\<not> ps_link ex_stat" "same_stat ex_stat ex_stat"
  by (simp_all add: ex_stat_def same_stat_def)

definition ex_delegation :: string where "ex_delegation = ''20260101-000000-abcd''"
definition ex_hash :: "char \<Rightarrow> string" where "ex_hash c = replicate 64 c"

definition ex_input :: "nat \<Rightarrow> journal_input" where
  "ex_input r = \<lparr>ji_delegation = ex_delegation, ji_contract = ex_hash (CHR ''a''), ji_revision = r, ji_op = ex_hash (CHR ''b''),
     ji_kind = Write_write, ji_path = ''a''\<rparr>"

definition ex_after :: path_identity where
  "ex_after = File_at ''a'' 1 (sha256_hex_bytes [104]) \<lparr>st_dev = ''1'', st_ino = ''2'', st_mtime = ''3'', st_ctime = ''4''\<rparr>"

definition ex_limits :: journal_limits where
  "ex_limits = \<lparr>jl_paths = max_journal_paths, jl_operations = max_journal_operations, jl_identities = max_identity_paths,
     jl_total = max_identity_total_bytes, jl_file = max_identity_file_bytes, jl_serialized = max_journal_bytes\<rparr>"

definition ex_op :: "(path_identity \<times> write_outcome) option \<Rightarrow> journal_op" where
  "ex_op result = \<lparr>jo_sequence = 1, jo_id = ex_hash (CHR ''b''), jo_kind = Write_write, jo_path = ''a'', jo_before = Missing_at ''a'', jo_result = result\<rparr>"

definition ex_journal :: "nat \<Rightarrow> id_meter \<Rightarrow> journal_op list \<Rightarrow> journal" where
  "ex_journal r m xs = \<lparr>wj_delegation = ex_delegation, wj_contract = ex_hash (CHR ''a''), wj_sealed = False, wj_revision = r,
     wj_limits = ex_limits, wj_meter = m, wj_operations = xs, wj_hash = None\<rparr>"

definition ex_meter :: "nat \<Rightarrow> nat \<Rightarrow> id_meter" where
  "ex_meter n b = \<lparr>im_attempted = n, im_completed = n, im_bytes = b\<rparr>"

lemma ex_ids: "transaction_id_re ex_delegation" "hash_re (ex_hash (CHR ''a''))" "hash_re (ex_hash (CHR ''b''))" "strict_identity_path ''a''"
proof -
  have "list_all is_lower_hex (replicate n c)" if "is_lower_hex c" for n c using that by (induction n) simp_all
  then show "hash_re (ex_hash (CHR ''a''))" "hash_re (ex_hash (CHR ''b''))" by (simp_all add: ex_hash_def hash_re_def is_lower_hex_def)
  show "transaction_id_re ex_delegation" by code_simp
  show "strict_identity_path ''a''" by code_simp
qed

lemmas ex_bounds = max_journal_paths_def max_journal_operations_def max_identity_paths_def max_identity_total_bytes_def
  max_identity_file_bytes_def max_journal_bytes_def max_journal_revision_def

subsection \<open>Two captures\<close>

lemma ex_inside: "resolve_under ''/w'' ''a'' = ''/w/a''" "posix_dirname ''/w/a'' = ''/w''" "posix_is_absolute ''/w''"
  by code_simp+

definition ex_id_limits :: id_limits where
  "ex_id_limits = \<lparr>il_paths = max_identity_paths, il_total = max_identity_total_bytes, il_file = max_identity_file_bytes\<rparr>"

lemma ex_missing: "capture_one (ex_io False) ''/w'' ex_id_limits used ''a'' ''/w/a'' = (Inr (Missing_at ''a''), [])"
proof -
  have "deepest_existing (io_realpath (ex_io False) ph ''a'') ''/w'' = Io (Some ''/w'')" for ph
    by (subst deepest_existing.simps) simp
  then show ?thesis by (simp add: capture_one_def capture_missing_def ex_inside real_inside_def path_contained_def)
qed

lemma ex_read: "read_chunks (ex_io True) ''a'' 1 [] = (None, [104])"
  by (subst read_chunks_step) (simp_all add: identity_chunk_bytes_def read_chunks_done)

lemma ex_normal: "safe_byte_size ex_stat = Some 1" "normalized_stat ex_stat = Some \<lparr>st_dev = ''1'', st_ino = ''2'', st_mtime = ''3'', st_ctime = ''4''\<rparr>"
  by code_simp+

lemma ex_present:
  assumes "used < max_identity_total_bytes"
  shows "capture_one (ex_io True) ''/w'' ex_id_limits used ''a'' ''/w/a'' = (Inr ex_after, [104])"
proof -
  have inside: "starts_with ''/w/'' ''/w/a''" by code_simp
  have "verify_after (ex_io True) ''/w'' ''a'' ex_stat ''/w/a'' ''/w/a'' = None"
    using inside by (simp add: verify_after_def path_contained_def)
  then have "capture_opened (ex_io True) ''/w'' ex_id_limits used ''a'' ''/w/a'' ex_stat ''/w/a'' = (Inr ex_after, [104])"
    using assms ex_read by (simp add: capture_opened_def ex_normal ex_id_limits_def ex_bounds ex_after_def)
  then show ?thesis using inside by (simp add: capture_one_def path_contained_def)
qed

lemma ex_capture:
  assumes "n + 1 \<le> max_identity_paths" "b < max_identity_total_bytes"
  shows "capture_identities (ex_io False) ''/w'' (Some ex_id_limits) (ex_meter n b) [''a''] = (Inr [Missing_at ''a''], ex_meter (n + 1) b)"
    "capture_identities (ex_io True) ''/w'' (Some ex_id_limits) (ex_meter n b) [''a''] = (Inr [ex_after], ex_meter (n + 1) (b + 1))"
proof -
  have inside: "starts_with ''/w/'' ''/w/a''" by code_simp
  have m: "meter_wf (ex_meter n b)" "\<not> il_paths ex_id_limits < im_attempted (ex_meter n b)"
    "\<not> il_paths ex_id_limits - im_attempted (ex_meter n b) < length [''a'']" "\<not> il_total ex_id_limits < im_bytes (ex_meter n b)"
    using assms by (simp_all add: meter_wf_def ex_meter_def ex_id_limits_def ex_bounds)
  have b: "im_bytes (ex_meter n b) < max_identity_total_bytes" using assms by (simp add: ex_meter_def)
  have start: "capture_identities (ex_io q) ''/w'' (Some ex_id_limits) (ex_meter n b) [''a'']
      = capture_paths (ex_io q) ''/w'' ''/w'' ex_id_limits (ex_meter n b) [''a'']" for q
    using m ex_ids(4) ex_inside(3) by (simp add: capture_identities_def)
  show "capture_identities (ex_io False) ''/w'' (Some ex_id_limits) (ex_meter n b) [''a''] = (Inr [Missing_at ''a''], ex_meter (n + 1) b)"
    unfolding start by (simp add: ex_inside inside ex_missing) (simp add: ex_meter_def)
  show "capture_identities (ex_io True) ''/w'' (Some ex_id_limits) (ex_meter n b) [''a''] = (Inr [ex_after], ex_meter (n + 1) (b + 1))"
    unfolding start using ex_present[OF assms(2)] by (simp add: ex_inside inside Let_def) (simp add: ex_meter_def)
qed

lemma ex_capture_path:
  assumes "n + 1 \<le> max_identity_paths" "b < max_identity_total_bytes"
  shows "capture_path (ex_io False) ''/w'' (ex_journal r (ex_meter n b) xs) ''a'' = (Inr [Missing_at ''a''], ex_meter (n + 1) b)"
    "capture_path (ex_io True) ''/w'' (ex_journal r (ex_meter n b) xs) ''a'' = (Inr [ex_after], ex_meter (n + 1) (b + 1))"
proof -
  have "normalize_id_limits (Some (int (jl_identities (wj_limits (ex_journal r (ex_meter n b) xs)))))
      (Some (int (jl_total (wj_limits (ex_journal r (ex_meter n b) xs))))) (Some (int (jl_file (wj_limits (ex_journal r (ex_meter n b) xs))))) = Some ex_id_limits"
    by (simp add: normalize_id_limits_def limit_within_def ex_journal_def ex_limits_def ex_id_limits_def ex_bounds)
  moreover have "wj_meter (ex_journal r (ex_meter n b) xs) = ex_meter n b" by (simp add: ex_journal_def)
  ultimately show "capture_path (ex_io False) ''/w'' (ex_journal r (ex_meter n b) xs) ''a'' = (Inr [Missing_at ''a''], ex_meter (n + 1) b)"
    "capture_path (ex_io True) ''/w'' (ex_journal r (ex_meter n b) xs) ''a'' = (Inr [ex_after], ex_meter (n + 1) (b + 1))"
    using ex_capture[OF assms] by (simp_all only: capture_path_def)
qed

subsection \<open>The stored journals\<close>

definition ex_0 :: journal where "ex_0 = ex_journal 0 (ex_meter 0 0) []"
definition ex_1 :: journal where "ex_1 = ex_journal 1 (ex_meter 1 0) [ex_op None]"
definition ex_2 :: journal where "ex_2 = ex_journal 2 (ex_meter 2 1) [ex_op (Some (ex_after, Write_succeeded))]"
definition ex_open_3 :: journal where "ex_open_3 = ex_2\<lparr>wj_sealed := True, wj_revision := 3, wj_hash := None\<rparr>"
definition ex_seal :: string where "ex_seal = sha256_hex (pretty_line (JObj (payload_fields ex_open_3)))"
definition ex_3 :: journal where "ex_3 = ex_open_3\<lparr>wj_hash := Some ex_seal\<rparr>"

lemma hash_length: "length (sha256_hex s) = 64" "length (sha256_hex_bytes bs) = 64"
  using sha256_hex_hash_re[of s] bytes_hash_re[of bs] by (simp_all add: hash_re_def)

lemmas ex_weight = pretty_weight.simps journal_value_def payload_fields_def limits_value_def meter_value_def operation_value_def
  counter_value_def int_text_def nat_text.simps ex_journal_def ex_limits_def ex_bounds ex_meter_def ex_op_def ex_after_def ex_hash_def ex_delegation_def
  id_stat_value_def

lemma ex_small:
  "pretty_weight (journal_value ex_0) 0 \<le> 20000" "pretty_weight (journal_value ex_1) 0 \<le> 20000" "pretty_weight (journal_value ex_2) 0 \<le> 20000"
  "pretty_weight (journal_value ex_3) 0 \<le> 20000" "pretty_weight (JObj (payload_fields ex_open_3)) 0 \<le> 20000"
proof -
  have "length ex_seal = 64" by (simp add: ex_seal_def hash_length)
  then show "pretty_weight (journal_value ex_3) 0 \<le> 20000" "pretty_weight (JObj (payload_fields ex_open_3)) 0 \<le> 20000"
    by (simp_all add: ex_3_def ex_open_3_def ex_2_def ex_weight hash_length)
  show "pretty_weight (journal_value ex_0) 0 \<le> 20000" "pretty_weight (journal_value ex_1) 0 \<le> 20000" "pretty_weight (journal_value ex_2) 0 \<le> 20000"
    by (simp_all add: ex_0_def ex_1_def ex_2_def ex_weight hash_length)
qed

lemma fits_bound: "pretty_weight v 0 \<le> 20000 \<Longrightarrow> 20001 \<le> n \<Longrightarrow> bounded_text n v = Some (pretty_line v)"
  using pretty_line_bound[of v 20000] by (simp add: bounded_text_def)

lemma ex_canonical: "canonical_journal ex_0 \<noteq> None" "canonical_journal ex_1 \<noteq> None" "canonical_journal ex_2 \<noteq> None" "canonical_journal ex_3 \<noteq> None"
proof -
  have "jl_serialized (wj_limits j) = max_journal_bytes" if "j \<in> {ex_0, ex_1, ex_2, ex_3}" for j
    using that by (auto simp: ex_0_def ex_1_def ex_2_def ex_3_def ex_open_3_def ex_journal_def ex_limits_def)
  then show "canonical_journal ex_0 \<noteq> None" "canonical_journal ex_1 \<noteq> None" "canonical_journal ex_2 \<noteq> None" "canonical_journal ex_3 \<noteq> None"
    using ex_small by (simp_all add: canonical_journal_def fits_bound max_journal_bytes_def)
qed

lemma ex_created: "create_journal ex_delegation (ex_hash (CHR ''a'')) JUndef = Inr ex_0"
proof -
  have "normalize_limits [] = Some ex_limits"
    by (simp add: normalize_limits_def own_keys_def get_prop_def read_limit_def ex_limits_def)
  then show ?thesis
    using ex_ids(1,2) ex_canonical(1) by (simp add: create_journal_def Let_def ex_0_def ex_journal_def zero_meter_def ex_meter_def)
qed

lemma ex_input_ok: "input_error (ex_input r) = None \<longleftrightarrow> r \<le> max_journal_revision"
  using ex_ids by (simp add: input_error_def ex_input_def)

lemma ex_begun: "begin_change (ex_io False) ''/w'' ex_0 (ex_input 0) = Change ex_1 None"
proof -
  have "begin_refusal ex_0 (ex_input 0) = None"
    using ex_input_ok[of 0] by (simp add: begin_refusal_def Let_def)
      (simp add: ex_0_def ex_journal_def ex_limits_def ex_bounds readable_for_def ex_input_def)
  moreover have "capture_path (ex_io False) ''/w'' ex_0 (ji_path (ex_input 0)) = (Inr [Missing_at ''a''], ex_meter 1 0)"
    using ex_capture_path(1)[of 0 0 0 "[]"] by (simp add: ex_0_def ex_input_def ex_bounds)
  ultimately show ?thesis
    by (simp add: begin_change_def) (simp add: ex_0_def ex_1_def ex_journal_def ex_op_def ex_input_def last_identity_def)
qed

lemma ex_completed: "complete_change (ex_io True) ''/w'' ex_1 (ex_input 1) Write_succeeded = Change ex_2 None"
proof -
  have "complete_refusal ex_1 (ex_input 1) = None"
    using ex_input_ok[of 1] by (simp add: complete_refusal_def Let_def)
      (simp add: ex_1_def ex_journal_def ex_bounds readable_for_def ex_input_def ex_op_def op_done_def)
  moreover have "capture_path (ex_io True) ''/w'' ex_1 (ji_path (ex_input 1)) = (Inr [ex_after], ex_meter 2 1)"
    using ex_capture_path(2)[of 1 0 1 "[ex_op None]"] by (simp add: ex_1_def ex_input_def ex_bounds numeral_2_eq_2)
  ultimately show ?thesis
    by (simp add: complete_change_def) (simp add: ex_1_def ex_2_def ex_journal_def ex_op_def)
qed

lemma ex_sealed: "seal_change ex_2 ex_delegation (ex_hash (CHR ''a'')) 2 = Inl (Change ex_3 None)"
proof -
  have "journal_hash ex_open_3 = Some ex_seal"
    using ex_small(5) by (simp add: journal_hash_def fits_bound max_journal_bytes_def ex_seal_def)
  moreover have "ex_2\<lparr>wj_sealed := True, wj_revision := wj_revision ex_2 + 1, wj_hash := None\<rparr> = ex_open_3"
    by (simp add: ex_open_3_def ex_2_def ex_journal_def)
  moreover have "wj_delegation ex_2 = ex_delegation" "wj_contract ex_2 = ex_hash (CHR ''a'')" "wj_revision ex_2 = 2" "\<not> wj_sealed ex_2"
    "\<not> list_ex (\<lambda>x. \<not> op_done x) (wj_operations ex_2)" "valid_chain Map.empty (wj_operations ex_2)"
    by (simp_all add: ex_2_def ex_journal_def ex_op_def op_done_def)
  ultimately show ?thesis using ex_ids(1,2) by (simp add: seal_change_def Let_def max_journal_revision_def ex_3_def)
qed

lemma ex_apply:
  assumes "journal_runs ''/w'' j" "normalize_journal (journal_value j') = Some j'" "canonical_journal j' \<noteq> None"
  shows "apply_change Published j (Change j' None) = (Inr j', j')"
  using assms(2,3) by (simp add: apply_change_def)

lemma ex_run: "journal_runs ''/w'' ex_0" "journal_runs ''/w'' ex_1" "journal_runs ''/w'' ex_2" "journal_runs ''/w'' ex_3"
  and ex_steps: "journal_step ''/w'' ex_0 ex_1" "journal_step ''/w'' ex_1 ex_2" "journal_step ''/w'' ex_2 ex_3"
proof -
  show r0: "journal_runs ''/w'' ex_0" by (rule run_created[OF ex_created])
  note wf0 = journal_runs_wf[OF r0]
  show s1: "journal_step ''/w'' ex_0 ex_1"
    by (rule step_begun[where pub = Published and io = "ex_io False" and inp = "ex_input 0"], unfold ex_begun)
      (rule ex_apply[OF r0 journal_read[OF begin_change_wf[OF wf0 ex_begun]] ex_canonical(2)])
  show r1: "journal_runs ''/w'' ex_1" by (rule run_step[OF r0 s1])
  note wf1 = journal_runs_wf[OF r1]
  show s2: "journal_step ''/w'' ex_1 ex_2"
    by (rule step_completed[where pub = Published and io = "ex_io True" and inp = "ex_input 1" and outcome = Write_succeeded], unfold ex_completed)
      (rule ex_apply[OF r1 journal_read[OF complete_change_wf[OF wf1 ex_completed]] ex_canonical(3)])
  show r2: "journal_runs ''/w'' ex_2" by (rule run_step[OF r1 s2])
  note wf2 = journal_runs_wf[OF r2]
  show s3: "journal_step ''/w'' ex_2 ex_3"
    by (rule step_sealed[OF ex_sealed])
      (rule ex_apply[OF r2 journal_read[OF conjunct1[OF seal_change_wf[OF wf2 ex_sealed]]] ex_canonical(4)])
  show "journal_runs ''/w'' ex_3" by (rule run_step[OF r2 s3])
qed

subsection \<open>Captures and journals\<close>

lemma capture_is_honest_witness:
  "\<exists>lim rt. normalize_id_limits None None None = Some lim \<and> io_root (ex_io True) = Io (Some rt) \<and> held_still (ex_io True) ''/w'' rt ex_after
     \<and> meter_fits lim (ex_meter 1 1)"
proof -
  have lim: "normalize_id_limits None None None = Some ex_id_limits"
    by (simp add: normalize_id_limits_def limit_within_def ex_id_limits_def)
  have "capture_identities (ex_io True) ''/w'' (normalize_id_limits None None None) (ex_meter 0 0) [''a''] = (Inr [ex_after], ex_meter 1 1)"
    using ex_capture(2)[of 0 0] by (simp add: lim ex_bounds)
  from capture_is_honest[OF this] show ?thesis by auto
qed

lemma stored_journal_reads_back_witness:
  "normalize_journal (journal_value ex_3) = Some ex_3 \<and> normalize_journal (journal_value ex_1) = Some ex_1"
  using stored_journal_reads_back[OF ex_run(4)] stored_journal_reads_back[OF ex_run(1), of "ex_io False" "ex_input 0" ex_1] ex_begun by simp

lemma journal_history_is_kept_witness:
  "prefix (filter op_done (wj_operations ex_2)) (filter op_done (wj_operations ex_3)) \<and> filter op_done (wj_operations ex_2) \<noteq> []"
proof -
  have "(journal_step ''/w'')\<^sup>*\<^sup>* ex_2 ex_3" using ex_steps(3) by blast
  from journal_history_is_kept[OF this] show ?thesis by (simp add: ex_2_def ex_journal_def ex_op_def op_done_def)
qed

subsection \<open>Guards\<close>

definition ex_items :: "status_item list" where
  "ex_items = [\<lparr>si_status = ''??'', si_path = ''a'', si_from = None\<rparr>]"

definition ex_guard_io :: guard_io where
  "ex_guard_io =
     \<lparr>gx_fault = (\<lambda>pt p. False), gx_head = Exec_done 128 [] False, gx_status = Exec_done 0 (''?? a'' @ [CHR 0x00]) False,
      gx_lstat = (\<lambda>ph p. Io (Some (path_stat.extend ex_stat (guard_stat.fields False))))\<rparr>"

definition ex_entry :: guard_entry where
  "ex_entry = \<lparr>we_path = ''a'', we_status = ''??'',
     we_identity = Guard_present Gk_file 1 \<lparr>st_dev = ''1'', st_ino = ''2'', st_mtime = ''3'', st_ctime = ''4''\<rparr>\<rparr>"

definition ex_guard :: "guard_entry list \<Rightarrow> nat \<Rightarrow> guard" where
  "ex_guard es n = \<lparr>gd_head = None, gd_entries = es, gd_irrelevant = [],
     gd_meter = \<lparr>gm_status = n, gm_relevant = length es, gm_irrelevant = 0, gm_stats = 2 * length es\<rparr>, gd_hash = guard_hash None es\<rparr>"

definition ex_guard_limits :: guard_limits where
  "ex_guard_limits = \<lparr>gl_relevant = max_guard_paths, gl_irrelevant = max_guard_irrelevant, gl_status = max_status_bytes, gl_path = max_guard_path_bytes\<rparr>"

lemma ex_guard_limits: "normalize_guard_limits JUndef = Some ex_guard_limits"
  by (simp add: normalize_guard_limits_def own_keys_def get_prop_def read_limit_def ex_guard_limits_def)

lemma ex_strict: "strict_guard_path ''a''" "guard_status ''??''" "\<not> irrelevant_artifact ''.pi'' ''a''" "byte_length ''a'' = 1"
  "\<not> collected_irrelevant ''.pi'' ''a''"
  by code_simp+

lemma ex_stat_wf: "stat_wf \<lparr>st_dev = ''1'', st_ino = ''2'', st_mtime = ''3'', st_ctime = ''4''\<rparr>"
  by code_simp

lemma ex_guard_head [simp]: "gd_head (ex_guard es n) = None"
  by (simp add: ex_guard_def)

lemma ex_guard_valid:
  assumes "es = [] \<or> es = [ex_entry]" "n \<le> max_status_bytes"
  shows "validate_guard ''.pi'' JUndef (guard_value (ex_guard es n)) = Some (ex_guard es n)"
proof (rule guard_read[OF ex_guard_limits])
  have n: "safe_nat n" using assms(2) by (simp add: safe_nat_def max_safe_integer_def max_status_bytes_def)
  have e: "guard_entry_wf ex_entry" using ex_strict ex_stat_wf by (simp add: guard_entry_wf_def ex_entry_def safe_nat_def max_safe_integer_def)
  show "guard_wf (ex_guard es n)" using assms(1) n e by (auto simp: guard_wf_def ex_guard_def safe_nat_def max_safe_integer_def)
  have "we_path ex_entry = ''a''" by (simp add: ex_entry_def)
  then show "guard_ok ''.pi'' ex_guard_limits (ex_guard es n)"
    using assms ex_strict
    by (auto simp: guard_ok_def ex_guard_def ex_guard_limits_def guard_hash_def max_guard_paths_def max_guard_path_bytes_def)
qed

definition ex_bytes :: "nat list" where
  "ex_bytes = utf8 (''?? a'' @ [CHR 0x00])"

lemma ex_parsed: "parse_status 400 ex_bytes = Some [(''a'', ''??'')]"
proof -
  have out: "status_output ex_items = ex_bytes" by code_simp
  have "item_wf 400 \<lparr>si_status = ''??'', si_path = ''a'', si_from = None\<rparr>"
    using ex_strict(1,2,4) by (simp add: item_wf_def path_fits_def renames_def)
  then have "list_all (item_wf 400) ex_items" by (simp add: ex_items_def)
  moreover have "list_all git_item ex_items" by (simp add: ex_items_def git_item_def renames_def)
  ultimately show ?thesis using parse_git_output[of ex_items 400] unfolding out by (simp add: ex_items_def item_paths_def)
qed

text \<open>A rename is given back with both paths; a type change is refused.\<close>

lemma status_output_is_parsed_witness:
  "parse_status 400 (status_output [\<lparr>si_status = ''R '', si_path = ''b'', si_from = Some ''a''\<rparr>]) = Some [(''b'', ''R ''), (''a'', ''R '')]
   \<and> parse_status 400 (status_output [\<lparr>si_status = '' T'', si_path = ''a'', si_from = None\<rparr>]) = None"
proof -
  have "strict_guard_path ''b''" "byte_length ''b'' = 1" by code_simp+
  moreover have "list_all git_item [\<lparr>si_status = ''R '', si_path = ''b'', si_from = Some ''a''\<rparr>]"
    "list_all git_item [\<lparr>si_status = '' T'', si_path = ''a'', si_from = None\<rparr>]"
    by (simp_all add: git_item_def renames_def)
  ultimately show ?thesis
    using ex_strict(1,4) status_output_is_parsed[of "[\<lparr>si_status = ''R '', si_path = ''b'', si_from = Some ''a''\<rparr>]" 400]
      status_output_is_parsed[of "[\<lparr>si_status = '' T'', si_path = ''a'', si_from = None\<rparr>]" 400]
    by (simp add: item_paths_def path_fits_def)
qed

lemma ex_collected: "collect_guard ''.pi'' ex_guard_io ''/w'' JUndef = (Inr (ex_guard [ex_entry] 5), gd_meter (ex_guard [ex_entry] 5))"
proof -
  have git: "read_git_head ex_guard_io = Inr None" "read_git_status ex_guard_io = Inr ex_bytes"
    by (simp_all add: read_git_head_def read_git_status_def ex_guard_io_def ex_bytes_def)
  have len: "length ex_bytes = 5" by code_simp
  have seen: "stat_path ex_guard_io ph ''a'' = Some (we_identity ex_entry)" for ph
  proof -
    have "path_stat.truncate (path_stat.extend ex_stat (guard_stat.fields False)) = ex_stat"
      by (simp add: path_stat.defs guard_stat.defs ex_stat_def)
    moreover have "kind_of_stat (path_stat.extend ex_stat (guard_stat.fields False)) = Gk_file"
      by (simp add: kind_of_stat_def path_stat.defs guard_stat.defs ex_stat_def)
    ultimately show ?thesis using ex_normal by (simp add: stat_path_def ex_guard_io_def identity_from_stat_def ex_entry_def)
  qed
  have inside: "\<not> outside_root ''/w'' ''a''" by code_simp
  have fault: "\<not> gx_fault ex_guard_io pt p" for pt p by (simp add: ex_guard_io_def)
  define m where "m = \<lparr>gm_status = 5, gm_relevant = 1, gm_irrelevant = 0, gm_stats = 0\<rparr>"
  have entries: "guard_entries ex_guard_io ''/w'' m [(''a'', ''??'')] = (Inr [ex_entry], m\<lparr>gm_stats := 2\<rparr>)"
    using inside fault seen by (simp add: guard_entries_def count_stat_def) (simp add: ex_entry_def m_def)
  have sorted: "sort_out ''.pi'' [] [(''a'', ''??'')] = Some ([(''a'', ''??'')], [])" using ex_strict(5) by simp
  have guard: "\<lparr>gd_head = None, gd_entries = [ex_entry], gd_irrelevant = [], gd_meter = m\<lparr>gm_stats := 2\<rparr>, gd_hash = guard_hash None [ex_entry]\<rparr>
      = ex_guard [ex_entry] 5"
    by (simp add: ex_guard_def m_def)
  have lims: "gl_status ex_guard_limits = 1048576" "gl_path ex_guard_limits = 400" "gl_relevant ex_guard_limits = 500" "gl_irrelevant ex_guard_limits = 500"
    by (simp_all add: ex_guard_limits_def max_guard_paths_def max_guard_irrelevant_def max_status_bytes_def max_guard_path_bytes_def)
  have meter: "empty_meter\<lparr>gm_status := 5, gm_relevant := 1, gm_irrelevant := 0\<rparr> = m" by (simp add: empty_meter_def m_def)
  have one: "length [(''a'', ''??'')] = 1" by simp
  show ?thesis
    using ex_guard_valid[of "[ex_entry]" 5] meter entries
    by (simp add: collect_guard_def ex_guard_limits git len lims ex_parsed sorted ex_strict(5) Let_def guard max_status_bytes_def)
      (simp add: ex_guard_def m_def)
qed

lemma collected_guard_is_valid_witness:
  "validate_guard ''.pi'' JUndef (guard_value (ex_guard [ex_entry] 5)) = Some (ex_guard [ex_entry] 5)
     \<and> collected_from ''.pi'' ex_guard_io ex_guard_limits (ex_guard [ex_entry] 5)"
  using collected_guard_is_valid[OF ex_guard_limits ex_collected] by blast

subsection \<open>The change set\<close>

definition ex_evidence :: fields where
  "ex_evidence = finalize_input ''/w'' ex_3 ex_seal (ex_guard [] 0) (ex_guard [ex_entry] 5) []"

lemma ex_finalizer_limits: "finalizer_limits JUndef = Some ex_id_limits"
  by (simp add: finalizer_limits_def own_keys_def get_prop_def read_limit_def ex_id_limits_def)

lemma ex_journal_3: "wj_sealed ex_3" "wj_hash ex_3 = Some ex_seal" "wj_operations ex_3 = [ex_op (Some (ex_after, Write_succeeded))]"
  by (simp_all add: ex_3_def ex_open_3_def ex_2_def ex_journal_def)

lemma ex_facts:
  "change_facts ''.pi'' (pure_fields ex_evidence finals m)
     = Inr ((wj_delegation ex_3, wj_contract ex_3, ex_seal), wj_operations ex_3, (ex_guard [] 0, ex_guard [ex_entry] 5), [])"
  unfolding ex_evidence_def
  by (rule evidence_facts[OF ex_run(4) ex_journal_3(1,2)])
    (simp_all add: ex_guard_valid max_status_bytes_def strictly_sorted_iff)

lemma ex_touched: "touched_change_paths (wj_operations ex_3) = [''a'']"
  by (simp add: ex_journal_3 touched_change_paths_def ex_op_def)

lemma ex_computed:
  "\<exists>c. compute_change_set ''.pi'' (pure_input ex_evidence [ex_after] (ex_meter 1 1)) = Inr c \<and> cs_conflicts c = []"
proof -
  let ?bg = "ex_guard [] 0" and ?ag = "ex_guard [ex_entry] 5" and ?xs = "wj_operations ex_3"
  have cap: "capture_identities (ex_io True) ''/w'' (Some ex_id_limits) zero_meter (touched_change_paths ?xs) = (Inr [ex_after], ex_meter 1 1)"
    using ex_capture(2)[of 0 0] by (simp add: ex_touched ex_bounds) (simp add: zero_meter_def ex_meter_def)
  have comp: "compute_change_set ''.pi'' (pure_input ex_evidence [ex_after] (ex_meter 1 1))
      = attribute_changes (wj_delegation ex_3) (wj_contract ex_3) ex_seal ?xs ?bg ?ag [] [ex_after] (ex_meter 1 1)"
    by (rule compute_after_capture(1)[OF ex_facts ex_finalizer_limits _ cap]) (simp add: ex_touched ex_id_limits_def ex_bounds)
  have at: "guard_at ?bg p = None" "guard_at ?ag p = (if p = ''a'' then Some ex_entry else None)" for p
    by (simp_all add: guard_at_def ex_guard_def ex_entry_def)
  have last: "last_after ?xs ''a'' = Some ex_after" "first_before ?xs ''a'' = Missing_at ''a''"
    by (simp_all add: ex_journal_3 last_after_def last_op_def first_before_def first_op_def ex_op_def)
  have "path_conflict ?xs ?bg ?ag ''a'' ex_after = None"
    by (simp add: path_conflict_None last at entry_matches_def) (simp add: ex_entry_def ex_after_def guard_matches_def)
  then have conf: "change_conflicts ?xs ?bg ?ag (zip (touched_change_paths ?xs) [ex_after]) = []"
    by (simp add: ex_touched no_conflicts)
  have drift: "workspace_drift [] (touched_change_paths ?xs) ?bg ?ag = []"
    by (simp add: workspace_drift_def ex_touched guard_paths_def ex_guard_def ex_entry_def)
  obtain c where c: "attribute_changes (wj_delegation ex_3) (wj_contract ex_3) ex_seal ?xs ?bg ?ag [] [ex_after] (ex_meter 1 1) = Inr c"
    by (simp add: attribute_changes_def Let_def drift)
  with attribute_fields(6)[OF c] conf comp show ?thesis by simp
qed

lemma ex_facts_set: "journal_facts (wj_operations ex_3) = {(''a'', Missing_at ''a'', ex_after)}"
  by (auto simp: journal_facts_def ex_journal_3 last_after_def last_op_def first_before_def first_op_def ex_op_def content_equal_def ex_after_def)

lemma attribution_is_exact_witness:
  "\<exists>c. compute_change_set ''.pi'' (pure_input ex_evidence [ex_after] (ex_meter 1 1)) = Inr c \<and> delta_facts c = {(''a'', Missing_at ''a'', ex_after)}"
proof -
  obtain c where c: "compute_change_set ''.pi'' (pure_input ex_evidence [ex_after] (ex_meter 1 1)) = Inr c" "cs_conflicts c = []"
    using ex_computed by blast
  from attribution_is_exact[OF c(1)[unfolded pure_input_fields]] obtain xs where
    xs: "validate_strict_journal (get_prop (pure_fields ex_evidence [ex_after] (ex_meter 1 1)) ''journal'') (cs_delegation c) (cs_contract c) (cs_journal c) = Some xs"
    "delta_facts c = journal_facts xs" using c(2) by auto
  have j: "get_prop (pure_fields ex_evidence [ex_after] (ex_meter 1 1)) ''journal'' = journal_value ex_3"
    unfolding pure_fields_get by (simp add: ex_evidence_def finalize_input_def get_prop_def)
  have "map jo_path xs = journal_paths ex_evidence" "map operation_value xs = map operation_value xs"
    using journal_paths_eq[of ex_evidence] xs(1) by (simp_all add: pure_fields_get)
  obtain f ys bg ag deps finals where f: "pure_input ex_evidence [ex_after] (ex_meter 1 1) = JObj f"
    "computed_from ''.pi'' f ys bg ag deps finals c" using compute_cases[OF c(1)] by blast
  then have "ys = wj_operations ex_3" "change_facts ''.pi'' f = Inr ((cs_delegation c, cs_contract c, cs_journal c), ys, (bg, ag), deps)"
    using ex_facts by (auto simp: computed_from_def pure_input_fields)
  then have "validate_strict_journal (get_prop f ''journal'') (cs_delegation c) (cs_contract c) (cs_journal c) = Some (wj_operations ex_3)"
    unfolding change_facts_def by (auto split: option.splits if_splits)
  with xs f(1) have "xs = wj_operations ex_3" by (simp add: pure_input_fields)
  with c xs(2) ex_facts_set show ?thesis by auto
qed

lemma computed_change_set_validates_witness:
  "\<exists>c. compute_change_set ''.pi'' (pure_input ex_evidence [ex_after] (ex_meter 1 1)) = Inr c \<and> validate_change_set (change_set_value c) = Some c"
  using ex_computed computed_change_set_validates by blast

lemma finalizer_accepts_evidence_witness:
  "case finalize_change_set ''.pi'' (ex_io True) ''/w'' JUndef (JObj ex_evidence) of
      Inl e \<Rightarrow> (\<exists>ie. e = F_identity_failure ie) \<or> (\<exists>x. e = F_limit_exceeded x)
    | Inr c \<Rightarrow> validate_change_set (change_set_value c) = Some c \<and> cs_journal c = ex_seal
        \<and> (\<exists>rt. list_all (\<lambda>e. held_still (ex_io True) ''/w'' rt (at_after e)) (cs_delta c))"
  unfolding ex_evidence_def
  by (rule finalizer_accepts_evidence[OF ex_run(4) ex_journal_3(1,2), where l = ex_id_limits])
    (simp_all add: ex_guard_valid max_status_bytes_def ex_finalizer_limits strictly_sorted_iff)

end
