(* ===== verification/Spec2Isabelle.thy ===== *)
theory Spec2Isabelle
  imports Lane_Admission Delegation_State Worker_Spend Mode_Policy Transaction_Examples
    Compact_Attempt Compact_Preflight Cursor_Safety Checkpoint_Safety Tool_Result
    Gate_Record_Examples Attribution_Examples
begin

text \<open>
  A verification development of the workbench runtime (extensions/workbench-runtime): the parts of
  pi-dev-workbench that decide, as pure code, what a coding session may do.

  \<^bold>\<open>The program.\<close> A commander delegates work to worker processes. Every tool call of both passes a
  guard (modes, protected files, catastrophic commands, write leases, the path contract of a
  worker). A delegation is a durable transaction; its review state, its lane of paths, the spend of
  its worker and the checkpoint a successor may continue from are records that are hashed, stored
  and read back by strict parsers. A resolver reads one snapshot of all authorities and names the
  single next action. Acceptance gates are run over the project and leave a record that is trusted
  later. What a worker writes is journalled, and its change set is attributed to it from the journal and
  two snapshots of the work tree. Compaction, paging and the output budget of a turn bound what a
  session keeps in its context.

  \<^bold>\<open>Theories and sources.\<close> Files are below extensions/workbench-runtime/.
  \<^item> Prelude, Js_Value, Js_Number, Js_Double, Js_Time: lists, words, strings and the unknown values the
    parsers receive, number texts, doubles with their rounding and overflow, and instants
    (\<open>toISOString\<close>, \<open>Date.parse\<close> of canonical texts).
  \<^item> Canonical_Hash, Json_Size (cache/canonical-hash.ts): SHA-256 on words of 32 bits, canonical JSON,
    authority hashes; the locale \<open>sealed_record\<close> of records that carry the hash of their other fields.
  \<^item> Lifecycle_Types, Lifecycle_Resolver, Lifecycle_Safety, Lifecycle_Projections
    (core/delegation-lifecycle-resolver.ts): the snapshot with its closed parser, the decision cascade
    of version one, its guarantees, and the compatibility projections.
  \<^item> Path_Lane, Path_Lane_Safety (core/delegation-path-lane.ts) and Lane_Admission
    (core/delegation-path-lane-admission.ts): when a delegation may run beside unfinished ones, the
    admission over a scanned ledger, its revalidation, and its projection into the resolver.
  \<^item> Delegation_State (core/delegation-state.ts): the review state of the latest delegation.
  \<^item> Delegation_Transaction, Transaction_Safety, Transaction_Life, Transaction_Examples
    (core/delegation-transaction.ts, core/worker-run-failure.ts): the durable record, its parser, the
    seven transitions and the step relation \<open>tx_life\<close> of their runs; Cas_Machine holds the locale of
    machines advanced by compare-and-swap, which the transaction interprets.
  \<^item> Worker_Spend (core/worker-budget.ts, core/worker-spend.ts) and Worker_Checkpoint,
    Checkpoint_Safety (core/worker-checkpoint.ts): the spend of a worker process and the checkpoint
    that carries it to a successor.
  \<^item> Command_Guard (core/command-guard.ts), Path_Guard (core/path-policy.ts, core/path-guard.ts,
    worker/path-scope.ts), Write_Authority (core/write-authority.ts), Mode_Policy (core/mode-policy.ts,
    core/worker-policy.ts, core/tool-catalog.ts): the guards, composed as the code composes them.
  \<^item> Compact_Attempt (core/compact-lifecycle.ts, core/compact-overflow.ts), Compact_Preflight
    (core/compact-preflight.ts): attempts at a compaction and the check that each request fits.
  \<^item> Continuation_Cursor, Cursor_Safety (core/continuation-cursor.ts): the opaque page cursors.
  \<^item> Js_Text, Output_Policy (core/output-policy.ts), Output_Envelope (core/output-envelope.ts), Turn_Plan,
    Turn_Budget, Turn_Safety (core/turn-output-budget.ts), Tool_Result (the result handler of
    core/tool-result-middleware-controller.ts): how much of a tool result enters the context. A turn is
    planned, calls are authorised, results are cut to their allocation and accounted; the methods of the
    turn state are the step relation \<open>turn_step\<close>.

  \<^item> Gate_Schema, Gate_Order (core/gate-schema.ts), Gate_Catalog (core/gate-catalog.ts), Gate_Plan
    (core/plan-reference.ts), Candidate_Binding (core/candidate-binding.ts), Gate_Check, Gate_Run,
    Gate_Record (core/gate-engine.ts), Gate_Safety, Gate_Record_Safety, Gate_Roundtrip, Gate_Examples,
    Gate_Record_Examples: the gates of a project and their order, the evaluation of every kind of check,
    the run with its verdict, its two records and the strict reader of these. A run asks recipes, stored
    runs, files, globs, the schema validator and the clock through \<open>check_context\<close>, at the point
    of the run (\<open>run_point\<close>) where the code asks, so answers may change during a run.
  \<^item> File_Identity (core/streaming-identity.ts): the identities of files, captured in bounded chunks with
    every race check; the file system is the record \<open>identity_io\<close>, asked per path and point.
  \<^item> Json_Pretty, Pretty_Size, Write_Journal, Journal_Reading, Journal_Safety (core/write-journal.ts): the
    journal of the write operations of a worker, its strict reader, its transitions (begin, complete,
    seal) and the publication of a record by compare-and-swap of its canonical hash.
  \<^item> Workspace_Guard, Guard_Capture, Guard_Safety (core/workspace-guard.ts, the path rules of
    core/delegation-ledger.ts): snapshots of the work tree, from the bytes of Git's status on, with the
    strict reader; Git and the file system are \<open>guard_io\<close>.
  \<^item> Change_Set, Change_Finalizer, Change_Safety, Attribution, Attribution_Examples (core/change-set.ts,
    core/change-set-finalizer.ts): change sets computed from a journal, two snapshots and final
    identities, their strict reader, and the finalizer over journal, guard and capture.

  A TypeScript object type is a record, a union of literals a datatype with a function to its text,
  an \<open>unknown\<close> argument a value of \<open>jv\<close>; a parser returns an option, a transition that
  refuses returns the refusal as the left of a sum. Optional fields are options. Class state is a
  record that each method returns updated. Names follow the source.
\<close>

text \<open>
  \<^bold>\<open>What is shown.\<close> Parsers are closed and read back what is printed (lifecycle snapshots,
  transactions, leases, review states, cursors), so no other text gives the same authority; equal
  hashes come from equal data or a collision (canonical JSON, lineages, checkpoints). The resolver
  fails closed, is bound to the hash of its snapshot and selects promotion and recovery exactly under
  their conditions. An allowed lane grants no subtree that overlaps an immutable path and no immutable
  path itself, whatever the order of the input (an exact rule below an immutable path is admitted by
  design), and a failed scan admits nothing and names the authority that failed. State machines keep their invariants along every run:
  review bindings, leases (at most ten writes, thirty minutes), transactions (accepted work is proved,
  each revision is consumed once, time never runs backwards), attempts (they end once). A worker
  process reaches its hard stop, exactly at its limits as long as its counters are exact. The order of gates is topological and fails exactly on real faults; a gate run
  that passes was earned by its checks and their prerequisites, a final one proves the safety state, and
  its records are read back as they were written and accepted only when they bear their statuses.
  A captured identity is that of a file that held still; a journal that was published is read back, and its
  history is only ever extended; Git's status is parsed as it was printed or refused, with the exact
  condition; a change set without conflicts names exactly the touched paths whose identities differ,
  keeps foreign changes apart, and is accepted by its reader and by the finalizer's checks. The guards let through only what mode, contract and credentials allow. A
  compaction that passes fits its window; a continuation stays in its contract and its budget. A turn
  plan is sound, complete and installable; a result is cut honestly to its caps, accounted once, and all
  results of a turn fit its budget (the theorem of this theory, which spans plan, envelope and accounting).

  \<^bold>\<open>Bounds and assumptions.\<close> Strings are lists of characters of Latin-1, so a length in code units is
  a length of the list and UTF-8 is written out for those characters. Numbers are integers and opaque
  finite fractions (the spend of a worker is added in doubles, with rounding and overflow); values are plain data (no proxies, accessors, symbols or class instances). SHA-256
  is computed in Canonical_Hash; the other theories take the hash as a parameter or compute with it
  only symbolically. \<open>realpath\<close>, the scan of the ledger, \<open>Date.parse\<close> of lease times and the
  message serializer of the host are parameters, as are the effects of gate checks, the locale order
  of plan criteria, the answers of files and Git to captures, and the name of the configuration directory. Dashes and ellipses outside Latin-1 in texts are written with ASCII. Sizes of stored JSON are those of the printed value. Adapters and hooks of captures are taken to have the declared shape; the temporary
  files, the lock and the rename behind a publication are one step.
  \<open>TextDecoder\<close> and \<open>JSON.parse\<close> of a cursor are modelled on the texts that can be
  canonical. The \<open>RangeError\<close> of an impossible checkpoint date is a refusal of the model. The eight
  rounds that fit a marker to its text are those of the source. Byte counts of a turn are natural numbers
  far below the safe integers. All
  recursion ends by structure or by a measure proved here; there is no fuel.

  \<^bold>\<open>Exceptions found.\<close> Some lemmas state where the code departs from its intent: a lane rule with two
  slashes at its end (\<open>double_slash_lane_escapes\<close>), a separator behind an empty quoted word
  (\<open>empty_quotes_hide_a_command\<close>), an abort after a resume (\<open>abort_after_resume_is_unreadable\<close>),
  a status given as an array (\<open>array_status_is_accepted\<close>), a cursor behind a byte order mark
  (\<open>marked_cursor_is_accepted\<close>), a token counter that overflows and is then read as zero
  (\<open>overflow_reached\<close>, \<open>overflow_resets_total\<close>), and a changed file type in Git's status, which is
  refused (\<open>status_output_is_parsed_witness\<close>). Runs whose records the reader refuses are those outside
  \<open>persistable\<close>: repeated selectors, ids that are array indices, and plan gates that failed without
  being requested or required.

  \<^bold>\<open>Not modelled.\<close> Storage, locks and ledger scans (delegation-transaction-storage.ts,
  delegation-ledger.ts, delegation-project-authority.ts), Git and candidates, processes of workers,
  calls of models (structured-sol-review.ts, diff-review.ts), recipes and run storage, the file caches, the
  history of the context and the ingress projection of results, and the commands, controllers and texts
  around the decisions: effects and glue, or left for later work.
  Of the resolver, version two of the snapshot and its action table are not modelled.
\<close>

section \<open>Tool results in a turn\<close>

text \<open>C13: All tool results of a planned turn together fit its budget. Whatever the tools return and in whatever order calls
  are authorised, delivered, released or accounted, the bytes of all texts that were shown are accounted in full, and the
  accounted bytes with the control texts stay within the cap of the turn and of its role.\<close>

theorem delivered_results_fit_turn:
  assumes "turn_delivers st as ts"
  shows "total_bytes ts \<le> ts_consumed st \<and> ts_consumed st + ts_control_consumed st \<le> ts_max st \<and> ts_max st \<le> role_cap (ts_role st)"
proof -
  have d: "turn_run st" "total_bytes ts \<le> ts_consumed st" using turn_delivers_inv[OF assms] by (simp_all add: delivery_inv_def)
  show ?thesis using turn_run_inv[OF d(1)] sums_bounded[of "ts_records st"] d(2) by (auto simp: turn_inv_def)
qed

theorem delivered_results_fit_turn_witness:
  "5 \<le> ts_consumed (snd (deliver_result turn_1 auth_1 result_1))
   \<and> ts_consumed (snd (deliver_result turn_1 auth_1 result_1)) \<le> role_cap (ts_role (snd (deliver_result turn_1 auth_1 result_1)))"
proof -
  obtain env st where d: "deliver_result turn_1 auth_1 result_1 = (env, st)" by fastforce
  have env: "shown_text env = ''hello''" using deliver_1 shown_1 by (simp add: d)
  have "turn_delivers st [auth_1] [shown_text env]" by (rule delivered[OF delivers_1 _ d]) simp
  from delivered_results_fit_turn[OF this] have "total_bytes [''hello''] \<le> ts_consumed st" "ts_consumed st \<le> role_cap (ts_role st)"
    by (simp_all add: env)
  moreover have "total_bytes [''hello''] = 5" by code_simp
  ultimately show ?thesis by (simp add: d)
qed

end
